(* ===== verification/Prelude.thy ===== *)
theory Prelude
  imports Main "HOL-Library.AList" "HOL-Library.Sublist" "HOL-Library.Code_Target_Nat"
begin

text \<open>
  Shared vocabulary of the development: the JavaScript containers and string
  operations that every component uses, the collections of rewrite rules the
  component theories feed, and the two interfaces (a keyed store, an audited
  state machine) whose laws are proved once and interpreted per component.

  A JavaScript string is a list of code units; HOL's \<open>char\<close> holds the code
  units below 256, which is the alphabet this development speaks about.
  A JavaScript \<open>Map\<close> iterates in insertion order, and \<open>set\<close> on a present key
  keeps its position: that is an association list under \<^const>\<open>AList.update\<close>.
\<close>

named_theorems frame \<open>which fields an operation leaves alone\<close>
named_theorems step_defs \<open>definitions of operations, to unfold in step proofs\<close>

subsection \<open>Maps in insertion order\<close>

type_synonym ('k, 'v) jsmap = "('k \<times> 'v) list"

abbreviation js_get :: "('k, 'v) jsmap \<Rightarrow> 'k \<Rightarrow> 'v option" where
  "js_get m k \<equiv> map_of m k"

abbreviation js_set :: "'k \<Rightarrow> 'v \<Rightarrow> ('k, 'v) jsmap \<Rightarrow> ('k, 'v) jsmap" where
  "js_set k v m \<equiv> AList.update k v m"

abbreviation js_delete :: "'k \<Rightarrow> ('k, 'v) jsmap \<Rightarrow> ('k, 'v) jsmap" where
  "js_delete k m \<equiv> AList.delete k m"

definition js_has :: "('k, 'v) jsmap \<Rightarrow> 'k \<Rightarrow> bool" where
  "js_has m k = (map_of m k \<noteq> None)"

definition js_values :: "('k, 'v) jsmap \<Rightarrow> 'v list" where
  "js_values m = map snd m"

text \<open>Assigning to the fields of an object that a map holds: the object is shared,
  so the map sees the change at its place.\<close>

definition js_modify :: "'k \<Rightarrow> ('v \<Rightarrow> 'v) \<Rightarrow> ('k, 'v) jsmap \<Rightarrow> ('k, 'v) jsmap" where
  "js_modify k f m = (case map_of m k of None \<Rightarrow> m | Some v \<Rightarrow> AList.update k (f v) m)"

lemma js_get_set [simp]: "js_get (js_set k v m) k' = (if k' = k then Some v else js_get m k')"
  by (simp add: update_conv)

lemma js_get_delete [simp]: "js_get (js_delete k m) k' = (if k' = k then None else js_get m k')"
  by (simp add: delete_conv)

lemma js_get_modify [simp]:
  "js_get (js_modify k f m) k' = (if k' = k then map_option f (js_get m k) else js_get m k')"
  by (simp add: js_modify_def split: option.split)

lemma js_has_set [simp]: "js_has (js_set k v m) k' \<longleftrightarrow> k' = k \<or> js_has m k'"
  by (simp add: js_has_def)

lemma js_has_empty [simp]: "\<not> js_has [] k"
  by (simp add: js_has_def)

lemma js_has_modify [simp]: "js_has (js_modify k f m) k' = js_has m k'"
  by (auto simp: js_has_def)

lemma distinct_keys_set [simp]: "distinct (map fst m) \<Longrightarrow> distinct (map fst (js_set k v m))"
  by (rule distinct_update)

lemma distinct_keys_modify [simp]:
  "distinct (map fst m) \<Longrightarrow> distinct (map fst (js_modify k f m))"
  by (simp add: js_modify_def split: option.split)

lemma fst_set_modify [simp]: "fst ` set (js_modify k f m) = fst ` set m"
proof (cases "map_of m k")
  case None
  then show ?thesis by (simp add: js_modify_def)
next
  case (Some v)
  then have "k \<in> fst ` set m" by (metis domI dom_map_of_conv_image_fst)
  with Some show ?thesis by (auto simp: js_modify_def dom_update)
qed

lemma length_js_set: "length (js_set k v m) = (if js_has m k then length m else Suc (length m))"
  by (induction m) (auto simp: js_has_def)

lemma length_js_modify [simp]: "length (js_modify k f m) = length m"
  by (auto simp: js_modify_def length_js_set js_has_def split: option.split)

lemma js_set_fresh: "js_get m k = None \<Longrightarrow> js_set k v m = m @ [(k, v)]"
  by (induction m) (auto split: if_splits)

text \<open>A property of every stored value survives a store and an in-place change.\<close>

definition all_values :: "('v \<Rightarrow> bool) \<Rightarrow> ('k, 'v) jsmap \<Rightarrow> bool" where
  "all_values P m \<longleftrightarrow> (\<forall>k v. js_get m k = Some v \<longrightarrow> P v)"

lemma all_values_empty [simp]: "all_values P []"
  by (simp add: all_values_def)

lemma all_values_set: "all_values P m \<Longrightarrow> P v \<Longrightarrow> all_values P (js_set k v m)"
  by (simp add: all_values_def)

lemma all_values_modify:
  "all_values P m \<Longrightarrow> (\<And>v. js_get m k = Some v \<Longrightarrow> P v \<Longrightarrow> P (f v)) \<Longrightarrow>
    all_values P (js_modify k f m)"
  by (auto simp: all_values_def split: if_splits)

lemma all_valuesD: "all_values P m \<Longrightarrow> js_get m k = Some v \<Longrightarrow> P v"
  by (simp add: all_values_def)

subsection \<open>Arrays searched by \<open>find\<close> and changed in place\<close>

fun update_first :: "('a \<Rightarrow> bool) \<Rightarrow> ('a \<Rightarrow> 'a) \<Rightarrow> 'a list \<Rightarrow> 'a list" where
  "update_first p f [] = []"
| "update_first p f (x # xs) = (if p x then f x # xs else x # update_first p f xs)"

lemma length_update_first [simp]: "length (update_first p f xs) = length xs"
  by (induction xs) auto

lemma update_first_None: "List.find p xs = None \<Longrightarrow> update_first p f xs = xs"
  by (induction xs) (auto split: if_splits)

lemma find_update_first:
  "List.find p xs = Some x \<Longrightarrow> p (f x) \<Longrightarrow> List.find p (update_first p f xs) = Some (f x)"
  by (induction xs) (auto split: if_splits)

lemma find_SomeD: "List.find p xs = Some x \<Longrightarrow> x \<in> set xs \<and> p x"
  by (induction xs) (auto split: if_splits)

lemma find_None_iff: "List.find p xs = None \<longleftrightarrow> (\<forall>x\<in>set xs. \<not> p x)"
  by (induction xs) auto

lemma set_update_first: "set (update_first p f xs) \<subseteq> set xs \<union> f ` {x \<in> set xs. p x}"
  by (induction xs) auto

lemma list_all_update_first:
  "list_all P xs \<Longrightarrow> (\<And>x. P x \<Longrightarrow> p x \<Longrightarrow> P (f x)) \<Longrightarrow> list_all P (update_first p f xs)"
  by (induction xs) auto

lemma map_update_first: "(\<And>x. g (f x) = g x) \<Longrightarrow> map g (update_first p f xs) = map g xs"
  by (induction xs) auto

lemma find_append: "List.find p (xs @ ys) = (case List.find p xs of None \<Rightarrow> List.find p ys | Some x \<Rightarrow> Some x)"
  by (induction xs) auto

subsection \<open>Strings\<close>

fun join :: "string \<Rightarrow> string list \<Rightarrow> string" where
  "join sep [] = []"
| "join sep [x] = x"
| "join sep (x # y # ys) = x @ sep @ join sep (y # ys)"

definition starts_with :: "string \<Rightarrow> string \<Rightarrow> bool" where
  "starts_with s p = (take (length p) s = p)"

fun str_includes :: "string \<Rightarrow> string \<Rightarrow> bool" where
  "str_includes [] p = (p = [])"
| "str_includes (c # s) p = (starts_with (c # s) p \<or> str_includes s p)"

definition code_of :: "char \<Rightarrow> nat" where
  "code_of c = of_char c"

text \<open>\<open>toLowerCase\<close> on code units below 256.\<close>

definition lower_char :: "char \<Rightarrow> char" where
  "lower_char c = (let n = code_of c in
     if (65 \<le> n \<and> n \<le> 90) \<or> (192 \<le> n \<and> n \<le> 222 \<and> n \<noteq> 215) then char_of (n + 32) else c)"

definition lower :: "string \<Rightarrow> string" where
  "lower s = map lower_char s"

text \<open>The same on the bits of the code unit, for evaluation.\<close>

lemma lower_char_bits [code]:
  "lower_char (Char a0 a1 a2 a3 a4 a5 a6 a7) =
     (if a6 \<and> \<not> a5 \<and>
         (if a7 then \<not> (a4 \<and> a2 \<and> a1 \<and> a0)
          else (a0 \<or> a1 \<or> a2 \<or> a3 \<or> a4) \<and> \<not> (a4 \<and> a3 \<and> (a2 \<or> (a1 \<and> a0))))
      then Char a0 a1 a2 a3 a4 True a6 a7 else Char a0 a1 a2 a3 a4 a5 a6 a7)"
  by (cases a0; cases a1; cases a2; cases a3; cases a4; cases a5; cases a6; cases a7;
      simp add: lower_char_def code_of_def char_of_def bit_Suc_0_iff)

lemma starts_with_prefix: "starts_with s p \<longleftrightarrow> prefix p s"
  by (metis starts_with_def append_eq_conv_conj prefix_def)

lemma str_includes_sublist: "str_includes s p \<longleftrightarrow> sublist p s"
  by (induction s) (auto simp: starts_with_prefix sublist_Cons_right)

definition digit_char :: "nat \<Rightarrow> char" where
  "digit_char d = char_of (48 + d)"

fun show_nat :: "nat \<Rightarrow> string" where
  "show_nat n = (if n < 10 then [digit_char n] else show_nat (n div 10) @ [digit_char (n mod 10)])"

declare show_nat.simps [simp del]

definition show_int :: "int \<Rightarrow> string" where
  "show_int i = (if i < 0 then ''-'' @ show_nat (nat (- i)) else show_nat (nat i))"

definition pad_left :: "nat \<Rightarrow> char \<Rightarrow> string \<Rightarrow> string" where
  "pad_left n c s = replicate (n - length s) c @ s"

subsection \<open>Interface: a keyed store\<close>

text \<open>What the registries of the program ask of the container they sit on.\<close>

locale keyed_store =
  fixes get :: "'m \<Rightarrow> 'k \<Rightarrow> 'v option"
    and put :: "'k \<Rightarrow> 'v \<Rightarrow> 'm \<Rightarrow> 'm"
  assumes get_put: "get (put k v m) k' = (if k' = k then Some v else get m k')"
begin

lemma get_put_same: "get (put k v m) k = Some v"
  by (simp add: get_put)

lemma get_put_other: "k' \<noteq> k \<Longrightarrow> get (put k v m) k' = get m k'"
  by (simp add: get_put)

lemma last_write_wins: "get (put k v (put k w m)) = get (put k v m)"
  by (rule ext) (simp add: get_put)

lemma writes_commute: "k \<noteq> k' \<Longrightarrow> get (put k v (put k' w m)) = get (put k' w (put k v m))"
  by (rule ext) (simp add: get_put)

end

interpretation jsmap: keyed_store js_get js_set
  by unfold_locales simp

subsection \<open>Interface: a machine with an invariant\<close>

text \<open>
  A component is a step function on its state. What the component promises of
  one step it keeps over any run.
\<close>

locale machine =
  fixes step :: "'e \<Rightarrow> 's \<Rightarrow> 's"
    and inv :: "'s \<Rightarrow> bool"
  assumes step_inv: "inv s \<Longrightarrow> inv (step e s)"
begin

lemma run_inv: "inv s \<Longrightarrow> inv (fold step es s)"
  by (induction es arbitrary: s) (simp_all add: step_inv)

end

text \<open>A machine that also writes an append-only log.\<close>

locale audited_machine = machine step inv
  for step :: "'e \<Rightarrow> 's \<Rightarrow> 's" and inv :: "'s \<Rightarrow> bool" +
  fixes log :: "'s \<Rightarrow> 'l list"
  assumes step_log: "prefix (log s) (log (step e s))"
begin

lemma run_log: "prefix (log s) (log (fold step es s))"
proof (induction es arbitrary: s)
  case Nil
  show ?case by simp
next
  case (Cons e es)
  have "prefix (log (step e s)) (log (fold step es (step e s)))" by (rule Cons.IH)
  with step_log [of s e] show ?case by (auto intro: prefix_order.trans)
qed

lemma run_keeps_entry: "i < length (log s) \<Longrightarrow> log (fold step es s) ! i = log s ! i"
  using run_log [of s es] by (auto simp: prefix_def nth_append)

end

end
