(* ===== verification/Chain.thy ===== *)
theory Chain
  imports Prelude
begin

text \<open>
  Hash-chained logs. Four ledgers of the program are lists of records that carry the
  hash of their predecessor; this theory states what such a list is, what the
  program's integrity checks look at, and proves once what a well-formed chain gives:
  appending keeps it, and under a digest without collisions the last hash determines
  the texts of all the records before it.
\<close>

fun linked :: "('r \<Rightarrow> 'h) \<Rightarrow> ('r \<Rightarrow> 'h) \<Rightarrow> 'h \<Rightarrow> 'r list \<Rightarrow> bool" where
  "linked p h g [] = True"
| "linked p h g (r # rs) = (p r = g \<and> linked p h (h r) rs)"

definition tail_hash :: "('r \<Rightarrow> 'h) \<Rightarrow> 'h \<Rightarrow> 'r list \<Rightarrow> 'h" where
  "tail_hash h g rs = (if rs = [] then g else h (last rs))"

lemma tail_hash_Nil [simp]: "tail_hash h g [] = g"
  by (simp add: tail_hash_def)

lemma tail_hash_Cons [simp]: "tail_hash h g (r # rs) = tail_hash h (h r) rs"
  by (simp add: tail_hash_def)

lemma tail_hash_snoc [simp]: "tail_hash h g (rs @ [r]) = h r"
  by (simp add: tail_hash_def)

lemma linked_append: "linked p h g (rs @ ss) \<longleftrightarrow> linked p h g rs \<and> linked p h (tail_hash h g rs) ss"
  by (induction rs arbitrary: g) auto

lemma linked_snoc: "linked p h g (rs @ [r]) \<longleftrightarrow> linked p h g rs \<and> p r = tail_hash h g rs"
  by (simp add: linked_append)

lemma linked_nth_Suc:
  assumes "linked p h g rs" and "Suc i < length rs"
  shows "p (rs ! Suc i) = h (rs ! i)"
  using assms
proof (induction rs arbitrary: g i)
  case (Cons r rs)
  then show ?case by (cases i; cases rs) auto
qed simp

lemma linked_iff_nth:
  "linked p h g rs \<longleftrightarrow> (rs \<noteq> [] \<longrightarrow> p (hd rs) = g) \<and> (\<forall>i. Suc i < length rs \<longrightarrow> p (rs ! Suc i) = h (rs ! i))"
proof (induction rs arbitrary: g)
  case (Cons r rs)
  show ?case
  proof
    assume "linked p h g (r # rs)"
    then show "(r # rs \<noteq> [] \<longrightarrow> p (hd (r # rs)) = g) \<and>
        (\<forall>i. Suc i < length (r # rs) \<longrightarrow> p ((r # rs) ! Suc i) = h ((r # rs) ! i))"
      using linked_nth_Suc [of p h g "r # rs"] by auto
  next
    assume a: "(r # rs \<noteq> [] \<longrightarrow> p (hd (r # rs)) = g) \<and>
        (\<forall>i. Suc i < length (r # rs) \<longrightarrow> p ((r # rs) ! Suc i) = h ((r # rs) ! i))"
    then have "rs \<noteq> [] \<Longrightarrow> p (hd rs) = h r"
      by (metis hd_conv_nth length_Cons length_greater_0_conv not_less_eq nth_Cons_0 nth_Cons_Suc)
    moreover have "Suc i < length rs \<Longrightarrow> p (rs ! Suc i) = h (rs ! i)" for i
      using a by (metis length_Cons not_less_eq nth_Cons_Suc)
    ultimately show "linked p h g (r # rs)" using a Cons.IH by auto
  qed
qed simp

text \<open>A chain of sealed records: linked from \<open>g\<close> on, each record carrying the digest of
  its text.\<close>

definition hchain ::
    "('r \<Rightarrow> string) \<Rightarrow> ('r \<Rightarrow> string) \<Rightarrow> ('r \<Rightarrow> string) \<Rightarrow> (string \<Rightarrow> string) \<Rightarrow> string \<Rightarrow> 'r list \<Rightarrow> bool" where
  "hchain p h body digest g rs \<longleftrightarrow> linked p h g rs \<and> (\<forall>r\<in>set rs. h r = digest (body r))"

subsection \<open>Interface: a chain of sealed records\<close>

text \<open>
  \<open>body\<close> is the text a record's hash is taken of. The one law asked of a provider is
  that the text of a record contains the hash of its predecessor.
\<close>

locale hash_chain =
  fixes prev_of :: "'r \<Rightarrow> string" and hash_of :: "'r \<Rightarrow> string" and body :: "'r \<Rightarrow> string"
  assumes body_prev: "body r = body r' \<Longrightarrow> prev_of r = prev_of r'"
begin

lemma chain_Nil: "hchain prev_of hash_of body digest g []"
  by (simp add: hchain_def)

lemma chain_snoc:
  "hchain prev_of hash_of body digest g (rs @ [r]) \<longleftrightarrow>
     hchain prev_of hash_of body digest g rs \<and> prev_of r = tail_hash hash_of g rs \<and> hash_of r = digest (body r)"
  by (auto simp: hchain_def linked_snoc)

lemma chain_linked: "hchain prev_of hash_of body digest g rs \<Longrightarrow> linked prev_of hash_of g rs"
  by (simp add: hchain_def)

lemma chain_determined:
  assumes "hchain prev_of hash_of body digest g rs" and "hchain prev_of hash_of body digest g' ss" and "length rs = length ss"
    and "tail_hash hash_of g rs = tail_hash hash_of g' ss"
    and "inj_on digest (body ` (set rs \<union> set ss))"
  shows "map body rs = map body ss"
  using assms
proof (induction rs arbitrary: ss rule: rev_induct)
  case Nil
  then show ?case by simp
next
  case (snoc r rs)
  then obtain s ts where ss: "ss = ts @ [s]" by (cases ss rule: rev_cases) auto
  have r: "hchain prev_of hash_of body digest g rs" "prev_of r = tail_hash hash_of g rs" "hash_of r = digest (body r)"
    using snoc.prems(1) by (simp_all only: chain_snoc)
  have s: "hchain prev_of hash_of body digest g' ts" "prev_of s = tail_hash hash_of g' ts" "hash_of s = digest (body s)"
    using snoc.prems(2) unfolding ss by (simp_all only: chain_snoc)
  have "hash_of r = hash_of s" using snoc.prems(4) unfolding ss by (simp only: tail_hash_snoc)
  with r(3) s(3) have "digest (body r) = digest (body s)" by (simp only:)
  then have b: "body r = body s" by (rule inj_onD [OF snoc.prems(5)]) (simp_all add: ss)
  then have "prev_of r = prev_of s" by (rule body_prev)
  with r(2) s(2) have tl: "tail_hash hash_of g rs = tail_hash hash_of g' ts" by (simp only:)
  have "inj_on digest (body ` (set rs \<union> set ts))"
    by (rule inj_on_subset [OF snoc.prems(5)]) (auto simp: ss)
  moreover have "length rs = length ts" using snoc.prems(3) unfolding ss by (simp only: length_append_singleton nat.inject)
  ultimately have "map body rs = map body ts" using snoc.IH [OF r(1) s(1) _ tl] by blast
  with b show ?case by (simp only: ss map_append list.map)
qed

end

end
