(* ===== verification/JsNumber.thy ===== *)
theory JsNumber
  imports Prelude Complex_Main "HOL-Library.Log_Nat"
begin

text \<open>
  JavaScript numbers. A finite number is the rational it denotes, and every
  arithmetic operation of the program rounds its exact result to the nearest
  binary64 value, ties to the even significand: \<open>fl\<close>. Literals such as
  \<open>0.35\<close> are rounded too. Overflow to infinity and the subnormal range are outside
  the values the program computes with and are not modelled; where the program
  uses \<open>Infinity\<close> as an absent limit it is an \<open>option\<close>.
\<close>

type_synonym jsnum = rat

subsection \<open>Rounding to binary64\<close>

definition bin_expo :: "rat \<Rightarrow> int" where
  "bin_expo x = (let (a, b) = quotient_of x; d = bitlen a - bitlen b
                 in if 2 powi d \<le> x then d else d - 1)"

definition round_even :: "rat \<Rightarrow> int" where
  "round_even y = (let f = \<lfloor>y\<rfloor>; r = y - of_int f
                   in if r < 1 / 2 then f else if r > 1 / 2 then f + 1
                      else if even f then f else f + 1)"

definition fl :: "rat \<Rightarrow> jsnum" where
  "fl x = (if x = 0 then 0
           else let u = 2 powi (bin_expo \<bar>x\<bar> - 52) in of_int (round_even (x / u)) * u)"

definition js_add :: "jsnum \<Rightarrow> jsnum \<Rightarrow> jsnum" where "js_add a b = fl (a + b)"
definition js_sub :: "jsnum \<Rightarrow> jsnum \<Rightarrow> jsnum" where "js_sub a b = fl (a - b)"
definition js_mul :: "jsnum \<Rightarrow> jsnum \<Rightarrow> jsnum" where "js_mul a b = fl (a * b)"
definition js_div :: "jsnum \<Rightarrow> jsnum \<Rightarrow> jsnum" where "js_div a b = fl (a / b)"

subsection \<open>The binary exponent\<close>

lemma bin_expo_bounds:
  assumes "0 < x"
  shows "2 powi bin_expo x \<le> x" and "x < 2 powi (bin_expo x + 1)"
proof -
  obtain a b where q: "quotient_of x = (a, b)" by (cases "quotient_of x")
  have b: "0 < b" using quotient_of_denom_pos [OF q] .
  have x: "x = of_int a / of_int b" using quotient_of_div [OF q] .
  have a: "0 < a" using assms b unfolding x by (simp add: zero_less_divide_iff)
  have pw: "2 powi (bitlen c - 1) \<le> (of_int c :: rat) \<and> (of_int c :: rat) < 2 powi bitlen c"
    if "0 < c" for c :: int
  proof -
    have "2 ^ nat (bitlen c - 1) \<le> c \<and> c < 2 ^ nat (bitlen c)"
      using bitlen_bounds [OF that] .
    moreover have "1 \<le> bitlen c" using that by (smt (verit) bitlen_eq_zero_iff bitlen_nonneg)
    ultimately have "(2 ^ nat (bitlen c - 1) :: rat) \<le> of_int c \<and> (of_int c :: rat) < 2 ^ nat (bitlen c)"
      by (metis of_int_le_iff of_int_less_iff of_int_power of_int_numeral)
    with \<open>1 \<le> bitlen c\<close> show ?thesis by (simp add: power_int_def)
  qed
  define d where "d = bitlen a - bitlen b"
  have up: "x < 2 powi (d + 1)"
  proof -
    have "x * of_int b < 2 powi bitlen a" using pw [OF a] b by (simp add: x)
    also have "\<dots> = 2 powi (d + 1) * 2 powi (bitlen b - 1)"
      by (simp add: d_def flip: power_int_add)
    also have "\<dots> \<le> 2 powi (d + 1) * of_int b"
      using pw [OF b] by (intro mult_left_mono) simp_all
    finally show ?thesis using b by simp
  qed
  have lo: "2 powi (d - 1) \<le> x"
  proof -
    have "(2 :: rat) powi (d - 1) * of_int b \<le> 2 powi (d - 1) * 2 powi bitlen b"
      using pw [OF b] by (intro mult_left_mono) simp_all
    also have "\<dots> = 2 powi (bitlen a - 1)" by (simp add: d_def flip: power_int_add)
    also have "\<dots> \<le> x * of_int b" using pw [OF a] b by (simp add: x)
    finally show ?thesis using b by simp
  qed
  have e: "bin_expo x = (if 2 powi d \<le> x then d else d - 1)"
    by (simp add: bin_expo_def q d_def)
  show "2 powi bin_expo x \<le> x" using lo by (simp add: e)
  show "x < 2 powi (bin_expo x + 1)" using up by (simp add: e)
qed

lemma powi_less_iff: "(2 :: rat) powi i < 2 powi j \<longleftrightarrow> i < j"
  by (metis linorder_neqE_linordered_idom one_less_numeral_iff order_less_asym power_int_strict_increasing semiring_norm(76) order_less_irrefl)

lemma powi_le_iff: "(2 :: rat) powi i \<le> 2 powi j \<longleftrightarrow> i \<le> j"
  by (meson leD leI powi_less_iff)

lemma bin_expo_unique:
  assumes "2 powi k \<le> x" "x < 2 powi (k + 1)"
  shows "bin_expo x = k"
proof -
  have "0 < x" using assms(1) by (meson less_le_trans zero_less_numeral zero_less_power_int)
  note b = bin_expo_bounds [OF this]
  have "2 powi k < (2 :: rat) powi (bin_expo x + 1)" using assms(1) b(2) by linarith
  moreover have "2 powi bin_expo x < (2 :: rat) powi (k + 1)" using assms(2) b(1) by linarith
  ultimately show ?thesis by (simp add: powi_less_iff)
qed

lemma bin_expo_mono: "0 < x \<Longrightarrow> x \<le> y \<Longrightarrow> bin_expo x \<le> bin_expo y"
proof -
  assume x: "0 < x" and xy: "x \<le> y"
  have "2 powi bin_expo x < (2 :: rat) powi (bin_expo y + 1)"
    using bin_expo_bounds [OF x] bin_expo_bounds [of y] x xy by linarith
  then show ?thesis by (simp add: powi_less_iff)
qed

subsection \<open>Rounding to an integer\<close>

lemma round_even_of_int [simp]: "round_even (of_int m) = m"
  by (simp add: round_even_def)

lemma round_even_error: "\<bar>of_int (round_even y) - y\<bar> \<le> 1 / 2"
proof -
  have "0 \<le> y - of_int \<lfloor>y\<rfloor>" "y - of_int \<lfloor>y\<rfloor> < 1" by linarith+
  then show ?thesis by (auto simp: round_even_def Let_def)
qed

lemma round_even_cases: "round_even y = \<lfloor>y\<rfloor> \<or> round_even y = \<lfloor>y\<rfloor> + 1"
  by (simp add: round_even_def Let_def)

lemma round_even_mono: "x \<le> y \<Longrightarrow> round_even x \<le> round_even y"
proof (cases "\<lfloor>x\<rfloor> = \<lfloor>y\<rfloor>")
  case True
  assume "x \<le> y"
  with True show ?thesis by (auto simp: round_even_def Let_def)
next
  case False
  assume "x \<le> y"
  then have "\<lfloor>x\<rfloor> \<le> \<lfloor>y\<rfloor>" by (rule floor_mono)
  with False have "\<lfloor>x\<rfloor> + 1 \<le> \<lfloor>y\<rfloor>" by simp
  then show ?thesis using round_even_cases [of x] round_even_cases [of y] by auto
qed

lemma round_even_minus: "round_even (- y) = - round_even y"
proof (cases "y = of_int \<lfloor>y\<rfloor>")
  case True
  then have "round_even y = \<lfloor>y\<rfloor>" by (metis round_even_of_int)
  moreover have "round_even (- y) = - \<lfloor>y\<rfloor>" by (metis True of_int_minus round_even_of_int)
  ultimately show ?thesis by simp
next
  case False
  then have f: "\<lfloor>- y\<rfloor> = - \<lfloor>y\<rfloor> - 1" by linarith
  show ?thesis by (auto simp: round_even_def Let_def f)
qed

subsection \<open>What rounding keeps\<close>

lemma fl_zero [simp]: "fl 0 = 0"
  by (simp add: fl_def)

lemma fl_minus: "fl (- x) = - fl x"
  by (simp add: fl_def Let_def round_even_minus flip: minus_divide_left)

lemma fl_pos_bounds:
  assumes "0 < x"
  shows "2 powi bin_expo x \<le> fl x" and "fl x \<le> 2 powi (bin_expo x + 1)"
proof -
  define u :: rat where "u = 2 powi (bin_expo x - 52)"
  have u: "0 < u" by (simp add: u_def)
  have f: "fl x = of_int (round_even (x / u)) * u" using assms by (simp add: fl_def Let_def u_def)
  have p: "2 powi bin_expo x = of_int (2 ^ 52) * u" "2 powi (bin_expo x + 1) = of_int (2 ^ 53) * u"
    by (simp_all add: u_def power_int_diff power_int_add)
  have "of_int (2 ^ 52) \<le> x / u" "x / u \<le> of_int (2 ^ 53)"
    using bin_expo_bounds [OF assms] u unfolding p by (simp_all add: field_simps)
  then have "2 ^ 52 \<le> round_even (x / u)" "round_even (x / u) \<le> 2 ^ 53"
    by (metis round_even_mono round_even_of_int)+
  then have "of_int (2 ^ 52) \<le> (of_int (round_even (x / u)) :: rat)"
    "(of_int (round_even (x / u)) :: rat) \<le> of_int (2 ^ 53)"
    by (simp_all only: of_int_le_iff)
  then show "2 powi bin_expo x \<le> fl x" "fl x \<le> 2 powi (bin_expo x + 1)"
    unfolding p f using u by (simp_all only: mult_right_mono less_imp_le)
qed

lemma fl_pos: "0 < x \<Longrightarrow> 0 < fl x"
  using fl_pos_bounds(1) [of x] by (meson less_le_trans zero_less_numeral zero_less_power_int)

lemma fl_nonneg [simp]: "0 \<le> x \<Longrightarrow> 0 \<le> fl x"
  by (cases "x = 0") (auto simp: fl_pos less_imp_le)

lemma fl_mono_pos:
  assumes "0 < x" "x \<le> y"
  shows "fl x \<le> fl y"
proof (cases "bin_expo x = bin_expo y")
  case True
  then show ?thesis using assms
    by (auto simp: fl_def Let_def intro!: mult_right_mono round_even_mono divide_right_mono)
next
  case False
  then have k: "bin_expo x + 1 \<le> bin_expo y" using bin_expo_mono [OF assms] by simp
  have "fl x \<le> 2 powi (bin_expo x + 1)" using fl_pos_bounds assms by auto
  also have "\<dots> \<le> 2 powi bin_expo y" using k by (simp add: powi_le_iff)
  also have "\<dots> \<le> fl y" using fl_pos_bounds assms by auto
  finally show ?thesis .
qed

lemma fl_mono: "x \<le> y \<Longrightarrow> fl x \<le> fl y"
proof -
  assume xy: "x \<le> y"
  consider "0 < x" | "x \<le> 0" "0 \<le> y" | "y < 0" by linarith
  then show ?thesis
  proof cases
    case 1
    then show ?thesis using xy by (rule fl_mono_pos)
  next
    case 2
    then have "0 \<le> fl (- x)" "0 \<le> fl y" by simp_all
    then show ?thesis by (simp add: fl_minus)
  next
    case 3
    then have "fl (- y) \<le> fl (- x)" using xy by (intro fl_mono_pos) auto
    then show ?thesis by (simp add: fl_minus)
  qed
qed

lemma fl_error: "\<bar>fl x - x\<bar> \<le> \<bar>x\<bar> / 2 ^ 53"
proof (cases "x = 0")
  case False
  define u :: rat where "u = 2 powi (bin_expo \<bar>x\<bar> - 52)"
  have u: "0 < u" by (simp add: u_def)
  have "fl x - x = (of_int (round_even (x / u)) - x / u) * u"
    using False u by (simp add: fl_def u_def[symmetric] left_diff_distrib)
  then have "\<bar>fl x - x\<bar> = \<bar>of_int (round_even (x / u)) - x / u\<bar> * u"
    using u by (simp add: abs_mult)
  also have "\<dots> \<le> 1 / 2 * u" using round_even_error u by (intro mult_right_mono) auto
  also have "\<dots> = 2 powi bin_expo \<bar>x\<bar> / 2 ^ 53" by (simp add: u_def power_int_diff)
  also have "\<dots> \<le> \<bar>x\<bar> / 2 ^ 53"
    using bin_expo_bounds(1) [of "\<bar>x\<bar>"] False by (intro divide_right_mono) auto
  finally show ?thesis .
qed simp

lemma fl_exact:
  assumes "\<bar>m\<bar> \<le> 2 ^ 53"
  shows "fl (of_int m * 2 powi e) = of_int m * 2 powi e"
proof (cases "m = 0")
  case False
  define x :: rat where "x = of_int m * 2 powi e"
  define k where "k = bin_expo \<bar>x\<bar>"
  have x0: "0 < \<bar>x\<bar>" using False by (simp add: x_def)
  have "(2 :: rat) powi k \<le> \<bar>x\<bar>" using bin_expo_bounds(1) [OF x0] by (simp add: k_def)
  also have "\<bar>x\<bar> = of_int \<bar>m\<bar> * 2 powi e" by (simp add: x_def abs_mult)
  also have "\<dots> \<le> of_int (2 ^ 53) * 2 powi e"
    using assms by (intro mult_right_mono) (simp_all only: of_int_le_iff zero_le_power_int zero_le_numeral)
  also have "\<dots> = 2 powi (e + 53)" by (simp add: power_int_add)
  finally have k: "k \<le> e + 53" by (simp add: powi_le_iff)
  have "\<exists>j. x / 2 powi (k - 52) = of_int j"
  proof (cases "k \<le> e + 52")
    case True
    then have "(2 :: rat) ^ nat (e + 52 - k) = 2 powi (e + 52 - k)" by (simp add: power_int_def)
    also have "\<dots> = 2 powi e / 2 powi (k - 52)"
      by (simp add: algebra_simps flip: power_int_diff)
    finally have "x / 2 powi (k - 52) = of_int (m * 2 ^ nat (e + 52 - k))" by (simp add: x_def)
    then show ?thesis by blast
  next
    case False
    with k have ke: "k = e + 53" by simp
    have "(2 :: rat) powi k \<le> of_int \<bar>m\<bar> * 2 powi e"
      using bin_expo_bounds(1) [OF x0] by (simp add: k_def x_def abs_mult)
    then have "(of_int (2 ^ 53) :: rat) * 2 powi e \<le> of_int \<bar>m\<bar> * 2 powi e"
      by (simp add: ke power_int_add mult.commute)
    then have "(of_int (2 ^ 53) :: rat) \<le> of_int \<bar>m\<bar>"
      by (simp only: mult_le_cancel_right_pos zero_less_power_int zero_less_numeral)
    then have "2 ^ 53 \<le> \<bar>m\<bar>" by (simp only: of_int_le_iff)
    with assms have "\<bar>m\<bar> = 2 ^ 53" by simp
    then obtain s where s: "m = s * 2 ^ 53" "s = 1 \<or> s = -1" by (metis abs_eq_iff abs_of_nonneg mult_1 mult_minus1 zero_le_numeral zero_le_power)
    have "x / 2 powi (k - 52) = of_int (s * 2 ^ 52)"
      by (simp add: x_def ke s(1) power_int_add)
    then show ?thesis by blast
  qed
  then obtain j where j: "x / 2 powi (k - 52) = of_int j" ..
  have "fl x = x"
    using False j by (simp add: fl_def Let_def k_def[symmetric] x_def[symmetric]) (simp add: x_def field_simps)
  then show ?thesis by (simp add: x_def)
qed simp

lemma fl_of_int: "\<bar>m\<bar> \<le> 2 ^ 53 \<Longrightarrow> fl (of_int m) = of_int m"
  using fl_exact [of m 0] by simp

lemma fl_one [simp]: "fl 1 = 1"
  using fl_of_int [of 1] by simp

lemma fl_idem [simp]: "fl (fl x) = fl x"
proof (cases "x = 0")
  case False
  have "\<exists>m e. fl y = of_int m * 2 powi e \<and> \<bar>m\<bar> \<le> 2 ^ 53" if "0 < y" for y
  proof -
    define u :: rat where "u = 2 powi (bin_expo y - 52)"
    have u: "0 < u" by (simp add: u_def)
    have f: "fl y = of_int (round_even (y / u)) * u" using that by (simp add: fl_def Let_def u_def)
    have "y / u \<le> of_int (2 ^ 53)"
      using bin_expo_bounds(2) [OF that] u by (simp add: u_def field_simps power_int_diff power_int_add)
    then have "round_even (y / u) \<le> 2 ^ 53" by (metis round_even_mono round_even_of_int)
    moreover have "0 \<le> round_even (y / u)" using round_even_mono [of 0 "y / u"] that u
      by (metis divide_nonneg_pos less_imp_le of_int_0 round_even_of_int)
    ultimately have "\<bar>round_even (y / u)\<bar> \<le> 2 ^ 53" by simp
    then show ?thesis using f unfolding u_def by blast
  qed
  then have pos: "fl (fl y) = fl y" if "0 < y" for y using that fl_exact by metis
  show ?thesis
  proof (cases "0 < x")
    case True
    then show ?thesis by (rule pos)
  next
    case False
    with \<open>x \<noteq> 0\<close> have "fl (fl (- x)) = fl (- x)" by (intro pos) simp
    then show ?thesis by (simp add: fl_minus)
  qed
qed simp

lemma fl_le_one: "x \<le> 1 \<Longrightarrow> fl x \<le> 1"
  using fl_mono [of x 1] by simp

lemma fl_eqI:
  assumes "2 powi k \<le> \<bar>x\<bar>" "\<bar>x\<bar> < 2 powi (k + 1)" "round_even (x / 2 powi (k - 52)) = m"
  shows "fl x = of_int m * 2 powi (k - 52)"
proof -
  have "bin_expo \<bar>x\<bar> = k" using assms(1,2) by (rule bin_expo_unique)
  moreover have "x \<noteq> 0" using assms(1) by (metis abs_zero leD zero_less_numeral zero_less_power_int)
  ultimately show ?thesis using assms(3) by (simp add: fl_def)
qed

text \<open>The nearest number, with ties to the even one.\<close>

lemma round_even_eqI:
  assumes "\<bar>y - of_int m\<bar> < 1 / 2 \<or> \<bar>y - of_int m\<bar> \<le> 1 / 2 \<and> even m"
  shows "round_even y = m"
proof -
  have f: "\<lfloor>y\<rfloor> = m \<or> \<lfloor>y\<rfloor> = m - 1" using assms by linarith
  then show ?thesis
  proof
    assume "\<lfloor>y\<rfloor> = m"
    with assms show ?thesis by (auto simp: round_even_def Let_def)
  next
    assume "\<lfloor>y\<rfloor> = m - 1"
    with assms show ?thesis by (auto simp: round_even_def Let_def abs_if split: if_splits)
  qed
qed

lemma fl_nearest:
  assumes "2 powi k \<le> x" "x < 2 powi (k + 1)"
    and "\<bar>x / 2 powi (k - 52) - of_int m\<bar> < 1 / 2 \<or> \<bar>x / 2 powi (k - 52) - of_int m\<bar> \<le> 1 / 2 \<and> even m"
  shows "fl x = of_int m * 2 powi (k - 52)"
proof -
  have "0 < x" using assms(1) by (meson less_le_trans zero_less_numeral zero_less_power_int)
  with assms show ?thesis by (intro fl_eqI round_even_eqI) simp_all
qed

text \<open>A decimal literal of the program.\<close>

definition dec :: "nat \<Rightarrow> nat \<Rightarrow> jsnum" where
  "dec n d = fl (of_nat n / of_nat d)"

lemma dec_nonneg [simp]: "0 \<le> dec n d"
  by (simp add: dec_def)

lemma dec_mono: "n * d' \<le> n' * d \<Longrightarrow> 0 < d \<Longrightarrow> 0 < d' \<Longrightarrow> dec n d \<le> dec n' d'"
  unfolding dec_def by (rule fl_mono) (simp add: field_simps flip: of_nat_mult)

lemma js_add_mono: "a \<le> b \<Longrightarrow> c \<le> d \<Longrightarrow> js_add a c \<le> js_add b d"
  by (simp add: js_add_def fl_mono add_mono)

lemma js_mul_mono: "a \<le> b \<Longrightarrow> 0 \<le> w \<Longrightarrow> js_mul a w \<le> js_mul b w"
  by (simp add: js_mul_def fl_mono mult_right_mono)

lemma js_nonneg [simp]: "0 \<le> a \<Longrightarrow> 0 \<le> b \<Longrightarrow> 0 \<le> js_add a b" "0 \<le> a \<Longrightarrow> 0 \<le> b \<Longrightarrow> 0 \<le> js_mul a b"
  by (simp_all add: js_add_def js_mul_def)

end
