(* ===== verification/Json.thy ===== *)
theory Json
  imports JsNumber
begin

text \<open>
  The values the program serialises and the two renderings it relies on:
  \<open>JSON.stringify\<close> (the text every hash and every scan reads) and
  \<open>Date.prototype.toISOString\<close>. A timestamp is kept as milliseconds since the epoch
  and rendered where the program puts it in a text; an object property whose value
  is \<open>undefined\<close> is absent from the text, so an optional property is a list of at
  most one field.
\<close>

subsection \<open>Numbers as text\<close>

text \<open>The number of digits before the decimal point: an estimate from the binary
  exponent (\<open>1233/4096\<close> is just below \<open>log10 2\<close>), corrected upwards.\<close>

definition dec_expo :: "rat \<Rightarrow> int" where
  "dec_expo x = (let e = bin_expo x * 1233 div 4096 in
     case List.find (\<lambda>n. x < 10 powi n) [e - 1, e, e + 1, e + 2] of None \<Rightarrow> e + 3 | Some n \<Rightarrow> n)"

definition short_digits :: "rat \<Rightarrow> string \<times> int" where
  "short_digits x =
     (let n = dec_expo x;
          sig = (\<lambda>k :: nat. \<lfloor>x * 10 powi (int k - n) + 1 / 2\<rfloor>);
          k = (case List.find (\<lambda>k. fl (of_int (sig k) * 10 powi (n - int k)) = x) [1..<18]
               of None \<Rightarrow> 17 | Some k \<Rightarrow> k);
          ds = show_nat (nat (sig k))
      in (rev (dropWhile (\<lambda>c. c = CHR ''0'') (rev ds)), n + int (length ds) - int k))"

definition expo_str :: "int \<Rightarrow> string" where
  "expo_str e = ''e'' @ (if 0 \<le> e then ''+'' else []) @ show_int e"

definition pos_num_str :: "rat \<Rightarrow> string" where
  "pos_num_str x =
     (let (ds, n) = short_digits x; k = int (length ds) in
      if k \<le> n \<and> n \<le> 21 then ds @ replicate (nat (n - k)) (CHR ''0'')
      else if 0 < n \<and> n \<le> 21 then take (nat n) ds @ ''.'' @ drop (nat n) ds
      else if -6 < n \<and> n \<le> 0 then ''0.'' @ replicate (nat (- n)) (CHR ''0'') @ ds
      else if k = 1 then ds @ expo_str (n - 1)
      else take 1 ds @ ''.'' @ drop 1 ds @ expo_str (n - 1))"

definition num_str :: "jsnum \<Rightarrow> string" where
  "num_str x = (if of_int \<lfloor>x\<rfloor> = x \<and> \<bar>x\<bar> < 10 ^ 21 then show_int \<lfloor>x\<rfloor> else if x < 0 then ''-'' @ pos_num_str (- x) else pos_num_str x)"

definition to_fixed :: "nat \<Rightarrow> jsnum \<Rightarrow> string" where
  "to_fixed f x =
     (let y = \<bar>x\<bar>; n = nat \<lfloor>y * 10 ^ f + 1 / 2\<rfloor>; m = show_nat n;
          p = pad_left (Suc f) (CHR ''0'') m; i = length p - f
      in (if x < 0 then ''-'' else []) @ (if f = 0 then m else take i p @ ''.'' @ drop i p))"

subsection \<open>JSON text\<close>

datatype json =
    JNull
  | JBool bool
  | JNum jsnum
  | JStr string
  | JArr "json list"
  | JObj "(string \<times> json) list"

definition hex_char :: "nat \<Rightarrow> char" where
  "hex_char d = (if d < 10 then char_of (48 + d) else char_of (87 + d))"

definition json_char :: "char \<Rightarrow> string" where
  "json_char c = (let n = code_of c in
     if n = 34 then [char_of (92 :: nat), c]
     else if n = 92 then [c, c]
     else if n = 8 then [char_of (92 :: nat), CHR ''b'']
     else if n = 9 then [char_of (92 :: nat), CHR ''t'']
     else if n = 10 then [char_of (92 :: nat), CHR ''n'']
     else if n = 12 then [char_of (92 :: nat), CHR ''f'']
     else if n = 13 then [char_of (92 :: nat), CHR ''r'']
     else if n < 32 then char_of (92 :: nat) # ''u00'' @ [hex_char (n div 16), hex_char (n mod 16)]
     else [c])"

text \<open>The same on the bits of the code unit, for evaluation.\<close>

lemma json_char_bits [code]:
  "json_char (Char a0 a1 a2 a3 a4 a5 a6 a7) =
     (let c = Char a0 a1 a2 a3 a4 a5 a6 a7 in
      if a5 \<or> a6 \<or> a7 then
        if \<not> a0 \<and> \<not> a7 \<and> (if a1 then a5 \<and> \<not> a2 \<and> \<not> a3 \<and> \<not> a4 \<and> \<not> a6 else a2 \<and> a3 \<and> a4 \<and> \<not> a5 \<and> a6)
        then [CHR 0x5C, c] else [c]
      else
        (let n = code_of c in
         if n = 8 then [CHR 0x5C, CHR ''b'']
         else if n = 9 then [CHR 0x5C, CHR ''t'']
         else if n = 10 then [CHR 0x5C, CHR ''n'']
         else if n = 12 then [CHR 0x5C, CHR ''f'']
         else if n = 13 then [CHR 0x5C, CHR ''r'']
         else CHR 0x5C # ''u00'' @ [hex_char (n div 16), hex_char (n mod 16)]))"
  by (cases a0; cases a1; cases a2; cases a3; cases a4; cases a5; cases a6; cases a7;
      simp add: json_char_def code_of_def char_of_def Let_def bit_Suc_0_iff)

definition json_quote :: "string \<Rightarrow> string" where
  "json_quote s = char_of (34 :: nat) # concat (map json_char s) @ [char_of (34 :: nat)]"

primrec stringify :: "json \<Rightarrow> string"
  and json_items :: "json list \<Rightarrow> string list"
  and json_fields :: "(string \<times> json) list \<Rightarrow> string list"
  and json_field :: "string \<times> json \<Rightarrow> string" where
  "stringify JNull = ''null''"
| "stringify (JBool b) = (if b then ''true'' else ''false'')"
| "stringify (JNum x) = num_str x"
| "stringify (JStr s) = json_quote s"
| "stringify (JArr xs) = ''['' @ join '','' (json_items xs) @ '']''"
| "stringify (JObj fs) = ''{'' @ join '','' (json_fields fs) @ ''}''"
| "json_items [] = []"
| "json_items (x # xs) = stringify x # json_items xs"
| "json_fields [] = []"
| "json_fields (f # fs) = json_field f # json_fields fs"
| "json_field (k, v) = json_quote k @ '':'' @ stringify v"

text \<open>Reading a property; \<open>None\<close> is \<open>undefined\<close>.\<close>

definition jget :: "(string \<times> json) list \<Rightarrow> string \<Rightarrow> json option" where
  "jget fs k = map_of fs k"

definition jget_str :: "(string \<times> json) list \<Rightarrow> string \<Rightarrow> string option" where
  "jget_str fs k = (case map_of fs k of Some (JStr s) \<Rightarrow> Some s | _ \<Rightarrow> None)"

definition jstrs :: "string list \<Rightarrow> json" where
  "jstrs xs = JArr (map JStr xs)"

definition jopt_str :: "string option \<Rightarrow> json" where
  "jopt_str x = (case x of None \<Rightarrow> JNull | Some s \<Rightarrow> JStr s)"

definition jnat :: "nat \<Rightarrow> json" where
  "jnat n = JNum (of_nat n)"

definition opt_field :: "string \<Rightarrow> json option \<Rightarrow> (string \<times> json) list" where
  "opt_field k v = (case v of None \<Rightarrow> [] | Some j \<Rightarrow> [(k, j)])"

text \<open>JavaScript truthiness of a value that may be \<open>undefined\<close>.\<close>

fun truthy :: "json option \<Rightarrow> bool" where
  "truthy None = False"
| "truthy (Some JNull) = False"
| "truthy (Some (JBool b)) = b"
| "truthy (Some (JNum x)) = (x \<noteq> 0)"
| "truthy (Some (JStr s)) = (s \<noteq> [])"
| "truthy (Some (JArr xs)) = True"
| "truthy (Some (JObj fs)) = True"

subsection \<open>A quoted string can be read back\<close>

lemma code_of_inject [simp]: "code_of c = code_of d \<longleftrightarrow> c = d"
  by (simp add: code_of_def)

lemma code_of_less: "code_of c < 256"
  by (simp add: code_of_def)

lemma code_of_char_of [simp]: "code_of (char_of (n :: nat)) = n mod 256"
  by (simp add: code_of_def)

lemma hex_char_inject: "m < 16 \<Longrightarrow> n < 16 \<Longrightarrow> hex_char m = hex_char n \<Longrightarrow> m = n"
  by (drule arg_cong [of _ _ code_of]) (simp add: hex_char_def split: if_splits)

lemma char_of_code: "c = char_of (code_of c)"
  by (simp add: code_of_def)

text \<open>The escapes of two different code units differ before either ends.\<close>

definition esc_code :: "nat \<Rightarrow> nat" where
  "esc_code n = (if n = 34 then 34 else if n = 92 then 92 else if n = 8 then 98 else if n = 9 then 116
     else if n = 10 then 110 else if n = 12 then 102 else if n = 13 then 114 else 117)"

definition esc_rest :: "nat \<Rightarrow> string" where
  "esc_rest n = (if esc_code n = 117 then ''00'' @ [hex_char (n div 16), hex_char (n mod 16)] else [])"

lemma json_char_alt:
  "json_char c = (let n = code_of c in
     if n < 32 \<or> n = 34 \<or> n = 92 then char_of (92 :: nat) # char_of (esc_code n) # esc_rest n else [c])"
proof -
  have "code_of c = 34 \<Longrightarrow> char_of (34 :: nat) = c" "code_of c = 92 \<Longrightarrow> char_of (92 :: nat) = c"
    by (metis code_of_def char_of_char)+
  moreover have "CHR ''b'' = char_of (98 :: nat)" "CHR ''t'' = char_of (116 :: nat)" "CHR ''n'' = char_of (110 :: nat)"
    "CHR ''f'' = char_of (102 :: nat)" "CHR ''r'' = char_of (114 :: nat)" "CHR ''u'' = char_of (117 :: nat)"
    by code_simp+
  ultimately show ?thesis
    by (simp add: json_char_def Let_def esc_code_def esc_rest_def)
qed

lemma esc_code_less: "n < 256 \<Longrightarrow> esc_code n < 256"
  by (simp add: esc_code_def)

lemma esc_code_inj: "esc_code m = esc_code n \<Longrightarrow> esc_code m \<noteq> 117 \<Longrightarrow> m = n"
  by (simp add: esc_code_def split: if_splits)

lemma char_of_inj: "m < 256 \<Longrightarrow> n < 256 \<Longrightarrow> char_of (m :: nat) = char_of n \<Longrightarrow> m = n"
  by (drule arg_cong [of _ _ code_of]) simp

lemma hex_pair_inj:
  assumes "m < 256" "n < 256" "hex_char (m div 16) = hex_char (n div 16)" "hex_char (m mod 16) = hex_char (n mod 16)"
  shows "m = n"
proof -
  have "m div 16 = n div 16" using assms by (intro hex_char_inject) auto
  moreover have "m mod 16 = n mod 16" using assms by (intro hex_char_inject) auto
  ultimately show ?thesis by (metis div_mult_mod_eq)
qed

lemma json_char_prefix:
  assumes eq: "json_char c @ u = json_char d @ v"
  shows "c = d \<and> u = v"
proof -
  define e where "e = (\<lambda>n :: nat. n < 32 \<or> n = 34 \<or> n = 92)"
  have jc: "json_char x = (if e (code_of x) then char_of (92 :: nat) # char_of (esc_code (code_of x)) # esc_rest (code_of x) else [x])" for x
    by (simp add: json_char_alt Let_def e_def)
  have ne: "x \<noteq> char_of (92 :: nat)" if "\<not> e (code_of x)" for x
    using that by (auto simp: e_def)
  show ?thesis
  proof (cases "e (code_of c) \<and> e (code_of d)")
    case True
    then have "json_char c = char_of (92 :: nat) # char_of (esc_code (code_of c)) # esc_rest (code_of c)"
      and "json_char d = char_of (92 :: nat) # char_of (esc_code (code_of d)) # esc_rest (code_of d)"
      using jc by presburger+
    with eq have h: "char_of (esc_code (code_of c)) = (char_of (esc_code (code_of d)) :: char)"
      and r: "esc_rest (code_of c) @ u = esc_rest (code_of d) @ v"
      by (simp_all only: append_Cons list.inject)
    have ec: "esc_code (code_of c) = esc_code (code_of d)"
      by (rule char_of_inj [OF esc_code_less esc_code_less h]) (rule code_of_less)+
    show ?thesis
    proof (cases "esc_code (code_of c) = 117")
      case u: True
      with ec r have p: "hex_char (code_of c div 16) = hex_char (code_of d div 16)"
        "hex_char (code_of c mod 16) = hex_char (code_of d mod 16)" and uv: "u = v"
        by (simp_all add: esc_rest_def)
      have "code_of c = code_of d" by (rule hex_pair_inj [OF code_of_less code_of_less p])
      then show ?thesis unfolding code_of_inject using uv by (rule conjI)
    next
      case False
      with ec r have "u = v" by (simp add: esc_rest_def)
      with esc_code_inj [OF ec False] show ?thesis by simp
    qed
  next
    case False
    with eq ne [of c] ne [of d] show ?thesis by (auto simp: jc split: if_splits)
  qed
qed

lemma json_char_head: "json_char c = x # xs \<Longrightarrow> x \<noteq> char_of (34 :: nat)"
  by (auto simp: json_char_alt Let_def split: if_splits dest: char_of_inj)

lemma json_char_not_Nil: "json_char c \<noteq> []"
  by (simp add: json_char_alt Let_def)

lemma json_quote_prefix: "json_quote s @ x = json_quote t @ y \<Longrightarrow> s = t \<and> x = y"
proof (induction s arbitrary: t)
  case Nil
  show ?case
  proof (cases t)
    case Nil
    with Nil.prems show ?thesis by (simp add: json_quote_def)
  next
    case (Cons d t')
    obtain z zs where "json_char d = z # zs" using json_char_not_Nil by (cases "json_char d") auto
    with Nil Cons json_char_head [of d z zs] show ?thesis by (simp add: json_quote_def)
  qed
next
  case (Cons c s)
  show ?case
  proof (cases t)
    case Nil
    obtain z zs where "json_char c = z # zs" using json_char_not_Nil by (cases "json_char c") auto
    with Nil Cons.prems json_char_head [of c z zs] show ?thesis by (simp add: json_quote_def)
  next
    case t: (Cons d t')
    with Cons.prems have
      "json_char c @ (concat (map json_char s) @ [char_of (34 :: nat)] @ x)
       = json_char d @ (concat (map json_char t') @ [char_of (34 :: nat)] @ y)"
      by (simp add: json_quote_def)
    from json_char_prefix [OF this] have "c = d"
      and "concat (map json_char s) @ [char_of (34 :: nat)] @ x = concat (map json_char t') @ [char_of (34 :: nat)] @ y"
      by auto
    with Cons.IH [of t'] t show ?thesis by (simp add: json_quote_def)
  qed
qed

lemma json_quote_inject [simp]: "json_quote s = json_quote t \<longleftrightarrow> s = t"
  using json_quote_prefix [of s "[]" t "[]"] by auto

text \<open>So can a list of quoted strings.\<close>

lemma join_Cons: "join sep (x # xs) = x @ concat (map ((@) sep) xs)"
  by (induction xs arbitrary: x) auto

lemma quote_rest_prefix:
  "concat (map (\<lambda>s. '','' @ json_quote s) xs) @ CHR '']'' # u =
   concat (map (\<lambda>s. '','' @ json_quote s) ys) @ CHR '']'' # v \<Longrightarrow> xs = ys \<and> u = v"
proof (induction xs arbitrary: ys)
  case Nil
  then show ?case by (cases ys) auto
next
  case (Cons x xs)
  show ?case
  proof (cases ys)
    case Nil
    with Cons.prems show ?thesis by simp
  next
    case ys: (Cons y ys')
    with Cons.prems have "json_quote x @ (concat (map (\<lambda>s. '','' @ json_quote s) xs) @ CHR '']'' # u) =
        json_quote y @ (concat (map (\<lambda>s. '','' @ json_quote s) ys') @ CHR '']'' # v)" by simp
    from json_quote_prefix [OF this] have xy: "x = y"
      and r: "concat (map (\<lambda>s. '','' @ json_quote s) xs) @ CHR '']'' # u =
          concat (map (\<lambda>s. '','' @ json_quote s) ys') @ CHR '']'' # v" by blast+
    from Cons.IH [OF r] xy ys show ?thesis by blast
  qed
qed

lemma json_items_strs: "json_items (map JStr xs) = map json_quote xs"
  by (induction xs) auto

lemma json_quote_ne: "json_quote s = c # cs \<Longrightarrow> c = CHR 0x22"
  unfolding json_quote_def by (simp add: char_of_def bit_Suc_0_iff)

lemma jstrs_text_Nil: "stringify (jstrs []) = ''[]''"
  by (simp add: jstrs_def)

lemma jstrs_text_Cons:
  "stringify (jstrs (x # xs)) = CHR ''['' # json_quote x @ concat (map (\<lambda>s. '','' @ json_quote s) xs) @ '']''"
  by (simp add: jstrs_def json_items_strs join_Cons comp_def)

lemma jstrs_prefix:
  assumes "stringify (jstrs xs) @ u = stringify (jstrs ys) @ v"
  shows "xs = ys \<and> u = v"
proof (cases xs; cases ys)
  fix x xs' y ys' assume c: "xs = x # xs'" "ys = y # ys'"
  from assms have "json_quote x @ (concat (map (\<lambda>s. '','' @ json_quote s) xs') @ CHR '']'' # u) =
      json_quote y @ (concat (map (\<lambda>s. '','' @ json_quote s) ys') @ CHR '']'' # v)"
    unfolding c by (simp add: jstrs_text_Cons)
  from json_quote_prefix [OF this] have "x = y"
    and r: "concat (map (\<lambda>s. '','' @ json_quote s) xs') @ CHR '']'' # u =
        concat (map (\<lambda>s. '','' @ json_quote s) ys') @ CHR '']'' # v" by blast+
  with quote_rest_prefix [OF r] c show ?thesis by blast
next
  fix x xs' assume c: "xs = x # xs'" "ys = []"
  obtain a as where q: "json_quote x = a # as" unfolding json_quote_def by simp
  from json_quote_ne [OF q] assms c q show ?thesis by (simp add: jstrs_text_Cons jstrs_text_Nil)
next
  fix y ys' assume c: "xs = []" "ys = y # ys'"
  obtain a as where q: "json_quote y = a # as" unfolding json_quote_def by simp
  from json_quote_ne [OF q] assms c q show ?thesis by (simp add: jstrs_text_Cons jstrs_text_Nil)
qed (use assms in \<open>simp add: jstrs_text_Nil\<close>)

subsection \<open>Timestamps as text\<close>

type_synonym time = int

definition iso_string :: "time \<Rightarrow> string" where
  "iso_string ms =
     (let days = ms div 86400000; msd = ms mod 86400000;
          z = days + 719468; era = z div 146097; doe = z mod 146097;
          yoe = (doe - doe div 1460 + doe div 36524 - doe div 146096) div 365;
          doy = doe - (365 * yoe + yoe div 4 - yoe div 100);
          mp = (5 * doy + 2) div 153;
          d = doy - (153 * mp + 2) div 5 + 1;
          m = (if mp < 10 then mp + 3 else mp - 9);
          y = yoe + era * 400 + (if m \<le> 2 then 1 else 0);
          two = (\<lambda>i. pad_left 2 (CHR ''0'') (show_int i))
      in pad_left 4 (CHR ''0'') (show_int y) @ ''-'' @ two m @ ''-'' @ two d @ ''T''
         @ two (msd div 3600000) @ '':'' @ two (msd div 60000 mod 60) @ '':''
         @ two (msd div 1000 mod 60) @ ''.'' @ pad_left 3 (CHR ''0'') (show_int (msd mod 1000)) @ ''Z'')"

end
