(* ===== verification/Csr.thy ===== *)
theory Csr
  imports Chain Json
begin

text \<open>
  The constitutional state records of \<open>agent/sovereign-x/types.ts\<close>, their write-ahead
  log (\<open>storage.ts\<close>), and the operations of \<open>kernel.ts\<close> on the record ledger:
  \<open>recordCSR\<close>, \<open>verifyCsrIntegrity\<close>, \<open>detectConstitutionalDrift\<close>, \<open>reconcileCsrFork\<close>
  and \<open>issueLineageCertificate\<close>.

  The services of the platform (random identifiers, the clock, SHA-256, the Ed25519
  key pair, the other key pairs of the process by a name) are the fields of \<open>sysenv\<close>. The i-th draw of an identifier or of the clock
  reads the i-th value of the corresponding sequence; the state counts the draws.
\<close>

subsection \<open>The platform\<close>

record sysenv =
  uuid_at :: "nat \<Rightarrow> string"
  now_at :: "nat \<Rightarrow> time"
  sha256 :: "string \<Rightarrow> string"
  sign_payload :: "string \<Rightarrow> string"
  verify_sig :: "string \<Rightarrow> string \<Rightarrow> string \<Rightarrow> bool"
  pubkey_pem :: string
  sign_as :: "string \<Rightarrow> string \<Rightarrow> string"

record sys_st =
  tick :: nat

definition take_uuid :: "sysenv \<Rightarrow> 'a sys_st_scheme \<Rightarrow> string \<times> 'a sys_st_scheme" where
  "take_uuid E s = (uuid_at E (tick s), s\<lparr>tick := Suc (tick s)\<rparr>)"

definition take_now :: "sysenv \<Rightarrow> 'a sys_st_scheme \<Rightarrow> time \<times> 'a sys_st_scheme" where
  "take_now E s = (now_at E (tick s), s\<lparr>tick := Suc (tick s)\<rparr>)"

definition fingerprint :: "sysenv \<Rightarrow> string" where
  "fingerprint E = take 16 (sha256 E (pubkey_pem E))"

subsection \<open>Records\<close>

record csr =
  c_id :: string
  c_prev :: string
  c_hash :: string
  c_time :: time
  c_auth :: string
  c_trans :: string
  c_domain :: string
  c_payload :: "(string \<times> json) list"
  c_lineage :: "string list"
  c_intent :: "string option"

definition csr_json :: "csr \<Rightarrow> json" where
  "csr_json r = JObj
     [(''recordId'', JStr (c_id r)),
      (''previousHash'', JStr (c_prev r)),
      (''timestamp'', JStr (iso_string (c_time r))),
      (''authority'', JStr (c_auth r)),
      (''transition'', JStr (c_trans r)),
      (''domain'', JStr (c_domain r)),
      (''payload'', JObj (c_payload r)),
      (''intentId'', jopt_str (c_intent r)),
      (''lineage'', jstrs (c_lineage r))]"

definition csr_text :: "csr \<Rightarrow> string" where
  "csr_text r = stringify (csr_json r)"

definition csrHash :: "sysenv \<Rightarrow> csr \<Rightarrow> string" where
  "csrHash E r = sha256 E (csr_text r)"

subsection \<open>The ledger and its log file\<close>

record base_st = sys_st +
  csr_ledger :: "csr list"
  wal :: "csr list"

definition appendWal :: "csr \<Rightarrow> 'a base_st_scheme \<Rightarrow> 'a base_st_scheme" where
  "appendWal r s = s\<lparr>wal := wal s @ [r]\<rparr>"

definition replayWal :: "'a base_st_scheme \<Rightarrow> csr list" where
  "replayWal s = wal s"

definition truncateWal :: "'a base_st_scheme \<Rightarrow> 'a base_st_scheme" where
  "truncateWal s = s\<lparr>wal := []\<rparr>"

definition recordCSR ::
    "sysenv \<Rightarrow> string \<Rightarrow> string \<Rightarrow> (string \<times> json) list \<Rightarrow> string option \<Rightarrow> string \<Rightarrow>
     'a base_st_scheme \<Rightarrow> csr \<times> 'a base_st_scheme" where
  "recordCSR E transition domain payload intentId authority s =
     (let tl = (if csr_ledger s \<noteq> [] then Some (last (csr_ledger s)) else None);
          prevHash = (case tl of Some t \<Rightarrow> c_hash t | None \<Rightarrow> ''genesis'');
          (u, s1) = take_uuid E s;
          (t, s2) = take_now E s1;
          partial = \<lparr>c_id = u, c_prev = prevHash, c_hash = [], c_time = t, c_auth = authority,
                     c_trans = transition, c_domain = domain, c_payload = payload,
                     c_lineage = (case tl of Some r \<Rightarrow> c_lineage r @ [prevHash] | None \<Rightarrow> [prevHash]),
                     c_intent = intentId\<rparr>;
          record = partial\<lparr>c_hash := csrHash E partial\<rparr>
      in (record, appendWal record (s2\<lparr>csr_ledger := csr_ledger s2 @ [record]\<rparr>)))"

definition log_csr ::
    "sysenv \<Rightarrow> string \<Rightarrow> string \<Rightarrow> (string \<times> json) list \<Rightarrow> string option \<Rightarrow> string \<Rightarrow>
     'a base_st_scheme \<Rightarrow> 'a base_st_scheme" where
  "log_csr E transition domain payload intentId authority s =
     snd (recordCSR E transition domain payload intentId authority s)"

subsection \<open>Integrity\<close>

text \<open>The loop of \<open>verifyCsrIntegrity\<close> from index \<open>i\<close> on, \<open>prev\<close> being the record before.
  The result is the \<open>gap\<close>; no gap means valid.\<close>

fun csr_gap_from :: "sysenv \<Rightarrow> nat \<Rightarrow> csr \<Rightarrow> csr list \<Rightarrow> nat option" where
  "csr_gap_from E i prev [] = None"
| "csr_gap_from E i prev (cur # rest) =
     (if c_prev cur \<noteq> c_hash prev then Some i
      else if c_hash cur \<noteq> csrHash E cur then Some i
      else csr_gap_from E (Suc i) cur rest)"

definition csr_gap :: "sysenv \<Rightarrow> csr list \<Rightarrow> nat option" where
  "csr_gap E rs = (case rs of [] \<Rightarrow> None | r # rest \<Rightarrow> csr_gap_from E 1 r rest)"

definition verifyCsrIntegrity :: "sysenv \<Rightarrow> 'a base_st_scheme \<Rightarrow> nat option" where
  "verifyCsrIntegrity E s = csr_gap E (csr_ledger s)"

subsection \<open>Drift, forks, certificates\<close>

record drift_report =
  dr_id :: string
  dr_world :: "string option"
  dr_expected :: string
  dr_actual :: string
  dr_magnitude :: jsnum
  dr_domains :: "string list"
  dr_time :: time
  dr_correctable :: bool

definition new_drift ::
    "sysenv \<Rightarrow> string option \<Rightarrow> string \<Rightarrow> string \<Rightarrow> string list \<Rightarrow> bool \<Rightarrow> 'a sys_st_scheme \<Rightarrow>
     drift_report \<times> 'a sys_st_scheme" where
  "new_drift E w ex ac doms cor s =
     (let (u, s1) = take_uuid E s; (t, s2) = take_now E s1
      in (\<lparr>dr_id = u, dr_world = w, dr_expected = ex, dr_actual = ac, dr_magnitude = 1,
           dr_domains = doms, dr_time = t, dr_correctable = cor\<rparr>, s2))"

definition csr_sig_text :: "csr \<Rightarrow> string" where
  "csr_sig_text r = stringify (JObj
     [(''recordId'', JStr (c_id r)), (''transition'', JStr (c_trans r)),
      (''domain'', JStr (c_domain r)), (''hash'', JStr (c_hash r))])"

text \<open>Whether the signature a record carries fails. A \<open>signature\<close> or \<open>publicKey\<close> that is
  not a string makes the crypto calls throw, which \<open>verifySignature\<close> turns into false.\<close>

definition bad_signature :: "sysenv \<Rightarrow> csr \<Rightarrow> bool" where
  "bad_signature E r =
     (let sg = jget (c_payload r) ''signature''; pk = jget (c_payload r) ''publicKey''
      in truthy sg \<and> truthy pk \<and>
         (case (sg, pk) of (Some (JStr a), Some (JStr b)) \<Rightarrow> \<not> verify_sig E (csr_sig_text r) a b
          | _ \<Rightarrow> True))"

primrec signature_drift ::
    "sysenv \<Rightarrow> csr list \<Rightarrow> 'a sys_st_scheme \<Rightarrow> drift_report list \<times> 'a sys_st_scheme" where
  "signature_drift E [] s = ([], s)"
| "signature_drift E (r # rs) s =
     (if bad_signature E r
      then let (d, s1) = new_drift E None (c_hash r) ''tampered'' [''cryptographic''] False s;
               (ds, s2) = signature_drift E rs s1 in (d # ds, s2)
      else signature_drift E rs s)"

definition detectConstitutionalDrift ::
    "sysenv \<Rightarrow> 'a base_st_scheme \<Rightarrow> drift_report list \<times> 'a base_st_scheme" where
  "detectConstitutionalDrift E s =
     (let (ds0, s1) =
            (if verifyCsrIntegrity E s \<noteq> None
             then let (d, s1) = new_drift E None
                        (if csr_ledger s \<noteq> [] then c_hash (last (csr_ledger s)) else ''genesis'')
                        ''corrupt'' [''constitution''] True s in ([d], s1)
             else ([], s));
          (ds1, s2) = signature_drift E
             (filter (\<lambda>r. truthy (jget (c_payload r) ''signature'')) (csr_ledger s)) s1
      in (ds0 @ ds1, s2))"

definition push_csr :: "csr \<Rightarrow> 'a base_st_scheme \<Rightarrow> 'a base_st_scheme" where
  "push_csr r s = appendWal r (s\<lparr>csr_ledger := csr_ledger s @ [r]\<rparr>)"

primrec merge_fork :: "csr list \<Rightarrow> nat \<times> 'a base_st_scheme \<Rightarrow> nat \<times> 'a base_st_scheme" where
  "merge_fork [] ms = ms"
| "merge_fork (r # rs) ms =
     merge_fork rs (if \<exists>x\<in>set (csr_ledger (snd ms)). c_hash x = c_hash r then ms
                    else (Suc (fst ms), push_csr r (snd ms)))"

datatype fork_result = ForkMerged nat | ForkNoAncestor

definition reconcileCsrFork ::
    "sysenv \<Rightarrow> csr list \<Rightarrow> 'a base_st_scheme \<Rightarrow> fork_result \<times> 'a base_st_scheme" where
  "reconcileCsrFork E fork s =
     (case fork of [] \<Rightarrow> (ForkMerged 0, s)
      | forkStart # _ \<Rightarrow>
          if \<forall>r\<in>set (csr_ledger s). c_hash r \<noteq> c_prev forkStart then (ForkNoAncestor, s)
          else let (merged, s1) = merge_fork fork (0, s)
               in (ForkMerged merged,
                   log_csr E ''csr-fork-reconciled'' ''constitution''
                     [(''forkLength'', jnat (length fork)), (''merged'', jnat merged)] None
                     ''sovereign-x-kernel'' s1))"

record lineage_cert =
  lc_id :: string
  lc_origin :: string
  lc_lineage :: "string list"
  lc_terminal :: string
  lc_length :: nat
  lc_verified :: bool
  lc_issued :: time
  lc_by :: string

definition issueLineageCertificate ::
    "sysenv \<Rightarrow> 'a base_st_scheme \<Rightarrow> lineage_cert \<times> 'a base_st_scheme" where
  "issueLineageCertificate E s =
     (let terminal = (if csr_ledger s \<noteq> [] then c_hash (last (csr_ledger s)) else ''genesis'');
          (u, s1) = take_uuid E s; (t, s2) = take_now E s1
      in (\<lparr>lc_id = u, lc_origin = ''sovereign-x-kernel'', lc_lineage = map c_hash (csr_ledger s),
           lc_terminal = terminal, lc_length = length (csr_ledger s),
           lc_verified = (verifyCsrIntegrity E s = None), lc_issued = t,
           lc_by = ''sovereign-x-kernel''\<rparr>, s2))"

subsection \<open>Frames\<close>

lemma take_uuid_simps [simp]:
  "fst (take_uuid E s) = uuid_at E (tick s)" "tick (snd (take_uuid E s)) = Suc (tick s)"
  "csr_ledger (snd (take_uuid E b)) = csr_ledger b" "wal (snd (take_uuid E b)) = wal b"
  by (simp_all add: take_uuid_def)

lemma take_now_simps [simp]:
  "fst (take_now E s) = now_at E (tick s)" "tick (snd (take_now E s)) = Suc (tick s)"
  "csr_ledger (snd (take_now E b)) = csr_ledger b" "wal (snd (take_now E b)) = wal b"
  by (simp_all add: take_now_def)

lemma log_csr_ledger:
  "csr_ledger (log_csr E tr d p i a s) = csr_ledger s @ [fst (recordCSR E tr d p i a s)]"
  by (simp add: log_csr_def recordCSR_def appendWal_def take_uuid_def take_now_def Let_def)

lemma log_csr_wal: "wal (log_csr E tr d p i a s) = wal s @ [fst (recordCSR E tr d p i a s)]"
  by (simp add: log_csr_def recordCSR_def appendWal_def take_uuid_def take_now_def Let_def)

lemma log_csr_tick [simp]: "tick (log_csr E tr d p i a s) = tick s + 2"
  by (simp add: log_csr_def recordCSR_def appendWal_def take_uuid_def take_now_def Let_def)

lemma recordCSR_fields [simp]:
  "c_prev (fst (recordCSR E tr d p i a s)) = tail_hash c_hash ''genesis'' (csr_ledger s)"
  "c_id (fst (recordCSR E tr d p i a s)) = uuid_at E (tick s)"
  "c_trans (fst (recordCSR E tr d p i a s)) = tr"
  "c_domain (fst (recordCSR E tr d p i a s)) = d"
  "c_payload (fst (recordCSR E tr d p i a s)) = p"
  "c_intent (fst (recordCSR E tr d p i a s)) = i"
  "c_auth (fst (recordCSR E tr d p i a s)) = a"
  by (simp_all add: recordCSR_def take_uuid_def take_now_def Let_def tail_hash_def)

lemma snd_recordCSR [simp]: "snd (recordCSR E tr d p i a s) = log_csr E tr d p i a s"
  by (simp add: log_csr_def)

lemma csr_text_hash [simp]: "csr_text (r\<lparr>c_hash := h\<rparr>) = csr_text r"
  by (simp add: csr_text_def csr_json_def)

lemma recordCSR_sealed:
  "c_hash (fst (recordCSR E tr d p i a s)) = sha256 E (csr_text (fst (recordCSR E tr d p i a s)))"
  by (simp add: recordCSR_def csrHash_def take_uuid_def take_now_def Let_def csr_text_def csr_json_def)

lemma recordCSR_lineage:
  "c_lineage (fst (recordCSR E tr d p i a s)) =
     (if csr_ledger s = [] then [''genesis'']
      else c_lineage (last (csr_ledger s)) @ [c_hash (last (csr_ledger s))])"
  by (simp add: recordCSR_def take_uuid_def take_now_def Let_def)

lemma log_csr_update:
  "log_csr E tr d p i a s =
     s\<lparr>tick := tick s + 2, csr_ledger := csr_ledger s @ [fst (recordCSR E tr d p i a s)],
       wal := wal s @ [fst (recordCSR E tr d p i a s)]\<rparr>"
  by (simp add: log_csr_def recordCSR_def appendWal_def take_uuid_def take_now_def Let_def)

lemma push_csr_update: "push_csr r s = s\<lparr>csr_ledger := csr_ledger s @ [r], wal := wal s @ [r]\<rparr>"
  by (simp add: push_csr_def appendWal_def)

subsection \<open>The ledger is a hash chain\<close>

lemma csr_text_prev: "csr_text r = csr_text r' \<Longrightarrow> c_prev r = c_prev r'"
  by (auto simp: csr_text_def csr_json_def dest!: json_quote_prefix)

interpretation csr_chain: hash_chain c_prev c_hash csr_text
  by unfold_locales (rule csr_text_prev)

abbreviation csr_linked :: "sysenv \<Rightarrow> csr list \<Rightarrow> bool" where
  "csr_linked E rs \<equiv> hchain c_prev c_hash csr_text (sha256 E) ''genesis'' rs"

text \<open>A record's lineage is the hashes of all the records before it, from genesis on.\<close>

definition csr_lineage_ok :: "csr list \<Rightarrow> bool" where
  "csr_lineage_ok rs \<longleftrightarrow> (\<forall>i<length rs. c_lineage (rs ! i) = ''genesis'' # map c_hash (take i rs))"

definition csr_ok :: "sysenv \<Rightarrow> csr list \<Rightarrow> bool" where
  "csr_ok E rs \<longleftrightarrow> csr_linked E rs \<and> csr_lineage_ok rs"

lemma csr_ok_Nil [simp]: "csr_ok E []"
  by (simp add: csr_ok_def csr_lineage_ok_def csr_chain.chain_Nil)

lemma csr_lineage_ok_snoc:
  "csr_lineage_ok (rs @ [r]) \<longleftrightarrow> csr_lineage_ok rs \<and> c_lineage r = ''genesis'' # map c_hash rs"
  by (auto simp: csr_lineage_ok_def nth_append less_Suc_eq)

lemma csr_lineage_last:
  "csr_lineage_ok rs \<Longrightarrow> rs \<noteq> [] \<Longrightarrow> c_lineage (last rs) @ [c_hash (last rs)] = ''genesis'' # map c_hash rs"
  by (cases rs rule: rev_cases) (simp_all add: csr_lineage_ok_snoc)

lemma csr_ok_log [frame]:
  "csr_ok E (csr_ledger s) \<Longrightarrow> csr_ok E (csr_ledger (log_csr E tr d p i a s))"
  by (simp add: csr_ok_def log_csr_ledger csr_chain.chain_snoc csr_lineage_ok_snoc
      recordCSR_sealed recordCSR_lineage csr_lineage_last)

text \<open>What every operation of the kernel does to the record ledger: it appends records, the
  same to the log file, and keeps a well-formed ledger well-formed. An operation that logs is
  seen to do so by the introduction rules below.\<close>

definition csr_grows :: "sysenv \<Rightarrow> 'a base_st_scheme \<Rightarrow> 'a base_st_scheme \<Rightarrow> bool" where
  "csr_grows E s s' \<longleftrightarrow>
     (\<exists>rs. csr_ledger s' = csr_ledger s @ rs \<and> wal s' = wal s @ rs) \<and>
     (csr_ok E (csr_ledger s) \<longrightarrow> csr_ok E (csr_ledger s'))"

lemma csr_grows_same: "csr_ledger s' = csr_ledger s \<Longrightarrow> wal s' = wal s \<Longrightarrow> csr_grows E s s'"
  by (simp add: csr_grows_def)

lemma csr_grows_refl [simp, intro]: "csr_grows E s s"
  by (simp add: csr_grows_same)

lemma csr_grows_log [intro]: "csr_grows E s t \<Longrightarrow> csr_grows E s (log_csr E tr d p i a t)"
  unfolding csr_grows_def using csr_ok_log [of E t tr d p i a] by (auto simp: log_csr_ledger log_csr_wal)

lemma csr_grows_trans [trans]: "csr_grows E s t \<Longrightarrow> csr_grows E t u \<Longrightarrow> csr_grows E s u"
  unfolding csr_grows_def by fastforce

lemma csr_growsD:
  assumes "csr_grows E s s'"
  shows "csr_ok E (csr_ledger s) \<Longrightarrow> csr_ok E (csr_ledger s')" and "prefix (csr_ledger s) (csr_ledger s')"
    and "wal s = csr_ledger s \<Longrightarrow> wal s' = csr_ledger s'"
  using assms by (auto simp: csr_grows_def)

lemma csr_gap_from_None:
  "csr_gap_from E i r rs = None \<longleftrightarrow> hchain c_prev c_hash csr_text (sha256 E) (c_hash r) rs"
  by (induction rs arbitrary: i r) (auto simp: hchain_def csrHash_def)

lemma csr_gap_None:
  "csr_gap E rs = None \<longleftrightarrow> rs = [] \<or> hchain c_prev c_hash csr_text (sha256 E) (c_hash (hd rs)) (tl rs)"
  by (cases rs) (simp_all add: csr_gap_def csr_gap_from_None)

lemma csr_gap_from_Some:
  "csr_gap_from E i r rs = Some n \<Longrightarrow>
     i \<le> n \<and> n < i + length rs \<and> hchain c_prev c_hash csr_text (sha256 E) (c_hash r) (take (n - i) rs) \<and>
     (c_prev (rs ! (n - i)) \<noteq> c_hash ((r # rs) ! (n - i)) \<or> c_hash (rs ! (n - i)) \<noteq> csrHash E (rs ! (n - i)))"
proof (induction rs arbitrary: i r)
  case (Cons c rs)
  show ?case
  proof (cases "c_prev c \<noteq> c_hash r \<or> c_hash c \<noteq> csrHash E c")
    case True
    with Cons.prems show ?thesis by (auto simp: hchain_def split: if_splits)
  next
    case False
    with Cons.prems have "csr_gap_from E (Suc i) c rs = Some n" by simp
    from Cons.IH [OF this] have IH: "Suc i \<le> n" "n < Suc i + length rs"
      "hchain c_prev c_hash csr_text (sha256 E) (c_hash c) (take (n - Suc i) rs)"
      "c_prev (rs ! (n - Suc i)) \<noteq> c_hash ((c # rs) ! (n - Suc i)) \<or> c_hash (rs ! (n - Suc i)) \<noteq> csrHash E (rs ! (n - Suc i))"
      by auto
    then have "n - i = Suc (n - Suc i)" by simp
    with IH False show ?thesis by (auto simp: hchain_def csrHash_def)
  qed
qed simp

lemma csr_linked_gap: "csr_linked E rs \<Longrightarrow> csr_gap E rs = None"
  by (cases rs) (auto simp: csr_gap_None hchain_def)

text \<open>What the text of a record gives away of it.\<close>

definition csr_key :: "csr \<Rightarrow> string list" where
  "csr_key r = [c_id r, c_prev r, c_auth r, c_trans r, c_domain r]"

lemma csr_text_key: "csr_text r = csr_text r' \<Longrightarrow> csr_key r = csr_key r'"
  by (auto simp: csr_text_def csr_json_def csr_key_def dest!: json_quote_prefix)

lemma map_csr_key: "map csr_text rs = map csr_text rs' \<Longrightarrow> map csr_key rs = map csr_key rs'"
proof (induction rs arbitrary: rs')
  case (Cons r rs)
  then obtain r' ss where "rs' = r' # ss" "csr_text r = csr_text r'" "map csr_text rs = map csr_text ss"
    by (cases rs') simp_all
  then show ?case by (simp add: Cons.IH csr_text_key [of r r'])
qed simp

subsection \<open>Forks\<close>

lemma merge_fork_ledger:
  "\<exists>new. csr_ledger (snd (merge_fork fork (n, s))) = csr_ledger s @ new \<and>
     wal (snd (merge_fork fork (n, s))) = wal s @ new \<and>
     fst (merge_fork fork (n, s)) = n + length new \<and> set new \<subseteq> set fork"
proof (induction fork arbitrary: n s)
  case Nil
  show ?case by simp
next
  case (Cons r fork)
  show ?case
  proof (cases "\<exists>x\<in>set (csr_ledger s). c_hash x = c_hash r")
    case True
    with Cons.IH [of n s] show ?thesis by auto
  next
    case False
    from Cons.IH [of "Suc n" "push_csr r s"] obtain new where
      "csr_ledger (snd (merge_fork fork (Suc n, push_csr r s))) = csr_ledger (push_csr r s) @ new"
      "wal (snd (merge_fork fork (Suc n, push_csr r s))) = wal (push_csr r s) @ new"
      "fst (merge_fork fork (Suc n, push_csr r s)) = Suc n + length new" "set new \<subseteq> set fork"
      by blast
    with False show ?thesis by (intro exI [of _ "r # new"]) (auto simp: push_csr_update)
  qed
qed

lemma merge_fork_fresh:
  assumes "distinct (map c_hash fork)" and "\<forall>r\<in>set fork. \<forall>x\<in>set (csr_ledger s). c_hash x \<noteq> c_hash r"
  shows "merge_fork fork (n, s) =
    (n + length fork, s\<lparr>csr_ledger := csr_ledger s @ fork, wal := wal s @ fork\<rparr>)"
  using assms
proof (induction fork arbitrary: n s)
  case (Cons r fork)
  then have "merge_fork fork (Suc n, push_csr r s) =
      (Suc n + length fork, (push_csr r s)\<lparr>csr_ledger := csr_ledger (push_csr r s) @ fork,
         wal := wal (push_csr r s) @ fork\<rparr>)"
    by (intro Cons.IH) (auto simp: push_csr_update)
  with Cons.prems show ?case by (simp add: push_csr_update)
qed simp

lemma csr_gap_from_append:
  "csr_gap_from E i r (xs @ ys) =
     (case csr_gap_from E i r xs of Some n \<Rightarrow> Some n
      | None \<Rightarrow> csr_gap_from E (i + length xs) (last (r # xs)) ys)"
  by (induction xs arbitrary: i r) (auto split: option.split)

lemma csr_gap_append:
  "xs \<noteq> [] \<Longrightarrow> csr_gap E xs = None \<Longrightarrow> csr_gap E (xs @ ys) = csr_gap_from E (length xs) (last xs) ys"
  by (cases xs) (simp_all add: csr_gap_def csr_gap_from_append)

lemma csr_gap_log:
  "csr_gap E (csr_ledger s) = None \<Longrightarrow> csr_gap E (csr_ledger (log_csr E tr d p i a s)) = None"
proof (cases "csr_ledger s = []")
  case False
  assume "csr_gap E (csr_ledger s) = None"
  with False show ?thesis
    by (simp add: log_csr_ledger csr_gap_append tail_hash_def recordCSR_sealed csrHash_def)
qed (simp add: log_csr_ledger csr_gap_def)

subsection \<open>Runs of the record writer\<close>

record csr_event =
  ev_trans :: string
  ev_domain :: string
  ev_payload :: "(string \<times> json) list"
  ev_intent :: "string option"
  ev_auth :: string

definition csr_step :: "sysenv \<Rightarrow> csr_event \<Rightarrow> base_st \<Rightarrow> base_st" where
  "csr_step E e = log_csr E (ev_trans e) (ev_domain e) (ev_payload e) (ev_intent e) (ev_auth e)"

interpretation csr_log: audited_machine "csr_step E" "\<lambda>s. csr_ok E (csr_ledger s)" csr_ledger
  by unfold_locales (simp_all add: csr_step_def csr_ok_log, simp add: log_csr_ledger)

definition init_base :: base_st where
  "init_base = \<lparr>tick = 0, csr_ledger = [], wal = []\<rparr>"

lemma csr_run_wal: "wal s = csr_ledger s \<Longrightarrow> wal (fold (csr_step E) es s) = csr_ledger (fold (csr_step E) es s)"
  by (induction es arbitrary: s) (simp_all add: csr_step_def log_csr_ledger log_csr_wal)

lemma csr_run_length: "length (csr_ledger (fold (csr_step E) es s)) = length (csr_ledger s) + length es"
  by (induction es arbitrary: s) (simp_all add: csr_step_def log_csr_ledger)

subsection \<open>A concrete platform\<close>

text \<open>Used to evaluate the model on concrete inputs: identifiers and times are counters and
  the digest is a prefix, which has no collisions.\<close>

definition demo_env :: sysenv where
  "demo_env = \<lparr>uuid_at = (\<lambda>n. replicate n (CHR ''u'')), now_at = (\<lambda>n. 1000 * int n),
     sha256 = (\<lambda>t. CHR ''h'' # t), sign_payload = (\<lambda>t. ''sig:'' @ t),
     verify_sig = (\<lambda>t sg k. sg = ''sig:'' @ t \<and> k = ''pem''), pubkey_pem = ''pem'',
     sign_as = (\<lambda>k t. k @ '':'' @ t)\<rparr>"

definition demo_ledger :: base_st where
  "demo_ledger = log_csr demo_env ''b'' ''d'' [] None ''k'' (log_csr demo_env ''a'' ''d'' [] None ''k'' init_base)"

definition demo_fork :: csr where
  "demo_fork = (let r = \<lparr>c_id = ''f'', c_prev = c_hash (csr_ledger demo_ledger ! 0), c_hash = [], c_time = 0,
       c_auth = ''k'', c_trans = ''c'', c_domain = ''d'', c_payload = [], c_lineage = [], c_intent = None\<rparr>
     in r\<lparr>c_hash := csrHash demo_env r\<rparr>)"

abbreviation demo_r0 :: csr where
  "demo_r0 \<equiv> fst (recordCSR demo_env ''a'' ''d'' [] None ''k'' init_base)"

abbreviation demo_r1 :: csr where
  "demo_r1 \<equiv> fst (recordCSR demo_env ''b'' ''d'' [] None ''k'' (log_csr demo_env ''a'' ''d'' [] None ''k'' init_base))"

lemma demo_digest [simp]: "sha256 demo_env t = CHR ''h'' # t"
  by (simp add: demo_env_def)

lemma demo_ids [simp]: "uuid_at demo_env n = replicate n (CHR ''u'')" "tick init_base = 0"
  by (simp_all add: demo_env_def init_base_def)

lemma demo_ledger_eq: "csr_ledger demo_ledger = [demo_r0, demo_r1]"
  by (simp add: demo_ledger_def log_csr_ledger init_base_def)

lemma demo_ledger_sealed:
  "c_hash demo_r0 = CHR ''h'' # csr_text demo_r0" "c_hash demo_r1 = CHR ''h'' # csr_text demo_r1"
  by (simp_all add: recordCSR_sealed)

lemma demo_ledger_valid: "verifyCsrIntegrity demo_env demo_ledger = None"
  unfolding verifyCsrIntegrity_def demo_ledger_def
  by (intro csr_gap_log) (simp add: init_base_def csr_gap_def)

text \<open>On this platform, records with different identifiers have different hashes.\<close>

lemma demo_hash_id:
  "c_hash x = CHR ''h'' # csr_text x \<Longrightarrow> c_id x \<noteq> c_id r \<Longrightarrow> c_hash x \<noteq> CHR ''h'' # csr_text r"
  using csr_text_key [of x r] by (auto simp: csr_key_def)

subsection \<open>Properties\<close>

text \<open>C1. However many records are written from an empty ledger on, with whatever
  contents, the ledger passes its own integrity check, is linked from genesis, every record
  carries the hash of its text and the hashes of all its predecessors as lineage, nothing
  is lost, and the log file holds the same records.\<close>

theorem csr_run_integrity:
  "csr_ok E (csr_ledger (fold (csr_step E) es init_base)) \<and>
   verifyCsrIntegrity E (fold (csr_step E) es init_base) = None \<and>
   length (csr_ledger (fold (csr_step E) es init_base)) = length es \<and>
   replayWal (fold (csr_step E) es init_base) = csr_ledger (fold (csr_step E) es init_base)"
proof -
  have ok: "csr_ok E (csr_ledger (fold (csr_step E) es init_base))"
    by (rule csr_log.run_inv) (simp add: init_base_def)
  then show ?thesis
    using csr_run_wal [of init_base E es]
    by (simp add: verifyCsrIntegrity_def csr_linked_gap csr_ok_def csr_run_length replayWal_def init_base_def)
qed

text \<open>The integrity check accepts a ledger exactly when every record from the second on
  names the hash of its predecessor and carries the hash of its own text; otherwise the
  reported gap is the first record at which this fails. The first record is not looked at.\<close>

theorem csr_gap_spec:
  "(verifyCsrIntegrity E s = None \<longleftrightarrow>
      (\<forall>i. Suc i < length (csr_ledger s) \<longrightarrow>
         c_prev (csr_ledger s ! Suc i) = c_hash (csr_ledger s ! i) \<and>
         c_hash (csr_ledger s ! Suc i) = csrHash E (csr_ledger s ! Suc i))) \<and>
   (\<forall>n. verifyCsrIntegrity E s = Some n \<longrightarrow>
      0 < n \<and> n < length (csr_ledger s) \<and> csr_gap E (take n (csr_ledger s)) = None \<and>
      (c_prev (csr_ledger s ! n) \<noteq> c_hash (csr_ledger s ! (n - 1)) \<or>
       c_hash (csr_ledger s ! n) \<noteq> csrHash E (csr_ledger s ! n)))"
proof (cases "csr_ledger s")
  case Nil
  then show ?thesis by (simp add: verifyCsrIntegrity_def csr_gap_def)
next
  case (Cons r rs)
  have "linked c_prev c_hash (c_hash r) rs \<longleftrightarrow>
      (\<forall>i. Suc i < length (r # rs) \<longrightarrow> c_prev ((r # rs) ! Suc i) = c_hash ((r # rs) ! i))"
    using linked_iff_nth [of c_prev c_hash "c_prev r" "r # rs"] by simp
  then have "csr_gap E (r # rs) = None \<longleftrightarrow>
      (\<forall>i. Suc i < length (r # rs) \<longrightarrow> c_prev ((r # rs) ! Suc i) = c_hash ((r # rs) ! i) \<and>
         c_hash ((r # rs) ! Suc i) = csrHash E ((r # rs) ! Suc i))"
    by (auto simp: csr_gap_None hchain_def all_set_conv_all_nth csrHash_def)
  moreover have "0 < n \<and> n < length (r # rs) \<and> csr_gap E (take n (r # rs)) = None \<and>
      (c_prev ((r # rs) ! n) \<noteq> c_hash ((r # rs) ! (n - 1)) \<or> c_hash ((r # rs) ! n) \<noteq> csrHash E ((r # rs) ! n))"
    if "csr_gap E (r # rs) = Some n" for n
    using csr_gap_from_Some [of E 1 r rs n] that by (cases n) (auto simp: csr_gap_def csr_gap_from_None)
  ultimately show ?thesis unfolding verifyCsrIntegrity_def Cons by blast
qed

theorem csr_gap_witness:
  "c_prev demo_r1 = c_hash demo_r0 \<and> c_hash demo_r1 = csrHash demo_env demo_r1"
  using csr_gap_spec [of demo_env demo_ledger] demo_ledger_valid by (simp add: demo_ledger_eq del: recordCSR_fields)

text \<open>The last \<open>n\<close> records of a ledger that passes the check are a chain of sealed records.\<close>

lemma csr_chain_end:
  assumes "verifyCsrIntegrity E s = None" and "n < length (csr_ledger s)"
  shows "hchain c_prev c_hash csr_text (sha256 E) (c_hash (csr_ledger s ! (length (csr_ledger s) - Suc n)))
      (drop (length (csr_ledger s) - n) (csr_ledger s))"
    and "tail_hash c_hash (c_hash (csr_ledger s ! (length (csr_ledger s) - Suc n)))
      (drop (length (csr_ledger s) - n) (csr_ledger s)) = c_hash (last (csr_ledger s))"
proof -
  obtain r rs where l: "csr_ledger s = r # rs" using assms(2) by (cases "csr_ledger s") auto
  define k where "k = length rs - n"
  from assms(2) have n: "length (r # rs) - n = Suc k" "k \<le> length rs" by (auto simp: l k_def)
  have h: "hchain c_prev c_hash csr_text (sha256 E) (c_hash r) (take k rs @ drop k rs)"
    using assms(1) by (simp add: verifyCsrIntegrity_def csr_gap_None l)
  have t: "tail_hash c_hash (c_hash r) (take k rs) = c_hash ((r # rs) ! k)"
    using n(2) by (cases k) (auto simp: tail_hash_def last_conv_nth min_absorb2)
  from h show "hchain c_prev c_hash csr_text (sha256 E) (c_hash (csr_ledger s ! (length (csr_ledger s) - Suc n)))
      (drop (length (csr_ledger s) - n) (csr_ledger s))"
    using n t by (auto simp: hchain_def linked_append l k_def [symmetric] simp del: append_take_drop_id)
  show "tail_hash c_hash (c_hash (csr_ledger s ! (length (csr_ledger s) - Suc n)))
      (drop (length (csr_ledger s) - n) (csr_ledger s)) = c_hash (last (csr_ledger s))"
    using n by (cases "k = length rs") (auto simp: tail_hash_def l k_def [symmetric] last_conv_nth)
qed

text \<open>C2. Tampering is evident: if two non-empty ledgers both pass the integrity check and end in
  the same hash, and SHA-256 does not collide on the texts of their records, then for every \<open>n\<close>
  smaller than both lengths the last \<open>n\<close> records of the two hold the same texts, hence the same
  identifiers, authors, transitions, domains and predecessors. Two ledgers of one length can so
  differ in their first record only (the check never hashes it), and of two ledgers of different
  lengths the shorter one is, from its second record on, the end of the longer one.\<close>

theorem csr_tamper_evident:
  assumes "verifyCsrIntegrity E s = None" and "verifyCsrIntegrity E s' = None"
    and "n < length (csr_ledger s)" and "n < length (csr_ledger s')"
    and "c_hash (last (csr_ledger s)) = c_hash (last (csr_ledger s'))"
    and "inj_on (sha256 E) (csr_text ` (set (csr_ledger s) \<union> set (csr_ledger s')))"
  shows "map csr_text (drop (length (csr_ledger s) - n) (csr_ledger s)) =
      map csr_text (drop (length (csr_ledger s') - n) (csr_ledger s')) \<and>
    map csr_key (drop (length (csr_ledger s) - n) (csr_ledger s)) =
      map csr_key (drop (length (csr_ledger s') - n) (csr_ledger s'))"
proof -
  note c = csr_chain_end [OF assms(1,3)] csr_chain_end [OF assms(2,4)]
  have "map csr_text (drop (length (csr_ledger s) - n) (csr_ledger s)) =
      map csr_text (drop (length (csr_ledger s') - n) (csr_ledger s'))"
    using assms(3-5) by (intro csr_chain.chain_determined [OF c(1,3)] inj_on_subset [OF assms(6)])
      (auto simp: c(2,4) dest: in_set_dropD)
  then show ?thesis by (intro conjI map_csr_key)
qed

text \<open>Changing the first record of a valid ledger goes unnoticed, and the two ledgers agree from
  then on; changing the second one makes the check fail.\<close>

theorem csr_tamper_evident_witness:
  "verifyCsrIntegrity demo_env (demo_ledger\<lparr>csr_ledger := [demo_r0\<lparr>c_auth := ''x''\<rparr>, demo_r1]\<rparr>) = None \<and>
   map csr_key (drop 1 (csr_ledger demo_ledger)) =
     map csr_key (drop 1 (csr_ledger (demo_ledger\<lparr>csr_ledger := [demo_r0\<lparr>c_auth := ''x''\<rparr>, demo_r1]\<rparr>))) \<and>
   verifyCsrIntegrity demo_env (demo_ledger\<lparr>csr_ledger := [demo_r0, demo_r1\<lparr>c_auth := ''x''\<rparr>]\<rparr>) \<noteq> None"
proof (intro conjI)
  show v: "verifyCsrIntegrity demo_env (demo_ledger\<lparr>csr_ledger := [demo_r0\<lparr>c_auth := ''x''\<rparr>, demo_r1]\<rparr>) = None"
    using demo_ledger_valid by (simp add: verifyCsrIntegrity_def csr_gap_def demo_ledger_eq)
  have inj: "inj_on (sha256 demo_env) A" for A by (simp add: inj_on_def)
  show "map csr_key (drop 1 (csr_ledger demo_ledger)) =
     map csr_key (drop 1 (csr_ledger (demo_ledger\<lparr>csr_ledger := [demo_r0\<lparr>c_auth := ''x''\<rparr>, demo_r1]\<rparr>)))"
    using csr_tamper_evident [OF demo_ledger_valid v _ _ _ inj, of 1] by (simp add: demo_ledger_eq)
  show "verifyCsrIntegrity demo_env (demo_ledger\<lparr>csr_ledger := [demo_r0, demo_r1\<lparr>c_auth := ''x''\<rparr>]\<rparr>) \<noteq> None"
  proof
    assume "verifyCsrIntegrity demo_env (demo_ledger\<lparr>csr_ledger := [demo_r0, demo_r1\<lparr>c_auth := ''x''\<rparr>]\<rparr>) = None"
    from csr_tamper_evident [OF demo_ledger_valid this _ _ _ inj, of 1]
    have "csr_key demo_r1 = csr_key (demo_r1\<lparr>c_auth := ''x''\<rparr>)" by (simp add: demo_ledger_eq)
    then show False by (simp add: csr_key_def)
  qed
qed

text \<open>Reconciling a valid fork: the records of the fork are appended at the end of the
  ledger, so the ledger stays valid exactly when the fork continues the last record. A fork
  from an earlier record is merged and reported as merged, and the ledger fails its integrity
  check from then on, at the first merged record.\<close>

theorem reconcile_fork_valid_iff_at_tail:
  assumes "verifyCsrIntegrity E s = None" and "k < length (csr_ledger s)" and "fork \<noteq> []"
    and "hchain c_prev c_hash csr_text (sha256 E) (c_hash (csr_ledger s ! k)) fork"
    and "distinct (map c_hash fork)"
    and "\<forall>r\<in>set fork. \<forall>x\<in>set (csr_ledger s). c_hash x \<noteq> c_hash r"
  shows "fst (reconcileCsrFork E fork s) = ForkMerged (length fork) \<and>
    verifyCsrIntegrity E (snd (reconcileCsrFork E fork s)) =
      (if c_hash (csr_ledger s ! k) = c_hash (last (csr_ledger s)) then None
       else Some (length (csr_ledger s)))"
proof -
  define t where "t = s\<lparr>csr_ledger := csr_ledger s @ fork, wal := wal s @ fork\<rparr>"
  from assms(3) obtain f fs where f: "fork = f # fs" by (cases fork) auto
  have pf: "c_prev f = c_hash (csr_ledger s ! k)" using assms(4) f by (simp add: hchain_def)
  have "\<exists>x\<in>set (csr_ledger s). c_hash x = c_prev f" using pf assms(2) nth_mem by metis
  then have rec: "reconcileCsrFork E fork s =
     (ForkMerged (length fork), log_csr E ''csr-fork-reconciled'' ''constitution''
        [(''forkLength'', jnat (length fork)), (''merged'', jnat (length fork))] None
        ''sovereign-x-kernel'' t)"
    using merge_fork_fresh [OF assms(5,6), of 0]
    by (simp add: reconcileCsrFork_def f t_def split: prod.split)
  have ne: "csr_ledger s \<noteq> []" using assms(2) by auto
  have gap: "csr_gap E (csr_ledger t) =
      (if c_hash (csr_ledger s ! k) = c_hash (last (csr_ledger s)) then None else Some (length (csr_ledger s)))"
    using assms(1,4) pf ne csr_gap_from_None [of E "length (csr_ledger s)" "last (csr_ledger s)" fork]
    by (auto simp: t_def verifyCsrIntegrity_def csr_gap_append f)
  have "csr_gap E (csr_ledger (snd (reconcileCsrFork E fork s))) = csr_gap E (csr_ledger t)"
  proof (cases "csr_gap E (csr_ledger t)")
    case None
    then show ?thesis by (simp add: rec csr_gap_log)
  next
    case (Some n)
    then have "csr_gap E (csr_ledger t @ ys) = Some n" for ys
      by (cases "csr_ledger t") (auto simp: csr_gap_def csr_gap_from_append)
    with Some show ?thesis by (simp add: rec log_csr_ledger)
  qed
  with gap rec show ?thesis by (simp add: verifyCsrIntegrity_def)
qed

lemma demo_fork_seal: "c_hash demo_fork = CHR ''h'' # csr_text demo_fork"
  by (simp add: demo_fork_def csrHash_def csr_text_def csr_json_def Let_def)

theorem reconcile_fork_witness:
  "fst (reconcileCsrFork demo_env [demo_fork] demo_ledger) = ForkMerged 1 \<and>
   verifyCsrIntegrity demo_env (snd (reconcileCsrFork demo_env [demo_fork] demo_ledger)) = Some 2"
proof -
  have h: "0 < length (csr_ledger demo_ledger)" "[demo_fork] \<noteq> []" "distinct (map c_hash [demo_fork])"
    by (simp_all add: demo_ledger_eq)
  have c: "hchain c_prev c_hash csr_text (sha256 demo_env) (c_hash (csr_ledger demo_ledger ! 0)) [demo_fork]"
    by (simp add: hchain_def demo_fork_def csrHash_def csr_text_def csr_json_def Let_def)
  have n: "\<forall>r\<in>set [demo_fork]. \<forall>x\<in>set (csr_ledger demo_ledger). c_hash x \<noteq> c_hash r"
    using demo_hash_id [OF demo_ledger_sealed(1), of demo_fork] demo_hash_id [OF demo_ledger_sealed(2), of demo_fork]
    by (simp add: demo_ledger_eq demo_fork_seal) (simp add: demo_fork_def Let_def)
  have k: "c_hash (csr_ledger demo_ledger ! 0) \<noteq> c_hash (last (csr_ledger demo_ledger))"
    using demo_hash_id [OF demo_ledger_sealed(2), of demo_r0] demo_ledger_sealed(1) by (auto simp: demo_ledger_eq)
  have l: "length (csr_ledger demo_ledger) = 2" by (simp add: demo_ledger_eq)
  show ?thesis
    using reconcile_fork_valid_iff_at_tail [OF demo_ledger_valid h(1,2) c h(3) n] k l by simp
qed

end
