(* ===== verification/GovLedger.thy ===== *)
theory GovLedger
  imports Csr
begin

text \<open>
  The agent's governance layer (\<open>agent/governance\<close>): receipts and the receipt ledger with
  its JSONL log (\<open>receipts.ts\<close>, \<open>ledger.ts\<close>), the registry of invariants (\<open>invariants.ts\<close>),
  the validation of an action against them and against the fixed INAS invariants
  (\<open>validator.ts\<close>, \<open>inas/spec/assurance.ts\<close>), and the status report (\<open>kernelStatus.ts\<close>).
  Violations handed to listeners are kept as a trace. Listeners and receipt hooks
  themselves are code outside this layer and cannot change its state.
\<close>

subsection \<open>Actions, evidence, receipts\<close>

record action =
  a_type :: string
  a_payload :: "(string \<times> json) list"

definition action_json :: "action \<Rightarrow> json" where
  "action_json a = JObj [(''type'', JStr (a_type a)), (''payload'', JObj (a_payload a))]"

record evidence_prim =
  p_type :: string
  p_id :: string
  p_time :: time
  p_auth :: string
  p_body :: json

definition prim_json :: "evidence_prim \<Rightarrow> json" where
  "prim_json p = JObj [(''type'', JStr (p_type p)), (''id'', JStr (p_id p)),
     (''timestamp'', JStr (iso_string (p_time p))), (''authority'', JStr (p_auth p)), (''body'', p_body p)]"

record receipt =
  g_id :: string
  g_time :: time
  g_auth :: string
  g_lineage :: "string list"
  g_prev :: string
  g_hash :: string
  g_action :: action
  g_checked :: "string list"
  g_continuity :: string
  g_ledgerHash :: string
  g_blocked :: "bool option"
  g_reason :: "string option"
  g_evidence :: "evidence_prim list option"
  g_level :: "string option"
  g_crk1 :: "json option"

subsection \<open>State\<close>

datatype severity = SevError | SevWarning | SevCritical

record inv_state =
  is_action :: action
  is_diff :: "string option"
  is_code :: "string option"
  is_prompt :: "string option"
  is_selection :: "string option"
  is_type :: "string option"

record invariant =
  iv_id :: string
  iv_desc :: string
  iv_severity :: severity
  iv_check :: "inv_state \<Rightarrow> bool"
  iv_inas :: "string option"

record violation =
  vi_id :: string
  vi_invariant :: string
  vi_desc :: string
  vi_message :: string
  vi_severity :: severity
  vi_action :: action
  vi_inas :: "string option"

text \<open>A line of the receipt log is a receipt, or text that does not parse.\<close>

record gov_st = base_st +
  gov_ledger :: "receipt list"
  gov_wal :: "receipt option list"
  gov_loaded :: bool
  gov_continuity :: string
  gov_invariants :: "invariant list"
  gov_violations :: "violation list"

subsection \<open>The receipt ledger\<close>

text \<open>The loop that loads the log pushes receipts until a line throws.\<close>

fun parse_lines :: "receipt option list \<Rightarrow> receipt list" where
  "parse_lines [] = []"
| "parse_lines (None # ls) = []"
| "parse_lines (Some r # ls) = r # parse_lines ls"

definition ensureLoaded :: "'a gov_st_scheme \<Rightarrow> 'a gov_st_scheme" where
  "ensureLoaded s = (if gov_loaded s then s
     else s\<lparr>gov_loaded := True, gov_ledger := gov_ledger s @ parse_lines (gov_wal s)\<rparr>)"

definition appendToLedger :: "receipt \<Rightarrow> 'a gov_st_scheme \<Rightarrow> 'a gov_st_scheme" where
  "appendToLedger r s = (let s1 = ensureLoaded s in
     s1\<lparr>gov_ledger := gov_ledger s1 @ [r], gov_wal := gov_wal s1 @ [Some r]\<rparr>)"

definition getLedger :: "'a gov_st_scheme \<Rightarrow> receipt list \<times> 'a gov_st_scheme" where
  "getLedger s = (let s1 = ensureLoaded s in (gov_ledger s1, s1))"

definition getLedgerTailHash :: "'a gov_st_scheme \<Rightarrow> string \<times> 'a gov_st_scheme" where
  "getLedgerTailHash s = (let s1 = ensureLoaded s in
     (if gov_ledger s1 = [] then ''genesis'' else g_hash (last (gov_ledger s1)), s1))"

definition clearLedger :: "'a gov_st_scheme \<Rightarrow> 'a gov_st_scheme" where
  "clearLedger s = s\<lparr>gov_ledger := [], gov_loaded := True, gov_wal := []\<rparr>"

text \<open>Reading the log without loading it; an unparsable line makes it throw.\<close>

definition readLedgerWal :: "'a gov_st_scheme \<Rightarrow> receipt list option" where
  "readLedgerWal s = (if None \<in> set (gov_wal s) then None else Some (map the (gov_wal s)))"

text \<open>A new process starts with nothing in memory.\<close>

definition restart_ledger :: "'a gov_st_scheme \<Rightarrow> 'a gov_st_scheme" where
  "restart_ledger s = s\<lparr>gov_ledger := [], gov_loaded := False\<rparr>"

subsection \<open>Recording a receipt\<close>

definition LEVEL_PRIMITIVES :: "string \<Rightarrow> string list" where
  "LEVEL_PRIMITIVES l =
     (if l = ''A1'' then [''intent'', ''event'']
      else if l = ''A2'' \<or> l = ''A3''
      then [''intent'', ''event'', ''state'', ''authority'', ''execution'', ''validation'']
      else [''intent''])"

record receipt_opts =
  ro_blocked :: "bool option"
  ro_reason :: "string option"
  ro_level :: "string option"
  ro_crk1 :: "json option"

primrec build_primitives ::
    "sysenv \<Rightarrow> action \<Rightarrow> string list \<Rightarrow> 'a sys_st_scheme \<Rightarrow> evidence_prim list \<times> 'a sys_st_scheme" where
  "build_primitives E a [] s = ([], s)"
| "build_primitives E a (t # ts) s =
     (let (u, s1) = take_uuid E s; (n, s2) = take_now E s1; (ps, s3) = build_primitives E a ts s2
      in (\<lparr>p_type = t, p_id = u, p_time = n,
           p_auth = (if t = ''authority'' then ''constitution'' else if t = ''execution'' then ''executor''
                     else if t = ''validation'' then ''validator'' else ''planner''),
           p_body = (if t = ''intent''
                     then JObj [(''actionType'', JStr (a_type a)), (''payload'', JObj (a_payload a))]
                     else JObj [(t, JStr (''generated-'' @ t @ ''-evidence''))])\<rparr> # ps, s3))"

definition buildEvidencePrimitives ::
    "sysenv \<Rightarrow> action \<Rightarrow> string \<Rightarrow> 'a sys_st_scheme \<Rightarrow> evidence_prim list \<times> 'a sys_st_scheme" where
  "buildEvidencePrimitives E a level s = build_primitives E a (LEVEL_PRIMITIVES level) s"

text \<open>The text a receipt of \<open>recordReceipt\<close> is hashed from.\<close>

definition receipt_text :: "receipt \<Rightarrow> string" where
  "receipt_text r = stringify (JObj (
     [(''id'', JStr (g_id r)),
      (''timestamp'', JStr (iso_string (g_time r))),
      (''authority'', JStr (g_auth r)),
      (''lineage'', jstrs (g_lineage r)),
      (''previousHash'', JStr (g_prev r)),
      (''action'', action_json (g_action r)),
      (''invariantsChecked'', jstrs (g_checked r)),
      (''continuityHash'', JStr (g_continuity r))] @
     opt_field ''evidencePrimitives'' (map_option (\<lambda>ps. JArr (map prim_json ps)) (g_evidence r)) @
     opt_field ''assuranceLevel'' (map_option JStr (g_level r)) @
     opt_field ''blocked'' (map_option JBool (g_blocked r)) @
     opt_field ''blockReason'' (map_option JStr (g_reason r)) @
     opt_field ''crk1'' (g_crk1 r)))"

definition recordReceipt ::
    "sysenv \<Rightarrow> action \<Rightarrow> string list \<Rightarrow> receipt_opts \<Rightarrow> 'a gov_st_scheme \<Rightarrow> receipt \<times> 'a gov_st_scheme" where
  "recordReceipt E a checked opts s =
     (let cont = gov_continuity s;
          (prevHash, s1) = getLedgerTailHash s;
          level = (case ro_level opts of Some l \<Rightarrow> l
                   | None \<Rightarrow> if ro_blocked opts = Some True then ''A0'' else ''A1'');
          (prims, s2) = buildEvidencePrimitives E a level s1;
          (u, s3) = take_uuid E s2;
          (t, s4) = take_now E s3;
          pre = \<lparr>g_id = u, g_time = t, g_auth = ''nova-kernel'', g_lineage = [prevHash], g_prev = prevHash,
                 g_hash = [], g_action = a, g_checked = checked, g_continuity = cont, g_ledgerHash = [],
                 g_blocked = ro_blocked opts, g_reason = ro_reason opts, g_evidence = Some prims,
                 g_level = Some level, g_crk1 = ro_crk1 opts\<rparr>;
          h = sha256 E (receipt_text pre);
          r = pre\<lparr>g_hash := h, g_ledgerHash := h\<rparr>
      in (r, appendToLedger r s4))"

definition getReceipt :: "string \<Rightarrow> 'a gov_st_scheme \<Rightarrow> receipt option \<times> 'a gov_st_scheme" where
  "getReceipt i s = (let (l, s1) = getLedger s in (List.find (\<lambda>r. g_id r = i) l, s1))"

definition listReceipts :: "'a gov_st_scheme \<Rightarrow> receipt list \<times> 'a gov_st_scheme" where
  "listReceipts s = getLedger s"

text \<open>The kernel writes its receipts itself (\<open>emitToLedger\<close> of \<open>kernel.ts\<close>): their hash is taken
  of the authority, the action and a time only.\<close>

definition emitToLedger ::
    "sysenv \<Rightarrow> string \<Rightarrow> action \<Rightarrow> bool \<Rightarrow> string option \<Rightarrow> 'a gov_st_scheme \<Rightarrow> receipt \<times> 'a gov_st_scheme" where
  "emitToLedger E authority a blocked reason s =
     (let (t0, s1) = take_now E s;
          h = sha256 E (stringify (JObj [(''authority'', JStr authority), (''action'', action_json a),
                (''timestamp'', JStr (iso_string t0))]));
          (tailHash, s2) = getLedgerTailHash s1;
          (u, s3) = take_uuid E s2;
          (t, s4) = take_now E s3;
          r = \<lparr>g_id = u, g_time = t, g_auth = authority, g_lineage = [tailHash], g_prev = tailHash,
               g_hash = h, g_action = a, g_checked = [], g_continuity = ''genesis'', g_ledgerHash = tailHash,
               g_blocked = (if blocked then Some True else None),
               g_reason = (if blocked then reason else None), g_evidence = None, g_level = None, g_crk1 = None\<rparr>
      in (r, appendToLedger r s4))"

subsection \<open>Invariants and the validation of an action\<close>

definition requireInvariant :: "invariant \<Rightarrow> 'a gov_st_scheme \<Rightarrow> 'a gov_st_scheme" where
  "requireInvariant iv s =
     (if \<exists>r\<in>set (gov_invariants s). iv_id r = iv_id iv then s
      else s\<lparr>gov_invariants := gov_invariants s @ [iv]\<rparr>)"

definition clearInvariants :: "'a gov_st_scheme \<Rightarrow> 'a gov_st_scheme" where
  "clearInvariants s = s\<lparr>gov_invariants := []\<rparr>"

record inas_invariant =
  ia_id :: string
  ia_statement :: string
  ia_severity :: severity

definition INAS_INVARIANTS :: "inas_invariant list" where
  "INAS_INVARIANTS =
     [\<lparr>ia_id = ''INAS-E001'', ia_statement = ''No constitutional decision without constitutional evidence'',
       ia_severity = SevCritical\<rparr>,
      \<lparr>ia_id = ''INAS-E002'', ia_statement = ''No evidence without provenance'', ia_severity = SevError\<rparr>,
      \<lparr>ia_id = ''INAS-X001'', ia_statement = ''No execution without validation'', ia_severity = SevCritical\<rparr>,
      \<lparr>ia_id = ''INAS-R001'', ia_statement = ''No validation without replayability'', ia_severity = SevWarning\<rparr>]"

text \<open>\<open>buildState\<close> of the validator leaves the optional fields out unless the payload has a string.\<close>

definition buildState :: "action \<Rightarrow> inv_state" where
  "buildState a = \<lparr>is_action = a, is_diff = jget_str (a_payload a) ''diff'',
     is_code = jget_str (a_payload a) ''code'', is_prompt = jget_str (a_payload a) ''prompt'',
     is_selection = jget_str (a_payload a) ''modelSelectionReceiptId'', is_type = Some (a_type a)\<rparr>"

definition bool_str :: "bool \<Rightarrow> string" where
  "bool_str b = (if b then ''true'' else ''false'')"

definition checkINASInvariant :: "string \<Rightarrow> nat \<Rightarrow> bool \<Rightarrow> bool \<Rightarrow> bool \<times> string" where
  "checkINASInvariant i evidenceCount hasProvenance validated =
     (if i = ''INAS-E001'' then (evidenceCount > 0, ''evidenceCount='' @ show_nat evidenceCount)
      else if i = ''INAS-E002'' then (hasProvenance, ''hasProvenance='' @ bool_str hasProvenance)
      else if i = ''INAS-X001'' then (validated, ''validated='' @ bool_str validated)
      else if i = ''INAS-R001'' then (True, ''replay supported'')
      else (True, ''unknown invariant''))"

definition serious :: "severity \<Rightarrow> bool" where
  "serious v \<longleftrightarrow> v = SevError \<or> v = SevCritical"

datatype verdict = VOk | VFail string violation

definition emitViolation :: "violation \<Rightarrow> 'a gov_st_scheme \<Rightarrow> 'a gov_st_scheme" where
  "emitViolation v s = s\<lparr>gov_violations := gov_violations s @ [v]\<rparr>"

text \<open>The em dash of the message, which is outside the alphabet, stands as its UTF-8 bytes.\<close>

definition em_dash :: string where
  "em_dash = [CHR 0xE2, CHR 0x80, CHR 0x94]"

fun check_registered ::
    "sysenv \<Rightarrow> action \<Rightarrow> invariant list \<Rightarrow> 'a gov_st_scheme \<Rightarrow> verdict \<times> 'a gov_st_scheme" where
  "check_registered E a [] s = (VOk, s)"
| "check_registered E a (iv # ivs) s =
     (if iv_check iv (buildState a) then check_registered E a ivs s
      else let (u, s1) = take_uuid E s;
               v = \<lparr>vi_id = u, vi_invariant = iv_id iv, vi_desc = iv_desc iv, vi_message = iv_desc iv,
                    vi_severity = iv_severity iv, vi_action = a, vi_inas = iv_inas iv\<rparr>;
               s2 = emitViolation v s1
           in if serious (iv_severity iv)
              then (VFail (''Invariant violated: '' @ iv_id iv @ '' '' @ em_dash @ '' '' @ iv_desc iv) v, s2)
              else check_registered E a ivs s2)"

fun check_inas ::
    "sysenv \<Rightarrow> action \<Rightarrow> nat \<Rightarrow> bool \<Rightarrow> bool \<Rightarrow> inas_invariant list \<Rightarrow> 'a gov_st_scheme \<Rightarrow>
     verdict \<times> 'a gov_st_scheme" where
  "check_inas E a n prov val [] s = (VOk, s)"
| "check_inas E a n prov val (iv # ivs) s =
     (let (passed, detail) = checkINASInvariant (ia_id iv) n prov val in
      if \<not> passed \<and> serious (ia_severity iv)
      then let (u, s1) = take_uuid E s;
               v = \<lparr>vi_id = u, vi_invariant = ia_id iv, vi_desc = ia_statement iv,
                    vi_message = ia_id iv @ '': '' @ ia_statement iv @ '' ('' @ detail @ '')'',
                    vi_severity = ia_severity iv, vi_action = a, vi_inas = Some (ia_id iv)\<rparr>
           in (VFail (''INAS invariant violated: '' @ ia_id iv) v, emitViolation v s1)
      else check_inas E a n prov val ivs s)"

definition nonempty :: "string option \<Rightarrow> bool" where
  "nonempty x \<longleftrightarrow> x \<noteq> None \<and> x \<noteq> Some []"

definition validateAction :: "sysenv \<Rightarrow> action \<Rightarrow> 'a gov_st_scheme \<Rightarrow> verdict \<times> 'a gov_st_scheme" where
  "validateAction E a s =
     (case check_registered E a (gov_invariants s) s of
        (VFail r v, s1) \<Rightarrow> (VFail r v, s1)
      | (VOk, s1) \<Rightarrow>
          let st = buildState a;
              hasEvidence = (nonempty (is_code st) \<or> nonempty (is_diff st) \<or> nonempty (is_prompt st));
              hasProvenance = (a_type (is_action st) \<noteq> []);
              validated = (gov_invariants s \<noteq> [])
          in check_inas E a (if hasEvidence then 1 else 0) hasProvenance validated INAS_INVARIANTS s1)"

definition trace_of :: "'a gov_st_scheme \<Rightarrow> (receipt list \<times> string) \<times> 'a gov_st_scheme" where
  "trace_of s = (let (l, s1) = getLedger s; (h, s2) = getLedgerTailHash s1 in ((l, h), s2))"

subsection \<open>Status\<close>

record kernel_status =
  ks_invariantEngine :: string
  ks_ledger :: string
  ks_continuity :: string
  ks_violationsLastMinute :: nat
  ks_receiptCount :: nat
  ks_snapshotCount :: nat
  ks_activeInvariants :: nat
  ks_assuranceLevel :: string
  ks_inasCompliant :: bool

text \<open>The filter reads the clock once per blocked receipt, that is, at each \<open>r.blocked\<close>.\<close>

primrec recent_violations :: "sysenv \<Rightarrow> receipt list \<Rightarrow> 'a sys_st_scheme \<Rightarrow> nat \<times> 'a sys_st_scheme" where
  "recent_violations E [] s = (0, s)"
| "recent_violations E (r # rs) s =
     (if g_blocked r = Some True
      then let (n, s1) = take_now E s; (k, s2) = recent_violations E rs s1
           in ((if n - g_time r < 60000 then Suc k else k), s2)
      else recent_violations E rs s)"

definition kernelStatus :: "sysenv \<Rightarrow> nat \<Rightarrow> 'a gov_st_scheme \<Rightarrow> kernel_status \<times> 'a gov_st_scheme" where
  "kernelStatus E snapshots s =
     (let (l, s1) = getLedger s; (v, s2) = recent_violations E l s1;
          compliant = (\<forall>i\<in>set INAS_INVARIANTS. \<exists>r\<in>set (gov_invariants s). iv_id r = ia_id i)
      in (\<lparr>ks_invariantEngine = (if gov_invariants s \<noteq> [] then ''ok'' else ''warn''),
           ks_ledger = (if l \<noteq> [] then ''ok'' else ''warn''),
           ks_continuity = (if snapshots > 0 then ''ok'' else ''warn''),
           ks_violationsLastMinute = v, ks_receiptCount = length l, ks_snapshotCount = snapshots,
           ks_activeInvariants = length (gov_invariants s),
           ks_assuranceLevel = (if compliant then ''A1'' else ''A0''), ks_inasCompliant = compliant\<rparr>, s2))"

subsection \<open>Frames\<close>

lemma gov_take [simp]:
  "gov_ledger (snd (take_uuid E s)) = gov_ledger s" "gov_wal (snd (take_uuid E s)) = gov_wal s"
  "gov_loaded (snd (take_uuid E s)) = gov_loaded s" "gov_invariants (snd (take_uuid E s)) = gov_invariants s"
  "gov_ledger (snd (take_now E s)) = gov_ledger s" "gov_wal (snd (take_now E s)) = gov_wal s"
  "gov_loaded (snd (take_now E s)) = gov_loaded s" "gov_invariants (snd (take_now E s)) = gov_invariants s"
  by (simp_all add: take_uuid_def take_now_def)

lemma gov_log_csr [simp]:
  "gov_ledger (log_csr E tr d p i a s) = gov_ledger s" "gov_wal (log_csr E tr d p i a s) = gov_wal s"
  "gov_loaded (log_csr E tr d p i a s) = gov_loaded s"
  "gov_invariants (log_csr E tr d p i a s) = gov_invariants s"
  by (simp_all add: log_csr_update)

text \<open>The receipts an operation sees: what is in memory once the log has been loaded.\<close>

definition receipts :: "'a gov_st_scheme \<Rightarrow> receipt list" where
  "receipts s = gov_ledger (ensureLoaded s)"

lemma ensureLoaded_simps [simp]:
  "gov_loaded (ensureLoaded s)" "gov_wal (ensureLoaded s) = gov_wal s"
  "gov_invariants (ensureLoaded s) = gov_invariants s" "ensureLoaded (ensureLoaded s) = ensureLoaded s"
  "csr_ledger (ensureLoaded s) = csr_ledger s" "tick (ensureLoaded s) = tick s" "wal (ensureLoaded s) = wal s"
  "receipts (ensureLoaded s) = receipts s"
  by (simp_all add: ensureLoaded_def receipts_def)

lemma receipts_tick [simp]: "receipts (s\<lparr>tick := n\<rparr>) = receipts s"
  by (simp add: receipts_def ensureLoaded_def)

lemma receipts_log [simp]: "receipts (log_csr E tr d p i a s) = receipts s"
  by (simp add: receipts_def ensureLoaded_def)

lemma receipts_append [simp]: "receipts (appendToLedger r s) = receipts s @ [r]"
  by (simp add: receipts_def appendToLedger_def ensureLoaded_def Let_def)

lemma appendToLedger_wal [simp]: "gov_wal (appendToLedger r s) = gov_wal s @ [Some r]"
  by (simp add: appendToLedger_def Let_def)

lemma appendToLedger_loaded [simp]: "gov_loaded (appendToLedger r s)"
  by (simp add: appendToLedger_def ensureLoaded_def Let_def)

lemma tailHash_eq: "getLedgerTailHash s = (tail_hash g_hash ''genesis'' (receipts s), ensureLoaded s)"
  by (simp add: getLedgerTailHash_def receipts_def tail_hash_def Let_def)

lemma build_primitives_state:
  "\<exists>ps n. build_primitives E a ts s = (ps, s\<lparr>tick := tick s + n\<rparr>)"
proof (induction ts arbitrary: s)
  case Nil
  show ?case by (intro exI [of _ "[]"] exI [of _ 0]) simp
next
  case (Cons t ts)
  from Cons.IH [of "s\<lparr>tick := Suc (Suc (tick s))\<rparr>"] obtain ps n where
    "build_primitives E a ts (s\<lparr>tick := Suc (Suc (tick s))\<rparr>) = (ps, s\<lparr>tick := Suc (Suc (tick s)) + n\<rparr>)" by auto
  then show ?case by (simp add: take_uuid_def take_now_def) (metis add_Suc_right add_Suc)
qed

lemma recordReceipt_effect:
  "\<exists>r n. recordReceipt E a ch opts s = (r, appendToLedger r (ensureLoaded (s\<lparr>tick := n\<rparr>))) \<and> tick s \<le> n \<and>
     g_prev r = tail_hash g_hash ''genesis'' (receipts s) \<and> g_hash r = sha256 E (receipt_text r) \<and>
     g_action r = a \<and> g_checked r = ch \<and> g_blocked r = ro_blocked opts"
proof -
  define lv where "lv = (case ro_level opts of Some l \<Rightarrow> l
                   | None \<Rightarrow> if ro_blocked opts = Some True then ''A0'' else ''A1'')"
  obtain ps n where "build_primitives E a (LEVEL_PRIMITIVES lv) (ensureLoaded s) =
      (ps, (ensureLoaded s)\<lparr>tick := tick (ensureLoaded s) + n\<rparr>)"
    using build_primitives_state by blast
  moreover have "(ensureLoaded s)\<lparr>tick := k\<rparr> = ensureLoaded (s\<lparr>tick := k\<rparr>)" for k
    by (simp add: ensureLoaded_def)
  ultimately have bp: "buildEvidencePrimitives E a lv (ensureLoaded s) = (ps, ensureLoaded (s\<lparr>tick := tick s + n\<rparr>))"
    by (simp add: buildEvidencePrimitives_def)
  define pre where "pre = \<lparr>g_id = uuid_at E (tick s + n), g_time = now_at E (Suc (tick s + n)),
      g_auth = ''nova-kernel'', g_lineage = [tail_hash g_hash ''genesis'' (receipts s)],
      g_prev = tail_hash g_hash ''genesis'' (receipts s), g_hash = [], g_action = a, g_checked = ch,
      g_continuity = gov_continuity s, g_ledgerHash = [], g_blocked = ro_blocked opts, g_reason = ro_reason opts,
      g_evidence = Some ps, g_level = Some lv, g_crk1 = ro_crk1 opts\<rparr>"
  define r where "r = pre\<lparr>g_hash := sha256 E (receipt_text pre), g_ledgerHash := sha256 E (receipt_text pre)\<rparr>"
  have t: "take_uuid E (ensureLoaded (s\<lparr>tick := tick s + n\<rparr>)) = (uuid_at E (tick s + n), ensureLoaded (s\<lparr>tick := Suc (tick s + n)\<rparr>))"
    "take_now E (ensureLoaded (s\<lparr>tick := Suc (tick s + n)\<rparr>)) = (now_at E (Suc (tick s + n)), ensureLoaded (s\<lparr>tick := Suc (Suc (tick s + n))\<rparr>))"
    by (simp_all add: take_uuid_def take_now_def ensureLoaded_def)
  have "recordReceipt E a ch opts s = (r, appendToLedger r (ensureLoaded (s\<lparr>tick := Suc (Suc (tick s + n))\<rparr>)))"
    unfolding recordReceipt_def Let_def tailHash_eq prod.case lv_def [symmetric] bp t pre_def [symmetric] r_def ..
  moreover have "receipt_text r = receipt_text pre" by (simp add: r_def receipt_text_def)
  ultimately show ?thesis by (intro exI [of _ r] exI [of _ "Suc (Suc (tick s + n))"]) (simp add: r_def pre_def)
qed

lemma emitToLedger_effect:
  "\<exists>r n. emitToLedger E au a b reason s = (r, appendToLedger r (ensureLoaded (s\<lparr>tick := n\<rparr>))) \<and> tick s \<le> n \<and>
     g_prev r = tail_hash g_hash ''genesis'' (receipts s) \<and> g_auth r = au \<and> g_action r = a \<and>
     g_blocked r = (if b then Some True else None) \<and> g_reason r = (if b then reason else None)"
proof -
  have "take_now E s = (now_at E (tick s), s\<lparr>tick := Suc (tick s)\<rparr>)" by (simp add: take_now_def)
  moreover have "take_uuid E (ensureLoaded (s\<lparr>tick := k\<rparr>)) = (uuid_at E k, ensureLoaded (s\<lparr>tick := Suc k\<rparr>))"
    "take_now E (ensureLoaded (s\<lparr>tick := k\<rparr>)) = (now_at E k, ensureLoaded (s\<lparr>tick := Suc k\<rparr>))" for k
    by (simp_all add: take_uuid_def take_now_def ensureLoaded_def)
  ultimately show ?thesis
    unfolding emitToLedger_def Let_def tailHash_eq prod.case
    by (simp only: prod.case receipts_tick) (intro exI conjI, rule refl, simp_all)
qed

lemma appendToLedger_keeps [simp]:
  "csr_ledger (appendToLedger r s) = csr_ledger s" "wal (appendToLedger r s) = wal s"
  "gov_invariants (appendToLedger r s) = gov_invariants s" "tick (appendToLedger r s) = tick s"
  by (simp_all add: appendToLedger_def Let_def)

lemma emit_simps [simp]:
  "receipts (snd (emitToLedger E au a b rn s)) = receipts s @ [fst (emitToLedger E au a b rn s)]"
  "gov_wal (snd (emitToLedger E au a b rn s)) = gov_wal s @ [Some (fst (emitToLedger E au a b rn s))]"
  "csr_ledger (snd (emitToLedger E au a b rn s)) = csr_ledger s"
  "wal (snd (emitToLedger E au a b rn s)) = wal s"
  "gov_invariants (snd (emitToLedger E au a b rn s)) = gov_invariants s"
  "gov_loaded (snd (emitToLedger E au a b rn s))"
  "tick s \<le> tick (snd (emitToLedger E au a b rn s))"
  "g_prev (fst (emitToLedger E au a b rn s)) = tail_hash g_hash ''genesis'' (receipts s)"
  "g_auth (fst (emitToLedger E au a b rn s)) = au" "g_action (fst (emitToLedger E au a b rn s)) = a"
  "g_blocked (fst (emitToLedger E au a b rn s)) = (if b then Some True else None)"
  "g_reason (fst (emitToLedger E au a b rn s)) = (if b then rn else None)"
  using emitToLedger_effect [of E au a b rn s] by auto

lemma recordReceipt_simps [simp]:
  "receipts (snd (recordReceipt E a ch op s)) = receipts s @ [fst (recordReceipt E a ch op s)]"
  "gov_wal (snd (recordReceipt E a ch op s)) = gov_wal s @ [Some (fst (recordReceipt E a ch op s))]"
  "csr_ledger (snd (recordReceipt E a ch op s)) = csr_ledger s"
  "wal (snd (recordReceipt E a ch op s)) = wal s"
  "gov_invariants (snd (recordReceipt E a ch op s)) = gov_invariants s"
  "gov_loaded (snd (recordReceipt E a ch op s))"
  "tick s \<le> tick (snd (recordReceipt E a ch op s))"
  "g_prev (fst (recordReceipt E a ch op s)) = tail_hash g_hash ''genesis'' (receipts s)"
  "g_hash (fst (recordReceipt E a ch op s)) = sha256 E (receipt_text (fst (recordReceipt E a ch op s)))"
  using recordReceipt_effect [of E a ch op s] by auto

subsection \<open>Receipts are a hash chain\<close>

lemma receipt_text_prev: "receipt_text r = receipt_text r' \<Longrightarrow> g_prev r = g_prev r'"
  by (auto simp: receipt_text_def dest!: json_quote_prefix jstrs_prefix)

interpretation receipt_chain: hash_chain g_prev g_hash receipt_text
  by unfold_locales (rule receipt_text_prev)

abbreviation receipts_linked :: "receipt list \<Rightarrow> bool" where
  "receipts_linked \<equiv> linked g_prev g_hash ''genesis''"

subsection \<open>Histories of the receipt log\<close>

datatype gov_event =
    Receipt action "string list" receipt_opts
  | Emit string action bool "string option"
  | Torn
  | Restart

definition gov_step :: "sysenv \<Rightarrow> gov_event \<Rightarrow> gov_st \<Rightarrow> gov_st" where
  "gov_step E e s =
     (case e of
        Receipt a ch op \<Rightarrow> snd (recordReceipt E a ch op s)
      | Emit au a b rn \<Rightarrow> snd (emitToLedger E au a b rn s)
      | Torn \<Rightarrow> s\<lparr>gov_wal := gov_wal s @ [None]\<rparr>
      | Restart \<Rightarrow> ensureLoaded (restart_ledger s))"

lemma parse_lines_append:
  "parse_lines (ls @ ms) = (if None \<in> set ls then parse_lines ls else parse_lines ls @ parse_lines ms)"
  by (induction ls rule: parse_lines.induct) auto

lemma parse_lines_Some [simp]: "parse_lines (map Some rs) = rs"
  by (induction rs) auto

lemma parse_lines_the: "None \<notin> set ls \<Longrightarrow> parse_lines ls = map the ls"
  by (induction ls rule: parse_lines.induct) auto

definition gov_ok :: "gov_st \<Rightarrow> bool" where
  "gov_ok s \<longleftrightarrow> gov_loaded s \<and> receipts_linked (receipts s) \<and> receipts_linked (parse_lines (gov_wal s)) \<and>
     (None \<notin> set (gov_wal s) \<longrightarrow> receipts s = parse_lines (gov_wal s))"

lemma restart_receipts [simp]: "receipts (restart_ledger s) = parse_lines (gov_wal s)"
  by (simp add: receipts_def restart_ledger_def ensureLoaded_def)

lemma restart_wal [simp]: "gov_wal (restart_ledger s) = gov_wal s"
  by (simp add: restart_ledger_def)

lemma gov_ok_append:
  assumes "gov_ok s" and "receipts s' = receipts s @ [r]" and "gov_wal s' = gov_wal s @ [Some r]"
    and "g_prev r = tail_hash g_hash ''genesis'' (receipts s)" and "gov_loaded s'"
  shows "gov_ok s'"
  using assms by (auto simp: gov_ok_def linked_snoc parse_lines_append)

lemma gov_step_ok: "gov_ok s \<Longrightarrow> gov_ok (gov_step E e s)"
proof (cases e)
  case Torn
  moreover assume "gov_ok s"
  moreover have "receipts (s\<lparr>gov_wal := gov_wal s @ [None]\<rparr>) = receipts s" if "gov_loaded s"
    using that by (simp add: receipts_def ensureLoaded_def)
  ultimately show ?thesis by (auto simp: gov_step_def gov_ok_def parse_lines_append)
next
  case Restart
  moreover assume "gov_ok s"
  ultimately show ?thesis by (auto simp: gov_step_def gov_ok_def)
qed (auto simp: gov_step_def elim: gov_ok_append)

interpretation gov_log: audited_machine "gov_step E" gov_ok gov_wal
  by unfold_locales (simp_all add: gov_step_ok, simp add: gov_step_def split: gov_event.split)

definition init_gov :: gov_st where
  "init_gov = \<lparr>tick = 0, csr_ledger = [], wal = [], gov_ledger = [], gov_wal = [], gov_loaded = True,
     gov_continuity = ''initial'', gov_invariants = [], gov_violations = []\<rparr>"

lemma init_gov_ok: "gov_ok init_gov"
  by (simp add: gov_ok_def init_gov_def receipts_def ensureLoaded_def)

subsection \<open>Validation\<close>

lemma take_uuid_gov: "snd (take_uuid E s) = s\<lparr>tick := Suc (tick s)\<rparr>"
  by (simp add: take_uuid_def)

lemma check_registered_effect:
  "\<exists>n vs. tick s \<le> n \<and> snd (check_registered E a ivs s) = s\<lparr>tick := n, gov_violations := gov_violations s @ vs\<rparr>"
proof (induction ivs arbitrary: s)
  case Nil
  show ?case by (intro exI [of _ "tick s"] exI [of _ "[]"]) simp
next
  case (Cons iv ivs)
  show ?case
  proof (cases "iv_check iv (buildState a)")
    case True
    with Cons.IH [of s] show ?thesis by simp
  next
    case False
    define t where "t = snd (check_registered E a [iv] s)"
    from False obtain v where t: "t = s\<lparr>tick := Suc (tick s), gov_violations := gov_violations s @ [v]\<rparr>"
      by (simp add: t_def emitViolation_def take_uuid_def Let_def split: if_splits)
    have "snd (check_registered E a (iv # ivs) s) = (if serious (iv_severity iv) then t else snd (check_registered E a ivs t))"
      using False by (simp add: t_def Let_def split: prod.split)
    with Cons.IH [of t] t show ?thesis by (auto intro: le_trans [OF le_SucI])
  qed
qed

lemma check_registered_ok:
  "fst (check_registered E a ivs s) = VOk \<longleftrightarrow> (\<forall>iv\<in>set ivs. serious (iv_severity iv) \<longrightarrow> iv_check iv (buildState a))"
  by (induction ivs arbitrary: s) (auto simp: Let_def split: prod.split)

lemma check_inas_effect:
  "\<exists>n vs. tick s \<le> n \<and> snd (check_inas E a k p v ivs s) = s\<lparr>tick := n, gov_violations := gov_violations s @ vs\<rparr>"
proof (induction ivs arbitrary: s)
  case Nil
  show ?case by (intro exI [of _ "tick s"] exI [of _ "[]"]) simp
next
  case (Cons iv ivs)
  then show ?case
    by (auto simp: Let_def emitViolation_def take_uuid_def split: prod.split intro: exI [of _ "Suc (tick s)"])
qed

lemma check_inas_ok:
  "fst (check_inas E a k p v INAS_INVARIANTS s) = VOk \<longleftrightarrow> k > 0 \<and> p \<and> v"
  by (auto simp: INAS_INVARIANTS_def checkINASInvariant_def serious_def Let_def split: prod.split)

lemma validateAction_effect:
  "\<exists>n vs. tick s \<le> n \<and> snd (validateAction E a s) = s\<lparr>tick := n, gov_violations := gov_violations s @ vs\<rparr>"
proof -
  obtain w t where c: "check_registered E a (gov_invariants s) s = (w, t)" by fastforce
  with check_registered_effect [of s E a "gov_invariants s"] obtain n vs where
    t: "tick s \<le> n" "t = s\<lparr>tick := n, gov_violations := gov_violations s @ vs\<rparr>" by auto
  show ?thesis
  proof (cases w)
    case VOk
    define ev where "ev = (nonempty (is_code (buildState a)) \<or> nonempty (is_diff (buildState a)) \<or> nonempty (is_prompt (buildState a)))"
    obtain m ws where "tick t \<le> m"
      "snd (check_inas E a (if ev then 1 else 0) (a_type (is_action (buildState a)) \<noteq> []) (gov_invariants s \<noteq> []) INAS_INVARIANTS t) =
        t\<lparr>tick := m, gov_violations := gov_violations t @ ws\<rparr>"
      using check_inas_effect by blast
    moreover have "snd (validateAction E a s) =
        snd (check_inas E a (if ev then 1 else 0) (a_type (is_action (buildState a)) \<noteq> []) (gov_invariants s \<noteq> []) INAS_INVARIANTS t)"
      using c VOk by (simp add: validateAction_def Let_def ev_def)
    ultimately show ?thesis using t by (intro exI [of _ m] exI [of _ "vs @ ws"]) simp
  next
    case (VFail r v)
    with c t show ?thesis by (auto simp: validateAction_def)
  qed
qed

definition has_evidence :: "action \<Rightarrow> bool" where
  "has_evidence a \<longleftrightarrow> (\<exists>k\<in>set [''code'', ''diff'', ''prompt'']. nonempty (jget_str (a_payload a) k))"

lemma validateAction_ok:
  "fst (validateAction E a s) = VOk \<longleftrightarrow>
     (\<forall>iv\<in>set (gov_invariants s). serious (iv_severity iv) \<longrightarrow> iv_check iv (buildState a)) \<and>
     gov_invariants s \<noteq> [] \<and> a_type a \<noteq> [] \<and> has_evidence a"
proof (cases "check_registered E a (gov_invariants s) s")
  case (Pair w t)
  then show ?thesis
    using check_registered_ok [of E a "gov_invariants s" s]
    by (cases w) (auto simp: validateAction_def check_inas_ok Let_def buildState_def has_evidence_def)
qed

lemma validateAction_frame [simp]:
  "tick s \<le> tick (snd (validateAction E a s))"
  "csr_ledger (snd (validateAction E a s)) = csr_ledger s" "wal (snd (validateAction E a s)) = wal s"
  "receipts (snd (validateAction E a s)) = receipts s" "gov_wal (snd (validateAction E a s)) = gov_wal s"
  "gov_invariants (snd (validateAction E a s)) = gov_invariants s"
  "gov_loaded (snd (validateAction E a s)) = gov_loaded s"
proof -
  obtain n vs where e: "tick s \<le> n" "snd (validateAction E a s) = s\<lparr>tick := n, gov_violations := gov_violations s @ vs\<rparr>"
    using validateAction_effect by blast
  have "receipts (s\<lparr>tick := n, gov_violations := gov_violations s @ vs\<rparr>) = receipts s"
    by (simp add: receipts_def ensureLoaded_def)
  with e show "tick s \<le> tick (snd (validateAction E a s))" "csr_ledger (snd (validateAction E a s)) = csr_ledger s" "wal (snd (validateAction E a s)) = wal s"
    "receipts (snd (validateAction E a s)) = receipts s" "gov_wal (snd (validateAction E a s)) = gov_wal s"
    "gov_invariants (snd (validateAction E a s)) = gov_invariants s"
    "gov_loaded (snd (validateAction E a s)) = gov_loaded s" by simp_all
qed

definition demo_action :: action where
  "demo_action = \<lparr>a_type = ''edit'', a_payload = [(''code'', JStr ''x'')]\<rparr>"

definition demo_receipt :: gov_event where
  "demo_receipt = Receipt demo_action [] \<lparr>ro_blocked = None, ro_reason = None, ro_level = None, ro_crk1 = None\<rparr>"

definition demo_invariant :: invariant where
  "demo_invariant = \<lparr>iv_id = ''I'', iv_desc = [], iv_severity = SevError, iv_check = (\<lambda>_. True), iv_inas = None\<rparr>"

subsection \<open>Properties\<close>

text \<open>C3. Over any history of recorded receipts, kernel receipts, process restarts and torn
  lines in the log, the receipts the process sees are linked from genesis, the log file only
  grows, and as long as no line was torn a restart brings back exactly the receipts of the log.\<close>

theorem receipt_log_history:
  "receipts_linked (receipts (fold (gov_step E) es init_gov)) \<and>
   prefix (gov_wal (fold (gov_step E) (take k es) init_gov)) (gov_wal (fold (gov_step E) es init_gov)) \<and>
   (None \<notin> set (gov_wal (fold (gov_step E) es init_gov)) \<longrightarrow>
     receipts (restart_ledger (fold (gov_step E) es init_gov)) = receipts (fold (gov_step E) es init_gov))"
proof -
  have ok: "gov_ok (fold (gov_step E) es init_gov)" by (rule gov_log.run_inv [OF init_gov_ok])
  have "fold (gov_step E) es init_gov = fold (gov_step E) (drop k es) (fold (gov_step E) (take k es) init_gov)"
    by (metis append_take_drop_id comp_apply fold_append)
  then have "prefix (gov_wal (fold (gov_step E) (take k es) init_gov)) (gov_wal (fold (gov_step E) es init_gov))"
    using gov_log.run_log by metis
  with ok show ?thesis by (auto simp: gov_ok_def)
qed

theorem receipt_log_history_witness:
  "receipts (restart_ledger (gov_step demo_env demo_receipt init_gov)) = receipts (gov_step demo_env demo_receipt init_gov)"
  using receipt_log_history [of demo_env "[demo_receipt]" 0]
  by (simp add: gov_step_def init_gov_def demo_receipt_def)

text \<open>A torn line hides what follows it: the receipts recorded after a restart that met a
  torn line are written behind it and are not there after the next restart; the process starts
  again from the receipts before the torn line.\<close>

theorem torn_line_hides_later_receipts:
  assumes "gov_wal s = map Some old @ None # rest"
  shows "\<exists>r. receipts (gov_step E (Receipt a ch op) (gov_step E Restart s)) = old @ [r] \<and>
    Some r \<in> set (gov_wal (gov_step E (Receipt a ch op) (gov_step E Restart s))) \<and>
    receipts (gov_step E Restart (gov_step E (Receipt a ch op) (gov_step E Restart s))) = old"
  using assms by (simp add: gov_step_def parse_lines_append)

theorem torn_line_witness:
  "\<exists>r. receipts (gov_step demo_env demo_receipt (gov_step demo_env Restart (gov_step demo_env Torn init_gov))) = [r] \<and>
    Some r \<in> set (gov_wal (gov_step demo_env demo_receipt (gov_step demo_env Restart (gov_step demo_env Torn init_gov)))) \<and>
    receipts (gov_step demo_env Restart (gov_step demo_env demo_receipt (gov_step demo_env Restart (gov_step demo_env Torn init_gov)))) = []"
  using torn_line_hides_later_receipts [of "gov_step demo_env Torn init_gov" "[]" "[]"]
  by (simp add: gov_step_def init_gov_def demo_receipt_def)

text \<open>C4. The validator accepts an action exactly when every registered invariant of severity
  error or critical holds of it, at least one invariant is registered, the action has a type
  and its payload carries non-empty code, diff or prompt text; warnings never reject.\<close>

theorem validateAction_spec:
  "fst (validateAction E a s) = VOk \<longleftrightarrow>
     (\<forall>iv\<in>set (gov_invariants s). serious (iv_severity iv) \<longrightarrow> iv_check iv (buildState a)) \<and>
     gov_invariants s \<noteq> [] \<and> a_type a \<noteq> [] \<and>
     (\<exists>k\<in>set [''code'', ''diff'', ''prompt'']. \<exists>t. jget_str (a_payload a) k = Some t \<and> t \<noteq> [])"
  unfolding validateAction_ok by (auto simp: has_evidence_def nonempty_def)

theorem validateAction_witness:
  "fst (validateAction demo_env demo_action (requireInvariant demo_invariant init_gov)) = VOk \<and>
   fst (validateAction demo_env demo_action init_gov) \<noteq> VOk"
  using validateAction_spec [of demo_env demo_action "requireInvariant demo_invariant init_gov"]
    validateAction_spec [of demo_env demo_action init_gov]
  by (simp add: demo_action_def demo_invariant_def requireInvariant_def init_gov_def jget_str_def)

end
