(* ===== verification/Accounting.thy ===== *)
theory Accounting
  imports GovLedger
begin

text \<open>
  Resource budgets of the kernel (\<open>agent/sovereign-x/accounting.ts\<close>): creating a budget with
  the limits of the agent's role, finding an agent's open budget, consuming, resetting and
  reporting. Amounts are binary64 numbers; a unit without a limit has limit Infinity.
\<close>

datatype num_inf = Fin jsnum | Inf

text \<open>The units an amount can be in; every operation is called with one of them.\<close>

definition RESOURCE_UNITS :: "string list" where
  "RESOURCE_UNITS = [''cpu-ms'', ''gpu-ms'', ''memory-mb'', ''tokens'', ''calls'']"

text \<open>What an object literal is looked up to: its own limits, or a member every object
  inherits, which is a function except for \<open>__proto__\<close>.\<close>

datatype limits = Limits "(string \<times> jsnum) list" | Builtin bool

definition OBJECT_FUNCTIONS :: "string list" where
  "OBJECT_FUNCTIONS = [''constructor'', ''hasOwnProperty'', ''isPrototypeOf'', ''propertyIsEnumerable'',
     ''toLocaleString'', ''toString'', ''valueOf'', ''__defineGetter__'', ''__defineSetter__'',
     ''__lookupGetter__'', ''__lookupSetter__'']"

definition DEFAULT_LIMITS :: "(string \<times> (string \<times> jsnum) list) list" where
  "DEFAULT_LIMITS =
     [(''architect'', [(''cpu-ms'', 60000), (''memory-mb'', 512), (''calls'', 100)]),
      (''builder'', [(''cpu-ms'', 120000), (''memory-mb'', 1024), (''calls'', 200)]),
      (''implementor'', [(''cpu-ms'', 300000), (''memory-mb'', 2048), (''calls'', 500)]),
      (''validator'', [(''cpu-ms'', 60000), (''memory-mb'', 512), (''calls'', 100)]),
      (''reviewer'', [(''cpu-ms'', 120000), (''memory-mb'', 1024), (''calls'', 150)])]"

definition default_limits :: "string \<Rightarrow> limits" where
  "default_limits roleKey =
     (case map_of DEFAULT_LIMITS roleKey of
        Some l \<Rightarrow> Limits l
      | None \<Rightarrow>
          if roleKey \<in> set OBJECT_FUNCTIONS then Builtin True
          else if roleKey = ''__proto__'' then Builtin False
          else Limits [(''cpu-ms'', 60000), (''memory-mb'', 512), (''calls'', 50)])"

record budget =
  b_id :: string
  b_agent :: string
  b_intent :: "string option"
  b_limits :: limits
  b_consumed :: "(string \<times> jsnum) list"
  b_created :: time
  b_reset :: "time option"

record consumption =
  u_id :: string
  u_budget :: string
  u_unit :: string
  u_amount :: jsnum
  u_time :: time
  u_task :: string
  u_approved :: bool

record acct_st = gov_st +
  budgets :: "(string, budget) jsmap"
  consumptions :: "consumption list"

definition limit_of :: "limits \<Rightarrow> string \<Rightarrow> num_inf" where
  "limit_of l u = (case l of Limits ls \<Rightarrow> (case map_of ls u of Some x \<Rightarrow> Fin x | None \<Rightarrow> Inf) | Builtin _ \<Rightarrow> Inf)"

definition consumed_of :: "budget \<Rightarrow> string \<Rightarrow> jsnum" where
  "consumed_of b u = (case map_of (b_consumed b) u of Some x \<Rightarrow> x | None \<Rightarrow> 0)"

definition zero_consumed :: "(string \<times> jsnum) list" where
  "zero_consumed = [(''cpu-ms'', 0), (''memory-mb'', 0), (''tokens'', 0), (''calls'', 0)]"

definition limits_field :: "limits \<Rightarrow> (string \<times> json) list" where
  "limits_field l = (case l of
      Limits ls \<Rightarrow> [(''limits'', JObj (map (\<lambda>(u, x). (u, JNum x)) ls))]
    | Builtin f \<Rightarrow> if f then [] else [(''limits'', JObj [])])"

text \<open>\<open>JSON.stringify\<close> writes null for Infinity.\<close>

definition num_json :: "num_inf \<Rightarrow> json" where
  "num_json x = (case x of Fin r \<Rightarrow> JNum r | Inf \<Rightarrow> JNull)"

definition sub_inf :: "num_inf \<Rightarrow> jsnum \<Rightarrow> num_inf" where
  "sub_inf x y = (case x of Fin r \<Rightarrow> Fin (js_sub r y) | Inf \<Rightarrow> Inf)"

definition less_amount :: "num_inf \<Rightarrow> jsnum \<Rightarrow> bool" where
  "less_amount x a = (case x of Fin r \<Rightarrow> r < a | Inf \<Rightarrow> False)"

definition inf_str :: "num_inf \<Rightarrow> string" where
  "inf_str x = (case x of Fin r \<Rightarrow> num_str r | Inf \<Rightarrow> ''Infinity'')"

definition createBudget ::
    "sysenv \<Rightarrow> string \<Rightarrow> string option \<Rightarrow> limits option \<Rightarrow> 'a acct_st_scheme \<Rightarrow> budget \<times> 'a acct_st_scheme" where
  "createBudget E agentId intentId custom s =
     (let roleKey = takeWhile (\<lambda>c. c \<noteq> CHR ''-'') agentId;
          defaults = default_limits roleKey;
          (u, s1) = take_uuid E s; (t, s2) = take_now E s1;
          b = \<lparr>b_id = u, b_agent = agentId, b_intent = intentId,
               b_limits = (case custom of Some l \<Rightarrow> l | None \<Rightarrow> defaults),
               b_consumed = zero_consumed, b_created = t, b_reset = None\<rparr>;
          s3 = s2\<lparr>budgets := js_set u b (budgets s2)\<rparr>
      in (b, log_csr E ''budget-created'' ''accounting''
               ([(''budgetId'', JStr u), (''agentId'', JStr agentId)] @ limits_field (b_limits b))
               intentId ''sovereign-x-accounting'' s3))"

definition getBudget :: "string \<Rightarrow> 'a acct_st_scheme \<Rightarrow> budget option" where
  "getBudget i s = js_get (budgets s) i"

definition getAgentBudget :: "string \<Rightarrow> 'a acct_st_scheme \<Rightarrow> budget option" where
  "getAgentBudget agentId s = List.find (\<lambda>b. b_agent b = agentId \<and> b_reset b = None) (js_values (budgets s))"

datatype consume_result = Consumed num_inf | Refused num_inf string

definition consumeResource ::
    "sysenv \<Rightarrow> string \<Rightarrow> string \<Rightarrow> jsnum \<Rightarrow> string \<Rightarrow> 'a acct_st_scheme \<Rightarrow> consume_result \<times> 'a acct_st_scheme" where
  "consumeResource E budgetId unit amount taskId s =
     (case js_get (budgets s) budgetId of
        None \<Rightarrow> (Refused (Fin 0) (''Budget '' @ budgetId @ '' not found''), s)
      | Some b \<Rightarrow>
          let limit = limit_of (b_limits b) unit;
              cur = consumed_of b unit;
              remaining = sub_inf limit cur
          in if less_amount remaining amount
             then let (u, s1) = take_uuid E s; (t, s2) = take_now E s1;
                      s3 = s2\<lparr>consumptions := consumptions s2 @
                             [\<lparr>u_id = u, u_budget = budgetId, u_unit = unit, u_amount = amount,
                               u_time = t, u_task = taskId, u_approved = False\<rparr>]\<rparr>
                  in (Refused remaining (unit @ '' limit exceeded: '' @ num_str (js_add cur amount) @ '' > '' @ inf_str limit),
                      log_csr E ''resource-exceeded'' ''accounting''
                        [(''budgetId'', JStr budgetId), (''unit'', JStr unit), (''amount'', JNum amount),
                         (''current'', JNum cur), (''limit'', num_json limit), (''taskId'', JStr taskId)]
                        None ''sovereign-x-accounting'' s3)
             else let s0 = s\<lparr>budgets := js_modify budgetId
                             (\<lambda>b. b\<lparr>b_consumed := js_set unit (js_add cur amount) (b_consumed b)\<rparr>) (budgets s)\<rparr>;
                      (u, s1) = take_uuid E s0; (t, s2) = take_now E s1;
                      s3 = s2\<lparr>consumptions := consumptions s2 @
                             [\<lparr>u_id = u, u_budget = budgetId, u_unit = unit, u_amount = amount,
                               u_time = t, u_task = taskId, u_approved = True\<rparr>]\<rparr>
                  in (Consumed (sub_inf remaining amount),
                      log_csr E ''resource-consumed'' ''accounting''
                        [(''budgetId'', JStr budgetId), (''unit'', JStr unit), (''amount'', JNum amount),
                         (''remaining'', num_json (sub_inf remaining amount)), (''taskId'', JStr taskId)]
                        None ''sovereign-x-accounting'' s3))"

definition resetBudget :: "sysenv \<Rightarrow> string \<Rightarrow> 'a acct_st_scheme \<Rightarrow> bool \<times> 'a acct_st_scheme" where
  "resetBudget E budgetId s =
     (case js_get (budgets s) budgetId of
        None \<Rightarrow> (False, s)
      | Some b \<Rightarrow>
          let (t, s1) = take_now E s;
              s2 = s1\<lparr>budgets := js_modify budgetId (\<lambda>b. b\<lparr>b_consumed := zero_consumed, b_reset := Some t\<rparr>) (budgets s1)\<rparr>
          in (True, log_csr E ''budget-reset'' ''accounting'' [(''budgetId'', JStr budgetId)] None
                      ''sovereign-x-accounting'' s2))"

record usage =
  us_unit :: string
  us_consumed :: jsnum
  us_limit :: num_inf
  us_remaining :: num_inf

definition getBudgetUsage :: "string \<Rightarrow> 'a acct_st_scheme \<Rightarrow> budget option \<times> usage list" where
  "getBudgetUsage budgetId s =
     (case js_get (budgets s) budgetId of
        None \<Rightarrow> (None, [])
      | Some b \<Rightarrow>
          (Some b, map (\<lambda>unit. \<lparr>us_unit = unit, us_consumed = consumed_of b unit,
                              us_limit = limit_of (b_limits b) unit,
                              us_remaining = sub_inf (limit_of (b_limits b) unit) (consumed_of b unit)\<rparr>)
                     (case b_limits b of Limits ls \<Rightarrow> map fst ls | Builtin _ \<Rightarrow> [])))"

definition listConsumptions :: "string option \<Rightarrow> 'a acct_st_scheme \<Rightarrow> consumption list" where
  "listConsumptions budgetId s =
     (if nonempty budgetId then filter (\<lambda>c. Some (u_budget c) = budgetId) (consumptions s) else consumptions s)"

definition getAccountingStatus :: "'a acct_st_scheme \<Rightarrow> nat \<times> nat \<times> nat" where
  "getAccountingStatus s = (length (budgets s), length (consumptions s),
     length (filter (\<lambda>c. \<not> u_approved c) (consumptions s)))"

definition resetAccounting :: "'a acct_st_scheme \<Rightarrow> 'a acct_st_scheme" where
  "resetAccounting s = s\<lparr>budgets := [], consumptions := []\<rparr>"

subsection \<open>Frames\<close>

lemma acct_log_csr [simp]:
  "budgets (log_csr E tr d p i a s) = budgets s" "consumptions (log_csr E tr d p i a s) = consumptions s"
  by (simp_all add: log_csr_update)

lemma createBudget_effect:
  "\<exists>b. fst (createBudget E ag i cl s) = b \<and> b_id b = uuid_at E (tick s) \<and> b_agent b = ag \<and> b_intent b = i \<and>
     b_limits b = (case cl of Some l \<Rightarrow> l | None \<Rightarrow> default_limits (takeWhile (\<lambda>c. c \<noteq> CHR ''-'') ag)) \<and>
     b_consumed b = zero_consumed \<and> b_reset b = None \<and>
     budgets (snd (createBudget E ag i cl s)) = js_set (uuid_at E (tick s)) b (budgets s) \<and>
     consumptions (snd (createBudget E ag i cl s)) = consumptions s \<and>
     tick (snd (createBudget E ag i cl s)) = tick s + 4"
  by (simp add: createBudget_def take_uuid_def take_now_def Let_def)

text \<open>What consuming does, by cases.\<close>

lemma consume_missing:
  "js_get (budgets s) k = None \<Longrightarrow> snd (consumeResource E k un a t s) = s"
  by (simp add: consumeResource_def)

lemma consume_refused:
  assumes "js_get (budgets s) k = Some b"
    and "less_amount (sub_inf (limit_of (b_limits b) un) (consumed_of b un)) a"
  shows "\<exists>c. budgets (snd (consumeResource E k un a t s)) = budgets s \<and>
     consumptions (snd (consumeResource E k un a t s)) = consumptions s @ [c] \<and>
     \<not> u_approved c \<and> u_budget c = k \<and> tick (snd (consumeResource E k un a t s)) = tick s + 4"
  using assms by (simp add: consumeResource_def take_uuid_def take_now_def Let_def)

lemma consume_approved:
  assumes "js_get (budgets s) k = Some b"
    and "\<not> less_amount (sub_inf (limit_of (b_limits b) un) (consumed_of b un)) a"
  shows "\<exists>c. budgets (snd (consumeResource E k un a t s)) =
       js_modify k (\<lambda>b'. b'\<lparr>b_consumed := js_set un (js_add (consumed_of b un) a) (b_consumed b')\<rparr>) (budgets s) \<and>
     consumptions (snd (consumeResource E k un a t s)) = consumptions s @ [c] \<and>
     u_approved c \<and> u_budget c = k \<and> u_unit c = un \<and> u_amount c = a \<and>
     tick (snd (consumeResource E k un a t s)) = tick s + 4"
  using assms by (simp add: consumeResource_def take_uuid_def take_now_def Let_def)

lemma reset_effect:
  assumes "js_get (budgets s) k = Some b"
  shows "budgets (snd (resetBudget E k s)) =
       js_modify k (\<lambda>b. b\<lparr>b_consumed := zero_consumed, b_reset := Some (now_at E (tick s))\<rparr>) (budgets s) \<and>
     consumptions (snd (resetBudget E k s)) = consumptions s \<and> tick (snd (resetBudget E k s)) = tick s + 3"
  using assms by (simp add: resetBudget_def take_now_def Let_def)

lemma zero_consumed_0: "map_of zero_consumed u = Some x \<Longrightarrow> x = 0"
  by (simp add: zero_consumed_def split: if_splits)

lemma consumed_zero [simp]: "b_consumed b = zero_consumed \<Longrightarrow> consumed_of b u = 0"
  by (simp add: consumed_of_def zero_consumed_0 split: option.split)

lemma consumed_set [simp]:
  "consumed_of (b\<lparr>b_consumed := js_set un x (b_consumed b)\<rparr>) u = (if u = un then x else consumed_of b u)"
  by (simp add: consumed_of_def)

lemma fl_nat: "n \<le> 2 ^ 53 \<Longrightarrow> fl (of_nat n) = of_nat n"
  using fl_of_int [of "int n"] by simp

subsection \<open>No budget is overspent\<close>

definition spent :: "consumption list \<Rightarrow> string \<Rightarrow> string \<Rightarrow> jsnum" where
  "spent cs k un = sum_list (map u_amount (filter (\<lambda>x. u_approved x \<and> u_budget x = k \<and> u_unit x = un) cs))"

lemma spent_append: "spent (cs @ ds) k un = spent cs k un + spent ds k un"
  by (simp add: spent_def)

lemma spent_single: "spent [c] k un = (if u_approved c \<and> u_budget c = k \<and> u_unit c = un then u_amount c else 0)"
  by (simp add: spent_def)

lemma spent_fresh: "\<forall>c\<in>set cs. u_budget c \<noteq> k \<Longrightarrow> spent cs k un = 0"
  by (induction cs) (simp_all add: spent_def)

definition bud_ok :: "consumption list \<Rightarrow> string \<Rightarrow> budget \<Rightarrow> bool" where
  "bud_ok cs k b \<longleftrightarrow>
     (\<forall>un l. limit_of (b_limits b) un = Fin l \<longrightarrow>
        (\<exists>i c. l = of_nat i \<and> i \<le> 2 ^ 53 \<and> consumed_of b un = of_nat c \<and> c \<le> i \<and>
               spent cs k un = of_nat c))"

text \<open>\<open>m k\<close> is the length the log of consumptions had when the budget \<open>k\<close> was last reset,
  and 0 before any reset: what counts against the budget is what the log holds from there on.\<close>

definition acct_ok :: "sysenv \<Rightarrow> (string \<Rightarrow> nat) \<Rightarrow> 'a acct_st_scheme \<Rightarrow> bool" where
  "acct_ok E m s \<longleftrightarrow>
     (\<forall>k b. js_get (budgets s) k = Some b \<longrightarrow> bud_ok (drop (m k) (consumptions s)) k b \<and> (\<exists>j<tick s. k = uuid_at E j)) \<and>
     (\<forall>c\<in>set (consumptions s). \<exists>j<tick s. u_budget c = uuid_at E j) \<and>
     (\<forall>k. m k \<le> length (consumptions s))"

definition whole :: "jsnum \<Rightarrow> bool" where
  "whole x \<longleftrightarrow> (\<exists>i. x = of_nat i \<and> i \<le> 2 ^ 53)"

lemma whole_numeral: "whole (numeral n) \<longleftrightarrow> numeral n \<le> (2 ^ 53 :: nat)"
proof
  assume "whole (numeral n)"
  then obtain i where "numeral n = (of_nat i :: rat)" "i \<le> 2 ^ 53" by (auto simp: whole_def)
  then show "numeral n \<le> (2 ^ 53 :: nat)" by (metis of_nat_eq_iff of_nat_numeral)
next
  assume "numeral n \<le> (2 ^ 53 :: nat)"
  then show "whole (numeral n)" unfolding whole_def by (intro exI [of _ "numeral n"]) simp
qed

definition whole_limits :: "limits \<Rightarrow> bool" where
  "whole_limits l \<longleftrightarrow> (\<forall>un x. limit_of l un = Fin x \<longrightarrow> whole x)"

lemma whole_limits_alist: "\<forall>p\<in>set ls. whole (snd p) \<Longrightarrow> whole_limits (Limits ls)"
  by (auto simp: whole_limits_def limit_of_def split: option.splits dest!: map_of_SomeD)

lemma default_limits_whole: "whole_limits (default_limits k)"
proof -
  have d: "\<forall>rl\<in>set DEFAULT_LIMITS. \<forall>p\<in>set (snd rl). whole (snd p)"
    by (simp add: DEFAULT_LIMITS_def whole_numeral)
  have b: "whole_limits (Builtin f)" for f by (simp add: whole_limits_def limit_of_def)
  have e: "whole_limits (Limits [(''cpu-ms'', 60000), (''memory-mb'', 512), (''calls'', 50)])"
    by (rule whole_limits_alist) (simp add: whole_numeral)
  show ?thesis
  proof (cases "map_of DEFAULT_LIMITS k")
    case None
    with b e show ?thesis by (simp add: default_limits_def)
  next
    case (Some ls)
    then have "(k, ls) \<in> set DEFAULT_LIMITS" by (rule map_of_SomeD)
    with d Some show ?thesis by (fastforce simp: default_limits_def intro!: whole_limits_alist)
  qed
qed

datatype acct_event =
    NewBudget string "string option" "limits option"
  | Use string string nat string
  | Reset string

text \<open>The calls the invariant speaks about: whole amounts, and custom limits that are whole.\<close>

definition acct_step :: "sysenv \<Rightarrow> acct_event \<Rightarrow> acct_st \<Rightarrow> acct_st" where
  "acct_step E e s =
     (case e of
        NewBudget ag i cl \<Rightarrow> if \<forall>l. cl = Some l \<longrightarrow> whole_limits l then snd (createBudget E ag i cl s) else s
      | Use k un a t \<Rightarrow> snd (consumeResource E k un (of_nat a) t s)
      | Reset k \<Rightarrow> snd (resetBudget E k s))"

lemma bud_ok_append:
  assumes "bud_ok cs k b" and "\<not> (u_approved c \<and> u_budget c = k)"
  shows "bud_ok (cs @ [c]) k b"
proof -
  from assms(2) have "spent (cs @ [c]) k un = spent cs k un" for un
    by (auto simp: spent_append spent_single)
  with assms(1) show ?thesis by (simp add: bud_ok_def)
qed

lemma bud_ok_zero:
  "whole_limits (b_limits b) \<Longrightarrow> b_consumed b = zero_consumed \<Longrightarrow> \<forall>un. spent cs k un = 0 \<Longrightarrow> bud_ok cs k b"
  unfolding bud_ok_def whole_limits_def whole_def by (metis consumed_zero le0 of_nat_0)

lemma bud_ok_whole: "bud_ok cs k b \<Longrightarrow> whole_limits (b_limits b)"
  unfolding bud_ok_def whole_limits_def whole_def by blast

lemma bud_ok_use:
  assumes ok: "bud_ok cs k b" and room: "\<not> less_amount (sub_inf (limit_of (b_limits b) un) (consumed_of b un)) (of_nat a)"
    and c: "u_approved c" "u_budget c = k" "u_unit c = un" "u_amount c = of_nat a"
  shows "bud_ok (cs @ [c]) k (b\<lparr>b_consumed := js_set un (js_add (consumed_of b un) (of_nat a)) (b_consumed b)\<rparr>)"
  unfolding bud_ok_def
proof (intro allI impI)
  fix un' l
  assume "limit_of (b_limits (b\<lparr>b_consumed := js_set un (js_add (consumed_of b un) (of_nat a)) (b_consumed b)\<rparr>)) un' = Fin l"
  then have l: "limit_of (b_limits b) un' = Fin l" by simp
  with ok obtain i n where n: "l = of_nat i" "i \<le> 2 ^ 53" "consumed_of b un' = of_nat n" "n \<le> i"
    "spent cs k un' = of_nat n" unfolding bud_ok_def by blast
  show "\<exists>i n. l = of_nat i \<and> i \<le> 2 ^ 53 \<and>
      consumed_of (b\<lparr>b_consumed := js_set un (js_add (consumed_of b un) (of_nat a)) (b_consumed b)\<rparr>) un' = of_nat n \<and>
      n \<le> i \<and> spent (cs @ [c]) k un' = of_nat n"
  proof (cases "un' = un")
    case False
    with n c show ?thesis by (intro exI [of _ i] exI [of _ n]) (simp add: spent_append spent_single)
  next
    case True
    have "js_sub l (consumed_of b un) = of_nat (i - n)"
      using n True fl_nat [of "i - n"] by (simp add: js_sub_def of_nat_diff)
    with room l True have "(of_nat a :: rat) \<le> of_nat (i - n)" by (simp add: sub_inf_def less_amount_def)
    then have "n + a \<le> i" using n(4) by linarith
    moreover from this n have "js_add (consumed_of b un) (of_nat a) = of_nat (n + a)"
      using fl_nat [of "n + a"] True by (simp add: js_add_def)
    ultimately show ?thesis using n c True
      by (intro exI [of _ i] exI [of _ "n + a"]) (simp add: spent_append spent_single)
  qed
qed

definition ids_before :: "sysenv \<Rightarrow> nat \<Rightarrow> string set" where
  "ids_before E n = uuid_at E ` {..<n}"

lemma ids_before_add [simp]: "k \<in> ids_before E n \<Longrightarrow> k \<in> ids_before E (n + m)"
  by (auto simp: ids_before_def)

lemma ids_before_new: "uuid_at E n \<in> ids_before E (n + 4)"
  by (auto simp: ids_before_def)

lemma ids_before_fresh: "inj (uuid_at E) \<Longrightarrow> uuid_at E n \<notin> ids_before E n"
  by (auto simp: ids_before_def inj_eq)

lemma acct_ok_alt:
  "acct_ok E m s \<longleftrightarrow>
     (\<forall>k b. js_get (budgets s) k = Some b \<longrightarrow> bud_ok (drop (m k) (consumptions s)) k b \<and> k \<in> ids_before E (tick s)) \<and>
     (\<forall>c\<in>set (consumptions s). u_budget c \<in> ids_before E (tick s)) \<and>
     (\<forall>k. m k \<le> length (consumptions s))"
  unfolding acct_ok_def ids_before_def by blast

lemma acct_ok_create:
  assumes inj: "inj (uuid_at E)" and ok: "acct_ok E m s" and cl: "\<forall>l. cl = Some l \<longrightarrow> whole_limits l"
  shows "acct_ok E m (snd (createBudget E ag i cl s))"
proof -
  define s' where "s' = snd (createBudget E ag i cl s)"
  obtain b where b: "b_consumed b = zero_consumed"
    "b_limits b = (case cl of Some l \<Rightarrow> l | None \<Rightarrow> default_limits (takeWhile (\<lambda>c. c \<noteq> CHR ''-'') ag))"
    and s': "budgets s' = js_set (uuid_at E (tick s)) b (budgets s)" "consumptions s' = consumptions s" "tick s' = tick s + 4"
    using createBudget_effect [of E ag i cl s] unfolding s'_def by blast
  have "whole_limits (b_limits b)" using cl default_limits_whole b by (cases cl) auto
  moreover have "spent (drop (m (uuid_at E (tick s))) (consumptions s)) (uuid_at E (tick s)) un = 0" for un
    using ok ids_before_fresh [OF inj] by (intro spent_fresh) (auto simp: acct_ok_alt dest!: in_set_dropD)
  ultimately have "bud_ok (drop (m (uuid_at E (tick s))) (consumptions s)) (uuid_at E (tick s)) b"
    using b by (intro bud_ok_zero) auto
  then show ?thesis
    using ok s' unfolding s'_def [symmetric] acct_ok_alt by (auto simp: ids_before_new)
qed

lemma acct_ok_use:
  assumes ok: "acct_ok E m s"
  shows "acct_ok E m (snd (consumeResource E k un (of_nat a) t s))"
proof (cases "js_get (budgets s) k")
  case None
  with ok show ?thesis by (simp add: consume_missing)
next
  case (Some b)
  define s' where "s' = snd (consumeResource E k un (of_nat a) t s)"
  from ok Some have k: "k \<in> ids_before E (tick s)" "bud_ok (drop (m k) (consumptions s)) k b" by (auto simp: acct_ok_alt)
  show ?thesis
  proof (cases "less_amount (sub_inf (limit_of (b_limits b) un) (consumed_of b un)) (of_nat a)")
    case True
    obtain c where "budgets s' = budgets s" "consumptions s' = consumptions s @ [c]" "tick s' = tick s + 4"
      "\<not> u_approved c" "u_budget c = k"
      using consume_refused [OF Some True] unfolding s'_def by blast
    with ok k show ?thesis
      unfolding s'_def [symmetric] acct_ok_alt by (auto intro: bud_ok_append le_SucI)
  next
    case False
    obtain c where c: "u_approved c" "u_budget c = k" "u_unit c = un" "u_amount c = of_nat a"
      and s': "budgets s' = js_modify k (\<lambda>b'. b'\<lparr>b_consumed := js_set un (js_add (consumed_of b un) (of_nat a)) (b_consumed b')\<rparr>) (budgets s)"
        "consumptions s' = consumptions s @ [c]" "tick s' = tick s + 4"
      using consume_approved [OF Some False] unfolding s'_def by blast
    have "bud_ok (drop (m k) (consumptions s) @ [c]) k (b\<lparr>b_consumed := js_set un (js_add (consumed_of b un) (of_nat a)) (b_consumed b)\<rparr>)"
      using bud_ok_use [OF k(2) False c] .
    with ok k s' c Some show ?thesis
      unfolding s'_def [symmetric] acct_ok_alt by (auto intro: bud_ok_append le_SucI)
  qed
qed

lemma acct_ok_reset:
  assumes ok: "acct_ok E m s"
  shows "acct_ok E (m(k := length (consumptions s))) (snd (resetBudget E k s))"
proof (cases "js_get (budgets s) k")
  case None
  with ok show ?thesis by (auto simp: resetBudget_def acct_ok_alt)
next
  case (Some b)
  with ok have "bud_ok [] k (b\<lparr>b_consumed := zero_consumed, b_reset := Some (now_at E (tick s))\<rparr>)"
    by (intro bud_ok_zero) (auto simp: acct_ok_alt spent_def dest: bud_ok_whole)
  with ok Some reset_effect [OF Some, of E] show ?thesis
    unfolding acct_ok_alt by auto
qed

lemma acct_grows [frame]:
  "csr_grows E s (snd (createBudget E ag i cl s))"
  "csr_grows E s (snd (consumeResource E k un a t s))"
  "csr_grows E s (snd (resetBudget E k s))"
  by (auto simp: createBudget_def consumeResource_def resetBudget_def take_uuid_def take_now_def Let_def
      intro!: csr_grows_log csr_grows_same split: option.split)

lemma acct_step_grows: "csr_grows E s (acct_step E e s)"
  by (simp add: acct_step_def acct_grows split: acct_event.split)

text \<open>Where the counting starts anew.\<close>

definition mark_reset :: "acct_event \<Rightarrow> acct_st \<Rightarrow> (string \<Rightarrow> nat) \<Rightarrow> string \<Rightarrow> nat" where
  "mark_reset e s m = (case e of Reset k \<Rightarrow> m(k := length (consumptions s)) | _ \<Rightarrow> m)"

lemma acct_ok_step:
  "inj (uuid_at E) \<Longrightarrow> acct_ok E m s \<Longrightarrow> acct_ok E (mark_reset e s m) (acct_step E e s)"
  by (auto simp: acct_step_def mark_reset_def acct_ok_create acct_ok_use acct_ok_reset split: acct_event.split)

lemma mark_reset_other: "e \<noteq> Reset k \<Longrightarrow> mark_reset e s m k = m k"
  by (auto simp: mark_reset_def split: acct_event.split)

lemma acct_ok_run_since:
  assumes "inj (uuid_at E)" and "acct_ok E m s" and "Reset k \<notin> set es"
  shows "\<exists>m'. m' k = m k \<and> acct_ok E m' (fold (acct_step E) es s)"
  using assms(2,3)
proof (induction es arbitrary: s m)
  case Nil
  then show ?case by auto
next
  case (Cons e es)
  from Cons.IH [OF acct_ok_step [OF assms(1) Cons.prems(1), of e]] Cons.prems(2)
  show ?case by (auto simp: mark_reset_other)
qed

interpretation acct_log: audited_machine "acct_step E"
  "\<lambda>s. inj (uuid_at E) \<and> (\<exists>m. acct_ok E m s) \<and> csr_ok E (csr_ledger s)" csr_ledger
proof unfold_locales
  fix s :: acct_st and e
  assume "inj (uuid_at E) \<and> (\<exists>m. acct_ok E m s) \<and> csr_ok E (csr_ledger s)"
  then show "inj (uuid_at E) \<and> (\<exists>m. acct_ok E m (acct_step E e s)) \<and> csr_ok E (csr_ledger (acct_step E e s))"
    using csr_growsD(1) [OF acct_step_grows] acct_ok_step by blast
qed (rule csr_growsD(2) [OF acct_step_grows])

definition init_acct :: acct_st where
  "init_acct = \<lparr>tick = 0, csr_ledger = [], wal = [], gov_ledger = [], gov_wal = [], gov_loaded = True,
     gov_continuity = ''initial'', gov_invariants = [], gov_violations = [], budgets = [], consumptions = []\<rparr>"

lemma init_acct_ok: "acct_ok E (\<lambda>_. 0) init_acct"
  by (simp add: acct_ok_def init_acct_def)

text \<open>After any run the log counts from the last reset of a budget on: the run is split where
  that reset happened, or has no reset of it.\<close>

lemma acct_run_counts:
  assumes "inj (uuid_at E)" and "es = [] \<or> last es = Reset k" and "Reset k \<notin> set fs"
  shows "\<exists>m. m k = (length (consumptions (fold (acct_step E) es init_acct))) \<and>
    acct_ok E m (fold (acct_step E) (es @ fs) init_acct)"
proof (cases es rule: rev_cases)
  case Nil
  with acct_ok_run_since [OF assms(1) init_acct_ok assms(3)] show ?thesis by (simp add: init_acct_def)
next
  case (snoc ds e)
  with assms(2) have e: "e = Reset k" by simp
  define s where "s = fold (acct_step E) ds init_acct"
  obtain m where "acct_ok E m s"
    using acct_log.run_inv [of E init_acct ds] assms(1) init_acct_ok unfolding s_def by (auto simp: init_acct_def)
  from acct_ok_run_since [OF assms(1) acct_ok_step [OF assms(1) this, of e] assms(3)]
  obtain m' where "m' k = length (consumptions s)" "acct_ok E m' (fold (acct_step E) fs (acct_step E e s))"
    by (auto simp: e mark_reset_def)
  moreover have "length (consumptions (acct_step E e s)) = length (consumptions s)"
    by (simp add: e acct_step_def resetBudget_def take_now_def Let_def split: option.split)
  ultimately show ?thesis by (intro exI [of _ m']) (simp add: snoc s_def)
qed

subsection \<open>Properties\<close>

text \<open>C5. No budget is overspent: after any sequence of budget creations (with the default
  limits, or custom ones that are whole numbers up to 2^53), whole-number consumptions and
  resets, with fresh identifiers, for every budget and every unit it limits the consumed amount
  is within the limit, and it is exactly the sum of the approved consumptions recorded for that
  budget and unit since the budget was last reset, or since it was created when it was not.
  \<open>es\<close> is the run up to that last reset (empty when there is none), \<open>fs\<close> the run after it.
  Rounding of the machine numbers plays no part.\<close>

theorem budgets_never_overspent:
  assumes "inj (uuid_at E)"
    and "es = [] \<or> last es = Reset k" and "Reset k \<notin> set fs"
    and "js_get (budgets (fold (acct_step E) (es @ fs) init_acct)) k = Some b"
    and "limit_of (b_limits b) un = Fin l"
  shows "0 \<le> consumed_of b un \<and> consumed_of b un \<le> l \<and>
    consumed_of b un =
      spent (drop (length (consumptions (fold (acct_step E) es init_acct)))
        (consumptions (fold (acct_step E) (es @ fs) init_acct))) k un"
proof -
  from acct_run_counts [OF assms(1-3)] assms(4)
  have "bud_ok (drop (length (consumptions (fold (acct_step E) es init_acct)))
      (consumptions (fold (acct_step E) (es @ fs) init_acct))) k b"
    by (metis acct_ok_alt)
  with assms(5) obtain i c where "l = of_nat i" "consumed_of b un = of_nat c" "c \<le> i"
    "spent (drop (length (consumptions (fold (acct_step E) es init_acct)))
      (consumptions (fold (acct_step E) (es @ fs) init_acct))) k un = of_nat c"
    unfolding bud_ok_def by blast
  then show ?thesis by simp
qed

text \<open>A budget is used, reset and used again: only the second use counts.\<close>

theorem budgets_never_overspent_witness:
  "\<exists>b. js_get (budgets (fold (acct_step demo_env)
         [NewBudget ''builder-1'' None None, Use [] ''calls'' 7 ''t'', Reset [], Use [] ''calls'' 5 ''t''] init_acct)) [] = Some b \<and>
     consumed_of b ''calls'' = 5"
proof -
  define es where "es = [NewBudget ''builder-1'' None None, Use [] ''calls'' 7 ''t'', Reset []]"
  define fs where "fs = [Use [] ''calls'' 5 ''t'']"
  define s where "s = fold (acct_step demo_env) (es @ fs) init_acct"
  have i: "inj (uuid_at demo_env)" by (auto intro!: injI dest: arg_cong [of _ _ length])
  have r: "es = [] \<or> last es = Reset []" "Reset [] \<notin> set fs" by (simp_all add: es_def fs_def)
  define s1 where "s1 = acct_step demo_env (NewBudget ''builder-1'' None None) init_acct"
  define s2 where "s2 = acct_step demo_env (Use [] ''calls'' 7 ''t'') s1"
  define s3 where "s3 = acct_step demo_env (Reset []) s2"
  obtain b1 where 1: "budgets s1 = [([], b1)]" "consumptions s1 = []" and b1: "b_consumed b1 = zero_consumed"
    "limit_of (b_limits b1) ''calls'' = Fin 200"
    using createBudget_effect [of demo_env "''builder-1''" None None init_acct] unfolding s1_def
    by (auto simp: acct_step_def init_acct_def default_limits_def DEFAULT_LIMITS_def limit_of_def)
  have fl200: "fl 200 = 200" using fl_nat [of 200] by simp
  have r7: "\<not> less_amount (sub_inf (limit_of (b_limits b1) ''calls'') (consumed_of b1 ''calls'')) (of_nat 7)"
    by (simp add: b1 less_amount_def sub_inf_def js_sub_def fl200)
  obtain c where 2: "budgets s2 = js_modify [] (\<lambda>b. b\<lparr>b_consumed := js_set ''calls'' (js_add 0 (of_nat 7)) (b_consumed b)\<rparr>) (budgets s1)"
    "consumptions s2 = [c]"
    using consume_approved [of s1 "[]" b1, OF _ r7] unfolding s2_def by (auto simp: 1 b1 acct_step_def)
  have 3: "js_get (budgets s3) [] = Some (b1\<lparr>b_consumed := zero_consumed, b_reset := Some (now_at demo_env (tick s2))\<rparr>)"
    "consumptions s3 = [c]"
    using reset_effect [of s2 "[]" _ demo_env] unfolding s3_def by (simp_all add: 1 2 acct_step_def)
  have r5: "\<not> less_amount (sub_inf (limit_of (b_limits b1) ''calls'') 0) (of_nat 5)"
    by (simp add: b1 less_amount_def sub_inf_def js_sub_def fl200)
  obtain d where 4: "js_get (budgets (acct_step demo_env (Use [] ''calls'' 5 ''t'') s3)) [] \<noteq> None" 
    "consumptions (acct_step demo_env (Use [] ''calls'' 5 ''t'') s3) = [c, d]"
    "u_approved d" "u_budget d = []" "u_unit d = ''calls''" "u_amount d = 5"
    using consume_approved [of s3 "[]" _ "''calls''" "of_nat 5" demo_env "''t''", OF 3(1)] r5 by (auto simp: acct_step_def 3)
  have s: "s = acct_step demo_env (Use [] ''calls'' 5 ''t'') s3" "fold (acct_step demo_env) es init_acct = s3"
    by (simp_all add: s_def s1_def s2_def s3_def es_def fs_def)
  obtain b where b: "js_get (budgets s) [] = Some b" "limit_of (b_limits b) ''calls'' = Fin 200"
    using 3(1) b1(2) 4(1) unfolding s
    by (auto simp: acct_step_def consumeResource_def take_uuid_def take_now_def Let_def split: if_splits)
  have "spent (drop (length (consumptions (fold (acct_step demo_env) es init_acct))) (consumptions s)) [] ''calls'' = 5"
    by (simp add: s 3 4 spent_def)
  with budgets_never_overspent [OF i r, of b "''calls''" 200] b
  show ?thesis unfolding s_def es_def fs_def by auto
qed

text \<open>An agent whose name begins with the name of a member that every object inherits gets
  that member as its limits: its budget refuses nothing, in any unit.\<close>

theorem inherited_name_unlimited:
  assumes "takeWhile (\<lambda>c. c \<noteq> CHR ''-'') agentId \<in> set (''__proto__'' # OBJECT_FUNCTIONS)"
    and "un \<in> set RESOURCE_UNITS"
  shows "fst (consumeResource E (b_id (fst (createBudget E agentId i None s))) un amount t
      (snd (createBudget E agentId i None s))) = Consumed Inf"
proof -
  have "default_limits (takeWhile (\<lambda>c. c \<noteq> CHR ''-'') agentId) \<in> {Builtin True, Builtin False}"
    using assms(1) by (auto simp: default_limits_def DEFAULT_LIMITS_def OBJECT_FUNCTIONS_def)
  then show ?thesis
    using createBudget_effect [of E agentId i None s]
    by (auto simp: consumeResource_def limit_of_def sub_inf_def less_amount_def take_uuid_def take_now_def Let_def)
qed

theorem inherited_name_witness:
  "fst (consumeResource demo_env (b_id (fst (createBudget demo_env ''constructor-1'' None None init_acct))) ''calls'' 1000000 ''t''
      (snd (createBudget demo_env ''constructor-1'' None None init_acct))) = Consumed Inf"
  by (rule inherited_name_unlimited) (simp_all add: OBJECT_FUNCTIONS_def RESOURCE_UNITS_def)

end
