(* ===== verification/Regex.thy ===== *)
theory Regex
  imports Prelude
begin

text \<open>
  The regular expressions the program tests inputs with: character classes, sequence,
  alternatives and repetition, searched anywhere in the text and without regard to case.
  \<open>rems r s\<close> lists what a match of \<open>r\<close> at the front of \<open>s\<close> can leave, as a backtracking matcher
  explores it; \<open>rx_test\<close> is \<open>RegExp.prototype.test\<close>. The matcher is proved to decide whether
  some substring is in the language of the expression.
\<close>

datatype rx =
    Eps
  | Cls "char \<Rightarrow> bool"
  | Seq rx rx
  | Alt rx rx
  | Star rx

subsection \<open>Language\<close>

inductive_set starL :: "string set \<Rightarrow> string set" for L :: "string set" where
  star_Nil: "[] \<in> starL L"
| star_append: "u \<in> L \<Longrightarrow> v \<in> starL L \<Longrightarrow> u @ v \<in> starL L"

primrec rx_lang :: "rx \<Rightarrow> string set" where
  "rx_lang Eps = {[]}"
| "rx_lang (Cls p) = {[c] | c. p c}"
| "rx_lang (Seq r s) = {u @ v | u v. u \<in> rx_lang r \<and> v \<in> rx_lang s}"
| "rx_lang (Alt r s) = rx_lang r \<union> rx_lang s"
| "rx_lang (Star r) = starL (rx_lang r)"

subsection \<open>Matcher\<close>

text \<open>A further round of a repetition has to consume something.\<close>

function (sequential) rems :: "rx \<Rightarrow> string \<Rightarrow> string list" where
  "rems Eps s = [s]"
| "rems (Cls p) [] = []"
| "rems (Cls p) (c # s) = (if p c then [s] else [])"
| "rems (Seq r1 r2) s = concat (map (rems r2) (rems r1 s))"
| "rems (Alt r1 r2) s = rems r1 s @ rems r2 s"
| "rems (Star r) s = s # concat (map (rems (Star r)) (filter (\<lambda>t. length t < length s) (rems r s)))"
  by pat_completeness auto
termination
  by (relation "measures [size \<circ> fst, length \<circ> snd]") auto

declare rems.simps(6) [simp del]

lemma rems_Star:
  "t \<in> set (rems (Star r) s) \<longleftrightarrow>
     t = s \<or> (\<exists>x\<in>set (rems r s). length x < length s \<and> t \<in> set (rems (Star r) x))"
  by (subst rems.simps(6)) auto

fun rx_test :: "rx \<Rightarrow> string \<Rightarrow> bool" where
  "rx_test r [] = (rems r [] \<noteq> [])"
| "rx_test r (c # s) = (rems r (c # s) \<noteq> [] \<or> rx_test r s)"

lemma starL_nonempty:
  assumes "u \<in> starL L" and "u \<noteq> []"
  shows "\<exists>v w. u = v @ w \<and> v \<in> L \<and> v \<noteq> [] \<and> w \<in> starL L"
  using assms
proof (induction rule: starL.induct)
  case (star_append x y)
  show ?case
  proof (cases "x = []")
    case True
    with star_append show ?thesis by auto
  next
    case False
    with star_append.hyps show ?thesis by blast
  qed
qed simp

lemma rems_sound: "t \<in> set (rems r s) \<Longrightarrow> \<exists>u. s = u @ t \<and> u \<in> rx_lang r"
proof (induction r s arbitrary: t rule: rems.induct)
  case (4 r1 r2 s)
  from 4(3) obtain x where x: "x \<in> set (rems r1 s)" "t \<in> set (rems r2 x)" by auto
  from 4(1) [OF x(1)] obtain u where u: "s = u @ x" "u \<in> rx_lang r1" by blast
  from 4(2) [OF x] obtain v where v: "x = v @ t" "v \<in> rx_lang r2" by blast
  have "u @ v \<in> rx_lang (Seq r1 r2)" using u(2) v(2) by auto
  moreover have "s = (u @ v) @ t" by (simp only: u(1) v(1) append_assoc)
  ultimately show ?case by blast
next
  case (6 r s)
  from 6(3) consider "t = s" | x where "x \<in> set (rems r s)" "length x < length s" "t \<in> set (rems (Star r) x)"
    using rems_Star [of t r s] by blast
  then show ?case
  proof cases
    case 1
    then show ?thesis by (auto intro: star_Nil)
  next
    case (2 x)
    from 6(1) [OF 2(1)] obtain u where u: "s = u @ x" "u \<in> rx_lang r" by blast
    from 2 have "x \<in> set (filter (\<lambda>t. length t < length s) (rems r s))" by simp
    from 6(2) [OF this 2(3)] obtain v where v: "x = v @ t" "v \<in> rx_lang (Star r)" by blast
    have "u @ v \<in> rx_lang (Star r)" using star_append [OF u(2)] v(2) by (simp only: rx_lang.simps)
    moreover have "s = (u @ v) @ t" by (simp only: u(1) v(1) append_assoc)
    ultimately show ?thesis by blast
  qed
qed (auto split: if_splits)

lemma rems_complete: "u \<in> rx_lang r \<Longrightarrow> t \<in> set (rems r (u @ t))"
proof (induction r arbitrary: u t)
  case (Seq r1 r2)
  then obtain v w where "u = v @ w" "v \<in> rx_lang r1" "w \<in> rx_lang r2" by auto
  with Seq.IH(1) [of v "w @ t"] Seq.IH(2) [of w t] show ?case by auto
next
  case (Star r)
  from Star.prems show ?case
  proof (induction "length u" arbitrary: u rule: less_induct)
    case less
    show ?case
    proof (cases "u = []")
      case False
      from less.prems have "u \<in> starL (rx_lang r)" by simp
      from starL_nonempty [OF this False] obtain v w where
        vw: "u = v @ w" "v \<in> rx_lang r" "v \<noteq> []" "w \<in> starL (rx_lang r)" by blast
      then have "t \<in> set (rems (Star r) (w @ t))" by (intro less.hyps) auto
      moreover from vw Star.IH [of v "w @ t"] have "w @ t \<in> set (rems r (u @ t))" by simp
      moreover have "length (w @ t) < length (u @ t)" using vw by simp
      ultimately show ?thesis using rems_Star [of t r "u @ t"] by blast
    next
      case True
      have "t \<in> set (rems (Star r) t)" using rems_Star [of t r t] by blast
      with True show ?thesis by (simp only: append.simps)
    qed
  qed
qed auto

lemma rems_iff: "rems r s \<noteq> [] \<longleftrightarrow> (\<exists>u t. s = u @ t \<and> u \<in> rx_lang r)"
proof
  assume "rems r s \<noteq> []"
  then obtain t where "t \<in> set (rems r s)" by (cases "rems r s") auto
  with rems_sound show "\<exists>u t. s = u @ t \<and> u \<in> rx_lang r" by blast
next
  assume "\<exists>u t. s = u @ t \<and> u \<in> rx_lang r"
  then obtain u t where "s = u @ t" "u \<in> rx_lang r" by blast
  with rems_complete [OF this(2), of t] have "t \<in> set (rems r s)" by simp
  then show "rems r s \<noteq> []" by (cases "rems r s") simp_all
qed

lemma rx_test_iff: "rx_test r s \<longleftrightarrow> (\<exists>u \<in> rx_lang r. sublist u s)"
proof (induction s)
  case Nil
  show ?case using rems_iff [of r "[]"] by auto
next
  case (Cons c s)
  have "rx_test r (c # s) \<longleftrightarrow> (\<exists>u \<in> rx_lang r. prefix u (c # s)) \<or> (\<exists>u \<in> rx_lang r. sublist u s)"
    using Cons.IH rems_iff [of r "c # s"] by (auto simp: prefix_def)
  then show ?case unfolding sublist_Cons_right by blast
qed

subsection \<open>Writing expressions\<close>

text \<open>A letter of a pattern matches both cases. \<open>upper_char\<close> is the canonical form of a code
  unit under the flag \<open>i\<close>; patterns are written in lower or upper case as in the source.\<close>

definition upper_char :: "char \<Rightarrow> char" where
  "upper_char c = (let n = code_of c in
     if (97 \<le> n \<and> n \<le> 122) \<or> (224 \<le> n \<and> n \<le> 254 \<and> n \<noteq> 247) then char_of (n - 32) else c)"

definition is_ws :: "char \<Rightarrow> bool" where
  "is_ws c = (let n = code_of c in (9 \<le> n \<and> n \<le> 13) \<or> n = 32 \<or> n = 160)"

text \<open>The same on the bits of the code unit, for evaluation.\<close>

lemma upper_char_bits [code]:
  "upper_char (Char a0 a1 a2 a3 a4 a5 a6 a7) =
     (if a6 \<and> a5 \<and>
         (if a7 then \<not> (a4 \<and> a2 \<and> a1 \<and> a0)
          else (a0 \<or> a1 \<or> a2 \<or> a3 \<or> a4) \<and> \<not> (a4 \<and> a3 \<and> (a2 \<or> (a1 \<and> a0))))
      then Char a0 a1 a2 a3 a4 False a6 a7 else Char a0 a1 a2 a3 a4 a5 a6 a7)"
  by (cases a0; cases a1; cases a2; cases a3; cases a4; cases a5; cases a6; cases a7;
      simp add: upper_char_def code_of_def char_of_def bit_Suc_0_iff)

lemma is_ws_bits [code]:
  "is_ws (Char a0 a1 a2 a3 a4 a5 a6 a7) =
     (\<not> a6 \<and> \<not> a4 \<and>
      (if a5 then \<not> a0 \<and> \<not> a1 \<and> \<not> a2 \<and> \<not> a3
       else \<not> a7 \<and> a3 \<and> (if a2 then \<not> a1 else a0 \<or> a1)))"
  by (cases a0; cases a1; cases a2; cases a3; cases a4; cases a5; cases a6; cases a7;
      simp add: is_ws_def code_of_def)

fun seqs :: "rx list \<Rightarrow> rx" where
  "seqs [] = Eps"
| "seqs [r] = r"
| "seqs (r # rs) = Seq r (seqs rs)"

fun alts :: "rx list \<Rightarrow> rx" where
  "alts [] = Cls (\<lambda>_. False)"
| "alts [r] = r"
| "alts (r # rs) = Alt r (alts rs)"

definition lit :: "string \<Rightarrow> rx" where
  "lit s = seqs (map (\<lambda>d. Cls (\<lambda>c. upper_char c = upper_char d)) s)"

definition opt :: "rx \<Rightarrow> rx" where
  "opt r = Alt r Eps"

definition plus1 :: "rx \<Rightarrow> rx" where
  "plus1 r = Seq r (Star r)"

definition words_of :: "string list \<Rightarrow> rx" where
  "words_of ws = alts (map lit ws)"

definition ws0 :: rx where "ws0 = Star (Cls is_ws)"
definition ws1 :: rx where "ws1 = plus1 (Cls is_ws)"

definition any_char :: rx where
  "any_char = Cls (\<lambda>c. code_of c \<noteq> 10 \<and> code_of c \<noteq> 13)"

definition quote_opt :: rx where
  "quote_opt = opt (Cls (\<lambda>c. code_of c = 34 \<or> code_of c = 39))"

end
