(* ===== verification/HardwareRouter.thy ===== *)
theory HardwareRouter
  imports Csr
begin

text \<open>
  Where a workload is computed (\<open>src/runtime/hardwareRouter.ts\<close>): the hardware profile made of
  what the operating system reports, the class of a task, the route, and the texts derived
  from them. What the vendor tools print about GPUs is part of the reported facts; their
  memory figures are taken to be numbers.
\<close>

record gpu_info =
  gi_vendor :: string
  gi_memoryGB :: jsnum
  gi_cores :: nat

text \<open>What the operating system and the GPU tools report.\<close>

record os_facts =
  os_platform :: string
  os_arch :: string
  os_cpus :: "string list"
  os_totalmem :: nat
  os_freemem :: nat
  os_nvidia :: "gpu_info option"
  os_amd :: "gpu_info option"
  os_apple :: "gpu_info option"
  os_directml :: bool

record hardware_profile =
  hw_platform :: string
  hw_arch :: string
  hw_cpuCores :: nat
  hw_cpuModel :: string
  hw_totalMemoryGB :: jsnum
  hw_freeMemoryGB :: jsnum
  hw_hasGPU :: bool
  hw_gpuVendor :: "string option"
  hw_gpuMemoryGB :: "jsnum option"
  hw_gpuCores :: "nat option"
  hw_hasCUDA :: bool
  hw_hasROCm :: bool
  hw_hasMetal :: bool
  hw_isARM :: bool
  hw_isLowMemory :: bool

text \<open>\<open>Math.round\<close>.\<close>

definition js_round :: "jsnum \<Rightarrow> jsnum" where
  "js_round x = of_int \<lfloor>x + 1 / 2\<rfloor>"

definition one_decimal :: "jsnum \<Rightarrow> jsnum" where
  "one_decimal x = js_div (js_round (js_mul x 10)) 10"

definition probe_gpu :: "os_facts \<Rightarrow> gpu_info option" where
  "probe_gpu f =
     (let plat = os_platform f;
          g0 = (if plat = ''win32'' \<or> plat = ''linux'' then os_nvidia f else None);
          g1 = (if g0 = None \<and> plat = ''linux'' then os_amd f else g0);
          g2 = (if g1 = None \<and> plat = ''darwin'' then os_apple f else g1)
      in if g2 = None \<and> plat = ''win32'' \<and> os_directml f
         then Some \<lparr>gi_vendor = ''DirectML-compatible GPU'', gi_memoryGB = 4, gi_cores = 0\<rparr> else g2)"

definition probeHardware :: "os_facts \<Rightarrow> hardware_profile" where
  "probeHardware f =
     (let totalMem = fl (of_nat (os_totalmem f) / 2 ^ 30);
          freeMem = fl (of_nat (os_freemem f) / 2 ^ 30);
          plat = os_platform f;
          gpu = probe_gpu f;
          hasCUDA = ((plat = ''linux'' \<or> plat = ''win32'') \<and> os_nvidia f \<noteq> None);
          hasROCm = (plat = ''linux'' \<and> os_amd f \<noteq> None);
          hasMetal = (plat = ''darwin'');
          cpuModel = (case os_cpus f of c # _ \<Rightarrow> c | [] \<Rightarrow> ''unknown'');
          isARM = (str_includes cpuModel ''ARM'' \<or> str_includes cpuModel ''Apple'' \<or> os_arch f = ''arm64'')
      in \<lparr>hw_platform = plat, hw_arch = os_arch f, hw_cpuCores = length (os_cpus f), hw_cpuModel = cpuModel,
          hw_totalMemoryGB = one_decimal totalMem, hw_freeMemoryGB = one_decimal freeMem,
          hw_hasGPU = (gpu \<noteq> None), hw_gpuVendor = map_option gi_vendor gpu,
          hw_gpuMemoryGB = map_option gi_memoryGB gpu, hw_gpuCores = map_option gi_cores gpu,
          hw_hasCUDA = hasCUDA, hw_hasROCm = hasROCm, hw_hasMetal = hasMetal, hw_isARM = isARM,
          hw_isLowMemory = (totalMem < 8)\<rparr>)"

datatype workload_class = Inference | Embedding | Training | Compilation | Analysis

primrec workload_name :: "workload_class \<Rightarrow> string" where
  "workload_name Inference = ''inference''"
| "workload_name Embedding = ''embedding''"
| "workload_name Training = ''training''"
| "workload_name Compilation = ''compilation''"
| "workload_name Analysis = ''analysis''"

record workload_profile =
  wl_class :: workload_class
  wl_modelSizeGB :: jsnum
  wl_requiresGPU :: bool
  wl_latencySensitive :: bool
  wl_memoryIntensive :: bool
  wl_parallelizable :: bool

definition classifyWorkload :: "string \<Rightarrow> jsnum \<Rightarrow> workload_profile" where
  "classifyWorkload task sizeGB =
     (let t = lower task;
          isTraining = (str_includes t ''train'' \<or> str_includes t ''fine-tune'' \<or> str_includes t ''fit'');
          isCompilation = (str_includes t ''compile'' \<or> str_includes t ''build'' \<or> str_includes t ''bundle'');
          isEmbedding = (str_includes t ''embed'' \<or> str_includes t ''vector'' \<or> str_includes t ''encode'');
          isAnalysis = (str_includes t ''analyze'' \<or> str_includes t ''scan'' \<or> str_includes t ''lint''
                        \<or> str_includes t ''review'');
          isInference = (\<not> isTraining \<and> \<not> isCompilation \<and> \<not> isEmbedding \<and> \<not> isAnalysis)
      in \<lparr>wl_class = (if isTraining then Training else if isCompilation then Compilation
                     else if isEmbedding then Embedding else if isAnalysis then Analysis else Inference),
          wl_modelSizeGB = sizeGB, wl_requiresGPU = (sizeGB > 8), wl_latencySensitive = isInference,
          wl_memoryIntensive = (isTraining \<or> sizeGB > 8),
          wl_parallelizable = (isEmbedding \<or> isAnalysis \<or> isTraining)\<rparr>)"

text \<open>\<open>routeCompute\<close> answers cpu or gpu; the third resource, auto, is only an input elsewhere.\<close>

datatype resource = CpuRes | GpuRes | AutoRes

primrec resource_name :: "resource \<Rightarrow> string" where
  "resource_name CpuRes = ''cpu''"
| "resource_name GpuRes = ''gpu''"
| "resource_name AutoRes = ''auto''"

record compute_route =
  ro_resource :: resource
  ro_tier :: string
  ro_why :: string
  ro_maxWorkers :: int
  ro_backend :: string

record route_decision =
  rd_route :: compute_route
  rd_hardware :: hardware_profile
  rd_workload :: workload_profile
  rd_governorApproved :: bool
  rd_time :: time

definition choose_resource :: "hardware_profile \<Rightarrow> workload_profile \<Rightarrow> bool \<Rightarrow> resource" where
  "choose_resource hw wl preferGPU =
     (if wl_requiresGPU wl \<and> \<not> hw_hasGPU hw then CpuRes
      else if preferGPU \<and> hw_hasGPU hw then GpuRes
      else if wl_requiresGPU wl \<and> hw_hasGPU hw then GpuRes
      else if wl_memoryIntensive wl \<and> hw_hasGPU hw \<and>
              (case hw_gpuMemoryGB hw of Some m \<Rightarrow> m | None \<Rightarrow> 0) \<ge> wl_modelSizeGB wl then GpuRes
      else CpuRes)"

definition routeCompute ::
    "sysenv \<Rightarrow> hardware_profile \<Rightarrow> workload_profile \<Rightarrow> bool \<Rightarrow> 'a sys_st_scheme \<Rightarrow> route_decision \<times> 'a sys_st_scheme" where
  "routeCompute E hw wl preferGPU s =
     (let res = choose_resource hw wl preferGPU;
          tier = (if hw_platform hw = ''linux'' \<or> hw_platform hw = ''win32'' then ''local''
                  else if hw_platform hw = ''darwin'' then ''local'' else ''cloud'');
          workers = (if res = GpuRes
             then max 1 \<lfloor>js_div (case hw_gpuMemoryGB hw of Some m \<Rightarrow> m | None \<Rightarrow> 8) 2\<rfloor>
             else max 1 \<lfloor>js_div (of_nat (hw_cpuCores hw)) 2\<rfloor>);
          why = (if res = GpuRes
             then ''Routed to GPU: '' @ (case hw_gpuVendor hw of Some v \<Rightarrow> v | None \<Rightarrow> ''unknown'') @ '' ('' @
                  (case hw_gpuMemoryGB hw of Some m \<Rightarrow> num_str m | None \<Rightarrow> ''?'') @ ''GB VRAM) for '' @
                  workload_name (wl_class wl) @ '' workload''
             else ''Routed to CPU: '' @ show_nat (hw_cpuCores hw) @ '' cores for '' @
                  workload_name (wl_class wl) @ '' workload ('' @
                  (if hw_isLowMemory hw then ''low memory'' else ''sufficient memory'') @ '')'');
          backend = (if res = GpuRes
             then (if hw_hasCUDA hw then ''tensorrt'' else if hw_hasROCm hw then ''directml''
                   else if hw_hasMetal hw then ''ollama'' else ''ollama'')
             else ''cpu-threads'');
          (t, s1) = take_now E s
      in (\<lparr>rd_route = \<lparr>ro_resource = res, ro_tier = tier, ro_why = why, ro_maxWorkers = workers, ro_backend = backend\<rparr>,
           rd_hardware = hw, rd_workload = wl, rd_governorApproved = True, rd_time = t\<rparr>, s1))"

definition suggestLLMBackend :: "hardware_profile \<Rightarrow> string" where
  "suggestLLMBackend hw =
     (if hw_hasGPU hw \<and> hw_hasCUDA hw then ''CUDA-accelerated: prefer ollama with CUDA or TensorRT''
      else if hw_hasGPU hw \<and> hw_hasROCm hw then ''ROCm-accelerated: prefer ollama with ROCm or DirectML on Windows''
      else if hw_hasMetal hw then ''Metal-accelerated (Apple): prefer ollama with Metal or LM Studio''
      else if hw_isLowMemory hw then ''Low-memory CPU: prefer quantized models (4-bit) via ollama or llama.cpp''
      else ''CPU-only: ollama with CPU backend or llama.cpp'')"

definition pad_right :: "nat \<Rightarrow> string \<Rightarrow> string" where
  "pad_right n s = s @ replicate (n - length s) (CHR '' '')"

definition format_row :: "route_decision \<Rightarrow> string" where
  "format_row d = ''| '' @ pad_right 8 (resource_name (ro_resource (rd_route d))) @ '' | '' @
     pad_right 6 (ro_tier (rd_route d)) @ '' | '' @ pad_right 13 (ro_backend (rd_route d)) @ '' | '' @
     pad_left 7 (CHR '' '') (show_int (ro_maxWorkers (rd_route d))) @ '' | '' @
     pad_right 54 (take 50 (ro_why (rd_route d))) @ '' |''"

definition formatRouteTable :: "route_decision list \<Rightarrow> string" where
  "formatRouteTable ds = join [CHR 0x0A]
     ([''| Resource | Tier   | Backend       | Workers | Reason                                                |'',
       ''|----------|--------|---------------|---------|-------------------------------------------------------|''] @
      map format_row ds)"

subsection \<open>Properties\<close>

lemma probe_flags:
  "hw_hasCUDA (probeHardware f) \<Longrightarrow> hw_hasGPU (probeHardware f)"
  "hw_hasROCm (probeHardware f) \<Longrightarrow> hw_hasGPU (probeHardware f)"
  by (auto simp: probeHardware_def probe_gpu_def Let_def split: if_splits)

text \<open>A workload goes to the GPU exactly when the probe found one and the caller prefers it,
  the workload requires it, or it is memory-intensive and the model fits the GPU's memory; a
  workload that requires a GPU where there is none silently goes to the CPU. Every route has at
  least one worker, the CPU backend is used exactly on the CPU, and the governor always approves.\<close>

theorem route_decision_spec:
  "(ro_resource (rd_route (fst (routeCompute E hw wl prefer s))) = GpuRes \<longleftrightarrow>
      hw_hasGPU hw \<and> (prefer \<or> wl_requiresGPU wl \<or>
        (wl_memoryIntensive wl \<and> wl_modelSizeGB wl \<le> (case hw_gpuMemoryGB hw of Some m \<Rightarrow> m | None \<Rightarrow> 0)))) \<and>
   (ro_resource (rd_route (fst (routeCompute E hw wl prefer s))) = CpuRes \<longleftrightarrow>
      ro_backend (rd_route (fst (routeCompute E hw wl prefer s))) = ''cpu-threads'') \<and>
   1 \<le> ro_maxWorkers (rd_route (fst (routeCompute E hw wl prefer s))) \<and>
   rd_governorApproved (fst (routeCompute E hw wl prefer s))"
  by (auto simp: routeCompute_def choose_resource_def take_now_def Let_def)

end
