(* ===== verification/Kernel.thy ===== *)
theory Kernel
  imports Apid HardwareRouter
begin

text \<open>
  The kernel's registries (\<open>agent/sovereign-x/kernel.ts\<close>): intents and their lifecycle,
  evidence, role boundaries, the arbitration docket, compute authorizations, and the start-up
  that replays the record log. Every operation that changes a registry writes a record.
\<close>

subsection \<open>Intents\<close>

text \<open>A recovered intent takes its status from the text of a record, whatever that says.\<close>

datatype intent_status =
    Proposed | Evidenced | Authorized | Executing | Validating | Completed | Rejected | Reverted
  | OtherStatus string

primrec status_name :: "intent_status \<Rightarrow> string" where
  "status_name Proposed = ''proposed''"
| "status_name Evidenced = ''evidenced''"
| "status_name Authorized = ''authorized''"
| "status_name Executing = ''executing''"
| "status_name Validating = ''validating''"
| "status_name Completed = ''completed''"
| "status_name Rejected = ''rejected''"
| "status_name Reverted = ''reverted''"
| "status_name (OtherStatus t) = t"

definition ILC_ORDER :: "intent_status list" where
  "ILC_ORDER = [Proposed, Evidenced, Authorized, Executing, Validating, Completed, Rejected, Reverted]"

definition status_of :: "string \<Rightarrow> intent_status" where
  "status_of t = (case List.find (\<lambda>st. status_name st = t) ILC_ORDER of Some st \<Rightarrow> st | None \<Rightarrow> OtherStatus t)"

text \<open>\<open>ILC_ORDER.indexOf\<close>, with -1 for a status that is not in the list.\<close>

primrec status_index :: "intent_status \<Rightarrow> int" where
  "status_index Proposed = 0"
| "status_index Evidenced = 1"
| "status_index Authorized = 2"
| "status_index Executing = 3"
| "status_index Validating = 4"
| "status_index Completed = 5"
| "status_index Rejected = 6"
| "status_index Reverted = 7"
| "status_index (OtherStatus t) = -1"

lemma status_index_ILC: "st \<in> set ILC_ORDER \<Longrightarrow> 0 \<le> status_index st \<and> ILC_ORDER ! nat (status_index st) = st"
  by (auto simp: ILC_ORDER_def)

definition ends_intent :: "intent_status \<Rightarrow> bool" where
  "ends_intent st \<longleftrightarrow> st = Completed \<or> st = Rejected \<or> st = Reverted"

record intent =
  i_id :: string
  i_goal :: string
  i_status :: intent_status
  i_evidence :: "string list"
  i_authority :: "string option"
  i_execution :: "string option"
  i_validation :: "string option"
  i_time :: time
  i_completed :: "time option"
  i_revertible :: bool

record evidence =
  e_id :: string
  e_intent :: string
  e_claim :: string
  e_verifiable :: bool
  e_verified :: bool
  e_source :: string
  e_time :: time
  e_payload :: json

record arbitration =
  ar_id :: string
  ar_dispute :: string
  ar_agents :: "string list"
  ar_domain :: string
  ar_ruling :: "string option"
  ar_status :: string
  ar_time :: time
  ar_resolved :: "time option"

record boundary =
  bd_role :: string
  bd_allowed :: "string list"
  bd_restricted :: "string list"
  bd_maxConcurrency :: nat
  bd_requiresEvidence :: bool
  bd_requiresAuthority :: bool

record compute_auth =
  ca_id :: string
  ca_task :: string
  ca_node :: string
  ca_workload :: string
  ca_authorized :: bool
  ca_route :: string
  ca_approval :: bool
  ca_time :: time

record kernel_st = apid_st +
  intents :: "(string, intent) jsmap"
  evidences :: "(string, evidence) jsmap"
  docket :: "arbitration list"
  boundaries :: "(string, boundary) jsmap"
  compute_auths :: "compute_auth list"
  seeded :: bool

abbreviation KERNEL :: string where
  "KERNEL \<equiv> ''sovereign-x-kernel''"

text \<open>The outcome of an operation that can fail.\<close>

datatype outcome = Ok | Err string

definition createIntent :: "sysenv \<Rightarrow> string \<Rightarrow> 'a kernel_st_scheme \<Rightarrow> intent \<times> 'a kernel_st_scheme" where
  "createIntent E goal s =
     (let (u, s1) = take_uuid E s; (t, s2) = take_now E s1;
          i = \<lparr>i_id = u, i_goal = goal, i_status = Proposed, i_evidence = [], i_authority = None,
               i_execution = None, i_validation = None, i_time = t, i_completed = None, i_revertible = True\<rparr>;
          s3 = s2\<lparr>intents := js_set u i (intents s2)\<rparr>
      in (i, log_csr E ''intent-created'' ''constitution'' [(''goal'', JStr goal), (''intentId'', JStr u)]
               (Some u) KERNEL s3))"

definition getIntent :: "string \<Rightarrow> 'a kernel_st_scheme \<Rightarrow> intent option" where
  "getIntent iid s = js_get (intents s) iid"

definition listIntents :: "'a kernel_st_scheme \<Rightarrow> intent list" where
  "listIntents s = js_values (intents s)"

definition may_move :: "intent_status \<Rightarrow> intent_status \<Rightarrow> bool" where
  "may_move old new \<longleftrightarrow> \<not> (status_index new < status_index old \<and> new \<noteq> Reverted \<and> new \<noteq> Rejected)"

definition transitionIntent ::
    "sysenv \<Rightarrow> string \<Rightarrow> intent_status \<Rightarrow> 'a kernel_st_scheme \<Rightarrow> outcome \<times> 'a kernel_st_scheme" where
  "transitionIntent E iid new s =
     (case js_get (intents s) iid of
        None \<Rightarrow> (Err (''Intent '' @ iid @ '' not found''), s)
      | Some i \<Rightarrow>
          if \<not> may_move (i_status i) new
          then (Err (''Cannot regress intent from '' @ status_name (i_status i) @ '' to '' @ status_name new), s)
          else let s1 = s\<lparr>intents := js_modify iid (\<lambda>i. i\<lparr>i_status := new\<rparr>) (intents s)\<rparr>;
                   s2 = (if ends_intent new
                         then let (t, s') = take_now E s1
                              in s'\<lparr>intents := js_modify iid (\<lambda>i. i\<lparr>i_completed := Some t\<rparr>) (intents s')\<rparr>
                         else s1)
               in (Ok, log_csr E (''intent-'' @ status_name (i_status i) @ ''->'' @ status_name new) ''constitution''
                        [(''intentId'', JStr iid)] (Some iid) KERNEL s2))"

definition submitEvidence ::
    "sysenv \<Rightarrow> string \<Rightarrow> string \<Rightarrow> json \<Rightarrow> 'a kernel_st_scheme \<Rightarrow> evidence \<times> 'a kernel_st_scheme" where
  "submitEvidence E iid claim payload s =
     (let (u, s1) = take_uuid E s; (t, s2) = take_now E s1;
          e = \<lparr>e_id = u, e_intent = iid, e_claim = claim, e_verifiable = True, e_verified = False,
               e_source = ''nova-agent'', e_time = t, e_payload = payload\<rparr>;
          s3 = s2\<lparr>evidences := js_set u e (evidences s2),
                  intents := js_modify iid (\<lambda>i. i\<lparr>i_evidence := i_evidence i @ [u]\<rparr>) (intents s2)\<rparr>
      in (e, log_csr E ''evidence-submitted'' ''evidence''
               [(''intentId'', JStr iid), (''evidenceId'', JStr u), (''claim'', JStr claim)] (Some iid) KERNEL s3))"

definition verifyEvidence :: "sysenv \<Rightarrow> string \<Rightarrow> 'a kernel_st_scheme \<Rightarrow> outcome \<times> 'a kernel_st_scheme" where
  "verifyEvidence E eid s =
     (case js_get (evidences s) eid of
        None \<Rightarrow> (Err (''Evidence '' @ eid @ '' not found''), s)
      | Some e \<Rightarrow>
          let s1 = s\<lparr>evidences := js_modify eid (\<lambda>e. e\<lparr>e_verified := True\<rparr>) (evidences s)\<rparr>
          in (Ok, log_csr E ''evidence-verified'' ''evidence''
                    [(''evidenceId'', JStr eid), (''intentId'', JStr (e_intent e)),
                     (''signature'', JStr (sign_payload E (e_id e)))] (Some (e_intent e)) KERNEL s1))"

definition getEvidence :: "string \<Rightarrow> 'a kernel_st_scheme \<Rightarrow> evidence list" where
  "getEvidence iid s = filter (\<lambda>e. e_intent e = iid) (js_values (evidences s))"

record ilc_result =
  il_ok :: bool
  il_step :: string
  il_error :: "string option"

definition enforceILC :: "sysenv \<Rightarrow> string \<Rightarrow> 'a kernel_st_scheme \<Rightarrow> ilc_result \<times> 'a kernel_st_scheme" where
  "enforceILC E iid s =
     (case js_get (intents s) iid of
        None \<Rightarrow> (\<lparr>il_ok = False, il_step = ''unknown'', il_error = Some (''Intent '' @ iid @ '' not found'')\<rparr>, s)
      | Some i \<Rightarrow>
          if i_status i = Proposed then
            (if getEvidence iid s = []
             then (\<lparr>il_ok = False, il_step = ''evidence'', il_error = Some ''No evidence submitted for intent''\<rparr>, s)
             else (\<lparr>il_ok = True, il_step = ''evidence'', il_error = None\<rparr>, snd (transitionIntent E iid Evidenced s)))
          else if i_status i = Evidenced then
            (\<lparr>il_ok = True, il_step = ''authority'', il_error = None\<rparr>, snd (transitionIntent E iid Authorized s))
          else if i_status i = Authorized then
            (\<lparr>il_ok = True, il_step = ''execution'', il_error = None\<rparr>, snd (transitionIntent E iid Executing s))
          else if i_status i = Executing then
            (\<lparr>il_ok = True, il_step = ''validation'', il_error = None\<rparr>, snd (transitionIntent E iid Validating s))
          else if i_status i = Validating then
            (\<lparr>il_ok = True, il_step = ''completed'', il_error = None\<rparr>, snd (transitionIntent E iid Completed s))
          else (\<lparr>il_ok = False, il_step = status_name (i_status i),
                 il_error = Some (''Intent already in terminal state: '' @ status_name (i_status i))\<rparr>, s))"

subsection \<open>Boundaries and arbitration\<close>

definition registerBoundary :: "sysenv \<Rightarrow> boundary \<Rightarrow> 'a kernel_st_scheme \<Rightarrow> 'a kernel_st_scheme" where
  "registerBoundary E b s =
     log_csr E ''boundary-registered'' ''governance''
       [(''agentRole'', JStr (bd_role b)), (''allowedActions'', jstrs (bd_allowed b))] None KERNEL
       (s\<lparr>boundaries := js_set (bd_role b) b (boundaries s)\<rparr>)"

definition getBoundary :: "string \<Rightarrow> 'a kernel_st_scheme \<Rightarrow> boundary option" where
  "getBoundary role s = js_get (boundaries s) role"

text \<open>The reason of a refusal; \<open>None\<close> when the action is allowed.\<close>

definition checkActionAgainstBoundary :: "string \<Rightarrow> string \<Rightarrow> 'a kernel_st_scheme \<Rightarrow> string option" where
  "checkActionAgainstBoundary role ty s =
     (case js_get (boundaries s) role of
        None \<Rightarrow> Some (''No governance boundary for role: '' @ role)
      | Some b \<Rightarrow>
          if ty \<notin> set (bd_allowed b)
          then Some (''Action '' @ [CHR 0x27] @ ty @ [CHR 0x27] @ '' not allowed for role '' @ [CHR 0x27] @ role @ [CHR 0x27] @
                     ''. Allowed: '' @ join '', '' (bd_allowed b))
          else None)"

definition arbitrate ::
    "sysenv \<Rightarrow> string \<Rightarrow> string list \<Rightarrow> string \<Rightarrow> 'a kernel_st_scheme \<Rightarrow> arbitration \<times> 'a kernel_st_scheme" where
  "arbitrate E dispute agents domn s =
     (let (u, s1) = take_uuid E s; (t, s2) = take_now E s1;
          r = \<lparr>ar_id = u, ar_dispute = dispute, ar_agents = agents, ar_domain = domn, ar_ruling = None,
               ar_status = ''open'', ar_time = t, ar_resolved = None\<rparr>;
          s3 = s2\<lparr>docket := docket s2 @ [r]\<rparr>
      in (r, log_csr E ''arbitration-opened'' ''governance''
               [(''dispute'', JStr dispute), (''agents'', jstrs agents), (''domain'', JStr domn),
                (''arbitrationId'', JStr u)] None KERNEL s3))"

definition resolveArbitration :: "sysenv \<Rightarrow> string \<Rightarrow> string \<Rightarrow> 'a kernel_st_scheme \<Rightarrow> outcome \<times> 'a kernel_st_scheme" where
  "resolveArbitration E aid ruling s =
     (case List.find (\<lambda>a. ar_id a = aid) (docket s) of
        None \<Rightarrow> (Err (''Arbitration '' @ aid @ '' not found''), s)
      | Some _ \<Rightarrow>
          let (t, s1) = take_now E s;
              s2 = s1\<lparr>docket := update_first (\<lambda>a. ar_id a = aid)
                     (\<lambda>a. a\<lparr>ar_ruling := Some ruling, ar_status := ''resolved'', ar_resolved := Some t\<rparr>) (docket s1)\<rparr>
          in (Ok, log_csr E ''arbitration-resolved'' ''governance''
                    [(''arbitrationId'', JStr aid), (''ruling'', JStr ruling)] None KERNEL s2))"

definition listOpenArbitrations :: "'a kernel_st_scheme \<Rightarrow> arbitration list" where
  "listOpenArbitrations s = filter (\<lambda>a. ar_status a = ''open'') (docket s)"

subsection \<open>Compute authorization\<close>

definition authorizeCompute ::
    "sysenv \<Rightarrow> os_facts \<Rightarrow> string \<Rightarrow> string \<Rightarrow> string \<Rightarrow> 'a kernel_st_scheme \<Rightarrow> compute_auth \<times> 'a kernel_st_scheme" where
  "authorizeCompute E f taskId nodeId workloadClass s =
     (let hw = probeHardware f;
          wl = classifyWorkload taskId 7;
          (d, s0) = routeCompute E hw wl False s;
          (u, s1) = take_uuid E s0; (t, s2) = take_now E s1;
          au = \<lparr>ca_id = u, ca_task = taskId, ca_node = nodeId, ca_workload = workloadClass,
                ca_authorized = rd_governorApproved d,
                ca_route = resource_name (ro_resource (rd_route d)) @ ''/'' @ ro_backend (rd_route d),
                ca_approval = True, ca_time = t\<rparr>;
          s3 = log_csr E ''compute-authorized'' ''compute''
                 [(''taskId'', JStr taskId), (''nodeId'', JStr nodeId), (''workloadClass'', JStr workloadClass),
                  (''authorized'', JBool (ca_authorized au)), (''route'', JStr (ca_route au)),
                  (''signed'', JStr (sign_payload E u))] None KERNEL
                 (s2\<lparr>compute_auths := compute_auths s2 @ [au]\<rparr>);
          ra = \<lparr>a_type = ''compute-authorize'',
                a_payload = [(''taskId'', JStr taskId), (''nodeId'', JStr nodeId), (''workloadClass'', JStr workloadClass),
                             (''authId'', JStr u), (''routedVia'', JStr (ca_route au))]\<rparr>;
          opts = \<lparr>ro_blocked = Some (\<not> ca_authorized au),
                  ro_reason = (if ca_authorized au then None else Some ''Governor denied''),
                  ro_level = Some ''A2'', ro_crk1 = None\<rparr>
      in (au, snd (recordReceipt E ra [''compute-authorized'', ''E1''] opts s3)))"

definition getComputeAuth :: "string \<Rightarrow> 'a kernel_st_scheme \<Rightarrow> compute_auth option" where
  "getComputeAuth taskId s = List.find (\<lambda>a. ca_task a = taskId) (compute_auths s)"

subsection \<open>Start-up\<close>

text \<open>\<open>^intent-(.+)->(.+)$\<close> on a transition: the second group of the match, the first group being
  as long as possible. A dot matches no line break.\<close>

fun last_arrow :: "string \<Rightarrow> string option" where
  "last_arrow [] = None"
| "last_arrow (c # t) =
     (case last_arrow t of
        Some r \<Rightarrow> Some r
      | None \<Rightarrow> if starts_with (c # t) ''->'' \<and> drop 2 (c # t) \<noteq> [] then Some (drop 2 (c # t)) else None)"

definition intent_target :: "string \<Rightarrow> string option" where
  "intent_target t =
     (if starts_with t ''intent-'' \<and> length t > 7 \<and> list_all (\<lambda>c. code_of c \<noteq> 10 \<and> code_of c \<noteq> 13) (drop 7 t)
      then last_arrow (drop 8 t) else None)"

definition recovered_goal :: "csr \<Rightarrow> string" where
  "recovered_goal r = (case jget_str (c_payload r) ''goal'' of Some g \<Rightarrow> g | None \<Rightarrow> ''recovered'')"

text \<open>One round of the replay loop. Identifiers and goals in the log are strings.\<close>

definition recover_one :: "csr \<Rightarrow> (string, intent) jsmap \<Rightarrow> (string, intent) jsmap" where
  "recover_one r m =
     (if starts_with (c_trans r) ''intent-'' then
        (case jget_str (c_payload r) ''intentId'' of
           Some iid \<Rightarrow>
             if iid \<noteq> [] \<and> \<not> js_has m iid then
               (case intent_target (c_trans r) of
                  Some st \<Rightarrow>
                    js_set iid \<lparr>i_id = iid, i_goal = recovered_goal r, i_status = status_of st, i_evidence = [],
                      i_authority = None, i_execution = None, i_validation = None, i_time = c_time r,
                      i_completed = (if st = ''completed'' \<or> st = ''rejected'' \<or> st = ''reverted'' then Some (c_time r) else None),
                      i_revertible = True\<rparr> m
                | None \<Rightarrow> m)
             else m
         | None \<Rightarrow> m)
      else m)"

definition ModelSelectionPolicy :: invariant where
  "ModelSelectionPolicy =
     \<lparr>iv_id = ''SXK-I006'', iv_desc = ''No LLM inference without governed model selection receipt (E10)'',
      iv_severity = SevCritical,
      iv_check = (\<lambda>st. if a_type (is_action st) = ''llm-inference'' \<or> is_type st = Some ''llm-inference''
                       then nonempty (is_selection st) else True),
      iv_inas = None\<rparr>"

definition always_ok :: "string \<Rightarrow> string \<Rightarrow> severity \<Rightarrow> invariant" where
  "always_ok i d v = \<lparr>iv_id = i, iv_desc = d, iv_severity = v, iv_check = (\<lambda>_. True), iv_inas = None\<rparr>"

definition SOVEREIGN_X_INVARIANTS :: "invariant list" where
  "SOVEREIGN_X_INVARIANTS =
     [always_ok ''SXK-I001'' ''No execution without constitutional justification'' SevCritical,
      always_ok ''SXK-I002'' ''No agent may act outside its constitutional domain'' SevCritical,
      always_ok ''SXK-I003'' ''All compute must be routed through SXK'' SevCritical,
      always_ok ''SXK-I004'' ''All state transitions must be logged in CSR'' SevError,
      always_ok ''SXK-I005'' ''User sovereignty overrides all agent decisions'' SevCritical,
      ModelSelectionPolicy]"

definition seedKernel :: "sysenv \<Rightarrow> 'a kernel_st_scheme \<Rightarrow> 'a kernel_st_scheme" where
  "seedKernel E s =
     (if seeded s then s
      else
        let recs = replayWal s;
            s1 = s\<lparr>csr_ledger := csr_ledger s @ recs, intents := fold recover_one recs (intents s)\<rparr>;
            s2 = fold requireInvariant SOVEREIGN_X_INVARIANTS s1;
            s3 = (if recs = []
                  then log_csr E ''kernel-seed'' ''constitution''
                         [(''invariantCount'', jnat (length SOVEREIGN_X_INVARIANTS)),
                          (''keyFingerprint'', JStr (fingerprint E))] None KERNEL s2
                  else s2)
        in s3\<lparr>seeded := True\<rparr>)"

definition resetKernel :: "'a kernel_st_scheme \<Rightarrow> 'a kernel_st_scheme" where
  "resetKernel s = truncateWal (s\<lparr>csr_ledger := [], intents := [], evidences := [], docket := [],
     boundaries := [], compute_auths := [], seeded := False\<rparr>)"

text \<open>A new process: the registries are empty, the log file is still there.\<close>

definition restart_kernel :: "'a kernel_st_scheme \<Rightarrow> 'a kernel_st_scheme" where
  "restart_kernel s = s\<lparr>csr_ledger := [], intents := [], evidences := [], docket := [],
     boundaries := [], compute_auths := [], seeded := False\<rparr>"

record const_status =
  cs_seeded :: bool
  cs_csrLength :: nat
  cs_intents :: nat
  cs_evidence :: nat
  cs_arbitrationsOpen :: nat
  cs_computeAuths :: nat
  cs_boundaries :: nat
  cs_integrity :: bool
  cs_fingerprint :: string

definition getConstitutionalStatus :: "sysenv \<Rightarrow> 'a kernel_st_scheme \<Rightarrow> const_status" where
  "getConstitutionalStatus E s =
     \<lparr>cs_seeded = seeded s, cs_csrLength = length (csr_ledger s), cs_intents = length (intents s),
      cs_evidence = length (evidences s), cs_arbitrationsOpen = length (listOpenArbitrations s),
      cs_computeAuths = length (compute_auths s), cs_boundaries = length (boundaries s),
      cs_integrity = (verifyCsrIntegrity E s = None), cs_fingerprint = fingerprint E\<rparr>"

subsection \<open>Frames\<close>

lemma kernel_log_csr [simp]:
  "intents (log_csr E tr d p i a s) = intents s" "evidences (log_csr E tr d p i a s) = evidences s"
  "docket (log_csr E tr d p i a s) = docket s" "boundaries (log_csr E tr d p i a s) = boundaries s"
  "compute_auths (log_csr E tr d p i a s) = compute_auths s" "seeded (log_csr E tr d p i a s) = seeded s"
  by (simp_all add: log_csr_update)

lemma kernel_append [simp]:
  "intents (appendToLedger r (ensureLoaded s)) = intents s" "evidences (appendToLedger r (ensureLoaded s)) = evidences s"
  "docket (appendToLedger r (ensureLoaded s)) = docket s" "boundaries (appendToLedger r (ensureLoaded s)) = boundaries s"
  "compute_auths (appendToLedger r (ensureLoaded s)) = compute_auths s" "seeded (appendToLedger r (ensureLoaded s)) = seeded s"
  "budgets (appendToLedger r (ensureLoaded q)) = budgets q" "consumptions (appendToLedger r (ensureLoaded q)) = consumptions q"
  by (simp_all add: appendToLedger_def ensureLoaded_def Let_def)

lemma kernel_recordReceipt [simp]:
  "intents (snd (recordReceipt E a ch op s)) = intents s" "evidences (snd (recordReceipt E a ch op s)) = evidences s"
  "docket (snd (recordReceipt E a ch op s)) = docket s" "boundaries (snd (recordReceipt E a ch op s)) = boundaries s"
  "compute_auths (snd (recordReceipt E a ch op s)) = compute_auths s" "seeded (snd (recordReceipt E a ch op s)) = seeded s"
  using recordReceipt_effect [of E a ch op s] by auto

lemma kernel_emit [simp]:
  "intents (snd (emitToLedger E au a b rn s)) = intents s" "evidences (snd (emitToLedger E au a b rn s)) = evidences s"
  "docket (snd (emitToLedger E au a b rn s)) = docket s" "boundaries (snd (emitToLedger E au a b rn s)) = boundaries s"
  "compute_auths (snd (emitToLedger E au a b rn s)) = compute_auths s" "seeded (snd (emitToLedger E au a b rn s)) = seeded s"
  "budgets (snd (emitToLedger E au a b rn q)) = budgets q" "consumptions (snd (emitToLedger E au a b rn q)) = consumptions q"
  using emitToLedger_effect [of E au a b rn s] emitToLedger_effect [of E au a b rn q] by auto

lemma receipt_grows [frame]: "csr_grows E s (snd (recordReceipt E' a ch op s))"
  by (rule csr_grows_same) simp_all

subsection \<open>What each operation does\<close>

text \<open>The intent registry and its clock, as one operation changes them.\<close>

lemma createIntent_effect:
  "\<exists>i. fst (createIntent E g s) = i \<and> i_id i = uuid_at E (tick s) \<and> i_goal i = g \<and> i_status i = Proposed \<and>
     i_evidence i = [] \<and> i_completed i = None \<and>
     intents (snd (createIntent E g s)) = js_set (uuid_at E (tick s)) i (intents s) \<and>
     evidences (snd (createIntent E g s)) = evidences s \<and> tick (snd (createIntent E g s)) = tick s + 4"
  by (simp add: createIntent_def take_uuid_def take_now_def Let_def)

lemma submitEvidence_effect:
  "\<exists>e. fst (submitEvidence E iid cl p s) = e \<and> e_id e = uuid_at E (tick s) \<and> e_intent e = iid \<and> \<not> e_verified e \<and>
     intents (snd (submitEvidence E iid cl p s)) =
       js_modify iid (\<lambda>i. i\<lparr>i_evidence := i_evidence i @ [uuid_at E (tick s)]\<rparr>) (intents s) \<and>
     evidences (snd (submitEvidence E iid cl p s)) = js_set (uuid_at E (tick s)) e (evidences s) \<and>
     tick (snd (submitEvidence E iid cl p s)) = tick s + 4"
  by (simp add: submitEvidence_def take_uuid_def take_now_def Let_def)

lemma verifyEvidence_effect:
  "intents (snd (verifyEvidence E eid s)) = intents s \<and>
   evidences (snd (verifyEvidence E eid s)) = js_modify eid (\<lambda>e. e\<lparr>e_verified := True\<rparr>) (evidences s) \<and>
   tick s \<le> tick (snd (verifyEvidence E eid s))"
  by (simp add: verifyEvidence_def js_modify_def Let_def split: option.split)

lemma js_modify_modify:
  "js_get (js_modify k f (js_modify k g m)) k' = js_get (js_modify k (f \<circ> g) m) k'"
  by (simp add: option.map_comp)

lemma transition_moved:
  assumes "js_get (intents s) iid = Some i" and "may_move (i_status i) new"
  shows "\<exists>c. fst (transitionIntent E iid new s) = Ok \<and>
     js_get (intents (snd (transitionIntent E iid new s))) =
       (js_get (intents s))(iid \<mapsto> i\<lparr>i_status := new, i_completed := c\<rparr>) \<and>
     (c = (if ends_intent new then Some (now_at E (tick s)) else i_completed i)) \<and>
     evidences (snd (transitionIntent E iid new s)) = evidences s \<and>
     tick s \<le> tick (snd (transitionIntent E iid new s))"
  using assms by (auto simp: transitionIntent_def take_now_def Let_def fun_eq_iff)

lemma transition_refused:
  assumes "js_get (intents s) iid = None \<or> (\<exists>i. js_get (intents s) iid = Some i \<and> \<not> may_move (i_status i) new)"
  shows "snd (transitionIntent E iid new s) = s \<and> fst (transitionIntent E iid new s) \<noteq> Ok"
  using assms by (auto simp: transitionIntent_def)

lemma transition_evidences [simp]:
  "evidences (snd (transitionIntent E iid new s)) = evidences s" "docket (snd (transitionIntent E iid new s)) = docket s"
  "boundaries (snd (transitionIntent E iid new s)) = boundaries s"
  "compute_auths (snd (transitionIntent E iid new s)) = compute_auths s"
  "seeded (snd (transitionIntent E iid new s)) = seeded s" "budgets (snd (transitionIntent E iid new s)) = budgets s"
  "tick s \<le> tick (snd (transitionIntent E iid new s))"
  by (auto simp: transitionIntent_def take_now_def Let_def split: option.split)

lemma arbitration_frame [simp]:
  "intents (snd (arbitrate E d ags dm s)) = intents s" "evidences (snd (arbitrate E d ags dm s)) = evidences s"
  "tick s \<le> tick (snd (arbitrate E d ags dm s))"
  "intents (snd (resolveArbitration E aid ru s)) = intents s" "evidences (snd (resolveArbitration E aid ru s)) = evidences s"
  "tick s \<le> tick (snd (resolveArbitration E aid ru s))"
  "intents (registerBoundary E b s) = intents s" "evidences (registerBoundary E b s) = evidences s"
  "tick s \<le> tick (registerBoundary E b s)"
  by (simp_all add: arbitrate_def resolveArbitration_def registerBoundary_def take_uuid_def take_now_def Let_def
      split: option.split)

lemma authorizeCompute_frame [simp]:
  "intents (snd (authorizeCompute E f t n w s)) = intents s" "evidences (snd (authorizeCompute E f t n w s)) = evidences s"
  "tick s \<le> tick (snd (authorizeCompute E f t n w s))"
  by (simp_all add: authorizeCompute_def routeCompute_def take_uuid_def take_now_def Let_def
      order_trans [OF _ recordReceipt_simps(7)])

lemma kernel_grows [frame]:
  "csr_grows E s (snd (createIntent E g s))"
  "csr_grows E s (snd (submitEvidence E iid cl p s))"
  "csr_grows E s (snd (verifyEvidence E eid s))"
  "csr_grows E s (snd (transitionIntent E iid new s))"
  "csr_grows E s (registerBoundary E b s)"
  "csr_grows E s (snd (arbitrate E d ags dm s))"
  "csr_grows E s (snd (resolveArbitration E aid ru s))"
  by (auto simp: createIntent_def submitEvidence_def verifyEvidence_def transitionIntent_def registerBoundary_def
      arbitrate_def resolveArbitration_def take_uuid_def take_now_def Let_def
      intro!: csr_grows_log csr_grows_same split: option.split)

lemma enforceILC_grows [frame]: "csr_grows E s (snd (enforceILC E iid s))"
  by (simp add: enforceILC_def kernel_grows split: option.split)

lemma authorizeCompute_grows [frame]: "csr_grows E s (snd (authorizeCompute E f t n w s))"
  unfolding authorizeCompute_def Let_def routeCompute_def take_uuid_def take_now_def
  by (auto intro!: csr_grows_trans [OF _ receipt_grows] csr_grows_log csr_grows_same)

subsection \<open>The lifecycle of an intent\<close>

inductive ilc_next :: "intent_status \<Rightarrow> intent_status \<Rightarrow> bool" where
  gather: "ilc_next Proposed Evidenced"
| authorize: "ilc_next Evidenced Authorized"
| execute: "ilc_next Authorized Executing"
| validate: "ilc_next Executing Validating"
| complete: "ilc_next Validating Completed"

code_pred ilc_next .

inductive_cases ilc_nextE: "ilc_next a b"

inductive_simps ilc_next_simps [simp]:
  "ilc_next Proposed b" "ilc_next Evidenced b" "ilc_next Authorized b" "ilc_next Executing b"
  "ilc_next Validating b" "ilc_next Completed b" "ilc_next Rejected b" "ilc_next Reverted b"
  "ilc_next (OtherStatus t) b"

lemma ilc_next_may_move: "ilc_next a b \<Longrightarrow> may_move a b"
  by (erule ilc_nextE) (simp_all add: may_move_def)

lemma ilc_next_not_initial: "ilc_next a b \<Longrightarrow> b \<noteq> Proposed"
  by (erule ilc_nextE) simp_all

lemma ilc_next_index: "ilc_next a b \<Longrightarrow> status_index b = status_index a + 1"
  by (erule ilc_nextE) simp_all

lemma enforceILC_advance:
  assumes "js_get (intents s) iid = Some i" and "ilc_next (i_status i) new"
    and "i_status i = Proposed \<Longrightarrow> getEvidence iid s \<noteq> []"
  shows "il_ok (fst (enforceILC E iid s)) \<and> snd (enforceILC E iid s) = snd (transitionIntent E iid new s)"
  using assms(2,1,3) by (cases rule: ilc_next.cases) (simp_all add: enforceILC_def)

lemma enforceILC_stuck:
  assumes "js_get (intents s) iid = None \<or>
    (\<exists>i. js_get (intents s) iid = Some i \<and>
      ((\<nexists>new. ilc_next (i_status i) new) \<or> (i_status i = Proposed \<and> getEvidence iid s = [])))"
  shows "\<not> il_ok (fst (enforceILC E iid s)) \<and> snd (enforceILC E iid s) = s"
proof (cases "js_get (intents s) iid")
  case None
  then show ?thesis by (simp add: enforceILC_def)
next
  case (Some i)
  with assms show ?thesis by (cases "i_status i") (auto simp: enforceILC_def)
qed

lemma getEvidence_registered:
  assumes "getEvidence iid s \<noteq> []" and "distinct (map fst (evidences s))"
  shows "\<exists>eid e. js_get (evidences s) eid = Some e \<and> e_intent e = iid"
proof -
  from assms(1) obtain eid e where "(eid, e) \<in> set (evidences s)" "e_intent e = iid"
    by (auto simp: getEvidence_def js_values_def filter_empty_conv)
  with assms(2) show ?thesis by (metis map_of_is_SomeI)
qed

text \<open>A move between statuses of the list never leads out of the ended ones.\<close>

lemma may_move_ended: "ends_intent a \<Longrightarrow> may_move a b \<Longrightarrow> ends_intent b"
  by (cases a; cases b) (simp_all add: ends_intent_def may_move_def)

subsection \<open>Runs of the registries\<close>

datatype kernel_event =
    NewIntent string
  | Evidence string string json
  | Verify string
  | Advance string
  | Bound boundary
  | Dispute string "string list" string
  | Resolve string string
  | Compute os_facts string string string

primrec kernel_step :: "sysenv \<Rightarrow> kernel_event \<Rightarrow> 'a kernel_st_scheme \<Rightarrow> 'a kernel_st_scheme" where
  "kernel_step E (NewIntent g) s = snd (createIntent E g s)"
| "kernel_step E (Evidence iid cl p) s = snd (submitEvidence E iid cl p s)"
| "kernel_step E (Verify eid) s = snd (verifyEvidence E eid s)"
| "kernel_step E (Advance iid) s = snd (enforceILC E iid s)"
| "kernel_step E (Bound b) s = registerBoundary E b s"
| "kernel_step E (Dispute d ags dm) s = snd (arbitrate E d ags dm s)"
| "kernel_step E (Resolve aid ru) s = snd (resolveArbitration E aid ru s)"
| "kernel_step E (Compute f t n w) s = snd (authorizeCompute E f t n w s)"

datatype any_event = Governed kernel_event | Move string intent_status

primrec any_step :: "sysenv \<Rightarrow> any_event \<Rightarrow> 'a kernel_st_scheme \<Rightarrow> 'a kernel_st_scheme" where
  "any_step E (Governed e) s = kernel_step E e s"
| "any_step E (Move iid st) s = snd (transitionIntent E iid st s)"

lemma kernel_step_grows: "csr_grows E s (kernel_step E e s)"
  by (cases e) (simp_all add: kernel_grows enforceILC_grows authorizeCompute_grows)

lemma any_step_grows: "csr_grows E s (any_step E e s)"
  by (cases e) (simp_all add: kernel_step_grows kernel_grows)

definition intent_ok :: "(string \<Rightarrow> evidence option) \<Rightarrow> string \<Rightarrow> intent \<Rightarrow> bool" where
  "intent_ok ev iid i \<longleftrightarrow>
     i_id i = iid \<and> (i_completed i \<noteq> None \<longleftrightarrow> ends_intent (i_status i)) \<and>
     (\<forall>eid\<in>set (i_evidence i). \<exists>e. ev eid = Some e \<and> e_intent e = iid)"

definition reg_ok :: "sysenv \<Rightarrow> 'a kernel_st_scheme \<Rightarrow> bool" where
  "reg_ok E s \<longleftrightarrow>
     (\<forall>iid i. js_get (intents s) iid = Some i \<longrightarrow>
        intent_ok (js_get (evidences s)) iid i \<and> iid \<in> ids_before E (tick s)) \<and>
     (\<forall>eid e. js_get (evidences s) eid = Some e \<longrightarrow> e_id e = eid \<and> eid \<in> ids_before E (tick s)) \<and>
     distinct (map fst (evidences s))"

text \<open>Past \<open>proposed\<close> only with evidence.\<close>

definition evidenced_ok :: "'a kernel_st_scheme \<Rightarrow> bool" where
  "evidenced_ok s \<longleftrightarrow>
     (\<forall>iid i. js_get (intents s) iid = Some i \<longrightarrow> i_status i \<noteq> Proposed \<longrightarrow>
        (\<exists>eid e. js_get (evidences s) eid = Some e \<and> e_intent e = iid))"

lemma ids_before_le: "k \<in> ids_before E n \<Longrightarrow> n \<le> m \<Longrightarrow> k \<in> ids_before E m"
  by (auto simp: ids_before_def)

lemma reg_ok_frame:
  assumes "reg_ok E s" and "intents s' = intents s" and "evidences s' = evidences s" and "tick s \<le> tick s'"
  shows "reg_ok E s'"
  using assms(1-3) ids_before_le [OF _ assms(4)] unfolding reg_ok_def by metis

lemma evidenced_ok_frame:
  "evidenced_ok s \<Longrightarrow> intents s' = intents s \<Longrightarrow> evidences s' = evidences s \<Longrightarrow> evidenced_ok s'"
  by (simp add: evidenced_ok_def)

lemma reg_ok_new:
  assumes ok: "reg_ok E s"
  shows "reg_ok E (snd (createIntent E g s))"
proof -
  obtain i where i: "i_id i = uuid_at E (tick s)" "i_status i = Proposed" "i_evidence i = []" "i_completed i = None"
    and s': "intents (snd (createIntent E g s)) = js_set (uuid_at E (tick s)) i (intents s)"
      "evidences (snd (createIntent E g s)) = evidences s" "tick (snd (createIntent E g s)) = tick s + 4"
    using createIntent_effect [of E g s] by blast
  have "intent_ok ev (uuid_at E (tick s)) i" for ev using i by (simp add: intent_ok_def ends_intent_def)
  with ok show ?thesis unfolding reg_ok_def s' by (simp add: ids_before_new)
qed

lemma intent_ok_mono:
  "intent_ok ev iid i \<Longrightarrow> (\<And>eid e. ev eid = Some e \<Longrightarrow> \<exists>e'. ev' eid = Some e' \<and> e_intent e' = e_intent e) \<Longrightarrow>
    intent_ok ev' iid i"
  unfolding intent_ok_def by metis

lemma reg_ok_submit:
  assumes inj: "inj (uuid_at E)" and ok: "reg_ok E s"
  shows "reg_ok E (snd (submitEvidence E iid cl p s))"
proof -
  define u where "u = uuid_at E (tick s)"
  obtain e where e: "e_id e = u" "e_intent e = iid"
    and s': "intents (snd (submitEvidence E iid cl p s)) = js_modify iid (\<lambda>i. i\<lparr>i_evidence := i_evidence i @ [u]\<rparr>) (intents s)"
      "evidences (snd (submitEvidence E iid cl p s)) = js_set u e (evidences s)"
      "tick (snd (submitEvidence E iid cl p s)) = tick s + 4"
    using submitEvidence_effect [of E iid cl p s] unfolding u_def by blast
  have fresh: "js_get (evidences s) u = None"
    using ok ids_before_fresh [OF inj, of "tick s"] unfolding u_def reg_ok_def by (metis not_Some_eq)
  define ev where "ev = js_get (js_set u e (evidences s))"
  have ev: "ev k = (if k = u then Some e else js_get (evidences s) k)" for k by (simp add: ev_def)
  have keep: "intent_ok ev k i" if "intent_ok (js_get (evidences s)) k i" for k i
    using that by (rule intent_ok_mono) (use fresh ev in auto)
  have "intent_ok ev iid (i\<lparr>i_evidence := i_evidence i @ [u]\<rparr>)"
    if "intent_ok (js_get (evidences s)) iid i" for i
    using keep [OF that] e ev by (simp add: intent_ok_def)
  with ok keep have 1: "intent_ok ev k j \<and> k \<in> ids_before E (tick s + 4)"
    if "js_get (js_modify iid (\<lambda>i. i\<lparr>i_evidence := i_evidence i @ [u]\<rparr>) (intents s)) k = Some j" for k j
    using that unfolding reg_ok_def by (auto split: if_splits)
  have 2: "e_id x = k \<and> k \<in> ids_before E (tick s + 4)" if "ev k = Some x" for k x
    using that ok e unfolding ev reg_ok_def by (auto simp: u_def ids_before_new split: if_splits)
  show ?thesis
    unfolding reg_ok_def s' ev_def [symmetric] using 1 2 ok by (simp add: reg_ok_def)
qed

lemma reg_ok_verify:
  assumes ok: "reg_ok E s"
  shows "reg_ok E (snd (verifyEvidence E eid s))"
proof -
  define t where "t = snd (verifyEvidence E eid s)"
  have t: "intents t = intents s" "evidences t = js_modify eid (\<lambda>e. e\<lparr>e_verified := True\<rparr>) (evidences s)" "tick s \<le> tick t"
    using verifyEvidence_effect [of E eid s] by (simp_all add: t_def)
  have ev: "js_get (evidences t) k = (if k = eid then map_option (\<lambda>e. e\<lparr>e_verified := True\<rparr>) (js_get (evidences s) k)
      else js_get (evidences s) k)" for k unfolding t by simp
  have keep: "intent_ok (js_get (evidences t)) k i" if "intent_ok (js_get (evidences s)) k i" for k i
    using that by (rule intent_ok_mono) (auto simp: ev)
  have "e_id e = k \<and> k \<in> ids_before E (tick t)" if "js_get (evidences t) k = Some e" for k e
  proof -
    from that obtain e' where "js_get (evidences s) k = Some e'" "e_id e = e_id e'"
      by (auto simp: ev split: if_splits)
    with ok t(3) show ?thesis unfolding reg_ok_def by (metis ids_before_le)
  qed
  moreover have "distinct (map fst (evidences t))" using ok unfolding reg_ok_def t(2) by simp
  ultimately show ?thesis
    using keep ok ids_before_le [OF _ t(3)] unfolding t_def [symmetric] reg_ok_def t(1) by blast
qed

lemma reg_ok_move:
  assumes ok: "reg_ok E s"
  shows "reg_ok E (snd (transitionIntent E iid new s))"
proof (cases "\<exists>i. js_get (intents s) iid = Some i \<and> may_move (i_status i) new")
  case True
  then obtain i where i: "js_get (intents s) iid = Some i" "may_move (i_status i) new" by blast
  obtain c where t: "js_get (intents (snd (transitionIntent E iid new s))) =
       (js_get (intents s))(iid \<mapsto> i\<lparr>i_status := new, i_completed := c\<rparr>)"
      "c = (if ends_intent new then Some (now_at E (tick s)) else i_completed i)"
    using transition_moved [OF i, of E] by blast
  have "intent_ok ev iid (i\<lparr>i_status := new, i_completed := c\<rparr>)" if "intent_ok ev iid i" for ev
    using that may_move_ended [OF _ i(2)] by (auto simp: intent_ok_def t(2))
  with ok i have "intent_ok (js_get (evidences s)) k j \<and> k \<in> ids_before E (tick (snd (transitionIntent E iid new s)))"
    if "js_get (intents (snd (transitionIntent E iid new s))) k = Some j" for k j
    using that unfolding reg_ok_def t(1)
    by (auto split: if_splits intro: ids_before_le [OF _ transition_evidences(7)])
  moreover have "eid \<in> ids_before E (tick (snd (transitionIntent E iid new s)))" if "js_get (evidences s) eid = Some e" for eid e
    using ok that ids_before_le [OF _ transition_evidences(7)] unfolding reg_ok_def by blast
  ultimately show ?thesis
    using ok unfolding reg_ok_def by simp
next
  case False
  then have "snd (transitionIntent E iid new s) = s" using transition_refused [of s iid new E] by (cases "js_get (intents s) iid") auto
  with ok show ?thesis by simp
qed

lemma enforceILC_cases:
  obtains (stuck) "snd (enforceILC E iid s) = s" |
    (advance) i new where "js_get (intents s) iid = Some i" "ilc_next (i_status i) new"
      "i_status i = Proposed \<longrightarrow> getEvidence iid s \<noteq> []"
      "snd (enforceILC E iid s) = snd (transitionIntent E iid new s)"
proof (cases "\<exists>i new. js_get (intents s) iid = Some i \<and> ilc_next (i_status i) new \<and>
    (i_status i = Proposed \<longrightarrow> getEvidence iid s \<noteq> [])")
  case True
  then show ?thesis using advance enforceILC_advance by blast
next
  case False
  then have "js_get (intents s) iid = None \<or> (\<exists>i. js_get (intents s) iid = Some i \<and>
      ((\<nexists>new. ilc_next (i_status i) new) \<or> (i_status i = Proposed \<and> getEvidence iid s = [])))"
    by (cases "js_get (intents s) iid") auto
  then show ?thesis using stuck enforceILC_stuck by blast
qed

lemma reg_ok_step: "inj (uuid_at E) \<Longrightarrow> reg_ok E s \<Longrightarrow> reg_ok E (kernel_step E e s)"
proof (cases e)
  case (Advance iid)
  assume ok: "reg_ok E s"
  from Advance show ?thesis by (cases rule: enforceILC_cases [of E iid s]) (auto simp: ok reg_ok_move)
qed (auto simp: reg_ok_new reg_ok_submit reg_ok_verify intro: reg_ok_frame)

lemma evidenced_new:
  assumes "evidenced_ok s"
  shows "evidenced_ok (snd (createIntent E g s))"
proof -
  obtain i where "i_status i = Proposed"
    "intents (snd (createIntent E g s)) = js_set (uuid_at E (tick s)) i (intents s)"
    "evidences (snd (createIntent E g s)) = evidences s"
    using createIntent_effect [of E g s] by blast
  with assms show ?thesis unfolding evidenced_ok_def by simp
qed

lemma evidenced_submit:
  assumes inj: "inj (uuid_at E)" and reg: "reg_ok E s" and ok: "evidenced_ok s"
  shows "evidenced_ok (snd (submitEvidence E iid cl p s))"
proof -
  obtain e where t: "intents (snd (submitEvidence E iid cl p s)) =
       js_modify iid (\<lambda>i. i\<lparr>i_evidence := i_evidence i @ [uuid_at E (tick s)]\<rparr>) (intents s)"
     "evidences (snd (submitEvidence E iid cl p s)) = js_set (uuid_at E (tick s)) e (evidences s)"
    using submitEvidence_effect [of E iid cl p s] by blast
  have fresh: "js_get (evidences s) (uuid_at E (tick s)) = None"
    using reg ids_before_fresh [OF inj, of "tick s"] unfolding reg_ok_def by (metis not_Some_eq)
  have st: "\<exists>j. js_get (intents s) k = Some j \<and> i_status j = i_status i"
    if "js_get (js_modify iid (\<lambda>i. i\<lparr>i_evidence := i_evidence i @ [uuid_at E (tick s)]\<rparr>) (intents s)) k = Some i" for k i
    using that by (auto split: if_splits)
  show ?thesis
    unfolding evidenced_ok_def t
  proof (intro allI impI)
    fix k i
    assume m: "js_get (js_modify iid (\<lambda>i. i\<lparr>i_evidence := i_evidence i @ [uuid_at E (tick s)]\<rparr>) (intents s)) k = Some i"
      and p: "i_status i \<noteq> Proposed"
    obtain j where j: "js_get (intents s) k = Some j" "i_status j = i_status i" using st [OF m] by blast
    with p ok obtain eid x where x: "js_get (evidences s) eid = Some x" "e_intent x = k"
      unfolding evidenced_ok_def by (metis (no_types))
    with fresh have "eid \<noteq> uuid_at E (tick s)" by auto
    with x show "\<exists>eid x. js_get (js_set (uuid_at E (tick s)) e (evidences s)) eid = Some x \<and> e_intent x = k"
      by (intro exI [of _ eid] exI [of _ x]) simp
  qed
qed

lemma evidenced_verify:
  assumes "evidenced_ok s"
  shows "evidenced_ok (snd (verifyEvidence E eid s))"
proof -
  have "\<exists>x'. js_get (evidences (snd (verifyEvidence E eid s))) k = Some x' \<and> e_intent x' = e_intent x"
    if "js_get (evidences s) k = Some x" for k x
    using verifyEvidence_effect [of E eid s] that by auto
  with assms show ?thesis
    using verifyEvidence_effect [of E eid s] unfolding evidenced_ok_def by metis
qed

lemma evidenced_advance:
  assumes reg: "reg_ok E s" and ok: "evidenced_ok s"
  shows "evidenced_ok (snd (enforceILC E iid s))"
proof (cases rule: enforceILC_cases [of E iid s])
  case stuck
  with ok show ?thesis by simp
next
  case (advance i new)
  obtain c where "js_get (intents (snd (transitionIntent E iid new s))) =
      (js_get (intents s))(iid \<mapsto> i\<lparr>i_status := new, i_completed := c\<rparr>)"
    using transition_moved [OF advance(1) ilc_next_may_move [OF advance(2)], of E] by blast
  moreover have "\<exists>eid e. js_get (evidences s) eid = Some e \<and> e_intent e = iid"
  proof (cases "i_status i = Proposed")
    case True
    with advance reg show ?thesis unfolding reg_ok_def by (intro getEvidence_registered) simp_all
  next
    case False
    with ok advance(1) show ?thesis unfolding evidenced_ok_def by blast
  qed
  ultimately show ?thesis
    using ok unfolding evidenced_ok_def advance(4) by (auto split: if_splits)
qed

lemma evidenced_step:
  "inj (uuid_at E) \<Longrightarrow> reg_ok E s \<Longrightarrow> evidenced_ok s \<Longrightarrow> evidenced_ok (kernel_step E e s)"
  by (cases e) (simp_all add: evidenced_new evidenced_submit evidenced_verify evidenced_advance evidenced_ok_frame)

interpretation governed: audited_machine "kernel_step E"
  "\<lambda>s. inj (uuid_at E) \<and> reg_ok E s \<and> evidenced_ok s \<and> csr_ok E (csr_ledger s)" csr_ledger
  by unfold_locales (auto simp: reg_ok_step evidenced_step csr_growsD(1) [OF kernel_step_grows] csr_growsD(2) [OF kernel_step_grows])

interpretation free: audited_machine "any_step E"
  "\<lambda>s. inj (uuid_at E) \<and> reg_ok E s \<and> csr_ok E (csr_ledger s)" csr_ledger
proof unfold_locales
  fix s :: "'b kernel_st_scheme" and e
  assume i: "inj (uuid_at E) \<and> reg_ok E s \<and> csr_ok E (csr_ledger s)"
  then have "reg_ok E (any_step E e s)" by (cases e) (simp_all add: reg_ok_step reg_ok_move)
  with i show "inj (uuid_at E) \<and> reg_ok E (any_step E e s) \<and> csr_ok E (csr_ledger (any_step E e s))"
    using csr_growsD(1) [OF any_step_grows] by blast
qed (rule csr_growsD(2) [OF any_step_grows])

definition init_kernel :: kernel_st where
  "init_kernel = \<lparr>tick = 0, csr_ledger = [], wal = [], gov_ledger = [], gov_wal = [], gov_loaded = True,
     gov_continuity = ''initial'', gov_invariants = [], gov_violations = [], budgets = [], consumptions = [],
     threat_ledger = [], intents = [], evidences = [], docket = [], boundaries = [], compute_auths = [], seeded = False\<rparr>"

lemma init_kernel_ok [simp]: "reg_ok E init_kernel" "evidenced_ok init_kernel" "csr_ok E (csr_ledger init_kernel)"
  by (simp_all add: reg_ok_def evidenced_ok_def init_kernel_def)

definition has_ended :: "string \<Rightarrow> 'a kernel_st_scheme \<Rightarrow> bool" where
  "has_ended iid s \<longleftrightarrow> (\<exists>i. js_get (intents s) iid = Some i \<and> ends_intent (i_status i))"

lemma has_ended_frame: "has_ended iid s \<Longrightarrow> intents s' = intents s \<Longrightarrow> has_ended iid s'"
  by (simp add: has_ended_def)

lemma has_ended_move:
  assumes "has_ended iid s"
  shows "has_ended iid (snd (transitionIntent E k new s))"
proof (cases "\<exists>i. js_get (intents s) k = Some i \<and> may_move (i_status i) new")
  case True
  then obtain i where i: "js_get (intents s) k = Some i" "may_move (i_status i) new" by blast
  obtain c where "js_get (intents (snd (transitionIntent E k new s))) =
      (js_get (intents s))(k \<mapsto> i\<lparr>i_status := new, i_completed := c\<rparr>)"
    using transition_moved [OF i, of E] by blast
  with assms i may_move_ended [OF _ i(2)] show ?thesis unfolding has_ended_def by auto
next
  case False
  then have "snd (transitionIntent E k new s) = s" using transition_refused [of s k new E] by (cases "js_get (intents s) k") auto
  with assms show ?thesis by simp
qed

lemma has_ended_new:
  assumes inj: "inj (uuid_at E)" and reg: "reg_ok E s" and ended: "has_ended iid s"
  shows "has_ended iid (snd (createIntent E g s))"
proof -
  have "iid \<noteq> uuid_at E (tick s)"
    using reg ended ids_before_fresh [OF inj, of "tick s"] by (auto simp: reg_ok_def has_ended_def)
  with ended show ?thesis using createIntent_effect [of E g s] by (auto simp: has_ended_def)
qed

lemma has_ended_submit: "has_ended iid s \<Longrightarrow> has_ended iid (snd (submitEvidence E k cl p s))"
  using submitEvidence_effect [of E k cl p s] by (auto simp: has_ended_def)

lemma has_ended_step:
  "inj (uuid_at E) \<Longrightarrow> reg_ok E s \<Longrightarrow> has_ended iid s \<Longrightarrow> has_ended iid (any_step E e s)"
proof (cases e)
  case (Governed k)
  assume a: "inj (uuid_at E)" "reg_ok E s" "has_ended iid s"
  show ?thesis
  proof (cases k)
    case (Advance x)
    with Governed a(3) show ?thesis
      by (cases rule: enforceILC_cases [of E x s]) (simp_all add: has_ended_move)
  next
    case (Verify x)
    with Governed a(3) show ?thesis using verifyEvidence_effect [of E x s] by (auto intro: has_ended_frame)
  qed (use Governed a in \<open>simp_all add: has_ended_new has_ended_submit has_ended_frame\<close>)
qed (simp add: has_ended_move)

interpretation ended: machine "any_step E" "\<lambda>s. inj (uuid_at E) \<and> reg_ok E s \<and> has_ended iid s"
proof unfold_locales
  fix s :: "'b kernel_st_scheme" and e
  assume "inj (uuid_at E) \<and> reg_ok E s \<and> has_ended iid s"
  then show "inj (uuid_at E) \<and> reg_ok E (any_step E e s) \<and> has_ended iid (any_step E e s)"
    using has_ended_step [of E s iid e] by (cases e) (simp_all add: reg_ok_step reg_ok_move)
qed

subsection \<open>Start-up\<close>

lemma recover_one_keeps: "js_get m iid = Some i \<Longrightarrow> js_get (recover_one r m) iid = Some i"
  by (auto simp: recover_one_def js_has_def split: option.split)

lemma recover_keeps: "js_get m iid = Some i \<Longrightarrow> js_get (fold recover_one rs m) iid = Some i"
  by (induction rs arbitrary: m) (auto simp: recover_one_keeps)

lemma recover_one_other:
  "jget_str (c_payload r) ''intentId'' \<noteq> Some iid \<or> intent_target (c_trans r) = None \<Longrightarrow>
     js_get (recover_one r m) iid = js_get m iid"
  by (auto simp: recover_one_def split: option.split)

lemma recover_other:
  "\<forall>r\<in>set rs. jget_str (c_payload r) ''intentId'' \<noteq> Some iid \<or> intent_target (c_trans r) = None \<Longrightarrow>
     js_get (fold recover_one rs m) iid = js_get m iid"
  by (induction rs arbitrary: m) (simp_all add: recover_one_other)

definition move_text :: "intent_status \<Rightarrow> intent_status \<Rightarrow> string" where
  "move_text a b = ''intent-'' @ status_name a @ ''->'' @ status_name b"

lemma intent_target_created: "intent_target ''intent-created'' = None"
  by code_simp

lemma intent_target_move:
  assumes "a \<in> set ILC_ORDER" and "b \<in> set ILC_ORDER"
  shows "intent_target (move_text a b) = Some (status_name b)"
proof -
  have "list_all (\<lambda>a. list_all (\<lambda>b. intent_target (move_text a b) = Some (status_name b)) ILC_ORDER) ILC_ORDER"
    by code_simp
  with assms show ?thesis by (simp add: list_all_iff)
qed

lemma status_of_name: "b \<in> set ILC_ORDER \<Longrightarrow> status_of (status_name b) = b"
proof -
  have "list_all (\<lambda>b. status_of (status_name b) = b) ILC_ORDER" by code_simp
  then show "b \<in> set ILC_ORDER \<Longrightarrow> status_of (status_name b) = b" by (simp add: list_all_iff)
qed

lemma requireInvariant_frame [simp]:
  "csr_ledger (requireInvariant iv s) = csr_ledger s" "wal (requireInvariant iv s) = wal s"
  "intents (requireInvariant iv k) = intents k" "evidences (requireInvariant iv k) = evidences k"
  "tick (requireInvariant iv s) = tick s"
  by (simp_all add: requireInvariant_def)

lemma fold_requireInvariant [simp]:
  "csr_ledger (fold requireInvariant ivs s) = csr_ledger s" "wal (fold requireInvariant ivs s) = wal s"
  "intents (fold requireInvariant ivs k) = intents k" "evidences (fold requireInvariant ivs k) = evidences k"
  by (induction ivs arbitrary: s k) simp_all

lemma seedKernel_intents: "\<not> seeded s \<Longrightarrow> intents (seedKernel E s) = fold recover_one (wal s) (intents s)"
  by (simp add: seedKernel_def replayWal_def Let_def)

lemma seedKernel_ledger:
  "\<not> seeded s \<Longrightarrow> wal s \<noteq> [] \<Longrightarrow> csr_ledger (seedKernel E s) = csr_ledger s @ wal s \<and> wal (seedKernel E s) = wal s"
  by (simp add: seedKernel_def replayWal_def Let_def)

subsection \<open>Properties\<close>

text \<open>C7. Enforcing the lifecycle refines the abstract lifecycle: the call either reports a
  failure and changes nothing, which is the case for an unknown intent, an ended one and a
  proposed one without evidence; or it reports success and moves that intent, and no other,
  one step along the lifecycle, stamping its completion exactly when the step completes it.\<close>

theorem enforceILC_refines_lifecycle:
  "(\<not> il_ok (fst (enforceILC E iid s)) \<and> snd (enforceILC E iid s) = s \<and>
      (\<forall>i new. js_get (intents s) iid = Some i \<and> ilc_next (i_status i) new \<longrightarrow>
         i_status i = Proposed \<and> getEvidence iid s = [])) \<or>
   (\<exists>i new. il_ok (fst (enforceILC E iid s)) \<and> js_get (intents s) iid = Some i \<and> ilc_next (i_status i) new \<and>
      js_get (intents (snd (enforceILC E iid s))) =
        (js_get (intents s))(iid \<mapsto> i\<lparr>i_status := new,
           i_completed := (if new = Completed then Some (now_at E (tick s)) else i_completed i)\<rparr>))"
proof (cases "\<exists>i new. js_get (intents s) iid = Some i \<and> ilc_next (i_status i) new \<and>
    (i_status i = Proposed \<longrightarrow> getEvidence iid s \<noteq> [])")
  case True
  then obtain i new where a: "js_get (intents s) iid = Some i" "ilc_next (i_status i) new"
    "i_status i = Proposed \<longrightarrow> getEvidence iid s \<noteq> []" by blast
  have en: "ends_intent new \<longleftrightarrow> new = Completed"
    using a(2) by (cases rule: ilc_next.cases) (simp_all add: ends_intent_def)
  have e: "il_ok (fst (enforceILC E iid s))" "snd (enforceILC E iid s) = snd (transitionIntent E iid new s)"
    using enforceILC_advance [OF a(1,2), of E] a(3) by blast+
  obtain c where "js_get (intents (snd (transitionIntent E iid new s))) =
      (js_get (intents s))(iid \<mapsto> i\<lparr>i_status := new, i_completed := c\<rparr>)"
    "c = (if ends_intent new then Some (now_at E (tick s)) else i_completed i)"
    using transition_moved [OF a(1) ilc_next_may_move [OF a(2)], of E] by blast
  then have "js_get (intents (snd (enforceILC E iid s))) =
      (js_get (intents s))(iid \<mapsto> i\<lparr>i_status := new,
         i_completed := (if new = Completed then Some (now_at E (tick s)) else i_completed i)\<rparr>)"
    unfolding e(2) en by (simp only:)
  with e(1) a(1,2) show ?thesis by blast
next
  case False
  then have "js_get (intents s) iid = None \<or> (\<exists>i. js_get (intents s) iid = Some i \<and>
      ((\<nexists>new. ilc_next (i_status i) new) \<or> (i_status i = Proposed \<and> getEvidence iid s = [])))"
    by (cases "js_get (intents s) iid") auto
  from enforceILC_stuck [OF this, of E] False show ?thesis by blast
qed

theorem enforceILC_witness:
  "il_ok (fst (enforceILC demo_env (i_id (fst (createIntent demo_env ''g'' init_kernel)))
      (snd (createIntent demo_env ''g'' init_kernel)))) = False"
  using enforceILC_refines_lifecycle [of demo_env "i_id (fst (createIntent demo_env ''g'' init_kernel))"
      "snd (createIntent demo_env ''g'' init_kernel)"] createIntent_effect [of demo_env "''g''" init_kernel]
  by (auto simp: enforceILC_def getEvidence_def init_kernel_def js_values_def)

text \<open>A run of the operations that change statuses only by enforcing the lifecycle (no direct
  transition, no seeding and no merging of forks): every intent that is no longer proposed has
  evidence registered for it, and the record ledger is intact. The theory \<open>KernelRuns\<close> extends
  this to all operations.\<close>

theorem governed_run_needs_evidence:
  assumes "inj (uuid_at E)" and "js_get (intents (fold (kernel_step E) es init_kernel)) iid = Some i"
  shows "(i_status i \<noteq> Proposed \<longrightarrow>
      (\<exists>eid e. js_get (evidences (fold (kernel_step E) es init_kernel)) eid = Some e \<and> e_intent e = iid)) \<and>
    (\<forall>eid\<in>set (i_evidence i). \<exists>e. js_get (evidences (fold (kernel_step E) es init_kernel)) eid = Some e \<and> e_intent e = iid) \<and>
    (i_completed i \<noteq> None \<longleftrightarrow> ends_intent (i_status i)) \<and>
    verifyCsrIntegrity E (fold (kernel_step E) es init_kernel) = None"
proof -
  have "reg_ok E (fold (kernel_step E) es init_kernel) \<and> evidenced_ok (fold (kernel_step E) es init_kernel) \<and>
      csr_ok E (csr_ledger (fold (kernel_step E) es init_kernel))"
    using governed.run_inv [of E init_kernel es] assms(1) by simp
  with assms(2) show ?thesis
    by (auto simp: reg_ok_def evidenced_ok_def intent_ok_def verifyCsrIntegrity_def csr_ok_def csr_linked_gap)
qed

theorem governed_run_witness:
  "\<exists>eid e. js_get (evidences (fold (kernel_step demo_env)
      [NewIntent ''g'', Evidence [] ''c'' JNull, Advance []] init_kernel)) eid = Some e \<and> e_intent e = []"
proof -
  define t where "t = fold (kernel_step demo_env) [NewIntent ''g'', Evidence [] ''c'' JNull, Advance []] init_kernel"
  have i: "inj (uuid_at demo_env)" by (auto intro!: injI dest: arg_cong [of _ _ length])
  have "\<exists>i. js_get (intents t) [] = Some i \<and> i_status i = Evidenced"
    by (simp add: t_def createIntent_def submitEvidence_def enforceILC_def transitionIntent_def getEvidence_def
        take_uuid_def take_now_def init_kernel_def js_values_def may_move_def ends_intent_def Let_def)
  then obtain x where "js_get (intents t) [] = Some x" "i_status x = Evidenced" by blast
  with governed_run_needs_evidence [OF i, of "[NewIntent ''g'', Evidence [] ''c'' JNull, Advance []]" "[]" x]
  show ?thesis unfolding t_def by simp
qed

text \<open>A direct transition is refused exactly when the intent is unknown or the status lies
  earlier in the lifecycle order and is neither reverted nor rejected. In particular a new
  intent can be moved to completed at once, without evidence or any stage in between.\<close>

theorem transition_spec:
  "(fst (transitionIntent E iid new s) = Ok \<longleftrightarrow>
      (\<exists>i. js_get (intents s) iid = Some i \<and>
         (status_index (i_status i) \<le> status_index new \<or> new = Reverted \<or> new = Rejected))) \<and>
   fst (transitionIntent E (i_id (fst (createIntent E g s))) Completed (snd (createIntent E g s))) = Ok"
proof
  show "fst (transitionIntent E iid new s) = Ok \<longleftrightarrow>
      (\<exists>i. js_get (intents s) iid = Some i \<and>
         (status_index (i_status i) \<le> status_index new \<or> new = Reverted \<or> new = Rejected))"
    by (auto simp: transitionIntent_def may_move_def take_now_def Let_def split: option.split)
  obtain i where i: "i_id (fst (createIntent E g s)) = uuid_at E (tick s)"
    "js_get (intents (snd (createIntent E g s))) (uuid_at E (tick s)) = Some i" "i_status i = Proposed"
    using createIntent_effect [of E g s] by auto
  then show "fst (transitionIntent E (i_id (fst (createIntent E g s))) Completed (snd (createIntent E g s))) = Ok"
    using transition_moved [OF i(2), of Completed E] by (simp add: may_move_def)
qed

text \<open>An ended intent stays ended: once an intent is completed, rejected or reverted, no
  sequence of kernel operations, direct transitions included, makes it active again or loses it.\<close>

theorem ended_stays_ended:
  assumes "inj (uuid_at E)" and "has_ended iid (fold (any_step E) es init_kernel)"
  shows "has_ended iid (fold (any_step E) (es @ later) init_kernel)"
proof -
  have "reg_ok E (fold (any_step E) es init_kernel)"
    using free.run_inv [of E init_kernel es] assms(1) by simp
  with assms show ?thesis
    using ended.run_inv [of E "fold (any_step E) es init_kernel" iid later] by simp
qed

theorem ended_stays_ended_witness:
  "has_ended [] (fold (any_step demo_env) ([Governed (NewIntent ''g''), Move [] Rejected] @ [Move [] Proposed]) init_kernel)"
proof (rule ended_stays_ended)
  show "inj (uuid_at demo_env)" by (auto intro!: injI dest: arg_cong [of _ _ length])
  show "has_ended [] (fold (any_step demo_env) [Governed (NewIntent ''g''), Move [] Rejected] init_kernel)"
    by (simp add: has_ended_def createIntent_def transitionIntent_def take_uuid_def take_now_def init_kernel_def
        may_move_def ends_intent_def Let_def)
qed

text \<open>What a restart recovers: after seeding a new process from a log in which an intent was
  moved, the intent has the status of its first logged move, whatever moves were logged after
  it, the goal recovered and no evidence; all evidence is gone.\<close>

theorem recovery_takes_first_move:
  assumes "wal s = before @ r # rest" and "c_trans r = move_text a b" and "a \<in> set ILC_ORDER" and "b \<in> set ILC_ORDER"
    and "c_payload r = [(''intentId'', JStr iid)]" and "iid \<noteq> []"
    and "\<forall>x\<in>set before. jget_str (c_payload x) ''intentId'' \<noteq> Some iid \<or> intent_target (c_trans x) = None"
  shows "(\<exists>i. js_get (intents (seedKernel E (restart_kernel s))) iid = Some i \<and> i_status i = b \<and>
      i_goal i = ''recovered'' \<and> i_evidence i = []) \<and>
    evidences (seedKernel E (restart_kernel s)) = []"
proof -
  have "js_get (fold recover_one before []) iid = None"
    using recover_other [OF assms(7), of "[]"] by simp
  moreover have "starts_with (c_trans r) ''intent-''"
    by (simp add: assms(2) move_text_def starts_with_def)
  ultimately obtain i where "js_get (recover_one r (fold recover_one before [])) iid = Some i"
    "i_status i = b" "i_goal i = ''recovered''" "i_evidence i = []"
    using assms intent_target_move [OF assms(3,4)] status_of_name [OF assms(4)]
    by (auto simp: recover_one_def js_has_def jget_str_def recovered_goal_def)
  then have "js_get (fold recover_one (wal s) []) iid = Some i \<and> i_status i = b \<and> i_goal i = ''recovered'' \<and> i_evidence i = []"
    using recover_keeps [of "recover_one r (fold recover_one before [])" iid i rest] by (simp add: assms(1))
  moreover have "evidences (seedKernel E (restart_kernel s)) = []"
    by (simp add: seedKernel_def restart_kernel_def replayWal_def Let_def)
  moreover have "intents (seedKernel E (restart_kernel s)) = fold recover_one (wal s) []"
    using seedKernel_intents [of "restart_kernel s" E] by (simp add: restart_kernel_def)
  ultimately show ?thesis by auto
qed

text \<open>An intent that was created, evidenced, completed and logged all the way.\<close>

definition demo_completed :: kernel_st where
  "demo_completed = fold (any_step demo_env)
     [Governed (NewIntent ''g''), Move [] Rejected, Governed (NewIntent ''ship''),
      Move ''uuuuuuu'' Authorized, Move ''uuuuuuu'' Completed] init_kernel"

lemma demo_completed_eq:
  "\<exists>x y z r rest. wal demo_completed = [x, y, z] @ r # rest \<and>
     c_trans x = ''intent-created'' \<and> c_payload y = [(''intentId'', JStr [])] \<and> c_trans z = ''intent-created'' \<and>
     c_trans r = move_text Proposed Authorized \<and> c_payload r = [(''intentId'', JStr ''uuuuuuu'')]"
  by (simp add: demo_completed_def createIntent_def transitionIntent_def take_uuid_def take_now_def
      init_kernel_def may_move_def ends_intent_def Let_def log_csr_wal log_csr_ledger move_text_def)

theorem recovery_witness:
  "\<exists>i. js_get (intents (seedKernel demo_env (restart_kernel demo_completed))) ''uuuuuuu'' = Some i \<and>
     i_status i = Authorized"
proof -
  obtain x y z r rest where d: "wal demo_completed = [x, y, z] @ r # rest" "c_trans x = ''intent-created''"
    "c_payload y = [(''intentId'', JStr [])]" "c_trans z = ''intent-created''" "c_trans r = move_text Proposed Authorized"
    "c_payload r = [(''intentId'', JStr ''uuuuuuu'')]"
    using demo_completed_eq by blast
  have m: "Proposed \<in> set ILC_ORDER" "Authorized \<in> set ILC_ORDER" by (simp_all add: ILC_ORDER_def)
  have "\<forall>w\<in>set [x, y, z]. jget_str (c_payload w) ''intentId'' \<noteq> Some ''uuuuuuu'' \<or> intent_target (c_trans w) = None"
    by (simp add: d intent_target_created jget_str_def)
  from recovery_takes_first_move [OF d(1,5) m d(6) _ this, of demo_env] show ?thesis by auto
qed

text \<open>Seeding after records have been written in the same process reads them from the log a
  second time: the ledger then holds every record twice and fails its integrity check at the
  first repeated record.\<close>

theorem late_seeding_breaks_ledger:
  assumes "\<not> seeded s" and "csr_ok E (csr_ledger s)" and "wal s = csr_ledger s" and "csr_ledger s \<noteq> []"
    and "\<And>t. sha256 E t \<noteq> ''genesis''"
  shows "csr_ledger (seedKernel E s) = csr_ledger s @ csr_ledger s \<and>
    verifyCsrIntegrity E (seedKernel E s) = Some (length (csr_ledger s))"
proof -
  have l: "csr_ledger (seedKernel E s) = csr_ledger s @ csr_ledger s"
    using seedKernel_ledger [of s E] assms(1,3,4) by simp
  obtain c cs where c: "csr_ledger s = c # cs" using assms(4) by (cases "csr_ledger s") auto
  have ok: "csr_linked E (csr_ledger s)" using assms(2) by (simp add: csr_ok_def)
  have "c_prev c = ''genesis''" using ok unfolding hchain_def c by simp
  moreover have "c_hash (last (csr_ledger s)) \<noteq> ''genesis''"
    using ok assms(4,5) unfolding hchain_def by (metis last_in_set)
  ultimately have "csr_gap_from E (length (csr_ledger s)) (last (csr_ledger s)) (csr_ledger s) = Some (length (csr_ledger s))"
    by (metis c csr_gap_from.simps(2))
  with csr_gap_append [OF assms(4) csr_linked_gap [OF ok]] l show ?thesis
    by (simp add: verifyCsrIntegrity_def)
qed

theorem late_seeding_witness:
  "verifyCsrIntegrity demo_env (seedKernel demo_env (snd (createIntent demo_env ''g'' init_kernel))) = Some 1"
proof -
  define t where "t = snd (createIntent demo_env ''g'' init_kernel)"
  have "csr_ok demo_env (csr_ledger t)"
    unfolding t_def by (rule csr_growsD(1) [OF kernel_grows(1)]) simp
  moreover have "wal t = csr_ledger t"
    unfolding t_def by (rule csr_growsD(3) [OF kernel_grows(1)]) (simp add: init_kernel_def)
  moreover have "\<not> seeded t" "length (csr_ledger t) = 1"
    by (simp_all add: t_def createIntent_def take_uuid_def take_now_def init_kernel_def log_csr_ledger Let_def)
  ultimately show ?thesis
    using late_seeding_breaks_ledger [of t demo_env] unfolding t_def [symmetric] by fastforce
qed

end
