(* ===== verification/Govern.thy ===== *)
theory Govern
  imports Kernel
begin

text \<open>
  The governed action (\<open>kernelGovernAction\<close> of \<open>agent/sovereign-x/kernel.ts\<close>), which passes an
  agent's action through threat detection, the role boundary, the intent's lifecycle, the
  agent's budget and validation, and the session bridge to the multi-agent workflow
  (\<open>agent/sovereign-x/cmas-integration.ts\<close>).
\<close>

record govern_result =
  gr_approved :: bool
  gr_receipt :: "receipt option"
  gr_reason :: "string option"
  gr_apid :: "apid_report option"

definition executable_status :: "intent_status \<Rightarrow> bool" where
  "executable_status st \<longleftrightarrow> st \<in> set [Authorized, Executing, Validating]"

text \<open>A refusal: a receipt, a record, the reason.\<close>

definition refuse ::
    "sysenv \<Rightarrow> string \<Rightarrow> action \<Rightarrow> string option \<Rightarrow> string \<Rightarrow> string \<Rightarrow> (string \<times> json) list \<Rightarrow> string option \<Rightarrow>
     apid_report option \<Rightarrow> 'a kernel_st_scheme \<Rightarrow> govern_result \<times> 'a kernel_st_scheme" where
  "refuse E agentId a reason transition domn payload iid report s =
     (let (r, s1) = emitToLedger E agentId a True reason s
      in (\<lparr>gr_approved = False, gr_receipt = Some r, gr_reason = reason, gr_apid = report\<rparr>,
          log_csr E transition domn payload iid agentId s1))"

text \<open>What the gate does to an intent that is not yet executable. The registry holds the intent
  object itself, so the second test sees what the first call did.\<close>

definition advance_intent :: "sysenv \<Rightarrow> string \<Rightarrow> action \<Rightarrow> 'a kernel_st_scheme \<Rightarrow> 'a kernel_st_scheme" where
  "advance_intent E iid a s =
     (let st = (\<lambda>s. map_option i_status (js_get (intents s) iid));
          s1 = (if st s = Some Evidenced then snd (enforceILC E iid s) else s)
      in if st s1 = Some Authorized \<and> (a_type a = ''edit'' \<or> a_type a = ''create'')
         then snd (enforceILC E iid s1) else s1)"

text \<open>The budget gate: the agent's open budget, or a new one, pays one call.\<close>

definition pay_call ::
    "sysenv \<Rightarrow> string \<Rightarrow> string \<Rightarrow> action \<Rightarrow> 'a kernel_st_scheme \<Rightarrow> consume_result \<times> 'a kernel_st_scheme" where
  "pay_call E agentId iid a s =
     (let (b, s1) = (case getAgentBudget agentId s of Some b \<Rightarrow> (b, s) | None \<Rightarrow> createBudget E agentId (Some iid) None s)
      in consumeResource E (b_id b) ''calls'' 1 (a_type a) s1)"

text \<open>The last two stages: validation, then approval.\<close>

definition validate_and_approve ::
    "sysenv \<Rightarrow> string \<Rightarrow> string \<Rightarrow> action \<Rightarrow> string option \<Rightarrow> apid_report \<Rightarrow> 'a kernel_st_scheme \<Rightarrow>
     govern_result \<times> 'a kernel_st_scheme" where
  "validate_and_approve E agentId role a iid report s =
     (case validateAction E a s of
        (VFail reason v, s1) \<Rightarrow>
          refuse E agentId a (Some reason) ''action-blocked-validation'' ''governance''
            [(''reason'', JStr reason), (''violation'', JStr (vi_id v))] iid None s1
      | (VOk, s1) \<Rightarrow>
          let (r, s2) = emitToLedger E agentId a False None s1
          in (\<lparr>gr_approved = True, gr_receipt = Some r, gr_reason = None, gr_apid = Some report\<rparr>,
              log_csr E ''action-approved'' ''governance''
                [(''agentId'', JStr agentId), (''agentRole'', JStr role), (''actionType'', JStr (a_type a)),
                 (''intentId'', jopt_str iid),
                 (''signed'', JStr (sign_payload E (case iid of Some x \<Rightarrow> x | None \<Rightarrow> g_id r)))] iid agentId s2))"

text \<open>The part of the gate that looks at an intent.\<close>

definition intent_gate ::
    "sysenv \<Rightarrow> string \<Rightarrow> string \<Rightarrow> action \<Rightarrow> string option \<Rightarrow> apid_report \<Rightarrow> intent \<Rightarrow> 'a kernel_st_scheme \<Rightarrow>
     govern_result \<times> 'a kernel_st_scheme" where
  "intent_gate E agentId role a iid rep intent s1 =
     (let i = the iid;
          s2 = (if executable_status (i_status intent) then s1 else advance_intent E i a s1);
          st = (case js_get (intents s2) i of Some x \<Rightarrow> i_status x | None \<Rightarrow> i_status intent)
      in if \<not> executable_status st then
           (let why = ''Intent '' @ i @ '' not in executable state: '' @ status_name st
            in refuse E agentId a (Some why) ''action-blocked-intent-state'' ''governance''
                 [(''intentId'', JStr i), (''intentStatus'', JStr (status_name st))] iid None s2)
         else
           case pay_call E agentId i a s2 of
             (Refused _ why, s3) \<Rightarrow>
               refuse E agentId a (Some why) ''action-blocked-budget'' ''accounting''
                 [(''agentId'', JStr agentId), (''reason'', JStr why)] iid None s3
           | (Consumed _, s3) \<Rightarrow> validate_and_approve E agentId role a iid rep s3)"

definition kernelGovernAction ::
    "sysenv \<Rightarrow> string \<Rightarrow> string \<Rightarrow> action \<Rightarrow> string option \<Rightarrow> 'a kernel_st_scheme \<Rightarrow>
     govern_result \<times> 'a kernel_st_scheme" where
  "kernelGovernAction E agentId role a iid s =
     (let s0 = (if seeded s then s else seedKernel E s);
          (ap, s1) = apidMiddleware E agentId a s0;
          rep = ar_report ap
      in if \<not> ar_allowed ap then
           refuse E agentId a (ar_reason ap) ''action-blocked-apid'' ''governance''
             [(''agentId'', JStr agentId), (''agentRole'', JStr role), (''actionType'', JStr (a_type a)),
              (''apidDisposition'', JStr (disposition_name (r_disposition rep))),
              (''threatClass'', jstrs (map class_name (r_classes rep)))] iid (Some rep) s1
         else
           case checkActionAgainstBoundary role (a_type a) s1 of
             Some why \<Rightarrow>
               refuse E agentId a (Some why) ''action-blocked-boundary'' ''governance''
                 [(''agentId'', JStr agentId), (''agentRole'', JStr role), (''actionType'', JStr (a_type a)),
                  (''reason'', JStr why)] iid None s1
           | None \<Rightarrow>
               if \<not> nonempty iid then validate_and_approve E agentId role a iid rep s1
               else
                 case js_get (intents s1) (the iid) of
                   None \<Rightarrow>
                     (\<lparr>gr_approved = False, gr_receipt = None,
                       gr_reason = Some (''Intent '' @ the iid @ '' not found''), gr_apid = None\<rparr>, s1)
                 | Some intent \<Rightarrow> intent_gate E agentId role a iid rep intent s1)"

subsection \<open>What the stages leave alone\<close>

text \<open>The receipts and the registered invariants, as one relation between states.\<close>

definition gov_same :: "'a gov_st_scheme \<Rightarrow> 'a gov_st_scheme \<Rightarrow> bool" where
  "gov_same s t \<longleftrightarrow> gov_ledger t = gov_ledger s \<and> gov_wal t = gov_wal s \<and> gov_loaded t = gov_loaded s \<and>
     gov_invariants t = gov_invariants s"

lemma gov_sameI [intro]:
  "gov_ledger t = gov_ledger s \<Longrightarrow> gov_wal t = gov_wal s \<Longrightarrow> gov_loaded t = gov_loaded s \<Longrightarrow>
   gov_invariants t = gov_invariants s \<Longrightarrow> gov_same s t"
  by (simp add: gov_same_def)

lemma gov_same_refl [simp]: "gov_same s s"
  by (simp add: gov_same_def)

lemma gov_same_trans [trans]: "gov_same s t \<Longrightarrow> gov_same t u \<Longrightarrow> gov_same s u"
  by (simp add: gov_same_def)

lemma gov_sameD: "gov_same s t \<Longrightarrow> receipts t = receipts s \<and> gov_invariants t = gov_invariants s"
  by (simp add: gov_same_def receipts_def ensureLoaded_def)

lemma gov_same_ops [simp]:
  "gov_same s (updateThreatLedger n r (s\<lparr>tick := k\<rparr>))"
  "gov_same s (snd (createBudget E ag i cl s))"
  "gov_same s (snd (consumeResource E k' un am t s))"
  "gov_same s (snd (transitionIntent E iid new s))"
  by (auto simp: createBudget_def consumeResource_def transitionIntent_def take_uuid_def take_now_def Let_def
      split: option.split)

lemma gov_same_advance [simp]: "gov_same s (snd (enforceILC E iid s))"
  by (simp add: enforceILC_def split: option.split)

lemma consume_kernel_frame [simp]:
  "intents (snd (consumeResource E k un am t s)) = intents s"
  "boundaries (snd (consumeResource E k un am t s)) = boundaries s"
  "intents (snd (createBudget E ag i cl s)) = intents s"
  "boundaries (snd (createBudget E ag i cl s)) = boundaries s"
  by (simp_all add: consumeResource_def createBudget_def take_uuid_def take_now_def Let_def split: option.split)

lemma threat_kernel_frame [simp]:
  "intents (updateThreatLedger n r s) = intents s" "boundaries (updateThreatLedger n r s) = boundaries s"
  "seeded (updateThreatLedger n r s) = seeded s"
  by (simp_all add: updateThreatLedger_def Let_def)

lemma validate_kernel_frame [simp]:
  "intents (snd (validateAction E a s)) = intents s" "boundaries (snd (validateAction E a s)) = boundaries s"
  "budgets (snd (validateAction E a s)) = budgets s" "consumptions (snd (validateAction E a s)) = consumptions s"
proof -
  obtain n vs where "snd (validateAction E a s) = s\<lparr>tick := n, gov_violations := gov_violations s @ vs\<rparr>"
    using validateAction_effect by blast
  then show "intents (snd (validateAction E a s)) = intents s" "boundaries (snd (validateAction E a s)) = boundaries s"
    "budgets (snd (validateAction E a s)) = budgets s" "consumptions (snd (validateAction E a s)) = consumptions s"
    by simp_all
qed

lemma emit_kernel_frame [simp]:
  "intents (snd (emitToLedger E au a b rn s)) = intents s" "budgets (snd (emitToLedger E au a b rn s)) = budgets s"
  "consumptions (snd (emitToLedger E au a b rn s)) = consumptions s"
  using emitToLedger_effect [of E au a b rn s] by auto

subsection \<open>The stages\<close>

lemma advance_gov_same [simp]: "gov_same s (advance_intent E iid a s)"
proof -
  have "gov_same s (snd (enforceILC E iid (snd (enforceILC E iid s))))"
    by (rule gov_same_trans [OF gov_same_advance gov_same_advance])
  then show ?thesis by (simp add: advance_intent_def Let_def)
qed

lemma advance_frame [simp]:
  "budgets (advance_intent E iid a s) = budgets s" "boundaries (advance_intent E iid a s) = boundaries s"
proof -
  have "budgets (snd (enforceILC E iid t)) = budgets t" "boundaries (snd (enforceILC E iid t)) = boundaries t"
    for t :: "'a kernel_st_scheme"
    by (auto simp: enforceILC_def split: option.split)
  then show "budgets (advance_intent E iid a s) = budgets s" "boundaries (advance_intent E iid a s) = boundaries s"
    by (simp_all add: advance_intent_def Let_def)
qed

text \<open>The status in which the gate leaves a registered intent when it gets that far.\<close>

definition gate_status :: "intent_status \<Rightarrow> action \<Rightarrow> intent_status" where
  "gate_status st a =
     (if st = Evidenced then if a_type a = ''edit'' \<or> a_type a = ''create'' then Executing else Authorized else st)"

lemma advance_status:
  assumes "js_get (intents s) iid = Some i" and "\<not> executable_status (i_status i)"
  shows "\<exists>j. js_get (intents (advance_intent E iid a s)) iid = Some j \<and> i_status j = gate_status (i_status i) a"
proof (cases "i_status i = Evidenced")
  case True
  let ?s1 = "snd (transitionIntent E iid Authorized s)"
  have e1: "snd (enforceILC E iid s) = ?s1" using assms(1) True by (simp add: enforceILC_def)
  have mv: "may_move Evidenced Authorized" "may_move Authorized Executing" by (simp_all add: may_move_def)
  from transition_moved [OF assms(1), of Authorized E] True mv obtain c where
    c: "js_get (intents ?s1) iid = Some (i\<lparr>i_status := Authorized, i_completed := c\<rparr>)" by auto
  let ?s2 = "snd (transitionIntent E iid Executing ?s1)"
  have e2: "snd (enforceILC E iid ?s1) = ?s2" using c by (simp add: enforceILC_def)
  from transition_moved [OF c, of Executing E] mv obtain d where
    "js_get (intents ?s2) iid = Some (i\<lparr>i_status := Executing, i_completed := d\<rparr>)" by auto
  with c e1 e2 True assms(1) show ?thesis by (auto simp: advance_intent_def gate_status_def Let_def)
next
  case False
  with assms show ?thesis by (auto simp: advance_intent_def gate_status_def Let_def executable_status_def)
qed

text \<open>What is left of an agent's calls: its open budget, or the default one of its role.\<close>

definition has_call :: "string \<Rightarrow> 'a acct_st_scheme \<Rightarrow> bool" where
  "has_call agentId s =
     (case getAgentBudget agentId s of
        None \<Rightarrow> True
      | Some b \<Rightarrow>
          case js_get (budgets s) (b_id b) of
            None \<Rightarrow> False
          | Some b' \<Rightarrow> \<not> less_amount (sub_inf (limit_of (b_limits b') ''calls'') (consumed_of b' ''calls'')) 1)"

lemma default_has_call:
  "\<not> less_amount (sub_inf (limit_of (default_limits k) ''calls'') 0) 1"
proof -
  have n: "js_sub (numeral m) 0 = numeral m" if "numeral m \<le> (2 ^ 53 :: nat)" for m
    using fl_nat [OF that] by (simp add: js_sub_def)
  have d: "\<forall>rl\<in>set DEFAULT_LIMITS. \<not> less_amount (sub_inf (limit_of (Limits (snd rl)) ''calls'') 0) 1"
    by (simp add: DEFAULT_LIMITS_def limit_of_def sub_inf_def less_amount_def n)
  show ?thesis
  proof (cases "map_of DEFAULT_LIMITS k")
    case None
    then show ?thesis by (simp add: default_limits_def limit_of_def sub_inf_def less_amount_def n)
  next
    case (Some ls)
    with d map_of_SomeD [OF Some] show ?thesis by (fastforce simp: default_limits_def)
  qed
qed

lemma consume_ok:
  "(\<exists>r. fst (consumeResource E k un am t s) = Consumed r) \<longleftrightarrow>
     (\<exists>b. js_get (budgets s) k = Some b \<and>
        \<not> less_amount (sub_inf (limit_of (b_limits b) un) (consumed_of b un)) am)"
  by (simp add: consumeResource_def take_uuid_def take_now_def Let_def split: option.split)

lemma consume_logs:
  assumes "fst (consumeResource E k un am t s) = Consumed r"
  shows "\<exists>c. consumptions (snd (consumeResource E k un am t s)) = consumptions s @ [c] \<and>
     u_approved c \<and> u_budget c = k \<and> u_unit c = un \<and> u_amount c = am \<and> u_task c = t"
proof -
  from assms consume_ok [of E k un am t s] obtain b where
    "js_get (budgets s) k = Some b" "\<not> less_amount (sub_inf (limit_of (b_limits b) un) (consumed_of b un)) am" by blast
  then show ?thesis by (simp add: consumeResource_def take_uuid_def take_now_def Let_def)
qed

lemma pay_call_ok: "(\<exists>r. fst (pay_call E ag iid a s) = Consumed r) \<longleftrightarrow> has_call ag s"
proof (cases "getAgentBudget ag s")
  case None
  let ?c = "createBudget E ag (Some iid) None s"
  from createBudget_effect [of E ag "Some iid" None s] obtain b where
    b: "fst ?c = b" "b_id b = uuid_at E (tick s)"
      "b_limits b = default_limits (takeWhile (\<lambda>c. c \<noteq> CHR ''-'') ag)" "b_consumed b = zero_consumed"
      "budgets (snd ?c) = js_set (uuid_at E (tick s)) b (budgets s)" by auto
  then have "js_get (budgets (snd ?c)) (b_id b) = Some b" by simp
  with b default_has_call have "\<exists>r. fst (consumeResource E (b_id b) ''calls'' 1 (a_type a) (snd ?c)) = Consumed r"
    by (simp add: consume_ok)
  moreover have "pay_call E ag iid a s = consumeResource E (b_id b) ''calls'' 1 (a_type a) (snd ?c)"
    using None b(1) by (simp add: pay_call_def case_prod_beta)
  ultimately show ?thesis using None by (simp add: has_call_def)
next
  case (Some b)
  then show ?thesis by (simp add: pay_call_def has_call_def consume_ok split: option.split)
qed

lemma pay_call_frame [simp]:
  "gov_same s (snd (pay_call E ag iid a s))" "intents (snd (pay_call E ag iid a s)) = intents s"
proof -
  have "gov_same s (snd (consumeResource E k ''calls'' 1 t (snd (createBudget E ag (Some iid) None s))))" for k t
    by (rule gov_same_trans [OF gov_same_ops(2) gov_same_ops(3)])
  then show "gov_same s (snd (pay_call E ag iid a s))" "intents (snd (pay_call E ag iid a s)) = intents s"
    by (simp_all add: pay_call_def case_prod_beta split: option.split)
qed

lemma pay_call_logs:
  assumes "fst (pay_call E ag iid a s) = Consumed r"
  shows "\<exists>c. consumptions (snd (pay_call E ag iid a s)) = consumptions s @ [c] \<and>
     u_approved c \<and> u_unit c = ''calls'' \<and> u_amount c = 1 \<and> u_task c = a_type a"
proof (cases "getAgentBudget ag s")
  case None
  let ?c = "createBudget E ag (Some iid) None s"
  have "pay_call E ag iid a s = consumeResource E (b_id (fst ?c)) ''calls'' 1 (a_type a) (snd ?c)"
    using None by (simp add: pay_call_def case_prod_beta)
  moreover have "consumptions (snd ?c) = consumptions s" using createBudget_effect [of E ag "Some iid" None s] by auto
  ultimately show ?thesis using assms consume_logs by metis
next
  case (Some b)
  then have "pay_call E ag iid a s = consumeResource E (b_id b) ''calls'' 1 (a_type a) s" by (simp add: pay_call_def)
  with assms consume_logs show ?thesis by metis
qed

text \<open>How a decision ends: one receipt more, and nothing else of the gate's state changes.\<close>

definition decides :: "action \<Rightarrow> govern_result \<times> 'a kernel_st_scheme \<Rightarrow> 'a kernel_st_scheme \<Rightarrow> bool" where
  "decides a out s \<longleftrightarrow>
     (\<exists>r. gr_receipt (fst out) = Some r \<and> receipts (snd out) = receipts s @ [r] \<and>
        gov_wal (snd out) = gov_wal s @ [Some r] \<and>
        g_action r = a \<and> g_blocked r = (if gr_approved (fst out) then None else Some True) \<and>
        g_reason r = gr_reason (fst out) \<and> (gr_reason (fst out) = None \<longleftrightarrow> gr_approved (fst out)))"

lemma refuse_effect:
  "\<not> gr_approved (fst (refuse E ag a (Some why) tr d p iid rp s))"
  "gr_reason (fst (refuse E ag a (Some why) tr d p iid rp s)) = Some why"
  "decides a (refuse E ag a (Some why) tr d p iid rp s) s"
  "intents (snd (refuse E ag a rn tr d p iid rp s)) = intents s"
  "consumptions (snd (refuse E ag a rn tr d p iid rp s)) = consumptions s"
  "budgets (snd (refuse E ag a rn tr d p iid rp s)) = budgets s"
  by (simp_all add: refuse_def decides_def case_prod_beta)

lemma approve_effect:
  assumes out: "validate_and_approve E ag role a iid rp s = out"
  shows "gr_approved (fst out) \<longleftrightarrow> fst (validateAction E a s) = VOk"
    and "decides a out s" and "intents (snd out) = intents s" and "consumptions (snd out) = consumptions s"
    and "budgets (snd out) = budgets s"
proof -
  obtain w t where v: "validateAction E a s = (w, t)" by fastforce
  have t: "receipts t = receipts s" "gov_wal t = gov_wal s" "intents t = intents s"
    "consumptions t = consumptions s" "budgets t = budgets s"
    using validateAction_frame [where E = E and a = a and s = s] validate_kernel_frame [of E a s] v by simp_all
  have "(gr_approved (fst out) \<longleftrightarrow> w = VOk) \<and> decides a out s \<and> intents (snd out) = intents s \<and>
      consumptions (snd out) = consumptions s \<and> budgets (snd out) = budgets s"
  proof (cases w)
    case VOk
    with v t out show ?thesis by (auto simp: validate_and_approve_def case_prod_beta decides_def Let_def)
  next
    case (VFail why x)
    with v out have "out = refuse E ag a (Some why) ''action-blocked-validation'' ''governance''
        [(''reason'', JStr why), (''violation'', JStr (vi_id x))] iid None t"
      by (simp add: validate_and_approve_def)
    with VFail t show ?thesis using refuse_effect by (metis decides_def verdict.distinct(1))
  qed
  with v show "gr_approved (fst out) \<longleftrightarrow> fst (validateAction E a s) = VOk" and "decides a out s"
    and "intents (snd out) = intents s" and "consumptions (snd out) = consumptions s"
    and "budgets (snd out) = budgets s" by simp_all
qed

subsection \<open>The decision\<close>

definition ready :: "sysenv \<Rightarrow> 'a kernel_st_scheme \<Rightarrow> 'a kernel_st_scheme" where
  "ready E s = (if seeded s then s else seedKernel E s)"

definition in_boundary :: "string \<Rightarrow> action \<Rightarrow> 'a kernel_st_scheme \<Rightarrow> bool" where
  "in_boundary role a s \<longleftrightarrow> (\<exists>b. js_get (boundaries s) role = Some b \<and> a_type a \<in> set (bd_allowed b))"

definition may_execute :: "string \<Rightarrow> 'a kernel_st_scheme \<Rightarrow> bool" where
  "may_execute iid s \<longleftrightarrow>
     (\<exists>i. js_get (intents s) iid = Some i \<and> (i_status i = Evidenced \<or> executable_status (i_status i)))"

definition validates :: "action \<Rightarrow> 'a gov_st_scheme \<Rightarrow> bool" where
  "validates a s \<longleftrightarrow>
     (\<forall>iv\<in>set (gov_invariants s). serious (iv_severity iv) \<longrightarrow> iv_check iv (buildState a)) \<and>
     gov_invariants s \<noteq> [] \<and> a_type a \<noteq> [] \<and> has_evidence a"

definition clean :: "action \<Rightarrow> bool" where
  "clean a \<longleftrightarrow> disposition_spec (detect_all (action_text a) a) = PASS"

lemma boundary_None: "checkActionAgainstBoundary role (a_type a) s = None \<longleftrightarrow> in_boundary role a s"
  by (auto simp: checkActionAgainstBoundary_def in_boundary_def split: option.splits)

lemma gov_same_receipts:
  "gov_same s t \<Longrightarrow> decides a out t \<Longrightarrow> decides a out s"
proof -
  assume g: "gov_same s t" and d: "decides a out t"
  from g have "receipts t = receipts s" by (rule gov_sameD [THEN conjunct1])
  moreover from g have "gov_wal t = gov_wal s" by (simp add: gov_same_def)
  ultimately show "decides a out s" using d unfolding decides_def by simp
qed

lemma refused_ends:
  assumes "\<exists>tr d p rp. out = refuse E ag a (Some why) tr d p iid rp t" and "gov_same s t"
  shows "decides a out s \<and> \<not> gr_approved (fst out) \<and> intents (snd out) = intents t"
proof -
  from assms(1) obtain tr d p rp where o: "out = refuse E ag a (Some why) tr d p iid rp t" by blast
  have "decides a out t" unfolding o by (rule refuse_effect(3))
  with assms(2) have "decides a out s" by (rule gov_same_receipts)
  then show ?thesis unfolding o by (simp add: refuse_effect)
qed

lemma validates_same: "gov_same s t \<Longrightarrow> validates a t = validates a s"
  by (simp add: validates_def gov_same_def)

lemma approve_validates:
  "validate_and_approve E ag role a iid rp s = out \<Longrightarrow> gr_approved (fst out) = validates a s"
  using approve_effect(1) validateAction_ok by (metis validates_def)

lemma ready_apid:
  "\<exists>ap s1. apidMiddleware E ag a (ready E s) = (ap, s1) \<and> (ar_allowed ap = clean a) \<and>
     (\<not> clean a \<longrightarrow> ar_reason ap \<noteq> None) \<and> gov_same (ready E s) s1 \<and> intents s1 = intents (ready E s) \<and>
     boundaries s1 = boundaries (ready E s) \<and> budgets s1 = budgets (ready E s) \<and>
     consumptions s1 = consumptions (ready E s) \<and> csr_ledger s1 = csr_ledger (ready E s)"
proof -
  obtain r where "apidMiddleware E ag a (ready E s) =
      (\<lparr>ar_allowed = (r_disposition r = PASS), ar_report = r,
        ar_reason = (if r_disposition r = PASS then None else Some (apid_reason r))\<rparr>,
       updateThreatLedger ag r ((ready E s)\<lparr>tick := tick (ready E s) + 2\<rparr>))"
    "r_disposition r = disposition_spec (detect_all (action_text a) a)"
    using apidMiddleware_effect [of E ag a "ready E s"] by blast
  then show ?thesis by (intro exI conjI) (assumption | simp add: clean_def)+
qed

lemma has_call_cong: "budgets t = budgets s \<Longrightarrow> has_call ag t = has_call ag s"
  by (simp add: has_call_def getAgentBudget_def cong: option.case_cong)

lemma intent_gate_effect:
  assumes i: "js_get (intents s) (the iid) = Some i" and g: "intent_gate E ag role a iid rp i s = out"
  shows "decides a out s"
    and "gr_approved (fst out) \<longleftrightarrow> may_execute (the iid) s \<and> has_call ag s \<and> validates a s"
    and "gr_approved (fst out) \<Longrightarrow>
      (\<exists>j. js_get (intents (snd out)) (the iid) = Some j \<and> executable_status (i_status j)) \<and>
      (\<exists>c. consumptions (snd out) = consumptions s @ [c] \<and> u_approved c \<and> u_unit c = ''calls'' \<and>
         u_amount c = 1 \<and> u_task c = a_type a)"
    and "\<exists>j. js_get (intents (snd out)) (the iid) = Some j \<and> i_status j = gate_status (i_status i) a"
proof -
  define s2 where "s2 = (if executable_status (i_status i) then s else advance_intent E (the iid) a s)"
  have gs: "gov_same s s2" and bud: "budgets s2 = budgets s" by (simp_all add: s2_def)
  have con: "consumptions s2 = consumptions s"
  proof -
    have "consumptions (snd (enforceILC E k t)) = consumptions t" for k and t :: "'a kernel_st_scheme"
      by (auto simp: enforceILC_def transitionIntent_def take_now_def Let_def split: option.split)
    then show ?thesis by (simp add: s2_def advance_intent_def Let_def)
  qed
  obtain j where j: "js_get (intents s2) (the iid) = Some j" "i_status j = gate_status (i_status i) a"
    and ex: "executable_status (i_status j) \<longleftrightarrow> may_execute (the iid) s"
  proof (cases "executable_status (i_status i)")
    case True
    with i that show ?thesis by (auto simp: s2_def may_execute_def gate_status_def executable_status_def)
  next
    case False
    from advance_status [OF i False, of E a] obtain j where
      "js_get (intents (advance_intent E (the iid) a s)) (the iid) = Some j"
      "i_status j = gate_status (i_status i) a" by blast
    with i False that [of j] show ?thesis by (auto simp: s2_def may_execute_def executable_status_def gate_status_def)
  qed
  have "decides a out s \<and> (gr_approved (fst out) \<longleftrightarrow> may_execute (the iid) s \<and> has_call ag s \<and> validates a s) \<and>
    (gr_approved (fst out) \<longrightarrow>
      (\<exists>j. js_get (intents (snd out)) (the iid) = Some j \<and> executable_status (i_status j)) \<and>
      (\<exists>c. consumptions (snd out) = consumptions s @ [c] \<and> u_approved c \<and> u_unit c = ''calls'' \<and>
         u_amount c = 1 \<and> u_task c = a_type a)) \<and> intents (snd out) = intents s2"
  proof (cases "may_execute (the iid) s")
    case False
    with ex j g have "\<exists>why. \<exists>tr d p rp. out = refuse E ag a (Some why) tr d p iid rp s2"
      unfolding intent_gate_def s2_def [symmetric] Let_def by (simp, blast)
    then obtain why where "\<exists>tr d p rp. out = refuse E ag a (Some why) tr d p iid rp s2" by blast
    from refused_ends [OF this gs] False show ?thesis by auto
  next
    case True
    obtain w s3 where p: "pay_call E ag (the iid) a s2 = (w, s3)" by fastforce
    have s3: "gov_same s s3" "intents s3 = intents s2"
      using gov_same_trans [OF gs] pay_call_frame [where E=E and ag=ag and iid="the iid" and a=a and s=s2] p by auto
    show ?thesis
    proof (cases w)
      case (Refused x why)
      with True ex j g p have "\<exists>tr d p rp. out = refuse E ag a (Some why) tr d p iid rp s3"
        unfolding intent_gate_def s2_def [symmetric] Let_def by (simp, blast)
      note r = refused_ends [OF this s3(1)]
      have "\<not> has_call ag s"
        using pay_call_ok [of E ag "the iid" a s2] has_call_cong [OF bud] p Refused by simp
      with r s3(2) show ?thesis by auto
    next
      case (Consumed x)
      with True ex j g p have o: "validate_and_approve E ag role a iid rp s3 = out"
        unfolding intent_gate_def s2_def [symmetric] Let_def by auto
      have h: "has_call ag s"
        using pay_call_ok [of E ag "the iid" a s2] has_call_cong [OF bud] p Consumed by auto
      from pay_call_logs [of E ag "the iid" a s2 x] p Consumed con obtain c where
        "consumptions s3 = consumptions s @ [c] \<and> u_approved c \<and> u_unit c = ''calls'' \<and> u_amount c = 1 \<and> u_task c = a_type a"
        by auto
      moreover from approve_effect(2) [OF o] have "decides a out s" by (rule gov_same_receipts [OF s3(1)])
      ultimately show ?thesis
        using approve_effect(3,4) [OF o] approve_validates [OF o] validates_same [OF s3(1)] h True s3(2) j ex by auto
    qed
  qed
  then show "decides a out s"
    and "gr_approved (fst out) \<longleftrightarrow> may_execute (the iid) s \<and> has_call ag s \<and> validates a s"
    and "gr_approved (fst out) \<Longrightarrow>
      (\<exists>j. js_get (intents (snd out)) (the iid) = Some j \<and> executable_status (i_status j)) \<and>
      (\<exists>c. consumptions (snd out) = consumptions s @ [c] \<and> u_approved c \<and> u_unit c = ''calls'' \<and>
         u_amount c = 1 \<and> u_task c = a_type a)"
    and "\<exists>j. js_get (intents (snd out)) (the iid) = Some j \<and> i_status j = gate_status (i_status i) a"
    using j by auto
qed

text \<open>The whole gate, over the state after the start-up.\<close>

lemma govern_effect:
  assumes g: "kernelGovernAction E ag role a iid s = out"
  shows "gr_approved (fst out) \<longleftrightarrow>
       clean a \<and> in_boundary role a (ready E s) \<and>
       (nonempty iid \<longrightarrow> may_execute (the iid) (ready E s) \<and> has_call ag (ready E s)) \<and> validates a (ready E s)"
    and "if clean a \<and> in_boundary role a (ready E s) \<and> nonempty iid \<and> js_get (intents (ready E s)) (the iid) = None
       then gr_receipt (fst out) = None \<and> receipts (snd out) = receipts (ready E s) \<and>
         csr_ledger (snd out) = csr_ledger (ready E s)
       else decides a out (ready E s)"
    and "gr_approved (fst out) \<Longrightarrow> nonempty iid \<Longrightarrow>
      (\<exists>j. js_get (intents (snd out)) (the iid) = Some j \<and> executable_status (i_status j)) \<and>
      (\<exists>c. consumptions (snd out) = consumptions (ready E s) @ [c] \<and> u_approved c \<and> u_unit c = ''calls'' \<and>
         u_amount c = 1 \<and> u_task c = a_type a)"
    and "js_get (intents (ready E s)) (the iid) = Some i \<and> nonempty iid \<longrightarrow>
      (\<exists>j. js_get (intents (snd out)) (the iid) = Some j \<and>
         (i_status j = i_status i \<or> i_status j = gate_status (i_status i) a) \<and>
         (gr_approved (fst out) \<longrightarrow> i_status j = gate_status (i_status i) a))"
proof -
  let ?s = "ready E s"
  obtain ap s1 where ap: "apidMiddleware E ag a ?s = (ap, s1)" "ar_allowed ap = clean a"
      "\<not> clean a \<Longrightarrow> ar_reason ap \<noteq> None" and gs: "gov_same ?s s1"
    and fr: "intents s1 = intents ?s" "boundaries s1 = boundaries ?s" "budgets s1 = budgets ?s"
      "consumptions s1 = consumptions ?s" "csr_ledger s1 = csr_ledger ?s"
    using ready_apid by metis
  have hc: "has_call ag s1 = has_call ag ?s" by (rule has_call_cong [OF fr(3)])
  have me: "may_execute i s1 = may_execute i ?s" for i using fr(1) by (simp add: may_execute_def)
  have ib: "in_boundary role a s1 = in_boundary role a ?s" using fr(2) by (simp add: in_boundary_def)
  have unf: "kernelGovernAction E ag role a iid s =
      (if \<not> clean a then
         refuse E ag a (ar_reason ap) ''action-blocked-apid'' ''governance''
           [(''agentId'', JStr ag), (''agentRole'', JStr role), (''actionType'', JStr (a_type a)),
            (''apidDisposition'', JStr (disposition_name (r_disposition (ar_report ap)))),
            (''threatClass'', jstrs (map class_name (r_classes (ar_report ap))))] iid (Some (ar_report ap)) s1
       else case checkActionAgainstBoundary role (a_type a) s1 of
         Some why \<Rightarrow>
           refuse E ag a (Some why) ''action-blocked-boundary'' ''governance''
             [(''agentId'', JStr ag), (''agentRole'', JStr role), (''actionType'', JStr (a_type a)),
              (''reason'', JStr why)] iid None s1
       | None \<Rightarrow>
           if \<not> nonempty iid then validate_and_approve E ag role a iid (ar_report ap) s1
           else case js_get (intents s1) (the iid) of
             None \<Rightarrow> (\<lparr>gr_approved = False, gr_receipt = None,
                       gr_reason = Some (''Intent '' @ the iid @ '' not found''), gr_apid = None\<rparr>, s1)
           | Some i \<Rightarrow> intent_gate E ag role a iid (ar_report ap) i s1)"
    using ap(1,2) unfolding kernelGovernAction_def ready_def [symmetric] Let_def by simp
  have main: "(gr_approved (fst out) \<longleftrightarrow>
       clean a \<and> in_boundary role a ?s \<and> (nonempty iid \<longrightarrow> may_execute (the iid) ?s \<and> has_call ag ?s) \<and> validates a ?s) \<and>
     (if clean a \<and> in_boundary role a ?s \<and> nonempty iid \<and> js_get (intents ?s) (the iid) = None
       then gr_receipt (fst out) = None \<and> receipts (snd out) = receipts ?s \<and> csr_ledger (snd out) = csr_ledger ?s
       else decides a out ?s) \<and>
     (gr_approved (fst out) \<longrightarrow> nonempty iid \<longrightarrow>
      (\<exists>j. js_get (intents (snd out)) (the iid) = Some j \<and> executable_status (i_status j)) \<and>
      (\<exists>c. consumptions (snd out) = consumptions ?s @ [c] \<and> u_approved c \<and> u_unit c = ''calls'' \<and>
         u_amount c = 1 \<and> u_task c = a_type a)) \<and>
     (js_get (intents (ready E s)) (the iid) = Some i \<and> nonempty iid \<longrightarrow>
      (\<exists>j. js_get (intents (snd out)) (the iid) = Some j \<and>
         (i_status j = i_status i \<or> i_status j = gate_status (i_status i) a) \<and>
         (gr_approved (fst out) \<longrightarrow> i_status j = gate_status (i_status i) a)))"
  proof (cases "clean a \<and> in_boundary role a ?s")
    case False
    then have "\<exists>why tr d p rp. out = refuse E ag a (Some why) tr d p iid rp s1"
      using g ap(3) ib boundary_None [of role a s1] unfolding unf
      by (cases "clean a"; cases "checkActionAgainstBoundary role (a_type a) s1") (auto, blast+)
    then obtain why where "\<exists>tr d p rp. out = refuse E ag a (Some why) tr d p iid rp s1" by blast
    from refused_ends [OF this gs] fr(1) False show ?thesis by auto
  next
    case True
    then have go: "checkActionAgainstBoundary role (a_type a) s1 = None" using ib boundary_None by metis
    show ?thesis
    proof (cases "nonempty iid")
      case False
      with g True go have "validate_and_approve E ag role a iid (ar_report ap) s1 = out" unfolding unf by simp
      note o = approve_effect(2) [OF this] approve_validates [OF this]
      from o(1) have "decides a out ?s" by (rule gov_same_receipts [OF gs])
      with o(2) show ?thesis using True False validates_same [OF gs] by simp
    next
      case ne: True
      show ?thesis
      proof (cases "js_get (intents s1) (the iid)")
        case None
        have "receipts s1 = receipts ?s" using gov_sameD [OF gs] by simp
        with None g True go ne fr show ?thesis unfolding unf by (auto simp: may_execute_def)
      next
        case (Some i)
        with g True go ne have "intent_gate E ag role a iid (ar_report ap) i s1 = out" unfolding unf by simp
        note e = intent_gate_effect [OF Some this]
        from e(1) have "decides a out ?s" by (rule gov_same_receipts [OF gs])
        with e(2,3,4) show ?thesis using True ne Some fr hc me validates_same [OF gs] by auto
      qed
    qed
  qed
  show "gr_approved (fst out) \<longleftrightarrow>
       clean a \<and> in_boundary role a ?s \<and> (nonempty iid \<longrightarrow> may_execute (the iid) ?s \<and> has_call ag ?s) \<and> validates a ?s"
    using main by (rule conjunct1)
  show "if clean a \<and> in_boundary role a ?s \<and> nonempty iid \<and> js_get (intents ?s) (the iid) = None
       then gr_receipt (fst out) = None \<and> receipts (snd out) = receipts ?s \<and> csr_ledger (snd out) = csr_ledger ?s
       else decides a out ?s" using main by (rule conjunct2 [THEN conjunct1])
  show "gr_approved (fst out) \<Longrightarrow> nonempty iid \<Longrightarrow>
      (\<exists>j. js_get (intents (snd out)) (the iid) = Some j \<and> executable_status (i_status j)) \<and>
      (\<exists>c. consumptions (snd out) = consumptions ?s @ [c] \<and> u_approved c \<and> u_unit c = ''calls'' \<and>
         u_amount c = 1 \<and> u_task c = a_type a)" using main by blast
  show "js_get (intents (ready E s)) (the iid) = Some i \<and> nonempty iid \<longrightarrow>
      (\<exists>j. js_get (intents (snd out)) (the iid) = Some j \<and>
         (i_status j = i_status i \<or> i_status j = gate_status (i_status i) a) \<and>
         (gr_approved (fst out) \<longrightarrow> i_status j = gate_status (i_status i) a))"
    using main by blast
qed

subsection \<open>Properties\<close>

text \<open>A builder with one registered intent that has evidence.\<close>

definition demo_governed :: "intent_status \<Rightarrow> kernel_st" where
  "demo_governed st = init_kernel\<lparr>seeded := True, gov_invariants := SOVEREIGN_X_INVARIANTS,
     boundaries := [(''builder'', \<lparr>bd_role = ''builder'', bd_allowed = [''generate'', ''edit''], bd_restricted = [],
       bd_maxConcurrency = 2, bd_requiresEvidence = True, bd_requiresAuthority = False\<rparr>)],
     intents := [(''i'', \<lparr>i_id = ''i'', i_goal = ''g'', i_status = st, i_evidence = [''e''], i_authority = None,
       i_execution = None, i_validation = None, i_time = 0, i_completed = None, i_revertible = True\<rparr>)]\<rparr>"

lemma demo_action_clean: "clean demo_action"
  unfolding clean_def by code_simp

lemma demo_governed_ready [simp]: "ready E (demo_governed st) = demo_governed st"
  by (simp add: ready_def demo_governed_def)

lemma demo_gates:
  "in_boundary ''builder'' demo_action (demo_governed st)" "validates demo_action (demo_governed st)"
  "may_execute ''i'' (demo_governed st) \<longleftrightarrow> st = Evidenced \<or> executable_status st"
  "has_call ag (demo_governed st)"
  by (simp_all add: demo_governed_def in_boundary_def validates_def may_execute_def has_call_def demo_action_def
      getAgentBudget_def js_values_def init_kernel_def SOVEREIGN_X_INVARIANTS_def always_ok_def ModelSelectionPolicy_def
      buildState_def has_evidence_def nonempty_def jget_str_def)

text \<open>C9. The governed action is approved exactly when all of these hold of the state after
  start-up: none of the threat detectors but the shadow-instruction one fires on the action's
  text, the agent's role has a boundary that lists the action type, the named intent (when one
  is named) is registered and evidenced, authorized, executing or validating, the agent has a
  call left in its budget or has no budget yet, and the action passes validation. Nothing else
  decides: not the domains a boundary restricts, and not the evidence or authority it requires.\<close>

theorem governed_action_decision:
  "gr_approved (fst (kernelGovernAction E ag role a iid s)) \<longleftrightarrow>
     clean a \<and> in_boundary role a (ready E s) \<and>
     (nonempty iid \<longrightarrow> may_execute (the iid) (ready E s) \<and> has_call ag (ready E s)) \<and>
     validates a (ready E s)"
  by (rule govern_effect(1)) (rule refl)

theorem governed_action_witness:
  "gr_approved (fst (kernelGovernAction demo_env ''b'' ''builder'' demo_action (Some ''i'') (demo_governed Evidenced))) \<and>
   \<not> gr_approved (fst (kernelGovernAction demo_env ''b'' ''builder'' demo_action (Some ''i'') (demo_governed Proposed)))"
  using governed_action_decision [of demo_env "''b''" "''builder''" demo_action "Some ''i''" "demo_governed Evidenced"]
    governed_action_decision [of demo_env "''b''" "''builder''" demo_action "Some ''i''" "demo_governed Proposed"]
  by (simp add: demo_action_clean demo_gates nonempty_def executable_status_def)

text \<open>C10. Every decision leaves exactly one receipt of that action, in memory and in the log file:
  a blocked one with the reason that is returned, or an unblocked one when the action is
  approved. The one exception is an action for an intent that is not registered: it is refused
  with neither a receipt nor a record. An approval for an intent leaves the intent executable
  and one approved consumption of one call.\<close>

theorem decision_leaves_receipt:
  fixes s :: "'a kernel_st_scheme"
  assumes "kernelGovernAction E ag role a iid s = (res, s')"
  shows "(if clean a \<and> in_boundary role a (ready E s) \<and> nonempty iid \<and> js_get (intents (ready E s)) (the iid) = None
     then \<not> gr_approved res \<and> gr_receipt res = None \<and> receipts s' = receipts (ready E s) \<and>
       csr_ledger s' = csr_ledger (ready E s)
     else \<exists>r. gr_receipt res = Some r \<and> receipts s' = receipts (ready E s) @ [r] \<and>
       gov_wal s' = gov_wal (ready E s) @ [Some r] \<and> g_action r = a \<and>
       g_blocked r = (if gr_approved res then None else Some True) \<and> g_reason r = gr_reason res \<and>
       (gr_reason res = None \<longleftrightarrow> gr_approved res)) \<and>
     (gr_approved res \<and> nonempty iid \<longrightarrow>
     (\<exists>j. js_get (intents s') (the iid) = Some j \<and> executable_status (i_status j)) \<and>
     (\<exists>c. consumptions s' = consumptions (ready E s) @ [c] \<and> u_approved c \<and> u_unit c = ''calls'' \<and>
        u_amount c = 1 \<and> u_task c = a_type a))"
  using govern_effect [OF assms] by (auto simp: decides_def may_execute_def split: if_splits)

theorem decision_receipt_witness:
  "gr_receipt (fst (kernelGovernAction demo_env ''b'' ''builder'' demo_action (Some ''i'') (demo_governed Evidenced))) \<noteq> None \<and>
   (\<exists>j. js_get (intents (snd (kernelGovernAction demo_env ''b'' ''builder'' demo_action (Some ''i'') (demo_governed Evidenced)))) ''i'' = Some j \<and>
      executable_status (i_status j)) \<and>
   gr_receipt (fst (kernelGovernAction demo_env ''b'' ''builder'' demo_action (Some ''j'') (demo_governed Evidenced))) = None"
proof -
  let ?r = "\<lambda>i. kernelGovernAction demo_env ''b'' ''builder'' demo_action (Some i) (demo_governed Evidenced)"
  have g: "js_get (intents (demo_governed Evidenced)) ''i'' \<noteq> None" "js_get (intents (demo_governed Evidenced)) ''j'' = None"
    by (simp_all add: demo_governed_def)
  have p: "gr_approved (fst (?r ''i''))"
    by (simp add: govern_effect(1) [OF refl] demo_action_clean demo_gates)
  show ?thesis
    using decision_leaves_receipt [OF surjective_pairing, where E = demo_env and ag = "''b''" and role = "''builder''" and
        a = demo_action and iid = "Some ''i''" and s = "demo_governed Evidenced"]
      decision_leaves_receipt [OF surjective_pairing, where E = demo_env and ag = "''b''" and role = "''builder''" and
        a = demo_action and iid = "Some ''j''" and s = "demo_governed Evidenced"]
      p g by (auto simp: demo_action_clean demo_gates nonempty_def)
qed

end
