(* ===== verification/KernelRuns.thy ===== *)
theory KernelRuns
  imports Govern
begin

text \<open>
  Runs of the whole kernel: every exported operation of \<open>agent/sovereign-x/kernel.ts\<close> that
  changes its state, in any order, from the start of a process whose log file may hold anything.
  The invariant speaks of one intent: the ways past the proposed stage without evidence are a
  direct \<open>transitionIntent\<close>, and records that \<open>seedKernel\<close> replays from a log or a merged fork.
\<close>

subsection \<open>Operations that leave the lifecycles alone\<close>


definition quiet :: "'a kernel_st_scheme \<Rightarrow> 'a kernel_st_scheme \<Rightarrow> bool" where
  "quiet s t \<longleftrightarrow> intents t = intents s \<and> evidences t = evidences s \<and> tick s \<le> tick t \<and>
     (\<exists>rs. wal t = wal s @ rs \<and> (\<forall>r\<in>set rs. intent_target (c_trans r) = None))"



lemma quiet_then [trans]: "quiet s t \<Longrightarrow> quiet t u \<Longrightarrow> quiet s u"
  by (fastforce simp: quiet_def)

lemma intent_target_None: "\<not> starts_with t ''intent-'' \<Longrightarrow> intent_target t = None"
  by (simp add: intent_target_def)

lemma quiet_writes: "quiet s t \<Longrightarrow> \<not> starts_with tr ''intent-'' \<Longrightarrow> quiet s (log_csr E tr d p i a t)"
  by (auto simp: quiet_def log_csr_update intent_target_None)


lemma quiet_account [intro]:
  "quiet s t \<Longrightarrow> quiet s (snd (createBudget E ag i cl t))"
  "quiet s t \<Longrightarrow> quiet s (snd (consumeResource E k un am w t))"
  by (auto simp: createBudget_def consumeResource_def take_uuid_def take_now_def Let_def starts_with_def
      intro!: quiet_writes split: option.split) (auto simp: quiet_def)







subsection \<open>The invariant of one intent\<close>

















subsection \<open>The governed action\<close>




subsection \<open>Runs\<close>








subsection \<open>Properties\<close>



end
