(* ===== verification/Session.thy ===== *)
theory Session
  imports Govern
begin

text \<open>
  The bridge between the kernel and the multi-agent workflow
  (\<open>agent/sovereign-x/cmas-integration.ts\<close>): the role boundaries it registers, sessions, governed
  actions inside a session, stage transitions and their status. Of a workflow the bridge reads
  the identifier and the goal. A session names its intent; the object the registry holds is the
  same one, so its status is read there. Stage names that JavaScript objects inherit
  (\<open>constructor\<close> and the like) are taken care of where they are only tested
  (\<open>governAction\<close>); \<open>stageTransition\<close> is modelled for other stage names.
\<close>

record session =
  sx_workflow :: string
  sx_goal :: string
  sx_intent :: string
  sx_receipts :: "receipt list"
  sx_started :: time

abbreviation BRIDGE :: string where
  "BRIDGE \<equiv> ''sxos-cmas-bridge''"

definition role_boundary :: "string \<Rightarrow> string list \<Rightarrow> string list \<Rightarrow> nat \<Rightarrow> bool \<Rightarrow> boundary" where
  "role_boundary role allowed restricted n au =
     \<lparr>bd_role = role, bd_allowed = allowed, bd_restricted = restricted, bd_maxConcurrency = n,
      bd_requiresEvidence = True, bd_requiresAuthority = au\<rparr>"

definition ROLE_BOUNDARIES :: "boundary list" where
  "ROLE_BOUNDARIES =
     [role_boundary ''architect'' [''plan'', ''generate''] [''architecture'', ''design'', ''constitution''] 1 True,
      role_boundary ''builder'' [''generate'', ''edit'', ''create''] [''substrate'', ''scaffold'', ''blueprint''] 2 False,
      role_boundary ''implementor'' [''generate'', ''edit'', ''create'', ''refactor'']
        [''implementation'', ''code'', ''testing''] 3 False,
      role_boundary ''validator'' [''run'', ''plan''] [''validation'', ''governance'', ''evidence''] 2 True,
      role_boundary ''reviewer'' [''plan''] [''review'', ''governance'', ''drift''] 1 True]"

definition initializeSXOS :: "sysenv \<Rightarrow> 'a kernel_st_scheme \<Rightarrow> 'a kernel_st_scheme" where
  "initializeSXOS E s =
     (if seeded s then s
      else let s1 = fold (registerBoundary E) ROLE_BOUNDARIES (seedKernel E s)
           in log_csr E ''sxos-initialized'' ''constitution''
                [(''roles'', jstrs (map bd_role ROLE_BOUNDARIES)), (''keyFingerprint'', JStr (fingerprint E))]
                None BRIDGE s1)"

definition openSession :: "sysenv \<Rightarrow> string \<Rightarrow> string \<Rightarrow> 'a kernel_st_scheme \<Rightarrow> session \<times> 'a kernel_st_scheme" where
  "openSession E wid goal s =
     (let (i, s1) = createIntent E goal s;
          s2 = log_csr E ''sxos-session-opened'' ''workflow''
                 [(''workflowId'', JStr wid), (''intentId'', JStr (i_id i)), (''goal'', JStr goal)]
                 (Some (i_id i)) BRIDGE s1;
          (t, s3) = take_now E s2
      in (\<lparr>sx_workflow = wid, sx_goal = goal, sx_intent = i_id i, sx_receipts = [], sx_started = t\<rparr>, s3))"

definition TRANSITION_MAP :: "(string \<times> intent_status) list" where
  "TRANSITION_MAP = [(''architect-done'', Evidenced), (''builder-done'', Authorized),
     (''implementor-done'', Executing), (''validator-done'', Validating), (''reviewer-done'', Completed)]"

text \<open>Whether \<open>transitionMap[stage]\<close> is truthy.\<close>

definition is_stage :: "string \<Rightarrow> bool" where
  "is_stage stage \<longleftrightarrow> map_of TRANSITION_MAP stage \<noteq> None \<or> stage \<in> set OBJECT_FUNCTIONS \<or> stage = ''__proto__''"

record session_result =
  sr_approved :: bool
  sr_receipt :: "receipt option"
  sr_reason :: "string option"

definition governAction ::
    "sysenv \<Rightarrow> session \<Rightarrow> string \<Rightarrow> string \<Rightarrow> action \<Rightarrow> string \<Rightarrow> 'a kernel_st_scheme \<Rightarrow>
     session_result \<times> session \<times> 'a kernel_st_scheme" where
  "governAction E sess agentId agentRole a stage s =
     (let (res, s1) = kernelGovernAction E agentId agentRole a (Some (sx_intent sess)) s;
          s2 = (if gr_approved res \<and> is_stage stage then snd (enforceILC E (sx_intent sess) s1) else s1);
          sess' = (case gr_receipt res of
                     Some r \<Rightarrow> sess\<lparr>sx_receipts := sx_receipts sess @ [r]\<rparr>
                   | None \<Rightarrow> sess)
      in (\<lparr>sr_approved = gr_approved res, sr_receipt = gr_receipt res, sr_reason = gr_reason res\<rparr>, sess', s2))"

definition STAGE_STATUS :: "(string \<times> intent_status) list" where
  "STAGE_STATUS = TRANSITION_MAP @ [(''completed'', Completed), (''failed'', Rejected)]"

definition stageTransition :: "sysenv \<Rightarrow> session \<Rightarrow> string \<Rightarrow> 'a kernel_st_scheme \<Rightarrow> outcome \<times> 'a kernel_st_scheme" where
  "stageTransition E sess stage s =
     (case map_of STAGE_STATUS stage of
        None \<Rightarrow> (Err (''Unknown stage: '' @ stage), s)
      | Some target \<Rightarrow>
          let (res, s1) = transitionIntent E (sx_intent sess) target s
          in (res, if res = Ok
                   then log_csr E ''sxos-stage-transitioned'' ''workflow''
                          [(''workflowId'', JStr (sx_workflow sess)), (''intentId'', JStr (sx_intent sess)),
                           (''stage'', JStr stage), (''targetStatus'', JStr (status_name target))]
                          (Some (sx_intent sess)) BRIDGE s1
                   else s1))"

text \<open>The status is that of the registered intent; \<open>None\<close> when the registry was reset since, and
  the session alone still holds the object.\<close>

record session_status =
  st_workflow :: string
  st_intent :: string
  st_status :: "intent_status option"
  st_receipts :: nat
  st_integrity :: bool
  st_drift :: bool
  st_certificate :: lineage_cert

definition getSessionStatus :: "sysenv \<Rightarrow> session \<Rightarrow> 'a kernel_st_scheme \<Rightarrow> session_status \<times> 'a kernel_st_scheme" where
  "getSessionStatus E sess s =
     (let (ds, s1) = detectConstitutionalDrift E s; (cert, s2) = issueLineageCertificate E s1
      in (\<lparr>st_workflow = sx_workflow sess, st_intent = sx_intent sess,
           st_status = map_option i_status (getIntent (sx_intent sess) s), st_receipts = length (sx_receipts sess),
           st_integrity = (verifyCsrIntegrity E s2 = None), st_drift = (ds \<noteq> []), st_certificate = cert\<rparr>, s2))"

definition closeSession :: "sysenv \<Rightarrow> session \<Rightarrow> bool \<Rightarrow> 'a kernel_st_scheme \<Rightarrow> 'a kernel_st_scheme" where
  "closeSession E sess completed s =
     log_csr E ''sxos-session-closed'' ''workflow''
       [(''workflowId'', JStr (sx_workflow sess)), (''intentId'', JStr (sx_intent sess)),
        (''finalStatus'', JStr (if completed then ''completed'' else ''rejected'')),
        (''receiptCount'', jnat (length (sx_receipts sess)))] (Some (sx_intent sess)) BRIDGE
       (snd (stageTransition E sess (if completed then ''reviewer-done'' else ''failed'') s))"

subsection \<open>What a session does to its intent\<close>

datatype session_event =
    Govern string string action string
  | Stage string

type_synonym 'a session_state = "session \<times> 'a kernel_st_scheme"

primrec session_step :: "sysenv \<Rightarrow> session_event \<Rightarrow> 'a session_state \<Rightarrow> bool \<times> 'a session_state" where
  "session_step E (Govern ag role a stage) x =
     (let (res, x') = governAction E (fst x) ag role a stage (snd x) in (sr_approved res, x'))"
| "session_step E (Stage stage) x = (False, fst x, snd (stageTransition E (fst x) stage (snd x)))"

text \<open>A run of a session, with the answer to each event.\<close>

primrec session_run :: "sysenv \<Rightarrow> session_event list \<Rightarrow> 'a session_state \<Rightarrow> bool list \<times> 'a session_state" where
  "session_run E [] x = ([], x)"
| "session_run E (e # es) x =
     (let (b, y) = session_step E e x; (bs, z) = session_run E es y in (b # bs, z))"

primrec staged :: "session_event \<Rightarrow> bool" where
  "staged (Govern ag role a stage) = is_stage stage"
| "staged (Stage stage) = False"

lemma governAction_intent [simp]: "sx_intent (fst (snd (governAction E sess ag role a stage s))) = sx_intent sess"
  by (simp add: governAction_def case_prod_beta Let_def split: option.split)

lemma governAction_approved:
  "sr_approved (fst (governAction E sess ag role a stage s)) =
     gr_approved (fst (kernelGovernAction E ag role a (Some (sx_intent sess)) s))"
  by (simp add: governAction_def case_prod_beta Let_def)

lemma ready_keeps: "js_get (intents s) k = Some i \<Longrightarrow> js_get (intents (ready E s)) k = Some i"
  by (simp add: ready_def seedKernel_intents recover_keeps)

text \<open>A proposed intent stays proposed, and nothing is approved for it.\<close>

definition starved :: "'a session_state \<Rightarrow> bool" where
  "starved x \<longleftrightarrow> sx_intent (fst x) \<noteq> [] \<and>
     (\<exists>i. js_get (intents (snd x)) (sx_intent (fst x)) = Some i \<and> i_status i = Proposed)"

lemma starved_step:
  assumes "starved x"
  shows "\<not> fst (session_step E (Govern ag role a stage) x) \<and> starved (snd (session_step E (Govern ag role a stage) x))"
proof -
  obtain sess s where x: "x = (sess, s)" by fastforce
  let ?iid = "Some (sx_intent sess)"
  obtain out where g: "kernelGovernAction E ag role a ?iid s = out" by simp
  from assms x obtain i where i: "js_get (intents s) (sx_intent sess) = Some i" "i_status i = Proposed"
    and ne: "sx_intent sess \<noteq> []" by (auto simp: starved_def)
  note r = ready_keeps [OF i(1), of E]
  have na: "\<not> gr_approved (fst out)"
    using govern_effect(1) [OF g] r i(2) ne by (auto simp: may_execute_def executable_status_def nonempty_def)
  moreover obtain j where "js_get (intents (snd out)) (sx_intent sess) = Some j" "i_status j = Proposed"
    using govern_effect(4) [OF g, of i] r i(2) ne by (auto simp: nonempty_def gate_status_def)
  ultimately show ?thesis
    using g x ne by (auto simp: starved_def governAction_def case_prod_beta Let_def split: option.split)
qed

lemma starved_run:
  "starved x \<Longrightarrow> \<forall>e\<in>set es. \<exists>ag role a stage. e = Govern ag role a stage \<Longrightarrow>
   \<forall>b\<in>set (fst (session_run E es x)). \<not> b"
proof (induction es arbitrary: x)
  case (Cons e es)
  from Cons.prems(2) obtain ag role a stage where e: "e = Govern ag role a stage" by auto
  from starved_step [OF Cons.prems(1)] e have "\<not> fst (session_step E e x)" "starved (snd (session_step E e x))" by auto
  with Cons.IH [OF this(2)] Cons.prems(2) show ?case by (simp add: case_prod_beta Let_def)
qed simp

lemma openSession_starved:
  assumes "uuid_at E (tick s) \<noteq> []"
  shows "starved (openSession E wid goal s)"
proof -
  from createIntent_effect [of E goal s] obtain i where
    "fst (createIntent E goal s) = i" "i_id i = uuid_at E (tick s)" "i_status i = Proposed"
    "intents (snd (createIntent E goal s)) = js_set (uuid_at E (tick s)) i (intents s)" by auto
  with assms show ?thesis by (simp add: starved_def openSession_def take_now_def case_prod_beta Let_def)
qed

subsection \<open>How many stages a session can pass\<close>

text \<open>The stages an intent can still pass, by its status.\<close>

fun stages_left :: "intent_status option \<Rightarrow> nat" where
  "stages_left (Some Executing) = 2"
| "stages_left (Some Validating) = 1"
| "stages_left (Some Completed) = 0"
| "stages_left (Some Rejected) = 0"
| "stages_left (Some Reverted) = 0"
| "stages_left _ = 3"

definition left :: "'a session_state \<Rightarrow> nat" where
  "left x = stages_left (map_option i_status (js_get (intents (snd x)) (sx_intent (fst x))))"

lemma stages_left_le: "stages_left st \<le> 3"
  by (cases st rule: stages_left.cases) simp_all

lemma stages_left_gate: "stages_left (Some (gate_status st a)) \<le> stages_left (Some st)"
  by (simp add: gate_status_def)

lemma stages_left_move:
  "may_move old new \<Longrightarrow> new \<in> {Evidenced, Authorized, Executing, Validating, Completed, Rejected} \<Longrightarrow>
   stages_left (Some new) \<le> stages_left (Some old)"
  by (cases old) (auto simp: may_move_def)

lemma enforceILC_left:
  assumes "js_get (intents s) k = Some i" and "executable_status (i_status i)"
  shows "\<exists>j. js_get (intents (snd (enforceILC E k s))) k = Some j \<and>
    stages_left (Some (i_status j)) < stages_left (Some (i_status i)) \<and> stages_left (Some (i_status j)) < 3"
proof -
  from assms(2) obtain new where n: "ilc_next (i_status i) new" "i_status i \<noteq> Proposed"
    and l: "stages_left (Some new) < stages_left (Some (i_status i))" "stages_left (Some new) < 3"
    by (auto simp: executable_status_def)
  from enforceILC_advance [OF assms(1) n(1)] n(2) have
    e: "snd (enforceILC E k s) = snd (transitionIntent E k new s)" by blast
  with transition_moved [OF assms(1) ilc_next_may_move [OF n(1)], of E] l show ?thesis by auto
qed

lemma left_ready:
  assumes "sx_intent sess = k" and "js_get (intents (ready E s)) k = Some i"
  shows "stages_left (Some (i_status i)) \<le> left (sess, s)"
  using assms ready_keeps [of s k _ E] stages_left_le by (cases "js_get (intents s) k") (auto simp: left_def)

lemma govern_left:
  assumes "sx_intent sess \<noteq> []" and g: "governAction E sess ag role a stage s = (res, sess', s')"
  shows "left (sess', s') + (if sr_approved res \<and> is_stage stage then 1 else 0) \<le> left (sess, s)"
proof -
  let ?k = "sx_intent sess"
  obtain out where o: "kernelGovernAction E ag role a (Some ?k) s = out" by simp
  have ne: "nonempty (Some ?k)" "the (Some ?k) = ?k" using assms(1) by (simp_all add: nonempty_def)
  note ge = govern_effect [OF o, unfolded ne(2)]
  have k: "sx_intent sess' = ?k" using g governAction_intent [of E sess ag role a stage s] by simp
  have ap: "sr_approved res = gr_approved (fst out)" using g o governAction_approved [of E sess ag role a stage s] by simp
  have s': "s' = (if sr_approved res \<and> is_stage stage then snd (enforceILC E ?k (snd out)) else snd out)"
    using g o ap by (auto simp: governAction_def case_prod_beta Let_def)
  show ?thesis
  proof (cases "js_get (intents (ready E s)) ?k")
    case None
    then have "left (sess, s) = 3" using ready_keeps [of s ?k _ E] by (cases "js_get (intents s) ?k") (auto simp: left_def)
    moreover have "\<not> sr_approved res" using ap ge(1) None ne by (auto simp: may_execute_def)
    ultimately show ?thesis using stages_left_le by (simp add: left_def)
  next
    case (Some i)
    note li = left_ready [OF refl Some]
    from ge(4) Some ne obtain j where j: "js_get (intents (snd out)) ?k = Some j"
      "i_status j = i_status i \<or> i_status j = gate_status (i_status i) a" by blast
    then have lj: "stages_left (Some (i_status j)) \<le> stages_left (Some (i_status i))" using stages_left_gate by auto
    show ?thesis
    proof (cases "sr_approved res \<and> is_stage stage")
      case True
      with ge(3) ap ne j have "executable_status (i_status j)" by auto
      from enforceILC_left [OF j(1) this, of E] obtain j' where
        "js_get (intents s') ?k = Some j'" "stages_left (Some (i_status j')) < stages_left (Some (i_status j))"
        using s' True by auto
      with lj li k True show ?thesis by (simp add: left_def)
    next
      case False
      with j lj li k s' show ?thesis by (auto simp: left_def)
    qed
  qed
qed

lemma stage_left: "left (sess, snd (stageTransition E sess stage s)) \<le> left (sess, s)"
proof (cases "map_of STAGE_STATUS stage")
  case None
  then show ?thesis by (simp add: stageTransition_def)
next
  case (Some new)
  then have new: "new \<in> {Evidenced, Authorized, Executing, Validating, Completed, Rejected}"
    by (auto simp: STAGE_STATUS_def TRANSITION_MAP_def split: if_splits)
  let ?t = "snd (transitionIntent E (sx_intent sess) new s)"
  have "intents (snd (stageTransition E sess stage s)) = intents ?t"
    using Some by (simp add: stageTransition_def case_prod_beta Let_def)
  moreover have "left (sess, ?t) \<le> left (sess, s)"
  proof (cases "js_get (intents s) (sx_intent sess)")
    case None
    then show ?thesis using transition_refused [of s "sx_intent sess" new E] by simp
  next
    case (Some i)
    show ?thesis
    proof (cases "may_move (i_status i) new")
      case True
      from transition_moved [OF Some True, of E] Some stages_left_move [OF True new] show ?thesis
        by (auto simp: left_def)
    next
      case False
      with Some show ?thesis using transition_refused [of s "sx_intent sess" new E] by simp
    qed
  qed
  ultimately show ?thesis by (simp add: left_def)
qed

lemma session_step_left:
  assumes "sx_intent (fst x) \<noteq> []" and "session_step E e x = (b, y)"
  shows "left y + (if b \<and> staged e then 1 else 0) \<le> left x \<and> sx_intent (fst y) = sx_intent (fst x)"
proof (cases e)
  case (Govern ag role a stage)
  obtain res sess' s' where g: "governAction E (fst x) ag role a stage (snd x) = (res, sess', s')"
    by (metis prod_cases3)
  with Govern assms(2) have "b = sr_approved res" "y = (sess', s')" by (simp_all add: case_prod_beta)
  with govern_left [OF assms(1) g] governAction_intent [of E "fst x" ag role a stage "snd x"] g Govern
  show ?thesis by simp
next
  case (Stage stage)
  with assms(2) stage_left [of "fst x" E stage "snd x"] show ?thesis by auto
qed

text \<open>The staged actions a run got approved.\<close>

definition staged_approvals :: "session_event list \<Rightarrow> bool list \<Rightarrow> nat" where
  "staged_approvals es bs = length (filter (\<lambda>(e, b). b \<and> staged e) (zip es bs))"

lemma session_run_left:
  "sx_intent (fst x) \<noteq> [] \<Longrightarrow> staged_approvals es (fst (session_run E es x)) \<le> left x"
proof (induction es arbitrary: x)
  case (Cons e es)
  obtain b y where st: "session_step E e x = (b, y)" by (metis surj_pair)
  from session_step_left [OF Cons.prems st] Cons.prems Cons.IH [of y] st show ?case
    by (auto simp: staged_approvals_def case_prod_beta Let_def split: if_splits)
qed (simp add: staged_approvals_def)

subsection \<open>Properties\<close>

definition demo_session :: session where
  "demo_session = \<lparr>sx_workflow = ''w'', sx_goal = ''g'', sx_intent = ''i'', sx_receipts = [], sx_started = 0\<rparr>"

definition demo_stages :: "session_event list" where
  "demo_stages = [Govern ''a'' ''architect'' demo_action ''architect-done'', Govern ''b'' ''builder'' demo_action ''builder-done'',
     Govern ''c'' ''implementor'' demo_action ''implementor-done'', Govern ''d'' ''validator'' demo_action ''validator-done'',
     Govern ''e'' ''reviewer'' demo_action ''reviewer-done'']"

text \<open>A session that was just opened gets no action approved, whatever the agents, actions and
  stages: opening leaves its intent proposed, governed actions do not advance a proposed intent,
  and nothing in the workflow submits evidence for it.\<close>

theorem fresh_session_refuses:
  assumes "uuid_at E (tick s) \<noteq> []"
    and "\<forall>e\<in>set es. \<exists>ag role a stage. e = Govern ag role a stage"
  shows "\<forall>b\<in>set (fst (session_run E es (openSession E wid goal s))). \<not> b"
  using openSession_starved [OF assms(1)] assms(2) by (rule starved_run)

theorem fresh_session_witness:
  "\<not> fst (session_step demo_env (Govern ''b'' ''builder'' demo_action ''builder-done'')
       (openSession demo_env ''w'' ''g'' ((demo_governed Evidenced)\<lparr>tick := 1\<rparr>)))"
  using fresh_session_refuses [of demo_env "(demo_governed Evidenced)\<lparr>tick := 1\<rparr>"
      "[Govern ''b'' ''builder'' demo_action ''builder-done'']" "''w''" "''g''"]
  by (simp add: case_prod_beta Let_def)

text \<open>C11. However a session starts, at most three of its staged actions are ever approved, whatever
  actions and stage transitions are tried in whatever order: every approved stage moves the
  intent on along executing, validating and completed, and a completed intent approves nothing.
  The workflow has five stages.\<close>

theorem session_passes_three_stages:
  assumes "sx_intent sess \<noteq> []"
  shows "staged_approvals es (fst (session_run E es (sess, s))) \<le> 3"
  using session_run_left [of "(sess, s)" es E] assms stages_left_le by (fastforce simp: left_def intro: order_trans)

theorem session_passes_witness:
  "staged_approvals [Govern ''b'' ''builder'' demo_action ''builder-done'']
     (fst (session_run demo_env [Govern ''b'' ''builder'' demo_action ''builder-done''] (demo_session, demo_governed Evidenced))) = 1 \<and>
   staged_approvals demo_stages (fst (session_run demo_env demo_stages (demo_session, demo_governed Evidenced))) \<le> 3"
proof -
  have "gr_approved (fst (kernelGovernAction demo_env ''b'' ''builder'' demo_action (Some ''i'') (demo_governed Evidenced)))"
    by (simp add: govern_effect(1) [OF refl] demo_action_clean demo_gates)
  then have "fst (session_run demo_env [Govern ''b'' ''builder'' demo_action ''builder-done''] (demo_session, demo_governed Evidenced)) = [True]"
    using governAction_approved [of demo_env demo_session "''b''" "''builder''" demo_action "''builder-done''" "demo_governed Evidenced"]
    by (simp add: case_prod_beta Let_def demo_session_def)
  then show ?thesis
    using session_passes_three_stages [of demo_session demo_stages demo_env "demo_governed Evidenced"]
    by (simp add: staged_approvals_def is_stage_def TRANSITION_MAP_def demo_session_def)
qed

end
