(* ===== verification/Ftss.thy ===== *)
theory Ftss
  imports Csr
begin

text \<open>
  The trust scores of a federation (\<open>agent/sovereign-x/ftss.ts\<close>): six dimensions per node, their
  weighted sum in binary64, the tier it falls in, appeals, and the propagation of scores along
  federation edges. Scores are finite numbers.
\<close>

subsection \<open>Scores and tiers\<close>

datatype tier = SOVEREIGN | VERIFIED | PROVISIONAL | QUARANTINED | EXPELLED

primrec tier_name :: "tier \<Rightarrow> string" where
  "tier_name SOVEREIGN = ''SOVEREIGN''"
| "tier_name VERIFIED = ''VERIFIED''"
| "tier_name PROVISIONAL = ''PROVISIONAL''"
| "tier_name QUARANTINED = ''QUARANTINED''"
| "tier_name EXPELLED = ''EXPELLED''"

record trust_vector =
  tv_identity :: jsnum
  tv_compliance :: jsnum
  tv_apid :: jsnum
  tv_rpds :: jsnum
  tv_consensus :: jsnum
  tv_temporal :: jsnum

datatype dimension =
    IdentityConsistency | ConstraintCompliance | ApidThreatRate | RpdsHealthRate
  | ConsensusAlignment | TemporalReliability

primrec dim_name :: "dimension \<Rightarrow> string" where
  "dim_name IdentityConsistency = ''identityConsistencyScore''"
| "dim_name ConstraintCompliance = ''constraintComplianceScore''"
| "dim_name ApidThreatRate = ''apidThreatRate''"
| "dim_name RpdsHealthRate = ''rpdsHealthRate''"
| "dim_name ConsensusAlignment = ''consensusAlignmentRate''"
| "dim_name TemporalReliability = ''temporalReliabilityScore''"

primrec tv_get :: "dimension \<Rightarrow> trust_vector \<Rightarrow> jsnum" where
  "tv_get IdentityConsistency v = tv_identity v"
| "tv_get ConstraintCompliance v = tv_compliance v"
| "tv_get ApidThreatRate v = tv_apid v"
| "tv_get RpdsHealthRate v = tv_rpds v"
| "tv_get ConsensusAlignment v = tv_consensus v"
| "tv_get TemporalReliability v = tv_temporal v"

primrec tv_set :: "dimension \<Rightarrow> jsnum \<Rightarrow> trust_vector \<Rightarrow> trust_vector" where
  "tv_set IdentityConsistency x v = v\<lparr>tv_identity := x\<rparr>"
| "tv_set ConstraintCompliance x v = v\<lparr>tv_compliance := x\<rparr>"
| "tv_set ApidThreatRate x v = v\<lparr>tv_apid := x\<rparr>"
| "tv_set RpdsHealthRate x v = v\<lparr>tv_rpds := x\<rparr>"
| "tv_set ConsensusAlignment x v = v\<lparr>tv_consensus := x\<rparr>"
| "tv_set TemporalReliability x v = v\<lparr>tv_temporal := x\<rparr>"

record trust_evidence =
  te_id :: string
  te_dimension :: dimension
  te_value :: jsnum
  te_source :: string
  te_time :: time
  te_ref :: "string option"

record trust_record =
  tr_id :: string
  tr_node :: string
  tr_vector :: trust_vector
  tr_composite :: jsnum
  tr_tier :: tier
  tr_weight :: jsnum
  tr_updated :: time
  tr_evidence :: "trust_evidence list"
  tr_version :: nat

datatype appeal_status = PENDING | APPROVED | PARTIALLY_APPROVED | DENIED

record appeal =
  ap_id :: string
  ap_node :: string
  ap_contested :: "dimension list"
  ap_evidence :: "trust_evidence list"
  ap_attestation :: string
  ap_status :: appeal_status
  ap_submitted :: time
  ap_reviewed :: "time option"
  ap_cie :: bool
  ap_asil :: "string option"

record ftss_st = base_st +
  trust_scores :: "(string, trust_record) jsmap"
  appeals :: "(string, appeal) jsmap"
  fed_edges :: "(string, (string, jsnum) jsmap) jsmap"
  fed_last :: time

definition WEIGHTS :: trust_vector where
  "WEIGHTS = \<lparr>tv_identity = dec 25 100, tv_compliance = dec 20 100, tv_apid = dec 20 100,
     tv_rpds = dec 15 100, tv_consensus = dec 12 100, tv_temporal = dec 8 100\<rparr>"

definition weights_json :: json where
  "weights_json = JObj
     [(''identityConsistencyScore'', JNum (tv_identity WEIGHTS)),
      (''constraintComplianceScore'', JNum (tv_compliance WEIGHTS)),
      (''apidThreatRate'', JNum (tv_apid WEIGHTS)), (''rpdsHealthRate'', JNum (tv_rpds WEIGHTS)),
      (''consensusAlignmentRate'', JNum (tv_consensus WEIGHTS)),
      (''temporalReliabilityScore'', JNum (tv_temporal WEIGHTS))]"

primrec TIER_THRESHOLDS :: "tier \<Rightarrow> jsnum \<times> jsnum" where
  "TIER_THRESHOLDS SOVEREIGN = (dec 90 100, 1)"
| "TIER_THRESHOLDS VERIFIED = (dec 70 100, dec 89 100)"
| "TIER_THRESHOLDS PROVISIONAL = (dec 50 100, dec 69 100)"
| "TIER_THRESHOLDS QUARANTINED = (dec 25 100, dec 49 100)"
| "TIER_THRESHOLDS EXPELLED = (0, dec 24 100)"

primrec TIER_MULTIPLIERS :: "tier \<Rightarrow> jsnum" where
  "TIER_MULTIPLIERS SOVEREIGN = dec 15 10"
| "TIER_MULTIPLIERS VERIFIED = 1"
| "TIER_MULTIPLIERS PROVISIONAL = dec 6 10"
| "TIER_MULTIPLIERS QUARANTINED = 0"
| "TIER_MULTIPLIERS EXPELLED = 0"

primrec TIER_RIGHTS :: "tier \<Rightarrow> string list" where
  "TIER_RIGHTS SOVEREIGN =
     [''Full federation rights'', ''OPEN traversal policy permitted'', ''Consensus weight 1.5x'']"
| "TIER_RIGHTS VERIFIED =
     [''Standard federation rights'', ''Standard governance rules'', ''Consensus weight 1.0x'']"
| "TIER_RIGHTS PROVISIONAL =
     [''Restricted rights'', ''Dual node validation required'', ''Consensus weight 0.6x'']"
| "TIER_RIGHTS QUARANTINED =
     [''Federation suspended'', ''Read-only observer'', ''Consensus weight 0.0x'', ''RPDS ISOLATE active'']"
| "TIER_RIGHTS EXPELLED =
     [''Full federation ejection'', ''Lineage sealed'', ''IGEM seals identity segment'',
      ''APID blocks all inputs'', ''Consensus weight 0.0x'']"

definition PROPAGATION_DECAY :: "jsnum list" where
  "PROPAGATION_DECAY = [1, dec 85 100, dec 70 100, dec 50 100]"

abbreviation log_ftss :: "sysenv \<Rightarrow> string \<Rightarrow> (string \<times> json) list \<Rightarrow> 'a base_st_scheme \<Rightarrow> 'a base_st_scheme" where
  "log_ftss E tr payload \<equiv> log_csr E tr ''federation'' payload None ''ftss''"

definition computeComposite :: "trust_vector \<Rightarrow> jsnum" where
  "computeComposite v =
     js_add (js_add (js_add (js_add (js_add
       (js_mul (tv_identity v) (tv_identity WEIGHTS))
       (js_mul (tv_compliance v) (tv_compliance WEIGHTS)))
       (js_mul (tv_apid v) (tv_apid WEIGHTS)))
       (js_mul (tv_rpds v) (tv_rpds WEIGHTS)))
       (js_mul (tv_consensus v) (tv_consensus WEIGHTS)))
       (js_mul (tv_temporal v) (tv_temporal WEIGHTS))"

definition scoreToTier :: "jsnum \<Rightarrow> tier" where
  "scoreToTier x =
     (if x \<ge> dec 90 100 then SOVEREIGN else if x \<ge> dec 70 100 then VERIFIED
      else if x \<ge> dec 50 100 then PROVISIONAL else if x \<ge> dec 25 100 then QUARANTINED else EXPELLED)"

subsection \<open>Operations\<close>

definition initializeFTSS :: "sysenv \<Rightarrow> 'a ftss_st_scheme \<Rightarrow> 'a ftss_st_scheme" where
  "initializeFTSS E s = log_ftss E ''ftss-initialized'' [(''version'', JStr ''1.0''), (''weights'', weights_json)] s"

definition addFederationNode :: "string \<Rightarrow> 'a ftss_st_scheme \<Rightarrow> 'a ftss_st_scheme" where
  "addFederationNode n s =
     (if js_has (fed_edges s) n then s else s\<lparr>fed_edges := js_set n [] (fed_edges s)\<rparr>)"

definition createInitialTrustScore :: "sysenv \<Rightarrow> string \<Rightarrow> 'a ftss_st_scheme \<Rightarrow> trust_record \<times> 'a ftss_st_scheme" where
  "createInitialTrustScore E nodeId s =
     (let v = \<lparr>tv_identity = dec 5 10, tv_compliance = dec 5 10, tv_apid = dec 5 10, tv_rpds = dec 5 10,
               tv_consensus = dec 5 10, tv_temporal = dec 5 10\<rparr>;
          c = computeComposite v; t = scoreToTier c;
          (u, s1) = take_uuid E s; (now, s2) = take_now E s1;
          r = \<lparr>tr_id = u, tr_node = nodeId, tr_vector = v, tr_composite = c, tr_tier = t,
               tr_weight = TIER_MULTIPLIERS t, tr_updated = now, tr_evidence = [], tr_version = 0\<rparr>;
          s3 = addFederationNode nodeId (s2\<lparr>trust_scores := js_set nodeId r (trust_scores s2)\<rparr>)
      in (r, log_ftss E ''ftss-score-created''
               [(''nodeId'', JStr nodeId), (''compositeScore'', JNum c), (''tier'', JStr (tier_name t))] s3))"

definition getTrustScore :: "string \<Rightarrow> 'a ftss_st_scheme \<Rightarrow> trust_record option" where
  "getTrustScore n s = js_get (trust_scores s) n"

definition getAllTrustScores :: "'a ftss_st_scheme \<Rightarrow> trust_record list" where
  "getAllTrustScores s = js_values (trust_scores s)"

definition triggerExpulsion :: "sysenv \<Rightarrow> string \<Rightarrow> 'a ftss_st_scheme \<Rightarrow> 'a ftss_st_scheme" where
  "triggerExpulsion E n s = log_ftss E ''ftss-expulsion-triggered'' [(''nodeId'', JStr n)] s"

definition triggerQuarantine :: "sysenv \<Rightarrow> string \<Rightarrow> 'a ftss_st_scheme \<Rightarrow> 'a ftss_st_scheme" where
  "triggerQuarantine E n s = log_ftss E ''ftss-quarantine-triggered'' [(''nodeId'', JStr n)] s"

definition checkTierTransition :: "sysenv \<Rightarrow> trust_record \<Rightarrow> 'a ftss_st_scheme \<Rightarrow> 'a ftss_st_scheme" where
  "checkTierTransition E r s =
     (let prevTier = tr_tier r; newTier = scoreToTier (tr_composite r)
      in if prevTier \<noteq> newTier
         then let s1 = log_ftss E ''ftss-tier-transition''
                         [(''nodeId'', JStr (tr_node r)), (''from'', JStr (tier_name prevTier)),
                          (''to'', JStr (tier_name newTier)), (''score'', JNum (tr_composite r))] s
              in if newTier = EXPELLED then triggerExpulsion E (tr_node r) s1
                 else if newTier = QUARANTINED then triggerQuarantine E (tr_node r) s1
                 else s1
         else s)"

text \<open>The score, tier and weight a record gets from its vector.\<close>

definition rescore :: "trust_record \<Rightarrow> trust_record" where
  "rescore r =
     (let c = computeComposite (tr_vector r)
      in r\<lparr>tr_composite := c, tr_tier := scoreToTier c, tr_weight := TIER_MULTIPLIERS (scoreToTier c)\<rparr>)"

definition updateTrustDimension ::
    "sysenv \<Rightarrow> string \<Rightarrow> dimension \<Rightarrow> jsnum \<Rightarrow> string \<Rightarrow> string option \<Rightarrow> 'a ftss_st_scheme \<Rightarrow>
     trust_record option \<times> 'a ftss_st_scheme" where
  "updateTrustDimension E nodeId dm val src ref s =
     (case js_get (trust_scores s) nodeId of
        None \<Rightarrow> (None, s)
      | Some r \<Rightarrow>
          let clamped = max 0 (min 1 val);
              (u, s1) = take_uuid E s; (t, s2) = take_now E s1;
              ev = \<lparr>te_id = u, te_dimension = dm, te_value = clamped, te_source = src, te_time = t, te_ref = ref\<rparr>;
              r1 = rescore (r\<lparr>tr_vector := tv_set dm clamped (tr_vector r), tr_evidence := tr_evidence r @ [ev]\<rparr>);
              (now, s3) = take_now E s2;
              r2 = r1\<lparr>tr_updated := now\<rparr>;
              s4 = s3\<lparr>trust_scores := js_set nodeId r2 (trust_scores s3)\<rparr>;
              s5 = log_ftss E ''ftss-dimension-updated''
                     [(''nodeId'', JStr nodeId), (''dimension'', JStr (dim_name dm)), (''value'', JNum clamped),
                      (''composite'', JNum (tr_composite r2)), (''tier'', JStr (tier_name (tr_tier r2)))] s4
          in (Some r2, checkTierTransition E r2 s5))"

definition recordAPIDEvent :: "sysenv \<Rightarrow> string \<Rightarrow> jsnum \<Rightarrow> 'a ftss_st_scheme \<Rightarrow> 'a ftss_st_scheme" where
  "recordAPIDEvent E n threatScore s =
     snd (updateTrustDimension E n ApidThreatRate (max 0 (js_sub 1 threatScore)) ''APID'' None s)"

definition recordRPDSEvent :: "sysenv \<Rightarrow> string \<Rightarrow> jsnum \<Rightarrow> 'a ftss_st_scheme \<Rightarrow> 'a ftss_st_scheme" where
  "recordRPDSEvent E n healthRate s = snd (updateTrustDimension E n RpdsHealthRate healthRate ''RPDS'' None s)"

definition recordConsensusAlignment :: "sysenv \<Rightarrow> string \<Rightarrow> bool \<Rightarrow> 'a ftss_st_scheme \<Rightarrow> 'a ftss_st_scheme" where
  "recordConsensusAlignment E n aligned s =
     (case js_get (trust_scores s) n of
        None \<Rightarrow> s
      | Some r \<Rightarrow>
          let cur = tv_consensus (tr_vector r);
              new = (if aligned then min 1 (js_add cur (dec 2 100)) else max 0 (js_sub cur (dec 3 100)))
          in snd (updateTrustDimension E n ConsensusAlignment new ''CONSENSUS'' None s))"

definition recordZKALSVerification :: "sysenv \<Rightarrow> string \<Rightarrow> bool \<Rightarrow> bool \<Rightarrow> 'a ftss_st_scheme \<Rightarrow> 'a ftss_st_scheme" where
  "recordZKALSVerification E n valid nonceReplayed s =
     (case js_get (trust_scores s) n of
        None \<Rightarrow> s
      | Some r \<Rightarrow>
          let cur = tv_identity (tr_vector r)
          in if nonceReplayed then snd (updateTrustDimension E n IdentityConsistency 0 ''ZKALS'' None s)
             else if \<not> valid
             then snd (updateTrustDimension E n IdentityConsistency (max 0 (js_sub cur (dec 15 100))) ''ZKALS'' None s)
             else snd (updateTrustDimension E n IdentityConsistency (min 1 (js_add cur (dec 1 100))) ''ZKALS'' None s))"

definition recordCIEMSCompliance :: "sysenv \<Rightarrow> string \<Rightarrow> bool \<Rightarrow> 'a ftss_st_scheme \<Rightarrow> 'a ftss_st_scheme" where
  "recordCIEMSCompliance E n compliant s =
     (case js_get (trust_scores s) n of
        None \<Rightarrow> s
      | Some r \<Rightarrow>
          let cur = tv_compliance (tr_vector r);
              new = (if compliant then min 1 (js_add cur (dec 1 100)) else max 0 (js_sub cur (dec 5 100)))
          in snd (updateTrustDimension E n ConstraintCompliance new ''CIEMS'' None s))"

definition recordTemporalReliability :: "sysenv \<Rightarrow> string \<Rightarrow> bool \<Rightarrow> 'a ftss_st_scheme \<Rightarrow> 'a ftss_st_scheme" where
  "recordTemporalReliability E n accurate s =
     (case js_get (trust_scores s) n of
        None \<Rightarrow> s
      | Some r \<Rightarrow>
          let cur = tv_temporal (tr_vector r);
              new = (if accurate then min 1 (js_add cur (dec 5 1000)) else max 0 (js_sub cur (dec 2 100)))
          in snd (updateTrustDimension E n TemporalReliability new ''FTSS'' None s))"

text \<open>The search for a recent appeal reads the clock at each appeal of the node it meets.\<close>

definition COOLDOWN :: int where
  "COOLDOWN = 200 * 86400000"

fun find_recent :: "sysenv \<Rightarrow> string \<Rightarrow> appeal list \<Rightarrow> 'a ftss_st_scheme \<Rightarrow> bool \<times> 'a ftss_st_scheme" where
  "find_recent E n [] s = (False, s)"
| "find_recent E n (a # as) s =
     (if ap_node a = n
      then let (now, s1) = take_now E s
           in if now - ap_submitted a < COOLDOWN then (True, s1) else find_recent E n as s1
      else find_recent E n as s)"

definition submitTrustAppeal ::
    "sysenv \<Rightarrow> string \<Rightarrow> dimension list \<Rightarrow> trust_evidence list \<Rightarrow> string \<Rightarrow> 'a ftss_st_scheme \<Rightarrow>
     (string + appeal) \<times> 'a ftss_st_scheme" where
  "submitTrustAppeal E nodeId dims evs attestation s =
     (case js_get (trust_scores s) nodeId of
        None \<Rightarrow> (Inl (''Node '' @ nodeId @ '' not found''), s)
      | Some _ \<Rightarrow>
          case find_recent E nodeId (js_values (appeals s)) s of
            (True, s1) \<Rightarrow> (Inl ''Appeal cooldown: one appeal per 200 consensus cycles'', s1)
          | (False, s1) \<Rightarrow>
              let (u, s2) = take_uuid E s1; (t, s3) = take_now E s2;
                  a = \<lparr>ap_id = u, ap_node = nodeId, ap_contested = dims, ap_evidence = evs,
                       ap_attestation = attestation, ap_status = PENDING, ap_submitted = t,
                       ap_reviewed = None, ap_cie = False, ap_asil = None\<rparr>;
                  s4 = s3\<lparr>appeals := js_set u a (appeals s3)\<rparr>
              in (Inr a, log_ftss E ''ftss-appeal-submitted''
                    [(''nodeId'', JStr nodeId), (''appealId'', JStr u), (''dimensions'', jstrs (map dim_name dims))] s4))"

text \<open>What a review does to the node's record: a countersigned approval lifts a provisional or
  quarantined node, one that is not countersigned an expelled or quarantined node.\<close>

definition lift_tier :: "sysenv \<Rightarrow> string \<Rightarrow> tier list \<Rightarrow> tier \<Rightarrow> 'a ftss_st_scheme \<Rightarrow> 'a ftss_st_scheme" where
  "lift_tier E n from to s =
     (case js_get (trust_scores s) n of
        Some r \<Rightarrow>
          if tr_tier r \<in> set from
          then let (now, s1) = take_now E s
               in s1\<lparr>trust_scores := js_set n (r\<lparr>tr_tier := to, tr_weight := TIER_MULTIPLIERS to, tr_updated := now\<rparr>) (trust_scores s1)\<rparr>
          else s
      | None \<Rightarrow> s)"

definition nonempty_opt :: "string option \<Rightarrow> bool" where
  "nonempty_opt x = (case x of Some t \<Rightarrow> t \<noteq> [] | None \<Rightarrow> False)"

definition reviewTrustAppeal ::
    "sysenv \<Rightarrow> string \<Rightarrow> bool \<Rightarrow> string option \<Rightarrow> 'a ftss_st_scheme \<Rightarrow> appeal option \<times> 'a ftss_st_scheme" where
  "reviewTrustAppeal E appealId cieApproved asil s =
     (case js_get (appeals s) appealId of
        None \<Rightarrow> (None, s)
      | Some a \<Rightarrow>
          let (t, s1) = take_now E s;
              a' = a\<lparr>ap_status := if cieApproved then APPROVED else DENIED, ap_reviewed := Some t,
                     ap_cie := cieApproved, ap_asil := asil\<rparr>;
              s2 = s1\<lparr>appeals := js_set appealId a' (appeals s1)\<rparr>;
              s3 = (if cieApproved \<and> nonempty_opt asil
                    then lift_tier E (ap_node a) [PROVISIONAL, QUARANTINED] VERIFIED s2
                    else if cieApproved then lift_tier E (ap_node a) [EXPELLED, QUARANTINED] PROVISIONAL s2
                    else s2)
          in (Some a', log_ftss E ''ftss-appeal-reviewed''
                [(''appealId'', JStr appealId), (''approved'', JBool cieApproved),
                 (''asilCountersigned'', JBool (nonempty_opt asil))] s3))"

text \<open>One hop of one edge raises the target's identity score.\<close>

definition hop_score :: "jsnum \<Rightarrow> jsnum \<Rightarrow> nat \<Rightarrow> jsnum \<Rightarrow> jsnum" where
  "hop_score composite edgeWeight hops x =
     (let decay = PROPAGATION_DECAY ! min hops (length PROPAGATION_DECAY - 1);
          propagated = js_mul (js_mul composite decay) edgeWeight
      in max x (min 1 (js_add x (js_mul propagated (dec 1 10)))))"

definition receive_score :: "jsnum \<Rightarrow> jsnum \<Rightarrow> time \<Rightarrow> trust_record \<Rightarrow> trust_record" where
  "receive_score composite w now r =
     (let x = fold (hop_score composite w) [1, 2, 3] (tv_identity (tr_vector r))
      in r\<lparr>tr_vector := (tr_vector r)\<lparr>tv_identity := x\<rparr>, tr_version := tr_version r + 1, tr_updated := now\<rparr>)"

definition propagate_from ::
    "(string, (string, jsnum) jsmap) jsmap \<Rightarrow> time \<Rightarrow> string \<Rightarrow> (string, trust_record) jsmap \<Rightarrow> (string, trust_record) jsmap" where
  "propagate_from edges now src m =
     (case js_get m src of
        None \<Rightarrow> m
      | Some r \<Rightarrow>
          case js_get edges src of
            None \<Rightarrow> m
          | Some neighbors \<Rightarrow>
              fold (\<lambda>(target, w). js_modify target (receive_score (tr_composite r) w now)) neighbors m)"

definition propagateTrustScores :: "sysenv \<Rightarrow> 'a ftss_st_scheme \<Rightarrow> 'a ftss_st_scheme" where
  "propagateTrustScores E s =
     (let (now, s1) = take_now E s;
          m = fold (propagate_from (fed_edges s1) now) (map fst (trust_scores s1)) (trust_scores s1);
          s2 = s1\<lparr>trust_scores := m, fed_last := now\<rparr>
      in log_ftss E ''ftss-propagation-complete''
           [(''timestamp'', JStr (iso_string now)), (''nodesUpdated'', jnat (length (trust_scores s2)))] s2)"

definition set_edge :: "string \<Rightarrow> string \<Rightarrow> jsnum \<Rightarrow> (string, (string, jsnum) jsmap) jsmap \<Rightarrow> (string, (string, jsnum) jsmap) jsmap" where
  "set_edge a b w m = (let m1 = (if js_has m a then m else js_set a [] m) in js_modify a (js_set b w) m1)"

definition addFederationEdge :: "string \<Rightarrow> string \<Rightarrow> jsnum \<Rightarrow> 'a ftss_st_scheme \<Rightarrow> 'a ftss_st_scheme" where
  "addFederationEdge a b w s = s\<lparr>fed_edges := set_edge b a w (set_edge a b w (fed_edges s))\<rparr>"

definition applyLegacyModePenalty :: "sysenv \<Rightarrow> string \<Rightarrow> 'a ftss_st_scheme \<Rightarrow> 'a ftss_st_scheme" where
  "applyLegacyModePenalty E n s =
     (case js_get (trust_scores s) n of
        None \<Rightarrow> s
      | Some r \<Rightarrow>
          let v = tr_vector r;
              r1 = rescore (r\<lparr>tr_vector := v\<lparr>tv_temporal := max 0 (js_sub (tv_temporal v) (dec 10 100))\<rparr>\<rparr>);
              (now, s1) = take_now E s;
              r2 = r1\<lparr>tr_updated := now\<rparr>
          in log_ftss E ''ftss-legacy-penalty-applied''
               [(''nodeId'', JStr n), (''newScore'', JNum (tr_composite r2)), (''newTier'', JStr (tier_name (tr_tier r2)))]
               (s1\<lparr>trust_scores := js_set n r2 (trust_scores s1)\<rparr>))"

record ftss_status =
  fs_total :: nat
  fs_tiers :: "tier \<Rightarrow> nat"
  fs_avg :: jsnum
  fs_pending :: nat

definition getFTSSStatus :: "'a ftss_st_scheme \<Rightarrow> ftss_status" where
  "getFTSSStatus s =
     (let rs = js_values (trust_scores s); sum = foldl (\<lambda>a r. js_add a (tr_composite r)) 0 rs
      in \<lparr>fs_total = length (trust_scores s), fs_tiers = (\<lambda>t. length (filter (\<lambda>r. tr_tier r = t) rs)),
          fs_avg = (if rs \<noteq> [] then js_div sum (of_nat (length rs)) else 0),
          fs_pending = length (filter (\<lambda>a. ap_status a = PENDING) (js_values (appeals s)))\<rparr>)"

definition resetFTSS :: "sysenv \<Rightarrow> 'a ftss_st_scheme \<Rightarrow> 'a ftss_st_scheme" where
  "resetFTSS E s =
     (let (t, s1) = take_now E (s\<lparr>trust_scores := [], appeals := [], fed_edges := []\<rparr>) in s1\<lparr>fed_last := t\<rparr>)"

text \<open>The dash between the bounds of a range is outside the code units below 256; it stands here
  as its UTF-8 bytes.\<close>

definition en_dash :: string where
  "en_dash = [CHR 0xE2, CHR 0x80, CHR 0x93]"

definition getTierInfo :: "tier \<Rightarrow> string \<times> string list \<times> jsnum" where
  "getTierInfo t =
     (to_fixed 2 (fst (TIER_THRESHOLDS t)) @ '' '' @ en_dash @ '' '' @ to_fixed 2 (snd (TIER_THRESHOLDS t)),
      TIER_RIGHTS t, TIER_MULTIPLIERS t)"

definition enforceLegacyModeCap :: "sysenv \<Rightarrow> string \<Rightarrow> 'a ftss_st_scheme \<Rightarrow> 'a ftss_st_scheme" where
  "enforceLegacyModeCap E n s =
     (case js_get (trust_scores s) n of
        None \<Rightarrow> s
      | Some r \<Rightarrow>
          if tr_tier r = SOVEREIGN \<or> tr_tier r = VERIFIED
          then let (now, s1) = take_now E s;
                   r1 = r\<lparr>tr_tier := PROVISIONAL, tr_weight := TIER_MULTIPLIERS PROVISIONAL, tr_updated := now\<rparr>
               in log_ftss E ''ftss-legacy-cap-enforced''
                    [(''nodeId'', JStr n), (''previousTier'', JStr (tier_name (tr_tier r1))), (''newTier'', JStr ''PROVISIONAL'')]
                    (s1\<lparr>trust_scores := js_set n r1 (trust_scores s1)\<rparr>)
          else s)"

definition getConsensusWeight :: "string \<Rightarrow> 'a ftss_st_scheme \<Rightarrow> jsnum" where
  "getConsensusWeight n s = (case js_get (trust_scores s) n of Some r \<Rightarrow> tr_weight r | None \<Rightarrow> 0)"

subsection \<open>Bounds and monotonicity of the composite\<close>

definition in_unit :: "jsnum \<Rightarrow> bool" where
  "in_unit x \<longleftrightarrow> 0 \<le> x \<and> x \<le> 1"

definition vec_ok :: "trust_vector \<Rightarrow> bool" where
  "vec_ok v \<longleftrightarrow> (\<forall>d. in_unit (tv_get d v))"

definition vec_le :: "trust_vector \<Rightarrow> trust_vector \<Rightarrow> bool" where
  "vec_le v w \<longleftrightarrow> (\<forall>d. tv_get d v \<le> tv_get d w)"

lemma all_dims: "(\<forall>d. P d) \<longleftrightarrow> P IdentityConsistency \<and> P ConstraintCompliance \<and> P ApidThreatRate \<and>
    P RpdsHealthRate \<and> P ConsensusAlignment \<and> P TemporalReliability"
  by (metis dimension.exhaust)

lemma vec_ok_simps:
  "vec_ok v \<longleftrightarrow> in_unit (tv_identity v) \<and> in_unit (tv_compliance v) \<and> in_unit (tv_apid v) \<and>
     in_unit (tv_rpds v) \<and> in_unit (tv_consensus v) \<and> in_unit (tv_temporal v)"
  by (simp add: vec_ok_def all_dims)

lemma vec_le_simps:
  "vec_le v w \<longleftrightarrow> tv_identity v \<le> tv_identity w \<and> tv_compliance v \<le> tv_compliance w \<and> tv_apid v \<le> tv_apid w \<and>
     tv_rpds v \<le> tv_rpds w \<and> tv_consensus v \<le> tv_consensus w \<and> tv_temporal v \<le> tv_temporal w"
  by (simp add: vec_le_def all_dims)

lemma WEIGHTS_nonneg [simp]:
  "0 \<le> tv_identity WEIGHTS" "0 \<le> tv_compliance WEIGHTS" "0 \<le> tv_apid WEIGHTS" "0 \<le> tv_rpds WEIGHTS"
  "0 \<le> tv_consensus WEIGHTS" "0 \<le> tv_temporal WEIGHTS"
  by (simp_all add: WEIGHTS_def)

lemma composite_mono: "vec_le v w \<Longrightarrow> computeComposite v \<le> computeComposite w"
  unfolding computeComposite_def vec_le_simps by (intro js_add_mono js_mul_mono) simp_all

definition const_vec :: "jsnum \<Rightarrow> trust_vector" where
  "const_vec x = \<lparr>tv_identity = x, tv_compliance = x, tv_apid = x, tv_rpds = x, tv_consensus = x, tv_temporal = x\<rparr>"

text \<open>The weights and their partial sums, as the binary64 numbers they are.\<close>

lemma dec_25_100: "dec 25 100 = 1 / 2 ^ 2"
  unfolding dec_def by (subst fl_nearest [where k = "-2" and m = 4503599627370496]) (simp_all add: power_int_def power_divide)

lemma dec_20_100: "dec 20 100 = 3602879701896397 / 2 ^ 54"
  unfolding dec_def by (subst fl_nearest [where k = "-3" and m = 7205759403792794]) (simp_all add: power_int_def power_divide)

lemma dec_15_100: "dec 15 100 = 5404319552844595 / 2 ^ 55"
  unfolding dec_def by (subst fl_nearest [where k = "-3" and m = 5404319552844595]) (simp_all add: power_int_def power_divide)

lemma dec_12_100: "dec 12 100 = 1080863910568919 / 2 ^ 53"
  unfolding dec_def by (subst fl_nearest [where k = "-4" and m = 8646911284551352]) (simp_all add: power_int_def power_divide)

lemma dec_8_100: "dec 8 100 = 5764607523034235 / 2 ^ 56"
  unfolding dec_def by (subst fl_nearest [where k = "-4" and m = 5764607523034235]) (simp_all add: power_int_def power_divide)

lemma dec_5_10: "dec 5 10 = 1 / 2 ^ 1"
  unfolding dec_def by (subst fl_nearest [where k = "-1" and m = 4503599627370496]) (simp_all add: power_int_def power_divide)

lemma sum_ones_1: "js_add (1 / 2 ^ 2) (3602879701896397 / 2 ^ 54) = 8106479329266893 / 2 ^ 54"
  unfolding js_add_def by (subst fl_nearest [where k = "-2" and m = 8106479329266893], simp_all add: power_int_def power_divide)

lemma sum_ones_2: "js_add (8106479329266893 / 2 ^ 54) (3602879701896397 / 2 ^ 54) = 5854679515581645 / 2 ^ 53"
  unfolding js_add_def by (subst fl_nearest [where k = "-1" and m = 5854679515581645], simp_all add: power_int_def power_divide)

lemma sum_ones_3: "js_add (5854679515581645 / 2 ^ 53) (5404319552844595 / 2 ^ 55) = 3602879701896397 / 2 ^ 52"
  unfolding js_add_def by (subst fl_nearest [where k = "-1" and m = 7205759403792794], simp_all add: power_int_def power_divide)

lemma sum_ones_4: "js_add (3602879701896397 / 2 ^ 52) (1080863910568919 / 2 ^ 53) = 8286623314361713 / 2 ^ 53"
  unfolding js_add_def by (subst fl_nearest [where k = "-1" and m = 8286623314361713], simp_all add: power_int_def power_divide)

lemma sum_ones_5: "js_add (8286623314361713 / 2 ^ 53) (5764607523034235 / 2 ^ 56) = 1"
  unfolding js_add_def by (subst fl_nearest [where k = "0" and m = 4503599627370496], simp_all add: power_int_def power_divide)

lemma sum_halves_1: "js_add (1 / 2 ^ 3) (3602879701896397 / 2 ^ 55) = 8106479329266893 / 2 ^ 55"
  unfolding js_add_def by (subst fl_nearest [where k = "-3" and m = 8106479329266893], simp_all add: power_int_def power_divide)

lemma sum_halves_2: "js_add (8106479329266893 / 2 ^ 55) (3602879701896397 / 2 ^ 55) = 5854679515581645 / 2 ^ 54"
  unfolding js_add_def by (subst fl_nearest [where k = "-2" and m = 5854679515581645], simp_all add: power_int_def power_divide)

lemma sum_halves_3: "js_add (5854679515581645 / 2 ^ 54) (5404319552844595 / 2 ^ 56) = 3602879701896397 / 2 ^ 53"
  unfolding js_add_def by (subst fl_nearest [where k = "-2" and m = 7205759403792794], simp_all add: power_int_def power_divide)

lemma sum_halves_4: "js_add (3602879701896397 / 2 ^ 53) (1080863910568919 / 2 ^ 54) = 8286623314361713 / 2 ^ 54"
  unfolding js_add_def by (subst fl_nearest [where k = "-2" and m = 8286623314361713], simp_all add: power_int_def power_divide)

lemma sum_halves_5: "js_add (8286623314361713 / 2 ^ 54) (5764607523034235 / 2 ^ 57) = 1 / 2 ^ 1"
  unfolding js_add_def by (subst fl_nearest [where k = "-1" and m = 4503599627370496], simp_all add: power_int_def power_divide)

lemma half_1: "js_mul (1 / 2 ^ 1) (1 / 2 ^ 2) = 1 / 2 ^ 3"
  unfolding js_mul_def by (subst fl_nearest [where k = "-3" and m = 4503599627370496], simp_all add: power_int_def power_divide)

lemma half_2: "js_mul (1 / 2 ^ 1) (3602879701896397 / 2 ^ 54) = 3602879701896397 / 2 ^ 55"
  unfolding js_mul_def by (subst fl_nearest [where k = "-4" and m = 7205759403792794], simp_all add: power_int_def power_divide)

lemma half_3: "js_mul (1 / 2 ^ 1) (5404319552844595 / 2 ^ 55) = 5404319552844595 / 2 ^ 56"
  unfolding js_mul_def by (subst fl_nearest [where k = "-4" and m = 5404319552844595], simp_all add: power_int_def power_divide)

lemma half_4: "js_mul (1 / 2 ^ 1) (1080863910568919 / 2 ^ 53) = 1080863910568919 / 2 ^ 54"
  unfolding js_mul_def by (subst fl_nearest [where k = "-5" and m = 8646911284551352], simp_all add: power_int_def power_divide)

lemma half_5: "js_mul (1 / 2 ^ 1) (5764607523034235 / 2 ^ 56) = 5764607523034235 / 2 ^ 57"
  unfolding js_mul_def by (subst fl_nearest [where k = "-5" and m = 5764607523034235], simp_all add: power_int_def power_divide)

lemmas weight_values = dec_25_100 dec_20_100 dec_15_100 dec_12_100 dec_8_100

lemma composite_ones: "computeComposite (const_vec 1) = 1"
proof -
  have m: "js_mul 1 (dec n d) = dec n d" for n d by (simp add: js_mul_def dec_def)
  show ?thesis
    unfolding computeComposite_def const_vec_def WEIGHTS_def trust_vector.simps m
    unfolding weight_values sum_ones_1 sum_ones_2 sum_ones_3 sum_ones_4 sum_ones_5 ..
qed

lemma composite_halves: "computeComposite (const_vec (dec 5 10)) = dec 5 10"
  unfolding computeComposite_def const_vec_def WEIGHTS_def trust_vector.simps dec_5_10
  unfolding weight_values half_1 half_2 half_3 half_4 half_5
    sum_halves_1 sum_halves_2 sum_halves_3 sum_halves_4 sum_halves_5 ..

lemma composite_unit: "vec_ok v \<Longrightarrow> in_unit (computeComposite v)"
proof -
  assume v: "vec_ok v"
  then have "computeComposite v \<le> computeComposite (const_vec 1)"
    by (intro composite_mono) (simp add: vec_ok_simps vec_le_simps in_unit_def const_vec_def)
  moreover have "0 \<le> computeComposite v"
    using v by (simp add: computeComposite_def vec_ok_simps in_unit_def)
  ultimately show ?thesis by (simp add: in_unit_def composite_ones)
qed

subsection \<open>The invariant\<close>

text \<open>A record's dimensions and composite lie in the unit interval and its weight is the one of its tier.\<close>

definition trust_ok :: "trust_record \<Rightarrow> bool" where
  "trust_ok r \<longleftrightarrow> vec_ok (tr_vector r) \<and> in_unit (tr_composite r) \<and> tr_weight r = TIER_MULTIPLIERS (tr_tier r)"

definition ftss_ok :: "'a ftss_st_scheme \<Rightarrow> bool" where
  "ftss_ok s \<longleftrightarrow> all_values trust_ok (trust_scores s)"

lemma ftss_frame [simp]:
  "trust_scores (log_csr E tr d p i a s) = trust_scores s" "appeals (log_csr E tr d p i a s) = appeals s"
  "fed_edges (log_csr E tr d p i a s) = fed_edges s" "fed_last (log_csr E tr d p i a s) = fed_last s"
  by (simp_all add: log_csr_update)

lemma clamp_unit: "in_unit (max 0 (min 1 (x :: jsnum)))"
  by (simp add: in_unit_def)

lemma vec_ok_set: "vec_ok v \<Longrightarrow> in_unit x \<Longrightarrow> vec_ok (tv_set d x v)"
  by (cases d) (simp_all add: vec_ok_simps)

lemma rescore_ok: "vec_ok (tr_vector r) \<Longrightarrow> trust_ok (rescore r)"
  by (simp add: trust_ok_def rescore_def Let_def composite_unit)

lemma trust_ok_stamp [simp]:
  "trust_ok (r\<lparr>tr_updated := t\<rparr>) = trust_ok r"
  "trust_ok (r\<lparr>tr_tier := u, tr_weight := TIER_MULTIPLIERS u\<rparr>) \<longleftrightarrow>
     vec_ok (tr_vector r) \<and> in_unit (tr_composite r)"
  by (simp_all add: trust_ok_def)

lemma hop_unit: "in_unit x \<Longrightarrow> in_unit (hop_score c w h x)"
  by (auto simp: hop_score_def in_unit_def Let_def)

lemma receive_ok: "trust_ok r \<Longrightarrow> trust_ok (receive_score c w now r)"
  by (simp add: trust_ok_def receive_score_def vec_ok_simps Let_def hop_unit)

lemma propagate_from_ok: "all_values trust_ok m \<Longrightarrow> all_values trust_ok (propagate_from edges now src m)"
proof -
  have "all_values trust_ok m \<Longrightarrow>
      all_values trust_ok (fold (\<lambda>(target, w). js_modify target (receive_score c w now)) ns m)" for c ns
    by (induction ns arbitrary: m) (auto intro!: all_values_modify receive_ok)
  then show "all_values trust_ok m \<Longrightarrow> all_values trust_ok (propagate_from edges now src m)"
    by (simp add: propagate_from_def split: option.split)
qed

lemma propagate_ok: "ftss_ok s \<Longrightarrow> ftss_ok (propagateTrustScores E s)"
proof -
  have "all_values trust_ok m \<Longrightarrow> all_values trust_ok (fold (propagate_from edges now) ks m)" for edges now ks m
    by (induction ks arbitrary: m) (simp_all add: propagate_from_ok)
  then show "ftss_ok s \<Longrightarrow> ftss_ok (propagateTrustScores E s)"
    by (simp add: ftss_ok_def propagateTrustScores_def take_now_def Let_def)
qed

text \<open>The tier a record has just been given is the tier of its score, so the check for a
  transition that follows an update finds none.\<close>

lemma check_after_rescore: "checkTierTransition E (rescore r\<lparr>tr_updated := t\<rparr>) s = s"
  by (simp add: checkTierTransition_def rescore_def Let_def)

lemma update_effect:
  assumes "js_get (trust_scores s) n = Some r"
  shows "\<exists>evs t. updateTrustDimension E n dm x src ref s =
     (let r' = rescore (r\<lparr>tr_vector := tv_set dm (max 0 (min 1 x)) (tr_vector r), tr_evidence := evs\<rparr>)\<lparr>tr_updated := t\<rparr>
      in (Some r', log_ftss E ''ftss-dimension-updated''
           [(''nodeId'', JStr n), (''dimension'', JStr (dim_name dm)), (''value'', JNum (max 0 (min 1 x))),
            (''composite'', JNum (tr_composite r')), (''tier'', JStr (tier_name (tr_tier r')))]
           (s\<lparr>tick := tick s + 3, trust_scores := js_set n r' (trust_scores s)\<rparr>)))"
  using assms
  by (simp add: updateTrustDimension_def check_after_rescore take_uuid_def take_now_def Let_def)
    (intro exI conjI, rule refl, simp add: eval_nat_numeral)

lemma update_ok: "ftss_ok s \<Longrightarrow> ftss_ok (snd (updateTrustDimension E n dm x src ref s))"
proof (cases "js_get (trust_scores s) n")
  case None
  then show "ftss_ok s \<Longrightarrow> ?thesis" by (simp add: updateTrustDimension_def)
next
  case (Some r)
  assume ok: "ftss_ok s"
  with Some have "vec_ok (tr_vector r)" by (auto simp: ftss_ok_def trust_ok_def dest: all_valuesD)
  then have "trust_ok (rescore (r\<lparr>tr_vector := tv_set dm (max 0 (min 1 x)) (tr_vector r), tr_evidence := evs\<rparr>)\<lparr>tr_updated := t\<rparr>)" for evs t
    by (simp add: rescore_ok vec_ok_set clamp_unit)
  with ok update_effect [OF Some, of E dm x src ref] show ?thesis
    by (auto simp: ftss_ok_def Let_def all_values_set)
qed

lemma create_ok: "ftss_ok s \<Longrightarrow> ftss_ok (snd (createInitialTrustScore E n s))"
proof -
  have "in_unit (dec 5 10)" by (simp add: in_unit_def dec_5_10)
  then have "vec_ok (const_vec (dec 5 10))" by (simp add: vec_ok_simps const_vec_def)
  from composite_unit [OF this] this show "ftss_ok s \<Longrightarrow> ftss_ok (snd (createInitialTrustScore E n s))"
    unfolding const_vec_def
    by (simp add: createInitialTrustScore_def addFederationNode_def ftss_ok_def take_uuid_def take_now_def Let_def
        trust_ok_def all_values_set)
qed

lemma lift_ok: "ftss_ok s \<Longrightarrow> ftss_ok (lift_tier E n from to s)"
proof (cases "js_get (trust_scores s) n")
  case (Some r)
  assume ok: "ftss_ok s"
  with Some have "vec_ok (tr_vector r) \<and> in_unit (tr_composite r)" by (auto simp: ftss_ok_def trust_ok_def dest: all_valuesD)
  with ok Some show ?thesis by (auto simp: lift_tier_def ftss_ok_def take_now_def intro!: all_values_set)
qed (simp add: lift_tier_def)

lemma review_ok: "ftss_ok s \<Longrightarrow> ftss_ok (snd (reviewTrustAppeal E aid ok asil s))"
proof (cases "js_get (appeals s) aid")
  case (Some a)
  assume ok: "ftss_ok s"
  then have "ftss_ok (s\<lparr>tick := k, appeals := m\<rparr>)" for k m by (simp add: ftss_ok_def)
  then have "ftss_ok (lift_tier E (ap_node a) fr tt (s\<lparr>tick := k, appeals := m\<rparr>))" for k m fr tt by (rule lift_ok)
  with ok Some show ?thesis by (simp add: reviewTrustAppeal_def take_now_def Let_def) (simp add: ftss_ok_def)
qed (simp add: reviewTrustAppeal_def)

lemma find_recent_state: "\<exists>k. snd (find_recent E n as s) = s\<lparr>tick := k\<rparr>"
proof (induction as arbitrary: s)
  case Nil
  have "s = s\<lparr>tick := tick s\<rparr>" by simp
  then show ?case by (metis find_recent.simps(1) snd_conv)
next
  case (Cons a as)
  from Cons.IH [of "s\<lparr>tick := Suc (tick s)\<rparr>"] Cons.IH [of s] show ?case
    by (auto simp: take_now_def intro: exI [of _ "Suc (tick s)"])
qed

lemma submit_scores [simp]: "trust_scores (snd (submitTrustAppeal E n ds evs att s)) = trust_scores s"
  using find_recent_state [of E n "js_values (appeals s)" s]
  by (auto simp: submitTrustAppeal_def take_uuid_def take_now_def Let_def split: option.split prod.split bool.split)

lemma penalty_ok: "ftss_ok s \<Longrightarrow> ftss_ok (applyLegacyModePenalty E n s)"
proof (cases "js_get (trust_scores s) n")
  case (Some r)
  assume ok: "ftss_ok s"
  let ?v = "(tr_vector r)\<lparr>tv_temporal := max 0 (js_sub (tv_temporal (tr_vector r)) (dec 10 100))\<rparr>"
  from ok Some have v: "vec_ok (tr_vector r)" by (auto simp: ftss_ok_def trust_ok_def dest: all_valuesD)
  then have "tv_temporal (tr_vector r) - dec 10 100 \<le> 1"
    using dec_nonneg [of 10 100] order_trans [of "tv_temporal (tr_vector r) - dec 10 100" "tv_temporal (tr_vector r)" 1]
    by (auto simp: vec_ok_simps in_unit_def)
  then have "js_sub (tv_temporal (tr_vector r)) (dec 10 100) \<le> 1" unfolding js_sub_def by (rule fl_le_one)
  with v have "vec_ok ?v" by (simp add: vec_ok_simps in_unit_def)
  then have "trust_ok (rescore (r\<lparr>tr_vector := ?v\<rparr>)\<lparr>tr_updated := t\<rparr>)" for t by (simp add: rescore_ok)
  with ok Some show ?thesis
    by (simp add: applyLegacyModePenalty_def ftss_ok_def take_now_def Let_def all_values_set)
qed (simp add: applyLegacyModePenalty_def)

lemma cap_ok: "ftss_ok s \<Longrightarrow> ftss_ok (enforceLegacyModeCap E n s)"
proof (cases "js_get (trust_scores s) n")
  case (Some r)
  assume ok: "ftss_ok s"
  with Some have "vec_ok (tr_vector r) \<and> in_unit (tr_composite r)" by (auto simp: ftss_ok_def trust_ok_def dest: all_valuesD)
  with trust_ok_stamp have "trust_ok (r\<lparr>tr_tier := PROVISIONAL, tr_weight := TIER_MULTIPLIERS PROVISIONAL, tr_updated := t\<rparr>)" for t
    by blast
  with ok Some show ?thesis
    by (simp add: enforceLegacyModeCap_def ftss_ok_def take_now_def Let_def all_values_set del: TIER_MULTIPLIERS.simps)
qed (simp add: enforceLegacyModeCap_def)

subsection \<open>Runs\<close>

datatype ftss_event =
    InitFtss
  | NewNode string
  | Dimension string dimension jsnum string "string option"
  | ApidEvent string jsnum
  | RpdsEvent string jsnum
  | Consensus string bool
  | Zkals string bool bool
  | Ciems string bool
  | Temporal string bool
  | Appeal string "dimension list" "trust_evidence list" string
  | Review string bool "string option"
  | Propagate
  | Edge string string jsnum
  | Penalty string
  | Cap string

primrec ftss_step :: "sysenv \<Rightarrow> ftss_event \<Rightarrow> 'a ftss_st_scheme \<Rightarrow> 'a ftss_st_scheme" where
  "ftss_step E InitFtss s = initializeFTSS E s"
| "ftss_step E (NewNode n) s = snd (createInitialTrustScore E n s)"
| "ftss_step E (Dimension n dm x src ref) s = snd (updateTrustDimension E n dm x src ref s)"
| "ftss_step E (ApidEvent n x) s = recordAPIDEvent E n x s"
| "ftss_step E (RpdsEvent n x) s = recordRPDSEvent E n x s"
| "ftss_step E (Consensus n b) s = recordConsensusAlignment E n b s"
| "ftss_step E (Zkals n b c) s = recordZKALSVerification E n b c s"
| "ftss_step E (Ciems n b) s = recordCIEMSCompliance E n b s"
| "ftss_step E (Temporal n b) s = recordTemporalReliability E n b s"
| "ftss_step E (Appeal n ds evs att) s = snd (submitTrustAppeal E n ds evs att s)"
| "ftss_step E (Review aid ok asil) s = snd (reviewTrustAppeal E aid ok asil s)"
| "ftss_step E Propagate s = propagateTrustScores E s"
| "ftss_step E (Edge a b w) s = addFederationEdge a b w s"
| "ftss_step E (Penalty n) s = applyLegacyModePenalty E n s"
| "ftss_step E (Cap n) s = enforceLegacyModeCap E n s"

lemmas dimension_events = recordAPIDEvent_def recordRPDSEvent_def recordConsensusAlignment_def
  recordZKALSVerification_def recordCIEMSCompliance_def recordTemporalReliability_def

lemma ftss_step_ok: "ftss_ok s \<Longrightarrow> ftss_ok (ftss_step E e s)"
proof (cases e)
  case InitFtss
  then show "ftss_ok s \<Longrightarrow> ?thesis" by (simp add: initializeFTSS_def ftss_ok_def)
next
  case (Appeal n ds evs att)
  then show "ftss_ok s \<Longrightarrow> ?thesis" by (simp add: ftss_ok_def)
next
  case (Edge a b w)
  then show "ftss_ok s \<Longrightarrow> ?thesis" by (simp add: ftss_ok_def addFederationEdge_def)
qed (auto simp: create_ok update_ok review_ok propagate_ok penalty_ok cap_ok dimension_events Let_def
    split: option.split)

text \<open>What the operations write to the record ledger, and what they never write.\<close>

definition alarm :: "csr \<Rightarrow> bool" where
  "alarm r \<longleftrightarrow> c_trans r \<in> {''ftss-tier-transition'', ''ftss-expulsion-triggered'', ''ftss-quarantine-triggered''}"

definition quiet :: "'a base_st_scheme \<Rightarrow> 'a base_st_scheme \<Rightarrow> bool" where
  "quiet s t \<longleftrightarrow> filter alarm (csr_ledger t) = filter alarm (csr_ledger s)"

lemma quiet_log:
  "tr \<notin> {''ftss-tier-transition'', ''ftss-expulsion-triggered'', ''ftss-quarantine-triggered''} \<Longrightarrow>
   csr_ledger t = csr_ledger s \<Longrightarrow> quiet s (log_csr E tr d p i a t)"
  by (simp add: quiet_def log_csr_ledger alarm_def)

lemma update_quiet: "quiet s (snd (updateTrustDimension E n dm x src ref s))"
proof (cases "js_get (trust_scores s) n")
  case None
  then show ?thesis by (simp add: updateTrustDimension_def quiet_def)
next
  case (Some r)
  from update_effect [OF Some, of E dm x src ref] show ?thesis
    by (auto simp: Let_def intro!: quiet_log)
qed

lemma lift_ledger [simp]: "csr_ledger (lift_tier E n from to s) = csr_ledger s"
  by (simp add: lift_tier_def take_now_def split: option.split)

lemma step_quiet: "quiet s (ftss_step E e s)"
proof (cases e)
  case (Appeal n ds evs att)
  then show ?thesis
    using find_recent_state [of E n "js_values (appeals s)" s]
    by (auto simp: submitTrustAppeal_def take_uuid_def take_now_def Let_def quiet_def log_csr_ledger alarm_def
        split: option.split prod.split bool.split)
qed (auto simp: initializeFTSS_def createInitialTrustScore_def addFederationNode_def reviewTrustAppeal_def
    propagateTrustScores_def addFederationEdge_def applyLegacyModePenalty_def enforceLegacyModeCap_def
    dimension_events update_quiet take_uuid_def take_now_def Let_def intro!: quiet_log split: option.split,
    simp_all add: quiet_def)

interpretation trust: machine "ftss_step E" ftss_ok
  by unfold_locales (rule ftss_step_ok)

lemma run_quiet: "quiet s (fold (ftss_step E) es s)"
proof (induction es arbitrary: s)
  case (Cons e es)
  from Cons.IH [of "ftss_step E e s"] step_quiet [of s E e] show ?case by (simp add: quiet_def)
qed (simp add: quiet_def)

definition init_ftss :: ftss_st where
  "init_ftss = \<lparr>tick = 0, csr_ledger = [], wal = [], trust_scores = [], appeals = [], fed_edges = [], fed_last = 0\<rparr>"

primrec tier_rank :: "tier \<Rightarrow> nat" where
  "tier_rank EXPELLED = 0"
| "tier_rank QUARANTINED = 1"
| "tier_rank PROVISIONAL = 2"
| "tier_rank VERIFIED = 3"
| "tier_rank SOVEREIGN = 4"

lemma dec_70_100: "dec 70 100 = 3152519739159347 / 2 ^ 52"
  unfolding dec_def by (subst fl_nearest [where k = "-1" and m = 6305039478318694]) (simp_all add: power_int_def power_divide)

lemma dec_90_100: "dec 90 100 = 8106479329266893 / 2 ^ 53"
  unfolding dec_def by (subst fl_nearest [where k = "-1" and m = 8106479329266893]) (simp_all add: power_int_def power_divide)

lemma thresholds: "dec 25 100 < dec 50 100" "dec 50 100 < dec 70 100" "dec 70 100 < dec 90 100" "dec 90 100 < 1"
  "dec 50 100 = dec 5 10"
proof -
  show h: "dec 50 100 = dec 5 10" by (simp add: dec_def)
  show "dec 25 100 < dec 50 100" "dec 50 100 < dec 70 100" "dec 70 100 < dec 90 100" "dec 90 100 < 1"
    unfolding h dec_25_100 dec_5_10 dec_70_100 dec_90_100 by simp_all
qed

lemma tier_mono: "x \<le> y \<Longrightarrow> tier_rank (scoreToTier x) \<le> tier_rank (scoreToTier y)"
  using thresholds by (auto simp: scoreToTier_def)

lemma half_tier: "scoreToTier (dec 5 10) = PROVISIONAL"
  using thresholds by (simp add: scoreToTier_def)

lemma zero_tier: "computeComposite (const_vec 0) = 0" "scoreToTier 0 = EXPELLED"
proof -
  show "computeComposite (const_vec 0) = 0"
    by (simp add: computeComposite_def const_vec_def js_add_def js_mul_def)
  have "0 < dec 25 100" by (simp add: dec_25_100)
  then show "scoreToTier 0 = EXPELLED" using thresholds by (simp add: scoreToTier_def)
qed

lemma after_update:
  assumes "js_get (trust_scores s) n = Some r"
  shows "\<exists>r'. fst (updateTrustDimension E n dm x src ref s) = Some r' \<and>
     trust_scores (snd (updateTrustDimension E n dm x src ref s)) = js_set n r' (trust_scores s) \<and>
     tr_vector r' = tv_set dm (max 0 (min 1 x)) (tr_vector r) \<and> tr_composite r' = computeComposite (tr_vector r') \<and>
     tr_tier r' = scoreToTier (tr_composite r')"
  using update_effect [OF assms, of E dm x src ref] by (auto simp: Let_def rescore_def)

text \<open>A node whose six dimensions all drop to zero.\<close>

definition fall :: "string \<Rightarrow> ftss_event list" where
  "fall n = NewNode n # map (\<lambda>d. Dimension n d 0 ''MANUAL'' None)
     [IdentityConsistency, ConstraintCompliance, ApidThreatRate, RpdsHealthRate, ConsensusAlignment, TemporalReliability]"

lemma zero_run:
  assumes "js_get (trust_scores s) n = Some r"
  shows "ds \<noteq> [] \<Longrightarrow> \<exists>r'. js_get (trust_scores (fold (ftss_step E) (map (\<lambda>d. Dimension n d 0 src ref) ds) s)) n = Some r' \<and>
    tr_vector r' = fold (\<lambda>d. tv_set d 0) ds (tr_vector r) \<and> tr_tier r' = scoreToTier (computeComposite (tr_vector r'))"
proof (induction ds rule: rev_induct)
  case (snoc d ds)
  let ?t = "fold (ftss_step E) (map (\<lambda>d. Dimension n d 0 src ref) ds) s"
  obtain q where q: "js_get (trust_scores ?t) n = Some q" "tr_vector q = fold (\<lambda>d. tv_set d 0) ds (tr_vector r)"
    using snoc.IH assms by (cases "ds = []") auto
  from after_update [OF q(1), of E d 0 src ref] q(2) show ?case by auto
qed simp

lemma fall_expels: "\<exists>r. js_get (trust_scores (fold (ftss_step E) (fall n) init_ftss)) n = Some r \<and> tr_tier r = EXPELLED"
proof -
  have "\<exists>r. js_get (trust_scores (ftss_step E (NewNode n) init_ftss)) n = Some r"
    by (simp add: createInitialTrustScore_def addFederationNode_def take_uuid_def take_now_def Let_def init_ftss_def)
  then obtain r where r: "js_get (trust_scores (ftss_step E (NewNode n) init_ftss)) n = Some r" ..
  have "fold (\<lambda>d. tv_set d 0)
     [IdentityConsistency, ConstraintCompliance, ApidThreatRate, RpdsHealthRate, ConsensusAlignment, TemporalReliability]
     (tr_vector r) = const_vec 0"
    by (simp add: const_vec_def)
  with zero_run [OF r, of "[IdentityConsistency, ConstraintCompliance, ApidThreatRate, RpdsHealthRate,
      ConsensusAlignment, TemporalReliability]" E "''MANUAL''" None] zero_tier
  show ?thesis by (auto simp: fall_def simp del: ftss_step.simps)
qed

subsection \<open>Properties\<close>

text \<open>C12. After any sequence of trust operations from an empty federation, every dimension of every
  node and its composite score lie between 0 and 1, and the weight its vote gets is the
  multiplier of its tier.\<close>

theorem trust_scores_bounded:
  assumes "trust_scores s = []" and "js_get (trust_scores (fold (ftss_step E) es s)) n = Some r"
  shows "(\<forall>d. 0 \<le> tv_get d (tr_vector r) \<and> tv_get d (tr_vector r) \<le> 1) \<and>
     0 \<le> tr_composite r \<and> tr_composite r \<le> 1 \<and>
     getConsensusWeight n (fold (ftss_step E) es s) = TIER_MULTIPLIERS (tr_tier r)"
proof -
  have "ftss_ok s" using assms(1) by (simp add: ftss_ok_def)
  then have "ftss_ok (fold (ftss_step E) es s)" by (rule trust.run_inv)
  with assms(2) have "trust_ok r" by (auto simp: ftss_ok_def dest: all_valuesD)
  with assms(2) show ?thesis by (auto simp: trust_ok_def vec_ok_def in_unit_def getConsensusWeight_def)
qed

theorem trust_scores_witness:
  "\<exists>r. js_get (trust_scores (fold (ftss_step demo_env) (fall ''n'') init_ftss)) ''n'' = Some r \<and> 0 \<le> tr_composite r \<and>
     getConsensusWeight ''n'' (fold (ftss_step demo_env) (fall ''n'') init_ftss) = 0"
proof -
  obtain r where r: "js_get (trust_scores (fold (ftss_step demo_env) (fall ''n'') init_ftss)) ''n'' = Some r" "tr_tier r = EXPELLED"
    using fall_expels by blast
  then show ?thesis using trust_scores_bounded [OF _ r(1)] by (auto simp: init_ftss_def)
qed

text \<open>In the binary64 arithmetic of the program the composite is monotone: raising dimensions
  never lowers the score or the tier. Full marks give exactly 1, the neutral vector exactly
  0.5, which makes a new node provisional, and a vector of zeros exactly 0.\<close>

theorem composite_is_monotone:
  assumes "\<forall>d. tv_get d v \<le> tv_get d w"
  shows "computeComposite v \<le> computeComposite w \<and>
     tier_rank (scoreToTier (computeComposite v)) \<le> tier_rank (scoreToTier (computeComposite w)) \<and>
     computeComposite (const_vec 1) = 1 \<and> computeComposite (const_vec 0) = 0 \<and>
     computeComposite (tr_vector (fst (createInitialTrustScore E n s))) = 1 / 2 \<and>
     tr_tier (fst (createInitialTrustScore E n s)) = PROVISIONAL"
proof -
  have c: "computeComposite v \<le> computeComposite w" using assms by (intro composite_mono) (simp add: vec_le_def)
  moreover have "tr_vector (fst (createInitialTrustScore E n s)) = const_vec (dec 5 10) \<and>
      tr_tier (fst (createInitialTrustScore E n s)) = scoreToTier (computeComposite (const_vec (dec 5 10)))"
    by (simp add: createInitialTrustScore_def take_uuid_def take_now_def Let_def const_vec_def)
  moreover note tier_mono [OF c]
  ultimately show ?thesis
    unfolding composite_halves half_tier by (simp add: composite_halves composite_ones zero_tier) (simp add: dec_5_10)
qed

theorem composite_is_monotone_witness:
  "computeComposite (const_vec 0) \<le> computeComposite (const_vec 1) \<and>
   tr_tier (fst (createInitialTrustScore demo_env ''n'' init_ftss)) = PROVISIONAL"
proof -
  have "\<forall>d. tv_get d (const_vec 0) \<le> tv_get d (const_vec 1)" by (simp add: all_dims const_vec_def)
  from composite_is_monotone [OF this, of demo_env "''n''" init_ftss] show ?thesis by blast
qed

text \<open>A change of tier is never announced: no sequence of trust operations writes a record of a
  tier transition, an expulsion or a quarantine, although nodes do get expelled. The check for
  a transition compares the tier that was just stored with the tier of the same score.\<close>

theorem tier_changes_unannounced:
  "filter alarm (csr_ledger (fold (ftss_step E) es s)) = filter alarm (csr_ledger s) \<and>
   (\<exists>r. js_get (trust_scores (fold (ftss_step E) (fall n) init_ftss)) n = Some r \<and> tr_tier r = EXPELLED)"
  using run_quiet [of s E es] fall_expels by (auto simp: quiet_def)

text \<open>What an appeal review does to the tier of the node: with approval and a countersignature a
  provisional or quarantined node becomes verified and an expelled node stays expelled, with
  approval alone a quarantined or expelled node becomes provisional. Scores are never changed,
  and the next update of any dimension puts the node back in the tier of its score.\<close>

theorem review_changes_tier_only:
  assumes "js_get (appeals s) aid = Some a" and "js_get (trust_scores s) (ap_node a) = Some r"
    and "reviewTrustAppeal E aid ok asil s = (res, s')"
  shows "\<exists>r'. js_get (trust_scores s') (ap_node a) = Some r' \<and>
     tr_vector r' = tr_vector r \<and> tr_composite r' = tr_composite r \<and>
     tr_tier r' = (if ok \<and> nonempty_opt asil then if tr_tier r \<in> {PROVISIONAL, QUARANTINED} then VERIFIED else tr_tier r
                   else if ok \<and> tr_tier r \<in> {EXPELLED, QUARANTINED} then PROVISIONAL else tr_tier r) \<and>
     (\<forall>dm x src ref. \<exists>r''. fst (updateTrustDimension E (ap_node a) dm x src ref s') = Some r'' \<and>
        tr_tier r'' = scoreToTier (computeComposite (tv_set dm (max 0 (min 1 x)) (tr_vector r))))"
proof -
  have "\<exists>r'. js_get (trust_scores s') (ap_node a) = Some r' \<and>
     tr_vector r' = tr_vector r \<and> tr_composite r' = tr_composite r \<and>
     tr_tier r' = (if ok \<and> nonempty_opt asil then if tr_tier r \<in> {PROVISIONAL, QUARANTINED} then VERIFIED else tr_tier r
                   else if ok \<and> tr_tier r \<in> {EXPELLED, QUARANTINED} then PROVISIONAL else tr_tier r)"
    using assms by (auto simp: reviewTrustAppeal_def lift_tier_def take_now_def Let_def split: if_splits)
  then obtain r' where r': "js_get (trust_scores s') (ap_node a) = Some r'" "tr_vector r' = tr_vector r"
    "tr_composite r' = tr_composite r"
    "tr_tier r' = (if ok \<and> nonempty_opt asil then if tr_tier r \<in> {PROVISIONAL, QUARANTINED} then VERIFIED else tr_tier r
                   else if ok \<and> tr_tier r \<in> {EXPELLED, QUARANTINED} then PROVISIONAL else tr_tier r)" by blast
  have "\<exists>r''. fst (updateTrustDimension E (ap_node a) dm x src ref s') = Some r'' \<and>
      tr_tier r'' = scoreToTier (computeComposite (tv_set dm (max 0 (min 1 x)) (tr_vector r)))" for dm x src ref
    using after_update [OF r'(1), of E dm x src ref] r'(2) by auto
  with r' show ?thesis by blast
qed

definition demo_node :: "tier \<Rightarrow> trust_record" where
  "demo_node t = \<lparr>tr_id = ''s'', tr_node = ''n'', tr_vector = const_vec 0, tr_composite = 0, tr_tier = t,
     tr_weight = TIER_MULTIPLIERS t, tr_updated = 0, tr_evidence = [], tr_version = 0\<rparr>"

definition demo_appeal :: appeal where
  "demo_appeal = \<lparr>ap_id = ''a'', ap_node = ''n'', ap_contested = [], ap_evidence = [], ap_attestation = [],
     ap_status = PENDING, ap_submitted = 0, ap_reviewed = None, ap_cie = False, ap_asil = None\<rparr>"

definition demo_review :: ftss_st where
  "demo_review = init_ftss\<lparr>trust_scores := [(''n'', demo_node EXPELLED)], appeals := [(''a'', demo_appeal)]\<rparr>"

theorem review_witness:
  "(\<exists>r. js_get (trust_scores (snd (reviewTrustAppeal demo_env ''a'' True (Some ''sig'') demo_review))) ''n'' = Some r \<and>
      tr_tier r = EXPELLED) \<and>
   (\<exists>r. js_get (trust_scores (snd (reviewTrustAppeal demo_env ''a'' True None demo_review))) ''n'' = Some r \<and>
      tr_tier r = PROVISIONAL)"
proof -
  have a: "js_get (appeals demo_review) ''a'' = Some demo_appeal" by (simp add: demo_review_def)
  have r: "js_get (trust_scores demo_review) (ap_node demo_appeal) = Some (demo_node EXPELLED)"
    by (simp add: demo_review_def demo_appeal_def)
  have n: "ap_node demo_appeal = ''n''" "tr_tier (demo_node EXPELLED) = EXPELLED"
    by (simp_all add: demo_appeal_def demo_node_def)
  note review_changes_tier_only [OF a r surjective_pairing, of demo_env True, unfolded n]
  from this [of "Some ''sig''"] this [of None] show ?thesis by (auto simp: nonempty_opt_def)
qed

end
