(* ===== verification/Rpds.thy ===== *)
theory Rpds
  imports Csr
begin

text \<open>
  The reasoning poisoning detection (\<open>agent/sovereign-x/rpds.ts\<close>): execution states, the first one
  of a kernel becoming its baseline, the comparison of later ones with it in binary64, the
  remediation it recommends, and the proof chains it leaves. The two string-keyed objects of a
  state are lists of pairs in property order, without names that objects inherit. The reports a
  chain refers to are the array that the registry goes on filling, so a chain stores none of its
  own (\<open>chain_reports\<close>).
\<close>

datatype poisoning =
    WEIGHT_DRIFT | CONTEXT_CONTAMINATION | CONSTRAINT_EROSION | IDENTITY_SUBSTITUTION
  | TEMPORAL_ANCHOR_LOSS | FEDERATION_BLEED | REPLAY_CORRUPTION | CONSENSUS_DRIFT

primrec poisoning_name :: "poisoning \<Rightarrow> string" where
  "poisoning_name WEIGHT_DRIFT = ''WEIGHT_DRIFT''"
| "poisoning_name CONTEXT_CONTAMINATION = ''CONTEXT_CONTAMINATION''"
| "poisoning_name CONSTRAINT_EROSION = ''CONSTRAINT_EROSION''"
| "poisoning_name IDENTITY_SUBSTITUTION = ''IDENTITY_SUBSTITUTION''"
| "poisoning_name TEMPORAL_ANCHOR_LOSS = ''TEMPORAL_ANCHOR_LOSS''"
| "poisoning_name FEDERATION_BLEED = ''FEDERATION_BLEED''"
| "poisoning_name REPLAY_CORRUPTION = ''REPLAY_CORRUPTION''"
| "poisoning_name CONSENSUS_DRIFT = ''CONSENSUS_DRIFT''"

datatype monitoring = MODE_CONTINUOUS | MODE_PERIODIC | MODE_TRIGGERED

primrec mode_name :: "monitoring \<Rightarrow> string" where
  "mode_name MODE_CONTINUOUS = ''MODE_CONTINUOUS''"
| "mode_name MODE_PERIODIC = ''MODE_PERIODIC''"
| "mode_name MODE_TRIGGERED = ''MODE_TRIGGERED''"

datatype remediation = NoRemedy | ROLLBACK | ISOLATE | HARD_RESET | ESCALATE_TO_CIEMS

primrec remedy_name :: "remediation \<Rightarrow> string" where
  "remedy_name NoRemedy = ''NONE''"
| "remedy_name ROLLBACK = ''ROLLBACK''"
| "remedy_name ISOLATE = ''ISOLATE''"
| "remedy_name HARD_RESET = ''HARD_RESET''"
| "remedy_name ESCALATE_TO_CIEMS = ''ESCALATE_TO_CIEMS''"

record exec_state =
  x_id :: string
  x_kernel :: string
  x_time :: string
  x_weights :: "(string \<times> jsnum) list"
  x_context :: string
  x_constraints :: "(string \<times> bool) list"
  x_persona :: string
  x_causal :: string
  x_federation :: "string option"
  x_threshold :: jsnum
  x_memory :: "(string, string) jsmap"

record health_report =
  hr_id :: string
  hr_kernel :: string
  hr_mode :: monitoring
  hr_vectors :: "poisoning list"
  hr_deviation :: jsnum
  hr_integrity :: jsnum
  hr_coherence :: jsnum
  hr_causal_ok :: bool
  hr_action :: remediation
  hr_checkpoint :: string
  hr_time :: time

record proof_chain =
  pc_id :: string
  pc_kernel :: string
  pc_before :: "exec_state option"
  pc_report :: health_report
  pc_action :: remediation
  pc_after :: "exec_state option"
  pc_signature :: string
  pc_ready :: bool
  pc_time :: time

record rpds_st = base_st +
  baselines :: "(string, exec_state) jsmap"
  health :: "(string, health_report list) jsmap"
  chains :: "proof_chain list"

subsection \<open>Texts\<close>

text \<open>A state as the object that is hashed; a \<open>Map\<close> itself has no JSON properties.\<close>

definition state_fields :: "exec_state \<Rightarrow> (string \<times> json) list" where
  "state_fields x =
     [(''stateId'', JStr (x_id x)), (''kernelId'', JStr (x_kernel x)), (''timestamp'', JStr (x_time x)),
      (''reasoningWeights'', JObj (map (\<lambda>(k, v). (k, JNum v)) (x_weights x))),
      (''contextHash'', JStr (x_context x)),
      (''constraintIntegrity'', JObj (map (\<lambda>(k, v). (k, JBool v)) (x_constraints x))),
      (''identityPersona'', JStr (x_persona x)), (''causalIndex'', JStr (x_causal x)),
      (''federationStateHash'', jopt_str (x_federation x)), (''consensusThreshold'', JNum (x_threshold x))]"

definition hashState :: "sysenv \<Rightarrow> exec_state \<Rightarrow> string" where
  "hashState E x = sha256 E (stringify (JObj (state_fields x @
     [(''memorySegments'', JArr (map (\<lambda>(k, v). JArr [JStr k, JStr v]) (x_memory x)))])))"

definition state_json :: "exec_state option \<Rightarrow> json" where
  "state_json x = (case x of None \<Rightarrow> JNull | Some x \<Rightarrow> JObj (state_fields x @ [(''memorySegments'', JObj [])]))"

definition report_json :: "health_report \<Rightarrow> json" where
  "report_json r = JObj
     [(''reportId'', JStr (hr_id r)), (''kernelId'', JStr (hr_kernel r)),
      (''monitoringMode'', JStr (mode_name (hr_mode r))),
      (''poisoningVectorsDetected'', jstrs (map poisoning_name (hr_vectors r))),
      (''baselineDeviationScore'', JNum (hr_deviation r)), (''constraintIntegrityScore'', JNum (hr_integrity r)),
      (''identityCoherenceScore'', JNum (hr_coherence r)), (''causalIndexValid'', JBool (hr_causal_ok r)),
      (''recommendedAction'', JStr (remedy_name (hr_action r))), (''checkpointReference'', JStr (hr_checkpoint r)),
      (''timestamp'', JStr (iso_string (hr_time r)))]"

definition signProofChain :: "sysenv \<Rightarrow> proof_chain \<Rightarrow> health_report list \<Rightarrow> string" where
  "signProofChain E c rs = sign_as E ''rpds'' (stringify (JObj
     [(''chainId'', JStr (pc_id c)), (''kernelId'', JStr (pc_kernel c)),
      (''prePoisonBaseline'', state_json (pc_before c)), (''detectedDeviation'', report_json (pc_report c)),
      (''intermediateReports'', JArr (map report_json rs)), (''remediationAction'', JStr (remedy_name (pc_action c))),
      (''postRemediationState'', state_json (pc_after c)), (''cryptographicSignature'', JStr (pc_signature c)),
      (''asilIngestionReady'', JBool (pc_ready c)), (''chainTimestamp'', JStr (iso_string (pc_time c)))]))"

subsection \<open>The comparison\<close>

definition num_at :: "(string \<times> jsnum) list \<Rightarrow> string \<Rightarrow> jsnum" where
  "num_at m k = (case map_of m k of Some x \<Rightarrow> x | None \<Rightarrow> 0)"

text \<open>The keys of both objects, each once, those of the baseline first.\<close>

definition all_keys :: "(string \<times> 'v) list \<Rightarrow> (string \<times> 'v) list \<Rightarrow> string list" where
  "all_keys b c = map fst b @ filter (\<lambda>k. k \<notin> fst ` set b) (map fst c)"

definition computeWeightDrift :: "(string \<times> jsnum) list \<Rightarrow> (string \<times> jsnum) list \<Rightarrow> jsnum" where
  "computeWeightDrift b c =
     (let ks = all_keys b c;
          drift = foldl (\<lambda>total k.
            let x = num_at b k; y = num_at c k; m = max \<bar>x\<bar> (max \<bar>y\<bar> 1)
            in js_add total (js_div \<bar>js_sub x y\<bar> m)) 0 ks
      in if length ks > 0 then js_div drift (of_nat (length ks)) else 0)"

definition computeConstraintErosion :: "(string \<times> bool) list \<Rightarrow> (string \<times> bool) list \<Rightarrow> jsnum" where
  "computeConstraintErosion b c =
     (if b = [] then 0
      else js_div (of_nat (length (filter (\<lambda>k. map_of b k = Some True \<and> map_of c k \<noteq> Some True) (map fst b))))
             (of_nat (length b)))"

definition computeIdentityCoherence :: "exec_state \<Rightarrow> exec_state \<Rightarrow> jsnum" where
  "computeIdentityCoherence b c = (if x_persona b = x_persona c then 1 else 0)"

definition diff01 :: "'v \<Rightarrow> 'v \<Rightarrow> jsnum" where
  "diff01 a b = (if a = b then 0 else 1)"

definition computeBaselineDeviation :: "exec_state \<Rightarrow> exec_state \<Rightarrow> jsnum" where
  "computeBaselineDeviation b c =
     js_div (js_add (js_add (js_add (js_add (js_add (js_add
       (computeWeightDrift (x_weights b) (x_weights c))
       (diff01 (x_context b) (x_context c)))
       (computeConstraintErosion (x_constraints b) (x_constraints c)))
       (diff01 (x_persona b) (x_persona c)))
       (diff01 (x_causal b) (x_causal c)))
       (diff01 (x_federation b) (x_federation c)))
       \<bar>js_sub (x_threshold b) (x_threshold c)\<bar>) 7"

definition computeConstraintIntegrity :: "exec_state \<Rightarrow> exec_state \<Rightarrow> jsnum" where
  "computeConstraintIntegrity b c =
     (if x_constraints b = [] then 1
      else js_div (of_nat (length (filter (\<lambda>k. map_of (x_constraints b) k = Some True \<and>
               map_of (x_constraints c) k = Some True) (map fst (x_constraints b)))))
             (of_nat (length (x_constraints b))))"

definition bleeds :: "string option \<Rightarrow> string option \<Rightarrow> bool" where
  "bleeds a b = (case (a, b) of (Some x, Some y) \<Rightarrow> x \<noteq> [] \<and> y \<noteq> [] \<and> x \<noteq> y | _ \<Rightarrow> False)"

text \<open>The vectors with the test that reports each, in the order of the code.\<close>

definition detections :: "exec_state \<Rightarrow> exec_state \<Rightarrow> (poisoning \<times> bool) list" where
  "detections b c =
     [(WEIGHT_DRIFT, computeWeightDrift (x_weights b) (x_weights c) > dec 15 100),
      (CONTEXT_CONTAMINATION, x_context b \<noteq> x_context c),
      (CONSTRAINT_EROSION, computeConstraintErosion (x_constraints b) (x_constraints c) > dec 1 10),
      (IDENTITY_SUBSTITUTION, x_persona b \<noteq> x_persona c),
      (TEMPORAL_ANCHOR_LOSS, x_causal b \<noteq> x_causal c),
      (FEDERATION_BLEED, bleeds (x_federation b) (x_federation c)),
      (REPLAY_CORRUPTION, x_causal c = [] \<or> x_causal c = ''replay-corrupted''),
      (CONSENSUS_DRIFT, x_threshold b \<noteq> x_threshold c)]"

definition detectPoisoningVectors :: "exec_state \<Rightarrow> exec_state \<Rightarrow> poisoning list" where
  "detectPoisoningVectors b c = map fst (filter snd (detections b c))"

definition determineRemediation :: "poisoning list \<Rightarrow> jsnum \<Rightarrow> jsnum \<Rightarrow> jsnum \<Rightarrow> remediation" where
  "determineRemediation vs deviation integrity coherence =
     (if length vs = 0 \<and> deviation < dec 5 100 then NoRemedy
      else if length vs \<ge> 3 \<or> deviation > dec 7 10 \<or> integrity < dec 3 10 \<or> integrity = 0 then HARD_RESET
      else if length vs \<ge> 2 \<or> deviation > dec 5 10 \<or> integrity < dec 5 10 \<or> coherence < dec 5 10 then ISOLATE
      else if length vs \<ge> 1 \<or> deviation > dec 3 10 \<or> integrity < dec 7 10 then ROLLBACK
      else ESCALATE_TO_CIEMS)"

subsection \<open>Operations\<close>

abbreviation log_rpds :: "sysenv \<Rightarrow> string \<Rightarrow> (string \<times> json) list \<Rightarrow> 'a base_st_scheme \<Rightarrow> 'a base_st_scheme" where
  "log_rpds E tr payload \<equiv> log_csr E tr ''rpds'' payload None ''rpds''"

definition registerBaseline :: "sysenv \<Rightarrow> exec_state \<Rightarrow> 'a rpds_st_scheme \<Rightarrow> 'a rpds_st_scheme" where
  "registerBaseline E x s =
     log_rpds E ''rpds-baseline-registered'' [(''kernelId'', JStr (x_kernel x)), (''stateHash'', JStr (hashState E x))]
       (s\<lparr>baselines := js_set (x_kernel x) x (baselines s)\<rparr>)"

definition getBaseline :: "string \<Rightarrow> 'a rpds_st_scheme \<Rightarrow> exec_state option" where
  "getBaseline k s = js_get (baselines s) k"

definition getHealthReports :: "string \<Rightarrow> 'a rpds_st_scheme \<Rightarrow> health_report list" where
  "getHealthReports k s = (case js_get (health s) k of Some rs \<Rightarrow> rs | None \<Rightarrow> [])"

definition chain_reports :: "proof_chain \<Rightarrow> 'a rpds_st_scheme \<Rightarrow> health_report list" where
  "chain_reports c s = getHealthReports (pc_kernel c) s"

definition createHealthReport ::
    "sysenv \<Rightarrow> string \<Rightarrow> monitoring \<Rightarrow> poisoning list \<Rightarrow> jsnum \<Rightarrow> jsnum \<Rightarrow> jsnum \<Rightarrow> bool \<Rightarrow> remediation \<Rightarrow> string \<Rightarrow>
     'a rpds_st_scheme \<Rightarrow> health_report \<times> 'a rpds_st_scheme" where
  "createHealthReport E k mode vs dv ig co ca action ref s =
     (let (u, s1) = take_uuid E s; (t, s2) = take_now E s1
      in (\<lparr>hr_id = u, hr_kernel = k, hr_mode = mode, hr_vectors = vs, hr_deviation = dv, hr_integrity = ig,
           hr_coherence = co, hr_causal_ok = ca, hr_action = action, hr_checkpoint = ref, hr_time = t\<rparr>, s2))"

definition executeRemediation :: "sysenv \<Rightarrow> string \<Rightarrow> remediation \<Rightarrow> health_report \<Rightarrow> 'a rpds_st_scheme \<Rightarrow> 'a rpds_st_scheme" where
  "executeRemediation E k action rep s =
     (if action = NoRemedy then s
      else let b = js_get (baselines s) k;
               (u, s1) = take_uuid E s; (t, s2) = take_now E s1;
               c = \<lparr>pc_id = u, pc_kernel = k, pc_before = b, pc_report = rep, pc_action = action, pc_after = b,
                    pc_signature = [], pc_ready = True, pc_time = t\<rparr>;
               c' = c\<lparr>pc_signature := signProofChain E c (getHealthReports k s2)\<rparr>;
               s3 = s2\<lparr>chains := chains s2 @ [c']\<rparr>
           in log_rpds E ''rpds-remediation-executed''
                [(''kernelId'', JStr k), (''action'', JStr (remedy_name action)), (''chainId'', JStr u),
                 (''vectors'', jstrs (map poisoning_name (hr_vectors rep)))] s3)"

definition evaluateState ::
    "sysenv \<Rightarrow> string \<Rightarrow> exec_state \<Rightarrow> monitoring \<Rightarrow> 'a rpds_st_scheme \<Rightarrow> health_report \<times> 'a rpds_st_scheme" where
  "evaluateState E k x mode s =
     (case js_get (baselines s) k of
        None \<Rightarrow> createHealthReport E k mode [] 0 1 1 True NoRemedy ''genesis'' (registerBaseline E x s)
      | Some b \<Rightarrow>
          let vs = detectPoisoningVectors b x;
              dv = computeBaselineDeviation b x;
              ig = computeConstraintIntegrity b x;
              co = computeIdentityCoherence b x;
              action = determineRemediation vs dv ig co;
              (rep, s1) = createHealthReport E k mode vs dv ig co (x_causal b = x_causal x) action (hashState E b) s;
              s2 = s1\<lparr>health := js_set k (getHealthReports k s1 @ [rep]) (health s1)\<rparr>;
              s3 = (if action \<noteq> NoRemedy then executeRemediation E k action rep s2 else s2)
          in (rep, log_rpds E ''rpds-state-evaluated''
                [(''kernelId'', JStr k), (''mode'', JStr (mode_name mode)), (''vectors'', jnat (length vs)),
                 (''deviation'', JNum dv), (''action'', JStr (remedy_name action))] s3))"

definition getProofChains :: "'a rpds_st_scheme \<Rightarrow> proof_chain list" where
  "getProofChains s = chains s"

definition getProofChain :: "string \<Rightarrow> 'a rpds_st_scheme \<Rightarrow> proof_chain option" where
  "getProofChain cid s = List.find (\<lambda>c. pc_id c = cid) (chains s)"

definition activateTriggeredMode :: "sysenv \<Rightarrow> string \<Rightarrow> 'a rpds_st_scheme \<Rightarrow> 'a rpds_st_scheme" where
  "activateTriggeredMode E k s =
     (case List.find (\<lambda>x. x_kernel x = k) (js_values (baselines s)) of
        Some x \<Rightarrow> snd (evaluateState E k x MODE_TRIGGERED s)
      | None \<Rightarrow> s)"

definition getRPDSStatus :: "'a rpds_st_scheme \<Rightarrow> nat \<times> nat \<times> nat \<times> nat" where
  "getRPDSStatus s = (length (baselines s), sum_list (map length (js_values (health s))), length (chains s), 0)"

definition clearRPDS :: "'a rpds_st_scheme \<Rightarrow> 'a rpds_st_scheme" where
  "clearRPDS s = s\<lparr>baselines := [], health := [], chains := []\<rparr>"

subsection \<open>What an evaluation does\<close>

lemma rpds_frame [simp]:
  "baselines (log_csr E tr d p i a s) = baselines s" "health (log_csr E tr d p i a s) = health s"
  "chains (log_csr E tr d p i a s) = chains s"
  by (simp_all add: log_csr_update)

lemma weight_drift_same [simp]: "computeWeightDrift w w = 0"
proof -
  have "foldl (\<lambda>total k. js_add total (js_div \<bar>js_sub (num_at w k) (num_at w k)\<bar> (max \<bar>num_at w k\<bar> (max \<bar>num_at w k\<bar> 1)))) 0 ks = 0" for ks
    by (induction ks) (simp_all add: js_sub_def js_div_def js_add_def)
  then show ?thesis by (simp add: computeWeightDrift_def Let_def js_div_def)
qed

lemma erosion_same [simp]: "computeConstraintErosion c c = 0"
proof -
  have "filter (\<lambda>k. map_of c k = Some True \<and> map_of c k \<noteq> Some True) (map fst c) = []" by (simp add: filter_False)
  then show ?thesis by (simp add: computeConstraintErosion_def js_div_def)
qed

lemma deviation_same: "computeBaselineDeviation b b = 0"
  by (simp add: computeBaselineDeviation_def diff01_def js_sub_def js_add_def js_div_def)

text \<open>Which remedy the number of vectors and the coherence of the persona force.\<close>

lemma remedy_spec:
  "determineRemediation vs dv ig co = NoRemedy \<longleftrightarrow> vs = [] \<and> dv < dec 5 100"
  "length vs \<ge> 3 \<Longrightarrow> determineRemediation vs dv ig co = HARD_RESET"
  "length vs = 2 \<or> vs \<noteq> [] \<and> co = 0 \<Longrightarrow> determineRemediation vs dv ig co \<in> {ISOLATE, HARD_RESET}"
  "length vs = 1 \<Longrightarrow> determineRemediation vs dv ig co \<in> {ROLLBACK, ISOLATE, HARD_RESET}"
proof -
  have "(0 :: jsnum) < dec 5 10" by (simp add: dec_def fl_pos)
  then show "length vs = 2 \<or> vs \<noteq> [] \<and> co = 0 \<Longrightarrow> determineRemediation vs dv ig co \<in> {ISOLATE, HARD_RESET}"
    by (auto simp: determineRemediation_def)
qed (auto simp: determineRemediation_def)

lemma evaluate_effect:
  assumes "js_get (baselines s) k = Some b" and "evaluateState E k x mode s = (rep, s')"
  shows "hr_vectors rep = detectPoisoningVectors b x \<and> hr_deviation rep = computeBaselineDeviation b x \<and>
     hr_integrity rep = computeConstraintIntegrity b x \<and> hr_coherence rep = computeIdentityCoherence b x \<and>
     hr_kernel rep = k \<and>
     hr_action rep = determineRemediation (hr_vectors rep) (hr_deviation rep) (hr_integrity rep) (hr_coherence rep) \<and>
     baselines s' = baselines s \<and>
     health s' = js_set k (getHealthReports k s @ [rep]) (health s) \<and>
     (hr_action rep = NoRemedy \<longrightarrow> chains s' = chains s) \<and>
     (hr_action rep \<noteq> NoRemedy \<longrightarrow>
      (\<exists>c. chains s' = chains s @ [c] \<and> pc_kernel c = k \<and> pc_report c = rep \<and> pc_action c = hr_action rep \<and>
         pc_before c = Some b \<and> pc_after c = Some b))"
  using assms
  by (auto simp: evaluateState_def createHealthReport_def executeRemediation_def take_uuid_def take_now_def
      getHealthReports_def Let_def split: if_splits)

lemma evaluate_first:
  assumes "js_get (baselines s) k = None" and "evaluateState E k x mode s = (rep, s')"
  shows "hr_action rep = NoRemedy \<and> hr_vectors rep = [] \<and> baselines s' = js_set (x_kernel x) x (baselines s) \<and>
     health s' = health s \<and> chains s' = chains s"
  using assms by (auto simp: evaluateState_def createHealthReport_def registerBaseline_def take_uuid_def take_now_def)

subsection \<open>Runs\<close>

datatype rpds_event = Baseline exec_state | Evaluate string exec_state monitoring | Trigger string

primrec rpds_step :: "sysenv \<Rightarrow> rpds_event \<Rightarrow> 'a rpds_st_scheme \<Rightarrow> 'a rpds_st_scheme" where
  "rpds_step E (Baseline x) s = registerBaseline E x s"
| "rpds_step E (Evaluate k x mode) s = snd (evaluateState E k x mode s)"
| "rpds_step E (Trigger k) s = activateTriggeredMode E k s"

text \<open>The proof chains of a kernel are one per report that recommends a remedy, in order, and the
  state after the remedy is the one before.\<close>

definition rpds_ok :: "'a rpds_st_scheme \<Rightarrow> bool" where
  "rpds_ok s \<longleftrightarrow>
     (\<forall>k. map pc_report (filter (\<lambda>c. pc_kernel c = k) (chains s)) =
          filter (\<lambda>r. hr_action r \<noteq> NoRemedy) (getHealthReports k s)) \<and>
     (\<forall>c\<in>set (chains s). pc_action c = hr_action (pc_report c) \<and> pc_before c \<noteq> None \<and> pc_after c = pc_before c)"

lemma evaluate_ok:
  assumes ok: "rpds_ok s" and ev: "evaluateState E k x mode s = (rep, s')"
  shows "rpds_ok s'"
proof (cases "js_get (baselines s) k")
  case None
  with evaluate_first [OF None ev] ok show ?thesis by (simp add: rpds_ok_def getHealthReports_def)
next
  case (Some b)
  note e = evaluate_effect [OF Some ev]
  from e have "health s' = js_set k (getHealthReports k s @ [rep]) (health s)" by blast
  then have h: "getHealthReports j s' = getHealthReports j s @ (if j = k then [rep] else [])" for j
    by (simp add: getHealthReports_def)
  show ?thesis
  proof (cases "hr_action rep = NoRemedy")
    case True
    with e have "chains s' = chains s" by blast
    with True ok show ?thesis by (simp add: rpds_ok_def h)
  next
    case False
    with e have "\<exists>c. chains s' = chains s @ [c] \<and> pc_kernel c = k \<and> pc_report c = rep \<and> pc_action c = hr_action rep \<and>
        pc_before c = Some b \<and> pc_after c = Some b" by blast
    then obtain c where "chains s' = chains s @ [c]" "pc_kernel c = k" "pc_report c = rep"
      "pc_action c = hr_action rep" "pc_before c = Some b" "pc_after c = Some b" by blast
    with ok False show ?thesis by (auto simp: rpds_ok_def h)
  qed
qed

lemma rpds_step_ok: "rpds_ok s \<Longrightarrow> rpds_ok (rpds_step E e s)"
proof (cases e)
  case (Baseline x)
  then show "rpds_ok s \<Longrightarrow> ?thesis" by (simp add: registerBaseline_def rpds_ok_def getHealthReports_def)
next
  case (Evaluate k x mode)
  then show "rpds_ok s \<Longrightarrow> ?thesis" using evaluate_ok [OF _ surjective_pairing] by simp
next
  case (Trigger k)
  then show "rpds_ok s \<Longrightarrow> ?thesis"
    by (auto simp: activateTriggeredMode_def intro: evaluate_ok [OF _ surjective_pairing] split: option.split)
qed

interpretation monitor: machine "rpds_step E" rpds_ok
  by unfold_locales (rule rpds_step_ok)

text \<open>A kernel evaluated with states that carry another kernel's identifier never gets a baseline,
  because the first state becomes the baseline of the identifier it carries.\<close>

lemma unmatched_kernel_never_flagged:
  assumes "js_get (baselines s) k = None"
  shows "\<forall>x\<in>set xs. x_kernel x \<noteq> k \<Longrightarrow>
    js_get (baselines (fold (\<lambda>x s. snd (evaluateState E k x mode s)) xs s)) k = None \<and>
    chains (fold (\<lambda>x s. snd (evaluateState E k x mode s)) xs s) = chains s"
  using assms
proof (induction xs arbitrary: s)
  case (Cons x xs)
  from evaluate_first [OF Cons.prems(2), of E x mode] obtain s' where
    "snd (evaluateState E k x mode s) = s'" "baselines s' = js_set (x_kernel x) x (baselines s)" "chains s' = chains s"
    by (metis surjective_pairing)
  moreover from this Cons.prems have "js_get (baselines s') k = None" by auto
  note Cons.IH [OF _ this]
  ultimately show ?case using Cons.prems by simp
qed simp

definition init_rpds :: rpds_st where
  "init_rpds = \<lparr>tick = 0, csr_ledger = [], wal = [], baselines = [], health = [], chains = []\<rparr>"

definition demo_state :: "string \<Rightarrow> exec_state" where
  "demo_state persona = \<lparr>x_id = ''s'', x_kernel = ''k'', x_time = ''t'', x_weights = [], x_context = ''c'',
     x_constraints = [(''a'', True)], x_persona = persona, x_causal = ''h'', x_federation = None, x_threshold = 0,
     x_memory = []\<rparr>"

subsection \<open>Properties\<close>

text \<open>What evaluating a state against a kernel's baseline recommends: nothing exactly when no
  vector is detected and the deviation is below 0.05, a hard reset for three or more vectors, at
  least isolation for two vectors or a changed persona, at least a rollback for one. A state equal
  to the baseline with a sound causal index has deviation 0 and needs no remedy. The evaluation
  stores one report, leaves every baseline as it is, and a remedy adds one proof chain whose
  state afterwards is the baseline.\<close>

theorem evaluation_spec:
  assumes "js_get (baselines s) k = Some b" and "evaluateState E k x mode s = (rep, s')"
  shows "(hr_action rep = NoRemedy \<longleftrightarrow> hr_vectors rep = [] \<and> hr_deviation rep < dec 5 100) \<and>
     (length (hr_vectors rep) \<ge> 3 \<longrightarrow> hr_action rep = HARD_RESET) \<and>
     (length (hr_vectors rep) = 2 \<or> x_persona b \<noteq> x_persona x \<longrightarrow> hr_action rep \<in> {ISOLATE, HARD_RESET}) \<and>
     (length (hr_vectors rep) = 1 \<longrightarrow> hr_action rep \<in> {ROLLBACK, ISOLATE, HARD_RESET}) \<and>
     (x = b \<and> x_causal b \<noteq> [] \<and> x_causal b \<noteq> ''replay-corrupted'' \<longrightarrow>
        hr_deviation rep = 0 \<and> hr_action rep = NoRemedy) \<and>
     getHealthReports k s' = getHealthReports k s @ [rep] \<and> baselines s' = baselines s \<and>
     length (chains s') = length (chains s) + (if hr_action rep = NoRemedy then 0 else 1)"
proof -
  note e = evaluate_effect [OF assms]
  have v: "hr_vectors rep = map fst (filter snd (detections b x))" using e by (simp add: detectPoisoningVectors_def)
  have p: "x_persona b \<noteq> x_persona x \<Longrightarrow> hr_vectors rep \<noteq> [] \<and> hr_coherence rep = 0"
    unfolding v using e by (simp add: detections_def computeIdentityCoherence_def)
  have same: "x = b \<and> x_causal b \<noteq> [] \<and> x_causal b \<noteq> ''replay-corrupted'' \<Longrightarrow> hr_vectors rep = [] \<and> hr_deviation rep = 0"
    unfolding v using e dec_nonneg [of 1 10] dec_nonneg [of 15 100]
    by (auto simp: detections_def bleeds_def deviation_same not_less split: option.split)
  have d: "0 < dec 5 100" by (simp add: dec_def fl_pos)
  have l: "length (chains s') = length (chains s) + (if hr_action rep = NoRemedy then 0 else 1)" using e by (cases "hr_action rep = NoRemedy") auto
  have g: "getHealthReports k s' = getHealthReports k s @ [rep]" using e by (simp add: getHealthReports_def)
  show ?thesis using e p same d l g remedy_spec by metis
qed

theorem evaluation_witness:
  "hr_action (fst (evaluateState demo_env ''k'' (demo_state ''p'') MODE_PERIODIC
      (init_rpds\<lparr>baselines := [(''k'', demo_state ''p'')]\<rparr>))) = NoRemedy \<and>
   hr_action (fst (evaluateState demo_env ''k'' (demo_state ''q'') MODE_PERIODIC
      (init_rpds\<lparr>baselines := [(''k'', demo_state ''p'')]\<rparr>))) \<in> {ISOLATE, HARD_RESET}"
proof -
  have b: "js_get (baselines (init_rpds\<lparr>baselines := [(''k'', demo_state ''p'')]\<rparr>)) ''k'' = Some (demo_state ''p'')" by simp
  from evaluation_spec [OF b surjective_pairing, of demo_env "demo_state ''p''" MODE_PERIODIC]
    evaluation_spec [OF b surjective_pairing, of demo_env "demo_state ''q''" MODE_PERIODIC]
  show ?thesis by (simp add: demo_state_def)
qed

text \<open>In any run of baselines, evaluations and triggered evaluations the proof chains of a kernel
  are exactly its reports that recommend a remedy, in their order, and every chain ends in the
  state it began with: no remedy changes anything.\<close>

theorem chains_match_reports:
  assumes "chains s = []" and "health s = []"
  shows "map pc_report (filter (\<lambda>c. pc_kernel c = k) (getProofChains (fold (rpds_step E) es s))) =
       filter (\<lambda>r. hr_action r \<noteq> NoRemedy) (getHealthReports k (fold (rpds_step E) es s)) \<and>
     (\<forall>c\<in>set (getProofChains (fold (rpds_step E) es s)).
        pc_action c = hr_action (pc_report c) \<and> pc_before c \<noteq> None \<and> pc_after c = pc_before c)"
proof -
  have "rpds_ok s" using assms by (simp add: rpds_ok_def getHealthReports_def)
  then have "rpds_ok (fold (rpds_step E) es s)" by (rule monitor.run_inv)
  then show ?thesis by (simp add: rpds_ok_def getProofChains_def)
qed

theorem chains_witness:
  "map pc_report (filter (\<lambda>c. pc_kernel c = ''k'')
      (getProofChains (fold (rpds_step demo_env) [Baseline (demo_state ''p''), Evaluate ''k'' (demo_state ''q'') MODE_PERIODIC] init_rpds))) =
   filter (\<lambda>r. hr_action r \<noteq> NoRemedy) (getHealthReports ''k''
      (fold (rpds_step demo_env) [Baseline (demo_state ''p''), Evaluate ''k'' (demo_state ''q'') MODE_PERIODIC] init_rpds))"
  by (rule chains_match_reports [THEN conjunct1]) (simp_all add: init_rpds_def)

end
