(* ===== verification/Crypto.thy ===== *)
theory Crypto
  imports Csr
begin

text \<open>
  The cryptographic functions of the platform that the identity components call (Node's
  \<open>crypto\<close>): key generation and random bytes as functions of the draw, symmetric and public-key
  encryption, signatures, key agreement, encodings of bytes as text, and \<open>JSON.parse\<close>. They are the
  fields of \<open>crypto\<close>; what a theorem relies on is one of the named laws below. Bytes are strings.
\<close>

record crypto =
  new_keys :: "string \<Rightarrow> nat \<Rightarrow> string \<times> string"
  random_at :: "nat \<Rightarrow> nat \<Rightarrow> string"
  pbkdf2 :: "string \<Rightarrow> string \<Rightarrow> string"
  aes_enc :: "string \<Rightarrow> string \<Rightarrow> string \<Rightarrow> string \<times> string"
  aes_dec :: "string \<Rightarrow> string \<Rightarrow> string \<Rightarrow> string \<Rightarrow> string option"
  key_ok :: "string \<Rightarrow> bool"
  rsa_enc :: "string \<Rightarrow> nat \<Rightarrow> string \<Rightarrow> string"
  rsa_dec :: "string \<Rightarrow> string \<Rightarrow> string option"
  key_agree :: "string \<Rightarrow> string \<Rightarrow> string"
  sign_key :: "string \<Rightarrow> string \<Rightarrow> string"
  verify_key :: "string \<Rightarrow> string \<Rightarrow> string \<Rightarrow> bool"
  verify_digest :: "string \<Rightarrow> string \<Rightarrow> string \<Rightarrow> bool"
  sha3 :: "string \<Rightarrow> string"
  base64 :: "string \<Rightarrow> string"
  unbase64 :: "string \<Rightarrow> string"
  hex :: "string \<Rightarrow> string"
  json_parse :: "string \<Rightarrow> json option"

text \<open>A draw of a key pair (public, private) and of \<open>n\<close> random bytes.\<close>

definition take_keys :: "crypto \<Rightarrow> string \<Rightarrow> 'a sys_st_scheme \<Rightarrow> (string \<times> string) \<times> 'a sys_st_scheme" where
  "take_keys C alg s = (new_keys C alg (tick s), s\<lparr>tick := Suc (tick s)\<rparr>)"

definition take_random :: "crypto \<Rightarrow> nat \<Rightarrow> 'a sys_st_scheme \<Rightarrow> string \<times> 'a sys_st_scheme" where
  "take_random C n s = (random_at C n (tick s), s\<lparr>tick := Suc (tick s)\<rparr>)"

lemma take_keys_simps [simp]: "take_keys C alg s = (new_keys C alg (tick s), s\<lparr>tick := Suc (tick s)\<rparr>)"
  by (simp add: take_keys_def)

lemma take_random_simps [simp]: "take_random C n s = (random_at C n (tick s), s\<lparr>tick := Suc (tick s)\<rparr>)"
  by (simp add: take_random_def)

text \<open>Documented laws of these functions: AES-GCM decrypts what it encrypted under the same key
  and initialisation vector, base64 and JSON text can be read back.\<close>

definition aes_law :: "crypto \<Rightarrow> bool" where
  "aes_law C \<longleftrightarrow> (\<forall>k iv t. aes_dec C k iv (fst (aes_enc C k iv t)) (snd (aes_enc C k iv t)) = Some t)"

definition base64_law :: "crypto \<Rightarrow> bool" where
  "base64_law C \<longleftrightarrow> (\<forall>b. unbase64 C (base64 C b) = b)"

definition json_law :: "crypto \<Rightarrow> json \<Rightarrow> bool" where
  "json_law C j \<longleftrightarrow> json_parse C (stringify j) = Some j"

text \<open>A concrete instance for evaluation: nothing is hidden, but ciphertexts and tags name the key
  and the vector they were made with.\<close>

definition demo_crypto :: crypto where
  "demo_crypto = \<lparr>new_keys = (\<lambda>alg n. (alg @ ''-pub'' @ show_nat n, alg @ ''-priv'' @ show_nat n)),
     random_at = (\<lambda>n d. ''r'' @ show_nat d), pbkdf2 = (\<lambda>m salt. m @ ''/'' @ salt),
     aes_enc = (\<lambda>k iv t. (t, k @ ''|'' @ iv)),
     aes_dec = (\<lambda>k iv c tag. if tag = k @ ''|'' @ iv then Some c else None),
     key_ok = (\<lambda>k. k \<noteq> []), rsa_enc = (\<lambda>k d t. t), rsa_dec = (\<lambda>k c. Some c),
     key_agree = (\<lambda>a b. a @ b), sign_key = (\<lambda>k t. k @ t), verify_key = (\<lambda>k t sg. True),
     verify_digest = (\<lambda>k t sg. False), sha3 = (\<lambda>t. t), base64 = (\<lambda>t. t), unbase64 = (\<lambda>t. t), hex = (\<lambda>t. t),
     json_parse = (\<lambda>t. if t = ''{}'' then Some (JObj []) else None)\<rparr>"

lemma demo_crypto_laws: "aes_law demo_crypto" "base64_law demo_crypto" "json_law demo_crypto (JObj [])"
  by (simp_all add: demo_crypto_def aes_law_def base64_law_def json_law_def)

end
