(* ===== verification/Qigem.thy ===== *)
theory Qigem
  imports Crypto
begin

text \<open>
  The key epochs of the quantum identity layer (\<open>agent/sovereign-x/qigem.ts\<close>): key records stamped
  with the current epoch, the advance from one epoch to the next under its conditions, threat
  alerts, hybrid session keys and traversal tokens.
\<close>

datatype epoch = EPOCH_0 | EPOCH_1 | EPOCH_2

primrec epoch_name :: "epoch \<Rightarrow> string" where
  "epoch_name EPOCH_0 = ''EPOCH_0''"
| "epoch_name EPOCH_1 = ''EPOCH_1''"
| "epoch_name EPOCH_2 = ''EPOCH_2''"

datatype suite = LEGACY_CLASSICAL | HYBRID_PQC | PURE_PQC

primrec suite_name :: "suite \<Rightarrow> string" where
  "suite_name LEGACY_CLASSICAL = ''LEGACY_CLASSICAL''"
| "suite_name HYBRID_PQC = ''HYBRID_PQC''"
| "suite_name PURE_PQC = ''PURE_PQC''"

record key_record =
  qk_id :: string
  qk_epoch :: nat
  qk_suite :: suite
  qk_kem_alg :: string
  qk_kem_pub :: string
  qk_kem_secret :: string
  qk_sig_alg :: string
  qk_sig_pub :: string
  qk_sym_alg :: string
  qk_hash :: string
  qk_rotation :: string
  qk_interval :: nat
  qk_revocation :: "string list"
  qk_custodian :: bool
  qk_classical_kem :: "string option"
  qk_classical_sig :: "string option"

record threat_alert =
  qa_id :: string
  qa_confidence :: jsnum
  qa_keys :: "string list"
  qa_action :: string
  qa_scope :: string
  qa_time :: time
  qa_countersigned :: bool
  qa_signature :: "string option"

record epoch_event =
  ee_id :: string
  ee_from :: epoch
  ee_to :: epoch
  ee_ciems :: bool
  ee_asil :: bool
  ee_ftss :: bool
  ee_nodes :: "string list"
  ee_time :: time
  ee_signature :: string

record q_token =
  qt_id :: string
  qt_from :: string
  qt_to :: string
  qt_epoch :: nat
  qt_session :: string
  qt_signature :: string
  qt_expiry :: time
  qt_single :: bool
  qt_revocation :: bool

record qigem_st = base_st +
  q_keys :: "(string, key_record) jsmap"
  q_alerts :: "threat_alert list"
  q_history :: "epoch_event list"
  q_epoch :: epoch
  q_number :: nat
  q_asil :: "(string \<times> string) option"

abbreviation log_qigem :: "sysenv \<Rightarrow> string \<Rightarrow> (string \<times> json) list \<Rightarrow> 'a base_st_scheme \<Rightarrow> 'a base_st_scheme" where
  "log_qigem E tr payload \<equiv> log_csr E tr ''identity'' payload None ''qigem''"

definition generateKyberKeyPair :: "crypto \<Rightarrow> 'a sys_st_scheme \<Rightarrow> (string \<times> string) \<times> 'a sys_st_scheme" where
  "generateKyberKeyPair C = take_keys C ''x25519''"

definition generateDilithiumKeyPair :: "crypto \<Rightarrow> 'a sys_st_scheme \<Rightarrow> (string \<times> string) \<times> 'a sys_st_scheme" where
  "generateDilithiumKeyPair C = take_keys C ''ed25519''"

definition generateClassicalKemKeyPair :: "crypto \<Rightarrow> 'a sys_st_scheme \<Rightarrow> (string \<times> string) \<times> 'a sys_st_scheme" where
  "generateClassicalKemKeyPair C = take_keys C ''x25519''"

definition generateClassicalSigKeyPair :: "crypto \<Rightarrow> 'a sys_st_scheme \<Rightarrow> (string \<times> string) \<times> 'a sys_st_scheme" where
  "generateClassicalSigKeyPair C = take_keys C ''rsa-4096''"

definition initializeQIGEM :: "sysenv \<Rightarrow> 'a qigem_st_scheme \<Rightarrow> 'a qigem_st_scheme" where
  "initializeQIGEM E s = log_qigem E ''qigem-initialized''
     [(''epoch'', JStr (epoch_name (q_epoch s))), (''epochNumber'', jnat (q_number s))] s"

text \<open>The ASIL key pair is made on first use and survives a reset.\<close>

definition getAsilSigningKeyPair :: "crypto \<Rightarrow> 'a qigem_st_scheme \<Rightarrow> (string \<times> string) \<times> 'a qigem_st_scheme" where
  "getAsilSigningKeyPair C s =
     (case q_asil s of
        Some kp \<Rightarrow> (kp, s)
      | None \<Rightarrow> let (kp, s1) = take_keys C ''ed25519'' s in (kp, s1\<lparr>q_asil := Some kp\<rparr>))"

definition generateKeyRecord ::
    "sysenv \<Rightarrow> crypto \<Rightarrow> string \<Rightarrow> suite \<Rightarrow> 'a qigem_st_scheme \<Rightarrow> key_record \<times> 'a qigem_st_scheme" where
  "generateKeyRecord E C keyId su s =
     (let (kem, s1) = generateKyberKeyPair C s; (sig, s2) = generateDilithiumKeyPair C s1;
          (ckem, csig, s4) =
            (if su = HYBRID_PQC \<or> su = LEGACY_CLASSICAL
             then let (a, s3) = generateClassicalKemKeyPair C s2; (b, s4) = generateClassicalSigKeyPair C s3
                  in (Some (fst a), Some (fst b), s4)
             else (None, None, s2));
          r = \<lparr>qk_id = keyId, qk_epoch = q_number s4, qk_suite = su, qk_kem_alg = ''ML-KEM-1024'',
               qk_kem_pub = fst kem, qk_kem_secret = snd kem, qk_sig_alg = ''ML-DSA-5'', qk_sig_pub = fst sig,
               qk_sym_alg = ''AES-256-GCM'', qk_hash = ''SHA-3-512'', qk_rotation = ''EPOCH_BASED'',
               qk_interval = 1000,
               qk_revocation = [''RPDS_HARD_RESET'', ''ASIL_ESCALATION'', ''QUANTUM_THREAT_DETECTED'', ''MANUAL''],
               qk_custodian = True, qk_classical_kem = ckem, qk_classical_sig = csig\<rparr>;
          s5 = s4\<lparr>q_keys := js_set keyId r (q_keys s4)\<rparr>
      in (r, log_qigem E ''qigem-key-record-created''
               [(''keyId'', JStr keyId), (''suite'', JStr (suite_name su)), (''epoch'', JStr (epoch_name (q_epoch s5)))] s5))"

definition getKeyRecord :: "string \<Rightarrow> 'a qigem_st_scheme \<Rightarrow> key_record option" where
  "getKeyRecord k s = js_get (q_keys s) k"

definition getCurrentEpoch :: "'a qigem_st_scheme \<Rightarrow> epoch \<times> nat" where
  "getCurrentEpoch s = (q_epoch s, q_number s)"

definition FTSS_TRUST_THRESHOLD :: jsnum where
  "FTSS_TRUST_THRESHOLD = dec 75 100"

definition MIN_PARTICIPATION_RATIO :: jsnum where
  "MIN_PARTICIPATION_RATIO = dec 75 100"

definition participation :: "string list \<Rightarrow> 'a qigem_st_scheme \<Rightarrow> jsnum" where
  "participation nodes s = js_div (of_nat (length nodes)) (of_nat (max 1 (length (q_keys s))))"

text \<open>The conditions of an advance, in the order of the code; the first that fails is the error.\<close>

definition advance_error :: "bool \<Rightarrow> bool \<Rightarrow> bool \<Rightarrow> string list \<Rightarrow> 'a qigem_st_scheme \<Rightarrow> string option" where
  "advance_error ciems asil ftss nodes s =
     (let n = q_number s + 1; next = (if n = 1 then EPOCH_1 else EPOCH_2)
      in if q_epoch s = EPOCH_2 then Some ''Already at final epoch (EPOCH_2)''
         else if \<not> ciems then Some ''CIEMS stability not confirmed''
         else if next = EPOCH_1 \<and> \<not> asil then Some ''ASIL countersigned broadcast required for EPOCH_1''
         else if next = EPOCH_2 \<and> \<not> ftss
         then Some (''FTSS trust threshold '' @ num_str FTSS_TRUST_THRESHOLD @ '' not met'')
         else if next = EPOCH_2 \<and> participation nodes s < MIN_PARTICIPATION_RATIO
         then Some (''Insufficient participation: '' @ show_nat (length nodes) @ ''/'' @ show_nat (length (q_keys s)))
         else None)"

definition advanceEpoch ::
    "sysenv \<Rightarrow> crypto \<Rightarrow> bool \<Rightarrow> bool \<Rightarrow> bool \<Rightarrow> string list \<Rightarrow> 'a qigem_st_scheme \<Rightarrow>
     (string + epoch_event) \<times> 'a qigem_st_scheme" where
  "advanceEpoch E C ciems asil ftss nodes s =
     (case advance_error ciems asil ftss nodes s of
        Some e \<Rightarrow> (Inl e, s)
      | None \<Rightarrow>
          let n = q_number s + 1; next = (if n = 1 then EPOCH_1 else EPOCH_2);
              (u, s1) = take_uuid E s; (t, s2) = take_now E s1;
              content = u @ ''|'' @ epoch_name (q_epoch s) @ ''|'' @ epoch_name next @ ''|'' @ iso_string t;
              (kp, s3) = getAsilSigningKeyPair C s2;
              ev = \<lparr>ee_id = u, ee_from = q_epoch s, ee_to = next, ee_ciems = ciems, ee_asil = asil, ee_ftss = ftss,
                    ee_nodes = nodes, ee_time = t, ee_signature = base64 C (sign_key C (snd kp) content)\<rparr>;
              s4 = s3\<lparr>q_epoch := next, q_number := n,
                      q_keys := map (\<lambda>(k, r). (k, r\<lparr>qk_epoch := n\<rparr>)) (q_keys s3),
                      q_history := q_history s3 @ [ev]\<rparr>
          in (Inr ev, log_qigem E ''qigem-epoch-advanced''
                [(''from'', JStr (epoch_name (ee_from ev))), (''to'', JStr (epoch_name next)),
                 (''nodes'', jnat (length nodes))] s4))"

definition emitQuantumThreatAlert ::
    "sysenv \<Rightarrow> jsnum \<Rightarrow> string list \<Rightarrow> string \<Rightarrow> string \<Rightarrow> 'a qigem_st_scheme \<Rightarrow>
     (string + threat_alert) \<times> 'a qigem_st_scheme" where
  "emitQuantumThreatAlert E conf ids action scope s =
     (if conf < 0 \<or> conf > 1 then (Inl ''threatConfidence must be in [0, 1]'', s)
      else let (u, s1) = take_uuid E s; (t, s2) = take_now E s1;
               wide = (conf \<ge> dec 70 100 \<and> scope = ''FEDERATION_WIDE'');
               a = \<lparr>qa_id = u, qa_confidence = conf, qa_keys = ids, qa_action = action, qa_scope = scope,
                    qa_time = t, qa_countersigned = wide, qa_signature = None\<rparr>;
               s3 = s2\<lparr>q_alerts := q_alerts s2 @ [a]\<rparr>;
               s4 = (if wide then log_qigem E ''qigem-quantum-threat-federation-wide''
                       [(''alertId'', JStr u), (''confidence'', JNum conf)] s3 else s3)
           in (Inr a, log_qigem E ''qigem-quantum-threat-alert''
                 [(''alertId'', JStr u), (''confidence'', JNum conf), (''action'', JStr action)] s4))"

definition countersignQuantumThreatAlert ::
    "sysenv \<Rightarrow> string \<Rightarrow> string \<Rightarrow> 'a qigem_st_scheme \<Rightarrow> bool \<times> 'a qigem_st_scheme" where
  "countersignQuantumThreatAlert E aid sig s =
     (case List.find (\<lambda>a. qa_id a = aid) (q_alerts s) of
        None \<Rightarrow> (False, s)
      | Some _ \<Rightarrow>
          (True, log_qigem E ''qigem-quantum-threat-countersigned''
             [(''alertId'', JStr aid), (''asilCountersigned'', JBool True)]
             (s\<lparr>q_alerts := update_first (\<lambda>a. qa_id a = aid)
                 (\<lambda>a. a\<lparr>qa_countersigned := True, qa_signature := Some sig\<rparr>) (q_alerts s)\<rparr>)))"

text \<open>The classical part is agreed only when a classical key is given. A key that cannot be parsed
  throws.\<close>

definition createHybridSessionKey ::
    "crypto \<Rightarrow> string \<Rightarrow> string option \<Rightarrow> 'a sys_st_scheme \<Rightarrow>
     (string + string \<times> string \<times> string option) \<times> 'a sys_st_scheme" where
  "createHybridSessionKey C kemPub classicalPub s =
     (if \<not> key_ok C kemPub then (Inl ''invalid key'', s)
      else let (kp, s1) = take_keys C ''x25519'' s; secret = key_agree C kemPub (snd kp)
           in case classicalPub of
                Some cp \<Rightarrow>
                  if cp = [] then (Inr (sha3 C secret, base64 C secret, None), s1)
                  else if \<not> key_ok C cp then (Inl ''invalid key'', s1)
                  else let (kp2, s2) = take_keys C ''x25519'' s1; csecret = key_agree C cp (snd kp2)
                       in (Inr (sha3 C (secret @ csecret), base64 C secret, Some (base64 C csecret)), s2)
              | None \<Rightarrow> (Inr (sha3 C secret, base64 C secret, None), s1))"

definition dilithiumSign :: "crypto \<Rightarrow> string \<Rightarrow> string \<Rightarrow> string + string" where
  "dilithiumSign C text priv = (if key_ok C priv then Inr (base64 C (sign_key C priv text)) else Inl ''invalid key'')"

definition dilithiumVerify :: "crypto \<Rightarrow> string \<Rightarrow> string \<Rightarrow> string \<Rightarrow> bool" where
  "dilithiumVerify C text sig pub = verify_digest C pub text (unbase64 C sig)"

definition q_token_text :: "q_token \<Rightarrow> string" where
  "q_token_text t = qt_id t @ ''|'' @ qt_from t @ ''|'' @ qt_to t @ ''|'' @ show_nat (qt_epoch t) @ ''|'' @
     qt_session t @ ''|'' @ iso_string (qt_expiry t)"

definition createQTraversalToken ::
    "sysenv \<Rightarrow> crypto \<Rightarrow> string \<Rightarrow> string \<Rightarrow> nat \<Rightarrow> string \<Rightarrow> string \<Rightarrow> 'a sys_st_scheme \<Rightarrow>
     (string + q_token) \<times> 'a sys_st_scheme" where
  "createQTraversalToken E C src target epo session priv s =
     (let (u, s1) = take_uuid E s; (t, s2) = take_now E s1;
          tok = \<lparr>qt_id = u, qt_from = src, qt_to = target, qt_epoch = epo, qt_session = session,
                 qt_signature = [], qt_expiry = t + 3600000, qt_single = True, qt_revocation = True\<rparr>
      in case dilithiumSign C (q_token_text tok) priv of
           Inl e \<Rightarrow> (Inl e, s2)
         | Inr sig \<Rightarrow> (Inr (tok\<lparr>qt_signature := sig\<rparr>), s2))"

text \<open>The reason of a rejection; \<open>None\<close> when the token is valid.\<close>

definition verifyQTraversalToken ::
    "sysenv \<Rightarrow> crypto \<Rightarrow> q_token \<Rightarrow> string \<Rightarrow> 'a sys_st_scheme \<Rightarrow> string option \<times> 'a sys_st_scheme" where
  "verifyQTraversalToken E C tok pub s =
     (let (now, s1) = take_now E s
      in if now > qt_expiry tok then (Some ''Token expired'', s1)
         else if \<not> dilithiumVerify C (q_token_text tok) (qt_signature tok) pub
         then (Some ''Invalid Dilithium signature'', s1)
         else (None, s1))"

definition getQIGEMStatus :: "'a qigem_st_scheme \<Rightarrow> epoch \<times> nat \<times> nat \<times> nat \<times> nat" where
  "getQIGEMStatus s = (q_epoch s, q_number s, length (q_keys s), length (q_alerts s), length (q_history s))"

definition resetQIGEM :: "'a qigem_st_scheme \<Rightarrow> 'a qigem_st_scheme" where
  "resetQIGEM s = s\<lparr>q_keys := [], q_alerts := [], q_history := [], q_epoch := EPOCH_0, q_number := 0\<rparr>"

subsection \<open>When an epoch advances\<close>

lemma qigem_frame [simp]:
  "q_keys (log_csr E tr d p i a s) = q_keys s" "q_alerts (log_csr E tr d p i a s) = q_alerts s"
  "q_history (log_csr E tr d p i a s) = q_history s" "q_epoch (log_csr E tr d p i a s) = q_epoch s"
  "q_number (log_csr E tr d p i a s) = q_number s"
  by (simp_all add: log_csr_update)

lemma asil_frame [simp]:
  "q_keys (snd (getAsilSigningKeyPair C s)) = q_keys s" "q_alerts (snd (getAsilSigningKeyPair C s)) = q_alerts s"
  "q_history (snd (getAsilSigningKeyPair C s)) = q_history s" "q_epoch (snd (getAsilSigningKeyPair C s)) = q_epoch s"
  "q_number (snd (getAsilSigningKeyPair C s)) = q_number s"
  by (simp_all add: getAsilSigningKeyPair_def split: option.split)

lemma ratio_exact: "dec 75 100 = 3 / 4"
  unfolding dec_def by (subst fl_nearest [where k = "-1" and m = 6755399441055744]) (simp_all add: power_int_def power_divide)

text \<open>The participation test is exact: the rounded quotient is below 0.75 only when the quotient is.\<close>

lemma participation_exact:
  fixes n m :: nat
  assumes m: "0 < m" "m \<le> 2 ^ 50"
  shows "js_div (of_nat n) (of_nat m) < dec 75 100 \<longleftrightarrow> 4 * n < 3 * m"
proof (cases "4 * n < 3 * m")
  case True
  let ?x = "of_nat n / of_nat m :: rat"
  from True have "4 * n + 1 \<le> 3 * m" by simp
  then have "of_nat (4 * n + 1) \<le> (of_nat (3 * m) :: rat)" by (simp only: of_nat_le_iff)
  then have "4 * (of_nat n :: rat) + 1 \<le> 3 * of_nat m" by simp
  then have "?x \<le> 3 / 4 - 1 / (4 * of_nat m)" using m by (simp add: field_simps)
  moreover have "1 / (4 * 2 ^ 50) \<le> 1 / (4 * (of_nat m :: rat))"
  proof -
    from m(2) have "of_nat m \<le> (of_nat (2 ^ 50) :: rat)" by (simp only: of_nat_le_iff)
    then have "(of_nat m :: rat) \<le> 2 ^ 50" by simp
    then show ?thesis using m(1) by (simp add: field_simps)
  qed
  moreover have "(1 :: rat) / 2 ^ 52 = 1 / (4 * 2 ^ 50)" by simp
  ultimately have x: "?x \<le> 3 / 4 - 1 / 2 ^ 52" by linarith
  have "0 \<le> ?x" by simp
  then have "fl ?x \<le> ?x + ?x / 2 ^ 53" using fl_error [of ?x] by linarith
  also have "\<dots> < 3 / 4"
  proof -
    have "0 < (1 :: rat) / 2 ^ 52" by simp
    then have "?x \<le> 1" using x by linarith
    then have "?x / 2 ^ 53 \<le> 1 / 2 ^ 53" by (rule divide_right_mono) simp
    moreover have "(1 :: rat) / 2 ^ 53 < 1 / 2 ^ 52" by simp
    ultimately show ?thesis using x by linarith
  qed
  finally show ?thesis using True by (simp add: js_div_def ratio_exact)
next
  case False
  then have "3 * m \<le> 4 * n" by simp
  then have "of_nat (3 * m) \<le> (of_nat (4 * n) :: rat)" by (simp only: of_nat_le_iff)
  then have "3 * (of_nat m :: rat) \<le> 4 * of_nat n" by simp
  then have "3 / 4 \<le> of_nat n / (of_nat m :: rat)" using m by (simp add: field_simps)
  then have "fl (3 / 4) \<le> js_div (of_nat n) (of_nat m)" unfolding js_div_def by (rule fl_mono)
  moreover have "fl (3 / 4) = 3 / 4" using fl_idem [of "75 / 100"] ratio_exact by (simp add: dec_def)
  ultimately show ?thesis using False by (simp add: ratio_exact)
qed

definition enough :: "string list \<Rightarrow> 'a qigem_st_scheme \<Rightarrow> bool" where
  "enough nodes s \<longleftrightarrow> 3 * max 1 (length (q_keys s)) \<le> 4 * length nodes"

lemma participation_enough:
  assumes "length (q_keys s) \<le> 2 ^ 50"
  shows "participation nodes s < MIN_PARTICIPATION_RATIO \<longleftrightarrow> \<not> enough nodes s"
proof -
  have "0 < max 1 (length (q_keys s))" "max 1 (length (q_keys s)) \<le> 2 ^ 50" using assms by simp_all
  from participation_exact [OF this, of "length nodes"] show ?thesis
    unfolding participation_def MIN_PARTICIPATION_RATIO_def enough_def not_le .
qed

lemma advance_error_spec:
  assumes "length (q_keys s) \<le> 2 ^ 50"
  shows "advance_error ciems asil ftss nodes s = None \<longleftrightarrow>
    q_epoch s \<noteq> EPOCH_2 \<and> ciems \<and> (if q_number s = 0 then asil else ftss \<and> enough nodes s)"
  using participation_enough [OF assms, of nodes] by (simp add: advance_error_def Let_def)

lemma advance_effect:
  assumes "advance_error ciems asil ftss nodes s = None"
  shows "\<exists>ev. fst (advanceEpoch E C ciems asil ftss nodes s) = Inr ev \<and> ee_from ev = q_epoch s \<and>
     ee_to ev = (if q_number s = 0 then EPOCH_1 else EPOCH_2) \<and>
     q_epoch (snd (advanceEpoch E C ciems asil ftss nodes s)) = ee_to ev \<and>
     q_number (snd (advanceEpoch E C ciems asil ftss nodes s)) = q_number s + 1 \<and>
     q_keys (snd (advanceEpoch E C ciems asil ftss nodes s)) = map (\<lambda>(k, r). (k, r\<lparr>qk_epoch := q_number s + 1\<rparr>)) (q_keys s) \<and>
     q_history (snd (advanceEpoch E C ciems asil ftss nodes s)) = q_history s @ [ev]"
proof -
  obtain kp s3 where kp: "getAsilSigningKeyPair C (s\<lparr>tick := Suc (Suc (tick s))\<rparr>) = (kp, s3)" by fastforce
  with asil_frame [of C "s\<lparr>tick := Suc (Suc (tick s))\<rparr>"] have "q_keys s3 = q_keys s" "q_history s3 = q_history s" by simp_all
  with kp assms show ?thesis by (simp add: advanceEpoch_def take_uuid_def take_now_def Let_def)
qed

subsection \<open>The invariant\<close>

definition EPOCH_STEPS :: "(epoch \<times> epoch) list" where
  "EPOCH_STEPS = [(EPOCH_0, EPOCH_1), (EPOCH_1, EPOCH_2)]"

text \<open>The epoch is the one of its number, the history is the way to it, and every key record
  carries the current number.\<close>

definition qigem_ok :: "'a qigem_st_scheme \<Rightarrow> bool" where
  "qigem_ok s \<longleftrightarrow> (q_epoch s, q_number s) \<in> {(EPOCH_0, 0), (EPOCH_1, 1), (EPOCH_2, 2)} \<and>
     map (\<lambda>ev. (ee_from ev, ee_to ev)) (q_history s) = take (q_number s) EPOCH_STEPS \<and>
     all_values (\<lambda>r. qk_epoch r = q_number s) (q_keys s)"

datatype qigem_event =
    InitQigem
  | NewKey string suite
  | Advance bool bool bool "string list"
  | Alert jsnum "string list" string string
  | Countersign string string

primrec qigem_step :: "sysenv \<Rightarrow> crypto \<Rightarrow> qigem_event \<Rightarrow> 'a qigem_st_scheme \<Rightarrow> 'a qigem_st_scheme" where
  "qigem_step E C InitQigem s = initializeQIGEM E s"
| "qigem_step E C (NewKey k su) s = snd (generateKeyRecord E C k su s)"
| "qigem_step E C (Advance a b c nodes) s = snd (advanceEpoch E C a b c nodes s)"
| "qigem_step E C (Alert x ids act sc) s = snd (emitQuantumThreatAlert E x ids act sc s)"
| "qigem_step E C (Countersign aid sg) s = snd (countersignQuantumThreatAlert E aid sg s)"

lemma advance_ok: "qigem_ok s \<Longrightarrow> qigem_ok (snd (advanceEpoch E C a b c nodes s))"
proof (cases "advance_error a b c nodes s")
  case None
  assume ok: "qigem_ok s"
  have e: "q_epoch s \<noteq> EPOCH_2" using None by (auto simp: advance_error_def)
  from advance_effect [OF None, of E C] obtain ev where
    "ee_from ev = q_epoch s" "ee_to ev = (if q_number s = 0 then EPOCH_1 else EPOCH_2)"
    "q_epoch (snd (advanceEpoch E C a b c nodes s)) = ee_to ev"
    "q_number (snd (advanceEpoch E C a b c nodes s)) = q_number s + 1"
    "q_keys (snd (advanceEpoch E C a b c nodes s)) = map (\<lambda>(k, r). (k, r\<lparr>qk_epoch := q_number s + 1\<rparr>)) (q_keys s)"
    "q_history (snd (advanceEpoch E C a b c nodes s)) = q_history s @ [ev]" by blast
  with ok e show ?thesis
    by (auto simp: qigem_ok_def EPOCH_STEPS_def all_values_def map_of_map numeral_2_eq_2)
qed (simp add: advanceEpoch_def)

lemma qigem_step_ok: "qigem_ok s \<Longrightarrow> qigem_ok (qigem_step E C e s)"
proof (cases e)
  case (Advance a b c nodes)
  then show "qigem_ok s \<Longrightarrow> ?thesis" by (simp add: advance_ok)
qed (auto simp: initializeQIGEM_def generateKeyRecord_def generateKyberKeyPair_def generateDilithiumKeyPair_def
      generateClassicalKemKeyPair_def generateClassicalSigKeyPair_def emitQuantumThreatAlert_def
      countersignQuantumThreatAlert_def take_uuid_def take_now_def Let_def qigem_ok_def all_values_def split: option.split)

lemma qigem_ok_number: "qigem_ok s \<Longrightarrow> q_number s \<le> 2 \<and> (q_epoch s = EPOCH_2 \<longleftrightarrow> q_number s = 2)"
  by (auto simp: qigem_ok_def)

interpretation epochs: machine "qigem_step E C" qigem_ok
  by unfold_locales (rule qigem_step_ok)

definition init_qigem :: qigem_st where
  "init_qigem = \<lparr>tick = 0, csr_ledger = [], wal = [], q_keys = [], q_alerts = [], q_history = [],
     q_epoch = EPOCH_0, q_number = 0, q_asil = None\<rparr>"

lemma init_qigem_ok: "qigem_ok init_qigem"
  by (simp add: qigem_ok_def init_qigem_def)

subsection \<open>Properties\<close>

text \<open>C13. Epochs only go forward: after any run from the start the epoch number is 0, 1 or 2 and
  names the epoch, the history of advances is exactly the way from epoch 0 to it, and every key
  in the registry carries the current epoch number, also those made before the last advance.\<close>

theorem epochs_go_forward:
  assumes "s = fold (qigem_step E C) es init_qigem"
  shows "getCurrentEpoch s \<in> {(EPOCH_0, 0), (EPOCH_1, 1), (EPOCH_2, 2)} \<and>
     map (\<lambda>ev. (ee_from ev, ee_to ev)) (q_history s) = take (q_number s) [(EPOCH_0, EPOCH_1), (EPOCH_1, EPOCH_2)] \<and>
     (\<forall>k r. getKeyRecord k s = Some r \<longrightarrow> qk_epoch r = q_number s)"
  using epochs.run_inv [OF init_qigem_ok, of E C es]
  by (simp add: assms qigem_ok_def getCurrentEpoch_def getKeyRecord_def EPOCH_STEPS_def all_values_def)

theorem epochs_go_forward_witness:
  "qk_epoch (fst (generateKeyRecord demo_env demo_crypto ''k'' PURE_PQC init_qigem)) = 0 \<and>
   (\<exists>r. getKeyRecord ''k'' (fold (qigem_step demo_env demo_crypto) [NewKey ''k'' PURE_PQC, Advance True True True [''n'']] init_qigem) = Some r \<and>
      qk_epoch r = q_number (fold (qigem_step demo_env demo_crypto) [NewKey ''k'' PURE_PQC, Advance True True True [''n'']] init_qigem))"
proof -
  let ?s = "fold (qigem_step demo_env demo_crypto) [NewKey ''k'' PURE_PQC, Advance True True True [''n'']] init_qigem"
  have k: "js_get (q_keys (qigem_step demo_env demo_crypto (NewKey ''k'' PURE_PQC) init_qigem)) ''k'' \<noteq> None"
    by (simp add: generateKeyRecord_def generateKyberKeyPair_def generateDilithiumKeyPair_def Let_def init_qigem_def)
  have "advance_error True True True [''n''] (qigem_step demo_env demo_crypto (NewKey ''k'' PURE_PQC) init_qigem) = None"
    by (simp add: advance_error_def generateKeyRecord_def generateKyberKeyPair_def generateDilithiumKeyPair_def Let_def init_qigem_def)
  from advance_effect [OF this, of demo_env demo_crypto] k obtain r where "getKeyRecord ''k'' ?s = Some r"
    by (auto simp: getKeyRecord_def map_of_map)
  with epochs_go_forward [OF refl, of demo_env demo_crypto "[NewKey ''k'' PURE_PQC, Advance True True True [''n'']]"] show ?thesis
    by (auto simp: generateKeyRecord_def generateKyberKeyPair_def generateDilithiumKeyPair_def Let_def init_qigem_def)
qed

text \<open>C14. When an epoch advances, and that it can: an advance succeeds exactly below the final epoch,
  with CIEMS confirmation, and for the first step with the ASIL broadcast, for the second with the
  trust threshold and at least three quarters of the registered keys in participating nodes (the
  rounded quotient decides as the exact one does); otherwise it fails without changing anything.
  From any well-formed state two confirmed advances end in epoch 2, where every further one
  fails.\<close>

theorem advance_spec:
  assumes "length (q_keys s) \<le> 2 ^ 50" and "qigem_ok s"
  shows "((\<exists>ev. fst (advanceEpoch E C ciems asil ftss nodes s) = Inr ev) \<longleftrightarrow>
       q_epoch s \<noteq> EPOCH_2 \<and> ciems \<and> (if q_number s = 0 then asil else ftss \<and> enough nodes s)) \<and>
     ((\<exists>e. fst (advanceEpoch E C ciems asil ftss nodes s) = Inl e) \<longrightarrow> snd (advanceEpoch E C ciems asil ftss nodes s) = s) \<and>
     (enough nodes s \<longrightarrow>
       (let s2 = snd (advanceEpoch E C True True True nodes (snd (advanceEpoch E C True True True nodes s)))
        in q_epoch s2 = EPOCH_2 \<and> (\<forall>a b c ns. advanceEpoch E C a b c ns s2 = (Inl ''Already at final epoch (EPOCH_2)'', s2))))"
proof -
  let ?adv = "\<lambda>s. snd (advanceEpoch E C True True True nodes s)"
  have step: "q_number (?adv t) = (if q_epoch t = EPOCH_2 then 2 else q_number t + 1) \<and>
      length (q_keys (?adv t)) = length (q_keys t) \<and> qigem_ok (?adv t)"
    if "length (q_keys t) \<le> 2 ^ 50" "qigem_ok t" "enough nodes t" for t :: "'a qigem_st_scheme"
  proof (cases "q_epoch t = EPOCH_2")
    case True
    then have "?adv t = t" by (simp add: advanceEpoch_def advance_error_def Let_def)
    with True that show ?thesis by (auto simp: qigem_ok_def)
  next
    case False
    then have "advance_error True True True nodes t = None" using advance_error_spec [OF that(1)] that(3) by simp
    from advance_effect [OF this, of E C] False advance_ok [OF that(2)] show ?thesis by auto
  qed
  have final: "q_epoch (?adv (?adv s)) = EPOCH_2" if en: "enough nodes s"
  proof -
    note s1 = step [OF assms en]
    then have "length (q_keys (?adv s)) \<le> 2 ^ 50" "enough nodes (?adv s)" using assms(1) en by (simp_all add: enough_def)
    from step [OF this(1) _ this(2)] s1 have s2: "q_number (?adv (?adv s)) = (if q_epoch (?adv s) = EPOCH_2 then 2 else q_number (?adv s) + 1)"
      "qigem_ok (?adv (?adv s))" by blast+
    with s1 qigem_ok_number [OF assms(2)] qigem_ok_number [OF s2(2)] qigem_ok_number [of "?adv s"]
    have "q_number (?adv (?adv s)) = 2" by (simp split: if_splits)
    with qigem_ok_number [OF s2(2)] show ?thesis by blast
  qed
  have iff: "(\<exists>ev. fst (advanceEpoch E C ciems asil ftss nodes s) = Inr ev) \<longleftrightarrow> advance_error ciems asil ftss nodes s = None"
    using advance_effect [of ciems asil ftss nodes s E C]
    by (cases "advance_error ciems asil ftss nodes s") (auto simp: advanceEpoch_def)
  have same: "(\<exists>e. fst (advanceEpoch E C ciems asil ftss nodes s) = Inl e) \<Longrightarrow> snd (advanceEpoch E C ciems asil ftss nodes s) = s"
    using advance_effect [of ciems asil ftss nodes s E C]
    by (cases "advance_error ciems asil ftss nodes s") (auto simp: advanceEpoch_def)
  have stuck: "q_epoch t = EPOCH_2 \<Longrightarrow> advanceEpoch E C a b c ns t = (Inl ''Already at final epoch (EPOCH_2)'', t)" for a b c ns and t :: "'a qigem_st_scheme"
    by (simp add: advanceEpoch_def advance_error_def Let_def)
  show ?thesis unfolding iff advance_error_spec [OF assms(1)] Let_def using same final stuck by blast
qed

theorem advance_witness:
  "q_epoch (snd (advanceEpoch demo_env demo_crypto True True True [''n''] (snd (advanceEpoch demo_env demo_crypto True True True [''n''] init_qigem)))) = EPOCH_2"
proof -
  have "length (q_keys init_qigem) \<le> 2 ^ 50" "enough [''n''] init_qigem" by (simp_all add: init_qigem_def enough_def)
  with advance_spec [OF _ init_qigem_ok, of demo_env demo_crypto True True True "[''n'']"] show ?thesis by (simp add: Let_def)
qed

end
