(* ===== verification/Igem.thy ===== *)
theory Igem
  imports Crypto
begin

text \<open>
  The identity graph layer (\<open>agent/sovereign-x/igem.ts\<close>): the master key and the keys derived from
  it, encrypted author nodes and derivation edges, identity graphs, traversal tokens, and
  transmissions between federated nodes. A thrown error is the left value of a sum; what a call
  did before it threw stays done.
\<close>

datatype igem_key_type = NODE_KEY | EDGE_KEY | GRAPH_MASTER

record igem_key =
  ik_id :: string
  ik_type :: igem_key_type
  ik_algorithm :: string
  ik_iv_length :: nat
  ik_tag_length :: nat
  ik_rotation :: string
  ik_interval :: nat
  ik_revocation :: "string list"
  ik_custodian :: bool
  ik_public :: string
  ik_private_encrypted :: string
  ik_hash :: string
  ik_created :: time
  ik_rotated :: "time option"

record author_node =
  an_hash :: string
  an_payload :: string
  an_key :: string
  an_epoch :: nat
  an_iv :: string
  an_tag :: string

record derivation_edge =
  de_source :: string
  de_target :: string
  de_type :: string
  de_metadata :: string
  de_token :: string
  de_iv :: string
  de_tag :: string

record identity_graph =
  ig_nodes :: "author_node list"
  ig_edges :: "derivation_edge list"
  ig_seal :: string
  ig_epoch :: nat
  ig_policy :: string

record traversal_token =
  tt_id :: string
  tt_from :: string
  tt_to :: string
  tt_epoch :: nat
  tt_session :: string
  tt_expiry :: time
  tt_single :: bool
  tt_revocation :: bool
  tt_signature :: string

record transmission_receipt =
  tx_id :: string
  tx_source :: string
  tx_destination :: string
  tx_payload :: string
  tx_signature :: string
  tx_public :: string
  tx_time :: time

record envelope =
  en_id :: string
  en_source :: string
  en_destination :: string
  en_payload :: string
  en_iv :: string
  en_tag :: string
  en_receipt :: transmission_receipt
  en_time :: time
  en_ttl :: int

record igem_st = base_st +
  ig_keys :: "(string, igem_key) jsmap"
  ig_graphs :: "(string, identity_graph) jsmap"
  ig_tokens :: "(string, traversal_token) jsmap"
  ig_sent :: "envelope list"
  ig_signing :: "(string \<times> string) option"

definition MASTER_KEY_ID :: string where
  "MASTER_KEY_ID = ''igem-master-001''"

abbreviation log_igem :: "sysenv \<Rightarrow> string \<Rightarrow> (string \<times> json) list \<Rightarrow> 'a base_st_scheme \<Rightarrow> 'a base_st_scheme" where
  "log_igem E tr payload \<equiv> log_csr E tr ''identity'' payload None ''igem''"

subsection \<open>Keys\<close>

definition getSigningKeyPair :: "crypto \<Rightarrow> 'a igem_st_scheme \<Rightarrow> (string \<times> string) \<times> 'a igem_st_scheme" where
  "getSigningKeyPair C s =
     (case ig_signing s of
        Some kp \<Rightarrow> (kp, s)
      | None \<Rightarrow> let (kp, s1) = take_keys C ''ed25519'' s in (kp, s1\<lparr>ig_signing := Some kp\<rparr>))"

definition deriveKey :: "crypto \<Rightarrow> string \<Rightarrow> string \<Rightarrow> string" where
  "deriveKey C material salt = pbkdf2 C material salt"

text \<open>Ciphertext in base64, initialisation vector, authentication tag.\<close>

definition encryptAES256GCM ::
    "crypto \<Rightarrow> string \<Rightarrow> string \<Rightarrow> 'a sys_st_scheme \<Rightarrow> (string \<times> string \<times> string) \<times> 'a sys_st_scheme" where
  "encryptAES256GCM C plaintext key s =
     (let (iv, s1) = take_random C 12 s; (ct, tag) = aes_enc C key iv plaintext
      in ((base64 C ct, iv, tag), s1))"

definition decryptAES256GCM :: "crypto \<Rightarrow> string \<Rightarrow> string \<Rightarrow> string \<Rightarrow> string \<Rightarrow> string option" where
  "decryptAES256GCM C ciphertext key iv tag = aes_dec C key iv (unbase64 C ciphertext) tag"

definition igem_generateKeyRecord ::
    "sysenv \<Rightarrow> crypto \<Rightarrow> igem_key_type \<Rightarrow> string \<Rightarrow> string \<Rightarrow> 'a igem_st_scheme \<Rightarrow> igem_key \<times> 'a igem_st_scheme" where
  "igem_generateKeyRecord E C kt keyId master s =
     (let (kp, s1) = take_keys C ''ed25519'' s;
          ((enc, _, _), s2) = encryptAES256GCM C (snd kp) master s1;
          (t, s3) = take_now E s2
      in (\<lparr>ik_id = keyId, ik_type = kt, ik_algorithm = ''AES-256-GCM'', ik_iv_length = 12, ik_tag_length = 16,
           ik_rotation = ''EPOCH_BASED'', ik_interval = 1000,
           ik_revocation = [''RPDS_HARD_RESET'', ''ASIL_ESCALATION'', ''QUANTUM_THREAT_DETECTED'', ''MANUAL''],
           ik_custodian = True, ik_public = fst kp, ik_private_encrypted = enc, ik_hash = sha256 E (fst kp),
           ik_created = t, ik_rotated = None\<rparr>, s3))"

text \<open>The first call makes a random key and returns it; every later one derives the key from the
  stored record's name.\<close>

definition derived_master :: "crypto \<Rightarrow> igem_key \<Rightarrow> string" where
  "derived_master C k = deriveKey C ''sovereign-x-asil-master'' (ik_id k)"

definition getMasterKey :: "sysenv \<Rightarrow> crypto \<Rightarrow> 'a igem_st_scheme \<Rightarrow> string \<times> 'a igem_st_scheme" where
  "getMasterKey E C s =
     (case js_get (ig_keys s) MASTER_KEY_ID of
        Some k \<Rightarrow> (derived_master C k, s)
      | None \<Rightarrow>
          let (master, s1) = take_random C 32 s;
              (r, s2) = igem_generateKeyRecord E C GRAPH_MASTER MASTER_KEY_ID master s1
          in (master, s2\<lparr>ig_keys := js_set MASTER_KEY_ID r (ig_keys s2)\<rparr>))"

definition initializeIGEM :: "sysenv \<Rightarrow> crypto \<Rightarrow> 'a igem_st_scheme \<Rightarrow> 'a igem_st_scheme" where
  "initializeIGEM E C s =
     log_igem E ''igem-initialized'' [(''masterKeyId'', JStr MASTER_KEY_ID)] (snd (getMasterKey E C s))"

definition createNodeKey :: "sysenv \<Rightarrow> crypto \<Rightarrow> string \<Rightarrow> 'a igem_st_scheme \<Rightarrow> igem_key \<times> 'a igem_st_scheme" where
  "createNodeKey E C nodeId s =
     (let (master, s1) = getMasterKey E C s; (now, s2) = take_now E s1;
          keyId = ''node-'' @ nodeId @ ''-'' @ show_int now;
          (r, s3) = igem_generateKeyRecord E C NODE_KEY keyId master s2;
          s4 = s3\<lparr>ig_keys := js_set keyId r (ig_keys s3)\<rparr>
      in (r, log_igem E ''igem-node-key-created'' [(''nodeId'', JStr nodeId), (''keyId'', JStr keyId)] s4))"

definition createEdgeKey :: "sysenv \<Rightarrow> crypto \<Rightarrow> string \<Rightarrow> 'a igem_st_scheme \<Rightarrow> igem_key \<times> 'a igem_st_scheme" where
  "createEdgeKey E C edgeId s =
     (let (master, s1) = getMasterKey E C s; (now, s2) = take_now E s1;
          keyId = ''edge-'' @ edgeId @ ''-'' @ show_int now;
          (r, s3) = igem_generateKeyRecord E C EDGE_KEY keyId master s2
      in (r, s3\<lparr>ig_keys := js_set keyId r (ig_keys s3)\<rparr>))"

subsection \<open>Nodes, edges and graphs\<close>

text \<open>The key of a node or edge: derived from the master key and the key record's name.\<close>

definition item_key :: "crypto \<Rightarrow> string \<Rightarrow> igem_key \<Rightarrow> string" where
  "item_key C master k = deriveKey C (hex C master) (ik_id k)"

definition encryptAuthorNode ::
    "sysenv \<Rightarrow> crypto \<Rightarrow> json \<Rightarrow> string \<Rightarrow> nat \<Rightarrow> 'a igem_st_scheme \<Rightarrow> (string + author_node) \<times> 'a igem_st_scheme" where
  "encryptAuthorNode E C rec nodeKeyId graphEpoch s =
     (case js_get (ig_keys s) nodeKeyId of
        None \<Rightarrow> (Inl (''Node key not found: '' @ nodeKeyId), s)
      | Some k \<Rightarrow>
          let (master, s1) = getMasterKey E C s;
              ((ct, iv, tag), s2) = encryptAES256GCM C (stringify rec) (item_key C master k) s1;
              h = sha256 E (stringify (JObj [(''type'', JStr ''author''), (''record'', rec)]))
          in (Inr \<lparr>an_hash = h, an_payload = ct, an_key = nodeKeyId, an_epoch = graphEpoch,
                   an_iv = base64 C iv, an_tag = base64 C tag\<rparr>, s2))"

definition decryptAuthorNode ::
    "sysenv \<Rightarrow> crypto \<Rightarrow> author_node \<Rightarrow> 'a igem_st_scheme \<Rightarrow> (string + json) \<times> 'a igem_st_scheme" where
  "decryptAuthorNode E C n s =
     (case js_get (ig_keys s) (an_key n) of
        None \<Rightarrow> (Inl (''Access key not found: '' @ an_key n), s)
      | Some k \<Rightarrow>
          let (master, s1) = getMasterKey E C s
          in (case decryptAES256GCM C (an_payload n) (item_key C master k) (unbase64 C (an_iv n)) (unbase64 C (an_tag n)) of
                None \<Rightarrow> (Inl ''Unsupported state or unable to authenticate data'', s1)
              | Some t \<Rightarrow> (case json_parse C t of Some j \<Rightarrow> (Inr j, s1) | None \<Rightarrow> (Inl ''Unexpected token in JSON'', s1))))"

definition encryptDerivationEdge ::
    "sysenv \<Rightarrow> crypto \<Rightarrow> string \<Rightarrow> string \<Rightarrow> string \<Rightarrow> json \<Rightarrow> string \<Rightarrow> 'a igem_st_scheme \<Rightarrow>
     (string + derivation_edge) \<times> 'a igem_st_scheme" where
  "encryptDerivationEdge E C src target ty metadata edgeKeyId s =
     (case js_get (ig_keys s) edgeKeyId of
        None \<Rightarrow> (Inl (''Edge key not found: '' @ edgeKeyId), s)
      | Some k \<Rightarrow>
          let (master, s1) = getMasterKey E C s;
              ((ct, iv, tag), s2) = encryptAES256GCM C (stringify metadata) (item_key C master k) s1;
              (u, s3) = take_uuid E s2
          in (Inr \<lparr>de_source = src, de_target = target, de_type = ty, de_metadata = ct, de_token = u,
                   de_iv = base64 C iv, de_tag = base64 C tag\<rparr>, s3))"

definition createIdentityGraph ::
    "sysenv \<Rightarrow> string \<Rightarrow> string \<Rightarrow> 'a igem_st_scheme \<Rightarrow> identity_graph \<times> 'a igem_st_scheme" where
  "createIdentityGraph E graphId policy s =
     (let g = \<lparr>ig_nodes = [], ig_edges = [], ig_seal = [], ig_epoch = 1, ig_policy = policy\<rparr>
      in (g, log_igem E ''igem-graph-created'' [(''graphId'', JStr graphId), (''traversalPolicy'', JStr policy)]
               (s\<lparr>ig_graphs := js_set graphId g (ig_graphs s)\<rparr>)))"

definition graph_seal :: "sysenv \<Rightarrow> author_node list \<Rightarrow> nat \<Rightarrow> string" where
  "graph_seal E ns epo = sha256 E (stringify (JObj [(''nodes'', jstrs (map an_hash ns)), (''epoch'', jnat epo)]))"

definition addNodeToGraph ::
    "sysenv \<Rightarrow> crypto \<Rightarrow> string \<Rightarrow> json \<Rightarrow> string \<Rightarrow> 'a igem_st_scheme \<Rightarrow> (string + author_node) \<times> 'a igem_st_scheme" where
  "addNodeToGraph E C graphId rec nodeKeyId s =
     (case js_get (ig_graphs s) graphId of
        None \<Rightarrow> (Inl (''Graph not found: '' @ graphId), s)
      | Some g \<Rightarrow>
          (case encryptAuthorNode E C rec nodeKeyId (ig_epoch g) s of
             (Inl e, s1) \<Rightarrow> (Inl e, s1)
           | (Inr n, s1) \<Rightarrow>
               let ns = ig_nodes g @ [n]
               in (Inr n, s1\<lparr>ig_graphs := js_set graphId (g\<lparr>ig_nodes := ns, ig_seal := graph_seal E ns (ig_epoch g)\<rparr>) (ig_graphs s1)\<rparr>)))"

definition addEdgeToGraph ::
    "sysenv \<Rightarrow> crypto \<Rightarrow> string \<Rightarrow> string \<Rightarrow> string \<Rightarrow> string \<Rightarrow> json \<Rightarrow> string \<Rightarrow> 'a igem_st_scheme \<Rightarrow>
     (string + derivation_edge) \<times> 'a igem_st_scheme" where
  "addEdgeToGraph E C graphId src target ty metadata edgeKeyId s =
     (case js_get (ig_graphs s) graphId of
        None \<Rightarrow> (Inl (''Graph not found: '' @ graphId), s)
      | Some g \<Rightarrow>
          (case encryptDerivationEdge E C src target ty metadata edgeKeyId s of
             (Inl e, s1) \<Rightarrow> (Inl e, s1)
           | (Inr e, s1) \<Rightarrow>
               (Inr e, s1\<lparr>ig_graphs := js_set graphId (g\<lparr>ig_edges := ig_edges g @ [e]\<rparr>) (ig_graphs s1)\<rparr>)))"

subsection \<open>Traversal tokens\<close>

definition token_text :: "traversal_token \<Rightarrow> string" where
  "token_text t = tt_id t @ ''|'' @ tt_from t @ ''|'' @ tt_to t @ ''|'' @ show_nat (tt_epoch t) @ ''|'' @ iso_string (tt_expiry t)"

definition issueTraversalToken ::
    "sysenv \<Rightarrow> crypto \<Rightarrow> string \<Rightarrow> string \<Rightarrow> string \<Rightarrow> 'a igem_st_scheme \<Rightarrow> (string + traversal_token) \<times> 'a igem_st_scheme" where
  "issueTraversalToken E C graphId issuing target s =
     (case js_get (ig_graphs s) graphId of
        None \<Rightarrow> (Inl (''Graph not found: '' @ graphId), s)
      | Some g \<Rightarrow>
          let (master, s1) = getMasterKey E C s;
              (rb, s2) = take_random C 32 s1;
              ((session, _, _), s3) = encryptAES256GCM C (hex C rb) master s2;
              (u, s4) = take_uuid E s3; (t, s5) = take_now E s4;
              tok = \<lparr>tt_id = u, tt_from = issuing, tt_to = target, tt_epoch = ig_epoch g, tt_session = session,
                     tt_expiry = t + 3600000, tt_single = True, tt_revocation = True, tt_signature = []\<rparr>;
              (kp, s6) = getSigningKeyPair C s5;
              tok' = tok\<lparr>tt_signature := base64 C (sign_key C (snd kp) (token_text tok))\<rparr>
          in (Inr tok', s6\<lparr>ig_tokens := js_set u tok' (ig_tokens s6)\<rparr>))"

definition used_mark :: "string \<Rightarrow> string" where
  "used_mark tokenId = tokenId @ ''-used''"

definition validateTraversalToken ::
    "sysenv \<Rightarrow> string \<Rightarrow> 'a igem_st_scheme \<Rightarrow> (string + traversal_token) \<times> 'a igem_st_scheme" where
  "validateTraversalToken E tokenId s =
     (case js_get (ig_tokens s) tokenId of
        None \<Rightarrow> (Inl ''Token not found'', s)
      | Some tok \<Rightarrow>
          if tt_single tok \<and> js_has (ig_tokens s) (used_mark tokenId)
          then (Inl ''Token already used (replay attack)'', s)
          else let (now, s1) = take_now E s
               in if now > tt_expiry tok then (Inl ''Token expired'', s1)
                  else (Inr tok, s1\<lparr>ig_tokens := js_set (used_mark tokenId) tok (ig_tokens s1)\<rparr>))"

subsection \<open>Transmissions\<close>

definition receipt_content :: "transmission_receipt \<Rightarrow> string" where
  "receipt_content r = tx_id r @ ''|'' @ tx_source r @ ''|'' @ tx_destination r @ ''|'' @ tx_payload r @ ''|'' @
     iso_string (tx_time r)"

text \<open>The two layers: the payload under a session key, and that with the session key, which is
  encrypted for the receiver, under the sender's master key.\<close>

definition outer_json :: "crypto \<Rightarrow> string \<times> string \<times> string \<Rightarrow> string \<Rightarrow> json" where
  "outer_json C inner sealed = (case inner of (ct, iv, tag) \<Rightarrow> JObj
     [(''innerEnvelope'', JObj [(''ciphertext'', JStr ct), (''iv'', JStr (base64 C iv)), (''authTag'', JStr (base64 C tag))]),
      (''encryptedSessionKey'', JStr (base64 C sealed))])"

definition createFederatedTransmission ::
    "sysenv \<Rightarrow> crypto \<Rightarrow> string \<Rightarrow> string \<Rightarrow> json \<Rightarrow> string \<Rightarrow> 'a igem_st_scheme \<Rightarrow>
     (string + envelope) \<times> 'a igem_st_scheme" where
  "createFederatedTransmission E C src dest payload destKey s =
     (let (master, s1) = getMasterKey E C s;
          (session, s2) = take_random C 32 s1;
          text = stringify payload;
          (inner, s3) = encryptAES256GCM C text session s2
      in if \<not> key_ok C destKey then (Inl ''Failed to read asymmetric key'', s3)
         else
           let sealed = rsa_enc C destKey (tick s3) session;
               s4 = s3\<lparr>tick := Suc (tick s3)\<rparr>;
               ((oct, oiv, otag), s5) = encryptAES256GCM C (stringify (outer_json C inner sealed)) master s4;
               (u, s6) = take_uuid E s5; (kp, s7) = getSigningKeyPair C s6; (t, s8) = take_now E s7;
               r = \<lparr>tx_id = u, tx_source = sha256 E src, tx_destination = sha256 E dest, tx_payload = sha256 E text,
                    tx_signature = [], tx_public = fst kp, tx_time = t\<rparr>;
               r' = r\<lparr>tx_signature := base64 C (sign_key C (snd kp) (receipt_content r))\<rparr>;
               (u2, s9) = take_uuid E s8; (t2, s10) = take_now E s9;
               env = \<lparr>en_id = u2, en_source = src, en_destination = dest, en_payload = oct, en_iv = base64 C oiv,
                      en_tag = base64 C otag, en_receipt = r', en_time = t2, en_ttl = 3600\<rparr>;
               s11 = s10\<lparr>ig_sent := ig_sent s10 @ [env]\<rparr>
           in (Inr env, log_igem E ''igem-federated-transmission''
                 [(''sourceNode'', JStr src), (''destinationNode'', JStr dest), (''envelopeId'', JStr u2)] s11))"

text \<open>The fields the receiver takes out of the outer payload.\<close>

definition open_outer :: "json \<Rightarrow> (string \<times> string \<times> string \<times> string) option" where
  "open_outer j =
     (case j of
        JObj fs \<Rightarrow>
          (case (jget fs ''innerEnvelope'', jget_str fs ''encryptedSessionKey'') of
             (Some (JObj gs), Some sealed) \<Rightarrow>
               (case (jget_str gs ''ciphertext'', jget_str gs ''iv'', jget_str gs ''authTag'') of
                  (Some ct, Some iv, Some tag) \<Rightarrow> Some (ct, iv, tag, sealed)
                | _ \<Rightarrow> None)
           | _ \<Rightarrow> None)
      | _ \<Rightarrow> None)"

definition AUTH_ERROR :: string where
  "AUTH_ERROR = ''Unsupported state or unable to authenticate data''"

text \<open>The receiver's checks of a message whose payload could be decrypted.\<close>

definition check_receipt ::
    "sysenv \<Rightarrow> crypto \<Rightarrow> envelope \<Rightarrow> string \<Rightarrow> 'a igem_st_scheme \<Rightarrow> (string + json) \<times> 'a igem_st_scheme" where
  "check_receipt E C env text s =
     (let r = en_receipt env
      in if \<not> key_ok C (tx_public r) then (Inl ''Failed to read asymmetric key'', s)
         else if \<not> verify_key C (tx_public r) (receipt_content r) (unbase64 C (tx_signature r))
         then (Inl ''ASIL transmission receipt signature invalid'', s)
         else let (now, s1) = take_now E s
              in if now - en_time env > en_ttl env * 1000 then (Inl ''Transmission TTL expired'', s1)
                 else (case json_parse C text of Some j \<Rightarrow> (Inr j, s1) | None \<Rightarrow> (Inl ''Unexpected token in JSON'', s1)))"

definition receiveFederatedTransmission ::
    "sysenv \<Rightarrow> crypto \<Rightarrow> envelope \<Rightarrow> string \<Rightarrow> 'a igem_st_scheme \<Rightarrow> (string + json) \<times> 'a igem_st_scheme" where
  "receiveFederatedTransmission E C env privKey s =
     (let (master, s1) = getMasterKey E C s
      in case decryptAES256GCM C (en_payload env) master (unbase64 C (en_iv env)) (unbase64 C (en_tag env)) of
           None \<Rightarrow> (Inl AUTH_ERROR, s1)
         | Some otext \<Rightarrow>
             (case Option.bind (json_parse C otext) open_outer of
                None \<Rightarrow> (Inl ''malformed payload'', s1)
              | Some (ct, iv, tag, sealed) \<Rightarrow>
                  if \<not> key_ok C privKey then (Inl ''Failed to read asymmetric key'', s1)
                  else
                    (case rsa_dec C privKey (unbase64 C sealed) of
                       None \<Rightarrow> (Inl ''oaep decoding error'', s1)
                     | Some session \<Rightarrow>
                         (case decryptAES256GCM C ct session (unbase64 C iv) (unbase64 C tag) of
                            None \<Rightarrow> (Inl AUTH_ERROR, s1)
                          | Some text \<Rightarrow> check_receipt E C env text s1))))"

record igem_status =
  is_keys :: nat
  is_graphs :: nat
  is_nodes :: nat
  is_edges :: nat
  is_tokens :: nat
  is_sent :: nat

definition getIGEMStatus :: "'a igem_st_scheme \<Rightarrow> igem_status" where
  "getIGEMStatus s =
     (let gs = js_values (ig_graphs s)
      in \<lparr>is_keys = length (ig_keys s), is_graphs = length (ig_graphs s),
          is_nodes = sum_list (map (length \<circ> ig_nodes) gs), is_edges = sum_list (map (length \<circ> ig_edges) gs),
          is_tokens = length (ig_tokens s), is_sent = length (ig_sent s)\<rparr>)"

definition resetIGEM :: "'a igem_st_scheme \<Rightarrow> 'a igem_st_scheme" where
  "resetIGEM s = s\<lparr>ig_keys := [], ig_graphs := [], ig_tokens := [], ig_sent := []\<rparr>"

subsection \<open>Frames\<close>

lemma igem_frame [simp]:
  "ig_keys (log_csr E tr d p i a s) = ig_keys s" "ig_graphs (log_csr E tr d p i a s) = ig_graphs s"
  "ig_tokens (log_csr E tr d p i a s) = ig_tokens s" "ig_sent (log_csr E tr d p i a s) = ig_sent s"
  "ig_signing (log_csr E tr d p i a s) = ig_signing s"
  by (simp_all add: log_csr_update)

lemma encrypt_eq:
  "encryptAES256GCM C t k s = ((base64 C (fst (aes_enc C k (random_at C 12 (tick s)) t)), random_at C 12 (tick s),
     snd (aes_enc C k (random_at C 12 (tick s)) t)), s\<lparr>tick := Suc (tick s)\<rparr>)"
  by (simp add: encryptAES256GCM_def case_prod_beta)

lemma decrypt_encrypt:
  assumes "aes_law C" and "base64_law C" and "encryptAES256GCM C t k s = ((ct, iv, tag), s')"
  shows "decryptAES256GCM C ct k (unbase64 C (base64 C iv)) (unbase64 C (base64 C tag)) = Some t"
  using assms by (auto simp: encrypt_eq decryptAES256GCM_def aes_law_def base64_law_def)

lemma generate_effect:
  "\<exists>r. igem_generateKeyRecord E C kt keyId m s = (r, s\<lparr>tick := tick s + 3\<rparr>) \<and> ik_id r = keyId \<and> ik_type r = kt"
  by (simp add: igem_generateKeyRecord_def encrypt_eq take_now_def Let_def eval_nat_numeral)

text \<open>Fetching the master key stores its record when there is none, and nothing else.\<close>

lemma master_effect:
  "\<exists>n k. snd (getMasterKey E C s) = (if js_get (ig_keys s) MASTER_KEY_ID = None
      then s\<lparr>tick := n, ig_keys := js_set MASTER_KEY_ID k (ig_keys s)\<rparr> else s) \<and>
     (js_get (ig_keys s) MASTER_KEY_ID = None \<longrightarrow> ik_id k = MASTER_KEY_ID)"
proof (cases "js_get (ig_keys s) MASTER_KEY_ID")
  case None
  obtain r where "igem_generateKeyRecord E C GRAPH_MASTER MASTER_KEY_ID (random_at C 32 (tick s)) (s\<lparr>tick := Suc (tick s)\<rparr>) =
      (r, s\<lparr>tick := Suc (tick s) + 3\<rparr>)" "ik_id r = MASTER_KEY_ID"
    using generate_effect [of E C GRAPH_MASTER MASTER_KEY_ID "random_at C 32 (tick s)" "s\<lparr>tick := Suc (tick s)\<rparr>"] by auto
  with None show ?thesis by (intro exI [of _ "Suc (tick s) + 3"] exI [of _ r]) (simp add: getMasterKey_def Let_def)
qed (simp add: getMasterKey_def)

lemma master_known:
  "js_get (ig_keys s) MASTER_KEY_ID = Some k \<Longrightarrow> getMasterKey E C s = (derived_master C k, s)"
  by (simp add: getMasterKey_def)

lemma master_frame [simp]:
  "ig_graphs (snd (getMasterKey E C s)) = ig_graphs s" "ig_tokens (snd (getMasterKey E C s)) = ig_tokens s"
  "ig_sent (snd (getMasterKey E C s)) = ig_sent s" "ig_signing (snd (getMasterKey E C s)) = ig_signing s"
proof -
  obtain n k where "snd (getMasterKey E C s) = (if js_get (ig_keys s) MASTER_KEY_ID = None
      then s\<lparr>tick := n, ig_keys := js_set MASTER_KEY_ID k (ig_keys s)\<rparr> else s)" using master_effect by blast
  then show "ig_graphs (snd (getMasterKey E C s)) = ig_graphs s" "ig_tokens (snd (getMasterKey E C s)) = ig_tokens s"
    "ig_sent (snd (getMasterKey E C s)) = ig_sent s" "ig_signing (snd (getMasterKey E C s)) = ig_signing s" by simp_all
qed

lemma signing_frame [simp]:
  "ig_keys (snd (getSigningKeyPair C s)) = ig_keys s" "ig_graphs (snd (getSigningKeyPair C s)) = ig_graphs s"
  "ig_tokens (snd (getSigningKeyPair C s)) = ig_tokens s" "ig_sent (snd (getSigningKeyPair C s)) = ig_sent s"
  by (simp_all add: getSigningKeyPair_def split: option.split)

subsection \<open>Runs\<close>

datatype igem_event =
    InitIgem
  | NewNodeKey string
  | NewEdgeKey string
  | NewGraph string string
  | AddNode string json string
  | AddEdge string string string string json string
  | IssueToken string string string
  | ValidateToken string
  | Transmit string string json string
  | Receive envelope string
  | Encrypt json string nat
  | Decrypt author_node
  | ResetIgem

primrec igem_step :: "sysenv \<Rightarrow> crypto \<Rightarrow> igem_event \<Rightarrow> 'a igem_st_scheme \<Rightarrow> 'a igem_st_scheme" where
  "igem_step E C InitIgem s = initializeIGEM E C s"
| "igem_step E C (NewNodeKey n) s = snd (createNodeKey E C n s)"
| "igem_step E C (NewEdgeKey n) s = snd (createEdgeKey E C n s)"
| "igem_step E C (NewGraph g p) s = snd (createIdentityGraph E g p s)"
| "igem_step E C (AddNode g r k) s = snd (addNodeToGraph E C g r k s)"
| "igem_step E C (AddEdge g a b ty md k) s = snd (addEdgeToGraph E C g a b ty md k s)"
| "igem_step E C (IssueToken g a b) s = snd (issueTraversalToken E C g a b s)"
| "igem_step E C (ValidateToken i) s = snd (validateTraversalToken E i s)"
| "igem_step E C (Transmit a b j k) s = snd (createFederatedTransmission E C a b j k s)"
| "igem_step E C (Receive env k) s = snd (receiveFederatedTransmission E C env k s)"
| "igem_step E C (Encrypt j k n) s = snd (encryptAuthorNode E C j k n s)"
| "igem_step E C (Decrypt n) s = snd (decryptAuthorNode E C n s)"
| "igem_step E C ResetIgem s = resetIGEM s"

text \<open>What every state keeps: the master key's record is there as soon as any record is, a record
  is stored under its own name, every token is for a single use.\<close>

definition keys_ok :: "(string, igem_key) jsmap \<Rightarrow> bool" where
  "keys_ok m \<longleftrightarrow> (m = [] \<or> js_has m MASTER_KEY_ID) \<and> (\<forall>k r. js_get m k = Some r \<longrightarrow> ik_id r = k)"

definition igem_ok :: "'a igem_st_scheme \<Rightarrow> bool" where
  "igem_ok s \<longleftrightarrow> keys_ok (ig_keys s) \<and> all_values tt_single (ig_tokens s)"

lemma keys_ok_set: "keys_ok m \<Longrightarrow> ik_id r = k \<Longrightarrow> k = MASTER_KEY_ID \<or> js_has m MASTER_KEY_ID \<Longrightarrow> keys_ok (js_set k r m)"
  by (auto simp: keys_ok_def)

lemma keys_master:
  assumes "keys_ok (ig_keys s)"
  shows "keys_ok (ig_keys (snd (getMasterKey E C s))) \<and> js_has (ig_keys (snd (getMasterKey E C s))) MASTER_KEY_ID"
proof -
  obtain n k where m: "snd (getMasterKey E C s) = (if js_get (ig_keys s) MASTER_KEY_ID = None
      then s\<lparr>tick := n, ig_keys := js_set MASTER_KEY_ID k (ig_keys s)\<rparr> else s)"
    "js_get (ig_keys s) MASTER_KEY_ID = None \<Longrightarrow> ik_id k = MASTER_KEY_ID" using master_effect by blast
  show ?thesis
  proof (cases "js_get (ig_keys s) MASTER_KEY_ID = None")
    case True
    with m keys_ok_set [OF assms, of k MASTER_KEY_ID] show ?thesis by simp
  next
    case False
    with m(1) assms show ?thesis by (simp add: js_has_def)
  qed
qed

text \<open>Fetching the master key when the record of some key is there changes nothing.\<close>

lemma master_quiet:
  assumes "keys_ok (ig_keys s)" and "js_get (ig_keys s) k = Some r"
  shows "getMasterKey E C s = (deriveKey C ''sovereign-x-asil-master'' MASTER_KEY_ID, s)"
proof -
  from assms obtain m where "js_get (ig_keys s) MASTER_KEY_ID = Some m" "ik_id m = MASTER_KEY_ID"
    by (auto simp: keys_ok_def js_has_def)
  then show ?thesis by (simp add: master_known derived_master_def)
qed

definition node_key_of :: "crypto \<Rightarrow> string \<Rightarrow> string" where
  "node_key_of C k = deriveKey C (hex C (deriveKey C ''sovereign-x-asil-master'' MASTER_KEY_ID)) k"

lemma encrypt_node_eq:
  assumes "keys_ok (ig_keys s)" and "js_get (ig_keys s) k = Some r"
  shows "encryptAuthorNode E C j k n s =
    (let ((ct, iv, tag), s2) = encryptAES256GCM C (stringify j) (node_key_of C k) s
     in (Inr \<lparr>an_hash = sha256 E (stringify (JObj [(''type'', JStr ''author''), (''record'', j)])), an_payload = ct,
              an_key = k, an_epoch = n, an_iv = base64 C iv, an_tag = base64 C tag\<rparr>, s2))"
proof -
  have "ik_id r = k" using assms by (simp add: keys_ok_def)
  then show ?thesis using assms(2)
    by (simp add: encryptAuthorNode_def master_quiet [OF assms] item_key_def node_key_of_def Let_def encrypt_eq)
qed

lemma decrypt_node_eq:
  assumes "keys_ok (ig_keys s)" and "js_get (ig_keys s) (an_key n) = Some r"
  shows "decryptAuthorNode E C n s =
    (case decryptAES256GCM C (an_payload n) (node_key_of C (an_key n)) (unbase64 C (an_iv n)) (unbase64 C (an_tag n)) of
       None \<Rightarrow> (Inl ''Unsupported state or unable to authenticate data'', s)
     | Some t \<Rightarrow> (case json_parse C t of Some j \<Rightarrow> (Inr j, s) | None \<Rightarrow> (Inl ''Unexpected token in JSON'', s)))"
proof -
  have "ik_id r = an_key n" using assms by (simp add: keys_ok_def)
  then show ?thesis using assms(2)
    by (simp add: decryptAuthorNode_def master_quiet [OF assms] item_key_def node_key_of_def Let_def)
qed

lemma igem_ok_master:
  assumes "igem_ok s" and "getMasterKey E C s = (m, s1)"
  shows "igem_ok s1 \<and> js_has (ig_keys s1) MASTER_KEY_ID \<and> ig_tokens s1 = ig_tokens s \<and> ig_graphs s1 = ig_graphs s"
  using assms keys_master [of s E C] master_frame [of E C s] by (simp add: igem_ok_def)

lemma igem_ok_irrelevant [simp]:
  "igem_ok (s\<lparr>tick := n\<rparr>) = igem_ok s" "igem_ok (s\<lparr>ig_graphs := g\<rparr>) = igem_ok s"
  "igem_ok (s\<lparr>ig_sent := l\<rparr>) = igem_ok s" "igem_ok (s\<lparr>ig_signing := k\<rparr>) = igem_ok s"
  "igem_ok (log_csr E tr d p i a s) = igem_ok s"
  by (simp_all add: igem_ok_def)

lemma igem_ok_put_key:
  "igem_ok s \<Longrightarrow> js_has (ig_keys s) MASTER_KEY_ID \<Longrightarrow> ik_id r = k \<Longrightarrow> igem_ok (s\<lparr>ig_keys := js_set k r (ig_keys s)\<rparr>)"
  by (simp add: igem_ok_def keys_ok_set)

lemma igem_ok_put_token: "igem_ok s \<Longrightarrow> tt_single t \<Longrightarrow> igem_ok (s\<lparr>ig_tokens := js_set k t (ig_tokens s)\<rparr>)"
  by (simp add: igem_ok_def all_values_set)

text \<open>What any operation but the reset does to the tokens: none disappears.\<close>

definition igem_keeps :: "'a igem_st_scheme \<Rightarrow> 'a igem_st_scheme \<Rightarrow> bool" where
  "igem_keeps s s' \<longleftrightarrow> igem_ok s' \<and> (\<forall>k. js_has (ig_tokens s) k \<longrightarrow> js_has (ig_tokens s') k)"

lemma node_key_keeps:
  assumes "igem_ok s"
  shows "igem_keeps s (snd (createNodeKey E C n s))" "igem_keeps s (snd (createEdgeKey E C n s))"
proof -
  obtain m s1 where m: "getMasterKey E C s = (m, s1)" by fastforce
  note ok = igem_ok_master [OF assms m]
  let ?t = "s1\<lparr>tick := Suc (tick s1)\<rparr>"
  obtain r where "igem_generateKeyRecord E C NODE_KEY (''node-'' @ n @ ''-'' @ show_int (now_at E (tick s1))) m ?t = (r, ?t\<lparr>tick := tick ?t + 3\<rparr>)"
    "ik_id r = ''node-'' @ n @ ''-'' @ show_int (now_at E (tick s1))" using generate_effect by metis
  with m ok igem_ok_put_key [of "?t\<lparr>tick := tick ?t + 3\<rparr>" r]
  show "igem_keeps s (snd (createNodeKey E C n s))" by (simp add: createNodeKey_def take_now_def Let_def igem_keeps_def)
  obtain r where "igem_generateKeyRecord E C EDGE_KEY (''edge-'' @ n @ ''-'' @ show_int (now_at E (tick s1))) m ?t = (r, ?t\<lparr>tick := tick ?t + 3\<rparr>)"
    "ik_id r = ''edge-'' @ n @ ''-'' @ show_int (now_at E (tick s1))" using generate_effect by metis
  with m ok igem_ok_put_key [of "?t\<lparr>tick := tick ?t + 3\<rparr>" r]
  show "igem_keeps s (snd (createEdgeKey E C n s))" by (simp add: createEdgeKey_def take_now_def Let_def igem_keeps_def)
qed

lemma encrypt_keeps:
  assumes "igem_ok s"
  shows "igem_keeps s (snd (encryptAuthorNode E C j k n s)) \<and> igem_keeps s (snd (encryptDerivationEdge E C a b ty md k s)) \<and>
    igem_keeps s (snd (decryptAuthorNode E C nd s))"
proof -
  obtain m s1 where m: "getMasterKey E C s = (m, s1)" by fastforce
  note ok = igem_ok_master [OF assms m]
  have s: "igem_keeps s s" using assms by (simp add: igem_keeps_def)
  from ok s m show ?thesis
    by (simp add: encryptAuthorNode_def encryptDerivationEdge_def decryptAuthorNode_def encrypt_eq take_uuid_def igem_keeps_def
          Let_def split: option.split)
qed

lemma add_keeps:
  assumes "igem_ok s"
  shows "igem_keeps s (snd (addNodeToGraph E C g j k s))" "igem_keeps s (snd (addEdgeToGraph E C g a b ty md k s))"
proof -
  have s: "igem_keeps s s" using assms by (simp add: igem_keeps_def)
  note ok = encrypt_keeps [OF assms, of E C j k _ a b ty md]
  show "igem_keeps s (snd (addNodeToGraph E C g j k s))"
  proof (cases "js_get (ig_graphs s) g")
    case (Some gr)
    obtain x t where "encryptAuthorNode E C j k (ig_epoch gr) s = (x, t)" by fastforce
    with Some ok [of "ig_epoch gr"] show ?thesis by (cases x) (simp_all add: addNodeToGraph_def igem_keeps_def Let_def)
  qed (simp add: addNodeToGraph_def s)
  show "igem_keeps s (snd (addEdgeToGraph E C g a b ty md k s))"
  proof (cases "js_get (ig_graphs s) g")
    case (Some gr)
    obtain x t where "encryptDerivationEdge E C a b ty md k s = (x, t)" by fastforce
    with Some ok show ?thesis by (cases x) (simp_all add: addEdgeToGraph_def igem_keeps_def Let_def)
  qed (simp add: addEdgeToGraph_def s)
qed

lemma signing_keeps: "igem_ok s \<Longrightarrow> getSigningKeyPair C s = (kp, s1) \<Longrightarrow> igem_ok s1 \<and> ig_tokens s1 = ig_tokens s \<and> ig_graphs s1 = ig_graphs s"
  using signing_frame [of C s] by (simp add: igem_ok_def)

lemma token_keeps:
  assumes "igem_ok s"
  shows "igem_keeps s (snd (issueTraversalToken E C g a b s))" "igem_keeps s (snd (validateTraversalToken E i s))"
proof -
  have s: "igem_keeps s s" using assms by (simp add: igem_keeps_def)
  show "igem_keeps s (snd (issueTraversalToken E C g a b s))"
  proof (cases "js_get (ig_graphs s) g")
    case (Some gr)
    obtain m s1 where m: "getMasterKey E C s = (m, s1)" by fastforce
    note ok = igem_ok_master [OF assms m]
    let ?t = "s1\<lparr>tick := Suc (Suc (Suc (Suc (tick s1))))\<rparr>"
    obtain kp s6 where kp: "getSigningKeyPair C ?t = (kp, s6)" by fastforce
    have "igem_ok s6" "ig_tokens s = ig_tokens s6" using signing_keeps [OF _ kp] ok by simp_all
    with Some m kp show ?thesis
      by (simp add: issueTraversalToken_def encrypt_eq take_uuid_def take_now_def Let_def igem_keeps_def igem_ok_put_token)
  qed (simp add: issueTraversalToken_def s)
  show "igem_keeps s (snd (validateTraversalToken E i s))"
  proof (cases "js_get (ig_tokens s) i")
    case (Some t)
    with assms have "tt_single t" by (auto simp: igem_ok_def dest: all_valuesD)
    with igem_ok_put_token [of "s\<lparr>tick := Suc (tick s)\<rparr>" t "used_mark i"] Some s assms show ?thesis
      by (simp add: validateTraversalToken_def take_now_def Let_def igem_keeps_def)
  qed (simp add: validateTraversalToken_def s)
qed

lemma transmission_keeps:
  assumes "igem_ok s"
  shows "igem_keeps s (snd (createFederatedTransmission E C a b j k s))" "igem_keeps s (snd (receiveFederatedTransmission E C env pk s))"
proof -
  obtain m s1 where m: "getMasterKey E C s = (m, s1)" by fastforce
  note ok = igem_ok_master [OF assms m]
  have s1: "igem_keeps s s1" using ok by (simp add: igem_keeps_def)
  let ?t = "s1\<lparr>tick := Suc (Suc (Suc (Suc (Suc (tick s1)))))\<rparr>"
  obtain kp s6 where kp: "getSigningKeyPair C ?t = (kp, s6)" by fastforce
  have "igem_ok s6 \<and> ig_tokens s6 = ig_tokens s" using signing_keeps [OF _ kp] ok by simp
  with s1 m kp show "igem_keeps s (snd (createFederatedTransmission E C a b j k s))"
    by (simp add: createFederatedTransmission_def encrypt_eq take_uuid_def take_now_def Let_def igem_keeps_def)
  have chk: "igem_keeps s (snd (check_receipt E C env p s1))" for p
    using s1 by (simp add: check_receipt_def take_now_def Let_def igem_keeps_def split: option.split)
  show "igem_keeps s (snd (receiveFederatedTransmission E C env pk s))"
    using s1 chk m by (simp add: receiveFederatedTransmission_def split: option.split prod.split)
qed

lemma igem_step_keeps:
  assumes "igem_ok s" and "e \<noteq> ResetIgem"
  shows "igem_keeps s (igem_step E C e s)"
proof (cases e)
  case InitIgem
  obtain m s1 where m: "getMasterKey E C s = (m, s1)" by fastforce
  from igem_ok_master [OF assms(1) m] m InitIgem show ?thesis by (simp add: initializeIGEM_def igem_keeps_def)
next
  case (NewGraph g p)
  with assms show ?thesis by (simp add: createIdentityGraph_def Let_def igem_keeps_def)
qed (use assms in \<open>simp_all add: node_key_keeps add_keeps token_keeps transmission_keeps encrypt_keeps\<close>)

lemma igem_step_ok: "igem_ok s \<Longrightarrow> igem_ok (igem_step E C e s)"
proof (cases "e = ResetIgem")
  case True
  then show ?thesis by (simp add: resetIGEM_def igem_ok_def keys_ok_def)
next
  case False
  then show "igem_ok s \<Longrightarrow> ?thesis" using igem_step_keeps by (auto simp: igem_keeps_def)
qed

interpretation identity: machine "igem_step E C" igem_ok
  by unfold_locales (rule igem_step_ok)

lemma igem_run_keeps: "igem_ok s \<Longrightarrow> ResetIgem \<notin> set es \<Longrightarrow> igem_keeps s (fold (igem_step E C) es s)"
proof (induction es arbitrary: s)
  case (Cons e es)
  then have "igem_keeps s (igem_step E C e s)" by (intro igem_step_keeps) auto
  moreover from this Cons have "igem_keeps (igem_step E C e s) (fold (igem_step E C) es (igem_step E C e s))"
    by (simp add: igem_keeps_def)
  ultimately show ?case by (simp add: igem_keeps_def)
qed (simp add: igem_keeps_def)

definition init_igem :: igem_st where
  "init_igem = \<lparr>tick = 0, csr_ledger = [], wal = [], ig_keys = [], ig_graphs = [], ig_tokens = [], ig_sent = [],
     ig_signing = None\<rparr>"

lemma init_igem_ok: "igem_ok init_igem"
  by (simp add: igem_ok_def keys_ok_def init_igem_def)

lemma node_key_known: "js_has (ig_keys (snd (createNodeKey E C n s))) (ik_id (fst (createNodeKey E C n s)))"
proof -
  obtain m s1 where m: "getMasterKey E C s = (m, s1)" by fastforce
  let ?t = "s1\<lparr>tick := Suc (tick s1)\<rparr>"
  obtain r where "igem_generateKeyRecord E C NODE_KEY (''node-'' @ n @ ''-'' @ show_int (now_at E (tick s1))) m ?t = (r, ?t\<lparr>tick := tick ?t + 3\<rparr>)"
    "ik_id r = ''node-'' @ n @ ''-'' @ show_int (now_at E (tick s1))" using generate_effect by metis
  with m show ?thesis by (simp add: createNodeKey_def take_now_def Let_def)
qed

lemma issue_effect:
  assumes "js_get (ig_graphs s) g = Some gr"
  shows "\<exists>tok s' n. issueTraversalToken E C g a b s = (Inr tok, s') \<and> ig_tokens s' = js_set (tt_id tok) tok (ig_tokens s) \<and>
    tt_expiry tok = now_at E n + 3600000 \<and> tick s' \<le> n + 2"
proof -
  obtain m s1 where m: "getMasterKey E C s = (m, s1)" by fastforce
  then have t: "ig_tokens s1 = ig_tokens s" using master_frame(2) [of E C s] by simp
  let ?t = "s1\<lparr>tick := Suc (Suc (Suc (Suc (tick s1))))\<rparr>"
  obtain kp s6 where kp: "getSigningKeyPair C ?t = (kp, s6)" by fastforce
  then have s6: "ig_tokens s6 = ig_tokens s" using signing_frame(3) [of C ?t] t by simp
  from kp have "tick s6 \<le> Suc (tick ?t)" by (auto simp: getSigningKeyPair_def Let_def split: option.splits)
  with assms m kp s6 show ?thesis
    by (simp add: issueTraversalToken_def encrypt_eq take_uuid_def take_now_def Let_def)
       (rule exI [of _ "Suc (Suc (Suc (tick s1)))"], simp)
qed

subsection \<open>Properties\<close>

text \<open>C15. An encrypted author node can be read back: after any run from the start, when a node is encrypted
  and any further run follows, decrypting it returns the author's record as long as its key is
  registered, and is refused with the name of the key when it is not (after a reset). The laws
  of the platform's AES-GCM, base64 and JSON functions are assumed.\<close>

theorem author_node_roundtrip:
  assumes "aes_law C" and "base64_law C" and "json_law C rec"
    and "encryptAuthorNode E C rec k n (fold (igem_step E C) es init_igem) = (Inr nd, s1)"
    and "s2 = fold (igem_step E C) es' s1"
  shows "fst (decryptAuthorNode E C nd s2) =
    (if js_has (ig_keys s2) k then Inr rec else Inl (''Access key not found: '' @ k))"
proof -
  let ?s = "fold (igem_step E C) es init_igem"
  have ok: "keys_ok (ig_keys ?s)" "igem_ok ?s" using identity.run_inv [OF init_igem_ok, of E C es] by (simp_all add: igem_ok_def)
  from encrypt_keeps [OF ok(2), of E C rec k n] assms(4) have "igem_ok s1" by (simp add: igem_keeps_def)
  from identity.run_inv [OF this, of E C es'] have ok2: "keys_ok (ig_keys s2)" by (simp add: assms(5) igem_ok_def)
  from assms(4) obtain r where r: "js_get (ig_keys ?s) k = Some r" by (auto simp: encryptAuthorNode_def split: option.splits)
  obtain ct iv tag t where enc: "encryptAES256GCM C (stringify rec) (node_key_of C k) ?s = ((ct, iv, tag), t)"
    by (metis prod_cases3 surj_pair)
  with encrypt_node_eq [OF ok(1) r] assms(4)
  have nd: "an_payload nd = ct" "an_key nd = k" "an_iv nd = base64 C iv" "an_tag nd = base64 C tag" by auto
  show ?thesis
  proof (cases "js_get (ig_keys s2) k")
    case None
    with nd show ?thesis by (simp add: decryptAuthorNode_def js_has_def)
  next
    case (Some r2)
    from decrypt_node_eq [OF ok2, of nd] Some nd decrypt_encrypt [OF assms(1,2) enc] assms(3) show ?thesis
      by (simp add: js_has_def json_law_def)
  qed
qed

theorem author_node_roundtrip_witness:
  "\<exists>k nd s1. encryptAuthorNode demo_env demo_crypto (JObj []) k 1 (fold (igem_step demo_env demo_crypto) [NewNodeKey ''a''] init_igem) = (Inr nd, s1) \<and>
     fst (decryptAuthorNode demo_env demo_crypto nd (fold (igem_step demo_env demo_crypto) [Decrypt nd] s1)) = Inr (JObj [])"
proof -
  let ?k = "ik_id (fst (createNodeKey demo_env demo_crypto ''a'' init_igem))"
  let ?s = "fold (igem_step demo_env demo_crypto) [NewNodeKey ''a''] init_igem"
  obtain r where r: "js_get (ig_keys ?s) ?k = Some r"
    using node_key_known [of demo_env demo_crypto "''a''" init_igem] by (auto simp: js_has_def)
  have ok: "keys_ok (ig_keys ?s)" using identity.run_inv [OF init_igem_ok, of demo_env demo_crypto "[NewNodeKey ''a'']"]
    by (simp only: igem_ok_def)
  from encrypt_node_eq [OF ok r, of demo_env demo_crypto "JObj []" 1] obtain nd s1 where
    e: "encryptAuthorNode demo_env demo_crypto (JObj []) ?k 1 ?s = (Inr nd, s1)" "ig_keys s1 = ig_keys ?s" "an_key nd = ?k"
    by (auto simp: encrypt_eq Let_def)
  with decrypt_node_eq [of s1 nd r demo_env demo_crypto] ok r
  have "snd (decryptAuthorNode demo_env demo_crypto nd s1) = s1" by (simp split: option.split)
  with e(2) r have "js_has (ig_keys (fold (igem_step demo_env demo_crypto) [Decrypt nd] s1)) ?k" by (simp add: js_has_def)
  with author_node_roundtrip [OF demo_crypto_laws e(1) refl, of "[Decrypt nd]"] e(1) show ?thesis by auto
qed

text \<open>C16. A traversal token is accepted once: after a successful validation the same identifier is refused as a
  replay in every later state without a reset. The mark of its use, though, is stored as a token
  of its own: the identifier with the suffix \<open>-used\<close> names the same token and is accepted once
  more.\<close>

theorem token_accepted_once:
  assumes "s = fold (igem_step E C) es init_igem" and "validateTraversalToken E i s = (Inr tok, s1)"
    and "ResetIgem \<notin> set es'" and "s2 = fold (igem_step E C) es' s1"
  shows "validateTraversalToken E i s2 = (Inl ''Token already used (replay attack)'', s2) \<and>
    (now_at E (tick s1) \<le> tt_expiry tok \<and> \<not> js_has (ig_tokens s1) (used_mark (used_mark i)) \<longrightarrow>
      fst (validateTraversalToken E (used_mark i) s1) = Inr tok)"
proof -
  have ok: "igem_ok s" using identity.run_inv [OF init_igem_ok, of E C es] assms(1) by simp
  from assms(2) obtain t where t: "js_get (ig_tokens s) i = Some t" by (auto simp: validateTraversalToken_def split: option.splits)
  from assms(2) t have s1: "t = tok" "ig_tokens s1 = js_set (used_mark i) tok (ig_tokens s)"
    by (auto simp: validateTraversalToken_def take_now_def Let_def split: if_splits)
  from token_keeps(2) [OF ok, of E i] assms(2) have ok1: "igem_ok s1" by (simp add: igem_keeps_def)
  from igem_run_keeps [OF ok1 assms(3), of E C] s1(2) t have
    s2: "igem_ok s2" "js_has (ig_tokens s2) (used_mark i)" "js_has (ig_tokens s2) i"
    by (auto simp: assms(4) igem_keeps_def js_has_def)
  then obtain u where "js_get (ig_tokens s2) i = Some u" "tt_single u"
    by (auto simp: js_has_def igem_ok_def dest: all_valuesD)
  with s2 have "validateTraversalToken E i s2 = (Inl ''Token already used (replay attack)'', s2)"
    by (simp add: validateTraversalToken_def)
  moreover have "fst (validateTraversalToken E (used_mark i) s1) = Inr tok"
    if "now_at E (tick s1) \<le> tt_expiry tok" "\<not> js_has (ig_tokens s1) (used_mark (used_mark i))"
    using that s1(2) by (simp add: validateTraversalToken_def take_now_def Let_def)
  ultimately show ?thesis by blast
qed

theorem token_accepted_once_witness:
  "\<exists>i tok s1. validateTraversalToken demo_env i (fold (igem_step demo_env demo_crypto) [NewGraph ''g'' ''STRICT'', IssueToken ''g'' ''a'' ''b''] init_igem) = (Inr tok, s1) \<and>
     fst (validateTraversalToken demo_env i s1) = Inl ''Token already used (replay attack)'' \<and>
     fst (validateTraversalToken demo_env (used_mark i) s1) = Inr tok"
proof -
  let ?g = "igem_step demo_env demo_crypto (NewGraph ''g'' ''STRICT'') init_igem"
  let ?s = "fold (igem_step demo_env demo_crypto) [NewGraph ''g'' ''STRICT'', IssueToken ''g'' ''a'' ''b''] init_igem"
  have now: "now_at demo_env n = 1000 * int n" for n by (simp add: demo_env_def)
  obtain gr where "js_get (ig_graphs ?g) ''g'' = Some gr" by (simp add: createIdentityGraph_def Let_def)
  from issue_effect [OF this, of demo_env demo_crypto "''a''" "''b''"] obtain tok n where
    t: "ig_tokens ?s = [(tt_id tok, tok)]" "tt_expiry tok = 1000 * int n + 3600000" "tick ?s \<le> n + 2"
    by (auto simp: now createIdentityGraph_def Let_def init_igem_def)
  define s1 where "s1 = ?s\<lparr>tick := Suc (tick ?s), ig_tokens := js_set (used_mark (tt_id tok)) tok [(tt_id tok, tok)]\<rparr>"
  have v: "validateTraversalToken demo_env (tt_id tok) ?s = (Inr tok, s1)"
    using t by (simp add: validateTraversalToken_def take_now_def Let_def now used_mark_def js_has_def s1_def)
  have "now_at demo_env (tick s1) \<le> tt_expiry tok" "\<not> js_has (ig_tokens s1) (used_mark (used_mark (tt_id tok)))"
    using t by (simp_all add: now s1_def used_mark_def js_has_def)
  with token_accepted_once [OF refl v, of "[]" s1]
  have "fst (validateTraversalToken demo_env (tt_id tok) s1) = Inl ''Token already used (replay attack)''"
    "fst (validateTraversalToken demo_env (used_mark (tt_id tok)) s1) = Inr tok" by simp_all
  with v show ?thesis by blast
qed

end
