(* ===== verification/Worlds.thy ===== *)
theory Worlds
  imports Csr
begin

text \<open>
  Federated worlds (\<open>agent/sovereign-x/worlds.ts\<close>): worlds, the treaties between them, actions
  that one world proposes to another, and each world's lineage of executed actions. A treaty
  is one object that the registry and the worlds it names share, so that expiring it shows in
  all of them: the objects live in a list and everybody holds their index. \<open>treatyProtocol.ts\<close>
  works on the same type.
\<close>

subsection \<open>Data\<close>

datatype world_status = WORLD_ACTIVE | WORLD_INACTIVE | WORLD_ISOLATED | WORLD_BREACHED

datatype fa_status = FA_PROPOSED | FA_ALIGNED | FA_EXECUTED | FA_REJECTED | FA_REVERTED

record treaty =
  ty_id :: string
  ty_worlds :: "string list"
  ty_invariants :: "string list"
  ty_model :: string
  ty_guarantees :: "string list"
  ty_active :: bool
  ty_signed :: time
  ty_expires :: time

record world =
  wo_id :: string
  wo_name :: string
  wo_domain :: string
  wo_status :: world_status
  wo_authority :: string
  wo_constitution :: "string list"
  wo_treaties :: "nat list"
  wo_created :: time
  wo_contact :: time

record fed_action =
  fa_id :: string
  fa_source :: string
  fa_target :: string
  fa_intent :: string
  fa_evidence :: "string list"
  fa_proof :: string
  fa_status :: fa_status
  fa_time :: time
  fa_completed :: "time option"

record cross_hash =
  ch_source :: string
  ch_target :: string
  ch_hash :: string

record world_lineage =
  wl_id :: string
  wl_hashes :: "cross_hash list"
  wl_verified :: time

record world_st = base_st +
  ws_worlds :: "(string, world) jsmap"
  ws_actions :: "fed_action list"
  ws_objects :: "treaty list"
  ws_treaties :: "(string, nat) jsmap"
  ws_lineages :: "(string, world_lineage) jsmap"

definition show_world_status :: "world_status \<Rightarrow> string" where
  "show_world_status st = (case st of WORLD_ACTIVE \<Rightarrow> ''active'' | WORLD_INACTIVE \<Rightarrow> ''inactive''
     | WORLD_ISOLATED \<Rightarrow> ''isolated'' | WORLD_BREACHED \<Rightarrow> ''breached'')"

abbreviation log_world :: "sysenv \<Rightarrow> string \<Rightarrow> (string \<times> json) list \<Rightarrow> 'a base_st_scheme \<Rightarrow> 'a base_st_scheme" where
  "log_world E tr payload \<equiv> log_csr E tr ''federation'' payload None ''federated-multi-agent-worlds''"

subsection \<open>Worlds\<close>

definition createWorld ::
    "sysenv \<Rightarrow> string \<Rightarrow> string \<Rightarrow> string \<Rightarrow> string list \<Rightarrow> 'a world_st_scheme \<Rightarrow> world \<times> 'a world_st_scheme" where
  "createWorld E name domn auth constitution s =
     (let (u, s1) = take_uuid E s; (t1, s2) = take_now E s1; (t2, s3) = take_now E s2;
          w = \<lparr>wo_id = u, wo_name = name, wo_domain = domn, wo_status = WORLD_ACTIVE, wo_authority = auth,
               wo_constitution = constitution, wo_treaties = [], wo_created = t1, wo_contact = t2\<rparr>;
          s4 = s3\<lparr>ws_worlds := js_set u w (ws_worlds s3)\<rparr>;
          (t3, s5) = take_now E s4;
          s6 = s5\<lparr>ws_lineages := js_set u \<lparr>wl_id = u, wl_hashes = [], wl_verified = t3\<rparr> (ws_lineages s5)\<rparr>
      in (w, log_world E ''federated-world-created''
               [(''worldId'', JStr u), (''name'', JStr name), (''domain'', JStr domn),
                (''constitutionLength'', jnat (length constitution))] s6))"

definition getWorld :: "string \<Rightarrow> 'a world_st_scheme \<Rightarrow> world option" where
  "getWorld worldId s = js_get (ws_worlds s) worldId"

definition listWorlds :: "'a world_st_scheme \<Rightarrow> world list" where
  "listWorlds s = js_values (ws_worlds s)"

definition updateWorldStatus ::
    "sysenv \<Rightarrow> string \<Rightarrow> world_status \<Rightarrow> 'a world_st_scheme \<Rightarrow> bool \<times> 'a world_st_scheme" where
  "updateWorldStatus E worldId st s =
     (case js_get (ws_worlds s) worldId of
        None \<Rightarrow> (False, s)
      | Some w \<Rightarrow>
          let (t, s1) = take_now E s;
              s2 = s1\<lparr>ws_worlds := js_set worldId (w\<lparr>wo_status := st, wo_contact := t\<rparr>) (ws_worlds s1)\<rparr>
          in (True, log_world E ''federated-world-status-changed''
                [(''worldId'', JStr worldId), (''status'', JStr (show_world_status st))] s2))"

subsection \<open>Treaties\<close>

definition push_treaty :: "nat \<Rightarrow> string \<Rightarrow> (string, world) jsmap \<Rightarrow> (string, world) jsmap" where
  "push_treaty r worldId = js_modify worldId (\<lambda>w. w\<lparr>wo_treaties := wo_treaties w @ [r]\<rparr>)"

definition signTreaty ::
    "sysenv \<Rightarrow> string list \<Rightarrow> string list \<Rightarrow> string \<Rightarrow> string list \<Rightarrow> int \<Rightarrow> 'a world_st_scheme \<Rightarrow>
     (string + treaty) \<times> 'a world_st_scheme" where
  "signTreaty E ids invariants model guarantees durationDays s =
     (case List.find (\<lambda>i. \<not> js_has (ws_worlds s) i) ids of
        Some i \<Rightarrow> (Inl (''World '' @ i @ '' not found''), s)
      | None \<Rightarrow>
          let (u, s1) = take_uuid E s; (t1, s2) = take_now E s1; (t2, s3) = take_now E s2;
              ty = \<lparr>ty_id = u, ty_worlds = ids, ty_invariants = invariants, ty_model = model,
                    ty_guarantees = guarantees, ty_active = True, ty_signed = t1,
                    ty_expires = t2 + durationDays * 24 * 3600000\<rparr>;
              r = length (ws_objects s3);
              s4 = s3\<lparr>ws_objects := ws_objects s3 @ [ty], ws_treaties := js_set u r (ws_treaties s3),
                      ws_worlds := fold (push_treaty r) ids (ws_worlds s3)\<rparr>
          in (Inr ty, log_world E ''federated-treaty-signed''
                [(''treatyId'', JStr u), (''worlds'', jstrs ids), (''governanceModel'', JStr model),
                 (''sovereigntyGuarantees'', jstrs guarantees), (''durationDays'', JNum (of_int durationDays))] s4))"

definition getTreaty :: "string \<Rightarrow> 'a world_st_scheme \<Rightarrow> treaty option" where
  "getTreaty treatyId s = map_option (\<lambda>r. ws_objects s ! r) (js_get (ws_treaties s) treatyId)"

definition listTreaties :: "'a world_st_scheme \<Rightarrow> treaty list" where
  "listTreaties s = map (\<lambda>r. ws_objects s ! r) (js_values (ws_treaties s))"

definition expireTreaty :: "sysenv \<Rightarrow> string \<Rightarrow> 'a world_st_scheme \<Rightarrow> bool \<times> 'a world_st_scheme" where
  "expireTreaty E treatyId s =
     (case js_get (ws_treaties s) treatyId of
        None \<Rightarrow> (False, s)
      | Some r \<Rightarrow>
          (True, log_world E ''federated-treaty-expired'' [(''treatyId'', JStr treatyId)]
             (s\<lparr>ws_objects := (ws_objects s)[r := (ws_objects s ! r)\<lparr>ty_active := False\<rparr>]\<rparr>)))"

subsection \<open>Actions\<close>

definition proposeFederatedAction ::
    "sysenv \<Rightarrow> string \<Rightarrow> string \<Rightarrow> string \<Rightarrow> json list \<Rightarrow> string \<Rightarrow> 'a world_st_scheme \<Rightarrow>
     (string + fed_action) \<times> 'a world_st_scheme" where
  "proposeFederatedAction E src target intentId evidence proof_text s =
     (if \<not> js_has (ws_worlds s) src then (Inl (''Source world '' @ src @ '' not found''), s)
      else if \<not> js_has (ws_worlds s) target then (Inl (''Target world '' @ target @ '' not found''), s)
      else
        let hs = map (\<lambda>ev. sha256 E (stringify ev)) evidence;
            (u, s1) = take_uuid E s; (t, s2) = take_now E s1;
            a = \<lparr>fa_id = u, fa_source = src, fa_target = target, fa_intent = intentId, fa_evidence = hs,
                 fa_proof = proof_text, fa_status = FA_PROPOSED, fa_time = t, fa_completed = None\<rparr>;
            s3 = s2\<lparr>ws_actions := ws_actions s2 @ [a]\<rparr>
        in (Inr a, log_world E ''federated-action-proposed''
              [(''actionId'', JStr u), (''sourceWorld'', JStr src), (''targetWorld'', JStr target),
               (''intentId'', JStr intentId)] s3))"

definition getFederatedAction :: "string \<Rightarrow> 'a world_st_scheme \<Rightarrow> fed_action option" where
  "getFederatedAction actionId s = List.find (\<lambda>a. fa_id a = actionId) (ws_actions s)"

definition listFederatedActions :: "'a world_st_scheme \<Rightarrow> fed_action list" where
  "listFederatedActions s = ws_actions s"

text \<open>The first action of that name is changed where it stands.\<close>

definition change_action :: "string \<Rightarrow> (fed_action \<Rightarrow> fed_action) \<Rightarrow> 'a world_st_scheme \<Rightarrow> 'a world_st_scheme" where
  "change_action actionId f s = s\<lparr>ws_actions := update_first (\<lambda>a. fa_id a = actionId) f (ws_actions s)\<rparr>"

definition common_treaty :: "fed_action \<Rightarrow> treaty \<Rightarrow> bool" where
  "common_treaty a t \<longleftrightarrow> ty_active t \<and> fa_target a \<in> set (ty_worlds t) \<and> fa_source a \<in> set (ty_worlds t)"

text \<open>\<open>None\<close> when the action is aligned, else the error.\<close>

definition alignFederatedAction :: "sysenv \<Rightarrow> string \<Rightarrow> 'a world_st_scheme \<Rightarrow> string option \<times> 'a world_st_scheme" where
  "alignFederatedAction E actionId s =
     (case getFederatedAction actionId s of
        None \<Rightarrow> (Some (''Federated action '' @ actionId @ '' not found''), s)
      | Some a \<Rightarrow>
          (case (js_get (ws_worlds s) (fa_source a), js_get (ws_worlds s) (fa_target a)) of
             (Some src, Some _) \<Rightarrow>
               (case List.find (common_treaty a) (map (\<lambda>r. ws_objects s ! r) (wo_treaties src)) of
                  None \<Rightarrow> (Some (''No active treaty between '' @ fa_source a @ '' and '' @ fa_target a), s)
                | Some ty \<Rightarrow>
                    (None, log_world E ''federated-action-aligned''
                       [(''actionId'', JStr actionId), (''treatyId'', JStr (ty_id ty))]
                       (change_action actionId (\<lambda>a. a\<lparr>fa_status := FA_ALIGNED\<rparr>) s)))
           | _ \<Rightarrow> (Some ''Source or target world not found'', s)))"

definition action_hash :: "sysenv \<Rightarrow> fed_action \<Rightarrow> string" where
  "action_hash E a = sha256 E (stringify (JObj [(''actionId'', JStr (fa_id a)),
     (''sourceWorld'', JStr (fa_source a)), (''targetWorld'', JStr (fa_target a))]))"

definition executeFederatedAction :: "sysenv \<Rightarrow> string \<Rightarrow> 'a world_st_scheme \<Rightarrow> bool \<times> 'a world_st_scheme" where
  "executeFederatedAction E actionId s =
     (case getFederatedAction actionId s of
        None \<Rightarrow> (False, s)
      | Some a \<Rightarrow>
          if fa_status a \<noteq> FA_ALIGNED then (False, s)
          else
            let (t, s1) = take_now E s;
                s2 = change_action actionId (\<lambda>a. a\<lparr>fa_status := FA_EXECUTED, fa_completed := Some t\<rparr>) s1;
                ch = \<lparr>ch_source = fa_source a, ch_target = fa_target a, ch_hash = action_hash E a\<rparr>;
                s3 = s2\<lparr>ws_lineages := js_modify (fa_source a) (\<lambda>l. l\<lparr>wl_hashes := wl_hashes l @ [ch]\<rparr>) (ws_lineages s2)\<rparr>
            in (True, log_world E ''federated-action-executed'' [(''actionId'', JStr actionId)] s3))"

text \<open>Rejecting and reverting do not look at the status.\<close>

definition rejectFederatedAction ::
    "sysenv \<Rightarrow> string \<Rightarrow> string \<Rightarrow> 'a world_st_scheme \<Rightarrow> bool \<times> 'a world_st_scheme" where
  "rejectFederatedAction E actionId reason s =
     (case getFederatedAction actionId s of
        None \<Rightarrow> (False, s)
      | Some _ \<Rightarrow>
          let (t, s1) = take_now E s
          in (True, log_world E ''federated-action-rejected'' [(''actionId'', JStr actionId), (''reason'', JStr reason)]
                (change_action actionId (\<lambda>a. a\<lparr>fa_status := FA_REJECTED, fa_completed := Some t\<rparr>) s1)))"

definition revertFederatedAction :: "sysenv \<Rightarrow> string \<Rightarrow> 'a world_st_scheme \<Rightarrow> bool \<times> 'a world_st_scheme" where
  "revertFederatedAction E actionId s =
     (case getFederatedAction actionId s of
        None \<Rightarrow> (False, s)
      | Some _ \<Rightarrow>
          let (t, s1) = take_now E s
          in (True, log_world E ''federated-action-reverted'' [(''actionId'', JStr actionId)]
                (change_action actionId (\<lambda>a. a\<lparr>fa_status := FA_REVERTED, fa_completed := Some t\<rparr>) s1)))"

subsection \<open>Lineage\<close>

fun lineage_gaps :: "cross_hash list \<Rightarrow> string list" where
  "lineage_gaps (p # c # rest) =
     (if ch_hash p \<noteq> ch_hash c
      then [''Lineage gap between '' @ ch_source p @ ''->'' @ ch_target p @ '' and '' @ ch_source c @ ''->'' @ ch_target c]
      else []) @ lineage_gaps (c # rest)"
| "lineage_gaps _ = []"

definition verifyWorldLineage ::
    "sysenv \<Rightarrow> string \<Rightarrow> 'a world_st_scheme \<Rightarrow> (bool \<times> string list) \<times> 'a world_st_scheme" where
  "verifyWorldLineage E worldId s =
     (case js_get (ws_lineages s) worldId of
        None \<Rightarrow> ((False, [''World lineage not found'']), s)
      | Some l \<Rightarrow>
          let gaps = lineage_gaps (wl_hashes l);
              (t, s1) = take_now E s
          in ((gaps = [], gaps), s1\<lparr>ws_lineages := js_set worldId (l\<lparr>wl_verified := t\<rparr>) (ws_lineages s1)\<rparr>))"

definition drift_of ::
    "sysenv \<Rightarrow> string \<Rightarrow> drift_report list \<times> 'a world_st_scheme \<Rightarrow> drift_report list \<times> 'a world_st_scheme" where
  "drift_of E worldId = (\<lambda>(reports, s).
     case verifyWorldLineage E worldId s of
       ((True, _), s1) \<Rightarrow> (reports, s1)
     | ((False, gaps), s1) \<Rightarrow>
         let (u, s2) = take_uuid E s1; (t, s3) = take_now E s2
         in (reports @ [\<lparr>dr_id = u, dr_world = Some worldId, dr_expected = ''verified'', dr_actual = ''drifted'',
               dr_magnitude = of_nat (length gaps), dr_domains = [''federation''], dr_time = t, dr_correctable = True\<rparr>], s3))"

definition detectCrossWorldDrift :: "sysenv \<Rightarrow> 'a world_st_scheme \<Rightarrow> drift_report list \<times> 'a world_st_scheme" where
  "detectCrossWorldDrift E s = fold (drift_of E) (map fst (ws_lineages s)) ([], s)"

record federation_status =
  fs_worlds :: nat
  fs_active_worlds :: nat
  fs_treaties :: nat
  fs_active_treaties :: nat
  fs_actions :: nat
  fs_pending :: nat
  fs_drift :: nat

definition getFederationStatus :: "sysenv \<Rightarrow> 'a world_st_scheme \<Rightarrow> federation_status \<times> 'a world_st_scheme" where
  "getFederationStatus E s =
     (let (reports, s1) = detectCrossWorldDrift E s
      in (\<lparr>fs_worlds = length (listWorlds s),
           fs_active_worlds = length (filter (\<lambda>w. wo_status w = WORLD_ACTIVE) (listWorlds s)),
           fs_treaties = length (listTreaties s),
           fs_active_treaties = length (filter ty_active (listTreaties s)),
           fs_actions = length (ws_actions s),
           fs_pending = length (filter (\<lambda>a. fa_status a = FA_PROPOSED \<or> fa_status a = FA_ALIGNED) (ws_actions s)),
           fs_drift = length reports\<rparr>, s1))"

definition resetWorlds :: "'a world_st_scheme \<Rightarrow> 'a world_st_scheme" where
  "resetWorlds s = s\<lparr>ws_worlds := [], ws_actions := [], ws_treaties := [], ws_lineages := []\<rparr>"

subsection \<open>Runs\<close>

datatype world_event =
    CreateWorld string string string "string list"
  | SetStatus string world_status
  | Sign "string list" "string list" string "string list" int
  | Expire string
  | Propose string string string "json list" string
  | Align string
  | Execute string
  | Reject string string
  | Revert string
  | Verify string
  | Status
  | ResetWorlds

primrec world_step :: "sysenv \<Rightarrow> world_event \<Rightarrow> 'a world_st_scheme \<Rightarrow> 'a world_st_scheme" where
  "world_step E (CreateWorld n d a c) s = snd (createWorld E n d a c s)"
| "world_step E (SetStatus w st) s = snd (updateWorldStatus E w st s)"
| "world_step E (Sign ws vs m gs n) s = snd (signTreaty E ws vs m gs n s)"
| "world_step E (Expire t) s = snd (expireTreaty E t s)"
| "world_step E (Propose a b i ev p) s = snd (proposeFederatedAction E a b i ev p s)"
| "world_step E (Align a) s = snd (alignFederatedAction E a s)"
| "world_step E (Execute a) s = snd (executeFederatedAction E a s)"
| "world_step E (Reject a r) s = snd (rejectFederatedAction E a r s)"
| "world_step E (Revert a) s = snd (revertFederatedAction E a s)"
| "world_step E (Verify w) s = snd (verifyWorldLineage E w s)"
| "world_step E Status s = snd (getFederationStatus E s)"
| "world_step E ResetWorlds s = resetWorlds s"

lemma world_frame [simp]:
  "ws_worlds (log_csr E tr d p i a s) = ws_worlds s" "ws_actions (log_csr E tr d p i a s) = ws_actions s"
  "ws_objects (log_csr E tr d p i a s) = ws_objects s" "ws_treaties (log_csr E tr d p i a s) = ws_treaties s"
  "ws_lineages (log_csr E tr d p i a s) = ws_lineages s"
  by (simp_all add: log_csr_update)

text \<open>A world holds treaties that name it; an aligned or executed action has a treaty that names
  both its worlds.\<close>

definition treaty_names :: "treaty list \<Rightarrow> nat \<Rightarrow> string \<Rightarrow> bool" where
  "treaty_names ts r w \<longleftrightarrow> r < length ts \<and> w \<in> set (ty_worlds (ts ! r))"

definition backed :: "treaty list \<Rightarrow> fed_action \<Rightarrow> bool" where
  "backed ts a \<longleftrightarrow> (fa_status a \<in> {FA_ALIGNED, FA_EXECUTED} \<longrightarrow>
     (\<exists>t\<in>set ts. fa_source a \<in> set (ty_worlds t) \<and> fa_target a \<in> set (ty_worlds t)))"

definition held_ok :: "treaty list \<Rightarrow> (string, world) jsmap \<Rightarrow> bool" where
  "held_ok ts m \<longleftrightarrow> (\<forall>k w. js_get m k = Some w \<longrightarrow> (\<forall>r\<in>set (wo_treaties w). treaty_names ts r k))"

definition worlds_ok :: "'a world_st_scheme \<Rightarrow> bool" where
  "worlds_ok s \<longleftrightarrow> held_ok (ws_objects s) (ws_worlds s) \<and> list_all (backed (ws_objects s)) (ws_actions s)"

lemma worlds_ok_irrelevant [simp]:
  "worlds_ok (s\<lparr>tick := n\<rparr>) = worlds_ok s" "worlds_ok (s\<lparr>ws_lineages := l\<rparr>) = worlds_ok s"
  "worlds_ok (log_csr E tr d p i a s) = worlds_ok s"
  by (simp_all add: worlds_ok_def)

lemma treaty_names_append: "treaty_names ts r w \<Longrightarrow> treaty_names (ts @ [t]) r w"
  by (simp add: treaty_names_def nth_append)

lemma backed_append: "backed ts a \<Longrightarrow> backed (ts @ [t]) a"
  by (auto simp: backed_def)

lemma expire_same:
  "treaty_names (ts[i := (ts ! i)\<lparr>ty_active := b\<rparr>]) r w = treaty_names ts r w"
  by (cases "i = r") (auto simp: treaty_names_def)

lemma backed_expire: "backed ts a \<Longrightarrow> backed (ts[i := (ts ! i)\<lparr>ty_active := b\<rparr>]) a"
proof -
  assume b: "backed ts a"
  have "\<exists>t'\<in>set (ts[i := (ts ! i)\<lparr>ty_active := b\<rparr>]). ty_worlds t' = ty_worlds t" if "t \<in> set ts" for t
  proof -
    from that obtain j where j: "j < length ts" "ts ! j = t" by (auto simp: in_set_conv_nth)
    then have "ty_worlds (ts[i := (ts ! i)\<lparr>ty_active := b\<rparr>] ! j) = ty_worlds t" by (cases "i = j") auto
    with j show ?thesis by (metis length_list_update nth_mem)
  qed
  with b show ?thesis unfolding backed_def by metis
qed

lemma held_ok_set: "held_ok ts m \<Longrightarrow> \<forall>r\<in>set (wo_treaties w). treaty_names ts r k \<Longrightarrow> held_ok ts (js_set k w m)"
  by (simp add: held_ok_def)

lemma held_ok_push: "held_ok ts m \<Longrightarrow> treaty_names ts r k \<Longrightarrow> held_ok ts (push_treaty r k m)"
  by (auto simp: held_ok_def push_treaty_def)

lemma held_ok_pushes: "held_ok ts m \<Longrightarrow> \<forall>k\<in>set ids. treaty_names ts r k \<Longrightarrow> held_ok ts (fold (push_treaty r) ids m)"
  by (induction ids arbitrary: m) (simp_all add: held_ok_push)

lemma drift_ok: "worlds_ok (snd p) \<Longrightarrow> worlds_ok (snd (drift_of E w p))"
  by (cases p) (auto simp: drift_of_def verifyWorldLineage_def take_uuid_def take_now_def Let_def
      split: option.split prod.split bool.split)

lemma drifts_ok: "worlds_ok (snd p) \<Longrightarrow> worlds_ok (snd (fold (drift_of E) ws p))"
  by (induction ws arbitrary: p) (simp_all add: drift_ok)

lemma update_found: "list_all P xs \<Longrightarrow> (\<And>x. List.find p xs = Some x \<Longrightarrow> P (f x)) \<Longrightarrow> list_all P (update_first p f xs)"
  by (induction xs) (auto split: if_splits)

lemma change_action_ok:
  "worlds_ok s \<Longrightarrow> (\<And>a. getFederatedAction i s = Some a \<Longrightarrow> backed (ws_objects s) (f a)) \<Longrightarrow> worlds_ok (change_action i f s)"
  by (simp add: worlds_ok_def change_action_def getFederatedAction_def update_found)

lemma found_backed: "worlds_ok s \<Longrightarrow> getFederatedAction i s = Some a \<Longrightarrow> backed (ws_objects s) a"
  by (auto simp: worlds_ok_def getFederatedAction_def list_all_iff dest!: find_SomeD)

lemma found_tick [simp]: "getFederatedAction i (s\<lparr>tick := n\<rparr>) = getFederatedAction i s"
  by (simp add: getFederatedAction_def)

lemma sign_ok: "worlds_ok s \<Longrightarrow> worlds_ok (snd (signTreaty E ids vs m gs n s))"
proof (cases "List.find (\<lambda>i. \<not> js_has (ws_worlds s) i) ids")
  case None
  assume ok: "worlds_ok s"
  let ?t = "\<lparr>ty_id = uuid_at E (tick s), ty_worlds = ids, ty_invariants = vs, ty_model = m, ty_guarantees = gs,
    ty_active = True, ty_signed = now_at E (Suc (tick s)), ty_expires = now_at E (Suc (Suc (tick s))) + n * 24 * 3600000\<rparr>"
  from ok have "held_ok (ws_objects s @ [?t]) (ws_worlds s)" "list_all (backed (ws_objects s @ [?t])) (ws_actions s)"
    by (auto simp: worlds_ok_def held_ok_def list_all_iff treaty_names_append backed_append)
  then show ?thesis using None
    by (simp add: signTreaty_def take_uuid_def take_now_def Let_def worlds_ok_def held_ok_pushes treaty_names_def)
qed (simp add: signTreaty_def)

lemma align_cases:
  "fst (alignFederatedAction E i s) = None \<longleftrightarrow> (\<exists>a src t. getFederatedAction i s = Some a \<and>
     getWorld (fa_source a) s = Some src \<and> getWorld (fa_target a) s \<noteq> None \<and>
     List.find (common_treaty a) (map (\<lambda>r. ws_objects s ! r) (wo_treaties src)) = Some t)"
  by (auto simp: alignFederatedAction_def getWorld_def split: option.split)

lemma align_effect:
  assumes "fst (alignFederatedAction E i s) = None"
  shows "\<exists>p. snd (alignFederatedAction E i s) =
    log_world E ''federated-action-aligned'' p (change_action i (\<lambda>a. a\<lparr>fa_status := FA_ALIGNED\<rparr>) s)"
  using assms by (auto simp: alignFederatedAction_def split: option.splits)

lemma align_error: "fst (alignFederatedAction E i s) = Some e \<Longrightarrow> snd (alignFederatedAction E i s) = s"
  by (auto simp: alignFederatedAction_def split: option.splits)

lemma align_iff:
  "fst (alignFederatedAction E i s) = None \<longleftrightarrow> (\<exists>a src. getFederatedAction i s = Some a \<and>
     getWorld (fa_source a) s = Some src \<and> getWorld (fa_target a) s \<noteq> None \<and>
     (\<exists>r\<in>set (wo_treaties src). common_treaty a (ws_objects s ! r)))"
proof -
  have "(\<exists>t. List.find P (map f xs) = Some t) \<longleftrightarrow> (\<exists>r\<in>set xs. P (f r))" for P :: "treaty \<Rightarrow> bool" and f and xs :: "nat list"
    using find_None_iff [of P "map f xs"] by auto
  then show ?thesis unfolding align_cases by blast
qed

lemma align_ok: "worlds_ok s \<Longrightarrow> worlds_ok (snd (alignFederatedAction E i s))"
proof (cases "fst (alignFederatedAction E i s)")
  case None
  assume ok: "worlds_ok s"
  from None obtain a src t where a: "getFederatedAction i s = Some a" "getWorld (fa_source a) s = Some src"
    "List.find (common_treaty a) (map (\<lambda>r. ws_objects s ! r) (wo_treaties src)) = Some t" by (auto simp: align_cases)
  from find_SomeD [OF a(3)] ok a(2) have "t \<in> set (ws_objects s) \<and> common_treaty a t"
    by (auto simp: worlds_ok_def held_ok_def treaty_names_def getWorld_def)
  then have "backed (ws_objects s) (a\<lparr>fa_status := FA_ALIGNED\<rparr>)" by (auto simp: backed_def common_treaty_def)
  with ok a(1) align_effect [OF None] show ?thesis by (auto intro!: change_action_ok)
qed (simp add: align_error)

lemma execute_ok: "worlds_ok s \<Longrightarrow> worlds_ok (snd (executeFederatedAction E i s))"
proof (cases "getFederatedAction i s")
  case (Some a)
  assume ok: "worlds_ok s"
  with Some found_backed have "backed (ws_objects s) a" by blast
  then have "fa_status a = FA_ALIGNED \<Longrightarrow> backed (ws_objects s) (a\<lparr>fa_status := FA_EXECUTED, fa_completed := Some t\<rparr>)" for t
    by (simp add: backed_def)
  with ok Some show ?thesis by (auto simp: executeFederatedAction_def take_now_def Let_def intro!: change_action_ok)
qed (simp add: executeFederatedAction_def)

lemma world_step_ok: "worlds_ok s \<Longrightarrow> worlds_ok (world_step E e s)"
proof (cases e)
  case (CreateWorld n d a c)
  then show "worlds_ok s \<Longrightarrow> ?thesis"
    by (simp add: createWorld_def take_uuid_def take_now_def Let_def worlds_ok_def held_ok_set)
next
  case (SetStatus w st)
  then show "worlds_ok s \<Longrightarrow> ?thesis"
    by (auto simp: updateWorldStatus_def take_now_def Let_def worlds_ok_def held_ok_def split: option.split)
next
  case (Sign ws vs m gs n)
  then show "worlds_ok s \<Longrightarrow> ?thesis" by (simp add: sign_ok)
next
  case (Expire t)
  then show "worlds_ok s \<Longrightarrow> ?thesis"
    by (auto simp: expireTreaty_def worlds_ok_def held_ok_def expire_same list_all_iff backed_expire split: option.split)
next
  case (Propose a b i ev p)
  then show "worlds_ok s \<Longrightarrow> ?thesis"
    by (auto simp: proposeFederatedAction_def take_uuid_def take_now_def Let_def worlds_ok_def backed_def)
next
  case Status
  then show "worlds_ok s \<Longrightarrow> ?thesis"
    using drifts_ok [of "([], s)" E] by (simp add: getFederationStatus_def detectCrossWorldDrift_def case_prod_beta Let_def)
next
  case (Verify w)
  then show "worlds_ok s \<Longrightarrow> ?thesis" by (auto simp: verifyWorldLineage_def take_now_def Let_def split: option.split)
next
  case ResetWorlds
  then show "worlds_ok s \<Longrightarrow> ?thesis" by (simp add: resetWorlds_def worlds_ok_def held_ok_def)
qed (auto simp: align_ok execute_ok rejectFederatedAction_def revertFederatedAction_def take_now_def Let_def backed_def
    intro!: change_action_ok split: option.split)

interpretation worlds: machine "world_step E" worlds_ok
  by unfold_locales (rule world_step_ok)

definition init_world :: world_st where
  "init_world = \<lparr>tick = 0, csr_ledger = [], wal = [], ws_worlds = [], ws_actions = [], ws_objects = [], ws_treaties = [],
     ws_lineages = []\<rparr>"

lemma init_world_ok: "worlds_ok init_world"
  by (simp add: worlds_ok_def held_ok_def init_world_def)

subsection \<open>Properties\<close>

lemma found_changed:
  "getFederatedAction i s = Some a \<Longrightarrow> fa_id (f a) = fa_id a \<Longrightarrow> getFederatedAction i (change_action i f s) = Some (f a)"
  by (auto simp: getFederatedAction_def change_action_def intro: find_update_first dest: find_SomeD)

lemma found_log [simp]: "getFederatedAction i (log_csr E tr d p x au s) = getFederatedAction i s"
  by (simp add: getFederatedAction_def)

lemma execute_iff:
  "fst (executeFederatedAction E i s) \<longleftrightarrow> (\<exists>a. getFederatedAction i s = Some a \<and> fa_status a = FA_ALIGNED)"
  by (auto simp: executeFederatedAction_def take_now_def Let_def split: option.split)

lemma gaps_none_iff: "lineage_gaps (p # rest) = [] \<longleftrightarrow> (\<forall>h\<in>set rest. ch_hash h = ch_hash p)"
  by (induction rest arbitrary: p) auto

lemma gaps_snoc: "lineage_gaps (hs @ [x]) = [] \<longleftrightarrow> (\<forall>h\<in>set hs. ch_hash h = ch_hash x)"
  by (cases hs) (auto simp: gaps_none_iff)

text \<open>A world with a treaty that names it, and an action that it proposed and rejected.\<close>

definition demo_run :: "world_event list" where
  "demo_run = [CreateWorld ''a'' ''d'' ''k'' [], Sign [[]] [] ''peer'' [] 365, Propose [] [] ''i'' [] ''p'',
     Reject (uuid_at demo_env 11) ''no'']"

lemma demo_run_state:
  "\<exists>w t a l. ws_worlds (fold (world_step demo_env) demo_run init_world) = [([], w)] \<and>
     ws_objects (fold (world_step demo_env) demo_run init_world) = [t] \<and>
     ws_actions (fold (world_step demo_env) demo_run init_world) = [a] \<and>
     ws_lineages (fold (world_step demo_env) demo_run init_world) = [([], l)] \<and>
     wo_treaties w = [0] \<and> common_treaty a t \<and> fa_source a = [] \<and> fa_target a = [] \<and> fa_id a = uuid_at demo_env 11 \<and>
     fa_status a = FA_REJECTED \<and> wl_hashes l = []"
proof -
  have u: "uuid_at demo_env 0 = []" by (simp add: demo_env_def)
  let ?s1 = "world_step demo_env (CreateWorld ''a'' ''d'' ''k'' []) init_world"
  have 1: "tick ?s1 = 6 \<and> (\<exists>w l. ws_worlds ?s1 = [([], w)] \<and> ws_lineages ?s1 = [([], l)] \<and> wo_treaties w = [] \<and> wl_hashes l = [])
      \<and> ws_objects ?s1 = [] \<and> ws_actions ?s1 = []"
    by (simp add: createWorld_def take_uuid_def take_now_def Let_def init_world_def u)
  let ?s2 = "world_step demo_env (Sign [[]] [] ''peer'' [] 365) ?s1"
  have 2: "tick ?s2 = 11 \<and> (\<exists>w t l. ws_worlds ?s2 = [([], w)] \<and> ws_lineages ?s2 = [([], l)] \<and> wo_treaties w = [0] \<and> wl_hashes l = []
      \<and> ws_objects ?s2 = [t] \<and> ty_active t \<and> [] \<in> set (ty_worlds t)) \<and> ws_actions ?s2 = []"
    using 1 by (auto simp: signTreaty_def take_uuid_def take_now_def Let_def js_has_def push_treaty_def js_modify_def)
  let ?s3 = "world_step demo_env (Propose [] [] ''i'' [] ''p'') ?s2"
  have 3: "(\<exists>w t l a. ws_worlds ?s3 = [([], w)] \<and> ws_lineages ?s3 = [([], l)] \<and> wo_treaties w = [0] \<and> wl_hashes l = []
      \<and> ws_objects ?s3 = [t] \<and> ty_active t \<and> [] \<in> set (ty_worlds t) \<and> ws_actions ?s3 = [a] \<and> fa_source a = [] \<and>
      fa_target a = [] \<and> fa_id a = uuid_at demo_env 11)"
    using 2 by (auto simp: proposeFederatedAction_def take_uuid_def take_now_def Let_def js_has_def)
  let ?s4 = "world_step demo_env (Reject (uuid_at demo_env 11) ''no'') ?s3"
  have "\<exists>w t a l. ws_worlds ?s4 = [([], w)] \<and> ws_objects ?s4 = [t] \<and> ws_actions ?s4 = [a] \<and> ws_lineages ?s4 = [([], l)] \<and>
     wo_treaties w = [0] \<and> common_treaty a t \<and> fa_source a = [] \<and> fa_target a = [] \<and> fa_id a = uuid_at demo_env 11 \<and>
     fa_status a = FA_REJECTED \<and> wl_hashes l = []"
    using 3 by (auto simp: rejectFederatedAction_def getFederatedAction_def change_action_def take_now_def Let_def common_treaty_def)
  then show ?thesis by (simp only: demo_run_def fold_simps)
qed

text \<open>C17. An action is executed only under a treaty: after any run every aligned or executed action has a
  treaty that names both its worlds, and executing succeeds exactly on an aligned action. Aligning
  succeeds exactly when the action and both worlds exist and the source world holds a treaty
  naming both that is active at that moment; the status of the action does not matter, so one that was rejected, reverted or already executed can be aligned and executed
  again.\<close>

theorem actions_need_treaty:
  assumes "s = fold (world_step E) es init_world"
  shows "(\<forall>a\<in>set (listFederatedActions s). fa_status a \<in> {FA_ALIGNED, FA_EXECUTED} \<longrightarrow>
       (\<exists>t\<in>set (ws_objects s). fa_source a \<in> set (ty_worlds t) \<and> fa_target a \<in> set (ty_worlds t))) \<and>
     (\<forall>i. fst (executeFederatedAction E i s) \<longleftrightarrow> (\<exists>a. getFederatedAction i s = Some a \<and> fa_status a = FA_ALIGNED)) \<and>
     (\<forall>i. fst (alignFederatedAction E i s) = None \<longleftrightarrow>
       (\<exists>a src. getFederatedAction i s = Some a \<and> getWorld (fa_source a) s = Some src \<and> getWorld (fa_target a) s \<noteq> None \<and>
          (\<exists>r\<in>set (wo_treaties src). r < length (ws_objects s) \<and> ty_active (ws_objects s ! r) \<and>
             fa_source a \<in> set (ty_worlds (ws_objects s ! r)) \<and> fa_target a \<in> set (ty_worlds (ws_objects s ! r))))) \<and>
     (\<forall>i. fst (alignFederatedAction E i s) = None \<longrightarrow> fst (executeFederatedAction E i (snd (alignFederatedAction E i s))))"
proof (intro conjI allI impI)
  have ok: "worlds_ok s" using worlds.run_inv [OF init_world_ok] by (simp add: assms)
  then show "\<forall>a\<in>set (listFederatedActions s). fa_status a \<in> {FA_ALIGNED, FA_EXECUTED} \<longrightarrow>
       (\<exists>t\<in>set (ws_objects s). fa_source a \<in> set (ty_worlds t) \<and> fa_target a \<in> set (ty_worlds t))"
    by (simp add: worlds_ok_def list_all_iff backed_def listFederatedActions_def)
  fix i
  show "fst (executeFederatedAction E i s) \<longleftrightarrow> (\<exists>a. getFederatedAction i s = Some a \<and> fa_status a = FA_ALIGNED)"
    by (rule execute_iff)
  have "r < length (ws_objects s)" if "getWorld k s = Some w" "r \<in> set (wo_treaties w)" for k w r
    using ok that by (auto simp: worlds_ok_def held_ok_def treaty_names_def getWorld_def)
  then show "fst (alignFederatedAction E i s) = None \<longleftrightarrow>
       (\<exists>a src. getFederatedAction i s = Some a \<and> getWorld (fa_source a) s = Some src \<and> getWorld (fa_target a) s \<noteq> None \<and>
          (\<exists>r\<in>set (wo_treaties src). r < length (ws_objects s) \<and> ty_active (ws_objects s ! r) \<and>
             fa_source a \<in> set (ty_worlds (ws_objects s ! r)) \<and> fa_target a \<in> set (ty_worlds (ws_objects s ! r))))"
    unfolding align_iff common_treaty_def by blast
  assume n: "fst (alignFederatedAction E i s) = None"
  then obtain a where "getFederatedAction i s = Some a" by (auto simp: align_cases)
  from found_changed [OF this, of "\<lambda>a. a\<lparr>fa_status := FA_ALIGNED\<rparr>"] align_effect [OF n]
  show "fst (executeFederatedAction E i (snd (alignFederatedAction E i s)))" by (auto simp: execute_iff)
qed

theorem actions_need_treaty_witness:
  "\<exists>a. getFederatedAction (uuid_at demo_env 11) (fold (world_step demo_env) demo_run init_world) = Some a \<and> fa_status a = FA_REJECTED \<and>
     fst (executeFederatedAction demo_env (uuid_at demo_env 11)
       (snd (alignFederatedAction demo_env (uuid_at demo_env 11) (fold (world_step demo_env) demo_run init_world))))"
proof -
  obtain w t a l where d: "ws_worlds (fold (world_step demo_env) demo_run init_world) = [([], w)]"
    "ws_objects (fold (world_step demo_env) demo_run init_world) = [t]"
    "ws_actions (fold (world_step demo_env) demo_run init_world) = [a]" "wo_treaties w = [0]" "common_treaty a t"
    "fa_source a = []" "fa_target a = []" "fa_id a = uuid_at demo_env 11" "fa_status a = FA_REJECTED"
    using demo_run_state by blast
  have "fst (alignFederatedAction demo_env (uuid_at demo_env 11) (fold (world_step demo_env) demo_run init_world)) = None"
    using d by (simp add: align_iff getFederatedAction_def getWorld_def)
  with actions_need_treaty [OF refl, of demo_env demo_run] d show ?thesis by (simp add: getFederatedAction_def)
qed

text \<open>A world's lineage check accepts one action only: executing an aligned action appends its hash to the
  lineage of the source world, and the check then passes exactly when every hash already there
  is the same one. As the hash covers the action's own name, the second action a world executes
  makes its lineage invalid, and the drift report names the world.\<close>

theorem lineage_accepts_one_action:
  assumes "getFederatedAction i s = Some a" and "fa_status a = FA_ALIGNED"
    and "js_get (ws_lineages s) (fa_source a) = Some l"
    and "s' = snd (executeFederatedAction E i s)"
  shows "js_get (ws_lineages s') (fa_source a) = Some (l\<lparr>wl_hashes := wl_hashes l @
       [\<lparr>ch_source = fa_source a, ch_target = fa_target a, ch_hash = action_hash E a\<rparr>]\<rparr>) \<and>
     (fst (fst (verifyWorldLineage E (fa_source a) s')) \<longleftrightarrow> (\<forall>h\<in>set (wl_hashes l). ch_hash h = action_hash E a))"
proof -
  have l: "js_get (ws_lineages s') (fa_source a) = Some (l\<lparr>wl_hashes := wl_hashes l @
       [\<lparr>ch_source = fa_source a, ch_target = fa_target a, ch_hash = action_hash E a\<rparr>]\<rparr>)"
    using assms by (simp add: executeFederatedAction_def take_now_def Let_def change_action_def)
  then show ?thesis by (simp add: verifyWorldLineage_def take_now_def Let_def gaps_snoc)
qed


theorem lineage_accepts_one_action_witness:
  "\<exists>l. js_get (ws_lineages (snd (executeFederatedAction demo_env (uuid_at demo_env 11)
     (snd (alignFederatedAction demo_env (uuid_at demo_env 11) (fold (world_step demo_env) demo_run init_world)))))) [] = Some l \<and>
     length (wl_hashes l) = 1"
proof -
  let ?s = "fold (world_step demo_env) demo_run init_world"
  let ?t = "snd (alignFederatedAction demo_env (uuid_at demo_env 11) ?s)"
  obtain w t a l where d: "ws_worlds ?s = [([], w)]" "ws_objects ?s = [t]" "ws_actions ?s = [a]" "ws_lineages ?s = [([], l)]"
    "wo_treaties w = [0]" "common_treaty a t" "fa_source a = []" "fa_target a = []" "fa_id a = uuid_at demo_env 11" "wl_hashes l = []"
    using demo_run_state by blast
  have "fst (alignFederatedAction demo_env (uuid_at demo_env 11) ?s) = None"
    using d by (simp add: align_iff getFederatedAction_def getWorld_def)
  from align_effect [OF this] d have "getFederatedAction (uuid_at demo_env 11) ?t = Some (a\<lparr>fa_status := FA_ALIGNED\<rparr>)"
    "js_get (ws_lineages ?t) (fa_source (a\<lparr>fa_status := FA_ALIGNED\<rparr>)) = Some l"
    by (auto simp: getFederatedAction_def change_action_def)
  from lineage_accepts_one_action [OF this(1) _ this(2) refl, of demo_env] d show ?thesis by simp
qed

end
