(* ===== verification/Treaty.thy ===== *)
theory Treaty
  imports Worlds
begin

text \<open>
  Signed treaties between worlds (\<open>agent/sovereign-x/treatyProtocol.ts\<close>): the creator signs the
  treaty's terms, the other world countersigns, anyone verifies, and a treaty travels between
  processes by export and import. Signing and verifying use the process's key pair
  (\<open>signer.ts\<close>), a field of the environment.
\<close>

record bound_treaty = treaty +
  bt_source :: string
  bt_target :: string

record treaty_blob =
  tb_id :: string
  tb_treaty :: bound_treaty
  tb_sig :: string
  tb_key :: string
  tb_print :: string
  tb_target_sig :: "string option"
  tb_target_key :: "string option"
  tb_target_print :: "string option"
  tb_created :: time

record treaty_st = base_st +
  tp_blobs :: "(string, treaty_blob) jsmap"

text \<open>What the export carries, besides the name of the protocol.\<close>

record transfer =
  tf_id :: string
  tf_treaty :: bound_treaty
  tf_sig :: string
  tf_key :: string
  tf_print :: string
  tf_created :: time

abbreviation log_treaty :: "sysenv \<Rightarrow> string \<Rightarrow> (string \<times> json) list \<Rightarrow> 'a base_st_scheme \<Rightarrow> 'a base_st_scheme" where
  "log_treaty E tr payload \<equiv> log_csr E tr ''federation'' payload None ''sovereign-x-treaty-protocol''"

text \<open>The signed text: the terms and the two worlds.\<close>

definition blob_content :: "'a treaty_scheme \<Rightarrow> string \<Rightarrow> string \<Rightarrow> string" where
  "blob_content t src target = stringify (JObj
     [(''treatyId'', JStr (ty_id t)), (''worlds'', jstrs (ty_worlds t)), (''sharedInvariants'', jstrs (ty_invariants t)),
      (''governanceModel'', JStr (ty_model t)), (''sovereigntyGuarantees'', jstrs (ty_guarantees t)),
      (''sourceWorldId'', JStr src), (''targetWorldId'', JStr target)])"

definition createTreatyBlob ::
    "sysenv \<Rightarrow> treaty \<Rightarrow> string \<Rightarrow> string \<Rightarrow> 'a treaty_st_scheme \<Rightarrow> treaty_blob \<times> 'a treaty_st_scheme" where
  "createTreatyBlob E t src target s =
     (let sig = sign_payload E (blob_content t src target);
          (u, s1) = take_uuid E s; (now, s2) = take_now E s1;
          b = \<lparr>tb_id = u, tb_treaty = treaty.extend t \<lparr>bt_source = src, bt_target = target\<rparr>, tb_sig = sig,
               tb_key = pubkey_pem E, tb_print = fingerprint E, tb_target_sig = None, tb_target_key = None,
               tb_target_print = None, tb_created = now\<rparr>;
          s3 = s2\<lparr>tp_blobs := js_set u b (tp_blobs s2)\<rparr>
      in (b, log_treaty E ''treaty-blob-created''
               [(''blobId'', JStr u), (''sourceWorldId'', JStr src), (''targetWorldId'', JStr target),
                (''treatyId'', JStr (ty_id t))] s3))"

text \<open>An absent or empty string is false.\<close>

definition given :: "string option \<Rightarrow> bool" where
  "given x = (case x of None \<Rightarrow> False | Some t \<Rightarrow> t \<noteq> [])"

text \<open>\<open>None\<close> when the countersignature is stored, else the error.\<close>

definition countersignTreatyBlob ::
    "sysenv \<Rightarrow> string \<Rightarrow> string \<Rightarrow> 'a treaty_st_scheme \<Rightarrow> string option \<times> 'a treaty_st_scheme" where
  "countersignTreatyBlob E blobId target s =
     (case js_get (tp_blobs s) blobId of
        None \<Rightarrow> (Some (''Treaty blob '' @ blobId @ '' not found''), s)
      | Some b \<Rightarrow>
          if given (tb_target_sig b) then (Some ''Treaty already countersigned'', s)
          else
            let sig = sign_payload E (blob_content (tb_treaty b) (bt_source (tb_treaty b)) target);
                b' = b\<lparr>tb_target_sig := Some sig, tb_target_key := Some (pubkey_pem E),
                       tb_target_print := Some (fingerprint E)\<rparr>
            in (None, log_treaty E ''treaty-blob-countersigned''
                  [(''blobId'', JStr blobId), (''targetWorldId'', JStr target)]
                  (s\<lparr>tp_blobs := js_set blobId b' (tp_blobs s)\<rparr>)))"

definition target_valid :: "sysenv \<Rightarrow> treaty_blob \<Rightarrow> bool" where
  "target_valid E b =
     (if given (tb_target_sig b) \<and> given (tb_target_key b)
      then verify_sig E (blob_content (tb_treaty b) (bt_source (tb_treaty b)) (bt_target (tb_treaty b)))
             (the (tb_target_sig b)) (the (tb_target_key b))
      else True)"

definition verifyTreatyBlob :: "sysenv \<Rightarrow> string \<Rightarrow> 'a treaty_st_scheme \<Rightarrow> bool \<times> string list" where
  "verifyTreatyBlob E blobId s =
     (case js_get (tp_blobs s) blobId of
        None \<Rightarrow> (False, [''Treaty blob not found''])
      | Some b \<Rightarrow>
          let content = blob_content (tb_treaty b) (bt_source (tb_treaty b)) (bt_target (tb_treaty b));
              errors = (if verify_sig E content (tb_sig b) (tb_key b) then [] else [''Source signature invalid'']) @
                       (if target_valid E b then [] else [''Target signature invalid''])
          in (errors = [], errors))"

definition getSignedTreaty :: "string \<Rightarrow> 'a treaty_st_scheme \<Rightarrow> treaty_blob option" where
  "getSignedTreaty blobId s = js_get (tp_blobs s) blobId"

definition listSignedTreaties :: "'a treaty_st_scheme \<Rightarrow> treaty_blob list" where
  "listSignedTreaties s = js_values (tp_blobs s)"

definition exportTreatyForTransfer :: "string \<Rightarrow> 'a treaty_st_scheme \<Rightarrow> transfer option" where
  "exportTreatyForTransfer blobId s =
     (case js_get (tp_blobs s) blobId of
        None \<Rightarrow> None
      | Some b \<Rightarrow> Some \<lparr>tf_id = tb_id b, tf_treaty = tb_treaty b, tf_sig = tb_sig b, tf_key = tb_key b,
                        tf_print = tb_print b, tf_created = tb_created b\<rparr>)"

definition importTreatyFromTransfer ::
    "sysenv \<Rightarrow> transfer \<Rightarrow> 'a treaty_st_scheme \<Rightarrow> treaty_blob \<times> 'a treaty_st_scheme" where
  "importTreatyFromTransfer E d s =
     (let b = \<lparr>tb_id = tf_id d, tb_treaty = tf_treaty d, tb_sig = tf_sig d, tb_key = tf_key d, tb_print = tf_print d,
               tb_target_sig = None, tb_target_key = None, tb_target_print = None, tb_created = tf_created d\<rparr>;
          s1 = s\<lparr>tp_blobs := js_set (tb_id b) b (tp_blobs s)\<rparr>
      in (b, log_treaty E ''treaty-blob-imported''
               [(''blobId'', JStr (tb_id b)), (''sourceFingerprint'', JStr (tf_print d))] s1))"

definition resetTreatyProtocol :: "'a treaty_st_scheme \<Rightarrow> 'a treaty_st_scheme" where
  "resetTreatyProtocol s = s\<lparr>tp_blobs := []\<rparr>"

lemma blobs_log [simp]: "tp_blobs (log_csr E tr d p i a s) = tp_blobs s"
  by (simp add: log_csr_update)

lemma blob_content_extend [simp]: "blob_content (treaty.extend t m) = blob_content t"
  by (intro ext) (simp add: blob_content_def treaty.defs)

lemma bound_fields [simp]:
  "bt_source (treaty.extend t \<lparr>bt_source = a, bt_target = b\<rparr>) = a" "bt_target (treaty.extend t \<lparr>bt_source = a, bt_target = b\<rparr>) = b"
  by (simp_all add: treaty.defs)

subsection \<open>Properties\<close>

text \<open>C18. A treaty survives the transfer between processes, its countersignature does not: whatever world
  countersigned it, the import of its export into another process gives the blob as it was
  created, stored and verifying there. Where it was countersigned it verifies when the countersigning world
  is the one the treaty names; for another one the check asks whether the signature of one text
  verifies for a different text. Assumed: the process's signatures are not empty and verify under
  its public key, in both processes.\<close>

theorem treaty_transfer:
  assumes sound: "\<And>t. verify_sig E t (sign_payload E t) (pubkey_pem E) \<and> verify_sig E' t (sign_payload E t) (pubkey_pem E)"
    and given: "\<And>t. sign_payload E t \<noteq> []" "pubkey_pem E \<noteq> []"
    and "createTreatyBlob E ty src target s = (b, s1)"
    and "s2 = snd (countersignTreatyBlob E (tb_id b) other s1)"
  shows "\<exists>x. exportTreatyForTransfer (tb_id b) s2 = Some x \<and> fst (importTreatyFromTransfer E' x r) = b \<and>
       getSignedTreaty (tb_id b) (snd (importTreatyFromTransfer E' x r)) = Some b \<and>
       verifyTreatyBlob E' (tb_id b) (snd (importTreatyFromTransfer E' x r)) = (True, []) \<and>
       (fst (verifyTreatyBlob E (tb_id b) s2) \<longleftrightarrow> other = target \<or>
          verify_sig E (blob_content ty src target) (sign_payload E (blob_content ty src other)) (pubkey_pem E))"
proof -
  let ?c = "blob_content ty src"
  from assms(4) have b: "tb_treaty b = treaty.extend ty \<lparr>bt_source = src, bt_target = target\<rparr>"
    "tb_sig b = sign_payload E (?c target)" "tb_key b = pubkey_pem E" "tb_target_sig b = None" "tb_target_key b = None"
    "tb_target_print b = None" "js_get (tp_blobs s1) (tb_id b) = Some b"
    by (auto simp: createTreatyBlob_def take_uuid_def take_now_def Let_def)
  then have s2: "js_get (tp_blobs s2) (tb_id b) = Some (b\<lparr>tb_target_sig := Some (sign_payload E (?c other)),
       tb_target_key := Some (pubkey_pem E), tb_target_print := Some (fingerprint E)\<rparr>)"
    by (simp add: assms(5) countersignTreatyBlob_def given_def)
  have "tb_target_sig b = None \<Longrightarrow> \<lparr>tb_id = tb_id b, tb_treaty = tb_treaty b, tb_sig = tb_sig b, tb_key = tb_key b,
      tb_print = tb_print b, tb_target_sig = None, tb_target_key = None, tb_target_print = None, tb_created = tb_created b\<rparr> = b"
    using b by (intro treaty_blob.equality) simp_all
  with b s2 sound given show ?thesis
    by (auto simp: exportTreatyForTransfer_def importTreatyFromTransfer_def getSignedTreaty_def verifyTreatyBlob_def
        target_valid_def given_def Let_def)
qed

definition init_treaty :: treaty_st where
  "init_treaty = \<lparr>tick = 0, csr_ledger = [], wal = [], tp_blobs = []\<rparr>"

definition demo_treaty :: treaty where
  "demo_treaty = \<lparr>ty_id = ''t'', ty_worlds = [''a'', ''b''], ty_invariants = [], ty_model = ''peer'', ty_guarantees = [],
     ty_active = True, ty_signed = 0, ty_expires = 1\<rparr>"

theorem treaty_transfer_witness:
  "\<exists>b s1 x. createTreatyBlob demo_env demo_treaty ''a'' ''b'' init_treaty = (b, s1) \<and>
     exportTreatyForTransfer (tb_id b) (snd (countersignTreatyBlob demo_env (tb_id b) ''b'' s1)) = Some x \<and>
     verifyTreatyBlob demo_env (tb_id b) (snd (importTreatyFromTransfer demo_env x init_treaty)) = (True, [])"
proof -
  obtain b s1 where c: "createTreatyBlob demo_env demo_treaty ''a'' ''b'' init_treaty = (b, s1)" by fastforce
  have "\<And>t. verify_sig demo_env t (sign_payload demo_env t) (pubkey_pem demo_env) \<and>
      verify_sig demo_env t (sign_payload demo_env t) (pubkey_pem demo_env)"
    "\<And>t. sign_payload demo_env t \<noteq> []" "pubkey_pem demo_env \<noteq> []" by (simp_all add: demo_env_def)
  from treaty_transfer [OF this c refl, of "''b''" init_treaty] c show ?thesis by blast
qed

end
