(* ===== verification/Crk2.thy ===== *)
theory Crk2
  imports Csr
begin

text \<open>
  The second kernel (\<open>crk2/\<close>): its receipt ledger, its snapshots, the view of the cluster, the
  action gate \<open>dLAP\<close> with the invariant and constraint engines, and the process that amends the
  constitution (\<open>amendment/ca2.ts\<close>): propose, freeze, export, apply, validate, commit, restart.
  The module's state is its own; only the platform is shared with the other components.
\<close>

subsection \<open>Receipts and snapshots\<close>

record receipt2 =
  r2_id :: string
  r2_action :: string
  r2_checked :: "string list"
  r2_continuity :: string
  r2_annotations :: "(string \<times> string) list option"
  r2_prev :: string
  r2_hash :: string

record snapshot =
  sn_id :: string
  sn_hash :: string
  sn_partial :: bool
  sn_state :: "(string \<times> json) list"
  sn_time :: time

datatype amend_status = AM_DRAFT | AM_FROZEN | AM_EXPORTED | AM_APPLIED | AM_VALIDATED | AM_COMMITTED | AM_RESTARTED | AM_REJECTED

record amend_validation =
  av_ok :: bool
  av_dlap :: bool
  av_ledger :: bool
  av_continuity :: bool
  av_pit :: bool
  av_cluster :: bool
  av_reasons :: "string list"

record amendment =
  am_id :: string
  am_version :: string
  am_title :: string
  am_rationale :: string
  am_changes :: "(string \<times> json) list"
  am_proposed :: time
  am_status :: amend_status
  am_export :: "string option"
  am_validation :: "amend_validation option"
  am_committed :: "time option"

record crk_st = sys_st +
  ck_receipts :: "receipt2 list"
  ck_snapshots :: "snapshot list"
  ck_amendments :: "amendment list"
  ck_frozen :: bool
  ck_version :: string

definition receipt_fields :: "receipt2 \<Rightarrow> (string \<times> json) list" where
  "receipt_fields r =
     [(''id'', JStr (r2_id r)), (''actionId'', JStr (r2_action r)), (''invariantsChecked'', jstrs (r2_checked r)),
      (''continuityHash'', JStr (r2_continuity r))] @
     opt_field ''annotations'' (map_option (\<lambda>as. JArr (map (\<lambda>(a, n). JObj [(''author'', JStr a), (''note'', JStr n)]) as))
       (r2_annotations r))"

definition receipt_json :: "receipt2 \<Rightarrow> json" where
  "receipt_json r = JObj (receipt_fields r @ [(''prevHash'', JStr (r2_prev r)), (''hash'', JStr (r2_hash r))])"

definition last_receipt_hash :: "'a crk_st_scheme \<Rightarrow> string" where
  "last_receipt_hash s = (if ck_receipts s = [] then ''genesis'' else r2_hash (last (ck_receipts s)))"

text \<open>The caller's receipt comes without its two hashes.\<close>

definition appendReceipt :: "sysenv \<Rightarrow> receipt2 \<Rightarrow> 'a crk_st_scheme \<Rightarrow> receipt2 \<times> 'a crk_st_scheme" where
  "appendReceipt E r s =
     (let prevHash = last_receipt_hash s;
          h = sha256 E (prevHash @ stringify (JObj (receipt_fields r)));
          full = r\<lparr>r2_prev := prevHash, r2_hash := h\<rparr>
      in (full, s\<lparr>ck_receipts := ck_receipts s @ [full]\<rparr>))"

definition listReceipts2 :: "'a crk_st_scheme \<Rightarrow> receipt2 list" where
  "listReceipts2 s = ck_receipts s"

definition hashState2 :: "sysenv \<Rightarrow> (string \<times> json) list \<Rightarrow> string" where
  "hashState2 E st = sha256 E (stringify (JObj st))"

definition takeSnapshot ::
    "sysenv \<Rightarrow> (string \<times> json) list \<Rightarrow> bool \<Rightarrow> 'a crk_st_scheme \<Rightarrow> snapshot \<times> 'a crk_st_scheme" where
  "takeSnapshot E st partial s =
     (let h = hashState2 E st; (u, s1) = take_uuid E s; (t, s2) = take_now E s1;
          sn = \<lparr>sn_id = u, sn_hash = h, sn_partial = partial, sn_state = st, sn_time = t\<rparr>
      in (sn, s2\<lparr>ck_snapshots := ck_snapshots s2 @ [sn]\<rparr>))"

definition listSnapshots :: "'a crk_st_scheme \<Rightarrow> snapshot list" where
  "listSnapshots s = ck_snapshots s"

definition replay :: "string \<Rightarrow> 'a crk_st_scheme \<Rightarrow> (string \<times> json) list option" where
  "replay snapshotId s = map_option sn_state (List.find (\<lambda>x. sn_id x = snapshotId) (ck_snapshots s))"

definition snapshot_json :: "snapshot \<Rightarrow> json" where
  "snapshot_json x = JObj
     [(''id'', JStr (sn_id x)), (''hash'', JStr (sn_hash x)), (''partial'', JBool (sn_partial x)),
      (''state'', JObj (sn_state x)), (''ts'', JNum (of_int (sn_time x)))]"

record crp =
  cp_snapshot :: string
  cp_receipts :: "json list"
  cp_transitions :: "(nat \<times> nat \<times> time) list"
  cp_hash :: string

definition transition_json :: "nat \<times> nat \<times> time \<Rightarrow> json" where
  "transition_json = (\<lambda>(a, b, t). JObj [(''from'', jnat a), (''to'', jnat b), (''ts'', JNum (of_int t))])"

definition generateCRP :: "sysenv \<Rightarrow> snapshot \<Rightarrow> json list \<Rightarrow> (nat \<times> nat \<times> time) list \<Rightarrow> crp" where
  "generateCRP E x rs pts =
     \<lparr>cp_snapshot = sn_id x, cp_receipts = rs, cp_transitions = pts,
      cp_hash = sha256 E (stringify (JObj [(''snapshot'', snapshot_json x), (''receipts'', JArr rs),
        (''pitTransitions'', JArr (map transition_json pts))]))\<rparr>"

subsection \<open>The cluster\<close>

definition hashPayload :: "sysenv \<Rightarrow> json \<Rightarrow> string" where
  "hashPayload E j = sha256 E (stringify j)"

record cluster_state =
  cl_kernel :: string
  cl_invariants :: string
  cl_constraints :: string
  cl_ledger :: string
  cl_continuity :: string
  cl_pit :: string

definition clusterView :: "sysenv \<Rightarrow> 'a crk_st_scheme \<Rightarrow> cluster_state" where
  "clusterView E s =
     \<lparr>cl_kernel = ''CRK-2'',
      cl_invariants = hashPayload E (JObj [(''version'', JStr ''crk2-invariants-v1'')]),
      cl_constraints = hashPayload E (JObj [(''version'', JStr ''crk2-constraints-v1'')]),
      cl_ledger = hashPayload E (JArr (map receipt_json (take 10 (ck_receipts s)))),
      cl_continuity = hashPayload E (if ck_snapshots s = [] then JStr ''none'' else snapshot_json (last (ck_snapshots s))),
      cl_pit = hashPayload E (JObj [(''bands'', JArr (map jnat [1, 2, 3, 4, 5]))])\<rparr>"

definition cluster_json :: "cluster_state \<Rightarrow> json" where
  "cluster_json c = JObj
     [(''kernelVersion'', JStr (cl_kernel c)), (''invariantSetHash'', JStr (cl_invariants c)),
      (''constraintSetHash'', JStr (cl_constraints c)), (''ledgerPrefixHash'', JStr (cl_ledger c)),
      (''continuityAnchorHash'', JStr (cl_continuity c)), (''pitDefinitionHash'', JStr (cl_pit c))]"

subsection \<open>The gate\<close>

record action2 =
  a2_type :: string
  a2_payload :: "(string \<times> json) list option"

definition action2_json :: "action2 \<Rightarrow> json" where
  "action2_json a = JObj ((''type'', JStr (a2_type a)) # opt_field ''payload'' (map_option JObj (a2_payload a)))"

definition DANGEROUS_PATTERNS :: "(string \<times> string) list" where
  "DANGEROUS_PATTERNS =
     [(''rm -rf'', ''no-dangerous-shell''), (''rm -fr'', ''no-dangerous-shell''), (''dd if='', ''no-dangerous-disk''),
      (''> /dev/sd'', ''no-dangerous-disk''), ('':(){ :|:& };:'', ''no-fork-bomb''),
      (''chmod -R 000'', ''no-permission-destroy'')]"

definition gate_text :: "action2 \<Rightarrow> (string \<times> json) list \<Rightarrow> string" where
  "gate_text a ctx = stringify (JObj [(''action'', action2_json a), (''context'', JObj ctx)])"

text \<open>\<open>None\<close> when every invariant holds, else the name of the broken one.\<close>

definition checkAll :: "action2 \<Rightarrow> (string \<times> json) list \<Rightarrow> string option" where
  "checkAll a ctx =
     (case List.find (\<lambda>(p, _). str_includes (gate_text a ctx) p) DANGEROUS_PATTERNS of
        Some (_, i) \<Rightarrow> Some i
      | None \<Rightarrow> if a2_type a = [] then Some ''missing-action-type'' else None)"

definition constraint_check :: "sysenv \<Rightarrow> action2 \<Rightarrow> cluster_state \<Rightarrow> string option" where
  "constraint_check E a c =
     (if a2_type a = [] then Some ''missing-action-type''
      else if cl_ledger c = [] \<or> cl_ledger c = sha256 E (stringify (JArr [])) then Some ''empty-ledger''
      else None)"

datatype dlap_result = DlapOk | LocalInvariant string | ClusterInvariant | ConstraintBroken string

definition checkClusterInvariants :: "action2 \<Rightarrow> cluster_state \<Rightarrow> bool" where
  "checkClusterInvariants a c = True"

definition dLAP :: "sysenv \<Rightarrow> action2 \<Rightarrow> (string \<times> json) list \<Rightarrow> 'a crk_st_scheme \<Rightarrow> dlap_result" where
  "dLAP E a ctx s =
     (let c = clusterView E s
      in case checkAll a ctx of
           Some i \<Rightarrow> LocalInvariant i
         | None \<Rightarrow>
             (if \<not> checkClusterInvariants a c then ClusterInvariant
              else case constraint_check E a c of Some i \<Rightarrow> ConstraintBroken i | None \<Rightarrow> DlapOk))"

definition dlap_reason :: "dlap_result \<Rightarrow> string" where
  "dlap_reason d = (case d of LocalInvariant _ \<Rightarrow> ''local-invariant'' | ClusterInvariant \<Rightarrow> ''cluster-invariant''
     | ConstraintBroken _ \<Rightarrow> ''constraint'' | DlapOk \<Rightarrow> ''unknown'')"

record pit_context =
  pc_domain :: "string option"
  pc_evidence :: "nat option"

definition getBand :: "pit_context \<Rightarrow> nat" where
  "getBand c =
     (let n = (case pc_evidence c of None \<Rightarrow> 0 | Some n \<Rightarrow> n)
      in if n \<ge> 4 then 5 else if n \<ge> 3 then 4
         else if pc_domain c \<noteq> None \<and> pc_domain c \<noteq> Some [] then 3 else 1)"

definition apply_band :: "nat \<Rightarrow> pit_context \<Rightarrow> nat" where
  "apply_band b c = (let n = getBand c in if n \<ge> b then n else b)"

text \<open>The panic handler: a thrown error, and an answer that never recovers.\<close>

definition kernel_panic :: "string \<Rightarrow> string + unit" where
  "kernel_panic reason = Inl (''CRK-2 kernel panic: '' @ reason)"

definition recover_panic :: "string \<Rightarrow> bool \<times> string" where
  "recover_panic e = (False, ''Fail-closed: manual forensics required'')"

subsection \<open>Amendments\<close>

record amend_input =
  ai_title :: string
  ai_rationale :: string
  ai_changes :: "(string \<times> json) list"
  ai_version :: string

record export_bundle =
  eb_amendment :: string
  eb_time :: time
  eb_cluster :: cluster_state
  eb_tail :: string
  eb_snapshots :: "string list"
  eb_hash :: string

definition show_amend_status :: "amend_status \<Rightarrow> string" where
  "show_amend_status st = (case st of AM_DRAFT \<Rightarrow> ''draft'' | AM_FROZEN \<Rightarrow> ''frozen'' | AM_EXPORTED \<Rightarrow> ''exported''
     | AM_APPLIED \<Rightarrow> ''applied'' | AM_VALIDATED \<Rightarrow> ''validated'' | AM_COMMITTED \<Rightarrow> ''committed''
     | AM_RESTARTED \<Rightarrow> ''restarted'' | AM_REJECTED \<Rightarrow> ''rejected'')"

definition getActiveKernelVersion :: "'a crk_st_scheme \<Rightarrow> string" where
  "getActiveKernelVersion s = ck_version s"

definition isKernelFrozen :: "'a crk_st_scheme \<Rightarrow> bool" where
  "isKernelFrozen s = ck_frozen s"

definition listAmendments :: "'a crk_st_scheme \<Rightarrow> amendment list" where
  "listAmendments s = ck_amendments s"

definition getAmendment :: "string \<Rightarrow> 'a crk_st_scheme \<Rightarrow> amendment option" where
  "getAmendment i s = List.find (\<lambda>a. am_id a = i) (ck_amendments s)"

definition change_amendment :: "string \<Rightarrow> (amendment \<Rightarrow> amendment) \<Rightarrow> 'a crk_st_scheme \<Rightarrow> 'a crk_st_scheme" where
  "change_amendment i f s = s\<lparr>ck_amendments := update_first (\<lambda>a. am_id a = i) f (ck_amendments s)\<rparr>"

definition freezeForAmendment :: "sysenv \<Rightarrow> 'a crk_st_scheme \<Rightarrow> time \<times> 'a crk_st_scheme" where
  "freezeForAmendment E s = take_now E (s\<lparr>ck_frozen := True\<rparr>)"

definition amendment_id :: "sysenv \<Rightarrow> amend_input \<Rightarrow> string" where
  "amendment_id E inp = ''ca2-'' @ take 12 (hashPayload E (JObj
     [(''title'', JStr (ai_title inp)), (''rationale'', JStr (ai_rationale inp)), (''changes'', JObj (ai_changes inp)),
      (''version'', JStr (ai_version inp))]))"

definition proposeAmendment :: "sysenv \<Rightarrow> amend_input \<Rightarrow> 'a crk_st_scheme \<Rightarrow> amendment \<times> 'a crk_st_scheme" where
  "proposeAmendment E inp s =
     (let (t, s1) = take_now E s;
          a = \<lparr>am_id = amendment_id E inp, am_version = ai_version inp, am_title = ai_title inp,
               am_rationale = ai_rationale inp, am_changes = ai_changes inp, am_proposed = t, am_status = AM_DRAFT,
               am_export = None, am_validation = None, am_committed = None\<rparr>
      in (a, s1\<lparr>ck_amendments := ck_amendments s1 @ [a]\<rparr>))"

definition requireAmendment :: "string \<Rightarrow> amend_status list \<Rightarrow> 'a crk_st_scheme \<Rightarrow> string + amendment" where
  "requireAmendment i allowed s =
     (case getAmendment i s of
        None \<Rightarrow> Inl (''CA-2: amendment '' @ i @ '' not found'')
      | Some a \<Rightarrow>
          if am_status a \<notin> set allowed
          then Inl (''CA-2: amendment '' @ i @ '' status is '' @ show_amend_status (am_status a) @ '', expected one of '' @
                    join '', '' (map show_amend_status allowed))
          else Inr a)"

definition markAmendmentFrozen :: "string \<Rightarrow> 'a crk_st_scheme \<Rightarrow> (string + amendment) \<times> 'a crk_st_scheme" where
  "markAmendmentFrozen i s =
     (if \<not> ck_frozen s then (Inl ''CA-2: call freezeForAmendment() before marking an amendment frozen'', s)
      else case requireAmendment i [AM_DRAFT] s of
        Inl e \<Rightarrow> (Inl e, s)
      | Inr a \<Rightarrow> (Inr (a\<lparr>am_status := AM_FROZEN\<rparr>), change_amendment i (\<lambda>a. a\<lparr>am_status := AM_FROZEN\<rparr>) s))"

definition exportConstitutionalState ::
    "sysenv \<Rightarrow> string \<Rightarrow> 'a crk_st_scheme \<Rightarrow> (string + export_bundle) \<times> 'a crk_st_scheme" where
  "exportConstitutionalState E i s =
     (if \<not> ck_frozen s then (Inl ''CA-2: kernel must be frozen before export'', s)
      else case requireAmendment i [AM_DRAFT, AM_FROZEN] s of
        Inl e \<Rightarrow> (Inl e, s)
      | Inr a \<Rightarrow>
          let cluster = clusterView E s; ledgerTail = last_receipt_hash s; ids = map sn_id (ck_snapshots s);
              (t, s1) = take_now E s;
              h = hashPayload E (JObj [(''amendmentId'', JStr i), (''cluster'', cluster_json cluster),
                    (''ledgerTail'', JStr ledgerTail), (''snapshotIds'', jstrs ids)])
          in (Inr \<lparr>eb_amendment = i, eb_time = t, eb_cluster = cluster, eb_tail = ledgerTail, eb_snapshots = ids, eb_hash = h\<rparr>,
              change_amendment i (\<lambda>a. a\<lparr>am_status := AM_EXPORTED, am_export := Some h\<rparr>) s1))"

definition applyAmendment :: "string \<Rightarrow> 'a crk_st_scheme \<Rightarrow> (string + amendment) \<times> 'a crk_st_scheme" where
  "applyAmendment i s =
     (case requireAmendment i [AM_EXPORTED] s of
        Inl e \<Rightarrow> (Inl e, s)
      | Inr a \<Rightarrow>
          if am_export a = None \<or> am_export a = Some [] then (Inl ''CA-2: amendment missing export hash'', s)
          else (Inr (a\<lparr>am_status := AM_APPLIED\<rparr>), change_amendment i (\<lambda>a. a\<lparr>am_status := AM_APPLIED\<rparr>) s))"

text \<open>The index of the first receipt that does not follow the one before it.\<close>

fun ledger_break :: "nat \<Rightarrow> receipt2 list \<Rightarrow> nat option" where
  "ledger_break i (p # r # rest) = (if r2_prev r \<noteq> r2_hash p then Some i else ledger_break (Suc i) (r # rest))"
| "ledger_break i _ = None"

definition validate_action :: "amendment \<Rightarrow> action2" where
  "validate_action a = \<lparr>a2_type = ''amendment-validate'',
     a2_payload = Some [(''amendmentId'', JStr (am_id a)), (''version'', JStr (am_version a))]\<rparr>"

definition validate_context :: "(string \<times> json) list" where
  "validate_context = [(''agentId'', JStr ''ca2''), (''role'', JStr ''governor'')]"

definition validate_receipt :: "string \<Rightarrow> amendment \<Rightarrow> receipt2" where
  "validate_receipt i a = \<lparr>r2_id = ''ca2-validate-'' @ i, r2_action = i, r2_checked = [''CA-2'', ''amendment-validate''],
     r2_continuity = (case am_export a of None \<Rightarrow> ''genesis'' | Some h \<Rightarrow> h), r2_annotations = None, r2_prev = [],
     r2_hash = []\<rparr>"

text \<open>The five checks, once the receipt of the validation is in the ledger.\<close>

definition amend_checks ::
    "sysenv \<Rightarrow> string \<Rightarrow> amendment \<Rightarrow> 'a crk_st_scheme \<Rightarrow> amend_validation \<times> 'a crk_st_scheme" where
  "amend_checks E i a s1 =
     (let d = dLAP E (validate_action a) validate_context s1;
          dlapOk = (d = DlapOk);
          reasons1 = (if dlapOk then [] else [''dLAP rejected: '' @ dlap_reason d]);
          brk = ledger_break 1 (ck_receipts s1);
          ledgerOk = (brk = None);
          reasons2 = (case brk of None \<Rightarrow> [] | Some n \<Rightarrow> [''ledger break at index '' @ show_nat n]);
          (sn, s2) = takeSnapshot E [(''amendmentId'', JStr i), (''phase'', JStr ''ca2-validate''),
             (''version'', JStr (am_version a))] False s1;
          continuityOk = (sn_id sn \<noteq> [] \<and> sn_hash sn \<noteq> []);
          reasons3 = (if continuityOk then [] else [''continuity snapshot failed'']);
          pitBand = getBand \<lparr>pc_domain = Some ''constitutional-amendment'', pc_evidence = Some 4\<rparr>;
          pitOk = (pitBand \<ge> 1 \<and> pitBand \<le> 5);
          reasons4 = (if pitOk then [] else [''PIT band unavailable'']);
          clusterOk = (cl_kernel (clusterView E s2) = ''CRK-2'');
          reasons5 = (if clusterOk then [] else [''cluster view unavailable''])
      in (\<lparr>av_ok = (dlapOk \<and> ledgerOk \<and> continuityOk \<and> pitOk \<and> clusterOk), av_dlap = dlapOk,
           av_ledger = ledgerOk, av_continuity = continuityOk, av_pit = pitOk, av_cluster = clusterOk,
           av_reasons = reasons1 @ reasons2 @ reasons3 @ reasons4 @ reasons5\<rparr>, s2))"

definition validateAmendment ::
    "sysenv \<Rightarrow> string \<Rightarrow> 'a crk_st_scheme \<Rightarrow> (string + amend_validation) \<times> 'a crk_st_scheme" where
  "validateAmendment E i s =
     (case requireAmendment i [AM_APPLIED] s of
        Inl e \<Rightarrow> (Inl e, s)
      | Inr a \<Rightarrow>
          let (v, s2) = amend_checks E i a (snd (appendReceipt E (validate_receipt i a) s))
          in (Inr v, change_amendment i
                (\<lambda>a. a\<lparr>am_validation := Some v, am_status := (if av_ok v then AM_VALIDATED else AM_REJECTED)\<rparr>) s2))"

definition commitAmendment :: "sysenv \<Rightarrow> string \<Rightarrow> 'a crk_st_scheme \<Rightarrow> (string + amendment) \<times> 'a crk_st_scheme" where
  "commitAmendment E i s =
     (case requireAmendment i [AM_VALIDATED] s of
        Inl e \<Rightarrow> (Inl e, s)
      | Inr a \<Rightarrow>
          if \<not> (case am_validation a of None \<Rightarrow> False | Some v \<Rightarrow> av_ok v)
          then (Inl ''CA-2: cannot commit unvalidated amendment'', s)
          else
            let (t, s1) = take_now E (s\<lparr>ck_version := am_version a\<rparr>);
                f = (\<lambda>a. a\<lparr>am_status := AM_COMMITTED, am_committed := Some t\<rparr>)
            in (Inr (f a), change_amendment i f s1))"

definition restartUnderCRK2 :: "sysenv \<Rightarrow> string \<Rightarrow> 'a crk_st_scheme \<Rightarrow> (string + string \<times> time) \<times> 'a crk_st_scheme" where
  "restartUnderCRK2 E i s =
     (case requireAmendment i [AM_COMMITTED] s of
        Inl e \<Rightarrow> (Inl e, s)
      | Inr a \<Rightarrow>
          let s1 = change_amendment i (\<lambda>a. a\<lparr>am_status := AM_RESTARTED\<rparr>) (s\<lparr>ck_frozen := False\<rparr>);
              (t, s2) = take_now E s1
          in (Inr (ck_version s2, t), s2))"

text \<open>The whole process; an error of a step ends it where it is. First its steps after the freeze.\<close>

definition amend_pipeline ::
    "sysenv \<Rightarrow> string \<Rightarrow> 'a crk_st_scheme \<Rightarrow>
     (string + amendment option \<times> export_bundle \<times> amend_validation \<times> string) \<times> 'a crk_st_scheme" where
  "amend_pipeline E i s2 =
     (case markAmendmentFrozen i s2 of
        (Inl e, s3) \<Rightarrow> (Inl e, s3)
      | (Inr _, s3) \<Rightarrow>
     (case exportConstitutionalState E i s3 of
        (Inl e, s4) \<Rightarrow> (Inl e, s4)
      | (Inr b, s4) \<Rightarrow>
     (case applyAmendment i s4 of
        (Inl e, s5) \<Rightarrow> (Inl e, s5)
      | (Inr _, s5) \<Rightarrow>
     (case validateAmendment E i s5 of
        (Inl e, s6) \<Rightarrow> (Inl e, s6)
      | (Inr v, s6) \<Rightarrow>
          if \<not> av_ok v
          then (Inl (''CA-2 validation failed: '' @ join ''; '' (av_reasons v)), s6\<lparr>ck_frozen := False\<rparr>)
          else
     (case commitAmendment E i s6 of
        (Inl e, s7) \<Rightarrow> (Inl e, s7)
      | (Inr _, s7) \<Rightarrow>
     (case restartUnderCRK2 E i s7 of
        (Inl e, s8) \<Rightarrow> (Inl e, s8)
      | (Inr (ver, _), s8) \<Rightarrow> (Inr (getAmendment i s8, b, v, ver), s8)))))))"

definition runConstitutionalAmendment ::
    "sysenv \<Rightarrow> amend_input \<Rightarrow> 'a crk_st_scheme \<Rightarrow>
     (string + amendment option \<times> export_bundle \<times> amend_validation \<times> string) \<times> 'a crk_st_scheme" where
  "runConstitutionalAmendment E inp s =
     (let (a, s1) = proposeAmendment E inp s; (_, s2) = freezeForAmendment E s1
      in amend_pipeline E (am_id a) s2)"

definition resetAmendments :: "'a crk_st_scheme \<Rightarrow> 'a crk_st_scheme" where
  "resetAmendments s = s\<lparr>ck_amendments := [], ck_frozen := False, ck_version := ''CRK-2.0.0''\<rparr>"

subsection \<open>The lifecycle of an amendment\<close>

inductive amend_next :: "amend_status \<Rightarrow> amend_status \<Rightarrow> bool" where
  freeze: "amend_next AM_DRAFT AM_FROZEN"
| export: "st \<in> {AM_DRAFT, AM_FROZEN} \<Longrightarrow> amend_next st AM_EXPORTED"
| apply_it: "amend_next AM_EXPORTED AM_APPLIED"
| validate: "amend_next AM_APPLIED AM_VALIDATED"
| reject: "amend_next AM_APPLIED AM_REJECTED"
| commit: "amend_next AM_VALIDATED AM_COMMITTED"
| restart: "amend_next AM_COMMITTED AM_RESTARTED"

code_pred amend_next .

inductive_cases amend_nextE: "amend_next a b"

definition amend_rank :: "amend_status \<Rightarrow> nat" where
  "amend_rank st = (case st of AM_DRAFT \<Rightarrow> 0 | AM_FROZEN \<Rightarrow> 1 | AM_EXPORTED \<Rightarrow> 2 | AM_APPLIED \<Rightarrow> 3 | AM_VALIDATED \<Rightarrow> 4
     | AM_COMMITTED \<Rightarrow> 5 | AM_RESTARTED \<Rightarrow> 6 | AM_REJECTED \<Rightarrow> 6)"

lemma amend_next_rank: "amend_next a b \<Longrightarrow> amend_rank a < amend_rank b"
  by (erule amend_nextE) (auto simp: amend_rank_def)

lemma amend_rank_le: "amend_rank st \<le> 6"
  by (cases st) (simp_all add: amend_rank_def)

lemma getAmendment_simps [simp]:
  "getAmendment i (s\<lparr>tick := n\<rparr>) = getAmendment i s" "getAmendment i (s\<lparr>ck_frozen := b\<rparr>) = getAmendment i s"
  "getAmendment i (s\<lparr>ck_version := v\<rparr>) = getAmendment i s" "getAmendment i (s\<lparr>ck_receipts := rs\<rparr>) = getAmendment i s"
  "getAmendment i (s\<lparr>ck_snapshots := ss\<rparr>) = getAmendment i s"
  by (simp_all add: getAmendment_def)

lemma change_simps [simp]:
  "ck_frozen (change_amendment i f s) = ck_frozen s" "ck_version (change_amendment i f s) = ck_version s"
  "ck_receipts (change_amendment i f s) = ck_receipts s" "ck_snapshots (change_amendment i f s) = ck_snapshots s"
  by (simp_all add: change_amendment_def)

lemma changed_amendment:
  "getAmendment i s = Some a \<Longrightarrow> am_id (f a) = am_id a \<Longrightarrow> getAmendment i (change_amendment i f s) = Some (f a)"
  by (auto simp: getAmendment_def change_amendment_def intro: find_update_first dest: find_SomeD)

lemma require_Inr: "requireAmendment i allowed s = Inr a \<longleftrightarrow> getAmendment i s = Some a \<and> am_status a \<in> set allowed"
  by (auto simp: requireAmendment_def split: option.split)

lemma require_eq:
  "getAmendment i s = Some a \<Longrightarrow> am_status a \<in> set allowed \<Longrightarrow> requireAmendment i allowed s = Inr a"
  by (simp add: require_Inr)

lemma require_not:
  "getAmendment i s = Some a \<Longrightarrow> am_status a \<notin> set allowed \<Longrightarrow> \<exists>e. requireAmendment i allowed s = Inl e"
  by (simp add: requireAmendment_def)

subsection \<open>What validation decides\<close>

definition receipts2_linked :: "receipt2 list \<Rightarrow> bool" where
  "receipts2_linked rs \<longleftrightarrow> ledger_break 1 rs = None"

lemma ledger_break_append:
  "ledger_break n (rs @ [r]) = (case ledger_break n rs of Some i \<Rightarrow> Some i
     | None \<Rightarrow> if rs \<noteq> [] \<and> r2_prev r \<noteq> r2_hash (last rs) then Some (n + length rs - 1) else None)"
  by (induction n rs rule: ledger_break.induct) (auto split: option.split)

lemma append_linked: "receipts2_linked (ck_receipts s) \<Longrightarrow> receipts2_linked (ck_receipts (snd (appendReceipt E r s)))"
  by (simp add: receipts2_linked_def appendReceipt_def last_receipt_hash_def Let_def ledger_break_append)

text \<open>What the process needs of the platform: identifiers and digests are not empty, and the digest
  of a list with receipts is not the one of the empty list.\<close>

definition crk_platform :: "sysenv \<Rightarrow> bool" where
  "crk_platform E \<longleftrightarrow> (\<forall>n. uuid_at E n \<noteq> []) \<and> (\<forall>t. sha256 E t \<noteq> []) \<and>
     (\<forall>rs. rs \<noteq> [] \<longrightarrow> sha256 E (stringify (JArr (map receipt_json rs))) \<noteq> sha256 E (stringify (JArr [])))"

lemma dlap_ok_iff:
  assumes "crk_platform E" and "ck_receipts s \<noteq> []"
  shows "dLAP E a ctx s = DlapOk \<longleftrightarrow> checkAll a ctx = None"
proof -
  from assms have "take 10 (ck_receipts s) \<noteq> []" by simp
  with assms(1) have "constraint_check E a (clusterView E s) = None" if "a2_type a \<noteq> []"
    using that by (simp add: constraint_check_def clusterView_def hashPayload_def crk_platform_def)
  moreover have "a2_type a \<noteq> []" if "checkAll a ctx = None" using that by (auto simp: checkAll_def split: option.splits if_splits)
  ultimately show ?thesis by (auto simp: dLAP_def checkClusterInvariants_def Let_def split: option.split)
qed

lemma checks_effect:
  assumes "crk_platform E" and "receipts2_linked (ck_receipts s)" and "ck_receipts s \<noteq> []"
  shows "\<exists>v n sn. amend_checks E i a s = (v, s\<lparr>tick := n, ck_snapshots := sn\<rparr>) \<and>
    (av_ok v \<longleftrightarrow> checkAll (validate_action a) validate_context = None)"
proof -
  let ?st = "[(''amendmentId'', JStr i), (''phase'', JStr ''ca2-validate''), (''version'', JStr (am_version a))]"
  obtain sn where sn: "takeSnapshot E ?st False s = (sn, s\<lparr>tick := Suc (Suc (tick s)), ck_snapshots := ck_snapshots s @ [sn]\<rparr>)"
    "sn_id sn \<noteq> []" "sn_hash sn \<noteq> []"
    using assms(1) by (simp add: takeSnapshot_def take_uuid_def take_now_def Let_def hashState2_def crk_platform_def)
  have "ledger_break 1 (ck_receipts s) = None" using assms(2) by (simp only: receipts2_linked_def)
  with sn dlap_ok_iff [OF assms(1,3)] show ?thesis
    by (simp add: amend_checks_def Let_def getBand_def clusterView_def) (intro exI, rule refl)
qed

text \<open>Validation accepts exactly when the gate's text has no dangerous pattern: the other checks
  always pass.\<close>

lemma validate_effect:
  assumes "crk_platform E" and "receipts2_linked (ck_receipts s)"
    and "getAmendment i s = Some a" and "am_status a = AM_APPLIED"
  shows "\<exists>v n sn r. validateAmendment E i s = (Inr v, change_amendment i
       (\<lambda>a. a\<lparr>am_validation := Some v, am_status := (if av_ok v then AM_VALIDATED else AM_REJECTED)\<rparr>)
       (s\<lparr>ck_receipts := ck_receipts s @ [r], tick := n, ck_snapshots := sn\<rparr>)) \<and>
     (av_ok v \<longleftrightarrow> checkAll (validate_action a) validate_context = None) \<and> receipts2_linked (ck_receipts s @ [r])"
proof -
  obtain r where r: "snd (appendReceipt E (validate_receipt i a) s) = s\<lparr>ck_receipts := ck_receipts s @ [r]\<rparr>"
    by (simp add: appendReceipt_def Let_def)
  then have l: "receipts2_linked (ck_receipts s @ [r])" using append_linked [OF assms(2), of E "validate_receipt i a"] by simp
  from checks_effect [OF assms(1), of "s\<lparr>ck_receipts := ck_receipts s @ [r]\<rparr>" i a] l obtain v n sn where
    "amend_checks E i a (s\<lparr>ck_receipts := ck_receipts s @ [r]\<rparr>) = (v, s\<lparr>ck_receipts := ck_receipts s @ [r], tick := n, ck_snapshots := sn\<rparr>)"
    "av_ok v \<longleftrightarrow> checkAll (validate_action a) validate_context = None" by auto
  with r l assms(3,4) show ?thesis by (simp add: validateAmendment_def require_eq) blast
qed

text \<open>Commit and restart from a validated amendment.\<close>

lemma commit_effect:
  "getAmendment i s = Some a \<Longrightarrow> am_status a = AM_VALIDATED \<Longrightarrow> am_validation a = Some v \<Longrightarrow> av_ok v \<Longrightarrow>
    commitAmendment E i s = (Inr (a\<lparr>am_status := AM_COMMITTED, am_committed := Some (now_at E (tick s))\<rparr>),
      change_amendment i (\<lambda>a. a\<lparr>am_status := AM_COMMITTED, am_committed := Some (now_at E (tick s))\<rparr>)
        (s\<lparr>ck_version := am_version a, tick := Suc (tick s)\<rparr>))"
  by (simp add: commitAmendment_def require_eq take_now_def Let_def)

lemma restart_effect:
  "getAmendment i s = Some a \<Longrightarrow> am_status a = AM_COMMITTED \<Longrightarrow>
    restartUnderCRK2 E i s = (Inr (ck_version s, now_at E (tick s)),
      change_amendment i (\<lambda>a. a\<lparr>am_status := AM_RESTARTED\<rparr>) (s\<lparr>ck_frozen := False\<rparr>)\<lparr>tick := Suc (tick s)\<rparr>)"
  by (simp add: restartUnderCRK2_def require_eq take_now_def Let_def change_amendment_def)

lemma export_effect:
  "getAmendment i s = Some a \<Longrightarrow> am_status a \<in> {AM_DRAFT, AM_FROZEN} \<Longrightarrow> ck_frozen s \<Longrightarrow>
    \<exists>b. exportConstitutionalState E i s = (Inr b, change_amendment i (\<lambda>a. a\<lparr>am_status := AM_EXPORTED, am_export := Some (eb_hash b)\<rparr>)
      (s\<lparr>tick := Suc (tick s)\<rparr>)) \<and> (crk_platform E \<longrightarrow> eb_hash b \<noteq> [])"
  by (auto simp: exportConstitutionalState_def require_eq take_now_def Let_def crk_platform_def hashPayload_def)

lemma mark_effect:
  "getAmendment i s = Some a \<Longrightarrow> am_status a = AM_DRAFT \<Longrightarrow> ck_frozen s \<Longrightarrow>
    markAmendmentFrozen i s = (Inr (a\<lparr>am_status := AM_FROZEN\<rparr>), change_amendment i (\<lambda>a. a\<lparr>am_status := AM_FROZEN\<rparr>) s)"
  by (simp add: markAmendmentFrozen_def require_eq)

lemma apply_effect:
  "getAmendment i s = Some a \<Longrightarrow> am_status a = AM_EXPORTED \<Longrightarrow> am_export a = Some h \<Longrightarrow> h \<noteq> [] \<Longrightarrow>
    applyAmendment i s = (Inr (a\<lparr>am_status := AM_APPLIED\<rparr>), change_amendment i (\<lambda>a. a\<lparr>am_status := AM_APPLIED\<rparr>) s)"
  by (simp add: applyAmendment_def require_eq)

text \<open>The amendment that the process works on: the first of that name.\<close>

definition driven :: "sysenv \<Rightarrow> amend_input \<Rightarrow> 'a crk_st_scheme \<Rightarrow> amendment" where
  "driven E inp s = (case getAmendment (amendment_id E inp) s of Some a \<Rightarrow> a | None \<Rightarrow> fst (proposeAmendment E inp s))"

lemma driven_found: "getAmendment (amendment_id E inp) (snd (proposeAmendment E inp s)) = Some (driven E inp s)"
  by (auto simp: driven_def proposeAmendment_def take_now_def Let_def getAmendment_def find_append split: option.split)

lemma driven_id: "am_id (driven E inp s) = amendment_id E inp"
  using driven_found [of E inp s] by (auto simp: getAmendment_def dest: find_SomeD)

text \<open>The first three steps of the process, from a draft.\<close>

lemma run_to_applied:
  assumes "crk_platform E" and "receipts2_linked (ck_receipts s)" and "am_status (driven E inp s) = AM_DRAFT"
  defines "i \<equiv> amendment_id E inp"
  shows "\<exists>s3 b s4 s5 a. markAmendmentFrozen i (snd (freezeForAmendment E (snd (proposeAmendment E inp s)))) = (Inr ((driven E inp s)\<lparr>am_status := AM_FROZEN\<rparr>), s3) \<and>
    exportConstitutionalState E i s3 = (Inr b, s4) \<and> applyAmendment i s4 = (Inr a, s5) \<and>
    getAmendment i s5 = Some a \<and> am_status a = AM_APPLIED \<and> am_id a = i \<and> am_version a = am_version (driven E inp s) \<and>
    receipts2_linked (ck_receipts s5) \<and> ck_version s5 = ck_version s"
proof -
  let ?s2 = "snd (freezeForAmendment E (snd (proposeAmendment E inp s)))" and ?a = "driven E inp s"
  have s2: "getAmendment i ?s2 = Some ?a" "ck_frozen ?s2" "ck_receipts ?s2 = ck_receipts s" "ck_version ?s2 = ck_version s"
  proof -
    have "getAmendment i ?s2 = getAmendment i (snd (proposeAmendment E inp s))" by (simp add: freezeForAmendment_def take_now_def)
    then show "getAmendment i ?s2 = Some ?a" using driven_found [of E inp s] by (simp add: i_def)
  qed (simp_all add: freezeForAmendment_def proposeAmendment_def take_now_def Let_def)
  let ?s3 = "change_amendment i (\<lambda>a. a\<lparr>am_status := AM_FROZEN\<rparr>) ?s2" and ?a3 = "?a\<lparr>am_status := AM_FROZEN\<rparr>"
  have g3: "getAmendment i ?s3 = Some ?a3" using changed_amendment [OF s2(1)] by simp
  obtain b where b: "exportConstitutionalState E i ?s3 = (Inr b, change_amendment i (\<lambda>a. a\<lparr>am_status := AM_EXPORTED, am_export := Some (eb_hash b)\<rparr>)
      (?s3\<lparr>tick := Suc (tick ?s3)\<rparr>))" "eb_hash b \<noteq> []"
    using export_effect [OF g3, of E] s2 assms(1) by auto
  let ?s4 = "change_amendment i (\<lambda>a. a\<lparr>am_status := AM_EXPORTED, am_export := Some (eb_hash b)\<rparr>) (?s3\<lparr>tick := Suc (tick ?s3)\<rparr>)"
    and ?a4 = "?a3\<lparr>am_status := AM_EXPORTED, am_export := Some (eb_hash b)\<rparr>"
  have g4: "getAmendment i ?s4 = Some ?a4" using changed_amendment [of i "?s3\<lparr>tick := Suc (tick ?s3)\<rparr>"] g3 by simp
  let ?s5 = "change_amendment i (\<lambda>a. a\<lparr>am_status := AM_APPLIED\<rparr>) ?s4"
  have "getAmendment i ?s5 = Some (?a4\<lparr>am_status := AM_APPLIED\<rparr>)" using changed_amendment [OF g4] by simp
  moreover have "applyAmendment i ?s4 = (Inr (?a4\<lparr>am_status := AM_APPLIED\<rparr>), ?s5)" using apply_effect [OF g4 _ _ b(2)] by simp
  ultimately show ?thesis using mark_effect [OF s2(1) assms(3) s2(2)] b(1) driven_id [of E inp s] s2 assms(2)
    by (intro exI [of _ ?s3] exI [of _ b] exI [of _ ?s4] exI [of _ ?s5] exI [of _ "?a4\<lparr>am_status := AM_APPLIED\<rparr>"])
       (simp add: i_def)
qed

lemma run_eq:
  "runConstitutionalAmendment E inp s =
     amend_pipeline E (amendment_id E inp) (snd (freezeForAmendment E (snd (proposeAmendment E inp s))))"
  by (simp add: runConstitutionalAmendment_def case_prod_beta Let_def proposeAmendment_def)

lemma run_stuck:
  assumes "am_status (driven E inp s) \<noteq> AM_DRAFT"
  shows "\<exists>e s'. runConstitutionalAmendment E inp s = (Inl e, s') \<and> ck_frozen s' \<and> ck_version s' = ck_version s"
proof -
  let ?s1 = "snd (proposeAmendment E inp s)"
  let ?s2 = "snd (freezeForAmendment E ?s1)"
  have p: "ck_version ?s1 = ck_version s" by (simp add: proposeAmendment_def take_now_def Let_def)
  have s2: "getAmendment (amendment_id E inp) ?s2 = Some (driven E inp s)" "ck_frozen ?s2" "ck_version ?s2 = ck_version s"
    using driven_found [of E inp s] p by (simp_all add: freezeForAmendment_def take_now_def)
  from require_not [OF s2(1), of "[AM_DRAFT]"] assms obtain e where
    "markAmendmentFrozen (amendment_id E inp) ?s2 = (Inl e, ?s2)" by (auto simp: markAmendmentFrozen_def s2)
  with s2 show ?thesis by (simp add: run_eq amend_pipeline_def)
qed

lemma run_complete:
  assumes "crk_platform E" and "receipts2_linked (ck_receipts s)" and "am_status (driven E inp s) = AM_DRAFT"
    and safe: "checkAll (validate_action (driven E inp s)) validate_context = None"
  shows "\<exists>a b v s'. runConstitutionalAmendment E inp s = (Inr (Some a, b, v, am_version (driven E inp s)), s') \<and>
    am_status a = AM_RESTARTED \<and> av_ok v \<and> \<not> ck_frozen s' \<and> ck_version s' = am_version (driven E inp s)"
proof -
  let ?i = "amendment_id E inp"
  from run_to_applied [OF assms(1-3)] obtain s3 b s4 s5 a where st:
    "markAmendmentFrozen ?i (snd (freezeForAmendment E (snd (proposeAmendment E inp s)))) = (Inr ((driven E inp s)\<lparr>am_status := AM_FROZEN\<rparr>), s3)"
    "exportConstitutionalState E ?i s3 = (Inr b, s4)" "applyAmendment ?i s4 = (Inr a, s5)"
    "getAmendment ?i s5 = Some a" "am_status a = AM_APPLIED" "am_id a = ?i" "am_version a = am_version (driven E inp s)"
    "receipts2_linked (ck_receipts s5)" by blast
  have "validate_action a = validate_action (driven E inp s)" using st(6,7) by (simp add: validate_action_def driven_id)
  with validate_effect [OF assms(1) st(8,4,5)] safe obtain v s6 where v: "av_ok v"
    "validateAmendment E ?i s5 = (Inr v, change_amendment ?i (\<lambda>a. a\<lparr>am_validation := Some v, am_status := AM_VALIDATED\<rparr>) s6)"
    "getAmendment ?i s6 = Some a" using st(4) by auto
  let ?s6 = "change_amendment ?i (\<lambda>a. a\<lparr>am_validation := Some v, am_status := AM_VALIDATED\<rparr>) s6"
  have g6: "getAmendment ?i ?s6 = Some (a\<lparr>am_validation := Some v, am_status := AM_VALIDATED\<rparr>)"
    using changed_amendment [OF v(3)] by simp
  obtain t where c: "commitAmendment E ?i ?s6 = (Inr (a\<lparr>am_validation := Some v, am_status := AM_COMMITTED, am_committed := Some t\<rparr>),
      change_amendment ?i (\<lambda>a. a\<lparr>am_status := AM_COMMITTED, am_committed := Some t\<rparr>) (?s6\<lparr>ck_version := am_version a, tick := Suc (tick ?s6)\<rparr>))"
    using commit_effect [OF g6, of v E] v(1) by simp
  let ?s7 = "change_amendment ?i (\<lambda>a. a\<lparr>am_status := AM_COMMITTED, am_committed := Some t\<rparr>) (?s6\<lparr>ck_version := am_version a, tick := Suc (tick ?s6)\<rparr>)"
  let ?a7 = "a\<lparr>am_validation := Some v, am_status := AM_COMMITTED, am_committed := Some t\<rparr>"
  have g7: "getAmendment ?i ?s7 = Some ?a7"
    using changed_amendment [of ?i "?s6\<lparr>ck_version := am_version a, tick := Suc (tick ?s6)\<rparr>"
      "a\<lparr>am_validation := Some v, am_status := AM_VALIDATED\<rparr>"] g6 by simp
  have g8: "getAmendment ?i (change_amendment ?i (\<lambda>a. a\<lparr>am_status := AM_RESTARTED\<rparr>) (?s7\<lparr>ck_frozen := False\<rparr>)) =
      Some (?a7\<lparr>am_status := AM_RESTARTED\<rparr>)"
    using changed_amendment [of ?i "?s7\<lparr>ck_frozen := False\<rparr>" ?a7] g7 by simp
  from restart_effect [OF g7, of E] have "restartUnderCRK2 E ?i ?s7 = (Inr (am_version a, now_at E (tick ?s7)),
      change_amendment ?i (\<lambda>a. a\<lparr>am_status := AM_RESTARTED\<rparr>) (?s7\<lparr>ck_frozen := False\<rparr>)\<lparr>tick := Suc (tick ?s7)\<rparr>)" by simp
  with st v c g8 show ?thesis by (simp add: run_eq amend_pipeline_def)
qed

lemma run_rejected:
  assumes "crk_platform E" and "receipts2_linked (ck_receipts s)" and "am_status (driven E inp s) = AM_DRAFT"
    and unsafe: "checkAll (validate_action (driven E inp s)) validate_context \<noteq> None"
  shows "\<exists>e s'. runConstitutionalAmendment E inp s = (Inl e, s') \<and> \<not> ck_frozen s' \<and> ck_version s' = ck_version s"
proof -
  let ?i = "amendment_id E inp"
  from run_to_applied [OF assms(1-3)] obtain s3 b s4 s5 a where st:
    "markAmendmentFrozen ?i (snd (freezeForAmendment E (snd (proposeAmendment E inp s)))) = (Inr ((driven E inp s)\<lparr>am_status := AM_FROZEN\<rparr>), s3)"
    "exportConstitutionalState E ?i s3 = (Inr b, s4)" "applyAmendment ?i s4 = (Inr a, s5)"
    "getAmendment ?i s5 = Some a" "am_status a = AM_APPLIED" "am_id a = ?i" "am_version a = am_version (driven E inp s)"
    "receipts2_linked (ck_receipts s5)" "ck_version s5 = ck_version s" by blast
  have "validate_action a = validate_action (driven E inp s)" using st(6,7) by (simp add: validate_action_def driven_id)
  with validate_effect [OF assms(1) st(8,4,5)] unsafe obtain v s6 where v: "\<not> av_ok v"
    "validateAmendment E ?i s5 = (Inr v, s6)" "ck_version s6 = ck_version s" using st(9) by auto
  with st show ?thesis by (simp add: run_eq amend_pipeline_def)
qed

subsection \<open>Every accepted step is one move\<close>

definition passed :: "amend_status \<Rightarrow> bool" where
  "passed st \<longleftrightarrow> st \<in> {AM_VALIDATED, AM_COMMITTED, AM_RESTARTED}"

definition in_force :: "amend_status \<Rightarrow> bool" where
  "in_force st \<longleftrightarrow> st \<in> {AM_COMMITTED, AM_RESTARTED}"

text \<open>An amendment past its validation has a positive validation, and the gate's text for it has
  no dangerous pattern; one past its export has an export.\<close>

definition amend_ok :: "amendment \<Rightarrow> bool" where
  "amend_ok a \<longleftrightarrow> (passed (am_status a) \<longrightarrow> (\<exists>v. am_validation a = Some v \<and> av_ok v) \<and>
       checkAll (validate_action a) validate_context = None) \<and>
     (am_status a \<notin> {AM_DRAFT, AM_FROZEN} \<longrightarrow> am_export a \<noteq> None)"

definition crk_ok :: "'a crk_st_scheme \<Rightarrow> bool" where
  "crk_ok s \<longleftrightarrow> receipts2_linked (ck_receipts s) \<and> list_all amend_ok (ck_amendments s) \<and>
     (ck_version s = ''CRK-2.0.0'' \<or> (\<exists>a\<in>set (ck_amendments s). in_force (am_status a) \<and> am_version a = ck_version s))"

definition moved :: "'a crk_st_scheme \<Rightarrow> 'a crk_st_scheme \<Rightarrow> bool" where
  "moved s s' \<longleftrightarrow> (\<exists>i a f s1. getAmendment i s = Some a \<and> s' = change_amendment i f s1 \<and> ck_amendments s1 = ck_amendments s \<and>
     amend_next (am_status a) (am_status (f a)) \<and> am_version (f a) = am_version a \<and> (amend_ok a \<longrightarrow> amend_ok (f a)) \<and>
     (receipts2_linked (ck_receipts s) \<longrightarrow> receipts2_linked (ck_receipts s1)) \<and>
     (ck_version s1 = ck_version s \<or> ck_version s1 = am_version a \<and> in_force (am_status (f a))))"

lemma movedI:
  assumes "getAmendment i s = Some a" and "s' = change_amendment i f t" and "ck_amendments t = ck_amendments s"
    and "amend_next (am_status a) (am_status (f a))" and "am_version (f a) = am_version a" and "amend_ok a \<Longrightarrow> amend_ok (f a)"
    and "receipts2_linked (ck_receipts s) \<Longrightarrow> receipts2_linked (ck_receipts t)"
    and "ck_version t = ck_version s \<or> ck_version t = am_version a \<and> in_force (am_status (f a))"
  shows "moved s s'"
  unfolding moved_def using assms by blast

lemma validate_action_fields: "am_id b = am_id a \<Longrightarrow> am_version b = am_version a \<Longrightarrow> validate_action b = validate_action a"
  by (simp add: validate_action_def)

lemma mark_moves: "markAmendmentFrozen i s = (Inr a, s') \<Longrightarrow> moved s s'"
  by (auto simp: markAmendmentFrozen_def require_Inr split: if_splits sum.splits
      intro!: movedI [where f = "\<lambda>a. a\<lparr>am_status := AM_FROZEN\<rparr>" and t = s] amend_next.freeze)
     (simp add: amend_ok_def passed_def)

lemma export_moves: "exportConstitutionalState E i s = (Inr b, s') \<Longrightarrow> moved s s'"
  by (auto simp: exportConstitutionalState_def require_Inr take_now_def Let_def split: if_splits sum.splits
      intro!: movedI [where f = "\<lambda>a. a\<lparr>am_status := AM_EXPORTED, am_export := Some h\<rparr>" for h] amend_next.export)
     (auto simp add: amend_ok_def passed_def)

lemma apply_moves: "applyAmendment i s = (Inr a, s') \<Longrightarrow> moved s s'"
  by (auto simp: applyAmendment_def require_Inr split: if_splits sum.splits
      intro!: movedI [where f = "\<lambda>a. a\<lparr>am_status := AM_APPLIED\<rparr>" and t = s] amend_next.apply_it)
     (auto simp add: amend_ok_def passed_def)

lemma checks_gate:
  "amend_checks E i a s = (v, s') \<Longrightarrow> (av_ok v \<longrightarrow> checkAll (validate_action a) validate_context = None) \<and>
     ck_amendments s' = ck_amendments s \<and> ck_receipts s' = ck_receipts s \<and> ck_version s' = ck_version s"
  by (auto simp: amend_checks_def takeSnapshot_def take_uuid_def take_now_def Let_def dLAP_def split: option.splits)

lemma validate_moves:
  assumes "validateAmendment E i s = (Inr v, s')"
  shows "moved s s'"
proof -
  from assms obtain a where a: "getAmendment i s = Some a" "am_status a = AM_APPLIED"
    by (auto simp: validateAmendment_def require_Inr split: sum.splits)
  let ?s1 = "snd (appendReceipt E (validate_receipt i a) s)"
  let ?f = "\<lambda>a. a\<lparr>am_validation := Some v, am_status := (if av_ok v then AM_VALIDATED else AM_REJECTED)\<rparr>"
  have s1: "ck_amendments ?s1 = ck_amendments s" "ck_version ?s1 = ck_version s" by (simp_all add: appendReceipt_def Let_def)
  from assms obtain s2 where c: "amend_checks E i a ?s1 = (v, s2)" "s' = change_amendment i ?f s2"
    by (auto simp: validateAmendment_def require_eq [OF a(1)] a(2) split: prod.splits)
  from checks_gate [OF c(1)] have g: "av_ok v \<Longrightarrow> checkAll (validate_action a) validate_context = None"
    "ck_amendments s2 = ck_amendments s" "ck_receipts s2 = ck_receipts ?s1" "ck_version s2 = ck_version s" using s1 by auto
  show ?thesis
  proof (rule movedI [OF a(1) c(2) g(2)])
    show "amend_next (am_status a) (am_status (?f a))" using a(2) by (simp add: amend_next.validate amend_next.reject)
    show "amend_ok a \<Longrightarrow> amend_ok (?f a)" using g(1) a(2) by (auto simp: amend_ok_def passed_def validate_action_fields [of "?f a" a])
    show "receipts2_linked (ck_receipts s) \<Longrightarrow> receipts2_linked (ck_receipts s2)" using g(3) append_linked by metis
  qed (use g in simp_all)
qed

lemma commit_moves: "commitAmendment E i s = (Inr b, s') \<Longrightarrow> moved s s'"
proof -
  assume c: "commitAmendment E i s = (Inr b, s')"
  then obtain a where a: "getAmendment i s = Some a" "am_status a = AM_VALIDATED"
    by (auto simp: commitAmendment_def require_Inr split: sum.splits)
  let ?f = "\<lambda>a. a\<lparr>am_status := AM_COMMITTED, am_committed := Some (now_at E (tick s))\<rparr>"
  from c a have "s' = change_amendment i ?f (s\<lparr>ck_version := am_version a, tick := Suc (tick s)\<rparr>)"
    by (auto simp: commitAmendment_def require_eq take_now_def Let_def split: if_splits)
  from movedI [OF a(1) this] show "moved s s'" using a(2)
    by (simp add: amend_next.commit amend_ok_def passed_def in_force_def validate_action_fields [of "?f a" a])
qed

lemma restart_moves: "restartUnderCRK2 E i s = (Inr b, s') \<Longrightarrow> moved s s'"
proof -
  assume c: "restartUnderCRK2 E i s = (Inr b, s')"
  then obtain a where a: "getAmendment i s = Some a" "am_status a = AM_COMMITTED"
    by (auto simp: restartUnderCRK2_def require_Inr split: sum.splits)
  let ?f = "\<lambda>a. a\<lparr>am_status := AM_RESTARTED\<rparr>"
  from c a have "s' = change_amendment i ?f (s\<lparr>ck_frozen := False, tick := Suc (tick s)\<rparr>)"
    by (auto simp: restartUnderCRK2_def require_eq take_now_def Let_def change_amendment_def)
  from movedI [OF a(1) this] show "moved s s'" using a(2)
    by (simp add: amend_next.restart amend_ok_def passed_def validate_action_fields [of "?f a" a])
qed

lemmas amend_moves = mark_moves export_moves apply_moves validate_moves commit_moves restart_moves

lemma amend_refused:
  "markAmendmentFrozen i s = (Inl e, s') \<Longrightarrow> s' = s" "exportConstitutionalState E i s = (Inl e, s') \<Longrightarrow> s' = s"
  "applyAmendment i s = (Inl e, s') \<Longrightarrow> s' = s" "validateAmendment E i s = (Inl e, s') \<Longrightarrow> s' = s"
  "commitAmendment E i s = (Inl e, s') \<Longrightarrow> s' = s" "restartUnderCRK2 E i s = (Inl e, s') \<Longrightarrow> s' = s"
  by (auto simp: markAmendmentFrozen_def exportConstitutionalState_def applyAmendment_def validateAmendment_def commitAmendment_def
      restartUnderCRK2_def take_now_def Let_def split: if_splits sum.splits prod.splits)

subsection \<open>Runs\<close>

datatype crk_event =
    ProposeAm amend_input
  | FreezeKernel
  | MarkAm string
  | ExportAm string
  | ApplyAm string
  | ValidateAm string
  | CommitAm string
  | RestartAm string
  | RunAm amend_input
  | NewReceipt receipt2
  | NewSnapshot "(string \<times> json) list" bool

text \<open>Whether the step was an accepted move of an amendment, and the state after it.\<close>

primrec crk_move :: "sysenv \<Rightarrow> crk_event \<Rightarrow> 'a crk_st_scheme \<Rightarrow> bool \<times> 'a crk_st_scheme" where
  "crk_move E (ProposeAm inp) s = (False, snd (proposeAmendment E inp s))"
| "crk_move E FreezeKernel s = (False, snd (freezeForAmendment E s))"
| "crk_move E (MarkAm i) s = map_prod (\<lambda>r. \<not> isl r) id (markAmendmentFrozen i s)"
| "crk_move E (ExportAm i) s = map_prod (\<lambda>r. \<not> isl r) id (exportConstitutionalState E i s)"
| "crk_move E (ApplyAm i) s = map_prod (\<lambda>r. \<not> isl r) id (applyAmendment i s)"
| "crk_move E (ValidateAm i) s = map_prod (\<lambda>r. \<not> isl r) id (validateAmendment E i s)"
| "crk_move E (CommitAm i) s = map_prod (\<lambda>r. \<not> isl r) id (commitAmendment E i s)"
| "crk_move E (RestartAm i) s = map_prod (\<lambda>r. \<not> isl r) id (restartUnderCRK2 E i s)"
| "crk_move E (RunAm inp) s = (False, snd (runConstitutionalAmendment E inp s))"
| "crk_move E (NewReceipt r) s = (False, snd (appendReceipt E r s))"
| "crk_move E (NewSnapshot st p) s = (False, snd (takeSnapshot E st p s))"

definition crk_step :: "sysenv \<Rightarrow> crk_event \<Rightarrow> 'a crk_st_scheme \<Rightarrow> 'a crk_st_scheme" where
  "crk_step E e s = snd (crk_move E e s)"

text \<open>No operation of the second kernel takes a receipt out of its ledger or breaks it.\<close>

definition crk_grows :: "'a crk_st_scheme \<Rightarrow> 'a crk_st_scheme \<Rightarrow> bool" where
  "crk_grows s t \<longleftrightarrow> (\<exists>new. ck_receipts t = ck_receipts s @ new) \<and> (receipts2_linked (ck_receipts s) \<longrightarrow> receipts2_linked (ck_receipts t))"

lemma crk_grows_same: "ck_receipts t = ck_receipts s \<Longrightarrow> crk_grows s t"
  by (simp add: crk_grows_def)

lemma crk_grows_trans [trans]: "crk_grows s t \<Longrightarrow> crk_grows t u \<Longrightarrow> crk_grows s u"
  by (fastforce simp: crk_grows_def)

lemma crk_grows_append: "crk_grows s (snd (appendReceipt E r s))"
  using append_linked [of s E r] by (auto simp: crk_grows_def appendReceipt_def Let_def)

lemma amend_same:
  "ck_receipts (snd (takeSnapshot E st p s)) = ck_receipts s" "ck_receipts (snd (amend_checks E i a s)) = ck_receipts s"
  "ck_receipts (snd (proposeAmendment E inp s)) = ck_receipts s" "ck_receipts (snd (freezeForAmendment E s)) = ck_receipts s"
  "ck_receipts (snd (markAmendmentFrozen i s)) = ck_receipts s" "ck_receipts (snd (exportConstitutionalState E i s)) = ck_receipts s"
  "ck_receipts (snd (applyAmendment i s)) = ck_receipts s" "ck_receipts (snd (commitAmendment E i s)) = ck_receipts s"
  "ck_receipts (snd (restartUnderCRK2 E i s)) = ck_receipts s"
proof -
  show t: "ck_receipts (snd (takeSnapshot E st p s)) = ck_receipts s" for st p s
    by (simp add: takeSnapshot_def take_uuid_def take_now_def Let_def case_prod_beta)
  show "ck_receipts (snd (amend_checks E i a s)) = ck_receipts s"
    by (simp add: amend_checks_def case_prod_beta t Let_def)
qed (simp_all add: proposeAmendment_def freezeForAmendment_def markAmendmentFrozen_def exportConstitutionalState_def applyAmendment_def
    commitAmendment_def restartUnderCRK2_def change_amendment_def take_now_def Let_def split: sum.split)

lemma validate_grows: "crk_grows s (snd (validateAmendment E i s))"
proof (cases "requireAmendment i [AM_APPLIED] s")
  case (Inl e)
  then show ?thesis by (simp add: validateAmendment_def crk_grows_same)
next
  case (Inr a)
  have "crk_grows s (snd (appendReceipt E (validate_receipt i a) s))" by (rule crk_grows_append)
  then show ?thesis
    using Inr amend_same(2) [of E i a "snd (appendReceipt E (validate_receipt i a) s)"]
    by (simp add: validateAmendment_def case_prod_beta crk_grows_def change_amendment_def)
qed

lemma pipeline_grows: "crk_grows s (snd (amend_pipeline E i s))"
proof -
  obtain r3 s3 where 3: "markAmendmentFrozen i s = (r3, s3)" by fastforce
  obtain r4 s4 where 4: "exportConstitutionalState E i s3 = (r4, s4)" by fastforce
  obtain r5 s5 where 5: "applyAmendment i s4 = (r5, s5)" by fastforce
  obtain r6 s6 where 6: "validateAmendment E i s5 = (r6, s6)" by fastforce
  obtain r7 s7 where 7: "commitAmendment E i s6 = (r7, s7)" by fastforce
  obtain r8 s8 where 8: "restartUnderCRK2 E i s7 = (r8, s8)" by fastforce
  have g: "crk_grows s s3" "crk_grows s s4" "crk_grows s s5"
    using amend_same(5) [of i s] amend_same(6) [of E i s3] amend_same(7) [of i s4] by (simp_all add: 3 4 5 crk_grows_same)
  moreover have g6: "crk_grows s s6" using validate_grows [of s5 E i] g(3) crk_grows_trans by (fastforce simp: 6)
  moreover have g7: "crk_grows s s7" "crk_grows s s8"
    using g6 amend_same(8) [of E i s6] amend_same(9) [of E i s7] by (simp_all add: 7 8 crk_grows_def)
  moreover have "crk_grows s (s6\<lparr>ck_frozen := False\<rparr>)" using g6 by (simp add: crk_grows_def)
  ultimately show ?thesis
    by (auto simp: amend_pipeline_def 3 4 5 6 7 8 split: sum.split)
qed

lemma crk_step_grows: "crk_grows s (crk_step E e s)"
proof (cases e)
  case (RunAm inp)
  have "crk_grows s (snd (freezeForAmendment E (snd (proposeAmendment E inp s))))" by (rule crk_grows_same) (simp add: amend_same)
  also have "crk_grows (snd (freezeForAmendment E (snd (proposeAmendment E inp s)))) (crk_step E e s)"
    by (simp add: RunAm crk_step_def runConstitutionalAmendment_def case_prod_beta pipeline_grows Let_def)
  finally show ?thesis .
qed (simp_all add: crk_step_def amend_same crk_grows_same crk_grows_append validate_grows)

fun accepted_moves :: "sysenv \<Rightarrow> crk_event list \<Rightarrow> 'a crk_st_scheme \<Rightarrow> nat" where
  "accepted_moves E [] s = 0"
| "accepted_moves E (e # es) s = (if fst (crk_move E e s) then 1 else 0) + accepted_moves E es (crk_step E e s)"

definition rank_total :: "'a crk_st_scheme \<Rightarrow> nat" where
  "rank_total s = sum_list (map (\<lambda>a. amend_rank (am_status a)) (ck_amendments s))"

lemma update_first_sum:
  "List.find p xs = Some x \<Longrightarrow> g x < g (f x) \<Longrightarrow> sum_list (map g xs) < (sum_list (map g (update_first p f xs)) :: nat)"
  by (induction xs) (auto split: if_splits)

lemma update_first_ex:
  "(\<exists>a\<in>set xs. Q a) \<Longrightarrow> (\<And>x. List.find p xs = Some x \<Longrightarrow> Q x \<Longrightarrow> Q (f x)) \<Longrightarrow> \<exists>a\<in>set (update_first p f xs). Q a"
proof (induction xs)
  case (Cons a xs)
  show ?case
  proof (cases "p a")
    case True
    with Cons.prems show ?thesis by auto
  next
    case False
    then have "\<And>x. List.find p xs = Some x \<Longrightarrow> Q x \<Longrightarrow> Q (f x)" using Cons.prems(2) by simp
    with False Cons show ?thesis by auto
  qed
qed simp

lemma update_first_in: "List.find p xs = Some x \<Longrightarrow> f x \<in> set (update_first p f xs)"
  by (induction xs) (auto split: if_splits)

lemma update_first_found:
  "list_all P xs \<Longrightarrow> (\<And>x. List.find p xs = Some x \<Longrightarrow> P x \<Longrightarrow> P (f x)) \<Longrightarrow> list_all P (update_first p f xs)"
  by (induction xs) (auto split: if_splits)

lemma moved_rank: "moved s s' \<Longrightarrow> rank_total s < rank_total s'"
proof -
  assume "moved s s'"
  then obtain i a f s1 where "getAmendment i s = Some a" "s' = change_amendment i f s1" "ck_amendments s1 = ck_amendments s"
    "amend_next (am_status a) (am_status (f a))" unfolding moved_def by blast
  then show ?thesis using update_first_sum [of "\<lambda>a. am_id a = i" "ck_amendments s" a "\<lambda>a. amend_rank (am_status a)" f]
    by (simp add: rank_total_def change_amendment_def getAmendment_def amend_next_rank)
qed

lemma in_force_final: "amend_next st st' \<Longrightarrow> in_force st \<Longrightarrow> in_force st'"
  by (erule amend_nextE) (auto simp: in_force_def)

lemma moved_ok: "moved s s' \<Longrightarrow> crk_ok s \<Longrightarrow> crk_ok s'"
proof -
  assume m: "moved s s'" and ok: "crk_ok s"
  then obtain i a f s1 where d: "getAmendment i s = Some a" "s' = change_amendment i f s1" "ck_amendments s1 = ck_amendments s"
    "amend_next (am_status a) (am_status (f a))" "am_version (f a) = am_version a" "amend_ok a \<longrightarrow> amend_ok (f a)"
    "receipts2_linked (ck_receipts s) \<longrightarrow> receipts2_linked (ck_receipts s1)"
    "ck_version s1 = ck_version s \<or> ck_version s1 = am_version a \<and> in_force (am_status (f a))" unfolding moved_def by blast
  let ?p = "\<lambda>a. am_id a = i"
  have f: "List.find ?p (ck_amendments s) = Some a" using d(1) by (simp add: getAmendment_def)
  have "list_all amend_ok (update_first ?p f (ck_amendments s))" using ok d(6) f by (intro update_first_found) (simp_all add: crk_ok_def)
  moreover have "ck_version s1 = ''CRK-2.0.0'' \<or>
      (\<exists>x\<in>set (update_first ?p f (ck_amendments s)). in_force (am_status x) \<and> am_version x = ck_version s1)"
  proof (cases "ck_version s1 = ck_version s")
    case True
    then show ?thesis using ok f d(4,5) in_force_final
      by (cases "ck_version s = ''CRK-2.0.0''") (auto simp: crk_ok_def intro!: update_first_ex)
  next
    case False
    then show ?thesis using update_first_in [OF f, of f] d(5,8) by (intro disjI2 bexI [of _ "f a"]) auto
  qed
  ultimately show ?thesis using ok d by (simp add: crk_ok_def change_amendment_def)
qed

text \<open>A step either moves amendments forward or leaves them, and an accepted one moves one.\<close>

definition advances :: "'a crk_st_scheme \<Rightarrow> 'a crk_st_scheme \<Rightarrow> bool" where
  "advances s s' \<longleftrightarrow> (crk_ok s \<longrightarrow> crk_ok s') \<and> rank_total s \<le> rank_total s'"

lemma advances_refl [simp]: "advances s s"
  by (simp add: advances_def)

lemma advances_trans [trans]: "advances s t \<Longrightarrow> advances t u \<Longrightarrow> advances s u"
  by (auto simp: advances_def)

lemma advances_moved: "moved s s' \<Longrightarrow> advances s s'"
  using moved_ok moved_rank by (fastforce simp: advances_def)

lemma advances_thaw: "advances s (s\<lparr>ck_frozen := b\<rparr>)"
  by (simp add: advances_def crk_ok_def rank_total_def)

lemma step_advances:
  "advances s (snd (proposeAmendment E inp s))" "advances s (snd (freezeForAmendment E s))"
  "advances s (snd (appendReceipt E r s))" "advances s (snd (takeSnapshot E st p s))"
  using append_linked [of s E r]
  by (auto simp: advances_def crk_ok_def rank_total_def proposeAmendment_def freezeForAmendment_def appendReceipt_def takeSnapshot_def
      take_now_def take_uuid_def Let_def amend_ok_def passed_def)

lemma op_advances:
  "advances s (snd (markAmendmentFrozen i s))" "advances s (snd (exportConstitutionalState E i s))"
  "advances s (snd (applyAmendment i s))" "advances s (snd (validateAmendment E i s))"
  "advances s (snd (commitAmendment E i s))" "advances s (snd (restartUnderCRK2 E i s))"
proof -
  have a: "advances s (snd r)" if "\<And>e s'. r = (Inl e, s') \<Longrightarrow> s' = s" "\<And>x s'. r = (Inr x, s') \<Longrightarrow> moved s s'"
    for r :: "(string + 'x) \<times> 'a crk_st_scheme"
    using that by (cases r; cases "fst r") (auto intro: advances_moved)
  show "advances s (snd (markAmendmentFrozen i s))" by (rule a) (auto dest: amend_refused amend_moves)
  show "advances s (snd (exportConstitutionalState E i s))" by (rule a) (auto dest: amend_refused amend_moves)
  show "advances s (snd (applyAmendment i s))" by (rule a) (auto dest: amend_refused amend_moves)
  show "advances s (snd (validateAmendment E i s))" by (rule a) (auto dest: amend_refused amend_moves)
  show "advances s (snd (commitAmendment E i s))" by (rule a) (auto dest: amend_refused amend_moves)
  show "advances s (snd (restartUnderCRK2 E i s))" by (rule a) (auto dest: amend_refused amend_moves)
qed

lemma pipeline_advances: "advances s (snd (amend_pipeline E i s))"
proof -
  obtain r3 s3 where 3: "markAmendmentFrozen i s = (r3, s3)" by fastforce
  obtain r4 s4 where 4: "exportConstitutionalState E i s3 = (r4, s4)" by fastforce
  obtain r5 s5 where 5: "applyAmendment i s4 = (r5, s5)" by fastforce
  obtain r6 s6 where 6: "validateAmendment E i s5 = (r6, s6)" by fastforce
  obtain r7 s7 where 7: "commitAmendment E i s6 = (r7, s7)" by fastforce
  obtain r8 s8 where 8: "restartUnderCRK2 E i s7 = (r8, s8)" by fastforce
  have a3: "advances s s3" using op_advances(1) [of s i] 3 by simp
  then have a4: "advances s s4" using op_advances(2) [of s3 E i] 4 advances_trans by fastforce
  then have a5: "advances s s5" using op_advances(3) [of s4 i] 5 advances_trans by fastforce
  then have a6: "advances s s6" using op_advances(4) [of s5 E i] 6 advances_trans by fastforce
  then have a7: "advances s s7" using op_advances(5) [of s6 E i] 7 advances_trans by fastforce
  then have a8: "advances s s8" using op_advances(6) [of s7 E i] 8 advances_trans by fastforce
  have "advances s (s6\<lparr>ck_frozen := False\<rparr>)" using a6 advances_thaw advances_trans by blast
  with 3 4 5 6 7 8 a3 a4 a5 a6 a7 a8 show ?thesis by (auto simp: amend_pipeline_def split: sum.split)
qed

lemma run_advances: "advances s (snd (runConstitutionalAmendment E inp s))"
  unfolding run_eq
  by (rule advances_trans [OF step_advances(1) [of s E inp]], rule advances_trans [OF step_advances(2) [of _ E]], rule pipeline_advances)

lemma step_all: "advances s (crk_step E e s)"
  by (cases e) (simp_all add: crk_step_def step_advances op_advances run_advances)

lemma accepted_rank:
  "\<not> isl (fst p) \<Longrightarrow> (\<And>x s'. p = (Inr x, s') \<Longrightarrow> moved s s') \<Longrightarrow> rank_total s < rank_total (snd p)"
  by (cases p; cases "fst p") (auto dest: moved_rank)

lemma step_accepted: "fst (crk_move E e s) \<Longrightarrow> rank_total s < rank_total (crk_step E e s)"
  by (cases e) (auto simp: crk_step_def intro!: accepted_rank dest: amend_moves)

interpretation amendments: machine "crk_step E" crk_ok
  by unfold_locales (use step_all in \<open>auto simp: advances_def\<close>)

lemma accepted_bound: "accepted_moves E es s + rank_total s \<le> rank_total (fold (crk_step E) es s)"
proof (induction es arbitrary: s)
  case (Cons e es)
  from Cons.IH [of "crk_step E e s"] step_accepted [of E e s] step_all [of s E e] show ?case
    by (auto simp: advances_def)
qed simp

lemma rank_total_le: "rank_total s \<le> 6 * length (ck_amendments s)"
proof -
  have "sum_list (map (\<lambda>a. amend_rank (am_status a)) xs) \<le> 6 * length xs" for xs
    by (induction xs) (use amend_rank_le in \<open>auto simp: add_mono intro: order_trans\<close>)
  then show ?thesis by (simp add: rank_total_def)
qed

definition init_crk :: crk_st where
  "init_crk = \<lparr>tick = 0, ck_receipts = [], ck_snapshots = [], ck_amendments = [], ck_frozen = False, ck_version = ''CRK-2.0.0''\<rparr>"

lemma init_crk_ok: "crk_ok init_crk"
  by (simp add: crk_ok_def init_crk_def receipts2_linked_def)

text \<open>An environment whose identifiers are not empty.\<close>

definition demo_platform :: sysenv where
  "demo_platform = demo_env\<lparr>uuid_at := \<lambda>n. CHR ''i'' # replicate n (CHR ''u'')\<rparr>"

lemma join_nonempty: "x \<noteq> [] \<Longrightarrow> join sep (x # xs) \<noteq> []"
  by (cases xs) simp_all

lemma demo_platform_ok: "crk_platform demo_platform"
proof -
  have "stringify (JArr (map receipt_json rs)) \<noteq> stringify (JArr [])" if "rs \<noteq> []" for rs
    using that by (cases rs) (simp_all add: receipt_json_def join_nonempty)
  then show ?thesis by (simp add: crk_platform_def demo_platform_def demo_env_def)
qed

definition demo_amendment :: amend_input where
  "demo_amendment = \<lparr>ai_title = ''t'', ai_rationale = ''r'', ai_changes = [], ai_version = ''v2''\<rparr>"

lemma demo_amendment_safe:
  "am_status (driven demo_platform demo_amendment init_crk) = AM_DRAFT"
  "checkAll (validate_action (driven demo_platform demo_amendment init_crk)) validate_context = None"
  "am_version (driven demo_platform demo_amendment init_crk) = ''v2''"
  by code_simp+

subsection \<open>Properties\<close>

text \<open>What the whole amendment process does, in any state whose receipts are linked. It drives the first amendment with the
  identifier of its input. When that is not a draft, because the same amendment was run before,
  the process fails after the freeze and the kernel stays frozen. Otherwise the one thing that
  decides is whether the gate's text, made of the identifier and the version, contains a dangerous
  pattern: if so the process fails and unfreezes with the version unchanged; if not it returns
  the amendment as restarted, the kernel is not frozen and its active version is the amendment's.
  What the amendment changes is never looked at.\<close>

theorem amendment_process_spec:
  assumes "crk_platform E" and "receipts2_linked (ck_receipts s)" and "a = driven E inp s"
    and "runConstitutionalAmendment E inp s = (r, s')"
  shows "if am_status a \<noteq> AM_DRAFT
      then isl r \<and> isKernelFrozen s' \<and> getActiveKernelVersion s' = getActiveKernelVersion s
      else if checkAll (validate_action a) validate_context \<noteq> None
      then isl r \<and> \<not> isKernelFrozen s' \<and> getActiveKernelVersion s' = getActiveKernelVersion s
      else \<not> isKernelFrozen s' \<and> getActiveKernelVersion s' = am_version a \<and>
        (\<exists>b v a'. r = Inr (Some a', b, v, am_version a) \<and> am_status a' = AM_RESTARTED \<and> av_ok v)"
proof -
  consider "am_status a \<noteq> AM_DRAFT" | "am_status a = AM_DRAFT" "checkAll (validate_action a) validate_context \<noteq> None"
    | "am_status a = AM_DRAFT" "checkAll (validate_action a) validate_context = None" by blast
  then show ?thesis
  proof cases
    case 1
    with run_stuck [of E inp s] assms(3,4) show ?thesis by (auto simp: isKernelFrozen_def getActiveKernelVersion_def)
  next
    case 2
    with run_rejected [OF assms(1,2), of inp] assms(3,4) show ?thesis
      by (auto simp: isKernelFrozen_def getActiveKernelVersion_def)
  next
    case 3
    with run_complete [OF assms(1,2), of inp] assms(3,4) show ?thesis
      by (auto simp: isKernelFrozen_def getActiveKernelVersion_def)
  qed
qed

theorem amendment_process_witness:
  "getActiveKernelVersion (snd (runConstitutionalAmendment demo_platform demo_amendment init_crk)) = ''v2''"
proof -
  have "receipts2_linked (ck_receipts init_crk)" using init_crk_ok by (simp only: crk_ok_def)
  from amendment_process_spec [OF demo_platform_ok this refl prod.collapse [symmetric], of demo_amendment] demo_amendment_safe
  show ?thesis by simp
qed

text \<open>The active version is always one that passed validation: after any run of the operations, whole processes included,
  it is the initial version or the version of a committed or restarted amendment; every amendment
  past its validation has a positive one and a version that the gate lets through; and
  the receipts are linked, so that the ledger check of a validation never fails.\<close>

theorem active_version_validated:
  assumes "s = fold (crk_step E) es init_crk"
  shows "(getActiveKernelVersion s = ''CRK-2.0.0'' \<or>
       (\<exists>a\<in>set (listAmendments s). am_status a \<in> {AM_COMMITTED, AM_RESTARTED} \<and> am_version a = getActiveKernelVersion s)) \<and>
     (\<forall>a\<in>set (listAmendments s). am_status a \<in> {AM_VALIDATED, AM_COMMITTED, AM_RESTARTED} \<longrightarrow>
       (\<exists>v. am_validation a = Some v \<and> av_ok v) \<and> checkAll (validate_action a) validate_context = None) \<and>
     ledger_break 1 (listReceipts2 s) = None"
  using amendments.run_inv [OF init_crk_ok, of E es]
  by (auto simp: assms crk_ok_def getActiveKernelVersion_def listAmendments_def listReceipts2_def list_all_iff amend_ok_def
      passed_def in_force_def receipts2_linked_def)

theorem active_version_validated_witness:
  "\<exists>a\<in>set (listAmendments (fold (crk_step demo_platform) [RunAm demo_amendment] init_crk)).
     am_status a \<in> {AM_COMMITTED, AM_RESTARTED} \<and> am_version a = ''v2''"
proof -
  have "receipts2_linked (ck_receipts init_crk)" using init_crk_ok by (simp only: crk_ok_def)
  from run_complete [OF demo_platform_ok this demo_amendment_safe(1,2)] demo_amendment_safe(3)
  have v: "getActiveKernelVersion (fold (crk_step demo_platform) [RunAm demo_amendment] init_crk) = ''v2''"
    by (auto simp: crk_step_def getActiveKernelVersion_def)
  with active_version_validated [OF refl, of demo_platform "[RunAm demo_amendment]"] show ?thesis by (simp only:) auto
qed

text \<open>C19. Every amendment ends: however the steps of several amendments are interleaved, each accepted step takes one of them
  forward along the lifecycle, so a run accepts at most six steps per proposed amendment; after
  that many every further one is refused.\<close>

theorem amendments_end:
  "accepted_moves E es init_crk \<le> 6 * length (listAmendments (fold (crk_step E) es init_crk))"
  using accepted_bound [of E es init_crk] rank_total_le [of "fold (crk_step E) es init_crk"] by (simp add: listAmendments_def)

end
