(* ===== verification/Fabric.thy ===== *)
theory Fabric
  imports Kernel
begin

text \<open>
  The compute fabric (\<open>agent/sovereign-x/fabric.ts\<close>): nodes, the tasks that run on them under an
  authorization of the kernel, and the prongs a task is split into. The calls are atomic here:
  the one \<open>await\<close> of \<open>executeFabricTask\<close> does not interleave with other calls. Its \<open>prongCount\<close> is a natural number.
\<close>

datatype node_status = NODE_ACTIVE | NODE_IDLE | NODE_OFFLINE | NODE_SUSPENDED

datatype task_status = TASK_PENDING | TASK_RUNNING | TASK_COMPLETED | TASK_FAILED | TASK_REVERTED

datatype prong_status = PRONG_PENDING | PRONG_RUNNING | PRONG_DONE | PRONG_FAILED

record fabric_node =
  fn_id :: string
  fn_name :: string
  fn_status :: node_status
  fn_capabilities :: "string list"
  fn_cores :: jsnum
  fn_memory :: jsnum
  fn_gpu :: "jsnum option"
  fn_authority :: string
  fn_registered :: time
  fn_heartbeat :: time

record fabric_task =
  ft_id :: string
  ft_node :: string
  ft_workload :: string
  ft_prongs :: nat
  ft_auth :: string
  ft_status :: task_status
  ft_provenance :: string
  ft_started :: time
  ft_completed :: "time option"
  ft_result :: json
  ft_error :: "string option"

record prong =
  pg_id :: string
  pg_task :: string
  pg_node :: string
  pg_index :: nat
  pg_input :: json
  pg_output :: json
  pg_status :: prong_status
  pg_time :: jsnum
  pg_lineage :: string
  pg_error :: "string option"

record fabric_st = kernel_st +
  fb_nodes :: "(string, fabric_node) jsmap"
  fb_tasks :: "fabric_task list"
  fb_prongs :: "prong list"

abbreviation log_fabric :: "sysenv \<Rightarrow> string \<Rightarrow> (string \<times> json) list \<Rightarrow> 'a base_st_scheme \<Rightarrow> 'a base_st_scheme" where
  "log_fabric E tr payload \<equiv> log_csr E tr ''compute'' payload None ''constitutional-compute-fabric''"

subsection \<open>Nodes\<close>

definition registerNode ::
    "sysenv \<Rightarrow> string \<Rightarrow> string list \<Rightarrow> jsnum \<Rightarrow> jsnum \<Rightarrow> jsnum option \<Rightarrow> string \<Rightarrow> 'a fabric_st_scheme \<Rightarrow>
     fabric_node \<times> 'a fabric_st_scheme" where
  "registerNode E name caps cores mem gpu auth s =
     (let (u, s1) = take_uuid E s; (t1, s2) = take_now E s1; (t2, s3) = take_now E s2;
          n = \<lparr>fn_id = u, fn_name = name, fn_status = NODE_IDLE, fn_capabilities = caps, fn_cores = cores, fn_memory = mem,
               fn_gpu = gpu, fn_authority = auth, fn_registered = t1, fn_heartbeat = t2\<rparr>;
          s4 = s3\<lparr>fb_nodes := js_set u n (fb_nodes s3)\<rparr>
      in (n, log_fabric E ''fabric-node-registered''
               [(''nodeId'', JStr u), (''name'', JStr name), (''capabilities'', jstrs caps), (''cpuCores'', JNum cores),
                (''memoryGB'', JNum mem), (''gpuMemoryGB'', (case gpu of None \<Rightarrow> JNull | Some g \<Rightarrow> JNum g))] s4))"

definition getNode :: "string \<Rightarrow> 'a fabric_st_scheme \<Rightarrow> fabric_node option" where
  "getNode nodeId s = js_get (fb_nodes s) nodeId"

definition listNodes :: "'a fabric_st_scheme \<Rightarrow> fabric_node list" where
  "listNodes s = js_values (fb_nodes s)"

definition updateNodeHeartbeat :: "sysenv \<Rightarrow> string \<Rightarrow> 'a fabric_st_scheme \<Rightarrow> bool \<times> 'a fabric_st_scheme" where
  "updateNodeHeartbeat E nodeId s =
     (case js_get (fb_nodes s) nodeId of
        None \<Rightarrow> (False, s)
      | Some n \<Rightarrow>
          let (t, s1) = take_now E s
          in (True, s1\<lparr>fb_nodes := js_set nodeId (n\<lparr>fn_heartbeat := t, fn_status := NODE_ACTIVE\<rparr>) (fb_nodes s1)\<rparr>))"

definition suspendNode :: "sysenv \<Rightarrow> string \<Rightarrow> 'a fabric_st_scheme \<Rightarrow> bool \<times> 'a fabric_st_scheme" where
  "suspendNode E nodeId s =
     (case js_get (fb_nodes s) nodeId of
        None \<Rightarrow> (False, s)
      | Some n \<Rightarrow> (True, log_fabric E ''fabric-node-suspended'' [(''nodeId'', JStr nodeId)]
                          (s\<lparr>fb_nodes := js_set nodeId (n\<lparr>fn_status := NODE_SUSPENDED\<rparr>) (fb_nodes s)\<rparr>)))"

subsection \<open>Tasks\<close>

definition new_prong :: "string \<Rightarrow> string \<Rightarrow> json \<Rightarrow> nat \<Rightarrow> prong" where
  "new_prong taskId nodeId input i =
     \<lparr>pg_id = taskId @ ''-prong-'' @ show_nat i, pg_task = taskId, pg_node = nodeId, pg_index = i, pg_input = input,
      pg_output = JNull, pg_status = PRONG_PENDING, pg_time = 0, pg_lineage = ''genesis'', pg_error = None\<rparr>"

definition executeFabricTask ::
    "sysenv \<Rightarrow> os_facts \<Rightarrow> string \<Rightarrow> string \<Rightarrow> string \<Rightarrow> json \<Rightarrow> nat \<Rightarrow> 'a fabric_st_scheme \<Rightarrow>
     (string + fabric_task) \<times> 'a fabric_st_scheme" where
  "executeFabricTask E f taskId nodeId workloadClass input prongCount s =
     (case js_get (fb_nodes s) nodeId of
        None \<Rightarrow> (Inl (''Node '' @ nodeId @ '' not registered in fabric''), s)
      | Some n \<Rightarrow>
          if fn_status n = NODE_SUSPENDED then (Inl (''Node '' @ nodeId @ '' is suspended''), s)
          else
            let (au, s1) = authorizeCompute E f taskId nodeId workloadClass s
            in if \<not> ca_authorized au then (Inl (''Compute authorization denied for task '' @ taskId), s1)
               else
                 let (t, s2) = take_now E s1;
                     task = \<lparr>ft_id = taskId, ft_node = nodeId, ft_workload = workloadClass, ft_prongs = prongCount,
                             ft_auth = ca_id au, ft_status = TASK_PENDING, ft_provenance = ''genesis'', ft_started = t,
                             ft_completed = None, ft_result = JNull, ft_error = None\<rparr>;
                     s3 = log_fabric E ''fabric-task-created''
                            [(''taskId'', JStr taskId), (''nodeId'', JStr nodeId), (''workloadClass'', JStr workloadClass),
                             (''prongCount'', jnat prongCount), (''authId'', JStr (ca_id au))]
                            (s2\<lparr>fb_tasks := fb_tasks s2 @ [task]\<rparr>);
                     prongs = map (new_prong taskId nodeId input) [0..<prongCount];
                     running = task\<lparr>ft_status := TASK_RUNNING\<rparr>;
                     s4 = s3\<lparr>fb_prongs := fb_prongs s3 @ prongs, fb_tasks := butlast (fb_tasks s3) @ [running]\<rparr>
                 in (Inr running, log_fabric E ''fabric-task-prongs-launched''
                       [(''taskId'', JStr taskId), (''prongCount'', jnat prongCount), (''prongIds'', jstrs (map pg_id prongs))] s4))"

definition completeProng :: "sysenv \<Rightarrow> string \<Rightarrow> json \<Rightarrow> jsnum \<Rightarrow> 'a fabric_st_scheme \<Rightarrow> 'a fabric_st_scheme" where
  "completeProng E prongId output ms s =
     s\<lparr>fb_prongs := update_first (\<lambda>p. pg_id p = prongId)
        (\<lambda>p. p\<lparr>pg_output := output, pg_status := PRONG_DONE, pg_time := ms,
               pg_lineage := sha256 E (stringify (JObj [(''prongId'', JStr prongId), (''output'', output),
                 (''executionTimeMs'', JNum ms)]))\<rparr>) (fb_prongs s)\<rparr>"

definition failProng :: "string \<Rightarrow> string \<Rightarrow> 'a fabric_st_scheme \<Rightarrow> 'a fabric_st_scheme" where
  "failProng prongId e s =
     s\<lparr>fb_prongs := update_first (\<lambda>p. pg_id p = prongId) (\<lambda>p. p\<lparr>pg_status := PRONG_FAILED, pg_error := Some e\<rparr>) (fb_prongs s)\<rparr>"

definition getFabricTask :: "string \<Rightarrow> 'a fabric_st_scheme \<Rightarrow> fabric_task option" where
  "getFabricTask taskId s = List.find (\<lambda>t. ft_id t = taskId) (fb_tasks s)"

definition change_task :: "string \<Rightarrow> (fabric_task \<Rightarrow> fabric_task) \<Rightarrow> 'a fabric_st_scheme \<Rightarrow> 'a fabric_st_scheme" where
  "change_task taskId f s = s\<lparr>fb_tasks := update_first (\<lambda>t. ft_id t = taskId) f (fb_tasks s)\<rparr>"

definition completeFabricTask :: "sysenv \<Rightarrow> string \<Rightarrow> json \<Rightarrow> 'a fabric_st_scheme \<Rightarrow> 'a fabric_st_scheme" where
  "completeFabricTask E taskId result s =
     (case getFabricTask taskId s of
        None \<Rightarrow> s
      | Some _ \<Rightarrow>
          let (t, s1) = take_now E s
          in log_fabric E ''fabric-task-completed'' [(''taskId'', JStr taskId)]
               (change_task taskId (\<lambda>k. k\<lparr>ft_status := TASK_COMPLETED, ft_result := result, ft_completed := Some t\<rparr>) s1))"

definition failFabricTask :: "sysenv \<Rightarrow> string \<Rightarrow> string \<Rightarrow> 'a fabric_st_scheme \<Rightarrow> 'a fabric_st_scheme" where
  "failFabricTask E taskId e s =
     (case getFabricTask taskId s of
        None \<Rightarrow> s
      | Some _ \<Rightarrow>
          let (t, s1) = take_now E s
          in log_fabric E ''fabric-task-failed'' [(''taskId'', JStr taskId), (''error'', JStr e)]
               (change_task taskId (\<lambda>k. k\<lparr>ft_status := TASK_FAILED, ft_error := Some e, ft_completed := Some t\<rparr>) s1))"

definition listProngs :: "string option \<Rightarrow> 'a fabric_st_scheme \<Rightarrow> prong list" where
  "listProngs taskId s = (case taskId of
       Some t \<Rightarrow> if t \<noteq> [] then filter (\<lambda>p. pg_task p = t) (fb_prongs s) else fb_prongs s
     | None \<Rightarrow> fb_prongs s)"

definition revertFabricTask :: "sysenv \<Rightarrow> string \<Rightarrow> 'a fabric_st_scheme \<Rightarrow> bool \<times> 'a fabric_st_scheme" where
  "revertFabricTask E taskId s =
     (case getFabricTask taskId s of
        None \<Rightarrow> (False, s)
      | Some _ \<Rightarrow>
          let (t, s1) = take_now E s;
              s2 = change_task taskId (\<lambda>k. k\<lparr>ft_status := TASK_REVERTED, ft_completed := Some t\<rparr>) s1;
              n = length (filter (\<lambda>p. pg_task p = taskId) (fb_prongs s2));
              s3 = s2\<lparr>fb_prongs := map (\<lambda>p. if pg_task p = taskId then p\<lparr>pg_status := PRONG_PENDING, pg_output := JNull\<rparr> else p)
                       (fb_prongs s2)\<rparr>
          in (True, log_fabric E ''fabric-task-reverted'' [(''taskId'', JStr taskId), (''prongCount'', jnat n)] s3))"

definition listFabricTasks :: "'a fabric_st_scheme \<Rightarrow> fabric_task list" where
  "listFabricTasks s = fb_tasks s"

record fabric_status =
  fs_nodes :: nat
  fs_active :: nat
  fs_tasks :: nat
  fs_running :: nat
  fs_prongs :: nat
  fs_done :: nat
  fs_integrity :: bool

definition getFabricStatus :: "'a fabric_st_scheme \<Rightarrow> fabric_status" where
  "getFabricStatus s =
     \<lparr>fs_nodes = length (listNodes s), fs_active = length (filter (\<lambda>n. fn_status n = NODE_ACTIVE) (listNodes s)),
      fs_tasks = length (fb_tasks s), fs_running = length (filter (\<lambda>t. ft_status t = TASK_RUNNING) (fb_tasks s)),
      fs_prongs = length (fb_prongs s), fs_done = length (filter (\<lambda>p. pg_status p = PRONG_DONE) (fb_prongs s)),
      fs_integrity = True\<rparr>"

definition resetFabric :: "'a fabric_st_scheme \<Rightarrow> 'a fabric_st_scheme" where
  "resetFabric s = s\<lparr>fb_nodes := [], fb_tasks := [], fb_prongs := []\<rparr>"

subsection \<open>Runs\<close>

datatype fabric_event =
    Register string "string list" jsnum jsnum "jsnum option" string
  | Heartbeat string
  | Suspend string
  | ExecuteTask os_facts string string string json nat
  | CompleteProng string json jsnum
  | FailProng string string
  | CompleteTask string json
  | FailTask string string
  | RevertTask string
  | ResetFabric

primrec fabric_step :: "sysenv \<Rightarrow> fabric_event \<Rightarrow> 'a fabric_st_scheme \<Rightarrow> 'a fabric_st_scheme" where
  "fabric_step E (Register n cs c m g a) s = snd (registerNode E n cs c m g a s)"
| "fabric_step E (Heartbeat n) s = snd (updateNodeHeartbeat E n s)"
| "fabric_step E (Suspend n) s = snd (suspendNode E n s)"
| "fabric_step E (ExecuteTask f t n w i k) s = snd (executeFabricTask E f t n w i k s)"
| "fabric_step E (CompleteProng p j x) s = completeProng E p j x s"
| "fabric_step E (FailProng p e) s = failProng p e s"
| "fabric_step E (CompleteTask t j) s = completeFabricTask E t j s"
| "fabric_step E (FailTask t e) s = failFabricTask E t e s"
| "fabric_step E (RevertTask t) s = snd (revertFabricTask E t s)"
| "fabric_step E ResetFabric s = resetFabric s"

lemma fabric_frame [simp]:
  "fb_nodes (log_csr E tr d p i a s) = fb_nodes s" "fb_tasks (log_csr E tr d p i a s) = fb_tasks s"
  "fb_prongs (log_csr E tr d p i a s) = fb_prongs s" "compute_auths (log_csr E tr d p i a s) = compute_auths s"
  by (simp_all add: log_csr_update)

lemma fabric_receipt [simp]:
  "fb_nodes (snd (recordReceipt E a ch op s)) = fb_nodes s" "fb_tasks (snd (recordReceipt E a ch op s)) = fb_tasks s"
  "fb_prongs (snd (recordReceipt E a ch op s)) = fb_prongs s"
  using recordReceipt_effect [of E a ch op s] by (auto simp: appendToLedger_def ensureLoaded_def Let_def)

text \<open>An authorization is never denied: the governor approves every route.\<close>

lemma authorize_effect:
  "\<exists>au s1. authorizeCompute E f t n w s = (au, s1) \<and> ca_authorized au \<and> ca_task au = t \<and> ca_node au = n \<and>
     compute_auths s1 = compute_auths s @ [au] \<and> fb_nodes s1 = fb_nodes s \<and> fb_tasks s1 = fb_tasks s \<and> fb_prongs s1 = fb_prongs s"
  by (simp add: authorizeCompute_def routeCompute_def take_uuid_def take_now_def Let_def case_prod_beta)

lemma execute_effect:
  assumes "js_get (fb_nodes s) n = Some nd" and "fn_status nd \<noteq> NODE_SUSPENDED"
  shows "\<exists>au task s'. executeFabricTask E f t n w i k s = (Inr task, s') \<and> ca_authorized au \<and> ca_task au = t \<and> ca_node au = n \<and>
     compute_auths s' = compute_auths s @ [au] \<and> ft_auth task = ca_id au \<and> ft_id task = t \<and> ft_node task = n \<and>
     ft_prongs task = k \<and> ft_status task = TASK_RUNNING \<and> fb_nodes s' = fb_nodes s \<and> fb_tasks s' = fb_tasks s @ [task] \<and>
     fb_prongs s' = fb_prongs s @ map (new_prong t n i) [0..<k]"
proof -
  obtain au s1 where au: "authorizeCompute E f t n w s = (au, s1)" "ca_authorized au" "ca_task au = t" "ca_node au = n"
    "compute_auths s1 = compute_auths s @ [au]" "fb_nodes s1 = fb_nodes s" "fb_tasks s1 = fb_tasks s" "fb_prongs s1 = fb_prongs s"
    using authorize_effect [of E f t n w s] by blast
  with assms show ?thesis by (simp add: executeFabricTask_def take_now_def Let_def)
qed

lemma execute_refused: "executeFabricTask E f t n w i k s = (Inl e, s') \<Longrightarrow> s' = s"
  using authorize_effect [of E f t n w s] by (auto simp: executeFabricTask_def take_now_def Let_def split: option.splits if_splits)

definition task_authorized :: "compute_auth list \<Rightarrow> fabric_task \<Rightarrow> bool" where
  "task_authorized aus t \<longleftrightarrow> (\<exists>a\<in>set aus. ca_id a = ft_auth t \<and> ca_task a = ft_id t \<and> ca_node a = ft_node t \<and> ca_authorized a)"

definition prongs_of :: "string \<Rightarrow> 'a fabric_st_scheme \<Rightarrow> nat" where
  "prongs_of k s = length (filter (\<lambda>p. pg_task p = k) (fb_prongs s))"

definition prongs_due :: "string \<Rightarrow> fabric_task list \<Rightarrow> nat" where
  "prongs_due k ts = sum_list (map ft_prongs (filter (\<lambda>t. ft_id t = k) ts))"

definition fabric_ok :: "'a fabric_st_scheme \<Rightarrow> bool" where
  "fabric_ok s \<longleftrightarrow> list_all (task_authorized (compute_auths s)) (fb_tasks s) \<and> (\<forall>k. prongs_of k s = prongs_due k (fb_tasks s))"

lemma prongs_due_change:
  "(\<And>t. ft_id (f t) = ft_id t \<and> ft_prongs (f t) = ft_prongs t) \<Longrightarrow> prongs_due k (update_first p f ts) = prongs_due k ts"
  by (induction ts) (auto simp: prongs_due_def)

lemma count_update: "(\<And>p. pg_task (f p) = pg_task p) \<Longrightarrow>
    length (filter (\<lambda>p. pg_task p = k) (update_first q f ps)) = length (filter (\<lambda>p. pg_task p = k) ps)"
  by (induction ps) auto

lemma fabric_ok_prongs:
  "fabric_ok s \<Longrightarrow> (\<And>p. pg_task (f p) = pg_task p) \<Longrightarrow> fabric_ok (s\<lparr>fb_prongs := update_first q f (fb_prongs s)\<rparr>)"
  by (simp add: fabric_ok_def prongs_of_def count_update)

lemma fabric_ok_task:
  assumes "fabric_ok s" and "\<And>t. ft_id (f t) = ft_id t \<and> ft_prongs (f t) = ft_prongs t \<and> ft_auth (f t) = ft_auth t \<and> ft_node (f t) = ft_node t"
  shows "fabric_ok (change_task k f s)"
proof -
  have "list_all (task_authorized (compute_auths s)) (update_first p f (fb_tasks s))" for p
    by (rule list_all_update_first) (use assms in \<open>simp_all add: fabric_ok_def task_authorized_def\<close>)
  then show ?thesis using assms by (simp add: fabric_ok_def change_task_def prongs_of_def prongs_due_change)
qed

lemma fabric_ok_irrelevant [simp]:
  "fabric_ok (s\<lparr>tick := n\<rparr>) = fabric_ok s" "fabric_ok (s\<lparr>fb_nodes := ns\<rparr>) = fabric_ok s"
  "fabric_ok (log_csr E tr d p i a s) = fabric_ok s"
  by (simp_all add: fabric_ok_def prongs_of_def)

lemma execute_task_ok: "fabric_ok s \<Longrightarrow> fabric_ok (snd (executeFabricTask E f t n w i k s))"
proof (cases "\<exists>nd. js_get (fb_nodes s) n = Some nd \<and> fn_status nd \<noteq> NODE_SUSPENDED")
  case True
  assume ok: "fabric_ok s"
  from True obtain au task s' where e: "executeFabricTask E f t n w i k s = (Inr task, s')" "ca_authorized au" "ca_task au = t" "ca_node au = n"
    "compute_auths s' = compute_auths s @ [au]" "ft_auth task = ca_id au" "ft_id task = t" "ft_node task = n" "ft_prongs task = k"
    "fb_tasks s' = fb_tasks s @ [task]" "fb_prongs s' = fb_prongs s @ map (new_prong t n i) [0..<k]"
    using execute_effect by metis
  have "list_all (task_authorized (compute_auths s @ [au])) (fb_tasks s)"
    using ok by (auto simp: fabric_ok_def task_authorized_def list_all_iff)
  moreover have "length (filter (\<lambda>p. pg_task p = x) (map (new_prong t n i) [0..<k])) = (if x = t then k else 0)" for x
    by (simp add: filter_map o_def new_prong_def)
  ultimately show ?thesis using ok e by (simp add: fabric_ok_def task_authorized_def prongs_of_def prongs_due_def)
next
  case False
  then show "fabric_ok s \<Longrightarrow> ?thesis" by (auto simp: executeFabricTask_def split: option.split)
qed

lemma fabric_step_ok: "fabric_ok s \<Longrightarrow> fabric_ok (fabric_step E e s)"
proof (cases e)
  case (RevertTask t)
  have "(\<lambda>p :: prong. pg_task p = k) \<circ> (\<lambda>p. if pg_task p = t then p\<lparr>pg_status := PRONG_PENDING, pg_output := JNull\<rparr> else p) =
      (\<lambda>p. pg_task p = k)" for k
    by (auto simp: fun_eq_iff)
  moreover assume "fabric_ok s"
  ultimately show ?thesis using RevertTask fabric_ok_task [of "s\<lparr>tick := Suc (tick s)\<rparr>"]
    by (auto simp: revertFabricTask_def take_now_def Let_def fabric_ok_def prongs_of_def change_task_def filter_map split: option.split)
next
  case ResetFabric
  then show ?thesis by (simp add: resetFabric_def fabric_ok_def prongs_of_def prongs_due_def)
qed (auto simp: execute_task_ok registerNode_def updateNodeHeartbeat_def suspendNode_def completeProng_def failProng_def completeFabricTask_def
    failFabricTask_def take_uuid_def take_now_def Let_def resetFabric_def
    intro!: fabric_ok_prongs fabric_ok_task split: option.split)

interpretation fabric: machine "fabric_step E" fabric_ok
  by unfold_locales (rule fabric_step_ok)

definition init_fabric :: fabric_st where
  "init_fabric = kernel_st.extend init_kernel \<lparr>fb_nodes = [], fb_tasks = [], fb_prongs = []\<rparr>"

lemma init_fabric_fields [simp]: "fb_nodes init_fabric = []" "fb_tasks init_fabric = []" "fb_prongs init_fabric = []"
  "compute_auths init_fabric = []"
  by (simp_all add: init_fabric_def kernel_st.defs init_kernel_def)

lemma init_fabric_ok: "fabric_ok init_fabric"
  by (simp add: fabric_ok_def prongs_of_def prongs_due_def)

subsection \<open>Properties\<close>

text \<open>C20. Every task runs under an authorization of the kernel for it, and is split as asked: after any run
  each task carries the identifier of a granted authorization for that task on that node, and as
  many prongs are stored under a task's name as its executions asked for. A task is accepted
  exactly when its node is registered and not suspended (the kernel denies none). A suspension
  does not last: the node's next heartbeat makes it active, and the task is accepted again.\<close>

theorem fabric_tasks_authorized:
  assumes "s = fold (fabric_step E) es init_fabric"
  shows "(\<forall>t\<in>set (listFabricTasks s). \<exists>a\<in>set (compute_auths s). ca_id a = ft_auth t \<and> ca_task a = ft_id t \<and>
       ca_node a = ft_node t \<and> ca_authorized a) \<and>
     (\<forall>k. k \<noteq> [] \<longrightarrow> length (listProngs (Some k) s) = sum_list (map ft_prongs (filter (\<lambda>t. ft_id t = k) (listFabricTasks s)))) \<and>
     (\<forall>f t n w i k. (\<exists>task. fst (executeFabricTask E f t n w i k s) = Inr task) \<longleftrightarrow>
       (\<exists>nd. getNode n s = Some nd \<and> fn_status nd \<noteq> NODE_SUSPENDED)) \<and>
     (\<forall>f t n w i k. getNode n s \<noteq> None \<longrightarrow>
       fst (executeFabricTask E f t n w i k (snd (suspendNode E n s))) = Inl (''Node '' @ n @ '' is suspended'') \<and>
       (\<exists>task. fst (executeFabricTask E f t n w i k (snd (updateNodeHeartbeat E n (snd (suspendNode E n s))))) = Inr task))"
proof (intro conjI allI impI)
  have ok: "fabric_ok s" using fabric.run_inv [OF init_fabric_ok] by (simp add: assms)
  then show "\<forall>t\<in>set (listFabricTasks s). \<exists>a\<in>set (compute_auths s). ca_id a = ft_auth t \<and> ca_task a = ft_id t \<and>
       ca_node a = ft_node t \<and> ca_authorized a"
    by (simp add: fabric_ok_def list_all_iff task_authorized_def listFabricTasks_def)
  fix k :: string
  assume "k \<noteq> []"
  then show "length (listProngs (Some k) s) = sum_list (map ft_prongs (filter (\<lambda>t. ft_id t = k) (listFabricTasks s)))"
    using ok by (simp add: fabric_ok_def prongs_of_def prongs_due_def listProngs_def listFabricTasks_def)
next
  fix f t n w i k
  show "(\<exists>task. fst (executeFabricTask E f t n w i k s) = Inr task) \<longleftrightarrow> (\<exists>nd. getNode n s = Some nd \<and> fn_status nd \<noteq> NODE_SUSPENDED)"
    using execute_effect [of s n _ E f t w i k] by (fastforce simp: getNode_def executeFabricTask_def split: option.splits if_splits)
next
  fix f t n w i k
  assume "getNode n s \<noteq> None"
  then obtain nd where "js_get (fb_nodes s) n = Some nd" by (auto simp: getNode_def)
  then show "fst (executeFabricTask E f t n w i k (snd (suspendNode E n s))) = Inl (''Node '' @ n @ '' is suspended'')"
    by (simp add: executeFabricTask_def suspendNode_def)
next
  fix f t n w i k
  assume "getNode n s \<noteq> None"
  then obtain nd where "js_get (fb_nodes s) n = Some nd" by (auto simp: getNode_def)
  then have "\<exists>nd'. js_get (fb_nodes (snd (updateNodeHeartbeat E n (snd (suspendNode E n s))))) n = Some nd' \<and> fn_status nd' \<noteq> NODE_SUSPENDED"
    by (simp add: updateNodeHeartbeat_def suspendNode_def take_now_def Let_def)
  then show "\<exists>task. fst (executeFabricTask E f t n w i k (snd (updateNodeHeartbeat E n (snd (suspendNode E n s))))) = Inr task"
    using execute_effect by (metis fst_conv)
qed

definition demo_facts :: os_facts where
  "demo_facts = \<lparr>os_platform = ''linux'', os_arch = ''x64'', os_cpus = [''c''], os_totalmem = 8, os_freemem = 4,
     os_nvidia = None, os_amd = None, os_apple = None, os_directml = False\<rparr>"

theorem fabric_tasks_authorized_witness:
  "fst (executeFabricTask demo_env demo_facts ''t'' [] ''w'' JNull 2 (snd (suspendNode demo_env []
       (fold (fabric_step demo_env) [Register ''n'' [] 4 8 None ''a''] init_fabric)))) = Inl ''Node  is suspended'' \<and>
   (\<exists>task. fst (executeFabricTask demo_env demo_facts ''t'' [] ''w'' JNull 2 (snd (updateNodeHeartbeat demo_env [] (snd (suspendNode demo_env []
       (fold (fabric_step demo_env) [Register ''n'' [] 4 8 None ''a''] init_fabric)))))) = Inr task)"
proof -
  let ?s = "fold (fabric_step demo_env) [Register ''n'' [] 4 8 None ''a''] init_fabric"
  have "tick init_fabric = 0" by (simp add: init_fabric_def kernel_st.defs init_kernel_def)
  then have "getNode [] ?s \<noteq> None"
    by (simp add: registerNode_def take_uuid_def take_now_def Let_def getNode_def)
  with fabric_tasks_authorized [OF refl, of demo_env "[Register ''n'' [] 4 8 None ''a'']"] show ?thesis by simp
qed

end
