(* ===== verification/ModelRouter.thy ===== *)
theory ModelRouter
  imports GovLedger HardwareRouter
begin

text \<open>
  The choice of a language model (\<open>src/model/router.ts\<close>, \<open>configFromEnv\<close> of
  \<open>src/model/llmClient.ts\<close>): the configuration the process environment gives, a profile per kind of
  task with its fallbacks, and \<open>selectModel\<close>, which records a receipt of every selection. The
  process environment is a parameter; the two numeric variables are given as JavaScript's
  \<open>Number\<close> reads them, absent for what is not a number.
\<close>

record process_env =
  ev_var :: "string \<Rightarrow> string option"
  ev_number :: "string \<Rightarrow> jsnum option"

record llm_config =
  lc_provider :: string
  lc_endpoint :: string
  lc_model :: string
  lc_key :: "string option"
  lc_maxTokens :: jsnum
  lc_temperature :: jsnum

subsection \<open>The configuration of the environment\<close>

definition PROVIDER_API_KEY_ENV :: "(string \<times> string) list" where
  "PROVIDER_API_KEY_ENV =
     [(''openai'', ''LLM_API_KEY''), (''gemini'', ''GEMINI_API_KEY''), (''groq'', ''GROQ_API_KEY''),
      (''deepseek'', ''DEEPSEEK_API_KEY''), (''huggingface'', ''HF_API_KEY''), (''openrouter'', ''OPENROUTER_API_KEY''),
      (''mistral'', ''MISTRAL_API_KEY''), (''nvidia'', ''NVIDIA_API_KEY''), (''together'', ''TOGETHER_API_KEY''),
      (''github'', ''GITHUB_TOKEN'')]"

definition PROVIDER_ENDPOINTS :: "(string \<times> string) list" where
  "PROVIDER_ENDPOINTS =
     [(''openai'', ''https://api.openai.com/v1''), (''ollama'', ''http://localhost:11434''),
      (''gemini'', ''https://generativelanguage.googleapis.com''), (''groq'', ''https://api.groq.com/openai/v1''),
      (''deepseek'', ''https://api.deepseek.com/v1''), (''huggingface'', ''https://api-inference.huggingface.co''),
      (''openrouter'', ''https://openrouter.ai/api/v1''), (''mistral'', ''https://api.mistral.ai/v1''),
      (''nvidia'', ''https://integrate.api.nvidia.com/v1''), (''together'', ''https://api.together.xyz/v1''),
      (''github'', ''https://models.inference.ai.azure.com'')]"

definition PROVIDER_DEFAULT_MODELS :: "(string \<times> string) list" where
  "PROVIDER_DEFAULT_MODELS =
     [(''openai'', ''gpt-4o''), (''ollama'', ''codellama:7b''), (''gemini'', ''gemini-2.0-flash''),
      (''groq'', ''mixtral-8x7b-32768''), (''deepseek'', ''deepseek-chat''),
      (''huggingface'', ''HuggingFaceH4/zephyr-7b-beta''), (''openrouter'', ''meta-llama/llama-3.1-70b-instruct:free''),
      (''mistral'', ''mistral-small-latest''), (''custom'', ''custom-model''), (''nvidia'', ''meta/llama-3.1-8b-instruct''),
      (''together'', ''meta-llama/Llama-3.3-70B-Instruct-Turbo''), (''github'', ''gpt-4o-mini'')]"

text \<open>The valid names in the order of \<open>sort\<close>.\<close>

definition SORTED_PROVIDERS :: "string list" where
  "SORTED_PROVIDERS = [''custom'', ''deepseek'', ''gemini'', ''github'', ''groq'', ''huggingface'', ''mistral'', ''nvidia'',
     ''ollama'', ''openai'', ''openrouter'', ''together'']"

definition or_else :: "'a option \<Rightarrow> 'a \<Rightarrow> 'a" where
  "or_else x d = (case x of Some v \<Rightarrow> v | None \<Rightarrow> d)"

definition number_or :: "jsnum option \<Rightarrow> jsnum \<Rightarrow> jsnum" where
  "number_or x d = (case x of Some v \<Rightarrow> if v = 0 then d else v | None \<Rightarrow> d)"

definition configFromEnv :: "process_env \<Rightarrow> string + llm_config" where
  "configFromEnv V =
     (let raw = or_else (ev_var V ''LLM_PROVIDER'') ''ollama''
      in if js_get PROVIDER_DEFAULT_MODELS raw = None
         then Inl (''Invalid LLM_PROVIDER '' @ [CHR 0x22] @ raw @ [CHR 0x22] @ ''. Must be one of: '' @ join '', '' SORTED_PROVIDERS)
         else
           let apiKey = (case ev_var V (or_else (js_get PROVIDER_API_KEY_ENV raw) ''undefined'') of
                           Some k \<Rightarrow> Some k | None \<Rightarrow> ev_var V ''LLM_API_KEY'')
           in Inr \<lparr>lc_provider = raw,
                   lc_endpoint = or_else (ev_var V ''LLM_ENDPOINT'') (or_else (js_get PROVIDER_ENDPOINTS raw) ''http://localhost:11434''),
                   lc_model = or_else (ev_var V ''LLM_MODEL'') (or_else (js_get PROVIDER_DEFAULT_MODELS raw) ''codellama:7b''),
                   lc_key = apiKey, lc_maxTokens = number_or (ev_number V ''LLM_MAX_TOKENS'') 2048,
                   lc_temperature = number_or (ev_number V ''LLM_TEMPERATURE'') (dec 2 10)\<rparr>)"

subsection \<open>Task profiles\<close>

datatype task_type = T_code | T_plan | T_debug | T_validate | T_chat | T_analyze | T_complete | T_embed | T_test
  | T_refactor | T_explain | T_review

definition task_name :: "task_type \<Rightarrow> string" where
  "task_name t = (case t of T_code \<Rightarrow> ''code'' | T_plan \<Rightarrow> ''plan'' | T_debug \<Rightarrow> ''debug'' | T_validate \<Rightarrow> ''validate''
     | T_chat \<Rightarrow> ''chat'' | T_analyze \<Rightarrow> ''analyze'' | T_complete \<Rightarrow> ''complete'' | T_embed \<Rightarrow> ''embed'' | T_test \<Rightarrow> ''test''
     | T_refactor \<Rightarrow> ''refactor'' | T_explain \<Rightarrow> ''explain'' | T_review \<Rightarrow> ''review'')"

record task_info =
  tp_label :: string
  tp_model :: string
  tp_provider :: string
  tp_temperature :: jsnum
  tp_maxTokens :: jsnum
  tp_freeTier :: bool
  tp_preferFree :: bool
  tp_fallbacks :: "(string \<times> string) list"

definition mk_profile ::
    "string \<Rightarrow> string \<Rightarrow> string \<Rightarrow> jsnum \<Rightarrow> jsnum \<Rightarrow> bool \<Rightarrow> bool \<Rightarrow> (string \<times> string) list \<Rightarrow> task_info" where
  "mk_profile label model prov temp tokens fr pf fb =
     \<lparr>tp_label = label, tp_model = model, tp_provider = prov, tp_temperature = temp, tp_maxTokens = tokens,
      tp_freeTier = fr, tp_preferFree = pf, tp_fallbacks = fb\<rparr>"

primrec task_profile :: "task_type \<Rightarrow> task_info" where
  "task_profile T_code = mk_profile ''Code generation'' ''deepseek-chat'' ''deepseek'' (dec 1 10) 4096 True True
       [(''groq'', ''mixtral-8x7b-32768''), (''together'', ''meta-llama/Llama-3.3-70B-Instruct-Turbo''),
        (''github'', ''gpt-4o-mini''), (''nvidia'', ''meta/llama-3.1-8b-instruct''),
        (''gemini'', ''gemini-2.0-flash''), (''openrouter'', ''meta-llama/llama-3.1-70b-instruct:free'')]"
| "task_profile T_plan = mk_profile ''Architectural planning'' ''gemini-2.0-flash'' ''gemini'' (dec 2 10) 8192 True True
       [(''deepseek'', ''deepseek-chat''), (''openrouter'', ''meta-llama/llama-3.1-70b-instruct:free''),
        (''together'', ''Qwen/Qwen2.5-72B-Instruct-Turbo''), (''groq'', ''mixtral-8x7b-32768'')]"
| "task_profile T_debug = mk_profile ''Debugging / error analysis'' ''deepseek-chat'' ''deepseek'' (dec 5 100) 4096 True True
       [(''gemini'', ''gemini-2.0-flash''), (''groq'', ''llama3-70b-8192''),
        (''together'', ''meta-llama/Llama-3.3-70B-Instruct-Turbo''), (''nvidia'', ''nvidia/llama-3.1-nemotron-70b-instruct'')]"
| "task_profile T_validate = mk_profile ''Invariant / conformance validation'' ''gemini-2.0-flash'' ''gemini'' (dec 5 100) 2048 True True
       [(''deepseek'', ''deepseek-chat''), (''together'', ''meta-llama/Llama-3.3-70B-Instruct-Turbo''),
        (''groq'', ''llama3-70b-8192'')]"
| "task_profile T_chat = mk_profile ''General conversation'' ''gemini-2.0-flash'' ''gemini'' (dec 7 10) 2048 True True
       [(''groq'', ''mixtral-8x7b-32768''), (''deepseek'', ''deepseek-chat''),
        (''github'', ''gpt-4o-mini''), (''together'', ''meta-llama/Llama-3.3-70B-Instruct-Turbo''),
        (''nvidia'', ''mistralai/mistral-nemo-12b-instruct'')]"
| "task_profile T_analyze = mk_profile ''Code review / static analysis'' ''deepseek-chat'' ''deepseek'' (dec 1 10) 4096 True True
       [(''gemini'', ''gemini-2.0-flash''), (''together'', ''Qwen/Qwen2.5-72B-Instruct-Turbo''),
        (''groq'', ''llama3-70b-8192'')]"
| "task_profile T_complete = mk_profile ''Inline completion'' ''deepseek-chat'' ''deepseek'' (dec 5 100) 512 True True
       [(''groq'', ''mixtral-8x7b-32768''), (''together'', ''meta-llama/Llama-3.3-70B-Instruct-Turbo''),
        (''gemini'', ''gemini-2.0-flash''), (''nvidia'', ''meta/llama-3.1-8b-instruct'')]"
| "task_profile T_embed = mk_profile ''Embedding generation'' ''text-embedding-ada-002'' ''openai'' (dec 0 10) 0 False False
       []"
| "task_profile T_test = mk_profile ''Test generation'' ''deepseek-chat'' ''deepseek'' (dec 2 10) 4096 True True
       [(''gemini'', ''gemini-2.0-flash''), (''together'', ''meta-llama/Llama-3.3-70B-Instruct-Turbo''),
        (''groq'', ''mixtral-8x7b-32768''), (''github'', ''gpt-4o-mini''),
        (''nvidia'', ''mistralai/mistral-nemo-12b-instruct'')]"
| "task_profile T_refactor = mk_profile ''Code refactoring'' ''deepseek-chat'' ''deepseek'' (dec 15 100) 4096 True True
       [(''gemini'', ''gemini-2.0-flash''), (''together'', ''Qwen/Qwen2.5-72B-Instruct-Turbo''),
        (''groq'', ''mixtral-8x7b-32768''), (''github'', ''gpt-4o-mini'')]"
| "task_profile T_explain = mk_profile ''Code explanation'' ''gemini-2.0-flash'' ''gemini'' (dec 3 10) 2048 True True
       [(''deepseek'', ''deepseek-chat''), (''together'', ''meta-llama/Llama-3.3-70B-Instruct-Turbo''),
        (''github'', ''gpt-4o-mini''), (''groq'', ''llama3-70b-8192'')]"
| "task_profile T_review = mk_profile ''Constitutional review'' ''gemini-2.0-flash'' ''gemini'' (dec 1 10) 4096 True True
       [(''deepseek'', ''deepseek-chat''), (''together'', ''meta-llama/Llama-3.3-70B-Instruct-Turbo''),
        (''github'', ''gpt-4o-mini''), (''groq'', ''llama3-70b-8192'')]"

definition all_tasks :: "task_type list" where
  "all_tasks = [T_code, T_plan, T_debug, T_validate, T_chat, T_analyze, T_complete, T_embed, T_test, T_refactor, T_explain, T_review]"

definition listTaskProfiles :: "(task_type \<times> task_info) list" where
  "listTaskProfiles = map (\<lambda>t. (t, task_profile t)) all_tasks"

subsection \<open>Selection\<close>

record select_options =
  so_preferFree :: "bool option"
  so_overrides :: "task_type \<Rightarrow> (string option \<times> string option) option"
  so_operator :: "string option"

record router_st = gov_st +
  last_selection :: "receipt option"

definition getLastModelSelectionReceipt :: "'a router_st_scheme \<Rightarrow> receipt option" where
  "getLastModelSelectionReceipt s = last_selection s"

definition selection_action ::
    "string \<Rightarrow> task_type \<Rightarrow> string \<Rightarrow> string \<Rightarrow> jsnum \<Rightarrow> jsnum \<Rightarrow> bool \<Rightarrow> action" where
  "selection_action operatorId task prov model temp tokens preferFree =
     \<lparr>a_type = ''model-select'',
      a_payload = [(''operatorId'', JStr operatorId), (''task'', JStr (task_name task)), (''provider'', JStr prov),
        (''model'', JStr model), (''temperature'', JNum temp), (''maxTokens'', JNum tokens), (''preferFree'', JBool preferFree)]\<rparr>"

definition emitModelSelectionReceipt ::
    "sysenv \<Rightarrow> string \<Rightarrow> task_type \<Rightarrow> string \<Rightarrow> string \<Rightarrow> jsnum \<Rightarrow> jsnum \<Rightarrow> bool \<Rightarrow> 'a router_st_scheme \<Rightarrow>
     receipt \<times> 'a router_st_scheme" where
  "emitModelSelectionReceipt E operatorId task prov model temp tokens preferFree s =
     (let (r, s1) = recordReceipt E (selection_action operatorId task prov model temp tokens preferFree)
            [''model-selection'', ''E10''] \<lparr>ro_blocked = None, ro_reason = None, ro_level = Some ''A1'', ro_crk1 = None\<rparr> s
      in (r, s1\<lparr>last_selection := Some r\<rparr>))"

text \<open>A variable that is absent or empty is no key.\<close>

definition hasApiKeyFor :: "process_env \<Rightarrow> string \<Rightarrow> bool" where
  "hasApiKeyFor V prov =
     (case Option.bind (js_get PROVIDER_API_KEY_ENV prov) (ev_var V) of None \<Rightarrow> False | Some k \<Rightarrow> k \<noteq> [])"

text \<open>The candidates: the environment's provider when it is the profile's own, with the environment's
  model; then the profile and its fallbacks, each provider once.\<close>

fun add_candidates :: "(string \<times> string) list \<Rightarrow> (string \<times> string) list \<Rightarrow> (string \<times> string) list" where
  "add_candidates acc [] = acc"
| "add_candidates acc (c # cs) =
     (if list_ex (\<lambda>x. fst x = fst c) acc then add_candidates acc cs else add_candidates (acc @ [c]) cs)"

definition candidates :: "llm_config \<Rightarrow> task_info \<Rightarrow> (string \<times> string) list" where
  "candidates d p = add_candidates (if lc_provider d = tp_provider p then [(lc_provider d, lc_model d)] else [])
     ((tp_provider p, tp_model p) # tp_fallbacks p)"

definition usable :: "process_env \<Rightarrow> task_info \<Rightarrow> bool \<Rightarrow> string \<times> string \<Rightarrow> bool" where
  "usable V p preferFree c \<longleftrightarrow>
     (hasApiKeyFor V (fst c) \<or> fst c = ''ollama'' \<or> fst c = ''custom'') \<and>
     \<not> (preferFree \<and> \<not> tp_freeTier p \<and> fst c \<noteq> tp_provider p \<and> \<not> tp_freeTier p)"

definition given_str :: "string option \<Rightarrow> bool" where
  "given_str x \<longleftrightarrow> x \<noteq> None \<and> x \<noteq> Some []"

text \<open>The provider and model chosen.\<close>

definition choice :: "process_env \<Rightarrow> task_type \<Rightarrow> select_options \<Rightarrow> llm_config \<Rightarrow> bool \<Rightarrow> string \<times> string" where
  "choice V task opts d preferFree =
     (let p = task_profile task
      in case so_overrides opts task of
           Some (op, om) \<Rightarrow>
             if given_str op \<or> given_str om then (or_else op (tp_provider p), or_else om (tp_model p))
             else (case List.find (usable V p preferFree) (candidates d p) of
                     Some c \<Rightarrow> c | None \<Rightarrow> (lc_provider d, lc_model d))
         | None \<Rightarrow> (case List.find (usable V p preferFree) (candidates d p) of
                     Some c \<Rightarrow> c | None \<Rightarrow> (lc_provider d, lc_model d)))"

definition selectModel ::
    "sysenv \<Rightarrow> process_env \<Rightarrow> task_type \<Rightarrow> select_options \<Rightarrow> 'a router_st_scheme \<Rightarrow>
     (string + llm_config) \<times> 'a router_st_scheme" where
  "selectModel E V task opts s =
     (case configFromEnv V of
        Inl e \<Rightarrow> (Inl e, s)
      | Inr d \<Rightarrow>
          let p = task_profile task;
              operatorId = or_else (so_operator opts) (or_else (ev_var V ''NOVA_OPERATOR_ID'') ''llm-router'');
              preferFree = or_else (so_preferFree opts) (tp_preferFree p);
              (prov, model) = choice V task opts d preferFree;
              (_, s1) = emitModelSelectionReceipt E operatorId task prov model (tp_temperature p) (tp_maxTokens p) preferFree s
          in (Inr (d\<lparr>lc_provider := prov, lc_model := model, lc_temperature := tp_temperature p, lc_maxTokens := tp_maxTokens p\<rparr>), s1))"

text \<open>The hardware line and the table shown to the operator; a check mark is three bytes.\<close>

definition getHardwareRecommendation :: "os_facts \<Rightarrow> string" where
  "getHardwareRecommendation f =
     (let hw = probeHardware f
      in join [CHR 0x0A]
           [''Platform: '' @ hw_platform hw @ '' ('' @ hw_arch hw @ '')'', ''CPU: '' @ show_nat (hw_cpuCores hw) @ '' cores'',
            ''RAM: '' @ num_str (hw_totalMemoryGB hw) @ ''GB total, '' @ num_str (hw_freeMemoryGB hw) @ ''GB free'',
            (if hw_hasGPU hw then ''GPU: '' @ or_else (hw_gpuVendor hw) ''null'' @ '' ('' @
               (case hw_gpuMemoryGB hw of None \<Rightarrow> ''null'' | Some m \<Rightarrow> num_str m) @ ''GB VRAM)'' else ''GPU: none detected''),
            ''LLM backend suggestion: '' @ suggestLLMBackend hw])"

definition task_row :: "task_type \<times> task_info \<Rightarrow> string" where
  "task_row = (\<lambda>(t, p). ''| '' @ pad_right 16 (task_name t) @ '' | '' @ pad_right 14 (tp_provider p) @ '' | '' @
     pad_right 30 (tp_model p) @ '' | '' @ pad_left 5 (CHR '' '') (to_fixed 2 (tp_temperature p)) @ '' | '' @
     pad_left 6 (CHR '' '') (num_str (tp_maxTokens p)) @ '' | '' @
     (if tp_freeTier p then ''  '' @ [CHR 0xE2, CHR 0x9C, CHR 0x93] @ ''  '' else ''     '') @ '' |'')"

definition formatTaskTable :: string where
  "formatTaskTable =
     (let header = ''| Task             | Provider       | Model                          | Temp  | Tokens | Free |'';
          sep = ''|------------------|----------------|--------------------------------|-------|--------|------|''
      in join [CHR 0x0A] ([header, sep] @ map task_row listTaskProfiles @ [sep]))"

subsection \<open>Properties\<close>

text \<open>No provider occurs twice in a profile, so the candidates are the profile's own provider and its
  fallbacks, in their order.\<close>

lemma candidates_eq:
  "candidates d (task_profile t) =
     (tp_provider (task_profile t), if lc_provider d = tp_provider (task_profile t) then lc_model d else tp_model (task_profile t)) #
     tp_fallbacks (task_profile t)"
  by (cases t) (simp_all add: candidates_def mk_profile_def)

lemma free_or_alone: "tp_freeTier (task_profile t) \<or> tp_fallbacks (task_profile t) = []"
  by (cases t) (simp_all add: mk_profile_def)

lemma find_usable:
  "List.find (usable V (task_profile t) b) (candidates d (task_profile t)) =
   List.find (\<lambda>c. hasApiKeyFor V (fst c) \<or> fst c \<in> {''ollama'', ''custom''}) (candidates d (task_profile t))"
proof (rule find_cong)
  fix c
  assume "c \<in> set (candidates d (task_profile t))"
  with free_or_alone [of t] have "tp_freeTier (task_profile t) \<or> fst c = tp_provider (task_profile t)"
    by (auto simp: candidates_eq)
  then show "usable V (task_profile t) b c \<longleftrightarrow> hasApiKeyFor V (fst c) \<or> fst c \<in> {''ollama'', ''custom''}"
    by (auto simp: usable_def)
qed simp

lemma emit_effect:
  "\<exists>r s'. emitModelSelectionReceipt E op t pr m x y b s = (r, s') \<and> g_action r = selection_action op t pr m x y b \<and>
     receipts s' = receipts s @ [r] \<and> last_selection s' = Some r"
proof -
  let ?a = "selection_action op t pr m x y b" and ?ch = "[''model-selection'', ''E10'']"
    and ?o = "\<lparr>ro_blocked = None, ro_reason = None, ro_level = Some ''A1'', ro_crk1 = None\<rparr>"
  obtain r s1 where r: "recordReceipt E ?a ?ch ?o s = (r, s1)" by fastforce
  with recordReceipt_simps(1) [of E ?a ?ch ?o s] recordReceipt_effect [of E ?a ?ch ?o s]
  have "receipts s1 = receipts s @ [r]" "g_action r = ?a" by auto
  with r show ?thesis by (simp add: emitModelSelectionReceipt_def receipts_def ensureLoaded_def split: if_splits)
qed

text \<open>What \<open>selectModel\<close> chooses when the task has no override: the first of the task's own provider and its
  fallbacks, in the profile's order, that has a key in the environment or needs none, else the
  environment's configuration; the environment's provider is favoured only when it is the task's own. The
  preference for free providers has no influence. Exactly one receipt names what was chosen. The
  endpoint and the key of the result are those of the environment's provider, whatever provider was
  chosen.\<close>

theorem model_selection_spec:
  assumes "configFromEnv V = Inr d" and "so_overrides opts task = None"
    and "p = task_profile task"
  shows "\<exists>cfg s' r. selectModel E V task opts s = (Inr cfg, s') \<and>
     (lc_provider cfg, lc_model cfg) =
       (case List.find (\<lambda>c. hasApiKeyFor V (fst c) \<or> fst c \<in> {''ollama'', ''custom''})
          ((tp_provider p, if lc_provider d = tp_provider p then lc_model d else tp_model p) # tp_fallbacks p) of
          Some c \<Rightarrow> c | None \<Rightarrow> (lc_provider d, lc_model d)) \<and>
     lc_temperature cfg = tp_temperature p \<and> lc_maxTokens cfg = tp_maxTokens p \<and>
     lc_endpoint cfg = lc_endpoint d \<and> lc_key cfg = lc_key d \<and>
     receipts s' = receipts s @ [r] \<and> getLastModelSelectionReceipt s' = Some r \<and> a_type (g_action r) = ''model-select'' \<and>
     js_get (a_payload (g_action r)) ''provider'' = Some (JStr (lc_provider cfg)) \<and>
     js_get (a_payload (g_action r)) ''model'' = Some (JStr (lc_model cfg)) \<and>
     (\<forall>b. fst (selectModel E V task (opts\<lparr>so_preferFree := b\<rparr>) s) = Inr cfg)"
proof -
  let ?c = "case List.find (\<lambda>c. hasApiKeyFor V (fst c) \<or> fst c \<in> {''ollama'', ''custom''}) (candidates d p) of
          Some c \<Rightarrow> c | None \<Rightarrow> (lc_provider d, lc_model d)"
  have ch: "choice V task (opts\<lparr>so_preferFree := b\<rparr>) d f = ?c" "choice V task opts d f = ?c" for b f
    using assms(2) by (simp_all add: choice_def find_usable assms(3) Let_def)
  obtain pr m where pm: "?c = (pr, m)" by fastforce
  have ch: "choice V task (opts\<lparr>so_preferFree := b\<rparr>) d f = (pr, m)" "choice V task opts d f = (pr, m)" for b f
    using ch pm by simp_all
  let ?cfg = "d\<lparr>lc_provider := pr, lc_model := m, lc_temperature := tp_temperature p, lc_maxTokens := tp_maxTokens p\<rparr>"
  let ?op = "or_else (so_operator opts) (or_else (ev_var V ''NOVA_OPERATOR_ID'') ''llm-router'')"
    and ?pf = "or_else (so_preferFree opts) (tp_preferFree p)"
  obtain r s' where e: "emitModelSelectionReceipt E ?op task pr m (tp_temperature p) (tp_maxTokens p) ?pf s = (r, s')"
    "g_action r = selection_action ?op task pr m (tp_temperature p) (tp_maxTokens p) ?pf"
    "receipts s' = receipts s @ [r]" "last_selection s' = Some r" using emit_effect by metis
  then have sel: "selectModel E V task opts s = (Inr ?cfg, s')"
    by (simp add: selectModel_def assms(1) ch Let_def flip: assms(3))
  have "fst (selectModel E V task (opts\<lparr>so_preferFree := b\<rparr>) s) = Inr ?cfg" for b
    by (simp add: selectModel_def assms(1) ch Let_def case_prod_beta flip: assms(3))
  note pf = this
  have "(lc_provider ?cfg, lc_model ?cfg) = (pr, m)" by simp
  also have "\<dots> = (case List.find (\<lambda>c. hasApiKeyFor V (fst c) \<or> fst c \<in> {''ollama'', ''custom''})
          ((tp_provider p, if lc_provider d = tp_provider p then lc_model d else tp_model p) # tp_fallbacks p) of
          Some c \<Rightarrow> c | None \<Rightarrow> (lc_provider d, lc_model d))"
    unfolding pm [symmetric] by (simp only: candidates_eq assms(3))
  finally have c: "(lc_provider ?cfg, lc_model ?cfg) = \<dots>" .
  show ?thesis
    by (rule exI [of _ ?cfg], rule exI [of _ s'], rule exI [of _ r], intro conjI, rule sel, rule c)
       (use e pf in \<open>simp_all add: selection_action_def getLastModelSelectionReceipt_def\<close>)
qed

text \<open>An environment with a key for Gemini only: the default provider is the local one.\<close>

definition demo_process :: process_env where
  "demo_process = \<lparr>ev_var = (\<lambda>v. if v = ''GEMINI_API_KEY'' then Some ''k'' else None), ev_number = (\<lambda>v. None)\<rparr>"

definition init_router :: router_st where
  "init_router = \<lparr>tick = 0, csr_ledger = [], wal = [], gov_ledger = [], gov_wal = [], gov_loaded = True,
     gov_continuity = ''initial'', gov_invariants = [], gov_violations = [], last_selection = None\<rparr>"

theorem model_selection_witness:
  "\<exists>cfg s'. selectModel demo_env demo_process T_plan \<lparr>so_preferFree = None, so_overrides = (\<lambda>_. None), so_operator = None\<rparr>
       init_router = (Inr cfg, s') \<and>
     lc_provider cfg = ''gemini'' \<and> lc_endpoint cfg = ''http://localhost:11434'' \<and> lc_key cfg = None"
proof -
  let ?o = "\<lparr>so_preferFree = None, so_overrides = (\<lambda>_. None), so_operator = None\<rparr> :: select_options"
  obtain d where d: "configFromEnv demo_process = Inr d" "lc_endpoint d = ''http://localhost:11434''" "lc_key d = None"
    by (simp add: configFromEnv_def demo_process_def PROVIDER_DEFAULT_MODELS_def PROVIDER_API_KEY_ENV_def PROVIDER_ENDPOINTS_def
        or_else_def Let_def)
  have "so_overrides ?o T_plan = None" by simp
  moreover have "hasApiKeyFor demo_process ''gemini''"
    by (simp add: hasApiKeyFor_def demo_process_def PROVIDER_API_KEY_ENV_def)
  ultimately show ?thesis
    using model_selection_spec [OF d(1) _ refl, of ?o T_plan demo_env init_router] d(2,3) by (auto simp: mk_profile_def)
qed

end
