(* ===== verification/Auth.thy ===== *)
theory Auth
  imports Prelude
begin

text \<open>
  The permissions of users (\<open>src/auth/permissions.ts\<close>): what a role gives, what is granted to a
  user by name, for everything or for one scope, and the checks on both. The database client
  (Prisma) is a parameter: its calls are the fields of \<open>prisma\<close>, what the code relies on is
  \<open>prisma_law\<close>. A call that throws gives \<open>None\<close>.
\<close>

datatype permission =
    USER_READ | USER_WRITE | USER_DELETE | ORG_READ | ORG_WRITE | ORG_DELETE
  | PROJECT_READ | PROJECT_WRITE | PROJECT_DELETE | LEDGER_READ | LEDGER_WRITE | LEDGER_DELETE
  | BACKUP_READ | BACKUP_WRITE | BACKUP_RESTORE | SYSTEM_READ | SYSTEM_WRITE | SYSTEM_ADMIN

record db_user =
  du_role :: string
  du_active :: bool

record grant =
  gr_user :: string
  gr_permission :: permission
  gr_scope :: "string option"
  gr_by :: string

text \<open>The calls: a user by identifier, the grants of a user, all or those of one permission and scope,
  a new grant, the removal of the grants of one permission and scope.\<close>

record 'db prisma =
  find_user :: "'db \<Rightarrow> string \<Rightarrow> db_user option"
  find_grants :: "'db \<Rightarrow> string \<Rightarrow> (permission \<times> string option) option \<Rightarrow> grant list option"
  create_grant :: "grant \<Rightarrow> 'db \<Rightarrow> 'db option"
  delete_grants :: "string \<Rightarrow> permission \<Rightarrow> string option \<Rightarrow> 'db \<Rightarrow> 'db option"

definition ROLE_PERMISSIONS :: "(string \<times> permission list) list" where
  "ROLE_PERMISSIONS =
     [(''ADMIN'', [USER_READ, USER_WRITE, USER_DELETE, ORG_READ, ORG_WRITE, ORG_DELETE, PROJECT_READ, PROJECT_WRITE,
        PROJECT_DELETE, LEDGER_READ, LEDGER_WRITE, LEDGER_DELETE, BACKUP_READ, BACKUP_WRITE, BACKUP_RESTORE, SYSTEM_READ,
        SYSTEM_WRITE, SYSTEM_ADMIN]),
      (''OPERATOR'', [USER_READ, ORG_READ, ORG_WRITE, PROJECT_READ, PROJECT_WRITE, LEDGER_READ, LEDGER_WRITE, BACKUP_READ,
        SYSTEM_READ]),
      (''VIEWER'', [USER_READ, ORG_READ, PROJECT_READ, LEDGER_READ, SYSTEM_READ])]"

definition role_permissions :: "string \<Rightarrow> permission list" where
  "role_permissions r = (case js_get ROLE_PERMISSIONS r of None \<Rightarrow> [] | Some ps \<Rightarrow> ps)"

text \<open>An absent or empty scope is \<open>null\<close>.\<close>

definition scope_or_null :: "string option \<Rightarrow> string option" where
  "scope_or_null sc = (case sc of Some t \<Rightarrow> if t = [] then None else Some t | None \<Rightarrow> None)"

definition hasPermission :: "'db prisma \<Rightarrow> 'db \<Rightarrow> string \<Rightarrow> permission \<Rightarrow> string option \<Rightarrow> bool" where
  "hasPermission P db userId perm sc =
     (case find_user P db userId of
        None \<Rightarrow> False
      | Some u \<Rightarrow>
          if \<not> du_active u then False
          else (case find_grants P db userId (Some (perm, scope_or_null sc)) of
                  Some (_ # _) \<Rightarrow> True
                | _ \<Rightarrow> perm \<in> set (role_permissions (du_role u))))"

fun hasAnyPermission :: "'db prisma \<Rightarrow> 'db \<Rightarrow> string \<Rightarrow> permission list \<Rightarrow> string option \<Rightarrow> bool" where
  "hasAnyPermission P db userId [] sc = False"
| "hasAnyPermission P db userId (p # ps) sc = (if hasPermission P db userId p sc then True else hasAnyPermission P db userId ps sc)"

fun hasAllPermissions :: "'db prisma \<Rightarrow> 'db \<Rightarrow> string \<Rightarrow> permission list \<Rightarrow> string option \<Rightarrow> bool" where
  "hasAllPermissions P db userId [] sc = True"
| "hasAllPermissions P db userId (p # ps) sc = (if \<not> hasPermission P db userId p sc then False else hasAllPermissions P db userId ps sc)"

definition MIGRATION_ERROR :: string where
  "MIGRATION_ERROR = ''UserPermission model not available. Run database migration first.''"

definition grantPermission ::
    "'db prisma \<Rightarrow> string \<Rightarrow> permission \<Rightarrow> string \<Rightarrow> string option \<Rightarrow> 'db \<Rightarrow> string + 'db" where
  "grantPermission P userId perm grantedBy sc db =
     (case create_grant P \<lparr>gr_user = userId, gr_permission = perm, gr_scope = sc, gr_by = grantedBy\<rparr> db of
        None \<Rightarrow> Inl MIGRATION_ERROR
      | Some db' \<Rightarrow> Inr db')"

definition revokePermission :: "'db prisma \<Rightarrow> string \<Rightarrow> permission \<Rightarrow> string option \<Rightarrow> 'db \<Rightarrow> string + 'db" where
  "revokePermission P userId perm sc db =
     (case delete_grants P userId perm (scope_or_null sc) db of None \<Rightarrow> Inl MIGRATION_ERROR | Some db' \<Rightarrow> Inr db')"

text \<open>\<open>Array.from(new Set(...))\<close>: the first occurrences.\<close>

fun unique :: "'a list \<Rightarrow> 'a list" where
  "unique [] = []"
| "unique (x # xs) = x # filter (\<lambda>y. y \<noteq> x) (unique xs)"

definition getUserPermissions :: "'db prisma \<Rightarrow> 'db \<Rightarrow> string \<Rightarrow> permission list" where
  "getUserPermissions P db userId =
     (case find_user P db userId of
        None \<Rightarrow> []
      | Some u \<Rightarrow>
          if \<not> du_active u then []
          else unique (role_permissions (du_role u) @
                 (case find_grants P db userId None of None \<Rightarrow> [] | Some gs \<Rightarrow> map gr_permission gs)))"

definition getUserPermissionsWithScopes :: "'db prisma \<Rightarrow> 'db \<Rightarrow> string \<Rightarrow> (permission \<times> string option) list" where
  "getUserPermissionsWithScopes P db userId =
     (case find_user P db userId of
        None \<Rightarrow> []
      | Some u \<Rightarrow>
          if \<not> du_active u then []
          else map (\<lambda>p. (p, None)) (role_permissions (du_role u)) @
                 (case find_grants P db userId None of None \<Rightarrow> []
                  | Some gs \<Rightarrow> map (\<lambda>g. (gr_permission g, scope_or_null (gr_scope g))) gs))"

subsection \<open>What the code relies on\<close>

text \<open>The documented behaviour of the client on the table of grants: a query by permission and scope
  selects from the user's grants, a new grant is found afterwards beside the old ones, a removal
  removes what the same query would have found; users and other users' grants are untouched.\<close>

definition grants_of :: "'db prisma \<Rightarrow> 'db \<Rightarrow> string \<Rightarrow> grant list" where
  "grants_of P db u = (case find_grants P db u None of None \<Rightarrow> [] | Some gs \<Rightarrow> gs)"

definition prisma_law :: "'db prisma \<Rightarrow> bool" where
  "prisma_law P \<longleftrightarrow>
     (\<forall>db u. find_grants P db u None \<noteq> None) \<and>
     (\<forall>db u p sc. find_grants P db u (Some (p, sc)) =
        Some (filter (\<lambda>g. gr_permission g = p \<and> gr_scope g = sc) (grants_of P db u))) \<and>
     (\<forall>g db db'. create_grant P g db = Some db' \<longrightarrow> find_user P db' = find_user P db \<and>
        (\<forall>u. set (grants_of P db' u) = (if u = gr_user g then insert g (set (grants_of P db u)) else set (grants_of P db u)))) \<and>
     (\<forall>v p sc db db'. delete_grants P v p sc db = Some db' \<longrightarrow> find_user P db' = find_user P db \<and>
        (\<forall>u. set (grants_of P db' u) =
           (if u = v then {g \<in> set (grants_of P db u). \<not> (gr_permission g = p \<and> gr_scope g = sc)} else set (grants_of P db u))))"

lemma set_unique [simp]: "set (unique xs) = set xs"
  by (induction xs) auto

lemma find_all: "prisma_law P \<Longrightarrow> find_grants P db u None = Some (grants_of P db u)"
  by (auto simp: prisma_law_def grants_of_def split: option.split)

lemma has_iff:
  assumes "prisma_law P" and "find_user P db u = Some usr" and "du_active usr"
  shows "hasPermission P db u p sc \<longleftrightarrow> p \<in> set (role_permissions (du_role usr)) \<or>
    (\<exists>g\<in>set (grants_of P db u). gr_permission g = p \<and> gr_scope g = scope_or_null sc)"
proof -
  let ?gs = "filter (\<lambda>g. gr_permission g = p \<and> gr_scope g = scope_or_null sc) (grants_of P db u)"
  have n: "?gs \<noteq> [] \<longleftrightarrow> (\<exists>g\<in>set (grants_of P db u). gr_permission g = p \<and> gr_scope g = scope_or_null sc)"
    by (simp add: filter_empty_conv)
  have "find_grants P db u (Some (p, scope_or_null sc)) = Some ?gs" using assms(1) by (simp add: prisma_law_def)
  then have "hasPermission P db u p sc \<longleftrightarrow> ?gs \<noteq> [] \<or> p \<in> set (role_permissions (du_role usr))"
    using assms(2,3) by (simp add: hasPermission_def split: list.split)
  with n show ?thesis by blast
qed

lemma grant_effect:
  "prisma_law P \<Longrightarrow> grantPermission P u p who sc db = Inr db' \<Longrightarrow> find_user P db' = find_user P db \<and>
    set (grants_of P db' u) = insert \<lparr>gr_user = u, gr_permission = p, gr_scope = sc, gr_by = who\<rparr> (set (grants_of P db u))"
  by (simp add: prisma_law_def grantPermission_def split: option.splits)

lemma revoke_effect:
  "prisma_law P \<Longrightarrow> revokePermission P u p sc db = Inr db' \<Longrightarrow> find_user P db' = find_user P db \<and>
    set (grants_of P db' u) = {g \<in> set (grants_of P db u). \<not> (gr_permission g = p \<and> gr_scope g = scope_or_null sc)}"
  by (simp add: prisma_law_def revokePermission_def split: option.splits)

text \<open>A database in memory: one active viewer, and the list of grants.\<close>

definition demo_prisma :: "grant list prisma" where
  "demo_prisma = \<lparr>find_user = (\<lambda>db u. if u = ''u'' then Some \<lparr>du_role = ''VIEWER'', du_active = True\<rparr> else None),
     find_grants = (\<lambda>db u q. Some (filter (\<lambda>g. gr_user g = u \<and>
       (case q of None \<Rightarrow> True | Some (p, sc) \<Rightarrow> gr_permission g = p \<and> gr_scope g = sc)) db)),
     create_grant = (\<lambda>g db. Some (db @ [g])),
     delete_grants = (\<lambda>u p sc db. Some (filter (\<lambda>g. \<not> (gr_user g = u \<and> gr_permission g = p \<and> gr_scope g = sc)) db))\<rparr>"

lemma demo_prisma_law: "prisma_law demo_prisma"
  by (auto simp: prisma_law_def demo_prisma_def grants_of_def conj_assoc)

subsection \<open>Properties\<close>

text \<open>What decides a permission of an active user. A check succeeds exactly when the role has the permission
  or a grant has it with exactly the scope asked for: a grant for everything does not cover a check
  for one scope. A grant makes the checks of its scope succeed and changes no other;
  a revocation leaves what the role gives. The permissions listed for a user are those that some
  check would confirm, and those granted with an empty scope, which no check finds.\<close>

theorem permission_decision:
  assumes "prisma_law P" and "find_user P db u = Some usr" and "du_active usr"
  shows "(hasPermission P db u p sc \<longleftrightarrow> p \<in> set (role_permissions (du_role usr)) \<or>
       (\<exists>g\<in>set (grants_of P db u). gr_permission g = p \<and> gr_scope g = scope_or_null sc)) \<and>
     (\<forall>who sc0 db'. sc0 \<noteq> Some [] \<and> grantPermission P u p who sc0 db = Inr db' \<longrightarrow>
       (hasPermission P db' u p sc \<longleftrightarrow> hasPermission P db u p sc \<or> scope_or_null sc = sc0)) \<and>
     (\<forall>db'. revokePermission P u p sc db = Inr db' \<longrightarrow>
       (hasPermission P db' u p sc \<longleftrightarrow> p \<in> set (role_permissions (du_role usr)))) \<and>
     (p \<in> set (getUserPermissions P db u) \<longleftrightarrow> (\<exists>sc. hasPermission P db u p sc) \<or>
       (\<exists>g\<in>set (grants_of P db u). gr_permission g = p \<and> gr_scope g = Some []))"
proof (intro conjI allI impI)
  show has: "hasPermission P db u p sc \<longleftrightarrow> p \<in> set (role_permissions (du_role usr)) \<or>
       (\<exists>g\<in>set (grants_of P db u). gr_permission g = p \<and> gr_scope g = scope_or_null sc)"
    by (rule has_iff [OF assms])
  show "hasPermission P db' u p sc \<longleftrightarrow> hasPermission P db u p sc \<or> scope_or_null sc = sc0"
    if "sc0 \<noteq> Some [] \<and> grantPermission P u p who sc0 db = Inr db'" for who sc0 db'
    using that grant_effect [OF assms(1), of u p who sc0 db db'] has_iff [OF assms(1), of db' u usr p sc] has assms(2,3) by auto
  show "hasPermission P db' u p sc \<longleftrightarrow> p \<in> set (role_permissions (du_role usr))"
    if "revokePermission P u p sc db = Inr db'" for db'
    using that revoke_effect [OF assms(1) that] has_iff [OF assms(1), of db' u usr p sc] assms(2,3) by auto
  have "p \<in> set (getUserPermissions P db u) \<longleftrightarrow> p \<in> set (role_permissions (du_role usr)) \<or> (\<exists>g\<in>set (grants_of P db u). gr_permission g = p)"
    using assms(2,3) find_all [OF assms(1), of db u] by (auto simp: getUserPermissions_def)
  moreover have "\<exists>sc. scope_or_null sc = x" if "x \<noteq> Some []" for x
    using that by (intro exI [of _ x]) (auto simp: scope_or_null_def split: option.split)
  ultimately show "p \<in> set (getUserPermissions P db u) \<longleftrightarrow> (\<exists>sc. hasPermission P db u p sc) \<or>
       (\<exists>g\<in>set (grants_of P db u). gr_permission g = p \<and> gr_scope g = Some [])"
    unfolding has_iff [OF assms] by metis
qed

theorem permission_decision_witness:
  "\<exists>db. grantPermission demo_prisma ''u'' LEDGER_WRITE ''admin'' None [] = Inr db \<and>
     hasPermission demo_prisma db ''u'' LEDGER_WRITE None \<and> \<not> hasPermission demo_prisma db ''u'' LEDGER_WRITE (Some ''ledger-1'')"
proof -
  let ?usr = "\<lparr>du_role = ''VIEWER'', du_active = True\<rparr>"
  have u: "find_user demo_prisma [] ''u'' = Some ?usr" "du_active ?usr" by (simp_all add: demo_prisma_def)
  obtain db where db: "grantPermission demo_prisma ''u'' LEDGER_WRITE ''admin'' None [] = Inr db"
    by (simp add: grantPermission_def demo_prisma_def)
  have r: "LEDGER_WRITE \<notin> set (role_permissions ''VIEWER'')" by (simp add: role_permissions_def ROLE_PERMISSIONS_def)
  have g: "grants_of demo_prisma [] ''u'' = []" by (simp add: grants_of_def demo_prisma_def)
  have "scope_or_null None = None" "scope_or_null (Some ''ledger-1'') = Some ''ledger-1''" by (simp_all add: scope_or_null_def)
  with permission_decision [OF demo_prisma_law u, of LEDGER_WRITE None] db g r
    permission_decision [OF demo_prisma_law u, of LEDGER_WRITE "Some ''ledger-1''"]
  show ?thesis by fastforce
qed

end
