(* ===== verification/ModelChecker.thy ===== *)
theory ModelChecker
  imports GovLedger
begin

text \<open>
  The model checker (\<open>agent/sovereign-x/modelChecker.ts\<close>): the constitutional predicates on the
  values of a state, their verification over a list of states, and the states generated for it.
  A state's values are the fields the predicates read, each with the type its cast names, absent
  when undefined.
\<close>

record model_values =
  mv_status :: "string option"
  mv_prev :: "string option"
  mv_intent :: "string option"
  mv_evidence :: "string list option"
  mv_verified :: "bool list option"
  mv_history :: "string list option"
  mv_chain :: "(string \<times> string) list option"
  mv_action :: "string option"
  mv_allowed :: "string list option"
  mv_federated :: "(string \<times> string) option"
  mv_treaties :: "(string list \<times> bool) list option"
  mv_unit :: "string option"
  mv_consumed :: "jsnum option"
  mv_limit :: "jsnum option"
  mv_role :: "string option"

text \<open>\<open>Failed\<close> carries the counterexample, if any.\<close>

datatype check_result = Passed | Failed "string option"

record state_predicate =
  sp_id :: string
  sp_description :: string
  sp_check :: "model_values \<Rightarrow> check_result"

record model_state =
  ms_label :: string
  ms_values :: model_values

record verification =
  vr_id :: string
  vr_description :: string
  vr_passed :: bool
  vr_checked :: nat
  vr_counterexample :: "string option"

text \<open>A value in a template; \<open>undefined\<close> when absent.\<close>

definition shown :: "string option \<Rightarrow> string" where
  "shown x = (case x of None \<Rightarrow> ''undefined'' | Some t \<Rightarrow> t)"

definition fails :: "string \<Rightarrow> check_result" where
  "fails t = Failed (Some t)"

fun index_from :: "nat \<Rightarrow> 'a list \<Rightarrow> 'a \<Rightarrow> nat option" where
  "index_from i [] y = None"
| "index_from i (x # xs) y = (if x = y then Some i else index_from (Suc i) xs y)"

definition STATUS_ORDER :: "string list" where
  "STATUS_ORDER = [''proposed'', ''evidenced'', ''authorized'', ''executing'', ''validating'', ''completed'', ''rejected'', ''reverted'']"

definition status_place :: "string option \<Rightarrow> nat option" where
  "status_place x = Option.bind x (index_from 0 STATUS_ORDER)"

subsection \<open>The constitutional predicates\<close>

definition check_evidence :: "model_values \<Rightarrow> check_result" where
  "check_evidence v = (if mv_status v = Some ''executing'' \<and> mv_evidence v = Some []
     then fails (''Intent '' @ shown (mv_intent v) @ '' is executing but has zero evidence'') else Passed)"

definition check_forward :: "model_values \<Rightarrow> check_result" where
  "check_forward v =
     (case (status_place (mv_prev v), status_place (mv_status v)) of
        (Some p, Some c) \<Rightarrow>
          if c < p then fails (''Status regression: '' @ shown (mv_prev v) @ '' -> '' @ shown (mv_status v)) else Passed
      | _ \<Rightarrow> Passed)"

definition check_authorized :: "model_values \<Rightarrow> check_result" where
  "check_authorized v =
     (case mv_history v of
        Some h \<Rightarrow> if mv_status v = Some ''completed'' \<and> ''authorized'' \<notin> set h
                  then fails ''Completed intent never passed through authorized state'' else Passed
      | None \<Rightarrow> Passed)"

definition check_verified :: "model_values \<Rightarrow> check_result" where
  "check_verified v =
     (case mv_verified v of
        Some vs \<Rightarrow> if mv_status v = Some ''authorized'' \<and> \<not> list_all id vs
                   then fails ''Intent authorized with unverified evidence'' else Passed
      | None \<Rightarrow> Passed)"

text \<open>Entries are pairs of previous hash and hash.\<close>

fun chain_break :: "nat \<Rightarrow> (string \<times> string) list \<Rightarrow> nat option" where
  "chain_break i (p # c # rest) = (if fst c \<noteq> snd p then Some i else chain_break (Suc i) (c # rest))"
| "chain_break i _ = None"

definition check_chain :: "model_values \<Rightarrow> check_result" where
  "check_chain v =
     (case mv_chain v of
        Some ch \<Rightarrow> (case chain_break 1 ch of Some i \<Rightarrow> fails (''CSR hash chain broken at index '' @ show_nat i) | None \<Rightarrow> Passed)
      | None \<Rightarrow> Passed)"

definition check_boundary :: "model_values \<Rightarrow> check_result" where
  "check_boundary v =
     (case (mv_action v, mv_allowed v) of
        (Some a, Some ok) \<Rightarrow>
          if a \<noteq> [] \<and> a \<notin> set ok then fails (''Action '' @ [CHR 0x27] @ a @ [CHR 0x27] @ '' not in allowed set ['' @ join '', '' ok @ '']'')
          else Passed
      | _ \<Rightarrow> Passed)"

definition check_treaty :: "model_values \<Rightarrow> check_result" where
  "check_treaty v =
     (case (mv_federated v, mv_treaties v) of
        (Some (src, tgt), Some ts) \<Rightarrow>
          if list_ex (\<lambda>(ws, act). act \<and> src \<in> set ws \<and> tgt \<in> set ws) ts then Passed
          else fails (''No active treaty between '' @ src @ '' and '' @ tgt)
      | _ \<Rightarrow> Passed)"

definition check_budget :: "model_values \<Rightarrow> check_result" where
  "check_budget v =
     (case (mv_unit v, mv_consumed v, mv_limit v) of
        (Some u, Some c, Some l) \<Rightarrow>
          if u \<noteq> [] \<and> c > l then fails (u @ '' consumption '' @ num_str c @ '' exceeds limit '' @ num_str l) else Passed
      | _ \<Rightarrow> Passed)"

definition predicate :: "string \<Rightarrow> string \<Rightarrow> (model_values \<Rightarrow> check_result) \<Rightarrow> state_predicate" where
  "predicate i d c = \<lparr>sp_id = i, sp_description = d, sp_check = c\<rparr>"

definition CONSTITUTIONAL_PREDICATES :: "state_predicate list" where
  "CONSTITUTIONAL_PREDICATES =
     [predicate ''P-I001'' (''No execution without evidence '' @ em_dash @ '' every '' @ [CHR 0x27] @ ''executing'' @ [CHR 0x27] @ '' intent must have evidenceIds.length > 0'')
        check_evidence,
      predicate ''P-I002'' (''All state transitions are forward-only '' @ em_dash @ '' intent status never regresses'') check_forward,
      predicate ''P-I003'' (''Every completed intent was once authorized '' @ em_dash @ '' status chain integrity'') check_authorized,
      predicate ''P-I004'' (''Evidence verified before authorization '' @ em_dash @ '' all evidence for authorized intents is verified'')
        check_verified,
      predicate ''P-I005'' (''CSR entries form a valid hash chain '' @ em_dash @ '' each entry'' @ [CHR 0x27] @ ''s previousHash matches prior entry'' @ [CHR 0x27] @ ''s hash'')
        check_chain,
      predicate ''P-I006'' (''Agent actions respect governance boundaries '' @ em_dash @ '' no action outside allowed set'') check_boundary,
      predicate ''P-I007'' ''Federated actions require an active treaty between worlds'' check_treaty,
      predicate ''P-I008'' ''Resource consumption never exceeds budget limits'' check_budget]"

subsection \<open>Verification\<close>

text \<open>The registered predicates are the state.\<close>

definition registerPredicate :: "state_predicate \<Rightarrow> state_predicate list \<Rightarrow> state_predicate list" where
  "registerPredicate p ps = ps @ [p]"

fun first_failure :: "state_predicate \<Rightarrow> nat \<Rightarrow> model_state list \<Rightarrow> (nat \<times> string) option" where
  "first_failure p i [] = None"
| "first_failure p i (st # sts) =
     (case sp_check p (ms_values st) of
        Passed \<Rightarrow> first_failure p (Suc i) sts
      | Failed ce \<Rightarrow> Some (Suc i, ''State '' @ [CHR 0x27] @ ms_label st @ [CHR 0x27] @ '': '' @ shown ce))"

definition verifyPredicate :: "state_predicate list \<Rightarrow> string \<Rightarrow> model_state list \<Rightarrow> verification" where
  "verifyPredicate ps i states =
     (case List.find (\<lambda>p. sp_id p = i) ps of
        None \<Rightarrow> \<lparr>vr_id = i, vr_description = ''Unknown'', vr_passed = False, vr_checked = 0,
                 vr_counterexample = Some ''Predicate not found''\<rparr>
      | Some p \<Rightarrow>
          (case first_failure p 0 states of
             Some (n, ce) \<Rightarrow> \<lparr>vr_id = i, vr_description = sp_description p, vr_passed = False, vr_checked = n,
                              vr_counterexample = Some ce\<rparr>
           | None \<Rightarrow> \<lparr>vr_id = i, vr_description = sp_description p, vr_passed = True, vr_checked = length states,
                       vr_counterexample = None\<rparr>))"

definition verifyAllPredicates :: "state_predicate list \<Rightarrow> model_state list \<Rightarrow> verification list" where
  "verifyAllPredicates ps states = map (\<lambda>p. verifyPredicate ps (sp_id p) states) ps"

text \<open>The states generated for the check; \<open>rnd\<close> gives the random part of the intent names.\<close>

definition generated_state :: "string \<Rightarrow> string \<times> string \<times> string \<Rightarrow> model_state" where
  "generated_state r = (\<lambda>(status, act, role).
     \<lparr>ms_label = ''status='' @ status @ '',action='' @ act @ '',role='' @ role,
      ms_values = \<lparr>mv_status = Some status, mv_prev = Some ''proposed'', mv_intent = Some (''model-intent-'' @ r),
        mv_evidence = Some (if status = ''proposed'' then [] else [''ev-1'']), mv_verified = Some [True],
        mv_history = Some [''proposed'', ''evidenced'', ''authorized'', ''executing'', ''validating''],
        mv_chain = Some [(''genesis'', ''abc''), (''abc'', ''def'')], mv_action = Some act,
        mv_allowed = Some [''edit'', ''plan'', ''review'', ''validate''], mv_federated = None, mv_treaties = None,
        mv_unit = None, mv_consumed = None, mv_limit = None, mv_role = Some role\<rparr>\<rparr>)"

definition generateModelStates :: "(nat \<Rightarrow> string) \<Rightarrow> string list \<Rightarrow> string list \<Rightarrow> string list \<Rightarrow> model_state list" where
  "generateModelStates rnd statuses actions roles =
     (let combos = concat (map (\<lambda>st. concat (map (\<lambda>a. map (\<lambda>r. (st, a, r)) roles) actions)) statuses)
      in map (\<lambda>(i, c). generated_state (rnd i) c) (enumerate 0 combos))"

definition getModelCheckerStatus :: "state_predicate list \<Rightarrow> nat \<times> string option" where
  "getModelCheckerStatus ps = (length ps, None)"

subsection \<open>Properties\<close>

definition passes :: "state_predicate \<Rightarrow> model_state \<Rightarrow> bool" where
  "passes p st \<longleftrightarrow> sp_check p (ms_values st) = Passed"

lemma first_failure_None: "first_failure p n sts = None \<longleftrightarrow> list_all (passes p) sts"
  by (induction p n sts rule: first_failure.induct) (auto simp: passes_def split: check_result.split)

lemma first_failure_Some: "first_failure p n sts = Some (k, ce) \<Longrightarrow> k = n + length (takeWhile (passes p) sts) + 1"
  by (induction p n sts rule: first_failure.induct) (auto simp: passes_def split: check_result.splits)

lemma verify_found:
  assumes "List.find (\<lambda>p. sp_id p = i) ps = Some p"
  shows "vr_passed (verifyPredicate ps i sts) = list_all (passes p) sts \<and>
    vr_checked (verifyPredicate ps i sts) = (if list_all (passes p) sts then length sts else length (takeWhile (passes p) sts) + 1)"
  using assms first_failure_None [of p 0 sts] first_failure_Some [of p 0 sts]
  by (cases "first_failure p 0 sts") (auto simp: verifyPredicate_def split: option.split)

lemma generated_form:
  "st \<in> set (generateModelStates rnd statuses actions roles) \<Longrightarrow>
     \<exists>r status act role. st = generated_state r (status, act, role) \<and> status \<in> set statuses \<and> act \<in> set actions \<and>
       role \<in> set roles"
  by (auto simp: generateModelStates_def Let_def enumerate_eq_zip dest!: set_zip_rightD) blast

lemma generated_covers:
  assumes "status \<in> set statuses" and "act \<in> set actions" and "role \<in> set roles"
  shows "\<exists>r. generated_state r (status, act, role) \<in> set (generateModelStates rnd statuses actions roles)"
proof -
  let ?cs = "concat (map (\<lambda>st. concat (map (\<lambda>a. map (\<lambda>r. (st, a, r)) roles) actions)) statuses)"
  from assms have "(status, act, role) \<in> set ?cs" by auto
  then obtain i where i: "i < length ?cs" "?cs ! i = (status, act, role)" by (auto simp only: in_set_conv_nth)
  then have "enumerate 0 ?cs ! i \<in> set (enumerate 0 ?cs)" by (intro nth_mem) (simp only: length_enumerate)
  with i have "(i, status, act, role) \<in> set (enumerate 0 ?cs)" by (simp only: nth_enumerate_eq add_0)
  then have "generated_state (rnd i) (status, act, role) \<in> set (generateModelStates rnd statuses actions roles)"
    unfolding generateModelStates_def Let_def by (force simp only: set_map image_iff split: prod.split)
  then show ?thesis by blast
qed

lemma generated_checks:
  "check_evidence (ms_values (generated_state r (status, act, role))) = Passed"
  "check_forward (ms_values (generated_state r (status, act, role))) = Passed"
  "check_authorized (ms_values (generated_state r (status, act, role))) = Passed"
  "check_verified (ms_values (generated_state r (status, act, role))) = Passed"
  "check_chain (ms_values (generated_state r (status, act, role))) = Passed"
  "check_treaty (ms_values (generated_state r (status, act, role))) = Passed"
  "check_budget (ms_values (generated_state r (status, act, role))) = Passed"
  "check_boundary (ms_values (generated_state r (status, act, role))) = Passed \<longleftrightarrow>
     act \<in> {[], ''edit'', ''plan'', ''review'', ''validate''}"
proof -
  have "index_from 0 STATUS_ORDER ''proposed'' = Some 0" by (simp add: STATUS_ORDER_def)
  then show "check_forward (ms_values (generated_state r (status, act, role))) = Passed"
    by (simp add: check_forward_def generated_state_def status_place_def split: option.split)
qed (simp_all add: check_evidence_def check_authorized_def check_verified_def check_chain_def check_boundary_def check_treaty_def
    check_budget_def generated_state_def fails_def)

lemma builtin_predicates:
  "map (\<lambda>p. (sp_id p, sp_check p)) CONSTITUTIONAL_PREDICATES =
     [(''P-I001'', check_evidence), (''P-I002'', check_forward), (''P-I003'', check_authorized), (''P-I004'', check_verified),
      (''P-I005'', check_chain), (''P-I006'', check_boundary), (''P-I007'', check_treaty), (''P-I008'', check_budget)]"
  by (simp add: CONSTITUTIONAL_PREDICATES_def predicate_def)

lemma builtin_passes:
  assumes "p \<in> set CONSTITUTIONAL_PREDICATES"
  shows "passes p (generated_state r (status, act, role)) \<longleftrightarrow>
    sp_id p \<noteq> ''P-I006'' \<or> act \<in> {[], ''edit'', ''plan'', ''review'', ''validate''}"
proof -
  from assms have "(sp_id p, sp_check p) \<in> set (map (\<lambda>p. (sp_id p, sp_check p)) CONSTITUTIONAL_PREDICATES)" by force
  then show ?thesis unfolding builtin_predicates passes_def using generated_checks by auto
qed

lemma find_by_id: "distinct (map f xs) \<Longrightarrow> p \<in> set xs \<Longrightarrow> List.find (\<lambda>x. f x = f p) xs = Some p"
  by (induction xs) (auto simp: image_iff)

lemma builtin_found:
  assumes "p \<in> set CONSTITUTIONAL_PREDICATES"
  shows "List.find (\<lambda>x. sp_id x = sp_id p) CONSTITUTIONAL_PREDICATES = Some p"
proof (rule find_by_id [OF _ assms])
  show "distinct (map sp_id CONSTITUTIONAL_PREDICATES)" by (simp add: CONSTITUTIONAL_PREDICATES_def predicate_def)
qed

text \<open>What verification reports: a predicate passes exactly when every state passes its check, and otherwise the
  number of states checked is the place of the first that fails. On the states that the checker
  generates itself, whatever the statuses, actions and roles, every built-in predicate but the
  sixth passes: only an action outside the fixed set of four is ever found.\<close>

theorem model_check_spec:
  assumes "p \<in> set CONSTITUTIONAL_PREDICATES" and "i = sp_id p"
  shows "(vr_passed (verifyPredicate CONSTITUTIONAL_PREDICATES i states) \<longleftrightarrow> (\<forall>st\<in>set states. sp_check p (ms_values st) = Passed)) \<and>
     vr_checked (verifyPredicate CONSTITUTIONAL_PREDICATES i states) =
       (if \<forall>st\<in>set states. sp_check p (ms_values st) = Passed then length states
        else length (takeWhile (\<lambda>st. sp_check p (ms_values st) = Passed) states) + 1) \<and>
     (vr_passed (verifyPredicate CONSTITUTIONAL_PREDICATES i (generateModelStates rnd statuses actions roles)) \<longleftrightarrow>
       i \<noteq> ''P-I006'' \<or> statuses = [] \<or> roles = [] \<or> set actions \<subseteq> {[], ''edit'', ''plan'', ''review'', ''validate''})"
proof (intro conjI)
  note v = verify_found [OF builtin_found [OF assms(1)], folded assms(2)]
  have ps: "list_all (passes p) sts \<longleftrightarrow> (\<forall>st\<in>set sts. sp_check p (ms_values st) = Passed)" for sts
    by (simp add: list_all_iff passes_def)
  have tw: "takeWhile (passes p) sts = takeWhile (\<lambda>st. sp_check p (ms_values st) = Passed) sts" for sts
    by (simp add: passes_def [abs_def])
  show "vr_passed (verifyPredicate CONSTITUTIONAL_PREDICATES i states) \<longleftrightarrow> (\<forall>st\<in>set states. sp_check p (ms_values st) = Passed)"
    using v [of states] ps by simp
  show "vr_checked (verifyPredicate CONSTITUTIONAL_PREDICATES i states) =
       (if \<forall>st\<in>set states. sp_check p (ms_values st) = Passed then length states
        else length (takeWhile (\<lambda>st. sp_check p (ms_values st) = Passed) states) + 1)"
    using v [of states] ps tw by simp
  let ?g = "generateModelStates rnd statuses actions roles" and ?ok = "{[], ''edit'', ''plan'', ''review'', ''validate''}"
  have "list_all (passes p) ?g \<longleftrightarrow> i \<noteq> ''P-I006'' \<or> statuses = [] \<or> roles = [] \<or> set actions \<subseteq> ?ok"
  proof
    assume all: "list_all (passes p) ?g"
    have "act \<in> ?ok" if i: "i = ''P-I006''" "st \<in> set statuses" "ro \<in> set roles" "act \<in> set actions" for st ro act
    proof -
      obtain r where "generated_state r (st, act, ro) \<in> set ?g" using generated_covers [OF i(2,4,3)] by blast
      with all have "passes p (generated_state r (st, act, ro))" by (simp only: list_all_iff)
      then show ?thesis using i(1) unfolding builtin_passes [OF assms(1)] assms(2) by simp
    qed
    then show "i \<noteq> ''P-I006'' \<or> statuses = [] \<or> roles = [] \<or> set actions \<subseteq> ?ok"
      by (metis list.set_intros(1) list.exhaust subsetI)
  next
    assume c: "i \<noteq> ''P-I006'' \<or> statuses = [] \<or> roles = [] \<or> set actions \<subseteq> ?ok"
    show "list_all (passes p) ?g" unfolding list_all_iff
    proof
      fix st
      assume st: "st \<in> set ?g"
      then obtain r status act role where g: "st = generated_state r (status, act, role)" "act \<in> set actions"
        "status \<in> set statuses" "role \<in> set roles"
        using generated_form by blast
      then have "statuses \<noteq> []" "roles \<noteq> []" by auto
      with c g(2) have "i \<noteq> ''P-I006'' \<or> act \<in> ?ok" by blast
      then show "passes p st" unfolding g(1) builtin_passes [OF assms(1)] assms(2) .
    qed
  qed
  then show "vr_passed (verifyPredicate CONSTITUTIONAL_PREDICATES i ?g) \<longleftrightarrow>
       i \<noteq> ''P-I006'' \<or> statuses = [] \<or> roles = [] \<or> set actions \<subseteq> ?ok" using v [of ?g] by simp
qed

theorem model_check_witness:
  "vr_passed (verifyPredicate CONSTITUTIONAL_PREDICATES ''P-I002''
     (generateModelStates (\<lambda>n. show_nat n) [''reverted'', ''executing''] [''edit'', ''deploy''] [''builder'']))"
proof -
  have "(''P-I002'', check_forward) \<in> set (map (\<lambda>p. (sp_id p, sp_check p)) CONSTITUTIONAL_PREDICATES)"
    unfolding builtin_predicates by simp
  then obtain p where "p \<in> set CONSTITUTIONAL_PREDICATES" "''P-I002'' = sp_id p" by auto
  from model_check_spec [OF this, of "[]" show_nat "[''reverted'', ''executing'']" "[''edit'', ''deploy'']" "[''builder'']"]
  show ?thesis by simp
qed

end
