(* ===== verification/Runtime.thy ===== *)
theory Runtime
  imports Govern
begin

text \<open>
  The governance runtime (\<open>agent/sovereign-x/runtime.ts\<close>): sandboxes, executions of a workflow
  under the governed action, dossiers of drift and the integrity report; and the code sandbox
  (\<open>agent/sovereign-x/sandbox.ts\<close>), whose child process is a parameter. Of a workflow the runtime reads the
  identifier, of an agent the identifier and the role. A result is a JSON value.
\<close>

datatype runtime_status = RT_IDLE | RT_EXECUTING | RT_PAUSED | RT_ERROR

datatype sandbox_level = SB_ISOLATED | SB_RESTRICTED | SB_FULL

definition level_name :: "sandbox_level \<Rightarrow> string" where
  "level_name l = (case l of SB_ISOLATED \<Rightarrow> ''isolated'' | SB_RESTRICTED \<Rightarrow> ''restricted'' | SB_FULL \<Rightarrow> ''full'')"

record sandbox =
  sb_id :: string
  sb_level :: sandbox_level
  sb_paths :: "string list"
  sb_commands :: "string list"
  sb_reversible :: bool
  sb_created :: time

record execution =
  ex_id :: string
  ex_workflow :: string
  ex_status :: string
  ex_agent :: string
  ex_role :: string
  ex_started :: time
  ex_completed :: "time option"
  ex_sandbox :: "string option"
  ex_result :: json
  ex_error :: "string option"

record drift_dossier =
  dd_id :: string
  dd_count :: nat
  dd_reports :: "drift_report list"
  dd_severity :: string
  dd_issued :: time
  dd_by :: string

record runtime_st = kernel_st +
  rt_executions :: "execution list"
  rt_sandboxes :: "(string, sandbox) jsmap"
  rt_status :: runtime_status

abbreviation RUNTIME :: string where
  "RUNTIME \<equiv> ''governance-runtime''"

definition getRuntimeStatus :: "'a runtime_st_scheme \<Rightarrow> runtime_status" where
  "getRuntimeStatus s = rt_status s"

definition createSandbox :: "sysenv \<Rightarrow> sandbox_level \<Rightarrow> 'a runtime_st_scheme \<Rightarrow> sandbox \<times> 'a runtime_st_scheme" where
  "createSandbox E level s =
     (let (u, s1) = take_uuid E s; (t, s2) = take_now E s1;
          sb = \<lparr>sb_id = u, sb_level = level, sb_paths = [], sb_commands = [], sb_reversible = True, sb_created = t\<rparr>
      in (sb, log_csr E ''sandbox-created'' ''runtime'' [(''sandboxId'', JStr u), (''level'', JStr (level_name level))] None RUNTIME
            (s2\<lparr>rt_sandboxes := js_set u sb (rt_sandboxes s2)\<rparr>)))"

definition getSandbox :: "string \<Rightarrow> 'a runtime_st_scheme \<Rightarrow> sandbox option" where
  "getSandbox sandboxId s = js_get (rt_sandboxes s) sandboxId"

subsection \<open>Executions\<close>

text \<open>The first half of \<open>executeWorkflow\<close>: up to the governed action.\<close>

definition begin_execution ::
    "sysenv \<Rightarrow> string \<Rightarrow> string \<Rightarrow> string \<Rightarrow> sandbox_level \<Rightarrow> 'a runtime_st_scheme \<Rightarrow> execution \<times> 'a runtime_st_scheme" where
  "begin_execution E workflowId agentId role level s =
     (let (sb, s1) = createSandbox E level (s\<lparr>rt_status := RT_EXECUTING\<rparr>);
          (u, s2) = take_uuid E s1; (t, s3) = take_now E s2;
          x = \<lparr>ex_id = u, ex_workflow = workflowId, ex_status = ''running'', ex_agent = agentId, ex_role = role, ex_started = t,
               ex_completed = None, ex_sandbox = Some (sb_id sb), ex_result = JNull, ex_error = None\<rparr>
      in (x, log_csr E ''workflow-execution-started'' ''runtime''
               [(''executionId'', JStr u), (''workflowId'', JStr workflowId), (''agentId'', JStr agentId),
                (''agentRole'', JStr role), (''sandboxId'', JStr (sb_id sb))] None RUNTIME
               (s3\<lparr>rt_executions := rt_executions s3 @ [x]\<rparr>)))"

definition executeWorkflow ::
    "sysenv \<Rightarrow> string \<Rightarrow> string \<Rightarrow> string \<Rightarrow> action \<Rightarrow> sandbox_level \<Rightarrow> 'a runtime_st_scheme \<Rightarrow>
     execution \<times> 'a runtime_st_scheme" where
  "executeWorkflow E workflowId agentId role a level s =
     (let (x, s1) = begin_execution E workflowId agentId role level s;
          (gov, s2) = kernelGovernAction E agentId role a None s1
      in if gr_approved gov then (x, s2)
         else
           let why = (case gr_reason gov of Some r \<Rightarrow> r | None \<Rightarrow> ''Constitutional check failed'');
               (t, s3) = take_now E s2;
               x' = x\<lparr>ex_status := ''failed'', ex_error := Some why, ex_completed := Some t\<rparr>
           in (x', log_csr E ''workflow-execution-blocked'' ''runtime'' [(''executionId'', JStr (ex_id x)), (''reason'', JStr why)]
                     None RUNTIME (s3\<lparr>rt_executions := butlast (rt_executions s3) @ [x'], rt_status := RT_ERROR\<rparr>)))"

definition getExecution :: "string \<Rightarrow> 'a runtime_st_scheme \<Rightarrow> execution option" where
  "getExecution executionId s = List.find (\<lambda>e. ex_id e = executionId) (rt_executions s)"

definition completeExecution :: "sysenv \<Rightarrow> string \<Rightarrow> json \<Rightarrow> 'a runtime_st_scheme \<Rightarrow> 'a runtime_st_scheme" where
  "completeExecution E executionId result s =
     (case getExecution executionId s of
        None \<Rightarrow> s
      | Some x \<Rightarrow>
          let (t, s1) = take_now E s;
              s2 = s1\<lparr>rt_executions := update_first (\<lambda>e. ex_id e = executionId)
                     (\<lambda>e. e\<lparr>ex_status := ''completed'', ex_result := result, ex_completed := Some t\<rparr>) (rt_executions s1)\<rparr>
          in (log_csr E ''workflow-execution-completed'' ''runtime''
                [(''executionId'', JStr executionId), (''agentRole'', JStr (ex_role x))] None RUNTIME s2)\<lparr>rt_status := RT_IDLE\<rparr>)"

definition failExecution :: "sysenv \<Rightarrow> string \<Rightarrow> string \<Rightarrow> 'a runtime_st_scheme \<Rightarrow> 'a runtime_st_scheme" where
  "failExecution E executionId e s =
     (case getExecution executionId s of
        None \<Rightarrow> s
      | Some x \<Rightarrow>
          let (t, s1) = take_now E s;
              s2 = s1\<lparr>rt_executions := update_first (\<lambda>e. ex_id e = executionId)
                     (\<lambda>x. x\<lparr>ex_status := ''failed'', ex_error := Some e, ex_completed := Some t\<rparr>) (rt_executions s1)\<rparr>
          in (log_csr E ''workflow-execution-failed'' ''runtime''
                [(''executionId'', JStr executionId), (''error'', JStr e)] None RUNTIME s2)\<lparr>rt_status := RT_ERROR\<rparr>)"

definition listExecutions :: "'a runtime_st_scheme \<Rightarrow> execution list" where
  "listExecutions s = rt_executions s"

subsection \<open>Reports\<close>

definition drift_severity :: "nat \<Rightarrow> string" where
  "drift_severity n = (if n = 0 then ''none'' else if n \<le> 2 then ''minor'' else if n \<le> 5 then ''moderate'' else ''critical'')"

definition createDriftDossier :: "sysenv \<Rightarrow> 'a base_st_scheme \<Rightarrow> drift_dossier \<times> 'a base_st_scheme" where
  "createDriftDossier E s =
     (let (dr, s1) = detectConstitutionalDrift E s;
          (u, s2) = take_uuid E s1; (t, s3) = take_now E s2;
          sev = drift_severity (length dr)
      in (\<lparr>dd_id = u, dd_count = length dr, dd_reports = dr, dd_severity = sev, dd_issued = t, dd_by = RUNTIME\<rparr>,
          log_csr E ''drift-dossier-issued'' ''runtime''
            [(''dossierId'', JStr u), (''severity'', JStr sev), (''reportCount'', jnat (length dr))] None RUNTIME s3))"

record integrity_report =
  ir_status :: runtime_status
  ir_integrity :: bool
  ir_csrLength :: nat
  ir_executions :: nat
  ir_sandboxes :: nat
  ir_driftCount :: nat
  ir_lineage :: nat

definition getIntegrityReport :: "sysenv \<Rightarrow> 'a runtime_st_scheme \<Rightarrow> integrity_report" where
  "getIntegrityReport E s =
     \<lparr>ir_status = rt_status s, ir_integrity = (verifyCsrIntegrity E s = None), ir_csrLength = length (csr_ledger s),
      ir_executions = length (rt_executions s), ir_sandboxes = length (rt_sandboxes s), ir_driftCount = 0,
      ir_lineage = length (csr_ledger s)\<rparr>"

definition resetRuntime :: "'a runtime_st_scheme \<Rightarrow> 'a runtime_st_scheme" where
  "resetRuntime s = s\<lparr>rt_executions := [], rt_sandboxes := [], rt_status := RT_IDLE\<rparr>"

subsection \<open>The code sandbox\<close>

text \<open>What the child process leaves: the error of \<open>execFile\<close> with its exit code, if any, the two outputs, what
  \<open>JSON.parse\<close> makes of a non-empty standard output (\<open>None\<close> when it throws), and the time taken.\<close>

record child_json =
  cj_ok :: bool
  cj_result :: "string option"
  cj_error :: "string option"
  cj_time :: "jsnum option"
  cj_memory :: "jsnum option"

record child =
  ch_error :: "(string \<times> int option) option"
  ch_stdout :: string
  ch_stderr :: string
  ch_json :: "child_json option"
  ch_elapsed :: jsnum

record sandbox_result =
  sx_id :: string
  sx_stdout :: string
  sx_stderr :: string
  sx_exit :: int
  sx_time :: jsnum
  sx_memory :: jsnum

definition given_or :: "'a option \<Rightarrow> 'a \<Rightarrow> 'a" where
  "given_or x d = (case x of Some v \<Rightarrow> v | None \<Rightarrow> d)"

definition executeInSandbox :: "sysenv \<Rightarrow> child \<Rightarrow> string \<Rightarrow> 'a base_st_scheme \<Rightarrow> sandbox_result \<times> 'a base_st_scheme" where
  "executeInSandbox E c code s =
     (let (u, s1) = take_uuid E s
      in case (if ch_stdout c \<noteq> [] then ch_json c else None) of
           Some j \<Rightarrow>
             (\<lparr>sx_id = u, sx_stdout = given_or (cj_result j) [], sx_stderr = given_or (cj_error j) (ch_stderr c),
               sx_exit = (if cj_ok j then 0 else 1), sx_time = given_or (cj_time j) (ch_elapsed c),
               sx_memory = given_or (cj_memory j) 0\<rparr>,
              log_csr E ''sandbox-executed'' ''runtime''
                [(''sandboxId'', JStr u), (''ok'', JBool (cj_ok j)), (''executionTimeMs'', JNum (given_or (cj_time j) (ch_elapsed c))),
                 (''codeLength'', jnat (length code))] None ''sovereign-x-sandbox'' s1)
         | None \<Rightarrow>
             (\<lparr>sx_id = u, sx_stdout = ch_stdout c, sx_stderr = ch_stderr c,
               sx_exit = (case ch_error c of None \<Rightarrow> 0 | Some (_, ec) \<Rightarrow> given_or ec 1), sx_time = ch_elapsed c, sx_memory = 0\<rparr>,
              log_csr E ''sandbox-executed'' ''runtime''
                ([(''sandboxId'', JStr u), (''ok'', JBool False)] @
                 (case ch_error c of None \<Rightarrow> [] | Some (m, _) \<Rightarrow> [(''error'', JStr m)]) @
                 [(''executionTimeMs'', JNum (ch_elapsed c))]) None ''sovereign-x-sandbox'' s1))"

subsection \<open>What the kernel's gate reads\<close>

lemma requireInvariant_more [simp]:
  "boundaries (requireInvariant iv k) = boundaries k" "budgets (requireInvariant iv a) = budgets a"
  "consumptions (requireInvariant iv a) = consumptions a" "seeded (requireInvariant iv k) = seeded k"
  by (simp_all add: requireInvariant_def)

lemma fold_requireInvariant_more [simp]:
  "boundaries (fold requireInvariant ivs k) = boundaries k" "budgets (fold requireInvariant ivs a) = budgets a"
  "consumptions (fold requireInvariant ivs a) = consumptions a"
  by (induction ivs arbitrary: k a) simp_all

lemma fold_requireInvariant_invariants:
  "gov_invariants s = gov_invariants t \<Longrightarrow> gov_invariants (fold requireInvariant ivs s) = gov_invariants (fold requireInvariant ivs t)"
  by (induction ivs arbitrary: s t) (simp_all add: requireInvariant_def)

lemma ready_frame [simp]:
  "boundaries (ready E s) = boundaries s" "budgets (ready E s) = budgets s" "consumptions (ready E s) = consumptions s"
  by (simp_all add: ready_def seedKernel_def Let_def)

lemma ready_invariants:
  assumes "gov_invariants s = gov_invariants t" and "seeded s = seeded t"
  shows "gov_invariants (ready E s) = gov_invariants (ready E t)"
  using assms by (auto simp: ready_def seedKernel_def Let_def intro: fold_requireInvariant_invariants)

lemma ready_same [simp]:
  "validates a (ready E (log_csr E tr d p i ag s)) = validates a (ready E s)"
  "validates a (ready E (s\<lparr>tick := n\<rparr>)) = validates a (ready E s)"
  "validates a (ready E (t\<lparr>rt_executions := xs\<rparr>)) = validates a (ready E t)"
  "validates a (ready E (t\<lparr>rt_sandboxes := sb\<rparr>)) = validates a (ready E t)"
  "validates a (ready E (t\<lparr>rt_status := rs\<rparr>)) = validates a (ready E t)"
  using ready_invariants [of "log_csr E tr d p i ag s" s E] ready_invariants [of "s\<lparr>tick := n\<rparr>" s E]
    ready_invariants [of "t\<lparr>rt_executions := xs\<rparr>" t E] ready_invariants [of "t\<lparr>rt_sandboxes := sb\<rparr>" t E]
    ready_invariants [of "t\<lparr>rt_status := rs\<rparr>" t E]
  by (simp_all add: validates_def log_csr_update)

lemma runtime_frame [simp]:
  "rt_executions (log_csr E tr d p i a s) = rt_executions s" "rt_sandboxes (log_csr E tr d p i a s) = rt_sandboxes s"
  "rt_status (log_csr E tr d p i a s) = rt_status s"
  "rt_executions (snd (emitToLedger E au act b rn s)) = rt_executions s"
  "rt_sandboxes (snd (emitToLedger E au act b rn s)) = rt_sandboxes s" "rt_status (snd (emitToLedger E au act b rn s)) = rt_status s"
  "rt_executions (requireInvariant iv s) = rt_executions s" "rt_sandboxes (requireInvariant iv s) = rt_sandboxes s"
  "rt_status (requireInvariant iv s) = rt_status s"
  "rt_executions (updateThreatLedger n r s) = rt_executions s" "rt_sandboxes (updateThreatLedger n r s) = rt_sandboxes s"
  "rt_status (updateThreatLedger n r s) = rt_status s"
  using emitToLedger_effect [of E au act b rn s]
  by (auto simp: log_csr_update appendToLedger_def ensureLoaded_def requireInvariant_def updateThreatLedger_def Let_def)

lemma runtime_validate [simp]:
  "rt_executions (snd (validateAction E a s)) = rt_executions s" "rt_sandboxes (snd (validateAction E a s)) = rt_sandboxes s"
  "rt_status (snd (validateAction E a s)) = rt_status s"
proof -
  obtain n vs where "snd (validateAction E a s) = s\<lparr>tick := n, gov_violations := gov_violations s @ vs\<rparr>"
    using validateAction_effect by blast
  then show "rt_executions (snd (validateAction E a s)) = rt_executions s" "rt_sandboxes (snd (validateAction E a s)) = rt_sandboxes s"
    "rt_status (snd (validateAction E a s)) = rt_status s" by simp_all
qed

lemma runtime_fold [simp]:
  "rt_executions (fold requireInvariant ivs s) = rt_executions s" "rt_sandboxes (fold requireInvariant ivs s) = rt_sandboxes s"
  "rt_status (fold requireInvariant ivs s) = rt_status s"
  by (induction ivs arbitrary: s) simp_all

lemma runtime_ready [simp]:
  "rt_executions (ready E s) = rt_executions s" "rt_sandboxes (ready E s) = rt_sandboxes s" "rt_status (ready E s) = rt_status s"
  by (simp_all add: ready_def seedKernel_def Let_def)

text \<open>Without an intent the gate consults no lifecycle and pays nothing.\<close>

definition kept :: "'a runtime_st_scheme \<Rightarrow> 'a runtime_st_scheme \<Rightarrow> bool" where
  "kept s t \<longleftrightarrow> rt_executions t = rt_executions s \<and> rt_sandboxes t = rt_sandboxes s \<and> rt_status t = rt_status s \<and>
     budgets t = budgets s \<and> consumptions t = consumptions s"

lemma refuse_kept: "kept t (snd (refuse E ag a rn tr d p iid rp t))"
  by (simp add: kept_def refuse_def case_prod_beta)

lemma validate_and_approve_kept: "kept t (snd (validate_and_approve E ag role a iid rp t))"
proof (cases "fst (validateAction E a t)")
  case VOk
  then show ?thesis by (simp add: kept_def validate_and_approve_def case_prod_beta)
next
  case (VFail r v)
  then show ?thesis by (simp add: kept_def validate_and_approve_def refuse_def case_prod_beta)
qed

lemma kept_trans: "kept s t \<Longrightarrow> kept t u \<Longrightarrow> kept s u"
  by (simp add: kept_def)

lemma govern_none_kept: "kept s (snd (kernelGovernAction E ag role a None s))"
proof -
  obtain r where ap: "snd (apidMiddleware E ag a (ready E s)) =
      updateThreatLedger ag r ((ready E s)\<lparr>tick := tick (ready E s) + 2\<rparr>)"
    using apidMiddleware_effect [of E ag a "ready E s"] by auto
  let ?t = "snd (apidMiddleware E ag a (ready E s))"
  have "kept s ?t" by (simp add: ap kept_def)
  moreover have "kept ?t (snd (kernelGovernAction E ag role a None s))"
    unfolding kernelGovernAction_def ready_def [symmetric]
    by (auto simp: Let_def case_prod_beta nonempty_def refuse_kept validate_and_approve_kept split: option.split)
  ultimately show ?thesis by (rule kept_trans)
qed

lemma begin_effect:
  assumes "begin_execution E wid ag role level s = (x, s1)"
  shows "ex_status x = ''running''" "ex_error x = None" "ex_completed x = None"
    "ex_workflow x = wid" "ex_agent x = ag" "ex_role x = role"
    "rt_executions s1 = rt_executions s @ [x]" "rt_status s1 = RT_EXECUTING"
    "\<exists>sb. getSandbox (uuid_at E (tick s)) s1 = Some sb \<and> ex_sandbox x = Some (sb_id sb) \<and> sb_level sb = level"
    "budgets s1 = budgets s" "consumptions s1 = consumptions s" "boundaries s1 = boundaries s"
    "validates a (ready E s1) = validates a (ready E s)"
  using assms by (auto simp: begin_execution_def createSandbox_def getSandbox_def take_uuid_def take_now_def Let_def)

lemma in_boundary_ready [simp]: "in_boundary role a (ready E s) = in_boundary role a s"
  by (simp add: in_boundary_def)

lemma execute_workflow_effect:
  assumes "executeWorkflow E wid ag role a level s = (x, s')"
  shows "ex_status x = (if clean a \<and> in_boundary role a s \<and> validates a (ready E s) then ''running'' else ''failed'')"
    and "ex_error x = None \<longleftrightarrow> ex_status x = ''running''"
    and "rt_status s' = (if ex_status x = ''running'' then RT_EXECUTING else RT_ERROR)"
    and "rt_executions s' = rt_executions s @ [x]" and "budgets s' = budgets s" and "consumptions s' = consumptions s"
    and "\<exists>sb. getSandbox (uuid_at E (tick s)) s' = Some sb \<and> ex_sandbox x = Some (sb_id sb) \<and> sb_level sb = level"
proof -
  obtain x0 s1 where b: "begin_execution E wid ag role level s = (x0, s1)" by fastforce
  obtain gov s2 where g: "kernelGovernAction E ag role a None s1 = (gov, s2)" by fastforce
  note x0 = begin_effect [OF b]
  have ap: "gr_approved gov \<longleftrightarrow> clean a \<and> in_boundary role a s \<and> validates a (ready E s)"
    using govern_effect(1) [OF g] x0(12,13) by (auto simp: nonempty_def in_boundary_def)
  from govern_none_kept [of s1 E ag role a] g have k: "kept s1 s2" by simp
  have "ex_status x = (if clean a \<and> in_boundary role a s \<and> validates a (ready E s) then ''running'' else ''failed'') \<and>
     (ex_error x = None \<longleftrightarrow> ex_status x = ''running'') \<and>
     rt_status s' = (if ex_status x = ''running'' then RT_EXECUTING else RT_ERROR) \<and>
     rt_executions s' = rt_executions s @ [x] \<and> budgets s' = budgets s \<and> consumptions s' = consumptions s \<and>
     (\<exists>sb. getSandbox (uuid_at E (tick s)) s' = Some sb \<and> ex_sandbox x = Some (sb_id sb) \<and> sb_level sb = level)"
  proof (cases "gr_approved gov")
    case True
    with assms b g have "x = x0" "s' = s2" by (simp_all add: executeWorkflow_def)
    with True ap k x0 show ?thesis by (simp add: kept_def getSandbox_def)
  next
    case False
    define why where "why = (case gr_reason gov of Some r \<Rightarrow> r | None \<Rightarrow> ''Constitutional check failed'')"
    define x1 where "x1 = x0\<lparr>ex_status := ''failed'', ex_error := Some why, ex_completed := Some (now_at E (tick s2))\<rparr>"
    have "executeWorkflow E wid ag role a level s = (x1, log_csr E ''workflow-execution-blocked'' ''runtime''
        [(''executionId'', JStr (ex_id x0)), (''reason'', JStr why)] None RUNTIME
        (s2\<lparr>tick := Suc (tick s2), rt_executions := butlast (rt_executions s2) @ [x1], rt_status := RT_ERROR\<rparr>))"
      using False b g by (simp add: executeWorkflow_def take_now_def Let_def why_def x1_def)
    with assms have "x = x1" "s' = log_csr E ''workflow-execution-blocked'' ''runtime''
        [(''executionId'', JStr (ex_id x0)), (''reason'', JStr why)] None RUNTIME
        (s2\<lparr>tick := Suc (tick s2), rt_executions := butlast (rt_executions s2) @ [x1], rt_status := RT_ERROR\<rparr>)" by auto
    moreover have "ex_status x1 = ''failed''" "ex_error x1 = Some why" "ex_sandbox x1 = ex_sandbox x0" by (simp_all add: x1_def)
    ultimately show ?thesis using False ap k x0 by (simp add: kept_def getSandbox_def)
  qed
  then show "ex_status x = (if clean a \<and> in_boundary role a s \<and> validates a (ready E s) then ''running'' else ''failed'')"
    and "ex_error x = None \<longleftrightarrow> ex_status x = ''running''"
    and "rt_status s' = (if ex_status x = ''running'' then RT_EXECUTING else RT_ERROR)"
    and "rt_executions s' = rt_executions s @ [x]" and "budgets s' = budgets s" and "consumptions s' = consumptions s"
    and "\<exists>sb. getSandbox (uuid_at E (tick s)) s' = Some sb \<and> ex_sandbox x = Some (sb_id sb) \<and> sb_level sb = level"
    by blast+
qed

lemma complete_effect:
  assumes "getExecution k s = Some x"
  shows "\<exists>y. getExecution k (completeExecution E k r s) = Some y \<and> ex_status y = ''completed'' \<and> ex_result y = r \<and>
     rt_status (completeExecution E k r s) = RT_IDLE"
proof -
  from assms have f: "List.find (\<lambda>e. ex_id e = k) (rt_executions s) = Some x" by (simp add: getExecution_def)
  have "List.find (\<lambda>e. ex_id e = k) (update_first (\<lambda>e. ex_id e = k)
      (\<lambda>e. e\<lparr>ex_status := ''completed'', ex_result := r, ex_completed := Some t\<rparr>) (rt_executions s)) =
      Some (x\<lparr>ex_status := ''completed'', ex_result := r, ex_completed := Some t\<rparr>)" for t
    using find_SomeD [OF f] by (intro find_update_first [OF f]) simp
  with f show ?thesis by (simp add: completeExecution_def getExecution_def take_now_def Let_def)
qed

subsection \<open>Properties\<close>

text \<open>Which executions of a workflow start. The execution runs exactly when the action's text is clean, the
  agent's role has a boundary that lists the action and the action validates; otherwise it has failed
  with a reason. Either way one execution is recorded, in a sandbox of the level asked for. Because no
  intent is passed on, no lifecycle is consulted and no budget is charged: an agent whose budget is
  exhausted executes all the same. An execution that was blocked can be completed afterwards, which
  also clears the runtime's error.\<close>

theorem workflow_execution_spec:
  assumes "executeWorkflow E wid ag role a level s = (x, s')"
  shows "ex_status x = (if clean a \<and> in_boundary role a s \<and> validates a (ready E s) then ''running'' else ''failed'') \<and>
     (ex_error x = None \<longleftrightarrow> ex_status x = ''running'') \<and>
     getRuntimeStatus s' = (if ex_status x = ''running'' then RT_EXECUTING else RT_ERROR) \<and>
     listExecutions s' = listExecutions s @ [x] \<and>
     (\<exists>k sb. getSandbox k s' = Some sb \<and> ex_sandbox x = Some (sb_id sb) \<and> sb_level sb = level) \<and>
     budgets s' = budgets s \<and> consumptions s' = consumptions s \<and>
     (getExecution (ex_id x) s = None \<longrightarrow> (\<exists>y. getExecution (ex_id x) (completeExecution E (ex_id x) r s') = Some y \<and>
        ex_status y = ''completed'' \<and> getRuntimeStatus (completeExecution E (ex_id x) r s') = RT_IDLE))"
proof (intro conjI impI)
  note e = execute_workflow_effect [OF assms]
  show "ex_status x = (if clean a \<and> in_boundary role a s \<and> validates a (ready E s) then ''running'' else ''failed'')"
    "ex_error x = None \<longleftrightarrow> ex_status x = ''running''" "budgets s' = budgets s" "consumptions s' = consumptions s"
    using e by blast+
  show "getRuntimeStatus s' = (if ex_status x = ''running'' then RT_EXECUTING else RT_ERROR)" "listExecutions s' = listExecutions s @ [x]"
    using e by (simp_all add: getRuntimeStatus_def listExecutions_def)
  show "\<exists>k sb. getSandbox k s' = Some sb \<and> ex_sandbox x = Some (sb_id sb) \<and> sb_level sb = level" using e by blast
  assume "getExecution (ex_id x) s = None"
  then have "getExecution (ex_id x) s' = Some x" using e(4) by (simp add: getExecution_def find_append)
  from complete_effect [OF this]
  show "\<exists>y. getExecution (ex_id x) (completeExecution E (ex_id x) r s') = Some y \<and>
        ex_status y = ''completed'' \<and> getRuntimeStatus (completeExecution E (ex_id x) r s') = RT_IDLE"
    by (auto simp: getRuntimeStatus_def)
qed

definition demo_runtime :: runtime_st where
  "demo_runtime = kernel_st.extend (demo_governed Proposed) \<lparr>rt_executions = [], rt_sandboxes = [], rt_status = RT_IDLE\<rparr>"

theorem workflow_execution_witness:
  "getRuntimeStatus (snd (executeWorkflow demo_env ''w'' ''b'' ''builder'' demo_action SB_ISOLATED demo_runtime)) = RT_EXECUTING \<and>
   getRuntimeStatus (snd (executeWorkflow demo_env ''w'' ''b'' ''reviewer'' demo_action SB_ISOLATED demo_runtime)) = RT_ERROR"
proof -
  have b: "in_boundary ''builder'' demo_action demo_runtime" "\<not> in_boundary ''reviewer'' demo_action demo_runtime"
    by (simp_all add: in_boundary_def demo_runtime_def kernel_st.defs demo_governed_def demo_action_def init_kernel_def)
  have "seeded demo_runtime" "gov_invariants demo_runtime = gov_invariants (demo_governed Proposed)"
    by (simp_all add: demo_runtime_def kernel_st.defs demo_governed_def init_kernel_def)
  then have "validates demo_action (ready demo_env demo_runtime)"
    using demo_gates(2) [of Proposed] by (simp add: validates_def ready_def)
  then show ?thesis
    using workflow_execution_spec [OF surjective_pairing, of demo_env "''w''" "''b''" "''builder''" demo_action SB_ISOLATED demo_runtime]
      workflow_execution_spec [OF surjective_pairing, of demo_env "''w''" "''b''" "''reviewer''" demo_action SB_ISOLATED demo_runtime]
      b demo_action_clean by simp
qed

end
