(* ===== verification/Federation.thy ===== *)
theory Federation
  imports GovLedger
begin

text \<open>
  Federated governance: the exchange of constitutional context records
  (\<open>agent/federation/ccrExchange.ts\<close>), the validation of evidence and lineage of other runtimes
  (\<open>agent/federation/federatedValidator.ts\<close>) and the certification of arenas
  (\<open>agent/federation/arena.ts\<close> with the tables of \<open>inas/spec/arena.ts\<close>).
  What another runtime sends may lack fields: those the code tests are options here. The
  properties of an object are written in the order its type declares them.
\<close>

text \<open>A timestamp as text: one that \<open>Date\<close> reads, or other text, for which \<open>getTime\<close> is not a number.\<close>

datatype stamp = Iso time | Text string

definition stamp_text :: "stamp \<Rightarrow> string" where
  "stamp_text t = (case t of Iso x \<Rightarrow> iso_string x | Text x \<Rightarrow> x)"

record evidence_item =
  ei_type :: "string option"
  ei_id :: "string option"
  ei_time :: "stamp option"
  ei_auth :: "string option"
  ei_body :: json
  ei_signature :: "string option"

definition str_field :: "string \<Rightarrow> string option \<Rightarrow> (string \<times> json) list" where
  "str_field k x = (case x of None \<Rightarrow> [] | Some v \<Rightarrow> [(k, JStr v)])"

definition item_json :: "evidence_item \<Rightarrow> json" where
  "item_json e = JObj (str_field ''type'' (ei_type e) @ str_field ''id'' (ei_id e) @
     str_field ''timestamp'' (map_option stamp_text (ei_time e)) @ str_field ''authority'' (ei_auth e) @
     [(''body'', ei_body e)] @ str_field ''signature'' (ei_signature e))"

text \<open>Whether a string value is truthy, and how a template shows it.\<close>

definition filled :: "string option \<Rightarrow> bool" where
  "filled x \<longleftrightarrow> x \<noteq> None \<and> x \<noteq> Some []"

definition tmpl :: "string option \<Rightarrow> string" where
  "tmpl x = (case x of None \<Rightarrow> ''undefined'' | Some v \<Rightarrow> v)"

definition has_time :: "evidence_item \<Rightarrow> bool" where
  "has_time e = filled (map_option stamp_text (ei_time e))"

subsection \<open>Context records\<close>

record ccr_intent =
  ci_id :: string
  ci_goal :: string
  ci_constraints :: "string list option"
  ci_required :: bool

record exec_context =
  ec_action :: string
  ec_payload :: "(string \<times> json) list"
  ec_sandbox :: bool
  ec_timeout :: "jsnum option"

record environment =
  en_runtime :: string
  en_version :: string
  en_platform :: string
  en_hostname :: "string option"
  en_additional :: "(string \<times> string) list option"

record ccr =
  cc_id :: string
  cc_time :: stamp
  cc_auth :: string
  cc_lineage :: "string list"
  cc_prev :: string
  cc_hash :: string
  cc_intent :: "ccr_intent option"
  cc_context :: exec_context
  cc_environment :: environment
  cc_evidence :: "evidence_item list"
  cc_origin :: string
  cc_integrity :: string

record federated_ccr = ccr +
  fc_source :: string
  fc_target :: "string option"
  fc_federation :: string
  fc_ttl :: "jsnum option"

definition intent_json :: "ccr_intent \<Rightarrow> json" where
  "intent_json i = JObj ([(''id'', JStr (ci_id i)), (''goal'', JStr (ci_goal i))] @
     (case ci_constraints i of None \<Rightarrow> [] | Some cs \<Rightarrow> [(''constraints'', jstrs cs)]) @ [(''evidenceRequired'', JBool (ci_required i))])"

definition context_json :: "exec_context \<Rightarrow> json" where
  "context_json c = JObj ([(''action'', JStr (ec_action c)), (''payload'', JObj (ec_payload c)), (''sandbox'', JBool (ec_sandbox c))] @
     (case ec_timeout c of None \<Rightarrow> [] | Some t \<Rightarrow> [(''timeout'', JNum t)]))"

definition environment_json :: "environment \<Rightarrow> json" where
  "environment_json e = JObj ([(''runtime'', JStr (en_runtime e)), (''runtimeVersion'', JStr (en_version e)),
     (''platform'', JStr (en_platform e))] @ str_field ''hostname'' (en_hostname e) @
     (case en_additional e of None \<Rightarrow> [] | Some kvs \<Rightarrow> [(''additional'', JObj (map (\<lambda>(k, v). (k, JStr v)) kvs))]))"

definition buildCCR ::
    "sysenv \<Rightarrow> ccr_intent \<Rightarrow> exec_context \<Rightarrow> environment \<Rightarrow> evidence_item list \<Rightarrow> 'a sys_st_scheme \<Rightarrow> ccr \<times> 'a sys_st_scheme" where
  "buildCCR E i c env evs s =
     (let (u, s1) = take_uuid E s; (t, s2) = take_now E s1;
          h = sha256 E (stringify (JObj [(''id'', JStr u), (''timestamp'', JStr (iso_string t)), (''intent'', intent_json i),
                (''executionContext'', context_json c), (''environment'', environment_json env),
                (''evidence'', JArr (map item_json evs))]))
      in (\<lparr>cc_id = u, cc_time = Iso t, cc_auth = ''nova-agent'', cc_lineage = [h], cc_prev = h, cc_hash = h, cc_intent = Some i,
           cc_context = c, cc_environment = env, cc_evidence = evs, cc_origin = u, cc_integrity = h\<rparr>, s2))"

text \<open>The first record gives the intent, or a made-up one with an identifier of its own.\<close>

definition first_intent :: "sysenv \<Rightarrow> ccr list \<Rightarrow> 'a sys_st_scheme \<Rightarrow> ccr_intent \<times> 'a sys_st_scheme" where
  "first_intent E cs s =
     (case (case cs of [] \<Rightarrow> None | c # _ \<Rightarrow> cc_intent c) of
        Some i \<Rightarrow> (i, s)
      | None \<Rightarrow> let (u, s1) = take_uuid E s
                 in (\<lparr>ci_id = u, ci_goal = ''federated'', ci_constraints = None, ci_required = False\<rparr>, s1))"

definition federateCCR :: "sysenv \<Rightarrow> ccr list \<Rightarrow> string \<Rightarrow> 'a sys_st_scheme \<Rightarrow> federated_ccr \<times> 'a sys_st_scheme" where
  "federateCCR E cs target s =
     (let (u, s1) = take_uuid E s; (t, s2) = take_now E s1;
          hashes = map cc_hash cs;
          h = sha256 E (stringify (JObj [(''federatedId'', JStr u), (''sources'', jstrs (map cc_id cs)),
                (''targetRuntime'', JStr target), (''sourceHashes'', jstrs hashes)]));
          (i, s3) = first_intent E cs s2
      in (\<lparr>cc_id = u, cc_time = Iso t, cc_auth = ''nova-federation'', cc_lineage = hashes,
           cc_prev = (if hashes = [] then h else last hashes), cc_hash = h, cc_intent = Some i,
           cc_context = (case cs of c # _ \<Rightarrow> cc_context c
             | [] \<Rightarrow> \<lparr>ec_action = ''federated'', ec_payload = [], ec_sandbox = True, ec_timeout = None\<rparr>),
           cc_environment = (case cs of c # _ \<Rightarrow> cc_environment c
             | [] \<Rightarrow> \<lparr>en_runtime = target, en_version = ''0'', en_platform = ''federated'', en_hostname = None, en_additional = None\<rparr>),
           cc_evidence = concat (map cc_evidence cs), cc_origin = u, cc_integrity = h,
           fc_source = ''nova-agent'', fc_target = Some target, fc_federation = u, fc_ttl = Some 300000\<rparr>, s3))"

definition validateCCR :: "'a ccr_scheme \<Rightarrow> bool \<times> string list" where
  "validateCCR c =
     (let errors = (if cc_id c = [] then [''CCR missing id''] else []) @
            (if cc_intent c = None then [''CCR missing intent''] else []) @
            (if stamp_text (cc_time c) = [] then [''CCR missing timestamp''] else []) @
            (if cc_evidence c = [] then [''CCR missing evidence''] else []) @
            (if cc_hash c = [] then [''CCR missing hash''] else [])
      in (errors = [], errors))"

text \<open>\<open>now\<close> is the clock; the age of a record whose timestamp cannot be read is not a number, and passes.\<close>

definition ttl_warning :: "time \<Rightarrow> 'a federated_ccr_scheme \<Rightarrow> string list" where
  "ttl_warning now f =
     (case fc_ttl f of
        None \<Rightarrow> []
      | Some ttl \<Rightarrow>
          if ttl = 0 then []
          else (case cc_time f of
                  Iso t \<Rightarrow> if of_int (now - t) > ttl
                           then [''Federated CCR TTL expired (age: '' @ show_int (now - t) @ ''ms, ttl: '' @ num_str ttl @ ''ms)'']
                           else []
                | Text _ \<Rightarrow> []))"

definition receiveFederatedCCR :: "time \<Rightarrow> 'a federated_ccr_scheme \<Rightarrow> bool \<times> string list" where
  "receiveFederatedCCR now f =
     (let warnings = (if fc_federation f = [] then [''No federation ID''] else []) @ ttl_warning now f
      in (warnings = [], warnings))"

subsection \<open>Evidence and lineage of other runtimes\<close>

definition item_errors :: "evidence_item \<Rightarrow> string list" where
  "item_errors e =
     (if filled (ei_id e) then [] else [''Evidence missing id: '' @ stringify (item_json e)]) @
     (if filled (ei_type e) then [] else [''Evidence missing type: '' @ stringify (item_json e)])"

definition item_warnings :: "evidence_item \<Rightarrow> string list" where
  "item_warnings e =
     (if filled (ei_auth e) then [] else [''Evidence missing authority: '' @ tmpl (ei_id e)]) @
     (if has_time e then [] else [''Evidence missing timestamp: '' @ tmpl (ei_id e)])"

definition validateFederatedEvidence :: "evidence_item list \<Rightarrow> string \<Rightarrow> bool \<times> string list \<times> string list" where
  "validateFederatedEvidence evs source =
     (let errors = concat (map item_errors evs);
          warnings = concat (map item_warnings evs) @ (if evs = [] then [''No evidence provided from runtime: '' @ source] else [])
      in (errors = [], errors, warnings))"

text \<open>Of a state record the federation reads its identifier, its hashes and two flags.\<close>

record remote_csr =
  rc_id :: string
  rc_prev :: string
  rc_hash :: string
  rc_valid :: bool
  rc_replayable :: bool

fun lineage_gaps_of :: "remote_csr list \<Rightarrow> string list" where
  "lineage_gaps_of (p # c # rest) =
     (if rc_prev c \<noteq> [] \<and> rc_hash p \<noteq> rc_prev c
      then (''Lineage gap between CSR '' @ rc_id p @ '' and '' @ rc_id c @ '': hash mismatch'') # lineage_gaps_of (c # rest)
      else lineage_gaps_of (c # rest))"
| "lineage_gaps_of _ = []"

definition verifyCrossRuntimeLineage :: "remote_csr list \<Rightarrow> bool \<times> string list" where
  "verifyCrossRuntimeLineage cs = (let gaps = lineage_gaps_of cs in (gaps = [], gaps))"

definition inas_passed :: "ccr list \<Rightarrow> remote_csr list \<Rightarrow> string \<Rightarrow> bool" where
  "inas_passed cs rs i =
     (if i = ''INAS-E001'' then sum_list (map (\<lambda>c. length (cc_evidence c)) cs) > 0 \<or> rs \<noteq> []
      else if i = ''INAS-E002'' then list_all (\<lambda>c. list_all (\<lambda>e. filled (ei_auth e) \<and> has_time e) (cc_evidence c)) cs
      else if i = ''INAS-X001'' then list_all rc_valid rs
      else if i = ''INAS-R001'' then list_all rc_replayable rs
      else True)"

definition checkINASInvariants :: "ccr list \<Rightarrow> remote_csr list \<Rightarrow> (string \<times> bool) list" where
  "checkINASInvariants cs rs = map (\<lambda>iv. (ia_id iv, inas_passed cs rs (ia_id iv))) INAS_INVARIANTS"

record assurance_claim =
  cm_claim :: string
  cm_evidence :: "string list"
  cm_satisfied :: bool

record assurance_proof =
  pf_id :: string
  pf_time :: time
  pf_auth :: string
  pf_lineage :: "string list"
  pf_prev :: string
  pf_level :: string
  pf_claims :: "assurance_claim list"
  pf_data :: json
  pf_verifiable :: bool
  pf_hash :: string

definition claim_json :: "assurance_claim \<Rightarrow> json" where
  "claim_json c = JObj [(''claim'', JStr (cm_claim c)), (''evidence'', jstrs (cm_evidence c)), (''satisfied'', JBool (cm_satisfied c))]"

definition proof_json :: "assurance_proof \<Rightarrow> json" where
  "proof_json p = JObj [(''id'', JStr (pf_id p)), (''timestamp'', JStr (iso_string (pf_time p))), (''authority'', JStr (pf_auth p)),
     (''lineage'', jstrs (pf_lineage p)), (''previousHash'', JStr (pf_prev p)), (''level'', JStr (pf_level p)),
     (''claims'', JArr (map claim_json (pf_claims p))), (''proofData'', pf_data p), (''verifiable'', JBool (pf_verifiable p))]"

definition proof_claims :: "ccr list \<Rightarrow> remote_csr list \<Rightarrow> assurance_claim list" where
  "proof_claims cs rs =
     [\<lparr>cm_claim = ''All evidence has valid provenance'', cm_evidence = map cc_id cs,
       cm_satisfied = list_all (\<lambda>c. list_all (\<lambda>e. filled (ei_auth e)) (cc_evidence c)) cs\<rparr>,
      \<lparr>cm_claim = ''CSR lineage is complete across runtimes'', cm_evidence = map rc_id rs,
       cm_satisfied = fst (verifyCrossRuntimeLineage rs)\<rparr>,
      \<lparr>cm_claim = ''All INAS invariants are satisfied'', cm_evidence = map cc_id cs,
       cm_satisfied = list_all snd (checkINASInvariants cs rs)\<rparr>]"

definition generateFederatedAssuranceProof ::
    "sysenv \<Rightarrow> ccr list \<Rightarrow> remote_csr list \<Rightarrow> string list \<Rightarrow> string \<Rightarrow> 'a sys_st_scheme \<Rightarrow> assurance_proof \<times> 'a sys_st_scheme" where
  "generateFederatedAssuranceProof E cs rs runtimes level s =
     (let (u, s1) = take_uuid E s; (t, s2) = take_now E s1;
          tail = (if cs \<noteq> [] then cc_hash (last cs) else if rs \<noteq> [] then rc_hash (last rs) else ''genesis'');
          p = \<lparr>pf_id = u, pf_time = t, pf_auth = ''nova-federation'', pf_lineage = [tail], pf_prev = tail, pf_level = level,
               pf_claims = proof_claims cs rs,
               pf_data = JObj [(''runtimeCount'', jnat (length runtimes)), (''sourceRuntimes'', jstrs runtimes),
                 (''ccrsCount'', jnat (length cs)), (''csrsCount'', jnat (length rs)), (''assuranceLevel'', JStr level),
                 (''invariantResults'', JArr (map (\<lambda>(i, b). JObj [(''invariantId'', JStr i), (''passed'', JBool b)])
                    (checkINASInvariants cs rs)))],
               pf_verifiable = True, pf_hash = []\<rparr>
      in (p\<lparr>pf_hash := sha256 E (stringify (proof_json p))\<rparr>, s2))"

text \<open>The loop keeps the identifiers seen; an absent identifier is one value of the set too.\<close>

fun merge_loop :: "string option set \<Rightarrow> evidence_item list \<Rightarrow> evidence_item list" where
  "merge_loop seen [] = []"
| "merge_loop seen (e # es) = (if ei_id e \<in> seen then merge_loop seen es else e # merge_loop (insert (ei_id e) seen) es)"

definition mergeEvidenceChains :: "evidence_item list \<Rightarrow> evidence_item list \<Rightarrow> evidence_item list" where
  "mergeEvidenceChains local remote = merge_loop {} (local @ remote)"

subsection \<open>Merging\<close>

lemma merge_append: "merge_loop S (xs @ ys) = merge_loop S xs @ merge_loop (S \<union> ei_id ` set xs) ys"
  by (induction S xs rule: merge_loop.induct) (simp_all add: insert_absorb Un_insert_left)

lemma merge_merge: "merge_loop S (merge_loop T xs) = merge_loop (S \<union> T) xs"
proof (induction xs arbitrary: S T)
  case (Cons e es)
  have "merge_loop (insert (ei_id e) S) (merge_loop (insert (ei_id e) T) es) = merge_loop (insert (ei_id e) (S \<union> T)) es"
    using Cons.IH [of "insert (ei_id e) S" "insert (ei_id e) T"] by (simp add: insert_commute)
  moreover have "merge_loop S (merge_loop (insert (ei_id e) T) es) = merge_loop (S \<union> T) es" if "ei_id e \<in> S"
    using Cons.IH [of S "insert (ei_id e) T"] that by (simp add: insert_absorb)
  ultimately show ?case using Cons.IH [of S T] by auto
qed simp

lemma merge_ids: "ei_id ` set (merge_loop S xs) = ei_id ` set xs - S"
  by (induction S xs rule: merge_loop.induct) auto

lemma merge_distinct: "distinct (map ei_id (merge_loop S xs))"
  by (induction S xs rule: merge_loop.induct) (use merge_ids in auto)

lemma merge_subset: "e \<in> set (merge_loop S xs) \<Longrightarrow> e \<in> set xs \<and> ei_id e \<notin> S"
  by (induction S xs rule: merge_loop.induct) (auto split: if_splits)

lemma merge_distinct_same: "distinct (map ei_id xs) \<Longrightarrow> ei_id ` set xs \<inter> S = {} \<Longrightarrow> merge_loop S xs = xs"
  by (induction S xs rule: merge_loop.induct) auto

lemma merge_chains: "mergeEvidenceChains a b = merge_loop {} a @ merge_loop (ei_id ` set a) b"
  by (simp add: mergeEvidenceChains_def merge_append)

lemma merge_assoc: "mergeEvidenceChains (mergeEvidenceChains a b) c = mergeEvidenceChains a (mergeEvidenceChains b c)"
  by (simp add: mergeEvidenceChains_def merge_append merge_merge merge_ids image_Un Un_assoc)

subsection \<open>Lineage and proofs\<close>

lemma all_nat_cases: "(\<forall>i. P i) \<longleftrightarrow> P 0 \<and> (\<forall>i. P (Suc i))"
  by (metis not0_implies_Suc)

lemma gaps_None: "lineage_gaps_of rs = [] \<longleftrightarrow> (\<forall>i. Suc i < length rs \<longrightarrow> rc_prev (rs ! Suc i) \<in> {[], rc_hash (rs ! i)})"
proof (induction rs rule: lineage_gaps_of.induct)
  case (1 p c rest)
  have "(\<forall>i. Suc i < length (p # c # rest) \<longrightarrow> rc_prev ((p # c # rest) ! Suc i) \<in> {[], rc_hash ((p # c # rest) ! i)}) \<longleftrightarrow>
      rc_prev c \<in> {[], rc_hash p} \<and> (\<forall>i. Suc i < length (c # rest) \<longrightarrow> rc_prev ((c # rest) ! Suc i) \<in> {[], rc_hash ((c # rest) ! i)})"
    by (subst all_nat_cases) simp
  with 1 show ?case by auto
qed simp_all

lemma iso_nonempty [simp]: "iso_string t \<noteq> []"
  by (simp only: iso_string_def Let_def append_is_Nil_conv list.distinct simp_thms)

lemma federate_fields:
  assumes "federateCCR E cs target s = (f, s')"
  shows "cc_id f = uuid_at E (tick s)" "fc_federation f = uuid_at E (tick s)" "cc_time f = Iso (now_at E (Suc (tick s)))"
    "fc_ttl f = Some 300000" "cc_lineage f = map cc_hash cs" "cc_evidence f = concat (map cc_evidence cs)" "cc_intent f \<noteq> None"
    "cc_hash f = sha256 E (stringify (JObj [(''federatedId'', JStr (cc_id f)), (''sources'', jstrs (map cc_id cs)),
                (''targetRuntime'', JStr target), (''sourceHashes'', jstrs (map cc_hash cs))]))"
  using assms by (auto simp: federateCCR_def take_uuid_def take_now_def Let_def case_prod_beta)

lemma ttl_iff: "cc_time f = Iso t \<Longrightarrow> fc_ttl f = Some 300000 \<Longrightarrow> ttl_warning now f = [] \<longleftrightarrow> now \<le> t + 300000"
proof -
  assume a: "cc_time f = Iso t" "fc_ttl f = Some 300000"
  have "(of_int (now - t) > (300000 :: rat)) \<longleftrightarrow> now - t > 300000"
    by (metis of_int_less_iff of_int_numeral)
  with a show ?thesis by (auto simp: ttl_warning_def)
qed

subsection \<open>Properties\<close>

text \<open>The merge of the evidence of two runtimes: one item per identifier, in the order local then remote.
  An item that both sides have is the local one, so a remote runtime can add evidence but replace none.
  Merging is associative, so the order in which runtimes are merged pairwise does not matter, and
  merging the same chain again changes nothing.\<close>

theorem evidence_merge:
  assumes "m = mergeEvidenceChains local remote"
  shows "distinct (map ei_id m) \<and> ei_id ` set m = ei_id ` (set local \<union> set remote) \<and>
     (distinct (map ei_id local) \<longrightarrow> take (length local) m = local) \<and>
     (\<forall>e\<in>set m. e \<in> set local \<or> e \<in> set remote \<and> ei_id e \<notin> ei_id ` set local) \<and>
     mergeEvidenceChains m remote = m \<and>
     (\<forall>other. mergeEvidenceChains m other = mergeEvidenceChains local (mergeEvidenceChains remote other))"
proof (intro conjI impI)
  show "distinct (map ei_id m)" "ei_id ` set m = ei_id ` (set local \<union> set remote)"
    using merge_distinct by (simp_all add: assms mergeEvidenceChains_def merge_ids)
  show "take (length local) m = local" if "distinct (map ei_id local)"
    using that by (simp add: assms merge_chains merge_distinct_same)
  show "\<forall>e\<in>set m. e \<in> set local \<or> e \<in> set remote \<and> ei_id e \<notin> ei_id ` set local"
    by (auto simp: assms merge_chains dest: merge_subset)
  have "mergeEvidenceChains remote remote = merge_loop {} remote @ merge_loop (ei_id ` set remote) remote" by (rule merge_chains)
  moreover have "merge_loop (ei_id ` set remote) remote = []"
    using merge_ids [of "ei_id ` set remote" remote] by simp
  ultimately have "mergeEvidenceChains m remote = mergeEvidenceChains local (merge_loop {} remote)"
    by (simp add: assms merge_assoc)
  then show "mergeEvidenceChains m remote = m" by (simp add: assms mergeEvidenceChains_def merge_append merge_merge)
  show "\<forall>other. mergeEvidenceChains m other = mergeEvidenceChains local (mergeEvidenceChains remote other)"
    by (simp add: assms merge_assoc)
qed

definition demo_item :: "string \<Rightarrow> string \<Rightarrow> evidence_item" where
  "demo_item i b = \<lparr>ei_type = Some ''event'', ei_id = Some i, ei_time = Some (Iso 0), ei_auth = Some ''a'', ei_body = JStr b,
     ei_signature = None\<rparr>"

theorem evidence_merge_witness:
  "take 1 (mergeEvidenceChains [demo_item ''x'' ''local''] [demo_item ''x'' ''forged'', demo_item ''y'' ''new'']) =
     [demo_item ''x'' ''local'']"
  using evidence_merge [OF refl, of "[demo_item ''x'' ''local'']" "[demo_item ''x'' ''forged'', demo_item ''y'' ''new'']"] by simp

text \<open>What a federated record carries and when it is accepted. The record carries the hashes of its sources as
  lineage and all their evidence; it is valid exactly when there is some evidence, and it is
  accepted exactly in the five minutes after its making. Its hash covers the identifiers and hashes of the
  sources only, and receiving checks neither the hash nor anything else: a record whose
  intent, evidence, lineage and hash were replaced on the way is accepted all the same.\<close>

theorem federated_exchange:
  assumes "federateCCR E cs target s = (f, s')" and "uuid_at E (tick s) \<noteq> []" and "\<And>x. sha256 E x \<noteq> []"
  shows "cc_lineage f = map cc_hash cs \<and> cc_evidence f = concat (map cc_evidence cs) \<and>
     (fst (validateCCR f) \<longleftrightarrow> (\<exists>c\<in>set cs. cc_evidence c \<noteq> [])) \<and>
     (fst (receiveFederatedCCR now f) \<longleftrightarrow> now \<le> now_at E (Suc (tick s)) + 300000) \<and>
     fst (receiveFederatedCCR now (f\<lparr>cc_intent := i, cc_evidence := evs, cc_lineage := l, cc_hash := h\<rparr>)) =
       fst (receiveFederatedCCR now f)"
proof -
  note f = federate_fields [OF assms(1)]
  have "fst (validateCCR f) \<longleftrightarrow> (\<exists>c\<in>set cs. cc_evidence c \<noteq> [])"
    using f assms(2,3) by (simp add: validateCCR_def stamp_text_def Let_def)
  moreover have "fst (receiveFederatedCCR now f) \<longleftrightarrow> now \<le> now_at E (Suc (tick s)) + 300000"
    using ttl_iff [OF f(3,4)] f(2) assms(2) by (simp add: receiveFederatedCCR_def Let_def)
  moreover have "ttl_warning now (f\<lparr>cc_intent := i, cc_evidence := evs, cc_lineage := l, cc_hash := h\<rparr>) = ttl_warning now f"
    by (simp add: ttl_warning_def split: option.split)
  ultimately show ?thesis using f by (simp add: receiveFederatedCCR_def Let_def)
qed

theorem federated_exchange_witness:
  "\<not> fst (receiveFederatedCCR (now_at demo_env 2 + 300001) (fst (federateCCR demo_env [] ''ciems'' \<lparr>tick = 1\<rparr>)))"
proof -
  have "uuid_at demo_env 1 \<noteq> []" "\<And>x. sha256 demo_env x \<noteq> []" by (simp_all add: demo_env_def)
  then show ?thesis
    using federated_exchange [OF surjective_pairing, of demo_env "\<lparr>tick = 1\<rparr>" "[]" "''ciems''" "now_at demo_env 2 + 300001"]
    by (simp add: numeral_2_eq_2)
qed

text \<open>What a federated assurance proof asserts: its three claims are all satisfied exactly when every piece of
  evidence names an authority and a time, each state record names no previous hash or that of the
  record before it, every record is valid and replayable, and there is some evidence or some record. A
  record with an empty previous hash passes the lineage check wherever it stands.\<close>

theorem assurance_proof_spec:
  "(\<forall>c\<in>set (pf_claims (fst (generateFederatedAssuranceProof E cs rs runtimes level s))). cm_satisfied c) \<longleftrightarrow>
     (\<forall>c\<in>set cs. \<forall>e\<in>set (cc_evidence c). filled (ei_auth e) \<and> has_time e) \<and>
     (\<forall>i. Suc i < length rs \<longrightarrow> rc_prev (rs ! Suc i) \<in> {[], rc_hash (rs ! i)}) \<and>
     (\<forall>r\<in>set rs. rc_valid r \<and> rc_replayable r) \<and> (rs \<noteq> [] \<or> (\<exists>c\<in>set cs. cc_evidence c \<noteq> []))"
proof -
  have "pf_claims (fst (generateFederatedAssuranceProof E cs rs runtimes level s)) = proof_claims cs rs"
    by (simp add: generateFederatedAssuranceProof_def take_uuid_def take_now_def Let_def)
  moreover have "0 < sum_list (map (\<lambda>c. length (cc_evidence c)) cs) \<longleftrightarrow> (\<exists>c\<in>set cs. cc_evidence c \<noteq> [])"
    by (induction cs) auto
  moreover have "fst (verifyCrossRuntimeLineage rs) \<longleftrightarrow> (\<forall>i. Suc i < length rs \<longrightarrow> rc_prev (rs ! Suc i) \<in> {[], rc_hash (rs ! i)})"
    unfolding verifyCrossRuntimeLineage_def Let_def fst_conv by (rule gaps_None)
  ultimately show ?thesis
    by (auto simp: proof_claims_def checkINASInvariants_def INAS_INVARIANTS_def inas_passed_def list_all_iff)
qed

end
