(* ===== verification/Arena.thy ===== *)
theory Arena
  imports GovLedger
begin

text \<open>
  The certification of runtimes (\<open>agent/federation/arena.ts\<close> with the tables of
  \<open>inas/spec/arena.ts\<close>): arenas by identifier, the requirements of a level and the certification
  itself, which reads the registered invariants and the receipt ledger. The listeners of the
  arena event are not modelled.
\<close>

datatype cert_level = C0 | C1 | C2 | C3

definition cert_name :: "cert_level \<Rightarrow> string" where
  "cert_name l = (case l of C0 \<Rightarrow> ''C0'' | C1 \<Rightarrow> ''C1'' | C2 \<Rightarrow> ''C2'' | C3 \<Rightarrow> ''C3'')"

definition levelToAssurance :: "cert_level \<Rightarrow> string" where
  "levelToAssurance l = (case l of C0 \<Rightarrow> ''A0'' | C1 \<Rightarrow> ''A1'' | C2 \<Rightarrow> ''A2'' | C3 \<Rightarrow> ''A3'')"

text \<open>A level that is not one of the four names counts as the lowest.\<close>

definition assuranceToCertification :: "string \<Rightarrow> cert_level" where
  "assuranceToCertification a =
     (if a = ''A1'' then C1 else if a = ''A2'' then C2 else if a = ''A3'' then C3 else C0)"

record arena =
  an_id :: string
  an_name :: string
  an_version :: string
  an_level :: cert_level
  an_runtime :: string
  an_runtimeVersion :: string
  an_authority :: string
  an_certified :: time
  an_expires :: "time option"

record arena_requirement =
  aq_id :: string
  aq_level :: cert_level
  aq_category :: string
  aq_description :: string
  aq_tests :: "string list"
  aq_mandatory :: bool

definition requirement :: "string \<Rightarrow> cert_level \<Rightarrow> string \<Rightarrow> string \<Rightarrow> string list \<Rightarrow> bool \<Rightarrow> arena_requirement" where
  "requirement i l c d ts m = \<lparr>aq_id = i, aq_level = l, aq_category = c, aq_description = d, aq_tests = ts, aq_mandatory = m\<rparr>"

primrec ARENA_REQUIREMENTS :: "cert_level \<Rightarrow> arena_requirement list" where
  "ARENA_REQUIREMENTS C0 =
     [requirement ''AR-C0-001'' C0 ''evidence'' ''Must produce at least one evidence primitive per operation'' [''EVIDENCE-01''] True]"
| "ARENA_REQUIREMENTS C1 =
     [requirement ''AR-C1-001'' C1 ''evidence'' ''Must produce evidence with provenance for all operations'' [''EVIDENCE-01'', ''EVIDENCE-02''] True,
      requirement ''AR-C1-002'' C1 ''assurance'' ''Must meet A1 assurance level requirements'' [''ASSURANCE-01''] True,
      requirement ''AR-C1-003'' C1 ''conformance'' ''Must pass all required conformance tests'' [''R-001'', ''R-002''] True]"
| "ARENA_REQUIREMENTS C2 =
     [requirement ''AR-C2-001'' C2 ''evidence'' ''Must produce full evidence chains with cryptographic integrity'' [''EVIDENCE-01'', ''EVIDENCE-02'', ''EVIDENCE-03''] True,
      requirement ''AR-C2-002'' C2 ''assurance'' ''Must meet A2 assurance level requirements'' [''ASSURANCE-01'', ''ASSURANCE-02''] True,
      requirement ''AR-C2-003'' C2 ''conformance'' ''Must pass all required conformance tests'' [''R-001'', ''R-002'', ''R-003'', ''R-004'', ''R-006'', ''R-007'', ''R-008''] True,
      requirement ''AR-C2-004'' C2 ''interoperability'' ''Must support CCR exchange format'' [''CCR-01''] True,
      requirement ''AR-C2-005'' C2 ''lineage'' ''Must maintain complete CSR lineage'' [''CSR-01'', ''CSR-02''] True]"
| "ARENA_REQUIREMENTS C3 =
     [requirement ''AR-C3-001'' C3 ''evidence'' ''Must support federated evidence exchange'' [''EVIDENCE-01'', ''EVIDENCE-02'', ''EVIDENCE-03'', ''EVIDENCE-04''] True,
      requirement ''AR-C3-002'' C3 ''assurance'' ''Must meet A3 assurance level (Federated Assurance)'' [''ASSURANCE-01'', ''ASSURANCE-02'', ''ASSURANCE-03''] True,
      requirement ''AR-C3-003'' C3 ''conformance'' ''Must pass all required conformance tests'' [''R-001'', ''R-002'', ''R-003'', ''R-004'', ''R-005'', ''R-006'', ''R-007'', ''R-008''] True,
      requirement ''AR-C3-004'' C3 ''interoperability'' ''Must support full federated CCR exchange across runtimes'' [''CCR-01'', ''CCR-02'', ''CCR-03''] True,
      requirement ''AR-C3-005'' C3 ''lineage'' ''Must support cross-runtime lineage verification'' [''CSR-01'', ''CSR-02'', ''CSR-03'', ''CSR-04''] True]"

record cert_step =
  sp_order :: nat
  sp_name :: string
  sp_description :: string
  sp_requirement :: string
  sp_evidence :: bool

record cert_result =
  cr_arena :: string
  cr_runtime :: string
  cr_version :: string
  cr_level :: cert_level
  cr_passed :: bool
  cr_steps :: "cert_step list"
  cr_results :: "string list"
  cr_overall :: string
  cr_total :: nat
  cr_passes :: nat
  cr_failures :: nat
  cr_skipped :: nat
  cr_assurance :: string
  cr_time :: time
  cr_issued :: time
  cr_expires :: "time option"
  cr_by :: string

record arena_st = gov_st +
  arenas :: "(string, arena) jsmap"

definition registerArena :: "arena \<Rightarrow> 'a arena_st_scheme \<Rightarrow> 'a arena_st_scheme" where
  "registerArena a s = s\<lparr>arenas := js_set (an_id a) a (arenas s)\<rparr>"

definition getArena :: "string \<Rightarrow> 'a arena_st_scheme \<Rightarrow> arena option" where
  "getArena i s = js_get (arenas s) i"

definition listArenas :: "'a arena_st_scheme \<Rightarrow> arena list" where
  "listArenas s = js_values (arenas s)"

definition createDefaultArena :: "sysenv \<Rightarrow> cert_level \<Rightarrow> 'a arena_st_scheme \<Rightarrow> arena \<times> 'a arena_st_scheme" where
  "createDefaultArena E level s =
     (let (u, s1) = take_uuid E s; (t1, s2) = take_now E s1; (t2, s3) = take_now E s2;
          a = \<lparr>an_id = u, an_name = ''INAS-'' @ cert_name level, an_version = ''1.0.0'', an_level = level, an_runtime = ''nova'',
               an_runtimeVersion = ''0.3.0-mission-003'', an_authority = ''INAS'', an_certified = t1,
               an_expires = Some (t2 + 365 * 24 * 3600000)\<rparr>
      in (a, registerArena a s3))"

definition getRequirementsForLevel :: "cert_level \<Rightarrow> arena_requirement list" where
  "getRequirementsForLevel level = ARENA_REQUIREMENTS level"

definition cert_step_of :: "nat \<Rightarrow> arena_requirement \<Rightarrow> cert_step" where
  "cert_step_of i q = \<lparr>sp_order = i + 1,
     sp_name = ''Verify: '' @ aq_category q @ '' '' @ em_dash @ '' '' @ take 60 (aq_description q),
     sp_description = aq_description q, sp_requirement = aq_id q, sp_evidence = aq_mandatory q\<rparr>"

text \<open>The identifiers of test results, and of the proofs, samples and records of the evidence, are always
  empty; \<open>cr_results\<close> stands for the first.\<close>

definition certifyRuntime :: "sysenv \<Rightarrow> string \<Rightarrow> 'a arena_st_scheme \<Rightarrow> (string + cert_result) \<times> 'a arena_st_scheme" where
  "certifyRuntime E arenaId s =
     (case js_get (arenas s) arenaId of
        None \<Rightarrow> (Inl (''Arena not found: '' @ arenaId), s)
      | Some a \<Rightarrow>
          let (ledger, s1) = getLedger s;
              level = an_level a;
              reqs = getRequirementsForLevel level;
              hasGovernance = (gov_invariants s1 \<noteq> []);
              hasReceipts = (ledger \<noteq> []);
              mandatoryMet = (filter aq_mandatory reqs \<noteq> []);
              passed = (hasGovernance \<and> hasReceipts \<and> mandatoryMet);
              (t1, s2) = take_now E s1; (t2, s3) = take_now E s2
          in (Inr \<lparr>cr_arena = an_id a, cr_runtime = ''nova'', cr_version = ''0.3.0-mission-003'', cr_level = level, cr_passed = passed,
                   cr_steps = map (\<lambda>(i, q). cert_step_of i q) (enumerate 0 reqs), cr_results = [],
                   cr_overall = (if passed then ''pass'' else ''fail''), cr_total = length reqs,
                   cr_passes = (if passed then length reqs else 0), cr_failures = (if passed then 0 else length reqs), cr_skipped = 0,
                   cr_assurance = levelToAssurance level, cr_time = t1, cr_issued = t2, cr_expires = an_expires a, cr_by = ''nova-internal''\<rparr>,
              s3))"

subsection \<open>Properties\<close>

lemma mandatory_nonempty: "filter aq_mandatory (ARENA_REQUIREMENTS l) \<noteq> []"
  by (cases l) (simp_all add: requirement_def)

lemma assurance_certification: "assuranceToCertification (levelToAssurance l) = l"
  by (cases l) (simp_all add: assuranceToCertification_def levelToAssurance_def)

text \<open>What a certification establishes. It fails with an error exactly when the arena is not registered.
  Otherwise every level, the highest included, passes exactly when some invariant is registered and the
  ledger holds some receipt: no requirement of the level is examined and no test is run, a pass
  reports every requirement as passed, a failure every one as failed, and an arena whose
  term is over certifies like any other.\<close>

theorem certification_spec:
  "(fst (certifyRuntime E i s) = Inl (''Arena not found: '' @ i) \<longleftrightarrow> getArena i s = None) \<and>
   (\<forall>a. getArena i s = Some a \<longrightarrow> (\<exists>r. fst (certifyRuntime E i s) = Inr r \<and>
      (cr_passed r \<longleftrightarrow> gov_invariants s \<noteq> [] \<and> receipts s \<noteq> []) \<and> cr_level r = an_level a \<and>
      assuranceToCertification (cr_assurance r) = an_level a \<and> cr_results r = [] \<and> cr_skipped r = 0 \<and>
      map sp_requirement (cr_steps r) = map aq_id (getRequirementsForLevel (an_level a)) \<and>
      (cr_passes r, cr_failures r) = (if cr_passed r then (length (cr_steps r), 0) else (0, length (cr_steps r))) \<and>
      (\<forall>x. fst (certifyRuntime E i (registerArena (a\<lparr>an_id := i, an_expires := x\<rparr>) s)) =
         Inr (r\<lparr>cr_arena := i, cr_expires := x\<rparr>))))"
proof (intro conjI allI impI)
  show "fst (certifyRuntime E i s) = Inl (''Arena not found: '' @ i) \<longleftrightarrow> getArena i s = None"
    by (simp add: certifyRuntime_def getArena_def Let_def case_prod_beta split: option.split)
next
  fix a
  assume a: "getArena i s = Some a"
  have "map sp_requirement (map (\<lambda>(i, q). cert_step_of i q) (enumerate 0 qs)) = map aq_id qs" for qs
    by (rule nth_equalityI) (simp_all add: nth_enumerate_eq cert_step_of_def)
  moreover have "\<exists>r. fst (certifyRuntime E i s) = Inr r \<and>
      (cr_passed r \<longleftrightarrow> gov_invariants s \<noteq> [] \<and> receipts s \<noteq> []) \<and> cr_level r = an_level a \<and>
      cr_assurance r = levelToAssurance (an_level a) \<and> cr_results r = [] \<and> cr_skipped r = 0 \<and>
      cr_steps r = map (\<lambda>(i, q). cert_step_of i q) (enumerate 0 (getRequirementsForLevel (an_level a))) \<and>
      (cr_passes r, cr_failures r) = (if cr_passed r then (length (cr_steps r), 0) else (0, length (cr_steps r))) \<and>
      (\<forall>x. fst (certifyRuntime E i (registerArena (a\<lparr>an_id := i, an_expires := x\<rparr>) s)) =
         Inr (r\<lparr>cr_arena := i, cr_expires := x\<rparr>))"
    using a mandatory_nonempty [of "an_level a"]
    by (simp add: certifyRuntime_def getArena_def getLedger_def ensureLoaded_def receipts_def take_now_def registerArena_def
        getRequirementsForLevel_def Let_def)
  ultimately show "\<exists>r. fst (certifyRuntime E i s) = Inr r \<and>
      (cr_passed r \<longleftrightarrow> gov_invariants s \<noteq> [] \<and> receipts s \<noteq> []) \<and> cr_level r = an_level a \<and>
      assuranceToCertification (cr_assurance r) = an_level a \<and> cr_results r = [] \<and> cr_skipped r = 0 \<and>
      map sp_requirement (cr_steps r) = map aq_id (getRequirementsForLevel (an_level a)) \<and>
      (cr_passes r, cr_failures r) = (if cr_passed r then (length (cr_steps r), 0) else (0, length (cr_steps r))) \<and>
      (\<forall>x. fst (certifyRuntime E i (registerArena (a\<lparr>an_id := i, an_expires := x\<rparr>) s)) =
         Inr (r\<lparr>cr_arena := i, cr_expires := x\<rparr>))"
    by (metis assurance_certification)
qed

definition demo_arena_st :: arena_st where
  "demo_arena_st = gov_st.extend init_gov \<lparr>arenas = [(''a'', \<lparr>an_id = ''a'', an_name = ''INAS-C3'', an_version = ''1.0.0'', an_level = C3,
     an_runtime = ''nova'', an_runtimeVersion = ''v'', an_authority = ''INAS'', an_certified = 0, an_expires = Some 1\<rparr>)]\<rparr>"

theorem certification_witness:
  "\<exists>r. fst (certifyRuntime demo_env ''a'' demo_arena_st) = Inr r \<and> \<not> cr_passed r \<and> cr_level r = C3"
proof -
  have "getArena ''a'' demo_arena_st \<noteq> None" "\<And>b. getArena ''a'' demo_arena_st = Some b \<Longrightarrow> an_level b = C3"
    "gov_invariants demo_arena_st = []"
    by (simp_all add: getArena_def demo_arena_st_def gov_st.defs init_gov_def)
  with certification_spec [of demo_env "''a''" demo_arena_st] show ?thesis by fastforce
qed

end
