(* ===== verification/Cql.thy ===== *)
theory Cql
  imports Csr "HOL-Library.Word"
begin

text \<open>
  Governed quantum circuits (\<open>src/cql\<close>): the circuit and policy types (\<open>core.ts\<close>), the governance
  results (\<open>governance.ts\<close>), the circuit builder and the client that picks a backend
  (\<open>sdk.ts\<close>), the simulator (\<open>adapters/local-process.ts\<close>) and the adapter of the hardware
  service (\<open>adapters/qiskit.ts\<close>). An amplitude is a number or \<open>None\<close>, which stands for \<open>NaN\<close> and for
  an array element that is \<open>undefined\<close>. A call that does not return is \<open>None\<close>, one that throws is
  \<open>Inl\<close>. The random numbers, sine and cosine, and the environment's secret are parameters, and so is the
  module system: \<open>cq_require\<close> is \<open>None\<close> where a module may call \<open>require\<close>, and the message of the
  reference error otherwise. The package is of type \<open>module\<close> (\<open>src/package.json\<close>), where Node.js
  defines no \<open>require\<close>, so there it is \<open>Some\<close> message and no client can be made.
\<close>

subsection \<open>Circuits and policies\<close>

datatype gate_name =
    GH | GX | GY | GZ | GCNOT | GCX | GCZ | GSWAP | GRZ | GRX | GRY | GS | GT | GSX | GSXD

primrec gate_text :: "gate_name \<Rightarrow> string" where
  "gate_text GH = ''H''" | "gate_text GX = ''X''" | "gate_text GY = ''Y''" | "gate_text GZ = ''Z''"
| "gate_text GCNOT = ''CNOT''" | "gate_text GCX = ''CX''" | "gate_text GCZ = ''CZ''" | "gate_text GSWAP = ''SWAP''"
| "gate_text GRZ = ''RZ''" | "gate_text GRX = ''RX''" | "gate_text GRY = ''RY''" | "gate_text GS = ''S''"
| "gate_text GT = ''T''" | "gate_text GSX = ''SX''" | "gate_text GSXD = ''SXD''"

record gate =
  gt_name :: gate_name
  gt_targets :: "string list"
  gt_params :: "(string \<times> jsnum) list option"

record measurement =
  ms_target :: string
  ms_var :: string

record circuit =
  qc_name :: string
  qc_qubits :: "string list"
  qc_gates :: "gate list"
  qc_measurements :: "measurement list"

datatype assurance = LOCAL_PROCESS | ISOLATED_SANDBOX | HARDWARE_ATTESTED | MULTIPARTY_ATTESTED

primrec assurance_text :: "assurance \<Rightarrow> string" where
  "assurance_text LOCAL_PROCESS = ''LOCAL_PROCESS''"
| "assurance_text ISOLATED_SANDBOX = ''ISOLATED_SANDBOX''"
| "assurance_text HARDWARE_ATTESTED = ''HARDWARE_ATTESTED''"
| "assurance_text MULTIPARTY_ATTESTED = ''MULTIPARTY_ATTESTED''"

record qpolicy =
  qp_maxQubits :: nat
  qp_maxDepth :: nat
  qp_assurance :: assurance
  qp_backends :: "string list"

record data_boundary =
  db_id :: string
  db_classification :: string
  db_operations :: "string list"

record evidence_req =
  er_minimum :: assurance
  er_fullTrace :: bool

record circuit_result =
  rs_measurements :: "(string \<times> nat) list"
  rs_counts :: "(string \<times> nat) list"
  rs_state :: "jsnum option list option"
  rs_metadata :: "(string \<times> json) list option"

record circuit_receipt =
  cp_id :: string
  cp_circuitHash :: string
  cp_policyHash :: string
  cp_execution :: string
  cp_backend :: string
  cp_result :: "circuit_result option"
  cp_trace :: string
  cp_integrity :: string
  cp_class :: assurance
  cp_time :: time
  cp_seal :: string

datatype cql_error = POLICY_VIOLATION | BACKEND_UNAVAILABLE | EXECUTION_FAILED

datatype governed_output =
    Governed_ok circuit_receipt
  | Governed_error cql_error string circuit_receipt

record cql_env =
  cq_random :: "nat \<Rightarrow> nat \<Rightarrow> jsnum"
  cq_sin :: "jsnum \<Rightarrow> jsnum"
  cq_cos :: "jsnum \<Rightarrow> jsnum"
  cq_secret :: "string option"
  cq_require :: "string option"

subsection \<open>What both adapters share\<close>

definition gate_json :: "gate \<Rightarrow> json" where
  "gate_json g = JObj ([(''name'', JStr (gate_text (gt_name g))), (''targets'', jstrs (gt_targets g))] @
     opt_field ''params'' (map_option (\<lambda>ps. JObj (map (\<lambda>(k, x). (k, JNum x)) ps)) (gt_params g)))"

definition hashCircuit :: "sysenv \<Rightarrow> circuit \<Rightarrow> string" where
  "hashCircuit E c = sha256 E (stringify (JObj
     [(''qubits'', jstrs (qc_qubits c)), (''gates'', JArr (map gate_json (qc_gates c))),
      (''measurements'', JArr (map (\<lambda>m. JObj [(''target'', JStr (ms_target m)), (''resultVar'', JStr (ms_var m))]) (qc_measurements c)))]))"

definition hashPolicy :: "sysenv \<Rightarrow> qpolicy \<Rightarrow> string" where
  "hashPolicy E p = sha256 E (stringify (JObj
     [(''maxQubits'', jnat (qp_maxQubits p)), (''maxDepth'', jnat (qp_maxDepth p)),
      (''requireAssurance'', JStr (assurance_text (qp_assurance p))), (''allowedBackends'', jstrs (qp_backends p))]))"

definition computeIntegrityHash :: "sysenv \<Rightarrow> string \<Rightarrow> string \<Rightarrow> string" where
  "computeIntegrityHash E circuitHash executionId = sha256 E (circuitHash @ '':'' @ executionId)"

definition generateSeal :: "sysenv \<Rightarrow> cql_env \<Rightarrow> string \<Rightarrow> string \<Rightarrow> string \<Rightarrow> string" where
  "generateSeal E Q executionId circuitHash policyHash =
     (let secret = (case cq_secret Q of Some t \<Rightarrow> if t \<noteq> [] then t else ''dev-secret'' | None \<Rightarrow> ''dev-secret'')
      in sha256 E (executionId @ '':'' @ circuitHash @ '':'' @ policyHash @ '':'' @ secret))"

text \<open>The depth: the loop over the gates with the layer of the last gate on each qubit and the depth so far. A gate
  without targets has layer minus infinity.\<close>

definition qubit_time :: "(string, nat) jsmap \<Rightarrow> string \<Rightarrow> nat" where
  "qubit_time m q = (case js_get m q of Some t \<Rightarrow> t | None \<Rightarrow> 0)"

fun depth_loop :: "gate list \<Rightarrow> (string, nat) jsmap \<Rightarrow> nat \<Rightarrow> nat" where
  "depth_loop [] m deepest = deepest"
| "depth_loop (g # gs) m deepest =
     (if gt_targets g = [] then depth_loop gs m deepest
      else let t = Suc (fold max (map (qubit_time m) (gt_targets g)) 0)
           in depth_loop gs (fold (\<lambda>q. js_set q t) (gt_targets g) m) (max deepest t))"

definition computeDepth :: "circuit \<Rightarrow> nat" where
  "computeDepth c = depth_loop (qc_gates c) [] 0"

subsection \<open>The simulator\<close>

text \<open>\<open>1 << t\<close> and \<open>x >> t\<close> on 32-bit integers; the shift distance counts modulo 32.\<close>

definition js_shl1 :: "int \<Rightarrow> int" where
  "js_shl1 t = sint (push_bit (nat (t mod 32)) (1 :: 32 word))"

definition js_sar :: "int \<Rightarrow> int \<Rightarrow> int" where
  "js_sar x t = sint (signed_drop_bit (nat (t mod 32)) (word_of_int x :: 32 word))"

type_synonym amps = "jsnum option list"

definition amp :: "amps \<Rightarrow> int \<Rightarrow> jsnum option" where
  "amp st k = (if 0 \<le> k \<and> nat k < length st then st ! nat k else None)"

text \<open>Writing behind the end extends the array.\<close>

definition put_amp :: "int \<Rightarrow> jsnum option \<Rightarrow> amps \<Rightarrow> amps" where
  "put_amp k v st =
     (if nat k < length st then st[nat k := v] else st @ replicate (nat k - length st) None @ [v])"

definition amp2 :: "(jsnum \<Rightarrow> jsnum \<Rightarrow> jsnum) \<Rightarrow> jsnum option \<Rightarrow> jsnum option \<Rightarrow> jsnum option" where
  "amp2 f a b = (case (a, b) of (Some x, Some y) \<Rightarrow> Some (f x y) | _ \<Rightarrow> None)"

definition SQRT2 :: jsnum where
  "SQRT2 = dec 14142135623730951 10000000000000000"

text \<open>The loops \<open>for (i = 0; i < bound; i += stride * 2) for (j = 0; j < stride; j++)\<close>: the loop variable is a number,
  and a stride may be negative.\<close>

partial_function (option) blocks :: "(int \<Rightarrow> amps \<Rightarrow> amps) \<Rightarrow> int \<Rightarrow> int \<Rightarrow> jsnum \<Rightarrow> amps \<Rightarrow> amps option" where
  "blocks body stride bound i st =
     (if i < of_int bound
      then blocks body stride bound (js_add i (of_int (stride * 2))) (fold (\<lambda>j. body (\<lfloor>i\<rfloor> + int j)) [0..<nat stride] st)
      else Some st)"

text \<open>A target that is \<open>undefined\<close> counts as 0 in a shift.\<close>

definition shift_of :: "int option \<Rightarrow> int" where
  "shift_of t = (case t of Some k \<Rightarrow> k | None \<Rightarrow> 0)"

definition applyH :: "amps \<Rightarrow> int \<Rightarrow> int option \<Rightarrow> amps option" where
  "applyH st n t =
     (let stride = js_shl1 (shift_of t)
      in blocks (\<lambda>k st. let a = amp st k; b = amp st (k + stride)
           in put_amp (k + stride) (map_option (\<lambda>x. js_div x SQRT2) (amp2 js_sub a b))
                (put_amp k (map_option (\<lambda>x. js_div x SQRT2) (amp2 js_add a b)) st)) stride (js_shl1 n) 0 st)"

definition applyX :: "amps \<Rightarrow> int \<Rightarrow> int option \<Rightarrow> amps option" where
  "applyX st n t =
     (let stride = js_shl1 (shift_of t)
      in blocks (\<lambda>k st. let a = amp st k; b = amp st (k + stride)
           in put_amp (k + stride) a (put_amp k b st)) stride (js_shl1 n) 0 st)"

definition applyY :: "amps \<Rightarrow> int \<Rightarrow> int option \<Rightarrow> amps option" where
  "applyY st n t = applyX st n t"

definition applyZ :: "amps \<Rightarrow> int \<Rightarrow> int option \<Rightarrow> amps option" where
  "applyZ st n t =
     (let stride = js_shl1 (shift_of t)
      in blocks (\<lambda>k st. put_amp (k + stride) (map_option uminus (amp st (k + stride))) st) stride (js_shl1 n) 0 st)"

definition applyCNOT :: "amps \<Rightarrow> int \<Rightarrow> int option \<Rightarrow> int option \<Rightarrow> amps option" where
  "applyCNOT st n control target =
     (if control = target then Some st
      else let cs = js_shl1 (shift_of control); ts = js_shl1 (shift_of target);
               below = (case (target, control) of (Some x, Some y) \<Rightarrow> x < y | _ \<Rightarrow> False)
           in blocks (\<lambda>k st.
                if js_sar k (shift_of control) mod 2 \<noteq> 0
                then let idx1 = k + (if below then 0 else ts); idx2 = idx1 + ts;
                         a = amp st idx1; b = amp st idx2
                     in put_amp idx2 a (put_amp idx1 b st)
                else st) cs (js_shl1 n) 0 st)"

definition applyRZ :: "cql_env \<Rightarrow> amps \<Rightarrow> int \<Rightarrow> int option \<Rightarrow> jsnum \<Rightarrow> amps option" where
  "applyRZ Q st n t theta =
     (let stride = js_shl1 (shift_of t); angle = js_div theta 2; co = cq_cos Q angle; si = cq_sin Q angle
      in blocks (\<lambda>k st. put_amp (k + stride)
             (map_option (\<lambda>x. js_add (js_mul x co) (js_mul x si)) (amp st (k + stride))) st) stride (js_shl1 n) 0 st)"

text \<open>\<open>findIndex\<close>, and the indices of a gate's targets: they are looked up in a circuit without qubits that the function
  makes itself.\<close>

fun find_index :: "('a \<Rightarrow> bool) \<Rightarrow> 'a list \<Rightarrow> int" where
  "find_index p [] = -1"
| "find_index p (x # xs) = (if p x then 0 else let k = find_index p xs in if k < 0 then -1 else k + 1)"

definition target_indices :: "gate \<Rightarrow> int list" where
  "target_indices g = map (\<lambda>t. find_index (\<lambda>q. q = t) []) (gt_targets g)"

definition nth_opt :: "'a list \<Rightarrow> nat \<Rightarrow> 'a option" where
  "nth_opt xs k = (if k < length xs then Some (xs ! k) else None)"

definition theta_of :: "gate \<Rightarrow> jsnum option" where
  "theta_of g = (case gt_params g of Some ps \<Rightarrow> map_of ps ''theta'' | None \<Rightarrow> None)"

definition applyGate :: "cql_env \<Rightarrow> amps \<Rightarrow> int \<Rightarrow> gate \<Rightarrow> amps option" where
  "applyGate Q st n g =
     (let ti = target_indices g; t0 = nth_opt ti 0
      in case gt_name g of
           GH \<Rightarrow> applyH st n t0
         | GX \<Rightarrow> applyX st n t0
         | GY \<Rightarrow> applyY st n t0
         | GZ \<Rightarrow> applyZ st n t0
         | GCNOT \<Rightarrow> applyCNOT st n t0 (nth_opt ti 1)
         | GRZ \<Rightarrow> (case theta_of g of Some theta \<Rightarrow> applyRZ Q st n t0 theta | None \<Rightarrow> Some st)
         | _ \<Rightarrow> Some st)"

fun apply_gates :: "cql_env \<Rightarrow> int \<Rightarrow> gate list \<Rightarrow> amps \<Rightarrow> amps option" where
  "apply_gates Q n [] st = Some st"
| "apply_gates Q n (g # gs) st = Option.bind (applyGate Q st n g) (apply_gates Q n gs)"

text \<open>One shot: the first index whose cumulative probability exceeds the random number, or 0.\<close>

fun pick :: "jsnum \<Rightarrow> jsnum option list \<Rightarrow> jsnum option \<Rightarrow> nat \<Rightarrow> nat" where
  "pick r [] acc j = 0"
| "pick r (p # ps) acc j =
     (let acc' = amp2 js_add acc p in if (case acc' of Some c \<Rightarrow> r < c | None \<Rightarrow> False) then j else pick r ps acc' (Suc j))"

fun bits_str :: "nat \<Rightarrow> string" where
  "bits_str n = (if n < 2 then [digit_char n] else bits_str (n div 2) @ [digit_char (n mod 2)])"

declare bits_str.simps [simp del]

definition bit_string :: "nat \<Rightarrow> nat \<Rightarrow> string" where
  "bit_string n outcome = pad_left n (CHR ''0'') (bits_str outcome)"

definition count_outcome :: "string \<Rightarrow> (string \<times> nat) list \<Rightarrow> (string \<times> nat) list" where
  "count_outcome b counts = js_set b (Suc (case js_get counts b of Some c \<Rightarrow> c | None \<Rightarrow> 0)) counts"

definition measured_bit :: "nat \<Rightarrow> nat \<Rightarrow> nat \<Rightarrow> nat" where
  "measured_bit n outcome k = nat (js_sar (int outcome) (int n - 1 - int k) mod 2)"

definition simulate :: "cql_env \<Rightarrow> nat \<Rightarrow> circuit \<Rightarrow> (string + (string \<times> nat) list \<times> (string \<times> nat) list \<times> amps) option" where
  "simulate Q draw c =
     (let n = length (qc_qubits c); size = js_shl1 (int n)
      in if size < 0 then Some (Inl ''Invalid array length'')
         else case apply_gates Q (int n) (qc_gates c) (Some 1 # replicate (nat size - 1) (Some 0)) of
                None \<Rightarrow> None
              | Some st \<Rightarrow>
                  let probs = map (\<lambda>v. map_option (\<lambda>x. js_mul \<bar>x\<bar> \<bar>x\<bar>) v) st;
                      outcomes = map (\<lambda>i. pick (cq_random Q draw i) probs (Some 0) 0) [0..<1024];
                      counts = fold (\<lambda>o1. count_outcome (bit_string n o1)) outcomes [];
                      ms = fold (\<lambda>(k, m). js_set (ms_var m) (measured_bit n (last outcomes) k))
                             (enumerate 0 (qc_measurements c)) []
                  in Some (Inr (ms, counts, st)))"

subsection \<open>The adapters\<close>

record 's backend =
  bk_validate :: "circuit \<Rightarrow> qpolicy \<Rightarrow> bool \<times> string list"
  bk_execute :: "circuit \<Rightarrow> qpolicy \<Rightarrow> 's \<Rightarrow> ((string + circuit_receipt) \<times> 's) option"

definition local_validate :: "circuit \<Rightarrow> qpolicy \<Rightarrow> bool \<times> string list" where
  "local_validate c p =
     (let n = length (qc_qubits c); depth = computeDepth c;
          errors = (if n > qp_maxQubits p
                    then [''Circuit uses '' @ show_nat n @ '' qubits, exceeds max '' @ show_nat (qp_maxQubits p)] else []) @
                   (if depth > qp_maxDepth p
                    then [''Circuit depth '' @ show_nat depth @ '' exceeds max '' @ show_nat (qp_maxDepth p)] else []) @
                   (if ''local-process'' \<notin> set (qp_backends p)
                    then [''local-process backend not allowed by policy''] else [])
      in (errors = [], errors))"

definition local_execute ::
    "sysenv \<Rightarrow> cql_env \<Rightarrow> circuit \<Rightarrow> qpolicy \<Rightarrow> 'a sys_st_scheme \<Rightarrow> ((string + circuit_receipt) \<times> 'a sys_st_scheme) option" where
  "local_execute E Q c p s =
     (let ch = hashCircuit E c; ph = hashPolicy E p; (ex, s1) = take_uuid E s; (_, s2) = take_now E s1
      in case simulate Q (tick s2) c of
           None \<Rightarrow> None
         | Some (Inl e) \<Rightarrow> Some (Inl e, s2)
         | Some (Inr (ms, counts, st)) \<Rightarrow>
             let (_, s3) = take_now E s2; (u, s4) = take_uuid E s3; (t, s5) = take_now E s4
             in Some (Inr \<lparr>cp_id = u, cp_circuitHash = ch, cp_policyHash = ph, cp_execution = ex, cp_backend = ''local-process'',
                   cp_result = Some \<lparr>rs_measurements = ms, rs_counts = counts, rs_state = Some st, rs_metadata = None\<rparr>,
                   cp_trace = ''local-process-simulator'', cp_integrity = computeIntegrityHash E ch ex, cp_class = LOCAL_PROCESS,
                   cp_time = t, cp_seal = generateSeal E Q ex ch ph\<rparr>, s5))"

record qiskit_config =
  qk_backend :: string
  qk_token :: "string option"
  qk_timeoutMs :: nat
  qk_shots :: nat

definition SUPPORTED_GATES :: "string list" where
  "SUPPORTED_GATES = [''H'', ''X'', ''Y'', ''Z'', ''CNOT'', ''CX'', ''CZ'', ''SWAP'', ''RZ'', ''RX'', ''RY'', ''S'', ''T'', ''SX'', ''SXD'']"

definition isSupportedGate :: "gate \<Rightarrow> bool" where
  "isSupportedGate g \<longleftrightarrow> gate_text (gt_name g) \<in> set SUPPORTED_GATES"

definition estimateDepth :: "circuit \<Rightarrow> nat" where
  "estimateDepth c = depth_loop (qc_gates c) [] 0"

definition qiskit_validate :: "circuit \<Rightarrow> qpolicy \<Rightarrow> bool \<times> string list" where
  "qiskit_validate c p =
     (let n = length (qc_qubits c); depth = estimateDepth c;
          errors = (if n > qp_maxQubits p
                    then [''Circuit uses '' @ show_nat n @ '' qubits, policy max is '' @ show_nat (qp_maxQubits p)] else []) @
                   (if depth > qp_maxDepth p
                    then [''Estimated circuit depth '' @ show_nat depth @ '' exceeds policy max '' @ show_nat (qp_maxDepth p)] else []) @
                   map (\<lambda>g. ''Gate '' @ gate_text (gt_name g) @ '' not supported by Qiskit backend'')
                     (filter (\<lambda>g. \<not> isSupportedGate g) (qc_gates c))
      in (errors = [], errors))"

definition gate_line :: "gate \<Rightarrow> string" where
  "gate_line g =
     (let targets = join '', '' (gt_targets g);
          theta = num_str (case theta_of g of Some x \<Rightarrow> x | None \<Rightarrow> 0)
      in case gt_name g of
           GH \<Rightarrow> ''qc.h('' @ targets @ '')'' | GX \<Rightarrow> ''qc.x('' @ targets @ '')'' | GY \<Rightarrow> ''qc.y('' @ targets @ '')''
         | GZ \<Rightarrow> ''qc.z('' @ targets @ '')'' | GCNOT \<Rightarrow> ''qc.cx('' @ targets @ '')'' | GCX \<Rightarrow> ''qc.cx('' @ targets @ '')''
         | GCZ \<Rightarrow> ''qc.cz('' @ targets @ '')'' | GSWAP \<Rightarrow> ''qc.swap('' @ targets @ '')''
         | GRZ \<Rightarrow> ''qc.rz('' @ theta @ '', '' @ targets @ '')'' | GRX \<Rightarrow> ''qc.rx('' @ theta @ '', '' @ targets @ '')''
         | GRY \<Rightarrow> ''qc.ry('' @ theta @ '', '' @ targets @ '')'' | GS \<Rightarrow> ''qc.s('' @ targets @ '')''
         | GT \<Rightarrow> ''qc.t('' @ targets @ '')'' | GSX \<Rightarrow> ''qc.sx('' @ targets @ '')'' | GSXD \<Rightarrow> ''qc.sxd('' @ targets @ '')'')"

definition buildQiskitCircuit :: "circuit \<Rightarrow> string" where
  "buildQiskitCircuit c =
     (let n = show_nat (length (qc_qubits c))
      in join [CHR 0x0A]
          ([''from qiskit import QuantumCircuit, QuantumRegister, ClassicalRegister'',
            ''qr = QuantumRegister('' @ n @ '', '' @ [CHR 0x27] @ ''q'' @ [CHR 0x27] @ '')'',
            ''cr = ClassicalRegister('' @ n @ '', '' @ [CHR 0x27] @ ''c'' @ [CHR 0x27] @ '')'',
            ''qc = QuantumCircuit(qr, cr)''] @
           map gate_line (qc_gates c) @
           map (\<lambda>m. ''qc.measure('' @ ms_target m @ '', '' @ ms_var m @ '')'') (qc_measurements c)))"

definition submitToQiskit :: "string \<Rightarrow> (string \<times> nat) list" where
  "submitToQiskit qc = [(''00'', 512), (''11'', 512)]"

definition extractMeasurements :: "(string \<times> nat) list \<Rightarrow> (string \<times> nat) list" where
  "extractMeasurements counts =
     (let top = fold max (map snd counts) 0;
          bits = (case List.find (\<lambda>(k, c). c = top) counts of Some (k, c) \<Rightarrow> (if k = [] then ''0'' else k) | None \<Rightarrow> ''0'')
      in map (\<lambda>(i, b). (''m'' @ show_nat i, code_of b - 48)) (enumerate 0 bits))"

definition qiskit_execute ::
    "sysenv \<Rightarrow> cql_env \<Rightarrow> qiskit_config \<Rightarrow> circuit \<Rightarrow> qpolicy \<Rightarrow> 'a sys_st_scheme \<Rightarrow> ((string + circuit_receipt) \<times> 'a sys_st_scheme) option" where
  "qiskit_execute E Q cfg c p s =
     (let (valid, errors) = qiskit_validate c p
      in if \<not> valid then Some (Inl (''Circuit validation failed: '' @ join '', '' errors), s)
         else
           let (ex, s1) = take_uuid E s; ch = hashCircuit E c; ph = hashPolicy E p; (t0, s2) = take_now E s1;
               counts = submitToQiskit (buildQiskitCircuit c);
               (t1, s3) = take_now E s2; (u, s4) = take_uuid E s3; (t, s5) = take_now E s4
           in Some (Inr \<lparr>cp_id = u, cp_circuitHash = ch, cp_policyHash = ph, cp_execution = ex, cp_backend = ''qiskit'',
                 cp_result = Some \<lparr>rs_measurements = extractMeasurements counts, rs_counts = counts, rs_state = None,
                   rs_metadata = Some [(''backend'', JStr (qk_backend cfg)), (''shots'', jnat (qk_shots cfg)),
                     (''executionTimeMs'', JNum (of_int (t1 - t0)))]\<rparr>,
                 cp_trace = ''qiskit:'' @ qk_backend cfg @ '':'' @ ex, cp_integrity = computeIntegrityHash E ch ex,
                 cp_class = HARDWARE_ATTESTED, cp_time = t, cp_seal = generateSeal E Q ex ch ph\<rparr>, s5))"

subsection \<open>The client\<close>

record 's cql_client =
  cl_backends :: "(string, 's backend) jsmap"
  cl_policy :: qpolicy
  cl_boundary :: data_boundary
  cl_evidence :: evidence_req

definition local_backend :: "sysenv \<Rightarrow> cql_env \<Rightarrow> ('a sys_st_scheme) backend" where
  "local_backend E Q = \<lparr>bk_validate = local_validate, bk_execute = local_execute E Q\<rparr>"

definition qiskit_backend :: "sysenv \<Rightarrow> cql_env \<Rightarrow> qiskit_config \<Rightarrow> ('a sys_st_scheme) backend" where
  "qiskit_backend E Q cfg = \<lparr>bk_validate = qiskit_validate, bk_execute = qiskit_execute E Q cfg\<rparr>"

text \<open>A client made without a configuration. The constructor requires both adapters again before
  anything else, whatever the configuration.\<close>

definition new_client :: "sysenv \<Rightarrow> cql_env \<Rightarrow> string option \<Rightarrow> string + ('a sys_st_scheme) cql_client" where
  "new_client E Q token =
     (case cq_require Q of
        Some e \<Rightarrow> Inl e
      | None \<Rightarrow> Inr
     \<lparr>cl_backends = [(''local-process'', local_backend E Q),
        (''qiskit'', qiskit_backend E Q \<lparr>qk_backend = ''ibmq_qasm_simulator'', qk_token = token, qk_timeoutMs = 60000, qk_shots = 1024\<rparr>)],
      cl_policy = \<lparr>qp_maxQubits = 20, qp_maxDepth = 100, qp_assurance = LOCAL_PROCESS, qp_backends = [''local-process'', ''qiskit'']\<rparr>,
      cl_boundary = \<lparr>db_id = ''default'', db_classification = ''internal'', db_operations = [''execute'', ''measure'']\<rparr>,
      cl_evidence = \<lparr>er_minimum = LOCAL_PROCESS, er_fullTrace = True\<rparr>\<rparr>)"

definition registerBackend :: "string \<Rightarrow> 's backend \<Rightarrow> 's cql_client \<Rightarrow> 's cql_client" where
  "registerBackend name b cl = cl\<lparr>cl_backends := js_set name b (cl_backends cl)\<rparr>"

definition getBackend :: "string \<Rightarrow> 's cql_client \<Rightarrow> 's backend option" where
  "getBackend name cl = js_get (cl_backends cl) name"

definition listBackends :: "'s cql_client \<Rightarrow> string list" where
  "listBackends cl = map fst (cl_backends cl)"

record governed_input =
  gi_circuit :: circuit
  gi_policy :: qpolicy
  gi_boundary :: data_boundary
  gi_evidence :: evidence_req

definition createErrorReceipt :: "sysenv \<Rightarrow> 'a sys_st_scheme \<Rightarrow> circuit_receipt \<times> 'a sys_st_scheme" where
  "createErrorReceipt E s =
     (let (u, s1) = take_uuid E s; (x, s2) = take_uuid E s1; (t, s3) = take_now E s2
      in (\<lparr>cp_id = u, cp_circuitHash = ''error'', cp_policyHash = ''error'', cp_execution = x, cp_backend = ''error'', cp_result = None,
           cp_trace = ''error'', cp_integrity = ''error'', cp_class = LOCAL_PROCESS, cp_time = t, cp_seal = ''error''\<rparr>, s3))"

definition cql_fail :: "sysenv \<Rightarrow> cql_error \<Rightarrow> string \<Rightarrow> 'a sys_st_scheme \<Rightarrow> (governed_output \<times> 'a sys_st_scheme) option" where
  "cql_fail E code msg s = (let (r, s1) = createErrorReceipt E s in Some (Governed_error code msg r, s1))"

definition cql_execute ::
    "sysenv \<Rightarrow> ('a sys_st_scheme) cql_client \<Rightarrow> governed_input \<Rightarrow> 'a sys_st_scheme \<Rightarrow> (governed_output \<times> 'a sys_st_scheme) option" where
  "cql_execute E cl i s =
     (let name = (if qp_assurance (gi_policy i) = HARDWARE_ATTESTED then ''qiskit'' else ''local-process'')
      in case (case js_get (cl_backends cl) name of Some b \<Rightarrow> Some b | None \<Rightarrow> js_get (cl_backends cl) ''local-process'') of
           None \<Rightarrow> cql_fail E BACKEND_UNAVAILABLE (''Backend '' @ name @ '' not available'') s
         | Some b \<Rightarrow>
             let (valid, errors) = bk_validate b (gi_circuit i) (gi_policy i)
             in if \<not> valid then cql_fail E POLICY_VIOLATION (''Circuit validation failed: '' @ join '', '' errors) s
                else case bk_execute b (gi_circuit i) (gi_policy i) s of
                       None \<Rightarrow> None
                     | Some (Inr r, s1) \<Rightarrow> Some (Governed_ok r, s1)
                     | Some (Inl e, s1) \<Rightarrow> cql_fail E EXECUTION_FAILED e s1)"

text \<open>\<open>run\<close>: the policy given is spread over the default one, field by field.\<close>

record policy_override =
  po_maxQubits :: "nat option"
  po_maxDepth :: "nat option"
  po_assurance :: "assurance option"
  po_backends :: "string list option"

definition over :: "'a option \<Rightarrow> 'a \<Rightarrow> 'a" where
  "over x d = (case x of Some v \<Rightarrow> v | None \<Rightarrow> d)"

definition cql_run ::
    "sysenv \<Rightarrow> ('a sys_st_scheme) cql_client \<Rightarrow> circuit \<Rightarrow> policy_override \<Rightarrow> 'a sys_st_scheme \<Rightarrow> (governed_output \<times> 'a sys_st_scheme) option" where
  "cql_run E cl c po s =
     (let d = cl_policy cl
      in cql_execute E cl \<lparr>gi_circuit = c,
           gi_policy = \<lparr>qp_maxQubits = over (po_maxQubits po) (qp_maxQubits d), qp_maxDepth = over (po_maxDepth po) (qp_maxDepth d),
             qp_assurance = over (po_assurance po) (qp_assurance d), qp_backends = over (po_backends po) (qp_backends d)\<rparr>,
           gi_boundary = cl_boundary cl, gi_evidence = cl_evidence cl\<rparr> s)"

subsection \<open>The circuit builder\<close>

record builder =
  bl_qubits :: "string list"
  bl_gates :: "gate list"
  bl_measurements :: "measurement list"
  bl_counter :: nat

definition new_builder :: builder where
  "new_builder = \<lparr>bl_qubits = [], bl_gates = [], bl_measurements = [], bl_counter = 0\<rparr>"

datatype builder_op =
    Op_qubit "string option"
  | Op_single gate_name string
  | Op_cx string string
  | Op_rotation gate_name string jsnum
  | Op_measure string string

definition add_qubit :: "string option \<Rightarrow> builder \<Rightarrow> builder" where
  "add_qubit i b =
     (case i of
        Some k \<Rightarrow> if k \<noteq> [] then b\<lparr>bl_qubits := bl_qubits b @ [k]\<rparr>
                  else b\<lparr>bl_qubits := bl_qubits b @ [''q'' @ show_nat (bl_counter b)], bl_counter := Suc (bl_counter b)\<rparr>
      | None \<Rightarrow> b\<lparr>bl_qubits := bl_qubits b @ [''q'' @ show_nat (bl_counter b)], bl_counter := Suc (bl_counter b)\<rparr>)"

definition addGate :: "gate_name \<Rightarrow> string list \<Rightarrow> (string \<times> jsnum) list option \<Rightarrow> builder \<Rightarrow> builder" where
  "addGate name targets params b = b\<lparr>bl_gates := bl_gates b @ [\<lparr>gt_name = name, gt_targets = targets, gt_params = params\<rparr>]\<rparr>"

primrec builder_step :: "builder_op \<Rightarrow> builder \<Rightarrow> builder" where
  "builder_step (Op_qubit i) b = add_qubit i b"
| "builder_step (Op_single name t) b = addGate name [t] None b"
| "builder_step (Op_cx c t) b = addGate GCNOT [c, t] None b"
| "builder_step (Op_rotation name t theta) b = addGate name [t] (Some [(''theta'', theta)]) b"
| "builder_step (Op_measure t v) b = b\<lparr>bl_measurements := bl_measurements b @ [\<lparr>ms_target = t, ms_var = v\<rparr>]\<rparr>"

definition build_circuit :: "sysenv \<Rightarrow> builder \<Rightarrow> 'a sys_st_scheme \<Rightarrow> circuit \<times> 'a sys_st_scheme" where
  "build_circuit E b s =
     (let (u, s1) = take_uuid E s
      in (\<lparr>qc_name = ''circuit_'' @ take 8 u, qc_qubits = bl_qubits b, qc_gates = bl_gates b, qc_measurements = bl_measurements b\<rparr>, s1))"

text \<open>\<open>run\<close> of the builder makes a client first.\<close>

definition builder_run ::
    "sysenv \<Rightarrow> cql_env \<Rightarrow> string option \<Rightarrow> builder \<Rightarrow> policy_override \<Rightarrow> 'a sys_st_scheme \<Rightarrow>
     ((string + governed_output) \<times> 'a sys_st_scheme) option" where
  "builder_run E Q token b po s =
     (case new_client E Q token of
        Inl e \<Rightarrow> Some (Inl e, s)
      | Inr cl \<Rightarrow>
          let (c, s1) = build_circuit E b s
          in map_option (\<lambda>(out, s2). (Inr out, s2)) (cql_run E cl c po s1))"

subsection \<open>The loop of the simulator does not end\<close>

lemma blocks_diverge:
  assumes "blocks body0 stride0 bound0 i0 st0 = Some y0"
  shows "stride0 < 0 \<longrightarrow> 0 < bound0 \<longrightarrow> i0 \<le> 0 \<longrightarrow> False"
proof (rule blocks.raw_induct [of "\<lambda>body stride bound i st y. stride < 0 \<longrightarrow> 0 < bound \<longrightarrow> i \<le> 0 \<longrightarrow> False", OF _ assms], goal_cases)
  case (1 rec body stride bound i st y)
  show ?case
  proof (intro impI)
    assume neg: "stride < 0" "0 < bound" "i \<le> 0"
    have "i < of_int bound" using neg by (meson le_less_trans of_int_0_less_iff)
    moreover have "i + of_int (stride * 2) \<le> 0" using neg by (simp add: add_nonpos_nonpos)
    then have "js_add i (of_int (stride * 2)) \<le> 0" unfolding js_add_def using fl_mono [of _ 0] by simp
    ultimately show False using 1 neg by (metis (no_types, lifting))
  qed
qed

lemma blocks_none: "stride < 0 \<Longrightarrow> 0 < bound \<Longrightarrow> blocks body stride bound 0 st = None"
  using blocks_diverge [of body stride bound 0 st] by fastforce

lemma shl1_minus: "js_shl1 (- 1) = - 2147483648"
  by (simp add: js_shl1_def)

lemma shl1_table: "\<forall>k\<in>set [0..<31]. sint (push_bit k (1 :: 32 word)) = 2 ^ k"
  by (simp add: upt_rec)

lemma shl1_small:
  assumes "n < 31"
  shows "js_shl1 (int n) = 2 ^ n"
proof -
  have "nat (int n mod 32) = n" using assms by (simp add: mod_pos_pos_trivial)
  with shl1_table assms show ?thesis by (simp add: js_shl1_def)
qed

lemma indices: "target_indices g = replicate (length (gt_targets g)) (- 1)"
  by (simp add: target_indices_def map_replicate_const)

text \<open>A gate as the builder makes it, and a gate on which the simulator returns.\<close>

definition shape_ok :: "gate \<Rightarrow> bool" where
  "shape_ok g \<longleftrightarrow> gt_targets g \<noteq> [] \<and> (gt_name g = GCNOT \<longrightarrow> 2 \<le> length (gt_targets g))"

definition passes :: "gate \<Rightarrow> bool" where
  "passes g \<longleftrightarrow> gt_name g \<notin> {GH, GX, GY, GZ} \<and> (gt_name g = GRZ \<longrightarrow> theta_of g = None)"

lemma gate_stuck: "shape_ok g \<Longrightarrow> \<not> passes g \<Longrightarrow> 0 < js_shl1 n \<Longrightarrow> applyGate Q st n g = None"
  by (auto simp: applyGate_def applyH_def applyX_def applyY_def applyZ_def applyRZ_def indices nth_opt_def shape_ok_def
      passes_def shift_of_def shl1_minus blocks_none)

lemma gate_passes: "shape_ok g \<Longrightarrow> passes g \<Longrightarrow> applyGate Q st n g = Some st"
  by (auto simp: applyGate_def applyCNOT_def indices nth_opt_def shape_ok_def passes_def Let_def split: gate_name.split)

lemma gates_run:
  assumes "\<forall>g\<in>set gs. shape_ok g" and "0 < js_shl1 n"
  shows "apply_gates Q n gs st = (if \<forall>g\<in>set gs. passes g then Some st else None)"
  using assms(1)
proof (induction gs arbitrary: st)
  case (Cons g gs)
  then show ?case
    using gate_stuck [of g n Q st] gate_passes [of g Q st n] assms(2) by (cases "passes g") auto
qed simp

subsection \<open>What the simulator reports\<close>

lemma pick_first: "r < 1 \<Longrightarrow> pick r (Some 1 # ps) (Some 0) 0 = 0"
  by (simp add: amp2_def js_add_def)

lemma count_same:
  "fold (\<lambda>o1. count_outcome (bit_string n o1)) (replicate m 0) [(bit_string n 0, k)] = [(bit_string n 0, k + m)]"
  by (induction m arbitrary: k) (simp_all add: count_outcome_def)

lemma measured_zero: "measured_bit n 0 k = 0"
  by (simp add: measured_bit_def js_sar_def)

lemma set_js_set: "set (js_set k v m) \<subseteq> insert (k, v) (set m)"
  by (induction m) auto

lemma measured_all_zero:
  "\<forall>b\<in>snd ` set acc. b = 0 \<Longrightarrow>
   \<forall>b\<in>snd ` set (fold (\<lambda>(k, m). js_set (ms_var m) (measured_bit n 0 k)) ms acc). b = 0"
proof (induction ms arbitrary: acc)
  case (Cons x ms)
  obtain k m where x: "x = (k, m)" by fastforce
  have "\<forall>b\<in>snd ` set (js_set (ms_var m) (measured_bit n 0 k) acc). b = 0"
    using Cons.prems set_js_set [of "ms_var m" "0 :: nat" acc] by (auto simp: measured_zero)
  from Cons.IH [OF this] show ?case by (simp add: x)
qed simp

lemma zero_string: "bit_string n 0 = replicate (max 1 n) (CHR ''0'')"
proof -
  have "bits_str 0 = ''0''" by (simp add: bits_str.simps digit_char_def char_of_def bit_Suc_0_iff)
  then show ?thesis by (cases n) (simp_all add: bit_string_def pad_left_def replicate_append_same)
qed

lemma simulate_effect:
  assumes g: "\<forall>g\<in>set (qc_gates c). shape_ok g" and n: "length (qc_qubits c) < 31"
    and r: "\<And>i. cq_random Q draw i < 1"
  shows "(\<exists>g\<in>set (qc_gates c). \<not> passes g) \<Longrightarrow> simulate Q draw c = None"
    and "\<forall>g\<in>set (qc_gates c). passes g \<Longrightarrow> \<exists>ms. simulate Q draw c =
       Some (Inr (ms, [(replicate (max 1 (length (qc_qubits c))) (CHR ''0''), 1024)],
         Some 1 # replicate (2 ^ length (qc_qubits c) - 1) (Some 0))) \<and> (\<forall>b\<in>snd ` set ms. b = 0)"
proof -
  let ?n = "length (qc_qubits c)"
  let ?st = "Some 1 # replicate (2 ^ ?n - 1) (Some 0) :: amps"
  have size: "js_shl1 (int ?n) = 2 ^ ?n" using n by (rule shl1_small)
  have nt: "nat (2 ^ ?n) = 2 ^ ?n" by (simp add: nat_power_eq)
  note run = gates_run [OF g, of "int ?n" Q ?st, unfolded size]
  show "simulate Q draw c = None" if "\<exists>g\<in>set (qc_gates c). \<not> passes g"
    using that run by (auto simp: simulate_def size nt Let_def)
  assume p: "\<forall>g\<in>set (qc_gates c). passes g"
  let ?probs = "map (\<lambda>v. map_option (\<lambda>x. js_mul \<bar>x\<bar> \<bar>x\<bar>) v) ?st"
  have "pick (cq_random Q draw i) ?probs (Some 0) 0 = 0" for i
    using pick_first [OF r] by (simp add: js_mul_def)
  then have o: "map (\<lambda>i. pick (cq_random Q draw i) ?probs (Some 0) 0) [0..<1024] = replicate 1024 0"
    by (simp only: map_replicate_const length_upt diff_zero)
  have c: "fold (\<lambda>o1. count_outcome (bit_string ?n o1)) (replicate 1024 0) [] = [(bit_string ?n 0, 1024)]"
  proof -
    have "replicate 1024 (0 :: nat) = 0 # replicate 1023 0" by (simp only: replicate_Suc [symmetric]) simp
    then show ?thesis using count_same [of ?n 1023 1] by (simp add: count_outcome_def)
  qed
  have l: "last (replicate 1024 0) = (0 :: nat)" by (simp)
  show "\<exists>ms. simulate Q draw c = Some (Inr (ms, [(replicate (max 1 ?n) (CHR ''0''), 1024)], ?st)) \<and> (\<forall>b\<in>snd ` set ms. b = 0)"
  proof -
    have "\<not> (2 :: int) ^ ?n < 0" by simp
    moreover have "apply_gates Q (int ?n) (qc_gates c) ?st = Some ?st" using run p by simp
    ultimately have "simulate Q draw c = Some (Inr (fold (\<lambda>(k, m). js_set (ms_var m) (measured_bit ?n 0 k))
        (enumerate 0 (qc_measurements c)) [], [(bit_string ?n 0, 1024)], ?st))"
      by (simp only: simulate_def Let_def size nt o c l if_False option.case)
    with measured_all_zero [of "[]" ?n] show ?thesis by (simp add: zero_string)
  qed
qed

subsection \<open>Layers\<close>

text \<open>A schedule gives each gate a layer after those of the earlier gates on its qubits; \<open>busy\<close> is the layer of the last gate
  on each qubit.\<close>

fun schedule :: "(string \<Rightarrow> nat) \<Rightarrow> gate list \<Rightarrow> nat list \<Rightarrow> bool" where
  "schedule busy [] ls \<longleftrightarrow> ls = []"
| "schedule busy (g # gs) [] \<longleftrightarrow> False"
| "schedule busy (g # gs) (l # ls) \<longleftrightarrow>
     (\<forall>q\<in>set (gt_targets g). busy q < l) \<and> schedule (\<lambda>q. if q \<in> set (gt_targets g) then l else busy q) gs ls"

lemma fold_max_ge: "(a :: nat) \<le> fold max xs a \<and> (\<forall>x\<in>set xs. x \<le> fold max xs a)"
  by (induction xs arbitrary: a) (simp_all, meson max.cobounded1 max.cobounded2 order_trans)

lemma fold_max_le: "a \<le> d \<Longrightarrow> \<forall>x\<in>set xs. x \<le> d \<Longrightarrow> fold max xs a \<le> (d :: nat)"
  by (induction xs arbitrary: a) simp_all

lemma depth_loop_ge: "k \<le> depth_loop gs m k"
  by (induction gs m k rule: depth_loop.induct) (simp_all add: Let_def)

lemma qubit_time_set: "qubit_time (fold (\<lambda>q. js_set q t) qs m) q = (if q \<in> set qs then t else qubit_time m q)"
  by (induction qs arbitrary: m) (simp_all add: qubit_time_def)

text \<open>No schedule is shorter, and there is one of this length.\<close>

lemma depth_lower:
  "schedule busy gs ls \<Longrightarrow> (\<And>q. qubit_time m q \<le> busy q) \<Longrightarrow> \<forall>l\<in>set ls. l \<le> d \<Longrightarrow> k \<le> d \<Longrightarrow> depth_loop gs m k \<le> d"
proof (induction busy gs ls arbitrary: m k rule: schedule.induct)
  case (3 busy g gs l ls)
  show ?case
  proof (cases "gt_targets g = []")
    case True
    with 3 show ?thesis by simp
  next
    case False
    define t where "t = Suc (fold max (map (qubit_time m) (gt_targets g)) 0)"
    obtain q where "q \<in> set (gt_targets g)" using False by (cases "gt_targets g") auto
    then have "0 < l" using 3(2) by force
    then have "fold max (map (qubit_time m) (gt_targets g)) 0 \<le> l - 1"
      by (intro fold_max_le) (use 3(2,3) in \<open>force simp: less_eq_Suc_le dest: le_less_trans\<close>)+
    then have "t \<le> l" using \<open>0 < l\<close> by (simp add: t_def)
    moreover have "depth_loop gs (fold (\<lambda>q. js_set q t) (gt_targets g) m) (max k t) \<le> d"
      by (rule 3(1)) (use 3(2-5) \<open>t \<le> l\<close> in \<open>auto simp: qubit_time_set\<close>)
    ultimately show ?thesis using False by (simp add: t_def Let_def)
  qed
qed simp_all

lemma depth_upper: "\<exists>ls. schedule (qubit_time m) gs ls \<and> (\<forall>l\<in>set ls. l \<le> depth_loop gs m k)"
proof (induction gs m k rule: depth_loop.induct)
  case (2 g gs m k)
  show ?case
  proof (cases "gt_targets g = []")
    case True
    then obtain ls where "schedule (qubit_time m) gs ls" "\<forall>l\<in>set ls. l \<le> depth_loop gs m k" using 2(1) by blast
    with True show ?thesis by (intro exI [of _ "0 # ls"]) simp
  next
    case False
    define t where "t = Suc (fold max (map (qubit_time m) (gt_targets g)) 0)"
    obtain ls where ls: "schedule (qubit_time (fold (\<lambda>q. js_set q t) (gt_targets g) m)) gs ls"
      "\<forall>l\<in>set ls. l \<le> depth_loop gs (fold (\<lambda>q. js_set q t) (gt_targets g) m) (max k t)"
      using 2(2) [OF False t_def] by blast
    have "qubit_time m q < t" if "q \<in> set (gt_targets g)" for q
      using that fold_max_ge [of 0 "map (qubit_time m) (gt_targets g)"] by (auto simp: t_def less_Suc_eq_le)
    moreover have "t \<le> depth_loop gs (fold (\<lambda>q. js_set q t) (gt_targets g) m) (max k t)"
      using depth_loop_ge [of "max k t"] by (meson max.cobounded2 order_trans)
    moreover have "(\<lambda>q. if q \<in> set (gt_targets g) then t else qubit_time m q) = qubit_time (fold (\<lambda>q. js_set q t) (gt_targets g) m)"
      by (simp add: qubit_time_set fun_eq_iff)
    moreover have "depth_loop (g # gs) m k = depth_loop gs (fold (\<lambda>q. js_set q t) (gt_targets g) m) (max k t)"
      using False by (simp add: t_def Let_def)
    ultimately show ?thesis using ls by (intro exI [of _ "t # ls"]) simp
  qed
qed simp

subsection \<open>Properties\<close>

text \<open>C21. Running a circuit on the local simulator, for circuits of the builder's shape (one target
  per gate, two for CNOT, an angle for a rotation) with fewer than 31 qubits, and random numbers below 1: the call
  hangs for ever exactly when the circuit has an H, X, Y or Z gate or a rotation about Z: the targets are looked up in an
  empty list, the index -1 makes the stride negative and the loop variable never reaches its bound. Every
  other gate does nothing, so every other such circuit is answered by a receipt with local evidence that reports
  1024 times the all-zero outcome and every measurement as 0, whatever the policy, the gates and the random numbers.
  The simulator is called directly: the client's constructor throws where modules have no \<open>require\<close>.\<close>

theorem local_execution_spec:
  assumes "\<forall>g\<in>set (qc_gates c). shape_ok g" and "length (qc_qubits c) < 31" and "\<And>d k. cq_random Q d k < 1"
  shows "(local_execute E Q c p s = None \<longleftrightarrow> (\<exists>g\<in>set (qc_gates c). \<not> passes g)) \<and>
     (\<forall>out s'. local_execute E Q c p s = Some (out, s') \<longrightarrow>
        (\<exists>r res. out = Inr r \<and> cp_result r = Some res \<and> cp_class r = LOCAL_PROCESS \<and>
           rs_counts res = [(replicate (max 1 (length (qc_qubits c))) (CHR ''0''), 1024)] \<and>
           (\<forall>b\<in>snd ` set (rs_measurements res). b = 0)))"
proof -
  note sim = simulate_effect [OF assms]
  show ?thesis
  proof (cases "\<forall>g\<in>set (qc_gates c). passes g")
    case True
    from sim(2) [OF this, where draw = "tick s + 2"] obtain ms where
      "simulate Q (Suc (Suc (tick s))) c = Some (Inr (ms, [(replicate (max 1 (length (qc_qubits c))) (CHR ''0''), 1024)],
         Some 1 # replicate (2 ^ length (qc_qubits c) - 1) (Some 0)))" "\<forall>b\<in>snd ` set ms. b = 0" by auto
    then show ?thesis using True by (auto simp: local_execute_def take_uuid_def take_now_def Let_def)
  next
    case False
    with sim(1) [where draw = "tick s + 2"] show ?thesis by (auto simp: local_execute_def take_uuid_def take_now_def Let_def)
  qed
qed

text \<open>The assurance of an execution. Every circuit that passes the checks of the hardware backend is reported with the
  same counts and the same two measured bits, as attested by hardware, without having been submitted
  anywhere; the list of allowed backends is not consulted. A policy that asks for an isolated sandbox or for
  several parties is served by the simulator with local evidence. The data boundary and the evidence
  requirements of the input change nothing. All of it for a client that could be made.\<close>

lemma new_client_backends:
  assumes "new_client E Q tok = Inr cl"
  shows "js_get (cl_backends cl) ''local-process'' = Some (local_backend E Q)"
    and "js_get (cl_backends cl) ''qiskit'' = Some (qiskit_backend E Q
      \<lparr>qk_backend = ''ibmq_qasm_simulator'', qk_token = tok, qk_timeoutMs = 60000, qk_shots = 1024\<rparr>)"
  using assms by (auto simp: new_client_def split: option.splits)

theorem assurance_spec:
  assumes cl: "new_client E Q tok = Inr cl"
  shows "(qp_assurance (gi_policy i) = HARDWARE_ATTESTED \<and> length (qc_qubits (gi_circuit i)) \<le> qp_maxQubits (gi_policy i) \<and>
      computeDepth (gi_circuit i) \<le> qp_maxDepth (gi_policy i) \<longrightarrow>
      (\<exists>r s'. cql_execute E cl i s = Some (Governed_ok r, s') \<and> cp_class r = HARDWARE_ATTESTED \<and>
        (\<exists>res. cp_result r = Some res \<and> rs_counts res = [(''00'', 512), (''11'', 512)] \<and>
           rs_measurements res = [(''m0'', 0), (''m1'', 0)]))) \<and>
   (\<forall>r s'. qp_assurance (gi_policy i) \<noteq> HARDWARE_ATTESTED \<and> cql_execute E cl i s = Some (Governed_ok r, s') \<longrightarrow>
      cp_class r = LOCAL_PROCESS) \<and>
   cql_execute E cl (i\<lparr>gi_boundary := db, gi_evidence := ev\<rparr>) s = cql_execute E cl i s"
proof (intro conjI impI allI)
  assume a: "qp_assurance (gi_policy i) = HARDWARE_ATTESTED \<and> length (qc_qubits (gi_circuit i)) \<le> qp_maxQubits (gi_policy i) \<and>
      computeDepth (gi_circuit i) \<le> qp_maxDepth (gi_policy i)"
  have "isSupportedGate g" for g by (cases "gt_name g") (simp_all add: isSupportedGate_def SUPPORTED_GATES_def)
  then have v: "qiskit_validate (gi_circuit i) (gi_policy i) = (True, [])"
    using a by (simp add: qiskit_validate_def estimateDepth_def computeDepth_def)
  have "extractMeasurements [(''00'', 512), (''11'', 512)] = [(''m0'', 0), (''m1'', 0)]"
    by (simp add: extractMeasurements_def show_nat.simps digit_char_def code_of_def char_of_def bit_Suc_0_iff)
  then show "\<exists>r s'. cql_execute E cl i s = Some (Governed_ok r, s') \<and> cp_class r = HARDWARE_ATTESTED \<and>
        (\<exists>res. cp_result r = Some res \<and> rs_counts res = [(''00'', 512), (''11'', 512)] \<and>
           rs_measurements res = [(''m0'', 0), (''m1'', 0)])"
    using a v by (simp add: cql_execute_def new_client_backends [OF cl] qiskit_backend_def qiskit_execute_def submitToQiskit_def
        take_uuid_def take_now_def Let_def)
next
  fix r s'
  assume "qp_assurance (gi_policy i) \<noteq> HARDWARE_ATTESTED \<and> cql_execute E cl i s = Some (Governed_ok r, s')"
  then show "cp_class r = LOCAL_PROCESS"
    by (auto simp: cql_execute_def new_client_backends [OF cl] local_backend_def local_execute_def cql_fail_def case_prod_beta Let_def
        split: if_splits option.splits sum.splits)
next
  show "cql_execute E cl (i\<lparr>gi_boundary := db, gi_evidence := ev\<rparr>) s = cql_execute E cl i s"
  proof -
    have "gi_circuit (i\<lparr>gi_boundary := db, gi_evidence := ev\<rparr>) = gi_circuit i"
      "gi_policy (i\<lparr>gi_boundary := db, gi_evidence := ev\<rparr>) = gi_policy i" by simp_all
    then show ?thesis by (simp only: cql_execute_def)
  qed
qed

text \<open>C22. The depth that a policy bounds is the length of the shortest schedule of the circuit: the gates can be put
  into that many layers with each gate after the earlier ones on its qubits, and into no fewer. Both adapters
  compute it.\<close>

theorem depth_is_shortest_schedule:
  "(\<exists>ls. schedule (\<lambda>_. 0) (qc_gates c) ls \<and> (\<forall>l\<in>set ls. l \<le> computeDepth c)) \<and>
   (\<forall>ls d. schedule (\<lambda>_. 0) (qc_gates c) ls \<and> (\<forall>l\<in>set ls. l \<le> d) \<longrightarrow> computeDepth c \<le> d) \<and>
   estimateDepth c = computeDepth c"
proof (intro conjI allI impI)
  have z: "(\<lambda>_. 0) = qubit_time []" by (simp add: qubit_time_def fun_eq_iff)
  show "\<exists>ls. schedule (\<lambda>_. 0) (qc_gates c) ls \<and> (\<forall>l\<in>set ls. l \<le> computeDepth c)"
    unfolding z computeDepth_def by (rule depth_upper)
  show "computeDepth c \<le> d" if "schedule (\<lambda>_. 0) (qc_gates c) ls \<and> (\<forall>l\<in>set ls. l \<le> d)" for ls d
    unfolding computeDepth_def by (rule depth_lower [of "\<lambda>_. 0" _ ls]) (use that in \<open>simp_all add: qubit_time_def\<close>)
qed (simp add: estimateDepth_def computeDepth_def)

definition demo_gate :: "gate_name \<Rightarrow> string list \<Rightarrow> gate" where
  "demo_gate n ts = \<lparr>gt_name = n, gt_targets = ts, gt_params = None\<rparr>"

definition demo_circuit :: "gate list \<Rightarrow> circuit" where
  "demo_circuit gs = \<lparr>qc_name = ''c'', qc_qubits = [''q0'', ''q1''], qc_gates = gs, qc_measurements = [\<lparr>ms_target = ''q0'', ms_var = ''r''\<rparr>]\<rparr>"

theorem depth_witness:
  "computeDepth (demo_circuit [demo_gate GH [''q0''], demo_gate GX [''q1''], demo_gate GCNOT [''q0'', ''q1'']]) \<le> 2"
proof -
  let ?gs = "[demo_gate GH [''q0''], demo_gate GX [''q1''], demo_gate GCNOT [''q0'', ''q1'']]"
  have "schedule (\<lambda>_. 0) (qc_gates (demo_circuit ?gs)) [1, 1, 2] \<and> (\<forall>l\<in>set [1, 1, 2 :: nat]. l \<le> 2)"
    by (simp add: demo_circuit_def demo_gate_def)
  with depth_is_shortest_schedule [of "demo_circuit ?gs"] show ?thesis by blast
qed

definition demo_cql :: cql_env where
  "demo_cql = \<lparr>cq_random = (\<lambda>_ _. 1 / 2), cq_sin = (\<lambda>x. x), cq_cos = (\<lambda>x. x), cq_secret = None, cq_require = None\<rparr>"

definition demo_input :: "assurance \<Rightarrow> gate list \<Rightarrow> governed_input" where
  "demo_input a gs = \<lparr>gi_circuit = demo_circuit gs,
     gi_policy = \<lparr>qp_maxQubits = 2, qp_maxDepth = 9, qp_assurance = a, qp_backends = [''local-process'']\<rparr>,
     gi_boundary = \<lparr>db_id = ''d'', db_classification = ''public'', db_operations = []\<rparr>,
     gi_evidence = \<lparr>er_minimum = LOCAL_PROCESS, er_fullTrace = False\<rparr>\<rparr>"

theorem local_execution_witness:
  "local_execute demo_env demo_cql (demo_circuit [demo_gate GH [''q0'']]) (gi_policy (demo_input LOCAL_PROCESS [])) \<lparr>tick = 0\<rparr> = None \<and>
   local_execute demo_env demo_cql (demo_circuit [demo_gate GS [''q0'']]) (gi_policy (demo_input LOCAL_PROCESS [])) \<lparr>tick = 0\<rparr> \<noteq> None"
proof -
  note d = demo_circuit_def demo_gate_def shape_ok_def passes_def demo_cql_def
  show ?thesis
    using local_execution_spec [of "demo_circuit [demo_gate GH [''q0'']]" demo_cql demo_env
        "gi_policy (demo_input LOCAL_PROCESS [])" "\<lparr>tick = 0\<rparr>"]
      local_execution_spec [of "demo_circuit [demo_gate GS [''q0'']]" demo_cql demo_env
        "gi_policy (demo_input LOCAL_PROCESS [])" "\<lparr>tick = 0\<rparr>"]
    by (simp add: d)
qed

theorem assurance_witness:
  "\<exists>cl r s'. new_client demo_env demo_cql None = Inr cl \<and>
     cql_execute demo_env cl (demo_input HARDWARE_ATTESTED [demo_gate GX [''q0'']]) \<lparr>tick = 0\<rparr> =
       Some (Governed_ok r, s') \<and> cp_class r = HARDWARE_ATTESTED"
proof -
  note d = demo_input_def demo_circuit_def demo_gate_def computeDepth_def qubit_time_def
  obtain cl :: "sys_st cql_client" where cl: "new_client demo_env demo_cql None = Inr cl"
    by (simp add: new_client_def demo_cql_def)
  then show ?thesis
    using assurance_spec [OF cl, of "demo_input HARDWARE_ATTESTED [demo_gate GX [''q0'']]" "\<lparr>tick = 0\<rparr>"]
    by (simp add: d) metis
qed

text \<open>Where a module has no \<open>require\<close>, as in this package, a circuit run through the builder fails
  before any backend is asked: nothing is drawn and nothing changes.\<close>

theorem builder_run_without_require:
  assumes "cq_require Q = Some e"
  shows "builder_run E Q tok b po s = Some (Inl e, s)"
  using assms by (simp add: builder_run_def new_client_def)

theorem builder_run_witness:
  "builder_run demo_env (demo_cql\<lparr>cq_require := Some ''require is not defined''\<rparr>) None new_builder
     \<lparr>po_maxQubits = None, po_maxDepth = None, po_assurance = None, po_backends = None\<rparr> \<lparr>tick = 0\<rparr> =
   Some (Inl ''require is not defined'', \<lparr>tick = 0\<rparr>)"
  by (rule builder_run_without_require) simp

end
