(* ===== verification/LlmClient.thy ===== *)
theory LlmClient
  imports ModelRouter Regex "HOL-Library.Word"
begin

text \<open>
  The client of the language models (\<open>src/model/llmClient.ts\<close>) with the registry of cloud providers
  (\<open>src/model/providers\<close>) and the prompt templates (\<open>config/promptTemplates.ts\<close>): how a prompt and a request
  are put together, the retries, and how an answer is read. The HTTP service is a parameter: the
  i-th request is answered by the i-th answer, the state counts. The waiting between attempts takes no step.
  So is the module system: two modules are loaded by \<open>require\<close> when a function runs, and the package is of
  type \<open>module\<close> (\<open>src/package.json\<close>), where Node.js defines no \<open>require\<close>. \<open>md_require\<close> is the message of the
  error that a \<open>require\<close> throws, and \<open>None\<close> where the call works (a CommonJS build).
  Where a service answers with a text, the text is a string. Template names that JavaScript objects inherit
  are left out.
\<close>

subsection \<open>Reading an answer\<close>

datatype path_step = Fld string | Idx nat

text \<open>Optional chaining: \<open>x?.a?.[0]\<close>.\<close>

fun opt_path :: "json option \<Rightarrow> path_step list \<Rightarrow> json option" where
  "opt_path v [] = v"
| "opt_path (Some (JObj fs)) (Fld k # ps) = opt_path (map_of fs k) ps"
| "opt_path (Some (JArr xs)) (Idx i # ps) = opt_path (if i < length xs then Some (xs ! i) else None) ps"
| "opt_path v (p # ps) = None"

definition text_at :: "path_step list \<Rightarrow> json \<Rightarrow> string" where
  "text_at ps raw = (case opt_path (Some raw) ps of Some (JStr t) \<Rightarrow> t | _ \<Rightarrow> [])"

abbreviation CHAT_PATH :: "path_step list" where
  "CHAT_PATH \<equiv> [Fld ''choices'', Idx 0, Fld ''message'', Fld ''content'']"

subsection \<open>Providers\<close>

record llm_message =
  lm_role :: string
  lm_content :: string

definition message_json :: "llm_message \<Rightarrow> json" where
  "message_json m = JObj [(''role'', JStr (lm_role m)), (''content'', JStr (lm_content m))]"

record provider =
  pv_name :: string
  pv_key :: string
  pv_freeTier :: bool
  pv_defaultEndpoint :: string
  pv_defaultModel :: string
  pv_apiKeyEnv :: string
  pv_buildUrl :: "string \<Rightarrow> string \<Rightarrow> string"
  pv_buildHeaders :: "string option \<Rightarrow> (string \<times> string) list"
  pv_buildBody :: "string \<Rightarrow> jsnum option \<Rightarrow> jsnum option \<Rightarrow> llm_message list \<Rightarrow> json"
  pv_parse :: "json \<Rightarrow> string"

definition bearer_headers :: "string option \<Rightarrow> (string \<times> string) list" where
  "bearer_headers key = [(''Content-Type'', ''application/json''), (''Authorization'', ''Bearer '' @ or_else key [])]"

definition chat_body :: "jsnum \<Rightarrow> jsnum \<Rightarrow> string \<Rightarrow> jsnum option \<Rightarrow> jsnum option \<Rightarrow> llm_message list \<Rightarrow> json" where
  "chat_body tokens temp model mt tp ms =
     JObj [(''model'', JStr model), (''messages'', JArr (map message_json ms)),
       (''max_tokens'', JNum (or_else mt tokens)), (''temperature'', JNum (or_else tp temp))]"

text \<open>Eight of the nine providers differ only in names, defaults and the path.\<close>

definition chat_provider :: "string \<Rightarrow> string \<Rightarrow> string \<Rightarrow> string \<Rightarrow> string \<Rightarrow> jsnum \<Rightarrow> jsnum \<Rightarrow> provider" where
  "chat_provider name key ep model env tokens temp =
     \<lparr>pv_name = name, pv_key = key, pv_freeTier = True, pv_defaultEndpoint = ep, pv_defaultModel = model, pv_apiKeyEnv = env,
      pv_buildUrl = (\<lambda>e m. e @ ''/chat/completions''), pv_buildHeaders = bearer_headers,
      pv_buildBody = chat_body tokens temp, pv_parse = text_at CHAT_PATH\<rparr>"

definition gemini_body :: "string \<Rightarrow> jsnum option \<Rightarrow> jsnum option \<Rightarrow> llm_message list \<Rightarrow> json" where
  "gemini_body model mt tp ms =
     JObj ([(''contents'', JArr (map (\<lambda>m. JObj [(''role'', JStr (if lm_role m = ''assistant'' then ''model'' else ''user'')),
               (''parts'', JArr [JObj [(''text'', JStr (lm_content m))]])]) (filter (\<lambda>m. lm_role m \<noteq> ''system'') ms))),
            (''generationConfig'', JObj [(''maxOutputTokens'', JNum (or_else mt 2048)), (''temperature'', JNum (or_else tp (dec 2 10)))])] @
           (case List.find (\<lambda>m. lm_role m = ''system'') ms of
              Some m \<Rightarrow> [(''systemInstruction'', JObj [(''parts'', JArr [JObj [(''text'', JStr (lm_content m))]])])]
            | None \<Rightarrow> []))"

definition geminiProvider :: provider where
  "geminiProvider =
     \<lparr>pv_name = ''Google Gemini'', pv_key = ''gemini'', pv_freeTier = True,
      pv_defaultEndpoint = ''https://generativelanguage.googleapis.com'', pv_defaultModel = ''gemini-2.0-flash'',
      pv_apiKeyEnv = ''GEMINI_API_KEY'',
      pv_buildUrl = (\<lambda>e m. e @ ''/v1beta/models/'' @ m @ '':generateContent''),
      pv_buildHeaders = (\<lambda>_. [(''Content-Type'', ''application/json'')]), pv_buildBody = gemini_body,
      pv_parse = text_at [Fld ''candidates'', Idx 0, Fld ''content'', Fld ''parts'', Idx 0, Fld ''text'']\<rparr>"

definition groqProvider :: provider where
  "groqProvider = chat_provider ''Groq LPU'' ''groq'' ''https://api.groq.com/openai/v1'' ''mixtral-8x7b-32768'' ''GROQ_API_KEY'' 4096 (dec 2 10)"

definition deepseekProvider :: provider where
  "deepseekProvider = chat_provider ''DeepSeek'' ''deepseek'' ''https://api.deepseek.com/v1'' ''deepseek-chat'' ''DEEPSEEK_API_KEY'' 4096 (dec 1 10)"

definition huggingfaceProvider :: provider where
  "huggingfaceProvider =
     (chat_provider ''Hugging Face'' ''huggingface'' ''https://api-inference.huggingface.co'' ''HuggingFaceH4/zephyr-7b-beta'' ''HF_API_KEY'' 1024 (dec 2 10))
       \<lparr>pv_buildUrl := (\<lambda>e m. e @ ''/models/'' @ m @ ''/v1/chat/completions'')\<rparr>"

definition openrouterProvider :: provider where
  "openrouterProvider =
     (chat_provider ''OpenRouter'' ''openrouter'' ''https://openrouter.ai/api/v1'' ''meta-llama/llama-3.1-70b-instruct:free'' ''OPENROUTER_API_KEY'' 4096 (dec 2 10))
       \<lparr>pv_buildHeaders := (\<lambda>k. bearer_headers k @ [(''HTTP-Referer'', ''https://github.com/nova-agent''), (''X-Title'', ''Nova Coding Agent'')])\<rparr>"

definition mistralProvider :: provider where
  "mistralProvider = chat_provider ''Mistral AI'' ''mistral'' ''https://api.mistral.ai/v1'' ''mistral-small-latest'' ''MISTRAL_API_KEY'' 4096 (dec 2 10)"

definition nvidiaNimProvider :: provider where
  "nvidiaNimProvider = chat_provider ''NVIDIA NIM'' ''nvidia'' ''https://integrate.api.nvidia.com/v1'' ''meta/llama-3.1-8b-instruct'' ''NVIDIA_API_KEY'' 4096 (dec 2 10)"

definition togetherProvider :: provider where
  "togetherProvider = chat_provider ''Together AI'' ''together'' ''https://api.together.xyz/v1'' ''meta-llama/Llama-3.3-70B-Instruct-Turbo'' ''TOGETHER_API_KEY'' 4096 (dec 2 10)"

definition githubModelsProvider :: provider where
  "githubModelsProvider = chat_provider ''GitHub Models'' ''github'' ''https://models.inference.ai.azure.com'' ''gpt-4o-mini'' ''GITHUB_TOKEN'' 4096 (dec 2 10)"

definition provider_registry :: "(string, provider) jsmap" where
  "provider_registry = map (\<lambda>p. (pv_key p, p))
     [geminiProvider, groqProvider, deepseekProvider, huggingfaceProvider, openrouterProvider, mistralProvider, nvidiaNimProvider,
      togetherProvider, githubModelsProvider]"

definition getProvider :: "string \<Rightarrow> provider option" where
  "getProvider key = js_get provider_registry key"

definition getValidProviderKeys :: "string list" where
  "getValidProviderKeys = map fst provider_registry"

definition getDescription :: "string \<Rightarrow> string" where
  "getDescription key = or_else (map_of
     [(''gemini'', ''Google Gemini API '' @ em_dash @ '' free tier via AI Studio. Fast, 60 req/min.''),
      (''groq'', ''Groq LPU '' @ em_dash @ '' free tier. Extremely fast Llama/Mixtral/Gemma inference.''),
      (''deepseek'', ''DeepSeek API '' @ em_dash @ '' free trial credits. Strong coding model.''),
      (''huggingface'', ''Hugging Face Inference API '' @ em_dash @ '' free tier, many open models.''),
      (''openrouter'', ''OpenRouter '' @ em_dash @ '' unified API for 200+ models, some free.''),
      (''mistral'', ''Mistral AI '' @ em_dash @ '' free tier. French LLM startup, good multilingual.''),
      (''nvidia'', ''NVIDIA NIM '' @ em_dash @ '' free tier via build.nvidia.com. Llama/Mistron/DeepSeek on GPU.''),
      (''together'', ''Together AI '' @ em_dash @ '' $1 free credit. Hosts LLaMA 3.3 70B, DeepSeek R1, Qwen 2.5, Mixtral.''),
      (''github'', ''GitHub Models '' @ em_dash @ '' free tier via GitHub token. GPT-4o-mini, LLaMA 3.1, Phi-3, Mistral.'')] key) []"

definition listProviders :: "(provider \<times> string) list" where
  "listProviders = map (\<lambda>p. (p, getDescription (pv_key p))) (js_values provider_registry)"

subsection \<open>Prompts\<close>

record prompt_template =
  pt_id :: string
  pt_name :: string
  pt_system :: string
  pt_fewShot :: "(string \<times> string) list option"

abbreviation NL :: string where
  "NL \<equiv> [CHR 0x0A]"

definition quoted :: "string \<Rightarrow> string" where
  "quoted t = [CHR 0x22] @ t @ [CHR 0x22]"

definition DEFAULT_TEMPLATE :: prompt_template where
  "DEFAULT_TEMPLATE = \<lparr>pt_id = ''default'', pt_name = ''Default governed coder'',
     pt_system = ''You are Nova, a governed agentic coding assistant. Generate only code, no explanation. '' @
       ''Follow the existing code style and conventions observed in the provided context files.'', pt_fewShot = None\<rparr>"

definition CODING_TEMPLATES :: "(string \<times> prompt_template) list" where
  "CODING_TEMPLATES =
     [(''default'', DEFAULT_TEMPLATE),
      (''test'', \<lparr>pt_id = ''test'', pt_name = ''Test generator'',
         pt_system = ''You are Nova, a governed agentic coding assistant. Generate unit tests for the given code. '' @
           ''Use the same test framework observed in the project (e.g., vitest, jest, node:test). '' @
           ''Follow Arrange-Act-Assert pattern. Include edge cases.'',
         pt_fewShot = Some [(''Function: add(a, b) returns a + b'',
           ''import { describe, it, assert } from '' @ quoted ''vitest'' @ '';'' @ NL @ NL @ ''describe('' @ quoted ''add'' @ '', () => {'' @ NL @
           ''  it('' @ quoted ''adds two positive numbers'' @ '', () => {'' @ NL @ ''    assert.equal(add(2, 3), 5);'' @ NL @ ''  });'' @ NL @ ''});'')]\<rparr>),
      (''refactor'', \<lparr>pt_id = ''refactor'', pt_name = ''Refactor assistant'',
         pt_system = ''You are Nova, a refactoring assistant. Rewrite the provided code to improve readability, '' @
           ''performance, and maintainability without changing its behavior. Preserve the existing API surface.'', pt_fewShot = None\<rparr>),
      (''explain'', \<lparr>pt_id = ''explain'', pt_name = ''Code explainer'',
         pt_system = ''You are Nova, a code explainer. Explain the provided code concisely, covering what it does, '' @
           ''key design decisions, and any potential issues. Use bullet points.'', pt_fewShot = None\<rparr>)]"

type_synonym templates = "(string, prompt_template) jsmap"

record modules =
  md_require :: "string option"
  md_templates :: templates

definition registerTemplate :: "prompt_template \<Rightarrow> templates \<Rightarrow> templates" where
  "registerTemplate t m = js_set (pt_id t) t m"

definition getTemplate :: "templates \<Rightarrow> string \<Rightarrow> prompt_template" where
  "getTemplate m i = or_else (js_get m i) (or_else (map_of CODING_TEMPLATES i) DEFAULT_TEMPLATE)"

definition listTemplates :: "templates \<Rightarrow> prompt_template list" where
  "listTemplates m = map snd CODING_TEMPLATES @ js_values m"

definition language_line :: "string option \<Rightarrow> string" where
  "language_line l = (if given_str l then NL @ ''Target language: '' @ the l @ ''.'' else [])"

definition files_line :: "string list option \<Rightarrow> string" where
  "files_line fs = (if or_else fs [] \<noteq> [] then NL @ ''Project files: '' @ join '', '' (the fs) @ ''.'' else [])"

definition buildSystemPrompt :: "templates \<Rightarrow> string option \<Rightarrow> string option \<Rightarrow> string list option \<Rightarrow> string" where
  "buildSystemPrompt m tid language files =
     pt_system (getTemplate m (or_else tid ''default'')) @ language_line language @ files_line files"

record gen_context =
  gc_files :: "(string \<times> string) list option"
  gc_language :: "string option"
  gc_projectFiles :: "string list option"
  gc_template :: "string option"

definition no_context :: gen_context where
  "no_context = \<lparr>gc_files = None, gc_language = None, gc_projectFiles = None, gc_template = None\<rparr>"

definition BASE_SYSTEM_PROMPT :: string where
  "BASE_SYSTEM_PROMPT = ''You are Nova, a governed agentic coding assistant. Generate only code, no explanation.''"

definition few_shot_text :: "(string \<times> string) list option \<Rightarrow> string" where
  "few_shot_text fs = (if or_else fs [] \<noteq> []
     then NL @ NL @ ''Examples:'' @ NL @ join (NL @ NL) (map (\<lambda>(i, out). ''Input: '' @ i @ NL @ ''Output:'' @ NL @ out) (the fs)) else [])"

definition file_block :: "string \<times> string \<Rightarrow> string" where
  "file_block = (\<lambda>(p, c). ''--- '' @ p @ '' ---'' @ NL @ c @ NL @ ''--- end '' @ p @ '' ---'')"

text \<open>The template is looked up under a \<open>try\<close> whose handler does nothing: a \<open>require\<close> that throws leaves
  the default prompt.\<close>

definition buildPrompt :: "modules \<Rightarrow> string \<Rightarrow> gen_context \<Rightarrow> string \<times> string" where
  "buildPrompt m prompt ctx =
     (let (system, fewShot) = (if given_str (gc_template ctx) \<and> md_require m = None
                               then let t = getTemplate (md_templates m) (the (gc_template ctx)) in (pt_system t, few_shot_text (pt_fewShot t))
                               else (BASE_SYSTEM_PROMPT, []));
          parts = (if given_str (gc_language ctx) then [''Generate '' @ the (gc_language ctx) @ '' code.''] else []) @ [prompt] @
                  (if or_else (gc_files ctx) [] \<noteq> []
                   then [NL @ ''Relevant project files:'' @ NL @ join (NL @ NL) (map file_block (the (gc_files ctx)))] else [])
      in (system @ language_line (gc_language ctx) @ files_line (gc_projectFiles ctx) @ fewShot, join (NL @ NL) parts))"

subsection \<open>A request\<close>

text \<open>\<open>text.split(key).join(by)\<close> for a key that is not empty.\<close>

function replace_all :: "string \<Rightarrow> string \<Rightarrow> string \<Rightarrow> string" where
  "replace_all key by s =
     (if key = [] then s
      else if starts_with s key then by @ replace_all key by (drop (length key) s)
      else case s of [] \<Rightarrow> [] | c # t \<Rightarrow> c # replace_all key by t)"
  by pat_completeness auto
termination
  by (relation "measure (\<lambda>(key, by, s). length s)") (auto simp: starts_with_prefix intro: diff_less dest: prefix_length_le split: if_splits)

declare replace_all.simps [simp del]

definition redactSensitive :: "string \<Rightarrow> llm_config \<Rightarrow> string" where
  "redactSensitive text cfg =
     (if given_str (lc_key cfg) \<and> str_includes text (the (lc_key cfg)) then replace_all (the (lc_key cfg)) ''****'' text else text)"

text \<open>\<open>endpoint.replace(/\/+$/, "")\<close>\<close>

definition strip_slashes :: "string \<Rightarrow> string" where
  "strip_slashes e = rev (dropWhile (\<lambda>c. c = CHR ''/'') (rev e))"

record llm_request =
  rq_url :: string
  rq_body :: json
  rq_headers :: "(string \<times> string) list option"

text \<open>The registry of the cloud providers is required when one is asked for. (The second \<open>require\<close> of it, when an
  answer is read, is reached only after this one and finds the loaded module.)\<close>

definition buildEndpoint :: "modules \<Rightarrow> llm_config \<Rightarrow> llm_message list \<Rightarrow> string + llm_request" where
  "buildEndpoint m cfg ms =
     (let p = lc_provider cfg; mt = Some (lc_maxTokens cfg); tp = Some (lc_temperature cfg)
      in if p = ''openai''
         then Inr \<lparr>rq_url = strip_slashes (lc_endpoint cfg) @ ''/v1/chat/completions'',
                   rq_body = chat_body 2048 (dec 2 10) (lc_model cfg) mt tp ms, rq_headers = None\<rparr>
         else if p = ''ollama''
         then Inr \<lparr>rq_url = strip_slashes (lc_endpoint cfg) @ ''/api/chat'',
                   rq_body = JObj [(''model'', JStr (lc_model cfg)), (''messages'', JArr (map message_json ms)),
                     (''options'', JObj [(''num_predict'', JNum (lc_maxTokens cfg)), (''temperature'', JNum (lc_temperature cfg))]),
                     (''stream'', JBool False)], rq_headers = None\<rparr>
         else if p = ''custom''
         then Inr \<lparr>rq_url = lc_endpoint cfg, rq_body = chat_body 2048 (dec 2 10) (lc_model cfg) mt tp ms, rq_headers = None\<rparr>
         else case md_require m of
           Some e \<Rightarrow> Inl e
         | None \<Rightarrow>
             (case getProvider p of
                None \<Rightarrow> Inl (''Unknown LLM provider: '' @ p)
              | Some pv \<Rightarrow> Inr \<lparr>rq_url = pv_buildUrl pv (lc_endpoint cfg) (lc_model cfg),
                  rq_body = pv_buildBody pv (lc_model cfg) mt tp ms, rq_headers = Some (pv_buildHeaders pv (lc_key cfg))\<rparr>))"

definition request_headers :: "llm_config \<Rightarrow> llm_request \<Rightarrow> (string \<times> string) list" where
  "request_headers cfg rq =
     (let h = or_else (rq_headers rq) [(''Content-Type'', ''application/json'')]
      in if given_str (lc_key cfg) \<and> \<not> given_str (js_get h ''Authorization'') \<and> lc_provider cfg \<noteq> ''gemini''
         then js_set ''Authorization'' (''Bearer '' @ the (lc_key cfg)) h else h)"

subsection \<open>Sending it\<close>

datatype http_answer =
    Http_throws string
  | Http_status nat string "json option"

type_synonym http_service = "nat \<Rightarrow> string \<Rightarrow> (string \<times> string) list \<Rightarrow> string \<Rightarrow> http_answer"

record llm_response =
  lr_text :: string
  lr_model :: string
  lr_usage :: "(json \<times> json) option"

definition MAX_RETRIES :: nat where
  "MAX_RETRIES = 3"

definition has_four :: "string \<Rightarrow> bool" where
  "has_four t = str_includes t ''4''"

text \<open>What an attempt leads to: an answer, an error that ends the call, or an error after which it is retried.\<close>

datatype attempt = Answer llm_response | Fatal string | Retry string

definition read_answer :: "llm_config \<Rightarrow> json \<Rightarrow> attempt" where
  "read_answer cfg raw =
     (if raw = JNull then Fatal ''Cannot read properties of null''
      else
        let text = (if lc_provider cfg = ''ollama'' then text_at [Fld ''message'', Fld ''content''] raw
                    else if lc_provider cfg \<in> {''openai'', ''custom''} then text_at CHAT_PATH raw
                    else case getProvider (lc_provider cfg) of Some p \<Rightarrow> pv_parse p raw | None \<Rightarrow> []);
            usage = opt_path (Some raw) [Fld ''usage'']
        in Answer \<lparr>lr_text = text, lr_model = lc_model cfg,
             lr_usage = (if truthy usage
                         then Some (or_else (opt_path usage [Fld ''prompt_tokens'']) (JNum 0), or_else (opt_path usage [Fld ''completion_tokens'']) (JNum 0))
                         else None)\<rparr>)"

definition thrown :: "string \<Rightarrow> attempt" where
  "thrown msg = (if str_includes msg ''LLM API error'' \<and> \<not> has_four msg then Retry msg else Fatal msg)"

definition attempt_of :: "llm_config \<Rightarrow> http_answer \<Rightarrow> attempt" where
  "attempt_of cfg a =
     (case a of
        Http_throws msg \<Rightarrow> thrown msg
      | Http_status st text body \<Rightarrow>
          let msg = ''LLM API error '' @ show_nat st @ '': '' @ redactSensitive (take 200 text) cfg
          in if st < 200 \<or> 299 < st
             then if st < 500 \<and> st \<noteq> 429 then thrown msg else Retry msg
             else case body of None \<Rightarrow> Fatal ''Unexpected token in JSON'' | Some raw \<Rightarrow> read_answer cfg raw)"

fun attempts :: "http_service \<Rightarrow> llm_config \<Rightarrow> llm_request \<Rightarrow> nat \<Rightarrow> string option \<Rightarrow> 'a sys_st_scheme \<Rightarrow> (string + llm_response) \<times> 'a sys_st_scheme" where
  "attempts H cfg rq 0 err s = (Inl (or_else err ''LLM generation failed after retries''), s)"
| "attempts H cfg rq (Suc k) err s =
     (let a = H (tick s) (rq_url rq) (request_headers cfg rq) (stringify (rq_body rq)); s1 = s\<lparr>tick := Suc (tick s)\<rparr>
      in case attempt_of cfg a of
           Answer r \<Rightarrow> (Inr r, s1)
         | Fatal e \<Rightarrow> (Inl e, s1)
         | Retry e \<Rightarrow> attempts H cfg rq k (Some e) s1)"

definition llmGenerate ::
    "http_service \<Rightarrow> modules \<Rightarrow> llm_config \<Rightarrow> string \<Rightarrow> gen_context \<Rightarrow> 'a sys_st_scheme \<Rightarrow> (string + llm_response) \<times> 'a sys_st_scheme" where
  "llmGenerate H m cfg prompt ctx s =
     (let (system, user) = buildPrompt m prompt ctx
      in case buildEndpoint m cfg [\<lparr>lm_role = ''system'', lm_content = system\<rparr>, \<lparr>lm_role = ''user'', lm_content = user\<rparr>] of
           Inl e \<Rightarrow> (Inl e, s)
         | Inr rq \<Rightarrow> attempts H cfg rq MAX_RETRIES None s)"

definition completeText ::
    "process_env \<Rightarrow> http_service \<Rightarrow> modules \<Rightarrow> string \<Rightarrow> jsnum option \<Rightarrow> jsnum option \<Rightarrow> 'a sys_st_scheme \<Rightarrow> (string + string) \<times> 'a sys_st_scheme" where
  "completeText V H m prompt mt tp s =
     (case configFromEnv V of
        Inl e \<Rightarrow> (Inl e, s)
      | Inr cfg \<Rightarrow>
          (case llmGenerate H m (cfg\<lparr>lc_maxTokens := or_else mt 1024, lc_temperature := or_else tp (dec 3 10)\<rparr>) prompt no_context s of
             (Inl e, s1) \<Rightarrow> (Inl e, s1)
           | (Inr r, s1) \<Rightarrow> (Inr (lr_text r), s1)))"

text \<open>\<open>JSON.parse\<close> is a parameter here: the value a text stands for, if it is JSON.\<close>

definition completeJson ::
    "process_env \<Rightarrow> http_service \<Rightarrow> modules \<Rightarrow> (string \<Rightarrow> json option) \<Rightarrow> string \<Rightarrow> string option \<Rightarrow> jsnum option \<Rightarrow> 'a sys_st_scheme \<Rightarrow>
     (string + json) \<times> 'a sys_st_scheme" where
  "completeJson V H m parse prompt schemaName mt s =
     (case configFromEnv V of
        Inl e \<Rightarrow> (Inl e, s)
      | Inr cfg \<Rightarrow>
          (case llmGenerate H m (cfg\<lparr>lc_maxTokens := or_else mt 2048, lc_temperature := dec 1 10\<rparr>)
                  (prompt @ NL @ NL @ ''Respond ONLY with valid JSON matching the '' @ or_else schemaName ''expected'' @
                   '' schema. No markdown, no explanation.'') no_context s of
             (Inl e, s1) \<Rightarrow> (Inl e, s1)
           | (Inr r, s1) \<Rightarrow> (case parse (lr_text r) of Some v \<Rightarrow> (Inr v, s1) | None \<Rightarrow> (Inl ''Unexpected token'', s1))))"

subsection \<open>Embeddings\<close>

text \<open>The hash of a word, on 32 bits: \<open>((h << 5) - h + c) | 0\<close>. The codes are those of the bytes of the text.\<close>

definition hash_word :: "string \<Rightarrow> 32 word" where
  "hash_word w = fold (\<lambda>c h. push_bit 5 h - h + of_nat (code_of c)) w 0"

text \<open>\<open>text.split(/\s+/)\<close>\<close>

fun split_words :: "string \<Rightarrow> string \<Rightarrow> bool \<Rightarrow> string list" where
  "split_words [] w gap = [rev w]"
| "split_words (c # t) w gap =
     (if is_ws c then (if gap then split_words t w True else rev w # split_words t [] True) else split_words t (c # w) False)"

definition mock_embedding :: "(jsnum \<Rightarrow> jsnum) \<Rightarrow> string \<Rightarrow> jsnum list" where
  "mock_embedding th body = map (\<lambda>w. th (js_div (of_int (sint (hash_word w))) 10000000)) (take 50 (split_words body [] False))"

text \<open>\<open>data[0].embedding\<close>: reading it throws, which the code catches, or gives a value, which may be undefined.\<close>

definition field_of_element :: "json option \<Rightarrow> json option option" where
  "field_of_element v =
     (case v of None \<Rightarrow> None | Some JNull \<Rightarrow> None | Some (JObj fs) \<Rightarrow> Some (map_of fs ''embedding'') | Some _ \<Rightarrow> Some None)"

definition embedding_of :: "json \<Rightarrow> json option option" where
  "embedding_of v =
     (case opt_path (Some v) [Fld ''data''] of
        Some (JArr xs) \<Rightarrow> field_of_element (if xs = [] then None else Some (hd xs))
      | Some (JObj fs) \<Rightarrow> field_of_element (map_of fs ''0'')
      | Some (JStr t) \<Rightarrow> if t = [] then None else Some None
      | _ \<Rightarrow> None)"

definition embed :: "process_env \<Rightarrow> http_service \<Rightarrow> (jsnum \<Rightarrow> jsnum) \<Rightarrow> string \<Rightarrow> 'a sys_st_scheme \<Rightarrow> json option \<times> 'a sys_st_scheme" where
  "embed V H th body s =
     (let mock = Some (JArr (map JNum (mock_embedding th body))); endpoint = or_else (ev_var V ''LLM_ENDPOINT'') ''https://api.openai.com/v1''
      in if given_str (ev_var V ''LLM_API_KEY'')
         then (case H (tick s) (endpoint @ ''/embeddings'')
                      [(''Content-Type'', ''application/json''), (''Authorization'', ''Bearer '' @ the (ev_var V ''LLM_API_KEY''))]
                      (stringify (JObj [(''model'', JStr ''text-embedding-ada-002''), (''input'', JStr body)])) of
                 Http_status st t (Some v) \<Rightarrow>
                   (if 200 \<le> st \<and> st \<le> 299 then or_else (embedding_of v) mock else mock, s\<lparr>tick := Suc (tick s)\<rparr>)
               | _ \<Rightarrow> (mock, s\<lparr>tick := Suc (tick s)\<rparr>))
         else (mock, s))"

subsection \<open>Redaction\<close>

lemma replace_empty: "replace_all [] by s = s"
  by (subst replace_all.simps) simp

lemma replace_hit: "key \<noteq> [] \<Longrightarrow> starts_with s key \<Longrightarrow> replace_all key by s = by @ replace_all key by (drop (length key) s)"
  by (subst replace_all.simps) simp

lemma replace_miss: "\<not> starts_with (c # t) key \<Longrightarrow> replace_all key by (c # t) = c # replace_all key by t"
  by (subst replace_all.simps) (auto simp: starts_with_prefix)

lemma replace_end: "replace_all key by [] = []"
  by (subst replace_all.simps) (auto simp: starts_with_prefix)

lemma replace_front:
  "prefix p (replace_all key ''****'' s) \<Longrightarrow> CHR ''*'' \<notin> set p \<Longrightarrow> prefix p s"
proof (induction s arbitrary: p rule: length_induct)
  case (1 s)
  consider "key = []" | "s = []" | "key \<noteq> []" "starts_with s key" | c t where "s = c # t" "\<not> starts_with s key"
    by (cases s) auto
  then show ?case
  proof cases
    case 4
    with 1 show ?thesis by (cases p) (auto simp: replace_miss)
  qed (use "1.prems" in \<open>auto simp: replace_empty replace_hit replace_end prefix_Cons\<close>)
qed

lemma sublist_around:
  "CHR ''*'' \<notin> set key \<Longrightarrow> key \<noteq> [] \<Longrightarrow> sublist key (CHR ''*'' # y) \<Longrightarrow> sublist key y"
  by (auto simp: sublist_Cons_right prefix_Cons)

lemma replace_hides: "CHR ''*'' \<notin> set key \<Longrightarrow> key \<noteq> [] \<Longrightarrow> \<not> sublist key (replace_all key ''****'' s)"
proof (induction s rule: length_induct)
  case (1 s)
  consider "s = []" | "starts_with s key" | c t where "s = c # t" "\<not> starts_with s key" by (cases s) auto
  then show ?case
  proof cases
    case 2
    then have "length (drop (length key) s) < length s" using 1(3) by (cases s) (auto simp: starts_with_prefix)
    then have "\<not> sublist key (replace_all key ''****'' (drop (length key) s))" using 1 by blast
    then show ?thesis using 1(2,3) 2 sublist_around [OF 1(2,3)] by (auto simp: replace_hit)
  next
    case 3
    moreover have "\<not> sublist key (replace_all key ''****'' t)" using 1 3 by auto
    moreover have "\<not> prefix key (c # replace_all key ''****'' t)"
      using replace_front [of key key s] 3 1(2) by (auto simp: starts_with_prefix replace_miss)
    ultimately show ?thesis by (simp add: replace_miss sublist_Cons_right)
  qed (use 1(3) in \<open>simp add: replace_end\<close>)
qed

subsection \<open>Retries\<close>

lemma attempts_spec:
  assumes "attempts H cfg rq n err s = (r, s')"
    and "led = (\<lambda>k. attempt_of cfg (H (tick s + k) (rq_url rq) (request_headers cfg rq) (stringify (rq_body rq))))"
  shows "(\<exists>k<n. (\<forall>j<k. \<exists>e. led j = Retry e) \<and> tick s' = tick s + Suc k \<and>
            (case r of Inr x \<Rightarrow> led k = Answer x | Inl e \<Rightarrow> led k = Fatal e)) \<or>
         (\<forall>j<n. \<exists>e. led j = Retry e) \<and> tick s' = tick s + n \<and> (\<exists>e. r = Inl e \<and> (0 < n \<longrightarrow> led (n - 1) = Retry e))"
  using assms
proof (induction n arbitrary: err s led)
  case (Suc n)
  let ?s1 = "s\<lparr>tick := Suc (tick s)\<rparr>"
  show ?case
  proof (cases "led 0")
    case (Retry e)
    then have "attempts H cfg rq n (Some e) ?s1 = (r, s')" using Suc.prems by simp
    from Suc.IH [OF this refl] Suc.prems(2) have
      "(\<exists>k<n. (\<forall>j<k. \<exists>e. led (Suc j) = Retry e) \<and> tick s' = tick s + Suc (Suc k) \<and>
            (case r of Inr x \<Rightarrow> led (Suc k) = Answer x | Inl e \<Rightarrow> led (Suc k) = Fatal e)) \<or>
         (\<forall>j<n. \<exists>e. led (Suc j) = Retry e) \<and> tick s' = tick s + Suc n \<and> (\<exists>e. r = Inl e \<and> (0 < n \<longrightarrow> led n = Retry e))"
      by (auto split: sum.splits)
    then show ?thesis
    proof (elim disjE exE conjE)
      fix k
      assume "k < n" "\<forall>j<k. \<exists>e. led (Suc j) = Retry e" "tick s' = tick s + Suc (Suc k)"
        "case r of Inr x \<Rightarrow> led (Suc k) = Answer x | Inl e \<Rightarrow> led (Suc k) = Fatal e"
      with Retry show ?thesis by (intro disjI1 exI [of _ "Suc k"]) (auto simp: less_Suc_eq_0_disj)
    next
      fix e'
      assume a: "\<forall>j<n. \<exists>e. led (Suc j) = Retry e" "tick s' = tick s + Suc n" "r = Inl e'" "0 < n \<longrightarrow> led n = Retry e'"
      moreover have "n = 0 \<Longrightarrow> e' = e" using \<open>attempts H cfg rq n (Some e) ?s1 = (r, s')\<close> a(3) by (simp add: or_else_def)
      ultimately show ?thesis using Retry by (intro disjI2) (auto simp: less_Suc_eq_0_disj)
    qed
  qed (use Suc.prems in \<open>auto intro!: exI [of _ 0]\<close>)
qed auto

subsection \<open>Hashes\<close>

lemma hash_word_poly: "hash_word w = of_nat (foldl (\<lambda>n c. 31 * n + code_of c) 0 w)"
proof -
  have "fold (\<lambda>c h. push_bit 5 h - h + of_nat (code_of c)) w (of_nat n) = (of_nat (foldl (\<lambda>n c. 31 * n + code_of c) n w) :: 32 word)" for n
  proof (induction w arbitrary: n)
    case (Cons c w)
    have "push_bit 5 (of_nat n) - of_nat n + of_nat (code_of c) = (of_nat (31 * n + code_of c) :: 32 word)"
      by (simp add: push_bit_eq_mult)
    with Cons [of "31 * n + code_of c"] show ?case by simp
  qed simp
  from this [of 0] show ?thesis by (simp add: hash_word_def)
qed

lemma split_ws_nonempty: "split_words t w gap \<noteq> []"
  by (induction t w gap rule: split_words.induct) auto

subsection \<open>Properties\<close>

text \<open>The request for a provider. Every provider but Gemini gets the key as a bearer token; the request for Gemini is
  the same whatever the key, so it carries none. With the default endpoint a request for OpenAI
  names the version of the interface twice. An error text taken from an answer does not contain
  the key, as long as the key has no asterisk. (The request of a cloud provider is one that a \<open>require\<close>
  that works has built.)\<close>

theorem provider_requests:
  assumes "buildEndpoint m cfg ms = Inr rq"
  shows "(lc_provider cfg = ''gemini'' \<longrightarrow> js_get (request_headers cfg rq) ''Authorization'' = None \<and>
            buildEndpoint m (cfg\<lparr>lc_key := k\<rparr>) ms = Inr rq \<and> request_headers (cfg\<lparr>lc_key := k\<rparr>) rq = request_headers cfg rq) \<and>
     (lc_provider cfg \<noteq> ''gemini'' \<and> given_str (lc_key cfg) \<longrightarrow>
        js_get (request_headers cfg rq) ''Authorization'' = Some (''Bearer '' @ the (lc_key cfg))) \<and>
     (lc_provider cfg = ''openai'' \<and> js_get PROVIDER_ENDPOINTS ''openai'' = Some (lc_endpoint cfg) \<longrightarrow>
        rq_url rq = ''https://api.openai.com/v1/v1/chat/completions'') \<and>
     (given_str (lc_key cfg) \<and> CHR ''*'' \<notin> set (the (lc_key cfg)) \<longrightarrow>
        \<not> str_includes (redactSensitive body_text cfg) (the (lc_key cfg)))"
proof (intro conjI impI)
  show "js_get (request_headers cfg rq) ''Authorization'' = None"
    "buildEndpoint m (cfg\<lparr>lc_key := k\<rparr>) ms = Inr rq"
    "request_headers (cfg\<lparr>lc_key := k\<rparr>) rq = request_headers cfg rq" if "lc_provider cfg = ''gemini''"
    using assms that by (auto simp: buildEndpoint_def getProvider_def provider_registry_def geminiProvider_def request_headers_def or_else_def Let_def
        split: option.splits)
  show "js_get (request_headers cfg rq) ''Authorization'' = Some (''Bearer '' @ the (lc_key cfg))"
    if "lc_provider cfg \<noteq> ''gemini'' \<and> given_str (lc_key cfg)"
    using assms that
    by (auto simp: buildEndpoint_def getProvider_def provider_registry_def chat_provider_def bearer_headers_def geminiProvider_def
        groqProvider_def deepseekProvider_def huggingfaceProvider_def openrouterProvider_def mistralProvider_def nvidiaNimProvider_def
        togetherProvider_def githubModelsProvider_def request_headers_def or_else_def given_str_def Let_def split: if_splits option.splits)
  show "rq_url rq = ''https://api.openai.com/v1/v1/chat/completions''"
    if "lc_provider cfg = ''openai'' \<and> js_get PROVIDER_ENDPOINTS ''openai'' = Some (lc_endpoint cfg)"
  proof -
    have "lc_endpoint cfg = ''https://api.openai.com/v1''" using that by (simp add: PROVIDER_ENDPOINTS_def)
    with assms that show ?thesis by (auto simp: buildEndpoint_def strip_slashes_def Let_def)
  qed
  show "\<not> str_includes (redactSensitive body_text cfg) (the (lc_key cfg))"
    if "given_str (lc_key cfg) \<and> CHR ''*'' \<notin> set (the (lc_key cfg))"
    using that replace_hides by (auto simp: redactSensitive_def given_str_def str_includes_sublist)
qed

definition demo_llm :: llm_config where
  "demo_llm = \<lparr>lc_provider = ''ollama'', lc_endpoint = ''http://localhost:11434/'', lc_model = ''m'', lc_key = Some ''secret'', lc_maxTokens = 9, lc_temperature = 0\<rparr>"

text \<open>This package, without a \<open>require\<close>, and one where it works.\<close>

definition esm :: modules where
  "esm = \<lparr>md_require = Some ''require is not defined'', md_templates = []\<rparr>"

definition commonjs :: modules where
  "commonjs = \<lparr>md_require = None, md_templates = []\<rparr>"

theorem provider_requests_witness:
  "\<exists>rq. buildEndpoint commonjs (demo_llm\<lparr>lc_provider := ''gemini''\<rparr>) [] = Inr rq \<and>
     js_get (request_headers (demo_llm\<lparr>lc_provider := ''gemini''\<rparr>) rq) ''Authorization'' = None"
proof -
  obtain rq where rq: "buildEndpoint commonjs (demo_llm\<lparr>lc_provider := ''gemini''\<rparr>) [] = Inr rq"
    by (simp add: buildEndpoint_def commonjs_def demo_llm_def getProvider_def provider_registry_def geminiProvider_def Let_def)
  then show ?thesis using provider_requests [OF rq, of None "[]"] by (simp add: demo_llm_def)
qed

text \<open>Three attempts, and the digit in the text of a client error.\<close>

lemma three_attempts:
  assumes "attempts H cfg rq 3 None s = (r, s')"
    and "led = (\<lambda>k. attempt_of cfg (H (tick s + k) (rq_url rq) (request_headers cfg rq) (stringify (rq_body rq))))"
  shows "\<exists>k<3. tick s' = tick s + Suc k \<and> (\<forall>j<k. \<exists>e. led j = Retry e) \<and>
       (case r of Inr x \<Rightarrow> led k = Answer x | Inl e \<Rightarrow> led k = Fatal e \<or> k = 2 \<and> led k = Retry e)"
  using attempts_spec [OF assms]
proof (elim disjE exE conjE)
  fix e
  assume "\<forall>j<3. \<exists>e. led j = Retry e" "tick s' = tick s + 3" "r = Inl e" "0 < (3 :: nat) \<longrightarrow> led (3 - 1) = Retry e"
  then show ?thesis by (intro exI [of _ 2]) auto
qed (auto split: sum.splits)

lemma client_error_four:
  assumes "400 \<le> st" and "st < 500"
  shows "has_four (''LLM API error '' @ show_nat st @ t)"
proof -
  have "st div 100 = 4" "st div 10 \<ge> 10" using assms by auto
  moreover from this have "st div 10 div 10 = 4" by (simp flip: div_mult2_eq)
  ultimately have "\<exists>u v. show_nat st = ''4'' @ [u, v]"
    using assms
    by (simp add: show_nat.simps [of st] show_nat.simps [of "st div 10"] show_nat.simps [of 4])
      (simp add: digit_char_def char_of_def bit_Suc_0_iff)
  then show ?thesis by (auto simp: has_four_def str_includes_sublist sublist_Cons_right)
qed

text \<open>C23. The requests of a call. When the request cannot be built, the call throws and sends nothing; that is so for
  every provider other than OpenAI, Ollama and a custom one wherever \<open>require\<close> is not defined, as in this package. Otherwise
  it makes between one and three requests, goes on after an answer exactly when it is a
  server error, a rate limit or an error whose text has no 4, and ends with what the last request led to. A
  client error other than a rate limit ends the call at once, and so does a request that fails without an answer of the service.\<close>

theorem llm_retries:
  assumes "request = buildEndpoint m cfg [\<lparr>lm_role = ''system'', lm_content = fst (buildPrompt m prompt ctx)\<rparr>,
      \<lparr>lm_role = ''user'', lm_content = snd (buildPrompt m prompt ctx)\<rparr>]"
    and "led = (\<lambda>rq k. attempt_of cfg (H (tick s + k) (rq_url rq) (request_headers cfg rq) (stringify (rq_body rq))))"
    and "llmGenerate H m cfg prompt ctx s = (r, s')"
  shows "(case request of
        Inl e \<Rightarrow> r = Inl e \<and> s' = s
      | Inr rq \<Rightarrow> \<exists>k<3. tick s' = tick s + Suc k \<and> (\<forall>j<k. \<exists>e. led rq j = Retry e) \<and>
          (case r of Inr x \<Rightarrow> led rq k = Answer x | Inl e \<Rightarrow> led rq k = Fatal e \<or> k = 2 \<and> led rq k = Retry e)) \<and>
     (\<forall>e. md_require m = Some e \<and> lc_provider cfg \<notin> {''openai'', ''ollama'', ''custom''} \<longrightarrow> r = Inl e \<and> s' = s) \<and>
     (lc_provider cfg \<in> {''openai'', ''ollama'', ''custom''} \<longrightarrow> (\<exists>rq. request = Inr rq)) \<and>
     (\<forall>st body_text body. 400 \<le> st \<and> st < 500 \<and> st \<noteq> 429 \<longrightarrow> (\<exists>e. attempt_of cfg (Http_status st body_text body) = Fatal e)) \<and>
     (\<forall>st body_text body. st = 429 \<or> 500 \<le> st \<longrightarrow> (\<exists>e. attempt_of cfg (Http_status st body_text body) = Retry e)) \<and>
     (\<forall>msg. \<not> str_includes msg ''LLM API error'' \<longrightarrow> attempt_of cfg (Http_throws msg) = Fatal msg)"
proof (intro conjI allI impI)
  have gen: "(case request of Inl e \<Rightarrow> (Inl e, s) | Inr rq \<Rightarrow> attempts H cfg rq 3 None s) = (r, s')"
    using assms(3) unfolding llmGenerate_def MAX_RETRIES_def case_prod_beta assms(1) Let_def .
  show "case request of
        Inl e \<Rightarrow> r = Inl e \<and> s' = s
      | Inr rq \<Rightarrow> \<exists>k<3. tick s' = tick s + Suc k \<and> (\<forall>j<k. \<exists>e. led rq j = Retry e) \<and>
          (case r of Inr x \<Rightarrow> led rq k = Answer x | Inl e \<Rightarrow> led rq k = Fatal e \<or> k = 2 \<and> led rq k = Retry e)"
  proof (cases request)
    case (Inl e)
    with gen show ?thesis by auto
  next
    case (Inr rq)
    with gen have "attempts H cfg rq 3 None s = (r, s')" by simp
    moreover have "led rq = (\<lambda>k. attempt_of cfg (H (tick s + k) (rq_url rq) (request_headers cfg rq) (stringify (rq_body rq))))"
      by (simp add: assms(2))
    ultimately have "\<exists>k<3. tick s' = tick s + Suc k \<and> (\<forall>j<k. \<exists>e. led rq j = Retry e) \<and>
       (case r of Inr x \<Rightarrow> led rq k = Answer x | Inl e \<Rightarrow> led rq k = Fatal e \<or> k = 2 \<and> led rq k = Retry e)"
      by (rule three_attempts)
    with Inr show ?thesis by simp
  qed
  show "r = Inl e" "s' = s" if "md_require m = Some e \<and> lc_provider cfg \<notin> {''openai'', ''ollama'', ''custom''}" for e
    using that gen by (auto simp: assms(1) buildEndpoint_def Let_def)
  show "\<exists>rq. request = Inr rq" if "lc_provider cfg \<in> {''openai'', ''ollama'', ''custom''}"
    using that by (auto simp: assms(1) buildEndpoint_def Let_def)
next
  fix st :: nat and body_text :: string and body :: "json option"
  assume st: "400 \<le> st \<and> st < 500 \<and> st \<noteq> 429"
  then have "has_four (''LLM API error '' @ show_nat st @ t)" for t by (intro client_error_four) simp_all
  with st show "\<exists>e. attempt_of cfg (Http_status st body_text body) = Fatal e"
    by (auto simp: attempt_of_def thrown_def Let_def)
qed (auto simp: attempt_of_def thrown_def Let_def)

definition demo_http :: http_service where
  "demo_http = (\<lambda>i u h b. if i < 2 then Http_status 503 ''busy'' None else Http_status 200 [] (Some (JObj [])))"

text \<open>Ollama, twice busy and then answering: three requests. Gemini in this package: none.\<close>

theorem llm_retries_witness:
  "1 \<le> tick (snd (llmGenerate demo_http esm demo_llm ''hi'' no_context \<lparr>tick = 0\<rparr>)) \<and>
   tick (snd (llmGenerate demo_http esm demo_llm ''hi'' no_context \<lparr>tick = 0\<rparr>)) \<le> 3 \<and>
   llmGenerate demo_http esm (demo_llm\<lparr>lc_provider := ''gemini''\<rparr>) ''hi'' no_context \<lparr>tick = 0\<rparr> =
     (Inl ''require is not defined'', \<lparr>tick = 0\<rparr>)"
proof -
  have p: "lc_provider demo_llm = ''ollama''" by (simp add: demo_llm_def)
  have q: "md_require esm = Some ''require is not defined''" by (simp add: esm_def)
  note run = llm_retries [OF refl refl surjective_pairing, of demo_http esm demo_llm "''hi''" no_context "\<lparr>tick = 0\<rparr>"]
  obtain rq where rq: "buildEndpoint esm demo_llm [\<lparr>lm_role = ''system'', lm_content = fst (buildPrompt esm ''hi'' no_context)\<rparr>,
      \<lparr>lm_role = ''user'', lm_content = snd (buildPrompt esm ''hi'' no_context)\<rparr>] = Inr rq"
    using run [THEN conjunct2, THEN conjunct2, THEN conjunct1] p by blast
  obtain k where "k < 3" "tick (snd (llmGenerate demo_http esm demo_llm ''hi'' no_context \<lparr>tick = 0\<rparr>)) = Suc k"
    using run [THEN conjunct1, unfolded rq sum.case] by auto
  then have "1 \<le> tick (snd (llmGenerate demo_http esm demo_llm ''hi'' no_context \<lparr>tick = 0\<rparr>)) \<and>
      tick (snd (llmGenerate demo_http esm demo_llm ''hi'' no_context \<lparr>tick = 0\<rparr>)) \<le> 3"
    by simp
  moreover have "llmGenerate demo_http esm (demo_llm\<lparr>lc_provider := ''gemini''\<rparr>) ''hi'' no_context \<lparr>tick = 0\<rparr> =
      (Inl ''require is not defined'', \<lparr>tick = 0\<rparr>)"
    using llm_retries [OF refl refl surjective_pairing, of demo_http esm "demo_llm\<lparr>lc_provider := ''gemini''\<rparr>" "''hi''"
        no_context "\<lparr>tick = 0\<rparr>"] q by (auto intro: prod_eqI)
  ultimately show ?thesis by blast
qed

text \<open>Without a key an embedding is a vector of hashes: one entry for each of the first fifty words, between one and
  fifty entries, so texts of different lengths get vectors of different dimensions. The hash of a word
  is the polynomial in 31 of its codes, wrapped at 32 bits. With a key, whatever the service answers
  other than a success gives that same vector.\<close>

theorem embedding_spec:
  assumes "embed V H th body s = (v, s')"
  shows "1 \<le> length (mock_embedding th body) \<and> length (mock_embedding th body) \<le> 50 \<and>
     (\<forall>w. unat (hash_word w) = foldl (\<lambda>n c. 31 * n + code_of c) 0 w mod 2 ^ 32) \<and>
     (\<not> given_str (ev_var V ''LLM_API_KEY'') \<longrightarrow> v = Some (JArr (map JNum (mock_embedding th body))) \<and> s' = s) \<and>
     ((\<forall>i u h b st t r. H i u h b = Http_status st t r \<longrightarrow> st < 200 \<or> 299 < st) \<longrightarrow>
        v = Some (JArr (map JNum (mock_embedding th body))))"
proof (intro conjI impI allI)
  show "1 \<le> length (mock_embedding th body)"
    using split_ws_nonempty [of body "[]" False] by (cases "split_words body [] False") (simp_all add: mock_embedding_def)
  show "length (mock_embedding th body) \<le> 50" by (simp add: mock_embedding_def)
  show "unat (hash_word w) = foldl (\<lambda>n c. 31 * n + code_of c) 0 w mod 2 ^ 32" for w
    by (simp add: hash_word_poly unat_of_nat)
next
  assume h: "\<forall>i u h b st t r. H i u h b = Http_status st t r \<longrightarrow> st < 200 \<or> 299 < st"
  have "\<not> (200 \<le> st \<and> st \<le> 299)" if "H i u g b = Http_status st t r" for i u g b st t r
    using h that by (metis not_less)
  then show "v = Some (JArr (map JNum (mock_embedding th body)))"
    using assms by (auto simp: embed_def Let_def split: if_splits http_answer.splits option.splits)
qed (use assms in \<open>simp_all add: embed_def\<close>)

theorem embedding_witness:
  "fst (embed \<lparr>ev_var = (\<lambda>_. None), ev_number = (\<lambda>_. None)\<rparr> demo_http id ''two words'' \<lparr>tick = 0\<rparr>) =
     Some (JArr (map JNum (mock_embedding id ''two words'')))"
  using embedding_spec [where V = "\<lparr>ev_var = (\<lambda>_. None), ev_number = (\<lambda>_. None)\<rparr>" and H = demo_http and th = id and
      body = "''two words''" and s = "\<lparr>tick = 0\<rparr>", OF surjective_pairing]
  by (simp add: given_str_def)

end
