(* ===== verification/Predict.thy ===== *)
theory Predict
  imports LlmClient Chain
begin

text \<open>
  Governed inference: the K0 to K12 checks before and after a call (\<open>src/governance/invariants.ts\<close>), its receipts and
  lineage (\<open>receipts.ts\<close>, \<open>lineage.ts\<close>), the local client that chooses between a remote model, local weights and
  the synthesised fallback (\<open>src/model/localClient.ts\<close>, \<open>fallback.ts\<close>), \<open>governedPredict\<close>
  (\<open>src/runtime/governedPredict.ts\<close>) and the bridge to the receipts of the agent
  (\<open>agent/governance/governanceBridge.ts\<close>). The file system is a parameter. Identifiers are not empty, so a variable that
  holds one is falsy exactly when it is null.
\<close>

subsection \<open>Checks\<close>

definition INVARIANT_SET_VERSION :: string where
  "INVARIANT_SET_VERSION = ''K0-K12-v1''"

record kcheck =
  kc_input :: string
  kc_operator :: string
  kc_mode :: string

record kviolation =
  kv_id :: string
  kv_message :: string

definition quote_mark :: "char \<Rightarrow> bool" where
  "quote_mark c \<longleftrightarrow> code_of c = 34 \<or> code_of c = 39"

definition credential_rx :: rx where
  "credential_rx = alts [lit ''API_KEY'', lit ''SECRET_KEY'',
     seqs [lit ''password'', ws0, lit ''='', ws0, Cls quote_mark, plus1 (Cls (\<lambda>c. \<not> quote_mark c)), Cls quote_mark]]"

definition BLOCKED_PATTERNS :: "(string \<times> rx \<times> string) list" where
  "BLOCKED_PATTERNS =
     [(''K3'', seqs [lit ''rm'', ws1, lit ''-rf''], ''Dangerous shell pattern blocked''),
      (''K4'', credential_rx, ''Credential leakage blocked''),
      (''K7'', seqs [lit ''ignore'', ws1, opt (seqs [lit ''all'', ws1]), lit ''invariants''], ''Invariant bypass attempt blocked'')]"

definition blank :: "string \<Rightarrow> bool" where
  "blank t \<longleftrightarrow> list_all is_ws t"

definition k0_operator :: "kcheck \<Rightarrow> kviolation option" where
  "k0_operator x = (if blank (kc_operator x) then Some \<lparr>kv_id = ''K0'', kv_message = ''operator_id is required''\<rparr> else None)"

definition k1_input :: "kcheck \<Rightarrow> kviolation option" where
  "k1_input x = (if kc_mode x = ''predict'' \<and> blank (kc_input x)
     then Some \<lparr>kv_id = ''K1'', kv_message = ''predict mode requires non-empty input''\<rparr> else None)"

definition k_pattern_checks :: "kcheck \<Rightarrow> kviolation option" where
  "k_pattern_checks x = map_option (\<lambda>(i, _, m). \<lparr>kv_id = i, kv_message = m\<rparr>)
     (List.find (\<lambda>(_, r, _). rx_test r (kc_input x)) BLOCKED_PATTERNS)"

definition runPreCallInvariants :: "kcheck \<Rightarrow> kviolation list" where
  "runPreCallInvariants x = List.map_filter (\<lambda>c. c x) [k0_operator, k1_input, k_pattern_checks]"

definition runPostCallInvariants :: "kcheck \<Rightarrow> string \<Rightarrow> kviolation list" where
  "runPostCallInvariants x output = runPreCallInvariants (x\<lparr>kc_input := output\<rparr>)"

subsection \<open>Receipts and lineage\<close>

record k_receipt =
  kr_call :: string
  kr_operator :: string
  kr_time :: time
  kr_version :: string
  kr_mode :: string
  kr_passed :: bool
  kr_violations :: "string list option"

definition createReceipt :: "sysenv \<Rightarrow> string \<Rightarrow> string \<Rightarrow> string \<Rightarrow> bool \<Rightarrow> string list option \<Rightarrow> 'a sys_st_scheme \<Rightarrow> k_receipt \<times> 'a sys_st_scheme" where
  "createReceipt E op version mode passed vs s =
     (let (u, s1) = take_uuid E s; (t, s2) = take_now E s1
      in (\<lparr>kr_call = u, kr_operator = op, kr_time = t, kr_version = version, kr_mode = mode, kr_passed = passed,
           kr_violations = vs\<rparr>, s2))"

record lineage_rec =
  li_root :: string
  li_entry :: string
  li_parent :: "string option"
  li_operator :: string
  li_call :: string
  li_hash :: string
  li_time :: time

record predict_st = router_st +
  genesisRootId :: "string option"
  lastEntryId :: "string option"
  lineageLog :: "lineage_rec list"

definition resetLineage :: "'a predict_st_scheme \<Rightarrow> 'a predict_st_scheme" where
  "resetLineage s = s\<lparr>genesisRootId := None, lastEntryId := None, lineageLog := []\<rparr>"

definition lineage_text :: "string option \<Rightarrow> string \<Rightarrow> string \<Rightarrow> string" where
  "lineage_text parent payload call = stringify (JObj
     [(''parent_id'', jopt_str parent), (''payload'', JStr payload), (''call_id'', JStr call)])"

definition appendLineage :: "sysenv \<Rightarrow> string \<Rightarrow> string \<Rightarrow> string \<Rightarrow> 'a predict_st_scheme \<Rightarrow> lineage_rec \<times> 'a predict_st_scheme" where
  "appendLineage E op call payload s =
     (let (entry, s1) = take_uuid E s;
          root = or_else (genesisRootId s) entry;
          parent = lastEntryId s;
          (t, s2) = take_now E s1;
          r = \<lparr>li_root = root, li_entry = entry, li_parent = parent, li_operator = op, li_call = call,
               li_hash = sha256 E (lineage_text parent payload call), li_time = t\<rparr>
      in (r, s2\<lparr>genesisRootId := Some root, lastEntryId := Some entry, lineageLog := lineageLog s @ [r]\<rparr>))"

definition getLineageLog :: "'a predict_st_scheme \<Rightarrow> lineage_rec list" where
  "getLineageLog s = lineageLog s"

subsection \<open>The fallback\<close>

definition commentPrefix :: "string option \<Rightarrow> string" where
  "commentPrefix l =
     (if l \<in> {Some ''python'', Some ''yaml'', Some ''yml'', Some ''toml''} then ''#''
      else if l = Some ''sql'' then ''--'' else if l = Some ''html'' then ''<!--''
      else if l = Some ''css'' then ''/*'' else ''//'')"

definition text_lines :: "string list \<Rightarrow> string" where
  "text_lines ls = concat (map (\<lambda>l. l @ NL) ls)"

definition functionStub :: "string \<Rightarrow> string option \<Rightarrow> string" where
  "functionStub n l =
     (if l = Some ''python'' then text_lines [''def '' @ n @ ''():'', ''    pass'']
      else if l = Some ''rust'' then text_lines [''fn '' @ n @ ''() {'', ''    unimplemented!()'', ''}'']
      else if l = Some ''go'' then text_lines [''func '' @ n @ ''() {'', ''    // TODO: implement'', ''}'']
      else if l = Some ''java''
      then text_lines [''public class '' @ map upper_char (take 1 n) @ drop 1 n @ '' {'', ''    // TODO: implement'', ''}'']
      else text_lines [''export function '' @ n @ ''(): void {'', ''  // TODO: implement'', ''}''])"

record predict_ctx =
  pc_files :: "(string \<times> string) list option"
  pc_language :: "string option"
  pc_projectFiles :: "string list option"

definition FACTORIAL_PYTHON :: "string list" where
  "FACTORIAL_PYTHON = [''def factorial(n: int) -> int:'', ''    if n < 0:'',
     ''        raise ValueError('' @ quoted ''n must be non-negative'' @ '')'', ''    if n <= 1:'', ''        return 1'',
     ''    return n * factorial(n - 1)'']"

definition FACTORIAL :: "string list" where
  "FACTORIAL = [''export function factorial(n: number): number {'',
     ''  if (n < 0) throw new Error('' @ quoted ''n must be non-negative'' @ '');'',
     ''  if (n <= 1) return 1;'', ''  return n * factorial(n - 1);'', ''}'']"

definition FIBONACCI :: "string list" where
  "FIBONACCI = [''export function fibonacci(n: number): number {'',
     ''  if (n < 0) throw new Error('' @ quoted ''n must be non-negative'' @ '');'',
     ''  if (n <= 1) return n;'', ''  let a = 0, b = 1;'', ''  for (let i = 2; i <= n; i++) {'', ''    const next = a + b;'',
     ''    a = b;'', ''    b = next;'', ''  }'', ''  return b;'', ''}'']"

definition SORT_NUMBERS :: "string list" where
  "SORT_NUMBERS = [''export function sortNumbers(nums: number[]): number[] {'', ''  return [...nums].sort((a, b) => a - b);'', ''}'']"

definition SEARCH_TREE :: "string list" where
  "SEARCH_TREE =
     [''export class TreeNode {'', ''  val: number;'', ''  left: TreeNode | null = null;'', ''  right: TreeNode | null = null;'',
      ''  constructor(val: number) { this.val = val; }'', ''}'', [], ''export class BinarySearchTree {'',
      ''  root: TreeNode | null = null;'', [], ''  insert(val: number): void {'', ''    const newNode = new TreeNode(val);'',
      ''    if (!this.root) { this.root = newNode; return; }'', ''    let cur = this.root;'', ''    while (true) {'',
      ''      if (val < cur.val) {'', ''        if (!cur.left) { cur.left = newNode; return; }'', ''        cur = cur.left;'',
      ''      } else {'', ''        if (!cur.right) { cur.right = newNode; return; }'', ''        cur = cur.right;'', ''      }'',
      ''    }'', ''  }'', [], ''  search(val: number): boolean {'', ''    let cur = this.root;'', ''    while (cur) {'',
      ''      if (val === cur.val) return true;'', ''      cur = val < cur.val ? cur.left : cur.right;'', ''    }'',
      ''    return false;'', ''  }'', ''}'']"

definition fallbackSynthesize :: "string \<Rightarrow> predict_ctx \<Rightarrow> string" where
  "fallbackSynthesize prompt x =
     (let c = commentPrefix (pc_language x); low = lower prompt; files = or_else (pc_files x) [];
          head = (if files \<noteq> []
                  then c @ '' Context files:'' @ NL @ join NL (map (\<lambda>f. c @ ''   '' @ fst f) files) @ NL @ NL else []) @
                 (if given_str (pc_language x) then c @ '' Language: '' @ the (pc_language x) @ NL else [])
      in head @
         (if str_includes low ''factorial''
          then (if pc_language x = Some ''python'' then text_lines FACTORIAL_PYTHON else text_lines FACTORIAL)
          else if str_includes low ''fibonacci'' then text_lines FIBONACCI
          else if str_includes low ''sort'' then text_lines SORT_NUMBERS
          else if str_includes low ''binary search'' \<or> str_includes low ''bst'' then text_lines SEARCH_TREE
          else c @ '' Generated for: '' @ take 80 prompt @ NL @ functionStub ''generated'' (pc_language x)))"

subsection \<open>The local client\<close>

text \<open>What the file system offers here: whether a path exists, and \<open>resolve\<close>.\<close>

record file_world =
  fw_exists :: "string \<Rightarrow> bool"
  fw_resolve :: "string list \<Rightarrow> string"

definition hasRemote :: "process_env \<Rightarrow> bool" where
  "hasRemote V \<longleftrightarrow> list_ex (\<lambda>v. given_str (ev_var V v))
     [''LLM_PROVIDER'', ''LLM_ENDPOINT'', ''LLM_API_KEY'', ''DEEPSEEK_API_KEY'', ''GEMINI_API_KEY'', ''GROQ_API_KEY'', ''OPENROUTER_API_KEY'',
      ''MISTRAL_API_KEY'', ''NVIDIA_API_KEY'', ''TOGETHER_API_KEY'', ''GITHUB_TOKEN'', ''HF_API_KEY'']"

text \<open>Everything outside the process that a prediction depends on.\<close>

record world =
  w_sys :: sysenv
  w_env :: process_env
  w_http :: http_service
  w_modules :: modules
  w_files :: file_world

definition default_options :: select_options where
  "default_options = \<lparr>so_preferFree = None, so_overrides = (\<lambda>_. None), so_operator = None\<rparr>"

definition localPredict ::
    "world \<Rightarrow> string \<Rightarrow> string \<Rightarrow> task_type option \<Rightarrow> predict_ctx \<Rightarrow> 'a router_st_scheme \<Rightarrow> (string + string) \<times> 'a router_st_scheme" where
  "localPredict W input modelPath task x s =
     (if hasRemote (w_env W)
      then (case selectModel (w_sys W) (w_env W) (or_else task T_code) default_options s of
              (Inl e, s1) \<Rightarrow> (Inl e, s1)
            | (Inr cfg, s1) \<Rightarrow>
                (case llmGenerate (w_http W) (w_modules W) cfg input
                        \<lparr>gc_files = pc_files x, gc_language = pc_language x, gc_projectFiles = pc_projectFiles x, gc_template = None\<rparr> s1 of
                   (Inl e, s2) \<Rightarrow> (Inl e, s2)
                 | (Inr r, s2) \<Rightarrow> (Inr (lr_text r), s2)))
      else
        let dir = fw_resolve (w_files W) [modelPath]
        in if fw_exists (w_files W) dir \<or> fw_exists (w_files W) (fw_resolve (w_files W) [dir, ''weights.bin'']) \<or>
              fw_exists (w_files W) (fw_resolve (w_files W) [dir, ''model.json''])
           then (Inr (''[local weights loaded from: '' @ dir @ '']''), s)
           else (Inr (fallbackSynthesize input x), s))"

subsection \<open>A governed prediction\<close>

definition DEFAULT_MODEL_PATH :: string where
  "DEFAULT_MODEL_PATH = ''./models/local-llm''"

record governed_ctx = predict_ctx +
  gx_operator :: string
  gx_mode :: string
  gx_version :: string
  gx_modelPath :: "string option"

record event_rec =
  ev_id :: string
  ev_hash :: string
  ev_time :: time

record append_rec = event_rec +
  ev_parent :: "string option"

record governed_result =
  gr_output :: string
  gr_receipt :: k_receipt
  gr_lineage :: lineage_rec
  gr_ce1 :: event_rec
  gr_crr1 :: event_rec
  gr_clg1 :: append_rec

definition run_event :: "sysenv \<Rightarrow> string \<Rightarrow> 'a sys_st_scheme \<Rightarrow> event_rec \<times> 'a sys_st_scheme" where
  "run_event E body s = (let (u, s1) = take_uuid E s; (t, s2) = take_now E s1 in (\<lparr>ev_id = u, ev_hash = sha256 E body, ev_time = t\<rparr>, s2))"

definition runCE1 :: "sysenv \<Rightarrow> string \<Rightarrow> string \<Rightarrow> 'a sys_st_scheme \<Rightarrow> event_rec \<times> 'a sys_st_scheme" where
  "runCE1 E input output = run_event E (''ce1:'' @ input @ '':'' @ output)"

definition runCRR1 :: "sysenv \<Rightarrow> string \<Rightarrow> string \<Rightarrow> 'a sys_st_scheme \<Rightarrow> event_rec \<times> 'a sys_st_scheme" where
  "runCRR1 E input output = run_event E (''crr1:'' @ input @ '':'' @ output)"

definition runCLG1 :: "sysenv \<Rightarrow> string option \<Rightarrow> string \<Rightarrow> 'a sys_st_scheme \<Rightarrow> append_rec \<times> 'a sys_st_scheme" where
  "runCLG1 E parent call s =
     (let (u, s1) = take_uuid E s; (t, s2) = take_now E s1
      in (\<lparr>ev_id = u, ev_hash = sha256 E (''clg1:'' @ or_else parent ''null'' @ '':'' @ call), ev_time = t, ev_parent = parent\<rparr>, s2))"

definition violation_json :: "kviolation \<Rightarrow> json" where
  "violation_json v = JObj [(''id'', JStr (kv_id v)), (''message'', JStr (kv_message v))]"

text \<open>What both ways out of a prediction do: the receipt, the lineage entry, the three records.\<close>

definition governed_record ::
    "sysenv \<Rightarrow> governed_ctx \<Rightarrow> kviolation list \<Rightarrow> string \<Rightarrow> string \<Rightarrow> string \<Rightarrow> 'a predict_st_scheme \<Rightarrow> governed_result \<times> 'a predict_st_scheme" where
  "governed_record E g vs payload input output s =
     (let (r, s1) = createReceipt E (gx_operator g) (gx_version g) (gx_mode g) (vs = []) (Some (map kv_id vs)) s;
          (l, s2) = appendLineage E (gx_operator g) (kr_call r) payload s1;
          (a, s3) = runCE1 E input output s2;
          (b, s4) = runCRR1 E input output s3;
          (c, s5) = runCLG1 E (li_parent l) (kr_call r) s4
      in (\<lparr>gr_output = output, gr_receipt = r, gr_lineage = l, gr_ce1 = a, gr_crr1 = b, gr_clg1 = c\<rparr>, s5))"

datatype predict_error =
    Refused string governed_result
  | Model_error string

definition refusal :: "kviolation list \<Rightarrow> string" where
  "refusal vs = join ''; '' (map kv_message vs)"

definition governedPredict ::
    "world \<Rightarrow> string \<Rightarrow> governed_ctx \<Rightarrow> 'a predict_st_scheme \<Rightarrow> (predict_error + governed_result) \<times> 'a predict_st_scheme" where
  "governedPredict W input g s =
     (let E = w_sys W; chk = \<lparr>kc_input = input, kc_operator = gx_operator g, kc_mode = gx_mode g\<rparr>; pre = runPreCallInvariants chk
      in if pre \<noteq> []
         then let (r, s1) = governed_record E g pre
                    (stringify (JObj [(''refused'', JBool True), (''violations'', JArr (map violation_json pre))])) input [] s
              in (Inl (Refused (refusal pre) r), s1)
         else
           (case localPredict W input (or_else (gx_modelPath g) DEFAULT_MODEL_PATH) None (predict_ctx.truncate g) s of
              (Inl e, s1) \<Rightarrow> (Inl (Model_error e), s1)
            | (Inr output, s1) \<Rightarrow>
                let post = runPostCallInvariants chk output;
                    (r, s2) = governed_record E g post (stringify (JObj [(''input'', JStr input), (''output'', JStr output)])) input output s1
                in (if post \<noteq> [] then Inl (Refused (refusal post) r) else Inr r, s2)))"

subsection \<open>The bridge to the receipts of the agent\<close>

definition deriveAssurance :: "governed_result \<Rightarrow> bool \<Rightarrow> string" where
  "deriveAssurance r blocked = (if blocked then ''A0'' else if kr_passed (gr_receipt r) then ''A1'' else ''A0'')"

definition bridge_payload :: "k_receipt \<Rightarrow> (string \<times> json) list" where
  "bridge_payload r =
     [(''governedCallId'', JStr (kr_call r)), (''operatorId'', JStr (kr_operator r)), (''mode'', JStr (kr_mode r)),
      (''invariantSetVersion'', JStr (kr_version r)), (''invariantsPassed'', JBool (kr_passed r))] @
     opt_field ''violationIds'' (map_option jstrs (kr_violations r))"

definition bridge_text :: "receipt \<Rightarrow> string" where
  "bridge_text r = stringify (JObj (
     [(''id'', JStr (g_id r)), (''timestamp'', JStr (iso_string (g_time r))), (''authority'', JStr (g_auth r)),
      (''lineage'', jstrs (g_lineage r)), (''previousHash'', JStr (g_prev r)), (''action'', action_json (g_action r)),
      (''invariantsChecked'', jstrs (g_checked r)), (''continuityHash'', JStr (g_continuity r))] @
     opt_field ''blocked'' (map_option JBool (g_blocked r)) @ opt_field ''blockReason'' (map_option JStr (g_reason r)) @
     [(''evidencePrimitives'', JArr [])] @ opt_field ''assuranceLevel'' (map_option JStr (g_level r))))"

definition governedResultToReceipt :: "sysenv \<Rightarrow> governed_result \<Rightarrow> 'a gov_st_scheme \<Rightarrow> receipt \<times> 'a gov_st_scheme" where
  "governedResultToReceipt E g s =
     (let (u, s1) = take_uuid E s; k = gr_receipt g; blocked = (\<not> kr_passed k);
          (tailHash, s2) = getLedgerTailHash s1;
          pre = \<lparr>g_id = u, g_time = kr_time k, g_auth = ''crk-1:'' @ kr_operator k, g_lineage = [tailHash], g_prev = tailHash,
                 g_hash = [], g_action = \<lparr>a_type = ''generate'', a_payload = bridge_payload k\<rparr>, g_checked = [],
                 g_continuity = ev_hash (gr_clg1 g), g_ledgerHash = [], g_blocked = Some blocked,
                 g_reason = (if blocked then Some (''CRK-1 violations: '' @ join '', '' (or_else (kr_violations k) [])) else None),
                 g_evidence = Some [], g_level = Some (deriveAssurance g blocked), g_crk1 = None\<rparr>;
          h = sha256 E (bridge_text pre)
      in (pre\<lparr>g_hash := h, g_ledgerHash := h\<rparr>, s2))"

definition refusalToReceipt :: "sysenv \<Rightarrow> governed_result \<Rightarrow> 'a gov_st_scheme \<Rightarrow> receipt \<times> 'a gov_st_scheme" where
  "refusalToReceipt = governedResultToReceipt"

definition extractFailedInvariantIds :: "governed_result \<Rightarrow> string list" where
  "extractFailedInvariantIds g = or_else (kr_violations (gr_receipt g)) []"

definition invariantsPassed :: "governed_result \<Rightarrow> bool" where
  "invariantsPassed g = kr_passed (gr_receipt g)"

subsection \<open>What the checks decide\<close>

definition k_admits :: "string \<Rightarrow> string \<Rightarrow> string \<Rightarrow> bool" where
  "k_admits op mode body \<longleftrightarrow> \<not> blank op \<and> (mode = ''predict'' \<longrightarrow> \<not> blank body) \<and>
     (\<forall>(i, r, m) \<in> set BLOCKED_PATTERNS. \<forall>u \<in> rx_lang r. \<not> sublist u body)"

lemma pre_empty: "runPreCallInvariants x = [] \<longleftrightarrow> k_admits (kc_operator x) (kc_mode x) (kc_input x)"
proof -
  have "List.find (\<lambda>(_, r, _). rx_test r (kc_input x)) BLOCKED_PATTERNS = None \<longleftrightarrow>
      (\<forall>(i, r, m) \<in> set BLOCKED_PATTERNS. \<forall>u \<in> rx_lang r. \<not> sublist u (kc_input x))"
    by (auto simp: find_None_iff rx_test_iff)
  moreover have "runPreCallInvariants x = [] \<longleftrightarrow> k0_operator x = None \<and> k1_input x = None \<and> k_pattern_checks x = None"
    by (auto simp: runPreCallInvariants_def split: option.splits)
  ultimately show ?thesis
    by (simp add: k0_operator_def k1_input_def k_pattern_checks_def k_admits_def)
qed

lemma post_empty: "runPostCallInvariants x t = [] \<longleftrightarrow> k_admits (kc_operator x) (kc_mode x) t"
  by (simp add: runPostCallInvariants_def pre_empty)

subsection \<open>What a call leaves alone\<close>

text \<open>An operation that changes only the clock, and one that also changes the receipt ledger and the last selection.\<close>

definition only_tick :: "'a sys_st_scheme \<Rightarrow> 'a sys_st_scheme \<Rightarrow> bool" where
  "only_tick s s' \<longleftrightarrow> s' = s\<lparr>tick := tick s'\<rparr>"

definition only_router :: "'a router_st_scheme \<Rightarrow> 'a router_st_scheme \<Rightarrow> bool" where
  "only_router s s' \<longleftrightarrow> s' = s\<lparr>tick := tick s', gov_ledger := gov_ledger s', gov_wal := gov_wal s', gov_loaded := gov_loaded s',
     last_selection := last_selection s'\<rparr>"

lemma only_tick_refl [simp]: "only_tick s s"
  by (simp add: only_tick_def)

lemma only_tick_update [simp]: "only_tick s (s\<lparr>tick := n\<rparr>)"
  by (simp add: only_tick_def)

lemma only_tick_after: "only_tick (s\<lparr>tick := n\<rparr>) s' \<Longrightarrow> only_tick s s'"
  unfolding only_tick_def by (metis sys_st.update_convs(1) sys_st.surjective)

lemma only_router_refl [simp]: "only_router s s"
  by (simp add: only_router_def)

lemma only_tick_router: "only_tick s s' \<Longrightarrow> only_router s (s' :: 'a router_st_scheme)"
  unfolding only_tick_def only_router_def by (erule ssubst) simp

lemma only_router_trans: "only_router s t \<Longrightarrow> only_router t u \<Longrightarrow> only_router s u"
  unfolding only_router_def by (erule ssubst, erule ssubst) simp

lemma attempts_state: "only_tick s (snd (attempts H cfg rq k err s))"
proof (induction k arbitrary: err s)
  case (Suc k)
  show ?case
  proof (cases "attempt_of cfg (H (tick s) (rq_url rq) (request_headers cfg rq) (stringify (rq_body rq)))")
    case (Retry e)
    with only_tick_after [OF Suc [of "s\<lparr>tick := Suc (tick s)\<rparr>" "Some e"]] show ?thesis by simp
  qed (simp_all add: Let_def)
qed simp

lemma llmGenerate_state: "only_tick s (snd (llmGenerate H m cfg prompt ctx s))"
  using attempts_state by (auto simp: llmGenerate_def case_prod_beta split: sum.splits)

lemma recordReceipt_state:
  "\<exists>n. snd (recordReceipt E a ch op s) =
     s\<lparr>tick := n, gov_ledger := receipts s @ [fst (recordReceipt E a ch op s)], gov_wal := gov_wal s @ [Some (fst (recordReceipt E a ch op s))],
       gov_loaded := True\<rparr>"
proof -
  obtain r n where "recordReceipt E a ch op s = (r, appendToLedger r (ensureLoaded (s\<lparr>tick := n\<rparr>)))"
    using recordReceipt_effect [of E a ch op s] by blast
  moreover have "appendToLedger r (ensureLoaded (s\<lparr>tick := n\<rparr>)) =
      s\<lparr>tick := n, gov_ledger := receipts s @ [r], gov_wal := gov_wal s @ [Some r], gov_loaded := True\<rparr>"
    by (rule gov_st.equality) (simp_all add: appendToLedger_def ensureLoaded_def receipts_def Let_def)
  ultimately show ?thesis by auto
qed

lemma selectModel_state: "only_router s (snd (selectModel E V t op s))"
proof (cases "configFromEnv V")
  case (Inr d)
  have "only_router s (snd (emitModelSelectionReceipt E x1 t x2 x3 x4 x5 x6 s))" for x1 x2 x3 x4 x5 x6
  proof -
    obtain n l w where "snd (recordReceipt E (selection_action x1 t x2 x3 x4 x5 x6) [''model-selection'', ''E10'']
        \<lparr>ro_blocked = None, ro_reason = None, ro_level = Some ''A1'', ro_crk1 = None\<rparr> s) =
        s\<lparr>tick := n, gov_ledger := l, gov_wal := w, gov_loaded := True\<rparr>"
      using recordReceipt_state by blast
    then show ?thesis by (simp add: emitModelSelectionReceipt_def case_prod_beta only_router_def)
  qed
  with Inr show ?thesis by (simp add: selectModel_def Let_def case_prod_beta)
qed (simp add: selectModel_def)

lemma localPredict_state: "only_router s (snd (localPredict W input mp t c s))"
proof (cases "hasRemote (w_env W)")
  case remote: True
  obtain r s1 where sel: "selectModel (w_sys W) (w_env W) (or_else t T_code) default_options s = (r, s1)" by fastforce
  then have s1: "only_router s s1" using selectModel_state [of s "w_sys W" "w_env W" "or_else t T_code" default_options] by simp
  show ?thesis
  proof (cases r)
    case (Inr cfg)
    let ?g = "\<lparr>gc_files = pc_files c, gc_language = pc_language c, gc_projectFiles = pc_projectFiles c, gc_template = None\<rparr>"
    obtain r2 s2 where gen: "llmGenerate (w_http W) (w_modules W) cfg input ?g s1 = (r2, s2)" by fastforce
    then have "only_router s1 s2"
      using llmGenerate_state [of s1 "w_http W" "w_modules W" cfg input ?g] by (auto intro: only_tick_router)
    with remote sel gen Inr only_router_trans [OF s1] show ?thesis by (auto simp: localPredict_def split: sum.splits)
  qed (use remote sel s1 in \<open>simp add: localPredict_def\<close>)
qed (simp add: localPredict_def Let_def)

lemma only_router_frame:
  "only_router s s' \<Longrightarrow> csr_ledger s' = csr_ledger s"
  "only_router s s' \<Longrightarrow> gov_invariants s' = gov_invariants s"
  "only_router s s' \<Longrightarrow> gov_continuity s' = gov_continuity s"
  by (unfold only_router_def; erule ssubst; simp)+

lemma only_router_lineage:
  fixes s s' :: "'a predict_st_scheme"
  shows "only_router s s' \<Longrightarrow> genesisRootId s' = genesisRootId s"
    "only_router s s' \<Longrightarrow> lastEntryId s' = lastEntryId s"
    "only_router s s' \<Longrightarrow> lineageLog s' = lineageLog s"
  by (unfold only_router_def; erule ssubst; simp)+

subsection \<open>What is recorded\<close>

lemma governed_record_spec:
  assumes "governed_record E g vs payload input output s = (r, s')"
  shows "gr_output r = output" "kr_passed (gr_receipt r) \<longleftrightarrow> vs = []" "kr_violations (gr_receipt r) = Some (map kv_id vs)"
    "li_call (gr_lineage r) = kr_call (gr_receipt r)" "li_parent (gr_lineage r) = lastEntryId s"
    "li_root (gr_lineage r) = or_else (genesisRootId s) (li_entry (gr_lineage r))"
    "li_hash (gr_lineage r) = sha256 E (lineage_text (lastEntryId s) payload (kr_call (gr_receipt r)))"
    "kr_operator (gr_receipt r) = gx_operator g" "li_operator (gr_lineage r) = gx_operator g"
    "s' = s\<lparr>tick := tick s + 10, genesisRootId := Some (li_root (gr_lineage r)), lastEntryId := Some (li_entry (gr_lineage r)),
       lineageLog := lineageLog s @ [gr_lineage r]\<rparr>"
  using assms
  by (auto simp: governed_record_def createReceipt_def appendLineage_def runCE1_def runCRR1_def runCLG1_def run_event_def take_uuid_def take_now_def Let_def)

text \<open>The three ways a prediction goes.\<close>

lemma governedPredict_cases:
  assumes "governedPredict W input g s = (r, s')"
    and "chk = \<lparr>kc_input = input, kc_operator = gx_operator g, kc_mode = gx_mode g\<rparr>"
  obtains (refused) x pre payload where "pre = runPreCallInvariants chk" "pre \<noteq> []"
      "governed_record (w_sys W) g pre payload input [] s = (x, s')" "r = Inl (Refused (refusal pre) x)"
    | (failed) e where "runPreCallInvariants chk = []" "only_router s s'" "r = Inl (Model_error e)"
    | (answered) out s1 post payload x where "runPreCallInvariants chk = []" "only_router s s1" "post = runPostCallInvariants chk out"
        "governed_record (w_sys W) g post payload input out s1 = (x, s')"
        "r = (if post \<noteq> [] then Inl (Refused (refusal post) x) else Inr x)"
proof (cases "runPreCallInvariants chk = []")
  case True
  obtain q s1 where lp: "localPredict W input (or_else (gx_modelPath g) DEFAULT_MODEL_PATH) None (predict_ctx.truncate g) s = (q, s1)"
    by fastforce
  then have fr: "only_router s s1"
    using localPredict_state [of s W input "or_else (gx_modelPath g) DEFAULT_MODEL_PATH" None "predict_ctx.truncate g"] by simp
  show ?thesis
  proof (cases q)
    case (Inl e)
    with True lp fr assms show ?thesis by (intro failed) (auto simp: governedPredict_def Let_def)
  next
    case (Inr out)
    obtain x s2 where rec: "governed_record (w_sys W) g (runPostCallInvariants chk out)
        (stringify (JObj [(''input'', JStr input), (''output'', JStr out)])) input out s1 = (x, s2)" by fastforce
    have "governedPredict W input g s =
        (if runPostCallInvariants chk out \<noteq> [] then Inl (Refused (refusal (runPostCallInvariants chk out)) x) else Inr x, s2)"
      using True lp Inr rec assms(2) by (simp add: governedPredict_def Let_def)
    with assms(1) rec show ?thesis by (intro answered [OF True fr refl]) auto
  qed
next
  case False
  obtain x s2 where rec: "governed_record (w_sys W) g (runPreCallInvariants chk)
      (stringify (JObj [(''refused'', JBool True), (''violations'', JArr (map violation_json (runPreCallInvariants chk)))])) input [] s = (x, s2)"
    by fastforce
  have "governedPredict W input g s = (Inl (Refused (refusal (runPreCallInvariants chk)) x), s2)"
    using False rec assms(2) by (simp add: governedPredict_def Let_def)
  with assms(1) rec show ?thesis by (intro refused [OF refl False]) auto
qed

subsection \<open>Runs of predictions\<close>

definition predict_step :: "world \<Rightarrow> string \<times> governed_ctx \<Rightarrow> 'a predict_st_scheme \<Rightarrow> 'a predict_st_scheme" where
  "predict_step W e s = snd (governedPredict W (fst e) (snd e) s)"

definition lineage_ok :: "sysenv \<Rightarrow> 'a predict_st_scheme \<Rightarrow> bool" where
  "lineage_ok E s \<longleftrightarrow>
     genesisRootId s = (if lineageLog s = [] then None else Some (li_entry (hd (lineageLog s)))) \<and>
     lastEntryId s = tail_hash (Some \<circ> li_entry) None (lineageLog s) \<and>
     linked li_parent (Some \<circ> li_entry) None (lineageLog s) \<and>
     (\<forall>l \<in> set (lineageLog s). li_root l = li_entry (hd (lineageLog s)) \<and>
        (\<exists>payload. li_hash l = sha256 E (lineage_text (li_parent l) payload (li_call l))))"

lemma lineage_ok_frame: "only_router s s' \<Longrightarrow> lineage_ok E s' = lineage_ok E (s :: 'a predict_st_scheme)"
  by (simp add: lineage_ok_def only_router_lineage)

lemma lineage_ok_record:
  assumes "governed_record E g vs payload input body s = (r, s')" and "lineage_ok E s"
  shows "lineage_ok E s'"
proof (cases "lineageLog s")
  case Nil
  with assms governed_record_spec [OF assms(1)] show ?thesis by (auto simp: lineage_ok_def or_else_def)
next
  case (Cons l ls)
  with assms governed_record_spec [OF assms(1)] show ?thesis
    by (auto simp: lineage_ok_def or_else_def linked_append tail_hash_def)
qed

lemma predict_step_log:
  "\<exists>ls. lineageLog (predict_step W e s) = lineageLog s @ ls \<and> length ls \<le> 1 \<and>
     (ls = [] \<longleftrightarrow> (\<exists>m. fst (governedPredict W (fst e) (snd e) s) = Inl (Model_error m)))"
proof -
  obtain r s' where r: "governedPredict W (fst e) (snd e) s = (r, s')" by fastforce
  then show ?thesis
  proof (cases rule: governedPredict_cases [OF r refl, case_names refused failed answered])
    case (refused x pre payload)
    with r governed_record_spec(10) [OF refused(3)] show ?thesis by (simp add: predict_step_def)
  next
    case (failed m)
    with r show ?thesis by (simp add: predict_step_def only_router_lineage)
  next
    case (answered body s1 post payload x)
    with r governed_record_spec(10) [OF answered(4)] show ?thesis by (simp add: predict_step_def only_router_lineage)
  qed
qed

interpretation predictions: audited_machine "predict_step W" "lineage_ok (w_sys W)" lineageLog
proof
  fix e and s :: "'a predict_st_scheme"
  obtain r s' where r: "governedPredict W (fst e) (snd e) s = (r, s')" by fastforce
  show "lineage_ok (w_sys W) s \<Longrightarrow> lineage_ok (w_sys W) (predict_step W e s)"
    by (cases rule: governedPredict_cases [OF r refl])
      (use r in \<open>auto simp: predict_step_def lineage_ok_frame intro: lineage_ok_record\<close>)
  show "prefix (lineageLog s) (lineageLog (predict_step W e s))"
    using predict_step_log [of W e s] by (auto simp: prefix_def)
qed

subsection \<open>Properties\<close>

text \<open>C24. A governed prediction returns a text only when operator, input and text pass the checks: an operator that is not
  blank, in predict mode an input and a text that are not blank, and no part of either in the language of
  a blocked pattern. A refused input never reaches a model and leaves receipts and selection as they were. A refused output is
  still handed to the caller with the refusal. Every outcome but a failure of the model is recorded in exactly
  one lineage entry with the violations in its receipt; a failure of the model, with the input
  already sent, leaves no entry at all.\<close>

theorem prediction_is_checked:
  assumes "governedPredict W input g s = (r, s')"
  shows "(\<forall>x. r = Inr x \<longrightarrow> k_admits (gx_operator g) (gx_mode g) input \<and> k_admits (gx_operator g) (gx_mode g) (gr_output x) \<and>
            kr_passed (gr_receipt x) \<and> kr_violations (gr_receipt x) = Some []) \<and>
     (\<forall>m x. r = Inl (Refused m x) \<longrightarrow> \<not> kr_passed (gr_receipt x) \<and>
        (if k_admits (gx_operator g) (gx_mode g) input
         then \<not> k_admits (gx_operator g) (gx_mode g) (gr_output x) \<and>
           kr_violations (gr_receipt x) = Some (map kv_id (runPostCallInvariants
             \<lparr>kc_input = input, kc_operator = gx_operator g, kc_mode = gx_mode g\<rparr> (gr_output x)))
         else gr_output x = [] \<and> receipts s' = receipts s \<and> last_selection s' = last_selection s)) \<and>
     (\<forall>e. r = Inl (Model_error e) \<longrightarrow> k_admits (gx_operator g) (gx_mode g) input \<and> lineageLog s' = lineageLog s) \<and>
     (\<forall>x. (r = Inr x \<or> (\<exists>m. r = Inl (Refused m x))) \<longrightarrow> lineageLog s' = lineageLog s @ [gr_lineage x] \<and>
        li_call (gr_lineage x) = kr_call (gr_receipt x) \<and> li_operator (gr_lineage x) = gx_operator g)"
proof (cases rule: governedPredict_cases [OF assms refl, case_names refused failed answered])
  case (refused x pre payload)
  with governed_record_spec [OF refused(3)] show ?thesis
    by (auto simp: pre_empty receipts_def ensureLoaded_def)
next
  case (failed e)
  then show ?thesis by (simp add: pre_empty only_router_lineage)
next
  case (answered body s1 post payload x)
  with governed_record_spec [OF answered(4)] show ?thesis
    by (simp add: pre_empty post_empty only_router_lineage split: if_splits)
qed

definition demo_files :: file_world where
  "demo_files = \<lparr>fw_exists = (\<lambda>_. False), fw_resolve = join ''/''\<rparr>"

definition demo_world :: world where
  "demo_world = \<lparr>w_sys = demo_env, w_env = \<lparr>ev_var = (\<lambda>_. None), ev_number = (\<lambda>_. None)\<rparr>, w_http = demo_http, w_modules = esm,
     w_files = demo_files\<rparr>"

definition demo_governed_ctx :: governed_ctx where
  "demo_governed_ctx = \<lparr>pc_files = None, pc_language = Some ''python'', pc_projectFiles = None, gx_operator = ''op'', gx_mode = ''predict'',
     gx_version = INVARIANT_SET_VERSION, gx_modelPath = None\<rparr>"

definition demo_predict :: predict_st where
  "demo_predict = \<lparr>tick = 0, csr_ledger = [], wal = [], gov_ledger = [], gov_wal = [], gov_loaded = True, gov_continuity = ''initial'',
     gov_invariants = [], gov_violations = [], last_selection = None, genesisRootId = None, lastEntryId = None, lineageLog = []\<rparr>"

theorem prediction_is_checked_witness:
  "receipts (snd (governedPredict demo_world [] demo_governed_ctx demo_predict)) = []"
proof -
  let ?p = "governedPredict demo_world [] demo_governed_ctx demo_predict"
  have pre: "runPreCallInvariants \<lparr>kc_input = [], kc_operator = ''op'', kc_mode = ''predict''\<rparr> \<noteq> []"
    by (simp add: pre_empty k_admits_def blank_def)
  then have "\<exists>m x. fst ?p = Inl (Refused m x)"
    by (simp add: governedPredict_def demo_governed_ctx_def Let_def case_prod_beta)
  moreover have "\<not> k_admits ''op'' ''predict'' []" using pre by (simp add: pre_empty)
  moreover have "receipts demo_predict = []" by (simp add: receipts_def ensureLoaded_def demo_predict_def)
  ultimately show ?thesis
    using prediction_is_checked [of demo_world "[]" demo_governed_ctx demo_predict "fst ?p" "snd ?p"]
    by (auto simp: demo_governed_ctx_def)
qed

text \<open>The lineage of a process, over any sequence of predictions from a reset: its entries form one chain, each entry's parent
  the entry before it and the first without one, all with the first entry as root, and each entry's hash
  is over its parent, its payload and its call. Earlier entries never change, and
  a prediction adds at most one.\<close>

theorem lineage_is_one_chain:
  fixes s :: "'a predict_st_scheme"
  shows "lineage_ok (w_sys W) (fold (predict_step W) es (resetLineage s)) \<and>
     prefix (lineageLog (fold (predict_step W) es (resetLineage s))) (lineageLog (fold (predict_step W) (es @ fs) (resetLineage s))) \<and>
     length (lineageLog (fold (predict_step W) es (resetLineage s))) \<le> length es"
proof (intro conjI)
  have "lineage_ok (w_sys W) (resetLineage s)" by (simp add: lineage_ok_def resetLineage_def)
  then show "lineage_ok (w_sys W) (fold (predict_step W) es (resetLineage s))" by (rule predictions.run_inv)
  show "prefix (lineageLog (fold (predict_step W) es (resetLineage s))) (lineageLog (fold (predict_step W) (es @ fs) (resetLineage s)))"
    by (simp add: predictions.run_log)
  have "length (lineageLog (fold (predict_step W) es t)) \<le> length (lineageLog t) + length es" for t :: "'a predict_st_scheme"
  proof (induction es arbitrary: t)
    case (Cons e es)
    have "length (lineageLog (predict_step W e t)) \<le> Suc (length (lineageLog t))"
      using predict_step_log [of W e t] by auto
    with Cons [of "predict_step W e t"] show ?case by simp
  qed simp
  from this [of "resetLineage s"] show "length (lineageLog (fold (predict_step W) es (resetLineage s))) \<le> length es"
    by (simp add: resetLineage_def)
qed

end
