(* ===== verification/Workspace.thy ===== *)
theory Workspace
  imports Predict
begin

text \<open>
  The workspace of the agent (\<open>agent/runtime/workspace.ts\<close>) and its built-in tools (\<open>agent/tools/builtinTools.ts\<close>,
  \<open>agent/tools/types.ts\<close>) over a tree of files, with the invariants of the configuration (\<open>config/nova.config.ts\<close>).
  Paths follow the POSIX rules of Node's \<open>path\<close>. The shell and the texts of file errors are parameters. The
  file of the receipt log, \<open>.nova/ledger.wal.jsonl\<close>, to which a blocked call adds, is not in the tree: it is \<open>gov_wal\<close>.
\<close>

subsection \<open>Files and paths\<close>

datatype fs_node = FileN string | DirN "(string \<times> fs_node) list"

fun split_on :: "char \<Rightarrow> string \<Rightarrow> string list" where
  "split_on d [] = [[]]"
| "split_on d (c # t) = (if c = d then [] # split_on d t else (case split_on d t of [] \<Rightarrow> [[c]] | w # ws \<Rightarrow> (c # w) # ws))"

text \<open>The normal form of the segments of a path, with what is read so far reversed.\<close>

fun norm_segs :: "bool \<Rightarrow> string list \<Rightarrow> string list \<Rightarrow> string list" where
  "norm_segs a st [] = rev st"
| "norm_segs a st (x # xs) =
     (if x = [] \<or> x = ''.'' then norm_segs a st xs
      else if x = ''..''
      then (case st of
              [] \<Rightarrow> norm_segs a (if a then [] else [x]) xs
            | y # ys \<Rightarrow> if y = ''..'' then norm_segs a (x # st) xs else norm_segs a ys xs)
      else norm_segs a (x # st) xs)"

definition path_segs :: "string \<Rightarrow> string list \<Rightarrow> string list" where
  "path_segs cwd ps = norm_segs True [] (split_on (CHR ''/'')
     (fold (\<lambda>p acc. if p = [] then acc else if starts_with p ''/'' then p else acc @ ''/'' @ p) ps cwd))"

definition path_resolve :: "string \<Rightarrow> string list \<Rightarrow> string" where
  "path_resolve cwd ps = ''/'' @ join ''/'' (path_segs cwd ps)"

definition path_join :: "string \<Rightarrow> string \<Rightarrow> string" where
  "path_join d n = (let t = (if d = [] then n else d @ ''/'' @ n); a = starts_with t ''/''
     in (if a then ''/'' else []) @ join ''/'' (norm_segs a [] (split_on (CHR ''/'') t)))"

fun node_at :: "fs_node \<Rightarrow> string list \<Rightarrow> fs_node option" where
  "node_at n [] = Some n"
| "node_at (DirN es) (x # xs) = (case js_get es x of Some m \<Rightarrow> node_at m xs | None \<Rightarrow> None)"
| "node_at (FileN c) (x # xs) = None"

definition file_at :: "fs_node \<Rightarrow> string list \<Rightarrow> string option" where
  "file_at n p = (case node_at n p of Some (FileN c) \<Rightarrow> Some c | _ \<Rightarrow> None)"

fun new_path :: "string \<Rightarrow> string list \<Rightarrow> fs_node" where
  "new_path c [] = FileN c"
| "new_path c (x # xs) = DirN [(x, new_path c xs)]"

text \<open>Writing a file, creating the directories above it.\<close>

fun write_at :: "string \<Rightarrow> string list \<Rightarrow> fs_node \<Rightarrow> fs_node option" where
  "write_at c [] (FileN _) = Some (FileN c)"
| "write_at c [] (DirN _) = None"
| "write_at c (x # xs) (FileN _) = None"
| "write_at c (x # xs) (DirN es) =
     (case js_get es x of
        Some m \<Rightarrow> map_option (\<lambda>m'. DirN (js_set x m' es)) (write_at c xs m)
      | None \<Rightarrow> Some (DirN (es @ [(x, new_path c xs)])))"

subsection \<open>The host and the state\<close>

datatype shell_answer =
    Sh_out string
  | Sh_error "nat option" "string option" string

record host =
  h_world :: world
  h_cwd :: string
  h_browser :: bool
  h_error :: "string \<Rightarrow> string"
  h_number :: "string \<Rightarrow> jsnum option"
  h_shell :: "nat \<Rightarrow> string \<Rightarrow> jsnum option \<Rightarrow> fs_node \<Rightarrow> shell_answer \<times> fs_node"

record work_st = predict_st +
  disk :: fs_node
  workspaceRoot :: string

definition setWorkspaceRoot :: "string \<Rightarrow> 'a work_st_scheme \<Rightarrow> 'a work_st_scheme" where
  "setWorkspaceRoot base s = s\<lparr>workspaceRoot := base\<rparr>"

text \<open>The world of a prediction, with the files as they are now.\<close>

definition world_now :: "host \<Rightarrow> 'a work_st_scheme \<Rightarrow> world" where
  "world_now H s = (h_world H)\<lparr>w_files := \<lparr>fw_exists = (\<lambda>p. node_at (disk s) (path_segs (h_cwd H) [p]) \<noteq> None),
     fw_resolve = path_resolve (h_cwd H)\<rparr>\<rparr>"

subsection \<open>The workspace\<close>

text \<open>\<open>text.replace(pat, by)\<close> for strings: the first occurrence.\<close>

fun replace_first :: "string \<Rightarrow> string \<Rightarrow> string \<Rightarrow> string" where
  "replace_first pat by [] = (if pat = [] then by else [])"
| "replace_first pat by (c # t) = (if starts_with (c # t) pat then by @ drop (length pat) (c # t) else c # replace_first pat by t)"

definition strip_root :: "string \<Rightarrow> string \<Rightarrow> string" where
  "strip_root base full = replace_first (base @ ''/'') [] (replace_first (base @ [CHR 0x5C]) [] full)"

fun list_entries :: "string \<Rightarrow> string \<Rightarrow> (string \<times> fs_node) list \<Rightarrow> string list" where
  "list_entries base dir [] = []"
| "list_entries base dir ((n, FileN c) # es) =
     (if n \<in> {''node_modules'', ''dist'', ''.git''} then [] else [strip_root base (path_join dir n)]) @ list_entries base dir es"
| "list_entries base dir ((n, DirN ds) # es) =
     (if n \<in> {''node_modules'', ''dist'', ''.git''} then [] else list_entries base (path_join dir n) ds) @ list_entries base dir es"

definition listFiles :: "host \<Rightarrow> 'a work_st_scheme \<Rightarrow> string list" where
  "listFiles H s = (case node_at (disk s) (path_segs (h_cwd H) [workspaceRoot s]) of
     Some (DirN es) \<Rightarrow> list_entries (workspaceRoot s) (workspaceRoot s) es | _ \<Rightarrow> [])"

record workspace_context =
  wc_root :: string
  wc_files :: "string list"
  wc_open :: "string list"

definition getContext :: "host \<Rightarrow> 'a work_st_scheme \<Rightarrow> workspace_context" where
  "getContext H s =
     (if h_browser H
      then \<lparr>wc_root = ''/workspace'', wc_files = [''agent/index.ts'', ''package.json'', ''config/nova.config.ts''], wc_open = []\<rparr>
      else \<lparr>wc_root = workspaceRoot s, wc_files = listFiles H s, wc_open = []\<rparr>)"

definition openFile :: "host \<Rightarrow> string \<Rightarrow> 'a work_st_scheme \<Rightarrow> string + (string \<times> string)" where
  "openFile H path s =
     (if h_browser H then Inr (path, ''// browser stub for '' @ path)
      else let p = path_segs (h_cwd H) [workspaceRoot s, path]
           in case file_at (disk s) p of Some c \<Rightarrow> Inr (path, c) | None \<Rightarrow> Inl (h_error H (''/'' @ join ''/'' p)))"

definition applyDiff :: "string \<Rightarrow> bool \<times> string" where
  "applyDiff diff = (True, ''Diff recorded ('' @ show_nat (length diff) @ '' chars); apply via editor integration in production.'')"

record test_result =
  tr_name :: string
  tr_passed :: bool
  tr_message :: "string option"

definition runTests :: "test_result list" where
  "runTests = [\<lparr>tr_name = ''nova-sdk-smoke'', tr_passed = True, tr_message = Some ''No test runner configured''\<rparr>]"

definition getEnvironment :: "string \<Rightarrow> string \<Rightarrow> host \<Rightarrow> string \<times> string \<times> string" where
  "getEnvironment version platform H = (version, platform, h_cwd H)"

subsection \<open>The configured invariants\<close>

definition dangerousShell :: "string list" where
  "dangerousShell = [''rm -rf'', ''curl | sh'', ''curl|sh'', '':(){ :|:& };:'']"

definition state_text :: "inv_state \<Rightarrow> string" where
  "state_text st = join '' '' (map the (filter given_str [is_prompt st, is_code st, is_diff st]))"

definition nova_invariants :: "invariant list" where
  "nova_invariants =
     [\<lparr>iv_id = ''no-credentials'', iv_desc = ''Do not leak secrets or credentials in generated code or prompts.'',
       iv_severity = SevError, iv_check = (\<lambda>st. \<not> rx_test credential_rx (state_text st)), iv_inas = None\<rparr>,
      \<lparr>iv_id = ''no-dangerous-shell'', iv_desc = ''Disallow dangerous shell commands in prompts and diffs.'',
       iv_severity = SevError, iv_check = (\<lambda>st. \<not> list_ex (str_includes (state_text st)) dangerousShell), iv_inas = None\<rparr>,
      \<lparr>iv_id = ''no-silent-actions'', iv_desc = ''All actions must be governable (non-empty action type).'',
       iv_severity = SevError, iv_check = (\<lambda>st. a_type (is_action st) \<noteq> []), iv_inas = None\<rparr>]"

subsection \<open>Tools\<close>

type_synonym tool_args = "(string \<times> json) list"

record tool_result =
  to_success :: bool
  to_output :: "string option"
  to_error :: "string option"
  to_receipt :: "string option"

definition tool_failure :: "string \<Rightarrow> tool_result" where
  "tool_failure e = \<lparr>to_success = False, to_output = None, to_error = Some e, to_receipt = None\<rparr>"

definition run_action :: "(string \<times> json) list \<Rightarrow> action" where
  "run_action payload = \<lparr>a_type = ''run'', a_payload = payload\<rparr>"

definition no_opts :: receipt_opts where
  "no_opts = \<lparr>ro_blocked = None, ro_reason = None, ro_level = None, ro_crk1 = None\<rparr>"

definition blocked_opts :: "string \<Rightarrow> receipt_opts" where
  "blocked_opts reason = no_opts\<lparr>ro_blocked := Some True, ro_reason := Some reason\<rparr>"

definition governedToolCall ::
    "host \<Rightarrow> string \<Rightarrow> tool_args \<Rightarrow> ('a work_st_scheme \<Rightarrow> (string + string) \<times> 'a work_st_scheme) \<Rightarrow> 'a work_st_scheme \<Rightarrow>
     tool_result \<times> 'a work_st_scheme" where
  "governedToolCall H toolName args fn s =
     (let E = w_sys (h_world H); a = run_action [(''tool'', JStr toolName), (''args'', JObj args)]
      in case validateAction E a s of
           (VFail reason v, s1) \<Rightarrow>
             (let (r, s2) = recordReceipt E a [] (blocked_opts reason) s1
              in ((tool_failure (''Blocked by invariant: '' @ reason))\<lparr>to_receipt := Some (g_id r)\<rparr>, s2))
         | (VOk, s1) \<Rightarrow>
             (case fn s1 of
                (Inl e, s2) \<Rightarrow> (tool_failure e, s2)
              | (Inr out, s2) \<Rightarrow>
                  (let (r, s3) = recordReceipt E a [toolName] no_opts s2
                   in (\<lparr>to_success = True, to_output = Some out, to_error = None, to_receipt = Some (g_id r)\<rparr>, s3))))"

text \<open>\<open>String(v ?? "")\<close> and \<open>Number(v)\<close> of an argument.\<close>

fun js_string :: "json \<Rightarrow> string" where
  "js_string JNull = ''null''"
| "js_string (JBool b) = bool_str b"
| "js_string (JNum n) = num_str n"
| "js_string (JStr t) = t"
| "js_string (JArr xs) = join '','' (map (\<lambda>x. if x = JNull then [] else js_string x) xs)"
| "js_string (JObj fs) = ''[object Object]''"

definition arg_str :: "tool_args \<Rightarrow> string \<Rightarrow> string" where
  "arg_str args k = (case jget args k of None \<Rightarrow> [] | Some JNull \<Rightarrow> [] | Some v \<Rightarrow> js_string v)"

definition js_number :: "host \<Rightarrow> json option \<Rightarrow> jsnum option" where
  "js_number H v = (case v of None \<Rightarrow> None | Some (JNum n) \<Rightarrow> Some n | Some (JBool b) \<Rightarrow> Some (if b then 1 else 0)
     | Some JNull \<Rightarrow> Some 0 | Some w \<Rightarrow> h_number H (js_string w))"

text \<open>What each tool does once it is allowed to; a thrown error is on the left.\<close>

definition tool_path :: "host \<Rightarrow> string \<Rightarrow> string list" where
  "tool_path H path = path_segs (h_cwd H) [h_cwd H, path]"

definition file_error :: "host \<Rightarrow> string \<Rightarrow> string" where
  "file_error H path = h_error H (''/'' @ join ''/'' (tool_path H path))"

definition read_file :: "host \<Rightarrow> string \<Rightarrow> 'a work_st_scheme \<Rightarrow> (string + string) \<times> 'a work_st_scheme" where
  "read_file H path s = (case file_at (disk s) (tool_path H path) of Some c \<Rightarrow> (Inr c, s) | None \<Rightarrow> (Inl (file_error H path), s))"

definition write_file :: "host \<Rightarrow> string \<Rightarrow> string \<Rightarrow> 'a work_st_scheme \<Rightarrow> (string + string) \<times> 'a work_st_scheme" where
  "write_file H path content s =
     (case write_at content (tool_path H path) (disk s) of
        Some d \<Rightarrow> (Inr (''Written '' @ show_nat (length content) @ '' bytes to '' @ path), s\<lparr>disk := d\<rparr>)
      | None \<Rightarrow> (Inl (file_error H path), s))"

text \<open>The replacement text of \<open>String.replace\<close>: a dollar sign starts a pattern.\<close>

fun expand_dollar :: "string \<Rightarrow> string \<Rightarrow> string \<Rightarrow> string \<Rightarrow> string" where
  "expand_dollar before found after [] = []"
| "expand_dollar before found after [c] = [c]"
| "expand_dollar before found after (c # d # t) =
     (if c = CHR ''$'' \<and> d = CHR ''$'' then CHR ''$'' # expand_dollar before found after t
      else if c = CHR ''$'' \<and> d = CHR ''&'' then found @ expand_dollar before found after t
      else if c = CHR ''$'' \<and> code_of d = 96 then before @ expand_dollar before found after t
      else if c = CHR ''$'' \<and> code_of d = 39 then after @ expand_dollar before found after t
      else c # expand_dollar before found after (d # t))"

text \<open>The text before the first occurrence and after it.\<close>

fun split_first :: "string \<Rightarrow> string \<Rightarrow> (string \<times> string) option" where
  "split_first pat [] = (if pat = [] then Some ([], []) else None)"
| "split_first pat (c # t) = (if starts_with (c # t) pat then Some ([], drop (length pat) (c # t))
     else map_option (\<lambda>(x, y). (c # x, y)) (split_first pat t))"

definition edit_file :: "host \<Rightarrow> string \<Rightarrow> string \<Rightarrow> string \<Rightarrow> 'a work_st_scheme \<Rightarrow> (string + string) \<times> 'a work_st_scheme" where
  "edit_file H path oldStr newStr s =
     (case file_at (disk s) (tool_path H path) of
        None \<Rightarrow> (Inl (file_error H path), s)
      | Some content \<Rightarrow>
          (case split_first oldStr content of
             None \<Rightarrow> (Inr (''Error: Could not find matching text in '' @ path), s)
           | Some (before, after) \<Rightarrow>
               (case write_at (before @ expand_dollar before oldStr after newStr @ after) (tool_path H path) (disk s) of
                  Some d \<Rightarrow> (Inr (''Edited '' @ path @ '': replaced '' @ quoted (take 40 oldStr @ ''...'') @ '' with '' @ quoted (take 40 newStr @ ''...'')),
                             s\<lparr>disk := d\<rparr>)
                | None \<Rightarrow> (Inl (file_error H path), s))))"

definition run_shell :: "host \<Rightarrow> string \<Rightarrow> jsnum option \<Rightarrow> 'a work_st_scheme \<Rightarrow> shell_answer \<times> 'a work_st_scheme" where
  "run_shell H cmd timeout s =
     (let (a, d) = h_shell H (tick s) cmd timeout (disk s) in (a, s\<lparr>tick := Suc (tick s), disk := d\<rparr>))"

definition search_command :: "host \<Rightarrow> string \<Rightarrow> tool_args \<Rightarrow> string" where
  "search_command H pattern args =
     ''rg --no-heading --line-number '' @ (if truthy (jget args ''include'') then ''--include='' @ quoted (arg_str args ''include'') else []) @
     '' --exclude-dir=node_modules --exclude-dir=.git --exclude-dir=dist '' @ quoted pattern @ '' '' @ quoted (h_cwd H) @ '' 2>&1 || true''"

definition search_code :: "host \<Rightarrow> string \<Rightarrow> tool_args \<Rightarrow> 'a work_st_scheme \<Rightarrow> (string + string) \<times> 'a work_st_scheme" where
  "search_code H pattern args s =
     (case run_shell H (search_command H pattern args) None s of
        (Sh_out out, s1) \<Rightarrow> (Inr (if out = [] then ''No matches found.'' else out), s1)
      | (Sh_error st err msg, s1) \<Rightarrow> (Inl msg, s1))"

definition SQ :: string where
  "SQ = [CHR 0x27]"

definition glob_command :: "host \<Rightarrow> string \<Rightarrow> string" where
  "glob_command H pattern =
     ''powershell -Command '' @ [CHR 0x22] @ ''Get-ChildItem -Path '' @ SQ @ h_cwd H @ SQ @ '' -Recurse -Filter '' @ SQ @
     concat (map (\<lambda>c. if [c] = SQ then SQ @ SQ else [c]) pattern) @ SQ @
     '' -ErrorAction SilentlyContinue | Where-Object { !$_.PSIsContainer } | ForEach-Object { $_.FullName.Replace('' @ SQ @ h_cwd H @ SQ @
     '', '' @ SQ @ SQ @ '').TrimStart('' @ SQ @ [CHR 0x5C, CHR 0x5C] @ SQ @ '') }'' @ [CHR 0x22]"

fun split_crlf :: "string \<Rightarrow> string list" where
  "split_crlf [] = [[]]"
| "split_crlf [c] = [[c]]"
| "split_crlf (c # d # t) =
     (if code_of c = 13 \<and> code_of d = 10 then [] # split_crlf t
      else (case split_crlf (d # t) of [] \<Rightarrow> [[c]] | w # ws \<Rightarrow> (c # w) # ws))"

definition js_trim :: "string \<Rightarrow> string" where
  "js_trim t = rev (dropWhile is_ws (rev (dropWhile is_ws t)))"

definition glob_files :: "host \<Rightarrow> string \<Rightarrow> 'a work_st_scheme \<Rightarrow> (string + string) \<times> 'a work_st_scheme" where
  "glob_files H pattern s =
     (case run_shell H (glob_command H pattern) None s of
        (Sh_out out, s1) \<Rightarrow>
          (let ls = filter (\<lambda>l. l \<noteq> []) (split_crlf (js_trim out)) in (Inr (if ls = [] then ''No files matched.'' else join NL ls), s1))
      | (Sh_error st err msg, s1) \<Rightarrow> (Inr ''No files matched.'', s1))"

definition run_command :: "host \<Rightarrow> string \<Rightarrow> tool_args \<Rightarrow> 'a work_st_scheme \<Rightarrow> (string + string) \<times> 'a work_st_scheme" where
  "run_command H command args s =
     (case run_shell H command (Some (number_or (js_number H (jget args ''timeout'')) 30000)) s of
        (Sh_out out, s1) \<Rightarrow> (Inr (if out = [] then ''(no output)'' else out), s1)
      | (Sh_error st err msg, s1) \<Rightarrow>
          (Inr (''Exit code: '' @ (case st of Some n \<Rightarrow> show_nat n | None \<Rightarrow> ''?'') @ NL @ (if given_str err then the err else msg)), s1))"

text \<open>\<open>JSON.stringify(ctx, null, 2)\<close>\<close>

definition pretty_list :: "string list \<Rightarrow> string" where
  "pretty_list xs = (if xs = [] then ''[]'' else ''['' @ NL @ join ('','' @ NL) (map (\<lambda>x. ''    '' @ stringify (JStr x)) xs) @ NL @ ''  ]'')"

definition context_text :: "workspace_context \<Rightarrow> string" where
  "context_text c = ''{'' @ NL @ ''  '' @ quoted ''root'' @ '': '' @ stringify (JStr (wc_root c)) @ '','' @ NL @
     ''  '' @ quoted ''files'' @ '': '' @ pretty_list (wc_files c) @ '','' @ NL @
     ''  '' @ quoted ''openFiles'' @ '': '' @ pretty_list (wc_open c) @ NL @ ''}''"

definition get_context :: "host \<Rightarrow> 'a work_st_scheme \<Rightarrow> (string + string) \<times> 'a work_st_scheme" where
  "get_context H s = (Inr (context_text (getContext H s)), s)"

datatype tool = ReadFile | WriteFile | EditFile | SearchCode | GlobFiles | RunCommand | GetContext

primrec tool_name :: "tool \<Rightarrow> string" where
  "tool_name ReadFile = ''read_file''"
| "tool_name WriteFile = ''write_file''"
| "tool_name EditFile = ''edit_file''"
| "tool_name SearchCode = ''search_code''"
| "tool_name GlobFiles = ''glob_files''"
| "tool_name RunCommand = ''run_command''"
| "tool_name GetContext = ''get_context''"

definition allTools :: "tool list" where
  "allTools = [ReadFile, WriteFile, EditFile, SearchCode, GlobFiles, RunCommand, GetContext]"

definition getTool :: "string \<Rightarrow> tool option" where
  "getTool name = List.find (\<lambda>t. tool_name t = name) allTools"

definition missing :: "string \<Rightarrow> tool_result" where
  "missing k = tool_failure (''Missing '' @ SQ @ k @ SQ @ '' argument'')"

fun execute_tool :: "host \<Rightarrow> tool \<Rightarrow> tool_args \<Rightarrow> 'a work_st_scheme \<Rightarrow> tool_result \<times> 'a work_st_scheme" where
  "execute_tool H ReadFile args s =
     (let p = arg_str args ''path''
      in if p = [] then (missing ''path'', s) else governedToolCall H ''read_file'' args (read_file H p) s)"
| "execute_tool H WriteFile args s =
     (let p = arg_str args ''path''
      in if p = [] then (missing ''path'', s) else governedToolCall H ''write_file'' args (write_file H p (arg_str args ''content'')) s)"
| "execute_tool H EditFile args s =
     (let p = arg_str args ''path''; old = arg_str args ''oldStr''
      in if p = [] \<or> old = [] then (tool_failure ''Missing required arguments'', s)
         else governedToolCall H ''edit_file'' args (edit_file H p old (arg_str args ''newStr'')) s)"
| "execute_tool H SearchCode args s =
     (let p = arg_str args ''pattern''
      in if p = [] then (missing ''pattern'', s) else governedToolCall H ''search_code'' args (search_code H p args) s)"
| "execute_tool H GlobFiles args s =
     (let p = arg_str args ''pattern''
      in if p = [] then (missing ''pattern'', s) else governedToolCall H ''glob_files'' args (glob_files H p) s)"
| "execute_tool H RunCommand args s =
     (let c = arg_str args ''command''
      in if c = [] then (missing ''command'', s) else governedToolCall H ''run_command'' args (run_command H c args) s)"
| "execute_tool H GetContext args s = governedToolCall H ''get_context'' [] (get_context H) s"

subsection \<open>Reading what was written\<close>

lemma file_at_Nil [simp]: "file_at (FileN c) [] = Some c" "file_at (DirN es) [] = None"
  by (simp_all add: file_at_def)

lemma file_at_Cons [simp]:
  "file_at (FileN c) (x # xs) = None"
  "file_at (DirN es) (x # xs) = (case js_get es x of Some m \<Rightarrow> file_at m xs | None \<Rightarrow> None)"
  by (simp_all add: file_at_def split: option.split)

lemma file_at_new: "file_at (new_path c p) q = (if q = p then Some c else None)"
proof (induction p arbitrary: q)
  case Nil
  then show ?case by (cases q) simp_all
next
  case (Cons x p)
  then show ?case by (cases q) simp_all
qed

lemma file_at_write: "write_at c p n = Some n' \<Longrightarrow> file_at n' q = (if q = p then Some c else file_at n q)"
proof (induction c p n arbitrary: n' q rule: write_at.induct)
  case (1 c d)
  then show ?case by (cases q) auto
next
  case (4 c x xs es)
  show ?case
  proof (cases "js_get es x")
    case None
    with 4 have "n' = DirN (es @ [(x, new_path c xs)])" by simp
    with None show ?thesis
      by (cases q) (auto simp: file_at_new map_add_def split: option.splits)
  next
    case (Some m)
    with 4 obtain m' where m: "write_at c xs m = Some m'" "n' = DirN (js_set x m' es)" by auto
    then show ?thesis using 4(1) [OF Some] Some by (cases q) auto
  qed
qed auto

lemma split_first_spec: "split_first pat t = Some (x, y) \<Longrightarrow> t = x @ pat @ y"
proof (induction pat t arbitrary: x rule: split_first.induct)
  case (2 pat c t)
  then show ?case by (auto simp: starts_with_prefix prefix_def split: if_splits)
qed (auto split: if_splits)

lemma split_first_None: "split_first pat t = None \<longleftrightarrow> \<not> str_includes t pat"
  by (induction pat t rule: split_first.induct) auto

lemma split_first_earliest:
  "split_first pat t = Some (x, y) \<Longrightarrow> t = u @ pat @ v \<Longrightarrow> length x \<le> length u"
proof (induction pat t arbitrary: x u rule: split_first.induct)
  case (2 pat c t)
  show ?case
  proof (cases "starts_with (c # t) pat")
    case False
    with 2(3) have "u \<noteq> []" by (auto simp: starts_with_prefix prefix_def)
    then obtain u' where "u = c # u'" "t = u' @ pat @ v" using 2(3) by (cases u) auto
    with False 2 show ?thesis by auto
  next
    case True
    then have "x = []" using 2(2) by simp
    then show ?thesis by simp
  qed
qed (auto split: if_splits)

lemma expand_plain: "CHR ''$'' \<notin> set t \<Longrightarrow> expand_dollar x f y t = t"
  by (induction x f y t rule: expand_dollar.induct) auto

subsection \<open>Governance of the tools\<close>

lemma run_no_evidence: "\<not> has_evidence (run_action [(''tool'', v), (''args'', w)])"
  by (simp add: has_evidence_def run_action_def jget_str_def jget_def nonempty_def)

lemma governedToolCall_blocked:
  "\<exists>reason r. governedToolCall H name args fn s =
     ((tool_failure (''Blocked by invariant: '' @ reason))\<lparr>to_receipt := Some (g_id r)\<rparr>,
      snd (recordReceipt (w_sys (h_world H)) (run_action [(''tool'', JStr name), (''args'', JObj args)]) [] (blocked_opts reason)
        (snd (validateAction (w_sys (h_world H)) (run_action [(''tool'', JStr name), (''args'', JObj args)]) s)))) \<and>
     r = fst (recordReceipt (w_sys (h_world H)) (run_action [(''tool'', JStr name), (''args'', JObj args)]) [] (blocked_opts reason)
        (snd (validateAction (w_sys (h_world H)) (run_action [(''tool'', JStr name), (''args'', JObj args)]) s)))"
proof -
  let ?a = "run_action [(''tool'', JStr name), (''args'', JObj args)]"
  obtain v s1 where v: "validateAction (w_sys (h_world H)) ?a s = (v, s1)" by fastforce
  have "v \<noteq> VOk" using validateAction_ok [of "w_sys (h_world H)" ?a s] run_no_evidence v by simp
  then obtain reason w where "v = VFail reason w" by (cases v) auto
  with v show ?thesis by (intro exI [of _ reason]) (simp add: governedToolCall_def Let_def case_prod_beta)
qed

lemma validate_disk [simp]: "disk (snd (validateAction E a s)) = disk s" "lineageLog (snd (validateAction E a s)) = lineageLog (s :: 'a work_st_scheme)"
proof -
  obtain n vs where "snd (validateAction E a s) = s\<lparr>tick := n, gov_violations := gov_violations s @ vs\<rparr>"
    using validateAction_effect by blast
  then show "disk (snd (validateAction E a s)) = disk s" "lineageLog (snd (validateAction E a s)) = lineageLog s" by simp_all
qed

lemma record_disk [simp]: "disk (snd (recordReceipt E a ch op s)) = disk (s :: 'a work_st_scheme)"
proof -
  obtain n l w where "snd (recordReceipt E a ch op s) = s\<lparr>tick := n, gov_ledger := l, gov_wal := w, gov_loaded := True\<rparr>"
    using recordReceipt_state by blast
  then show ?thesis by simp
qed

lemma governedToolCall_fails:
  "\<not> to_success (fst (governedToolCall H name args fn s)) \<and> disk (snd (governedToolCall H name args fn s)) = disk s \<and>
   (\<exists>r. receipts (snd (governedToolCall H name args fn s)) = receipts s @ [r] \<and> g_blocked r = Some True \<and>
      to_receipt (fst (governedToolCall H name args fn s)) = Some (g_id r))"
proof -
  obtain reason r where g: "governedToolCall H name args fn s =
     ((tool_failure (''Blocked by invariant: '' @ reason))\<lparr>to_receipt := Some (g_id r)\<rparr>,
      snd (recordReceipt (w_sys (h_world H)) (run_action [(''tool'', JStr name), (''args'', JObj args)]) [] (blocked_opts reason)
        (snd (validateAction (w_sys (h_world H)) (run_action [(''tool'', JStr name), (''args'', JObj args)]) s))))"
    and r: "r = fst (recordReceipt (w_sys (h_world H)) (run_action [(''tool'', JStr name), (''args'', JObj args)]) [] (blocked_opts reason)
        (snd (validateAction (w_sys (h_world H)) (run_action [(''tool'', JStr name), (''args'', JObj args)]) s)))"
    using governedToolCall_blocked [of H name args fn s] by blast
  have "g_blocked r = Some True"
    using recordReceipt_effect [of "w_sys (h_world H)" "run_action [(''tool'', JStr name), (''args'', JObj args)]" "[]" "blocked_opts reason"
        "snd (validateAction (w_sys (h_world H)) (run_action [(''tool'', JStr name), (''args'', JObj args)]) s)"] r
    by (auto simp: blocked_opts_def no_opts_def)
  with g r show ?thesis by (auto simp: tool_failure_def)
qed

subsection \<open>Properties\<close>

text \<open>C26. No tool ever runs: whatever invariants are registered, a call of a built-in tool reports failure and leaves every file
  as it was. A call with its required arguments is recorded in one blocked receipt; one without them is
  not recorded. The action of a tool call carries neither code nor diff nor prompt, so the fixed
  invariant that asks for evidence always fails.\<close>

theorem tools_never_run:
  "\<not> to_success (fst (execute_tool H t args s)) \<and> disk (snd (execute_tool H t args s)) = disk s \<and>
   (if (t \<in> {ReadFile, WriteFile, EditFile} \<and> arg_str args ''path'' = []) \<or> (t = EditFile \<and> arg_str args ''oldStr'' = []) \<or>
       (t \<in> {SearchCode, GlobFiles} \<and> arg_str args ''pattern'' = []) \<or> (t = RunCommand \<and> arg_str args ''command'' = [])
    then snd (execute_tool H t args s) = s \<and> to_receipt (fst (execute_tool H t args s)) = None
    else \<exists>r. receipts (snd (execute_tool H t args s)) = receipts s @ [r] \<and> g_blocked r = Some True \<and>
           to_receipt (fst (execute_tool H t args s)) = Some (g_id r))"
  by (cases t) (simp_all add: governedToolCall_fails Let_def missing_def tool_failure_def)

text \<open>The file operations behind the tools: after a write the file reads back as written and every other file is as it was;
  an edit of a text that occurs replaces its first occurrence, with the new text as given when it has no dollar
  sign, and leaves a file without the text alone while still reporting no error. An absolute path is not
  confined to the working directory.\<close>

theorem file_operations:
  assumes "file_at (disk s) (tool_path H path) = Some content" and "old \<noteq> []" and "edit_file H path old new s = (r, s')"
  shows "(\<exists>m. r = Inr m) \<and>
     (\<forall>q. q \<noteq> tool_path H path \<longrightarrow> file_at (disk s') q = file_at (disk s) q) \<and>
     (if str_includes content old
      then CHR ''$'' \<notin> set new \<longrightarrow> (\<exists>x y. content = x @ old @ y \<and> (\<forall>u v. content = u @ old @ v \<longrightarrow> length x \<le> length u) \<and>
        read_file H path s' = (Inr (x @ new @ y), s'))
      else s' = s) \<and>
     (\<forall>c m t. write_file H path c s = (Inr m, t) \<longrightarrow> read_file H path t = (Inr c, t)) \<and>
     (starts_with path ''/'' \<longrightarrow> tool_path H path = norm_segs True [] (split_on (CHR ''/'') path))"
proof (intro conjI)
  have w: "\<exists>d. write_at c p n = Some d" if "file_at n p = Some x" for c p n x
    using that by (induction c p n rule: write_at.induct) (auto split: option.splits)
  have e: "(\<exists>m. r = Inr m) \<and> (if str_includes content old
     then \<exists>x y. split_first old content = Some (x, y) \<and>
       (\<forall>q. file_at (disk s') q = (if q = tool_path H path then Some (x @ expand_dollar x old y new @ y) else file_at (disk s) q))
     else s' = s)"
  proof (cases "split_first old content")
    case None
    with assms show ?thesis by (auto simp: edit_file_def split_first_None [of old content])
  next
    case (Some xy)
    then obtain x y where xy: "split_first old content = Some (x, y)" by (cases xy) auto
    then have "str_includes content old" using split_first_None [of old content] by simp
    moreover obtain d where "write_at (x @ expand_dollar x old y new @ y) (tool_path H path) (disk s) = Some d"
      using w [OF assms(1)] by blast
    ultimately show ?thesis using assms xy file_at_write by (auto simp: edit_file_def)
  qed
  then show "\<exists>m. r = Inr m" by blast
  show "\<forall>q. q \<noteq> tool_path H path \<longrightarrow> file_at (disk s') q = file_at (disk s) q" using e by (auto split: if_splits)
  show "if str_includes content old
      then CHR ''$'' \<notin> set new \<longrightarrow> (\<exists>x y. content = x @ old @ y \<and> (\<forall>u v. content = u @ old @ v \<longrightarrow> length x \<le> length u) \<and>
        read_file H path s' = (Inr (x @ new @ y), s'))
      else s' = s"
  proof (cases "str_includes content old")
    case True
    then obtain x y where xy: "split_first old content = Some (x, y)"
      "file_at (disk s') (tool_path H path) = Some (x @ expand_dollar x old y new @ y)" using e by auto
    then have "CHR ''$'' \<notin> set new \<Longrightarrow> read_file H path s' = (Inr (x @ new @ y), s')"
      by (simp add: read_file_def expand_plain)
    with True xy(1) show ?thesis using split_first_spec [OF xy(1)] split_first_earliest [OF xy(1)] by auto
  qed (use e in simp)
  show "\<forall>c m t. write_file H path c s = (Inr m, t) \<longrightarrow> read_file H path t = (Inr c, t)"
    using file_at_write by (auto simp: write_file_def read_file_def split: option.splits)
  show "starts_with path ''/'' \<longrightarrow> tool_path H path = norm_segs True [] (split_on (CHR ''/'') path)"
    by (auto simp: tool_path_def path_segs_def starts_with_def)
qed

definition demo_host :: host where
  "demo_host = \<lparr>h_world = demo_world, h_cwd = ''/w'', h_browser = False, h_error = (\<lambda>p. ''ENOENT '' @ p), h_number = (\<lambda>_. None),
     h_shell = (\<lambda>i c t d. (Sh_out [], d))\<rparr>"

definition demo_work :: work_st where
  "demo_work = predict_st.extend demo_predict \<lparr>disk = DirN [(''w'', DirN [(''a.ts'', FileN ''let x = 1'')])], workspaceRoot = ''/w''\<rparr>"

theorem file_operations_witness:
  "\<exists>s'. edit_file demo_host ''a.ts'' ''x'' ''y'' demo_work = (Inr (''Edited a.ts: replaced '' @ quoted ''x...'' @ '' with '' @ quoted ''y...''), s') \<and>
     file_at (disk s') [''q''] = None"
proof -
  have p: "tool_path demo_host ''a.ts'' = [''w'', ''a.ts'']"
    by (simp add: tool_path_def path_segs_def demo_host_def starts_with_def)
  have f: "file_at (disk demo_work) (tool_path demo_host ''a.ts'') = Some ''let x = 1''"
    by (simp add: p demo_work_def work_st.defs predict_st.defs)
  obtain s' where e: "edit_file demo_host ''a.ts'' ''x'' ''y'' demo_work = (Inr (''Edited a.ts: replaced '' @ quoted ''x...'' @ '' with '' @ quoted ''y...''), s')"
    using f by (simp add: edit_file_def p starts_with_def demo_work_def work_st.defs predict_st.defs)
  with file_operations [OF f _ e] show ?thesis by (auto simp: p demo_work_def work_st.defs predict_st.defs)
qed

end
