(* ===== verification/AgentCore.thy ===== *)
theory AgentCore
  imports Workspace "HOL-Library.List_Lexorder" "HOL-Library.Char_ord"
begin

text \<open>
  The agent: events (\<open>agent/events/lifecycle.ts\<close>), the continuity substrate (\<open>agent/continuity\<close>), the governed
  operations and the planner, executor and loops (\<open>agent/core\<close>) and the runtime that registers the configured invariants
  (\<open>agent/runtime/agent-runtime.ts\<close>). What the listeners of an event are given is kept as a trace.
\<close>

subsection \<open>Plans and events\<close>

record plan_step =
  ps_id :: string
  ps_desc :: string
  ps_action :: action

record plan =
  pl_id :: string
  pl_steps :: "plan_step list"
  pl_justification :: string
  pl_receipts :: "receipt list"
  pl_intentId :: string
  pl_goal :: string
  pl_evidenceRequired :: bool
  pl_action :: string
  pl_payload :: "(string \<times> json) list"
  pl_sandbox :: bool

datatype agent_event = Ev_plan plan | Ev_action action | Ev_receipt receipt | Ev_progress string string

record work_snapshot =
  sn_id :: string
  sn_time :: time
  sn_state :: string

record agent_st = work_st +
  snapshots :: "work_snapshot list"
  heard :: "agent_event list"

definition emit :: "agent_event \<Rightarrow> 'a agent_st_scheme \<Rightarrow> 'a agent_st_scheme" where
  "emit e s = s\<lparr>heard := heard s @ [e]\<rparr>"

definition emitPlan :: "plan \<Rightarrow> 'a agent_st_scheme \<Rightarrow> 'a agent_st_scheme" where
  "emitPlan p = emit (Ev_plan p)"

definition emitAction :: "action \<Rightarrow> 'a agent_st_scheme \<Rightarrow> 'a agent_st_scheme" where
  "emitAction a = emit (Ev_action a)"

definition emitReceipt :: "receipt \<Rightarrow> 'a agent_st_scheme \<Rightarrow> 'a agent_st_scheme" where
  "emitReceipt r = emit (Ev_receipt r)"

subsection \<open>Continuity\<close>

definition computeWorkspaceHash :: "host \<Rightarrow> 'a work_st_scheme \<Rightarrow> string" where
  "computeWorkspaceHash H s = (let c = getContext H s in
     sha256 (w_sys (h_world H)) (stringify (JObj [(''root'', JStr (wc_root c)), (''files'', jstrs (sort (wc_files c)))])))"

definition getContinuityHash :: "'a gov_st_scheme \<Rightarrow> string" where
  "getContinuityHash s = gov_continuity s"

definition take_snapshot :: "host \<Rightarrow> 'a agent_st_scheme \<Rightarrow> work_snapshot \<times> 'a agent_st_scheme" where
  "take_snapshot H s =
     (let h = computeWorkspaceHash H s; E = w_sys (h_world H); (u, s1) = take_uuid E s; (t, s2) = take_now E s1;
          sn = \<lparr>sn_id = u, sn_time = t, sn_state = h\<rparr>
      in (sn, s2\<lparr>snapshots := snapshots s @ [sn], gov_continuity := h\<rparr>))"

text \<open>\<open>snap.toCSR()\<close>\<close>

definition snapshot_csr :: "host \<Rightarrow> work_snapshot \<Rightarrow> 'a sys_st_scheme \<Rightarrow> json \<times> 'a sys_st_scheme" where
  "snapshot_csr H sn s =
     (let (t, s1) = take_now (w_sys (h_world H)) s; ts = JStr (iso_string t); h = JStr (sn_state sn)
      in (JObj
           [(''id'', JStr (sn_id sn)), (''timestamp'', ts), (''authority'', JStr ''continuity-substrate''), (''previousHash'', JStr ''genesis''),
            (''hash'', h),
            (''state'', JObj [(''id'', JStr (sn_id sn)), (''label'', JStr (''snapshot-'' @ take 8 (sn_id sn))),
               (''data'', JObj [(''stateHash'', h)]), (''checksum'', h)]),
            (''evidence'', JArr []),
            (''provenance'', JObj [(''origin'', JStr (sn_id sn)), (''authority'', JStr ''continuity-substrate''), (''timestamp'', ts),
               (''lineage'', JArr [h]), (''cryptographicIntegrity'', h)]),
            (''lineage'', JArr [h]),
            (''validation'', JObj [(''valid'', JBool True), (''invariantResults'', JArr []), (''timestamp'', ts)]),
            (''replay'', JObj [(''replayable'', JBool True), (''replaySteps'', jstrs [''computeWorkspaceHash'']), (''expectedStateHash'', h)])], s1))"

definition getSnapshots :: "'a agent_st_scheme \<Rightarrow> work_snapshot list" where
  "getSnapshots s = snapshots s"

definition updateContinuity :: "host \<Rightarrow> 'a work_st_scheme \<Rightarrow> 'a work_st_scheme" where
  "updateContinuity H s = s\<lparr>gov_continuity := computeWorkspaceHash H s\<rparr>"

definition replay_snapshot :: "string \<Rightarrow> 'a agent_st_scheme \<Rightarrow> (work_snapshot option \<times> receipt list) \<times> 'a agent_st_scheme" where
  "replay_snapshot i s = (let (l, s1) = getLedger s in ((List.find (\<lambda>n. sn_id n = i) (snapshots s), l), s1))"

definition snapshot_diff :: "work_snapshot \<Rightarrow> work_snapshot \<Rightarrow> string \<times> string \<times> bool" where
  "snapshot_diff a b = (sn_state a, sn_state b, sn_state a \<noteq> sn_state b)"

subsection \<open>Generating code\<close>

record code_context =
  cc_files :: "string list option"
  cc_language :: "string option"

record generate_input =
  gi_prompt :: string
  gi_context :: "code_context option"
  gi_constraints :: "json option"

definition code_context_json :: "code_context \<Rightarrow> json" where
  "code_context_json c = JObj (opt_field ''files'' (map_option jstrs (cc_files c)) @ opt_field ''language'' (map_option JStr (cc_language c)))"

definition generate_action :: "generate_input \<Rightarrow> action" where
  "generate_action g = \<lparr>a_type = ''generate'', a_payload = [(''prompt'', JStr (gi_prompt g))] @
     opt_field ''context'' (map_option code_context_json (gi_context g)) @ opt_field ''constraints'' (gi_constraints g)\<rparr>"

definition jtime :: "time \<Rightarrow> json" where
  "jtime t = JNum (of_int t)"

definition event_json :: "string \<Rightarrow> event_rec \<Rightarrow> json" where
  "event_json k e = JObj [(''id'', JStr (ev_id e)), (k, JStr (ev_hash e)), (''timestamp'', jtime (ev_time e))]"

definition crk1FromGoverned :: "governed_result \<Rightarrow> json" where
  "crk1FromGoverned g =
     (let r = gr_receipt g; l = gr_lineage g; c = gr_clg1 g
      in JObj
        [(''receipt'', JObj ([(''call_id'', JStr (kr_call r)), (''operator_id'', JStr (kr_operator r)), (''timestamp'', jtime (kr_time r)),
            (''invariant_set_version'', JStr (kr_version r)), (''mode'', JStr (kr_mode r)), (''invariants_passed'', JBool (kr_passed r))] @
            opt_field ''violation_ids'' (map_option jstrs (kr_violations r)))),
         (''lineage'', JObj [(''root_id'', JStr (li_root l)), (''entry_id'', JStr (li_entry l)), (''parent_id'', jopt_str (li_parent l)),
            (''operator_id'', JStr (li_operator l)), (''call_id'', JStr (li_call l)), (''append_hash'', JStr (li_hash l)),
            (''timestamp'', jtime (li_time l))]),
         (''ce1'', event_json ''calibration_event'' (gr_ce1 g)),
         (''crr1'', event_json ''reconstruction_hash'' (gr_crr1 g)),
         (''clg1'', JObj [(''id'', JStr (ev_id c)), (''parent_id'', jopt_str (ev_parent c)), (''append_hash'', JStr (ev_hash c)),
            (''timestamp'', jtime (ev_time c))])])"

text \<open>The context of the call: files that cannot be read are skipped.\<close>

definition resolveFileContext :: "host \<Rightarrow> code_context option \<Rightarrow> 'a work_st_scheme \<Rightarrow> predict_ctx" where
  "resolveFileContext H c s =
     \<lparr>pc_files = Some (List.map_filter (\<lambda>p. case openFile H p s of Inr f \<Rightarrow> Some f | Inl e \<Rightarrow> None)
        (or_else (Option.bind c cc_files) [])),
      pc_language = Option.bind c cc_language, pc_projectFiles = Some (wc_files (getContext H s))\<rparr>"

definition governed_context :: "host \<Rightarrow> predict_ctx \<Rightarrow> governed_ctx" where
  "governed_context H p = (let V = ev_var (w_env (h_world H)) in predict_ctx.extend p
     \<lparr>gx_operator = or_else (V ''NOVA_OPERATOR_ID'') ''agent-sdk'', gx_mode = or_else (V ''NOVA_GOVERNED_MODE'') ''predict'',
      gx_version = or_else (V ''NOVA_INVARIANT_SET'') ''K0-K12-v1'', gx_modelPath = None\<rparr>)"

datatype gen_error =
    Blocked string "receipt list"
  | Failed string

definition generateCode ::
    "host \<Rightarrow> generate_input \<Rightarrow> 'a agent_st_scheme \<Rightarrow> (gen_error + (string \<times> receipt list)) \<times> 'a agent_st_scheme" where
  "generateCode H g s =
     (let E = w_sys (h_world H); a = generate_action g
      in case validateAction E a s of
           (VFail reason v, s1) \<Rightarrow>
             (let (r, s2) = recordReceipt E a [] (blocked_opts reason) s1 in (Inl (Blocked reason [r]), emitReceipt r s2))
         | (VOk, s1) \<Rightarrow>
             (case governedPredict (world_now H s1) (gi_prompt g) (governed_context H (resolveFileContext H (gi_context g) s1)) s1 of
                (Inr x, s2) \<Rightarrow>
                  (let (r, s3) = recordReceipt E a (map iv_id (gov_invariants s2))
                         (no_opts\<lparr>ro_level := Some (if kr_passed (gr_receipt x) then ''A1'' else ''A0''), ro_crk1 := Some (crk1FromGoverned x)\<rparr>) s2
                   in (Inr (gr_output x, [r]), emitReceipt r (updateContinuity H s3)))
              | (Inl (Refused m x), s2) \<Rightarrow>
                  (let ids = or_else (kr_violations (gr_receipt x)) [];
                       (r, s3) = recordReceipt E a ids
                         ((blocked_opts (''CRK-1 violations: '' @ join '', '' ids))\<lparr>ro_crk1 := Some (crk1FromGoverned x)\<rparr>) s2
                   in (Inl (Blocked (''Generation blocked by invariant: '' @ join '', '' ids) [r]), emitReceipt r s3))
              | (Inl (Model_error e), s2) \<Rightarrow> (Inl (Failed e), s2)))"

subsection \<open>The other operations\<close>

definition context_json :: "workspace_context \<Rightarrow> json" where
  "context_json c = JObj [(''root'', JStr (wc_root c)), (''files'', jstrs (wc_files c)), (''openFiles'', jstrs (wc_open c))]"

definition plan_steps :: "string \<Rightarrow> string \<Rightarrow> string \<Rightarrow> string \<Rightarrow> plan_step list" where
  "plan_steps goal u1 u2 u3 =
     [\<lparr>ps_id = u1, ps_desc = ''Analyze workspace for: '' @ goal, ps_action = run_action [(''command'', JStr ''analyze'')]\<rparr>,
      \<lparr>ps_id = u2, ps_desc = ''Propose changes for: '' @ goal, ps_action = \<lparr>a_type = ''edit'', a_payload = [(''goal'', JStr goal)]\<rparr>\<rparr>,
      \<lparr>ps_id = u3, ps_desc = ''Verify with invariants and tests'', ps_action = run_action [(''command'', JStr ''verify'')]\<rparr>]"

definition make_plan :: "host \<Rightarrow> string \<Rightarrow> workspace_context option \<Rightarrow> 'a agent_st_scheme \<Rightarrow> (string + plan) \<times> 'a agent_st_scheme" where
  "make_plan H goal ctx s =
     (let E = w_sys (h_world H);
          a = \<lparr>a_type = ''plan'', a_payload = [(''goal'', JStr goal)] @ opt_field ''context'' (map_option context_json ctx)\<rparr>
      in case validateAction E a s of
           (VFail reason v, s1) \<Rightarrow>
             (let (r, s2) = recordReceipt E a [] ((blocked_opts reason)\<lparr>ro_level := Some ''A0''\<rparr>) s1 in (Inl reason, emitReceipt r s2))
         | (VOk, s1) \<Rightarrow>
             (let (u1, s2) = take_uuid E s1; (u2, s3) = take_uuid E s2; (u3, s4) = take_uuid E s3;
                  (r, s5) = recordReceipt E a [''plan-validated''] (no_opts\<lparr>ro_level := Some ''A1''\<rparr>) s4;
                  s6 = emitReceipt r s5;
                  (u4, s7) = take_uuid E s6; (u5, s8) = take_uuid E s7;
                  p = \<lparr>pl_id = u4, pl_steps = plan_steps goal u1 u2 u3, pl_justification = ''Governed plan for: '' @ goal, pl_receipts = [r],
                       pl_intentId = u5, pl_goal = goal, pl_evidenceRequired = True, pl_action = ''plan'',
                       pl_payload = [(''goal'', JStr goal)], pl_sandbox = True\<rparr>
              in (Inr p, emitPlan p s8)))"

definition explain :: "host \<Rightarrow> string \<Rightarrow> 'a agent_st_scheme \<Rightarrow> (string \<times> receipt) \<times> 'a agent_st_scheme" where
  "explain H topic s =
     (let E = w_sys (h_world H); a = run_action [(''command'', JStr ''explain''), (''topic'', JStr topic)];
          (_, s1) = validateAction E a s; (r, s2) = recordReceipt E a [''explain''] no_opts s1
      in ((''Governed explanation of: '' @ topic @ ''. All reasoning is receipt-backed via CRK-1.'', r), emitReceipt r s2))"

definition refactor :: "host \<Rightarrow> string \<Rightarrow> string \<Rightarrow> 'a agent_st_scheme \<Rightarrow> (string + (string \<times> string \<times> receipt)) \<times> 'a agent_st_scheme" where
  "refactor H f instructions s =
     (let E = w_sys (h_world H); a = \<lparr>a_type = ''refactor'', a_payload = [(''file'', JStr f), (''instructions'', JStr instructions)]\<rparr>
      in case validateAction E a s of
           (VFail reason v, s1) \<Rightarrow> (let (r, s2) = recordReceipt E a [] (blocked_opts reason) s1 in (Inl reason, emitReceipt r s2))
         | (VOk, s1) \<Rightarrow>
             (let (r, s2) = recordReceipt E a [''refactor-validated''] no_opts s1
              in (Inr (f, ''--- a/'' @ f @ NL @ ''+++ b/'' @ f @ NL @ ''@@ refactored per: '' @ instructions, r), emitReceipt r s2)))"

definition verify :: "host \<Rightarrow> action \<Rightarrow> 'a agent_st_scheme \<Rightarrow> (bool \<times> string option \<times> string list) \<times> 'a agent_st_scheme" where
  "verify H a s =
     (case validateAction (w_sys (h_world H)) a s of
        (VOk, s1) \<Rightarrow> ((True, None, map iv_id (gov_invariants s1)), s1)
      | (VFail reason v, s1) \<Rightarrow> ((False, Some reason, []), s1))"

definition applyPatch :: "host \<Rightarrow> string \<Rightarrow> string \<Rightarrow> 'a agent_st_scheme \<Rightarrow> (bool \<times> receipt) \<times> 'a agent_st_scheme" where
  "applyPatch H diff reason s =
     (let E = w_sys (h_world H); a = \<lparr>a_type = ''edit'', a_payload = [(''diff'', JStr diff), (''reason'', JStr reason)]\<rparr>
      in case validateAction E a s of
           (VFail why v, s1) \<Rightarrow> (let (r, s2) = recordReceipt E a [] (blocked_opts why) s1 in ((False, r), emitReceipt r s2))
         | (VOk, s1) \<Rightarrow>
             (let (r, s2) = recordReceipt E a [''patch-applied''] no_opts s1 in ((True, r), updateContinuity H (emitReceipt r s2))))"

text \<open>The executor; the diff of an edit goes to \<open>applyDiff\<close>, whose answer is dropped.\<close>

definition execute :: "host \<Rightarrow> action \<Rightarrow> 'a agent_st_scheme \<Rightarrow> (bool \<times> receipt) \<times> 'a agent_st_scheme" where
  "execute H a s =
     (let (r, s1) = recordReceipt (w_sys (h_world H)) a [''executed''] no_opts (emitAction a s)
      in ((True, r), emitReceipt r (updateContinuity H s1)))"

subsection \<open>The refinement loop\<close>

record refinement =
  rf_iteration :: nat
  rf_issue :: string
  rf_fix :: string

definition failure_line :: "test_result \<Rightarrow> string" where
  "failure_line t = ''TEST FAILED: '' @ tr_name t @ (if given_str (tr_message t) then '' '' @ em_dash @ '' '' @ the (tr_message t) else [])"

definition fix_prompt :: "string \<Rightarrow> string \<Rightarrow> string" where
  "fix_prompt issue code = ''The generated code has test failures:'' @ NL @ issue @ NL @ NL @ ''Fix the code:'' @ NL @ NL @ code"

text \<open>The tests are an argument here; \<open>refineCode\<close> runs those of the workspace.\<close>

fun refine_rounds ::
    "host \<Rightarrow> test_result list \<Rightarrow> code_context \<Rightarrow> nat \<Rightarrow> nat \<Rightarrow> string \<Rightarrow> refinement list \<Rightarrow> 'a agent_st_scheme \<Rightarrow>
     (string \<times> refinement list) \<times> 'a agent_st_scheme" where
  "refine_rounds H tests c i 0 code acc s = ((code, acc), s)"
| "refine_rounds H tests c i (Suc k) code acc s =
     (let failures = filter (\<lambda>t. \<not> tr_passed t) tests
      in if failures = [] then ((code, acc), s)
         else let issue = join NL (map failure_line failures)
              in case generateCode H \<lparr>gi_prompt = fix_prompt issue code, gi_context = Some c, gi_constraints = None\<rparr> s of
                   (Inl e, s1) \<Rightarrow> ((code, acc), s1)
                 | (Inr (fixed, _), s1) \<Rightarrow>
                     refine_rounds H tests c (Suc i) k fixed (acc @ [\<lparr>rf_iteration = Suc i, rf_issue = issue, rf_fix = fixed\<rparr>]) s1)"

definition refineCode ::
    "host \<Rightarrow> string \<Rightarrow> code_context \<Rightarrow> nat option \<Rightarrow> 'a agent_st_scheme \<Rightarrow> (gen_error + (string \<times> refinement list)) \<times> 'a agent_st_scheme" where
  "refineCode H prompt c maxIterations s =
     (case generateCode H \<lparr>gi_prompt = prompt, gi_context = Some c, gi_constraints = None\<rparr> s of
        (Inl e, s1) \<Rightarrow> (Inl e, s1)
      | (Inr (code, _), s1) \<Rightarrow>
          (let (r, s2) = refine_rounds H runTests c 0 (or_else maxIterations 3) code [] s1 in (Inr r, s2)))"

subsection \<open>The agentic loop\<close>

record tool_call =
  tc_tool :: string
  tc_args :: tool_args
  tc_result :: "tool_result option"

datatype step_status = Pending | Running | Done | FailedStep

record task_step =
  ts_id :: string
  ts_desc :: string
  ts_calls :: "tool_call list"
  ts_status :: step_status
  ts_result :: "string option"

record message =
  ms_role :: string
  ms_content :: string
  ms_time :: time

record loop_options =
  lo_retries :: "nat option"
  lo_progress :: bool

definition progress :: "loop_options \<Rightarrow> string \<Rightarrow> string \<Rightarrow> 'a agent_st_scheme \<Rightarrow> 'a agent_st_scheme" where
  "progress opts phase msg s = (if lo_progress opts then emit (Ev_progress phase msg) s else s)"

definition runToolCall ::
    "host \<Rightarrow> loop_options \<Rightarrow> tool_call \<Rightarrow> 'a agent_st_scheme \<Rightarrow> (tool_result \<times> tool_call) \<times> 'a agent_st_scheme" where
  "runToolCall H opts tc s =
     (case getTool (tc_tool tc) of
        None \<Rightarrow> ((tool_failure (''Unknown tool: '' @ tc_tool tc), tc), s)
      | Some t \<Rightarrow>
          (let (r, s1) = execute_tool H t (tc_args tc) (progress opts ''tool'' (tool_name t @ ''(...)'') s)
           in ((r, tc\<lparr>tc_result := Some r\<rparr>), s1)))"

text \<open>The attempts at one call: the error it failed with at last, if it did, and the call with its last result. The attempts that are
  left are counted down.\<close>

fun try_call ::
    "host \<Rightarrow> loop_options \<Rightarrow> nat \<Rightarrow> nat \<Rightarrow> tool_call \<Rightarrow> 'a agent_st_scheme \<Rightarrow> (string option option \<times> tool_call) \<times> 'a agent_st_scheme" where
  "try_call H opts m 0 tc s = ((None, tc), s)"
| "try_call H opts m (Suc k) tc s =
     (let ((r, tc1), s1) = runToolCall H opts tc s; attempt = m - Suc k
      in if to_success r
         then ((None, tc1), if 0 < attempt then progress opts ''retry'' (''Retry '' @ show_nat (attempt + 1) @ '' succeeded'') s1 else s1)
         else if 0 < k
         then try_call H opts m k tc1 (progress opts ''retry'' (''Attempt '' @ show_nat (attempt + 1) @ '' failed, retrying...'') s1)
         else ((Some (to_error r), tc1), s1))"

fun run_calls ::
    "host \<Rightarrow> loop_options \<Rightarrow> nat \<Rightarrow> tool_call list \<Rightarrow> 'a agent_st_scheme \<Rightarrow> (string option option \<times> tool_call list) \<times> 'a agent_st_scheme" where
  "run_calls H opts m [] s = ((None, []), s)"
| "run_calls H opts m (tc # tcs) s =
     (case try_call H opts m m tc s of
        ((Some e, tc1), s1) \<Rightarrow> ((Some e, tc1 # tcs), s1)
      | ((None, tc1), s1) \<Rightarrow> (let ((e, tcs1), s2) = run_calls H opts m tcs s1 in ((e, tc1 # tcs1), s2)))"

definition call_text :: "tool_call \<Rightarrow> string" where
  "call_text tc = (case tc_result tc of None \<Rightarrow> [] | Some r \<Rightarrow> or_else (to_output r) (or_else (to_error r) []))"

definition executeStep :: "host \<Rightarrow> loop_options \<Rightarrow> task_step \<Rightarrow> 'a agent_st_scheme \<Rightarrow> task_step \<times> 'a agent_st_scheme" where
  "executeStep H opts st s =
     (let ((e, tcs), s1) = run_calls H opts (or_else (lo_retries opts) 3) (ts_calls st) s
      in (case e of
            Some err \<Rightarrow> st\<lparr>ts_calls := tcs, ts_status := FailedStep, ts_result := err\<rparr>
          | None \<Rightarrow> st\<lparr>ts_calls := tcs, ts_status := Done, ts_result := Some (join NL (map call_text tcs))\<rparr>, s1))"

definition new_step :: "string \<Rightarrow> string \<Rightarrow> tool_call list \<Rightarrow> task_step" where
  "new_step i d tcs = \<lparr>ts_id = i, ts_desc = d, ts_calls = tcs, ts_status = Pending, ts_result = None\<rparr>"

definition mentions :: "string \<Rightarrow> string list \<Rightarrow> bool" where
  "mentions t ws = list_ex (str_includes t) ws"

definition buildPlan :: "host \<Rightarrow> string \<Rightarrow> 'a work_st_scheme \<Rightarrow> task_step list" where
  "buildPlan H task s =
     (let low = lower task
      in [new_step ''understand'' (''Explore workspace ('' @ show_nat (length (wc_files (getContext H s))) @ '' files)'')
            [\<lparr>tc_tool = ''get_context'', tc_args = [], tc_result = None\<rparr>]] @
         (if mentions low [''read'', ''find'', ''search'', ''show'', ''look'', ''open'', ''cat'']
          then [new_step ''read'' ''Read relevant files'' []] else []) @
         (if mentions low [''write'', ''create'', ''implement'', ''add'', ''generate'', ''new'']
          then [new_step ''write'' ''Write or modify files'' []] else []) @
         (if mentions low [''edit'', ''change'', ''update'', ''fix'', ''refactor'', ''rename'', ''move'']
          then [new_step ''edit'' ''Edit existing files'' []] else []) @
         (if mentions low [''run'', ''test'', ''build'', ''install'', ''deploy'', ''start'', ''exec'']
          then [new_step ''execute'' ''Run commands in the workspace'' []] else []) @
         [new_step ''verify'' ''Verify changes work correctly'' []])"

text \<open>The steps up to the first that fails, and those after it as they were.\<close>

fun run_steps :: "host \<Rightarrow> loop_options \<Rightarrow> task_step list \<Rightarrow> 'a agent_st_scheme \<Rightarrow> (bool \<times> task_step list) \<times> 'a agent_st_scheme" where
  "run_steps H opts [] s = ((True, []), s)"
| "run_steps H opts (st # sts) s =
     (let (st1, s1) = executeStep H opts st (progress opts ''step'' (ts_id st @ '': '' @ ts_desc st) s)
      in if ts_status st1 = FailedStep then ((False, st1 # sts), s1)
         else (let ((ok, sts1), s2) = run_steps H opts sts s1 in ((ok, st1 # sts1), s2)))"

record loop_result =
  lr_success :: bool
  lr_task :: string
  lr_steps :: "task_step list"
  lr_conversation :: "message list"
  lr_summary :: string

definition runAgenticLoop :: "host \<Rightarrow> string \<Rightarrow> loop_options \<Rightarrow> 'a agent_st_scheme \<Rightarrow> loop_result \<times> 'a agent_st_scheme" where
  "runAgenticLoop H task opts s =
     (let E = w_sys (h_world H);
          (t1, s1) = take_now E s;
          s2 = progress opts ''plan'' ''Building plan...'' s1;
          plan = buildPlan H task s2;
          s3 = progress opts ''plan'' (''Plan built: '' @ show_nat (length plan) @ '' steps'') s2;
          (t2, s4) = take_now E s3;
          ((ok, steps), s5) = run_steps H opts plan s4;
          summary = (if ok then ''All '' @ show_nat (length steps) @ '' steps completed successfully.''
                     else ''Failed at step: '' @ join '', '' (map ts_id (filter (\<lambda>st. ts_status st = FailedStep) steps)));
          (t3, s6) = take_now E s5
      in (\<lparr>lr_success = ok, lr_task = task, lr_steps = steps,
           lr_conversation = [\<lparr>ms_role = ''user'', ms_content = task, ms_time = t1\<rparr>,
             \<lparr>ms_role = ''assistant'', ms_content = ''Plan: '' @ join ''; '' (map (\<lambda>st. ts_id st @ '': '' @ ts_desc st) plan), ms_time = t2\<rparr>,
             \<lparr>ms_role = ''assistant'', ms_content = summary, ms_time = t3\<rparr>],
           lr_summary = summary\<rparr>, s6))"

subsection \<open>The runtime\<close>

definition new_runtime :: "'a gov_st_scheme \<Rightarrow> 'a gov_st_scheme" where
  "new_runtime s = fold requireInvariant nova_invariants s"

datatype agent_op =
    GenerateCode generate_input
  | MakePlan string "workspace_context option"
  | Explain string
  | Refactor string string
  | Verify action
  | ApplyPatch string string
  | Execute action
  | RecordReceipt action "string list" receipt_opts
  | RunTool tool tool_args
  | TakeSnapshot
  | AgenticLoop string loop_options
  | NewRuntime

text \<open>The methods of the runtime, the executor and the loop, as steps.\<close>

definition agent_step :: "host \<Rightarrow> agent_op \<Rightarrow> 'a agent_st_scheme \<Rightarrow> 'a agent_st_scheme" where
  "agent_step H op s =
     (case op of
        GenerateCode g \<Rightarrow> snd (generateCode H g s)
      | MakePlan goal ctx \<Rightarrow> snd (make_plan H goal ctx s)
      | Explain topic \<Rightarrow> snd (explain H topic s)
      | Refactor f i \<Rightarrow> snd (refactor H f i s)
      | Verify a \<Rightarrow> snd (verify H a s)
      | ApplyPatch d r \<Rightarrow> snd (applyPatch H d r s)
      | Execute a \<Rightarrow> snd (execute H a s)
      | RecordReceipt a ch o' \<Rightarrow> snd (recordReceipt (w_sys (h_world H)) a ch o' s)
      | RunTool t args \<Rightarrow> snd (execute_tool H t args s)
      | TakeSnapshot \<Rightarrow> snd (take_snapshot H s)
      | AgenticLoop task opts \<Rightarrow> snd (runAgenticLoop H task opts s)
      | NewRuntime \<Rightarrow> new_runtime s)"

subsection \<open>What the operations keep\<close>

text \<open>The receipts only grow, and stay a chain.\<close>

definition receipts_grow :: "'a gov_st_scheme \<Rightarrow> 'a gov_st_scheme \<Rightarrow> bool" where
  "receipts_grow s s' \<longleftrightarrow> prefix (receipts s) (receipts s') \<and> (receipts_linked (receipts s) \<longrightarrow> receipts_linked (receipts s'))"

definition agent_rel :: "'a agent_st_scheme \<Rightarrow> 'a agent_st_scheme \<Rightarrow> bool" where
  "agent_rel s s' \<longleftrightarrow> receipts_grow s s' \<and> disk s' = disk s \<and> workspaceRoot s' = workspaceRoot s"

lemma grow_same: "receipts s' = receipts s \<Longrightarrow> receipts_grow s s'"
  by (simp add: receipts_grow_def)

lemma grow_trans: "receipts_grow s t \<Longrightarrow> receipts_grow t u \<Longrightarrow> receipts_grow s u"
  by (auto simp: receipts_grow_def intro: prefix_order.trans)

lemma grow_record: "receipts_grow s (snd (recordReceipt E a ch op s))"
  by (simp add: receipts_grow_def linked_snoc)

lemma receipts_updates [simp]:
  "receipts (s\<lparr>tick := n\<rparr>) = receipts s" "receipts (s\<lparr>gov_continuity := c\<rparr>) = receipts s"
  "receipts (s\<lparr>gov_invariants := i\<rparr>) = receipts s" "receipts (s\<lparr>gov_violations := v\<rparr>) = receipts s"
  by (simp_all add: receipts_def ensureLoaded_def)

lemma receipts_predict [simp]:
  "receipts ((s :: 'a router_st_scheme)\<lparr>last_selection := x\<rparr>) = receipts s"
  "receipts ((t :: 'b predict_st_scheme)\<lparr>genesisRootId := y, lastEntryId := z, lineageLog := l\<rparr>) = receipts t"
  "receipts ((u :: 'c agent_st_scheme)\<lparr>heard := h\<rparr>) = receipts u"
  "receipts ((u :: 'c agent_st_scheme)\<lparr>snapshots := sn\<rparr>) = receipts u"
  by (simp_all add: receipts_def ensureLoaded_def)

lemma grow_select: "receipts_grow s (snd (selectModel E V t op s))"
  by (auto simp: selectModel_def emitModelSelectionReceipt_def Let_def case_prod_beta receipts_grow_def linked_snoc split: sum.split)

lemma tick_receipts: "only_tick s s' \<Longrightarrow> receipts s' = receipts s"
  unfolding only_tick_def by (erule ssubst) simp

lemma grow_local: "receipts_grow s (snd (localPredict W input mp t c s))"
proof (cases "hasRemote (w_env W)")
  case remote: True
  obtain r s1 where sel: "selectModel (w_sys W) (w_env W) (or_else t T_code) default_options s = (r, s1)" by fastforce
  then have s1: "receipts_grow s s1" using grow_select [of s "w_sys W" "w_env W" "or_else t T_code" default_options] by simp
  show ?thesis
  proof (cases r)
    case (Inr cfg)
    have "receipts (snd (llmGenerate h m cfg input g s1)) = receipts s1" for h m g
      by (rule tick_receipts [OF llmGenerate_state])
    with remote sel Inr s1 show ?thesis
      by (auto simp: localPredict_def case_prod_beta receipts_grow_def split: sum.split)
  qed (use remote sel s1 in \<open>simp add: localPredict_def\<close>)
qed (simp add: localPredict_def Let_def receipts_grow_def)

lemma grow_governed_record: "receipts_grow s (snd (governed_record E g vs payload input body s))"
proof (rule grow_same)
  obtain r s' where "governed_record E g vs payload input body s = (r, s')" by fastforce
  with governed_record_spec(10) [OF this] show "receipts (snd (governed_record E g vs payload input body s)) = receipts s" by simp
qed

lemma grow_governed: "receipts_grow s (snd (governedPredict W input g s))"
proof (cases "runPreCallInvariants \<lparr>kc_input = input, kc_operator = gx_operator g, kc_mode = gx_mode g\<rparr> = []")
  case True
  obtain q s1 where lp: "localPredict W input (or_else (gx_modelPath g) DEFAULT_MODEL_PATH) None (predict_ctx.truncate g) s = (q, s1)"
    by fastforce
  then have "receipts_grow s s1"
    using grow_local [of s W input "or_else (gx_modelPath g) DEFAULT_MODEL_PATH" None "predict_ctx.truncate g"] by simp
  with True lp grow_trans [OF this grow_governed_record] show ?thesis
    by (cases q) (simp_all add: governedPredict_def Let_def case_prod_beta)
qed (simp add: governedPredict_def Let_def case_prod_beta grow_governed_record)

subsection \<open>Each operation keeps files and chain\<close>

named_theorems kept \<open>steps that keep files and chain\<close>

lemma rel_refl [kept]: "agent_rel s s"
  by (simp add: agent_rel_def receipts_grow_def)

lemma rel_trans: "agent_rel s t \<Longrightarrow> agent_rel t u \<Longrightarrow> agent_rel s u"
  by (auto simp: agent_rel_def intro: grow_trans)

lemma rel_emit [kept]: "agent_rel s t \<Longrightarrow> agent_rel s (emit e t)"
  by (auto simp: agent_rel_def emit_def receipts_grow_def)

lemma rel_progress [kept]: "agent_rel s t \<Longrightarrow> agent_rel s (progress o' p m t)"
  by (simp add: progress_def rel_emit)

lemma rel_tick [kept]: "agent_rel s t \<Longrightarrow> agent_rel s (snd (take_uuid E t))" "agent_rel s t \<Longrightarrow> agent_rel s (snd (take_now E t))"
  by (auto simp: agent_rel_def receipts_grow_def take_uuid_def take_now_def)

lemma rel_continuity [kept]: "agent_rel s t \<Longrightarrow> agent_rel s (updateContinuity H t)"
  by (auto simp: agent_rel_def receipts_grow_def updateContinuity_def)

lemma validate_root [simp]: "workspaceRoot (snd (validateAction E a s)) = workspaceRoot (s :: 'a work_st_scheme)"
proof -
  obtain n vs where "snd (validateAction E a s) = s\<lparr>tick := n, gov_violations := gov_violations s @ vs\<rparr>"
    using validateAction_effect by blast
  then show ?thesis by simp
qed

lemma record_root [simp]: "workspaceRoot (snd (recordReceipt E a ch op s)) = workspaceRoot (s :: 'a work_st_scheme)"
proof -
  obtain n l w where "snd (recordReceipt E a ch op s) = s\<lparr>tick := n, gov_ledger := l, gov_wal := w, gov_loaded := True\<rparr>"
    using recordReceipt_state by blast
  then show ?thesis by simp
qed

lemma rel_validate [kept]: "agent_rel s t \<Longrightarrow> agent_rel s (snd (validateAction E a t))"
  by (auto simp: agent_rel_def receipts_grow_def)

lemma rel_record [kept]: "agent_rel s t \<Longrightarrow> agent_rel s (snd (recordReceipt E a ch op t))"
  by (auto simp: agent_rel_def intro: grow_trans grow_record)

lemma only_router_files:
  fixes s s' :: "'a work_st_scheme"
  shows "only_router s s' \<Longrightarrow> disk s' = disk s" "only_router s s' \<Longrightarrow> workspaceRoot s' = workspaceRoot s"
  by (unfold only_router_def; erule ssubst; simp)+

lemma governed_files:
  "disk (snd (governedPredict W input g s)) = disk (s :: 'a work_st_scheme)"
  "workspaceRoot (snd (governedPredict W input g s)) = workspaceRoot s"
proof -
  obtain r s' where r: "governedPredict W input g s = (r, s')" by fastforce
  have "disk s' = disk s \<and> workspaceRoot s' = workspaceRoot s"
    using r refl
  proof (cases rule: governedPredict_cases)
    case (refused x pre payload)
    then show ?thesis using governed_record_spec(10) [OF refused(3)] by simp
  next
    case (failed e)
    then show ?thesis using only_router_files [OF failed(2)] by simp
  next
    case (answered out s1 post payload x)
    then show ?thesis using only_router_files [OF answered(2)] governed_record_spec(10) [OF answered(4)] by simp
  qed
  with r show "disk (snd (governedPredict W input g s)) = disk s" "workspaceRoot (snd (governedPredict W input g s)) = workspaceRoot s"
    by simp_all
qed

lemma rel_governed [kept]: "agent_rel s t \<Longrightarrow> agent_rel s (snd (governedPredict W input g t))"
  by (auto simp: agent_rel_def governed_files intro: grow_trans grow_governed)

lemma rel_generate [kept]: "agent_rel s t \<Longrightarrow> agent_rel s (snd (generateCode H g t))"
  by (simp add: generateCode_def Let_def case_prod_beta kept emitReceipt_def
      split: verdict.split sum.split predict_error.split prod.split)

lemma rel_make_plan [kept]: "agent_rel s t \<Longrightarrow> agent_rel s (snd (make_plan H goal ctx t))"
  by (simp add: make_plan_def Let_def case_prod_beta kept emitReceipt_def emitPlan_def split: verdict.split)

lemma rel_explain [kept]: "agent_rel s t \<Longrightarrow> agent_rel s (snd (explain H topic t))"
  by (simp add: explain_def Let_def case_prod_beta kept emitReceipt_def)

lemma rel_refactor [kept]: "agent_rel s t \<Longrightarrow> agent_rel s (snd (refactor H f i t))"
  by (simp add: refactor_def Let_def case_prod_beta kept emitReceipt_def split: verdict.split)

lemma rel_verify [kept]: "agent_rel s t \<Longrightarrow> agent_rel s (snd (verify H a t))"
  by (simp add: verify_def Let_def case_prod_beta kept split: verdict.split)

lemma rel_applyPatch [kept]: "agent_rel s t \<Longrightarrow> agent_rel s (snd (applyPatch H d r t))"
  by (simp add: applyPatch_def Let_def case_prod_beta kept emitReceipt_def split: verdict.split)

lemma rel_execute [kept]: "agent_rel s t \<Longrightarrow> agent_rel s (snd (execute H a t))"
  by (simp add: execute_def Let_def case_prod_beta kept emitReceipt_def emitAction_def)

lemma rel_tool_call [kept]: "agent_rel s t \<Longrightarrow> agent_rel s (snd (governedToolCall H name args fn t))"
proof -
  assume st: "agent_rel s t"
  obtain reason where "snd (governedToolCall H name args fn t) =
      snd (recordReceipt (w_sys (h_world H)) (run_action [(''tool'', JStr name), (''args'', JObj args)]) [] (blocked_opts reason)
        (snd (validateAction (w_sys (h_world H)) (run_action [(''tool'', JStr name), (''args'', JObj args)]) t)))"
    using governedToolCall_blocked [of H name args fn t] by auto
  with st show ?thesis by (simp add: kept)
qed

lemma rel_tool [kept]: "agent_rel s t \<Longrightarrow> agent_rel s (snd (execute_tool H u args t))"
  by (cases u) (simp_all add: Let_def kept)

lemma tool_fails: "\<not> to_success (fst (execute_tool H t args s))"
  by (cases t) (simp_all add: governedToolCall_fails Let_def missing_def tool_failure_def)

lemma runToolCall_fails: "\<not> to_success (fst (fst (runToolCall H opts tc s)))"
  using tool_fails by (auto simp: runToolCall_def tool_failure_def case_prod_beta split: option.split)

lemma rel_runToolCall [kept]: "agent_rel s t \<Longrightarrow> agent_rel s (snd (runToolCall H opts tc t))"
  by (simp add: runToolCall_def Let_def case_prod_beta kept split: option.split)

lemma rel_try_call [kept]: "agent_rel s t \<Longrightarrow> agent_rel s (snd (try_call H opts m k tc t))"
  by (induction k arbitrary: tc t) (simp_all add: Let_def case_prod_beta kept)

lemma rel_run_calls [kept]: "agent_rel s t \<Longrightarrow> agent_rel s (snd (run_calls H opts m tcs t))"
proof (induction tcs arbitrary: t)
  case (Cons tc tcs)
  then have "agent_rel s (snd (try_call H opts m m tc t))" by (simp add: kept)
  with Cons.IH show ?case by (auto simp: case_prod_beta split: prod.split option.split)
qed (simp add: kept)

lemma rel_step [kept]: "agent_rel s t \<Longrightarrow> agent_rel s (snd (executeStep H opts st t))"
  by (simp add: executeStep_def Let_def case_prod_beta kept)

lemma rel_run_steps [kept]: "agent_rel s t \<Longrightarrow> agent_rel s (snd (run_steps H opts sts t))"
  by (induction sts arbitrary: t) (simp_all add: Let_def case_prod_beta kept)

lemma rel_loop [kept]: "agent_rel s t \<Longrightarrow> agent_rel s (snd (runAgenticLoop H task opts t))"
  by (simp add: runAgenticLoop_def Let_def case_prod_beta kept)

lemma rel_snapshot [kept]: "agent_rel s t \<Longrightarrow> agent_rel s (snd (take_snapshot H t))"
  by (auto simp: take_snapshot_def Let_def take_uuid_def take_now_def agent_rel_def receipts_grow_def)

lemma rel_require [kept]: "agent_rel s t \<Longrightarrow> agent_rel s (requireInvariant iv t)"
  by (auto simp: requireInvariant_def agent_rel_def receipts_grow_def)

lemma rel_runtime [kept]: "agent_rel s t \<Longrightarrow> agent_rel s (new_runtime t)"
  by (simp add: new_runtime_def nova_invariants_def kept)

lemma agent_step_rel: "agent_rel s (agent_step H op s)"
  by (cases op) (simp_all add: agent_step_def kept)

interpretation agent: audited_machine "agent_step H" "\<lambda>s. disk s = d \<and> workspaceRoot s = w \<and> receipts_linked (receipts s)" receipts
  using agent_step_rel by unfold_locales (auto simp: agent_rel_def receipts_grow_def)

lemma governed_invariants: "gov_invariants (snd (governedPredict W input g s)) = gov_invariants s"
proof -
  obtain r s' where r: "governedPredict W input g s = (r, s')" by fastforce
  then have "gov_invariants s' = gov_invariants s"
  proof (cases rule: governedPredict_cases [OF r refl, case_names refused failed answered])
    case (refused x pre payload)
    then show ?thesis using governed_record_spec(10) [OF refused(3)] by simp
  next
    case (failed e)
    then show ?thesis using only_router_frame [OF failed(2)] by simp
  next
    case (answered out s1 post payload x)
    then show ?thesis using only_router_frame [OF answered(2)] governed_record_spec(10) [OF answered(4)] by simp
  qed
  with r show ?thesis by simp
qed

lemma governed_outcome:
  assumes "governedPredict W input g s = (r, s')"
  shows "r = Inr x \<Longrightarrow> k_admits (gx_operator g) (gx_mode g) input \<and> k_admits (gx_operator g) (gx_mode g) (gr_output x)"
    "r = Inl (Model_error e) \<Longrightarrow> lineageLog s' = lineageLog s"
proof -
  show "k_admits (gx_operator g) (gx_mode g) input \<and> k_admits (gx_operator g) (gx_mode g) (gr_output x)" if "r = Inr x"
  proof (cases rule: governedPredict_cases [OF assms refl, case_names refused failed answered])
    case (answered out s1 post payload y)
    with that governed_record_spec(1) [OF answered(4)] show ?thesis by (auto simp: pre_empty post_empty split: if_splits)
  qed (use that in auto)
  show "lineageLog s' = lineageLog s" if "r = Inl (Model_error e)"
  proof (cases rule: governedPredict_cases [OF assms refl, case_names refused failed answered])
    case (failed e)
    then show ?thesis using only_router_lineage by blast
  qed (use that in \<open>auto split: if_splits\<close>)
qed

lemma lineage_record [simp]: "lineageLog (snd (recordReceipt E a ch op s)) = lineageLog (s :: 'a predict_st_scheme)"
proof -
  obtain n l w where "snd (recordReceipt E a ch op s) = s\<lparr>tick := n, gov_ledger := l, gov_wal := w, gov_loaded := True\<rparr>"
    using recordReceipt_state by blast
  then show ?thesis by simp
qed

lemma record_facts:
  "receipts (snd (recordReceipt E a ch op s)) = receipts s @ [fst (recordReceipt E a ch op s)]"
  "g_action (fst (recordReceipt E a ch op s)) = a" "g_blocked (fst (recordReceipt E a ch op s)) = ro_blocked op"
  using recordReceipt_effect [of E a ch op s] by auto

lemma receipts_after [simp]:
  "receipts (emitReceipt r t) = receipts t" "receipts (updateContinuity H t) = receipts t"
  "lineageLog (emitReceipt r t) = lineageLog t"
  by (simp_all add: emitReceipt_def emit_def updateContinuity_def)

lemma refine_rounds_passing: "list_all tr_passed tests \<Longrightarrow> refine_rounds H tests c i k code acc s = ((code, acc), s)"
  by (cases k) (simp_all add: filter_False list_all_iff)

subsection \<open>The loop\<close>

lemma getTool_context: "getTool ''get_context'' = Some GetContext"
  by (simp add: getTool_def allTools_def)

lemma progress_receipts [simp]: "receipts (progress opts p m s) = receipts s"
  by (simp add: progress_def emit_def)

lemma run_context:
  assumes "tc_tool tc = ''get_context''"
  shows "\<exists>r. receipts (snd (runToolCall H opts tc s)) = receipts s @ [r] \<and> g_blocked r = Some True"
    "tc_tool (snd (fst (runToolCall H opts tc s))) = ''get_context''"
  using governedToolCall_fails [of H "''get_context''" "[]" "get_context H" "progress opts ''tool'' (tool_name GetContext @ ''(...)'') s"] assms
  by (auto simp: runToolCall_def getTool_context Let_def case_prod_beta)

text \<open>Every attempt at the first call fails, with one blocked receipt.\<close>

lemma try_context:
  assumes "tc_tool tc = ''get_context''"
  shows "\<exists>e tc' s' rs. try_call H opts m (Suc k) tc s = ((Some e, tc'), s') \<and> receipts s' = receipts s @ rs \<and> length rs = Suc k \<and>
     list_all (\<lambda>r. g_blocked r = Some True) rs"
  using assms
proof (induction k arbitrary: tc s)
  case 0
  then show ?case using run_context(1) [OF 0, of H opts s] runToolCall_fails [of H opts tc s]
    by (auto simp: Let_def case_prod_beta)
next
  case (Suc k)
  obtain r tc1 s1 where r: "runToolCall H opts tc s = ((r, tc1), s1)" by (metis prod.collapse)
  let ?s2 = "progress opts ''retry'' (''Attempt '' @ show_nat (m - Suc (Suc k) + 1) @ '' failed, retrying...'') s1"
  obtain x where x: "receipts s1 = receipts s @ [x]" "g_blocked x = Some True" "tc_tool tc1 = ''get_context''"
    using run_context [OF Suc.prems, of H opts s] r by auto
  obtain e tc' s' rs where "try_call H opts m (Suc k) tc1 ?s2 = ((Some e, tc'), s')" "receipts s' = receipts s1 @ rs" "length rs = Suc k"
    "list_all (\<lambda>r. g_blocked r = Some True) rs"
    using Suc.IH [OF x(3), of ?s2] by auto
  moreover have "try_call H opts m (Suc (Suc k)) tc s = try_call H opts m (Suc k) tc1 ?s2"
    using runToolCall_fails [of H opts tc s] r by (subst try_call.simps) (simp add: Let_def)
  ultimately show ?case using x by (intro exI [of _ e] exI [of _ tc'] exI [of _ s'] exI [of _ "x # rs"]) simp
qed

definition idle :: "task_step \<Rightarrow> bool" where
  "idle st \<longleftrightarrow> ts_calls st = [] \<and> ts_status st = Pending"

text \<open>A step without calls is done as soon as it runs.\<close>

lemma run_idle:
  "list_all idle sts \<Longrightarrow> fst (fst (run_steps H opts sts s)) \<and> receipts (snd (run_steps H opts sts s)) = receipts s \<and>
     map ts_status (snd (fst (run_steps H opts sts s))) = replicate (length sts) Done"
proof (induction sts arbitrary: s)
  case (Cons st sts)
  let ?s = "progress opts ''step'' (ts_id st @ '': '' @ ts_desc st) s"
  have "executeStep H opts st ?s = (st\<lparr>ts_calls := [], ts_status := Done, ts_result := Some []\<rparr>, ?s)"
    using Cons.prems by (simp add: executeStep_def idle_def)
  with Cons.IH [of ?s] Cons.prems show ?case by (simp add: Let_def case_prod_beta)
qed simp

lemma buildPlan_shape:
  "\<exists>st sts. buildPlan H task s = st # sts \<and> list_all idle sts \<and> ts_id st = ''understand'' \<and>
     ts_calls st = [\<lparr>tc_tool = ''get_context'', tc_args = [], tc_result = None\<rparr>] \<and> ts_status st = Pending"
  by (auto simp: buildPlan_def Let_def new_step_def idle_def)

lemma filter_idle: "list_all idle sts \<Longrightarrow> filter (\<lambda>st. ts_status st = FailedStep) sts = []"
  by (auto simp: filter_empty_conv list_all_iff idle_def)

subsection \<open>Properties\<close>

text \<open>Over any sequence of operations of the agent, its runtime, tools and loops: no file of the workspace changes, the
  receipts only grow, and they stay a hash chain.\<close>

theorem agent_history:
  assumes "receipts_linked (receipts s)"
  shows "disk (fold (agent_step H) ops s) = disk s \<and> receipts_linked (receipts (fold (agent_step H) ops s)) \<and>
     prefix (receipts (fold (agent_step H) ops s)) (receipts (fold (agent_step H) (ops @ later) s))"
  using agent.run_inv [of s "disk s" "workspaceRoot s" H ops] agent.run_log [of "fold (agent_step H) ops s" H later] assms by simp

definition demo_agent :: agent_st where
  "demo_agent = work_st.extend demo_work \<lparr>snapshots = [], heard = []\<rparr>"

lemma demo_agent_receipts [simp]: "receipts demo_agent = []"
  by (simp add: receipts_def ensureLoaded_def demo_agent_def demo_work_def demo_predict_def work_st.defs predict_st.defs)

theorem agent_history_witness:
  "receipts_linked (receipts (fold (agent_step demo_host) [NewRuntime, Explain ''x'', RunTool GetContext []] demo_agent))"
  using agent_history [of demo_agent demo_host "[NewRuntime, Explain ''x'', RunTool GetContext []]"] by simp

text \<open>C25. Which operations can pass the validation. A plan or a refactoring is always refused, whatever the invariants, since its action
  carries no evidence; an explanation and an execution are recorded as not blocked although the first
  always fails its validation and the second has none; a patch is accepted exactly when its text is not empty and every
  serious invariant, of at least one, holds of it.\<close>

theorem agent_operations_outcome:
  "(\<exists>e. fst (make_plan H goal ctx s) = Inl e) \<and> (\<exists>e. fst (refactor H f i s) = Inl e) \<and>
   (let r = snd (fst (explain H topic s))
    in receipts (snd (explain H topic s)) = receipts s @ [r] \<and> g_blocked r = None \<and> fst (validateAction E (g_action r) s) \<noteq> VOk) \<and>
   (let r = snd (fst (execute H a s))
    in fst (fst (execute H a s)) \<and> receipts (snd (execute H a s)) = receipts s @ [r] \<and> g_blocked r = None \<and> g_action r = a) \<and>
   (fst (fst (applyPatch H d why s)) \<longleftrightarrow> d \<noteq> [] \<and> gov_invariants s \<noteq> [] \<and>
      (\<forall>iv\<in>set (gov_invariants s). serious (iv_severity iv) \<longrightarrow>
        iv_check iv (buildState \<lparr>a_type = ''edit'', a_payload = [(''diff'', JStr d), (''reason'', JStr why)]\<rparr>)))"
proof (intro conjI)
  have none: "fst (validateAction E' a' s') \<noteq> VOk" if "\<not> has_evidence a'" for E' a' and s' :: "'a agent_st_scheme"
    using that validateAction_ok [of E' a' s'] by simp
  have "\<not> has_evidence \<lparr>a_type = ''plan'', a_payload = [(''goal'', JStr goal)] @ opt_field ''context'' (map_option context_json ctx)\<rparr>"
    by (cases ctx) (simp_all add: has_evidence_def jget_str_def jget_def nonempty_def opt_field_def)
  from none [OF this, of "w_sys (h_world H)" s] show "\<exists>e. fst (make_plan H goal ctx s) = Inl e"
    by (simp add: make_plan_def Let_def case_prod_beta split: verdict.split)
  have "\<not> has_evidence \<lparr>a_type = ''refactor'', a_payload = [(''file'', JStr f), (''instructions'', JStr i)]\<rparr>"
    by (simp add: has_evidence_def jget_str_def jget_def nonempty_def)
  from none [OF this, of "w_sys (h_world H)" s] show "\<exists>e. fst (refactor H f i s) = Inl e"
    by (simp add: refactor_def Let_def case_prod_beta split: verdict.split)
  let ?x = "run_action [(''command'', JStr ''explain''), (''topic'', JStr topic)]"
  have "\<not> has_evidence ?x" by (simp add: has_evidence_def run_action_def jget_str_def jget_def nonempty_def)
  from none [OF this, of E s] show "let r = snd (fst (explain H topic s))
    in receipts (snd (explain H topic s)) = receipts s @ [r] \<and> g_blocked r = None \<and> fst (validateAction E (g_action r) s) \<noteq> VOk"
    using recordReceipt_effect [of "w_sys (h_world H)" ?x "[''explain'']" no_opts "snd (validateAction (w_sys (h_world H)) ?x s)"]
    by (auto simp: explain_def Let_def case_prod_beta emitReceipt_def emit_def no_opts_def)
  show "let r = snd (fst (execute H a s))
    in fst (fst (execute H a s)) \<and> receipts (snd (execute H a s)) = receipts s @ [r] \<and> g_blocked r = None \<and> g_action r = a"
  proof -
    have "receipts (emitAction a s) = receipts s" by (simp add: emitAction_def emit_def)
    then show ?thesis
      using recordReceipt_effect [of "w_sys (h_world H)" a "[''executed'']" no_opts "emitAction a s"]
      by (auto simp: execute_def Let_def case_prod_beta emitReceipt_def emit_def updateContinuity_def no_opts_def)
  qed
  let ?p = "\<lparr>a_type = ''edit'', a_payload = [(''diff'', JStr d), (''reason'', JStr why)]\<rparr>"
  have "has_evidence ?p \<longleftrightarrow> d \<noteq> []" by (auto simp: has_evidence_def jget_str_def jget_def nonempty_def)
  then show "fst (fst (applyPatch H d why s)) \<longleftrightarrow> d \<noteq> [] \<and> gov_invariants s \<noteq> [] \<and>
      (\<forall>iv\<in>set (gov_invariants s). serious (iv_severity iv) \<longrightarrow> iv_check iv (buildState ?p))"
    using validateAction_ok [of "w_sys (h_world H)" ?p s]
    by (auto simp: applyPatch_def Let_def case_prod_beta split: verdict.split_asm verdict.split)
qed

theorem agent_operations_witness:
  "fst (fst (applyPatch demo_host ''x'' ''why''
     (demo_agent\<lparr>gov_invariants := [\<lparr>iv_id = ''i'', iv_desc = ''d'', iv_severity = SevCritical, iv_check = (\<lambda>_. True), iv_inas = None\<rparr>]\<rparr>)))"
  using agent_operations_outcome [of demo_host "[]" None
      "demo_agent\<lparr>gov_invariants := [\<lparr>iv_id = ''i'', iv_desc = ''d'', iv_severity = SevCritical, iv_check = (\<lambda>_. True), iv_inas = None\<rparr>]\<rparr>"
      "[]" "[]" "[]" demo_env "run_action []" "''x''" "''why''"] by simp

text \<open>What generating code returns. Code comes back only for a prompt that is not empty, that every serious registered
  invariant, of at least one, accepts, and that passes the checks of the governed prediction, as the code does; then the
  last receipt is the one returned and is not blocked. A refusal returns one blocked receipt, the last of
  the ledger. When the model fails, the error is passed on with no lineage entry and no receipt of the generation. The
  refinement loop never refines: the tests of the workspace always pass.\<close>

theorem generation_outcome:
  assumes "generateCode H g s = (r, s')"
    and "V = ev_var (w_env (h_world H))" and "op = or_else (V ''NOVA_OPERATOR_ID'') ''agent-sdk''"
    and "mode = or_else (V ''NOVA_GOVERNED_MODE'') ''predict''"
  shows "(\<forall>c rs. r = Inr (c, rs) \<longrightarrow> gi_prompt g \<noteq> [] \<and> gov_invariants s \<noteq> [] \<and>
            (\<forall>iv\<in>set (gov_invariants s). serious (iv_severity iv) \<longrightarrow> iv_check iv (buildState (generate_action g))) \<and>
            k_admits op mode (gi_prompt g) \<and> k_admits op mode c \<and>
            (\<exists>x. rs = [x] \<and> last (receipts s') = x \<and> g_blocked x = None \<and> g_action x = generate_action g)) \<and>
     (\<forall>m rs. r = Inl (Blocked m rs) \<longrightarrow> (\<exists>x. rs = [x] \<and> last (receipts s') = x \<and> g_blocked x = Some True \<and> g_action x = generate_action g)) \<and>
     (\<forall>e. r = Inl (Failed e) \<longrightarrow> lineageLog s' = lineageLog s) \<and>
     fst (refineCode H (gi_prompt g) c n t) = (case fst (generateCode H \<lparr>gi_prompt = gi_prompt g, gi_context = Some c, gi_constraints = None\<rparr> t) of
        Inl e \<Rightarrow> Inl e | Inr (code, _) \<Rightarrow> Inr (code, []))"
proof (intro conjI)
  let ?E = "w_sys (h_world H)" and ?a = "generate_action g"
  obtain v s1 where v: "validateAction ?E ?a s = (v, s1)" by fastforce
  let ?x = "governed_context H (resolveFileContext H (gi_context g) s1)"
  obtain q s2 where q: "governedPredict (world_now H s1) (gi_prompt g) ?x s1 = (q, s2)" by fastforce
  have x: "gx_operator ?x = op" "gx_mode ?x = mode"
    using assms(2-4) by (simp_all add: governed_context_def Let_def predict_ctx.defs)
  have s1: "gov_invariants s1 = gov_invariants s" "lineageLog s1 = lineageLog s"
    using v validateAction_frame(6) [where E = ?E and a = ?a and s = s] validate_disk(2) [where E = ?E and a = ?a and s = s] by simp_all
  have ok: "gi_prompt g \<noteq> [] \<and> gov_invariants s \<noteq> [] \<and>
      (\<forall>iv\<in>set (gov_invariants s). serious (iv_severity iv) \<longrightarrow> iv_check iv (buildState ?a))" if "v = VOk"
  proof -
    have "has_evidence ?a \<Longrightarrow> gi_prompt g \<noteq> []"
      by (cases "gi_context g"; cases "gi_constraints g")
        (auto simp: has_evidence_def generate_action_def jget_str_def jget_def nonempty_def opt_field_def)
    with validateAction_ok [of ?E ?a s] v that show ?thesis by simp
  qed
  show "\<forall>c rs. r = Inr (c, rs) \<longrightarrow> gi_prompt g \<noteq> [] \<and> gov_invariants s \<noteq> [] \<and>
      (\<forall>iv\<in>set (gov_invariants s). serious (iv_severity iv) \<longrightarrow> iv_check iv (buildState ?a)) \<and>
      k_admits op mode (gi_prompt g) \<and> k_admits op mode c \<and>
      (\<exists>x. rs = [x] \<and> last (receipts s') = x \<and> g_blocked x = None \<and> g_action x = ?a)"
    using assms(1) v q ok governed_outcome(1) [OF q] x
    by (auto simp: generateCode_def Let_def case_prod_beta record_facts no_opts_def split: verdict.splits sum.splits predict_error.splits)
  show "\<forall>m rs. r = Inl (Blocked m rs) \<longrightarrow> (\<exists>x. rs = [x] \<and> last (receipts s') = x \<and> g_blocked x = Some True \<and> g_action x = ?a)"
    using assms(1) v q
    by (auto simp: generateCode_def Let_def case_prod_beta record_facts no_opts_def blocked_opts_def split: verdict.splits sum.splits predict_error.splits)
  show "\<forall>e. r = Inl (Failed e) \<longrightarrow> lineageLog s' = lineageLog s"
    using assms(1) v q s1 governed_outcome(2) [OF q]
    by (auto simp: generateCode_def Let_def case_prod_beta split: verdict.splits sum.splits predict_error.splits)
  show "fst (refineCode H (gi_prompt g) c n t) = (case fst (generateCode H \<lparr>gi_prompt = gi_prompt g, gi_context = Some c, gi_constraints = None\<rparr> t) of
        Inl e \<Rightarrow> Inl e | Inr (code, _) \<Rightarrow> Inr (code, []))"
    by (simp add: refineCode_def refine_rounds_passing runTests_def split: prod.split sum.split)
qed

theorem generation_outcome_witness:
  "g_blocked (last (receipts (snd (generateCode demo_host \<lparr>gi_prompt = [], gi_context = None, gi_constraints = None\<rparr> demo_agent)))) = Some True"
proof -
  let ?g = "\<lparr>gi_prompt = [], gi_context = None, gi_constraints = None\<rparr>"
  let ?r = "generateCode demo_host ?g demo_agent"
  have "\<not> has_evidence (generate_action ?g)"
    by (simp add: has_evidence_def generate_action_def jget_str_def jget_def nonempty_def opt_field_def)
  then have "\<exists>m rs. fst ?r = Inl (Blocked m rs)"
    using validateAction_ok [of "w_sys (h_world demo_host)" "generate_action ?g" demo_agent]
    by (simp add: generateCode_def Let_def case_prod_beta split: verdict.split)
  then show ?thesis
    using generation_outcome [of demo_host ?g demo_agent "fst ?r" "snd ?r", OF _ refl refl refl,
        where c = "\<lparr>cc_files = None, cc_language = None\<rparr>" and n = None and t = demo_agent] by auto
qed

text \<open>The agentic loop ends for every task, and never does anything: with at least one attempt for a step it fails at the
  first step, the look at the workspace, after as many blocked receipts as attempts and leaves the other steps
  pending; with no attempts it reports that all steps completed, without a single tool call. No other step of
  a plan has a tool call at all.\<close>

theorem agentic_loop_outcome:
  assumes "runAgenticLoop H task opts s = (r, s')"
  shows "disk s' = disk s \<and> (\<exists>n. length (lr_steps r) = Suc n \<and>
     (if or_else (lo_retries opts) 3 = 0
      then lr_success r \<and> receipts s' = receipts s \<and> map ts_status (lr_steps r) = replicate (Suc n) Done
      else \<not> lr_success r \<and> lr_summary r = ''Failed at step: understand'' \<and> map ts_status (lr_steps r) = FailedStep # replicate n Pending \<and>
        (\<exists>rs. receipts s' = receipts s @ rs \<and> length rs = or_else (lo_retries opts) 3 \<and> list_all (\<lambda>x. g_blocked x = Some True) rs)))"
proof -
  let ?m = "or_else (lo_retries opts) 3" and ?E = "w_sys (h_world H)"
  define s2 where "s2 = progress opts ''plan'' ''Building plan...'' (snd (take_now ?E s))"
  obtain st sts where p: "buildPlan H task s2 = st # sts" "list_all idle sts" "ts_id st = ''understand''"
    "ts_calls st = [\<lparr>tc_tool = ''get_context'', tc_args = [], tc_result = None\<rparr>]" "ts_status st = Pending"
    using buildPlan_shape by blast
  define s4 where "s4 = snd (take_now ?E (progress opts ''plan'' (''Plan built: '' @ show_nat (length (st # sts)) @ '' steps'') s2))"
  have rec: "receipts s4 = receipts s" by (simp add: s4_def s2_def take_now_def)
  obtain okk steps s5 where run: "run_steps H opts (st # sts) s4 = ((okk, steps), s5)" by (metis prod.collapse)
  have r: "lr_success r = okk" "lr_steps r = steps" "receipts s' = receipts s5" "lr_summary r = (if okk then ''All '' @ show_nat (length steps) @ '' steps completed successfully.''
      else ''Failed at step: '' @ join '', '' (map ts_id (filter (\<lambda>st. ts_status st = FailedStep) steps)))"
    using assms p(1) run by (auto simp: runAgenticLoop_def Let_def case_prod_beta s2_def s4_def take_now_def)
  let ?s = "progress opts ''step'' (ts_id st @ '': '' @ ts_desc st) s4"
  have "length steps = Suc (length sts) \<and>
     (if ?m = 0
      then okk \<and> receipts s5 = receipts s \<and> map ts_status steps = replicate (Suc (length sts)) Done
      else \<not> okk \<and> (\<exists>st1. steps = st1 # sts \<and> ts_id st1 = ''understand'' \<and> ts_status st1 = FailedStep) \<and>
        (\<exists>rs. receipts s5 = receipts s @ rs \<and> length rs = ?m \<and> list_all (\<lambda>x. g_blocked x = Some True) rs))"
  proof (cases ?m)
    case 0
    then have "executeStep H opts st ?s = (st\<lparr>ts_status := Done, ts_result := Some []\<rparr>, ?s)"
      using p(4) by (simp add: executeStep_def call_text_def)
    with 0 run rec run_idle [OF p(2), of H opts ?s] show ?thesis
      by (auto simp: Let_def case_prod_beta dest: arg_cong [of _ _ length])
  next
    case (Suc k)
    obtain e tc' t rs where t: "try_call H opts ?m (Suc k) \<lparr>tc_tool = ''get_context'', tc_args = [], tc_result = None\<rparr> ?s = ((Some e, tc'), t)"
      "receipts t = receipts ?s @ rs" "length rs = Suc k" "list_all (\<lambda>r. g_blocked r = Some True) rs"
      using try_context [of "\<lparr>tc_tool = ''get_context'', tc_args = [], tc_result = None\<rparr>" H opts ?m k ?s] by auto
    then have "executeStep H opts st ?s = (st\<lparr>ts_calls := [tc'], ts_status := FailedStep, ts_result := e\<rparr>, t)"
      using p(4) Suc by (simp add: executeStep_def)
    with run rec t Suc p(3) show ?thesis by (auto simp: Let_def)
  qed
  moreover have "map ts_status sts = replicate (length sts) Pending"
    using p(2) by (induction sts) (auto simp: idle_def)
  moreover have "disk s' = disk s" using rel_loop [OF rel_refl, of s H task opts] assms by (simp add: agent_rel_def)
  ultimately show ?thesis using r filter_idle [OF p(2)] by (intro conjI exI [of _ "length sts"]) auto
qed

theorem agentic_loop_outcome_witness:
  "lr_summary (fst (runAgenticLoop demo_host ''fix the tests'' \<lparr>lo_retries = None, lo_progress = False\<rparr> demo_agent)) = ''Failed at step: understand''"
  using agentic_loop_outcome [of demo_host "''fix the tests''" "\<lparr>lo_retries = None, lo_progress = False\<rparr>" demo_agent, OF surjective_pairing]
  by (auto simp: or_else_def)

end
