(* ===== verification/Completion.thy ===== *)
theory Completion
  imports AgentCore
begin

text \<open>
  Inline completion (\<open>agent/completion/engine.ts\<close>, \<open>context.ts\<close>): the language of a file and the files near it, the two prompts,
  the cleaning of an answer and the two attempts of a completion.
\<close>

subsection \<open>Context\<close>

record completion_context =
  co_prefix :: string
  co_suffix :: string
  co_language :: string
  co_file :: "string option"
  co_projectFiles :: "string list option"

definition LANGUAGE_MAP :: "(string \<times> string) list" where
  "LANGUAGE_MAP =
     [(''.ts'', ''TypeScript''), (''.tsx'', ''TypeScript React''), (''.js'', ''JavaScript''), (''.jsx'', ''JavaScript React''),
      (''.py'', ''Python''), (''.rs'', ''Rust''), (''.go'', ''Go''), (''.java'', ''Java''), (''.rb'', ''Ruby''), (''.php'', ''PHP''),
      (''.c'', ''C''), (''.h'', ''C Header''), (''.cpp'', ''C++''), (''.hpp'', ''C++ Header''), (''.cs'', ''C#''), (''.swift'', ''Swift''),
      (''.kt'', ''Kotlin''), (''.scala'', ''Scala''), (''.vue'', ''Vue''), (''.svelte'', ''Svelte''), (''.astro'', ''Astro''),
      (''.css'', ''CSS''), (''.scss'', ''SCSS''), (''.less'', ''Less''), (''.html'', ''HTML''), (''.json'', ''JSON''), (''.yaml'', ''YAML''),
      (''.yml'', ''YAML''), (''.md'', ''Markdown''), (''.sql'', ''SQL''), (''.sh'', ''Shell''), (''.bash'', ''Bash''), (''.zsh'', ''Zsh''),
      (''.ps1'', ''PowerShell''), (''.dockerfile'', ''Dockerfile''), (''.toml'', ''TOML'')]"

text \<open>\<open>path.extname\<close>: from the last dot of the last segment, unless the segment starts with it or is two dots.\<close>

definition extname :: "string \<Rightarrow> string" where
  "extname p =
     (let base = rev (takeWhile (\<lambda>c. c \<noteq> CHR ''/'') (dropWhile (\<lambda>c. c = CHR ''/'') (rev p)));
          ext = rev (takeWhile (\<lambda>c. c \<noteq> CHR ''.'') (rev base))
      in if CHR ''.'' \<notin> set base \<or> length ext + 1 = length base \<or> base = ''..'' then [] else CHR ''.'' # ext)"

definition detectLanguage :: "string option \<Rightarrow> string" where
  "detectLanguage f =
     (if \<not> given_str f then ''plaintext''
      else let ext = lower (extname (the f)); base = lower (last (split_on (CHR ''/'') (the f)))
           in if base = ''dockerfile'' then ''Dockerfile'' else if base = ''makefile'' then ''Makefile''
              else or_else (map_of LANGUAGE_MAP ext) ''plaintext'')"

text \<open>The file is read, but what is read is not used.\<close>

definition buildCompletionContext :: "string \<Rightarrow> string \<Rightarrow> string option \<Rightarrow> completion_context" where
  "buildCompletionContext pre suf f =
     \<lparr>co_prefix = pre, co_suffix = suf, co_language = detectLanguage f, co_file = f, co_projectFiles = None\<rparr>"

definition ends_with :: "string \<Rightarrow> string \<Rightarrow> bool" where
  "ends_with t e = starts_with (rev t) (rev e)"

text \<open>\<open>path.relative\<close> on the segments of two absolute paths.\<close>

fun relative_segs :: "string list \<Rightarrow> string list \<Rightarrow> string list" where
  "relative_segs (x # xs) (y # ys) = (if x = y then relative_segs xs ys else map (\<lambda>_. ''..'') (x # xs) @ (y # ys))"
| "relative_segs xs ys = map (\<lambda>_. ''..'') xs @ ys"

definition code_file :: "string \<times> fs_node \<Rightarrow> bool" where
  "code_file e = (case e of (n, FileN c) \<Rightarrow> list_ex (ends_with (lower n)) [''.ts'', ''.tsx'', ''.js'', ''.jsx'', ''.py'', ''.rs'', ''.go'']
     | (n, DirN es) \<Rightarrow> False)"

definition gatherNearbyContext :: "host \<Rightarrow> string \<Rightarrow> string \<Rightarrow> nat option \<Rightarrow> 'a work_st_scheme \<Rightarrow> (string \<times> string) list" where
  "gatherNearbyContext H f base maxFiles s =
     (let segs = (if CHR ''/'' \<in> set f then path_segs (h_cwd H) [base, join ''/'' (butlast (split_on (CHR ''/'') f))] else path_segs (h_cwd H) [base])
      in case node_at (disk s) segs of
           Some (DirN es) \<Rightarrow>
             map (\<lambda>(n, m). (map (\<lambda>c. if c = CHR 0x5C then CHR ''/'' else c)
                     (join ''/'' (relative_segs (path_segs (h_cwd H) [base]) (segs @ [n]))), case m of FileN c \<Rightarrow> c | DirN _ \<Rightarrow> []))
               (take (or_else maxFiles 5) (filter code_file es))
         | _ \<Rightarrow> [])"

subsection \<open>Prompts\<close>

definition text_split :: "string \<Rightarrow> string list" where
  "text_split = split_on (CHR 0x0A)"

definition countLines :: "string \<Rightarrow> nat" where
  "countLines t = length (text_split t)"

definition lastLine :: "string \<Rightarrow> string" where
  "lastLine t = last (text_split t)"

definition indentation :: "string \<Rightarrow> string" where
  "indentation t = takeWhile is_ws t"

definition tail_of :: "nat \<Rightarrow> string \<Rightarrow> string" where
  "tail_of n t = (if length t > n then ''...'' @ drop (length t - n) t else t)"

definition head_of :: "nat \<Rightarrow> string \<Rightarrow> string" where
  "head_of n t = (if length t > n then take n t @ ''...'' else t)"

abbreviation FENCE :: string where
  "FENCE \<equiv> [CHR 0x60, CHR 0x60, CHR 0x60]"

definition buildContinuePrompt :: "completion_context \<Rightarrow> string" where
  "buildContinuePrompt x = join NL
     [''You are an inline code completion engine for '' @ co_language x @ ''.'',
      ''Complete the code at the cursor position. Return ONLY the completion text '' @ em_dash @ '' no explanation, no markdown formatting.'',
      [], ''Code before cursor:'', FENCE, tail_of 200 (co_prefix x), FENCE, [], ''Code after cursor:'', FENCE, head_of 100 (co_suffix x), FENCE,
      [], ''Rules:'', ''- Match the existing indentation and style'', ''- Do NOT repeat code that is already in the prefix'',
      ''- Keep the completion concise (at most '' @
        (if (case co_file x of None \<Rightarrow> True | Some f \<Rightarrow> ends_with f ''.ts'') then ''30'' else ''15'') @ '' lines)'',
      ''- Respect the language'' @ SQ @ ''s syntax and idioms'', [], ''Completion:'']"

definition buildFillInMiddlePrompt :: "completion_context \<Rightarrow> string" where
  "buildFillInMiddlePrompt x = join NL
     [''<fim_prefix>'', tail_of 400 (co_prefix x), ''<fim_suffix>'', head_of 200 (co_suffix x), ''<fim_middle>'']"

subsection \<open>Cleaning an answer\<close>

definition trim_start :: "string \<Rightarrow> string" where
  "trim_start t = dropWhile is_ws t"

definition drop_repeated :: "string \<Rightarrow> string \<Rightarrow> string" where
  "drop_repeated t pre =
     (let pl = js_trim (lastLine pre); first = js_trim (hd (text_split t))
      in if first \<noteq> [] \<and> pl \<noteq> [] \<and> first = pl then trim_start (join NL (tl (text_split t))) else t)"

definition indent_lines :: "string \<Rightarrow> string \<Rightarrow> string" where
  "indent_lines ind t = NL @ join NL (trim_start (hd (text_split t)) # map (\<lambda>l. if l \<noteq> [] then ind @ l else l) (tl (text_split t)))"

definition postProcessCompletion :: "string \<Rightarrow> string \<Rightarrow> string" where
  "postProcessCompletion raw pre =
     (let t0 = js_trim raw
      in if t0 = [] then []
         else let t1 = drop_repeated t0 pre; ind = indentation (lastLine pre)
              in if ind \<noteq> [] \<and> t1 \<noteq> [] \<and> \<not> starts_with t1 NL then indent_lines ind t1 else t1)"

subsection \<open>A completion\<close>

record suggestion =
  sg_text :: string
  sg_score :: jsnum
  sg_label :: string

record completion_request =
  cr_prefix :: string
  cr_suffix :: string
  cr_language :: string
  cr_file :: "string option"
  cr_projectFiles :: "string list option"

record completion_result =
  cs_suggestions :: "suggestion list"
  cs_language :: string
  cs_prefixLines :: nat
  cs_suffixLines :: nat

definition suggest :: "string \<Rightarrow> jsnum \<Rightarrow> string \<Rightarrow> suggestion list" where
  "suggest t score label = (if t = [] then [] else [\<lparr>sg_text = t, sg_score = score, sg_label = label\<rparr>])"

definition generateCompletion ::
    "world \<Rightarrow> completion_request \<Rightarrow> 'a router_st_scheme \<Rightarrow> (string + completion_result) \<times> 'a router_st_scheme" where
  "generateCompletion W q s =
     (let x = \<lparr>co_prefix = cr_prefix q, co_suffix = cr_suffix q, co_language = cr_language q, co_file = cr_file q,
                co_projectFiles = cr_projectFiles q\<rparr>;
          result = (\<lambda>sg. \<lparr>cs_suggestions = sg, cs_language = co_language x, cs_prefixLines = countLines (cr_prefix q),
             cs_suffixLines = countLines (cr_suffix q)\<rparr>)
      in case selectModel (w_sys W) (w_env W) T_complete default_options s of
           (Inl e, s1) \<Rightarrow> (Inl e, s1)
         | (Inr cfg, s1) \<Rightarrow>
             let rid = map_option g_id (getLastModelSelectionReceipt s1)
             in case llmGenerate (w_http W) (w_modules W) cfg (buildContinuePrompt x)
                       \<lparr>gc_files = map_option (map (\<lambda>p. (p, []))) (cr_projectFiles q), gc_language = Some (co_language x),
                        gc_projectFiles = None, gc_template = None\<rparr> s1 of
                  (Inr r, s2) \<Rightarrow>
                    (Inr (result (suggest (postProcessCompletion (lr_text r) (cr_prefix q)) 1
                       (if given_str rid then ''primary:'' @ take 8 (the rid) else ''primary''))), s2)
                | (Inl e, s2) \<Rightarrow>
                    (case llmGenerate (w_http W) (w_modules W) (cfg\<lparr>lc_temperature := dec 1 10\<rparr>) (buildFillInMiddlePrompt x) no_context s2 of
                       (Inr r, s3) \<Rightarrow>
                         (Inr (result (suggest (postProcessCompletion (lr_text r) (cr_prefix q)) (dec 9 10) ''fim'')), s3)
                     | (Inl e', s3) \<Rightarrow> (Inr (result []), s3)))"

subsection \<open>Properties\<close>

lemma select_outcome:
  "fst (selectModel E V t op s) = Inl e \<longleftrightarrow> configFromEnv V = Inl e"
  "configFromEnv V = Inr d \<Longrightarrow> \<exists>r. receipts (snd (selectModel E V t op s)) = receipts s @ [r] \<and> last_selection (snd (selectModel E V t op s)) = Some r"
proof -
  show "fst (selectModel E V t op s) = Inl e \<longleftrightarrow> configFromEnv V = Inl e"
    by (simp add: selectModel_def Let_def case_prod_beta split: sum.split)
  assume d: "configFromEnv V = Inr d"
  let ?p = "task_profile t" and ?pf = "or_else (so_preferFree op) (tp_preferFree (task_profile t))"
  obtain r s' where "emitModelSelectionReceipt E (or_else (so_operator op) (or_else (ev_var V ''NOVA_OPERATOR_ID'') ''llm-router'')) t
      (fst (choice V t op d ?pf)) (snd (choice V t op d ?pf)) (tp_temperature ?p) (tp_maxTokens ?p) ?pf s = (r, s')"
    "receipts s' = receipts s @ [r]" "last_selection s' = Some r"
    using emit_effect by blast
  with d show "\<exists>r. receipts (snd (selectModel E V t op s)) = receipts s @ [r] \<and> last_selection (snd (selectModel E V t op s)) = Some r"
    by (simp add: selectModel_def Let_def case_prod_beta)
qed

lemma suggest_facts [simp]:
  "length (suggest t sc l) \<le> 1"
  "g \<in> set (suggest t sc l) \<longleftrightarrow> t \<noteq> [] \<and> g = \<lparr>sg_text = t, sg_score = sc, sg_label = l\<rparr>"
  by (auto simp: suggest_def)

text \<open>A completion fails exactly when the environment's configuration is invalid, whatever the model does. Otherwise exactly one receipt, of the
  selection, is added, and there is at most one suggestion, never an empty one: of the first request, labelled with the start of
  that receipt's identifier, or of the second.\<close>

theorem completion_outcome:
  assumes "generateCompletion W q s = (r, s')"
  shows "(\<forall>e. r = Inl e \<longleftrightarrow> configFromEnv (w_env W) = Inl e) \<and>
     (\<forall>x. r = Inr x \<longrightarrow> length (cs_suggestions x) \<le> 1 \<and> 1 \<le> cs_prefixLines x \<and> 1 \<le> cs_suffixLines x \<and>
        (\<exists>c. receipts s' = receipts s @ [c] \<and>
           (\<forall>g\<in>set (cs_suggestions x). sg_text g \<noteq> [] \<and>
              (sg_score g = 1 \<and> sg_label g = (if g_id c = [] then ''primary'' else ''primary:'' @ take 8 (g_id c)) \<or>
               sg_score g = dec 9 10 \<and> sg_label g = ''fim''))))"
proof (cases "configFromEnv (w_env W)")
  case (Inl e)
  then have "fst (selectModel (w_sys W) (w_env W) T_complete default_options s) = Inl e"
    using select_outcome(1) [of "w_sys W" "w_env W" T_complete default_options s e] by simp
  with assms Inl show ?thesis by (auto simp: generateCompletion_def Let_def case_prod_beta)
next
  case (Inr d)
  obtain cfg s1 where sel: "selectModel (w_sys W) (w_env W) T_complete default_options s = (Inr cfg, s1)"
    using select_outcome(1) [of "w_sys W" "w_env W" T_complete default_options s] Inr
    by (cases "selectModel (w_sys W) (w_env W) T_complete default_options s"; cases "fst (selectModel (w_sys W) (w_env W) T_complete default_options s)") auto
  then obtain c where c: "receipts s1 = receipts s @ [c]" "last_selection s1 = Some c"
    using select_outcome(2) [OF Inr, of "w_sys W" T_complete default_options s] by auto
  have lines: "1 \<le> countLines t" for t
  proof -
    have "split_on ch t \<noteq> []" for ch by (cases t) (auto split: list.splits)
    then show ?thesis by (simp add: countLines_def text_split_def Suc_le_eq)
  qed
  have keep: "receipts (snd (llmGenerate h m g p x t)) = receipts t" for h m g p x and t :: "'a router_st_scheme"
    by (rule tick_receipts [OF llmGenerate_state])
  let ?x = "\<lparr>co_prefix = cr_prefix q, co_suffix = cr_suffix q, co_language = cr_language q, co_file = cr_file q, co_projectFiles = cr_projectFiles q\<rparr>"
  let ?g = "\<lparr>gc_files = map_option (map (\<lambda>p. (p, []))) (cr_projectFiles q), gc_language = Some (cr_language q), gc_projectFiles = None, gc_template = None\<rparr>"
  obtain a t where a: "llmGenerate (w_http W) (w_modules W) cfg (buildContinuePrompt ?x) ?g s1 = (a, t)" by fastforce
  obtain b u where b: "llmGenerate (w_http W) (w_modules W) (cfg\<lparr>lc_temperature := dec 1 10\<rparr>) (buildFillInMiddlePrompt ?x) no_context t = (b, u)"
    by fastforce
  have k: "receipts t = receipts s @ [c]" "receipts u = receipts s @ [c]"
    using keep [of "w_http W" "w_modules W" cfg "buildContinuePrompt ?x" ?g s1] a c(1)
      keep [of "w_http W" "w_modules W" "cfg\<lparr>lc_temperature := dec 1 10\<rparr>" "buildFillInMiddlePrompt ?x" no_context t] b by simp_all
  show ?thesis
  proof (cases a)
    case (Inl e)
    with assms sel a b k Inr lines show ?thesis
      by (cases b) (auto simp: generateCompletion_def Let_def simp del: One_nat_def)
  next
    case (Inr r)
    with assms sel a k \<open>configFromEnv (w_env W) = Inr d\<close> lines c(2) show ?thesis
      by (auto simp: generateCompletion_def Let_def getLastModelSelectionReceipt_def given_str_def simp del: One_nat_def)
  qed
qed

definition completion_world :: world where
  "completion_world = demo_world\<lparr>w_http := (\<lambda>i u h b. Http_throws ''no network'')\<rparr>"

theorem completion_outcome_witness:
  "\<exists>c. receipts (snd (generateCompletion completion_world \<lparr>cr_prefix = ''let x'', cr_suffix = [], cr_language = ''TypeScript'', cr_file = None,
     cr_projectFiles = None\<rparr> demo_predict)) = [c]"
proof -
  let ?q = "\<lparr>cr_prefix = ''let x'', cr_suffix = [], cr_language = ''TypeScript'', cr_file = None, cr_projectFiles = None\<rparr>"
  let ?r = "generateCompletion completion_world ?q demo_predict"
  have "receipts demo_predict = []" by (simp add: receipts_def ensureLoaded_def demo_predict_def)
  moreover have "configFromEnv (w_env completion_world) \<noteq> Inl e" for e
    by (simp add: configFromEnv_def completion_world_def demo_world_def PROVIDER_DEFAULT_MODELS_def or_else_def Let_def)
  ultimately show ?thesis
    using completion_outcome [OF surjective_pairing, of completion_world ?q demo_predict] by (cases "fst ?r") auto
qed

end
