(* ===== verification/Mythar.thy ===== *)
theory Mythar
  imports LlmClient
begin

text \<open>
  The client of the Mythar compiler (\<open>agent/mythar/mytharClient.ts\<close>, \<open>cmas-integration.ts\<close>). The service is a parameter and
  answers with JSON; reading a field of null throws, as it does in JavaScript.
\<close>

subsection \<open>Types\<close>

record mythar_config =
  my_host :: string
  my_port :: nat
  my_key :: "string option"

record mythar_invariant =
  mi_expression :: string
  mi_description :: string
  mi_mode :: "string option"
  mi_compilation :: "json option"

record mythar_rule =
  ml_id :: string
  ml_color :: string
  ml_invariants :: "mythar_invariant list"
  ml_context :: string

record mythar_receipt =
  mx_stage :: string
  mx_color :: string
  mx_expression :: string
  mx_dag :: "json option"
  mx_lineage :: "json option"
  mx_hash :: string
  mx_valid :: "json option"
  mx_time :: time

definition mythar_invariant_json :: "mythar_invariant \<Rightarrow> json" where
  "mythar_invariant_json i = JObj ([(''expression'', JStr (mi_expression i)), (''description'', JStr (mi_description i))] @
     opt_field ''mode'' (map_option JStr (mi_mode i)) @ opt_field ''compilation'' (mi_compilation i))"

definition field_of :: "json \<Rightarrow> string \<Rightarrow> string + json option" where
  "field_of v k = (case v of JNull \<Rightarrow> Inl ''Cannot read properties of null'' | JObj fs \<Rightarrow> Inr (map_of fs k) | _ \<Rightarrow> Inr None)"

subsection \<open>Requests\<close>

definition base_url :: "mythar_config \<Rightarrow> string" where
  "base_url c = ''http://'' @ my_host c @ '':'' @ show_nat (my_port c)"

definition mythar_request ::
    "http_service \<Rightarrow> mythar_config \<Rightarrow> string \<Rightarrow> (string \<times> json) list \<Rightarrow> 'a sys_st_scheme \<Rightarrow> (string + json) \<times> 'a sys_st_scheme" where
  "mythar_request F c path body s =
     (let a = F (tick s) (base_url c @ path)
                ([(''Content-Type'', ''application/json'')] @ (if given_str (my_key c) then [(''X-API-Key'', the (my_key c))] else []))
                (stringify (JObj body));
          s1 = s\<lparr>tick := Suc (tick s)\<rparr>
      in case a of
           Http_throws msg \<Rightarrow> (Inl msg, s1)
         | Http_status st body_text v \<Rightarrow>
             if st < 200 \<or> 299 < st then (Inl (''Mythar API error ('' @ show_nat st @ ''): '' @ body_text), s1)
             else case v of None \<Rightarrow> (Inl ''Unexpected token in JSON'', s1) | Some j \<Rightarrow> (Inr j, s1))"

definition mythar_compile ::
    "http_service \<Rightarrow> mythar_config \<Rightarrow> string \<Rightarrow> string option \<Rightarrow> 'a sys_st_scheme \<Rightarrow> (string + json) \<times> 'a sys_st_scheme" where
  "mythar_compile F c expr mode = mythar_request F c ''/v1/compile'' [(''expression'', JStr expr), (''mode'', JStr (or_else mode ''strict''))]"

definition compileV2 ::
    "http_service \<Rightarrow> mythar_config \<Rightarrow> string \<Rightarrow> string option \<Rightarrow> string option \<Rightarrow> string option \<Rightarrow> 'a sys_st_scheme \<Rightarrow> (string + json) \<times> 'a sys_st_scheme" where
  "compileV2 F c source lang format mode = mythar_request F c ''/v2/compile''
     [(''source'', JStr source), (''source_language'', JStr (or_else lang ''mythar'')), (''format'', JStr (or_else format ''ast'')),
      (''mode'', JStr (or_else mode ''strict''))]"

definition compileV01 :: "http_service \<Rightarrow> mythar_config \<Rightarrow> string \<Rightarrow> string \<Rightarrow> 'a sys_st_scheme \<Rightarrow> (string + json) \<times> 'a sys_st_scheme" where
  "compileV01 F c expr mode = mythar_request F c ''/v01/compile'' [(''expression'', JStr expr), (''mode'', JStr mode)]"

definition compileV02Parser :: "http_service \<Rightarrow> mythar_config \<Rightarrow> string \<Rightarrow> string \<Rightarrow> 'a sys_st_scheme \<Rightarrow> (string + json) \<times> 'a sys_st_scheme" where
  "compileV02Parser F c expr mode = mythar_request F c ''/v02/parser/compile'' [(''expression'', JStr expr), (''mode'', JStr mode)]"

record compile_request =
  cq_expression :: "string option"
  cq_source :: "string option"
  cq_mode :: "string option"
  cq_language :: "string option"
  cq_format :: "string option"

definition given_field :: "string \<Rightarrow> string option \<Rightarrow> (string \<times> json) list" where
  "given_field k v = (if given_str v then [(k, JStr (the v))] else [])"

definition compileV02REST ::
    "http_service \<Rightarrow> mythar_config \<Rightarrow> compile_request \<Rightarrow> bool \<Rightarrow> 'a sys_st_scheme \<Rightarrow> (string + json) \<times> 'a sys_st_scheme" where
  "compileV02REST F c q v2 = mythar_request F c (if v2 then ''/v2/compile'' else ''/v1/compile'')
     (given_field ''expression'' (cq_expression q) @ given_field ''source'' (cq_source q) @ given_field ''mode'' (cq_mode q) @
      given_field ''source_language'' (cq_language q) @ given_field ''format'' (cq_format q))"

definition compileV02AAES :: "http_service \<Rightarrow> mythar_config \<Rightarrow> string \<Rightarrow> string \<Rightarrow> 'a sys_st_scheme \<Rightarrow> (string + json) \<times> 'a sys_st_scheme" where
  "compileV02AAES F c expr lang = mythar_request F c ''/v02/aaes'' [(''expression'', JStr expr), (''source_language'', JStr lang)]"

subsection \<open>Receipts and invariants\<close>

text \<open>\<open>blake3hash\<close> is SHA-256 in hexadecimal.\<close>

definition blake3hash :: "sysenv \<Rightarrow> string \<Rightarrow> string" where
  "blake3hash E t = sha256 E t"

definition receipt_of ::
    "sysenv \<Rightarrow> string \<Rightarrow> string \<Rightarrow> string \<Rightarrow> json \<Rightarrow> 'a sys_st_scheme \<Rightarrow> (string + mythar_receipt) \<times> 'a sys_st_scheme" where
  "receipt_of E stage color expr v s =
     (case (field_of v ''ast'', field_of v ''registry_refs'', field_of v ''valid'') of
        (Inr dag, Inr refs, Inr valid) \<Rightarrow>
          let (t, s1) = take_now E s
          in (Inr \<lparr>mx_stage = stage, mx_color = color, mx_expression = expr, mx_dag = dag, mx_lineage = refs,
                mx_hash = blake3hash E (stringify v), mx_valid = valid, mx_time = t\<rparr>, s1)
      | (Inl e, _, _) \<Rightarrow> (Inl e, s)
      | (_, Inl e, _) \<Rightarrow> (Inl e, s)
      | (_, _, Inl e) \<Rightarrow> (Inl e, s))"

definition generateInvariantReceipt ::
    "sysenv \<Rightarrow> http_service \<Rightarrow> mythar_config \<Rightarrow> string \<Rightarrow> string \<Rightarrow> string \<Rightarrow> 'a sys_st_scheme \<Rightarrow> (string + mythar_receipt) \<times> 'a sys_st_scheme" where
  "generateInvariantReceipt E F c stage color expr s =
     (case mythar_compile F c expr None s of
        (Inl e, s1) \<Rightarrow> (Inl e, s1)
      | (Inr v, s1) \<Rightarrow> receipt_of E stage color expr v s1)"

definition failed_compilation :: "string \<Rightarrow> json" where
  "failed_compilation e = JObj
     [(''ast'', JObj [(''kind'', JStr ''Expression''), (''surface'', JNull), (''token_index'', JNull)]), (''registry_refs'', JArr []),
      (''invariants'', JArr []),
      (''diagnostics'', JArr [JObj [(''error_code'', JStr ''COMPILE_ERROR''), (''severity'', JStr ''error''), (''message'', JStr e)]]),
      (''valid'', JBool False)]"

fun compileInvariants ::
    "http_service \<Rightarrow> mythar_config \<Rightarrow> mythar_invariant list \<Rightarrow> 'a sys_st_scheme \<Rightarrow> mythar_invariant list \<times> 'a sys_st_scheme" where
  "compileInvariants F c [] s = ([], s)"
| "compileInvariants F c (i # is) s =
     (let (r, s1) = mythar_compile F c (mi_expression i) (mi_mode i) s;
          v = (case r of Inr v \<Rightarrow> v | Inl e \<Rightarrow> failed_compilation e);
          (js, s2) = compileInvariants F c is s1
      in (i\<lparr>mi_compilation := Some v\<rparr> # js, s2))"

subsection \<open>Variants\<close>

datatype variant = V01 | V02Parser | V02Rest | V02Aaes

primrec variant_name :: "variant \<Rightarrow> string" where
  "variant_name V01 = ''v01''"
| "variant_name V02Parser = ''v02-parser''"
| "variant_name V02Rest = ''v02-rest''"
| "variant_name V02Aaes = ''v02-aaes''"

record variant_options =
  vo_mode :: "string option"
  vo_format :: "string option"
  vo_language :: "string option"

definition no_variant_options :: variant_options where
  "no_variant_options = \<lparr>vo_mode = None, vo_format = None, vo_language = None\<rparr>"

definition createMytharCompilationSession :: "mythar_config \<Rightarrow> variant list option \<Rightarrow> (variant \<times> mythar_config) list" where
  "createMytharCompilationSession c vs = map (\<lambda>v. (v, c)) (or_else vs [V01, V02Parser, V02Rest])"

definition compileViaMythar ::
    "http_service \<Rightarrow> mythar_config \<Rightarrow> variant \<Rightarrow> string \<Rightarrow> variant_options \<Rightarrow> 'a sys_st_scheme \<Rightarrow> (string + json) \<times> 'a sys_st_scheme" where
  "compileViaMythar F c v expr o' =
     (case v of
        V01 \<Rightarrow> compileV01 F c expr (or_else (vo_mode o') ''strict'')
      | V02Parser \<Rightarrow> compileV02Parser F c expr (or_else (vo_mode o') ''strict'')
      | V02Rest \<Rightarrow> compileV02REST F c \<lparr>cq_expression = Some expr, cq_source = None, cq_mode = Some (or_else (vo_mode o') ''strict''),
          cq_language = Some (or_else (vo_language o') ''mythar''), cq_format = Some (or_else (vo_format o') ''ast'')\<rparr> False
      | V02Aaes \<Rightarrow> compileV02AAES F c expr (or_else (vo_language o') ''mythar''))"

fun run_variants ::
    "http_service \<Rightarrow> mythar_config \<Rightarrow> string \<Rightarrow> variant list \<Rightarrow> (variant \<times> json) list \<Rightarrow> string list \<Rightarrow> 'a sys_st_scheme \<Rightarrow>
     ((variant \<times> json) list \<times> string list) \<times> 'a sys_st_scheme" where
  "run_variants F c expr [] rs es s = ((rs, es), s)"
| "run_variants F c expr (v # vs) rs es s =
     (case compileViaMythar F c v expr no_variant_options s of
        (Inr j, s1) \<Rightarrow> run_variants F c expr vs (rs @ [(v, j)]) es s1
      | (Inl e, s1) \<Rightarrow> run_variants F c expr vs rs (es @ [''['' @ variant_name v @ ''] '' @ e]) s1)"

text \<open>A result that is null counts as missing; \<open>"valid" in r\<close> throws for another value that is not an object.\<close>

definition variant_valid :: "json option \<Rightarrow> string + bool" where
  "variant_valid r =
     (case r of
        Some (JObj fs) \<Rightarrow> Inr (map_of fs ''valid'' = Some (JBool True))
      | Some (JArr xs) \<Rightarrow> Inr False
      | _ \<Rightarrow> if truthy r then Inl ''Cannot use in operator'' else Inr False)"

fun every_valid :: "(variant \<times> json) list \<Rightarrow> variant list \<Rightarrow> string + bool" where
  "every_valid rs [] = Inr True"
| "every_valid rs (v # vs) = (case variant_valid (js_get rs v) of Inl e \<Rightarrow> Inl e | Inr b \<Rightarrow> if b then every_valid rs vs else Inr False)"

definition verifyAcrossVariants ::
    "http_service \<Rightarrow> mythar_config \<Rightarrow> string \<Rightarrow> 'a sys_st_scheme \<Rightarrow> (string + ((variant \<times> json) list \<times> bool \<times> string list)) \<times> 'a sys_st_scheme" where
  "verifyAcrossVariants F c expr s =
     (let vs = [V01, V02Parser, V02Rest]; ((rs, es), s1) = run_variants F c expr vs [] [] s
      in (case every_valid rs vs of Inl e \<Rightarrow> Inl e | Inr b \<Rightarrow> Inr (rs, b, es), s1))"

definition empty_expression :: json where
  "empty_expression = JObj [(''kind'', JStr ''Expression''), (''surface'', JNull), (''token_index'', JNull)]"

definition in_field :: "json \<Rightarrow> string \<Rightarrow> json \<Rightarrow> string + json" where
  "in_field v k d = (case v of JObj fs \<Rightarrow> Inr (or_else (map_of fs k) d) | JArr xs \<Rightarrow> Inr d | _ \<Rightarrow> Inl ''Cannot use in operator'')"

definition generateCrossVariantReceipt ::
    "sysenv \<Rightarrow> http_service \<Rightarrow> mythar_config \<Rightarrow> string \<Rightarrow> string \<Rightarrow> string \<Rightarrow> 'a sys_st_scheme \<Rightarrow> (string + mythar_receipt) \<times> 'a sys_st_scheme" where
  "generateCrossVariantReceipt E F c stage color expr s =
     (case compileViaMythar F c V02Rest expr (no_variant_options\<lparr>vo_mode := Some ''strict''\<rparr>) s of
        (Inl e, s1) \<Rightarrow> (Inl e, s1)
      | (Inr v, s1) \<Rightarrow>
          (case (in_field v ''ast'' empty_expression, in_field v ''registry_refs'' (JArr []), in_field v ''valid'' (JBool False)) of
             (Inr dag, Inr refs, Inr valid) \<Rightarrow>
               let (t, s2) = take_now E s1
               in (Inr \<lparr>mx_stage = stage, mx_color = color, mx_expression = expr, mx_dag = Some dag, mx_lineage = Some refs,
                     mx_hash = sha256 E (stringify v), mx_valid = Some valid, mx_time = t\<rparr>, s2)
           | _ \<Rightarrow> (Inl ''Cannot use in operator'', s1)))"

end
