(* ===== verification/Cmas.thy ===== *)
theory Cmas
  imports Completion Mythar
begin

text \<open>
  The five agents of a workflow (\<open>agent/cmas\<close>): their registry, and the architect, builder, implementor, validator and reviewer. Each
  spawns an entry of the registry, does its work, records a receipt and ends done or failed.
\<close>

subsection \<open>Records\<close>

datatype agent_role = Architect | Builder | Implementor | Validator | Reviewer

primrec role_name :: "agent_role \<Rightarrow> string" where
  "role_name Architect = ''architect''"
| "role_name Builder = ''builder''"
| "role_name Implementor = ''implementor''"
| "role_name Validator = ''validator''"
| "role_name Reviewer = ''reviewer''"

datatype agent_status = AgentIdle | AgentRunning | AgentDone | AgentFailed | AgentBlocked

record cmas_invariant =
  ci_id :: string
  ci_desc :: string
  ci_severity :: string

record constitution =
  kn_purpose :: string
  kn_scope :: "string list"
  kn_invariants :: "cmas_invariant list"
  kn_mythar :: "mythar_invariant list option"
  kn_interfaces :: "string list"
  kn_evidence :: "string list"

record substrate =
  su_id :: string
  su_name :: string
  su_desc :: string
  su_artifacts :: "string list"
  su_evidence :: "string list"
  su_ready :: bool

record exec_module =
  mo_code :: string
  mo_language :: string
  mo_id :: string
  mo_proofs :: "string list"

record val_check =
  vc_id :: string
  vc_name :: string
  vc_passed :: bool
  vc_detail :: "string option"
  vc_severity :: string

record val_report =
  vr_agent :: string
  vr_workflow :: string
  vr_passed :: bool
  vr_checks :: "val_check list"
  vr_total :: nat
  vr_passedCount :: nat
  vr_failed :: nat
  vr_warnings :: nat

record certificate =
  ce_agent :: string
  ce_workflow :: string
  ce_time :: time
  ce_valid :: bool
  ce_checksum :: string
  ce_report :: val_report

record review_part =
  rp_sound :: bool
  rp_notes :: string

record erosion =
  er_invariant :: string
  er_status :: string
  er_evidence :: string

record dossier =
  do_id :: string
  do_workflow :: string
  do_architecture :: review_part
  do_builder :: review_part
  do_implementor :: review_part
  do_validator :: review_part
  do_drift :: bool
  do_driftItems :: "(string \<times> string \<times> string) list"
  do_erosion :: "erosion list"
  do_recommendations :: "string list"

datatype agent_output =
    Out_constitution constitution
  | Out_substrate substrate
  | Out_module exec_module
  | Out_report val_report "certificate option"
  | Out_dossier dossier

record cmas_agent =
  ca_role :: agent_role
  ca_id :: string
  ca_name :: string
  ca_desc :: string
  ca_status :: agent_status
  ca_parent :: "string option"
  ca_created :: time
  ca_output :: "agent_output option"
  ca_error :: "string option"

record cmas_st = agent_st +
  cmas_agents :: "(string, cmas_agent) jsmap"

subsection \<open>The registry\<close>

definition spawnAgent ::
    "sysenv \<Rightarrow> agent_role \<Rightarrow> string \<Rightarrow> string \<Rightarrow> string option \<Rightarrow> 'a cmas_st_scheme \<Rightarrow> string \<times> 'a cmas_st_scheme" where
  "spawnAgent E r name desc parent s =
     (let (u, s1) = take_uuid E s; (t, s2) = take_now E s1; i = ''cmas-'' @ role_name r @ ''-'' @ take 8 u
      in (i, s2\<lparr>cmas_agents := js_set i \<lparr>ca_role = r, ca_id = i, ca_name = name, ca_desc = desc, ca_status = AgentIdle, ca_parent = parent,
            ca_created = t, ca_output = None, ca_error = None\<rparr> (cmas_agents s)\<rparr>))"

definition getAgent :: "string \<Rightarrow> 'a cmas_st_scheme \<Rightarrow> cmas_agent option" where
  "getAgent i s = js_get (cmas_agents s) i"

definition updateAgentStatus ::
    "string \<Rightarrow> agent_status \<Rightarrow> agent_output option \<Rightarrow> string option \<Rightarrow> 'a cmas_st_scheme \<Rightarrow> 'a cmas_st_scheme" where
  "updateAgentStatus i st out err s = s\<lparr>cmas_agents := js_modify i (\<lambda>a. a\<lparr>ca_status := st,
     ca_output := (case out of Some v \<Rightarrow> Some v | None \<Rightarrow> ca_output a), ca_error := (case err of Some e \<Rightarrow> Some e | None \<Rightarrow> ca_error a)\<rparr>)
     (cmas_agents s)\<rparr>"

definition listAgents :: "agent_role option \<Rightarrow> 'a cmas_st_scheme \<Rightarrow> cmas_agent list" where
  "listAgents r s = (case r of None \<Rightarrow> js_values (cmas_agents s) | Some q \<Rightarrow> filter (\<lambda>a. ca_role a = q) (js_values (cmas_agents s)))"

definition findAgentsByParent :: "string \<Rightarrow> 'a cmas_st_scheme \<Rightarrow> cmas_agent list" where
  "findAgentsByParent p s = filter (\<lambda>a. ca_parent a = Some p) (js_values (cmas_agents s))"

definition resetAgentRegistry :: "'a cmas_st_scheme \<Rightarrow> 'a cmas_st_scheme" where
  "resetAgentRegistry s = s\<lparr>cmas_agents := []\<rparr>"

subsection \<open>The architect\<close>

text \<open>The five colours, as their UTF-8 bytes.\<close>

definition CONSTITUTIONAL_COLORS :: "agent_role \<Rightarrow> string" where
  "CONSTITUTIONAL_COLORS r = [CHR 0xF0, CHR 0x9F] @ (case r of Architect \<Rightarrow> [CHR 0x94, CHR 0xB4] | Builder \<Rightarrow> [CHR 0x9F, CHR 0xA2]
     | Implementor \<Rightarrow> [CHR 0x94, CHR 0xB5] | Validator \<Rightarrow> [CHR 0x9F, CHR 0xA1] | Reviewer \<Rightarrow> [CHR 0x9F, CHR 0xA3])"

definition core_invariants :: "mythar_invariant list" where
  "core_invariants = map (\<lambda>(e, d). \<lparr>mi_expression = e, mi_description = d, mi_mode = Some ''strict'', mi_compilation = None\<rparr>)
     [(''ja tor'', ''Affirm the boundary '' @ em_dash @ '' every action must be bounded and governed''),
      (''ra-jor'', ''Proclaim foundational law '' @ em_dash @ '' decisions require constitutional authority''),
      (''ma-la tor'', ''Manifest clarity at the gate '' @ em_dash @ '' execution must be transparent and reviewed'')]"

definition architect_invariants :: "cmas_invariant list" where
  "architect_invariants =
     [\<lparr>ci_id = ''CMAS-ARC-001'', ci_desc = ''All actions must be governed by a Plan Contract'', ci_severity = ''critical''\<rparr>,
      \<lparr>ci_id = ''CMAS-ARC-002'', ci_desc = ''All decisions must be justified by verifiable evidence'', ci_severity = ''critical''\<rparr>,
      \<lparr>ci_id = ''CMAS-ARC-003'', ci_desc = ''Execution must be sandboxed and reversible'', ci_severity = ''error''\<rparr>]"

definition constitution_json :: "constitution \<Rightarrow> json" where
  "constitution_json c = JObj ([(''purpose'', JStr (kn_purpose c)), (''scope'', jstrs (kn_scope c)),
     (''invariants'', JArr (map (\<lambda>i. JObj [(''id'', JStr (ci_id i)), (''description'', JStr (ci_desc i)), (''severity'', JStr (ci_severity i))])
        (kn_invariants c)))] @ opt_field ''mytharInvariants'' (map_option (\<lambda>is. JArr (map mythar_invariant_json is)) (kn_mythar c)) @
     [(''interfaces'', jstrs (kn_interfaces c)), (''evidenceRequirements'', jstrs (kn_evidence c))])"

definition a2 :: receipt_opts where
  "a2 = no_opts\<lparr>ro_level := Some ''A2''\<rparr>"

definition mythar_at :: "string \<Rightarrow> mythar_config" where
  "mythar_at host = \<lparr>my_host = host, my_port = 8080, my_key = None\<rparr>"

definition architectProduceIntent ::
    "host \<Rightarrow> string \<Rightarrow> string list option \<Rightarrow> string option \<Rightarrow> 'a cmas_st_scheme \<Rightarrow>
     (string \<times> constitution \<times> mythar_rule list option) \<times> 'a cmas_st_scheme" where
  "architectProduceIntent H goal constraints mytharHost s =
     (let E = w_sys (h_world H);
          (i, s1) = spawnAgent E Architect ''Constitutional Architect'' (''Define intent for: '' @ goal) None s;
          s2 = updateAgentStatus i AgentRunning None None s1;
          (invs, rules, s3) =
            (if given_str mytharHost
             then let (js, t1) = compileInvariants (w_http (h_world H)) (mythar_at (the mytharHost)) core_invariants s2; (n, t2) = take_now E t1
                  in (js, Some [\<lparr>ml_id = ''rule-'' @ show_int n, ml_color = CONSTITUTIONAL_COLORS Architect, ml_invariants = js, ml_context = goal\<rparr>], t2)
             else (core_invariants, None, s2));
          c = \<lparr>kn_purpose = goal, kn_scope = or_else constraints [''core-system''], kn_invariants = architect_invariants, kn_mythar = Some invs,
               kn_interfaces = [''governance-kernel'', ''evidence-layer'', ''validation-gate''],
               kn_evidence = [''receipts'', ''lineage'', ''replay-logs'']\<rparr>;
          (_, s4) = recordReceipt E \<lparr>a_type = ''plan'', a_payload = [(''goal'', JStr goal), (''constitution'', constitution_json c)]\<rparr>
             [''CMAS-ARC-001'', ''CMAS-ARC-002''] a2 s3
      in ((i, c, rules), updateAgentStatus i AgentDone (Some (Out_constitution c)) None s4))"

subsection \<open>The builder\<close>

definition substrate_json :: "substrate \<Rightarrow> json" where
  "substrate_json u = JObj [(''id'', JStr (su_id u)), (''name'', JStr (su_name u)), (''description'', JStr (su_desc u)),
     (''artifacts'', jstrs (su_artifacts u)), (''evidenceBundles'', jstrs (su_evidence u)), (''readyForPromotion'', JBool (su_ready u))]"

definition builderCreateSubstrate :: "host \<Rightarrow> constitution \<Rightarrow> 'a cmas_st_scheme \<Rightarrow> (string \<times> substrate) \<times> 'a cmas_st_scheme" where
  "builderCreateSubstrate H c s =
     (let E = w_sys (h_world H);
          (i, s1) = spawnAgent E Builder ''Constitutional Builder'' (''Build substrate for: '' @ kn_purpose c) None s;
          s2 = updateAgentStatus i AgentRunning None None s1;
          (n, s3) = take_now E s2;
          u = \<lparr>su_id = ''sub-'' @ show_int n, su_name = take 40 (kn_purpose c) @ ''-substrate'',
               su_desc = ''Substrate built from architectural constitution'', su_artifacts = map (\<lambda>x. x @ ''-substration'') (kn_interfaces c),
               su_evidence = kn_evidence c, su_ready = True\<rparr>;
          (_, s4) = recordReceipt E \<lparr>a_type = ''generate'', a_payload = [(''goal'', JStr (kn_purpose c)), (''substrate'', substrate_json u)]\<rparr>
             [''CMAS-BLD-001''] a2 s3
      in ((i, u), updateAgentStatus i AgentDone (Some (Out_substrate u)) None s4))"

subsection \<open>The implementor\<close>

definition implementorRealize ::
    "host \<Rightarrow> substrate \<Rightarrow> string option \<Rightarrow> 'a cmas_st_scheme \<Rightarrow> (string + (string \<times> exec_module)) \<times> 'a cmas_st_scheme" where
  "implementorRealize H u language s =
     (let E = w_sys (h_world H); lang = or_else language ''TypeScript'';
          (i, s1) = spawnAgent E Implementor ''Constitutional Implementor'' (''Realize: '' @ su_name u) None s;
          s2 = updateAgentStatus i AgentRunning None None s1;
          (n, s3) = take_now E s2;
          mid = ''mod-'' @ show_int n;
          (r, s4) = generateCompletion (h_world H)
             \<lparr>cr_prefix = ''// Module: '' @ mid @ NL @ ''// Implements: '' @ su_name u @ NL, cr_suffix = NL @ ''// End of module'',
              cr_language = lang, cr_file = None, cr_projectFiles = None\<rparr> s3
      in case r of
           Inl e \<Rightarrow> (Inl e, updateAgentStatus i AgentFailed None (Some e) s4)
         | Inr x \<Rightarrow>
             let code = (case cs_suggestions x of g # gs \<Rightarrow> sg_text g
                         | [] \<Rightarrow> ''// '' @ mid @ '' generated from '' @ su_name u @ NL @ ''export {};'' @ NL);
                 m = \<lparr>mo_code = code, mo_language = lang, mo_id = mid, mo_proofs = map (\<lambda>b. b @ ''-conformed'') (su_evidence u)\<rparr>;
                 (_, s5) = recordReceipt E \<lparr>a_type = ''generate'', a_payload = [(''substrate'', JStr (su_name u)), (''moduleId'', JStr mid)]\<rparr>
                    [''CMAS-IMP-001''] a2 s4
             in (Inr (i, m), updateAgentStatus i AgentDone (Some (Out_module m)) None s5))"

subsection \<open>The validator\<close>

definition mk_check :: "string \<Rightarrow> string \<Rightarrow> bool \<Rightarrow> string \<Rightarrow> string \<Rightarrow> string \<Rightarrow> val_check" where
  "mk_check i name ok good bad sev = \<lparr>vc_id = i, vc_name = name, vc_passed = ok, vc_detail = Some (if ok then good else bad),
     vc_severity = (if ok then ''info'' else sev)\<rparr>"

definition check_action :: "host \<Rightarrow> action \<Rightarrow> 'a cmas_st_scheme \<Rightarrow> val_check \<times> 'a cmas_st_scheme" where
  "check_action H a s =
     (let (v, s1) = validateAction (w_sys (h_world H)) a s
      in (mk_check ''VAL-001'' ''Governance action validation'' (v = VOk) ''Action passes all constitutional invariants''
            (case v of VOk \<Rightarrow> [] | VFail r w \<Rightarrow> ''Blocked: '' @ r) ''error'', s1))"

text \<open>\<open>receipt.lineage.length\<close>, as the text shows it.\<close>

definition lineage_count :: "json option \<Rightarrow> string + string" where
  "lineage_count v = (case v of None \<Rightarrow> Inl ''Cannot read properties of undefined'' | Some JNull \<Rightarrow> Inl ''Cannot read properties of null''
     | Some (JArr xs) \<Rightarrow> Inr (show_nat (length xs)) | Some (JStr t) \<Rightarrow> Inr (show_nat (length t))
     | Some (JObj fs) \<Rightarrow> Inr (case map_of fs ''length'' of None \<Rightarrow> ''undefined'' | Some w \<Rightarrow> js_string w) | Some _ \<Rightarrow> Inr ''undefined'')"

definition mythar_check_id :: "string \<Rightarrow> string" where
  "mythar_check_id e = ''MYTH-'' @ map (\<lambda>c. let n = code_of c in
     if (48 \<le> n \<and> n \<le> 57) \<or> (65 \<le> n \<and> n \<le> 90) \<or> (97 \<le> n \<and> n \<le> 122) then c else CHR ''-'') e"

definition mythar_check :: "mythar_invariant \<Rightarrow> mythar_receipt \<Rightarrow> string + val_check" where
  "mythar_check i r =
     (let ok = truthy (mx_valid r);
          detail = (if ok then (case lineage_count (mx_lineage r) of Inl e \<Rightarrow> Inl e
                       | Inr n \<Rightarrow> Inr (''Expression '' @ quoted (mi_expression i) @ '' compiles with '' @ n @ '' registry refs''))
                    else (case field_of (or_else (mi_compilation i) JNull) ''diagnostics'' of Inl e \<Rightarrow> Inl e
                       | Inr d \<Rightarrow> Inr (''Compilation failed: '' @ (case d of None \<Rightarrow> ''undefined'' | Some v \<Rightarrow> stringify v))))
      in case detail of Inl e \<Rightarrow> Inl e
         | Inr t \<Rightarrow> Inr \<lparr>vc_id = mythar_check_id (mi_expression i), vc_name = ''Mythar invariant: '' @ mi_description i,
              vc_passed = ok, vc_detail = Some t, vc_severity = (if ok then ''info'' else ''error'')\<rparr>)"

text \<open>The loops over the rules and their invariants; what was pushed before an error stays.\<close>

fun check_mythar ::
    "host \<Rightarrow> mythar_config \<Rightarrow> string \<Rightarrow> (string \<times> mythar_invariant) list \<Rightarrow> val_check list \<Rightarrow> mythar_receipt list \<Rightarrow> 'a cmas_st_scheme \<Rightarrow>
     (string option \<times> val_check list \<times> mythar_receipt list) \<times> 'a cmas_st_scheme" where
  "check_mythar H c stage [] cs rs s = ((None, cs, rs), s)"
| "check_mythar H c stage ((color, i) # is) cs rs s =
     (if \<not> truthy (mi_compilation i) then check_mythar H c stage is cs rs s
      else case generateInvariantReceipt (w_sys (h_world H)) (w_http (h_world H)) c stage color (mi_expression i) s of
             (Inl e, s1) \<Rightarrow> ((Some e, cs, rs), s1)
           | (Inr r, s1) \<Rightarrow>
               (case mythar_check i r of
                  Inl e \<Rightarrow> ((Some e, cs, rs @ [r]), s1)
                | Inr k \<Rightarrow> check_mythar H c stage is (cs @ [k]) (rs @ [r]) s1))"

definition mythar_checks ::
    "host \<Rightarrow> mythar_rule list option \<Rightarrow> string option \<Rightarrow> string \<Rightarrow> 'a cmas_st_scheme \<Rightarrow>
     (val_check list \<times> mythar_receipt list) \<times> 'a cmas_st_scheme" where
  "mythar_checks H rules host stage s =
     (if rules = None \<or> \<not> given_str host then (([], []), s)
      else let ((err, cs, rs), s1) = check_mythar H (mythar_at (the host)) stage
                 (concat (map (\<lambda>l. map (\<lambda>i. (ml_color l, i)) (ml_invariants l)) (the rules))) [] [] s
           in ((cs @ (case err of None \<Rightarrow> [] | Some e \<Rightarrow> [\<lparr>vc_id = ''MYTH-ERR'', vc_name = ''Mythar API connectivity'', vc_passed = False,
                  vc_detail = Some e, vc_severity = ''warning''\<rparr>]), rs), s1))"

definition evidence_checks :: "nat \<Rightarrow> receipt list \<Rightarrow> val_check list" where
  "evidence_checks n l =
     (let tail = (if l = [] then [] else g_hash (last l))
      in [mk_check ''VAL-002'' ''Continuity / replay verification'' (0 < n) (show_nat n @ '' snapshots available for replay'')
            ''No continuity snapshots found'' ''warning'',
          mk_check ''VAL-003'' ''Evidence layer integrity'' (l \<noteq> []) (show_nat (length l) @ '' receipts in ledger'')
            (''Empty ledger '' @ em_dash @ '' no evidence recorded'') ''error'',
          mk_check ''VAL-004'' ''Lineage continuity'' (tail \<noteq> []) (''Lineage hash: '' @ tail) ''No lineage established'' ''error''])"

definition report_of :: "string \<Rightarrow> string \<Rightarrow> val_check list \<Rightarrow> val_report" where
  "report_of i w cs =
     (let failed = length (filter (\<lambda>c. \<not> vc_passed c \<and> vc_severity c = ''error'') cs)
      in \<lparr>vr_agent = i, vr_workflow = w, vr_passed = (failed = 0), vr_checks = cs, vr_total = length cs,
          vr_passedCount = length (filter vc_passed cs), vr_failed = failed,
          vr_warnings = length (filter (\<lambda>c. \<not> vc_passed c \<and> vc_severity c = ''warning'') cs)\<rparr>)"

fun show_base36 :: "nat \<Rightarrow> string" where
  "show_base36 n = (let d = (\<lambda>k. if k < 10 then digit_char k else char_of (87 + k))
     in if n < 36 then [d n] else show_base36 (n div 36) @ [d (n mod 36)])"

declare show_base36.simps [simp del]

definition issue_certificate :: "sysenv \<Rightarrow> string \<Rightarrow> string \<Rightarrow> val_report \<Rightarrow> 'a sys_st_scheme \<Rightarrow> certificate option \<times> 'a sys_st_scheme" where
  "issue_certificate E i w r s =
     (if vr_passed r
      then let (t, s1) = take_now E s; (n, s2) = take_now E s1
           in (Some \<lparr>ce_agent = i, ce_workflow = w, ce_time = t, ce_valid = True, ce_checksum = ''sha256-'' @ show_base36 (nat n), ce_report = r\<rparr>, s2)
      else (None, s))"

definition validatorValidate ::
    "host \<Rightarrow> string \<Rightarrow> string \<Rightarrow> action \<Rightarrow> mythar_rule list option \<Rightarrow> string option \<Rightarrow> 'a cmas_st_scheme \<Rightarrow>
     (string \<times> val_report \<times> certificate option \<times> mythar_receipt list option) \<times> 'a cmas_st_scheme" where
  "validatorValidate H w role a rules host s =
     (let E = w_sys (h_world H);
          (i, s1) = spawnAgent E Validator ''Constitutional Validator'' (''Validate: '' @ role @ '' action for '' @ w) None s;
          s2 = updateAgentStatus i AgentRunning None None s1;
          (c, s3) = check_action H a s2;
          ((ms, rs), s4) = mythar_checks H rules host role s3;
          (l, s5) = getLedger s4;
          r = report_of i w (c # ms @ evidence_checks (length (snapshots s4)) l);
          (cert, s6) = issue_certificate E i w r s5;
          (_, s7) = recordReceipt E (run_action [(''validator'', JStr i), (''workflowId'', JStr w)])
             [''CMAS-VAL-001'', ''CMAS-VAL-002'', ''CMAS-VAL-003'', ''CMAS-VAL-004''] a2 s6
      in ((i, r, cert, if rs = [] then None else Some rs),
          updateAgentStatus i (if vr_passed r then AgentDone else AgentFailed) (Some (Out_report r cert)) None s7))"

text \<open>Each receipt of the workflow after the first has to name the hash of the one before it.\<close>

fun unbroken :: "receipt list \<Rightarrow> bool" where
  "unbroken (x # y # rs) = (g_prev y = g_hash x \<and> unbroken (y # rs))"
| "unbroken rs = True"

definition of_workflow :: "string \<Rightarrow> receipt \<Rightarrow> bool" where
  "of_workflow w r \<longleftrightarrow> jget_str (a_payload (g_action r)) ''workflowId'' = Some w"

definition validatorVerifyLineage :: "string \<Rightarrow> 'a gov_st_scheme \<Rightarrow> bool \<times> 'a gov_st_scheme" where
  "validatorVerifyLineage w s = (let (l, s1) = getLedger s; rs = filter (of_workflow w) l in (rs \<noteq> [] \<and> unbroken rs, s1))"

subsection \<open>The reviewer\<close>

definition review_part_of :: "bool \<Rightarrow> string \<Rightarrow> string \<Rightarrow> review_part" where
  "review_part_of ok good bad = \<lparr>rp_sound = ok, rp_notes = (if ok then good else bad)\<rparr>"

definition reviewerReview ::
    "host \<Rightarrow> string \<Rightarrow> constitution \<Rightarrow> substrate \<Rightarrow> exec_module \<Rightarrow> val_report \<Rightarrow> 'a cmas_st_scheme \<Rightarrow> (string \<times> dossier) \<times> 'a cmas_st_scheme" where
  "reviewerReview H w c u m v s =
     (let E = w_sys (h_world H);
          (i, s1) = spawnAgent E Reviewer ''Constitutional Reviewer'' (''Meta-governance review for '' @ w) None s;
          s2 = updateAgentStatus i AgentRunning None None s1;
          (n, s3) = take_now E s2;
          drift = False;
          d = \<lparr>do_id = ''review-'' @ show_base36 (nat n), do_workflow = w,
               do_architecture = review_part_of (3 \<le> length (kn_invariants c)) ''Constitution contains sufficient invariant coverage''
                 ''More invariants needed for robust governance'',
               do_builder = review_part_of (su_ready u) ''Substrate ready for promotion'' ''Substrate not ready'',
               do_implementor = review_part_of (mo_proofs m \<noteq> []) (show_nat (length (mo_proofs m)) @ '' conformance proofs present'')
                 ''No conformance proofs attached'',
               do_validator = review_part_of (vr_passed v) (''All '' @ show_nat (vr_total v) @ '' checks passed'')
                 (show_nat (vr_failed v) @ '' validation checks failed''),
               do_drift = drift, do_driftItems = [],
               do_erosion = map (\<lambda>k. \<lparr>er_invariant = ci_id k, er_status = ''stable'',
                 er_evidence = (if list_ex (\<lambda>p. str_includes p (ci_id k) \<and> p \<noteq> []) (mo_proofs m) then ''conformance-proof-present'' else ''not-explicitly-verified'')\<rparr>)
                 (kn_invariants c),
               do_recommendations = [if drift then ''Address governance drift before next cycle''
                   else ''No drift detected '' @ em_dash @ '' continue'',
                 ''Schedule periodic constitutional health check'', ''Maintain evidence layer integrity across all substrates'']\<rparr>;
          (_, s4) = recordReceipt E (run_action [(''reviewer'', JStr i), (''workflowId'', JStr w)]) [''CMAS-RVW-001''] a2 s3
      in ((i, d), updateAgentStatus i AgentDone (Some (Out_dossier d)) None s4))"

subsection \<open>What the steps of a validation keep\<close>

lemma only_tick_trans: "only_tick s t \<Longrightarrow> only_tick t u \<Longrightarrow> only_tick s u"
  unfolding only_tick_def by (erule ssubst, erule ssubst) simp

lemma request_tick: "only_tick s (snd (mythar_request F c path body s))"
  by (auto simp: mythar_request_def Let_def split: http_answer.split option.split)

lemma compile_tick: "only_tick s (snd (mythar_compile F c e m s))"
  by (simp add: mythar_compile_def request_tick)

lemma receipt_of_tick: "only_tick s (snd (receipt_of E stage color e v s))"
  by (auto simp: receipt_of_def take_now_def split: sum.split)

lemma invariant_receipt_tick: "only_tick s (snd (generateInvariantReceipt E F c stage color e s))"
proof -
  obtain r t where "mythar_compile F c e None s = (r, t)" by fastforce
  with compile_tick [of s F c e None] show ?thesis
    by (cases r) (auto simp: generateInvariantReceipt_def intro: only_tick_trans receipt_of_tick)
qed

lemma compileInvariants_tick: "only_tick s (snd (compileInvariants F c is s))"
proof (induction "is" arbitrary: s)
  case (Cons i "is")
  show ?case using only_tick_trans [OF compile_tick Cons.IH] by (simp add: Let_def case_prod_beta)
qed simp

lemma check_mythar_tick: "only_tick s (snd (check_mythar H c stage is cs rs s))"
proof (induction "is" arbitrary: cs rs s)
  case (Cons k "is")
  obtain color i where k: "k = (color, i)" by fastforce
  obtain r t where r: "generateInvariantReceipt (w_sys (h_world H)) (w_http (h_world H)) c stage color (mi_expression i) s = (r, t)" by fastforce
  then have "only_tick s t"
    using invariant_receipt_tick [of s "w_sys (h_world H)" "w_http (h_world H)" c stage color "mi_expression i"] by simp
  with Cons.IH k r show ?case by (auto split: sum.split intro: only_tick_trans)
qed simp

lemma mythar_checks_tick: "only_tick s (snd (mythar_checks H rules host stage s))"
  by (simp add: mythar_checks_def Let_def case_prod_beta check_mythar_tick)

lemma only_tick_cmas:
  fixes s s' :: "'a cmas_st_scheme"
  shows "only_tick s s' \<Longrightarrow> receipts s' = receipts s" "only_tick s s' \<Longrightarrow> gov_invariants s' = gov_invariants s"
    "only_tick s s' \<Longrightarrow> cmas_agents s' = cmas_agents s" "only_tick s s' \<Longrightarrow> snapshots s' = snapshots s"
  by (unfold only_tick_def; erule ssubst; simp)+

lemma receipts_agents [simp]: "receipts ((s :: 'a cmas_st_scheme)\<lparr>cmas_agents := x\<rparr>) = receipts s"
  by (simp add: receipts_def ensureLoaded_def)

lemma registry_receipts [simp]:
  "receipts (snd (spawnAgent E r n d p s)) = receipts s" "receipts (updateAgentStatus i st out err s) = receipts s"
  "gov_invariants (snd (spawnAgent E r n d p s)) = gov_invariants s" "gov_invariants (updateAgentStatus i st out err s) = gov_invariants s"
  "snapshots (snd (spawnAgent E r n d p s)) = snapshots s" "snapshots (updateAgentStatus i st out err s) = snapshots s"
  by (simp_all add: spawnAgent_def updateAgentStatus_def take_uuid_def take_now_def Let_def)

lemma spawned:
  assumes "spawnAgent E r n d p s = (i, s')"
  shows "receipts s' = receipts s" "gov_invariants s' = gov_invariants s" "snapshots s' = snapshots s"
    "\<exists>a. js_get (cmas_agents s') i = Some a \<and> ca_role a = r \<and> ca_id a = i"
  using assms registry_receipts(1,3,5) [of E r n d p s] by (auto simp: spawnAgent_def take_uuid_def take_now_def Let_def)

lemma updated: "js_get (cmas_agents (updateAgentStatus i st out err s)) j =
    (if j = i then map_option (\<lambda>a. a\<lparr>ca_status := st, ca_output := (case out of Some v \<Rightarrow> Some v | None \<Rightarrow> ca_output a),
       ca_error := (case err of Some e \<Rightarrow> Some e | None \<Rightarrow> ca_error a)\<rparr>) (js_get (cmas_agents s) i) else js_get (cmas_agents s) j)"
  by (simp add: updateAgentStatus_def)

lemma validate_cmas [simp]:
  "cmas_agents (snd (validateAction E a s)) = cmas_agents (s :: 'a cmas_st_scheme)" "snapshots (snd (validateAction E a s)) = snapshots s"
proof -
  obtain n vs where "snd (validateAction E a s) = s\<lparr>tick := n, gov_violations := gov_violations s @ vs\<rparr>"
    using validateAction_effect by blast
  then show "cmas_agents (snd (validateAction E a s)) = cmas_agents s" "snapshots (snd (validateAction E a s)) = snapshots s" by simp_all
qed

lemma record_cmas [simp]: "cmas_agents (snd (recordReceipt E a ch op s)) = cmas_agents (s :: 'a cmas_st_scheme)"
proof -
  obtain n l w where "snd (recordReceipt E a ch op s) = s\<lparr>tick := n, gov_ledger := l, gov_wal := w, gov_loaded := True\<rparr>"
    using recordReceipt_state by blast
  then show ?thesis by simp
qed

lemma ledger_receipts [simp]: "fst (getLedger s) = receipts s" "receipts (snd (getLedger s)) = receipts s"
  by (auto simp: getLedger_def receipts_def ensureLoaded_def Let_def)

lemma ledger_of [simp]: "receipts (snd (getLedger (s :: 'a cmas_st_scheme))) = receipts s"
  "cmas_agents (snd (getLedger (s :: 'a cmas_st_scheme))) = cmas_agents s"
  by (auto simp: getLedger_def receipts_def ensureLoaded_def Let_def)

text \<open>Every check that fails is an error or a warning.\<close>

definition graded :: "val_check \<Rightarrow> bool" where
  "graded c \<longleftrightarrow> vc_passed c \<or> vc_severity c = ''error'' \<or> vc_severity c = ''warning''"

lemma mk_check_simps [simp]:
  "vc_passed (mk_check i n ok g b sev) = ok" "vc_severity (mk_check i n ok g b sev) = (if ok then ''info'' else sev)"
  "vc_id (mk_check i n ok g b sev) = i"
  by (simp_all add: mk_check_def)

lemma mythar_check_facts: "mythar_check i r = Inr k \<Longrightarrow> graded k \<and> vc_passed k = truthy (mx_valid r) \<and> (\<not> vc_passed k \<longrightarrow> vc_severity k = ''error'')"
  by (auto simp: mythar_check_def graded_def Let_def split: sum.splits)

definition failing :: "val_check list \<Rightarrow> bool" where
  "failing cs \<longleftrightarrow> (\<exists>c\<in>set cs. \<not> vc_passed c \<and> vc_severity c = ''error'')"

definition flagged :: "mythar_receipt list \<Rightarrow> val_check list \<Rightarrow> bool" where
  "flagged rs cs \<longleftrightarrow> (\<forall>r\<in>set rs. truthy (mx_valid r)) \<or> failing cs"

lemma check_mythar_facts:
  assumes "check_mythar H c stage is cs rs s = ((err, cs', rs'), s')" and "list_all graded cs" and "flagged rs cs"
  shows "list_all graded cs' \<and> (err = None \<longrightarrow> flagged rs' cs')"
  using assms
proof (induction "is" arbitrary: cs rs s)
  case (Cons k "is")
  obtain color i where k: "k = (color, i)" by fastforce
  show ?case
  proof (cases "truthy (mi_compilation i)")
    case False
    with Cons.IH [of cs rs s] Cons.prems k show ?thesis by simp
  next
    case True
    obtain q t where q: "generateInvariantReceipt (w_sys (h_world H)) (w_http (h_world H)) c stage color (mi_expression i) s = (q, t)" by fastforce
    show ?thesis
    proof (cases q)
      case (Inl e)
      with Cons.prems k q True show ?thesis by auto
    next
      case (Inr r)
      show ?thesis
      proof (cases "mythar_check i r")
        case (Inl e)
        with Cons.prems k q True Inr show ?thesis by auto
      next
        case ok: (Inr v)
        from mythar_check_facts [OF this] Cons.prems(2,3)
        have "list_all graded (cs @ [v])" "flagged (rs @ [r]) (cs @ [v])" by (auto simp: flagged_def failing_def)
        with Cons.IH [of "cs @ [v]" "rs @ [r]" t] Cons.prems(1) k q True Inr ok show ?thesis by simp
      qed
    qed
  qed
qed auto

subsection \<open>Properties\<close>

lemma report_counts: "list_all graded cs \<Longrightarrow> vr_passedCount (report_of i w cs) + vr_failed (report_of i w cs) + vr_warnings (report_of i w cs) = vr_total (report_of i w cs)"
  by (induction cs) (auto simp: report_of_def graded_def Let_def)

lemma report_passed: "vr_passed (report_of i w cs) \<longleftrightarrow> \<not> failing cs"
  by (auto simp: report_of_def failing_def Let_def filter_empty_conv)

lemma mythar_checks_facts:
  assumes "mythar_checks H rules host stage s = ((ms, qs), t)"
  shows "list_all graded ms" "(\<forall>x\<in>set ms. vc_id x \<noteq> ''MYTH-ERR'') \<longrightarrow> flagged qs ms"
proof -
  have "list_all graded ms \<and> ((\<forall>x\<in>set ms. vc_id x \<noteq> ''MYTH-ERR'') \<longrightarrow> flagged qs ms)"
  proof (cases "rules = None \<or> \<not> given_str host")
    case True
    with assms show ?thesis by (auto simp: mythar_checks_def flagged_def)
  next
    case False
    let ?is = "concat (map (\<lambda>l. map (\<lambda>i. (ml_color l, i)) (ml_invariants l)) (the rules))"
    obtain err cs1 rs1 t where x: "check_mythar H (mythar_at (the host)) stage ?is [] [] s = ((err, cs1, rs1), t)"
      by (cases "check_mythar H (mythar_at (the host)) stage ?is [] [] s"; cases "fst (check_mythar H (mythar_at (the host)) stage ?is [] [] s)") simp
    have f: "list_all graded cs1 \<and> (err = None \<longrightarrow> flagged rs1 cs1)" using check_mythar_facts [OF x] by (simp add: flagged_def)
    have "ms = cs1 @ (case err of None \<Rightarrow> [] | Some e \<Rightarrow> [\<lparr>vc_id = ''MYTH-ERR'', vc_name = ''Mythar API connectivity'',
        vc_passed = False, vc_detail = Some e, vc_severity = ''warning''\<rparr>])" "qs = rs1"
      using assms False x by (simp_all add: mythar_checks_def)
    with f show ?thesis by (cases err) (simp_all add: graded_def)
  qed
  then show "list_all graded ms" "(\<forall>x\<in>set ms. vc_id x \<noteq> ''MYTH-ERR'') \<longrightarrow> flagged qs ms" by simp_all
qed

lemma evidence_facts: "list_all graded (evidence_checks n l)" "\<not> failing (evidence_checks n l) \<longleftrightarrow> l \<noteq> [] \<and> g_hash (last l) \<noteq> []"
  by (simp_all add: evidence_checks_def Let_def graded_def failing_def)

lemma check_action_facts:
  assumes "check_action H a s = (k, t)"
  shows "vc_passed k \<longleftrightarrow> fst (validateAction (w_sys (h_world H)) a s) = VOk" "graded k" "\<not> vc_passed k \<longrightarrow> vc_severity k = ''error''"
    "vc_id k = ''VAL-001''" "receipts t = receipts s" "cmas_agents t = cmas_agents s"
  using assms by (auto simp: check_action_def case_prod_beta graded_def)

text \<open>What a validation does, taken apart.\<close>

lemma validation_parts:
  assumes "validatorValidate H w role a rules host s = ((i, r, cert, rs), s')"
  obtains k ms n where "r = report_of i w (k # ms @ evidence_checks n (receipts s))"
    and "vc_passed k \<longleftrightarrow> fst (validateAction E a s) = VOk" and "graded k" and "\<not> vc_passed k \<longrightarrow> vc_severity k = ''error''"
    and "list_all graded ms" and "(\<forall>x\<in>set ms. vc_id x \<noteq> ''MYTH-ERR'') \<longrightarrow> flagged (or_else rs []) ms"
    and "cert \<noteq> None \<longleftrightarrow> vr_passed r" and "\<exists>x. receipts s' = receipts s @ [x]"
    and "map_option ca_status (getAgent i s') = Some (if vr_passed r then AgentDone else AgentFailed)"
proof -
  let ?E = "w_sys (h_world H)"
  obtain j s1 where s1: "spawnAgent ?E Validator ''Constitutional Validator'' (''Validate: '' @ role @ '' action for '' @ w) None s = (j, s1)" by fastforce
  define s2 where "s2 = updateAgentStatus j AgentRunning None None s1"
  obtain k s3 where k: "check_action H a s2 = (k, s3)" by fastforce
  obtain ms qs s4 where m: "mythar_checks H rules host role s3 = ((ms, qs), s4)" by (metis prod.collapse)
  define cs where "cs = k # ms @ evidence_checks (length (snapshots s4)) (receipts s4)"
  obtain c s6 where c: "issue_certificate ?E j w (report_of j w cs) (snd (getLedger s4)) = (c, s6)" by fastforce
  let ?a = "run_action [(''validator'', JStr j), (''workflowId'', JStr w)]" and ?ids = "[''CMAS-VAL-001'', ''CMAS-VAL-002'', ''CMAS-VAL-003'', ''CMAS-VAL-004'']"
  have r: "i = j" "r = report_of j w cs" "cert = c" "rs = (if qs = [] then None else Some qs)"
    "s' = updateAgentStatus j (if vr_passed r then AgentDone else AgentFailed) (Some (Out_report r c)) None (snd (recordReceipt ?E ?a ?ids a2 s6))"
    using assms s1 k m c ledger_receipts(1) [of s4]
    by (auto simp: validatorValidate_def Let_def case_prod_beta s2_def cs_def)
  have e: "receipts s2 = receipts s" "gov_invariants s2 = gov_invariants s" "\<exists>x. js_get (cmas_agents s2) j = Some x"
    using spawned [OF s1] by (auto simp: s2_def updated)
  note k1 = check_action_facts [OF k]
  have v: "fst (validateAction ?E a s2) = VOk \<longleftrightarrow> fst (validateAction E a s) = VOk"
    using validateAction_ok [of E a s] validateAction_ok [of ?E a s2] e(2) by simp
  have s4: "receipts s4 = receipts s" "cmas_agents s4 = cmas_agents s2"
    using only_tick_cmas [OF mythar_checks_tick [of s3 H rules host role]] m k1(5,6) e(1) by simp_all
  have s6: "receipts s6 = receipts s4" "cmas_agents s6 = cmas_agents s4"
    using c ledger_of [of s4] by (auto simp: issue_certificate_def take_now_def split: if_splits)
  note my = mythar_checks_facts [OF m]
  show ?thesis
  proof (rule that [of k ms "length (snapshots s4)"])
    show "r = report_of i w (k # ms @ evidence_checks (length (snapshots s4)) (receipts s))" using r(1,2) s4(1) by (simp add: cs_def)
    show "vc_passed k \<longleftrightarrow> fst (validateAction E a s) = VOk" using k1(1) v by simp
    show "(\<forall>x\<in>set ms. vc_id x \<noteq> ''MYTH-ERR'') \<longrightarrow> flagged (or_else rs []) ms" using my(2) by (auto simp: r(4) or_else_def)
    show "cert \<noteq> None \<longleftrightarrow> vr_passed r" using c by (auto simp: r issue_certificate_def case_prod_beta Let_def split: if_splits)
    show "\<exists>x. receipts s' = receipts s @ [x]" using s4(1) s6(1) by (simp add: r(5) record_facts)
    show "map_option ca_status (getAgent i s') = Some (if vr_passed r then AgentDone else AgentFailed)"
      using e(3) s4(2) s6(2) by (auto simp: r(1,5) getAgent_def updated)
  qed (use k1(2,3) my(1) in auto)
qed

lemma validation_passed:
  assumes "validatorValidate H w role a rules host s = ((i, r, cert, rs), s')" and "vr_passed r"
  shows "fst (validateAction E a s) = VOk"
  using assms(2) by (rule_tac validation_parts [OF assms(1), of E]) (auto simp: report_passed failing_def)

text \<open>What a validation reports. It passes only for an action the validator accepts, over a ledger with a last hash, and with every
  Mythar receipt it returns valid, unless the compiler could not be used, which only warns, like the lack of
  a snapshot. Its counts add up. A certificate is issued exactly when it passes, the registry shows the
  validator as done or failed accordingly, and exactly one receipt is added.\<close>

theorem validation_outcome:
  assumes "validatorValidate H w role a rules host s = ((i, r, cert, rs), s')"
  shows "(vr_passed r \<longrightarrow> fst (validateAction E a s) = VOk \<and> receipts s \<noteq> [] \<and> g_hash (last (receipts s)) \<noteq> [] \<and>
            ((\<forall>c\<in>set (vr_checks r). vc_id c \<noteq> ''MYTH-ERR'') \<longrightarrow> (\<forall>x\<in>set (or_else rs []). truthy (mx_valid x)))) \<and>
     vr_passedCount r + vr_failed r + vr_warnings r = vr_total r \<and> vr_total r = length (vr_checks r) \<and>
     (cert \<noteq> None \<longleftrightarrow> vr_passed r) \<and>
     map_option ca_status (getAgent i s') = Some (if vr_passed r then AgentDone else AgentFailed) \<and>
     (\<exists>x. receipts s' = receipts s @ [x])"
proof -
  obtain k ms n where r: "r = report_of i w (k # ms @ evidence_checks n (receipts s))"
    and k: "vc_passed k \<longleftrightarrow> fst (validateAction E a s) = VOk" "graded k" "\<not> vc_passed k \<longrightarrow> vc_severity k = ''error''"
    and ms: "list_all graded ms" "(\<forall>x\<in>set ms. vc_id x \<noteq> ''MYTH-ERR'') \<longrightarrow> flagged (or_else rs []) ms"
    and rest: "cert \<noteq> None \<longleftrightarrow> vr_passed r" "\<exists>x. receipts s' = receipts s @ [x]"
      "map_option ca_status (getAgent i s') = Some (if vr_passed r then AgentDone else AgentFailed)"
    using validation_parts [OF assms, of E] by blast
  let ?cs = "k # ms @ evidence_checks n (receipts s)"
  have "failing ?cs \<longleftrightarrow> \<not> vc_passed k \<or> failing ms \<or> failing (evidence_checks n (receipts s))" using k(3) by (auto simp: failing_def)
  then have pass: "vr_passed r \<longleftrightarrow> vc_passed k \<and> \<not> failing ms \<and> receipts s \<noteq> [] \<and> g_hash (last (receipts s)) \<noteq> []"
    using evidence_facts(2) [of n "receipts s"] unfolding r report_passed by simp
  have "list_all graded ?cs" using k(2) ms(1) evidence_facts(1) by simp
  from report_counts [OF this, of i w] have counts: "vr_passedCount r + vr_failed r + vr_warnings r = vr_total r" by (simp add: r)
  have checks: "vr_checks r = ?cs" "vr_total r = length ?cs" by (simp_all add: r report_of_def Let_def)
  have "vr_passed r \<Longrightarrow> \<forall>c\<in>set (vr_checks r). vc_id c \<noteq> ''MYTH-ERR'' \<Longrightarrow> \<forall>x\<in>set (or_else rs []). truthy (mx_valid x)"
    using ms(2) pass by (auto simp: checks flagged_def)
  then show ?thesis using pass k(1) counts checks rest by auto
qed

definition demo_cmas :: cmas_st where
  "demo_cmas = agent_st.extend demo_agent \<lparr>cmas_agents = []\<rparr>"

lemma demo_cmas_receipts [simp]: "receipts demo_cmas = []"
  by (simp add: receipts_def ensureLoaded_def demo_cmas_def demo_agent_def demo_work_def demo_predict_def agent_st.defs work_st.defs predict_st.defs)

theorem validation_outcome_witness:
  "\<not> vr_passed (fst (snd (fst (validatorValidate demo_host ''wf-1'' ''implementor'' (run_action []) None None demo_cmas))))"
proof -
  let ?v = "validatorValidate demo_host ''wf-1'' ''implementor'' (run_action []) None None demo_cmas"
  have "?v = ((fst (fst ?v), fst (snd (fst ?v)), fst (snd (snd (fst ?v))), snd (snd (snd (fst ?v)))), snd ?v)" by simp
  from validation_outcome [OF this] show ?thesis by auto
qed

text \<open>In a chain whose hashes all differ, the receipts of a workflow follow each other without a gap exactly when no other
  receipt stands between two of them: after the first of them and those right behind it there is none.\<close>

lemma drop_all: "list_all (\<lambda>x. \<not> P x) c \<Longrightarrow> list_all (\<lambda>x. \<not> P x) (dropWhile Q c)"
  by (auto simp: list_all_iff dest: set_dropWhileD)

lemma block_form:
  "(\<exists>a b c. l = a @ b @ c \<and> list_all P b \<and> list_all (\<lambda>x. \<not> P x) (a @ c)) \<longleftrightarrow>
     list_all (\<lambda>x. \<not> P x) (dropWhile P (dropWhile (\<lambda>x. \<not> P x) l))" (is "?L \<longleftrightarrow> ?R")
proof
  assume ?L
  then obtain a b c where l: "l = a @ b @ c" "list_all P b" "list_all (\<lambda>x. \<not> P x) a" "list_all (\<lambda>x. \<not> P x) c" by auto
  then have "dropWhile (\<lambda>x. \<not> P x) l = (if b = [] then dropWhile (\<lambda>x. \<not> P x) c else b @ c)"
    by (cases b) (auto simp: list_all_iff dropWhile_append2)
  moreover have "dropWhile P (b @ c) = dropWhile P c" using l(2) by (simp add: dropWhile_append2 list_all_iff)
  ultimately show ?R using l(4) by (simp add: drop_all)
next
  assume ?R
  moreover have "l = takeWhile (\<lambda>x. \<not> P x) l @ takeWhile P (dropWhile (\<lambda>x. \<not> P x) l) @ dropWhile P (dropWhile (\<lambda>x. \<not> P x) l)" by simp
  moreover have "list_all P (takeWhile P (dropWhile (\<lambda>x. \<not> P x) l))" "list_all (\<lambda>x. \<not> P x) (takeWhile (\<lambda>x. \<not> P x) l)"
    by (auto simp: list_all_iff dest: set_takeWhileD)
  ultimately show ?L by (metis list_all_append)
qed

lemma unbroken_run:
  assumes "linked g_prev g_hash (g_hash r) l" and "distinct (g_hash r # map g_hash l)"
  shows "unbroken (r # filter P l) \<longleftrightarrow> list_all (\<lambda>x. \<not> P x) (dropWhile P l)"
  using assms
proof (induction l arbitrary: r)
  case (Cons x l)
  show ?case
  proof (cases "P x")
    case True
    with Cons.IH [of x] Cons.prems show ?thesis by simp
  next
    case False
    have "filter P l = [] \<longleftrightarrow> list_all (\<lambda>x. \<not> P x) l" by (simp add: filter_empty_conv list_all_iff)
    moreover have "\<not> unbroken (r # filter P l)" if "filter P l \<noteq> []"
    proof -
      from that obtain w ws where w: "filter P l = w # ws" by (cases "filter P l") auto
      then obtain u v where l: "l = u @ w # v" by (meson filter_eq_ConsD)
      have "g_prev w = tail_hash g_hash (g_hash x) u" using Cons.prems(1) by (simp add: l linked_append)
      then have "g_prev w \<in> g_hash ` set (x # u)" by (auto simp: tail_hash_def split: if_splits)
      moreover have "g_hash r \<notin> g_hash ` set (x # u)" using Cons.prems(2) by (auto simp: l)
      ultimately have "g_prev w \<noteq> g_hash r" by metis
      with w show ?thesis by simp
    qed
    ultimately show ?thesis using False by (cases "filter P l = []") auto
  qed
qed simp

lemma unbroken_block:
  assumes "linked g_prev g_hash g l" and "distinct (map g_hash l)"
  shows "unbroken (filter P l) \<longleftrightarrow> list_all (\<lambda>x. \<not> P x) (dropWhile P (dropWhile (\<lambda>x. \<not> P x) l))"
  using assms
proof (induction l arbitrary: g)
  case (Cons x l)
  then show ?case using unbroken_run [of x l P] Cons.IH [of "g_hash x"] by (cases "P x") simp_all
qed simp

text \<open>C27. What the lineage check of a workflow decides: in a ledger that is a chain with no hash twice, the receipts of the
  workflow are accepted exactly when there is one and they form a single block, so any receipt of
  something else between two of them makes the check fail.\<close>

theorem workflow_lineage_is_a_block:
  assumes "receipts_linked (receipts s)" and "distinct (map g_hash (receipts s))"
  shows "fst (validatorVerifyLineage w s) \<longleftrightarrow>
     (\<exists>a b c. receipts s = a @ b @ c \<and> b \<noteq> [] \<and> list_all (of_workflow w) b \<and> list_all (\<lambda>x. \<not> of_workflow w x) (a @ c))"
proof -
  have "fst (validatorVerifyLineage w s) \<longleftrightarrow> filter (of_workflow w) (receipts s) \<noteq> [] \<and> unbroken (filter (of_workflow w) (receipts s))"
    by (simp add: validatorVerifyLineage_def case_prod_beta Let_def)
  moreover have "filter (of_workflow w) (receipts s) \<noteq> [] \<longleftrightarrow> b \<noteq> []"
    if "receipts s = a @ b @ c" "list_all (of_workflow w) b" "list_all (\<lambda>x. \<not> of_workflow w x) (a @ c)" for a b c
    using that by (cases b) (auto simp: filter_empty_conv list_all_iff)
  ultimately show ?thesis unfolding unbroken_block [OF assms] block_form [symmetric] by blast
qed

definition demo_wf_receipt :: "string \<Rightarrow> string \<Rightarrow> string \<Rightarrow> receipt" where
  "demo_wf_receipt w prev h = \<lparr>g_id = h, g_time = 0, g_auth = ''k'', g_lineage = [prev], g_prev = prev, g_hash = h,
     g_action = run_action [(''workflowId'', JStr w)], g_checked = [], g_continuity = [], g_ledgerHash = h, g_blocked = None, g_reason = None,
     g_evidence = None, g_level = None, g_crk1 = None\<rparr>"

theorem workflow_lineage_witness:
  "\<not> fst (validatorVerifyLineage ''w'' (demo_cmas\<lparr>gov_ledger := [demo_wf_receipt ''w'' ''genesis'' ''a'', demo_wf_receipt ''v'' ''a'' ''b'',
     demo_wf_receipt ''w'' ''b'' ''c'']\<rparr>))"
proof -
  let ?l = "[demo_wf_receipt ''w'' ''genesis'' ''a'', demo_wf_receipt ''v'' ''a'' ''b'', demo_wf_receipt ''w'' ''b'' ''c'']"
  let ?s = "demo_cmas\<lparr>gov_ledger := ?l\<rparr>"
  have l: "receipts ?s = ?l"
    by (simp add: receipts_def ensureLoaded_def demo_cmas_def demo_agent_def demo_work_def demo_predict_def agent_st.defs work_st.defs predict_st.defs)
  have f: "filter (of_workflow ''w'') ?l = [demo_wf_receipt ''w'' ''genesis'' ''a'', demo_wf_receipt ''w'' ''b'' ''c'']"
    by (simp add: of_workflow_def demo_wf_receipt_def run_action_def jget_str_def jget_def)
  have "\<not> unbroken (filter (of_workflow ''w'') ?l)" by (simp only: f) (simp add: demo_wf_receipt_def)
  moreover have h: "receipts_linked (receipts ?s)" "distinct (map g_hash (receipts ?s))"
    by (simp_all add: l) (simp_all add: demo_wf_receipt_def)
  ultimately show ?thesis
    using workflow_lineage_is_a_block [OF h, of "''w''"] unbroken_block [OF h, of "of_workflow ''w''"] unfolding l block_form [symmetric] by blast
qed

end
