(* ===== verification/Mechanic.thy ===== *)
theory Mechanic
  imports Cmas
begin

text \<open>
  The two clients of Python tools (\<open>agent/mechanic\<close> and \<open>agent/slingshot\<close>). What a script prints, what \<open>JSON.parse\<close> makes
  of it, which paths exist and what a file holds are parameters; the answers are JSON, so the interfaces the code casts them to
  are not assumed. A thrown error is on the left.
\<close>

subsection \<open>Scripts and their answers\<close>

record python =
  py_run :: "nat \<Rightarrow> string \<Rightarrow> string option \<Rightarrow> string + string"
  py_parse :: "string \<Rightarrow> string + json"
  py_exists :: "string \<Rightarrow> bool"
  py_read :: "string \<Rightarrow> string + string"

text \<open>The path of a module and the interpreter; \<open>JSON.stringify\<close> puts the script into the command.\<close>

definition run_python :: "python \<Rightarrow> string \<Rightarrow> string \<Rightarrow> string \<Rightarrow> string \<Rightarrow> 'a sys_st_scheme \<Rightarrow> (string + string) \<times> 'a sys_st_scheme" where
  "run_python P tool interpreter dir script s =
     ((case py_run P (tick s) (quoted interpreter @ '' -c '' @ json_quote script) (if py_exists P dir then Some dir else None) of
         Inl e \<Rightarrow> Inl (tool @ '' Python exec failed: '' @ e) | Inr out \<Rightarrow> Inr (js_trim out)), s\<lparr>tick := Suc (tick s)\<rparr>)"

definition run_json :: "python \<Rightarrow> string \<Rightarrow> string \<Rightarrow> string \<Rightarrow> string \<Rightarrow> 'a sys_st_scheme \<Rightarrow> (string + json) \<times> 'a sys_st_scheme" where
  "run_json P tool interpreter dir script s =
     (case run_python P tool interpreter dir script s of (Inl e, s1) \<Rightarrow> (Inl e, s1) | (Inr out, s1) \<Rightarrow> (py_parse P out, s1))"

definition script_lines :: "string \<Rightarrow> string list \<Rightarrow> string" where
  "script_lines dir ls = NL @ ''import sys, json'' @ NL @ ''sys.path.insert(0, '' @ json_quote dir @ '')'' @ NL @ concat (map (\<lambda>l. l @ NL) ls)"

text \<open>Reading an answer: property chains, arrays, what a template shows and comparisons.\<close>

primrec get_path :: "string list \<Rightarrow> json option \<Rightarrow> string + json option" where
  "get_path [] v = Inr v"
| "get_path (k # ks) v = (case v of None \<Rightarrow> Inl ''Cannot read properties of undefined''
     | Some w \<Rightarrow> (case field_of w k of Inl e \<Rightarrow> Inl e | Inr x \<Rightarrow> get_path ks x))"

definition js_array :: "json option \<Rightarrow> string + json list" where
  "js_array v = (case v of Some (JArr xs) \<Rightarrow> Inr xs | _ \<Rightarrow> Inl ''not a function'')"

definition js_iter :: "json option \<Rightarrow> string + json list" where
  "js_iter v = (case v of Some (JArr xs) \<Rightarrow> Inr xs | Some (JStr t) \<Rightarrow> Inr (map (\<lambda>c. JStr [c]) t) | _ \<Rightarrow> Inl ''not iterable'')"

definition show_value :: "json option \<Rightarrow> string" where
  "show_value v = (case v of None \<Rightarrow> ''undefined'' | Some w \<Rightarrow> js_string w)"

definition js_slice :: "nat \<Rightarrow> json option \<Rightarrow> string + string" where
  "js_slice n v = (case v of Some (JStr t) \<Rightarrow> Inr (take n t) | Some (JArr xs) \<Rightarrow> Inr (js_string (JArr (take n xs)))
     | _ \<Rightarrow> Inl ''slice is not a function'')"

definition js_length :: "json option \<Rightarrow> json option" where
  "js_length v = (case v of Some (JArr xs) \<Rightarrow> Some (jnat (length xs)) | Some (JStr t) \<Rightarrow> Some (jnat (length t))
     | Some (JObj fs) \<Rightarrow> map_of fs ''length'' | _ \<Rightarrow> None)"

definition positive :: "host \<Rightarrow> json option \<Rightarrow> bool" where
  "positive H v \<longleftrightarrow> (case js_number H v of Some n \<Rightarrow> 0 < n | None \<Rightarrow> False)"

text \<open>A loop that may throw.\<close>

primrec map_or :: "('a \<Rightarrow> string + 'b) \<Rightarrow> 'a list \<Rightarrow> string + 'b list" where
  "map_or f [] = Inr []"
| "map_or f (x # xs) = (case f x of Inl e \<Rightarrow> Inl e | Inr y \<Rightarrow> (case map_or f xs of Inl e \<Rightarrow> Inl e | Inr ys \<Rightarrow> Inr (y # ys)))"

definition or_throw :: "string + 'a \<Rightarrow> ('a \<Rightarrow> string + 'b) \<Rightarrow> string + 'b" where
  "or_throw x f = (case x of Inl e \<Rightarrow> Inl e | Inr v \<Rightarrow> f v)"

subsection \<open>Mechanic\<close>

definition backslash :: string where
  "backslash = [CHR 0x5C]"

definition DEFAULT_MECHANIC_DIR :: string where
  "DEFAULT_MECHANIC_DIR = ''G:'' @ backslash @ ''project-infi'' @ backslash @ ''mechanic''"

record mechanic_config =
  mg_python :: "string option"
  mg_dir :: "string option"
  mg_case :: "string option"

record mechanic_client =
  mk_python :: string
  mk_dir :: string
  mk_case :: string

definition new_mechanic :: "host \<Rightarrow> mechanic_config option \<Rightarrow> mechanic_client" where
  "new_mechanic H c = \<lparr>mk_python = or_else (Option.bind c mg_python) ''python'', mk_dir = or_else (Option.bind c mg_dir) DEFAULT_MECHANIC_DIR,
     mk_case = or_else (Option.bind c mg_case) (path_join (h_cwd H) ''.mechanic-cases'')\<rparr>"

definition mechanic_json :: "python \<Rightarrow> mechanic_client \<Rightarrow> string list \<Rightarrow> 'a sys_st_scheme \<Rightarrow> (string + json) \<times> 'a sys_st_scheme" where
  "mechanic_json P m ls = run_json P ''Mechanic'' (mk_python m) (mk_dir m) (script_lines (mk_dir m) ls)"

definition empty_genome :: "sysenv \<Rightarrow> string \<Rightarrow> 'a sys_st_scheme \<Rightarrow> json \<times> 'a sys_st_scheme" where
  "empty_genome E repoPath s = (let (t, s1) = take_now E s
     in (JObj [(''genomeHash'', JStr []), (''schemaVersion'', JStr ''process_genome.v1''), (''extractedAtUtc'', JStr (iso_string t)),
          (''metadata'', JObj [(''adapterIds'', JArr []), (''nodeCount'', JNum 0), (''edgeCount'', JNum 0), (''repoPath'', JStr repoPath)]),
          (''nodes'', JArr []), (''edges'', JArr [])], s1))"

definition empty_diagnosis :: json where
  "empty_diagnosis = JObj [(''drifts'', JArr []), (''claimRecords'', JArr []), (''invariantResults'', JArr []),
     (''summary'', JObj [(''totalDrifts'', JNum 0), (''classI'', JNum 0), (''classII'', JNum 0), (''classIII'', JNum 0),
        (''totalClaims'', JObj []), (''passed'', JBool True)])]"

definition extractGenome ::
    "sysenv \<Rightarrow> python \<Rightarrow> mechanic_client \<Rightarrow> string \<Rightarrow> string \<Rightarrow> string list option \<Rightarrow> string option \<Rightarrow> 'a sys_st_scheme \<Rightarrow>
     (json \<times> string list) \<times> 'a sys_st_scheme" where
  "extractGenome E P m caseId repoPath adapterIds tracePath s =
     (let (r, s1) = mechanic_json P m
            [''from mechanic.genome.extractor import extract_process_genome'', ''result = extract_process_genome('',
             ''  case_id='' @ json_quote caseId @ '','', ''  repo_path='' @ json_quote repoPath @ '','',
             ''  adapter_ids='' @ stringify (case adapterIds of None \<Rightarrow> JNull | Some xs \<Rightarrow> jstrs xs) @ '','',
             ''  trace_path='' @ stringify (jopt_str tracePath) @ '','', '')'', ''print(json.dumps(result, default=str))''] s
      in case r of Inr v \<Rightarrow> ((v, []), s1)
         | Inl e \<Rightarrow> (let (g, s2) = empty_genome E repoPath s1 in ((g, [e]), s2)))"

definition diagnoseGenome :: "python \<Rightarrow> mechanic_client \<Rightarrow> json \<Rightarrow> 'a sys_st_scheme \<Rightarrow> (json \<times> string list) \<times> 'a sys_st_scheme" where
  "diagnoseGenome P m genome s =
     (let (r, s1) = mechanic_json P m
            [''from mechanic.diagnosis.engine import diagnose_genome'', ''result = diagnose_genome(genome='' @ stringify genome @ '')'',
             ''print(json.dumps(result, default=str))''] s
      in (case r of Inr v \<Rightarrow> (v, []) | Inl e \<Rightarrow> (empty_diagnosis, [e]), s1))"

record mechanic_result =
  mr_ok :: "json option"
  mr_genome :: json
  mr_diagnosis :: "json option"
  mr_errors :: "string list"

definition scan ::
    "sysenv \<Rightarrow> python \<Rightarrow> mechanic_client \<Rightarrow> string \<Rightarrow> string \<Rightarrow> string list option \<Rightarrow> string option \<Rightarrow> 'a sys_st_scheme \<Rightarrow>
     (string + mechanic_result) \<times> 'a sys_st_scheme" where
  "scan E P m caseId repoPath adapterIds tracePath s =
     (let ((genome, errs), s1) = extractGenome E P m caseId repoPath adapterIds tracePath s
      in if errs \<noteq> [] then (Inr \<lparr>mr_ok = Some (JBool False), mr_genome = genome, mr_diagnosis = None, mr_errors = errs\<rparr>, s1)
         else (let ((report, derrs), s2) = diagnoseGenome P m genome s1
               in (or_throw (get_path [''summary'', ''passed''] (Some report))
                     (\<lambda>ok. Inr \<lparr>mr_ok = ok, mr_genome = genome, mr_diagnosis = Some report, mr_errors = derrs\<rparr>), s2)))"

record rebuild_plan =
  rb_action :: string
  rb_target :: "json option"
  rb_description :: "json option"
  rb_confidence :: jsnum
  rb_dryRun :: bool

definition plan_of :: "json \<Rightarrow> string + rebuild_plan" where
  "plan_of d = or_throw (field_of d ''source'') (\<lambda>src. or_throw (field_of d ''description'') (\<lambda>desc. or_throw (field_of d ''ma13Class'') (\<lambda>c.
     Inr \<lparr>rb_action = ''remediate'', rb_target = src, rb_description = desc,
       rb_confidence = (if c = Some (JStr ''I'') then dec 9 10 else if c = Some (JStr ''II'') then dec 6 10 else dec 3 10), rb_dryRun = True\<rparr>)))"

definition rebuild :: "python \<Rightarrow> mechanic_client \<Rightarrow> string \<Rightarrow> 'a sys_st_scheme \<Rightarrow> (rebuild_plan list \<times> string list) \<times> 'a sys_st_scheme" where
  "rebuild P m caseId s =
     (let dir = path_join (mk_case m) caseId
      in if \<not> py_exists P dir then (([], [''No case directory found for '' @ caseId]), s)
         else (case or_throw (py_read P (path_join dir ''genome.json'')) (py_parse P) of
                 Inl e \<Rightarrow> (([], [e]), s)
               | Inr genome \<Rightarrow>
                   (let ((report, _), s1) = diagnoseGenome P m genome s
                    in (case or_throw (field_of report ''drifts'') (\<lambda>ds. or_throw (js_array ds) (map_or plan_of)) of
                          Inl e \<Rightarrow> ([], [e]) | Inr plans \<Rightarrow> (plans, []), s1))))"

definition violation_text :: "json \<Rightarrow> string + string" where
  "violation_text d = or_throw (field_of d ''ma13Class'') (\<lambda>c. or_throw (field_of d ''description'') (\<lambda>t.
     Inr (''['' @ show_value c @ ''] '' @ show_value t)))"

definition is_error :: "json \<Rightarrow> string + bool" where
  "is_error d = or_throw (field_of d ''severity'') (\<lambda>v. Inr (v = Some (JStr ''error'')))"

definition verify_genome :: "python \<Rightarrow> mechanic_client \<Rightarrow> json \<Rightarrow> 'a sys_st_scheme \<Rightarrow> (string + bool \<times> string list) \<times> 'a sys_st_scheme" where
  "verify_genome P m genome s =
     (let ((report, _), s1) = diagnoseGenome P m genome s
      in (or_throw (field_of report ''drifts'') (\<lambda>v. or_throw (js_array v) (\<lambda>ds. or_throw (map_or is_error ds) (\<lambda>bs.
            or_throw (map_or violation_text (map snd (filter fst (zip bs ds)))) (\<lambda>vs. Inr (vs = [], vs))))), s1))"

definition getDefaultMechanicDir :: string where
  "getDefaultMechanicDir = DEFAULT_MECHANIC_DIR"

definition ensureMechanicDir :: "python \<Rightarrow> bool" where
  "ensureMechanicDir P = py_exists P DEFAULT_MECHANIC_DIR"

subsection \<open>Mechanic in a workflow\<close>

definition createMechanicSession :: "host \<Rightarrow> mechanic_client" where
  "createMechanicSession H = new_mechanic H None"

definition scanViaMechanic ::
    "sysenv \<Rightarrow> python \<Rightarrow> mechanic_client \<Rightarrow> string \<Rightarrow> string \<Rightarrow> 'a sys_st_scheme \<Rightarrow> (string + json \<times> json option \<times> string list) \<times> 'a sys_st_scheme" where
  "scanViaMechanic E P m workflowId repoPath s =
     (let (r, s1) = scan E P m workflowId repoPath None None s
      in (or_throw r (\<lambda>x. if \<not> truthy (mr_ok x) \<and> mr_errors x \<noteq> [] then Inr (mr_genome x, None, mr_errors x)
            else Inr (mr_genome x, mr_diagnosis x, [])), s1))"

definition diagnoseViaMechanic ::
    "python \<Rightarrow> mechanic_client \<Rightarrow> json \<Rightarrow> 'a sys_st_scheme \<Rightarrow> (string + json option \<times> json option \<times> json option) \<times> 'a sys_st_scheme" where
  "diagnoseViaMechanic P m genome s =
     (let ((report, errs), s1) = diagnoseGenome P m genome s
      in (if errs \<noteq> [] then Inr (Some (JBool False), Some (JArr []), Some (JArr []))
          else or_throw (get_path [''summary'', ''passed''] (Some report)) (\<lambda>p. or_throw (field_of report ''drifts'') (\<lambda>ds.
                 or_throw (field_of report ''claimRecords'') (\<lambda>cs. Inr (p, ds, cs)))), s1))"

definition artifact_node :: "nat \<times> string \<Rightarrow> json" where
  "artifact_node ia = (case ia of (i, a) \<Rightarrow> JObj [(''id'', JStr (''node-'' @ show_nat i)), (''type'', JStr ''transformation''), (''label'', JStr a),
     (''properties'', JObj [(''artifact'', JStr a)])])"

definition verifyViaMechanic ::
    "sysenv \<Rightarrow> python \<Rightarrow> mechanic_client \<Rightarrow> substrate \<Rightarrow> 'a sys_st_scheme \<Rightarrow> (string + bool \<times> string list) \<times> 'a sys_st_scheme" where
  "verifyViaMechanic E P m u s =
     (let (n, s1) = take_now E s; (t, s2) = take_now E s1;
          ((report, _), s3) = diagnoseGenome P m
            (JObj [(''genomeHash'', JStr (''verify-'' @ show_base36 (nat n))), (''schemaVersion'', JStr ''process_genome.v1''),
              (''extractedAtUtc'', JStr (iso_string t)),
              (''metadata'', JObj [(''adapterIds'', JArr []), (''nodeCount'', jnat (length (su_artifacts u))), (''edgeCount'', JNum 0),
                 (''repoPath'', JStr (su_id u))]),
              (''nodes'', JArr (map artifact_node (enumerate 0 (su_artifacts u)))), (''edges'', JArr [])]) s2
      in (or_throw (field_of report ''drifts'') (\<lambda>v. or_throw (js_iter v) (\<lambda>ds. or_throw (map_or violation_text ds) (\<lambda>vs. Inr (vs = [], vs)))), s3))"

definition buildClaimFromMechanic :: "json \<Rightarrow> string + json option \<times> json option \<times> json option" where
  "buildClaimFromMechanic r = or_throw (field_of r ''claimId'') (\<lambda>c. or_throw (field_of r ''label'') (\<lambda>l. or_throw (field_of r ''hash'') (\<lambda>h. Inr (c, l, h))))"

definition drift_check :: "json \<Rightarrow> string + val_check" where
  "drift_check d = or_throw (field_of d ''ma13Class'') (\<lambda>c. or_throw (field_of d ''id'') (\<lambda>i. or_throw (js_slice 8 i) (\<lambda>i8.
     or_throw (field_of d ''description'') (\<lambda>t. or_throw (js_slice 60 t) (\<lambda>t60.
       Inr \<lparr>vc_id = ''MECH-DRIFT-'' @ show_value c @ ''-'' @ i8, vc_name = ''Mechanic drift: '' @ t60, vc_passed = (c = Some (JStr ''I'')),
         vc_detail = Some (''MA13 class '' @ show_value c @ '': '' @ show_value t),
         vc_severity = (if c = Some (JStr ''III'') then ''error'' else if c = Some (JStr ''II'') then ''warning'' else ''info'')\<rparr>)))))"

definition mapMechanicDriftsToReceipts :: "json option \<Rightarrow> string + val_check list" where
  "mapMechanicDriftsToReceipts drifts = or_throw (js_array drifts) (map_or drift_check)"

subsection \<open>Answers of the declared types\<close>

datatype ma13 = Class_I | Class_II | Class_III

primrec ma13_text :: "ma13 \<Rightarrow> string" where
  "ma13_text Class_I = ''I''"
| "ma13_text Class_II = ''II''"
| "ma13_text Class_III = ''III''"

record drift =
  dr_id :: string
  dr_class :: ma13
  dr_desc :: string
  dr_source :: string
  dr_severity :: string
  dr_time :: string

record claim =
  cl_id :: string
  cl_label :: string
  cl_desc :: string
  cl_node :: string
  cl_time :: string
  cl_hash :: string

record inv_result =
  ir_id :: string
  ir_passed :: bool
  ir_detail :: string
  ir_severity :: string

record diag_summary =
  ds_total :: jsnum
  ds_I :: jsnum
  ds_II :: jsnum
  ds_III :: jsnum
  ds_claims :: "(string \<times> jsnum) list"
  ds_passed :: bool

record diagnosis =
  dg_drifts :: "drift list"
  dg_claims :: "claim list"
  dg_invariants :: "inv_result list"
  dg_summary :: diag_summary

definition drift_json :: "drift \<Rightarrow> json" where
  "drift_json d = JObj [(''id'', JStr (dr_id d)), (''ma13Class'', JStr (ma13_text (dr_class d))), (''description'', JStr (dr_desc d)),
     (''source'', JStr (dr_source d)), (''severity'', JStr (dr_severity d)), (''timestamp'', JStr (dr_time d))]"

definition claim_json :: "claim \<Rightarrow> json" where
  "claim_json c = JObj [(''claimId'', JStr (cl_id c)), (''label'', JStr (cl_label c)), (''description'', JStr (cl_desc c)),
     (''sourceNodeId'', JStr (cl_node c)), (''timestamp'', JStr (cl_time c)), (''hash'', JStr (cl_hash c))]"

definition inv_result_json :: "inv_result \<Rightarrow> json" where
  "inv_result_json i = JObj [(''invariantId'', JStr (ir_id i)), (''passed'', JBool (ir_passed i)), (''detail'', JStr (ir_detail i)),
     (''severity'', JStr (ir_severity i))]"

definition summary_json :: "diag_summary \<Rightarrow> json" where
  "summary_json d = JObj [(''totalDrifts'', JNum (ds_total d)), (''classI'', JNum (ds_I d)), (''classII'', JNum (ds_II d)),
     (''classIII'', JNum (ds_III d)), (''totalClaims'', JObj (map (\<lambda>(k, n). (k, JNum n)) (ds_claims d))), (''passed'', JBool (ds_passed d))]"

definition diagnosis_json :: "diagnosis \<Rightarrow> json" where
  "diagnosis_json g = JObj [(''drifts'', JArr (map drift_json (dg_drifts g))), (''claimRecords'', JArr (map claim_json (dg_claims g))),
     (''invariantResults'', JArr (map inv_result_json (dg_invariants g))), (''summary'', summary_json (dg_summary g))]"

definition drift_text :: "drift \<Rightarrow> string" where
  "drift_text d = ''['' @ ma13_text (dr_class d) @ ''] '' @ dr_desc d"

lemma or_throw_simps [simp]: "or_throw (Inl e) f = Inl e" "or_throw (Inr v) f = f v"
  by (simp_all add: or_throw_def)

lemma map_or_map: "\<forall>x\<in>set xs. f (g x) = Inr (h x) \<Longrightarrow> map_or f (map g xs) = Inr (map h xs)"
  by (induction xs) simp_all

lemma field_of_obj [simp]: "field_of (JObj fs) k = Inr (map_of fs k)"
  by (simp add: field_of_def)

lemma shown_values [simp]: "show_value (Some (JStr t)) = t" "show_value (Some (JNum n)) = num_str n"
  by (simp_all add: show_value_def)

lemma js_array_arr [simp]: "js_array (Some (JArr xs)) = Inr xs" "js_iter (Some (JArr xs)) = Inr xs"
  by (simp_all add: js_array_def js_iter_def)

lemma drift_values [simp]:
  "violation_text (drift_json d) = Inr (drift_text d)"
  "is_error (drift_json d) = Inr (dr_severity d = ''error'')"
  "\<exists>p. plan_of (drift_json d) = Inr p \<and> rb_target p = Some (JStr (dr_source d)) \<and> rb_dryRun p"
  by (simp_all add: violation_text_def is_error_def plan_of_def drift_json_def drift_text_def)

lemma drift_check_value:
  "\<exists>c. drift_check (drift_json d) = Inr c \<and> vc_passed c = (dr_class d = Class_I) \<and> (vc_severity c = ''error'') = (dr_class d = Class_III)"
  by (cases "dr_class d") (simp_all add: drift_check_def drift_json_def js_slice_def)

lemma drift_checks:
  "\<exists>cs. map_or drift_check (map drift_json ds) = Inr cs \<and> length cs = length ds \<and>
     (list_all vc_passed cs \<longleftrightarrow> (\<forall>d\<in>set ds. dr_class d = Class_I)) \<and>
     ((\<exists>c\<in>set cs. vc_severity c = ''error'') \<longleftrightarrow> (\<exists>d\<in>set ds. dr_class d = Class_III))"
proof (induction ds)
  case (Cons d ds)
  then show ?case using drift_check_value [of d] by auto
qed simp

lemma zip_errors: "map snd (filter fst (zip (map f xs) (map g xs))) = map g (filter f xs)"
  by (induction xs) simp_all

lemma diagnosis_fields [simp]:
  "field_of (diagnosis_json g) ''drifts'' = Inr (Some (JArr (map drift_json (dg_drifts g))))"
  "field_of (diagnosis_json g) ''claimRecords'' = Inr (Some (JArr (map claim_json (dg_claims g))))"
  "get_path [''summary'', ''passed''] (Some (diagnosis_json g)) = Inr (Some (JBool (ds_passed (dg_summary g))))"
  by (simp_all add: diagnosis_json_def summary_json_def)

text \<open>A service that answers every script with the same value, and one that answers none.\<close>

definition answers :: "python \<Rightarrow> json \<Rightarrow> bool" where
  "answers P v \<longleftrightarrow> (\<forall>n c d. \<exists>out. py_run P n c d = Inr out \<and> py_parse P (js_trim out) = Inr v)"

definition down :: "python \<Rightarrow> bool" where
  "down P \<longleftrightarrow> (\<forall>n c d. \<exists>e. py_run P n c d = Inl e)"

lemma run_json_state [simp]: "snd (run_json P tool i dir script s) = s\<lparr>tick := Suc (tick s)\<rparr>"
  by (simp add: run_json_def run_python_def split: sum.split)

lemma run_json_answers: "answers P v \<Longrightarrow> fst (run_json P tool i dir script s) = Inr v"
  unfolding answers_def run_json_def run_python_def by (auto split: sum.split) (metis Inr_inject Inl_Inr_False)+

lemma run_json_down: "down P \<Longrightarrow> \<exists>err. \<forall>script s. fst (run_json P tool i dir script (s :: 'a sys_st_scheme)) = Inl (err script s)"
  unfolding down_def run_json_def run_python_def by (rule choice, rule allI, rule choice) (auto split: sum.split, (metis Inr_Inl_False)+)

lemma diagnose_answers: "answers P v \<Longrightarrow> diagnoseGenome P m g s = ((v, []), s\<lparr>tick := Suc (tick s)\<rparr>)"
  by (simp add: diagnoseGenome_def mechanic_json_def run_json_answers case_prod_beta)

lemma diagnose_down:
  assumes "down P"
  shows "\<exists>e. diagnoseGenome P m g s = ((empty_diagnosis, [e]), s\<lparr>tick := Suc (tick s)\<rparr>)"
proof -
  from run_json_down [OF assms] obtain err where
    "\<forall>script s. fst (run_json P ''Mechanic'' (mk_python m) (mk_dir m) script (s :: 'a sys_st_scheme)) = Inl (err script s)" by blast
  then show ?thesis by (simp add: diagnoseGenome_def mechanic_json_def case_prod_beta)
qed

end
