(* ===== verification/Slingshot.thy ===== *)
theory Slingshot
  imports Mechanic
begin

text \<open>
  The Slingshot client (\<open>agent/slingshot\<close>): frames, packets, admission of turns, impact receipts and the check of a case, all of
  them answers of Python scripts with a fallback when there is none.
\<close>

definition DEFAULT_SLINGSHOT_DIR :: string where
  "DEFAULT_SLINGSHOT_DIR = ''G:'' @ backslash @ ''project-infi'' @ backslash @ ''slingshot''"

record slingshot_config =
  sg_python :: "string option"
  sg_dir :: "string option"
  sg_root :: "string option"

record slingshot_client =
  sl_python :: string
  sl_dir :: string
  sl_root :: string

definition new_slingshot :: "host \<Rightarrow> slingshot_config option \<Rightarrow> slingshot_client" where
  "new_slingshot H c = \<lparr>sl_python = or_else (Option.bind c sg_python) ''python'', sl_dir = or_else (Option.bind c sg_dir) DEFAULT_SLINGSHOT_DIR,
     sl_root = or_else (Option.bind c sg_root) (path_join (path_join (h_cwd H) ''.runtime'') ''slingshot'')\<rparr>"

definition slingshot_json :: "python \<Rightarrow> slingshot_client \<Rightarrow> string list \<Rightarrow> 'a sys_st_scheme \<Rightarrow> (string + json) \<times> 'a sys_st_scheme" where
  "slingshot_json P c ls = run_json P ''Slingshot'' (sl_python c) (sl_dir c) (script_lines (sl_dir c) ls)"

subsection \<open>The fallbacks\<close>

definition empty_frame :: "sysenv \<Rightarrow> string \<Rightarrow> string \<Rightarrow> 'a sys_st_scheme \<Rightarrow> json \<times> 'a sys_st_scheme" where
  "empty_frame E caseId repoPath s = (let (t, s1) = take_now E s
     in (JObj [(''frameVersion'', JStr ''slingshot.frame.v1''), (''caseId'', JStr caseId), (''builtAtUtc'', JStr (iso_string t)),
          (''repoPath'', JStr repoPath), (''genomeHash'', JStr []),
          (''driftSummary'', JObj [(''total'', JNum 0), (''classI'', JNum 0), (''classII'', JNum 0), (''classIII'', JNum 0)]),
          (''launchBlocked'', JBool False), (''blockReasons'', JArr [])], s1))"

definition empty_packet :: "sysenv \<Rightarrow> string \<Rightarrow> 'a sys_st_scheme \<Rightarrow> json \<times> 'a sys_st_scheme" where
  "empty_packet E caseId s = (let (t1, s1) = take_now E s; (t2, s2) = take_now E s1
     in (JObj [(''packetVersion'', JStr ''slingshot.packet.v1''), (''caseId'', JStr caseId), (''frameHash'', JStr []),
          (''builtAtUtc'', JStr (iso_string t1)), (''expiresAtUtc'', JStr (iso_string t2)), (''constraints'', JArr []),
          (''humanControlMarkers'', JArr []), (''ttlMinutes'', JNum 15), (''expired'', JBool True)], s2))"

definition empty_impact :: "sysenv \<Rightarrow> string \<Rightarrow> string \<Rightarrow> 'a sys_st_scheme \<Rightarrow> json \<times> 'a sys_st_scheme" where
  "empty_impact E caseId turnId s = (let (t, s1) = take_now E s
     in (JObj [(''impactVersion'', JStr ''slingshot.impact_receipt.v1''), (''receiptId'', JStr []), (''caseId'', JStr caseId),
          (''turnId'', JStr turnId), (''builtAtUtc'', JStr (iso_string t)), (''userMessage'', JStr []), (''assistantReply'', JStr []),
          (''composeMode'', JStr ''auto''), (''cortexFastPath'', JBool False), (''manifestHash'', JStr [])], s1))"

definition failed_case :: "string \<Rightarrow> json" where
  "failed_case e = JObj [(''valid'', JBool False), (''framePresent'', JBool False), (''packetPresent'', JBool False), (''ledgerEntries'', JNum 0),
     (''frameHash'', JStr []), (''packetHash'', JStr []), (''manifestHash'', JStr []), (''errors'', JArr [JStr e])]"

subsection \<open>The operations of the client\<close>

abbreviation PRINT_RESULT :: string where
  "PRINT_RESULT \<equiv> ''print(json.dumps(result, default=str))''"

definition buildFrame ::
    "sysenv \<Rightarrow> python \<Rightarrow> slingshot_client \<Rightarrow> string \<Rightarrow> string \<Rightarrow> string option \<Rightarrow> 'a sys_st_scheme \<Rightarrow> (json \<times> string list) \<times> 'a sys_st_scheme" where
  "buildFrame E P c caseId repoPath tracePath s =
     (let (r, s1) = slingshot_json P c
            [''from slingshot.frame import build_slingshot_frame'', ''result = build_slingshot_frame('', ''  case_id='' @ json_quote caseId @ '','',
             ''  repo_path='' @ json_quote repoPath @ '','', ''  trace_path='' @ json_quote (or_else tracePath []) @ '','',
             ''  slingshot_root='' @ json_quote (sl_root c) @ '','', '')'', PRINT_RESULT] s
      in case r of Inr v \<Rightarrow> ((v, []), s1) | Inl e \<Rightarrow> (let (f, s2) = empty_frame E caseId repoPath s1 in ((f, [e]), s2)))"

definition loadFrame :: "python \<Rightarrow> slingshot_client \<Rightarrow> string \<Rightarrow> 'a sys_st_scheme \<Rightarrow> (json option \<times> string list) \<times> 'a sys_st_scheme" where
  "loadFrame P c caseId s =
     (let (r, s1) = slingshot_json P c
            [''from slingshot.frame import load_slingshot_frame'', ''result = load_slingshot_frame(case_id='' @ json_quote caseId @ '')'', PRINT_RESULT] s
      in (case r of Inr v \<Rightarrow> (Some v, []) | Inl e \<Rightarrow> (None, [e]), s1))"

definition buildPacket ::
    "sysenv \<Rightarrow> python \<Rightarrow> slingshot_client \<Rightarrow> string \<Rightarrow> json option \<Rightarrow> jsnum option \<Rightarrow> 'a sys_st_scheme \<Rightarrow> (json \<times> json list) \<times> 'a sys_st_scheme" where
  "buildPacket E P c caseId operatorIntent ttl s =
     (let (r, s1) = slingshot_json P c
            [''from slingshot.frame import load_slingshot_frame'', ''from slingshot.packet import build_slingshot_packet'',
             ''frame = load_slingshot_frame(case_id='' @ json_quote caseId @ '')'', ''if not frame:'',
             ''  print(json.dumps({'' @ quoted ''error'' @ '': '' @ quoted ''Frame not found for '' @ '' + '' @ json_quote caseId @ ''}))'', ''  sys.exit(0)'',
             ''packet = build_slingshot_packet('', ''  frame=frame,'', ''  operator_intent='' @ stringify (or_else operatorIntent (JObj [])) @ '','',
             ''  ttl_minutes='' @ stringify (JNum (or_else ttl 15)) @ '','', ''  runtime_root='' @ json_quote (sl_root c) @ '','', '')'',
             ''print(json.dumps(packet, default=str))''] s
      in case or_throw r (\<lambda>v. or_throw (field_of v ''error'') (\<lambda>e. Inr (v, e))) of
           Inr (v, e) \<Rightarrow> (if truthy e then (let (p, s2) = empty_packet E caseId s1 in ((p, [the e]), s2)) else ((v, []), s1))
         | Inl e \<Rightarrow> (let (p, s2) = empty_packet E caseId s1 in ((p, [JStr e]), s2)))"

text \<open>\<open>{ session_id: sessionId, ...payload }\<close>.\<close>

definition session_fields :: "string \<Rightarrow> (string \<times> json) list \<Rightarrow> (string \<times> json) list" where
  "session_fields sessionId payload = fold (\<lambda>(k, v). js_set k v) payload [(''session_id'', JStr sessionId)]"

definition admitTurn :: "python \<Rightarrow> slingshot_client \<Rightarrow> string \<Rightarrow> (string \<times> json) list \<Rightarrow> 'a sys_st_scheme \<Rightarrow> (json \<times> string list) \<times> 'a sys_st_scheme" where
  "admitTurn P c sessionId payload s =
     (let (r, s1) = slingshot_json P c
            [''from slingshot.launch import admit_slingshot_turn'', ''result = admit_slingshot_turn('',
             ''  session='' @ stringify (JObj (session_fields sessionId payload)) @ '','', ''  slingshot_payload='' @ stringify (JObj payload) @ '','',
             '')'', PRINT_RESULT] s
      in (case r of Inr v \<Rightarrow> (v, [])
          | Inl e \<Rightarrow> (JObj [(''allowed'', JBool False), (''reason'', JStr ''admit_error''), (''packetStatus'', JStr ''missing'')], [e]), s1))"

definition buildImpactReceipt ::
    "sysenv \<Rightarrow> python \<Rightarrow> slingshot_client \<Rightarrow> string \<Rightarrow> string \<Rightarrow> string \<Rightarrow> string \<Rightarrow> json option \<Rightarrow> 'a sys_st_scheme \<Rightarrow>
     (json \<times> string list) \<times> 'a sys_st_scheme" where
  "buildImpactReceipt E P c caseId turnId userMessage assistantReply midflight s =
     (let (r, s1) = slingshot_json P c
            [''from slingshot.impact import build_impact_receipt'', ''result = build_impact_receipt('', ''  case_id='' @ json_quote caseId @ '','',
             ''  turn_id='' @ json_quote turnId @ '','', ''  user_message='' @ json_quote userMessage @ '','',
             ''  assistant_reply='' @ json_quote assistantReply @ '','', ''  midflight_report='' @ stringify (or_else midflight (JObj [])) @ '','',
             ''  session_metadata=None,'', ''  compose_mode_used='' @ quoted ''auto'' @ '','', ''  cortex_fast_path=True,'',
             ''  slingshot_root='' @ json_quote (sl_root c) @ '','', '')'', PRINT_RESULT] s
      in case r of Inr v \<Rightarrow> ((v, []), s1) | Inl e \<Rightarrow> (let (i, s2) = empty_impact E caseId turnId s1 in ((i, [e]), s2)))"

definition verifyCase :: "python \<Rightarrow> slingshot_client \<Rightarrow> string \<Rightarrow> 'a sys_st_scheme \<Rightarrow> json \<times> 'a sys_st_scheme" where
  "verifyCase P c caseId s =
     (let (r, s1) = slingshot_json P c
            [''from slingshot.impact import verify_slingshot_case'', ''result = verify_slingshot_case('', ''  case_id='' @ json_quote caseId @ '','',
             ''  slingshot_root='' @ json_quote (sl_root c) @ '','', '')'', PRINT_RESULT] s
      in (case r of Inr v \<Rightarrow> v | Inl e \<Rightarrow> failed_case e, s1))"

definition getDefaultSlingshotDir :: string where
  "getDefaultSlingshotDir = DEFAULT_SLINGSHOT_DIR"

definition ensureSlingshotDir :: "python \<Rightarrow> bool" where
  "ensureSlingshotDir P = py_exists P DEFAULT_SLINGSHOT_DIR"

subsection \<open>Slingshot in a workflow\<close>

text \<open>Of a workflow the functions read the identifier and the goal.\<close>

definition createSlingshotSession :: "host \<Rightarrow> slingshot_client" where
  "createSlingshotSession H = new_slingshot H None"

definition preloadSlingshotFrame ::
    "sysenv \<Rightarrow> python \<Rightarrow> slingshot_client \<Rightarrow> string \<Rightarrow> string \<Rightarrow> 'a sys_st_scheme \<Rightarrow> (json \<times> string list) \<times> 'a sys_st_scheme" where
  "preloadSlingshotFrame E P c wid repoPath s =
     (let ((frame, errs), s1) = buildFrame E P c wid repoPath None s in ((frame, if errs \<noteq> [] then errs else []), s1))"

definition packetizeSlingshot ::
    "sysenv \<Rightarrow> python \<Rightarrow> slingshot_client \<Rightarrow> string \<Rightarrow> string \<Rightarrow> json option \<Rightarrow> 'a sys_st_scheme \<Rightarrow> (json \<times> json list) \<times> 'a sys_st_scheme" where
  "packetizeSlingshot E P c wid goal operatorIntent s =
     buildPacket E P c wid (Some (or_else operatorIntent (JObj [(''workflowId'', JStr wid), (''intent'', JStr goal), (''goal'', JStr goal)]))) None s"

definition admitViaSlingshot ::
    "python \<Rightarrow> slingshot_client \<Rightarrow> string \<Rightarrow> (string \<times> json) list \<Rightarrow> 'a sys_st_scheme \<Rightarrow> (string + json option \<times> json) \<times> 'a sys_st_scheme" where
  "admitViaSlingshot P c sessionId context s =
     (let ((config, _), s1) = admitTurn P c sessionId context s in (or_throw (field_of config ''allowed'') (\<lambda>a. Inr (a, config)), s1))"

definition finalizeSlingshotImpact ::
    "sysenv \<Rightarrow> python \<Rightarrow> slingshot_client \<Rightarrow> string \<Rightarrow> string \<Rightarrow> string \<Rightarrow> string \<Rightarrow> json option \<Rightarrow> 'a sys_st_scheme \<Rightarrow>
     (json \<times> string list) \<times> 'a sys_st_scheme" where
  "finalizeSlingshotImpact E P c wid turnId userMessage assistantReply midflight s =
     buildImpactReceipt E P c wid turnId userMessage assistantReply midflight s"

definition verifySlingshotIntegrity ::
    "python \<Rightarrow> slingshot_client \<Rightarrow> string \<Rightarrow> 'a sys_st_scheme \<Rightarrow> (string + json option \<times> json option \<times> json option \<times> json option) \<times> 'a sys_st_scheme" where
  "verifySlingshotIntegrity P c wid s =
     (let (r, s1) = verifyCase P c wid s
      in (or_throw (field_of r ''valid'') (\<lambda>v. or_throw (field_of r ''framePresent'') (\<lambda>f. or_throw (field_of r ''packetPresent'') (\<lambda>p.
            or_throw (field_of r ''errors'') (\<lambda>e. Inr (v, f, p, e))))), s1))"

text \<open>\<open>frame.blockReasons.join("; ")\<close>.\<close>

definition joined :: "string \<Rightarrow> json option \<Rightarrow> string + string" where
  "joined sep v = or_throw (js_array v) (\<lambda>xs. Inr (join sep (map (\<lambda>x. if x = JNull then [] else js_string x) xs)))"

definition slingshotFrameToGovernanceChecks :: "host \<Rightarrow> json \<Rightarrow> string + val_check list" where
  "slingshotFrameToGovernanceChecks H frame =
     or_throw (get_path [''driftSummary'', ''classIII''] (Some frame)) (\<lambda>c3. or_throw (get_path [''driftSummary'', ''classII''] (Some frame)) (\<lambda>c2.
     or_throw (get_path [''driftSummary'', ''classI''] (Some frame)) (\<lambda>c1.
       let summary = \<lparr>vc_id = ''SLING-FRAME-001'', vc_name = ''Slingshot frame drift summary'', vc_passed = (c3 = Some (JNum 0)),
             vc_detail = Some (''Class III drifts: '' @ show_value c3 @ '', Class II: '' @ show_value c2 @ '', Class I: '' @ show_value c1),
             vc_severity = (if positive H c3 then ''error'' else if positive H c2 then ''warning'' else ''info'')\<rparr>
       in or_throw (field_of frame ''launchBlocked'') (\<lambda>b.
          if \<not> truthy b then Inr [summary]
          else or_throw (field_of frame ''blockReasons'') (\<lambda>rs. or_throw (joined ''; '' rs) (\<lambda>t.
            Inr [summary, \<lparr>vc_id = ''SLING-FRAME-002'', vc_name = ''Slingshot launch block'', vc_passed = False,
                  vc_detail = Some (''Blocked: '' @ t), vc_severity = ''error''\<rparr>]))))))"

subsection \<open>Frames of the declared type\<close>

record sling_frame =
  fr_version :: string
  fr_case :: string
  fr_built :: string
  fr_repo :: string
  fr_genome :: string
  fr_total :: jsnum
  fr_I :: jsnum
  fr_II :: jsnum
  fr_III :: jsnum
  fr_blocked :: bool
  fr_reasons :: "string list"

definition frame_json :: "sling_frame \<Rightarrow> json" where
  "frame_json f = JObj [(''frameVersion'', JStr (fr_version f)), (''caseId'', JStr (fr_case f)), (''builtAtUtc'', JStr (fr_built f)),
     (''repoPath'', JStr (fr_repo f)), (''genomeHash'', JStr (fr_genome f)),
     (''driftSummary'', JObj [(''total'', JNum (fr_total f)), (''classI'', JNum (fr_I f)), (''classII'', JNum (fr_II f)),
        (''classIII'', JNum (fr_III f))]),
     (''launchBlocked'', JBool (fr_blocked f)), (''blockReasons'', jstrs (fr_reasons f))]"

lemma frame_checks:
  "\<exists>cs. slingshotFrameToGovernanceChecks H (frame_json f) = Inr cs \<and> (list_all vc_passed cs \<longleftrightarrow> fr_III f = 0 \<and> \<not> fr_blocked f)"
  by (simp add: slingshotFrameToGovernanceChecks_def frame_json_def joined_def jstrs_def Let_def)

lemma slingshot_down:
  assumes "down P"
  shows "\<exists>err. \<forall>ls s. slingshot_json P c ls (s :: 'a sys_st_scheme) = (Inl (err ls s), s\<lparr>tick := Suc (tick s)\<rparr>)"
proof -
  from run_json_down [OF assms] obtain err where
    err: "\<And>script s. fst (run_json P ''Slingshot'' (sl_python c) (sl_dir c) script (s :: 'a sys_st_scheme)) = Inl (err script s)" by blast
  have "slingshot_json P c ls s = (Inl (err (script_lines (sl_dir c) ls) s), s\<lparr>tick := Suc (tick s)\<rparr>)" for ls and s :: "'a sys_st_scheme"
    by (rule prod_eqI) (simp_all add: slingshot_json_def err)
  then show ?thesis by (intro exI [of _ "\<lambda>ls. err (script_lines (sl_dir c) ls)"]) simp
qed

lemma mechanic_down:
  assumes "down P"
  shows "\<exists>err. \<forall>ls s. mechanic_json P m ls (s :: 'a sys_st_scheme) = (Inl (err ls s), s\<lparr>tick := Suc (tick s)\<rparr>)"
proof -
  from run_json_down [OF assms] obtain err where
    err: "\<And>script s. fst (run_json P ''Mechanic'' (mk_python m) (mk_dir m) script (s :: 'a sys_st_scheme)) = Inl (err script s)" by blast
  have "mechanic_json P m ls s = (Inl (err (script_lines (mk_dir m) ls) s), s\<lparr>tick := Suc (tick s)\<rparr>)" for ls and s :: "'a sys_st_scheme"
    by (rule prod_eqI) (simp_all add: mechanic_json_def err)
  then show ?thesis by (intro exI [of _ "\<lambda>ls. err (script_lines (mk_dir m) ls)"]) simp
qed

subsection \<open>Properties\<close>

text \<open>C29. What an outage of the Python tools decides. The two verifications pass without a violation and the frame used instead
  of a missing one passes its check, so nothing of an outage reaches them, while the diagnosis and the check of a
  case fail, a turn is not admitted and a scan has no report.\<close>

theorem outage_verdicts:
  fixes s :: "'a sys_st_scheme"
  assumes "down P"
  shows "fst (verify_genome P m g s) = Inr (True, []) \<and> fst (verifyViaMechanic E P m u s) = Inr (True, []) \<and>
     (\<exists>f e k. fst (preloadSlingshotFrame E P c w r s) = (f, [e]) \<and> slingshotFrameToGovernanceChecks H f = Inr [k] \<and>
        vc_passed k \<and> vc_severity k = ''info'') \<and>
     fst (diagnoseViaMechanic P m g s) = Inr (Some (JBool False), Some (JArr []), Some (JArr [])) \<and>
     (\<exists>x e. fst (scanViaMechanic E P m w r s) = Inr (x, None, [e])) \<and>
     (\<exists>x. fst (admitViaSlingshot P c w a s) = Inr (Some (JBool False), x)) \<and>
     (\<exists>x. fst (verifySlingshotIntegrity P c w s) = Inr (Some (JBool False), x))"
proof (intro conjI)
  note d = diagnose_down [OF assms]
  from d [of m g s] show "fst (verify_genome P m g s) = Inr (True, [])" by (auto simp: verify_genome_def empty_diagnosis_def)
  from d [of m g s] show "fst (diagnoseViaMechanic P m g s) = Inr (Some (JBool False), Some (JArr []), Some (JArr []))"
    by (auto simp: diagnoseViaMechanic_def)
  show "fst (verifyViaMechanic E P m u s) = Inr (True, [])"
  proof -
    have "fst (fst (diagnoseGenome P m x t)) = empty_diagnosis" for x and t :: "'a sys_st_scheme"
      using diagnose_down [OF assms, of m x t] by auto
    then show ?thesis by (simp add: verifyViaMechanic_def empty_diagnosis_def case_prod_beta Let_def)
  qed
  from mechanic_down [OF assms, of m] obtain err where
    err: "\<And>ls s. mechanic_json P m ls (s :: 'a sys_st_scheme) = (Inl (err ls s), s\<lparr>tick := Suc (tick s)\<rparr>)" by blast
  show "\<exists>x e. fst (scanViaMechanic E P m w r s) = Inr (x, None, [e])"
    by (simp add: scanViaMechanic_def scan_def extractGenome_def err case_prod_beta Let_def)
  from slingshot_down [OF assms, of c] obtain er where
    er: "\<And>ls s. slingshot_json P c ls (s :: 'a sys_st_scheme) = (Inl (er ls s), s\<lparr>tick := Suc (tick s)\<rparr>)" by blast
  show "\<exists>x. fst (admitViaSlingshot P c w a s) = Inr (Some (JBool False), x)"
    by (simp add: admitViaSlingshot_def admitTurn_def er)
  show "\<exists>x. fst (verifySlingshotIntegrity P c w s) = Inr (Some (JBool False), x)"
    by (simp add: verifySlingshotIntegrity_def verifyCase_def er failed_case_def)
  show "\<exists>f e k. fst (preloadSlingshotFrame E P c w r s) = (f, [e]) \<and> slingshotFrameToGovernanceChecks H f = Inr [k] \<and>
      vc_passed k \<and> vc_severity k = ''info''"
    by (simp add: preloadSlingshotFrame_def buildFrame_def er empty_frame_def slingshotFrameToGovernanceChecks_def positive_def js_number_def
      case_prod_beta Let_def)
qed

definition demo_python :: python where
  "demo_python = \<lparr>py_run = (\<lambda>_ _ _. Inl ''ENOENT''), py_parse = (\<lambda>_. Inl []), py_exists = (\<lambda>_. False), py_read = (\<lambda>_. Inl [])\<rparr>"

definition demo_substrate :: substrate where
  "demo_substrate = \<lparr>su_id = ''sub'', su_name = ''n'', su_desc = ''d'', su_artifacts = [], su_evidence = [], su_ready = True\<rparr>"

theorem outage_verdicts_witness:
  "fst (verifyViaMechanic demo_env demo_python (new_mechanic demo_host None) demo_substrate demo_cmas) = Inr (True, [])"
  using outage_verdicts [of demo_python "new_mechanic demo_host None" JNull demo_cmas demo_env demo_substrate]
  by (simp add: down_def demo_python_def)

text \<open>The clients read an answer of the declared types without an error, and what they make of it: the verification of a
  genome passes when no drift has the severity error, the one of a workflow only when there is no drift at
  all, the checks of the drifts exactly when all are of class I, whatever their severity, and those of a frame exactly when
  it has no drift of class III and is not blocked.\<close>

theorem declared_answers:
  assumes "answers P (diagnosis_json g)" and "ds = dg_drifts g"
  shows "fst (verify_genome P m x s) = Inr (filter (\<lambda>d. dr_severity d = ''error'') ds = [], map drift_text (filter (\<lambda>d. dr_severity d = ''error'') ds)) \<and>
     fst (verifyViaMechanic E P m u s) = Inr (ds = [], map drift_text ds) \<and>
     fst (diagnoseViaMechanic P m x s) = Inr (Some (JBool (ds_passed (dg_summary g))), Some (JArr (map drift_json ds)), Some (JArr (map claim_json (dg_claims g)))) \<and>
     fst (scanViaMechanic E P m w r s) = Inr (diagnosis_json g, Some (diagnosis_json g), []) \<and>
     (\<exists>cs. mapMechanicDriftsToReceipts (Some (JArr (map drift_json ds))) = Inr cs \<and> length cs = length ds \<and>
        (list_all vc_passed cs \<longleftrightarrow> list_all (\<lambda>d. dr_class d = Class_I) ds)) \<and>
     (\<exists>cs. slingshotFrameToGovernanceChecks H (frame_json f) = Inr cs \<and> (list_all vc_passed cs \<longleftrightarrow> fr_III f = 0 \<and> \<not> fr_blocked f))"
proof (intro conjI)
  note a = diagnose_answers [OF assms(1)]
  have e: "map_or is_error (map drift_json ds) = Inr (map (\<lambda>d. dr_severity d = ''error'') ds)" for ds by (rule map_or_map) simp
  have v: "map_or violation_text (map drift_json ds) = Inr (map drift_text ds)" for ds by (rule map_or_map) simp
  show "fst (verify_genome P m x s) = Inr (filter (\<lambda>d. dr_severity d = ''error'') ds = [], map drift_text (filter (\<lambda>d. dr_severity d = ''error'') ds))"
    by (simp add: verify_genome_def a e v zip_errors assms(2))
  show "fst (verifyViaMechanic E P m u s) = Inr (ds = [], map drift_text ds)"
    by (simp add: verifyViaMechanic_def a v assms(2) case_prod_beta Let_def)
  show "fst (diagnoseViaMechanic P m x s) = Inr (Some (JBool (ds_passed (dg_summary g))), Some (JArr (map drift_json ds)), Some (JArr (map claim_json (dg_claims g))))"
    by (simp add: diagnoseViaMechanic_def a assms(2) del: get_path.simps)
  show "fst (scanViaMechanic E P m w r s) = Inr (diagnosis_json g, Some (diagnosis_json g), [])"
    by (simp add: scanViaMechanic_def scan_def extractGenome_def mechanic_json_def run_json_answers [OF assms(1)] a case_prod_beta Let_def
      del: get_path.simps)
  show "\<exists>cs. mapMechanicDriftsToReceipts (Some (JArr (map drift_json ds))) = Inr cs \<and> length cs = length ds \<and>
        (list_all vc_passed cs \<longleftrightarrow> list_all (\<lambda>d. dr_class d = Class_I) ds)"
    using drift_checks [of ds] by (auto simp: mapMechanicDriftsToReceipts_def list_all_iff)
  show "\<exists>cs. slingshotFrameToGovernanceChecks H (frame_json f) = Inr cs \<and> (list_all vc_passed cs \<longleftrightarrow> fr_III f = 0 \<and> \<not> fr_blocked f)"
    by (rule frame_checks)
qed

definition demo_diagnosis :: diagnosis where
  "demo_diagnosis = \<lparr>dg_drifts = [\<lparr>dr_id = ''d-1'', dr_class = Class_I, dr_desc = ''renamed'', dr_source = ''node-1'', dr_severity = ''error'', dr_time = ''t''\<rparr>],
     dg_claims = [], dg_invariants = [],
     dg_summary = \<lparr>ds_total = 1, ds_I = 1, ds_II = 0, ds_III = 0, ds_claims = [], ds_passed = True\<rparr>\<rparr>"

theorem declared_answers_witness:
  "fst (verify_genome (demo_python\<lparr>py_run := (\<lambda>_ _ _. Inr []), py_parse := (\<lambda>_. Inr (diagnosis_json demo_diagnosis))\<rparr>) (new_mechanic demo_host None) JNull demo_cmas)
     = Inr (False, [''[I] renamed''])"
proof -
  let ?P = "demo_python\<lparr>py_run := (\<lambda>_ _ _. Inr []), py_parse := (\<lambda>_. Inr (diagnosis_json demo_diagnosis))\<rparr>"
  have "answers ?P (diagnosis_json demo_diagnosis)" by (simp add: answers_def)
  from declared_answers [OF this refl, of "new_mechanic demo_host None" JNull demo_cmas] show ?thesis
    by (simp add: demo_diagnosis_def drift_text_def)
qed

end
