(* ===== verification/Skills.thy ===== *)
theory Skills
  imports Slingshot
begin

text \<open>
  The skill registry (\<open>agent/skills\<close>): the built-in manifests, the maps from the colour of a role to its skills, discovery,
  registration and loading, and the role loader. What is on disk, what \<open>JSON.parse\<close> makes of a file and whether a module can be
  imported are parameters. A text field of a manifest that is read from a file and holds something else is kept as the
  text it shows; a directory with the name of a property every JavaScript object inherits is left out.
\<close>

subsection \<open>Manifests\<close>

datatype skill_source = SKILLZMCGEE | NOVA_BUILTIN | ENGINEERING_PARTNER | CUSTOM_SOURCE

primrec source_name :: "skill_source \<Rightarrow> string" where
  "source_name SKILLZMCGEE = ''skillzmcgee''"
| "source_name NOVA_BUILTIN = ''nova-builtin''"
| "source_name ENGINEERING_PARTNER = ''engineering-partner''"
| "source_name CUSTOM_SOURCE = ''custom''"

record manifest =
  mf_id :: string
  mf_name :: string
  mf_desc :: string
  mf_version :: string
  mf_source :: skill_source
  mf_path :: string
  mf_caps :: "string list"
  mf_entry :: "string option"

definition sk :: "string \<Rightarrow> string \<Rightarrow> string \<Rightarrow> skill_source \<Rightarrow> string list \<Rightarrow> string option \<Rightarrow> manifest" where
  "sk i name desc src caps path = \<lparr>mf_id = i, mf_name = name, mf_desc = desc, mf_version = ''1.0.0'', mf_source = src,
     mf_path = or_else path (''.codex/cse/'' @ i), mf_caps = caps, mf_entry = None\<rparr>"

definition arrow :: string where
  "arrow = [CHR 0xE2, CHR 0x86, CHR 0x92]"

definition CODEX_BASE :: "manifest list" where
  "CODEX_BASE =
     [sk ''cse:constitutional-runtime'' ''Constitutional Runtime''
        ''CSE constitutional execution engine''
        NOVA_BUILTIN [''constitutional-execution'', ''governance-runtime'', ''invariant-enforcement''] None,
      sk ''cse:crk'' ''CRK Kernel''
        (''Constitutional Runtime Kernel '' @ em_dash @ '' crisis-response kernel with lineage'')
        NOVA_BUILTIN [''kernel'', ''crisis-response'', ''lineage-tracking''] None,
      sk ''cse:cesf'' ''CESF Framework''
        ''Constitutional Event Stream Framework''
        NOVA_BUILTIN [''event-stream'', ''state-management'', ''reconciliation''] None,
      sk ''cse:conformance'' ''Conformance Suite''
        ''CSE conformance verification and invariant testing''
        NOVA_BUILTIN [''conformance'', ''invariant-testing'', ''verification''] None,
      sk ''cse:specs'' ''CSE Specifications''
        ''Canonical CSE specification documents''
        NOVA_BUILTIN [''specifications'', ''formal-definitions''] None,
      sk ''cse:implementations'' ''CSE Implementations''
        ''Reference implementations of CSE protocols''
        NOVA_BUILTIN [''reference-implementation'', ''protocols''] None,
      sk ''cse:earthos-pilot-a'' ''EarthOS Pilot A''
        (''EarthOS pilot cluster A '' @ em_dash @ '' distributed constitutional node'')
        NOVA_BUILTIN [''earthos'', ''distributed-node'', ''pilot''] None,
      sk ''cse:earthos-pilot-b'' ''EarthOS Pilot B''
        (''EarthOS pilot cluster B '' @ em_dash @ '' governance mesh'')
        NOVA_BUILTIN [''earthos'', ''governance-mesh'', ''pilot''] None,
      sk ''cse:earthos-pilot-c'' ''EarthOS Pilot C''
        (''EarthOS pilot cluster C '' @ em_dash @ '' harmonized substrate'')
        NOVA_BUILTIN [''earthos'', ''harmonized-substrate'', ''pilot''] None,
      sk ''cse:promotion'' ''Promotion Engine''
        ''Cross-version promotion protocols and orchestration''
        NOVA_BUILTIN [''promotion'', ''versioning'', ''orchestration''] None,
      sk ''cse:cct-harness'' ''CCT Harness''
        ''Constitutional conformance test harness''
        NOVA_BUILTIN [''conformance-testing'', ''harness'', ''automation''] None]"

definition CODEX_CRK_DIST :: "manifest list" where
  "CODEX_CRK_DIST =
     [sk ''crk:kernel-core'' ''CRK Kernel Core''
        ''Core CRK kernel implementation''
        NOVA_BUILTIN [''kernel-core'', ''crisis-response'', ''runtime''] None,
      sk ''crk:distributed'' ''CRK Distributed''
        ''Distributed CRK node communication''
        NOVA_BUILTIN [''distributed'', ''node-communication'', ''consensus''] None]"

definition CODEX_SPECS :: "manifest list" where
  "CODEX_SPECS =
     [sk ''spec:constitutional-semantic'' ''Constitutional Semantic Spec''
        ''Semantic specification for constitutional NLP''
        ENGINEERING_PARTNER [''semantic-spec'', ''nlp'', ''constitutional-language''] None,
      sk ''spec:cse-v1.1'' ''CSE v1.1 Spec''
        ''Constitutional Semantic Engine v1.1 specification''
        ENGINEERING_PARTNER [''cse-spec'', ''standards''] None,
      sk ''spec:promotion-v1.2-v1.3'' (''Promotion v1.2'' @ arrow @ ''v1.3'')
        ''Cross-version promotion specification''
        ENGINEERING_PARTNER [''promotion-spec'', ''migration''] None]"

definition PLATFORM_SKILLS :: "manifest list" where
  "PLATFORM_SKILLS =
     [sk ''platform:windows'' ''Windows Platform''
        ''Windows OS operations, paths, executables, PowerShell''
        NOVA_BUILTIN [''windows'', ''powershell'', ''os-operations''] (Some ''shell/skills/windows.md''),
      sk ''platform:macos'' ''macOS Platform''
        ''macOS operations, shell, Homebrew, file system''
        NOVA_BUILTIN [''macos'', ''bash'', ''os-operations''] (Some ''shell/skills/macos.md''),
      sk ''platform:linux'' ''Linux Platform''
        ''Linux operations, bash, apt, systemd''
        NOVA_BUILTIN [''linux'', ''bash'', ''os-operations''] (Some ''shell/skills/linux.md''),
      sk ''workflow:git'' ''Git Workflow''
        ''Git operations, branching, commit conventions''
        NOVA_BUILTIN [''git'', ''version-control'', ''branching''] (Some ''shell/skills/git-workflow.md''),
      sk ''workflow:code-review'' ''Code Review''
        ''Code review process, standards, PR conventions''
        NOVA_BUILTIN [''code-review'', ''pr'', ''quality''] (Some ''shell/skills/code-review.md''),
      sk ''workflow:test-runner'' ''Test Runner''
        ''Test framework conventions, running and writing tests''
        NOVA_BUILTIN [''testing'', ''test-runner'', ''qa''] (Some ''shell/skills/test-runner.md'')]"

definition GOVERNANCE_SKILLS :: "manifest list" where
  "GOVERNANCE_SKILLS =
     [sk ''gov:constitutional-governance'' ''Constitutional Governance''
        ''Full constitutional governance with interpretation, policies, evidence, temporal, multi-agent''
        ENGINEERING_PARTNER [''governance'', ''constitutional'', ''policy'', ''evidence'', ''multi-agent''] None,
      sk ''gov:temporal-semantics'' ''Temporal Semantics''
        ''Temporal measures, replay, compression, risk ethics''
        ENGINEERING_PARTNER [''temporal'', ''replay'', ''compression'', ''risk''] None,
      sk ''gov:multi-agent-coordination'' ''Multi-Agent Coordination''
        ''Agent communication, federation, conflict resolution''
        ENGINEERING_PARTNER [''multi-agent'', ''federation'', ''conflict-resolution'', ''coordination''] None,
      sk ''gov:sovereign-kernel-ops'' ''Sovereign Kernel Ops''
        ''Kernel governance, execution, analysis, safety, optimization''
        ENGINEERING_PARTNER [''kernel'', ''governance'', ''execution'', ''safety''] None,
      sk ''gov:agentic-organism'' ''Agentic Organism''
        ''Learning, cognition, governance, interaction, ethics''
        ENGINEERING_PARTNER [''agentic'', ''cognition'', ''learning'', ''ethics'', ''autonomy''] None,
      sk ''gov:constitutional-agent-runtime'' ''Constitutional Agent Runtime''
        ''Code intelligence, architecture, data model, security''
        ENGINEERING_PARTNER [''agent-runtime'', ''code-intelligence'', ''security'', ''data-model''] None]"

definition AGENT_SKILLS :: "manifest list" where
  "AGENT_SKILLS =
     [sk ''agent:sovereign-x'' ''Sovereign X OS''
        ''Constitutional kernel, runtime, fabric, worlds, cryptography''
        NOVA_BUILTIN [''sovereign-x'', ''kernel'', ''runtime'', ''crypto'', ''multi-world''] (Some ''agent/sovereign-x''),
      sk ''agent:mythar'' ''Mythar Semantic Engine''
        ''Mythar constitutional registry compiler and semantic DAG''
        NOVA_BUILTIN [''mythar'', ''semantic-compiler'', ''constitutional-registry''] (Some ''agent/mythar''),
      sk ''agent:ulx-bridge'' ''ULX Constitutional Bridge''
        ''ULX constitutional programming language integration''
        NOVA_BUILTIN [''ulx'', ''constitutional-programming'', ''governed-runtime''] (Some ''agent/ulx-bridge''),
      sk ''agent:skillzmcgee'' ''SkillzMcGee Capabilities''
        ''Capability-based execution with CRK-2 invariants''
        NOVA_BUILTIN [''capability-execution'', ''crk2'', ''slice-runtime''] (Some ''agent/skillzmcgee''),
      sk ''agent:governance'' ''Governance Core''
        ''Invariant checking, receipts, validation, evidence''
        NOVA_BUILTIN [''governance-core'', ''invariants'', ''receipts'', ''validation''] (Some ''agent/governance''),
      sk ''agent:continuity'' ''Continuity Substrate''
        ''Continuity snapshots, lineage, replay substrate''
        NOVA_BUILTIN [''continuity'', ''snapshots'', ''lineage'', ''replay''] (Some ''agent/continuity''),
      sk ''agent:completion'' ''Completion Engine''
        ''LLM-based code generation and completion''
        NOVA_BUILTIN [''completion'', ''code-generation'', ''llm''] (Some ''agent/completion''),
      sk ''agent:cmas'' ''CMAS Orchestration''
        ''Constitutional multi-agent system with Architect/Builder/Implementor/Validator/Reviewer''
        NOVA_BUILTIN [''cmas'', ''multi-agent-orchestration'', ''color-roles''] (Some ''agent/cmas''),
      sk ''agent:lib'' ''Agent Library''
        ''Common utilities, hashing, UUIDs''
        NOVA_BUILTIN [''utilities'', ''hashing'', ''crypto''] (Some ''agent/lib''),
      sk ''agent:mechanic'' ''AI Mechanic''
        ''Governed AI workflow scan, genome extraction, diagnosis, drift detection, and dry-run rebuild from Project Infi''
        NOVA_BUILTIN [''mechanic'', ''scan'', ''diagnosis'', ''genome-extraction'', ''drift-detection'', ''rebuild'', ''verification''] (Some ''agent/mechanic''),
      sk ''agent:slingshot'' ''AI Slingshot''
        (''Governed kinetic accelerator '' @ em_dash @ '' frame preload, packet compression, launch admission, and impact receipts for AI workflows from Project Infi'')
        NOVA_BUILTIN [''slingshot'', ''frame'', ''packet'', ''launch'', ''impact'', ''midflight-monitor'', ''governance-acceleration''] (Some ''agent/slingshot''),
      sk ''agent:emergent-substrate'' ''Emergent Substrate''
        (''5-phase constitutional governance loop (Input '' @ arrow @ '' Stabilization '' @ arrow @ '' Validation '' @ arrow @ '' Feedback '' @ arrow @ '' Integration) with entropy/order engines, SQLite memory, and AAIS/CIB-1/GPS constitutions from Project Infi'')
        NOVA_BUILTIN [''emergent-substrate'', ''constitutional-loop'', ''entropy-engine'', ''order-engine'', ''governance-gauntlet'', ''memory-layer''] (Some ''agent/emergent-substrate''),
      sk ''agent:llm-engine'' ''LLM Inference Engine''
        ''C++17 LLM inference server with governance layer (VRAM/thermal), proof surface (FNV-1a receipts), and CPU/OpenCL/Vulkan backends from Project Infi''
        NOVA_BUILTIN [''llm-inference'', ''governance-enforcement'', ''proof-surface'', ''tensor-ops'', ''multi-backend''] (Some ''agent/llm-engine''),
      sk ''agent:mesh-simulator'' ''Mesh Simulator''
        ''Multi-organism mesh simulation with grid-agent engine and constitutional sandbox (MandalaBrainV2, EvidenceLedger, domain engines) from Project Infi''
        NOVA_BUILTIN [''mesh-simulation'', ''constitutional-sandbox'', ''mandala-brain'', ''evidence-ledger'', ''stress-testing''] (Some ''agent/mesh-simulator''),
      sk ''agent:continuity-engine'' ''Continuity Engine''
        ''Constitutional threshold management (CRK-1, RPA-1, JPA-1) with adversarial review, recalibration governance, continuity ledger v2 from Project Infi''
        NOVA_BUILTIN [''continuity-engine'', ''threshold-management'', ''crk1'', ''reality-veto'', ''judgment-primacy'', ''adversarial-review''] (Some ''agent/continuity-engine''),
      sk ''agent:paragon-one'' ''Paragon One''
        (''Full-stack constitutional AI twin '' @ em_dash @ '' 14 sovereign services (aiTwin, evidence, lineage, multiverse, temporal, sovereignty), evidence/reputation/opportunity systems, Python FastAPI + Node SDK'')
        NOVA_BUILTIN [''paragon-one'', ''ai-twin'', ''evidence-system'', ''reputation-system'', ''lineage-tracking'', ''multiverse'', ''sovereignty''] (Some ''agent/paragon-one''),
      sk ''agent:earthos-pilot-c'' ''EarthOS Pilot C''
        (''Constitutional robotics '' @ em_dash @ '' robot control, safety envelope, sensors/actuators, swarm governance from EarthOS-Pilot-C'')
        NOVA_BUILTIN [''earthos-pilot-c'', ''robot-control'', ''safety-envelope'', ''swarm-governance'', ''grid-world''] (Some ''agent/earthos-pilot-c''),
      sk ''agent:ceip-temporal'' ''CEIP Temporal Standards''
        ''CKCA runtime (compression engine, replay engine, diagnostics), temporal engines, conformance runner, 8 JSON schemas from ceip-temporal-standards''
        NOVA_BUILTIN [''ceip-temporal'', ''ckca'', ''compression'', ''replay'', ''diagnostics'', ''temporal-engines'', ''conformance''] (Some ''agent/ceip-temporal''),
      sk ''agent:npcm-standards'' ''NPCME Standards''
        (''NPCME temporal conformance '' @ em_dash @ '' Python adapter, differential engine, Node conformance runner from npcme-standards'')
        NOVA_BUILTIN [''npcm-standards'', ''conformance-runner'', ''differential-engine'', ''python-adapter'', ''cert-packet''] (Some ''agent/npcm-standards''),
      sk ''agent:research-os'' ''Research OS Scaffold''
        ''Next.js 16 + Drizzle + Cloudflare Workers full-stack scaffold from research-os-scaffold''
        NOVA_BUILTIN [''research-os'', ''nextjs'', ''drizzle-orm'', ''cloudflare-workers'', ''full-stack''] (Some ''agent/research-os''),
      sk ''agent:constitutional-node'' ''Constitutional Node Test''
        (''Constitutional node test harness '' @ em_dash @ '' envelope, safety, UCR, replay subsystems from test-constitutional-node'')
        NOVA_BUILTIN [''constitutional-node'', ''envelope-testing'', ''safety-verification'', ''ucr-evaluation'', ''replay-testing''] (Some ''agent/constitutional-node''),
      sk ''agent:windows-skill'' ''Windows Skill''
        ''Windows automation CLI + LLM + constitutional governance, standalone exe from windows-skill''
        NOVA_BUILTIN [''windows-skill'', ''windows-automation'', ''cli'', ''llm-integration'', ''governance''] (Some ''agent/windows-skill''),
      sk ''agent:ai-factory'' ''AI Factory''
        (''Governed mind-fabrication pipeline '' @ em_dash @ '' build/verify/deploy/revoke with evidence receipts from ai_factory'')
        NOVA_BUILTIN [''ai-factory'', ''mind-fabrication'', ''build-pipeline'', ''proof-station'', ''envelope'', ''ledger''] (Some ''agent/ai-factory''),
      sk ''agent:earth-os'' ''EarthOS Pilot A''
        (''Constitutional governance sandbox '' @ em_dash @ '' CGE reference, CCT conformance, CPBA/CPRM evaluators, evidence generator, review pipeline from Earth-OS'')
        NOVA_BUILTIN [''earth-os'', ''cge-reference'', ''cct-conformance'', ''cpba'', ''cprm'', ''evidence-generator'', ''review-pipeline''] (Some ''agent/earth-os''),
      sk ''agent:earthos-pilot-b'' ''EarthOS Pilot B''
        (''Federated constitutional network '' @ em_dash @ '' cross-domain authority propagation, federated revocation, federated evidence lineage from EarthOS-Pilot-B'')
        NOVA_BUILTIN [''earthos-pilot-b'', ''federation'', ''cross-domain-authority'', ''federated-revocation'', ''federated-lineage''] (Some ''agent/earthos-pilot-b''),
      sk ''agent:project-infinity'' ''Project Infinity / AAIS''
        (''Adaptive Assistant Intelligence System '' @ em_dash @ '' evolve engine, forge, spiral, beatbox, story forge, integrations from Project-Infinity-main'')
        NOVA_BUILTIN [''project-infinity'', ''aais'', ''evolve-engine'', ''forge'', ''spiral'', ''story-forge'', ''integration-hub''] (Some ''agent/project-infinity''),
      sk ''agent:repo-review'' ''Repo Review''
        (''Nova continuity substrate (Event '' @ arrow @ '' Timeline '' @ arrow @ '' Lineage, Receipts) + Research OS (Question '' @ arrow @ '' Evidence '' @ arrow @ '' Analysis '' @ arrow @ '' Knowledge, CHEA) from repo-review'')
        NOVA_BUILTIN [''repo-review'', ''nova-continuity'', ''research-os-workspace'', ''continuity-substrate'', ''chea-execution''] (Some ''agent/repo-review''),
      sk ''agent:hydra'' ''HYDRA''
        (''Hybrid Dynamic Reasoning Architecture '' @ em_dash @ '' dynamic reasoning graph with RAT, PERSCEN, TARTAN, CoM modules'')
        NOVA_BUILTIN [''hydra'', ''dynamic-reasoning'', ''reasoning-graph'', ''hybrid-architecture''] (Some ''agent/hydra'')]"

definition ALL_CODEX_SKILLS :: "manifest list" where
  "ALL_CODEX_SKILLS = CODEX_BASE @ CODEX_CRK_DIST @ CODEX_SPECS @ PLATFORM_SKILLS @ GOVERNANCE_SKILLS @ AGENT_SKILLS"

definition with_caps :: "string list \<Rightarrow> manifest list \<Rightarrow> manifest list" where
  "with_caps caps = filter (\<lambda>m. list_ex (\<lambda>c. c \<in> set caps) (mf_caps m))"

definition platform_skill :: "string \<Rightarrow> manifest list" where
  "platform_skill i = (case List.find (\<lambda>m. mf_id m = i) PLATFORM_SKILLS of Some m \<Rightarrow> [m] | None \<Rightarrow> [])"

text \<open>The capabilities that four of the roles share.\<close>

definition SHARED_CAPS :: "string list" where
  "SHARED_CAPS = [''paragon-one'', ''earthos-pilot-c'', ''ceip-temporal'', ''npcm-standards'', ''research-os'', ''constitutional-node'',
     ''windows-skill'', ''ai-factory'', ''earth-os'', ''earthos-pilot-b'', ''project-infinity'', ''repo-review'', ''hydra'']"

definition COLOR_SKILL_MAPS :: "agent_role \<Rightarrow> manifest list" where
  "COLOR_SKILL_MAPS r = (case r of
     Architect \<Rightarrow> with_caps [''constitutional-execution'', ''governance-runtime'', ''specifications'', ''formal-definitions''] CODEX_BASE @ GOVERNANCE_SKILLS @
       with_caps ([''mythar'', ''governance-core'', ''ulx'', ''cmas'', ''mechanic'', ''slingshot'', ''emergent-substrate'', ''continuity-engine'',
         ''llm-inference'', ''mesh-simulation''] @ SHARED_CAPS) AGENT_SKILLS @
       platform_skill ''workflow:git'' @ platform_skill ''workflow:code-review'' @ platform_skill ''platform:linux''
   | Builder \<Rightarrow> with_caps [''reference-implementation'', ''protocols'', ''earthos'', ''harmonized-substrate''] CODEX_BASE @
       with_caps [''agent-runtime'', ''code-intelligence''] GOVERNANCE_SKILLS @
       with_caps ([''skillzmcgee'', ''continuity'', ''sovereign-x'', ''completion'', ''mechanic'', ''slingshot'', ''emergent-substrate'',
         ''llm-inference'', ''mesh-simulation'', ''continuity-engine''] @ SHARED_CAPS) AGENT_SKILLS @ CODEX_SPECS @ PLATFORM_SKILLS
   | Implementor \<Rightarrow> AGENT_SKILLS @ PLATFORM_SKILLS @ CODEX_CRK_DIST @ with_caps [''security'', ''data-model'', ''code-intelligence''] GOVERNANCE_SKILLS
   | Validator \<Rightarrow> with_caps [''conformance'', ''invariant-testing'', ''verification''] CODEX_BASE @
       with_caps [''governance'', ''constitutional'', ''temporal''] GOVERNANCE_SKILLS @
       with_caps ([''governance-core'', ''mythar'', ''continuity'', ''mechanic'', ''scan'', ''diagnosis'', ''continuity-engine'', ''emergent-substrate'',
         ''mesh-simulation''] @ SHARED_CAPS) AGENT_SKILLS @ CODEX_SPECS
   | Reviewer \<Rightarrow> GOVERNANCE_SKILLS @ with_caps [''specifications'', ''formal-definitions''] CODEX_BASE @
       with_caps ([''cmas'', ''sovereign-x'', ''governance-core'', ''mythar'', ''mechanic'', ''continuity-engine'', ''emergent-substrate'', ''llm-inference'',
         ''mesh-simulation''] @ SHARED_CAPS) AGENT_SKILLS @ CODEX_SPECS @ platform_skill ''workflow:code-review'')"

subsection \<open>Discovery\<close>

record skill_files =
  sf_exists :: "string \<Rightarrow> bool"
  sf_entries :: "string \<Rightarrow> string + (string \<times> bool) list"
  sf_read :: "string \<Rightarrow> string + string"
  sf_parse :: "string \<Rightarrow> string + json"
  sf_builtin :: string
  sf_import :: "nat \<Rightarrow> string \<Rightarrow> string option"

definition read_json :: "skill_files \<Rightarrow> string \<Rightarrow> string + json" where
  "read_json F path = or_throw (sf_read F path) (sf_parse F)"

definition given_field :: "json \<Rightarrow> string \<Rightarrow> string + json option" where
  "given_field v k = or_throw (field_of v k) (\<lambda>x. Inr (if x = Some JNull then None else x))"

definition text_field :: "json \<Rightarrow> string \<Rightarrow> string \<Rightarrow> string + string" where
  "text_field v k d = or_throw (given_field v k) (\<lambda>x. Inr (case x of None \<Rightarrow> d | Some w \<Rightarrow> js_string w))"

text \<open>The manifest of a directory with a package file; \<open>pkg.main ?? pkg.exports ? "./" : undefined\<close> tests the first two.\<close>

definition package_manifest :: "skill_files \<Rightarrow> skill_source \<Rightarrow> string \<Rightarrow> string \<Rightarrow> string + manifest" where
  "package_manifest F src dir name =
     or_throw (read_json F (path_join dir ''package.json'')) (\<lambda>pkg. or_throw (text_field pkg ''name'' name) (\<lambda>n.
     or_throw (text_field pkg ''description'' (''Source from '' @ dir)) (\<lambda>d. or_throw (text_field pkg ''version'' ''0.0.0'') (\<lambda>v.
     or_throw (given_field pkg ''main'') (\<lambda>m. or_throw (field_of pkg ''exports'') (\<lambda>x.
       Inr \<lparr>mf_id = source_name src @ '':'' @ name, mf_name = n, mf_desc = d, mf_version = v, mf_source = src, mf_path = dir, mf_caps = [],
         mf_entry = (if truthy (if m \<noteq> None then m else x) then Some ''./'' else None)\<rparr>))))))"

definition bare_manifest :: "skill_source \<Rightarrow> string \<Rightarrow> string \<Rightarrow> string \<Rightarrow> manifest" where
  "bare_manifest src dir name desc = \<lparr>mf_id = source_name src @ '':'' @ name, mf_name = name, mf_desc = desc, mf_version = ''0.0.0'',
     mf_source = src, mf_path = dir, mf_caps = [], mf_entry = None\<rparr>"

definition directory_manifest :: "skill_files \<Rightarrow> skill_source \<Rightarrow> string \<Rightarrow> string \<Rightarrow> manifest" where
  "directory_manifest F src base name =
     (let dir = path_join base name
      in if sf_exists F (path_join dir ''package.json'')
         then (case package_manifest F src dir name of Inr m \<Rightarrow> m | Inl e \<Rightarrow> bare_manifest src dir name (''Source from '' @ dir))
         else bare_manifest src dir name
                (if sf_exists F (path_join dir ''index.ts'') \<or> sf_exists F (path_join dir ''index.tsx'') then ''TypeScript module in '' @ dir
                 else ''Directory resource in '' @ dir))"

definition scanDirectorySkills :: "skill_files \<Rightarrow> string \<Rightarrow> skill_source \<Rightarrow> string + manifest list" where
  "scanDirectorySkills F base src =
     (if \<not> sf_exists F base then Inr []
      else or_throw (sf_entries F base) (\<lambda>es. Inr (map (\<lambda>(n, _). directory_manifest F src base n)
             (filter (\<lambda>(n, d). d \<and> \<not> starts_with n ''.'' \<and> n \<noteq> ''node_modules'') es))))"

definition base_name :: "string \<Rightarrow> string" where
  "base_name p = (let segs = filter (\<lambda>x. x \<noteq> []) (split_on (CHR ''/'') p) in if segs = [] then [] else last segs)"

definition knownCaps :: "(string \<times> string list) list" where
  "knownCaps =
     [(''governance'', [''governance'', ''constitutional-rules'', ''invariant-checking'']), (''conformance'', [''conformance'', ''invariant-validation'', ''testing'']),
      (''runtime'', [''runtime'', ''execution'', ''sandbox'']), (''core'', [''core'', ''kernel'', ''foundation'']),
      (''canonical'', [''canonical'', ''schema'', ''specification'']), (''ledger'', [''ledger'', ''receipts'', ''evidence'']),
      (''api'', [''api'', ''rest'', ''endpoint'']), (''federation'', [''federation'', ''multi-agent'', ''networking'']),
      (''substrate'', [''substrate'', ''evidence-layer'', ''continuity'']), (''events'', [''events'', ''messaging'', ''pubsub'']),
      (''schemas'', [''schemas'', ''validation'', ''json-schema'']), (''types'', [''types'', ''type-definitions'']),
      (''config'', [''config'', ''configuration'']), (''darz'', [''darz'', ''multizone'', ''coordination'']),
      (''cor-client'', [''cor-client'', ''continuity-client'']), (''cor-suite'', [''cor-suite'', ''continuity-suite'', ''testing'']),
      (''crk1'', [''crk1'', ''crisis-response'']), (''nova-studio'', [''nova-studio'', ''ui'', ''dashboard'']),
      (''slices'', [''slices'', ''partitioning'']), (''spec'', [''spec'', ''specification'']), (''specification'', [''specification'', ''formal-spec'']),
      (''tools'', [''tools'', ''cli'', ''utilities'']), (''services'', [''services'', ''microservices'']), (''scripts'', [''scripts'', ''automation'']),
      (''ui'', [''ui'', ''components'', ''frontend'']), (''workflow-canvas'', [''workflow-canvas'', ''visual-workflow'']),
      (''workflow-modeling'', [''workflow-modeling'', ''workflow-design'']), (''meta'', [''meta'', ''self-reference'']),
      (''examples'', [''examples'', ''samples'']), (''tests'', [''tests'', ''testing'']), (''docs'', [''docs'', ''documentation''])]"

definition discoverSkillzmcgeeCapabilities :: "manifest \<Rightarrow> string list" where
  "discoverSkillzmcgeeCapabilities m = or_else (map_of knownCaps (base_name (mf_path m))) []"

definition env_path :: "process_env \<Rightarrow> string \<Rightarrow> string \<Rightarrow> string" where
  "env_path V k fallback = or_else (ev_var V k) fallback"

definition SKILLZMCGEE_PATH :: "process_env \<Rightarrow> string" where
  "SKILLZMCGEE_PATH V = env_path V ''SKILLZMCGEE_PATH'' (''G:'' @ backslash @ ''skillzmcgee'')"

definition ENGINEERING_SKILLS_PATH :: "process_env \<Rightarrow> string" where
  "ENGINEERING_SKILLS_PATH V = env_path V ''ENG_SKILLS_PATH'' (''G:'' @ backslash @ ''engineering-partner-package'' @ backslash @ ''skills'')"

definition discoverSkillzmcgeeSkills :: "process_env \<Rightarrow> skill_files \<Rightarrow> string + manifest list" where
  "discoverSkillzmcgeeSkills V F = or_throw (scanDirectorySkills F (SKILLZMCGEE_PATH V) SKILLZMCGEE)
     (\<lambda>ms. Inr (map (\<lambda>m. m\<lparr>mf_caps := discoverSkillzmcgeeCapabilities m\<rparr>) ms))"

definition strip_json :: "string \<Rightarrow> string" where
  "strip_json f = (if suffix ''.json'' f then take (length f - 5) f else f)"

definition declared_caps :: "json option \<Rightarrow> string list" where
  "declared_caps v = (case v of Some (JArr xs) \<Rightarrow> map js_string xs | _ \<Rightarrow> [])"

definition declared_skill :: "skill_files \<Rightarrow> string \<Rightarrow> string \<Rightarrow> manifest" where
  "declared_skill F dir f =
     (case or_throw (read_json F (path_join dir f)) (\<lambda>c. or_throw (text_field c ''name'' f) (\<lambda>n.
             or_throw (text_field c ''description'' (''Engineering partner skill: '' @ f)) (\<lambda>d. or_throw (text_field c ''version'' ''1.0.0'') (\<lambda>v.
             or_throw (given_field c ''capabilities'') (\<lambda>caps.
               Inr \<lparr>mf_id = ''engineering:'' @ strip_json f, mf_name = n, mf_desc = d, mf_version = v, mf_source = ENGINEERING_PARTNER,
                 mf_path = dir, mf_caps = declared_caps caps, mf_entry = None\<rparr>))))) of
        Inr m \<Rightarrow> m
      | Inl e \<Rightarrow> \<lparr>mf_id = ''engineering:'' @ f, mf_name = f, mf_desc = ''Engineering partner skill declaration'', mf_version = ''1.0.0'',
          mf_source = ENGINEERING_PARTNER, mf_path = dir, mf_caps = [], mf_entry = None\<rparr>)"

definition discoverEngineeringSkills :: "process_env \<Rightarrow> skill_files \<Rightarrow> string + manifest list" where
  "discoverEngineeringSkills V F =
     (let dir = path_join (ENGINEERING_SKILLS_PATH V) ''declarations''
      in if \<not> sf_exists F dir then Inr []
         else or_throw (sf_entries F dir) (\<lambda>es. Inr (map (declared_skill F dir) (filter (suffix ''.json'') (map fst es)))))"

definition knownBuiltinCaps :: "(string \<times> string list) list" where
  "knownBuiltinCaps =
     [(''governance'', [''governance'', ''invariant-checking'', ''receipts'', ''validation'']), (''completion'', [''completion'', ''inline-completion'', ''code-generation'']),
      (''cmas'', [''cmas'', ''multi-agent'', ''orchestration'', ''architect'', ''builder'', ''implementor'', ''validator'', ''reviewer'']),
      (''continuity'', [''continuity'', ''snapshots'', ''lineage'']), (''lib'', [''library'', ''utilities'', ''hashing''])]"

definition discoverBuiltinSkills :: "skill_files \<Rightarrow> string + manifest list" where
  "discoverBuiltinSkills F = or_throw (scanDirectorySkills F (sf_builtin F) NOVA_BUILTIN)
     (\<lambda>ms. Inr (map (\<lambda>m. case map_of knownBuiltinCaps (base_name (mf_path m)) of Some cs \<Rightarrow> m\<lparr>mf_caps := cs\<rparr> | None \<Rightarrow> m) ms))"

definition discoverAllSkills :: "process_env \<Rightarrow> skill_files \<Rightarrow> string + manifest list" where
  "discoverAllSkills V F = or_throw (discoverSkillzmcgeeSkills V F) (\<lambda>a. or_throw (discoverEngineeringSkills V F) (\<lambda>b.
     or_throw (discoverBuiltinSkills F) (\<lambda>c. Inr (a @ b @ c))))"

subsection \<open>The registry\<close>

record skill_entry =
  en_manifest :: manifest
  en_loaded :: bool
  en_error :: "string option"

record skills_st = cmas_st +
  skill_reg :: "(string, skill_entry) jsmap"

definition registerSkill :: "manifest \<Rightarrow> 'a skills_st_scheme \<Rightarrow> 'a skills_st_scheme" where
  "registerSkill m s = s\<lparr>skill_reg := js_set (mf_id m) \<lparr>en_manifest = m, en_loaded = False, en_error = None\<rparr> (skill_reg s)\<rparr>"

definition dedupe :: "manifest list \<Rightarrow> manifest list" where
  "dedupe ms = js_values (fold (\<lambda>m. js_set (mf_id m) m) ms [])"

definition registerAllDiscovered :: "process_env \<Rightarrow> skill_files \<Rightarrow> 'a skills_st_scheme \<Rightarrow> (string + string list) \<times> 'a skills_st_scheme" where
  "registerAllDiscovered V F s =
     (case discoverAllSkills V F of
        Inl e \<Rightarrow> (Inl e, s)
      | Inr ms \<Rightarrow> (let ds = dedupe (ms @ ALL_CODEX_SKILLS) in (Inr (map mf_id ds), fold registerSkill ds s)))"

text \<open>The entry is loaded or keeps the message of the failed import; a message of an earlier attempt stays.\<close>

definition loadSkill :: "skill_files \<Rightarrow> string \<Rightarrow> 'a skills_st_scheme \<Rightarrow> (string + string) \<times> 'a skills_st_scheme" where
  "loadSkill F i s =
     (case js_get (skill_reg s) i of
        None \<Rightarrow> (Inl (''Skill not found: '' @ i), s)
      | Some e \<Rightarrow>
          if en_loaded e then (Inr i, s)
          else (let s1 = s\<lparr>tick := Suc (tick s)\<rparr>
                in (Inr i, case sf_import F (tick s) (mf_path (en_manifest e)) of
                      None \<Rightarrow> s1\<lparr>skill_reg := js_modify i (\<lambda>e. e\<lparr>en_loaded := True\<rparr>) (skill_reg s1)\<rparr>
                    | Some err \<Rightarrow> s1\<lparr>skill_reg := js_modify i (\<lambda>e. e\<lparr>en_loaded := False, en_error := Some err\<rparr>) (skill_reg s1)\<rparr>)))"

record skill_query =
  sq_capability :: "string option"
  sq_source :: "skill_source option"
  sq_text :: "string option"

definition query_match :: "skill_query \<Rightarrow> skill_entry \<Rightarrow> bool" where
  "query_match q e = (let m = en_manifest e
     in (given_str (sq_capability q) \<longrightarrow> list_ex (\<lambda>c. str_includes c (the (sq_capability q))) (mf_caps m)) \<and>
        (sq_source q \<noteq> None \<longrightarrow> Some (mf_source m) = sq_source q) \<and>
        (given_str (sq_text q) \<longrightarrow> str_includes (lower (mf_name m)) (lower (the (sq_text q))) \<or> str_includes (lower (mf_desc m)) (lower (the (sq_text q)))))"

definition querySkills :: "skill_query \<Rightarrow> 'a skills_st_scheme \<Rightarrow> skill_entry list" where
  "querySkills q s = filter (query_match q) (js_values (skill_reg s))"

definition getSkill :: "string \<Rightarrow> 'a skills_st_scheme \<Rightarrow> skill_entry option" where
  "getSkill i s = js_get (skill_reg s) i"

definition listSkills :: "'a skills_st_scheme \<Rightarrow> skill_entry list" where
  "listSkills s = js_values (skill_reg s)"

definition resetSkillRegistry :: "'a skills_st_scheme \<Rightarrow> 'a skills_st_scheme" where
  "resetSkillRegistry s = s\<lparr>skill_reg := []\<rparr>"

subsection \<open>The role loader\<close>

text \<open>The colour of a role name stands for the role; an unknown name has the implementor's.\<close>

definition getRoleColor :: "string \<Rightarrow> agent_role" where
  "getRoleColor n = (if n = ''architect'' then Architect else if n = ''builder'' then Builder else if n = ''implementor'' then Implementor
     else if n = ''validator'' then Validator else if n = ''reviewer'' then Reviewer else Implementor)"

definition getSkillsForRole :: "string \<Rightarrow> manifest list" where
  "getSkillsForRole n = COLOR_SKILL_MAPS (getRoleColor n)"

definition load_one :: "skill_files \<Rightarrow> manifest \<Rightarrow> string list \<times> 'a skills_st_scheme \<Rightarrow> string list \<times> 'a skills_st_scheme" where
  "load_one F m x =
     (case x of (ids, s) \<Rightarrow>
        (case List.find (\<lambda>e. mf_id (en_manifest e) = mf_id m) (listSkills s) of
           Some e \<Rightarrow> if en_loaded e then (ids @ [mf_id (en_manifest e)], s) else (ids @ [mf_id m], snd (loadSkill F (mf_id m) s))
         | None \<Rightarrow> (ids @ [mf_id m], snd (loadSkill F (mf_id m) (registerSkill m s)))))"

definition loadSkillsForRole :: "skill_files \<Rightarrow> string \<Rightarrow> 'a skills_st_scheme \<Rightarrow> string list \<times> 'a skills_st_scheme" where
  "loadSkillsForRole F n s = fold (load_one F) (getSkillsForRole n) ([], s)"

text \<open>The set of existing identifiers is taken once, before the loop.\<close>

definition ensureAllCodexSkillsRegistered :: "'a skills_st_scheme \<Rightarrow> string list \<times> 'a skills_st_scheme" where
  "ensureAllCodexSkillsRegistered s =
     (let existing = map (\<lambda>e. mf_id (en_manifest e)) (listSkills s); missing = filter (\<lambda>m. mf_id m \<notin> set existing) ALL_CODEX_SKILLS
      in (map mf_id missing, fold registerSkill missing s))"

subsection \<open>The registry and the role loader\<close>

definition skills_ok :: "'a skills_st_scheme \<Rightarrow> bool" where
  "skills_ok s \<longleftrightarrow> distinct (map fst (skill_reg s)) \<and> (\<forall>(k, e)\<in>set (skill_reg s). mf_id (en_manifest e) = k)"

text \<open>The same entries for the same manifests, and what was loaded still is.\<close>

definition entry_keeps :: "skill_entry \<Rightarrow> skill_entry \<Rightarrow> bool" where
  "entry_keeps e f \<longleftrightarrow> en_manifest f = en_manifest e \<and> (en_loaded e \<longrightarrow> f = e)"

definition reg_keeps :: "(string, skill_entry) jsmap \<Rightarrow> (string, skill_entry) jsmap \<Rightarrow> bool" where
  "reg_keeps m n \<longleftrightarrow> list_all2 (\<lambda>(k, e) (l, f). k = l \<and> entry_keeps e f) m n"

lemma reg_keeps_refl [simp]: "reg_keeps m m"
  by (auto simp: reg_keeps_def entry_keeps_def intro: list.rel_refl)

lemma reg_keeps_trans: "reg_keeps m n \<Longrightarrow> reg_keeps n p \<Longrightarrow> reg_keeps m p"
  unfolding reg_keeps_def by (rule list_all2_trans [rotated], assumption+) (auto simp: entry_keeps_def)

lemma reg_keeps_Cons [simp]: "reg_keeps ((k, e) # m) ((l, f) # n) \<longleftrightarrow> k = l \<and> entry_keeps e f \<and> reg_keeps m n"
  by (simp add: reg_keeps_def)

lemma entry_keeps_refl [simp]: "entry_keeps e e"
  by (simp add: entry_keeps_def)

lemma reg_keeps_set: "js_get m i = Some e \<Longrightarrow> entry_keeps e f \<Longrightarrow> reg_keeps m (js_set i f m)"
  by (induction m) (auto split: if_splits)

lemma reg_keeps_modify: "(\<And>e. js_get m i = Some e \<Longrightarrow> entry_keeps e (f e)) \<Longrightarrow> reg_keeps m (js_modify i f m)"
  by (auto simp: js_modify_def reg_keeps_set split: option.split)

lemma reg_keeps_keys: "reg_keeps m n \<Longrightarrow> map fst n = map fst m"
  unfolding reg_keeps_def by (induction rule: list_all2_induct) auto

lemma reg_keeps_get: "reg_keeps m n \<Longrightarrow> js_get m k = Some e \<Longrightarrow> \<exists>f. js_get n k = Some f \<and> entry_keeps e f"
  unfolding reg_keeps_def by (induction rule: list_all2_induct) (auto split: if_splits)

lemma reg_keeps_ids: "reg_keeps m n \<Longrightarrow> \<forall>(k, e)\<in>set m. mf_id (en_manifest e) = k \<Longrightarrow> \<forall>(k, e)\<in>set n. mf_id (en_manifest e) = k"
  unfolding reg_keeps_def by (induction rule: list_all2_induct) (auto simp: entry_keeps_def)

lemma keeps_ok: "reg_keeps (skill_reg s) (skill_reg t) \<Longrightarrow> skills_ok s \<Longrightarrow> skills_ok t"
  using reg_keeps_keys [of "skill_reg s" "skill_reg t"] reg_keeps_ids [of "skill_reg s" "skill_reg t"] by (simp add: skills_ok_def)

lemma all_entries_set: "\<forall>(k, e)\<in>set m. P k e \<Longrightarrow> P i v \<Longrightarrow> \<forall>(k, e)\<in>set (js_set i v m). P k e"
  by (induction m) auto

lemma register_ok: "skills_ok s \<Longrightarrow> skills_ok (registerSkill m s)"
  using all_entries_set [of "skill_reg s" "\<lambda>k e. mf_id (en_manifest e) = k" "mf_id m" "\<lparr>en_manifest = m, en_loaded = False, en_error = None\<rparr>"]
  by (simp add: skills_ok_def registerSkill_def distinct_keys_set)

lemma registers_ok: "skills_ok s \<Longrightarrow> skills_ok (fold registerSkill ms s)"
  by (induction ms arbitrary: s) (simp_all add: register_ok)

lemma find_entry:
  "\<forall>(k, e)\<in>set m. mf_id (en_manifest e) = k \<Longrightarrow> List.find (\<lambda>e. mf_id (en_manifest e) = k) (js_values m) = js_get m k"
  by (induction m) (auto simp: js_values_def)

lemma load_keeps: "reg_keeps (skill_reg s) (skill_reg (snd (loadSkill F i s)))"
  by (auto simp: loadSkill_def Let_def entry_keeps_def split: option.split intro: reg_keeps_modify)

lemma register_get: "js_get (skill_reg (registerSkill m s)) k =
    (if k = mf_id m then Some \<lparr>en_manifest = m, en_loaded = False, en_error = None\<rparr> else js_get (skill_reg s) k)"
  by (simp add: registerSkill_def)

lemma registers_other: "k \<notin> mf_id ` set ms \<Longrightarrow> js_get (skill_reg (fold registerSkill ms s)) k = js_get (skill_reg s) k"
  by (induction ms arbitrary: s) (auto simp: register_get)

lemma registers_has: "js_has (skill_reg (fold registerSkill ms s)) k \<longleftrightarrow> k \<in> mf_id ` set ms \<or> js_has (skill_reg s) k"
  by (induction ms arbitrary: s) (auto simp: js_has_def register_get)

lemma role_skills: "set (getSkillsForRole n) \<subseteq> set ALL_CODEX_SKILLS"
proof -
  have "set (platform_skill i) \<subseteq> set PLATFORM_SKILLS" for i
    by (cases "List.find (\<lambda>m. mf_id m = i) PLATFORM_SKILLS") (auto simp: platform_skill_def dest: find_SomeD)
  then have "set (COLOR_SKILL_MAPS r) \<subseteq> set ALL_CODEX_SKILLS" for r
    by (cases r) (auto simp: COLOR_SKILL_MAPS_def ALL_CODEX_SKILLS_def with_caps_def)
  then show ?thesis by (simp add: getSkillsForRole_def)
qed

lemma load_one_known:
  assumes "skills_ok s" and "js_has (skill_reg s) (mf_id m)"
  shows "fst (load_one F m (ids, s)) = ids @ [mf_id m]" "reg_keeps (skill_reg s) (skill_reg (snd (load_one F m (ids, s))))"
proof -
  from assms(2) obtain e where e: "js_get (skill_reg s) (mf_id m) = Some e" by (auto simp: js_has_def)
  with assms(1) find_entry [of "skill_reg s" "mf_id m"] have f: "List.find (\<lambda>e. mf_id (en_manifest e) = mf_id m) (listSkills s) = Some e"
    by (simp add: skills_ok_def listSkills_def)
  moreover have "mf_id (en_manifest e) = mf_id m" using assms(1) e by (auto simp: skills_ok_def dest: map_of_SomeD)
  ultimately show "fst (load_one F m (ids, s)) = ids @ [mf_id m]" "reg_keeps (skill_reg s) (skill_reg (snd (load_one F m (ids, s))))"
    by (simp_all add: load_one_def load_keeps)
qed

lemma load_all_known:
  assumes "skills_ok s" and "\<forall>m\<in>set ms. js_has (skill_reg s) (mf_id m)"
  shows "fst (fold (load_one F) ms (ids, s)) = ids @ map mf_id ms \<and> reg_keeps (skill_reg s) (skill_reg (snd (fold (load_one F) ms (ids, s))))"
  using assms
proof (induction ms arbitrary: ids s)
  case (Cons m ms)
  obtain j t where t: "load_one F m (ids, s) = (j, t)" by fastforce
  with load_one_known [of s m F ids] Cons.prems have k: "j = ids @ [mf_id m]" "reg_keeps (skill_reg s) (skill_reg t)" by auto
  then have "js_has (skill_reg t) x = js_has (skill_reg s) x" for x
    using reg_keeps_keys [OF k(2)] by (metis js_has_def domIff dom_map_of_conv_image_fst list.set_map)
  with Cons.IH [of t j] Cons.prems keeps_ok [OF k(2)] t k reg_keeps_trans [OF k(2)] show ?case by auto
qed simp

text \<open>C30. What the start of a workflow leaves in the registry. After all built-in skills are ensured each has an entry, the entries that were
  there are unchanged and ensuring again does nothing; loading the skills of any role then answers with
  exactly that role's skills in order, registers nothing, and changes no manifest and no loaded entry.\<close>

theorem skill_loading:
  assumes "skills_ok s" and "ensureAllCodexSkillsRegistered s = (new, t)" and "loadSkillsForRole F n t = (ids, u)"
  shows "skills_ok u \<and> list_all (\<lambda>m. js_has (skill_reg t) (mf_id m)) ALL_CODEX_SKILLS \<and>
     (\<forall>k e. getSkill k s = Some e \<longrightarrow> getSkill k t = Some e) \<and> ensureAllCodexSkillsRegistered t = ([], t) \<and>
     ids = map mf_id (getSkillsForRole n) \<and> map fst (skill_reg u) = map fst (skill_reg t) \<and>
     (\<forall>k e. getSkill k t = Some e \<longrightarrow> (\<exists>f. getSkill k u = Some f \<and> entry_keeps e f))"
proof -
  let ?missing = "filter (\<lambda>m. mf_id m \<notin> set (map (\<lambda>e. mf_id (en_manifest e)) (listSkills s))) ALL_CODEX_SKILLS"
  have t: "t = fold registerSkill ?missing s" using assms(2) by (simp add: ensureAllCodexSkillsRegistered_def Let_def)
  have known: "k \<in> set (map (\<lambda>e. mf_id (en_manifest e)) (listSkills x)) \<longleftrightarrow> js_has (skill_reg x) k" if "skills_ok x" for k and x :: "'a skills_st_scheme"
    using that by (auto simp: skills_ok_def listSkills_def js_values_def js_has_def image_iff dest: map_of_SomeD intro!: bexI)
      (force dest: weak_map_of_SomeI)+
  have kept: "getSkill k t = Some e" if "getSkill k s = Some e" for k e
  proof -
    define old where "old = set (map (\<lambda>e. mf_id (en_manifest e)) (listSkills s))"
    from that known [OF assms(1), of k] have "k \<in> old" by (simp add: getSkill_def js_has_def old_def)
    then have "k \<notin> mf_id ` set ?missing" unfolding old_def [symmetric] by auto
    then show ?thesis using that registers_other unfolding t getSkill_def by metis
  qed
  have all: "js_has (skill_reg t) (mf_id m)" if "m \<in> set ALL_CODEX_SKILLS" for m
    using that known [OF assms(1), of "mf_id m"] by (auto simp: t registers_has)
  have ok: "skills_ok t" using registers_ok [OF assms(1)] by (simp add: t)
  have "filter (\<lambda>m. mf_id m \<notin> set (map (\<lambda>e. mf_id (en_manifest e)) (listSkills t))) ALL_CODEX_SKILLS = []"
    using known [OF ok] all by (simp only: filter_empty_conv) simp
  then have again: "ensureAllCodexSkillsRegistered t = ([], t)" by (simp add: ensureAllCodexSkillsRegistered_def Let_def)
  have "\<forall>m\<in>set (getSkillsForRole n). js_has (skill_reg t) (mf_id m)" using all role_skills by blast
  from load_all_known [OF ok this, of F "[]"] assms(3)
  have l: "ids = map mf_id (getSkillsForRole n)" "reg_keeps (skill_reg t) (skill_reg u)" by (auto simp: loadSkillsForRole_def)
  show ?thesis using l keeps_ok [OF l(2) ok] kept all again reg_keeps_keys [OF l(2)] reg_keeps_get [OF l(2)]
    by (auto simp: list_all_iff getSkill_def)
qed

definition demo_skills :: skills_st where
  "demo_skills = cmas_st.extend demo_cmas \<lparr>skill_reg = []\<rparr>"

theorem skill_loading_witness:
  "fst (ensureAllCodexSkillsRegistered (snd (ensureAllCodexSkillsRegistered demo_skills))) = []"
proof -
  have "skills_ok demo_skills" by (simp add: skills_ok_def demo_skills_def cmas_st.defs)
  from skill_loading [OF this prod.collapse [symmetric] prod.collapse [symmetric]] show ?thesis by simp
qed

end
