(* ===== verification/Skillz.thy ===== *)
theory Skillz
  imports Csr
begin

text \<open>
  The capability client (\<open>agent/skillzmcgee/skillzClient.ts\<close>) and its use by the workflow
  (\<open>agent/skillzmcgee/cmas-integration.ts\<close>): capabilities run under an envelope that is checked before and
  after, the continuity ledger, the simulated cosmic state, federated receipts, the graph of intents and
  two logs. The module's variables are the state; the constructor only resets the capability
  table, which no operation changes, so the table is a constant. The file system is
  a parameter that gives the outcome of each call. The arguments of a capability have the types of its schema.
\<close>

subsection \<open>Capabilities\<close>

record capability =
  cp_id :: string
  cp_kind :: string
  cp_path :: string
  cp_input :: json
  cp_output :: json

definition typed :: "string \<Rightarrow> json" where
  "typed t = JObj [(''type'', JStr t)]"

definition schema :: "(string \<times> string) list \<Rightarrow> string list option \<Rightarrow> json" where
  "schema props req = JObj ([(''type'', JStr ''object''), (''properties'', JObj (map (\<lambda>(k, t). (k, typed t)) props))] @
     (case req of None \<Rightarrow> [] | Some r \<Rightarrow> [(''required'', jstrs r)]))"

definition DEFAULT_CAPABILITIES :: "capability list" where
  "DEFAULT_CAPABILITIES =
     [\<lparr>cp_id = ''read_file'', cp_kind = ''read'', cp_path = ''workspace/*'',
       cp_input = schema [(''path'', ''string'')] (Some [''path'']),
       cp_output = schema [(''path'', ''string''), (''content'', ''string''), (''bytes'', ''number'')] None\<rparr>,
      \<lparr>cp_id = ''write_file'', cp_kind = ''write'', cp_path = ''workspace/*'',
       cp_input = schema [(''path'', ''string''), (''content'', ''string'')] (Some [''path'', ''content'']),
       cp_output = schema [(''path'', ''string''), (''written'', ''boolean'')] None\<rparr>,
      \<lparr>cp_id = ''list_dir'', cp_kind = ''list_dir'', cp_path = ''workspace/*'',
       cp_input = schema [(''path'', ''string'')] None,
       cp_output = schema [(''path'', ''string''), (''entries'', ''array'')] None\<rparr>,
      \<lparr>cp_id = ''slice_math'', cp_kind = ''compute'', cp_path = ''deterministic'',
       cp_input = schema [(''value'', ''number'')] (Some [''value'']),
       cp_output = schema [(''value'', ''number'')] (Some [''value''])\<rparr>,
      \<lparr>cp_id = ''llm_echo'', cp_kind = ''llm'', cp_path = ''lawful-nova'',
       cp_input = schema [(''prompt'', ''string''), (''model'', ''string''), (''max_tokens'', ''number''), (''temperature'', ''number'')]
         (Some [''prompt'']),
       cp_output = schema [(''capabilityId'', ''string''), (''provider'', ''string''), (''model'', ''string''),
         (''promptHash'', ''string''), (''text'', ''string''), (''inputTokens'', ''number''), (''outputTokens'', ''number'')]
         (Some [''text'', ''promptHash''])\<rparr>]"

definition cap_json :: "capability \<Rightarrow> json" where
  "cap_json c = JObj [(''id'', JStr (cp_id c)), (''kind'', JStr (cp_kind c)), (''path'', JStr (cp_path c)),
     (''inputSchema'', cp_input c), (''outputSchema'', cp_output c)]"

subsection \<open>State\<close>

datatype stance_kind = ST_IDLE | ST_MONITORING | ST_INTERVENING | ST_HALTED

record op_stance =
  os_operator :: string
  os_stance :: stance_kind
  os_focus :: "string option"
  os_last :: time

record wave =
  wv_id :: string
  wv_runtime :: string
  wv_phase :: string
  wv_drift :: jsnum
  wv_fold :: string
  wv_started :: time
  wv_updated :: time

type_synonym fields = "(string \<times> json) list"

record crk1_receipt =
  k1_id :: string
  k1_parent :: "string option"
  k1_time :: time
  k1_actor :: string
  k1_domain :: string
  k1_input :: fields
  k1_output :: fields
  k1_status :: string
  k1_passed :: "string list"
  k1_diff :: "fields option"

record gov_entry =
  ge_id :: string
  ge_parent :: "string option"
  ge_time :: time
  ge_slice :: string
  ge_actor :: string
  ge_input :: fields
  ge_output :: fields
  ge_status :: string
  ge_merkle :: "string \<times> string option"
  ge_passed :: "string list"
  ge_diff :: "fields option"

text \<open>An agent's other attributes are kept apart from its worldline.\<close>

record cosmic_agent =
  ca_attrs :: fields
  ca_worldline :: "string option"

record cosmic =
  co_epochs :: "jsnum list"
  co_worldlines :: "(string, string list \<times> string list) jsmap"
  co_fields :: "(string, jsnum) jsmap"
  co_agents :: "(string, cosmic_agent) jsmap"

record federated_receipt =
  fd_id :: string
  fd_node :: string
  fd_time :: jsnum
  fd_slice :: string
  fd_actor :: string
  fd_input :: fields
  fd_output :: fields
  fd_status :: string
  fd_signature :: string
  fd_parent :: "string option"
  fd_payload :: fields

datatype node_state = IN_PENDING | IN_RUNNING | IN_DONE | IN_FAILED

record intent_node =
  nd_id :: string
  nd_goal :: string
  nd_depends :: "string list"
  nd_agent :: "string option"
  nd_status :: node_state

text \<open>Of a tick and of a behaviour event the client reads these fields; the others are carried along.\<close>

record comm_tick =
  ct_id :: "string option"
  ct_lane :: string
  ct_rest :: fields

record behavior =
  bh_id :: string
  bh_agent :: string
  bh_rest :: fields

record skillz_st = sys_st +
  sk_operator :: "string option"
  sk_stance :: op_stance
  sk_waves :: "wave list"
  sk_counter :: nat
  sk_ledger :: "gov_entry list"
  sk_cosmic :: cosmic
  sk_federated :: "federated_receipt list"
  sk_ticks :: "comm_tick list"
  sk_intents :: "(string, intent_node) jsmap"
  sk_behaviors :: "behavior list"

text \<open>The outcome of the file calls: a text or an error, an error message, the entries.\<close>

record file_calls =
  fl_read :: "string \<Rightarrow> string option"
  fl_write :: "string \<Rightarrow> string \<Rightarrow> string option"
  fl_list :: "string \<Rightarrow> string list option"

definition listCapabilities :: "capability list" where
  "listCapabilities = DEFAULT_CAPABILITIES"

definition getCapability :: "string \<Rightarrow> capability option" where
  "getCapability i = List.find (\<lambda>c. cp_id c = i) DEFAULT_CAPABILITIES"

definition registerOperator :: "sysenv \<Rightarrow> string \<Rightarrow> 'a skillz_st_scheme \<Rightarrow> 'a skillz_st_scheme" where
  "registerOperator E i s =
     (let (t, s1) = take_now E s
      in s1\<lparr>sk_operator := Some i, sk_stance := \<lparr>os_operator = i, os_stance = ST_MONITORING, os_focus = None, os_last = t\<rparr>\<rparr>)"

definition getOperatorStance :: "'a skillz_st_scheme \<Rightarrow> op_stance" where
  "getOperatorStance s = sk_stance s"

definition updateStance :: "sysenv \<Rightarrow> stance_kind \<Rightarrow> string option \<Rightarrow> 'a skillz_st_scheme \<Rightarrow> 'a skillz_st_scheme" where
  "updateStance E k focus s =
     (let (t, s1) = take_now E s;
          st = sk_stance s1;
          f = (case focus of Some x \<Rightarrow> if x = [] then os_focus st else Some x | None \<Rightarrow> os_focus st)
      in s1\<lparr>sk_stance := st\<lparr>os_stance := k, os_focus := f, os_last := t\<rparr>\<rparr>)"

definition createWave :: "sysenv \<Rightarrow> string \<Rightarrow> 'a skillz_st_scheme \<Rightarrow> wave \<times> 'a skillz_st_scheme" where
  "createWave E goal s =
     (let (u, s1) = take_uuid E s; (t1, s2) = take_now E s1; (t2, s3) = take_now E s2;
          w = \<lparr>wv_id = u, wv_runtime = (case sk_operator s3 of Some i \<Rightarrow> i | None \<Rightarrow> ''unknown''), wv_phase = ''plan'', wv_drift = 0,
               wv_fold = take 16 (sha256 E goal), wv_started = t1, wv_updated = t2\<rparr>
      in (w, s3\<lparr>sk_waves := sk_waves s3 @ [w]\<rparr>))"

definition getActiveWaves :: "'a skillz_st_scheme \<Rightarrow> wave list" where
  "getActiveWaves s = sk_waves s"

subsection \<open>Running a capability\<close>

record exec_options =
  eo_parent :: "string option"
  eo_checkpoint :: "jsnum option"
  eo_outputHash :: "string option"
  eo_driftExpected :: "jsnum option"
  eo_driftPrevious :: "jsnum option"
  eo_deterministic :: "bool option"

definition no_options :: exec_options where
  "no_options = \<lparr>eo_parent = None, eo_checkpoint = None, eo_outputHash = None, eo_driftExpected = None, eo_driftPrevious = None,
     eo_deterministic = None\<rparr>"

record exec_envelope =
  ev_operator :: string
  ev_capability :: string
  ev_inputHash :: string
  ev_signature :: string
  ev_checkpoint :: jsnum
  ev_input :: fields
  ev_output :: "fields option"
  ev_outputHash :: "string option"
  ev_parent :: "string option"
  ev_previous :: jsnum
  ev_expectedHash :: "string option"
  ev_drift :: "(jsnum \<times> jsnum) option"
  ev_driftPrevious :: "jsnum option"
  ev_deterministic :: bool
  ev_expectedParent :: "string option"

record skillz_receipt =
  sr_id :: string
  sr_transformation :: string
  sr_started :: time
  sr_finished :: time
  sr_success :: bool

record exec_result =
  xr_ok :: bool
  xr_violations :: "string list"
  xr_output :: "fields option"
  xr_receipt :: "skillz_receipt option"

definition checkPreEnvelope :: "exec_envelope \<Rightarrow> string list" where
  "checkPreEnvelope e =
     (if ev_operator e = [] \<or> ev_operator e = ''unknown'' then [''missing-operator''] else []) @
     (if ev_capability e = [] then [''missing-capability''] else []) @
     (if ev_inputHash e = [] then [''missing-input-hash''] else []) @
     (if ev_signature e = [] then [''missing-capability-signature''] else []) @
     (if ev_checkpoint e = 0 then [''missing-continuity-checkpoint''] else [])"

definition is_text :: "string option \<Rightarrow> bool" where
  "is_text x \<longleftrightarrow> x \<noteq> None \<and> x \<noteq> Some []"

definition drift_issues :: "jsnum \<Rightarrow> jsnum \<Rightarrow> jsnum option \<Rightarrow> string list" where
  "drift_issues expected actual previous =
     (if \<bar>js_sub actual expected\<bar> > 5 then [''drift-absolute-threshold''] else []) @
     (if expected \<noteq> 0 \<and> js_div \<bar>actual\<bar> \<bar>expected\<bar> > dec 1 10 then [''drift-relative-threshold''] else []) @
     (case previous of None \<Rightarrow> [] | Some p \<Rightarrow> if actual < p \<and> expected \<ge> p then [''drift-direction-unexpected''] else [])"

definition checkPostEnvelope :: "exec_envelope \<Rightarrow> exec_options \<Rightarrow> string list" where
  "checkPostEnvelope e opts =
     (if is_text (ev_outputHash e) then [] else [''missing-output-hash'']) @
     (if is_text (ev_parent e) \<and> is_text (ev_expectedParent e) \<and> ev_parent e \<noteq> ev_expectedParent e
      then [''lineage-parent-mismatch''] else []) @
     (case eo_checkpoint opts of None \<Rightarrow> [] | Some p \<Rightarrow> if ev_checkpoint e \<le> p then [''non-monotonic-continuity''] else []) @
     (if is_text (eo_outputHash opts) \<and> ev_outputHash e \<noteq> eo_outputHash opts then [''signature-mismatch-output''] else []) @
     (case ev_drift e of None \<Rightarrow> [] | Some (ex, ac) \<Rightarrow> drift_issues ex ac (ev_driftPrevious e))"

text \<open>An argument, or its default when it is absent or null.\<close>

definition arg_str :: "fields \<Rightarrow> string \<Rightarrow> string \<Rightarrow> string" where
  "arg_str input k d = (case jget_str input k of Some x \<Rightarrow> x | None \<Rightarrow> d)"

definition arg_num :: "fields \<Rightarrow> string \<Rightarrow> jsnum" where
  "arg_num input k = (case jget input k of Some (JNum x) \<Rightarrow> x | _ \<Rightarrow> 0)"

definition runCapability :: "sysenv \<Rightarrow> file_calls \<Rightarrow> capability \<Rightarrow> fields \<Rightarrow> string + fields" where
  "runCapability E F cap input =
     (if cp_id cap = ''read_file'' then
        let path = arg_str input ''path'' ''.''
        in (case fl_read F path of
              Some content \<Rightarrow> Inr [(''path'', JStr path), (''content'', JStr content), (''bytes'', jnat (length content))]
            | None \<Rightarrow> Inr [(''path'', JStr path), (''content'', JStr []), (''bytes'', JNum 0)])
      else if cp_id cap = ''write_file'' then
        let path = arg_str input ''path'' ''output.txt''; content = arg_str input ''content'' []
        in (case fl_write F path content of
              Some e \<Rightarrow> Inl e
            | None \<Rightarrow> Inr [(''path'', JStr path), (''written'', JBool True)])
      else if cp_id cap = ''list_dir'' then
        let path = arg_str input ''path'' ''.''
        in Inr [(''path'', JStr path), (''entries'', jstrs (case fl_list F path of Some es \<Rightarrow> es | None \<Rightarrow> []))]
      else if cp_id cap = ''slice_math'' then Inr [(''value'', JNum (js_mul (arg_num input ''value'') 2))]
      else if cp_id cap = ''llm_echo'' then
        let prompt = arg_str input ''prompt'' []; txt = ''[echo] '' @ prompt
        in Inr [(''capabilityId'', JStr ''llm_echo''), (''provider'', JStr ''skillzmcgee''),
                (''model'', JStr (arg_str input ''model'' ''echo'')), (''promptHash'', JStr (sha256 E prompt)), (''text'', JStr txt),
                (''inputTokens'', jnat (length prompt)), (''outputTokens'', jnat (length txt))]
      else Inr [(''result'', JStr ''unknown-capability'')])"

text \<open>The envelope before the run, and with the output.\<close>

definition new_envelope :: "sysenv \<Rightarrow> capability \<Rightarrow> fields \<Rightarrow> exec_options \<Rightarrow> 'a skillz_st_scheme \<Rightarrow> exec_envelope" where
  "new_envelope E cap input opts s =
     \<lparr>ev_operator = (case sk_operator s of Some i \<Rightarrow> i | None \<Rightarrow> ''unknown''), ev_capability = cp_id cap,
      ev_inputHash = sha256 E (stringify (JObj input)), ev_signature = sha256 E (stringify (cap_json cap)),
      ev_checkpoint = (case eo_checkpoint opts of Some p \<Rightarrow> js_add p 1 | None \<Rightarrow> 1), ev_input = input, ev_output = None,
      ev_outputHash = None, ev_parent = eo_parent opts,
      ev_previous = (case eo_checkpoint opts of Some p \<Rightarrow> p | None \<Rightarrow> 0), ev_expectedHash = None, ev_drift = None,
      ev_driftPrevious = None, ev_deterministic = (eo_deterministic opts = Some True), ev_expectedParent = None\<rparr>"

definition filled_envelope :: "sysenv \<Rightarrow> exec_options \<Rightarrow> fields \<Rightarrow> exec_envelope \<Rightarrow> exec_envelope" where
  "filled_envelope E opts out e =
     e\<lparr>ev_output := Some out, ev_outputHash := Some (sha256 E (stringify (JObj out))),
       ev_drift := map_option (\<lambda>d. (d, \<bar>js_sub d (arg_num out ''value'')\<bar>)) (eo_driftExpected opts),
       ev_driftPrevious := eo_driftPrevious opts, ev_expectedHash := eo_outputHash opts\<rparr>"

definition failed :: "string list \<Rightarrow> exec_result" where
  "failed vs = \<lparr>xr_ok = False, xr_violations = vs, xr_output = None, xr_receipt = None\<rparr>"

definition executeCapability ::
    "sysenv \<Rightarrow> file_calls \<Rightarrow> string \<Rightarrow> fields \<Rightarrow> exec_options \<Rightarrow> 'a skillz_st_scheme \<Rightarrow> exec_result \<times> 'a skillz_st_scheme" where
  "executeCapability E F capId input opts s =
     (case getCapability capId of
        None \<Rightarrow> (failed [''unknown-capability: '' @ capId], s)
      | Some cap \<Rightarrow>
          let s1 = s\<lparr>sk_counter := Suc (sk_counter s)\<rparr>;
              e = new_envelope E cap input opts s1;
              pre = checkPreEnvelope e
          in if pre \<noteq> [] then (failed pre, s1)
             else (case runCapability E F cap input of
                     Inl err \<Rightarrow> (failed [''execution-error: '' @ err], s1)
                   | Inr out \<Rightarrow>
                       let vs = checkPostEnvelope (filled_envelope E opts out e) opts;
                           (t1, s2) = take_now E s1; (t2, s3) = take_now E s2
                       in (\<lparr>xr_ok = (vs = []), xr_violations = vs, xr_output = Some out,
                            xr_receipt = Some \<lparr>sr_id = show_nat (sk_counter s1), sr_transformation = capId, sr_started = t1 - 100,
                              sr_finished = t2, sr_success = (vs = [])\<rparr>\<rparr>, s3)))"

definition generateGovernanceReport :: "'a skillz_st_scheme \<Rightarrow> op_stance \<times> wave list \<times> nat \<times> nat \<times> nat" where
  "generateGovernanceReport s =
     (getOperatorStance s, getActiveWaves s, length (filter (\<lambda>w. wv_drift w > 50) (sk_waves s)),
      length (filter (\<lambda>w. wv_drift w > 20 \<and> wv_drift w \<le> 50) (sk_waves s)), length (filter (\<lambda>w. wv_drift w \<le> 20) (sk_waves s)))"

subsection \<open>The continuity ledger\<close>

definition createCRK1Receipt :: "sysenv \<Rightarrow> string \<Rightarrow> fields \<Rightarrow> fields \<Rightarrow> string \<Rightarrow> 'a skillz_st_scheme \<Rightarrow> crk1_receipt \<times> 'a skillz_st_scheme" where
  "createCRK1Receipt E domn input output status s =
     (let parent = (if sk_ledger s \<noteq> [] then Some (ge_id (last (sk_ledger s))) else None);
          (u, s1) = take_uuid E s; (t, s2) = take_now E s1
      in (\<lparr>k1_id = u, k1_parent = parent, k1_time = t, k1_actor = (case sk_operator s of Some i \<Rightarrow> i | None \<Rightarrow> ''skillz''),
           k1_domain = domn, k1_input = input, k1_output = output, k1_status = status, k1_passed = [], k1_diff = None\<rparr>, s2))"

definition entry_of :: "crk1_receipt \<Rightarrow> gov_entry" where
  "entry_of r = \<lparr>ge_id = k1_id r, ge_parent = k1_parent r, ge_time = k1_time r, ge_slice = k1_domain r, ge_actor = k1_actor r,
     ge_input = k1_input r, ge_output = k1_output r, ge_status = k1_status r, ge_merkle = (k1_id r, k1_parent r),
     ge_passed = k1_passed r, ge_diff = k1_diff r\<rparr>"

definition appendCRK1Receipt :: "crk1_receipt \<Rightarrow> 'a skillz_st_scheme \<Rightarrow> string \<times> 'a skillz_st_scheme" where
  "appendCRK1Receipt r s = (k1_id r, s\<lparr>sk_ledger := sk_ledger s @ [entry_of r]\<rparr>)"

definition getContinuityLedger :: "'a skillz_st_scheme \<Rightarrow> gov_entry list" where
  "getContinuityLedger s = sk_ledger s"

fun merkle_errors :: "nat \<Rightarrow> string option \<Rightarrow> gov_entry list \<Rightarrow> string list" where
  "merkle_errors i prev [] = []"
| "merkle_errors i prev (e # es) =
     (if ge_parent e \<noteq> prev then [''entry '' @ show_nat i @ '': parent mismatch''] else []) @ merkle_errors (Suc i) (Some (ge_id e)) es"

definition verifyMerkleChain :: "'a skillz_st_scheme \<Rightarrow> bool \<times> string list" where
  "verifyMerkleChain s = (let errors = merkle_errors 0 None (sk_ledger s) in (errors = [], errors))"

subsection \<open>The cosmic state\<close>

record cosmic_event =
  ce_epoch :: "jsnum option"
  ce_worldline :: "string option"
  ce_type :: "string option"
  ce_fields :: "(string \<times> jsnum) list"
  ce_agents :: "(string \<times> fields) list"
  ce_receipt :: "string option"

definition getCosmicState :: "'a skillz_st_scheme \<Rightarrow> cosmic" where
  "getCosmicState s = sk_cosmic s"

definition add_field :: "string \<times> jsnum \<Rightarrow> (string, jsnum) jsmap \<Rightarrow> (string, jsnum) jsmap" where
  "add_field kv m = js_set (fst kv) (js_add (case js_get m (fst kv) of Some x \<Rightarrow> x | None \<Rightarrow> 0) (snd kv)) m"

text \<open>Moving an agent; a transition away from a worldline needs a receipt. The agents moved before the
  one that throws stay moved.\<close>

definition may_leave :: "cosmic_event \<Rightarrow> cosmic_agent \<Rightarrow> bool" where
  "may_leave ev a \<longleftrightarrow> \<not> (is_text (ce_worldline ev) \<and> ce_type ev = Some ''transition'' \<and> is_text (ca_worldline a) \<and>
     ca_worldline a \<noteq> ce_worldline ev \<and> \<not> is_text (ce_receipt ev))"

definition agent_at :: "string \<Rightarrow> (string, cosmic_agent) jsmap \<Rightarrow> cosmic_agent" where
  "agent_at k m = (case js_get m k of Some a \<Rightarrow> a | None \<Rightarrow> \<lparr>ca_attrs = [], ca_worldline = None\<rparr>)"

fun move_agents :: "cosmic_event \<Rightarrow> (string \<times> fields) list \<Rightarrow> (string, cosmic_agent) jsmap \<Rightarrow> bool \<times> (string, cosmic_agent) jsmap" where
  "move_agents ev [] m = (True, m)"
| "move_agents ev ((k, pos) # rest) m =
     (let a = agent_at k m
      in if may_leave ev a
         then move_agents ev rest (js_set k \<lparr>ca_attrs = fold (\<lambda>(x, v). js_set x v) pos (ca_attrs a), ca_worldline = ce_worldline ev\<rparr> m)
         else (False, m))"

definition applyCosmicEvent :: "cosmic_event \<Rightarrow> 'a skillz_st_scheme \<Rightarrow> (string + cosmic) \<times> 'a skillz_st_scheme" where
  "applyCosmicEvent ev s =
     (let c = sk_cosmic s
      in if (case ce_epoch ev of Some n \<Rightarrow> co_epochs c \<noteq> [] \<and> n \<le> last (co_epochs c) | None \<Rightarrow> False)
         then (Inl ''C1: retroactive epoch insertion forbidden'', s)
         else
           let c1 = (case ce_epoch ev of Some n \<Rightarrow> c\<lparr>co_epochs := co_epochs c @ [n]\<rparr> | None \<Rightarrow> c);
               c2 = (case ce_worldline ev of
                       Some w \<Rightarrow> if w \<noteq> [] \<and> \<not> js_has (co_worldlines c1) w
                                 then c1\<lparr>co_worldlines := js_set w ([], []) (co_worldlines c1)\<rparr> else c1
                     | None \<Rightarrow> c1);
               c3 = c2\<lparr>co_fields := fold add_field (ce_fields ev) (co_fields c2)\<rparr>;
               (ok, ags) = move_agents ev (ce_agents ev) (co_agents c3);
               c4 = c3\<lparr>co_agents := ags\<rparr>;
               s' = s\<lparr>sk_cosmic := c4\<rparr>
           in (if ok then Inr c4 else Inl ''C0: worldline branch/merge requires continuity receipt'', s'))"

fun increasing :: "jsnum list \<Rightarrow> bool" where
  "increasing (x # y # rest) = (x < y \<and> increasing (y # rest))"
| "increasing _ = True"

datatype cosmic_inv = CI0 | CI1 | CI2 | CI3 | CI4 | CI5

definition COSMIC_INVARIANTS :: "cosmic_inv list" where
  "COSMIC_INVARIANTS = [CI0, CI1, CI2, CI3, CI4, CI5]"

text \<open>Every field is a number by its type, so the second test is constant too.\<close>

definition validateCosmicInvariants :: "cosmic_inv list \<Rightarrow> 'a skillz_st_scheme \<Rightarrow> (cosmic_inv \<times> bool) list" where
  "validateCosmicInvariants ids s =
     map (\<lambda>i. (i, case i of CI1 \<Rightarrow> increasing (co_epochs (sk_cosmic s)) | _ \<Rightarrow> True)) ids"

subsection \<open>Federation, intents, logs\<close>

definition publishFederatedReceipt :: "sysenv \<Rightarrow> federated_receipt \<Rightarrow> 'a skillz_st_scheme \<Rightarrow> string \<times> 'a skillz_st_scheme" where
  "publishFederatedReceipt E r s =
     (let (i, s1) = (if fd_id r = [] then take_uuid E s else (fd_id r, s))
      in (i, s1\<lparr>sk_federated := sk_federated s1 @ [r\<lparr>fd_id := i\<rparr>]\<rparr>))"

definition getFederatedLedger :: "'a skillz_st_scheme \<Rightarrow> federated_receipt list" where
  "getFederatedLedger s = sk_federated s"

definition verifyForeignReceipt :: "federated_receipt \<Rightarrow> string \<Rightarrow> bool \<times> string list" where
  "verifyForeignReceipt r peerKey =
     (let errors = (if fd_id r = [] \<or> fd_signature r = [] then [''missing receipt_id or signature''] else []) in (errors = [], errors))"

definition registerIntent :: "intent_node \<Rightarrow> 'a skillz_st_scheme \<Rightarrow> 'a skillz_st_scheme" where
  "registerIntent n s = s\<lparr>sk_intents := js_set (nd_id n) n (sk_intents s)\<rparr>"

definition ready_node :: "(string, intent_node) jsmap \<Rightarrow> intent_node \<Rightarrow> bool" where
  "ready_node m n \<longleftrightarrow> nd_status n = IN_PENDING \<and>
     list_all (\<lambda>d. map_option nd_status (js_get m d) = Some IN_DONE) (nd_depends n)"

definition getReadyIntents :: "'a skillz_st_scheme \<Rightarrow> intent_node list" where
  "getReadyIntents s = filter (ready_node (sk_intents s)) (js_values (sk_intents s))"

definition getIntentGraphState :: "'a skillz_st_scheme \<Rightarrow> (string \<times> string \<times> node_state \<times> string option) list" where
  "getIntentGraphState s = map (\<lambda>(k, n). (k, nd_goal n, nd_status n, nd_agent n)) (sk_intents s)"

definition appendCommunicationTick :: "sysenv \<Rightarrow> comm_tick \<Rightarrow> 'a skillz_st_scheme \<Rightarrow> string \<times> 'a skillz_st_scheme" where
  "appendCommunicationTick E t s =
     (let (i, s1) = (case ct_id t of Some x \<Rightarrow> if x = [] then take_uuid E s else (x, s) | None \<Rightarrow> take_uuid E s)
      in (i, s1\<lparr>sk_ticks := sk_ticks s1 @ [t\<lparr>ct_id := Some i\<rparr>]\<rparr>))"

text \<open>\<open>slice(-limit)\<close>: a limit of zero takes everything.\<close>

definition getCommunicationTicks :: "string option \<Rightarrow> nat \<Rightarrow> 'a skillz_st_scheme \<Rightarrow> comm_tick list" where
  "getCommunicationTicks lane limit s =
     (let ts = (case lane of Some l \<Rightarrow> if l = [] then sk_ticks s else filter (\<lambda>t. ct_lane t = l) (sk_ticks s) | None \<Rightarrow> sk_ticks s)
      in if limit = 0 then ts else drop (length ts - limit) ts)"

definition recordBehaviorEvent :: "behavior \<Rightarrow> 'a skillz_st_scheme \<Rightarrow> 'a skillz_st_scheme" where
  "recordBehaviorEvent b s = s\<lparr>sk_behaviors := sk_behaviors s @ [b]\<rparr>"

definition getBehaviorEvents :: "string option \<Rightarrow> 'a skillz_st_scheme \<Rightarrow> behavior list" where
  "getBehaviorEvents agent s =
     (case agent of Some a \<Rightarrow> if a = [] then sk_behaviors s else filter (\<lambda>b. bh_agent b = a) (sk_behaviors s) | None \<Rightarrow> sk_behaviors s)"

subsection \<open>Use by the workflow\<close>

text \<open>Of a workflow the bridge reads the intent and sets the wave and the capabilities; of a substrate it reads
  the name and the artifacts.\<close>

definition createSkillzSession :: "sysenv \<Rightarrow> string \<Rightarrow> string \<Rightarrow> string \<Rightarrow> 'a skillz_st_scheme \<Rightarrow> (string \<times> capability list) \<times> 'a skillz_st_scheme" where
  "createSkillzSession E role agentId intent s =
     (let (w, s1) = createWave E intent (registerOperator E (role @ ''-'' @ agentId) s) in ((wv_id w, listCapabilities), s1))"

record module_code =
  mc_code :: string
  mc_language :: string
  mc_id :: string
  mc_proofs :: "string list"

definition echo_input :: "string \<Rightarrow> string \<Rightarrow> fields" where
  "echo_input language artifact =
     [(''prompt'', JStr (''Generate '' @ language @ '' code for artifact: '' @ artifact)), (''model'', JStr ''skillz-nova''),
      (''max_tokens'', JNum 1024), (''temperature'', JNum (dec 2 10))]"

text \<open>The loop: code parts, proofs and errors so far.\<close>

fun execute_artifacts ::
    "sysenv \<Rightarrow> file_calls \<Rightarrow> string \<Rightarrow> string list \<Rightarrow> string list \<times> string list \<times> string list \<Rightarrow> 'a skillz_st_scheme \<Rightarrow>
     (string list \<times> string list \<times> string list) \<times> 'a skillz_st_scheme" where
  "execute_artifacts E F language [] acc s = (acc, s)"
| "execute_artifacts E F language (a # as) (codes, proofs, errs) s =
     (let (r, s1) = executeCapability E F ''llm_echo'' (echo_input language a) (no_options\<lparr>eo_deterministic := Some False\<rparr>) s
      in case (xr_ok r, xr_output r) of
           (True, Some out) \<Rightarrow>
             (case xr_receipt r of
                Some rc \<Rightarrow> execute_artifacts E F language as
                  (codes @ [arg_str out ''text'' ''undefined''], proofs @ [''skillz-'' @ sr_id rc], errs)
                  (updateStance E ST_MONITORING None (updateStance E ST_INTERVENING (Some a) s1))
              | None \<Rightarrow> execute_artifacts E F language as (codes @ [arg_str out ''text'' ''undefined''], proofs, errs) s1)
         | _ \<Rightarrow> execute_artifacts E F language as (codes, proofs, errs @ xr_violations r) s1)"

text \<open>\<open>toString(36)\<close> of a clock value, which is not negative.\<close>

fun base36 :: "nat \<Rightarrow> string" where
  "base36 n = (let d = (\<lambda>i. if i < 10 then char_of (48 + i) else char_of (87 + i))
     in if n < 36 then [d n] else base36 (n div 36) @ [d (n mod 36)])"

declare base36.simps [simp del]

definition executeViaSkillz ::
    "sysenv \<Rightarrow> file_calls \<Rightarrow> string \<Rightarrow> string list \<Rightarrow> string \<Rightarrow> 'a skillz_st_scheme \<Rightarrow> (module_code \<times> string list) \<times> 'a skillz_st_scheme" where
  "executeViaSkillz E F name artifacts language s =
     (let ((codes, proofs, errs), s1) = execute_artifacts E F language artifacts ([], [], []) s;
          joined = join [CHR 0x0A] codes;
          (t, s2) = take_now E s1
      in ((\<lparr>mc_code = (if joined \<noteq> [] then joined
                       else ''// '' @ name @ '' '' @ [CHR 0xE2, CHR 0x80, CHR 0x94] @ '' generated via SkillzMcGee'' @ [CHR 0x0A] @
                            ''// No capability produced output'' @ [CHR 0x0A] @ ''export {};'' @ [CHR 0x0A]),
            mc_language = language, mc_id = ''skillz-mod-'' @ base36 (nat t), mc_proofs = proofs\<rparr>, errs), s2))"

fun verify_proofs :: "sysenv \<Rightarrow> file_calls \<Rightarrow> string list \<Rightarrow> 'a skillz_st_scheme \<Rightarrow> string list \<times> 'a skillz_st_scheme" where
  "verify_proofs E F [] s = ([], s)"
| "verify_proofs E F (p # ps) s =
     (let (r, s1) = executeCapability E F ''slice_math'' [(''value'', jnat (length p))] (no_options\<lparr>eo_deterministic := Some True\<rparr>) s;
          (vs, s2) = verify_proofs E F ps s1
      in (if xr_ok r then vs else xr_violations r @ vs, s2))"

definition verifyThroughSkillz ::
    "sysenv \<Rightarrow> file_calls \<Rightarrow> module_code \<Rightarrow> 'a skillz_st_scheme \<Rightarrow>
     (bool \<times> (op_stance \<times> wave list \<times> nat \<times> nat \<times> nat) \<times> string list) \<times> 'a skillz_st_scheme" where
  "verifyThroughSkillz E F m s =
     (let report = generateGovernanceReport s; (vs, s1) = verify_proofs E F (mc_proofs m) s in ((vs = [], report, vs), s1))"

definition createCRKSession :: "sysenv \<Rightarrow> string \<Rightarrow> 'a skillz_st_scheme \<Rightarrow> 'a skillz_st_scheme" where
  "createCRKSession E domn s = snd (createWave E (''crk-continuity:'' @ domn) (registerOperator E (''crk-'' @ domn) s))"

text \<open>\<open>{ ...input, artifact }\<close>: an artifact that the input has already is replaced in its place.\<close>

fun execute_crk1 ::
    "sysenv \<Rightarrow> file_calls \<Rightarrow> fields \<Rightarrow> string list \<Rightarrow> crk1_receipt option \<times> string list \<Rightarrow> 'a skillz_st_scheme \<Rightarrow>
     (crk1_receipt option \<times> string list) \<times> 'a skillz_st_scheme" where
  "execute_crk1 E F input [] acc s = (acc, s)"
| "execute_crk1 E F input (a # as) (rc, errs) s =
     (let (r, s1) = executeCapability E F ''slice_math'' (js_set ''artifact'' (JStr a) input) (no_options\<lparr>eo_deterministic := Some True\<rparr>) s
      in case (xr_ok r, xr_output r) of
           (True, Some out) \<Rightarrow>
             let (k, s2) = createCRK1Receipt E a input out ''ok'' s1
             in execute_crk1 E F input as (Some k, errs) (snd (appendCRK1Receipt k s2))
         | _ \<Rightarrow> execute_crk1 E F input as (rc, errs @ xr_violations r) s1)"

definition executeViaCRK1 ::
    "sysenv \<Rightarrow> file_calls \<Rightarrow> string list \<Rightarrow> fields \<Rightarrow> 'a skillz_st_scheme \<Rightarrow> (crk1_receipt option \<times> string list) \<times> 'a skillz_st_scheme" where
  "executeViaCRK1 E F artifacts input s = execute_crk1 E F input artifacts (None, []) s"

definition verifyContinuityChain :: "'a skillz_st_scheme \<Rightarrow> bool \<times> string list" where
  "verifyContinuityChain s = verifyMerkleChain s"

text \<open>The first event that throws ends the simulation with its error.\<close>

fun apply_events :: "cosmic_event list \<Rightarrow> 'a skillz_st_scheme \<Rightarrow> string option \<times> 'a skillz_st_scheme" where
  "apply_events [] s = (None, s)"
| "apply_events (e # es) s = (case applyCosmicEvent e s of (Inl err, s1) \<Rightarrow> (Some err, s1) | (Inr _, s1) \<Rightarrow> apply_events es s1)"

definition executeDARZSimulation ::
    "cosmic_event list \<Rightarrow> 'a skillz_st_scheme \<Rightarrow> (string + cosmic \<times> (cosmic_inv \<times> bool) list \<times> nat) \<times> 'a skillz_st_scheme" where
  "executeDARZSimulation es s =
     (case apply_events es s of
        (Some err, s1) \<Rightarrow> (Inl err, s1)
      | (None, s1) \<Rightarrow> (Inr (getCosmicState s1, validateCosmicInvariants COSMIC_INVARIANTS s1, length es), s1))"

fun federateAcrossSubstrates :: "sysenv \<Rightarrow> federated_receipt list \<Rightarrow> 'a skillz_st_scheme \<Rightarrow> string list \<times> 'a skillz_st_scheme" where
  "federateAcrossSubstrates E [] s = ([], s)"
| "federateAcrossSubstrates E (r # rs) s =
     (let (i, s1) = publishFederatedReceipt E r s; (is, s2) = federateAcrossSubstrates E rs s1 in (i # is, s2))"

record goal_spec =
  gs_id :: string
  gs_goal :: string
  gs_depends :: "string list"

definition goal_node :: "goal_spec \<Rightarrow> intent_node" where
  "goal_node g = \<lparr>nd_id = gs_id g, nd_goal = gs_goal g, nd_depends = gs_depends g, nd_agent = None, nd_status = IN_PENDING\<rparr>"

definition slice_needed :: "string \<Rightarrow> string" where
  "slice_needed goal = takeWhile (\<lambda>c. c \<noteq> CHR '':'') goal"

definition routeViaConstitutionalScheduler ::
    "(string \<times> string list) list \<Rightarrow> goal_spec list \<Rightarrow> 'a skillz_st_scheme \<Rightarrow>
     ((string \<times> string) list \<times> string list) \<times> 'a skillz_st_scheme" where
  "routeViaConstitutionalScheduler agents goals s =
     (let s1 = fold (\<lambda>g. registerIntent (goal_node g)) goals s;
          find = (\<lambda>n. List.find (\<lambda>a. slice_needed (nd_goal n) \<in> set (snd a)) agents);
          ready = getReadyIntents s1
      in ((map (\<lambda>n. (nd_id n, fst (the (find n)))) (filter (\<lambda>n. find n \<noteq> None) ready),
           map (\<lambda>n. ''no agent available for intent: '' @ nd_id n) (filter (\<lambda>n. find n = None) ready)), s1))"

definition trackBehaviorViaSkillz :: "behavior list \<Rightarrow> 'a skillz_st_scheme \<Rightarrow> nat \<times> 'a skillz_st_scheme" where
  "trackBehaviorViaSkillz es s = (length es, fold recordBehaviorEvent es s)"

subsection \<open>Drift\<close>

lemma fl_thousandth: "\<bar>fl x - x\<bar> \<le> \<bar>x\<bar> / 1000"
proof -
  have "\<bar>x\<bar> / 2 ^ 53 \<le> \<bar>x\<bar> / 1000" by (intro divide_left_mono) simp_all
  with fl_error [of x] show ?thesis by linarith
qed

lemma fl_small: "\<bar>fl x\<bar> \<le> b \<Longrightarrow> \<bar>x\<bar> * (999 / 1000) \<le> b"
  using fl_thousandth [of x] by linarith

lemma drift_ok_small:
  assumes "drift_issues d \<bar>e\<bar> p = []"
  shows "\<bar>d\<bar> \<le> 6"
proof (rule ccontr)
  assume big: "\<not> \<bar>d\<bar> \<le> 6"
  from assms big have a: "\<bar>js_sub \<bar>e\<bar> d\<bar> \<le> 5" and r: "js_div \<bar>e\<bar> \<bar>d\<bar> \<le> dec 1 10"
    by (auto simp: drift_issues_def split: if_splits)
  have x: "\<bar>\<bar>e\<bar> - d\<bar> * (999 / 1000) \<le> 5" using a by (intro fl_small) (simp add: js_sub_def)
  have "fl (1 / 10) \<le> 1001 / 10000" using fl_thousandth [of "1 / 10"] by linarith
  with r have "\<bar>fl (\<bar>e\<bar> / \<bar>d\<bar>)\<bar> \<le> 1001 / 10000" by (simp add: js_div_def dec_def)
  then have "\<bar>\<bar>e\<bar> / \<bar>d\<bar>\<bar> * (999 / 1000) \<le> 1001 / 10000" by (rule fl_small)
  then have "\<bar>e\<bar> / \<bar>d\<bar> \<le> 103 / 1000" by simp
  then have "\<bar>e\<bar> \<le> 103 / 1000 * \<bar>d\<bar>" using big by (simp add: field_simps)
  moreover have "\<bar>d\<bar> - \<bar>e\<bar> \<le> \<bar>\<bar>e\<bar> - d\<bar>" by (simp add: abs_if)
  moreover have "a \<le> 103 / 1000 * b \<Longrightarrow> b - a \<le> c \<Longrightarrow> c * (999 / 1000) \<le> 5 \<Longrightarrow> b \<le> 6" for a b c :: rat
    by linarith
  ultimately show False using x big by blast
qed

lemma post_drift:
  assumes "eo_driftExpected opts = Some d" and "checkPostEnvelope (filled_envelope E opts out e) opts = []"
  shows "\<bar>d\<bar> \<le> 6"
proof (rule drift_ok_small)
  show "drift_issues d \<bar>js_sub d (arg_num out ''value'')\<bar> (eo_driftPrevious opts) = []"
    using assms by (simp add: checkPostEnvelope_def filled_envelope_def)
qed

lemma exact_drift: "\<bar>d\<bar> \<le> 5 \<Longrightarrow> drift_issues d \<bar>js_sub d d\<bar> None = []"
proof -
  assume "\<bar>d\<bar> \<le> 5"
  then have "fl d \<le> fl 5" "fl (- 5) \<le> fl d" by (auto intro!: fl_mono)
  moreover have "fl 5 = 5" "fl (- 5) = - 5" using fl_of_int [of 5] by (simp_all add: fl_minus)
  moreover have "js_sub 0 d = - fl d" by (simp add: js_sub_def fl_minus)
  ultimately have "\<bar>js_sub 0 d\<bar> \<le> 5" by linarith
  then show ?thesis by (simp add: drift_issues_def js_div_def not_less) (simp add: js_sub_def)
qed

lemma operator_pre:
  "sk_operator s = Some op \<Longrightarrow> op \<notin> {[], ''unknown''} \<Longrightarrow> \<forall>x. sha256 E x \<noteq> [] \<Longrightarrow> cp_id cap \<noteq> [] \<Longrightarrow> eo_checkpoint opts = None \<Longrightarrow>
     checkPreEnvelope (new_envelope E cap input opts s) = []"
  by (simp add: checkPreEnvelope_def new_envelope_def)

lemma getCapability_id: "getCapability k = Some cap \<Longrightarrow> cp_id cap = k \<and> k \<noteq> []"
proof -
  assume "getCapability k = Some cap"
  then have "cap \<in> set DEFAULT_CAPABILITIES" "cp_id cap = k" using find_SomeD unfolding getCapability_def by fast+
  moreover have "\<forall>c\<in>set DEFAULT_CAPABILITIES. cp_id c \<noteq> []" by (simp add: DEFAULT_CAPABILITIES_def)
  ultimately show "cp_id cap = k \<and> k \<noteq> []" by blast
qed

lemma execute_frame:
  "snd (executeCapability E F k input opts s) = s\<lparr>sk_counter := sk_counter (snd (executeCapability E F k input opts s)),
     tick := tick (snd (executeCapability E F k input opts s))\<rparr>"
  by (auto simp: executeCapability_def failed_def take_now_def Let_def split: option.split sum.split)

lemma execute_plain:
  assumes "getCapability k = Some cap" and "runCapability E F cap input = Inr out" and "sk_operator s = Some op"
    and "op \<notin> {[], ''unknown''}" and "\<forall>x. sha256 E x \<noteq> []" and "opts = no_options\<lparr>eo_deterministic := b\<rparr>"
  shows "\<exists>rc. fst (executeCapability E F k input opts s) = \<lparr>xr_ok = True, xr_violations = [], xr_output = Some out, xr_receipt = Some rc\<rparr> \<and>
     sr_id rc = show_nat (Suc (sk_counter s)) \<and> sk_counter (snd (executeCapability E F k input opts s)) = Suc (sk_counter s)"
proof -
  let ?s = "s\<lparr>sk_counter := Suc (sk_counter s)\<rparr>"
  have pre: "checkPreEnvelope (new_envelope E cap input opts ?s) = []"
    by (rule operator_pre) (use assms getCapability_id in \<open>auto simp: no_options_def\<close>)
  have "checkPostEnvelope (filled_envelope E opts out (new_envelope E cap input opts ?s)) opts = []"
    using assms(5) by (simp add: checkPostEnvelope_def filled_envelope_def new_envelope_def is_text_def assms(6) no_options_def)
  with pre assms(1,2) show ?thesis by (simp add: executeCapability_def take_now_def Let_def)
qed

subsection \<open>The chain\<close>

lemma merkle_snoc:
  "merkle_errors i p (es @ [e]) = [] \<longleftrightarrow> merkle_errors i p es = [] \<and> ge_parent e = (if es = [] then p else Some (ge_id (last es)))"
  by (induction es arbitrary: i p) auto

lemma merkle_ignores:
  "\<forall>e\<in>set es. ge_id (f e) = ge_id e \<and> ge_parent (f e) = ge_parent e \<Longrightarrow> merkle_errors i p (map f es) = merkle_errors i p es"
  by (induction es arbitrary: i p) auto

definition tail_id :: "'a skillz_st_scheme \<Rightarrow> string option" where
  "tail_id s = (if sk_ledger s = [] then None else Some (ge_id (last (sk_ledger s))))"

lemma append_valid:
  "fst (verifyMerkleChain (snd (appendCRK1Receipt r s))) \<longleftrightarrow> fst (verifyMerkleChain s) \<and> k1_parent r = tail_id s"
  by (simp add: verifyMerkleChain_def appendCRK1Receipt_def merkle_snoc tail_id_def entry_of_def Let_def)

lemma create_parent: "k1_parent (fst (createCRK1Receipt E d i out st s)) = tail_id s"
  "sk_ledger (snd (createCRK1Receipt E d i out st s)) = sk_ledger s"
  by (simp_all add: createCRK1Receipt_def tail_id_def take_uuid_def take_now_def Let_def)

lemma execute_ledger: "sk_ledger (snd (executeCapability E F k input opts s)) = sk_ledger s"
  by (subst execute_frame) simp

lemma valid_ledger: "sk_ledger t = sk_ledger s \<Longrightarrow> fst (verifyMerkleChain t) = fst (verifyMerkleChain s)"
  by (simp add: verifyMerkleChain_def)

lemma crk1_step:
  assumes "fst (verifyMerkleChain s)"
  shows "fst (verifyMerkleChain (snd (appendCRK1Receipt (fst (createCRK1Receipt E d i out st s)) (snd (createCRK1Receipt E d i out st s)))))"
  using assms create_parent [of E d i out st s] by (simp add: append_valid tail_id_def cong: valid_ledger)

lemma crk1_valid: "fst (verifyMerkleChain s) \<Longrightarrow> fst (verifyMerkleChain (snd (execute_crk1 E F input as acc s)))"
proof (induction as arbitrary: acc s)
  case (Cons a as)
  obtain rc errs where acc: "acc = (rc, errs)" by fastforce
  let ?x = "executeCapability E F ''slice_math'' (js_set ''artifact'' (JStr a) input) (no_options\<lparr>eo_deterministic := Some True\<rparr>) s"
  have v: "fst (verifyMerkleChain (snd ?x))" using Cons.prems valid_ledger [OF execute_ledger] by metis
  show ?case
  proof (cases "xr_ok (fst ?x) \<and> xr_output (fst ?x) \<noteq> None")
    case True
    then obtain out where o: "xr_ok (fst ?x)" "xr_output (fst ?x) = Some out" by auto
    let ?k = "createCRK1Receipt E a input out ''ok'' (snd ?x)"
    have "execute_crk1 E F input (a # as) acc s = execute_crk1 E F input as (Some (fst ?k), errs) (snd (appendCRK1Receipt (fst ?k) (snd ?k)))"
      using o by (simp add: acc case_prod_beta Let_def)
    then show ?thesis using Cons.IH crk1_step [OF v] by metis
  next
    case False
    then have "execute_crk1 E F input (a # as) acc s = execute_crk1 E F input as (rc, errs @ xr_violations (fst ?x)) (snd ?x)"
      by (auto simp: acc case_prod_beta Let_def split: bool.split option.split)
    then show ?thesis using Cons.IH [OF v] by metis
  qed
qed simp

subsection \<open>The cosmic state\<close>

lemma increasing_snoc: "increasing (xs @ [x]) \<longleftrightarrow> increasing xs \<and> (xs = [] \<or> last xs < x)"
  by (induction xs rule: increasing.induct) auto

lemma event_epochs:
  "co_epochs (sk_cosmic (snd (applyCosmicEvent ev s))) =
     (case ce_epoch ev of Some n \<Rightarrow> if co_epochs (sk_cosmic s) = [] \<or> last (co_epochs (sk_cosmic s)) < n
        then co_epochs (sk_cosmic s) @ [n] else co_epochs (sk_cosmic s) | None \<Rightarrow> co_epochs (sk_cosmic s))"
  by (auto simp: applyCosmicEvent_def Let_def case_prod_beta not_le split: option.split)

definition epochs_ok :: "'a skillz_st_scheme \<Rightarrow> bool" where
  "epochs_ok s \<longleftrightarrow> increasing (co_epochs (sk_cosmic s))"

lemma event_ok: "epochs_ok s \<Longrightarrow> epochs_ok (snd (applyCosmicEvent ev s))"
  by (auto simp: epochs_ok_def event_epochs increasing_snoc split: option.split)

definition cosmic_step :: "cosmic_event \<Rightarrow> 'a skillz_st_scheme \<Rightarrow> 'a skillz_st_scheme" where
  "cosmic_step ev s = snd (applyCosmicEvent ev s)"

interpretation cosmic: machine cosmic_step epochs_ok
  by unfold_locales (simp add: cosmic_step_def event_ok)

subsection \<open>The echo and the scheduler\<close>

lemma echo_cap: "\<exists>cap. getCapability ''llm_echo'' = Some cap \<and> cp_id cap = ''llm_echo''"
  by (simp add: getCapability_def DEFAULT_CAPABILITIES_def)

lemma math_cap: "\<exists>cap. getCapability ''slice_math'' = Some cap \<and> cp_id cap = ''slice_math''"
  by (simp add: getCapability_def DEFAULT_CAPABILITIES_def)

lemma echo_run:
  "cp_id cap = ''llm_echo'' \<Longrightarrow> \<exists>out. runCapability E F cap (echo_input l a) = Inr out \<and>
     arg_str out ''text'' ''undefined'' = ''[echo] Generate '' @ l @ '' code for artifact: '' @ a"
  by (simp add: runCapability_def echo_input_def arg_str_def jget_str_def Let_def)

lemma stance_operator [simp]: "sk_operator (updateStance E k f s) = sk_operator s"
  by (simp add: updateStance_def take_now_def Let_def)

lemma execute_operator: "sk_operator (snd (executeCapability E F k input opts s)) = sk_operator s"
  by (subst execute_frame) simp

lemma echo_artifacts:
  assumes "op \<notin> {[], ''unknown''}" and "\<forall>x. sha256 E x \<noteq> []"
  shows "sk_operator s = Some op \<Longrightarrow> \<exists>ps. length ps = length as \<and>
     fst (execute_artifacts E F l as (codes, proofs, errs) s) =
       (codes @ map (\<lambda>a. ''[echo] Generate '' @ l @ '' code for artifact: '' @ a) as, proofs @ ps, errs)"
proof (induction as arbitrary: codes proofs s)
  case (Cons a as)
  let ?x = "executeCapability E F ''llm_echo'' (echo_input l a) (no_options\<lparr>eo_deterministic := Some False\<rparr>) s"
  obtain cap out where c: "getCapability ''llm_echo'' = Some cap" "runCapability E F cap (echo_input l a) = Inr out"
    and t: "arg_str out ''text'' ''undefined'' = ''[echo] Generate '' @ l @ '' code for artifact: '' @ a"
    using echo_cap echo_run by blast
  obtain rc where x: "fst ?x = \<lparr>xr_ok = True, xr_violations = [], xr_output = Some out, xr_receipt = Some rc\<rparr>"
    using execute_plain [OF c Cons.prems assms refl] by blast
  let ?s = "updateStance E ST_MONITORING None (updateStance E ST_INTERVENING (Some a) (snd ?x))"
  have "sk_operator ?s = Some op"
    using Cons.prems execute_operator [of E F "''llm_echo''" "echo_input l a" "no_options\<lparr>eo_deterministic := Some False\<rparr>" s] by simp
  from Cons.IH [OF this, of "codes @ [arg_str out ''text'' ''undefined'']" "proofs @ [''skillz-'' @ sr_id rc]"] obtain ps where
    ps: "length ps = length as" "fst (execute_artifacts E F l as (codes @ [arg_str out ''text'' ''undefined''], proofs @ [''skillz-'' @ sr_id rc], errs) ?s) =
      (codes @ [arg_str out ''text'' ''undefined''] @ map (\<lambda>a. ''[echo] Generate '' @ l @ '' code for artifact: '' @ a) as,
       proofs @ [''skillz-'' @ sr_id rc] @ ps, errs)" by auto
  have "execute_artifacts E F l (a # as) (codes, proofs, errs) s =
      execute_artifacts E F l as (codes @ [arg_str out ''text'' ''undefined''], proofs @ [''skillz-'' @ sr_id rc], errs) ?s"
    using x by (simp add: case_prod_beta Let_def)
  with ps t show ?case by (intro exI [of _ "(''skillz-'' @ sr_id rc) # ps"]) simp
qed simp

definition no_done :: "(string, intent_node) jsmap \<Rightarrow> bool" where
  "no_done m \<longleftrightarrow> (\<forall>k. map_option nd_status (js_get m k) \<noteq> Some IN_DONE)"

lemma register_all_no_done: "no_done (sk_intents s) \<Longrightarrow> no_done (sk_intents (fold (\<lambda>g. registerIntent (goal_node g)) gs s))"
proof (induction gs arbitrary: s)
  case (Cons g gs)
  have "no_done (sk_intents (registerIntent (goal_node g) s))"
    using Cons.prems by (simp add: registerIntent_def no_done_def goal_node_def)
  then show ?case using Cons.IH by simp
qed simp

lemma ready_independent: "no_done m \<Longrightarrow> ready_node m n \<Longrightarrow> nd_depends n = []"
  by (cases "nd_depends n") (auto simp: ready_node_def no_done_def)

subsection \<open>Properties\<close>

text \<open>The drift check of a capability, which passes the distance between the expectation and the output as the actual
  value and then measures how far that distance is from the expectation. An output is therefore never
  accepted for an expectation above 6, an output that meets it exactly included, whatever the capability,
  its input and its output; an output of \<open>slice_math\<close> that meets an expectation of at most 5 is accepted. All
  on binary64 numbers.\<close>

theorem drift_expectation_bounded:
  assumes "eo_driftExpected opts = Some d"
  shows "(xr_ok (fst (executeCapability E F k input opts s)) \<longrightarrow> \<bar>d\<bar> \<le> 6) \<and>
     (sk_operator s = Some op \<and> op \<notin> {[], ''unknown''} \<and> (\<forall>t. sha256 E t \<noteq> []) \<and> js_mul x 2 = d \<and> \<bar>d\<bar> \<le> 5 \<longrightarrow>
       xr_ok (fst (executeCapability E F ''slice_math'' [(''value'', JNum x)] (no_options\<lparr>eo_driftExpected := Some d\<rparr>) s)))"
proof (intro conjI impI)
  assume "xr_ok (fst (executeCapability E F k input opts s))"
  then show "\<bar>d\<bar> \<le> 6" using post_drift [OF assms]
    by (auto simp: executeCapability_def failed_def take_now_def Let_def split: option.splits if_splits sum.splits)
next
  assume a: "sk_operator s = Some op \<and> op \<notin> {[], ''unknown''} \<and> (\<forall>t. sha256 E t \<noteq> []) \<and> js_mul x 2 = d \<and> \<bar>d\<bar> \<le> 5"
  obtain cap where cap: "getCapability ''slice_math'' = Some cap" "cp_id cap = ''slice_math''" using math_cap by blast
  let ?o = "no_options\<lparr>eo_driftExpected := Some d\<rparr>" and ?i = "[(''value'', JNum x)]" and ?s = "s\<lparr>sk_counter := Suc (sk_counter s)\<rparr>"
  have r: "runCapability E F cap ?i = Inr [(''value'', JNum d)]" using a cap by (simp add: runCapability_def arg_num_def jget_def)
  have "checkPreEnvelope (new_envelope E cap ?i ?o ?s) = []"
    by (rule operator_pre) (use a cap in \<open>auto simp: no_options_def\<close>)
  moreover have "checkPostEnvelope (filled_envelope E ?o [(''value'', JNum d)] (new_envelope E cap ?i ?o ?s)) ?o = []"
    using a exact_drift [of d]
    by (simp add: checkPostEnvelope_def filled_envelope_def new_envelope_def is_text_def no_options_def arg_num_def jget_def)
  ultimately show "xr_ok (fst (executeCapability E F ''slice_math'' ?i ?o s))"
    using cap(1) r by (simp add: executeCapability_def take_now_def Let_def)
qed

definition demo_skillz :: skillz_st where
  "demo_skillz = \<lparr>tick = 0, sk_operator = Some ''op'', sk_stance = \<lparr>os_operator = ''op'', os_stance = ST_MONITORING, os_focus = None, os_last = 0\<rparr>,
     sk_waves = [], sk_counter = 0, sk_ledger = [], sk_cosmic = \<lparr>co_epochs = [], co_worldlines = [], co_fields = [], co_agents = []\<rparr>,
     sk_federated = [], sk_ticks = [], sk_intents = [], sk_behaviors = []\<rparr>"

definition demo_files :: file_calls where
  "demo_files = \<lparr>fl_read = (\<lambda>_. None), fl_write = (\<lambda>_ _. None), fl_list = (\<lambda>_. None)\<rparr>"

theorem drift_expectation_witness:
  "\<not> xr_ok (fst (executeCapability demo_env demo_files ''slice_math'' [(''value'', JNum 5)] (no_options\<lparr>eo_driftExpected := Some 10\<rparr>) demo_skillz)) \<and>
   xr_ok (fst (executeCapability demo_env demo_files ''slice_math'' [(''value'', JNum 2)] (no_options\<lparr>eo_driftExpected := Some 4\<rparr>) demo_skillz))"
proof -
  have "js_mul 2 2 = 4" using fl_of_int [of 4] by (simp add: js_mul_def)
  moreover have "sk_operator demo_skillz = Some ''op''" by (simp add: demo_skillz_def)
  moreover have "\<forall>t. sha256 demo_env t \<noteq> []" by (simp add: demo_env_def)
  ultimately show ?thesis
    using drift_expectation_bounded [of "no_options\<lparr>eo_driftExpected := Some 10\<rparr>" 10 demo_env demo_files "''slice_math''" "[(''value'', JNum 5)]" demo_skillz]
      drift_expectation_bounded [of "no_options\<lparr>eo_driftExpected := Some 4\<rparr>" 4 demo_env demo_files "''slice_math''" "[(''value'', JNum 2)]" demo_skillz "''op''" 2]
    by simp
qed

text \<open>The continuity ledger: a valid chain stays valid under an append exactly when the receipt names the last entry as
  parent, so a run of a substrate's artifacts through the capability keeps it valid, while two receipts made
  before either is appended break it. The chain covers identifiers only: entries whose contents were
  exchanged verify all the same.\<close>

theorem continuity_chain:
  assumes "fst (verifyMerkleChain s)"
  shows "(fst (verifyMerkleChain (snd (appendCRK1Receipt r s))) \<longleftrightarrow> k1_parent r = tail_id s) \<and>
     fst (verifyContinuityChain (snd (executeViaCRK1 E F artifacts input s))) \<and>
     (r1 = fst (createCRK1Receipt E d1 i1 o1 st1 s) \<and> r2 = fst (createCRK1Receipt E d2 i2 o2 st2 (snd (createCRK1Receipt E d1 i1 o1 st1 s))) \<and>
       tail_id s \<noteq> Some (k1_id r1) \<longrightarrow>
       \<not> fst (verifyMerkleChain (snd (appendCRK1Receipt r2 (snd (appendCRK1Receipt r1 s)))))) \<and>
     ((\<forall>e\<in>set (sk_ledger s). ge_id (f e) = ge_id e \<and> ge_parent (f e) = ge_parent e) \<longrightarrow>
       fst (verifyMerkleChain (s\<lparr>sk_ledger := map f (sk_ledger s)\<rparr>)))"
proof (intro conjI impI)
  show "fst (verifyMerkleChain (snd (appendCRK1Receipt r s))) \<longleftrightarrow> k1_parent r = tail_id s" using assms by (simp add: append_valid)
  show "fst (verifyContinuityChain (snd (executeViaCRK1 E F artifacts input s)))"
    using crk1_valid [OF assms] by (simp add: verifyContinuityChain_def executeViaCRK1_def)
next
  assume a: "r1 = fst (createCRK1Receipt E d1 i1 o1 st1 s) \<and> r2 = fst (createCRK1Receipt E d2 i2 o2 st2 (snd (createCRK1Receipt E d1 i1 o1 st1 s))) \<and>
       tail_id s \<noteq> Some (k1_id r1)"
  then have "k1_parent r2 = tail_id s" using create_parent(1) [of E d2 i2 o2 st2 "snd (createCRK1Receipt E d1 i1 o1 st1 s)"]
      create_parent(2) [of E d1 i1 o1 st1 s] by (simp add: tail_id_def)
  moreover have "tail_id (snd (appendCRK1Receipt r1 s)) = Some (k1_id r1)" by (simp add: tail_id_def appendCRK1Receipt_def entry_of_def)
  moreover have "\<not> (k1_parent r2 = Some (k1_id r1))" using calculation(1) a by metis
  ultimately show "\<not> fst (verifyMerkleChain (snd (appendCRK1Receipt r2 (snd (appendCRK1Receipt r1 s)))))"
    unfolding append_valid [of r2] by metis
next
  assume "\<forall>e\<in>set (sk_ledger s). ge_id (f e) = ge_id e \<and> ge_parent (f e) = ge_parent e"
  from merkle_ignores [OF this] show "fst (verifyMerkleChain (s\<lparr>sk_ledger := map f (sk_ledger s)\<rparr>))"
    using assms by (simp add: verifyMerkleChain_def Let_def)
qed

theorem continuity_chain_witness:
  "fst (verifyContinuityChain (snd (executeViaCRK1 demo_env demo_files [''a'', ''b''] [] demo_skillz)))"
proof -
  have "fst (verifyMerkleChain demo_skillz)" by (simp add: verifyMerkleChain_def demo_skillz_def)
  from continuity_chain [OF this, of undefined demo_env demo_files "[''a'', ''b'']" "[]"] show ?thesis by blast
qed

text \<open>Cosmic events: in any run of events, refused ones included, the epochs strictly increase, so the
  invariant report is always positive. An event with a past epoch changes nothing; an event refused
  for want of a receipt has nevertheless recorded its epoch. Leaving a worldline without a
  receipt takes two events: one that names no worldline takes the agent out of its own.\<close>

theorem cosmic_epochs_increase:
  assumes "s = fold cosmic_step es (t :: skillz_st)" and "co_epochs (sk_cosmic t) = []"
  shows "increasing (co_epochs (sk_cosmic s)) \<and> list_all snd (validateCosmicInvariants COSMIC_INVARIANTS s) \<and>
     (\<forall>ev. fst (applyCosmicEvent ev s) = Inl ''C1: retroactive epoch insertion forbidden'' \<longrightarrow> snd (applyCosmicEvent ev s) = s) \<and>
     (\<forall>ev n. fst (applyCosmicEvent ev s) = Inl ''C0: worldline branch/merge requires continuity receipt'' \<and> ce_epoch ev = Some n \<longrightarrow>
        last (co_epochs (sk_cosmic (snd (applyCosmicEvent ev s)))) = n) \<and>
     (\<forall>k w pos. \<exists>c. fst (applyCosmicEvent \<lparr>ce_epoch = None, ce_worldline = Some w, ce_type = Some ''transition'', ce_fields = [],
           ce_agents = [(k, pos)], ce_receipt = None\<rparr>
         (snd (applyCosmicEvent \<lparr>ce_epoch = None, ce_worldline = None, ce_type = None, ce_fields = [], ce_agents = [(k, [])], ce_receipt = None\<rparr> s))) =
         Inr c \<and> map_option ca_worldline (js_get (co_agents c) k) = Some (Some w))"
proof (intro conjI allI impI)
  have "epochs_ok t" using assms(2) by (simp add: epochs_ok_def)
  from cosmic.run_inv [OF this] show i: "increasing (co_epochs (sk_cosmic s))" by (simp add: assms(1) epochs_ok_def)
  then show "list_all snd (validateCosmicInvariants COSMIC_INVARIANTS s)"
    by (simp add: validateCosmicInvariants_def COSMIC_INVARIANTS_def)
  show "snd (applyCosmicEvent ev s) = s"
    if "fst (applyCosmicEvent ev s) = Inl ''C1: retroactive epoch insertion forbidden''" for ev
    using that by (auto simp: applyCosmicEvent_def Let_def case_prod_beta split: if_splits)
  show "last (co_epochs (sk_cosmic (snd (applyCosmicEvent ev s)))) = n"
    if "fst (applyCosmicEvent ev s) = Inl ''C0: worldline branch/merge requires continuity receipt'' \<and> ce_epoch ev = Some n" for ev n
    using that unfolding event_epochs by (auto simp: applyCosmicEvent_def Let_def case_prod_beta not_le split: if_splits)
  show "\<exists>c. fst (applyCosmicEvent \<lparr>ce_epoch = None, ce_worldline = Some w, ce_type = Some ''transition'', ce_fields = [],
           ce_agents = [(k, pos)], ce_receipt = None\<rparr>
         (snd (applyCosmicEvent \<lparr>ce_epoch = None, ce_worldline = None, ce_type = None, ce_fields = [], ce_agents = [(k, [])], ce_receipt = None\<rparr> s))) =
         Inr c \<and> map_option ca_worldline (js_get (co_agents c) k) = Some (Some w)" for k w pos
    by (simp add: applyCosmicEvent_def may_leave_def agent_at_def is_text_def Let_def)
qed

theorem cosmic_epochs_witness:
  "increasing (co_epochs (sk_cosmic (fold cosmic_step [\<lparr>ce_epoch = Some 2, ce_worldline = None, ce_type = None, ce_fields = [],
     ce_agents = [], ce_receipt = None\<rparr>] demo_skillz)))"
  by (rule cosmic_epochs_increase [OF refl, THEN conjunct1]) (simp add: demo_skillz_def)

text \<open>The workflow's use of the client generates no code: with an operator registered every artifact is answered
  by the echo of its own prompt, with a proof per artifact and no error.\<close>

theorem echo_generates_nothing:
  assumes "sk_operator s = Some op" and "op \<notin> {[], ''unknown''}" and "\<forall>x. sha256 E x \<noteq> []" and "artifacts \<noteq> []"
  shows "\<exists>m. fst (executeViaSkillz E F name artifacts l s) = (m, []) \<and> length (mc_proofs m) = length artifacts \<and>
     mc_code m = join [CHR 0x0A] (map (\<lambda>a. ''[echo] Generate '' @ l @ '' code for artifact: '' @ a) artifacts)"
proof -
  obtain ps where ps: "length ps = length artifacts" "fst (execute_artifacts E F l artifacts ([], [], []) s) =
       (map (\<lambda>a. ''[echo] Generate '' @ l @ '' code for artifact: '' @ a) artifacts, ps, [])"
    using echo_artifacts [OF assms(2,3,1), of artifacts F l "[]" "[]" "[]"] by auto
  have "join sep (map (\<lambda>a. ''[echo] Generate '' @ l @ '' code for artifact: '' @ a) artifacts) \<noteq> []" for sep
    using assms(4) by (cases artifacts rule: remdups_adj.cases) simp_all
  with ps show ?thesis by (simp add: executeViaSkillz_def case_prod_beta Let_def)
qed

text \<open>The scheduler: nothing in the client ever completes an intent, so as long as none was registered as done, a goal
  that depends on another is neither assigned to an agent nor reported.\<close>

theorem scheduler_skips_dependent_goals:
  assumes "no_done (sk_intents s)" and "routeViaConstitutionalScheduler agents goals s = ((assigned, errs), s')"
  shows "no_done (sk_intents s') \<and> (\<forall>(i, a)\<in>set assigned. \<exists>n\<in>set (js_values (sk_intents s')). nd_id n = i \<and> nd_depends n = [])"
proof -
  let ?s = "fold (\<lambda>g. registerIntent (goal_node g)) goals s"
  have s': "s' = ?s" using assms(2) by (simp add: routeViaConstitutionalScheduler_def Let_def)
  have n: "no_done (sk_intents ?s)" by (rule register_all_no_done [OF assms(1)])
  let ?find = "\<lambda>n. List.find (\<lambda>a. slice_needed (nd_goal n) \<in> set (snd a)) agents"
  have as: "assigned = map (\<lambda>n. (nd_id n, fst (the (?find n)))) (filter (\<lambda>n. ?find n \<noteq> None) (getReadyIntents ?s))"
    using assms(2) by (auto simp: routeViaConstitutionalScheduler_def Let_def)
  have r: "n \<in> set (js_values (sk_intents ?s)) \<and> nd_depends n = []" if "n \<in> set (getReadyIntents ?s)" for n
    using that ready_independent [OF n, of n] by (simp add: getReadyIntents_def)
  have "\<exists>n\<in>set (js_values (sk_intents ?s)). nd_id n = i \<and> nd_depends n = []" if "(i, a) \<in> set assigned" for i a
  proof -
    from that obtain n where "n \<in> set (getReadyIntents ?s)" "nd_id n = i" unfolding as by (auto simp del: not_None_eq)
    then show ?thesis using r by blast
  qed
  with n s' show ?thesis by auto
qed

end
