(* ===== verification/Orchestrator.thy ===== *)
theory Orchestrator
  imports Skills Session Skillz
begin

text \<open>
  The multi-agent workflow (\<open>agent/cmas/orchestrator.ts\<close>), which puts the agents, the kernel bridge, the skill registry and the
  Mechanic, Slingshot and SkillzMcGee clients together. The state holds the modules side by side: the kernel and the skill
  client live on the same governance ledger and clock as the agents, so each is kept as the extension of that shared
  part and run on it. \<open>getSXOSStatus\<close>, which needs a \<open>require\<close> that a module of this kind may not have, is left out.
\<close>

subsection \<open>The state\<close>

datatype wf_status = Initiated | ArchitectDone | BuilderDone | ImplementorDone | ValidatorDone | ReviewerDone | WfCompleted | WfFailed

primrec wf_status_name :: "wf_status \<Rightarrow> string" where
  "wf_status_name Initiated = ''initiated''"
| "wf_status_name ArchitectDone = ''architect-done''"
| "wf_status_name BuilderDone = ''builder-done''"
| "wf_status_name ImplementorDone = ''implementor-done''"
| "wf_status_name ValidatorDone = ''validator-done''"
| "wf_status_name ReviewerDone = ''reviewer-done''"
| "wf_status_name WfCompleted = ''completed''"
| "wf_status_name WfFailed = ''failed''"

text \<open>The agents of a workflow are entries of the registry, named by their identifiers.\<close>

record workflow =
  wf_id :: string
  wf_status :: wf_status
  wf_intent :: string
  wf_agents :: "(agent_role \<times> string) list"
  wf_receipts :: "receipt list"
  wf_mytharRules :: "mythar_rule list option"
  wf_mytharReceipts :: "mythar_receipt list option"
  wf_skillzCaps :: "capability list option"
  wf_skillzWave :: "string option"
  wf_drifts :: "json option"
  wf_diagnosis :: "json option"
  wf_frame :: "json option"
  wf_packet :: "json option"
  wf_impact :: "json option"
  wf_created :: time
  wf_updated :: time

type_synonym kernel_part = "unit kernel_st_ext apid_st_ext acct_st_ext"

record flow_st = skills_st +
  kernel_ext :: kernel_part
  skillz_ext :: "unit skillz_st_ext"
  workflows :: "(string, workflow) jsmap"
  sxosInitialized :: bool

text \<open>The state the kernel sees, and an operation of the kernel run on it.\<close>

definition kern :: "'a flow_st_scheme \<Rightarrow> kernel_st" where
  "kern s = gov_st.extend (gov_st.truncate s) (kernel_ext s)"

definition on_kernel :: "(kernel_st \<Rightarrow> 'r \<times> kernel_st) \<Rightarrow> 'a flow_st_scheme \<Rightarrow> 'r \<times> 'a flow_st_scheme" where
  "on_kernel f s = (let (r, k) = f (kern s)
     in (r, s\<lparr>tick := tick k, csr_ledger := csr_ledger k, wal := wal k, gov_ledger := gov_ledger k, gov_wal := gov_wal k, gov_loaded := gov_loaded k,
              gov_continuity := gov_continuity k, gov_invariants := gov_invariants k, gov_violations := gov_violations k,
              kernel_ext := gov_st.more k\<rparr>))"

definition on_skillz :: "(skillz_st \<Rightarrow> 'r \<times> skillz_st) \<Rightarrow> 'a flow_st_scheme \<Rightarrow> 'r \<times> 'a flow_st_scheme" where
  "on_skillz f s = (let (r, k) = f (sys_st.extend (sys_st.truncate s) (skillz_ext s)) in (r, s\<lparr>tick := tick k, skillz_ext := sys_st.more k\<rparr>))"

subsection \<open>Workflows\<close>

definition set_wf :: "string \<Rightarrow> (workflow \<Rightarrow> workflow) \<Rightarrow> 'a flow_st_scheme \<Rightarrow> 'a flow_st_scheme" where
  "set_wf i f s = s\<lparr>workflows := js_modify i f (workflows s)\<rparr>"

definition createWorkflow :: "sysenv \<Rightarrow> string \<Rightarrow> 'a flow_st_scheme \<Rightarrow> string \<times> 'a flow_st_scheme" where
  "createWorkflow E goal s =
     (let (u, s1) = take_uuid E s; (t1, s2) = take_now E s1; (t2, s3) = take_now E s2; i = ''wf-'' @ take 8 u
      in (i, s3\<lparr>workflows := js_set i \<lparr>wf_id = i, wf_status = Initiated, wf_intent = goal, wf_agents = [], wf_receipts = [], wf_mytharRules = None,
            wf_mytharReceipts = None, wf_skillzCaps = None, wf_skillzWave = None, wf_drifts = None, wf_diagnosis = None, wf_frame = None,
            wf_packet = None, wf_impact = None, wf_created = t1, wf_updated = t2\<rparr> (workflows s3)\<rparr>))"

definition getWorkflow :: "string \<Rightarrow> 'a flow_st_scheme \<Rightarrow> workflow option" where
  "getWorkflow i s = js_get (workflows s) i"

definition listWorkflows :: "'a flow_st_scheme \<Rightarrow> workflow list" where
  "listWorkflows s = js_values (workflows s)"

text \<open>A field of the running workflow.\<close>

definition wf_field :: "string \<Rightarrow> (workflow \<Rightarrow> 'b option) \<Rightarrow> 'a flow_st_scheme \<Rightarrow> 'b option" where
  "wf_field i f s = Option.bind (getWorkflow i s) f"

definition with_agent :: "agent_role \<Rightarrow> string \<Rightarrow> workflow \<Rightarrow> workflow" where
  "with_agent r a w = w\<lparr>wf_agents := wf_agents w @ [(r, a)]\<rparr>"

subsection \<open>The stages\<close>

text \<open>A stage ends the workflow, by a refusal or a thrown error, on the left; both are handled alike.\<close>

type_synonym ('a, 'x) stage = "(string + 'x) \<times> session \<times> 'a flow_st_scheme"

text \<open>The end of each stage: the kernel decides on its action, and the intent and the workflow move on.\<close>

definition govern_stage ::
    "host \<Rightarrow> string \<Rightarrow> wf_status \<Rightarrow> agent_role \<Rightarrow> string \<Rightarrow> action \<Rightarrow> bool \<Rightarrow> session \<Rightarrow> 'a flow_st_scheme \<Rightarrow> ('a, unit) stage" where
  "govern_stage H wid target role agent a ok sess s =
     (let E = w_sys (h_world H); stage = wf_status_name target;
          ((r, sess1), s1) = on_kernel (\<lambda>k. case governAction E sess agent (role_name role) a stage k of (r, se, k1) \<Rightarrow> ((r, se), k1)) s
      in if \<not> ok \<or> \<not> sr_approved r then (Inl ''rejected'', sess1, s1)
         else (let (_, s2) = on_kernel (stageTransition E sess1 stage) s1 in (Inr (), sess1, set_wf wid (\<lambda>w. w\<lparr>wf_status := target\<rparr>) s2)))"

record client_options =
  op_language :: string
  op_mythar :: "string option"
  op_skillz :: bool
  op_mechanic :: bool
  op_slingshot :: bool

record services =
  sv_python :: python
  sv_skills :: skill_files
  sv_files :: file_calls

definition load_skills :: "skill_files \<Rightarrow> 'a flow_st_scheme \<Rightarrow> 'a flow_st_scheme" where
  "load_skills F s = fold (\<lambda>r t. snd (loadSkillsForRole F r t)) [''architect'', ''builder'', ''implementor'', ''validator'', ''reviewer'']
     (snd (ensureAllCodexSkillsRegistered s))"

definition architect_stage ::
    "host \<Rightarrow> services \<Rightarrow> client_options \<Rightarrow> string \<Rightarrow> string \<Rightarrow> session \<Rightarrow> 'a flow_st_scheme \<Rightarrow> ('a, constitution) stage" where
  "architect_stage H V opts wid goal sess s =
     (let s1 = load_skills (sv_skills V) s;
          ((a, c, rules), s2) = architectProduceIntent H goal None (op_mythar opts) s1;
          s3 = set_wf wid (\<lambda>w. let w1 = with_agent Architect a w in if rules = None then w1 else w1\<lparr>wf_mytharRules := rules\<rparr>) s2;
          (r, sess1, s4) = govern_stage H wid ArchitectDone Architect a
            \<lparr>a_type = ''plan'', a_payload = [(''goal'', JStr goal), (''constitution'', constitution_json c)]\<rparr> True sess s3
      in (or_throw r (\<lambda>_. Inr c), sess1, s4))"

text \<open>The scan of the working directory, when Mechanic is on; a report that is not an object has no drifts.\<close>

definition mechanic_scan ::
    "host \<Rightarrow> services \<Rightarrow> client_options \<Rightarrow> string \<Rightarrow> 'a flow_st_scheme \<Rightarrow> (string + unit) \<times> 'a flow_st_scheme" where
  "mechanic_scan H V opts wid s =
     (if \<not> op_mechanic opts then (Inr (), s)
      else (let (r, s1) = scanViaMechanic (w_sys (h_world H)) (sv_python V) (createMechanicSession H) wid (h_cwd H) s
            in case r of Inl e \<Rightarrow> (Inl e, s1)
               | Inr (g, rep, errs) \<Rightarrow>
                   (if \<not> truthy rep then (Inr (), s1)
                    else (case field_of (the rep) ''drifts'' of Inl e \<Rightarrow> (Inl e, s1)
                          | Inr ds \<Rightarrow> (Inr (), set_wf wid (\<lambda>w. w\<lparr>wf_diagnosis := rep, wf_drifts := ds\<rparr>) s1)))))"

definition slingshot_start ::
    "host \<Rightarrow> services \<Rightarrow> client_options \<Rightarrow> string \<Rightarrow> string \<Rightarrow> constitution \<Rightarrow> 'a flow_st_scheme \<Rightarrow> 'a flow_st_scheme" where
  "slingshot_start H V opts wid goal c s =
     (if \<not> op_slingshot opts then s
      else (let E = w_sys (h_world H); cl = createSlingshotSession H;
                s1 = (if op_mechanic opts \<and> truthy (wf_field wid wf_diagnosis s)
                      then (let ((f, _), t) = preloadSlingshotFrame E (sv_python V) cl wid (h_cwd H) s in set_wf wid (\<lambda>w. w\<lparr>wf_frame := Some f\<rparr>) t)
                      else s);
                ((p, _), s2) = packetizeSlingshot E (sv_python V) cl wid goal
                  (Some (JObj [(''goal'', JStr goal), (''constitution'', JStr (kn_purpose c))])) s1
            in set_wf wid (\<lambda>w. w\<lparr>wf_packet := Some p\<rparr>) s2))"

definition builder_stage ::
    "host \<Rightarrow> services \<Rightarrow> client_options \<Rightarrow> string \<Rightarrow> string \<Rightarrow> constitution \<Rightarrow> session \<Rightarrow> 'a flow_st_scheme \<Rightarrow> ('a, string \<times> substrate) stage" where
  "builder_stage H V opts wid goal c sess s =
     (let ((b, u), s1) = builderCreateSubstrate H c s; (m, s2) = mechanic_scan H V opts wid (set_wf wid (with_agent Builder b) s1)
      in case m of Inl e \<Rightarrow> (Inl e, sess, s2)
         | Inr _ \<Rightarrow>
             let (r, sess1, s3) = govern_stage H wid BuilderDone Builder b
                   \<lparr>a_type = ''generate'', a_payload = [(''goal'', JStr goal), (''substrate'', substrate_json u)]\<rparr> True sess
                   (slingshot_start H V opts wid goal c s2)
             in (or_throw r (\<lambda>_. Inr (b, u)), sess1, s3))"

definition implementor_stage ::
    "host \<Rightarrow> services \<Rightarrow> client_options \<Rightarrow> string \<Rightarrow> string \<Rightarrow> string \<Rightarrow> substrate \<Rightarrow> session \<Rightarrow> 'a flow_st_scheme \<Rightarrow> ('a, exec_module) stage" where
  "implementor_stage H V opts wid goal b u sess s =
     (let E = w_sys (h_world H);
          s1 = (if op_skillz opts
                then (let ((wave, caps), t) = on_skillz (createSkillzSession E ''builder'' b goal) s
                      in set_wf wid (\<lambda>w. w\<lparr>wf_skillzWave := Some wave, wf_skillzCaps := Some caps\<rparr>) t)
                else s);
          (r, s2) = implementorRealize H u (Some (op_language opts)) s1
      in case r of Inl e \<Rightarrow> (Inl e, sess, s2)
         | Inr (i, m) \<Rightarrow>
             let s3 = set_wf wid (with_agent Implementor i) s2;
                 (errs, s4) = (if op_skillz opts
                   then (case on_skillz (executeViaSkillz E (sv_files V) (su_name u) (su_artifacts u) (op_language opts)) s3 of ((_, es), t) \<Rightarrow> (es, t))
                   else ([], s3))
             in if errs \<noteq> [] then (Inl ''rejected'', sess, s4)
                else let (g, sess1, s5) = govern_stage H wid ImplementorDone Implementor i
                           \<lparr>a_type = ''generate'', a_payload = [(''substrate'', substrate_json u), (''language'', JStr (op_language opts))]\<rparr> True sess s4
                     in (or_throw g (\<lambda>_. Inr m), sess1, s5))"

text \<open>The checks of Mechanic and Slingshot that join the validator's.\<close>

definition mechanic_verify ::
    "host \<Rightarrow> services \<Rightarrow> client_options \<Rightarrow> string \<Rightarrow> substrate \<Rightarrow> 'a flow_st_scheme \<Rightarrow> (string + val_check list) \<times> 'a flow_st_scheme" where
  "mechanic_verify H V opts wid u s =
     (if \<not> op_mechanic opts then (Inr [], s)
      else (let (r, s1) = verifyViaMechanic (w_sys (h_world H)) (sv_python V) (createMechanicSession H) u s; ds = wf_field wid wf_drifts s1
            in (or_throw r (\<lambda>(passed, vs). if \<not> passed then Inl ''rejected''
                  else if truthy ds \<and> positive H (js_length ds) then mapMechanicDriftsToReceipts ds else Inr []), s1)))"

definition slingshot_checks :: "host \<Rightarrow> client_options \<Rightarrow> string \<Rightarrow> 'a flow_st_scheme \<Rightarrow> string + val_check list" where
  "slingshot_checks H opts wid s =
     (let f = wf_field wid wf_frame s in if op_slingshot opts \<and> truthy f then slingshotFrameToGovernanceChecks H (the f) else Inr [])"

definition amend_report :: "val_check list \<Rightarrow> val_report \<Rightarrow> val_report" where
  "amend_report extra r =
     (if extra = [] then r
      else let failed = length (filter (\<lambda>c. \<not> vc_passed c) extra)
           in r\<lparr>vr_checks := vr_checks r @ extra, vr_failed := vr_failed r + failed, vr_total := vr_total r + length extra,
                vr_passed := (if failed > 0 then False else vr_passed r)\<rparr>)"

text \<open>The report is the object that the registry and the certificate hold too.\<close>

definition amend_output :: "val_check list \<Rightarrow> cmas_agent \<Rightarrow> cmas_agent" where
  "amend_output extra a = a\<lparr>cmas_agent.ca_output := map_option (\<lambda>v. case v of
       Out_report r c \<Rightarrow> Out_report (amend_report extra r) (map_option (\<lambda>x. x\<lparr>ce_report := amend_report extra (ce_report x)\<rparr>) c)
     | w \<Rightarrow> w) (cmas_agent.ca_output a)\<rparr>"

definition val_action :: "string \<Rightarrow> 'a flow_st_scheme \<Rightarrow> action" where
  "val_action wid s = run_action [(''workflowId'', JStr wid),
     (''mechanicDriftCount'', (case js_length (wf_field wid wf_drifts s) of None \<Rightarrow> JNum 0 | Some JNull \<Rightarrow> JNum 0 | Some v \<Rightarrow> v)),
     (''slingshotFramePresent'', JBool (truthy (wf_field wid wf_frame s)))]"

definition validator_stage ::
    "host \<Rightarrow> services \<Rightarrow> client_options \<Rightarrow> string \<Rightarrow> substrate \<Rightarrow> session \<Rightarrow> 'a flow_st_scheme \<Rightarrow> ('a, action \<times> val_report) stage" where
  "validator_stage H V opts wid u sess s =
     (let (m, s1) = mechanic_verify H V opts wid u s
      in case or_throw m (\<lambda>mc. or_throw (slingshot_checks H opts wid s1) (\<lambda>sc. Inr (mc @ sc))) of
           Inl e \<Rightarrow> (Inl e, sess, s1)
         | Inr extra \<Rightarrow>
             let a = val_action wid s1;
                 ((v, report, _, mrs), s2) = validatorValidate H wid ''implementor'' a (wf_field wid wf_mytharRules s1) (op_mythar opts) s1;
                 s3 = s2\<lparr>cmas_agents := js_modify v (amend_output extra) (cmas_agents s2)\<rparr>;
                 s4 = set_wf wid (\<lambda>w. let w1 = with_agent Validator v w in if mrs = None then w1 else w1\<lparr>wf_mytharReceipts := mrs\<rparr>) s3;
                 (g, sess1, s5) = govern_stage H wid ValidatorDone Validator v a (vr_passed (amend_report extra report)) sess s4
             in (or_throw g (\<lambda>_. Inr (a, amend_report extra report)), sess1, s5))"

definition reviewer_stage ::
    "host \<Rightarrow> string \<Rightarrow> constitution \<Rightarrow> substrate \<Rightarrow> exec_module \<Rightarrow> val_report \<Rightarrow> session \<Rightarrow> 'a flow_st_scheme \<Rightarrow> ('a, unit) stage" where
  "reviewer_stage H wid c u m report sess s =
     (let ((v, _), s1) = reviewerReview H wid c u m report s
      in govern_stage H wid ReviewerDone Reviewer v \<lparr>a_type = ''plan'', a_payload = [(''workflowId'', JStr wid), (''review'', JStr ''complete'')]\<rparr> True sess
           (set_wf wid (with_agent Reviewer v) s1))"

definition slingshot_finish ::
    "host \<Rightarrow> services \<Rightarrow> client_options \<Rightarrow> string \<Rightarrow> string \<Rightarrow> session \<Rightarrow> 'a flow_st_scheme \<Rightarrow> ('a, unit) stage" where
  "slingshot_finish H V opts wid goal sess s =
     (if \<not> op_slingshot opts then (Inr (), sess, s)
      else (let cl = createSlingshotSession H;
                ((i, _), s1) = finalizeSlingshotImpact (w_sys (h_world H)) (sv_python V) cl wid wid (''workflow:'' @ goal)
                   (''completed:'' @ wf_status_name ReviewerDone) None s;
                (r, s2) = verifySlingshotIntegrity (sv_python V) cl wid (set_wf wid (\<lambda>w. w\<lparr>wf_impact := Some i\<rparr>) s1)
            in (or_throw r (\<lambda>(valid, _). if truthy valid then Inr () else Inl ''rejected''), sess, s2)))"

definition and_then :: "('a, 'x) stage \<Rightarrow> ('x \<Rightarrow> session \<Rightarrow> 'a flow_st_scheme \<Rightarrow> ('a, 'y) stage) \<Rightarrow> ('a, 'y) stage" where
  "and_then x f = (case x of (Inl e, sess, s) \<Rightarrow> (Inl e, sess, s) | (Inr v, sess, s) \<Rightarrow> f v sess s)"

definition all_stages :: "host \<Rightarrow> services \<Rightarrow> client_options \<Rightarrow> string \<Rightarrow> string \<Rightarrow> session \<Rightarrow> 'a flow_st_scheme \<Rightarrow> ('a, unit) stage" where
  "all_stages H V opts wid goal sess s =
     and_then (architect_stage H V opts wid goal sess s) (\<lambda>c sess s.
     and_then (builder_stage H V opts wid goal c sess s) (\<lambda>(b, u) sess s.
     and_then (implementor_stage H V opts wid goal b u sess s) (\<lambda>m sess s.
     and_then (validator_stage H V opts wid u sess s) (\<lambda>(a, report) sess s.
     and_then (reviewer_stage H wid c u m report sess s) (\<lambda>_ sess s.
     and_then (slingshot_finish H V opts wid goal sess s) (\<lambda>_ sess s.
       (Inr (), sess, snd (recordReceipt (w_sys (h_world H)) a [''CMAS-ORC-001''] a2 s))))))))"

definition start_session :: "sysenv \<Rightarrow> string \<Rightarrow> string \<Rightarrow> 'a flow_st_scheme \<Rightarrow> session \<times> 'a flow_st_scheme" where
  "start_session E wid goal s =
     (let s1 = (if sxosInitialized s then s else (snd (on_kernel (\<lambda>k. ((), initializeSXOS E k)) s))\<lparr>sxosInitialized := True\<rparr>)
      in on_kernel (openSession E wid goal) s1)"

definition executeFullWorkflow ::
    "host \<Rightarrow> services \<Rightarrow> client_options \<Rightarrow> string \<Rightarrow> 'a flow_st_scheme \<Rightarrow> string \<times> 'a flow_st_scheme" where
  "executeFullWorkflow H V opts goal s =
     (let E = w_sys (h_world H);
          (wid, s1) = createWorkflow E goal s;
          (sess0, s2) = start_session E wid goal s1;
          (r, sess, s3) = all_stages H V opts wid goal sess0 s2;
          done = (case r of Inr _ \<Rightarrow> True | Inl _ \<Rightarrow> False);
          (_, s4) = on_kernel (\<lambda>k. ((), closeSession E sess done k)) s3;
          (t, s5) = take_now E s4
      in (wid, set_wf wid (\<lambda>w. w\<lparr>wf_status := (if done then WfCompleted else WfFailed), wf_updated := t\<rparr>) s5))"

subsection \<open>What the steps before the first decision keep\<close>

definition flow_frame :: "'a flow_st_scheme \<Rightarrow> 'a flow_st_scheme \<Rightarrow> bool" where
  "flow_frame s t \<longleftrightarrow> workflows t = workflows s \<and> kernel_ext t = kernel_ext s"

lemma flow_frame_refl [simp]: "flow_frame s s"
  by (simp add: flow_frame_def)

lemma flow_frame_trans: "flow_frame s t \<Longrightarrow> flow_frame t u \<Longrightarrow> flow_frame s u"
  by (simp add: flow_frame_def)

lemma flow_tick: "only_tick s (t :: 'a flow_st_scheme) \<Longrightarrow> flow_frame s t"
  unfolding only_tick_def flow_frame_def by (erule ssubst) simp

lemma flow_record: "flow_frame s (snd (recordReceipt E a ch op (s :: 'a flow_st_scheme)))"
proof -
  obtain n l w where "snd (recordReceipt E a ch op s) = s\<lparr>tick := n, gov_ledger := l, gov_wal := w, gov_loaded := True\<rparr>"
    using recordReceipt_state by blast
  then show ?thesis by (simp add: flow_frame_def)
qed

lemma flow_steps [simp]:
  "flow_frame s (snd (spawnAgent E r n d p s))" "flow_frame s (updateAgentStatus i st out err s)" "flow_frame s (registerSkill m s)"
  "flow_frame s (snd (loadSkill F j s))" "flow_frame s (snd (take_now E s))"
  by (auto simp: flow_frame_def spawnAgent_def updateAgentStatus_def registerSkill_def loadSkill_def take_uuid_def take_now_def Let_def split: option.split)

lemma flow_register_all: "flow_frame s (fold registerSkill ms s)"
  by (induction ms arbitrary: s) (auto intro: flow_frame_trans [OF flow_steps(3)])

lemma flow_load_one: "flow_frame (snd x) (snd (load_one F m x))"
  by (cases x) (auto simp: load_one_def intro: flow_frame_trans [OF flow_steps(3) flow_steps(4)] split: option.split)

lemma flow_load_all: "flow_frame (snd x) (snd (fold (load_one F) ms x))"
proof (induction ms arbitrary: x)
  case (Cons m ms)
  from flow_frame_trans [OF flow_load_one Cons.IH] show ?case by simp
qed simp

lemma flow_load_skills: "flow_frame s (load_skills F s)"
proof -
  have "flow_frame t (fold (\<lambda>r t. snd (loadSkillsForRole F r t)) rs t)" for rs and t :: "'a flow_st_scheme"
  proof (induction rs arbitrary: t)
    case (Cons r rs)
    have "flow_frame t (snd (loadSkillsForRole F r t))" using flow_load_all [of "([], t)"] by (simp add: loadSkillsForRole_def)
    from flow_frame_trans [OF this Cons.IH] show ?case by simp
  qed simp
  then show ?thesis
    unfolding load_skills_def ensureAllCodexSkillsRegistered_def Let_def snd_conv by (rule flow_frame_trans [OF flow_register_all])
qed

lemma flow_architect: "flow_frame s (snd (architectProduceIntent H goal cs host s))"
proof -
  let ?E = "w_sys (h_world H)"
  obtain i s1 where s1: "spawnAgent ?E Architect ''Constitutional Architect'' (''Define intent for: '' @ goal) None s = (i, s1)" by fastforce
  have f1: "flow_frame s (updateAgentStatus i AgentRunning None None s1)"
    using flow_frame_trans [OF flow_steps(1) flow_steps(2)] s1 by (metis snd_conv)
  obtain js t1 where t1: "compileInvariants (w_http (h_world H)) (mythar_at (the host)) core_invariants (updateAgentStatus i AgentRunning None None s1) = (js, t1)"
    by fastforce
  then have f2: "flow_frame (updateAgentStatus i AgentRunning None None s1) t1"
    using flow_tick [OF compileInvariants_tick] by (metis snd_conv)
  note f3 = flow_frame_trans [OF f1 flow_frame_trans [OF f2 flow_steps(5) [of t1 ?E]]]
  show ?thesis
    unfolding architectProduceIntent_def Let_def s1 case_prod_beta t1
    using f1 f3 s1 t1 by (auto simp: intro!: flow_frame_trans [OF _ flow_steps(2)] flow_frame_trans [OF _ flow_record])
qed

lemma flow_set_wf [simp]: "kernel_ext (set_wf i f s) = kernel_ext s" "workflows (set_wf i f s) = js_modify i f (workflows s)"
  by (simp_all add: set_wf_def)

lemma on_kernel_workflows [simp]: "workflows (snd (on_kernel f s)) = workflows s" "sxosInitialized (snd (on_kernel f s)) = sxosInitialized s"
  by (simp_all add: on_kernel_def case_prod_beta)

lemma on_kernel_fst: "fst (on_kernel f s) = fst (f (kern s))"
  by (simp add: on_kernel_def case_prod_beta)

text \<open>What the kernel keeps of its own is seen whatever became of the shared part.\<close>

lemma kern_intents: "intents (kern s) = intents (gov_st.extend r (kernel_ext s))"
proof -
  have "kern s = (gov_st.extend r (kernel_ext s))\<lparr>tick := tick s, csr_ledger := csr_ledger s, wal := wal s, gov_ledger := gov_ledger s,
    gov_wal := gov_wal s, gov_loaded := gov_loaded s, gov_continuity := gov_continuity s, gov_invariants := gov_invariants s,
    gov_violations := gov_violations s\<rparr>"
    by (simp add: kern_def gov_st.defs)
  then show ?thesis by simp
qed

lemma kern_same: "kernel_ext s = kernel_ext t \<Longrightarrow> intents (kern s) = intents (kern t)"
  using kern_intents [of s] kern_intents [of t] by simp

lemma kern_after: "kern (snd (on_kernel f s)) = snd (f (kern s))"
  by (cases "f (kern s)"; cases "snd (f (kern s))") (simp add: on_kernel_def kern_def gov_st.defs)

subsection \<open>A workflow never gets past its architect\<close>

definition hungry :: "session \<Rightarrow> 'a flow_st_scheme \<Rightarrow> bool" where
  "hungry sess s \<longleftrightarrow> starved (sess, kern s)"

lemma hungry_frame: "flow_frame s t \<Longrightarrow> hungry sess s \<Longrightarrow> hungry sess t"
  using kern_same [of s t] by (simp add: hungry_def starved_def flow_frame_def)

lemma session_hungry:
  assumes "start_session E wid goal s = (sess, t)" and "\<forall>n. uuid_at E n \<noteq> []"
  shows "hungry sess t" "workflows t = workflows s"
proof -
  let ?s1 = "if sxosInitialized s then s else (snd (on_kernel (\<lambda>k. ((), initializeSXOS E k)) s))\<lparr>sxosInitialized := True\<rparr>"
  have o: "on_kernel (openSession E wid goal) ?s1 = (sess, t)" using assms(1) by (simp add: start_session_def Let_def)
  then have "kern t = snd (openSession E wid goal (kern ?s1))" "sess = fst (openSession E wid goal (kern ?s1))"
    using kern_after [of "openSession E wid goal" ?s1] on_kernel_fst [of "openSession E wid goal" ?s1] by simp_all
  with openSession_starved [of E "kern ?s1" wid goal] assms(2) show "hungry sess t" by (simp add: hungry_def)
  from o show "workflows t = workflows s"
    using on_kernel_workflows(1) [of "openSession E wid goal" ?s1] by (simp split: if_splits)
qed

text \<open>A proposed intent has no evidence registered by anything the workflow does, so the kernel refuses the stage.\<close>

lemma hungry_refused:
  assumes "hungry sess s"
  shows "\<exists>sess1 s1. govern_stage H wid target role agent a True sess s = (Inl ''rejected'', sess1, s1) \<and> hungry sess1 s1 \<and> workflows s1 = workflows s"
proof -
  let ?E = "w_sys (h_world H)" and ?stage = "wf_status_name target"
  let ?f = "\<lambda>k. case governAction ?E sess agent (role_name role) a ?stage k of (r, se, k1) \<Rightarrow> ((r, se), k1)"
  obtain r sess1 k1 where g: "governAction ?E sess agent (role_name role) a ?stage (kern s) = (r, sess1, k1)"
    by (cases "governAction ?E sess agent (role_name role) a ?stage (kern s)")
  obtain x s1 where o: "on_kernel ?f s = (x, s1)" by fastforce
  have x: "x = (r, sess1)" "kern s1 = k1" "workflows s1 = workflows s"
    using on_kernel_fst [of ?f s] kern_after [of ?f s] on_kernel_workflows(1) [of ?f s] g o by simp_all
  from starved_step [of "(sess, kern s)" ?E agent "role_name role" a ?stage] assms g
  have "\<not> sr_approved r" "starved (sess1, k1)" by (simp_all add: hungry_def)
  then show ?thesis using o x by (simp add: govern_stage_def hungry_def)
qed

lemma architect_refused:
  assumes "hungry sess s" and "js_get (workflows s) wid = Some w" and "wf_agents w = []"
  shows "\<exists>sess1 s1 a rules. architect_stage H V opts wid goal sess s = (Inl ''rejected'', sess1, s1) \<and> hungry sess1 s1 \<and>
     js_get (workflows s1) wid = Some (let w1 = w\<lparr>wf_agents := [(Architect, a)]\<rparr> in if rules = None then w1 else w1\<lparr>wf_mytharRules := rules\<rparr>)"
proof -
  obtain a c rules s2 where p: "architectProduceIntent H goal None (op_mythar opts) (load_skills (sv_skills V) s) = ((a, c, rules), s2)"
    by (metis prod.collapse)
  have f: "flow_frame s s2" using flow_frame_trans [OF flow_load_skills flow_architect] p by (metis snd_conv)
  let ?g = "\<lambda>w. let w1 = with_agent Architect a w in if rules = None then w1 else w1\<lparr>wf_mytharRules := rules\<rparr>"
  have "hungry sess (set_wf wid ?g s2)"
    using hungry_frame [OF f assms(1)] kern_same [of "set_wf wid ?g s2" s2] by (simp add: hungry_def starved_def)
  from hungry_refused [OF this, of H wid ArchitectDone Architect a "\<lparr>a_type = ''plan'', a_payload = [(''goal'', JStr goal), (''constitution'', constitution_json c)]\<rparr>"]
  obtain sess1 s1 where g: "govern_stage H wid ArchitectDone Architect a \<lparr>a_type = ''plan'', a_payload = [(''goal'', JStr goal), (''constitution'', constitution_json c)]\<rparr>
      True sess (set_wf wid ?g s2) = (Inl ''rejected'', sess1, s1)" "hungry sess1 s1" "workflows s1 = workflows (set_wf wid ?g s2)" by blast
  have "js_get (workflows s1) wid = Some (?g w)" using g(3) f assms(2) by (simp add: flow_frame_def)
  then show ?thesis using g p assms(3) by (auto simp: architect_stage_def with_agent_def Let_def intro!: exI [of _ sess1] exI [of _ s1] exI [of _ a] exI [of _ rules])
qed

lemma close_rejects:
  assumes "starved (sess, k)"
  shows "\<exists>i. js_get (intents (closeSession E sess False k)) (sx_intent sess) = Some i \<and> i_status i = Rejected"
proof -
  from assms obtain i where i: "js_get (intents k) (sx_intent sess) = Some i" "i_status i = Proposed" by (auto simp: starved_def)
  then have "may_move (i_status i) Rejected" by (simp add: may_move_def)
  from transition_moved [OF i(1) this, of E] obtain c where "fst (transitionIntent E (sx_intent sess) Rejected k) = Ok"
    "js_get (intents (snd (transitionIntent E (sx_intent sess) Rejected k))) = (js_get (intents k))(sx_intent sess \<mapsto> i\<lparr>i_status := Rejected, i_completed := c\<rparr>)"
    by blast
  then show ?thesis
    by (simp add: closeSession_def stageTransition_def STAGE_STATUS_def TRANSITION_MAP_def case_prod_beta Let_def)
qed

text \<open>The action the validator is given carries no code, patch or prompt, which the validation of actions requires.\<close>

lemma val_action_refused: "fst (validateAction E (val_action wid s) t) \<noteq> VOk"
proof -
  have "\<not> has_evidence (val_action wid s)"
    by (simp add: has_evidence_def val_action_def run_action_def jget_str_def jget_def nonempty_def)
  then show ?thesis using validateAction_ok [of E "val_action wid s" t] by simp
qed

lemma amend_passed: "vr_passed (amend_report extra r) \<Longrightarrow> vr_passed r"
  by (auto simp: amend_report_def Let_def split: if_splits)

lemma govern_not_ok: "fst (govern_stage H wid target role agent a False sess s) = Inl ''rejected''"
  by (simp add: govern_stage_def Let_def case_prod_beta)

lemma validator_refused: "\<exists>e. fst (validator_stage H V opts wid u sess s) = Inl e"
proof -
  obtain m s1 where m: "mechanic_verify H V opts wid u s = (m, s1)" by fastforce
  show ?thesis
  proof (cases "or_throw m (\<lambda>mc. or_throw (slingshot_checks H opts wid s1) (\<lambda>sc. Inr (mc @ sc)))")
    case (Inl e)
    then show ?thesis by (simp add: validator_stage_def m)
  next
    case (Inr extra)
    obtain v report cert mrs s2 where v: "validatorValidate H wid ''implementor'' (val_action wid s1) (wf_field wid wf_mytharRules s1) (op_mythar opts) s1
        = ((v, report, cert, mrs), s2)" by (metis prod.collapse)
    from validation_passed [OF v, of "w_sys (h_world H)"] val_action_refused amend_passed
    have "\<not> vr_passed (amend_report extra report)" by blast
    then show ?thesis
      using Inr by (simp add: validator_stage_def m v govern_not_ok case_prod_beta Let_def)
  qed
qed

text \<open>C28. A full workflow never completes, whatever the goal, the options and what the services answer: opening the session proposes an
  intent that nothing in the workflow submits evidence for, so the kernel refuses the very first stage. The
  workflow ends failed with the architect as its only agent, no builder, no scan, no packet and no wave, and its intent is rejected.
  The fourth stage could not be passed either, in any state: the action it has validated carries nothing to validate.\<close>

theorem workflow_stops_at_architect:
  assumes "executeFullWorkflow H V opts goal s = (i, t)" and "\<forall>n. uuid_at (w_sys (h_world H)) n \<noteq> []"
  shows "\<exists>w a. getWorkflow i t = Some w \<and> wf_status w = WfFailed \<and> wf_intent w = goal \<and> wf_agents w = [(Architect, a)] \<and>
     wf_diagnosis w = None \<and> wf_packet w = None \<and> wf_skillzWave w = None \<and> wf_impact w = None \<and>
     (\<exists>k x. js_get (intents (kern t)) k = Some x \<and> i_status x = Rejected) \<and>
     (\<exists>e. fst (validator_stage H V opts j u sess (s' :: 'b flow_st_scheme)) = Inl e)"
proof -
  let ?E = "w_sys (h_world H)"
  obtain wid s1 where c: "createWorkflow ?E goal s = (wid, s1)" by fastforce
  then obtain w0 where w0: "js_get (workflows s1) wid = Some w0" "wf_agents w0 = []" "wf_intent w0 = goal"
    "wf_diagnosis w0 = None" "wf_packet w0 = None" "wf_skillzWave w0 = None" "wf_impact w0 = None"
    by (auto simp: createWorkflow_def take_uuid_def take_now_def Let_def)
  obtain sess0 s2 where o: "start_session ?E wid goal s1 = (sess0, s2)" by fastforce
  note h = session_hungry [OF o assms(2)]
  obtain sess1 s3 a rules where st: "architect_stage H V opts wid goal sess0 s2 = (Inl ''rejected'', sess1, s3)" "hungry sess1 s3"
    "js_get (workflows s3) wid = Some (let w1 = w0\<lparr>wf_agents := [(Architect, a)]\<rparr> in if rules = None then w1 else w1\<lparr>wf_mytharRules := rules\<rparr>)"
    using architect_refused [OF h(1)] h(2) w0(1,2) by metis
  let ?close = "\<lambda>k. ((), closeSession ?E sess1 False k)"
  obtain u s4 where cl: "on_kernel ?close s3 = (u, s4)" by (cases "on_kernel ?close s3")
  have s4: "workflows s4 = workflows s3" "kern s4 = closeSession ?E sess1 False (kern s3)"
    using cl on_kernel_workflows(1) [of ?close s3] kern_after [of ?close s3] by simp_all
  obtain n s5 where n: "take_now ?E s4 = (n, s5)" by fastforce
  have s5: "workflows s5 = workflows s4" "kernel_ext s5 = kernel_ext s4" using n by (auto simp: take_now_def)
  have t: "i = wid" "t = set_wf wid (\<lambda>w. w\<lparr>wf_status := WfFailed, wf_updated := n\<rparr>) s5"
    using assms(1) c o st(1) cl n by (auto simp: executeFullWorkflow_def all_stages_def and_then_def)
  have "intents (kern t) = intents (kern s4)" by (rule kern_same) (simp add: t s5)
  then have "\<exists>k x. js_get (intents (kern t)) k = Some x \<and> i_status x = Rejected"
    using close_rejects [of sess1 "kern s3" ?E] st(2) s4(2) by (auto simp: hungry_def)
  then show ?thesis using w0(3-) st(3) s4(1) s5(1) validator_refused by (auto simp: t getWorkflow_def Let_def)
qed

definition demo_services :: services where
  "demo_services = \<lparr>sv_python = demo_python,
     sv_skills = \<lparr>sf_exists = (\<lambda>_. False), sf_entries = (\<lambda>_. Inr []), sf_read = (\<lambda>_. Inl []), sf_parse = (\<lambda>_. Inl []), sf_builtin = ''/agent'',
       sf_import = (\<lambda>_ _. None)\<rparr>,
     sv_files = \<lparr>fl_read = (\<lambda>_. None), fl_write = (\<lambda>_ _. None), fl_list = (\<lambda>_. None)\<rparr>\<rparr>"

definition demo_flow :: flow_st where
  "demo_flow = skills_st.extend demo_skills \<lparr>kernel_ext = gov_st.more init_kernel, skillz_ext = sys_st.more demo_skillz, workflows = [], sxosInitialized = False\<rparr>"

definition named_host :: host where
  "named_host = demo_host\<lparr>h_world := (h_world demo_host)\<lparr>w_sys := demo_env\<lparr>uuid_at := (\<lambda>n. CHR ''u'' # show_nat n)\<rparr>\<rparr>\<rparr>"

definition demo_options :: client_options where
  "demo_options = \<lparr>op_language = ''TypeScript'', op_mythar = None, op_skillz = True, op_mechanic = True, op_slingshot = True\<rparr>"

theorem workflow_stops_witness:
  "\<exists>w. getWorkflow (fst (executeFullWorkflow named_host demo_services demo_options ''goal'' demo_flow))
       (snd (executeFullWorkflow named_host demo_services demo_options ''goal'' demo_flow)) = Some w \<and> wf_status w = WfFailed"
proof -
  have "\<forall>n. uuid_at (w_sys (h_world named_host)) n \<noteq> []" by (simp add: named_host_def)
  from workflow_stops_at_architect [OF prod.collapse [symmetric] this, of demo_services demo_options "''goal''" demo_flow] show ?thesis by blast
qed

end
