(* ===== verification/ControlTower.thy ===== *)
theory ControlTower
  imports Fabric Govern Crk2
begin

text \<open>
  The control tower (\<open>control-tower/\<close>) and the facade that joins it to the other components
  (\<open>src/integration/sovereignControlTower.ts\<close>): the registry of agents, the view of the cluster,
  drift between two agents, consensus on plans, and the governed submission of compute tasks,
  which runs through the kernel's governed action, the compute fabric and the second kernel. The
  facade's state is the state of the fabric with the second kernel's and the registry beside it.
\<close>

subsection \<open>Agents of the cluster\<close>

datatype agent_health = AG_ONLINE | AG_OFFLINE | AG_DRIFT | AG_ERROR

record reg_agent =
  rg_id :: string
  rg_status :: agent_health
  rg_kernel :: string

record tower_st = fabric_st +
  crk_part :: "unit crk_st_ext"
  tw_agents :: "(string, reg_agent) jsmap"
  sx_initialized :: bool
  tw_initialized :: bool

text \<open>The state the second kernel sees, and an operation of the second kernel run on it.\<close>

definition crk_of :: "'a tower_st_scheme \<Rightarrow> crk_st" where
  "crk_of s = sys_st.extend (sys_st.truncate s) (crk_part s)"

definition on_crk :: "(crk_st \<Rightarrow> 'r \<times> crk_st) \<Rightarrow> 'a tower_st_scheme \<Rightarrow> 'r \<times> 'a tower_st_scheme" where
  "on_crk f s = (let (r, k) = f (crk_of s) in (r, s\<lparr>tick := tick k, crk_part := sys_st.more k\<rparr>))"

lemma crk_of_on [simp]: "crk_of (snd (on_crk f s)) = snd (f (crk_of s))"
  by (cases "f (crk_of s)", cases "snd (f (crk_of s))") (simp add: on_crk_def crk_of_def sys_st.defs Let_def)

definition register_agent :: "string \<Rightarrow> string option \<Rightarrow> 'a tower_st_scheme \<Rightarrow> reg_agent \<times> 'a tower_st_scheme" where
  "register_agent i version s =
     (let a = \<lparr>rg_id = i, rg_status = AG_ONLINE, rg_kernel = (case version of None \<Rightarrow> ''CRK-2'' | Some v \<Rightarrow> v)\<rparr>
      in (a, s\<lparr>tw_agents := js_set i a (tw_agents s)\<rparr>))"

definition list_agents :: "'a tower_st_scheme \<Rightarrow> reg_agent list" where
  "list_agents s = js_values (tw_agents s)"

definition get_agent :: "string \<Rightarrow> 'a tower_st_scheme \<Rightarrow> reg_agent option" where
  "get_agent i s = js_get (tw_agents s) i"

definition updateStatus :: "string \<Rightarrow> agent_health \<Rightarrow> 'a tower_st_scheme \<Rightarrow> 'a tower_st_scheme" where
  "updateStatus i h s =
     (case get_agent i s of None \<Rightarrow> s | Some a \<Rightarrow> s\<lparr>tw_agents := js_set i (a\<lparr>rg_status := h\<rparr>) (tw_agents s)\<rparr>)"

definition getClusterState :: "sysenv \<Rightarrow> 'a tower_st_scheme \<Rightarrow> reg_agent list \<times> cluster_state" where
  "getClusterState E s = (list_agents s, clusterView E (crk_of s))"

definition ensureDefaultAgents :: "string list option \<Rightarrow> 'a tower_st_scheme \<Rightarrow> 'a tower_st_scheme" where
  "ensureDefaultAgents ids s =
     fold (\<lambda>i s. if get_agent i s = None then snd (register_agent i None s) else s)
       (case ids of None \<Rightarrow> [''agent-alpha'', ''agent-beta''] | Some is \<Rightarrow> is) s"

subsection \<open>Drift, consensus, replay\<close>

record tower_drift =
  td_agentA :: string
  td_agentB :: string
  td_ledger :: bool
  td_continuity :: bool
  td_pit :: bool

text \<open>Of the receipts and snapshots the detector reads their hashes.\<close>

definition detectDrift ::
    "string list \<Rightarrow> string list \<Rightarrow> string option \<Rightarrow> string option \<Rightarrow> jsnum option \<Rightarrow> jsnum option \<Rightarrow> tower_drift" where
  "detectDrift as bs ca cb pa pb =
     \<lparr>td_agentA = ''a'', td_agentB = ''b'',
      td_ledger = (length as \<noteq> length bs \<or> (\<exists>i\<in>set [0..<length as]. \<not> (i < length bs \<and> as ! i = bs ! i))),
      td_continuity = (ca \<noteq> cb), td_pit = (pa \<noteq> pb)\<rparr>"

text \<open>The plans are compared by their texts, and the first one is returned either way.\<close>

definition consensus :: "json list \<Rightarrow> json option" where
  "consensus plans =
     (case plans of
        [] \<Rightarrow> None
      | [p] \<Rightarrow> Some p
      | p # _ # _ \<Rightarrow> (let unique = remdups (map stringify plans) in if length unique = 1 then Some p else Some p))"

definition replayCluster :: "string list \<Rightarrow> (string, json list \<times> json list \<times> json list) jsmap \<times> json list" where
  "replayCluster ids = (fold (\<lambda>i m. js_set i ([], [], []) m) ids [], [])"

datatype drift_type = DriftLedger | DriftContinuity | DriftPit | DriftInvariant | DriftConstraint | DriftDlap

definition simulateDrift :: "string \<Rightarrow> string \<Rightarrow> drift_type \<Rightarrow> string \<times> string \<times> drift_type \<times> bool" where
  "simulateDrift a b t = (a, b, t, True)"

text \<open>Every field of the canonical agent overwrites the agent's, its identifier too; an agent has the
  fields of the registry here.\<close>

definition correctDrift :: "reg_agent list \<Rightarrow> reg_agent \<Rightarrow> reg_agent list" where
  "correctDrift cluster canonical =
     map (\<lambda>a. a\<lparr>rg_id := rg_id canonical, rg_status := rg_status canonical, rg_kernel := rg_kernel canonical\<rparr>) cluster"

subsection \<open>Start-up\<close>

definition initializeSovereignX :: "sysenv \<Rightarrow> 'a tower_st_scheme \<Rightarrow> 'a tower_st_scheme" where
  "initializeSovereignX E s = (if sx_initialized s then s else (seedKernel E s)\<lparr>sx_initialized := True\<rparr>)"

definition default_nodes :: "sysenv \<Rightarrow> 'a tower_st_scheme \<Rightarrow> 'a tower_st_scheme" where
  "default_nodes E s =
     snd (registerNode E ''Delta Compute'' [''cpu''] 4 16 None ''sovereign-x''
     (snd (registerNode E ''Gamma Compute'' [''cpu'', ''cuda'', ''rocm''] 32 128 (Some 48) ''sovereign-x''
     (snd (registerNode E ''Beta Compute'' [''cpu''] 8 32 None ''sovereign-x''
     (snd (registerNode E ''Alpha Compute'' [''cpu'', ''cuda''] 16 64 (Some 24) ''sovereign-x'' s)))))))"

definition tower_agents :: "string list" where
  "tower_agents = [''agent-alpha'', ''agent-beta'', ''agent-gamma'', ''agent-delta'']"

definition tower_initialize :: "sysenv \<Rightarrow> 'a tower_st_scheme \<Rightarrow> 'a tower_st_scheme" where
  "tower_initialize E s =
     (if tw_initialized s then s
      else
        let s1 = seedKernel E (initializeSovereignX E s);
            s2 = (if listNodes s1 = [] then default_nodes E s1 else s1)
        in (ensureDefaultAgents (Some tower_agents) s2)\<lparr>tw_initialized := True\<rparr>)"

definition tower_shutdown :: "'a tower_st_scheme \<Rightarrow> 'a tower_st_scheme" where
  "tower_shutdown s = s\<lparr>tw_initialized := False\<rparr>"

subsection \<open>The facade's operations\<close>

definition compute_action :: "string \<Rightarrow> action" where
  "compute_action wl = \<lparr>a_type = ''compute'', a_payload = [(''workloadClass'', JStr wl)]\<rparr>"

text \<open>The name of the task a submission makes, from the clock's reading.\<close>

definition task_name :: "string \<Rightarrow> time \<Rightarrow> string" where
  "task_name wl t = ''task-'' @ wl @ ''-'' @ show_int t"

lemma task_name_nonempty [simp]: "task_name wl t \<noteq> []"
  by (simp add: task_name_def)

text \<open>A submitted task: its error, or the task with an authorization of that task. The agent's
  identifier is passed as its role, and the task's as the intent's.\<close>

definition submitGovernedTask ::
    "sysenv \<Rightarrow> os_facts \<Rightarrow> string \<Rightarrow> string \<Rightarrow> json \<Rightarrow> nat \<Rightarrow> 'a tower_st_scheme \<Rightarrow>
     (string + fabric_task \<times> compute_auth option) \<times> 'a tower_st_scheme" where
  "submitGovernedTask E f agentId wl input prongCount s =
     (let s0 = tower_initialize E s
      in case get_agent agentId s0 of
        None \<Rightarrow> (Inl (''Agent '' @ agentId @ '' not registered''), s0)
      | Some agent \<Rightarrow>
          (case filter (\<lambda>n. fn_status n = NODE_ACTIVE) (listNodes s0) of
             [] \<Rightarrow> (Inl ''No active fabric nodes'', s0)
           | node # _ \<Rightarrow>
               let (t, s1) = take_now E s0; taskId = task_name wl t;
                   (g, s2) = kernelGovernAction E agentId (rg_id agent) (compute_action wl) (Some taskId) s1
               in if \<not> gr_approved g
                  then (Inl (case gr_reason g of Some r \<Rightarrow> r | None \<Rightarrow> ''Governance denied''), s2)
                  else case executeFabricTask E f taskId (fn_id node) wl input prongCount s2 of
                         (Inl e, s3) \<Rightarrow> (Inl e, s3)
                       | (Inr task, s3) \<Rightarrow> (Inr (task, getComputeAuth taskId s3), s3)))"

definition tower_validateAction ::
    "sysenv \<Rightarrow> string \<Rightarrow> action \<Rightarrow> 'a tower_st_scheme \<Rightarrow> (bool \<times> string option) \<times> 'a tower_st_scheme" where
  "tower_validateAction E agentId a s =
     (let s0 = tower_initialize E s
      in case get_agent agentId s0 of
        None \<Rightarrow> ((False, Some (''Agent '' @ agentId @ '' not registered'')), s0)
      | Some agent \<Rightarrow>
          let (g, s1) = kernelGovernAction E agentId (rg_id agent) a None s0 in ((gr_approved g, gr_reason g), s1))"

text \<open>The pipeline of the second kernel: its refusal, or the band it ends in.\<close>

definition runCRK2Pipeline :: "sysenv \<Rightarrow> action2 \<Rightarrow> 'a tower_st_scheme \<Rightarrow> string + nat" where
  "runCRK2Pipeline E a s =
     (let context = (case a2_payload a of None \<Rightarrow> [] | Some p \<Rightarrow> p);
          d = dLAP E a context (crk_of s)
      in if d \<noteq> DlapOk then Inl (''dLAP: '' @ dlap_reason d)
         else case checkAll a context of
           Some i \<Rightarrow> Inl (''Invariant: '' @ i)
         | None \<Rightarrow>
             (case constraint_check E a (clusterView E (crk_of s)) of
                Some c \<Rightarrow> Inl (''Constraint: '' @ c)
              | None \<Rightarrow>
                  let ctx = \<lparr>pc_domain = Some ''compute'', pc_evidence = Some 0\<rparr>; band = getBand ctx; next_band = apply_band band ctx
                  in if next_band < band
                     then Inl (''PIT: band regression '' @ show_nat band @ '' -> '' @ show_nat next_band)
                     else Inr next_band))"

record integrated_state =
  is_agents :: "reg_agent list"
  is_nodes :: "fabric_node list"
  is_tasks :: "fabric_task list"
  is_auths :: "compute_auth list"
  is_constitutional :: const_status
  is_receipts :: nat
  is_snapshots :: nat
  is_invariants :: nat
  is_fabric :: fabric_status

text \<open>An authorization is listed once for every task of its name.\<close>

definition getIntegratedState :: "sysenv \<Rightarrow> 'a tower_st_scheme \<Rightarrow> string + integrated_state" where
  "getIntegratedState E s =
     (if \<not> tw_initialized s then Inl ''SovereignControlTower not initialized''
      else Inr \<lparr>is_agents = fst (getClusterState E s), is_nodes = listNodes s, is_tasks = listFabricTasks s,
        is_auths = concat (map (\<lambda>t. case getComputeAuth (ft_id t) s of None \<Rightarrow> [] | Some a \<Rightarrow> [a]) (listFabricTasks s)),
        is_constitutional = getConstitutionalStatus E s, is_receipts = length (listReceipts2 (crk_of s)),
        is_snapshots = length (listSnapshots (crk_of s)), is_invariants = length SOVEREIGN_X_INVARIANTS,
        is_fabric = getFabricStatus s\<rparr>)"

definition createSnapshot :: "sysenv \<Rightarrow> string \<Rightarrow> 'a tower_st_scheme \<Rightarrow> snapshot \<times> 'a tower_st_scheme" where
  "createSnapshot E label s = on_crk (takeSnapshot E [(''label'', JStr label)] False) s"

definition replaySnapshot :: "string \<Rightarrow> 'a tower_st_scheme \<Rightarrow> (string \<times> json) list option" where
  "replaySnapshot i s = replay i (crk_of s)"

definition addReceipt2 :: "sysenv \<Rightarrow> receipt2 \<Rightarrow> 'a tower_st_scheme \<Rightarrow> receipt2 \<times> 'a tower_st_scheme" where
  "addReceipt2 E r s = on_crk (appendReceipt E r) s"

subsection \<open>What the governed action leaves alone\<close>

text \<open>The kernel's operations do not touch what a component adds to the kernel's state.\<close>

lemma more_ops [simp]:
  "kernel_st.more (log_csr E tr d p i a s) = kernel_st.more s"
  "kernel_st.more (requireInvariant iv s) = kernel_st.more s"
  "kernel_st.more (updateThreatLedger n r s) = kernel_st.more s"
  "kernel_st.more (snd (emitToLedger E au act b rn s)) = kernel_st.more s"
  "kernel_st.more (snd (createBudget E ag ii cl s)) = kernel_st.more s"
  "kernel_st.more (snd (consumeResource E k un am t s)) = kernel_st.more s"
  "kernel_st.more (snd (transitionIntent E iid new s)) = kernel_st.more s"
  using emitToLedger_effect [of E au act b rn s]
  by (auto simp: log_csr_update appendToLedger_def ensureLoaded_def requireInvariant_def updateThreatLedger_def createBudget_def
      consumeResource_def transitionIntent_def take_uuid_def take_now_def Let_def split: option.split)

lemma more_validate [simp]: "kernel_st.more (snd (validateAction E a s)) = kernel_st.more s"
  using validateAction_effect [of s E a] by auto

lemma more_refuse [simp]: "kernel_st.more (snd (refuse E ag a rn tr d p iid rp s)) = kernel_st.more s"
  by (simp add: refuse_def case_prod_beta)

lemma more_approve [simp]: "kernel_st.more (snd (validate_and_approve E ag role a iid rp s)) = kernel_st.more s"
  by (cases "fst (validateAction E a s)") (simp_all add: validate_and_approve_def case_prod_beta)

lemma more_ilc [simp]: "kernel_st.more (snd (enforceILC E iid s)) = kernel_st.more s"
  by (simp add: enforceILC_def split: option.split)

lemma more_advance [simp]: "kernel_st.more (advance_intent E iid a s) = kernel_st.more s"
  by (simp add: advance_intent_def Let_def)

lemma more_pay [simp]: "kernel_st.more (snd (pay_call E ag iid a s)) = kernel_st.more s"
  by (simp add: pay_call_def case_prod_beta split: option.split)

lemma more_gate [simp]: "kernel_st.more (snd (intent_gate E ag role a iid rp i s)) = kernel_st.more s"
proof -
  define s2 where "s2 = (if executable_status (i_status i) then s else advance_intent E (the iid) a s)"
  have "kernel_st.more s2 = kernel_st.more s" by (simp add: s2_def)
  then show ?thesis
    unfolding intent_gate_def s2_def [symmetric]
    by (auto simp: Let_def case_prod_beta split: prod.split consume_result.split dest: arg_cong [of _ _ "\<lambda>x. kernel_st.more (snd x)"])
qed

lemma more_fold [simp]: "kernel_st.more (fold requireInvariant ivs s) = kernel_st.more s"
  by (induction ivs arbitrary: s) simp_all

lemma more_seed [simp]: "kernel_st.more (seedKernel E s) = kernel_st.more s"
  by (simp add: seedKernel_def Let_def)

lemma more_govern [simp]: "kernel_st.more (snd (kernelGovernAction E ag role a iid s)) = kernel_st.more s"
proof -
  obtain r where ap: "snd (apidMiddleware E ag a (ready E s)) = updateThreatLedger ag r ((ready E s)\<lparr>tick := tick (ready E s) + 2\<rparr>)"
    using apidMiddleware_effect [of E ag a "ready E s"] by auto
  have "kernel_st.more (snd (apidMiddleware E ag a (ready E s))) = kernel_st.more s" by (simp add: ap) (simp add: ready_def)
  then show ?thesis
    unfolding kernelGovernAction_def ready_def [symmetric] by (simp add: Let_def case_prod_beta split: option.split)
qed

lemma fabric_more:
  "kernel_st.more s = kernel_st.more t \<Longrightarrow> fb_nodes s = fb_nodes t \<and> fb_tasks s = fb_tasks t \<and> fb_prongs s = fb_prongs t"
  by (cases s, cases t) simp

lemma tower_more:
  "kernel_st.more s = kernel_st.more t \<Longrightarrow> crk_part s = crk_part t \<and> tw_agents s = tw_agents t \<and>
     sx_initialized s = sx_initialized t \<and> tw_initialized s = tw_initialized t"
  by (cases s, cases t) simp

subsection \<open>Submission\<close>

text \<open>Every agent is registered under its own identifier.\<close>

definition registry_ok :: "'a tower_st_scheme \<Rightarrow> bool" where
  "registry_ok s \<longleftrightarrow> (\<forall>i a. get_agent i s = Some a \<longrightarrow> rg_id a = i)"

lemma govern_keeps_fabric:
  assumes "kernelGovernAction E ag role a iid s = (g, t)"
  shows "fb_nodes t = fb_nodes s" "fb_tasks t = fb_tasks s" "fb_prongs t = fb_prongs s"
proof -
  have "kernel_st.more t = kernel_st.more s" using more_govern [of E ag role a iid s] assms by simp
  from fabric_more [OF this] show "fb_nodes t = fb_nodes s" "fb_tasks t = fb_tasks s" "fb_prongs t = fb_prongs s" by blast+
qed

lemma find_append_fresh: "(\<exists>x\<in>set xs. P x) \<or> P y \<Longrightarrow> List.find P (xs @ [y]) \<noteq> None"
  by (auto simp: find_None_iff)

text \<open>Every node is listed under its own identifier, once.\<close>

definition nodes_ok :: "'a fabric_st_scheme \<Rightarrow> bool" where
  "nodes_ok s \<longleftrightarrow> (\<forall>i n. js_get (fb_nodes s) i = Some n \<longrightarrow> fn_id n = i) \<and> distinct (map fst (fb_nodes s))"

lemma active_node:
  assumes "filter (\<lambda>n. fn_status n = NODE_ACTIVE) (listNodes s) = nd # ns" and "nodes_ok s"
  shows "js_get (fb_nodes s) (fn_id nd) = Some nd \<and> fn_status nd = NODE_ACTIVE"
proof -
  from assms(1) have "nd \<in> set (filter (\<lambda>n. fn_status n = NODE_ACTIVE) (listNodes s))" by simp
  then have n: "nd \<in> set (listNodes s)" "fn_status nd = NODE_ACTIVE" by simp_all
  from n(1) obtain i where "(i, nd) \<in> set (fb_nodes s)" by (auto simp: listNodes_def js_values_def)
  with assms(2) have "js_get (fb_nodes s) i = Some nd" by (simp add: nodes_ok_def)
  with assms(2) n(2) show ?thesis by (auto simp: nodes_ok_def)
qed

lemma submit_effect:
  assumes s0: "s0 = tower_initialize E s" and ok: "registry_ok s0" "nodes_ok s0"
    and s1: "s1 = snd (take_now E s0)" and tid: "tid = task_name wl (now_at E (tick s0))"
    and sub: "submitGovernedTask E f ag wl inp k s = (r, s')"
  shows "(\<exists>x. r = Inr x) \<longleftrightarrow>
       get_agent ag s0 \<noteq> None \<and> (\<exists>n\<in>set (listNodes s0). fn_status n = NODE_ACTIVE) \<and> clean (compute_action wl) \<and>
       in_boundary ag (compute_action wl) (ready E s1) \<and> may_execute tid (ready E s1) \<and> has_call ag (ready E s1) \<and>
       validates (compute_action wl) (ready E s1)" (is "_ \<longleftrightarrow> ?go")
    and "r = Inl e \<Longrightarrow> fb_tasks s' = fb_tasks s0 \<and> fb_prongs s' = fb_prongs s0"
    and "r = Inr (task, au) \<Longrightarrow> fb_tasks s' = fb_tasks s0 @ [task] \<and> ft_id task = tid \<and> ft_status task = TASK_RUNNING \<and>
       ft_prongs task = k \<and> (\<exists>a. au = Some a \<and> ca_task a = tid)"
proof -
  have "((\<exists>x. r = Inr x) \<longleftrightarrow> ?go) \<and> (\<forall>e. r = Inl e \<longrightarrow> fb_tasks s' = fb_tasks s0 \<and> fb_prongs s' = fb_prongs s0) \<and>
    (\<forall>task au. r = Inr (task, au) \<longrightarrow> fb_tasks s' = fb_tasks s0 @ [task] \<and> ft_id task = tid \<and> ft_status task = TASK_RUNNING \<and>
       ft_prongs task = k \<and> (\<exists>a. au = Some a \<and> ca_task a = tid))"
  proof (cases "\<exists>a nd ns. get_agent ag s0 = Some a \<and> filter (\<lambda>n. fn_status n = NODE_ACTIVE) (listNodes s0) = nd # ns")
    case False
    then have no: "get_agent ag s0 = None \<or> filter (\<lambda>n. fn_status n = NODE_ACTIVE) (listNodes s0) = []"
      by (cases "filter (\<lambda>n. fn_status n = NODE_ACTIVE) (listNodes s0)") auto
    then have "\<not> ?go" by (auto simp: filter_empty_conv)
    moreover have "\<exists>e. r = Inl e \<and> s' = s0" using sub no
      by (auto simp: submitGovernedTask_def s0 [symmetric] Let_def split: option.splits list.splits)
    ultimately show ?thesis by auto
  next
    case True
    then obtain a nd ns where a: "get_agent ag s0 = Some a" and nd: "filter (\<lambda>n. fn_status n = NODE_ACTIVE) (listNodes s0) = nd # ns" by blast
    have ra: "rg_id a = ag" using ok(1) a by (simp add: registry_ok_def)
    have tk: "take_now E s0 = (now_at E (tick s0), s1)" by (simp add: s1 take_now_def)
    obtain g s2 where g: "kernelGovernAction E ag ag (compute_action wl) (Some tid) s1 = (g, s2)" by fastforce
    have ap: "gr_approved g \<longleftrightarrow> clean (compute_action wl) \<and> in_boundary ag (compute_action wl) (ready E s1) \<and>
        may_execute tid (ready E s1) \<and> has_call ag (ready E s1) \<and> validates (compute_action wl) (ready E s1)"
      using govern_effect(1) [OF g] by (simp add: tid nonempty_def)
    have fb: "fb_nodes s2 = fb_nodes s0" "fb_tasks s2 = fb_tasks s0" "fb_prongs s2 = fb_prongs s0"
      using govern_keeps_fabric [OF g] by (simp_all add: s1 take_now_def)
    from active_node [OF nd ok(2)] have n: "js_get (fb_nodes s2) (fn_id nd) = Some nd" "fn_status nd \<noteq> NODE_SUSPENDED" by (simp_all add: fb)
    from execute_effect [OF n, of E f tid wl inp k] obtain au task s3 where
      x: "executeFabricTask E f tid (fn_id nd) wl inp k s2 = (Inr task, s3)" "ca_task au = tid" "compute_auths s3 = compute_auths s2 @ [au]"
        "ft_id task = tid" "ft_prongs task = k" "ft_status task = TASK_RUNNING" "fb_tasks s3 = fb_tasks s2 @ [task]" by blast
    have "List.find (\<lambda>a. ca_task a = tid) (compute_auths s3) \<noteq> None" using x(2,3) by (simp add: find_None_iff)
    then obtain c where c: "getComputeAuth tid s3 = Some c" "ca_task c = tid"
      by (auto simp: getComputeAuth_def dest: find_SomeD)
    have "?go \<longleftrightarrow> gr_approved g" using a nd ap
      by (auto simp: filter_eq_Cons_iff dest: arg_cong [of _ _ set] simp del: in_set_conv_decomp)
    moreover have "r = (if gr_approved g then Inr (task, Some c) else Inl (case gr_reason g of Some r \<Rightarrow> r | None \<Rightarrow> ''Governance denied'')) \<and>
        s' = (if gr_approved g then s3 else s2)"
      using sub by (simp add: submitGovernedTask_def s0 [symmetric] a nd ra tk tid [symmetric] g x(1) c(1) Let_def split: if_splits)
    ultimately show ?thesis using x c fb by auto
  qed
  then show "(\<exists>x. r = Inr x) \<longleftrightarrow> ?go"
    and "r = Inl e \<Longrightarrow> fb_tasks s' = fb_tasks s0 \<and> fb_prongs s' = fb_prongs s0"
    and "r = Inr (task, au) \<Longrightarrow> fb_tasks s' = fb_tasks s0 @ [task] \<and> ft_id task = tid \<and> ft_status task = TASK_RUNNING \<and>
       ft_prongs task = k \<and> (\<exists>a. au = Some a \<and> ca_task a = tid)"
    by blast+
qed

subsection \<open>Runs\<close>

datatype tower_event =
    FabricOp fabric_event
  | KernelOp any_event
  | RegisterAgent string "string option"
  | SetHealth string agent_health
  | Initialize
  | Shutdown
  | Submit os_facts string string json nat
  | ValidateAction string action
  | TakeSnapshot string
  | AddReceipt receipt2

primrec tower_step :: "sysenv \<Rightarrow> tower_event \<Rightarrow> 'a tower_st_scheme \<Rightarrow> 'a tower_st_scheme" where
  "tower_step E (FabricOp e) s = fabric_step E e s"
| "tower_step E (KernelOp e) s = any_step E e s"
| "tower_step E (RegisterAgent i v) s = snd (register_agent i v s)"
| "tower_step E (SetHealth i h) s = updateStatus i h s"
| "tower_step E Initialize s = tower_initialize E s"
| "tower_step E Shutdown s = tower_shutdown s"
| "tower_step E (Submit f ag wl j k) s = snd (submitGovernedTask E f ag wl j k s)"
| "tower_step E (ValidateAction ag a) s = snd (tower_validateAction E ag a s)"
| "tower_step E (TakeSnapshot l) s = snd (createSnapshot E l s)"
| "tower_step E (AddReceipt r) s = snd (addReceipt2 E r s)"

lemma more_record [simp]: "kernel_st.more (snd (recordReceipt E a ch op s)) = kernel_st.more s"
  using recordReceipt_effect [of E a ch op s] by (auto simp: appendToLedger_def ensureLoaded_def Let_def)

lemma more_authorize [simp]: "kernel_st.more (snd (authorizeCompute E f t n w s)) = kernel_st.more s"
  by (simp add: authorizeCompute_def routeCompute_def take_uuid_def take_now_def Let_def case_prod_beta)

lemma more_any [simp]: "kernel_st.more (any_step E e s) = kernel_st.more s"
proof (cases e)
  case (Governed k)
  then show ?thesis
    by (cases k) (simp_all add: createIntent_def submitEvidence_def verifyEvidence_def registerBoundary_def arbitrate_def
      resolveArbitration_def take_uuid_def take_now_def Let_def split: option.split)
qed simp

text \<open>Nor does the fabric touch what the tower adds to its state.\<close>

lemma part_log [simp]: "fabric_st.more (log_csr E tr d p i a s) = fabric_st.more s"
  by (simp add: log_csr_update)

lemma part_kernel: "kernel_st.more s = kernel_st.more t \<Longrightarrow> fabric_st.more s = fabric_st.more t"
  by (cases s, cases t) simp

lemma part_execute [simp]: "fabric_st.more (snd (executeFabricTask E f t n w i k s)) = fabric_st.more s"
proof -
  have "fabric_st.more (snd (authorizeCompute E f t n w s)) = fabric_st.more s" by (rule part_kernel) simp
  then show ?thesis by (simp add: executeFabricTask_def take_now_def Let_def case_prod_beta split: option.split)
qed

lemma part_fabric [simp]: "fabric_st.more (fabric_step E e s) = fabric_st.more s"
  by (cases e) (simp_all add: registerNode_def updateNodeHeartbeat_def suspendNode_def completeProng_def failProng_def
    completeFabricTask_def failFabricTask_def revertFabricTask_def resetFabric_def change_task_def take_uuid_def take_now_def Let_def
    split: option.split)

lemma agents_part: "fabric_st.more s = fabric_st.more t \<Longrightarrow> tw_agents s = tw_agents t"
  by (cases s, cases t) simp

definition tower_ok :: "'a tower_st_scheme \<Rightarrow> bool" where
  "tower_ok s \<longleftrightarrow> registry_ok s \<and> nodes_ok s"

lemma tower_ok_frame: "kernel_st.more t = kernel_st.more s \<Longrightarrow> tower_ok s \<Longrightarrow> tower_ok t"
  using fabric_more [of t s] tower_more [of t s] by (simp add: tower_ok_def registry_ok_def nodes_ok_def get_agent_def)

lemma nodes_ok_set: "nodes_ok s \<Longrightarrow> fn_id n = i \<Longrightarrow> nodes_ok (s\<lparr>tick := k, fb_nodes := js_set i n (fb_nodes s)\<rparr>)"
  by (simp add: nodes_ok_def)

lemma nodes_okD: "nodes_ok s \<Longrightarrow> js_get (fb_nodes s) i = Some n \<Longrightarrow> fn_id n = i"
  by (simp add: nodes_ok_def)

lemma tower_ok_fabric: "tower_ok s \<Longrightarrow> tower_ok (fabric_step E e s)"
proof -
  assume ok: "tower_ok s"
  have n: "nodes_ok s" using ok by (simp add: tower_ok_def)
  have "nodes_ok (fabric_step E e s)"
  proof (cases e)
    case (ExecuteTask f t nn w i k)
    have "fb_nodes (snd (executeFabricTask E f t nn w i k s)) = fb_nodes s"
      using authorize_effect [of E f t nn w s] by (auto simp: executeFabricTask_def take_now_def Let_def split: option.split)
    then show ?thesis using n ExecuteTask by (simp add: nodes_ok_def)
  next
    case (Heartbeat x)
    then show ?thesis using n nodes_okD [OF n, of x]
      by (cases "js_get (fb_nodes s) x") (simp_all add: updateNodeHeartbeat_def take_now_def Let_def nodes_ok_set)
  next
    case (Suspend x)
    then show ?thesis using n nodes_okD [OF n, of x]
      by (cases "js_get (fb_nodes s) x") (simp_all add: suspendNode_def log_csr_update nodes_ok_def)
  qed (use n in \<open>auto simp: registerNode_def updateNodeHeartbeat_def suspendNode_def completeProng_def failProng_def
    completeFabricTask_def failFabricTask_def revertFabricTask_def resetFabric_def change_task_def take_uuid_def take_now_def Let_def nodes_ok_def
    split: option.split\<close>)
  moreover have "registry_ok (fabric_step E e s)"
    using ok agents_part [OF part_fabric, of E e s] by (simp add: tower_ok_def registry_ok_def get_agent_def)
  ultimately show ?thesis by (simp add: tower_ok_def)
qed

lemma tower_ok_register: "tower_ok s \<Longrightarrow> tower_ok (snd (register_agent i v s))"
  by (simp add: tower_ok_def registry_ok_def nodes_ok_def register_agent_def get_agent_def Let_def)

lemma tower_ok_defaults: "tower_ok s \<Longrightarrow> tower_ok (ensureDefaultAgents ids s)"
proof -
  have "tower_ok (fold (\<lambda>i s. if get_agent i s = None then snd (register_agent i None s) else s) is s)" if "tower_ok s"
    for "is" and s :: "'a tower_st_scheme"
    using that by (induction "is" arbitrary: s) (simp_all add: tower_ok_register)
  then show "tower_ok s \<Longrightarrow> ?thesis" by (simp add: ensureDefaultAgents_def)
qed

lemma tower_ok_flags [simp]:
  "tower_ok (s\<lparr>sx_initialized := b\<rparr>) = tower_ok s" "tower_ok (s\<lparr>tw_initialized := b\<rparr>) = tower_ok s"
  "tower_ok (s\<lparr>tick := n, crk_part := c\<rparr>) = tower_ok s" "tower_ok (s\<lparr>tick := n\<rparr>) = tower_ok s"
  by (simp_all add: tower_ok_def registry_ok_def nodes_ok_def get_agent_def)

lemma tower_ok_seed: "tower_ok s \<Longrightarrow> tower_ok (seedKernel E s)"
  by (erule tower_ok_frame [rotated]) simp

lemma tower_ok_node: "tower_ok s \<Longrightarrow> tower_ok (snd (registerNode E n cs c m g a s))"
  using tower_ok_fabric [where e = "Register n cs c m g a"] by simp

lemma tower_ok_initialize: "tower_ok s \<Longrightarrow> tower_ok (tower_initialize E s)"
  by (simp add: tower_initialize_def initializeSovereignX_def default_nodes_def Let_def tower_ok_seed tower_ok_defaults tower_ok_node)

lemma tower_ok_govern: "tower_ok s \<Longrightarrow> tower_ok (snd (kernelGovernAction E ag role a iid s))"
  by (erule tower_ok_frame [rotated]) simp

lemma tower_ok_submit: "tower_ok s \<Longrightarrow> tower_ok (snd (submitGovernedTask E f ag wl j k s))"
proof -
  assume ok: "tower_ok s"
  have x: "tower_ok (snd (executeFabricTask E f t n w i k' u))" if "tower_ok u" for t n w i k' and u :: "'a tower_st_scheme"
    using tower_ok_fabric [OF that, of E "ExecuteTask f t n w i k'"] by simp
  have g: "tower_ok (snd (kernelGovernAction E a r c i (snd (take_now E (tower_initialize E s)))))" for a r c i
    using ok by (simp add: tower_ok_govern tower_ok_initialize take_now_def)
  show ?thesis using ok g x [OF g]
    by (auto simp: submitGovernedTask_def Let_def case_prod_beta tower_ok_initialize split: option.split list.split sum.split)
qed

lemma tower_step_ok: "tower_ok s \<Longrightarrow> tower_ok (tower_step E e s)"
proof (cases e)
  case (KernelOp k)
  then show "tower_ok s \<Longrightarrow> ?thesis" using tower_ok_frame [OF more_any] by simp
next
  case (SetHealth i h)
  then show "tower_ok s \<Longrightarrow> ?thesis"
    by (auto simp: tower_ok_def registry_ok_def nodes_ok_def updateStatus_def get_agent_def split: option.split)
qed (simp_all add: tower_ok_fabric tower_ok_register tower_ok_initialize tower_shutdown_def tower_ok_submit tower_validateAction_def
    tower_ok_govern createSnapshot_def addReceipt2_def on_crk_def case_prod_beta Let_def split: option.split)

interpretation tower: machine "tower_step E" tower_ok
  by unfold_locales (rule tower_step_ok)

definition init_tower :: tower_st where
  "init_tower = fabric_st.extend init_fabric \<lparr>crk_part = \<lparr>ck_receipts = [], ck_snapshots = [], ck_amendments = [], ck_frozen = False,
     ck_version = ''CRK-2.0.0''\<rparr>, tw_agents = [], sx_initialized = False, tw_initialized = False\<rparr>"

lemma init_tower_ok: "tower_ok init_tower"
  by (simp add: tower_ok_def registry_ok_def nodes_ok_def get_agent_def init_tower_def fabric_st.defs init_fabric_def kernel_st.defs)

subsection \<open>Properties\<close>

lemma ledger_mismatch: "td_ledger (detectDrift as bs ca cb pa pb) \<longleftrightarrow> as \<noteq> bs"
  unfolding list_eq_iff_nth_eq [of as bs] by (auto simp: detectDrift_def)

lemma consensus_takes_first: "consensus ps = (if ps = [] then None else Some (hd ps))"
  by (auto simp: consensus_def Let_def split: list.split)

lemma corrected_agents_are_copies: "list_all (\<lambda>a. a = c) (correctDrift cluster c)"
  by (simp add: correctDrift_def list_all_iff)

text \<open>C31. The submission of a task through the control tower, after any run of the tower: it is accepted
  exactly when the agent is registered, some node is active, and the governed action passes with the
  agent's identifier as its role and the name of the new task as its intent: so a governance
  boundary must be registered under the agent's identifier and an executable intent under the
  task's name, though the name is made of the clock's reading and identifiers of intents are made
  by the kernel. A refusal adds no task and no prong; an accepted task is the last one listed, runs
  with the prongs asked for, and comes with an authorization of a task of its name.\<close>

theorem task_submission_decision:
  assumes "s0 = tower_initialize E (fold (tower_step E) es init_tower)" and "s1 = snd (take_now E s0)"
    and "tid = task_name wl (now_at E (tick s0))"
    and "submitGovernedTask E f ag wl inp k (fold (tower_step E) es init_tower) = (r, s')"
  shows "((\<exists>x. r = Inr x) \<longleftrightarrow>
       get_agent ag s0 \<noteq> None \<and> (\<exists>n\<in>set (listNodes s0). fn_status n = NODE_ACTIVE) \<and> clean (compute_action wl) \<and>
       in_boundary ag (compute_action wl) (ready E s1) \<and> may_execute tid (ready E s1) \<and> has_call ag (ready E s1) \<and>
       validates (compute_action wl) (ready E s1)) \<and>
     (case r of Inl e \<Rightarrow> fb_tasks s' = fb_tasks s0 \<and> fb_prongs s' = fb_prongs s0
      | Inr (task, au) \<Rightarrow> fb_tasks s' = fb_tasks s0 @ [task] \<and> ft_id task = tid \<and> ft_status task = TASK_RUNNING \<and>
          ft_prongs task = k \<and> (\<exists>a. au = Some a \<and> ca_task a = tid))"
proof -
  have "tower_ok s0" using tower_ok_initialize [OF tower.run_inv [OF init_tower_ok]] by (simp add: assms(1))
  then have ok: "registry_ok s0" "nodes_ok s0" by (simp_all add: tower_ok_def)
  note e = submit_effect [OF assms(1) ok assms(2,3,4)]
  from e show ?thesis by (auto split: sum.split)
qed

lemma seed_nodes [simp]: "fb_nodes (seedKernel E s) = fb_nodes s"
  using fabric_more [OF more_seed] by blast

lemma register_node_nodes:
  "\<exists>n. fn_status n = NODE_IDLE \<and> fb_nodes (snd (registerNode E nm cs c m g a s)) = js_set (fn_id n) n (fb_nodes s)"
  by (intro exI [of _ "fst (registerNode E nm cs c m g a s)"]) (simp add: registerNode_def take_uuid_def take_now_def Let_def)

definition all_idle :: "'a fabric_st_scheme \<Rightarrow> bool" where
  "all_idle s \<longleftrightarrow> (\<forall>p\<in>set (fb_nodes s). fn_status (snd p) = NODE_IDLE)"

lemma idle_set: "\<forall>p\<in>set m. fn_status (snd p) = NODE_IDLE \<Longrightarrow> fn_status n = NODE_IDLE \<Longrightarrow> \<forall>p\<in>set (js_set i n m). fn_status (snd p) = NODE_IDLE"
  by (induction m) auto

lemma register_idle: "all_idle s \<Longrightarrow> all_idle (snd (registerNode E nm cs c m g a s))"
proof -
  assume idle: "all_idle s"
  from register_node_nodes [of E nm cs c m g a s] obtain n where
    "fn_status n = NODE_IDLE" "fb_nodes (snd (registerNode E nm cs c m g a s)) = js_set (fn_id n) n (fb_nodes s)" by blast
  with idle idle_set [of "fb_nodes s" n "fn_id n"] show ?thesis by (simp add: all_idle_def)
qed

lemma default_nodes_idle: "all_idle s \<Longrightarrow> all_idle (default_nodes E s)"
  by (simp add: default_nodes_def register_idle)

lemma defaults_nodes [simp]: "fb_nodes (ensureDefaultAgents ids s) = fb_nodes s"
proof -
  have "fb_nodes (fold (\<lambda>i s. if get_agent i s = None then snd (register_agent i None s) else s) is t) = fb_nodes t"
    for "is" and t :: "'a tower_st_scheme"
    by (induction "is" arbitrary: t) (simp_all add: register_agent_def Let_def)
  then show ?thesis by (simp add: ensureDefaultAgents_def)
qed

theorem task_submission_witness:
  "\<exists>e. fst (submitGovernedTask demo_env demo_facts ''agent-alpha'' ''inference'' JNull 1 init_tower) = Inl e"
proof -
  have "fb_nodes init_tower = []" by (simp add: init_tower_def fabric_st.defs)
  then have "all_idle (tower_initialize demo_env init_tower)"
    using default_nodes_idle [of "seedKernel demo_env (initializeSovereignX demo_env init_tower)" demo_env]
    by (simp add: tower_initialize_def initializeSovereignX_def all_idle_def Let_def)
  then have "\<not> (\<exists>n\<in>set (listNodes (tower_initialize demo_env init_tower)). fn_status n = NODE_ACTIVE)"
    by (auto simp: listNodes_def js_values_def all_idle_def)
  with task_submission_decision [where es = "[]" and E = demo_env, OF refl refl refl surjective_pairing, of demo_facts "''agent-alpha''" "''inference''" JNull 1]
  show ?thesis by (cases "fst (submitGovernedTask demo_env demo_facts ''agent-alpha'' ''inference'' JNull 1 init_tower)") auto
qed

text \<open>The pipeline of the second kernel in the control tower answers what the gate alone answers: the
  invariants, the constraints and the evidence band it checks after the gate never refuse, and
  an accepted action ends in band 3.\<close>

theorem pipeline_is_the_gate:
  "runCRK2Pipeline E a s = (case dLAP E a (case a2_payload a of None \<Rightarrow> [] | Some p \<Rightarrow> p) (crk_of s) of
     DlapOk \<Rightarrow> Inr 3 | d \<Rightarrow> Inl (''dLAP: '' @ dlap_reason d))"
  by (auto simp: runCRK2Pipeline_def dLAP_def checkClusterInvariants_def getBand_def apply_band_def Let_def
      split: option.splits dlap_result.split if_splits)

end
