(* ===== verification/Spine.thy ===== *)
theory Spine
  imports ControlTower ModelRouter
begin

text \<open>
  The server's spine (\<open>backend/nova-spine.ts\<close>, \<open>backend/nova-adapter.ts\<close>, \<open>backend/events-gateway.ts\<close>):
  its start-up, the hook that mirrors the agent's receipts in the ledger of the second kernel and on
  the event stream, the ingestion of receipts that another process observed
  (\<open>agent/governance/observe.ts\<close>, the route of \<open>backend/server.ts\<close>) and its authorization
  (\<open>agentic-coding-agent/backend/ingest-auth.ts\<close>). The event stream is the list of the events
  emitted; subscribers are outside. The fields of an ingested receipt have their declared types,
  and a missing identifier or hash is the empty text; so the fallbacks of the mirror for other values are left out.
\<close>

type_synonym gateway_msg = "string \<times> (string \<times> json) list"

record spine_st = tower_st +
  spine_booted :: bool
  gateway :: "gateway_msg list"

definition gateway_emit :: "string \<Rightarrow> (string \<times> json) list \<Rightarrow> 'a spine_st_scheme \<Rightarrow> 'a spine_st_scheme" where
  "gateway_emit ty payload s = s\<lparr>gateway := gateway s @ [(ty, payload)]\<rparr>"

subsection \<open>Mirrored receipts\<close>

definition mirror_receipt :: "receipt \<Rightarrow> receipt2" where
  "mirror_receipt r = \<lparr>r2_id = g_id r, r2_action = a_type (g_action r), r2_checked = g_checked r, r2_continuity = g_continuity r,
     r2_annotations = None, r2_prev = [], r2_hash = []\<rparr>"

definition receipt_event :: "receipt \<Rightarrow> (string \<times> json) list" where
  "receipt_event r =
     [(''id'', JStr (g_id r)), (''timestamp'', JStr (iso_string (g_time r))), (''action'', action_json (g_action r)),
      (''invariantsChecked'', jstrs (g_checked r)), (''continuityHash'', JStr (g_continuity r)), (''ledgerHash'', JStr (g_ledgerHash r))] @
     opt_field ''blocked'' (map_option JBool (g_blocked r)) @ opt_field ''blockReason'' (map_option JStr (g_reason r)) @
     opt_field ''assuranceLevel'' (map_option JStr (g_level r)) @ [(''authority'', JStr (g_auth r))] @ opt_field ''crk1'' (g_crk1 r)"

definition syncReceiptToObservability :: "sysenv \<Rightarrow> receipt \<Rightarrow> 'a spine_st_scheme \<Rightarrow> 'a spine_st_scheme" where
  "syncReceiptToObservability E r s = gateway_emit ''receipt'' (receipt_event r) (snd (addReceipt2 E (mirror_receipt r) s))"

definition ingestObservedReceipt :: "sysenv \<Rightarrow> receipt \<Rightarrow> 'a spine_st_scheme \<Rightarrow> 'a spine_st_scheme" where
  "ingestObservedReceipt E r s = syncReceiptToObservability E r s"

text \<open>Recording a receipt in a process with the hook. The kernel's own receipts do not call the hooks.\<close>

definition record_hooked ::
    "sysenv \<Rightarrow> action \<Rightarrow> string list \<Rightarrow> receipt_opts \<Rightarrow> 'a spine_st_scheme \<Rightarrow> receipt \<times> 'a spine_st_scheme" where
  "record_hooked E a checked opts s =
     (let (r, s1) = recordReceipt E a checked opts s in (r, if spine_booted s1 then syncReceiptToObservability E r s1 else s1))"

subsection \<open>Start-up and snapshot\<close>

definition node_capabilities :: "hardware_profile \<Rightarrow> string list" where
  "node_capabilities hw = ''cpu'' # (if hw_hasCUDA hw then [''cuda''] else []) @ (if hw_hasROCm hw then [''rocm''] else []) @
     (if hw_hasMetal hw then [''metal''] else [])"

definition bootNovaSpine :: "sysenv \<Rightarrow> os_facts \<Rightarrow> 'a spine_st_scheme \<Rightarrow> 'a spine_st_scheme" where
  "bootNovaSpine E f s =
     (if spine_booted s then s
      else
        let s1 = ensureDefaultAgents (Some [''agent-alpha'', ''agent-beta'', ''agent-gamma'']) (initializeSovereignX E (s\<lparr>spine_booted := True\<rparr>));
            hw = probeHardware f;
            s2 = (if listNodes s1 = []
                  then snd (registerNode E ''local-primary'' (node_capabilities hw) (of_nat (hw_cpuCores hw)) (hw_totalMemoryGB hw)
                         (hw_gpuMemoryGB hw) ''sovereign-x'' s1)
                  else s1);
            (t, s3) = take_now E s2
        in gateway_emit ''heartbeat'' [(''ts'', JNum (of_int t)), (''spine'', JStr ''nova''),
             (''cluster'', jnat (length (fst (getClusterState E s3)))), (''fabricNodes'', jnat (length (listNodes s3)))] s3)"

record fabric_snapshot =
  sp_status :: fabric_status
  sp_nodes :: "fabric_node list"
  sp_tasks :: "fabric_task list"
  sp_prongs :: "prong list"
  sp_hardware :: hardware_profile
  sp_route :: compute_route
  sp_approved :: bool
  sp_time :: time
  sp_agents :: "reg_agent list"

definition getFabricSnapshot :: "sysenv \<Rightarrow> os_facts \<Rightarrow> 'a spine_st_scheme \<Rightarrow> fabric_snapshot \<times> 'a spine_st_scheme" where
  "getFabricSnapshot E f s =
     (let hw = probeHardware f; wl = classifyWorkload ''inference'' 7; (d, s1) = routeCompute E hw wl False s; (t, s2) = take_now E s1
      in (\<lparr>sp_status = getFabricStatus s2, sp_nodes = listNodes s2, sp_tasks = listFabricTasks s2, sp_prongs = listProngs None s2,
           sp_hardware = hw, sp_route = rd_route d, sp_approved = rd_governorApproved d, sp_time = t,
           sp_agents = fst (getClusterState E s2)\<rparr>, s2))"

text \<open>The gate of the second kernel, announced when it refuses; the detail is the answer of the
  failed check.\<close>

definition dlap_detail :: "dlap_result \<Rightarrow> json option" where
  "dlap_detail d = (case d of LocalInvariant i \<Rightarrow> Some (JObj [(''ok'', JBool False), (''invariantId'', JStr i)])
     | ConstraintBroken c \<Rightarrow> Some (JObj [(''ok'', JBool False), (''constraintId'', JStr c)])
     | ClusterInvariant \<Rightarrow> Some (JObj [(''ok'', JBool False)]) | DlapOk \<Rightarrow> None)"

definition evaluateNovaAction ::
    "sysenv \<Rightarrow> action2 \<Rightarrow> (string \<times> json) list \<Rightarrow> 'a spine_st_scheme \<Rightarrow> (bool \<times> dlap_result) \<times> 'a spine_st_scheme" where
  "evaluateNovaAction E a context s =
     (let d = dLAP E a context (crk_of s)
      in if d = DlapOk then ((True, d), s)
         else ((False, d), gateway_emit ''drift'' ((''reason'', JStr (dlap_reason d)) # opt_field ''detail'' (dlap_detail d)) s))"

subsection \<open>Observing another process\<close>

text \<open>\<open>process.env.X || d\<close>.\<close>

definition env_or :: "process_env \<Rightarrow> string \<Rightarrow> string \<Rightarrow> string" where
  "env_or V k d = (case ev_var V k of Some v \<Rightarrow> if v = [] then d else v | None \<Rightarrow> d)"

text \<open>The URL a command-line process sends its receipts to; \<open>None\<close> when it does not observe.
  \<open>replace\<close> with the pattern of a final slash removes one.\<close>

definition drop_slash :: "string \<Rightarrow> string" where
  "drop_slash u = (if u \<noteq> [] \<and> last u = CHR ''/'' then butlast u else u)"

definition spineBaseUrl :: "process_env \<Rightarrow> string option" where
  "spineBaseUrl V =
     (let explicit = env_or V ''NOVA_SPINE_INGEST_URL'' (env_or V ''NOVA_SPINE_URL'' (env_or V ''NOVA_API_URL'' []))
      in if explicit \<noteq> [] then Some (drop_slash explicit)
         else if ev_var V ''NOVA_OBSERVE'' = Some ''1'' \<or> ev_var V ''NOVA_OBSERVE'' = Some ''true''
         then Some (''http://127.0.0.1:'' @ env_or V ''NOVA_API_PORT'' ''3737'')
         else None)"

definition ingestUrl :: "string \<Rightarrow> string" where
  "ingestUrl base = (if str_includes base ''/api/receipts'' then base else base @ ''/api/receipts/ingest'')"

definition isObserveEnabled :: "process_env \<Rightarrow> bool" where
  "isObserveEnabled V = (spineBaseUrl V \<noteq> None)"

text \<open>Registering the observer: the URL its hook posts to, and whether it is registered now.\<close>

definition registerSpineObserve :: "process_env \<Rightarrow> bool \<Rightarrow> string option \<times> bool" where
  "registerSpineObserve V registered =
     (if registered then (None, registered)
      else case spineBaseUrl V of None \<Rightarrow> (None, registered) | Some base \<Rightarrow> (Some (ingestUrl base), True))"

text \<open>The token the extended copy of the hook sends.\<close>

definition ingestToken :: "process_env \<Rightarrow> string" where
  "ingestToken V = env_or V ''NOVA_OBSERVE_TOKEN'' (env_or V ''NOVA_SPINE_INGEST_TOKEN'' [])"

definition isLoopbackAddress :: "string option \<Rightarrow> bool" where
  "isLoopbackAddress remote = (case remote of None \<Rightarrow> False | Some a \<Rightarrow> a = ''127.0.0.1'' \<or> a = ''::1'' \<or> a = ''::ffff:127.0.0.1'')"

definition isProductionEnv :: "process_env \<Rightarrow> bool" where
  "isProductionEnv V = (ev_var V ''NODE_ENV'' = Some ''production'')"

datatype header_value = OneHeader string | ManyHeaders "string list"

definition readIngestTokenHeader :: "header_value option \<Rightarrow> string" where
  "readIngestTokenHeader h = (case h of Some (OneHeader t) \<Rightarrow> t | Some (ManyHeaders (t # _)) \<Rightarrow> t | _ \<Rightarrow> [])"

text \<open>\<open>None\<close> when the request may go on, else the status and the message of the answer.\<close>

definition authorizeReceiptIngest :: "process_env \<Rightarrow> string option \<Rightarrow> header_value option \<Rightarrow> (nat \<times> string) option" where
  "authorizeReceiptIngest V remote h =
     (let expected = ingestToken V; provided = readIngestTokenHeader h
      in if expected \<noteq> [] then (if provided \<noteq> expected then Some (401, ''Unauthorized ingest'') else None)
         else if isProductionEnv V
         then Some (503, ''Receipt ingest disabled '' @ em_dash @ '' set NOVA_OBSERVE_TOKEN or NOVA_SPINE_INGEST_TOKEN'')
         else if isLoopbackAddress remote then None
         else Some (403, ''Receipt ingest allowed from localhost only when no ingest token is configured''))"

datatype ingest_body = NotJson string | NoReceipt | Posted receipt

text \<open>The route of the server, and the one of the extended copy, which asks for the authorization first.\<close>

definition ingest_route :: "sysenv \<Rightarrow> ingest_body \<Rightarrow> 'a spine_st_scheme \<Rightarrow> (nat \<times> string) \<times> 'a spine_st_scheme" where
  "ingest_route E b s =
     (case b of
        NotJson e \<Rightarrow> ((500, e), s)
      | NoReceipt \<Rightarrow> ((400, ''Missing receipt id/hash''), s)
      | Posted r \<Rightarrow> if g_id r = [] \<or> g_hash r = [] then ((400, ''Missing receipt id/hash''), s)
                    else ((200, g_id r), ingestObservedReceipt E r s))"

definition authorized_ingest_route ::
    "sysenv \<Rightarrow> process_env \<Rightarrow> string option \<Rightarrow> header_value option \<Rightarrow> ingest_body \<Rightarrow> 'a spine_st_scheme \<Rightarrow>
     (nat \<times> string) \<times> 'a spine_st_scheme" where
  "authorized_ingest_route E V remote h b s =
     (case authorizeReceiptIngest V remote h of Some refusal \<Rightarrow> (refusal, s) | None \<Rightarrow> ingest_route E b s)"

subsection \<open>Runs of a booted spine\<close>

datatype spine_event =
    Record action "string list" receipt_opts
  | Decide string action bool "string option"
  | Ingest ingest_body
  | Evaluate action2 "(string \<times> json) list"
  | Boot os_facts
  | Snapshot os_facts
  | Second crk_event

primrec spine_step :: "sysenv \<Rightarrow> spine_event \<Rightarrow> 'a spine_st_scheme \<Rightarrow> 'a spine_st_scheme" where
  "spine_step E (Record a ch op) s = snd (record_hooked E a ch op s)"
| "spine_step E (Decide au a b rn) s = snd (emitToLedger E au a b rn s)"
| "spine_step E (Ingest b) s = snd (ingest_route E b s)"
| "spine_step E (Evaluate a ctx) s = snd (evaluateNovaAction E a ctx s)"
| "spine_step E (Boot f) s = bootNovaSpine E f s"
| "spine_step E (Snapshot f) s = snd (getFabricSnapshot E f s)"
| "spine_step E (Second e) s = snd (on_crk (\<lambda>k. ((), crk_step E e k)) s)"

text \<open>The events that do not operate the second kernel themselves.\<close>

definition observing :: "spine_event \<Rightarrow> bool" where
  "observing e \<longleftrightarrow> (case e of Second _ \<Rightarrow> False | _ \<Rightarrow> True)"

definition mirror_of :: "'a spine_st_scheme \<Rightarrow> receipt2 list" where
  "mirror_of s = ck_receipts (crk_of s)"

text \<open>The receipts that called the hooks carry evidence; the kernel's own do not. The first \<open>n\<close> receipts
  are those that an earlier process left in the log.\<close>

definition hooked :: "nat \<Rightarrow> 'a gov_st_scheme \<Rightarrow> string list" where
  "hooked n s = map g_id (filter (\<lambda>r. g_evidence r \<noteq> None) (drop n (receipts s)))"

definition receipt_events :: "'a spine_st_scheme \<Rightarrow> string list" where
  "receipt_events s = map (\<lambda>e. (case snd e of (_, JStr i) # _ \<Rightarrow> i | _ \<Rightarrow> [])) (filter (\<lambda>e. fst e = ''receipt'') (gateway s))"

text \<open>\<open>alone\<close> says that nothing but the hook and the ingestion writes the second ledger.\<close>

definition mirror_ok :: "bool \<Rightarrow> receipt list \<Rightarrow> 'a spine_st_scheme \<Rightarrow> bool" where
  "mirror_ok alone old s \<longleftrightarrow> spine_booted s \<and> receipts2_linked (mirror_of s) \<and> prefix old (receipts s) \<and>
     subseq (hooked (length old) s) (receipt_events s) \<and> subseq (receipt_events s) (map r2_id (mirror_of s)) \<and>
     (alone \<longrightarrow> receipt_events s = map r2_id (mirror_of s))"

lemma hooked_record: "\<exists>r. fst (recordReceipt E a ch op s) = r \<and> g_evidence r \<noteq> None"
  by (simp add: recordReceipt_def case_prod_beta Let_def)

lemma decided_plain: "g_evidence (fst (emitToLedger E au a b rn s)) = None"
  by (simp add: emitToLedger_def case_prod_beta Let_def)

lemma spine_parts:
  "kernel_st.more s = kernel_st.more t \<Longrightarrow> crk_part s = crk_part t \<and> spine_booted s = spine_booted t \<and> gateway s = gateway t"
  by (cases s, cases t) simp

lemma mirror_cong: "crk_part s = crk_part t \<Longrightarrow> mirror_of s = mirror_of t"
proof -
  assume "crk_part s = crk_part t"
  then have "crk_of s = (crk_of t)\<lparr>tick := tick s\<rparr>" by (simp add: crk_of_def sys_st.defs)
  then show ?thesis by (simp add: mirror_of_def)
qed

lemma mirror_ok_frame:
  "mirror_ok al old s \<Longrightarrow> crk_part t = crk_part s \<Longrightarrow> spine_booted t = spine_booted s \<Longrightarrow> receipt_events t = receipt_events s \<Longrightarrow>
   receipts t = receipts s \<Longrightarrow> mirror_ok al old t"
  using mirror_cong [of t s] by (simp add: mirror_ok_def hooked_def)

text \<open>A receipt that did not call the hooks.\<close>

lemma hooked_plain: "prefix old rs \<Longrightarrow> drop (length old) (rs @ [r]) = drop (length old) rs @ [r]"
  by (auto simp: prefix_def)

text \<open>One receipt goes through the mirror.\<close>

lemma sync_effect:
  "\<exists>r2. r2_id r2 = g_id r \<and> mirror_of (syncReceiptToObservability E r s) = mirror_of s @ [r2] \<and>
     (receipts2_linked (mirror_of s) \<longrightarrow> receipts2_linked (mirror_of s @ [r2])) \<and>
     receipt_events (syncReceiptToObservability E r s) = receipt_events s @ [g_id r] \<and>
     spine_booted (syncReceiptToObservability E r s) = spine_booted s \<and> receipts (syncReceiptToObservability E r s) = receipts s"
proof -
  let ?r = "fst (appendReceipt E (mirror_receipt r) (crk_of s))"
  have a: "snd (appendReceipt E (mirror_receipt r) (crk_of s)) = (crk_of s)\<lparr>ck_receipts := ck_receipts (crk_of s) @ [?r]\<rparr>" "r2_id ?r = g_id r"
    by (simp_all add: appendReceipt_def mirror_receipt_def Let_def)
  have g: "mirror_of (gateway_emit ty p u) = mirror_of u" for ty p and u :: "'a spine_st_scheme"
    by (rule mirror_cong) (simp add: gateway_emit_def)
  have m: "mirror_of (syncReceiptToObservability E r s) = mirror_of s @ [?r]"
    by (simp add: syncReceiptToObservability_def g) (simp add: mirror_of_def addReceipt2_def a(1))
  have l: "receipts2_linked (mirror_of s @ [?r])" if "receipts2_linked (mirror_of s)"
    using append_linked [of "crk_of s" E "mirror_receipt r"] that a(1) by (simp add: mirror_of_def)
  have "receipts (syncReceiptToObservability E r s) = receipts s"
    by (simp add: receipts_def ensureLoaded_def syncReceiptToObservability_def gateway_emit_def addReceipt2_def on_crk_def case_prod_beta Let_def)
  moreover have "receipt_events (syncReceiptToObservability E r s) = receipt_events s @ [g_id r]"
    "spine_booted (syncReceiptToObservability E r s) = spine_booted s"
    by (simp_all add: receipt_events_def syncReceiptToObservability_def gateway_emit_def addReceipt2_def on_crk_def case_prod_beta receipt_event_def Let_def)
  ultimately show ?thesis using m l a(2) by blast
qed

lemma mirror_ok_sync:
  assumes "mirror_ok al old s" and "receipts t = receipts s \<or> (\<exists>x. receipts t = receipts s @ [x] \<and> g_id x = g_id r)"
    and "crk_part t = crk_part s" and "spine_booted t = spine_booted s" and "receipt_events t = receipt_events s"
  shows "mirror_ok al old (syncReceiptToObservability E r t)"
proof -
  from sync_effect [of r E t] obtain r2 where r2: "r2_id r2 = g_id r" "mirror_of (syncReceiptToObservability E r t) = mirror_of t @ [r2]"
    "receipts2_linked (mirror_of t) \<longrightarrow> receipts2_linked (mirror_of t @ [r2])"
    "receipt_events (syncReceiptToObservability E r t) = receipt_events t @ [g_id r]"
    "spine_booted (syncReceiptToObservability E r t) = spine_booted t" "receipts (syncReceiptToObservability E r t) = receipts t" by blast
  have m: "mirror_of t = mirror_of s" by (rule mirror_cong) (rule assms(3))
  have p: "prefix old (receipts s)" "subseq (hooked (length old) s) (receipt_events s)"
    "subseq (receipt_events s) (map r2_id (mirror_of s))" using assms(1) by (simp_all add: mirror_ok_def)
  have "subseq (hooked (length old) t) (receipt_events s @ [g_id r])"
    using assms(2)
  proof (elim disjE exE conjE)
    assume "receipts t = receipts s"
    then have "hooked (length old) t = hooked (length old) s" by (simp add: hooked_def)
    with p(2) show ?thesis by (simp add: list_emb_prefix)
  next
    fix x
    assume "receipts t = receipts s @ [x]" "g_id x = g_id r"
    then have "hooked (length old) t = hooked (length old) s \<or> hooked (length old) t = hooked (length old) s @ [g_id r]"
      using hooked_plain [OF p(1)] by (simp add: hooked_def)
    with p(2) show ?thesis by (auto simp: list_emb_prefix)
  qed
  moreover have "subseq (receipt_events s @ [g_id r]) (map r2_id (mirror_of s @ [r2]))" using p(3) r2(1) by simp
  moreover have "prefix old (receipts t)" using p(1) assms(2) by (auto simp: prefix_def)
  ultimately show ?thesis using assms r2 m unfolding mirror_ok_def by (auto simp: hooked_def)
qed

text \<open>An operation of the second kernel appends to its ledger and to nothing else here.\<close>

lemma mirror_ok_second:
  assumes "mirror_ok False old s"
  shows "mirror_ok False old (snd (on_crk (\<lambda>k. ((), crk_step E e k)) s))"
proof -
  define t where "t = snd (on_crk (\<lambda>k. ((), crk_step E e k)) s)"
  obtain new where n: "mirror_of t = mirror_of s @ new" "receipts2_linked (mirror_of s) \<longrightarrow> receipts2_linked (mirror_of t)"
    using crk_step_grows [of "crk_of s" E e] by (auto simp: t_def mirror_of_def crk_grows_def)
  have f: "receipts t = receipts s" "receipt_events t = receipt_events s" "spine_booted t = spine_booted s"
    by (simp_all add: t_def on_crk_def receipts_def ensureLoaded_def receipt_events_def case_prod_beta Let_def)
  have "subseq (receipt_events s) (map r2_id (mirror_of s) @ map r2_id new)"
    using assms by (intro list_emb_append2 [THEN subseq_order.trans [rotated]] list_emb_prefix) (simp add: mirror_ok_def)
  then show ?thesis using assms n f unfolding t_def [symmetric] mirror_ok_def by (simp add: hooked_def)
qed

lemma mirror_ok_step: "mirror_ok al old s \<Longrightarrow> al \<longrightarrow> observing e \<Longrightarrow> mirror_ok al old (spine_step E e s)"
proof (cases e)
  case (Record a ch op)
  assume ok: "mirror_ok al old s"
  let ?r = "fst (recordReceipt E a ch op s)" and ?t = "snd (recordReceipt E a ch op s)"
  from spine_parts [OF more_record, of E a ch op s] have p: "crk_part ?t = crk_part s" "spine_booted ?t = spine_booted s" "gateway ?t = gateway s"
    by blast+
  have "mirror_ok al old (syncReceiptToObservability E ?r ?t)"
    by (intro mirror_ok_sync [OF ok]) (auto simp: p receipt_events_def)
  then show ?thesis using ok p by (simp add: Record record_hooked_def case_prod_beta Let_def mirror_ok_def)
next
  case (Decide au a b rn)
  assume ok: "mirror_ok al old s"
  let ?t = "snd (emitToLedger E au a b rn s)"
  from spine_parts [OF more_ops(4), of E au a b rn s] have p: "crk_part ?t = crk_part s" "spine_booted ?t = spine_booted s" "gateway ?t = gateway s"
    by blast+
  have "prefix old (receipts s)" using ok by (simp add: mirror_ok_def)
  then have "prefix old (receipts ?t)" "hooked (length old) ?t = hooked (length old) s"
    using decided_plain [of E au a b rn s] by (auto simp: hooked_def hooked_plain prefix_def)
  with ok p mirror_cong [OF p(1)] show ?thesis by (simp add: Decide mirror_ok_def receipt_events_def)
next
  case (Ingest b)
  assume "mirror_ok al old s"
  then show ?thesis
    by (cases b) (simp_all add: Ingest ingest_route_def ingestObservedReceipt_def mirror_ok_sync)
next
  case (Evaluate a ctx)
  assume ok: "mirror_ok al old s"
  show ?thesis unfolding Evaluate spine_step.simps evaluateNovaAction_def gateway_emit_def Let_def
    by (simp add: ok) (auto intro!: mirror_ok_frame [OF ok] simp: receipt_events_def receipts_def ensureLoaded_def)
next
  case (Boot f)
  assume "mirror_ok al old s"
  then show ?thesis by (simp add: Boot bootNovaSpine_def mirror_ok_def)
next
  case (Snapshot f)
  assume ok: "mirror_ok al old s"
  obtain n where "snd (getFabricSnapshot E f s) = s\<lparr>tick := n\<rparr>"
    by (simp add: getFabricSnapshot_def routeCompute_def take_now_def case_prod_beta Let_def)
  then show ?thesis by (simp add: Snapshot) (rule mirror_ok_frame [OF ok], simp_all add: receipt_events_def)
next
  case (Second x)
  assume "mirror_ok al old s" and "al \<longrightarrow> observing e"
  with Second show ?thesis using mirror_ok_second [of old s E x] by (cases al) (simp_all add: observing_def)
qed

interpretation spine: machine "\<lambda>e s. if al \<longrightarrow> observing e then spine_step E e s else s" "mirror_ok al old"
proof unfold_locales
  fix s :: "'a spine_st_scheme" and e
  assume "mirror_ok al old s"
  then show "mirror_ok al old (if al \<longrightarrow> observing e then spine_step E e s else s)"
    using mirror_ok_step [of al old s e E] by (cases "al \<longrightarrow> observing e") simp_all
qed

lemma observing_run:
  "al \<longrightarrow> list_all observing es \<Longrightarrow> fold (\<lambda>e s. if al \<longrightarrow> observing e then spine_step E e s else s) es s = fold (spine_step E) es s"
  by (induction es arbitrary: s) simp_all

text \<open>A process that starts with a log file; the log is read when a receipt is first asked for or added.\<close>

definition init_spine :: "receipt option list \<Rightarrow> spine_st" where
  "init_spine lg = (tower_st.extend init_tower \<lparr>spine_booted = False, gateway = []\<rparr>)\<lparr>gov_wal := lg, gov_loaded := False\<rparr>"

text \<open>The start-up leaves the receipts, the mirror and the event stream alone until it announces itself.\<close>

definition quiet :: "'a spine_st_scheme \<Rightarrow> 'a spine_st_scheme \<Rightarrow> bool" where
  "quiet s t \<longleftrightarrow> crk_part t = crk_part s \<and> receipts t = receipts s \<and> spine_booted t = spine_booted s \<and> gateway t = gateway s"

lemma quiet_trans: "quiet s t \<Longrightarrow> quiet t u \<Longrightarrow> quiet s u"
  by (simp add: quiet_def)

lemma receipts_seed: "receipts (seedKernel E s) = receipts s"
proof -
  have r: "receipts (requireInvariant iv u) = receipts u" for iv and u :: "'a kernel_st_scheme"
    by (simp add: receipts_def ensureLoaded_def requireInvariant_def)
  have "receipts (fold requireInvariant ivs u) = receipts u" for ivs and u :: "'a kernel_st_scheme"
    by (induction ivs arbitrary: u) (simp_all add: r)
  moreover have "receipts (u\<lparr>csr_ledger := c, intents := i\<rparr>) = receipts u" "receipts (u\<lparr>seeded := b\<rparr>) = receipts u" for c i b and u :: "'a kernel_st_scheme"
    by (simp_all add: receipts_def ensureLoaded_def)
  ultimately show ?thesis by (simp add: seedKernel_def Let_def)
qed

lemma quiet_seed: "quiet s (seedKernel E s)"
  using spine_parts [OF more_seed, of E s] by (simp add: quiet_def receipts_seed)

lemma quiet_updates:
  "quiet s (s\<lparr>tick := n\<rparr>)" "quiet s (s\<lparr>sx_initialized := b\<rparr>)" "quiet s (snd (register_agent i v s))"
  "quiet s (snd (registerNode E nm cs c m g a s))"
  by (simp_all add: quiet_def receipts_def ensureLoaded_def register_agent_def registerNode_def log_csr_update take_uuid_def take_now_def Let_def)

lemma quiet_defaults: "quiet s (ensureDefaultAgents ids s)"
proof -
  have "quiet u (fold (\<lambda>i s. if get_agent i s = None then snd (register_agent i None s) else s) is u)" for "is" and u :: "'a spine_st_scheme"
  proof (induction "is" arbitrary: u)
    case Nil
    show ?case by (simp add: quiet_def)
  next
    case (Cons i js)
    then show ?case by (auto intro: quiet_trans [OF quiet_updates(3)])
  qed
  then show ?thesis by (simp add: ensureDefaultAgents_def)
qed

lemma quiet_initialize: "quiet s (initializeSovereignX E s)"
proof (cases "sx_initialized s")
  case True
  then show ?thesis by (simp add: initializeSovereignX_def quiet_def)
next
  case False
  then show ?thesis using quiet_trans [OF quiet_seed quiet_updates(2)] by (simp add: initializeSovereignX_def)
qed

lemma boot_effect:
  assumes "\<not> spine_booted s"
  shows "\<exists>u e. quiet (s\<lparr>spine_booted := True\<rparr>) u \<and> fst e = ''heartbeat'' \<and> bootNovaSpine E f s = u\<lparr>gateway := gateway u @ [e]\<rparr>"
proof -
  let ?s1 = "ensureDefaultAgents (Some [''agent-alpha'', ''agent-beta'', ''agent-gamma'']) (initializeSovereignX E (s\<lparr>spine_booted := True\<rparr>))"
  have "quiet (s\<lparr>spine_booted := True\<rparr>) ?s1" by (rule quiet_trans [OF quiet_initialize quiet_defaults])
  then have "quiet (s\<lparr>spine_booted := True\<rparr>) (if listNodes ?s1 = [] then snd (registerNode E nm cs c m g a ?s1) else ?s1)" for nm cs c m g a
    using quiet_trans [OF _ quiet_updates(4)] by auto
  note q = quiet_trans [OF this quiet_updates(1)]
  show ?thesis
    unfolding bootNovaSpine_def Let_def take_now_def prod.case gateway_emit_def
    by (simp only: assms if_False, intro exI conjI, rule q, rule fst_conv, rule refl)
qed

lemma init_spine_parts:
  "receipts (init_spine lg) = parse_lines lg" "mirror_of (init_spine lg) = []" "gateway (init_spine lg) = []"
  "\<not> spine_booted (init_spine lg)"
  by (simp_all add: init_spine_def tower_st.defs init_tower_def fabric_st.defs init_fabric_def kernel_st.defs init_kernel_def receipts_def
      ensureLoaded_def mirror_of_def crk_of_def sys_st.defs)

lemma boot_parts:
  "receipts (bootNovaSpine E f (init_spine lg)) = parse_lines lg" "mirror_of (bootNovaSpine E f (init_spine lg)) = []"
  "receipt_events (bootNovaSpine E f (init_spine lg)) = []" "spine_booted (bootNovaSpine E f (init_spine lg))"
proof -
  note i = init_spine_parts [of lg]
  from boot_effect [OF i(4)] obtain u e where u: "quiet ((init_spine lg)\<lparr>spine_booted := True\<rparr>) u" "fst e = ''heartbeat''"
    "bootNovaSpine E f (init_spine lg) = u\<lparr>gateway := gateway u @ [e]\<rparr>" by blast
  have "crk_part (bootNovaSpine E f (init_spine lg)) = crk_part (init_spine lg)" using u(1,3) by (simp add: quiet_def)
  from mirror_cong [OF this] i show "mirror_of (bootNovaSpine E f (init_spine lg)) = []" by simp
  have "receipts (t\<lparr>gateway := g\<rparr>) = receipts t" "receipts (t\<lparr>spine_booted := b\<rparr>) = receipts t" for g b and t :: spine_st
    by (simp_all add: receipts_def ensureLoaded_def)
  then show "receipts (bootNovaSpine E f (init_spine lg)) = parse_lines lg"
    "receipt_events (bootNovaSpine E f (init_spine lg)) = []" "spine_booted (bootNovaSpine E f (init_spine lg))"
    using u i by (simp_all add: quiet_def receipt_events_def)
qed

lemma boot_mirror_ok: "mirror_ok al (parse_lines lg) (bootNovaSpine E f (init_spine lg))"
  by (simp add: mirror_ok_def boot_parts hooked_def receipts2_linked_def)

subsection \<open>Properties\<close>

text \<open>C32. What the spine mirrors, from the start-up of a process whose receipt log already holds anything, over any
  run of its events: recording a receipt, a decision of the kernel, an ingested receipt, the
  gate, a further start-up, a snapshot, and any operation of the second kernel (its amendments and
  direct appends included). The second kernel's ledger stays linked. The agent's ledger is what the log held, followed
  by the receipts of this run; of these, every one recorded with evidence had a receipt event
  sent and is in the second ledger, in the same order. The receipts of an earlier process are listed but not mirrored: after the
  start-up the mirror is empty. As long as the second kernel is not operated directly, the events
  sent are exactly its ledger's entries. And it is not a copy: a decision of the kernel
  adds a receipt to the agent's ledger and nothing to the mirror, and an ingested receipt, which
  anyone may post to the server's route, adds to the mirror and nothing to the agent's ledger.\<close>

theorem receipts_are_mirrored:
  assumes "s = fold (spine_step E) es (bootNovaSpine E f (init_spine lg))"
  shows "ledger_break 1 (listReceipts2 (crk_of s)) = None \<and>
     (\<exists>new. fst (listReceipts s) = parse_lines lg @ new \<and>
        subseq (map g_id (filter (\<lambda>r. g_evidence r \<noteq> None) new)) (receipt_events s)) \<and>
     subseq (receipt_events s) (map r2_id (listReceipts2 (crk_of s))) \<and>
     (list_all observing es \<longrightarrow> receipt_events s = map r2_id (listReceipts2 (crk_of s))) \<and>
     (es = [] \<longrightarrow> listReceipts2 (crk_of s) = [] \<and> fst (listReceipts s) = parse_lines lg) \<and>
     (\<forall>au a b why. listReceipts2 (crk_of (snd (emitToLedger E au a b why s))) = listReceipts2 (crk_of s) \<and>
        fst (listReceipts (snd (emitToLedger E au a b why s))) = fst (listReceipts s) @ [fst (emitToLedger E au a b why s)]) \<and>
     (\<forall>r. g_id r \<noteq> [] \<and> g_hash r \<noteq> [] \<longrightarrow> fst (ingest_route E (Posted r) s) = (200, g_id r) \<and>
        map r2_id (listReceipts2 (crk_of (snd (ingest_route E (Posted r) s)))) = map r2_id (listReceipts2 (crk_of s)) @ [g_id r] \<and>
        fst (listReceipts (snd (ingest_route E (Posted r) s))) = fst (listReceipts s))"
proof -
  have "mirror_ok (list_all observing es) (parse_lines lg)
      (fold (\<lambda>e s. if list_all observing es \<longrightarrow> observing e then spine_step E e s else s) es (bootNovaSpine E f (init_spine lg)))"
    by (rule spine.run_inv) (rule boot_mirror_ok)
  then have ok: "mirror_ok (list_all observing es) (parse_lines lg) s"
    using observing_run [of "list_all observing es" es E "bootNovaSpine E f (init_spine lg)"] by (simp add: assms)
  have l: "fst (listReceipts t) = receipts t" for t :: spine_st by (simp add: listReceipts_def getLedger_def receipts_def Let_def)
  have d: "listReceipts2 (crk_of (snd (emitToLedger E au a b why s))) = listReceipts2 (crk_of s)" for au a b why
    using spine_parts [OF more_ops(4), of E au a b why s] mirror_cong [of "snd (emitToLedger E au a b why s)" s]
    by (simp add: listReceipts2_def mirror_of_def)
  have m: "map r2_id (mirror_of (syncReceiptToObservability E r s)) = map r2_id (mirror_of s) @ [g_id r]"
    "receipts (syncReceiptToObservability E r s) = receipts s" for r
    using sync_effect [of r E s] by auto
  have new: "\<exists>new. receipts s = parse_lines lg @ new \<and>
      subseq (map g_id (filter (\<lambda>r. g_evidence r \<noteq> None) new)) (receipt_events s)"
    using ok by (auto simp: mirror_ok_def prefix_def hooked_def)
  have start: "es = [] \<Longrightarrow> mirror_of s = [] \<and> receipts s = parse_lines lg" by (simp add: assms boot_parts)
  show ?thesis using ok d m new start
    by (simp add: l mirror_ok_def receipts2_linked_def listReceipts2_def mirror_of_def [symmetric] ingest_route_def ingestObservedReceipt_def)
qed

definition demo_receipt :: receipt where
  "demo_receipt = \<lparr>g_id = ''r'', g_time = 0, g_auth = ''nova-kernel'', g_lineage = [], g_prev = ''genesis'', g_hash = ''h'',
     g_action = demo_action, g_checked = [], g_continuity = ''genesis'', g_ledgerHash = ''h'', g_blocked = None, g_reason = None,
     g_evidence = None, g_level = None, g_crk1 = None\<rparr>"

text \<open>A process that starts with a receipt in its log records another one: the first is not mirrored, the second is.\<close>

theorem receipts_are_mirrored_witness:
  "map r2_id (listReceipts2 (crk_of (spine_step demo_env (Record demo_action [] \<lparr>ro_blocked = None, ro_reason = None, ro_level = None, ro_crk1 = None\<rparr>)
     (bootNovaSpine demo_env demo_facts (init_spine [Some demo_receipt]))))) =
   receipt_events (spine_step demo_env (Record demo_action [] \<lparr>ro_blocked = None, ro_reason = None, ro_level = None, ro_crk1 = None\<rparr>)
     (bootNovaSpine demo_env demo_facts (init_spine [Some demo_receipt]))) \<and>
   listReceipts2 (crk_of (bootNovaSpine demo_env demo_facts (init_spine [Some demo_receipt]))) = [] \<and>
   fst (listReceipts (bootNovaSpine demo_env demo_facts (init_spine [Some demo_receipt]))) = [demo_receipt]"
  using receipts_are_mirrored [of _ demo_env "[Record demo_action [] \<lparr>ro_blocked = None, ro_reason = None, ro_level = None, ro_crk1 = None\<rparr>]"
    demo_facts "[Some demo_receipt]", OF refl]
    receipts_are_mirrored [of _ demo_env "[]" demo_facts "[Some demo_receipt]", OF refl] by (simp add: observing_def)

text \<open>C33. Who may post a receipt. With the authorization in front, the route changes the state only if the
  token of the request is the configured one, or no token is configured, the server is not in
  production and the request comes from the machine itself; in production without a token it
  answers 503. The route without it, which the main server has, accepts every receipt with an
  identifier and a hash from anyone.\<close>

theorem ingest_authorization:
  "(snd (authorized_ingest_route E V remote h b s) \<noteq> s \<longrightarrow>
     (if ingestToken V \<noteq> [] then readIngestTokenHeader h = ingestToken V else \<not> isProductionEnv V \<and> isLoopbackAddress remote)) \<and>
   (ingestToken V = [] \<and> isProductionEnv V \<longrightarrow> fst (fst (authorized_ingest_route E V remote h b s)) = 503) \<and>
   (authorizeReceiptIngest V remote h = None \<longrightarrow> authorized_ingest_route E V remote h b s = ingest_route E b s) \<and>
   (fst (fst (ingest_route E b s)) = 200 \<longleftrightarrow> (\<exists>r. b = Posted r \<and> g_id r \<noteq> [] \<and> g_hash r \<noteq> [])) \<and>
   (fst (fst (ingest_route E b s)) \<noteq> 200 \<longrightarrow> snd (ingest_route E b s) = s)"
  by (auto simp: authorized_ingest_route_def authorizeReceiptIngest_def ingest_route_def Let_def split: ingest_body.split)

theorem ingest_authorization_witness:
  "snd (authorized_ingest_route demo_env \<lparr>ev_var = (\<lambda>k. if k = ''NODE_ENV'' then Some ''production'' else None), ev_number = (\<lambda>_. None)\<rparr>
     (Some ''127.0.0.1'') None (Posted demo_receipt) (init_spine [])) = init_spine [] \<and>
   fst (fst (ingest_route demo_env (Posted demo_receipt) (init_spine []))) = 200"
  using ingest_authorization [of demo_env "\<lparr>ev_var = (\<lambda>k. if k = ''NODE_ENV'' then Some ''production'' else None), ev_number = (\<lambda>_. None)\<rparr>"
      "Some ''127.0.0.1''" None "Posted demo_receipt" "init_spine []"]
  by (auto simp: ingestToken_def env_or_def isProductionEnv_def demo_receipt_def)

text \<open>C34. The second kernel's gate, as the spine asks it: an action is allowed exactly when a receipt has been
  mirrored before and no pattern of a dangerous command occurs in the text of the action and its
  context, which may not have an empty type. Every refusal, and nothing else, is announced on the
  event stream, and nothing else changes.\<close>

theorem nova_action_gate:
  assumes "crk_platform E"
  shows "(fst (fst (evaluateNovaAction E a ctx s)) \<longleftrightarrow> listReceipts2 (crk_of s) \<noteq> [] \<and> checkAll a ctx = None) \<and>
     (\<exists>es. snd (evaluateNovaAction E a ctx s) = s\<lparr>gateway := gateway s @ es\<rparr> \<and>
        map fst es = (if fst (fst (evaluateNovaAction E a ctx s)) then [] else [''drift'']))"
proof -
  have d: "dLAP E a ctx (crk_of s) = DlapOk \<longleftrightarrow> listReceipts2 (crk_of s) \<noteq> [] \<and> checkAll a ctx = None"
  proof (cases "ck_receipts (crk_of s) = []")
    case True
    then have "constraint_check E a (clusterView E (crk_of s)) \<noteq> None"
      by (simp add: constraint_check_def clusterView_def hashPayload_def)
    with True show ?thesis by (auto simp: dLAP_def checkClusterInvariants_def listReceipts2_def Let_def split: option.split)
  next
    case False
    with dlap_ok_iff [OF assms False] show ?thesis by (simp add: listReceipts2_def)
  qed
  show ?thesis
  proof (cases "dLAP E a ctx (crk_of s) = DlapOk")
    case True
    then have "evaluateNovaAction E a ctx s = ((True, DlapOk), s)" by (simp add: evaluateNovaAction_def Let_def)
    with True d show ?thesis by (simp add: exI [of _ "[]"])
  next
    case False
    then obtain p where "evaluateNovaAction E a ctx s = ((False, dLAP E a ctx (crk_of s)), s\<lparr>gateway := gateway s @ [(''drift'', p)]\<rparr>)"
      by (auto simp: evaluateNovaAction_def gateway_emit_def Let_def)
    with False d show ?thesis by (intro conjI exI [of _ "[(''drift'', p)]"]) auto
  qed
qed

theorem nova_action_gate_witness:
  "\<not> fst (fst (evaluateNovaAction demo_platform \<lparr>a2_type = ''edit'', a2_payload = None\<rparr> [] (init_spine [])))"
  using nova_action_gate [OF demo_platform_ok, of "\<lparr>a2_type = ''edit'', a2_payload = None\<rparr>" "[]" "init_spine []"]
  by (simp add: listReceipts2_def crk_of_def init_spine_def tower_st.defs init_tower_def fabric_st.defs sys_st.defs)

end
