(* ===== verification/Cockpit.thy ===== *)
theory Cockpit
  imports GovLedger "HOL-Library.Word"
begin

text \<open>
  The state of the cockpit (\<open>cockpit/src/state/\<close>): the stores of the cockpit, the cluster, the kernel, the
  drift view and the toasts, with all their actions; the gateway that routes the events of the
  cluster into them (\<open>bridge/events-gateway.ts\<close>) and the bridge that feeds them from the server
  (\<open>bridge/WebSocketBridge.ts\<close>). The store \<open>useCockpitStore\<close> is the store \<open>useCockpitState\<close> under a
  second name. Objects are kept with the fields the cockpit reads; times are numbers, and the
  parse of a text timestamp is left to the caller. Timers are explicit steps.
\<close>

subsection \<open>The cockpit store\<close>

datatype center_mode = ModePlan | ModeDiff | ModeReceipts | ModeContinuity | ModeInvariants | ModeKernel | ModeFlightDeck
  | ModeLedgerCompare | ModeContinuityMatrix | ModeDrift | ModeFourD | ModeComputeFabric | ModeLlmRouter | ModeTerminal
  | ModeAdmin | ModeReality

datatype health = HealthOk | HealthWarn | HealthError

record kstatus =
  kx_invariantEngine :: health
  kx_ledger :: health
  kx_continuity :: health
  kx_violations :: nat
  kx_receipts :: nat
  kx_snapshots :: nat
  kx_invariants :: nat

record cp_receipt =
  cr_id :: string
  cr_time :: time
  cr_authority :: "string option"
  cr_action :: action
  cr_checked :: "string list"
  cr_continuity :: string
  cr_ledgerHash :: string
  cr_blocked :: "bool option"
  cr_reason :: "string option"

record cp_violation =
  cv_id :: string
  cv_invariant :: string
  cv_description :: string
  cv_message :: string
  cv_severity :: string
  cv_action :: action

datatype node_type = SnapshotNode | ReceiptNode | ViolationNode

record cont_node =
  cn_id :: string
  cn_time :: time
  cn_hash :: string
  cn_type :: node_type
  cn_label :: "string option"

datatype cp_step_status = StepPending | StepRunning | StepDone | StepFailed

record cp_step =
  st_id :: string
  st_description :: string
  st_action :: action
  st_status :: cp_step_status

record cp_plan =
  pn_id :: string
  pn_steps :: "(string \<times> string \<times> action) list"
  pn_justification :: string
  pn_receipts :: "cp_receipt list"
  pn_goal :: "string option"
  pn_evidence :: "bool option"

record log_entry =
  lg_id :: string
  lg_type :: string
  lg_time :: time
  lg_message :: string

record ui_signals =
  sg_violation :: "string option"
  sg_receipt :: "string option"
  sg_plan :: "string option"
  sg_monitoring :: "bool option"

datatype signal_key = LastViolation | LastReceipt | LastPlan | ShowMonitoring

record selected_diff =
  sd_text :: string
  sd_action :: string
  sd_checked :: "string list"
  sd_continuity :: string
  sd_receipt :: "string option"
  sd_before :: "string option"

record cockpit_st = sys_st +
  co_mode :: center_mode
  co_agents :: "string list"
  co_signals :: ui_signals
  co_goal :: "string option"
  co_plan :: "cp_plan option"
  co_steps :: "cp_step list"
  co_log :: "log_entry list"
  co_invariants :: "string list"
  co_receipts :: "cp_receipt list"
  co_violations :: "cp_violation list"
  co_selReceipt :: "string option"
  co_timeline :: "cont_node list"
  co_selSnapshot :: "string option"
  co_diff :: "selected_diff option"
  co_kernel :: kstatus
  co_heartbeat :: "time option"

definition no_signals :: ui_signals where
  "no_signals = \<lparr>sg_violation = None, sg_receipt = None, sg_plan = None, sg_monitoring = None\<rparr>"

definition defaultKernel :: kstatus where
  "defaultKernel = \<lparr>kx_invariantEngine = HealthOk, kx_ledger = HealthOk, kx_continuity = HealthOk, kx_violations = 0,
     kx_receipts = 0, kx_snapshots = 0, kx_invariants = 0\<rparr>"

definition init_cockpit :: cockpit_st where
  "init_cockpit = \<lparr>tick = 0, co_mode = ModePlan, co_agents = [''agent-alpha'', ''agent-beta''], co_signals = no_signals, co_goal = None,
     co_plan = None, co_steps = [], co_log = [], co_invariants = [], co_receipts = [], co_violations = [], co_selReceipt = None,
     co_timeline = [], co_selSnapshot = None, co_diff = None, co_kernel = defaultKernel, co_heartbeat = None\<rparr>"

definition setCenterMode :: "center_mode \<Rightarrow> 'a cockpit_st_scheme \<Rightarrow> 'a cockpit_st_scheme" where
  "setCenterMode m s = s\<lparr>co_mode := m\<rparr>"

definition setGoal :: "string \<Rightarrow> 'a cockpit_st_scheme \<Rightarrow> 'a cockpit_st_scheme" where
  "setGoal g s = s\<lparr>co_goal := Some g\<rparr>"

definition pending_step :: "string \<times> string \<times> action \<Rightarrow> cp_step" where
  "pending_step = (\<lambda>(i, d, a). \<lparr>st_id = i, st_description = d, st_action = a, st_status = StepPending\<rparr>)"

definition setPlan :: "cp_plan \<Rightarrow> 'a cockpit_st_scheme \<Rightarrow> 'a cockpit_st_scheme" where
  "setPlan p s = s\<lparr>co_plan := Some p, co_steps := map pending_step (pn_steps p)\<rparr>"

definition setStepStatus :: "string \<Rightarrow> cp_step_status \<Rightarrow> 'a cockpit_st_scheme \<Rightarrow> 'a cockpit_st_scheme" where
  "setStepStatus i st s = s\<lparr>co_steps := map (\<lambda>x. if st_id x = i then x\<lparr>st_status := st\<rparr> else x) (co_steps s)\<rparr>"

definition setInvariants :: "string list \<Rightarrow> 'a cockpit_st_scheme \<Rightarrow> 'a cockpit_st_scheme" where
  "setInvariants is s = s\<lparr>co_invariants := is\<rparr>"

definition appendLog :: "sysenv \<Rightarrow> string option \<Rightarrow> string \<Rightarrow> time \<Rightarrow> string \<Rightarrow> 'a cockpit_st_scheme \<Rightarrow> 'a cockpit_st_scheme" where
  "appendLog E i ty t msg s =
     (let (u, s1) = (case i of Some x \<Rightarrow> (x, s) | None \<Rightarrow> take_uuid E s)
      in s1\<lparr>co_log := co_log s1 @ [\<lparr>lg_id = u, lg_type = ty, lg_time = t, lg_message = msg\<rparr>]\<rparr>)"

definition receipt_node :: "cp_receipt \<Rightarrow> cont_node" where
  "receipt_node r = \<lparr>cn_id = cr_id r, cn_time = cr_time r, cn_hash = cr_continuity r, cn_type = ReceiptNode, cn_label = Some (a_type (cr_action r))\<rparr>"

definition addReceipt :: "cp_receipt \<Rightarrow> 'a cockpit_st_scheme \<Rightarrow> 'a cockpit_st_scheme" where
  "addReceipt r s = s\<lparr>co_receipts := r # co_receipts s, co_timeline := co_timeline s @ [receipt_node r]\<rparr>"

definition addViolation :: "sysenv \<Rightarrow> cp_violation \<Rightarrow> 'a cockpit_st_scheme \<Rightarrow> 'a cockpit_st_scheme" where
  "addViolation E v s =
     (let (t, s1) = take_now E s
      in s1\<lparr>co_violations := v # co_violations s1, co_timeline := co_timeline s1 @
           [\<lparr>cn_id = cv_id v, cn_time = t, cn_hash = cv_invariant v, cn_type = ViolationNode, cn_label = Some (cv_invariant v)\<rparr>]\<rparr>)"

definition updateKernelStatus :: "kstatus \<Rightarrow> 'a cockpit_st_scheme \<Rightarrow> 'a cockpit_st_scheme" where
  "updateKernelStatus k s = s\<lparr>co_kernel := k\<rparr>"

definition setLastHeartbeat :: "time \<Rightarrow> 'a cockpit_st_scheme \<Rightarrow> 'a cockpit_st_scheme" where
  "setLastHeartbeat t s = s\<lparr>co_heartbeat := Some t\<rparr>"

definition updateContinuityNode :: "string \<Rightarrow> time \<Rightarrow> string \<Rightarrow> 'a cockpit_st_scheme \<Rightarrow> 'a cockpit_st_scheme" where
  "updateContinuityNode i t h s =
     s\<lparr>co_timeline := co_timeline s @ [\<lparr>cn_id = i, cn_time = t, cn_hash = h, cn_type = SnapshotNode, cn_label = None\<rparr>]\<rparr>"

definition selectSnapshot :: "string \<Rightarrow> 'a cockpit_st_scheme \<Rightarrow> 'a cockpit_st_scheme" where
  "selectSnapshot i s = s\<lparr>co_selSnapshot := Some i\<rparr>"

definition selectReceipt :: "string \<Rightarrow> 'a cockpit_st_scheme \<Rightarrow> 'a cockpit_st_scheme" where
  "selectReceipt i s = s\<lparr>co_selReceipt := Some i, co_mode := ModeReceipts\<rparr>"

definition selectDiff :: "selected_diff \<Rightarrow> 'a cockpit_st_scheme \<Rightarrow> 'a cockpit_st_scheme" where
  "selectDiff d s = s\<lparr>co_diff := Some d, co_mode := ModeDiff\<rparr>"

definition signalViolation :: "string \<Rightarrow> 'a cockpit_st_scheme \<Rightarrow> 'a cockpit_st_scheme" where
  "signalViolation i s = s\<lparr>co_signals := (co_signals s)\<lparr>sg_violation := Some i\<rparr>\<rparr>"

definition signalReceipt :: "string \<Rightarrow> 'a cockpit_st_scheme \<Rightarrow> 'a cockpit_st_scheme" where
  "signalReceipt i s = s\<lparr>co_signals := (co_signals s)\<lparr>sg_receipt := Some i\<rparr>\<rparr>"

definition signalPlan :: "string \<Rightarrow> 'a cockpit_st_scheme \<Rightarrow> 'a cockpit_st_scheme" where
  "signalPlan i s = s\<lparr>co_signals := (co_signals s)\<lparr>sg_plan := Some i\<rparr>\<rparr>"

definition clearSignal :: "signal_key \<Rightarrow> 'a cockpit_st_scheme \<Rightarrow> 'a cockpit_st_scheme" where
  "clearSignal k s = s\<lparr>co_signals := (case k of LastViolation \<Rightarrow> (co_signals s)\<lparr>sg_violation := None\<rparr>
     | LastReceipt \<Rightarrow> (co_signals s)\<lparr>sg_receipt := None\<rparr> | LastPlan \<Rightarrow> (co_signals s)\<lparr>sg_plan := None\<rparr>
     | ShowMonitoring \<Rightarrow> (co_signals s)\<lparr>sg_monitoring := None\<rparr>)\<rparr>"

definition setSelectedAgents :: "string list \<Rightarrow> 'a cockpit_st_scheme \<Rightarrow> 'a cockpit_st_scheme" where
  "setSelectedAgents as s = s\<lparr>co_agents := as\<rparr>"

definition setUiSignals :: "ui_signals \<Rightarrow> 'a cockpit_st_scheme \<Rightarrow> 'a cockpit_st_scheme" where
  "setUiSignals g s = s\<lparr>co_signals := g\<rparr>"

definition gateway_action :: "string \<Rightarrow> string \<Rightarrow> action" where
  "gateway_action actionId agentId =
     \<lparr>a_type = ''generate'', a_payload = [(''actionId'', JStr actionId), (''agentId'', JStr agentId)]\<rparr>"

definition addViolationFromGateway ::
    "sysenv \<Rightarrow> string \<Rightarrow> string \<Rightarrow> string \<Rightarrow> string \<Rightarrow> string \<Rightarrow> 'a cockpit_st_scheme \<Rightarrow> 'a cockpit_st_scheme" where
  "addViolationFromGateway E agentId invariantId msg actionId severity s =
     (let (u, s1) = take_uuid E s
      in s1\<lparr>co_violations := \<lparr>cv_id = u, cv_invariant = invariantId, cv_description = msg, cv_message = msg, cv_severity = severity,
           cv_action = gateway_action actionId agentId\<rparr> # co_violations s1\<rparr>)"

record gateway_receipt =
  gw_receiptId :: string
  gw_actionId :: string
  gw_checked :: "string list"
  gw_pitBand :: jsnum
  gw_continuity :: string

definition placeholder_receipt :: "string \<Rightarrow> gateway_receipt \<Rightarrow> time \<Rightarrow> cp_receipt" where
  "placeholder_receipt agentId g t =
     \<lparr>cr_id = gw_receiptId g, cr_time = t, cr_authority = None, cr_action = gateway_action (gw_actionId g) agentId,
      cr_checked = gw_checked g, cr_continuity = gw_continuity g, cr_ledgerHash = [], cr_blocked = None, cr_reason = None\<rparr>"

definition addReceiptFromGateway :: "sysenv \<Rightarrow> string \<Rightarrow> gateway_receipt \<Rightarrow> 'a cockpit_st_scheme \<Rightarrow> 'a cockpit_st_scheme" where
  "addReceiptFromGateway E agentId g s =
     (let (t, s1) = take_now E s in s1\<lparr>co_receipts := placeholder_receipt agentId g t # co_receipts s1\<rparr>)"

definition addSnapshotFromGateway :: "sysenv \<Rightarrow> string \<Rightarrow> string \<Rightarrow> string \<Rightarrow> 'a cockpit_st_scheme \<Rightarrow> 'a cockpit_st_scheme" where
  "addSnapshotFromGateway E agentId snapshotId h s =
     (let (t, s1) = take_now E s
      in s1\<lparr>co_timeline := co_timeline s1 @
           [\<lparr>cn_id = snapshotId, cn_time = t, cn_hash = h, cn_type = SnapshotNode, cn_label = Some agentId\<rparr>]\<rparr>)"

definition plan_step_action :: "string \<Rightarrow> action" where
  "plan_step_action i = \<lparr>a_type = ''plan'', a_payload = [(''stepId'', JStr i)]\<rparr>"

definition setPlanForAgent :: "string \<Rightarrow> string \<Rightarrow> (string \<times> string) list \<Rightarrow> 'a cockpit_st_scheme \<Rightarrow> 'a cockpit_st_scheme" where
  "setPlanForAgent agentId planId steps s =
     (let full = map (\<lambda>(i, d). (i, d, plan_step_action i)) steps
      in s\<lparr>co_plan := Some \<lparr>pn_id = planId, pn_steps = full, pn_justification = ''Plan for '' @ agentId, pn_receipts = [],
             pn_goal = None, pn_evidence = None\<rparr>,
           co_steps := map pending_step full, co_signals := (co_signals s)\<lparr>sg_plan := Some planId\<rparr>\<rparr>)"

definition addActionLog :: "sysenv \<Rightarrow> string \<Rightarrow> string \<Rightarrow> 'a cockpit_st_scheme \<Rightarrow> 'a cockpit_st_scheme" where
  "addActionLog E agentId description s =
     (let (u, s1) = take_uuid E s; (t, s2) = take_now E s1
      in s2\<lparr>co_log := co_log s2 @
           [\<lparr>lg_id = u, lg_type = ''action'', lg_time = t, lg_message = ''['' @ agentId @ ''] '' @ description\<rparr>]\<rparr>)"

subsection \<open>The merging store\<close>

text \<open>The copy of the store under \<open>agentic-coding-agent/\<close> keeps one receipt for an identifier.\<close>

definition upsertReceipt :: "cp_receipt list \<Rightarrow> cont_node list \<Rightarrow> cp_receipt \<Rightarrow> cp_receipt list \<times> cont_node list" where
  "upsertReceipt rs timeline r =
     (if \<exists>x\<in>set rs. cr_id x = cr_id r then (update_first (\<lambda>x. cr_id x = cr_id r) (\<lambda>_. r) rs, timeline)
      else (r # rs, if \<exists>n\<in>set timeline. cn_id n = cr_id r \<and> cn_type n = ReceiptNode then timeline else timeline @ [receipt_node r]))"

definition addReceipt_merged :: "cp_receipt \<Rightarrow> 'a cockpit_st_scheme \<Rightarrow> 'a cockpit_st_scheme" where
  "addReceipt_merged r s = (let (rs, tl) = upsertReceipt (co_receipts s) (co_timeline s) r in s\<lparr>co_receipts := rs, co_timeline := tl\<rparr>)"

definition addReceiptFromGateway_merged :: "sysenv \<Rightarrow> string \<Rightarrow> gateway_receipt \<Rightarrow> 'a cockpit_st_scheme \<Rightarrow> 'a cockpit_st_scheme" where
  "addReceiptFromGateway_merged E agentId g s =
     (if \<exists>x\<in>set (co_receipts s). cr_id x = gw_receiptId g then s else addReceiptFromGateway E agentId g s)"

end
