(* ===== verification/CockpitBridge.thy ===== *)
theory CockpitBridge
  imports Cockpit
begin

text \<open>
  The other stores of the cockpit (\<open>clusterStore.ts\<close>, \<open>kernelStore.ts\<close>, \<open>driftStore.ts\<close>, \<open>toastStore.ts\<close>), the
  gateway of the cluster's events (\<open>bridge/events-gateway.ts\<close>) and the bridge to the server
  (\<open>bridge/WebSocketBridge.ts\<close>). Whether a message is an event of the gateway is decided by the
  schema library, a parameter; an event has the fields of its schema. The answer of a failed
  request is \<open>None\<close>.
\<close>

subsection \<open>Cluster, kernel, drift\<close>

datatype cell_state = CellOk | CellDrift | CellError

record snapshot_cell =
  sc_id :: string
  sc_state :: cell_state
  sc_hash :: "string option"

datatype link_status = LinkOnline | LinkOffline | LinkDrift | LinkError

record cluster_agent =
  cg_id :: string
  cg_status :: link_status
  cg_kernel :: "health option"
  cg_pitBand :: "jsnum option"
  cg_snapshots :: "snapshot_cell list"
  cg_receipts :: "gateway_receipt list"

record agent_patch =
  pa_id :: "string option"
  pa_status :: "link_status option"
  pa_kernel :: "health option"
  pa_pitBand :: "jsnum option"
  pa_snapshots :: "snapshot_cell list option"
  pa_receipts :: "gateway_receipt list option"

record cluster_event =
  ce_id :: string
  ce_type :: string
  ce_agent :: "string option"
  ce_time :: time
  ce_payload :: "json option"

record heartbeat =
  hb_invariantEngine :: health
  hb_constraintEngine :: health
  hb_continuity :: health
  hb_ledger :: health
  hb_pitBand :: jsnum
  hb_anchor :: string
  hb_prefix :: string

record divergence =
  dv_id :: string
  dv_type :: string
  dv_snapshot :: "string option"
  dv_agents :: "string list"

datatype toast_level = ToastInfo | ToastSuccess | ToastWarn | ToastError

record toast =
  to_id :: string
  to_message :: string
  to_level :: toast_level
  to_created :: time

record bridge_st = cockpit_st +
  cl_agents :: "(string, cluster_agent) jsmap"
  cl_selected :: "string option"
  cl_events :: "cluster_event list"
  cl_window :: "(string option \<times> string option) option"
  kn_version :: string
  kn_pitBand :: jsnum
  kn_status :: kstatus
  kn_anchor :: "string option"
  kn_prefix :: "string option"
  kn_perAgent :: "(string, heartbeat) jsmap"
  dr_agents :: "(string \<times> snapshot_cell list) list"
  dr_divergences :: "divergence list"
  toasts :: "toast list"
  br_connected :: bool
  br_polls :: "bool list"
  refresh_due :: bool

definition emptyAgent :: "string \<Rightarrow> cluster_agent option \<Rightarrow> cluster_agent" where
  "emptyAgent i old = (case old of Some a \<Rightarrow> a | None \<Rightarrow>
     \<lparr>cg_id = i, cg_status = LinkOnline, cg_kernel = None, cg_pitBand = None, cg_snapshots = [], cg_receipts = []\<rparr>)"

definition with_agent_entry :: "string \<Rightarrow> (cluster_agent \<Rightarrow> cluster_agent) \<Rightarrow> 'a bridge_st_scheme \<Rightarrow> 'a bridge_st_scheme" where
  "with_agent_entry i f s = s\<lparr>cl_agents := js_set i (f (emptyAgent i (js_get (cl_agents s) i))) (cl_agents s)\<rparr>"

definition or_old :: "'b option \<Rightarrow> 'b \<Rightarrow> 'b" where
  "or_old x d = (case x of Some v \<Rightarrow> v | None \<Rightarrow> d)"

definition updateAgentStatus_cluster :: "string \<Rightarrow> agent_patch \<Rightarrow> 'a bridge_st_scheme \<Rightarrow> 'a bridge_st_scheme" where
  "updateAgentStatus_cluster i p = with_agent_entry i (\<lambda>a. \<lparr>cg_id = or_old (pa_id p) (cg_id a), cg_status = or_old (pa_status p) (cg_status a),
     cg_kernel = (if pa_kernel p = None then cg_kernel a else pa_kernel p), cg_pitBand = (if pa_pitBand p = None then cg_pitBand a else pa_pitBand p),
     cg_snapshots = or_old (pa_snapshots p) (cg_snapshots a), cg_receipts = or_old (pa_receipts p) (cg_receipts a)\<rparr>)"

definition updateAgentKernelStatus :: "string \<Rightarrow> health \<Rightarrow> jsnum \<Rightarrow> 'a bridge_st_scheme \<Rightarrow> 'a bridge_st_scheme" where
  "updateAgentKernelStatus i h band = with_agent_entry i (\<lambda>a. a\<lparr>cg_kernel := Some h, cg_pitBand := Some band,
     cg_status := (case h of HealthError \<Rightarrow> LinkError | HealthWarn \<Rightarrow> LinkDrift | HealthOk \<Rightarrow> LinkOnline)\<rparr>)"

definition addAgentReceipt :: "string \<Rightarrow> gateway_receipt \<Rightarrow> 'a bridge_st_scheme \<Rightarrow> 'a bridge_st_scheme" where
  "addAgentReceipt i g = with_agent_entry i (\<lambda>a. a\<lparr>cg_receipts := g # cg_receipts a\<rparr>)"

definition addAgentSnapshot :: "string \<Rightarrow> string \<Rightarrow> string \<Rightarrow> 'a bridge_st_scheme \<Rightarrow> 'a bridge_st_scheme" where
  "addAgentSnapshot i snapshotId h =
     with_agent_entry i (\<lambda>a. a\<lparr>cg_snapshots := cg_snapshots a @ [\<lparr>sc_id = snapshotId, sc_state = CellOk, sc_hash = Some h\<rparr>]\<rparr>)"

definition heartbeat_entry :: "string \<times> health \<times> jsnum \<Rightarrow> 'a bridge_st_scheme \<Rightarrow> 'a bridge_st_scheme" where
  "heartbeat_entry = (\<lambda>(i, h, band). with_agent_entry i (\<lambda>a. a\<lparr>cg_kernel := Some h, cg_pitBand := Some band,
     cg_status := (if h = HealthError then LinkError else LinkOnline)\<rparr>))"

definition setClusterHeartbeat :: "(string \<times> health \<times> jsnum) list \<Rightarrow> 'a bridge_st_scheme \<Rightarrow> 'a bridge_st_scheme" where
  "setClusterHeartbeat hs s = fold heartbeat_entry hs s"

definition addDriftEvent :: "sysenv \<Rightarrow> string \<Rightarrow> string list \<Rightarrow> string \<Rightarrow> string \<Rightarrow> 'a bridge_st_scheme \<Rightarrow> 'a bridge_st_scheme" where
  "addDriftEvent E driftId agents snapshotId ty s =
     (let (t, s1) = take_now E s
      in s1\<lparr>cl_events := \<lparr>ce_id = driftId, ce_type = ''cluster.driftDetected'', ce_agent = None, ce_time = t,
           ce_payload = Some (JObj [(''driftId'', JStr driftId), (''agents'', jstrs agents), (''snapshotId'', JStr snapshotId),
             (''driftType'', JStr ty)])\<rparr> # cl_events s1\<rparr>)"

definition addClusterEvent ::
    "sysenv \<Rightarrow> string option \<Rightarrow> string \<Rightarrow> string option \<Rightarrow> time \<Rightarrow> json option \<Rightarrow> 'a bridge_st_scheme \<Rightarrow> 'a bridge_st_scheme" where
  "addClusterEvent E i ty agent t p s =
     (let (u, s1) = (case i of Some x \<Rightarrow> (x, s) | None \<Rightarrow> take_uuid E s)
      in s1\<lparr>cl_events := \<lparr>ce_id = u, ce_type = ty, ce_agent = agent, ce_time = t, ce_payload = p\<rparr> # cl_events s1\<rparr>)"

definition selectAgent :: "string option \<Rightarrow> 'a bridge_st_scheme \<Rightarrow> 'a bridge_st_scheme" where
  "selectAgent i s = s\<lparr>cl_selected := i\<rparr>"

definition setReplayWindow :: "(string option \<times> string option) option \<Rightarrow> 'a bridge_st_scheme \<Rightarrow> 'a bridge_st_scheme" where
  "setReplayWindow w s = s\<lparr>cl_window := w\<rparr>"

definition demo_cells :: "cell_state \<Rightarrow> snapshot_cell list" where
  "demo_cells st = [\<lparr>sc_id = ''s1'', sc_state = CellOk, sc_hash = None\<rparr>, \<lparr>sc_id = ''s2'', sc_state = st, sc_hash = None\<rparr>]"

text \<open>The demonstration agents are online whatever their kernels say.\<close>

definition seedDemoAgents :: "'a bridge_st_scheme \<Rightarrow> 'a bridge_st_scheme" where
  "seedDemoAgents s = s\<lparr>cl_agents :=
     [(''agent-alpha'', (emptyAgent ''agent-alpha'' None)\<lparr>cg_kernel := Some HealthOk, cg_pitBand := Some 2, cg_snapshots := demo_cells CellOk\<rparr>),
      (''agent-beta'', (emptyAgent ''agent-beta'' None)\<lparr>cg_kernel := Some HealthWarn, cg_pitBand := Some 3, cg_snapshots := demo_cells CellDrift\<rparr>)]\<rparr>"

definition updateHeartbeat :: "string \<Rightarrow> heartbeat \<Rightarrow> 'a bridge_st_scheme \<Rightarrow> 'a bridge_st_scheme" where
  "updateHeartbeat i p s =
     s\<lparr>kn_pitBand := hb_pitBand p, kn_anchor := Some (hb_anchor p), kn_prefix := Some (hb_prefix p),
       kn_perAgent := js_set i p (kn_perAgent s),
       kn_status := (kn_status s)\<lparr>kx_invariantEngine := hb_invariantEngine p, kx_ledger := hb_ledger p, kx_continuity := hb_continuity p\<rparr>\<rparr>"

definition setKernelVersion :: "string \<Rightarrow> 'a bridge_st_scheme \<Rightarrow> 'a bridge_st_scheme" where
  "setKernelVersion v s = s\<lparr>kn_version := v\<rparr>"

definition setPitBand :: "jsnum \<Rightarrow> 'a bridge_st_scheme \<Rightarrow> 'a bridge_st_scheme" where
  "setPitBand b s = s\<lparr>kn_pitBand := b\<rparr>"

definition updateStatus_kernel :: "kstatus \<Rightarrow> 'a bridge_st_scheme \<Rightarrow> 'a bridge_st_scheme" where
  "updateStatus_kernel k s = s\<lparr>kn_status := k\<rparr>"

definition setContinuityAnchor :: "string \<Rightarrow> 'a bridge_st_scheme \<Rightarrow> 'a bridge_st_scheme" where
  "setContinuityAnchor h s = s\<lparr>kn_anchor := Some h\<rparr>"

definition setDriftAgents :: "(string \<times> snapshot_cell list) list \<Rightarrow> 'a bridge_st_scheme \<Rightarrow> 'a bridge_st_scheme" where
  "setDriftAgents as s = s\<lparr>dr_agents := as\<rparr>"

definition setDivergences :: "divergence list \<Rightarrow> 'a bridge_st_scheme \<Rightarrow> 'a bridge_st_scheme" where
  "setDivergences ds s = s\<lparr>dr_divergences := ds\<rparr>"

definition appendDivergence ::
    "sysenv \<Rightarrow> string option \<Rightarrow> string \<Rightarrow> string option \<Rightarrow> string list \<Rightarrow> 'a bridge_st_scheme \<Rightarrow> 'a bridge_st_scheme" where
  "appendDivergence E i ty snap agents s =
     (let (u, s1) = (case i of Some x \<Rightarrow> (x, s) | None \<Rightarrow> take_uuid E s)
      in s1\<lparr>dr_divergences := \<lparr>dv_id = u, dv_type = ty, dv_snapshot = snap, dv_agents = agents\<rparr> # dr_divergences s1\<rparr>)"

definition syncFromCluster :: "(string, cluster_agent) jsmap \<Rightarrow> 'a bridge_st_scheme \<Rightarrow> 'a bridge_st_scheme" where
  "syncFromCluster agents s = s\<lparr>dr_agents := map (\<lambda>a. (cg_id a, cg_snapshots a)) (js_values agents)\<rparr>"

definition add_toast :: "sysenv \<Rightarrow> string \<Rightarrow> toast_level \<Rightarrow> 'a bridge_st_scheme \<Rightarrow> 'a bridge_st_scheme" where
  "add_toast E msg level s =
     (let (u, s1) = take_uuid E s; (t, s2) = take_now E s1
      in s2\<lparr>toasts := toasts s2 @ [\<lparr>to_id = u, to_message = msg, to_level = level, to_created = t\<rparr>]\<rparr>)"

definition remove_toast :: "string \<Rightarrow> 'a bridge_st_scheme \<Rightarrow> 'a bridge_st_scheme" where
  "remove_toast i s = s\<lparr>toasts := filter (\<lambda>t. to_id t \<noteq> i) (toasts s)\<rparr>"

subsection \<open>The gateway\<close>

text \<open>The two ways a store takes a receipt are an argument, so that both stores can be fed.\<close>

type_synonym 'a feed = "(cp_receipt \<Rightarrow> 'a bridge_st_scheme \<Rightarrow> 'a bridge_st_scheme) \<times>
  (string \<Rightarrow> gateway_receipt \<Rightarrow> 'a bridge_st_scheme \<Rightarrow> 'a bridge_st_scheme)"

definition main_feed :: "sysenv \<Rightarrow> 'a feed" where
  "main_feed E = (addReceipt, addReceiptFromGateway E)"

definition merging_feed :: "sysenv \<Rightarrow> 'a feed" where
  "merging_feed E = (addReceipt_merged, addReceiptFromGateway_merged E)"

datatype gateway_event =
    KernelHeartbeat string heartbeat
  | KernelInvariantViolation string string string string string
  | KernelReceipt string gateway_receipt
  | KernelSnapshot string string string bool
  | AgentPlan string string "(string \<times> string) list"
  | AgentAction string string string string
  | ClusterHeartbeat "(string \<times> health \<times> jsnum) list"
  | ClusterDriftDetected string "string list" string string
  | ClusterReplayResult "(string \<times> (string \<times> string \<times> cell_state option) list) list" "divergence list"

definition aggregateKernelStatus :: "heartbeat \<Rightarrow> health" where
  "aggregateKernelStatus p =
     (let statuses = [hb_invariantEngine p, hb_constraintEngine p, hb_continuity p, hb_ledger p]
      in if HealthError \<in> set statuses then HealthError else if HealthWarn \<in> set statuses then HealthWarn else HealthOk)"

definition handleKernelHeartbeat :: "string \<Rightarrow> heartbeat \<Rightarrow> 'a bridge_st_scheme \<Rightarrow> 'a bridge_st_scheme" where
  "handleKernelHeartbeat i p s = updateAgentKernelStatus i (aggregateKernelStatus p) (hb_pitBand p) (updateHeartbeat i p s)"

definition replay_column :: "string \<times> (string \<times> string \<times> cell_state option) list \<Rightarrow> string \<times> snapshot_cell list" where
  "replay_column = (\<lambda>(i, cells). (i, map (\<lambda>(c, _, st). \<lparr>sc_id = c, sc_state = or_old st CellOk, sc_hash = None\<rparr>) cells))"

primrec routeEvent :: "sysenv \<Rightarrow> 'a feed \<Rightarrow> gateway_event \<Rightarrow> 'a bridge_st_scheme \<Rightarrow> 'a bridge_st_scheme" where
  "routeEvent E fd (KernelHeartbeat i p) s = handleKernelHeartbeat i p s"
| "routeEvent E fd (KernelInvariantViolation i inv_id msg act sev) s = addViolationFromGateway E i inv_id msg act sev s"
| "routeEvent E fd (KernelReceipt i g) s = addAgentReceipt i g (snd fd i g s)"
| "routeEvent E fd (KernelSnapshot i sn h partial) s = addAgentSnapshot i sn h (addSnapshotFromGateway E i sn h s)"
| "routeEvent E fd (AgentPlan i p steps) s = setPlanForAgent i p steps s"
| "routeEvent E fd (AgentAction i act st d) s = addActionLog E i d s"
| "routeEvent E fd (ClusterHeartbeat hs) s = setClusterHeartbeat hs s"
| "routeEvent E fd (ClusterDriftDetected d agents sn ty) s =
     appendDivergence E (Some d) ty (Some sn) agents (addDriftEvent E d agents sn ty s)"
| "routeEvent E fd (ClusterReplayResult per ds) s = setDivergences ds (setDriftAgents (map replay_column per) s)"

definition handleEvent :: "sysenv \<Rightarrow> 'a feed \<Rightarrow> (json \<Rightarrow> gateway_event option) \<Rightarrow> json \<Rightarrow> 'a bridge_st_scheme \<Rightarrow> 'a bridge_st_scheme" where
  "handleEvent E fd parse_event raw s = (case parse_event raw of None \<Rightarrow> s | Some e \<Rightarrow> routeEvent E fd e s)"

subsection \<open>The bridge to the server\<close>

text \<open>A message of the event stream: its event, the fields of its data the bridge reads, with their declared
  types when they are there, and the data itself, for the gateway. An absent field of a stored
  receipt has the empty value.\<close>

record sse_msg =
  ms_event :: string
  ms_id :: "string option"
  ms_time :: time
  ms_action :: "action option"
  ms_checked :: "string list option"
  ms_continuity :: "string option"
  ms_authority :: "string option"
  ms_blocked :: "bool option"
  ms_reason :: "string option"
  ms_ledgerHash :: "string option"
  ms_typed :: bool
  ms_data :: json

definition requestEvidenceRefresh :: "'a bridge_st_scheme \<Rightarrow> 'a bridge_st_scheme" where
  "requestEvidenceRefresh s = s\<lparr>refresh_due := True\<rparr>"

definition payload_receipt :: "string \<Rightarrow> action \<Rightarrow> sse_msg \<Rightarrow> cp_receipt" where
  "payload_receipt i a m = \<lparr>cr_id = i, cr_time = ms_time m, cr_authority = ms_authority m, cr_action = a, cr_checked = or_old (ms_checked m) [],
     cr_continuity = or_old (ms_continuity m) [], cr_ledgerHash = or_old (ms_ledgerHash m) [], cr_blocked = ms_blocked m,
     cr_reason = ms_reason m\<rparr>"

definition payload_gateway :: "string \<Rightarrow> action \<Rightarrow> sse_msg \<Rightarrow> gateway_receipt" where
  "payload_gateway i a m = \<lparr>gw_receiptId = i, gw_actionId = a_type a, gw_checked = or_old (ms_checked m) [], gw_pitBand = 1,
     gw_continuity = or_old (ms_continuity m) []\<rparr>"

text \<open>A receipt without an action makes the store throw, which is the value \<open>None\<close>. (The merging store throws for a
  new identifier only; the server sends no receipt without an action, and the case of a known one is left out.)\<close>

definition ingestReceiptPayload :: "'a feed \<Rightarrow> sse_msg \<Rightarrow> 'a bridge_st_scheme \<Rightarrow> 'a bridge_st_scheme option" where
  "ingestReceiptPayload fd m s =
     (case ms_id m of
        None \<Rightarrow> Some s
      | Some i \<Rightarrow>
          if i = [] then Some s
          else case ms_action m of
                 None \<Rightarrow> None
               | Some a \<Rightarrow> Some (snd fd ''nova-spine'' (payload_gateway i a m) (fst fd (payload_receipt i a m) s)))"

definition onNamed ::
    "sysenv \<Rightarrow> 'a feed \<Rightarrow> (json \<Rightarrow> gateway_event option) \<Rightarrow> sse_msg \<Rightarrow> 'a bridge_st_scheme \<Rightarrow> 'a bridge_st_scheme" where
  "onNamed E fd parse_event m s =
     (case (if ms_event m = ''receipt'' \<or> ms_action m \<noteq> None then ingestReceiptPayload fd m s else Some s) of
        None \<Rightarrow> s
      | Some s1 \<Rightarrow> requestEvidenceRefresh (if ms_typed m then handleEvent E fd parse_event (ms_data m) s1 else s1))"

record rest_answers =
  ra_kernel :: "kstatus option"
  ra_cluster :: "(string \<times> string) list option"
  ra_receipts :: "cp_receipt list option"

definition pollKernel :: "sysenv \<Rightarrow> kstatus option \<Rightarrow> 'a bridge_st_scheme \<Rightarrow> 'a bridge_st_scheme" where
  "pollKernel E data s =
     (case data of
        None \<Rightarrow> s
      | Some k \<Rightarrow>
          let (t1, s1) = take_now E (updateKernelStatus k s); (t2, s2) = take_now E (updateKernelStatus k (setLastHeartbeat t1 s1))
          in requestEvidenceRefresh (setLastHeartbeat t2 s2))"

definition polled_agents :: "(string \<times> string) list \<Rightarrow> (string, health \<times> jsnum) jsmap" where
  "polled_agents as = fold (\<lambda>(i, st) m. js_set i (if st = ''error'' then HealthError else HealthOk, 1) m) as []"

definition pollCluster :: "(string \<times> string) list option \<Rightarrow> 'a bridge_st_scheme \<Rightarrow> 'a bridge_st_scheme" where
  "pollCluster data s =
     (case data of
        None \<Rightarrow> s
      | Some as \<Rightarrow> if polled_agents as = [] then s else requestEvidenceRefresh (setClusterHeartbeat (polled_agents as) s))"

definition pollReceipts :: "'a feed \<Rightarrow> cp_receipt list option \<Rightarrow> 'a bridge_st_scheme \<Rightarrow> 'a bridge_st_scheme" where
  "pollReceipts fd data s =
     (case data of
        None \<Rightarrow> s
      | Some rs \<Rightarrow>
          let s1 = fold (fst fd) (filter (\<lambda>r. cr_id r \<noteq> []) rs) s in if rs = [] then s1 else requestEvidenceRefresh s1)"

definition poll_round :: "sysenv \<Rightarrow> 'a feed \<Rightarrow> bool \<Rightarrow> rest_answers \<Rightarrow> 'a bridge_st_scheme \<Rightarrow> 'a bridge_st_scheme" where
  "poll_round E fd with_receipts a s =
     (let s1 = pollCluster (ra_cluster a) (pollKernel E (ra_kernel a) s)
      in if with_receipts then pollReceipts fd (ra_receipts a) s1 else s1)"

text \<open>Starting to poll asks for everything once; a soft interval leaves the receipts out afterwards. The
  list holds, for each running interval, whether it is soft.\<close>

definition startRESTPolling :: "sysenv \<Rightarrow> 'a feed \<Rightarrow> bool \<Rightarrow> rest_answers \<Rightarrow> 'a bridge_st_scheme \<Rightarrow> 'a bridge_st_scheme" where
  "startRESTPolling E fd soft a s = (let s1 = poll_round E fd True a s in s1\<lparr>br_polls := br_polls s1 @ [soft]\<rparr>)"

definition connectClusterBridge :: "sysenv \<Rightarrow> 'a feed \<Rightarrow> bool \<Rightarrow> rest_answers \<Rightarrow> 'a bridge_st_scheme \<Rightarrow> 'a bridge_st_scheme" where
  "connectClusterBridge E fd stream a s =
     (if br_connected s then s else startRESTPolling E fd stream a (s\<lparr>br_connected := True\<rparr>))"

definition stream_error :: "sysenv \<Rightarrow> 'a feed \<Rightarrow> rest_answers \<Rightarrow> 'a bridge_st_scheme \<Rightarrow> 'a bridge_st_scheme" where
  "stream_error E fd a s = startRESTPolling E fd False a s"

definition disconnectClusterBridge :: "'a bridge_st_scheme \<Rightarrow> 'a bridge_st_scheme" where
  "disconnectClusterBridge s = s\<lparr>br_polls := [], br_connected := False\<rparr>"

subsection \<open>Feeding receipts\<close>

abbreviation receipt_ids :: "'a cockpit_st_scheme \<Rightarrow> string list" where
  "receipt_ids s \<equiv> map cr_id (co_receipts s)"

lemma main_poll:
  "receipt_ids (pollReceipts (main_feed E) (Some rs) s) = rev (map cr_id (filter (\<lambda>r. cr_id r \<noteq> []) rs)) @ receipt_ids s"
proof -
  have "receipt_ids (fold addReceipt xs u) = rev (map cr_id xs) @ receipt_ids u" for xs and u :: "'a bridge_st_scheme"
    by (induction xs arbitrary: u) (simp_all add: addReceipt_def)
  then show ?thesis by (simp add: pollReceipts_def main_feed_def requestEvidenceRefresh_def Let_def)
qed

text \<open>The merging store: an identifier occurs once, and the last receipt of a list wins.\<close>

definition latest :: "cp_receipt list \<Rightarrow> cp_receipt \<Rightarrow> cp_receipt" where
  "latest xs x = (case List.find (\<lambda>r. cr_id r = cr_id x) (rev xs) of Some r \<Rightarrow> r | None \<Rightarrow> x)"

lemma latest_id [simp]: "cr_id (latest xs x) = cr_id x"
  by (auto simp: latest_def split: option.split dest: find_SomeD)

lemma latest_snoc: "latest (xs @ [r]) x = (if cr_id r = cr_id x then r else latest xs x)"
  by (simp add: latest_def)

lemma replace_map:
  "distinct (map cr_id rs) \<Longrightarrow> update_first (\<lambda>x. cr_id x = cr_id r) (\<lambda>_. r) rs = map (\<lambda>x. if cr_id x = cr_id r then r else x) rs"
proof (induction rs)
  case (Cons a rs)
  have "\<forall>x\<in>set rs. cr_id x \<noteq> cr_id a" using Cons.prems by (auto simp: image_iff)
  then have "cr_id a = cr_id r \<Longrightarrow> map (\<lambda>x. if cr_id x = cr_id r then r else x) rs = rs" by (intro map_idI) auto
  with Cons show ?case by auto
qed simp

lemma merged_known:
  assumes "distinct (receipt_ids s)" and "cr_id r \<in> set (receipt_ids s)"
  shows "addReceipt_merged r s = s\<lparr>co_receipts := map (\<lambda>x. if cr_id x = cr_id r then r else x) (co_receipts s)\<rparr>"
proof -
  from assms(2) obtain x where "x \<in> set (co_receipts s)" "cr_id x = cr_id r" by auto
  then have "\<exists>x\<in>set (co_receipts s). cr_id x = cr_id r" by blast
  with assms(1) show ?thesis by (simp add: addReceipt_merged_def upsertReceipt_def replace_map)
qed

lemma merged_new:
  assumes "cr_id r \<notin> set (receipt_ids s)"
  shows "\<exists>tl. addReceipt_merged r s = s\<lparr>co_receipts := r # co_receipts s, co_timeline := tl\<rparr>"
proof -
  have "\<not> (\<exists>x\<in>set (co_receipts s). cr_id x = cr_id r)" using assms by (auto simp: image_iff)
  then show ?thesis
    by (intro exI [of _ "snd (upsertReceipt (co_receipts s) (co_timeline s) r)"]) (simp add: addReceipt_merged_def upsertReceipt_def)
qed

lemma merged_ids:
  "distinct (receipt_ids s) \<Longrightarrow> distinct (receipt_ids (addReceipt_merged r s)) \<and>
     set (receipt_ids (addReceipt_merged r s)) = insert (cr_id r) (set (receipt_ids s))"
proof (cases "cr_id r \<in> set (receipt_ids s)")
  case True
  assume d: "distinct (receipt_ids s)"
  have "receipt_ids (addReceipt_merged r s) = receipt_ids s"
    unfolding merged_known [OF d True] by (simp add: o_def cong: map_cong)
  with d True show ?thesis by auto
next
  case False
  assume "distinct (receipt_ids s)"
  with False merged_new [OF False] show ?thesis by auto
qed

lemma merged_settled:
  "distinct (receipt_ids s) \<Longrightarrow> distinct (receipt_ids (fold addReceipt_merged xs s)) \<and>
     (\<forall>r\<in>set xs. cr_id r \<in> set (receipt_ids (fold addReceipt_merged xs s))) \<and>
     (\<forall>y\<in>set (co_receipts (fold addReceipt_merged xs s)). latest xs y = y)"
proof (induction xs rule: rev_induct)
  case Nil
  then show ?case by (simp add: latest_def)
next
  case (snoc r xs)
  let ?s = "fold addReceipt_merged xs s"
  from snoc have ih: "distinct (receipt_ids ?s)" "\<forall>r\<in>set xs. cr_id r \<in> set (receipt_ids ?s)" "\<forall>y\<in>set (co_receipts ?s). latest xs y = y" by blast+
  have "\<forall>y\<in>set (co_receipts (addReceipt_merged r ?s)). latest (xs @ [r]) y = y"
  proof (cases "cr_id r \<in> set (receipt_ids ?s)")
    case True
    show ?thesis unfolding merged_known [OF ih(1) True] using ih(3) by (auto simp: latest_snoc)
  next
    case False
    from merged_new [OF False] obtain tl where "co_receipts (addReceipt_merged r ?s) = r # co_receipts ?s" by auto
    then show ?thesis using ih(3) False by (auto simp: latest_snoc)
  qed
  with merged_ids [OF ih(1), of r] ih(2) show ?case by auto
qed

lemma merged_again:
  "distinct (receipt_ids s) \<Longrightarrow> \<forall>r\<in>set xs. cr_id r \<in> set (receipt_ids s) \<Longrightarrow>
     fold addReceipt_merged xs s = s\<lparr>co_receipts := map (latest xs) (co_receipts s)\<rparr>"
proof (induction xs rule: rev_induct)
  case Nil
  then show ?case by (simp add: latest_def)
next
  case (snoc r xs)
  let ?s = "s\<lparr>co_receipts := map (latest xs) (co_receipts s)\<rparr>"
  have ids: "receipt_ids ?s = receipt_ids s" by simp
  have "fold addReceipt_merged (xs @ [r]) s = addReceipt_merged r ?s" using snoc by simp
  also have "\<dots> = ?s\<lparr>co_receipts := map (\<lambda>x. if cr_id x = cr_id r then r else x) (co_receipts ?s)\<rparr>"
    by (rule merged_known) (use snoc.prems ids in \<open>simp_all del: map_map\<close>)
  also have "\<dots> = s\<lparr>co_receipts := map (latest (xs @ [r])) (co_receipts s)\<rparr>" by (simp add: latest_snoc o_def eq_commute cong: map_cong)
  finally show ?case .
qed

lemma merged_idem:
  assumes "distinct (receipt_ids s)"
  shows "fold addReceipt_merged xs (fold addReceipt_merged xs s) = fold addReceipt_merged xs s"
proof -
  let ?s = "fold addReceipt_merged xs s"
  note st = merged_settled [OF assms, of xs]
  have "map (latest xs) (co_receipts ?s) = co_receipts ?s" using st by (intro map_idI) blast
  with merged_again [of ?s xs] st show ?thesis by simp
qed

subsection \<open>Runs\<close>

datatype bridge_event =
    Message sse_msg
  | Poll bool rest_answers
  | Connect bool rest_answers
  | StreamError rest_answers
  | Disconnect
  | Routed gateway_event

primrec bridge_step :: "sysenv \<Rightarrow> 'a feed \<Rightarrow> (json \<Rightarrow> gateway_event option) \<Rightarrow> bridge_event \<Rightarrow> 'a bridge_st_scheme \<Rightarrow> 'a bridge_st_scheme" where
  "bridge_step E fd Z (Message m) s = onNamed E fd Z m s"
| "bridge_step E fd Z (Poll b a) s = poll_round E fd b a s"
| "bridge_step E fd Z (Connect b a) s = connectClusterBridge E fd b a s"
| "bridge_step E fd Z (StreamError a) s = stream_error E fd a s"
| "bridge_step E fd Z Disconnect s = disconnectClusterBridge s"
| "bridge_step E fd Z (Routed e) s = routeEvent E fd e s"

text \<open>Every agent of the cluster view is kept under its own identifier, and its status says error exactly
  when its kernel does; a kernel that is fine is online, and a drifting agent's kernel warns.\<close>

definition agent_ok :: "string \<Rightarrow> cluster_agent \<Rightarrow> bool" where
  "agent_ok i a \<longleftrightarrow> cg_id a = i \<and> (cg_status a = LinkError \<longleftrightarrow> cg_kernel a = Some HealthError) \<and>
     (cg_kernel a = Some HealthOk \<longrightarrow> cg_status a = LinkOnline) \<and> (cg_status a = LinkDrift \<longrightarrow> cg_kernel a = Some HealthWarn)"

definition bridge_ok :: "'a bridge_st_scheme \<Rightarrow> bool" where
  "bridge_ok s \<longleftrightarrow> (\<forall>i a. js_get (cl_agents s) i = Some a \<longrightarrow> agent_ok i a)"

definition merged_ok :: "'a bridge_st_scheme \<Rightarrow> bool" where
  "merged_ok s \<longleftrightarrow> bridge_ok s \<and> distinct (receipt_ids s)"

text \<open>What a feed may do: it leaves the cluster alone.\<close>

definition feed_ok :: "'a feed \<Rightarrow> bool" where
  "feed_ok fd \<longleftrightarrow> (\<forall>r s. cl_agents (fst fd r s) = cl_agents s) \<and> (\<forall>i g s. cl_agents (snd fd i g s) = cl_agents s)"

lemma feeds_ok: "feed_ok (main_feed E)" "feed_ok (merging_feed E)"
  by (auto simp: feed_ok_def main_feed_def merging_feed_def addReceipt_def addReceiptFromGateway_def addReceipt_merged_def
      addReceiptFromGateway_merged_def take_now_def Let_def split: prod.split)

lemma entry_ok: "bridge_ok s \<Longrightarrow> (\<And>a. agent_ok i a \<Longrightarrow> agent_ok i (f a)) \<Longrightarrow> bridge_ok (with_agent_entry i f s)"
proof -
  assume ok: "bridge_ok s" and f: "\<And>a. agent_ok i a \<Longrightarrow> agent_ok i (f a)"
  have "agent_ok i (emptyAgent i (js_get (cl_agents s) i))"
    using ok by (cases "js_get (cl_agents s) i") (auto simp: emptyAgent_def agent_ok_def bridge_ok_def)
  with ok f show ?thesis by (simp add: with_agent_entry_def bridge_ok_def)
qed

lemma heartbeats_ok: "bridge_ok s \<Longrightarrow> bridge_ok (setClusterHeartbeat hs s)"
proof (induction hs arbitrary: s)
  case (Cons h hs)
  obtain i k b where h: "h = (i, k, b)" by (cases h)
  have "bridge_ok (heartbeat_entry h s)"
    unfolding h heartbeat_entry_def prod.case by (rule entry_ok [OF Cons.prems]) (auto simp: agent_ok_def)
  then show ?case using Cons.IH by (simp add: setClusterHeartbeat_def)
qed (simp add: setClusterHeartbeat_def)

lemma bridge_ok_frame: "bridge_ok s \<Longrightarrow> cl_agents t = cl_agents s \<Longrightarrow> bridge_ok t"
  by (simp add: bridge_ok_def)

lemma route_ok: "feed_ok fd \<Longrightarrow> bridge_ok s \<Longrightarrow> bridge_ok (routeEvent E fd e s)"
proof (cases e)
  case (KernelHeartbeat i p)
  assume "bridge_ok s"
  then have "bridge_ok (updateHeartbeat i p s)" by (rule bridge_ok_frame) (simp add: updateHeartbeat_def)
  then show ?thesis unfolding KernelHeartbeat routeEvent.simps handleKernelHeartbeat_def updateAgentKernelStatus_def
    by (rule entry_ok) (auto simp: agent_ok_def split: health.split)
next
  case (KernelReceipt i g)
  assume fd: "feed_ok fd" and ok: "bridge_ok s"
  have "bridge_ok (snd fd i g s)" by (rule bridge_ok_frame [OF ok]) (use fd in \<open>simp add: feed_ok_def\<close>)
  then show ?thesis unfolding KernelReceipt routeEvent.simps addAgentReceipt_def by (rule entry_ok) (auto simp: agent_ok_def)
next
  case (KernelSnapshot i sn h p)
  assume "bridge_ok s"
  then have "bridge_ok (addSnapshotFromGateway E i sn h s)"
    by (rule bridge_ok_frame) (simp add: addSnapshotFromGateway_def take_now_def)
  then show ?thesis unfolding KernelSnapshot routeEvent.simps addAgentSnapshot_def by (rule entry_ok) (auto simp: agent_ok_def)
next
  case (ClusterHeartbeat hs)
  assume "bridge_ok s"
  then show ?thesis by (simp add: ClusterHeartbeat heartbeats_ok)
qed (auto intro: bridge_ok_frame simp: addViolationFromGateway_def setPlanForAgent_def addActionLog_def appendDivergence_def addDriftEvent_def
    setDivergences_def setDriftAgents_def take_uuid_def take_now_def Let_def)

lemma poll_ok: "feed_ok fd \<Longrightarrow> bridge_ok s \<Longrightarrow> bridge_ok (poll_round E fd b a s)"
proof -
  assume fd: "feed_ok fd" and ok: "bridge_ok s"
  have k: "bridge_ok (pollKernel E x s)" for x
    by (rule bridge_ok_frame [OF ok]) (simp add: pollKernel_def updateKernelStatus_def setLastHeartbeat_def requestEvidenceRefresh_def
      take_now_def Let_def split: option.split)
  have c: "bridge_ok (pollCluster x u)" if "bridge_ok u" for x and u :: "'a bridge_st_scheme"
    using heartbeats_ok [OF that] bridge_ok_frame [of "setClusterHeartbeat hs u" "requestEvidenceRefresh (setClusterHeartbeat hs u)" for hs]
    by (auto simp: pollCluster_def requestEvidenceRefresh_def that split: option.split)
  have f: "cl_agents (fold (fst fd) xs u) = cl_agents u" for xs and u :: "'a bridge_st_scheme"
    using fd by (induction xs arbitrary: u) (simp_all add: feed_ok_def)
  have r: "bridge_ok (pollReceipts fd x u)" if "bridge_ok u" for x and u :: "'a bridge_st_scheme"
    by (rule bridge_ok_frame [OF that]) (simp add: pollReceipts_def f requestEvidenceRefresh_def Let_def split: option.split)
  show ?thesis using c [OF k] r by (simp add: poll_round_def Let_def)
qed

lemma message_ok:
  assumes "feed_ok fd" and "bridge_ok s"
  shows "bridge_ok (onNamed E fd Z m s)"
proof -
  have h: "bridge_ok (handleEvent E fd Z x u)" if "bridge_ok u" for x and u :: "'a bridge_st_scheme"
    using route_ok [OF assms(1) that] that by (simp add: handleEvent_def split: option.split)
  have q: "bridge_ok (requestEvidenceRefresh u)" if "bridge_ok u" for u :: "'a bridge_st_scheme"
    by (rule bridge_ok_frame [OF that]) (simp add: requestEvidenceRefresh_def)
  have i: "bridge_ok u" if "ingestReceiptPayload fd m s = Some u" for u
    by (rule bridge_ok_frame [OF assms(2)]) (use that assms(1) in \<open>auto simp: ingestReceiptPayload_def feed_ok_def split: option.splits if_splits\<close>)
  show ?thesis using assms(2) h q i by (auto simp: onNamed_def split: option.split)
qed

lemma start_ok: "feed_ok fd \<Longrightarrow> bridge_ok s \<Longrightarrow> bridge_ok (startRESTPolling E fd b a s)"
  unfolding startRESTPolling_def Let_def by (rule bridge_ok_frame [OF poll_ok]) simp_all

lemma bridge_step_ok: "feed_ok fd \<Longrightarrow> bridge_ok s \<Longrightarrow> bridge_ok (bridge_step E fd Z e s)"
proof (cases e)
  case (Connect b a)
  assume fd: "feed_ok fd" and ok: "bridge_ok s"
  have "bridge_ok (s\<lparr>br_connected := True\<rparr>)" by (rule bridge_ok_frame [OF ok]) simp
  with start_ok [OF fd] ok show ?thesis by (simp add: Connect connectClusterBridge_def)
next
  case (StreamError a)
  assume "feed_ok fd" and "bridge_ok s"
  then show ?thesis by (simp add: StreamError stream_error_def start_ok)
next
  case Disconnect
  assume "bridge_ok s"
  then show ?thesis unfolding Disconnect bridge_step.simps by (rule bridge_ok_frame) (simp add: disconnectClusterBridge_def)
qed (simp_all add: message_ok poll_ok route_ok)

text \<open>The merging store keeps identifiers distinct through every step.\<close>

definition distinct_feed :: "'a feed \<Rightarrow> bool" where
  "distinct_feed fd \<longleftrightarrow> (\<forall>r s. distinct (receipt_ids s) \<longrightarrow> distinct (receipt_ids (fst fd r s))) \<and>
     (\<forall>i g s. distinct (receipt_ids s) \<longrightarrow> distinct (receipt_ids (snd fd i g s)))"

lemma merging_distinct: "distinct_feed (merging_feed E)"
  using merged_ids
  by (auto simp: distinct_feed_def merging_feed_def addReceiptFromGateway_merged_def addReceiptFromGateway_def placeholder_receipt_def
      take_now_def Let_def)

lemma receipts_elsewhere:
  "co_receipts (updateHeartbeat i p s) = co_receipts s" "co_receipts (with_agent_entry i f s) = co_receipts s"
  by (simp_all add: updateHeartbeat_def with_agent_entry_def)

lemma receipts_heartbeat [simp]: "co_receipts (setClusterHeartbeat hs s) = co_receipts s"
  unfolding setClusterHeartbeat_def
  by (induction hs arbitrary: s) (simp_all add: heartbeat_entry_def receipts_elsewhere split: prod.split)

lemma route_distinct: "distinct_feed fd \<Longrightarrow> distinct (receipt_ids s) \<Longrightarrow> distinct (receipt_ids (routeEvent E fd e s))"
  by (cases e) (simp_all add: distinct_feed_def handleKernelHeartbeat_def updateAgentKernelStatus_def addAgentReceipt_def
    addAgentSnapshot_def receipts_elsewhere addViolationFromGateway_def addSnapshotFromGateway_def setPlanForAgent_def addActionLog_def
    appendDivergence_def addDriftEvent_def setDivergences_def setDriftAgents_def take_uuid_def take_now_def Let_def)

lemma fold_distinct: "distinct_feed fd \<Longrightarrow> distinct (receipt_ids s) \<Longrightarrow> distinct (receipt_ids (fold (fst fd) rs s))"
  by (induction rs arbitrary: s) (simp_all add: distinct_feed_def)

lemma poll_distinct: "distinct_feed fd \<Longrightarrow> distinct (receipt_ids s) \<Longrightarrow> distinct (receipt_ids (poll_round E fd b a s))"
  by (simp add: poll_round_def pollKernel_def pollCluster_def pollReceipts_def updateKernelStatus_def setLastHeartbeat_def
    requestEvidenceRefresh_def take_now_def Let_def fold_distinct split: option.split)

lemma step_distinct: "distinct_feed fd \<Longrightarrow> distinct (receipt_ids s) \<Longrightarrow> distinct (receipt_ids (bridge_step E fd Z e s))"
proof (cases e)
  case (Message m)
  assume fd: "distinct_feed fd" and d: "distinct (receipt_ids s)"
  have i: "distinct (receipt_ids u)" if "ingestReceiptPayload fd m s = Some u" for u
    using that fd d by (auto simp: ingestReceiptPayload_def distinct_feed_def split: option.splits if_splits)
  show ?thesis using d i route_distinct [OF fd]
    by (auto simp: Message onNamed_def requestEvidenceRefresh_def handleEvent_def split: option.split)
qed (simp_all add: poll_distinct route_distinct connectClusterBridge_def stream_error_def startRESTPolling_def disconnectClusterBridge_def Let_def)

interpretation cluster_view: machine "bridge_step E (main_feed E) Z" bridge_ok
  by unfold_locales (rule bridge_step_ok [OF feeds_ok(1)])

interpretation merged_view: machine "bridge_step E (merging_feed E) Z" merged_ok
  by unfold_locales (simp add: merged_ok_def bridge_step_ok [OF feeds_ok(2)] step_distinct [OF merging_distinct])

definition init_bridge :: bridge_st where
  "init_bridge = cockpit_st.extend init_cockpit \<lparr>cl_agents = [], cl_selected = None, cl_events = [], cl_window = None, kn_version = ''CRK-2'',
     kn_pitBand = 1, kn_status = defaultKernel, kn_anchor = None, kn_prefix = None, kn_perAgent = [], dr_agents = [], dr_divergences = [],
     toasts = [], br_connected = False, br_polls = [], refresh_due = False\<rparr>"

lemma init_bridge_ok: "merged_ok init_bridge"
  by (simp add: merged_ok_def bridge_ok_def init_bridge_def cockpit_st.defs init_cockpit_def)

subsection \<open>Properties\<close>

text \<open>C35. The receipts of the cockpit. In the store the cockpit runs on, a receipt message of the event stream
  adds its receipt twice, since the two stores it is given to are one, with one node of the timeline;
  and a poll adds every receipt of the answer anew, however often it has been seen. In the merging
  store an identifier occurs once after any run of the bridge, polling again changes nothing, and a
  receipt that came first as an event of the gateway never gets a node in the timeline.\<close>

theorem receipt_feed:
  fixes s :: "'a bridge_st_scheme" and u :: bridge_st
  assumes "ms_event m = ''receipt''" and "ms_id m = Some i" and "i \<noteq> []" and "ms_action m = Some a" and "\<not> ms_typed m"
    and "u = fold (bridge_step E (merging_feed E) Z) es init_bridge"
  shows "receipt_ids (onNamed E (main_feed E) Z m s) = i # i # receipt_ids s \<and>
     co_timeline (onNamed E (main_feed E) Z m s) = co_timeline s @ [receipt_node (payload_receipt i a m)] \<and>
     (\<forall>rs. receipt_ids (pollReceipts (main_feed E) (Some rs) s) = rev (map cr_id (filter (\<lambda>r. cr_id r \<noteq> []) rs)) @ receipt_ids s) \<and>
     distinct (receipt_ids u) \<and>
     (\<forall>rs. pollReceipts (merging_feed E) rs (pollReceipts (merging_feed E) rs u) = pollReceipts (merging_feed E) rs u) \<and>
     (\<forall>x g r. gw_receiptId g \<notin> set (receipt_ids u) \<and> cr_id r = gw_receiptId g \<longrightarrow>
        co_timeline (addReceipt_merged r (addReceiptFromGateway_merged E x g u)) = co_timeline u)"
proof (intro conjI allI impI)
  show "receipt_ids (onNamed E (main_feed E) Z m s) = i # i # receipt_ids s"
    and "co_timeline (onNamed E (main_feed E) Z m s) = co_timeline s @ [receipt_node (payload_receipt i a m)]"
    using assms(1-5) by (simp_all add: onNamed_def ingestReceiptPayload_def main_feed_def addReceipt_def addReceiptFromGateway_def
        placeholder_receipt_def payload_receipt_def payload_gateway_def requestEvidenceRefresh_def take_now_def)
  show "receipt_ids (pollReceipts (main_feed E) (Some rs) s) = rev (map cr_id (filter (\<lambda>r. cr_id r \<noteq> []) rs)) @ receipt_ids s" for rs
    by (rule main_poll)
  have "merged_ok u" unfolding assms(6) by (rule merged_view.run_inv [OF init_bridge_ok])
  then show d: "distinct (receipt_ids u)" by (simp add: merged_ok_def)
  have r1: "addReceipt_merged y (v\<lparr>refresh_due := True\<rparr>) = (addReceipt_merged y v)\<lparr>refresh_due := True\<rparr>" for y and v :: bridge_st
    by (simp add: addReceipt_merged_def split: prod.split)
  have r: "fold addReceipt_merged xs (v\<lparr>refresh_due := True\<rparr>) = (fold addReceipt_merged xs v)\<lparr>refresh_due := True\<rparr>" for xs and v :: bridge_st
    by (induction xs arbitrary: v) (simp_all add: r1)
  show "pollReceipts (merging_feed E) rs (pollReceipts (merging_feed E) rs u) = pollReceipts (merging_feed E) rs u" for rs
    using merged_idem [OF d] by (simp add: pollReceipts_def merging_feed_def requestEvidenceRefresh_def r Let_def split: option.split)
  fix x and g :: gateway_receipt and r :: cp_receipt
  assume g: "gw_receiptId g \<notin> set (receipt_ids u) \<and> cr_id r = gw_receiptId g"
  then have n: "\<not> (\<exists>y\<in>set (co_receipts u). cr_id y = gw_receiptId g)" by (auto simp: image_iff)
  then have "addReceiptFromGateway_merged E x g u = addReceiptFromGateway E x g u" by (simp add: addReceiptFromGateway_merged_def)
  then show "co_timeline (addReceipt_merged r (addReceiptFromGateway_merged E x g u)) = co_timeline u"
    using g by (simp add: addReceipt_merged_def upsertReceipt_def addReceiptFromGateway_def placeholder_receipt_def take_now_def)
qed

definition demo_message :: sse_msg where
  "demo_message = \<lparr>ms_event = ''receipt'', ms_id = Some ''r'', ms_time = 0, ms_action = Some (gateway_action [] []), ms_checked = None,
     ms_continuity = None, ms_authority = None, ms_blocked = None, ms_reason = None, ms_ledgerHash = None, ms_typed = False, ms_data = JNull\<rparr>"

theorem receipt_feed_witness:
  "receipt_ids (onNamed demo_env (main_feed demo_env) (\<lambda>_. None) demo_message init_bridge) = [''r'', ''r'']"
  using receipt_feed [of demo_message "''r''" "gateway_action [] []", OF _ _ _ _ _ refl, where E = demo_env and Z = "\<lambda>_. None" and es = "[]" and s = init_bridge]
  by (simp add: demo_message_def init_bridge_def cockpit_st.defs init_cockpit_def)

text \<open>C36. The view of the cluster, after any run of the bridge: every agent is kept under its own identifier,
  its status is an error exactly when its kernel reports one, a kernel that is fine is online and
  only a warning kernel drifts. A warning is told apart only by a kernel's own heartbeat: the heartbeat
  of the cluster with the same status, and every poll that does not report an error, put the agent
  online again.\<close>

theorem cluster_status:
  fixes s :: bridge_st
  assumes "s = fold (bridge_step E (main_feed E) Z) es init_bridge"
  shows "(\<forall>i a. js_get (cl_agents s) i = Some a \<longrightarrow> cg_id a = i \<and> (cg_status a = LinkError \<longleftrightarrow> cg_kernel a = Some HealthError) \<and>
       (cg_kernel a = Some HealthOk \<longrightarrow> cg_status a = LinkOnline) \<and> (cg_status a = LinkDrift \<longrightarrow> cg_kernel a = Some HealthWarn)) \<and>
     (\<forall>i p. aggregateKernelStatus p = HealthWarn \<longrightarrow>
        (\<exists>a b. js_get (cl_agents (routeEvent E (main_feed E) (KernelHeartbeat i p) s)) i = Some a \<and> cg_status a = LinkDrift \<and>
           js_get (cl_agents (routeEvent E (main_feed E) (ClusterHeartbeat [(i, HealthWarn, hb_pitBand p)]) s)) i = Some b \<and>
           cg_status b = LinkOnline \<and> cg_kernel b = cg_kernel a)) \<and>
     (\<forall>i st. st \<noteq> ''error'' \<longrightarrow>
        (\<exists>a. js_get (cl_agents (pollCluster (Some [(i, st)]) s)) i = Some a \<and> cg_status a = LinkOnline \<and> cg_kernel a = Some HealthOk))"
proof (intro conjI allI impI)
  have "bridge_ok s" unfolding assms by (rule cluster_view.run_inv) (use init_bridge_ok in \<open>simp add: merged_ok_def\<close>)
  then show "cg_id a = i" "cg_status a = LinkError \<longleftrightarrow> cg_kernel a = Some HealthError" "cg_kernel a = Some HealthOk \<Longrightarrow> cg_status a = LinkOnline"
    "cg_status a = LinkDrift \<Longrightarrow> cg_kernel a = Some HealthWarn" if "js_get (cl_agents s) i = Some a" for i a
    using that by (simp_all add: bridge_ok_def agent_ok_def)
next
  fix i p
  assume "aggregateKernelStatus p = HealthWarn"
  then show "\<exists>a b. js_get (cl_agents (routeEvent E (main_feed E) (KernelHeartbeat i p) s)) i = Some a \<and> cg_status a = LinkDrift \<and>
           js_get (cl_agents (routeEvent E (main_feed E) (ClusterHeartbeat [(i, HealthWarn, hb_pitBand p)]) s)) i = Some b \<and>
           cg_status b = LinkOnline \<and> cg_kernel b = cg_kernel a"
    by (simp add: handleKernelHeartbeat_def updateAgentKernelStatus_def updateHeartbeat_def with_agent_entry_def setClusterHeartbeat_def
      heartbeat_entry_def)
next
  fix i and st :: string
  assume "st \<noteq> ''error''"
  then show "\<exists>a. js_get (cl_agents (pollCluster (Some [(i, st)]) s)) i = Some a \<and> cg_status a = LinkOnline \<and> cg_kernel a = Some HealthOk"
    by (simp add: pollCluster_def polled_agents_def requestEvidenceRefresh_def setClusterHeartbeat_def heartbeat_entry_def with_agent_entry_def)
qed

definition demo_heartbeat :: heartbeat where
  "demo_heartbeat = \<lparr>hb_invariantEngine = HealthOk, hb_constraintEngine = HealthWarn, hb_continuity = HealthOk, hb_ledger = HealthOk,
     hb_pitBand = 3, hb_anchor = ''a'', hb_prefix = ''p''\<rparr>"

theorem cluster_status_witness:
  "\<exists>a. js_get (cl_agents (routeEvent demo_env (main_feed demo_env) (KernelHeartbeat ''n'' demo_heartbeat) init_bridge)) ''n'' = Some a \<and>
     cg_status a = LinkDrift"
proof -
  have "aggregateKernelStatus demo_heartbeat = HealthWarn" by (simp add: aggregateKernelStatus_def demo_heartbeat_def)
  with cluster_status [of init_bridge demo_env "\<lambda>_. None" "[]"] show ?thesis by fastforce
qed

end
