(* ===== verification/NovaSdk.thy ===== *)
theory NovaSdk
  imports CockpitBridge
begin

text \<open>
  The cockpit's own copy of the SDK (\<open>cockpit/src/bridge/nova-sdk-browser.ts\<close>), which asks the server
  and falls back to a preview, and the bridge that feeds its events into the stores
  (\<open>cockpit/src/state/NovaEventBridge.ts\<close>). The answer of a request is an argument. What a handler
  leaves to the next microtask is kept in a list, and done at the end of the operation. The
  initialisation waits for its first poll, so it is two steps. A listener the bridge registers is
  counted, since all are alike.
\<close>

subsection \<open>Hashes\<close>

definition fnv_step :: "char \<Rightarrow> 32 word \<Rightarrow> 32 word" where
  "fnv_step c h = xor h (word_of_nat (code_of c)) * 16777619"

definition fnv :: "string \<Rightarrow> 32 word" where
  "fnv input = fold fnv_step input 2166136261"

fun show_hex :: "nat \<Rightarrow> string" where
  "show_hex n = (if n < 16 then [hex_char n] else show_hex (n div 16) @ [hex_char (n mod 16)])"

declare show_hex.simps [simp del]

definition padStart :: "nat \<Rightarrow> char \<Rightarrow> string \<Rightarrow> string" where
  "padStart w c s = replicate (w - length s) c @ s"

definition browserHash :: "string \<Rightarrow> string" where
  "browserHash input = ''browser-'' @ padStart 8 (CHR ''0'') (show_hex (unat (fnv input)))"

subsection \<open>The SDK\<close>

record sdk_snapshot =
  sn_id :: string
  sn_time :: time
  sn_hash :: string

record sdk_st = bridge_st +
  nv_invariants :: "string list"
  nv_receipts :: "cp_receipt list"
  nv_snapshots :: "sdk_snapshot list"
  nv_listening :: nat
  nv_pending :: "sdk_snapshot list"
  nv_initialized :: bool
  nv_starting :: nat
  nv_timers :: nat
  nv_timer :: bool
  nv_clears :: "signal_key list"

datatype 'a reply = Answer nat "'a option" | NoAnswer

definition apiFetch :: "'a reply \<Rightarrow> 'a option" where
  "apiFetch r = (case r of Answer st body \<Rightarrow> if 200 \<le> st \<and> st < 300 then body else None | NoAnswer \<Rightarrow> None)"

definition sdk_requireInvariant :: "string \<Rightarrow> 'a sdk_st_scheme \<Rightarrow> 'a sdk_st_scheme" where
  "sdk_requireInvariant i s = (if i \<in> set (nv_invariants s) then s else s\<lparr>nv_invariants := nv_invariants s @ [i]\<rparr>)"

definition sdk_kernelStatus :: "kstatus reply \<Rightarrow> 'a sdk_st_scheme \<Rightarrow> kstatus" where
  "sdk_kernelStatus r s =
     (case apiFetch r of
        Some k \<Rightarrow> k
      | None \<Rightarrow> \<lparr>kx_invariantEngine = (if nv_invariants s \<noteq> [] then HealthOk else HealthWarn), kx_ledger = HealthOk, kx_continuity = HealthOk,
          kx_violations = 0, kx_receipts = length (nv_receipts s), kx_snapshots = length (nv_snapshots s),
          kx_invariants = length (nv_invariants s)\<rparr>)"

definition sdk_snapshot_now :: "sysenv \<Rightarrow> 'a sdk_st_scheme \<Rightarrow> sdk_snapshot \<times> 'a sdk_st_scheme" where
  "sdk_snapshot_now E s =
     (let (u, s1) = take_uuid E s; (t, s2) = take_now E s1; (th, s3) = take_now E s2;
          x = \<lparr>sn_id = u, sn_time = t, sn_hash = browserHash (show_int th @ '':'' @ show_nat (length (nv_receipts s3)) @ '':'' @
                 show_nat (length (nv_snapshots s3)))\<rparr>
      in (x, s3\<lparr>nv_snapshots := nv_snapshots s3 @ [x]\<rparr>))"

definition sdk_replay :: "string \<Rightarrow> 'a sdk_st_scheme \<Rightarrow> sdk_snapshot option \<times> cp_receipt list" where
  "sdk_replay i s = (List.find (\<lambda>x. sn_id x = i) (nv_snapshots s), nv_receipts s)"

subsection \<open>The handlers of the bridge\<close>

definition ellipsis :: string where
  "ellipsis = [CHR 0xE2, CHR 0x80, CHR 0xA6]"

definition on_plan :: "sysenv \<Rightarrow> cp_plan \<Rightarrow> 'a sdk_st_scheme \<Rightarrow> 'a sdk_st_scheme" where
  "on_plan E p s =
     (let s1 = signalPlan (pn_id p) (setPlan p s); (t, s2) = take_now E s1;
          s3 = appendLog E None ''plan'' t (''Plan generated ('' @ show_nat (length (pn_steps p)) @ '' steps)'') s2
      in s3\<lparr>nv_clears := nv_clears s3 @ [LastPlan]\<rparr>)"

definition on_action :: "sysenv \<Rightarrow> action \<Rightarrow> 'a sdk_st_scheme \<Rightarrow> 'a sdk_st_scheme" where
  "on_action E a s = (let (t, s1) = take_now E s in appendLog E None ''action'' t (''Action: '' @ a_type a) s1)"

definition on_receipt :: "sysenv \<Rightarrow> cp_receipt \<Rightarrow> 'a sdk_st_scheme \<Rightarrow> 'a sdk_st_scheme" where
  "on_receipt E r s =
     (let s1 = signalReceipt (cr_id r) (addReceipt r s); (t, s2) = take_now E s1;
          s3 = appendLog E None ''receipt'' t (''Receipt '' @ take 8 (cr_id r) @ ellipsis @ '' emitted'') s2;
          (x, s4) = sdk_snapshot_now E s3
      in s4\<lparr>nv_pending := nv_pending s4 @ [x], nv_clears := nv_clears s4 @ [LastReceipt]\<rparr>)"

definition on_violation :: "sysenv \<Rightarrow> cp_violation \<Rightarrow> 'a sdk_st_scheme \<Rightarrow> 'a sdk_st_scheme" where
  "on_violation E v s =
     (let s1 = signalViolation (cv_id v) (addViolation E v s); (t, s2) = take_now E s1;
          s3 = appendLog E None ''violation'' t (''Invariant violated: '' @ cv_invariant v) s2;
          s4 = add_toast E (''Invariant violated: '' @ cv_invariant v) ToastError s3
      in s4\<lparr>nv_clears := nv_clears s4 @ [LastViolation]\<rparr>)"

definition on_heartbeat :: "sysenv \<Rightarrow> kstatus \<Rightarrow> 'a sdk_st_scheme \<Rightarrow> 'a sdk_st_scheme" where
  "on_heartbeat E k s =
     (let (t, s1) = take_now E (updateKernelStatus k s) in updateStatus_kernel k (setLastHeartbeat t s1))"

text \<open>A timer that fires clears its signal, whichever signal stands there by then.\<close>

definition clear_due :: "'a sdk_st_scheme \<Rightarrow> 'a sdk_st_scheme" where
  "clear_due s = (case nv_clears s of [] \<Rightarrow> s | k # ks \<Rightarrow> clearSignal k (s\<lparr>nv_clears := ks\<rparr>))"

definition each_listener :: "('a sdk_st_scheme \<Rightarrow> 'a sdk_st_scheme) \<Rightarrow> 'a sdk_st_scheme \<Rightarrow> 'a sdk_st_scheme" where
  "each_listener f s = (f ^^ nv_listening s) s"

definition microtasks :: "'a sdk_st_scheme \<Rightarrow> 'a sdk_st_scheme" where
  "microtasks s = (fold (\<lambda>x. updateContinuityNode (sn_id x) (sn_time x) (sn_hash x)) (nv_pending s) s)\<lparr>nv_pending := []\<rparr>"

subsection \<open>Operations\<close>

definition receipt_to_all :: "sysenv \<Rightarrow> cp_receipt \<Rightarrow> 'a sdk_st_scheme \<Rightarrow> 'a sdk_st_scheme" where
  "receipt_to_all E r s = each_listener (on_receipt E r) (s\<lparr>nv_receipts := r # nv_receipts s\<rparr>)"

definition sdk_emitReceipt :: "sysenv \<Rightarrow> action \<Rightarrow> bool \<Rightarrow> 'a sdk_st_scheme \<Rightarrow> cp_receipt \<times> 'a sdk_st_scheme" where
  "sdk_emitReceipt E a blocked s =
     (let (u, s1) = take_uuid E s; (t, s2) = take_now E s1; (tc, s3) = take_now E s2; (tl, s4) = take_now E s3;
          n = show_nat (length (nv_receipts s4));
          r = \<lparr>cr_id = u, cr_time = t, cr_authority = None, cr_action = a, cr_checked = nv_invariants s4,
               cr_continuity = browserHash (''continuity:'' @ show_int tc @ '':'' @ n),
               cr_ledgerHash = browserHash (''ledger:'' @ show_int tl @ '':'' @ n), cr_blocked = Some blocked, cr_reason = None\<rparr>
      in (r, receipt_to_all E r s4))"

definition fanOutReceipts :: "sysenv \<Rightarrow> cp_receipt list \<Rightarrow> 'a sdk_st_scheme \<Rightarrow> 'a sdk_st_scheme" where
  "fanOutReceipts E rs s = fold (receipt_to_all E) rs s"

definition emitKernelHeartbeat :: "sysenv \<Rightarrow> kstatus reply \<Rightarrow> 'a sdk_st_scheme \<Rightarrow> (kstatus \<times> time) \<times> 'a sdk_st_scheme" where
  "emitKernelHeartbeat E r s =
     (let k = sdk_kernelStatus r s; (t, s1) = take_now E s in ((k, t), each_listener (on_heartbeat E k) s1))"

definition with_context :: "(string \<times> json) list \<Rightarrow> json option \<Rightarrow> (string \<times> json) list" where
  "with_context fs ctx = fs @ (case ctx of None \<Rightarrow> [] | Some c \<Rightarrow> [(''context'', c)])"

definition preview_steps :: "string \<Rightarrow> json option \<Rightarrow> (string \<times> string \<times> action) list" where
  "preview_steps goal ctx =
     [(''step-1'', ''Analyze goal: '' @ goal, \<lparr>a_type = ''plan'', a_payload = with_context [(''goal'', JStr goal)] ctx\<rparr>),
      (''step-2'', ''Route through governed runtime before execution'', \<lparr>a_type = ''plan'', a_payload = [(''phase'', JStr ''governance'')]\<rparr>)]"

definition nova_plan :: "sysenv \<Rightarrow> string \<Rightarrow> json option \<Rightarrow> cp_plan reply \<Rightarrow> 'a sdk_st_scheme \<Rightarrow> cp_plan \<times> 'a sdk_st_scheme" where
  "nova_plan E goal ctx reply s =
     (case apiFetch reply of
        Some p \<Rightarrow> (p, microtasks (each_listener (on_plan E p) (fanOutReceipts E (pn_receipts p) s)))
      | None \<Rightarrow>
          let (u, s1) = take_uuid E s;
              p = \<lparr>pn_id = u, pn_steps = preview_steps goal ctx, pn_justification = ''Browser cockpit plan preview'', pn_receipts = [],
                   pn_goal = None, pn_evidence = None\<rparr>
          in (p, microtasks (each_listener (on_plan E p) s1)))"

definition sdk_generate_action :: "string \<Rightarrow> json option \<Rightarrow> action" where
  "sdk_generate_action prompt ctx = \<lparr>a_type = ''generate'', a_payload = with_context [(''prompt'', JStr prompt)] ctx\<rparr>"

definition nova_generateCode ::
    "sysenv \<Rightarrow> string \<Rightarrow> json option \<Rightarrow> (string \<times> cp_receipt list) reply \<Rightarrow> 'a sdk_st_scheme \<Rightarrow> (string \<times> cp_receipt list) \<times> 'a sdk_st_scheme" where
  "nova_generateCode E prompt ctx reply s =
     (case apiFetch reply of
        Some (code, rs) \<Rightarrow> ((code, rs), microtasks (each_listener (on_action E (sdk_generate_action prompt ctx)) (fanOutReceipts E rs s)))
      | None \<Rightarrow>
          let code = ''// Generated cockpit preview'' @ [CHR 0x0A] @ ''// '' @ prompt @ [CHR 0x0A];
              (r, s1) = sdk_emitReceipt E (sdk_generate_action prompt ctx) False s
          in ((code, [r]), microtasks (each_listener (on_action E (sdk_generate_action prompt ctx)) s1)))"

definition nova_applyPatch :: "sysenv \<Rightarrow> string \<Rightarrow> string \<Rightarrow> 'a sdk_st_scheme \<Rightarrow> cp_receipt \<times> 'a sdk_st_scheme" where
  "nova_applyPatch E diff reason s =
     (let (r, s1) = sdk_emitReceipt E \<lparr>a_type = ''apply_patch'', a_payload = [(''diff'', JStr diff), (''reason'', JStr reason)]\<rparr> False s
      in (r, microtasks s1))"

subsection \<open>Starting and stopping\<close>

definition defaultInvariants :: "string list" where
  "defaultInvariants = [''no-secrets'', ''tests-required'']"

definition nova_poll :: "sysenv \<Rightarrow> kstatus reply \<Rightarrow> kstatus reply \<Rightarrow> 'a sdk_st_scheme \<Rightarrow> 'a sdk_st_scheme" where
  "nova_poll E r1 r2 s =
     (let (t, s1) = take_now E (updateKernelStatus (sdk_kernelStatus r1 s) s)
      in snd (emitKernelHeartbeat E r2 (setLastHeartbeat t s1)))"

definition begin_bridge :: "'a sdk_st_scheme \<Rightarrow> 'a sdk_st_scheme" where
  "begin_bridge s =
     (if nv_initialized s then s
      else let s1 = setInvariants defaultInvariants (fold sdk_requireInvariant defaultInvariants (s\<lparr>nv_initialized := True\<rparr>))
           in s1\<lparr>nv_listening := Suc (nv_listening s1), nv_starting := Suc (nv_starting s1)\<rparr>)"

definition finish_bridge :: "sysenv \<Rightarrow> kstatus reply \<Rightarrow> kstatus reply \<Rightarrow> 'a sdk_st_scheme \<Rightarrow> 'a sdk_st_scheme" where
  "finish_bridge E r1 r2 s =
     (if nv_starting s = 0 then s
      else let s1 = nova_poll E r1 r2 s in s1\<lparr>nv_starting := nv_starting s1 - 1, nv_timers := Suc (nv_timers s1), nv_timer := True\<rparr>)"

definition teardownNovaEventBridge :: "'a sdk_st_scheme \<Rightarrow> 'a sdk_st_scheme" where
  "teardownNovaEventBridge s =
     s\<lparr>nv_timers := (if nv_timer s then nv_timers s - 1 else nv_timers s), nv_timer := False, nv_initialized := False\<rparr>"

datatype sdk_event =
    BeginBridge
  | FinishBridge "kstatus reply" "kstatus reply"
  | Teardown
  | PollStatus "kstatus reply" "kstatus reply"
  | AskPlan string "json option" "cp_plan reply"
  | AskCode string "json option" "(string \<times> cp_receipt list) reply"
  | ApplyPatch string string
  | TakeSnapshot
  | ClearDue

primrec sdk_step :: "sysenv \<Rightarrow> sdk_event \<Rightarrow> 'a sdk_st_scheme \<Rightarrow> 'a sdk_st_scheme" where
  "sdk_step E BeginBridge s = begin_bridge s"
| "sdk_step E (FinishBridge r1 r2) s = finish_bridge E r1 r2 s"
| "sdk_step E Teardown s = teardownNovaEventBridge s"
| "sdk_step E (PollStatus r1 r2) s = (if nv_timers s = 0 then s else nova_poll E r1 r2 s)"
| "sdk_step E (AskPlan g c r) s = snd (nova_plan E g c r s)"
| "sdk_step E (AskCode p c r) s = snd (nova_generateCode E p c r s)"
| "sdk_step E (ApplyPatch d w) s = snd (nova_applyPatch E d w s)"
| "sdk_step E TakeSnapshot s = snd (sdk_snapshot_now E s)"
| "sdk_step E ClearDue s = clear_due s"

definition init_sdk :: sdk_st where
  "init_sdk = bridge_st.extend init_bridge \<lparr>nv_invariants = [], nv_receipts = [], nv_snapshots = [], nv_listening = 0, nv_pending = [],
     nv_initialized = False, nv_starting = 0, nv_timers = 0, nv_timer = False, nv_clears = []\<rparr>"

subsection \<open>The hash tells apart what differs in one place\<close>

lemma fnv_step_inj: "fnv_step c h = fnv_step d k \<Longrightarrow> xor h (word_of_nat (code_of c)) = xor k (word_of_nat (code_of d))"
proof -
  have "(16777619 * 899433627 :: 32 word) = 1" by (simp add: word_uint_eq_iff)
  then have p: "x * 16777619 * 899433627 = x" for x :: "32 word" by (simp only: mult.assoc mult_1_right)
  assume "fnv_step c h = fnv_step d k"
  then have "fnv_step c h * 899433627 = fnv_step d k * 899433627" by simp
  then show ?thesis by (simp only: fnv_step_def p)
qed

lemma xor_cancel: "xor h a = xor k a \<Longrightarrow> h = (k :: 32 word)"
  by (metis xor.assoc xor_self_eq xor.right_neutral)

lemma fold_fnv_inj: "fold fnv_step q h = fold fnv_step q k \<Longrightarrow> h = k"
  by (induction q arbitrary: h k) (auto dest!: fnv_step_inj xor_cancel)

fun hex_digits :: "nat \<Rightarrow> nat \<Rightarrow> string" where
  "hex_digits 0 n = []"
| "hex_digits (Suc k) n = hex_digits k (n div 16) @ [hex_char (n mod 16)]"

lemma hex_zero: "hex_digits k 0 = replicate k (CHR ''0'')"
proof (induction k)
  case (Suc k)
  have "hex_char 0 = CHR ''0''" by (simp add: hex_char_def char_of_def bit_0)
  with Suc show ?case by (simp add: replicate_append_same)
qed simp

lemma padded_hex: "n < 16 ^ Suc k \<Longrightarrow> padStart (Suc k) (CHR ''0'') (show_hex n) = hex_digits (Suc k) n"
proof (induction k arbitrary: n)
  case 0
  then show ?case by (simp add: padStart_def show_hex.simps [of n])
next
  case (Suc k)
  show ?case
  proof (cases "n < 16")
    case True
    then show ?thesis by (simp add: padStart_def show_hex.simps [of n] hex_zero replicate_append_same [symmetric])
  next
    case False
    have "padStart (Suc k) (CHR ''0'') (show_hex (n div 16)) = hex_digits (Suc k) (n div 16)"
      by (rule Suc.IH) (use Suc.prems in simp)
    with False show ?thesis by (simp add: padStart_def show_hex.simps [of n])
  qed
qed

lemma hex_digits_inj: "m < 16 ^ k \<Longrightarrow> n < 16 ^ k \<Longrightarrow> hex_digits k m = hex_digits k n \<Longrightarrow> m = n"
proof (induction k arbitrary: m n)
  case (Suc k)
  have "m div 16 = n div 16" by (rule Suc.IH) (use Suc.prems in simp_all)
  moreover have "m mod 16 = n mod 16" by (rule hex_char_inject) (use Suc.prems in simp_all)
  ultimately show ?case by (metis div_mult_mod_eq)
qed simp

lemma browserHash_inj: "browserHash a = browserHash b \<longleftrightarrow> fnv a = fnv b"
proof
  assume "browserHash a = browserHash b"
  then have eq: "padStart 8 (CHR ''0'') (show_hex (unat (fnv a))) = padStart 8 (CHR ''0'') (show_hex (unat (fnv b)))"
    by (simp add: browserHash_def)
  have "unat w < 2 ^ LENGTH(32)" for w :: "32 word" by (rule unsigned_less)
  then have b: "unat w < 16 ^ Suc 7" for w :: "32 word" by simp
  have "hex_digits (Suc 7) (unat (fnv a)) = hex_digits (Suc 7) (unat (fnv b))"
    using eq padded_hex [OF b [of "fnv a"]] padded_hex [OF b [of "fnv b"]] by simp
  then have "unat (fnv a) = unat (fnv b)" using hex_digits_inj [OF b b] by blast
  then show "fnv a = fnv b" by (rule word_unat_eq_iff [THEN iffD2])
qed (simp add: browserHash_def)

text \<open>Inputs that differ in one character have different hashes.\<close>

lemma browserHash_one_place: "browserHash (p @ c # q) = browserHash (p @ d # q) \<longleftrightarrow> c = d"
proof
  assume "browserHash (p @ c # q) = browserHash (p @ d # q)"
  then have "fnv (p @ c # q) = fnv (p @ d # q)" by (simp add: browserHash_inj)
  then have "fnv_step c (fold fnv_step p 2166136261) = fnv_step d (fold fnv_step p 2166136261)"
    using fold_fnv_inj by (auto simp: fnv_def)
  then have "word_of_nat (code_of c) = (word_of_nat (code_of d) :: 32 word)"
    using fnv_step_inj xor_cancel by (metis xor.commute)
  then have "unat (word_of_nat (code_of c) :: 32 word) = unat (word_of_nat (code_of d) :: 32 word)" by simp
  then have "code_of c = code_of d" using code_of_less [of c] code_of_less [of d] by (simp add: unat_of_nat)
  then show "c = d" by (simp add: of_char_eq_iff)
qed simp

subsection \<open>What the listeners see\<close>

text \<open>The part of the state that starting and stopping is about.\<close>

definition sdk_core :: "'a sdk_st_scheme \<Rightarrow> string list \<times> nat \<times> bool \<times> nat \<times> nat \<times> bool" where
  "sdk_core s = (nv_invariants s, nv_listening s, nv_initialized s, nv_starting s, nv_timers s, nv_timer s)"

lemmas cockpit_actions = setPlan_def signalPlan_def appendLog_def addReceipt_def signalReceipt_def updateKernelStatus_def setLastHeartbeat_def
  updateStatus_kernel_def updateContinuityNode_def setInvariants_def clearSignal_def take_uuid_def take_now_def

lemma handlers_core [simp]:
  "sdk_core (on_plan E p s) = sdk_core s" "sdk_core (on_action E a s) = sdk_core s" "sdk_core (on_receipt E r s) = sdk_core s"
  "sdk_core (on_heartbeat E k s) = sdk_core s" "sdk_core (snd (sdk_snapshot_now E s)) = sdk_core s"
  by (simp_all add: sdk_core_def on_plan_def on_action_def on_receipt_def on_heartbeat_def sdk_snapshot_now_def cockpit_actions Let_def)

lemma handlers_receipts [simp]:
  "nv_receipts (on_plan E p s) = nv_receipts s" "nv_receipts (on_action E a s) = nv_receipts s" "nv_receipts (on_receipt E r s) = nv_receipts s"
  "nv_receipts (on_heartbeat E k s) = nv_receipts s" "co_receipts (on_plan E p s) = co_receipts s" "co_receipts (on_action E a s) = co_receipts s"
  "co_receipts (on_receipt E r s) = r # co_receipts s" "co_receipts (on_heartbeat E k s) = co_receipts s"
  "nv_receipts (snd (sdk_snapshot_now E s)) = nv_receipts s" "co_receipts (snd (sdk_snapshot_now E s)) = co_receipts s"
  by (simp_all add: on_plan_def on_action_def on_receipt_def on_heartbeat_def sdk_snapshot_now_def cockpit_actions Let_def)

lemma on_receipt_effect:
  "length (nv_snapshots (on_receipt E r s)) = Suc (length (nv_snapshots s))"
  "length (nv_pending (on_receipt E r s)) = Suc (length (nv_pending s))"
  "co_timeline (on_receipt E r s) = co_timeline s @ [receipt_node r]"
  by (simp_all add: on_receipt_def sdk_snapshot_now_def cockpit_actions Let_def)

lemma iter_receipt:
  "co_receipts ((on_receipt E r ^^ n) s) = replicate n r @ co_receipts s \<and> nv_receipts ((on_receipt E r ^^ n) s) = nv_receipts s \<and>
   sdk_core ((on_receipt E r ^^ n) s) = sdk_core s \<and> length (nv_snapshots ((on_receipt E r ^^ n) s)) = length (nv_snapshots s) + n \<and>
   length (nv_pending ((on_receipt E r ^^ n) s)) = length (nv_pending s) + n \<and>
   co_timeline ((on_receipt E r ^^ n) s) = co_timeline s @ replicate n (receipt_node r)"
  by (induction n) (simp_all add: on_receipt_effect replicate_append_same)

lemma each_same: "(\<And>s. g (f s) = g s) \<Longrightarrow> g (each_listener f s) = g s"
proof -
  assume "\<And>s. g (f s) = g s"
  then have "g ((f ^^ n) s) = g s" for n by (induction n) simp_all
  then show ?thesis by (simp add: each_listener_def)
qed

lemma microtasks_frame:
  "co_receipts (microtasks s) = co_receipts s \<and> nv_receipts (microtasks s) = nv_receipts s \<and> sdk_core (microtasks s) = sdk_core s \<and>
   nv_pending (microtasks s) = [] \<and> nv_snapshots (microtasks s) = nv_snapshots s \<and>
   length (co_timeline (microtasks s)) = length (co_timeline s) + length (nv_pending s)"
proof -
  let ?f = "\<lambda>x. updateContinuityNode (sn_id x) (sn_time x) (sn_hash x)"
  have "co_receipts (fold ?f xs u) = co_receipts u \<and> nv_receipts (fold ?f xs u) = nv_receipts u \<and> sdk_core (fold ?f xs u) = sdk_core u \<and>
     nv_snapshots (fold ?f xs u) = nv_snapshots u \<and> length (co_timeline (fold ?f xs u)) = length (co_timeline u) + length xs"
    for xs and u :: "'a sdk_st_scheme"
    by (induction xs arbitrary: u) (simp_all add: updateContinuityNode_def sdk_core_def)
  then show ?thesis by (simp add: microtasks_def sdk_core_def)
qed

text \<open>A run keeps: the invariants of the bridge once there is one, at most one interval or start for each
  set of listeners, only receipts of the SDK in the cockpit; and between operations no microtask is left.\<close>

definition sdk_weak :: "'a sdk_st_scheme \<Rightarrow> bool" where
  "sdk_weak s \<longleftrightarrow> nv_invariants s = (if nv_listening s = 0 then [] else defaultInvariants) \<and>
     nv_timers s + nv_starting s \<le> nv_listening s \<and> (nv_timer s \<longrightarrow> 0 < nv_timers s) \<and> set (co_receipts s) \<subseteq> set (nv_receipts s)"

definition sdk_ok :: "'a sdk_st_scheme \<Rightarrow> bool" where
  "sdk_ok s \<longleftrightarrow> sdk_weak s \<and> nv_pending s = []"

lemma weak_same: "sdk_weak s \<Longrightarrow> sdk_core t = sdk_core s \<Longrightarrow> set (co_receipts t) \<subseteq> set (nv_receipts t) \<Longrightarrow> sdk_weak t"
  by (simp add: sdk_weak_def sdk_core_def)

lemma weak_receipts: "sdk_weak s \<Longrightarrow> set (co_receipts s) \<subseteq> set (nv_receipts s)"
  by (simp add: sdk_weak_def)

lemma weak_each:
  assumes "sdk_weak s" "\<And>s. sdk_core (f s) = sdk_core s" "\<And>s. nv_receipts (f s) = nv_receipts s" "\<And>s. co_receipts (f s) = co_receipts s"
  shows "sdk_weak (each_listener f s)"
  by (rule weak_same [OF assms(1)]) (use weak_receipts [OF assms(1)] assms(2-4) in \<open>simp_all add: each_same [of sdk_core] each_same [of nv_receipts] each_same [of co_receipts]\<close>)

lemma receipt_effect:
  "co_receipts (receipt_to_all E r s) = replicate (nv_listening s) r @ co_receipts s"
  "nv_receipts (receipt_to_all E r s) = r # nv_receipts s"
  "sdk_core (receipt_to_all E r s) = sdk_core s"
  "length (nv_snapshots (receipt_to_all E r s)) = length (nv_snapshots s) + nv_listening s"
  "length (nv_pending (receipt_to_all E r s)) = length (nv_pending s) + nv_listening s"
  "co_timeline (receipt_to_all E r s) = co_timeline s @ replicate (nv_listening s) (receipt_node r)"
  using iter_receipt [where E = E and r = r and n = "nv_listening s" and s = "s\<lparr>nv_receipts := r # nv_receipts s\<rparr>"]
  by (simp_all add: receipt_to_all_def each_listener_def sdk_core_def)

lemma weak_receipt: "sdk_weak s \<Longrightarrow> sdk_weak (receipt_to_all E r s)"
proof (rule weak_same [of s])
  assume w: "sdk_weak s"
  then show "set (co_receipts (receipt_to_all E r s)) \<subseteq> set (nv_receipts (receipt_to_all E r s))"
    using weak_receipts [OF w] by (auto simp: receipt_effect)
qed (simp_all add: receipt_effect)

lemma weak_fanOut: "sdk_weak s \<Longrightarrow> sdk_weak (fanOutReceipts E rs s)"
  unfolding fanOutReceipts_def by (induction rs arbitrary: s) (simp_all add: weak_receipt)

lemma emit_is_announced:
  "\<exists>n. snd (sdk_emitReceipt E a b s) = receipt_to_all E (fst (sdk_emitReceipt E a b s)) (s\<lparr>tick := n\<rparr>)"
  by (auto simp: sdk_emitReceipt_def take_uuid_def take_now_def Let_def)

lemma weak_tick: "sdk_weak s \<Longrightarrow> sdk_weak (s\<lparr>tick := n\<rparr>)"
  by (simp add: sdk_weak_def)

lemma weak_emit: "sdk_weak s \<Longrightarrow> sdk_weak (snd (sdk_emitReceipt E a b s))"
proof -
  assume w: "sdk_weak s"
  obtain n where n: "snd (sdk_emitReceipt E a b s) = receipt_to_all E (fst (sdk_emitReceipt E a b s)) (s\<lparr>tick := n\<rparr>)"
    using emit_is_announced [of E a b s] by blast
  show ?thesis by (subst n) (rule weak_receipt [OF weak_tick [OF w]])
qed

lemma settle: "sdk_weak s \<Longrightarrow> sdk_ok (microtasks s)"
  using microtasks_frame [of s] weak_same [of s "microtasks s"] weak_receipts [of s] by (simp add: sdk_ok_def)

lemma poll_ok_sdk: "sdk_ok s \<Longrightarrow> sdk_ok (nova_poll E r1 r2 s)"
proof -
  assume ok: "sdk_ok s"
  let ?s = "snd (take_now E (setLastHeartbeat (now_at E (tick s)) (snd (take_now E (updateKernelStatus (sdk_kernelStatus r1 s) s)))))"
  have w: "sdk_weak ?s" "nv_pending ?s = []"
    using ok by (simp_all add: sdk_ok_def sdk_weak_def setLastHeartbeat_def updateKernelStatus_def take_now_def)
  have "nv_pending (on_heartbeat E k u) = nv_pending u" for k and u :: "'a sdk_st_scheme"
    by (simp add: on_heartbeat_def cockpit_actions)
  then have "sdk_ok (each_listener (on_heartbeat E k) ?s)" for k
    using weak_each [OF w(1), of "on_heartbeat E k"] w(2) by (simp add: sdk_ok_def each_same [of nv_pending])
  moreover have "\<exists>k. nova_poll E r1 r2 s = each_listener (on_heartbeat E k) ?s"
    by (simp add: nova_poll_def emitKernelHeartbeat_def take_now_def updateKernelStatus_def Let_def) blast
  ultimately show ?thesis by metis
qed

lemma operations_ok:
  assumes "sdk_ok s"
  shows "sdk_ok (snd (nova_plan E g c rp s))" "sdk_ok (snd (nova_generateCode E p c rc s))" "sdk_ok (snd (nova_applyPatch E d w s))"
proof -
  have w: "sdk_weak s" using assms by (simp add: sdk_ok_def)
  show "sdk_ok (snd (nova_plan E g c rp s))"
    by (auto simp: nova_plan_def take_uuid_def Let_def intro!: settle weak_each weak_fanOut weak_tick w split: option.split)
  show "sdk_ok (snd (nova_generateCode E p c rc s))"
    using weak_emit [OF w] by (auto simp: nova_generateCode_def Let_def intro!: settle weak_each weak_fanOut w split: option.split prod.split)
      (metis snd_conv)
  show "sdk_ok (snd (nova_applyPatch E d w s))"
    using weak_emit [OF w] by (auto simp: nova_applyPatch_def intro!: settle split: prod.split) (metis snd_conv)
qed

lemma required [simp]:
  "nv_listening (fold sdk_requireInvariant xs s) = nv_listening s" "nv_starting (fold sdk_requireInvariant xs s) = nv_starting s"
  "nv_timers (fold sdk_requireInvariant xs s) = nv_timers s" "nv_timer (fold sdk_requireInvariant xs s) = nv_timer s"
  "nv_initialized (fold sdk_requireInvariant xs s) = nv_initialized s"
  by (induction xs arbitrary: s) (simp_all add: sdk_requireInvariant_def)

lemma poll_core:
  "nv_listening (nova_poll E a b s) = nv_listening s" "nv_starting (nova_poll E a b s) = nv_starting s"
  "nv_timers (nova_poll E a b s) = nv_timers s" "nv_timer (nova_poll E a b s) = nv_timer s"
proof -
  have "sdk_core (nova_poll E a b s) = sdk_core s"
    by (simp add: nova_poll_def emitKernelHeartbeat_def each_same [of sdk_core] Let_def cockpit_actions) (simp add: sdk_core_def)
  then show "nv_listening (nova_poll E a b s) = nv_listening s" "nv_starting (nova_poll E a b s) = nv_starting s"
    "nv_timers (nova_poll E a b s) = nv_timers s" "nv_timer (nova_poll E a b s) = nv_timer s" by (simp_all add: sdk_core_def)
qed

lemma sdk_step_ok: "sdk_ok s \<Longrightarrow> sdk_ok (sdk_step E e s)"
proof (cases e)
  case BeginBridge
  assume "sdk_ok s"
  then show ?thesis
    by (auto simp: BeginBridge begin_bridge_def sdk_requireInvariant_def setInvariants_def defaultInvariants_def sdk_ok_def sdk_weak_def)
next
  case (FinishBridge r1 r2)
  assume ok: "sdk_ok s"
  have "nv_starting (nova_poll E r1 r2 s) = nv_starting s" by (rule poll_core)
  with poll_ok_sdk [OF ok, of E r1 r2] ok show ?thesis
    by (auto simp: FinishBridge finish_bridge_def sdk_ok_def sdk_weak_def Let_def)
next
  case TakeSnapshot
  assume "sdk_ok s"
  then show ?thesis by (auto simp: TakeSnapshot sdk_snapshot_now_def sdk_ok_def sdk_weak_def take_uuid_def take_now_def Let_def)
next
  case ClearDue
  assume "sdk_ok s"
  then show ?thesis by (auto simp: ClearDue clear_due_def clearSignal_def sdk_ok_def sdk_weak_def split: list.split)
next
  case Teardown
  assume "sdk_ok s"
  then show ?thesis by (auto simp: Teardown teardownNovaEventBridge_def sdk_ok_def sdk_weak_def)
qed (simp_all add: poll_ok_sdk operations_ok)

interpretation sdk_run: machine "sdk_step E" sdk_ok
  by unfold_locales (rule sdk_step_ok)

lemma init_sdk_ok: "sdk_ok init_sdk"
  by (simp add: sdk_ok_def sdk_weak_def init_sdk_def bridge_st.defs init_bridge_def cockpit_st.defs init_cockpit_def)

subsection \<open>Property\<close>

lemma finish_listening [simp]: "nv_listening (finish_bridge E a b s) = nv_listening s"
  by (simp add: finish_bridge_def poll_core Let_def)

lemma started_stopped:
  "nv_listening (fold (sdk_step E) (concat (replicate k [BeginBridge, FinishBridge a b, Teardown])) s) =
     nv_listening s + (if nv_initialized s then k - 1 else k)"
proof (induction k arbitrary: s)
  case (Suc k)
  then show ?case
    by (simp add: begin_bridge_def teardownNovaEventBridge_def sdk_requireInvariant_def setInvariants_def Let_def)
qed simp

text \<open>C37. The bridge between the SDK and the cockpit, over any run. Stopping it removes no listener, so a receipt
  appears in the cockpit once for every time the bridge has been started, each time with a snapshot of
  its own and two nodes of the timeline; in particular \<open>k\<close> starts and stops leave \<open>k\<close> listeners. Intervals
  and starts under way are never more than the listeners, the invariants are checked in as two however
  often the bridge starts, and in these runs, of the SDK alone, every receipt the cockpit shows is one of the SDK's
  (the application feeds the same store from the server's events as well). A bridge stopped and started
  again before its first poll has answered, as React's strict mode does, keeps an interval that nothing
  stops.\<close>

theorem bridge_listeners:
  fixes s :: sdk_st
  assumes "s = fold (sdk_step E) es init_sdk" and "nova_applyPatch E d w s = (r, t)"
  shows "co_receipts t = replicate (nv_listening s) r @ co_receipts s \<and> nv_receipts t = r # nv_receipts s \<and>
     cr_checked r = (if nv_listening s = 0 then [] else [''no-secrets'', ''tests-required'']) \<and>
     length (nv_snapshots t) = length (nv_snapshots s) + nv_listening s \<and>
     length (co_timeline t) = length (co_timeline s) + 2 * nv_listening s \<and>
     nv_timers s + nv_starting s \<le> nv_listening s \<and> set (co_receipts s) \<subseteq> set (nv_receipts s) \<and>
     nv_listening (fold (sdk_step E) (concat (replicate k [BeginBridge, FinishBridge a b, Teardown])) init_sdk) = k \<and>
     nv_timers (fold (sdk_step E) [BeginBridge, Teardown, BeginBridge, FinishBridge a b, FinishBridge a b, Teardown] init_sdk) = 1"
proof -
  have ok: "sdk_ok s" unfolding assms(1) by (rule sdk_run.run_inv [OF init_sdk_ok])
  then have w: "sdk_weak s" "nv_pending s = []" by (simp_all add: sdk_ok_def)
  let ?a = "\<lparr>a_type = ''apply_patch'', a_payload = [(''diff'', JStr d), (''reason'', JStr w)]\<rparr>"
  have r: "r = fst (sdk_emitReceipt E ?a False s)" and t: "t = microtasks (snd (sdk_emitReceipt E ?a False s))"
    using assms(2) by (auto simp: nova_applyPatch_def split: prod.splits)
  obtain n where n: "snd (sdk_emitReceipt E ?a False s) = receipt_to_all E r (s\<lparr>tick := n\<rparr>)"
    unfolding r using emit_is_announced [of E ?a False s] by blast
  have c: "cr_checked r = nv_invariants s" unfolding r by (simp add: sdk_emitReceipt_def take_uuid_def take_now_def Let_def)
  note e = receipt_effect [of E r "s\<lparr>tick := n\<rparr>"] microtasks_frame [of "receipt_to_all E r (s\<lparr>tick := n\<rparr>)"]
  have "nv_timers (fold (sdk_step E) [BeginBridge, Teardown, BeginBridge, FinishBridge a b, FinishBridge a b, Teardown] init_sdk) = 1"
    by (simp add: begin_bridge_def finish_bridge_def teardownNovaEventBridge_def poll_core setInvariants_def Let_def
      init_sdk_def bridge_st.defs)
  with w e c show ?thesis
    by (simp add: t n started_stopped sdk_weak_def defaultInvariants_def) (simp add: init_sdk_def bridge_st.defs)
qed

theorem bridge_listeners_witness:
  "length (nv_receipts (snd (nova_applyPatch demo_env ''d'' ''w'' init_sdk))) = 1"
proof -
  obtain r t where rt: "nova_applyPatch demo_env ''d'' ''w'' init_sdk = (r, t)" by fastforce
  have "nv_receipts t = r # nv_receipts init_sdk"
    using bridge_listeners [where es = "[]" and s = init_sdk and k = 0, OF _ rt] by simp
  with rt show ?thesis by (simp add: init_sdk_def bridge_st.defs)
qed

end
