(* ===== verification/PanelContracts.thy ===== *)
theory PanelContracts
  imports NovaSdk
begin

text \<open>
  The contracts of the cockpit's fourteen evidence panels (\<open>cockpit/src/crvs/types.ts\<close>, \<open>contracts.ts\<close>): which
  fields a panel shows, of which types, and the evidence source it names.
\<close>

datatype authority_level = LConstitution | LAuthority | LRuntime | LEvidence | LIntent | LExecution | LContinuity | LCluster
  | LFabric | LStewardship

datatype panel_id = P01 | P02 | P03 | P04 | P05 | P06 | P07 | P08 | P09 | P10 | P11 | P12 | P13 | P14

datatype field_type = FString | FNumber | FBoolean | FArray | FObject

record panel_field =
  pf_key :: string
  pf_type :: field_type
  pf_item :: "field_type option"

record panel_contract =
  pc_id :: panel_id
  pc_name :: string
  pc_authority :: authority_level
  pc_source :: string
  pc_fields :: "panel_field list"
  pc_obligations :: "string list"

definition IdentityContract :: panel_contract where
  "IdentityContract = \<lparr>pc_id = P01, pc_name = ''System Identity'', pc_authority = LConstitution, pc_source = ''identity.provenance'',
     pc_fields = [\<lparr>pf_key = ''agentIdentity'', pf_type = FString, pf_item = None\<rparr>,
       \<lparr>pf_key = ''constitutionalVersion'', pf_type = FString, pf_item = None\<rparr>,
       \<lparr>pf_key = ''constitutionalHash'', pf_type = FString, pf_item = None\<rparr>,
       \<lparr>pf_key = ''buildSignature'', pf_type = FString, pf_item = None\<rparr>,
       \<lparr>pf_key = ''csrLineage'', pf_type = FString, pf_item = None\<rparr>],
     pc_obligations = [''Display the Sovereign Agent'' @ [CHR 0xE2, CHR 0x80, CHR 0x99] @ ''s identity'',
       ''Display constitutional version and hash'',
       ''Display runtime provenance (CSR lineage)'']\<rparr>"

definition ConstitutionContract :: panel_contract where
  "ConstitutionContract = \<lparr>pc_id = P02, pc_name = ''Constitution'', pc_authority = LConstitution, pc_source = ''governance.kernel'',
     pc_fields = [\<lparr>pf_key = ''invariants'', pf_type = FArray, pf_item = Some FString\<rparr>,
       \<lparr>pf_key = ''authorityChain'', pf_type = FArray, pf_item = Some FString\<rparr>,
       \<lparr>pf_key = ''amendments'', pf_type = FArray, pf_item = Some FString\<rparr>,
       \<lparr>pf_key = ''violations'', pf_type = FArray, pf_item = Some FString\<rparr>],
     pc_obligations = [''Display active constitutional invariants'',
       ''Display authority chain (Intent '' @ [CHR 0xE2, CHR 0x86, CHR 0x92] @ '' Evidence '' @ [CHR 0xE2, CHR 0x86, CHR 0x92] @ '' Authority '' @ [CHR 0xE2, CHR 0x86, CHR 0x92] @ '' Execution)'',
       ''Display violations and amendments'']\<rparr>"

definition RuntimeStatusContract :: panel_contract where
  "RuntimeStatusContract = \<lparr>pc_id = P03, pc_name = ''Runtime Status'', pc_authority = LRuntime, pc_source = ''cse.kernelState'',
     pc_fields = [\<lparr>pf_key = ''mode'', pf_type = FString, pf_item = None\<rparr>,
       \<lparr>pf_key = ''activeTasks'', pf_type = FArray, pf_item = Some FString\<rparr>,
       \<lparr>pf_key = ''csrHash'', pf_type = FString, pf_item = None\<rparr>,
       \<lparr>pf_key = ''continuityState'', pf_type = FString, pf_item = None\<rparr>],
     pc_obligations = [''Display kernel mode (governed, autonomous, degraded)'',
       ''Display active runtime tasks'',
       ''Display continuity state'']\<rparr>"

definition MemoryEvidenceContract :: panel_contract where
  "MemoryEvidenceContract = \<lparr>pc_id = P04, pc_name = ''Memory & Evidence'', pc_authority = LEvidence, pc_source = ''governance.receipts'',
     pc_fields = [\<lparr>pf_key = ''receiptCount'', pf_type = FNumber, pf_item = None\<rparr>,
       \<lparr>pf_key = ''memoryShards'', pf_type = FArray, pf_item = Some FString\<rparr>,
       \<lparr>pf_key = ''evidencePackets'', pf_type = FArray, pf_item = Some FString\<rparr>,
       \<lparr>pf_key = ''replayPreview'', pf_type = FArray, pf_item = Some FString\<rparr>],
     pc_obligations = [''Display memory shards'',
       ''Display evidence packets'',
       ''Display replayable history'']\<rparr>"

definition IntentContract :: panel_contract where
  "IntentContract = \<lparr>pc_id = P05, pc_name = ''Intent'', pc_authority = LIntent, pc_source = ''isl.intent'',
     pc_fields = [\<lparr>pf_key = ''activeIntent'', pf_type = FString, pf_item = None\<rparr>,
       \<lparr>pf_key = ''intentQueue'', pf_type = FArray, pf_item = Some FString\<rparr>,
       \<lparr>pf_key = ''justificationRequired'', pf_type = FBoolean, pf_item = None\<rparr>,
       \<lparr>pf_key = ''unresolved'', pf_type = FArray, pf_item = Some FString\<rparr>],
     pc_obligations = [''Display active intents'',
       ''Display justification requirements'',
       ''Display unresolved intents'']\<rparr>"

definition AuthorityContract :: panel_contract where
  "AuthorityContract = \<lparr>pc_id = P06, pc_name = ''Authority'', pc_authority = LAuthority, pc_source = ''governance.authority'',
     pc_fields = [\<lparr>pf_key = ''grants'', pf_type = FArray, pf_item = Some FString\<rparr>,
       \<lparr>pf_key = ''delegation'', pf_type = FArray, pf_item = Some FString\<rparr>,
       \<lparr>pf_key = ''revocations'', pf_type = FArray, pf_item = Some FString\<rparr>,
       \<lparr>pf_key = ''authorityStatus'', pf_type = FString, pf_item = None\<rparr>],
     pc_obligations = [''Display authority grants'',
       ''Display delegation paths'',
       ''Display revocations'']\<rparr>"

definition EvidenceChainContract :: panel_contract where
  "EvidenceChainContract = \<lparr>pc_id = P07, pc_name = ''Evidence Chain'', pc_authority = LEvidence, pc_source = ''governance.evidenceChain'',
     pc_fields = [\<lparr>pf_key = ''verified'', pf_type = FArray, pf_item = Some FString\<rparr>,
       \<lparr>pf_key = ''rejected'', pf_type = FArray, pf_item = Some FString\<rparr>,
       \<lparr>pf_key = ''verificationStatus'', pf_type = FString, pf_item = None\<rparr>],
     pc_obligations = [''Display evidence chain'',
       ''Display verification status'',
       ''Display rejected evidence'']\<rparr>"

definition ExecutionContract :: panel_contract where
  "ExecutionContract = \<lparr>pc_id = P08, pc_name = ''Execution'', pc_authority = LExecution, pc_source = ''runtime.execution'',
     pc_fields = [\<lparr>pf_key = ''activeExecutions'', pf_type = FArray, pf_item = Some FString\<rparr>,
       \<lparr>pf_key = ''receiptIds'', pf_type = FArray, pf_item = Some FString\<rparr>,
       \<lparr>pf_key = ''driftScore'', pf_type = FNumber, pf_item = None\<rparr>],
     pc_obligations = [''Display active executions'',
       ''Display receipts'',
       ''Display drift'']\<rparr>"

definition RealityContract :: panel_contract where
  "RealityContract = \<lparr>pc_id = P09, pc_name = ''Reality'', pc_authority = LEvidence, pc_source = ''reality.binding'',
     pc_fields = [\<lparr>pf_key = ''assumptions'', pf_type = FNumber, pf_item = None\<rparr>,
       \<lparr>pf_key = ''verified'', pf_type = FNumber, pf_item = None\<rparr>,
       \<lparr>pf_key = ''unknown'', pf_type = FNumber, pf_item = None\<rparr>,
       \<lparr>pf_key = ''failed'', pf_type = FNumber, pf_item = None\<rparr>,
       \<lparr>pf_key = ''evidenceScore'', pf_type = FNumber, pf_item = None\<rparr>,
       \<lparr>pf_key = ''nextExperiment'', pf_type = FString, pf_item = None\<rparr>,
       \<lparr>pf_key = ''mismatches'', pf_type = FArray, pf_item = Some FString\<rparr>],
     pc_obligations = [''Display reality inputs'',
       ''Display validation results'',
       ''Display mismatches'']\<rparr>"

definition ContinuityContract :: panel_contract where
  "ContinuityContract = \<lparr>pc_id = P10, pc_name = ''Continuity'', pc_authority = LContinuity, pc_source = ''continuity.matrix'',
     pc_fields = [\<lparr>pf_key = ''snapshotCount'', pf_type = FNumber, pf_item = None\<rparr>,
       \<lparr>pf_key = ''driftVectors'', pf_type = FArray, pf_item = Some FString\<rparr>,
       \<lparr>pf_key = ''replayable'', pf_type = FBoolean, pf_item = None\<rparr>,
       \<lparr>pf_key = ''anchorHash'', pf_type = FString, pf_item = None\<rparr>],
     pc_obligations = [''Display continuity matrix'',
       ''Display drift vectors'',
       ''Display replayable continuity'']\<rparr>"

definition ClusterContract :: panel_contract where
  "ClusterContract = \<lparr>pc_id = P11, pc_name = ''Cluster'', pc_authority = LCluster, pc_source = ''controlTower.cluster'',
     pc_fields = [\<lparr>pf_key = ''agents'', pf_type = FArray, pf_item = Some FString\<rparr>,
       \<lparr>pf_key = ''topology'', pf_type = FString, pf_item = None\<rparr>,
       \<lparr>pf_key = ''health'', pf_type = FString, pf_item = None\<rparr>,
       \<lparr>pf_key = ''onlineCount'', pf_type = FNumber, pf_item = None\<rparr>],
     pc_obligations = [''Display cluster topology'',
       ''Display agent identities'',
       ''Display cluster health'']\<rparr>"

definition FabricContract :: panel_contract where
  "FabricContract = \<lparr>pc_id = P12, pc_name = ''Compute Fabric'', pc_authority = LFabric, pc_source = ''sovereign-x.fabric'',
     pc_fields = [\<lparr>pf_key = ''nodes'', pf_type = FArray, pf_item = Some FObject\<rparr>,
       \<lparr>pf_key = ''tasks'', pf_type = FArray, pf_item = Some FObject\<rparr>,
       \<lparr>pf_key = ''health'', pf_type = FString, pf_item = None\<rparr>],
     pc_obligations = [''Display fabric nodes'',
       ''Display task routing'',
       ''Display fabric health'']\<rparr>"

definition ReplayContract :: panel_contract where
  "ReplayContract = \<lparr>pc_id = P13, pc_name = ''Replay'', pc_authority = LContinuity, pc_source = ''continuity.replay'',
     pc_fields = [\<lparr>pf_key = ''events'', pf_type = FArray, pf_item = Some FString\<rparr>,
       \<lparr>pf_key = ''temporalPackets'', pf_type = FNumber, pf_item = None\<rparr>,
       \<lparr>pf_key = ''replayReady'', pf_type = FBoolean, pf_item = None\<rparr>],
     pc_obligations = [''Display replay timeline'',
       ''Display temporal packets'',
       ''Display replayable events'']\<rparr>"

definition StewardshipContract :: panel_contract where
  "StewardshipContract = \<lparr>pc_id = P14, pc_name = ''Stewardship'', pc_authority = LStewardship, pc_source = ''stewardship.events'',
     pc_fields = [\<lparr>pf_key = ''actions'', pf_type = FArray, pf_item = Some FString\<rparr>,
       \<lparr>pf_key = ''maintenance'', pf_type = FArray, pf_item = Some FString\<rparr>,
       \<lparr>pf_key = ''constitutionalHealth'', pf_type = FNumber, pf_item = None\<rparr>],
     pc_obligations = [''Display stewardship actions'',
       ''Display maintenance logs'',
       ''Display constitutional health'']\<rparr>"

definition ALL_CONTRACTS :: "panel_contract list" where
  "ALL_CONTRACTS = [IdentityContract, ConstitutionContract, RuntimeStatusContract, MemoryEvidenceContract, IntentContract, AuthorityContract, EvidenceChainContract, ExecutionContract, RealityContract, ContinuityContract, ClusterContract, FabricContract, ReplayContract, StewardshipContract]"

definition CONTRACT_BY_ID :: "(panel_id, panel_contract) jsmap" where
  "CONTRACT_BY_ID = map (\<lambda>c. (pc_id c, c)) ALL_CONTRACTS"

primrec contract_of :: "panel_id \<Rightarrow> panel_contract" where
  "contract_of P01 = IdentityContract"
| "contract_of P02 = ConstitutionContract"
| "contract_of P03 = RuntimeStatusContract"
| "contract_of P04 = MemoryEvidenceContract"
| "contract_of P05 = IntentContract"
| "contract_of P06 = AuthorityContract"
| "contract_of P07 = EvidenceChainContract"
| "contract_of P08 = ExecutionContract"
| "contract_of P09 = RealityContract"
| "contract_of P10 = ContinuityContract"
| "contract_of P11 = ClusterContract"
| "contract_of P12 = FabricContract"
| "contract_of P13 = ReplayContract"
| "contract_of P14 = StewardshipContract"

lemmas contract_defs = IdentityContract_def ConstitutionContract_def RuntimeStatusContract_def MemoryEvidenceContract_def IntentContract_def AuthorityContract_def EvidenceChainContract_def ExecutionContract_def RealityContract_def ContinuityContract_def ClusterContract_def FabricContract_def ReplayContract_def StewardshipContract_def

lemma contract_by_id: "js_get CONTRACT_BY_ID p = Some (contract_of p)" "pc_id (contract_of p) = p" "distinct (map pf_key (pc_fields (contract_of p)))"
  by (cases p; simp add: CONTRACT_BY_ID_def ALL_CONTRACTS_def contract_defs)+

end
