(* ===== verification/Panels.thy ===== *)
theory Panels
  imports PanelContracts
begin

text \<open>
  The bindings of the cockpit's evidence panels (\<open>cockpit/src/crvs/bindings.ts\<close>), the metrics of the reality
  panel (\<open>cockpit/src/panels/RealityMetrics.ts\<close>), the panel bus (\<open>bus.ts\<close>) and the refresh of evidence
  (\<open>refresh.ts\<close>). The answer of a request is an argument, its fields with their declared types, except
  that the two health fields of the fabric's answer are any JSON, since the code tests them. A count
  is a natural number. An identifier that the server leaves out of an agent's status is the empty
  text. A fetch is atomic, and an answer after the deactivation is dropped.
\<close>

subsection \<open>Evidence\<close>

record evidence_packet =
  ep_source :: string
  ep_payload :: "(string \<times> json) list"
  ep_csrHash :: "string option"
  ep_time :: time
  ep_note :: "string option"

record sovereign_api =
  sv_seeded :: "bool option"
  sv_csrLength :: "nat option"
  sv_invariants :: "nat option"
  sv_fingerprint :: "string option"

record kernel_api =
  ka_invariantEngine :: "health option"
  ka_ledger :: "health option"
  ka_continuity :: "health option"
  ka_receiptCount :: "nat option"
  ka_snapshotCount :: "nat option"
  ka_activeInvariants :: "nat option"
  ka_engine :: "string option"
  ka_sovereignX :: "sovereign_api option"

record amendments_api =
  am_labels :: "string list option"
  am_amendments :: "(string \<times> string \<times> string) list option"

record intent_api =
  it_active :: "string option"
  it_queue :: "string list option"
  it_justification :: "bool option"
  it_unresolved :: "string list option"

record delegation_api =
  dg_grants :: "string list option"
  dg_delegation :: "string list option"
  dg_revocations :: "string list option"
  dg_status :: "string option"

record fabric_api =
  fa_nodes :: "json list option"
  fa_tasks :: "json list option"
  fa_health :: "json option"
  fa_status :: "json option"

record stewardship_api =
  sw_actions :: "string list option"
  sw_maintenance :: "string list option"
  sw_health :: "jsnum option"

record panel_answers =
  px_kernel :: "kernel_api reply"
  px_amendments :: "amendments_api reply"
  px_intent :: "intent_api reply"
  px_delegation :: "delegation_api reply"
  px_cluster :: "(string \<times> string) list option reply"
  px_fabric :: "fabric_api reply"
  px_stewardship :: "stewardship_api reply"

definition fetchJson :: "'a reply \<Rightarrow> 'a option" where
  "fetchJson r = apiFetch r"

definition AWAITING :: string where
  "AWAITING = ''awaiting evidence '' @ em_dash @ '' no live constitutional packet yet''"

definition mid_dot :: string where
  "mid_dot = '' '' @ [CHR 0xC2, CHR 0xB7] @ '' ''"

definition emptyPacket :: "string \<Rightarrow> string \<Rightarrow> time \<Rightarrow> evidence_packet" where
  "emptyPacket src note t = \<lparr>ep_source = src, ep_payload = [], ep_csrHash = None, ep_time = t, ep_note = Some note\<rparr>"

definition mapFields :: "panel_field list \<Rightarrow> (string \<times> json) list \<Rightarrow> (string \<times> json) list" where
  "mapFields fs payload = map (\<lambda>f. (pf_key f, case map_of payload (pf_key f) of None \<Rightarrow> JNull | Some v \<Rightarrow> v)) fs"

definition annotate :: "(string \<times> json) list \<Rightarrow> evidence_packet \<Rightarrow> (string \<times> json) list" where
  "annotate fs p = fs @ [(''_provenance'', JStr (or_old (ep_note p) ''live'')), (''_csrHash'', jopt_str (ep_csrHash p)),
     (''_source'', JStr (ep_source p)), (''_timestamp'', JStr (iso_string (ep_time p)))]"

definition filled :: "string option \<Rightarrow> bool" where
  "filled x \<longleftrightarrow> x \<noteq> None \<and> x \<noteq> Some []"

definition orElse :: "'b option \<Rightarrow> 'b option \<Rightarrow> 'b option" where
  "orElse x y = (case x of Some v \<Rightarrow> Some v | None \<Rightarrow> y)"

definition first_of_each :: "'b list \<Rightarrow> 'b list" where
  "first_of_each xs = rev (remdups (rev xs))"

primrec health_name :: "health \<Rightarrow> string" where
  "health_name HealthOk = ''ok''" | "health_name HealthWarn = ''warn''" | "health_name HealthError = ''error''"

primrec node_name :: "node_type \<Rightarrow> string" where
  "node_name SnapshotNode = ''snapshot''" | "node_name ReceiptNode = ''receipt''" | "node_name ViolationNode = ''violation''"

definition is_degraded :: "kstatus \<Rightarrow> bool" where
  "is_degraded k \<longleftrightarrow> kx_invariantEngine k \<noteq> HealthOk \<or> kx_ledger k \<noteq> HealthOk \<or> kx_continuity k \<noteq> HealthOk"

definition steps_with :: "cp_step_status list \<Rightarrow> 'a cockpit_st_scheme \<Rightarrow> string list" where
  "steps_with sts s = map st_description (filter (\<lambda>x. st_status x \<in> set sts) (co_steps s))"

definition is_blocked :: "cp_receipt \<Rightarrow> bool" where
  "is_blocked r \<longleftrightarrow> cr_blocked r = Some True"

subsection \<open>The reality panel\<close>

record reality_input =
  ri_receipts :: nat
  ri_blocked :: nat
  ri_errors :: nat
  ri_pending :: nat
  ri_degraded :: bool
  ri_goal :: bool

record reality =
  rs_assumptions :: nat
  rs_verified :: nat
  rs_unknown :: nat
  rs_failed :: nat
  rs_score :: jsnum
  rs_next :: string

definition js_round :: "jsnum \<Rightarrow> jsnum" where
  "js_round x = of_int \<lfloor>x + 1 / 2\<rfloor>"

definition score_of :: "nat \<Rightarrow> nat \<Rightarrow> jsnum" where
  "score_of verified assumptions =
     (if assumptions = 0 then 100 else js_div (js_round (js_mul (js_div (of_nat verified) (of_nat assumptions)) 1000)) 10)"

definition deriveRealitySnapshot :: "reality_input \<Rightarrow> reality" where
  "deriveRealitySnapshot i =
     (let verified = ri_receipts i - ri_blocked i;
          failed = ri_blocked i + ri_errors i + (if ri_degraded i then 1 else 0);
          unknown = ri_pending i + (if ri_goal i then 0 else 1);
          assumptions = verified + failed + unknown;
          n = (if ri_degraded i then ''Restore kernel health (ledger/continuity/invariants).''
               else if failed > 0 then ''Inspect failed receipts and resolve violations.''
               else if unknown > 0 then ''Complete pending plan steps with evidence.''
               else if verified = 0 then ''Run governed generate or plan to produce evidence.''
               else ''Run benchmark / observer Mission #002 checklist.'')
      in \<lparr>rs_assumptions = assumptions, rs_verified = verified, rs_unknown = unknown, rs_failed = failed,
          rs_score = score_of verified assumptions, rs_next = n\<rparr>)"

subsection \<open>The panels\<close>

text \<open>Each binding reads the stores and the answers of its own requests.\<close>

definition identity_evidence :: "kernel_api option \<Rightarrow> 'a bridge_st_scheme \<Rightarrow> time \<Rightarrow> evidence_packet" where
  "identity_evidence api s t =
     (let sx = Option.bind api ka_sovereignX; fp = Option.bind sx sv_fingerprint; csrLen = Option.bind sx sv_csrLength;
          engine = or_old (Option.bind api ka_engine) (kn_version s); hash = orElse fp (orElse (kn_anchor s) (kn_prefix s));
          hasLive = (filled hash \<or> api \<noteq> None)
      in if api = None \<and> \<not> filled hash \<and> engine = [] then emptyPacket ''identity.provenance'' AWAITING t
         else \<lparr>ep_source = ''identity.provenance'',
           ep_payload =
             [(''agentIdentity'', if filled fp then JStr (''sovereign-x:'' @ take 16 (the fp)) else JNull),
              (''constitutionalVersion'',
                 case sx of None \<Rightarrow> JNull | Some x \<Rightarrow>
                   (case sv_invariants x of None \<Rightarrow> JNull
                    | Some n \<Rightarrow> JStr (''Sovereign X'' @ mid_dot @ show_nat n @ '' invariants'' @ mid_dot @ ''seeded='' @
                        (if sv_seeded x = Some True then ''true'' else ''false'')))),
              (''constitutionalHash'', jopt_str hash),
              (''buildSignature'',
                 if engine = [] then JNull
                 else JStr (engine @ (case csrLen of None \<Rightarrow> [] | Some n \<Rightarrow> mid_dot @ ''csrLen='' @ show_nat n) @ mid_dot @ ''PIT-'' @ num_str (kn_pitBand s))),
              (''csrLineage'',
                 case csrLen of
                   Some n \<Rightarrow> JStr (''csrLength='' @ show_nat n @ (if filled fp then mid_dot @ ''fp:'' @ take 12 (the fp) else []))
                 | None \<Rightarrow> if filled hash then JStr (''anchor:'' @ take 12 (the hash)) else JNull)],
           ep_csrHash = hash, ep_time = t,
           ep_note = (if hasLive then
                        if filled fp then None
                        else Some (''Identity from kernel API without keyFingerprint '' @ em_dash @ '' CSR lineage partial'')
                      else Some (''CSR lineage pending '' @ em_dash @ '' kernel heartbeat / Sovereign X not yet received''))\<rparr>)"

definition violation_texts :: "'a cockpit_st_scheme \<Rightarrow> string list" where
  "violation_texts s = map (\<lambda>v. cv_invariant v @ '': '' @ cv_message v) (co_violations s)"

definition authority_chain :: "'a cockpit_st_scheme \<Rightarrow> string list" where
  "authority_chain s = first_of_each (map (the \<circ> cr_authority) (filter (filled \<circ> cr_authority) (co_receipts s)))"

definition constitution_evidence :: "kernel_api option \<Rightarrow> amendments_api option \<Rightarrow> 'a bridge_st_scheme \<Rightarrow> time \<Rightarrow> evidence_packet" where
  "constitution_evidence api am s t =
     (let sx = Option.bind api ka_sovereignX; count = Option.bind sx sv_invariants; invs = co_invariants s; viol = violation_texts s;
          chain = authority_chain s;
          amendments = (case Option.bind am am_labels of Some ls \<Rightarrow> ls | None \<Rightarrow>
             (case Option.bind am am_amendments of Some as \<Rightarrow> map (\<lambda>(i, title, status). status @ '':'' @ title) as | None \<Rightarrow> []))
      in \<lparr>ep_source = ''governance.kernel'',
          ep_payload = [(''invariants'', jstrs invs), (''authorityChain'', jstrs chain), (''amendments'', jstrs amendments), (''violations'', jstrs viol)],
          ep_csrHash = Option.bind sx sv_fingerprint, ep_time = t,
          ep_note = (if invs = [] \<and> viol = [] \<and> amendments = [] then
                       (case count of
                          Some n \<Rightarrow> if 0 < n then Some (''Sovereign X reports '' @ show_nat n @ '' invariants (ids not streamed to cockpit yet)'')
                                    else Some ''No invariant/violation/amendment packets yet''
                        | None \<Rightarrow> Some ''No invariant/violation/amendment packets yet'')
                     else if chain = [] then
                       Some (''Authority chain pending '' @ em_dash @ '' no receipt.authority values yet (chain not fabricated)'')
                     else None)\<rparr>)"

definition status_from_api :: "kernel_api \<Rightarrow> kstatus \<Rightarrow> kstatus" where
  "status_from_api a k =
     \<lparr>kx_invariantEngine = or_old (ka_invariantEngine a) (kx_invariantEngine k), kx_ledger = or_old (ka_ledger a) (kx_ledger k),
      kx_continuity = or_old (ka_continuity a) (kx_continuity k), kx_violations = kx_violations k,
      kx_receipts = or_old (ka_receiptCount a) (kx_receipts k), kx_snapshots = or_old (ka_snapshotCount a) (kx_snapshots k),
      kx_invariants = or_old (ka_activeInvariants a) (kx_invariants k)\<rparr>"

definition store_kernel_answer :: "kernel_api option \<Rightarrow> 'a bridge_st_scheme \<Rightarrow> 'a bridge_st_scheme" where
  "store_kernel_answer api s =
     (case api of
        None \<Rightarrow> s
      | Some a \<Rightarrow> if ka_invariantEngine a = None \<and> ka_ledger a = None \<and> ka_continuity a = None then s
                  else updateKernelStatus (status_from_api a (co_kernel s)) s)"

definition runtime_evidence :: "kernel_api option \<Rightarrow> 'a bridge_st_scheme \<Rightarrow> time \<Rightarrow> evidence_packet" where
  "runtime_evidence api s t =
     (let csr = orElse (Option.bind (Option.bind api ka_sovereignX) sv_fingerprint) (kn_anchor s)
      in \<lparr>ep_source = ''cse.kernelState'',
          ep_payload = [(''mode'', JStr (if is_degraded (co_kernel s) then ''degraded'' else ''governed'')),
            (''activeTasks'', jstrs (steps_with [StepRunning, StepPending] s)), (''csrHash'', jopt_str csr),
            (''continuityState'', JStr (health_name (kx_continuity (co_kernel s))))],
          ep_csrHash = csr, ep_time = t,
          ep_note = (if filled csr then None else Some ''CSR hash awaiting kernel / Sovereign X evidence'')\<rparr>)"

definition memory_evidence :: "'a bridge_st_scheme \<Rightarrow> time \<Rightarrow> evidence_packet" where
  "memory_evidence s t =
     \<lparr>ep_source = ''governance.receipts'',
      ep_payload = [(''receiptCount'', jnat (length (co_receipts s))), (''memoryShards'', jstrs (map cn_id (take 8 (co_timeline s)))),
        (''evidencePackets'', jstrs (map cr_id (take 8 (co_receipts s)))),
        (''replayPreview'', jstrs (map (\<lambda>n. node_name (cn_type n) @ '':'' @ take 8 (cn_hash n)) (take 5 (co_timeline s))))],
      ep_csrHash = None, ep_time = t,
      ep_note = (if co_receipts s = [] then Some (''Receipt ledger empty '' @ em_dash @ '' awaiting governed actions'') else None)\<rparr>"

definition intent_evidence :: "intent_api option \<Rightarrow> 'a bridge_st_scheme \<Rightarrow> time \<Rightarrow> evidence_packet" where
  "intent_evidence api s t =
     (let open_steps = steps_with [StepPending, StepFailed] s; queue = or_old (Option.bind api it_queue) [];
          goal = orElse (co_goal s) (Option.bind (co_plan s) pn_goal)
      in if filled (Option.bind api it_active) \<or> queue \<noteq> [] then
           \<lparr>ep_source = ''isl.intent'',
            ep_payload = [(''activeIntent'', jopt_str (Option.bind api it_active)), (''intentQueue'', jstrs queue),
              (''justificationRequired'', JBool (or_old (Option.bind api it_justification) True)),
              (''unresolved'', jstrs (or_old (Option.bind api it_unresolved) [] @ open_steps))],
            ep_csrHash = None, ep_time = t, ep_note = None\<rparr>
         else
           \<lparr>ep_source = ''isl.intent'',
            ep_payload = [(''activeIntent'', jopt_str goal), (''intentQueue'', jstrs (if filled goal then [the goal] else [])),
              (''justificationRequired'', JBool (or_old (Option.bind (co_plan s) pn_evidence) (filled goal))),
              (''unresolved'', jstrs open_steps)],
            ep_csrHash = None, ep_time = t,
            ep_note = (if filled goal then None else Some ''No ISL intent packet from spine yet'')\<rparr>)"

definition receipt_grants :: "'a cockpit_st_scheme \<Rightarrow> string list" where
  "receipt_grants s = first_of_each (filter (\<lambda>t. t \<noteq> []) (map (a_type \<circ> cr_action) (filter (Not \<circ> is_blocked) (co_receipts s))))"

definition authority_evidence :: "delegation_api option \<Rightarrow> 'a bridge_st_scheme \<Rightarrow> time \<Rightarrow> evidence_packet" where
  "authority_evidence del s t =
     (let grants = first_of_each (or_old (Option.bind del dg_grants) [] @ receipt_grants s);
          delegation = or_old (Option.bind del dg_delegation) [];
          revocations = or_old (Option.bind del dg_revocations) [] @
            map (\<lambda>r. cr_id r @ '':'' @ or_old (cr_reason r) ''blocked'') (filter is_blocked (co_receipts s))
      in \<lparr>ep_source = ''governance.authority'',
          ep_payload = [(''grants'', jstrs grants), (''delegation'', jstrs delegation), (''revocations'', jstrs revocations),
            (''authorityStatus'', JStr (or_old (Option.bind del dg_status) (if is_degraded (co_kernel s) then ''Degraded'' else ''Verified'')))],
          ep_csrHash = kn_prefix s, ep_time = t,
          ep_note = (if grants = [] \<and> delegation = [] \<and> revocations = [] then
                       Some ''No Control Tower delegation / receipt authority packets yet'' else None)\<rparr>)"

definition chain_evidence :: "'a bridge_st_scheme \<Rightarrow> time \<Rightarrow> evidence_packet" where
  "chain_evidence s t =
     (let verified = map cr_id (take 12 (filter (Not \<circ> is_blocked) (co_receipts s))); rejected = map cr_id (filter is_blocked (co_receipts s))
      in \<lparr>ep_source = ''governance.evidenceChain'',
          ep_payload = [(''verified'', jstrs verified), (''rejected'', jstrs rejected),
            (''verificationStatus'', if rejected = [] \<and> verified \<noteq> [] then JStr ''chain-ok'' else if verified = [] then JNull else JStr ''partial'')],
          ep_csrHash = None, ep_time = t, ep_note = (if verified = [] \<and> rejected = [] then Some AWAITING else None)\<rparr>)"

definition execution_evidence :: "'a bridge_st_scheme \<Rightarrow> time \<Rightarrow> evidence_packet" where
  "execution_evidence s t =
     (let active = steps_with [StepRunning] s; ids = map cr_id (take 10 (co_receipts s))
      in \<lparr>ep_source = ''runtime.execution'',
          ep_payload = [(''activeExecutions'', jstrs active), (''receiptIds'', jstrs ids), (''driftScore'', jnat (length (dr_divergences s)))],
          ep_csrHash = None, ep_time = t, ep_note = (if active = [] \<and> ids = [] then Some ''No execution receipts yet'' else None)\<rparr>)"

definition reality_of :: "'a cockpit_st_scheme \<Rightarrow> reality" where
  "reality_of s = deriveRealitySnapshot
     \<lparr>ri_receipts = length (co_receipts s), ri_blocked = length (filter is_blocked (co_receipts s)),
      ri_errors = length (filter (\<lambda>v. cv_severity v = ''error'' \<or> cv_severity v = ''critical'') (co_violations s)),
      ri_pending = length (steps_with [StepPending, StepRunning] s), ri_degraded = is_degraded (co_kernel s), ri_goal = filled (co_goal s)\<rparr>"

definition reality_evidence :: "'a bridge_st_scheme \<Rightarrow> time \<Rightarrow> evidence_packet" where
  "reality_evidence s t =
     (let r = reality_of s
      in \<lparr>ep_source = ''reality.binding'',
          ep_payload = [(''assumptions'', jnat (rs_assumptions r)), (''verified'', jnat (rs_verified r)), (''unknown'', jnat (rs_unknown r)),
            (''failed'', jnat (rs_failed r)), (''evidenceScore'', JNum (rs_score r)), (''nextExperiment'', JStr (rs_next r)),
            (''mismatches'', jstrs (map cv_message (co_violations s) @ (if is_degraded (co_kernel s) then [''kernel degraded''] else [])))],
          ep_csrHash = None, ep_time = t, ep_note = None\<rparr>)"

definition continuity_evidence :: "'a bridge_st_scheme \<Rightarrow> time \<Rightarrow> evidence_packet" where
  "continuity_evidence s t =
     \<lparr>ep_source = ''continuity.matrix'',
      ep_payload = [(''snapshotCount'', jnat (if co_timeline s = [] then kx_snapshots (co_kernel s) else length (co_timeline s))),
        (''driftVectors'', jstrs (map (\<lambda>d. dv_type d @ '':'' @ join '','' (dv_agents d)) (dr_divergences s))),
        (''replayable'', JBool (co_timeline s \<noteq> [])), (''anchorHash'', jopt_str (kn_anchor s))],
      ep_csrHash = kn_anchor s, ep_time = t,
      ep_note = (if co_timeline s = [] \<and> \<not> filled (kn_anchor s) then Some (''Continuity matrix empty '' @ em_dash @ '' awaiting snapshots'') else None)\<rparr>"

definition store_cluster_answer :: "(string \<times> string) list option option \<Rightarrow> 'a bridge_st_scheme \<Rightarrow> 'a bridge_st_scheme" where
  "store_cluster_answer api s =
     (let agents = or_old (or_old api None) []
      in if agents = [] then s else setClusterHeartbeat (polled_agents (filter (\<lambda>(i, st). i \<noteq> []) agents)) s)"

definition cluster_evidence :: "'a bridge_st_scheme \<Rightarrow> time \<Rightarrow> evidence_packet" where
  "cluster_evidence s t =
     (let agents = js_values (cl_agents s); online = filter (\<lambda>a. cg_status a = LinkOnline) agents; ids = map cg_id agents
      in \<lparr>ep_source = ''controlTower.cluster'',
          ep_payload = [(''agents'', jstrs ids), (''topology'', if ids = [] then JNull else JStr ''control-tower''),
            (''health'', if online \<noteq> [] then JStr ''nominal'' else if ids \<noteq> [] then JStr ''degraded'' else JNull),
            (''onlineCount'', jnat (length online))],
          ep_csrHash = None, ep_time = t,
          ep_note = (if ids = [] then Some (''Cluster empty '' @ em_dash @ '' awaiting Control Tower agents (no demo seed)'') else None)\<rparr>)"

definition not_null :: "json option \<Rightarrow> json option" where
  "not_null v = (if v = Some JNull then None else v)"

definition fabric_evidence :: "fabric_api reply \<Rightarrow> time \<Rightarrow> evidence_packet" where
  "fabric_evidence r t =
     (let unreachable = emptyPacket ''sovereign-x.fabric'' (''Fabric endpoint unreachable '' @ em_dash @ '' spine may be offline'') t
      in case r of
           NoAnswer \<Rightarrow> unreachable
         | Answer st body \<Rightarrow>
             if st < 200 \<or> 300 \<le> st then emptyPacket ''sovereign-x.fabric'' (''fabric HTTP '' @ show_nat st) t
             else case body of
                    None \<Rightarrow> unreachable
                  | Some f \<Rightarrow>
                      let nodes = or_old (fa_nodes f) []
                      in \<lparr>ep_source = ''sovereign-x.fabric'',
                          ep_payload = [(''nodes'', JArr nodes), (''tasks'', JArr (or_old (fa_tasks f) [])),
                            (''health'', or_old (orElse (not_null (fa_health f)) (not_null (fa_status f))) (if nodes \<noteq> [] then JStr ''online'' else JNull))],
                          ep_csrHash = None, ep_time = t, ep_note = (if nodes = [] then Some ''Fabric API returned no nodes'' else None)\<rparr>)"

definition fabric_fields :: "(string \<times> json) list \<Rightarrow> (string \<times> json) list" where
  "fabric_fields p =
     [(''nodes'', case map_of p ''nodes'' of Some (JArr xs) \<Rightarrow> JArr xs | _ \<Rightarrow> JArr []),
      (''tasks'', case map_of p ''tasks'' of Some (JArr xs) \<Rightarrow> JArr xs | _ \<Rightarrow> JArr []),
      (''health'', case map_of p ''health'' of Some (JStr x) \<Rightarrow> JStr x | _ \<Rightarrow> JNull)]"

definition replay_evidence :: "'a bridge_st_scheme \<Rightarrow> time \<Rightarrow> evidence_packet" where
  "replay_evidence s t =
     (let labels = map (\<lambda>n. node_name (cn_type n) @ ''@'' @ show_int (cn_time n)) (co_timeline s) @
            map (\<lambda>e. ce_type e @ '':'' @ or_old (ce_agent e) []) (take 8 (cl_events s))
      in \<lparr>ep_source = ''continuity.replay'',
          ep_payload = [(''events'', jstrs labels), (''temporalPackets'', jnat (length labels)), (''replayReady'', JBool (labels \<noteq> []))],
          ep_csrHash = None, ep_time = t, ep_note = (if labels = [] then Some ''No temporal packets yet'' else None)\<rparr>)"

definition local_health :: "'a cockpit_st_scheme \<Rightarrow> int" where
  "local_health s = max 0 (min 100 (100 - int (length (co_violations s)) * 8 - (if is_degraded (co_kernel s) then 25 else 0)))"

definition stewardship_evidence :: "stewardship_api option \<Rightarrow> 'a bridge_st_scheme \<Rightarrow> time \<Rightarrow> evidence_packet" where
  "stewardship_evidence api s t =
     (let acts = or_old (Option.bind api sw_actions) []; maint = or_old (Option.bind api sw_maintenance) []; h = Option.bind api sw_health;
          degraded = is_degraded (co_kernel s); n = length (co_receipts s)
      in if acts \<noteq> [] \<or> maint \<noteq> [] \<or> h \<noteq> None then
           \<lparr>ep_source = ''stewardship.events'',
            ep_payload = [(''actions'', jstrs acts), (''maintenance'', jstrs maint), (''constitutionalHealth'', JNum (or_old h 0))],
            ep_csrHash = None, ep_time = t, ep_note = None\<rparr>
         else
           \<lparr>ep_source = ''stewardship.events'',
            ep_payload = [(''actions'', jstrs (if n = 0 then [] else [''audited '' @ show_nat n @ '' receipt(s)''])),
              (''maintenance'', jstrs (if degraded then [''restore kernel health''] else if co_violations s \<noteq> [] then [''clear violations''] else [])),
              (''constitutionalHealth'', JNum (of_int (local_health s)))],
            ep_csrHash = None, ep_time = t, ep_note = Some (''Stewardship spine unreachable '' @ em_dash @ '' local derivation only'')\<rparr>)"

subsection \<open>Fetching and showing\<close>

primrec evidence_of :: "panel_answers \<Rightarrow> panel_id \<Rightarrow> 'a bridge_st_scheme \<Rightarrow> time \<Rightarrow> evidence_packet" where
  "evidence_of A P01 s t = identity_evidence (fetchJson (px_kernel A)) s t"
| "evidence_of A P02 s t = constitution_evidence (fetchJson (px_kernel A)) (fetchJson (px_amendments A)) s t"
| "evidence_of A P03 s t = runtime_evidence (fetchJson (px_kernel A)) s t"
| "evidence_of A P04 s t = memory_evidence s t"
| "evidence_of A P05 s t = intent_evidence (fetchJson (px_intent A)) s t"
| "evidence_of A P06 s t = authority_evidence (fetchJson (px_delegation A)) s t"
| "evidence_of A P07 s t = chain_evidence s t"
| "evidence_of A P08 s t = execution_evidence s t"
| "evidence_of A P09 s t = reality_evidence s t"
| "evidence_of A P10 s t = continuity_evidence s t"
| "evidence_of A P11 s t = cluster_evidence s t"
| "evidence_of A P12 s t = fabric_evidence (px_fabric A) t"
| "evidence_of A P13 s t = replay_evidence s t"
| "evidence_of A P14 s t = stewardship_evidence (fetchJson (px_stewardship A)) s t"

text \<open>Two panels write to the stores before they read them.\<close>

definition panel_writes :: "panel_answers \<Rightarrow> panel_id \<Rightarrow> 'a bridge_st_scheme \<Rightarrow> 'a bridge_st_scheme" where
  "panel_writes A p s =
     (if p = P03 then store_kernel_answer (fetchJson (px_kernel A)) s
      else if p = P11 then store_cluster_answer (fetchJson (px_cluster A)) s else s)"

definition fetchEvidence :: "sysenv \<Rightarrow> panel_answers \<Rightarrow> panel_id \<Rightarrow> 'a bridge_st_scheme \<Rightarrow> evidence_packet \<times> 'a bridge_st_scheme" where
  "fetchEvidence E A p s = (let s1 = panel_writes A p s; (t, s2) = take_now E s1 in (evidence_of A p s1 t, s2))"

definition project_packet :: "panel_id \<Rightarrow> evidence_packet \<Rightarrow> (string \<times> json) list" where
  "project_packet p k = mapFields (pc_fields (contract_of p)) (if p = P12 then fabric_fields (ep_payload k) else ep_payload k)"

record panel_st = sdk_st +
  pl_latest :: "(panel_id, (string \<times> json) list) jsmap"
  pl_activated :: bool

definition emit_panel :: "panel_id \<Rightarrow> (string \<times> json) list \<Rightarrow> 'a panel_st_scheme \<Rightarrow> 'a panel_st_scheme" where
  "emit_panel p d s = s\<lparr>pl_latest := js_set p d (pl_latest s)\<rparr>"

definition push_panel :: "sysenv \<Rightarrow> panel_answers \<Rightarrow> panel_id \<Rightarrow> 'a panel_st_scheme \<Rightarrow> 'a panel_st_scheme" where
  "push_panel E A p s =
     (if pl_activated s then let (k, s1) = fetchEvidence E A p s in emit_panel p (annotate (project_packet p k) k) s1 else s)"

definition push_all :: "sysenv \<Rightarrow> (panel_id \<Rightarrow> panel_answers) \<Rightarrow> 'a panel_st_scheme \<Rightarrow> 'a panel_st_scheme" where
  "push_all E A s = fold (\<lambda>p. push_panel E (A p) p) (map pc_id ALL_CONTRACTS) s"

definition activateAllBindings :: "sysenv \<Rightarrow> (panel_id \<Rightarrow> panel_answers) \<Rightarrow> 'a panel_st_scheme \<Rightarrow> 'a panel_st_scheme" where
  "activateAllBindings E A s = (if pl_activated s then s else requestEvidenceRefresh (push_all E A (s\<lparr>pl_activated := True\<rparr>)))"

definition deactivateAllBindings :: "'a panel_st_scheme \<Rightarrow> 'a panel_st_scheme" where
  "deactivateAllBindings s = s\<lparr>pl_activated := False\<rparr>"

text \<open>The refresh that is due runs the handlers of all bindings, once for however many requests.\<close>

definition refresh_evidence :: "sysenv \<Rightarrow> (panel_id \<Rightarrow> panel_answers) \<Rightarrow> 'a panel_st_scheme \<Rightarrow> 'a panel_st_scheme" where
  "refresh_evidence E A s = (if refresh_due s then push_all E A (s\<lparr>refresh_due := False\<rparr>) else s)"

datatype panel_event =
    Activate "panel_id \<Rightarrow> panel_answers"
  | Deactivate
  | Refresh "panel_id \<Rightarrow> panel_answers"
  | FallbackPoll panel_id panel_answers
  | FromSdk sdk_event
  | FromBridge bridge_event

primrec panel_step :: "sysenv \<Rightarrow> (json \<Rightarrow> gateway_event option) \<Rightarrow> panel_event \<Rightarrow> 'a panel_st_scheme \<Rightarrow> 'a panel_st_scheme" where
  "panel_step E Z (Activate A) s = activateAllBindings E A s"
| "panel_step E Z Deactivate s = deactivateAllBindings s"
| "panel_step E Z (Refresh A) s = refresh_evidence E A s"
| "panel_step E Z (FallbackPoll p A) s = push_panel E A p s"
| "panel_step E Z (FromSdk e) s = sdk_step E e s"
| "panel_step E Z (FromBridge e) s = bridge_step E (main_feed E) Z e s"

definition init_panels :: panel_st where
  "init_panels = sdk_st.extend init_sdk \<lparr>pl_latest = [], pl_activated = False\<rparr>"

subsection \<open>A panel shows what its contract declares\<close>

fun type_ok :: "field_type \<Rightarrow> json \<Rightarrow> bool" where
  "type_ok FString (JStr x) = True"
| "type_ok FNumber (JNum x) = True"
| "type_ok FBoolean (JBool x) = True"
| "type_ok FArray (JArr xs) = True"
| "type_ok FObject (JObj fs) = True"
| "type_ok ty v = False"

text \<open>The items of a list of texts are texts. The items of a list of objects, which only the fabric's panel
  has, are what the server sent: nothing checks them.\<close>

fun items_ok :: "field_type option \<Rightarrow> json \<Rightarrow> bool" where
  "items_ok (Some FString) (JArr xs) = list_all (type_ok FString) xs"
| "items_ok ty v = True"

text \<open>Only a text may be missing.\<close>

definition conforms :: "panel_field \<Rightarrow> json \<Rightarrow> bool" where
  "conforms f v \<longleftrightarrow> v = JNull \<and> pf_type f = FString \<or> type_ok (pf_type f) v \<and> items_ok (pf_item f) v"

definition fields_ok :: "panel_field list \<Rightarrow> (string \<times> json) list \<Rightarrow> bool" where
  "fields_ok fs payload \<longleftrightarrow> list_all (\<lambda>f. conforms f (case map_of payload (pf_key f) of None \<Rightarrow> JNull | Some v \<Rightarrow> v)) fs"

lemma jstrs_ok [simp]: "conforms \<lparr>pf_key = k, pf_type = FArray, pf_item = Some FString\<rparr> (jstrs xs)"
  by (simp add: conforms_def jstrs_def list_all_iff)

lemma conforms_simps [simp]:
  "conforms \<lparr>pf_key = k, pf_type = FString, pf_item = None\<rparr> JNull" "conforms \<lparr>pf_key = k, pf_type = FString, pf_item = None\<rparr> (JStr x)"
  "conforms \<lparr>pf_key = k, pf_type = FString, pf_item = None\<rparr> (jopt_str y)" "conforms \<lparr>pf_key = k, pf_type = FNumber, pf_item = None\<rparr> (JNum z)"
  "conforms \<lparr>pf_key = k, pf_type = FNumber, pf_item = None\<rparr> (jnat n)" "conforms \<lparr>pf_key = k, pf_type = FBoolean, pf_item = None\<rparr> (JBool b)"
  "conforms \<lparr>pf_key = k, pf_type = FArray, pf_item = Some FObject\<rparr> (JArr xs)"
  by (simp_all add: conforms_def jopt_str_def jnat_def split: option.split)

lemmas evidence_defs = identity_evidence_def constitution_evidence_def runtime_evidence_def memory_evidence_def intent_evidence_def
  authority_evidence_def chain_evidence_def execution_evidence_def reality_evidence_def continuity_evidence_def cluster_evidence_def
  replay_evidence_def stewardship_evidence_def

lemma empty_payload_ok: "\<forall>f\<in>set fs. pf_type f = FString \<Longrightarrow> fields_ok fs []"
  by (simp add: fields_ok_def list_all_iff conforms_def)

lemma identity_ok: "fields_ok (pc_fields IdentityContract) (ep_payload (identity_evidence api s t))"
proof -
  have "fields_ok (pc_fields IdentityContract) []" by (rule empty_payload_ok) (simp add: IdentityContract_def)
  then show ?thesis
    by (simp add: identity_evidence_def Let_def emptyPacket_def) (simp add: fields_ok_def IdentityContract_def split: option.split)
qed

lemma fabric_items_ok:
  "conforms \<lparr>pf_key = k, pf_type = FArray, pf_item = Some FObject\<rparr> (case x of Some (JArr xs) \<Rightarrow> JArr xs | _ \<Rightarrow> JArr [])"
  "conforms \<lparr>pf_key = k, pf_type = FString, pf_item = None\<rparr> (case x of Some (JStr y) \<Rightarrow> JStr y | _ \<Rightarrow> JNull)"
  by (auto split: option.split json.split)

lemma fabric_ok: "fields_ok (pc_fields FabricContract) (fabric_fields q)"
  by (simp add: fields_ok_def FabricContract_def fabric_fields_def fabric_items_ok)

lemma plain_ok:
  "fields_ok (pc_fields ConstitutionContract) (ep_payload (constitution_evidence api am s t))"
  "fields_ok (pc_fields RuntimeStatusContract) (ep_payload (runtime_evidence api s t))"
  "fields_ok (pc_fields MemoryEvidenceContract) (ep_payload (memory_evidence s t))"
  "fields_ok (pc_fields IntentContract) (ep_payload (intent_evidence ia s t))"
  "fields_ok (pc_fields AuthorityContract) (ep_payload (authority_evidence del s t))"
  "fields_ok (pc_fields EvidenceChainContract) (ep_payload (chain_evidence s t))"
  "fields_ok (pc_fields ExecutionContract) (ep_payload (execution_evidence s t))"
  "fields_ok (pc_fields RealityContract) (ep_payload (reality_evidence s t))"
  "fields_ok (pc_fields ContinuityContract) (ep_payload (continuity_evidence s t))"
  "fields_ok (pc_fields ClusterContract) (ep_payload (cluster_evidence s t))"
  "fields_ok (pc_fields ReplayContract) (ep_payload (replay_evidence s t))"
  "fields_ok (pc_fields StewardshipContract) (ep_payload (stewardship_evidence sa s t))"
  by (simp_all add: fields_ok_def contract_defs evidence_defs Let_def)

lemma evidence_ok: "fields_ok (pc_fields (contract_of p)) (if p = P12 then fabric_fields (ep_payload (evidence_of A p s t)) else ep_payload (evidence_of A p s t))"
  by (cases p) (simp_all add: identity_ok plain_ok fabric_ok)

lemma evidence_source: "ep_source (evidence_of A p s t) = pc_source (contract_of p)"
  by (cases p) (simp_all add: contract_defs evidence_defs fabric_evidence_def emptyPacket_def Let_def split: option.split reply.split)

text \<open>What a binding supplies: every field of its contract under its key, or, for two panels, the empty packet with a note.\<close>

lemma of_either: "Q x \<Longrightarrow> Q y \<Longrightarrow> Q (if c then x else y)"
  by simp

lemma identity_keys:
  "map fst (ep_payload (identity_evidence api s t)) = map pf_key (pc_fields IdentityContract) \<or>
   ep_payload (identity_evidence api s t) = [] \<and> ep_note (identity_evidence api s t) \<noteq> None"
  unfolding identity_evidence_def Let_def
  by (rule of_either) (simp_all add: emptyPacket_def IdentityContract_def)

lemma evidence_keys:
  "map fst (ep_payload (evidence_of A p s t)) = map pf_key (pc_fields (contract_of p)) \<or>
   p \<in> {P01, P12} \<and> ep_payload (evidence_of A p s t) = [] \<and> ep_note (evidence_of A p s t) \<noteq> None"
proof (cases "p = P01 \<or> p = P12")
  case True
  then show ?thesis
    using identity_keys [of "fetchJson (px_kernel A)" s t]
    by (auto simp: fabric_evidence_def fabric_fields_def emptyPacket_def FabricContract_def Let_def split: reply.split option.split)
next
  case False
  then show ?thesis by (cases p) (simp_all add: contract_defs evidence_defs Let_def)
qed

lemma contract_keys_distinct: "distinct (map pf_key (pc_fields (contract_of p)))"
  by (cases p) (simp_all add: contract_defs)

text \<open>Projecting a packet that has the keys of the contract gives it back.\<close>

lemma mapFields_same:
  assumes "map fst payload = map pf_key fs" and "distinct (map pf_key fs)"
  shows "mapFields fs payload = payload"
  using assms
proof (induction fs arbitrary: payload)
  case Nil
  then show ?case by (simp add: mapFields_def)
next
  case (Cons f fs)
  then obtain v rest where r: "payload = (pf_key f, v) # rest" "map fst rest = map pf_key fs" by (cases payload) auto
  have "pf_key x \<noteq> pf_key f" if "x \<in> set fs" for x using Cons.prems(2) that by (metis distinct.simps(2) image_eqI list.set_map list.simps(9))
  then have "mapFields fs payload = mapFields fs rest" by (auto simp: mapFields_def r(1))
  also have "\<dots> = rest" using Cons.IH r(2) Cons.prems(2) by simp
  finally show ?case by (simp add: mapFields_def r(1))
qed

text \<open>What a panel shows of an evidence packet.\<close>

definition shown_from :: "panel_answers \<Rightarrow> panel_id \<Rightarrow> 'a bridge_st_scheme \<Rightarrow> time \<Rightarrow> (string \<times> json) list" where
  "shown_from A p s t = annotate (project_packet p (evidence_of A p s t)) (evidence_of A p s t)"

lemma mapped_ok:
  assumes "fields_ok fs payload"
  shows "list_all2 conforms fs (map snd (mapFields fs payload))"
  using assms by (simp add: mapFields_def list_all2_conv_all_nth fields_ok_def list_all_length)

lemma shown:
  "map fst (shown_from A p s t) = map pf_key (pc_fields (contract_of p)) @ [''_provenance'', ''_csrHash'', ''_source'', ''_timestamp'']"
  "list_all2 conforms (pc_fields (contract_of p)) (map snd (take (length (pc_fields (contract_of p))) (shown_from A p s t)))"
  "map_of (shown_from A p s t) ''_source'' = Some (JStr (pc_source (contract_of p)))"
proof -
  let ?fs = "pc_fields (contract_of p)"
  let ?m = "project_packet p (evidence_of A p s t)"
  have m: "?m = mapFields ?fs (if p = P12 then fabric_fields (ep_payload (evidence_of A p s t)) else ep_payload (evidence_of A p s t))"
    by (simp add: project_packet_def)
  have k: "map fst ?m = map pf_key ?fs" "length ?m = length ?fs" by (simp_all add: m mapFields_def)
  have "''_source'' \<notin> set (map pf_key ?fs)" by (cases p) (simp_all add: contract_defs)
  then have "map_of ?m ''_source'' = None" by (simp add: map_of_eq_None_iff k(1) flip: set_map)
  with k mapped_ok [OF evidence_ok, of p A s t]
  show "map fst (shown_from A p s t) = map pf_key ?fs @ [''_provenance'', ''_csrHash'', ''_source'', ''_timestamp'']"
    "list_all2 conforms ?fs (map snd (take (length ?fs) (shown_from A p s t)))"
    "map_of (shown_from A p s t) ''_source'' = Some (JStr (pc_source (contract_of p)))"
    by (simp_all add: shown_from_def annotate_def evidence_source map_add_def flip: m)
qed

definition panels_ok :: "'a panel_st_scheme \<Rightarrow> bool" where
  "panels_ok s \<longleftrightarrow> (\<forall>p d. js_get (pl_latest s) p = Some d \<longrightarrow> (\<exists>A t. \<exists>u :: 'a panel_st_scheme. d = shown_from A p u t))"

lemma latest_more:
  fixes s t :: "'a panel_st_scheme"
  shows "bridge_st.more t = bridge_st.more s \<Longrightarrow> pl_latest t = pl_latest s"
    and "sdk_st.more t = sdk_st.more s \<Longrightarrow> pl_latest t = pl_latest s"
  by (cases s, cases t, simp)+

lemma panel_writes_more: "bridge_st.more (panel_writes A p s) = bridge_st.more s"
proof -
  have h: "bridge_st.more (setClusterHeartbeat hs u) = bridge_st.more u" for hs and u :: "'b bridge_st_scheme"
    unfolding setClusterHeartbeat_def
    by (induction hs arbitrary: u) (simp_all add: heartbeat_entry_def with_agent_entry_def split: prod.split)
  show ?thesis by (simp add: panel_writes_def store_kernel_answer_def store_cluster_answer_def updateKernelStatus_def h Let_def split: option.split)
qed

lemma push_ok: "panels_ok (s :: 'a panel_st_scheme) \<Longrightarrow> panels_ok (push_panel E A p s)"
proof -
  assume ok: "panels_ok s"
  obtain k u where f: "fetchEvidence E A p s = (k, u)" by fastforce
  then have k: "k = evidence_of A p (panel_writes A p s) (now_at E (tick (panel_writes A p s)))"
    and u: "bridge_st.more u = bridge_st.more s"
    by (auto simp: fetchEvidence_def take_now_def panel_writes_more Let_def)
  have "\<exists>B t. \<exists>w :: 'a panel_st_scheme. annotate (project_packet p k) k = shown_from B p w t"
    unfolding k shown_from_def by blast
  with ok latest_more(1) [OF u] show ?thesis
    by (simp add: push_panel_def f emit_panel_def panels_ok_def)
qed

lemma push_all_ok: "panels_ok s \<Longrightarrow> panels_ok (push_all E A s)"
proof -
  have "panels_ok u \<Longrightarrow> panels_ok (fold (\<lambda>p. push_panel E (A p) p) ps u)" for ps and u :: "'a panel_st_scheme"
    by (induction ps arbitrary: u) (simp_all add: push_ok)
  then show "panels_ok s \<Longrightarrow> panels_ok (push_all E A s)" by (simp add: push_all_def)
qed

text \<open>The other stores' operations leave the panels alone.\<close>

lemma fold_same: "(\<And>x s. g (f x s) = g s) \<Longrightarrow> g (fold f xs s) = g s"
  by (induction xs arbitrary: s) simp_all

lemma sdk_handlers_more:
  "sdk_st.more (on_plan E p s) = sdk_st.more s" "sdk_st.more (on_action E a s) = sdk_st.more s" "sdk_st.more (on_receipt E r s) = sdk_st.more s"
  "sdk_st.more (on_heartbeat E k s) = sdk_st.more s" "sdk_st.more (snd (sdk_snapshot_now E s)) = sdk_st.more s"
  by (simp_all add: on_plan_def on_action_def on_receipt_def on_heartbeat_def sdk_snapshot_now_def cockpit_actions Let_def)

lemma sdk_parts_more:
  "sdk_st.more (receipt_to_all E r s) = sdk_st.more s" "sdk_st.more (microtasks s) = sdk_st.more s"
  "sdk_st.more (snd (sdk_emitReceipt E a b s)) = sdk_st.more s" "sdk_st.more (fanOutReceipts E rs s) = sdk_st.more s"
  "sdk_st.more (nova_poll E r1 r2 s) = sdk_st.more s"
proof -
  show r: "sdk_st.more (receipt_to_all E r s) = sdk_st.more s" for r and s :: "'a sdk_st_scheme"
    by (simp add: receipt_to_all_def each_same [of sdk_st.more] sdk_handlers_more)
  show "sdk_st.more (microtasks s) = sdk_st.more s"
    using fold_same [of sdk_st.more "\<lambda>x. updateContinuityNode (sn_id x) (sn_time x) (sn_hash x)" "nv_pending s" s]
    by (simp add: microtasks_def updateContinuityNode_def)
  obtain n where "snd (sdk_emitReceipt E a b s) = receipt_to_all E (fst (sdk_emitReceipt E a b s)) (s\<lparr>tick := n\<rparr>)"
    using emit_is_announced [of E a b s] by blast
  then show "sdk_st.more (snd (sdk_emitReceipt E a b s)) = sdk_st.more s" by (simp add: r)
  show "sdk_st.more (fanOutReceipts E rs s) = sdk_st.more s"
    unfolding fanOutReceipts_def by (rule fold_same) (rule r)
  show "sdk_st.more (nova_poll E r1 r2 s) = sdk_st.more s"
    by (simp add: nova_poll_def emitKernelHeartbeat_def each_same [of sdk_st.more] sdk_handlers_more Let_def cockpit_actions)
qed

lemma sdk_step_more: "sdk_st.more (sdk_step E e s) = sdk_st.more s"
proof -
  have q: "sdk_st.more (fold sdk_requireInvariant xs u) = sdk_st.more u" for xs and u :: "'a sdk_st_scheme"
    by (rule fold_same) (simp add: sdk_requireInvariant_def)
  have p: "sdk_st.more (each_listener (on_plan E k) u) = sdk_st.more u" "sdk_st.more (each_listener (on_action E a) u) = sdk_st.more u"
    for k a and u :: "'a sdk_st_scheme" by (simp_all add: each_same [of sdk_st.more] sdk_handlers_more)
  have e: "sdk_st.more v = sdk_st.more u" if "sdk_emitReceipt E a b u = (r, v)" for a b r and u v :: "'a sdk_st_scheme"
    using sdk_parts_more(3) [of E a b u] that by simp
  show ?thesis
    by (cases e) (auto simp: begin_bridge_def finish_bridge_def teardownNovaEventBridge_def nova_plan_def nova_generateCode_def nova_applyPatch_def
        clear_due_def clearSignal_def setInvariants_def take_uuid_def sdk_parts_more sdk_handlers_more q p e Let_def
        split: option.split list.split prod.split)
qed

lemma heartbeats_more: "bridge_st.more (setClusterHeartbeat hs s) = bridge_st.more s"
  unfolding setClusterHeartbeat_def by (rule fold_same) (simp add: heartbeat_entry_def with_agent_entry_def split: prod.split)

lemma route_more: "bridge_st.more (routeEvent E (main_feed E) e s) = bridge_st.more s"
  by (cases e) (simp_all add: main_feed_def addReceiptFromGateway_def handleKernelHeartbeat_def updateAgentKernelStatus_def updateHeartbeat_def
    addAgentReceipt_def addAgentSnapshot_def with_agent_entry_def addViolationFromGateway_def addSnapshotFromGateway_def setPlanForAgent_def
    addActionLog_def appendDivergence_def addDriftEvent_def setDivergences_def setDriftAgents_def heartbeats_more take_uuid_def take_now_def Let_def)

lemma poll_more: "bridge_st.more (poll_round E (main_feed E) b a s) = bridge_st.more s"
proof -
  have k: "bridge_st.more (pollKernel E x u) = bridge_st.more u" for x and u :: "'a bridge_st_scheme"
    by (simp add: pollKernel_def updateKernelStatus_def setLastHeartbeat_def requestEvidenceRefresh_def take_now_def Let_def split: option.split)
  have c: "bridge_st.more (pollCluster x u) = bridge_st.more u" for x and u :: "'a bridge_st_scheme"
    by (simp add: pollCluster_def requestEvidenceRefresh_def heartbeats_more split: option.split)
  have a: "bridge_st.more (fold addReceipt rs u) = bridge_st.more u" for rs and u :: "'a bridge_st_scheme"
    by (rule fold_same) (simp add: addReceipt_def)
  have r: "bridge_st.more (pollReceipts (main_feed E) x u) = bridge_st.more u" for x and u :: "'a bridge_st_scheme"
    by (simp add: pollReceipts_def main_feed_def requestEvidenceRefresh_def a Let_def split: option.split)
  show ?thesis by (simp add: poll_round_def k c r Let_def)
qed

lemma bridge_step_more: "bridge_st.more (bridge_step E (main_feed E) Z e s) = bridge_st.more s"
proof (cases e)
  case (Message m)
  have i: "bridge_st.more u = bridge_st.more s" if "ingestReceiptPayload (main_feed E) m s = Some u" for u
    using that by (auto simp: ingestReceiptPayload_def main_feed_def addReceipt_def addReceiptFromGateway_def take_now_def
        split: option.splits if_splits)
  have h: "bridge_st.more (handleEvent E (main_feed E) Z j u) = bridge_st.more u" for j and u :: "'a bridge_st_scheme"
    by (simp add: handleEvent_def route_more split: option.split)
  show ?thesis by (auto simp: Message onNamed_def requestEvidenceRefresh_def h i split: option.split)
qed (simp_all add: poll_more route_more connectClusterBridge_def stream_error_def startRESTPolling_def disconnectClusterBridge_def Let_def)

lemma panels_ok_same:
  fixes s t :: "'a panel_st_scheme"
  shows "panels_ok s \<Longrightarrow> pl_latest t = pl_latest s \<Longrightarrow> panels_ok t"
  by (simp add: panels_ok_def)

lemma panel_step_ok: "panels_ok s \<Longrightarrow> panels_ok (panel_step E Z e s)"
proof (cases e)
  case (Activate A)
  assume ok: "panels_ok s"
  have "panels_ok (push_all E A (s\<lparr>pl_activated := True\<rparr>))"
    by (rule push_all_ok, rule panels_ok_same [OF ok]) simp
  then have "panels_ok (requestEvidenceRefresh (push_all E A (s\<lparr>pl_activated := True\<rparr>)))"
    by (rule panels_ok_same) (simp add: requestEvidenceRefresh_def)
  with ok show ?thesis by (simp add: Activate activateAllBindings_def)
next
  case Deactivate
  assume "panels_ok s"
  then show ?thesis unfolding Deactivate panel_step.simps by (rule panels_ok_same) (simp add: deactivateAllBindings_def)
next
  case (Refresh A)
  assume ok: "panels_ok s"
  have "panels_ok (push_all E A (s\<lparr>refresh_due := False\<rparr>))"
    by (rule push_all_ok, rule panels_ok_same [OF ok]) simp
  with ok show ?thesis by (simp add: Refresh refresh_evidence_def)
next
  case (FromSdk x)
  assume "panels_ok s"
  then show ?thesis unfolding FromSdk panel_step.simps by (rule panels_ok_same) (rule latest_more(2) [OF sdk_step_more])
next
  case (FromBridge x)
  assume "panels_ok s"
  then show ?thesis unfolding FromBridge panel_step.simps by (rule panels_ok_same) (rule latest_more(1) [OF bridge_step_more])
qed (simp add: push_ok)

interpretation panel_run: machine "panel_step E Z" panels_ok
  by unfold_locales (rule panel_step_ok)

subsection \<open>The score of the reality panel\<close>

lemma fl_scores [simp]: "fl 1000 = 1000" "fl 100 = 100"
  using fl_of_int [of 1000] fl_of_int [of 100] by simp_all

lemma share_le: "js_div (of_nat v) (of_nat a) \<le> 1 \<Longrightarrow> js_mul (js_div (of_nat v) (of_nat a)) 1000 \<le> 1000"
  using fl_mono [of "js_div (of_nat v) (of_nat a) * 1000" 1000] by (simp add: js_mul_def)

lemma score_bounds:
  assumes "v \<le> a"
  shows "0 \<le> score_of v a" and "score_of v a \<le> 100"
proof -
  let ?q = "js_div (of_nat v) (of_nat a)"
  have q: "0 \<le> ?q" "?q \<le> 1" using assms by (auto simp: js_div_def divide_le_eq intro!: fl_le_one)
  have r: "js_round (js_mul ?q 1000) \<le> 1000" using share_le [OF q(2)] unfolding js_round_def by (simp add: floor_le_iff)
  have "0 \<le> js_mul ?q 1000" using q by (simp add: js_mul_def)
  then have r0: "0 \<le> js_round (js_mul ?q 1000)" by (simp add: js_round_def)
  have "fl (js_round (js_mul ?q 1000) / 10) \<le> fl 100" by (rule fl_mono) (use r in simp)
  then show "score_of v a \<le> 100" by (simp add: score_of_def js_div_def [of _ 10])
  show "0 \<le> score_of v a" using r0 by (simp add: score_of_def js_div_def [of _ 10])
qed

lemma score_all: "score_of a a = 100"
proof -
  have "\<lfloor>2001 / 2 :: rat\<rfloor> = 1000" by (simp add: floor_eq_iff)
  then show ?thesis by (simp add: score_of_def js_div_def js_mul_def js_round_def)
qed

text \<open>One failure among three thousand is rounded away.\<close>

lemma score_rounds: "score_of 2999 3000 = 100"
proof -
  let ?q = "js_div (of_nat 2999) (of_nat 3000)"
  have e: "fl (2047 / 2048 :: rat) = 2047 / 2048" "fl (255875 / 256 :: rat) = 255875 / 256"
    using fl_exact [of 2047 "- 11"] fl_exact [of 255875 "- 8"] by (simp_all add: power_int_minus)
  have "fl (2047 / 2048) \<le> ?q" unfolding js_div_def by (rule fl_mono) simp
  then have "255875 / 256 \<le> ?q * 1000" unfolding e by simp
  then have "fl (255875 / 256) \<le> js_mul ?q 1000" unfolding js_mul_def by (rule fl_mono)
  then have l: "255875 / 256 \<le> js_mul ?q 1000" by (simp only: e)
  have "?q \<le> 1" by (simp add: js_div_def fl_le_one)
  with l share_le [of 2999 3000] have "\<lfloor>js_mul ?q 1000 + 1 / 2\<rfloor> = 1000" by (simp add: floor_eq_iff)
  then have "js_round (js_mul ?q 1000) = 1000" by (simp add: js_round_def)
  then show ?thesis by (simp add: score_of_def js_div_def [of _ 10])
qed

subsection \<open>Properties\<close>

text \<open>C38. The evidence panels, after any run of the cockpit, with answers of the servers whose fields have their declared
  types (the code casts them and checks none but the fabric's): what a panel shows is projected from an
  evidence packet of its binding, made of some stores and answers, that has exactly the fields of the contract, each under its key (or,
  for the identity and the fabric panel, is the empty packet with a note), and, except for the fabric, is shown
  unchanged. It has the fields in the contract's order and the four fields of the provenance, the source
  is the one of the contract, and every value is of its declared type, texts where a list of texts is declared; only a text
  can be missing. The items of the fabric's two lists are passed on as they came.\<close>

theorem panels_keep_contracts:
  assumes "js_get (pl_latest (fold (panel_step E Z) es init_panels)) p = Some d"
  shows "(\<exists>A t. \<exists>u :: panel_st. d = annotate (project_packet p (evidence_of A p u t)) (evidence_of A p u t) \<and>
        (map fst (ep_payload (evidence_of A p u t)) = map pf_key (pc_fields (contract_of p)) \<and>
           (p \<noteq> P12 \<longrightarrow> take (length (pc_fields (contract_of p))) d = ep_payload (evidence_of A p u t)) \<or>
         p \<in> {P01, P12} \<and> ep_payload (evidence_of A p u t) = [] \<and> ep_note (evidence_of A p u t) \<noteq> None)) \<and>
     map fst d = map pf_key (pc_fields (contract_of p)) @ [''_provenance'', ''_csrHash'', ''_source'', ''_timestamp''] \<and>
     list_all2 conforms (pc_fields (contract_of p)) (map snd (take (length (pc_fields (contract_of p))) d)) \<and>
     map_of d ''_source'' = Some (JStr (pc_source (contract_of p)))"
proof -
  have "panels_ok (fold (panel_step E Z) es init_panels)"
    by (rule panel_run.run_inv) (simp add: panels_ok_def init_panels_def sdk_st.defs)
  with assms obtain A t and u :: panel_st where d: "d = shown_from A p u t" unfolding panels_ok_def by blast
  let ?k = "evidence_of A p u t" and ?fs = "pc_fields (contract_of p)"
  have "take (length ?fs) d = ep_payload ?k" if k: "map fst (ep_payload ?k) = map pf_key ?fs" and "p \<noteq> P12"
  proof -
    have "project_packet p ?k = ep_payload ?k"
      using that mapFields_same [OF k contract_keys_distinct] by (simp add: project_packet_def)
    moreover have "length (ep_payload ?k) = length ?fs" using k by (metis length_map)
    ultimately show ?thesis by (simp add: d shown_from_def annotate_def)
  qed
  with evidence_keys [where A = A and p = p and s = u and t = t] have
    "map fst (ep_payload ?k) = map pf_key ?fs \<and> (p \<noteq> P12 \<longrightarrow> take (length ?fs) d = ep_payload ?k) \<or>
     p \<in> {P01, P12} \<and> ep_payload ?k = [] \<and> ep_note ?k \<noteq> None"
    by blast
  with shown [where A = A and p = p and s = u and t = t] show ?thesis unfolding d [symmetric] by (metis d shown_from_def)
qed

definition silent :: panel_answers where
  "silent = \<lparr>px_kernel = NoAnswer, px_amendments = NoAnswer, px_intent = NoAnswer, px_delegation = NoAnswer, px_cluster = NoAnswer,
     px_fabric = NoAnswer, px_stewardship = NoAnswer\<rparr>"

lemma push_activated [simp]: "pl_activated (push_panel E A q s) = pl_activated s"
proof -
  have "bridge_st.more (panel_writes A q s) = bridge_st.more s" by (rule panel_writes_more)
  then have "pl_activated (panel_writes A q s) = pl_activated s" by (cases s, cases "panel_writes A q s") simp
  then show ?thesis by (simp add: push_panel_def fetchEvidence_def emit_panel_def take_now_def Let_def)
qed

theorem panels_keep_contracts_witness:
  "\<exists>d. js_get (pl_latest (push_panel demo_env silent P09 (activateAllBindings demo_env (\<lambda>_. silent) init_panels))) P09 = Some d \<and>
     map_of d ''_source'' = Some (JStr ''reality.binding'') \<and>
     map fst d = [''assumptions'', ''verified'', ''unknown'', ''failed'', ''evidenceScore'', ''nextExperiment'', ''mismatches'',
       ''_provenance'', ''_csrHash'', ''_source'', ''_timestamp''] \<and>
     list_all2 conforms (pc_fields RealityContract) (map snd (take (length (pc_fields RealityContract)) d))"
proof -
  let ?s = "activateAllBindings demo_env (\<lambda>_. silent) init_panels"
  have "pl_activated ?s"
    by (simp add: activateAllBindings_def push_all_def requestEvidenceRefresh_def fold_same [of pl_activated])
  then obtain d where d: "js_get (pl_latest (push_panel demo_env silent P09 ?s)) P09 = Some d"
    by (cases "fetchEvidence demo_env silent P09 ?s") (simp add: push_panel_def emit_panel_def)
  have "map fst d = map pf_key (pc_fields (contract_of P09)) @ [''_provenance'', ''_csrHash'', ''_source'', ''_timestamp''] \<and>
      list_all2 conforms (pc_fields (contract_of P09)) (map snd (take (length (pc_fields (contract_of P09))) d)) \<and>
      map_of d ''_source'' = Some (JStr (pc_source (contract_of P09)))"
    using panels_keep_contracts [where E = demo_env and Z = "\<lambda>_. None" and es = "[Activate (\<lambda>_. silent), FallbackPoll P09 silent]" and p = P09 and d = d] d
    by simp
  with d show ?thesis by (simp add: RealityContract_def)
qed

text \<open>C39. What reading a panel changes. The panels are said to reveal only, and twelve of the fourteen do, whatever the servers
  answer: only the clock is read. The runtime panel overwrites the kernel's status in the cockpit
  with the server's, and the cluster panel writes the cluster view: an agent whose status in the answer is
  not an error, or not there, is online with a healthy kernel, also when it was drifting.\<close>

theorem panels_that_write:
  fixes s :: "'a bridge_st_scheme"
  shows "(\<exists>k as. snd (fetchEvidence E A p s) = s\<lparr>tick := Suc (tick s), co_kernel := k, cl_agents := as\<rparr> \<and>
       (p \<noteq> P03 \<longrightarrow> k = co_kernel s) \<and> (p \<noteq> P11 \<longrightarrow> as = cl_agents s)) \<and>
     (i \<noteq> [] \<and> st \<noteq> ''error'' \<and> fetchJson (px_cluster A) = Some (Some [(i, st)]) \<longrightarrow>
       (\<exists>a. js_get (cl_agents (snd (fetchEvidence E A P11 s))) i = Some a \<and> cg_status a = LinkOnline \<and> cg_kernel a = Some HealthOk)) \<and>
     (\<forall>x. fetchJson (px_kernel A) = Some x \<and> ka_ledger x \<noteq> None \<longrightarrow>
       co_kernel (snd (fetchEvidence E A P03 s)) = status_from_api x (co_kernel s))"
proof -
  have h: "\<exists>as. setClusterHeartbeat hs u = u\<lparr>cl_agents := as\<rparr>" for hs and u :: "'a bridge_st_scheme"
  proof (induction hs arbitrary: u)
    case Nil
    have "setClusterHeartbeat [] u = u\<lparr>cl_agents := cl_agents u\<rparr>" by (simp add: setClusterHeartbeat_def)
    then show ?case by blast
  next
    case (Cons h hs)
    obtain i k b where hh: "h = (i, k, b)" by (cases h)
    obtain as where "heartbeat_entry h u = u\<lparr>cl_agents := as\<rparr>" by (simp add: hh heartbeat_entry_def with_agent_entry_def)
    with Cons.IH [of "u\<lparr>cl_agents := as\<rparr>"] show ?case by (auto simp: setClusterHeartbeat_def)
  qed
  have "\<exists>as. store_cluster_answer c s = s\<lparr>cl_agents := as\<rparr>" for c
  proof (cases "or_old (or_old c None) [] = []")
    case True
    then have "store_cluster_answer c s = s\<lparr>cl_agents := cl_agents s\<rparr>" by (simp add: store_cluster_answer_def)
    then show ?thesis by blast
  next
    case False
    with h show ?thesis by (simp add: store_cluster_answer_def Let_def)
  qed
  then obtain as where as: "store_cluster_answer (fetchJson (px_cluster A)) s = s\<lparr>cl_agents := as\<rparr>" by blast
  have "store_kernel_answer c s = s\<lparr>co_kernel := co_kernel (store_kernel_answer c s)\<rparr>" for c
    by (cases c) (simp_all add: store_kernel_answer_def updateKernelStatus_def)
  then obtain k where k: "store_kernel_answer (fetchJson (px_kernel A)) s = s\<lparr>co_kernel := k\<rparr>" by blast
  have "\<exists>k as. snd (fetchEvidence E A p s) = s\<lparr>tick := Suc (tick s), co_kernel := k, cl_agents := as\<rparr> \<and>
       (p \<noteq> P03 \<longrightarrow> k = co_kernel s) \<and> (p \<noteq> P11 \<longrightarrow> as = cl_agents s)"
    by (rule exI [of _ "if p = P03 then k else co_kernel s"], rule exI [of _ "if p = P11 then as else cl_agents s"])
      (simp add: fetchEvidence_def panel_writes_def as k take_now_def Let_def)
  moreover have "\<exists>a. js_get (cl_agents (snd (fetchEvidence E A P11 s))) i = Some a \<and> cg_status a = LinkOnline \<and> cg_kernel a = Some HealthOk"
    if "i \<noteq> []" "st \<noteq> ''error''" "fetchJson (px_cluster A) = Some (Some [(i, st)])"
    using that by (simp add: fetchEvidence_def panel_writes_def store_cluster_answer_def or_old_def polled_agents_def setClusterHeartbeat_def
      heartbeat_entry_def with_agent_entry_def take_now_def Let_def)
  moreover have "co_kernel (snd (fetchEvidence E A P03 s)) = status_from_api x (co_kernel s)"
    if "fetchJson (px_kernel A) = Some x" "ka_ledger x \<noteq> None" for x
    using that by (auto simp: fetchEvidence_def panel_writes_def store_kernel_answer_def updateKernelStatus_def take_now_def Let_def)
  ultimately show ?thesis by blast
qed

theorem panels_that_write_witness:
  "\<exists>a. js_get (cl_agents (snd (fetchEvidence demo_env (silent\<lparr>px_cluster := Answer 200 (Some (Some [(''agent-beta'', ''drift'')]))\<rparr>) P11
     init_bridge))) ''agent-beta'' = Some a \<and> cg_status a = LinkOnline"
  using panels_that_write [of demo_env "silent\<lparr>px_cluster := Answer 200 (Some (Some [(''agent-beta'', ''drift'')]))\<rparr>" P11 init_bridge "''agent-beta''" "''drift''"]
  by (auto simp: fetchJson_def apiFetch_def)

text \<open>C40. The score of the reality panel is between 0 and 100, and 100 when nothing failed and nothing is open. It is
  rounded to a tenth, so it can be 100 with a failure: with 2999 receipts that passed and one that
  was blocked it is. The local health of the stewardship panel stays between 0 and 100 too.\<close>

theorem reality_score:
  fixes s :: "'a cockpit_st_scheme"
  shows "0 \<le> rs_score (deriveRealitySnapshot i) \<and> rs_score (deriveRealitySnapshot i) \<le> 100 \<and>
     rs_assumptions (deriveRealitySnapshot i) = rs_verified (deriveRealitySnapshot i) + rs_failed (deriveRealitySnapshot i) + rs_unknown (deriveRealitySnapshot i) \<and>
     (rs_failed (deriveRealitySnapshot i) = 0 \<and> rs_unknown (deriveRealitySnapshot i) = 0 \<longrightarrow> rs_score (deriveRealitySnapshot i) = 100) \<and>
     rs_score (deriveRealitySnapshot \<lparr>ri_receipts = 3000, ri_blocked = 1, ri_errors = 0, ri_pending = 0, ri_degraded = False, ri_goal = True\<rparr>) = 100 \<and>
     0 \<le> local_health s \<and> local_health s \<le> 100"
proof -
  have "rs_score (deriveRealitySnapshot \<lparr>ri_receipts = 3000, ri_blocked = 1, ri_errors = 0, ri_pending = 0, ri_degraded = False, ri_goal = True\<rparr>) = 100"
    by (simp add: deriveRealitySnapshot_def score_rounds)
  then show ?thesis
    by (simp add: deriveRealitySnapshot_def score_bounds score_all local_health_def Let_def)
qed

theorem reality_score_witness:
  "rs_score (deriveRealitySnapshot \<lparr>ri_receipts = 3, ri_blocked = 0, ri_errors = 0, ri_pending = 0, ri_degraded = False, ri_goal = True\<rparr>) = 100"
  using reality_score [of "\<lparr>ri_receipts = 3, ri_blocked = 0, ri_errors = 0, ri_pending = 0, ri_degraded = False, ri_goal = True\<rparr>" init_cockpit]
  by (simp add: deriveRealitySnapshot_def)

end
