(* ===== verification/Spec2Isabelle.thy ===== *)
theory Spec2Isabelle
  imports KernelRuns Session Ftss Rpds Qigem Igem Treaty Crk2 Fabric ModelRouter Auth ModelChecker
    Runtime Federation Arena Cql Orchestrator Spine Panels
begin

text \<open>
  Verification development of the governed coding agent and its kernels.

  \<^bold>\<open>The program.\<close> An agent (\<open>agent/core\<close>, \<open>agent/runtime\<close>) generates, explains and patches code with a language
  model. Every action passes a governance layer (\<open>agent/governance\<close>), which checks it against
  registered invariants and leaves a receipt in a hash-chained ledger. A constitutional kernel
  (\<open>agent/sovereign-x\<close>) stands above it: intents with a lifecycle, role boundaries, budgets, threat
  detection, and a second chained ledger of state records. Around the kernel stand federation (worlds,
  treaties, trust scores), identity (key epochs, the encrypted identity graph), a compute fabric, a
  multi-agent workflow (\<open>agent/cmas\<close>) with clients of external tools, quantum circuits (\<open>src/cql\<close>) and
  governed inference (\<open>src/governance\<close>, \<open>src/runtime\<close>, \<open>src/model\<close>). A second kernel (\<open>crk2\<close>) has its own action
  gate and constitution. The control tower and the server spine join the kernels, and the cockpit
  (\<open>cockpit/src\<close>) shows what they do.

  \<^bold>\<open>Base theories.\<close>
  \<^item> \<open>Prelude\<close>: JavaScript maps in insertion order, arrays and strings; the locales of a keyed store, of a state
    machine with an invariant and of one that also writes a log, whose lemmas are proved once and
    interpreted in the theory of every component that is one.
  \<^item> \<open>JsNumber\<close>: binary64 arithmetic, every operation rounding its exact rational result to nearest even.
    \<open>Json\<close>: values, \<open>JSON.stringify\<close> and its injectivity on the records that are hashed.
  \<^item> \<open>Chain\<close>: hash-chained logs; under a digest without collisions the last hash determines the log.
  \<^item> \<open>Regex\<close>: the matcher behind the pattern tables, proved to decide its language, by a measure on
    the expression and the text. \<open>Crypto\<close>: the platform's cryptography as parameters with laws.

  \<^bold>\<open>Governance and the kernel.\<close>
  \<^item> \<open>GovLedger\<close> (\<open>agent/governance/{receipts,ledger,invariants,validator,kernelStatus}.ts\<close>): the receipts and
    their log, and what decides about an action.
  \<^item> \<open>Csr\<close> (\<open>types.ts\<close>, \<open>storage.ts\<close> and the record operations of \<open>kernel.ts\<close>): the records; integrity is kept
    by every run, and tampering shows.
  \<^item> \<open>Accounting\<close>, \<open>Apid\<close>, \<open>Kernel\<close>, \<open>Govern\<close>, \<open>Session\<close>: budgets; threat detection and its scoring; intents,
    evidence, boundaries, arbitration and recovery; the governed action with all its gates; the
    sessions of a workflow. Spending is accounted for since the last reset of the budget. The lifecycle is stated
    as a step relation that \<open>enforceILC\<close> refines, and a session passes at most three stages.
    \<open>KernelRuns\<close> runs all the exported operations of the kernel together: what a governed intent must have had
    is stated over these runs.
  \<^item> \<open>Ftss\<close>, \<open>Rpds\<close>, \<open>Qigem\<close>, \<open>Igem\<close>, \<open>Worlds\<close>, \<open>Treaty\<close>, \<open>Fabric\<close>, \<open>ModelChecker\<close>, \<open>Runtime\<close>: the modules of
    \<open>agent/sovereign-x\<close> of those names. \<open>Federation\<close>, \<open>Arena\<close>: \<open>agent/federation\<close>. \<open>Auth\<close>: \<open>src/auth/permissions.ts\<close>.
  \<^item> \<open>Crk2\<close> (\<open>crk2/\<close>): the second kernel; a run accepts at most six steps for each amendment.

  \<^bold>\<open>The agent and its models.\<close>
  \<^item> \<open>ModelRouter\<close>, \<open>LlmClient\<close>, \<open>HardwareRouter\<close>, \<open>Predict\<close> (\<open>src/model\<close>, \<open>src/runtime\<close>, \<open>src/governance\<close>): which model is
    asked, how, how often (at most three times), and what is checked before and after.
  \<^item> \<open>Workspace\<close>, \<open>AgentCore\<close>, \<open>Completion\<close>: the files and tools of the agent, its operations, loops and
    events, inline completion.
  \<^item> \<open>Cql\<close>: circuits, their governance and the simulator; the simulator's loop is a \<open>partial_function\<close>, so
    whether it returns is part of the statements.
  \<^item> \<open>Mythar\<close>, \<open>Mechanic\<close>, \<open>Slingshot\<close>, \<open>Skillz\<close>, \<open>Skills\<close>, \<open>Cmas\<close>, \<open>Orchestrator\<close>: the clients of the tools, the
    skill registry, the five agents of a workflow and the workflow itself.

  \<^bold>\<open>The composition.\<close>
  \<^item> \<open>ControlTower\<close> (\<open>control-tower/\<close>, \<open>src/integration\<close>): the registry of agents and the governed submission of a
    task, which runs through the kernel's governed action, the fabric and the second kernel.
  \<^item> \<open>Spine\<close> (\<open>backend/nova-spine.ts\<close>, \<open>nova-adapter.ts\<close>, \<open>events-gateway.ts\<close>, the ingest routes): receipts mirrored
    between the ledgers and on the event stream, from a start on any log that is already there, with the
    second kernel writing to the same ledger.
  \<^item> \<open>Cockpit\<close>, \<open>CockpitBridge\<close>, \<open>NovaSdk\<close> (\<open>cockpit/src/{state,bridge}\<close>): the stores and what feeds them.
  \<^item> \<open>PanelContracts\<close>, \<open>Panels\<close> (\<open>cockpit/src/crvs\<close>, \<open>cockpit/src/panels/RealityMetrics.ts\<close>): what the evidence panels show, with the
    bindings that supply exactly the fields of the contracts, and which of them write.

  \<^bold>\<open>How the model is written.\<close> A module's variables are a record; modules that call each other extend one
  another's records, so an operation of one runs unchanged on the state of all: the platform's draws
  (\<open>sys_st\<close>) are extended by the governance ledger, accounting, threat detection, the kernel, the fabric, the
  tower and the spine, and along a second line by the model router, inference, the workspace, the agent,
  the workflow agents and the workflow. The random identifiers, the clock, the digest and the keys of
  the platform are an argument \<open>E\<close>; the language models, the file system, Python tools, the database, the
  shell, \<open>JSON.parse\<close> and the schema library are further arguments. So is what \<open>require\<close> does: the package is
  an ES module, in which it throws, and the code calls it in the constructor of the quantum client and in the
  model client; the definitions branch on it and the theorems say which case they are of. Where a theorem relies on what they
  do, it is a named hypothesis with a witness. A thrown error is the left value of a sum or \<open>None\<close>; a call
  that does not return is \<open>None\<close>; what a call did before it threw stays done. Calls are atomic: where an
  \<open>await\<close> lets other calls in between and this matters, the call is split into steps (the initialisation
  of the cockpit's bridge), and elsewhere the interleaving of calls is not modelled.

  \<^bold>\<open>Kinds of lemmas.\<close> Each component has the invariant of its state, kept by every operation and lifted
  to all runs by the interpretation of the machine locale; the outcome of its operations on every
  branch; and, where the program does something else than it says, the theorem that shows it. The
  theorems marked C1 to C40 are the properties; each that has a hypothesis is followed by a witness
  on a concrete input.

  \<^bold>\<open>Not modelled.\<close> The views of the cockpit; HTTP plumbing, command lines and
  logging; the database and audit output; the web service's own planner, executor and debugger,
  which are sequences of calls of services; the clients of external research systems under \<open>agent/\<close>
  (\<open>hydra\<close>, \<open>earth-os\<close>, \<open>paragon-one\<close> and their like), whose logic is in tools that are not here; values that
  are \<open>NaN\<close> or infinite, subnormal numbers, characters outside one byte (texts are UTF-8 bytes where
  the source has others), and property names that every JavaScript object inherits, as each
  theory says.
\<close>

end
